(* ===== verification/Prelude.thy ===== *)
theory Prelude
  imports Main "HOL-Library.Word" "HOL-Library.Product_Lexorder" "HOL-Library.Char_ord"
    "HOL-Library.List_Lexorder" "HOL-Library.Sublist"
begin

text \<open>
  Shared vocabulary of the development: the error-or-value type of a Go function returning
  \<open>(T, error)\<close> and its sequencing, the reading of a database table as a list of rows, the
  generic interfaces (an insertion order, a codec, a transition system) as locales, and the small
  list lemmas that several components use.
\<close>

section \<open>Results: a value or an error\<close>

text \<open>
  A Go function with result \<open>(T, error)\<close> is modelled by \<open>'e + 'a\<close>: \<open>Inl e\<close> is the return
  with a non-nil error, \<open>Inr x\<close> the return with a nil one. \<open>bindE\<close> is the statement
  \<open>if err != nil { return ..., err }\<close> between two calls.
\<close>

definition bindE :: "'e + 'a \<Rightarrow> ('a \<Rightarrow> 'e + 'b) \<Rightarrow> 'e + 'b" where
  "bindE m f = (case m of Inl e \<Rightarrow> Inl e | Inr x \<Rightarrow> f x)"

lemma bindE_simps [simp]:
  "bindE (Inl e) f = Inl e"
  "bindE (Inr x) f = f x"
  by (simp_all add: bindE_def)

lemma bindE_eq_Inr: "bindE m f = Inr y \<longleftrightarrow> (\<exists>x. m = Inr x \<and> f x = Inr y)"
  by (cases m) simp_all

lemma bindE_eq_Inl: "bindE m f = Inl e \<longleftrightarrow> m = Inl e \<or> (\<exists>x. m = Inr x \<and> f x = Inl e)"
  by (cases m) simp_all

lemma bindE_cong [fundef_cong]:
  "m = m' \<Longrightarrow> (\<And>x. m' = Inr x \<Longrightarrow> f x = f' x) \<Longrightarrow> bindE m f = bindE m' f'"
  by (cases m') simp_all

text \<open>\<open>liftE f m\<close> wraps the error of a callee in the caller's error type.\<close>

definition liftE :: "('d \<Rightarrow> 'e) \<Rightarrow> 'd + 'a \<Rightarrow> 'e + 'a" where
  "liftE f m = (case m of Inl e \<Rightarrow> Inl (f e) | Inr x \<Rightarrow> Inr x)"

lemma liftE_simps [simp]:
  "liftE f (Inl e) = Inl (f e)"
  "liftE f (Inr x) = Inr x"
  "liftE f m = Inr y \<longleftrightarrow> m = Inr y"
  by (simp_all add: liftE_def split: sum.splits)

text \<open>\<open>mapE f xs\<close> is a loop that appends \<open>f x\<close> to its result and returns at the first error.\<close>

primrec mapE :: "('a \<Rightarrow> 'e + 'b) \<Rightarrow> 'a list \<Rightarrow> 'e + 'b list" where
  "mapE f [] = Inr []"
| "mapE f (x # xs) = bindE (f x) (\<lambda>y. bindE (mapE f xs) (\<lambda>ys. Inr (y # ys)))"

lemma mapE_Inr_length: "mapE f xs = Inr ys \<Longrightarrow> length ys = length xs"
  by (induction xs arbitrary: ys) (auto simp: bindE_eq_Inr)

lemma mapE_Inr_set: "mapE f xs = Inr ys \<Longrightarrow> y \<in> set ys \<Longrightarrow> \<exists>x\<in>set xs. f x = Inr y"
  by (induction xs arbitrary: ys) (auto simp: bindE_eq_Inr)

lemma mapE_Inr_image: "mapE f xs = Inr ys \<Longrightarrow> Inr ` set ys = f ` set xs"
proof (induction xs arbitrary: ys)
  case (Cons x xs)
  then obtain z zs where "f x = Inr z" "mapE f xs = Inr zs" "ys = z # zs"
    by (auto simp: bindE_eq_Inr)
  with Cons.IH show ?case by simp
qed simp

text \<open>\<open>foldE f s xs\<close> is a loop that threads a state and returns at the first error.\<close>

primrec foldE :: "('s \<Rightarrow> 'a \<Rightarrow> 'e + 's) \<Rightarrow> 's \<Rightarrow> 'a list \<Rightarrow> 'e + 's" where
  "foldE f s [] = Inr s"
| "foldE f s (x # xs) = bindE (f s x) (\<lambda>s'. foldE f s' xs)"

lemma foldE_append: "foldE f s (xs @ ys) = bindE (foldE f s xs) (\<lambda>s'. foldE f s' ys)"
proof (induction xs arbitrary: s)
  case (Cons x xs)
  then show ?case by (cases "f s x") simp_all
qed simp

lemma foldE_invariant:
  assumes "foldE f s xs = Inr s'" and "I s"
    and "\<And>s x s''. x \<in> set xs \<Longrightarrow> I s \<Longrightarrow> f s x = Inr s'' \<Longrightarrow> I s''"
  shows "I s'"
  using assms
proof (induction xs arbitrary: s)
  case (Cons x xs)
  from Cons.prems(1) obtain t where t: "f s x = Inr t" "foldE f t xs = Inr s'"
    by (auto simp: bindE_eq_Inr)
  from Cons.prems(3) [OF _ Cons.prems(2) t(1)] have "I t" by simp
  then show ?case
    by (rule Cons.IH [OF t(2)]) (rule Cons.prems(3), auto)
qed simp

section \<open>Tables\<close>

text \<open>
  A database table is the list of its rows. A lookup by primary key is \<open>find\<close>; \<open>UPDATE\<close> is
  \<open>map_rows\<close>, \<open>DELETE\<close> is \<open>filter\<close>, and an upsert is \<open>put_row\<close>: replace the row with the key
  where there is one, append it otherwise. \<open>pk k t\<close> says that the column (or tuple of columns)
  \<open>k\<close> is a primary key of \<open>t\<close>.
\<close>

definition pk :: "('r \<Rightarrow> 'k) \<Rightarrow> 'r list \<Rightarrow> bool" where
  "pk k t \<longleftrightarrow> distinct (map k t)"

definition row_of :: "('r \<Rightarrow> 'k) \<Rightarrow> 'k \<Rightarrow> 'r list \<Rightarrow> 'r option" where
  "row_of k x t = find (\<lambda>r. k r = x) t"

definition map_rows :: "('r \<Rightarrow> bool) \<Rightarrow> ('r \<Rightarrow> 'r) \<Rightarrow> 'r list \<Rightarrow> 'r list" where
  "map_rows p f t = map (\<lambda>r. if p r then f r else r) t"

definition put_row :: "('r \<Rightarrow> 'k) \<Rightarrow> 'r \<Rightarrow> 'r list \<Rightarrow> 'r list" where
  "put_row k r t =
     (if \<exists>r'\<in>set t. k r' = k r then map_rows (\<lambda>r'. k r' = k r) (\<lambda>_. r) t else t @ [r])"

lemma row_of_None: "row_of k x t = None \<longleftrightarrow> (\<forall>r\<in>set t. k r \<noteq> x)"
  by (auto simp: row_of_def find_None_iff)

lemma row_of_Some: "row_of k x t = Some r \<Longrightarrow> r \<in> set t \<and> k r = x"
  by (auto simp: row_of_def find_Some_iff)

lemma row_of_pk: "pk k t \<Longrightarrow> row_of k x t = Some r \<longleftrightarrow> r \<in> set t \<and> k r = x"
proof (induction t)
  case (Cons a t)
  then show ?case by (auto simp: row_of_def pk_def)
qed (simp add: row_of_def)

lemma row_of_append:
  "row_of k x (t @ u) = (case row_of k x t of Some r \<Rightarrow> Some r | None \<Rightarrow> row_of k x u)"
  by (induction t) (auto simp: row_of_def)

lemma row_of_map_rows:
  assumes "\<And>r. k (f r) = k r"
  shows "row_of k x (map_rows p f t) = map_option (\<lambda>r. if p r then f r else r) (row_of k x t)"
  by (induction t) (auto simp: row_of_def map_rows_def assms)

lemma row_of_overwrite:
  "row_of k x (map_rows (\<lambda>r'. k r' = k r) (\<lambda>_. r) t) =
     (if x = k r then (if \<exists>r'\<in>set t. k r' = k r then Some r else None) else row_of k x t)"
  by (induction t) (auto simp: row_of_def map_rows_def)

lemma row_of_simps [simp]:
  "row_of k x [] = None"
  "row_of k x (r # t) = (if k r = x then Some r else row_of k x t)"
  by (simp_all add: row_of_def)

lemma row_of_put_row [simp]:
  "row_of k x (put_row k r t) = (if x = k r then Some r else row_of k x t)"
proof (cases "\<exists>r'\<in>set t. k r' = k r")
  case True
  then show ?thesis by (simp add: put_row_def row_of_overwrite)
next
  case False
  then have none: "row_of k (k r) t = None" by (simp add: row_of_None)
  from False have "put_row k r t = t @ [r]" by (simp add: put_row_def)
  with none show ?thesis by (simp add: row_of_append split: option.split)
qed

lemma put_row_None: "row_of k (k r) t = None \<Longrightarrow> t @ [r] = put_row k r t"
  by (auto simp: put_row_def row_of_None)

lemma pk_map_rows: "(\<And>r. k (f r) = k r) \<Longrightarrow> pk k (map_rows p f t) = pk k t"
proof -
  assume k: "\<And>r. k (f r) = k r"
  have "map k (map_rows p f t) = map k t"
    by (induction t) (auto simp: map_rows_def k)
  then show ?thesis by (simp add: pk_def)
qed

lemma pk_put_row [simp]:
  assumes "pk k t"
  shows "pk k (put_row k r t)"
proof -
  have "map k (map_rows (\<lambda>r'. k r' = k r) (\<lambda>_. r) t) = map k t"
    by (induction t) (auto simp: map_rows_def)
  with assms show ?thesis by (auto simp: pk_def put_row_def)
qed

lemma pk_filter [simp]: "pk k t \<Longrightarrow> pk k (filter p t)"
  by (simp add: pk_def distinct_map_filter)

lemma pk_snoc: "pk k (t @ [r]) \<longleftrightarrow> pk k t \<and> (\<forall>r'\<in>set t. k r' \<noteq> k r)"
  by (auto simp: pk_def image_iff)

section \<open>Lists\<close>

text \<open>\<open>dedup\<close> is the loop with a \<open>seen\<close> map: the first occurrence of each element, in order.\<close>

fun dedup_seen :: "'a list \<Rightarrow> 'a list \<Rightarrow> 'a list" where
  "dedup_seen seen [] = []"
| "dedup_seen seen (x # xs) =
     (if x \<in> set seen then dedup_seen seen xs else x # dedup_seen (x # seen) xs)"

abbreviation dedup :: "'a list \<Rightarrow> 'a list" where
  "dedup \<equiv> dedup_seen []"

lemma set_dedup_seen: "set (dedup_seen seen xs) = set xs - set seen"
  by (induction seen xs rule: dedup_seen.induct) auto

lemma set_dedup [simp]: "set (dedup xs) = set xs"
  by (simp add: set_dedup_seen)

lemma distinct_dedup_seen [simp]: "distinct (dedup_seen seen xs)"
  by (induction seen xs rule: dedup_seen.induct) (auto simp: set_dedup_seen)

lemma sorted_distinct_strict: "sorted xs \<Longrightarrow> distinct xs \<Longrightarrow> sorted_wrt (<) xs"
  by (simp add: strict_sorted_iff)

lemma sorted_wrt_last:
  "sorted_wrt R xs \<Longrightarrow> x \<in> set xs \<Longrightarrow> x = last xs \<or> R x (last xs)"
  by (induction xs) auto

lemma sorted_last_max: "sorted (map f xs) \<Longrightarrow> x \<in> set xs \<Longrightarrow> f x \<le> (f (last xs) :: 'k::linorder)"
  by (induction xs) auto

text \<open>The element at position \<open>m\<close> of a filtered list, in terms of the list.\<close>

lemma filter_nth_position:
  "m < length (filter p xs) \<Longrightarrow>
     \<exists>j<length xs. xs ! j = filter p xs ! m \<and> p (xs ! j) \<and> length (filter p (take j xs)) = m"
proof (induction xs arbitrary: m)
  case (Cons x xs)
  show ?case
  proof (cases "p x \<and> m = 0")
    case True
    then show ?thesis by (intro exI [of _ 0]) simp
  next
    case False
    with Cons.prems have "(if p x then m - 1 else m) < length (filter p xs)" by (auto split: if_splits)
    from Cons.IH [OF this] obtain j where "j < length xs"
      "xs ! j = filter p xs ! (if p x then m - 1 else m)" "p (xs ! j)"
      "length (filter p (take j xs)) = (if p x then m - 1 else m)" by blast
    with False show ?thesis by (intro exI [of _ "Suc j"]) (auto split: if_splits)
  qed
qed simp

lemma sum_of_bool_filter: "(\<Sum>x\<leftarrow>xs. if p x then 1 else 0) = int (length (filter p xs))"
  by (induction xs) simp_all

lemma sorted_strict_dedup_sort: "distinct xs \<Longrightarrow> sorted_wrt (<) (sort (xs :: 'a::linorder list))"
  by (simp add: strict_sorted_iff)

section \<open>A strict total order used for insertion\<close>

text \<open>
  A comparison function of the code (\<open>less\<close>) that is a strict total order on the keys of the
  elements: what \<open>sort.Slice\<close> and \<open>sort.Search\<close> need of it.
\<close>

locale strict_order =
  fixes less :: "'a \<Rightarrow> 'a \<Rightarrow> bool"
  assumes irrefl: "\<not> less x x"
    and trans: "less x y \<Longrightarrow> less y z \<Longrightarrow> less x z"
    and negtrans: "less x z \<Longrightarrow> less x y \<or> less y z"
begin

lemma asym: "less x y \<Longrightarrow> \<not> less y x"
  using irrefl trans by blast

text \<open>The predicate of the binary search is monotone along a sorted list.\<close>

lemma search_mono:
  assumes "sorted_wrt (\<lambda>x y. \<not> less y x) xs" and "i \<le> j" and "j < length xs"
    and "less e (xs ! i)"
  shows "less e (xs ! j)"
proof (cases "i = j")
  case False
  with assms have "\<not> less (xs ! j) (xs ! i)" by (simp add: sorted_wrt_iff_nth_less)
  with assms(4) negtrans show ?thesis by blast
qed (use assms in simp)

lemma insert_sorted_wrt:
  assumes "sorted_wrt (\<lambda>x y. \<not> less y x) xs" and "n \<le> length xs"
    and before: "\<And>i. i < n \<Longrightarrow> \<not> less e (xs ! i)"
    and after: "n < length xs \<Longrightarrow> less e (xs ! n)"
  shows "sorted_wrt (\<lambda>x y. \<not> less y x) (take n xs @ e # drop n xs)"
proof -
  have "\<not> less e x" if "x \<in> set (take n xs)" for x
    using that before by (auto simp: in_set_conv_nth)
  moreover have "less e x" if "x \<in> set (drop n xs)" for x
  proof -
    from that obtain j where j: "n \<le> j" "j < length xs" "x = xs ! j"
      by (auto simp: in_set_conv_nth) (metis le_add1 less_diff_conv add.commute)
    then have "n < length xs" by simp
    then have "less e (xs ! n)" by (rule after)
    with j assms(1) show ?thesis using search_mono by blast
  qed
  moreover have "\<not> less y x" if "x \<in> set (take n xs)" "y \<in> set (drop n xs)" for x y
  proof -
    have "sorted_wrt (\<lambda>x y. \<not> less y x) (take n xs @ drop n xs)" using assms(1) by simp
    with that show ?thesis unfolding sorted_wrt_append by blast
  qed
  moreover have "sorted_wrt (\<lambda>x y. \<not> less y x) (take n xs)"
    "sorted_wrt (\<lambda>x y. \<not> less y x) (drop n xs)"
    using assms(1) by (simp_all add: sorted_wrt_take sorted_wrt_drop)
  ultimately show ?thesis
    using asym by (auto simp: sorted_wrt_append)
qed

end

section \<open>Codecs\<close>

text \<open>
  An encoder and a decoder that agree on the values \<open>ok\<close>: decoding an encoded value gives it
  back. Encoding is then injective, and two codecs compose.
\<close>

locale codec =
  fixes enc :: "'a \<Rightarrow> 'b" and dec :: "'b \<Rightarrow> 'a option" and ok :: "'a \<Rightarrow> bool"
  assumes dec_enc: "ok x \<Longrightarrow> dec (enc x) = Some x"
begin

lemma enc_inj: "ok x \<Longrightarrow> ok y \<Longrightarrow> enc x = enc y \<Longrightarrow> x = y"
  using dec_enc by (metis option.inject)

end

section \<open>Frames\<close>

text \<open>
  What a step leaves alone, as a reflexive and transitive relation between the states before and
  after: a loop of such steps leaves it alone too.
\<close>

locale frame_rule =
  fixes R :: "'s \<Rightarrow> 's \<Rightarrow> bool"
  assumes frame_refl: "R s s"
    and frame_trans: "R s t \<Longrightarrow> R t u \<Longrightarrow> R s u"
begin

lemma foldE_frame:
  assumes "foldE f a xs = Inr b"
    and "\<And>x s t. x \<in> set xs \<Longrightarrow> f s x = Inr t \<Longrightarrow> R (st s) (st t)"
  shows "R (st a) (st b)"
  using assms
proof (induction xs arbitrary: a)
  case Nil
  then show ?case by (simp add: frame_refl)
next
  case (Cons x xs)
  from Cons.prems(1) obtain c where c: "f a x = Inr c" "foldE f c xs = Inr b"
    by (auto simp: bindE_eq_Inr)
  have "R (st a) (st c)" by (rule Cons.prems(2) [OF _ c(1)]) simp
  moreover have "R (st c) (st b)"
    by (rule Cons.IH [OF c(2)]) (rule Cons.prems(2), auto)
  ultimately show ?case by (rule frame_trans)
qed

end

section \<open>Transition systems\<close>

text \<open>Reachability, and the rule that an inductive invariant holds in every reachable state.\<close>

inductive reaches :: "('s \<Rightarrow> bool) \<Rightarrow> ('s \<Rightarrow> 's \<Rightarrow> bool) \<Rightarrow> 's \<Rightarrow> bool"
  for init step where
  reaches_init: "init s \<Longrightarrow> reaches init step s"
| reaches_step: "reaches init step s \<Longrightarrow> step s t \<Longrightarrow> reaches init step t"

locale invariant_system =
  fixes init :: "'s \<Rightarrow> bool" and step :: "'s \<Rightarrow> 's \<Rightarrow> bool" and inv :: "'s \<Rightarrow> bool"
  assumes init_inv: "init s \<Longrightarrow> inv s"
    and step_inv: "inv s \<Longrightarrow> step s t \<Longrightarrow> inv t"
begin

lemma reachable_inv: "reaches init step s \<Longrightarrow> inv s"
  by (induction rule: reaches.induct) (auto intro: init_inv step_inv)

end

end
