(* ===== verification/Go_Ints.thy ===== *)
theory Go_Ints
  imports Prelude
begin

text \<open>
  Go's sized integers and its \<open>float64\<close>, as far as the program uses them.

  A value of a signed Go integer type is an \<^typ>\<open>int\<close> in the type's range. A conversion such as
  \<open>int32(x)\<close>, and arithmetic whose result may leave the range, keeps the low bits of the two's
  complement representation: \<open>wrap32\<close>, \<open>wrap64\<close> and so on. A \<open>float64\<close> is its 64 bits
  (\<open>math.Float64bits\<close>); the program only copies floats, compares them and tests them for NaN and
  infinity, all of which are read off the bits.
\<close>

section \<open>Signed integers\<close>

definition wrap :: "nat \<Rightarrow> int \<Rightarrow> int" where
  "wrap w x = (x + 2 ^ (w - 1)) mod 2 ^ w - 2 ^ (w - 1)"

abbreviation wrap8 :: "int \<Rightarrow> int" where "wrap8 \<equiv> wrap 8"
abbreviation wrap16 :: "int \<Rightarrow> int" where "wrap16 \<equiv> wrap 16"
abbreviation wrap32 :: "int \<Rightarrow> int" where "wrap32 \<equiv> wrap 32"
abbreviation wrap64 :: "int \<Rightarrow> int" where "wrap64 \<equiv> wrap 64"

definition in_range :: "nat \<Rightarrow> int \<Rightarrow> bool" where
  "in_range w x \<longleftrightarrow> - (2 ^ (w - 1)) \<le> x \<and> x < 2 ^ (w - 1)"

definition max_int32 :: int where "max_int32 = 2147483647"
definition min_int32 :: int where "min_int32 = -2147483648"
definition max_int16 :: int where "max_int16 = 32767"
definition max_int64 :: int where "max_int64 = 9223372036854775807"
definition min_int64 :: int where "min_int64 = -9223372036854775808"

lemmas int_bounds = max_int32_def min_int32_def max_int16_def max_int64_def min_int64_def

lemma wrap_id [simp]: "0 < w \<Longrightarrow> in_range w x \<Longrightarrow> wrap w x = x"
proof -
  assume w: "0 < w" and r: "in_range w x"
  from w have "(2::int) ^ w = 2 * 2 ^ (w - 1)" by (cases w) simp_all
  with r have "(x + 2 ^ (w - 1)) mod 2 ^ w = x + 2 ^ (w - 1)"
    by (intro mod_pos_pos_trivial) (auto simp: in_range_def)
  then show ?thesis by (simp add: wrap_def)
qed

lemma wrap_in_range: "0 < w \<Longrightarrow> in_range w (wrap w x)"
proof -
  assume w: "0 < w"
  from w have p: "(2::int) ^ w = 2 * 2 ^ (w - 1)" by (cases w) simp_all
  have "0 \<le> (x + 2 ^ (w - 1)) mod 2 ^ w" "(x + 2 ^ (w - 1)) mod 2 ^ w < 2 ^ w"
    by simp_all
  with p show ?thesis unfolding in_range_def wrap_def by linarith
qed

lemma wrap32_id: "-2147483648 \<le> x \<Longrightarrow> x \<le> 2147483647 \<Longrightarrow> wrap32 x = x"
  by (rule wrap_id) (simp_all add: in_range_def)

lemma wrap64_id: "-9223372036854775808 \<le> x \<Longrightarrow> x \<le> 9223372036854775807 \<Longrightarrow> wrap64 x = x"
  by (rule wrap_id) (simp_all add: in_range_def)

lemma wrap32_bounds: "-2147483648 \<le> wrap32 x" "wrap32 x \<le> 2147483647"
  using wrap_in_range [of 32 x] by (simp_all add: in_range_def)

text \<open>An unsigned conversion such as \<open>uint8(x)\<close>.\<close>

definition uwrap :: "nat \<Rightarrow> int \<Rightarrow> int" where
  "uwrap w x = x mod 2 ^ w"

lemma uwrap_bounds: "0 \<le> uwrap w x" "uwrap w x < 2 ^ w"
  by (simp_all add: uwrap_def)

lemma unat_bound: "unat (u :: 'a::len word) < 2 ^ LENGTH('a)"
  by (rule unsigned_less)

section \<open>Floats\<close>

type_synonym float64 = "64 word"

text \<open>The bits below the sign bit, and the sign bit: 11 exponent bits, 52 mantissa bits.\<close>

definition flt_magnitude :: "float64 \<Rightarrow> int" where
  "flt_magnitude x = uint x mod 2 ^ 63"

definition flt_negative :: "float64 \<Rightarrow> bool" where
  "flt_negative x \<longleftrightarrow> 2 ^ 63 \<le> uint x"

definition flt_inf_bits :: int where
  "flt_inf_bits = 9218868437227405312"  \<comment> \<open>\<open>0x7FF0000000000000\<close>\<close>

definition IsNaN :: "float64 \<Rightarrow> bool" where
  "IsNaN x \<longleftrightarrow> flt_inf_bits < flt_magnitude x"

definition IsInf :: "float64 \<Rightarrow> bool" where  \<comment> \<open>\<open>math.IsInf(x, 0)\<close>: either sign\<close>
  "IsInf x \<longleftrightarrow> flt_magnitude x = flt_inf_bits"

definition flt_rank :: "float64 \<Rightarrow> int" where
  "flt_rank x = (if flt_negative x then - flt_magnitude x else flt_magnitude x)"

text \<open>IEEE comparison: false when either side is NaN; the two zeros are equal.\<close>

definition flt_lt :: "float64 \<Rightarrow> float64 \<Rightarrow> bool" where
  "flt_lt x y \<longleftrightarrow> \<not> IsNaN x \<and> \<not> IsNaN y \<and> flt_rank x < flt_rank y"

definition flt_le :: "float64 \<Rightarrow> float64 \<Rightarrow> bool" where
  "flt_le x y \<longleftrightarrow> \<not> IsNaN x \<and> \<not> IsNaN y \<and> flt_rank x \<le> flt_rank y"

definition flt_zero :: float64 where "flt_zero = 0"
definition flt_one :: float64 where "flt_one = 4607182418800017408"
definition flt_milli :: float64 where "flt_milli = 4562254508917369340"  \<comment> \<open>\<open>0.001\<close>\<close>
definition flt_0_9 :: float64 where "flt_0_9 = 4606281698874543309"
definition flt_neg_inf :: float64 where "flt_neg_inf = 18442240474082181120"

definition finite_float :: "float64 \<Rightarrow> bool" where
  "finite_float x \<longleftrightarrow> \<not> IsNaN x \<and> \<not> IsInf x"

lemmas flt_defs = flt_magnitude_def flt_negative_def flt_inf_bits_def IsNaN_def IsInf_def
  flt_rank_def flt_lt_def flt_le_def flt_zero_def flt_one_def flt_milli_def flt_0_9_def
  flt_neg_inf_def finite_float_def

lemma finite_float_iff: "finite_float x \<longleftrightarrow> flt_magnitude x < flt_inf_bits"
  by (auto simp: finite_float_def IsNaN_def IsInf_def)

lemma flt_not_lt: "\<not> IsNaN x \<Longrightarrow> \<not> IsNaN y \<Longrightarrow> \<not> flt_lt x y \<longleftrightarrow> flt_le y x"
  by (auto simp: flt_lt_def flt_le_def)

text \<open>Minus infinity is below every float that is not NaN.\<close>

lemma flt_neg_inf_least: "\<not> IsNaN x \<Longrightarrow> flt_le flt_neg_inf x"
proof -
  assume nan: "\<not> IsNaN x"
  have inf: "flt_rank flt_neg_inf = - flt_inf_bits" "\<not> IsNaN flt_neg_inf"
    by (simp_all add: flt_defs)
  from nan have "flt_magnitude x \<le> flt_inf_bits" "0 \<le> flt_magnitude x"
    by (simp_all add: IsNaN_def flt_magnitude_def)
  then have "- flt_inf_bits \<le> flt_rank x" by (auto simp: flt_rank_def)
  with nan inf show ?thesis by (simp add: flt_le_def)
qed

end
