(* ===== verification/Go_Strings.thy ===== *)
theory Go_Strings
  imports Go_Ints
begin

text \<open>
  The functions of Go's \<open>strings\<close> and \<open>strconv\<close> packages that the program calls. A Go string
  is its bytes, a \<^typ>\<open>string\<close> here (a \<^typ>\<open>char\<close> is a byte). Functions that look at Unicode white
  space (\<open>TrimSpace\<close>, \<open>Fields\<close>) do so through the UTF-8 encodings of the white space runes,
  listed in \<open>space_runes\<close>.
\<close>

section \<open>Prefixes, searching, cutting\<close>

definition HasPrefix :: "string \<Rightarrow> string \<Rightarrow> bool" where
  "HasPrefix s p \<longleftrightarrow> take (length p) s = p"

definition HasSuffix :: "string \<Rightarrow> string \<Rightarrow> bool" where
  "HasSuffix s p \<longleftrightarrow> HasPrefix (rev s) (rev p)"

definition CutPrefix :: "string \<Rightarrow> string \<Rightarrow> string option" where
  "CutPrefix s p = (if HasPrefix s p then Some (drop (length p) s) else None)"

definition TrimSuffix :: "string \<Rightarrow> string \<Rightarrow> string" where
  "TrimSuffix s p = (if HasSuffix s p then take (length s - length p) s else s)"

text \<open>\<open>strings.Index\<close>: the first occurrence; \<open>None\<close> is Go's \<open>-1\<close>.\<close>

fun Index :: "string \<Rightarrow> string \<Rightarrow> nat option" where
  "Index [] p = (if p = [] then Some 0 else None)"
| "Index (c # cs) p = (if HasPrefix (c # cs) p then Some 0 else map_option Suc (Index cs p))"

definition Contains :: "string \<Rightarrow> string \<Rightarrow> bool" where
  "Contains s p \<longleftrightarrow> Index s p \<noteq> None"

text \<open>\<open>strings.Cut\<close>; \<open>None\<close> is its \<open>found = false\<close>.\<close>

definition Cut :: "string \<Rightarrow> string \<Rightarrow> (string \<times> string) option" where
  "Cut s p = (case Index s p of None \<Rightarrow> None | Some i \<Rightarrow> Some (take i s, drop (i + length p) s))"

text \<open>\<open>strings.LastIndex\<close>.\<close>

fun LastIndex :: "string \<Rightarrow> string \<Rightarrow> nat option" where
  "LastIndex [] p = (if p = [] then Some 0 else None)"
| "LastIndex (c # cs) p =
     (case LastIndex cs p of
        Some i \<Rightarrow> Some (Suc i)
      | None \<Rightarrow> if HasPrefix (c # cs) p then Some 0 else None)"

lemma HasPrefix_iff: "HasPrefix s p \<longleftrightarrow> (\<exists>t. s = p @ t)"
proof
  assume "HasPrefix s p"
  then have "s = p @ drop (length p) s" by (metis HasPrefix_def append_take_drop_id)
  then show "\<exists>t. s = p @ t" ..
qed (auto simp: HasPrefix_def)

lemma HasPrefix_append [simp]: "HasPrefix (p @ t) p"
  by (simp add: HasPrefix_def)

lemma HasPrefix_Nil [simp]: "HasPrefix s []" "HasPrefix [] p \<longleftrightarrow> p = []"
  by (auto simp: HasPrefix_def)

lemma HasPrefix_length: "HasPrefix s p \<Longrightarrow> length p \<le> length s"
  by (auto simp: HasPrefix_iff)

lemma HasPrefix_Cons [simp]: "HasPrefix (c # s) (d # p) \<longleftrightarrow> c = d \<and> HasPrefix s p"
  by (auto simp: HasPrefix_def)

lemma Index_Some: "Index s p = Some i \<Longrightarrow> i + length p \<le> length s \<and> HasPrefix (drop i s) p"
proof (induction s arbitrary: i)
  case (Cons c cs)
  then show ?case
    by (cases i) (auto split: if_splits dest!: HasPrefix_length)
qed (auto split: if_splits)

lemma Index_split: "Index s p = Some i \<Longrightarrow> s = take i s @ p @ drop (i + length p) s"
proof -
  assume "Index s p = Some i"
  then have "HasPrefix (drop i s) p" by (simp add: Index_Some)
  then have "drop i s = p @ drop (length p) (drop i s)" by (metis HasPrefix_def append_take_drop_id)
  then show ?thesis by (metis append_take_drop_id drop_drop add.commute)
qed

lemma Index_least: "Index s p = Some i \<Longrightarrow> j < i \<Longrightarrow> \<not> HasPrefix (drop j s) p"
proof (induction s arbitrary: i j)
  case (Cons c cs)
  then show ?case by (cases j) (auto split: if_splits)
qed (auto split: if_splits)

lemma Index_None: "Index s p = None \<Longrightarrow> \<not> HasPrefix (drop j s) p"
proof (induction s arbitrary: j)
  case (Cons c cs)
  then show ?case by (cases j) (auto split: if_splits)
qed (auto split: if_splits)

text \<open>Searching for a single byte.\<close>

lemma Index_char_None: "Index s [c] = None \<longleftrightarrow> c \<notin> set s"
  by (induction s) (auto simp: HasPrefix_def)

lemma Index_char_append: "c \<notin> set a \<Longrightarrow> Index (a @ c # b) [c] = Some (length a)"
  by (induction a) (auto simp: HasPrefix_def)

lemma Cut_char: "c \<notin> set a \<Longrightarrow> Cut (a @ c # b) [c] = Some (a, b)"
  by (simp add: Cut_def Index_char_append)

section \<open>Splitting and joining\<close>

text \<open>\<open>strings.Split\<close> on a one-byte separator, \<open>strings.Join\<close>.\<close>

fun Split :: "char \<Rightarrow> string \<Rightarrow> string list" where
  "Split c [] = [[]]"
| "Split c (x # xs) =
     (if x = c then [] # Split c xs
      else (case Split c xs of [] \<Rightarrow> [[x]] | y # ys \<Rightarrow> (x # y) # ys))"

fun Join :: "string \<Rightarrow> string list \<Rightarrow> string" where
  "Join sep [] = []"
| "Join sep [s] = s"
| "Join sep (s # t # ss) = s @ sep @ Join sep (t # ss)"

lemma Split_not_Nil [simp]: "Split c s \<noteq> []"
  by (cases s) (auto split: list.splits)

lemma Join_Cons: "ss \<noteq> [] \<Longrightarrow> Join sep (s # ss) = s @ sep @ Join sep ss"
  by (cases ss) simp_all

lemma Join_Split [simp]: "Join [c] (Split c s) = s"
proof (induction s)
  case (Cons x xs)
  then show ?case
  proof (cases "Split c xs")
    case (Cons y ys)
    then show ?thesis
      using \<open>Join [c] (Split c xs) = xs\<close> by (cases ys) (auto simp: Join_Cons)
  qed simp
qed simp

lemma Split_parts: "p \<in> set (Split c s) \<Longrightarrow> c \<notin> set p"
  by (induction s arbitrary: p) (auto split: list.splits if_splits)

lemma Split_no_sep: "c \<notin> set s \<Longrightarrow> Split c s = [s]"
  by (induction s) auto

lemma Split_append: "c \<notin> set s \<Longrightarrow> Split c (s @ c # t) = s # Split c t"
  by (induction s) auto

lemma Split_Join: "ss \<noteq> [] \<Longrightarrow> \<forall>s\<in>set ss. c \<notin> set s \<Longrightarrow> Split c (Join [c] ss) = ss"
proof (induction ss)
  case (Cons s ss)
  then show ?case
    by (cases ss) (auto simp: Split_no_sep Split_append Join_Cons simp del: Join.simps(3))
qed simp

text \<open>\<open>strings.FieldsFunc\<close> for a predicate on ASCII bytes: the maximal non-empty runs.\<close>

fun fields_run :: "(char \<Rightarrow> bool) \<Rightarrow> string \<Rightarrow> string \<Rightarrow> string list" where
  "fields_run f acc [] = (if acc = [] then [] else [rev acc])"
| "fields_run f acc (c # cs) =
     (if f c then (if acc = [] then fields_run f [] cs else rev acc # fields_run f [] cs)
      else fields_run f (c # acc) cs)"

definition FieldsFunc :: "(char \<Rightarrow> bool) \<Rightarrow> string \<Rightarrow> string list" where
  "FieldsFunc f s = fields_run f [] s"

lemma fields_run_parts:
  "p \<in> set (fields_run f acc s) \<Longrightarrow> \<forall>c\<in>set acc. \<not> f c \<Longrightarrow> p \<noteq> [] \<and> (\<forall>c\<in>set p. \<not> f c)"
proof (induction s arbitrary: acc)
  case Nil
  then show ?case by (cases "acc = []") auto
next
  case (Cons c cs)
  show ?case
  proof (cases "f c")
    case True
    show ?thesis
    proof (cases "acc = []")
      case True
      with Cons.prems \<open>f c\<close> have "p \<in> set (fields_run f [] cs)" by simp
      then show ?thesis by (rule Cons.IH) simp
    next
      case False
      with Cons.prems(1) \<open>f c\<close> have "p = rev acc \<or> p \<in> set (fields_run f [] cs)" by simp
      then show ?thesis
      proof
        assume "p = rev acc"
        with False Cons.prems(2) show ?thesis by simp
      next
        assume "p \<in> set (fields_run f [] cs)"
        then show ?thesis by (rule Cons.IH) simp
      qed
    qed
  next
    case False
    with Cons.prems(1) have "p \<in> set (fields_run f (c # acc) cs)" by simp
    then show ?thesis by (rule Cons.IH) (use Cons.prems(2) False in simp)
  qed
qed

lemma FieldsFunc_parts: "p \<in> set (FieldsFunc f s) \<Longrightarrow> p \<noteq> [] \<and> (\<forall>c\<in>set p. \<not> f c)"
  using fields_run_parts [of p f "[]" s] by (simp add: FieldsFunc_def)

section \<open>White space\<close>

text \<open>The UTF-8 encodings of the runes for which \<open>unicode.IsSpace\<close> holds.\<close>

definition space_runes :: "string list" where
  "space_runes =
     [[CHR 0x09], [CHR 0x0A], [CHR 0x0B], [CHR 0x0C], [CHR 0x0D], [CHR 0x20],
      [CHR 0xC2, CHR 0x85], [CHR 0xC2, CHR 0xA0], [CHR 0xE1, CHR 0x9A, CHR 0x80],
      [CHR 0xE2, CHR 0x80, CHR 0x80], [CHR 0xE2, CHR 0x80, CHR 0x81], [CHR 0xE2, CHR 0x80, CHR 0x82],
      [CHR 0xE2, CHR 0x80, CHR 0x83], [CHR 0xE2, CHR 0x80, CHR 0x84], [CHR 0xE2, CHR 0x80, CHR 0x85],
      [CHR 0xE2, CHR 0x80, CHR 0x86], [CHR 0xE2, CHR 0x80, CHR 0x87], [CHR 0xE2, CHR 0x80, CHR 0x88],
      [CHR 0xE2, CHR 0x80, CHR 0x89], [CHR 0xE2, CHR 0x80, CHR 0x8A], [CHR 0xE2, CHR 0x80, CHR 0xA8],
      [CHR 0xE2, CHR 0x80, CHR 0xA9], [CHR 0xE2, CHR 0x80, CHR 0xAF], [CHR 0xE2, CHR 0x81, CHR 0x9F],
      [CHR 0xE3, CHR 0x80, CHR 0x80]]"

text \<open>\<open>strip_any ps s\<close>: the rest of \<open>s\<close> after the first of \<open>ps\<close> that starts it.\<close>

fun strip_any :: "string list \<Rightarrow> string \<Rightarrow> string option" where
  "strip_any [] s = None"
| "strip_any (p # ps) s = (if HasPrefix s p then Some (drop (length p) s) else strip_any ps s)"

lemma strip_any_Some: "strip_any ps s = Some t \<Longrightarrow> \<exists>p\<in>set ps. s = p @ t"
  by (induction ps) (auto simp: HasPrefix_iff split: if_splits)

lemma strip_any_None: "strip_any ps s = None \<longleftrightarrow> (\<forall>p\<in>set ps. \<not> HasPrefix s p)"
  by (induction ps) auto

lemma strip_any_shorter: "[] \<notin> set ps \<Longrightarrow> strip_any ps s = Some t \<Longrightarrow> length t < length s"
  by (drule strip_any_Some) auto

function trim_left :: "string list \<Rightarrow> string \<Rightarrow> string" where
  "trim_left ps s =
     (if [] \<in> set ps then s
      else (case strip_any ps s of None \<Rightarrow> s | Some t \<Rightarrow> trim_left ps t))"
  by pat_completeness auto
termination
  by (relation "measure (length \<circ> snd)") (auto intro: strip_any_shorter)

declare trim_left.simps [simp del]

definition TrimSpace :: "string \<Rightarrow> string" where
  "TrimSpace s = rev (trim_left (map rev space_runes) (rev (trim_left space_runes s)))"

lemma trim_left_None: "strip_any ps s = None \<Longrightarrow> trim_left ps s = s"
  by (simp add: trim_left.simps)

lemma trim_left_suffix: "\<exists>p. s = p @ trim_left ps s"
proof (induction ps s rule: trim_left.induct)
  case (1 ps s)
  show ?case
  proof (cases "[] \<in> set ps \<or> strip_any ps s = None")
    case True
    then show ?thesis by (auto simp: trim_left.simps)
  next
    case False
    then obtain t where t: "strip_any ps s = Some t" by auto
    from t obtain p where p: "s = p @ t" by (auto dest: strip_any_Some)
    from False "1" t obtain q where "t = q @ trim_left ps t" by auto
    moreover from t False have "trim_left ps s = trim_left ps t"
      by (simp add: trim_left.simps [of ps s])
    ultimately have "s = (p @ q) @ trim_left ps s" using p by simp
    then show ?thesis ..
  qed
qed

lemma TrimSpace_infix: "\<exists>a b. s = a @ TrimSpace s @ b"
proof -
  obtain a where a: "s = a @ trim_left space_runes s" using trim_left_suffix by blast
  obtain b where "rev (trim_left space_runes s) =
      b @ trim_left (map rev space_runes) (rev (trim_left space_runes s))"
    using trim_left_suffix by blast
  then have "trim_left space_runes s = TrimSpace s @ rev b"
    by (metis TrimSpace_def rev_append rev_rev_ident)
  with a have "s = a @ TrimSpace s @ rev b" by simp
  then show ?thesis by blast
qed

lemma length_TrimSpace: "length (TrimSpace s) \<le> length s"
proof -
  obtain a b where "s = a @ TrimSpace s @ b" using TrimSpace_infix by blast
  then have "length s = length a + length (TrimSpace s) + length b"
    by (metis add.assoc length_append)
  then show ?thesis by simp
qed

lemma set_TrimSpace: "c \<in> set (TrimSpace s) \<Longrightarrow> c \<in> set s"
proof -
  assume "c \<in> set (TrimSpace s)"
  moreover obtain a b where "s = a @ TrimSpace s @ b" using TrimSpace_infix by blast
  ultimately show ?thesis by (metis in_set_conv_decomp append.assoc append_Cons)
qed

text \<open>A string whose first and last bytes are no part of white space is left alone.\<close>

definition space_start :: "char \<Rightarrow> bool" where
  "space_start c \<longleftrightarrow> (\<exists>p\<in>set space_runes. hd p = c)"

definition space_end :: "char \<Rightarrow> bool" where
  "space_end c \<longleftrightarrow> (\<exists>p\<in>set space_runes. last p = c)"

lemma space_runes_nonempty: "p \<in> set space_runes \<Longrightarrow> p \<noteq> []"
  by (auto simp: space_runes_def)

lemma TrimSpace_id:
  assumes "s \<noteq> []" and "\<not> space_start (hd s)" and "\<not> space_end (last s)"
  shows "TrimSpace s = s"
proof -
  have start: "\<not> HasPrefix s p" if "p \<in> set space_runes" for p
    using that assms(2) space_runes_nonempty [OF that]
    by (auto simp: space_start_def HasPrefix_iff)
  have end_: "\<not> HasPrefix (rev s) (rev p)" if p: "p \<in> set space_runes" for p
  proof
    assume "HasPrefix (rev s) (rev p)"
    then obtain t where t: "rev s = rev p @ t" by (auto simp: HasPrefix_iff)
    then have "s = rev t @ p" by (metis rev_append rev_rev_ident)
    with space_runes_nonempty [OF p] have "last s = last p" by simp
    with assms(3) p show False by (auto simp: space_end_def)
  qed
  from start have "trim_left space_runes s = s"
    by (simp add: trim_left_None strip_any_None)
  moreover from end_ have "trim_left (map rev space_runes) (rev s) = rev s"
    by (simp add: trim_left_None strip_any_None)
  ultimately show ?thesis by (simp add: TrimSpace_def)
qed

lemma TrimSpace_Nil [simp]: "TrimSpace [] = []"
  using length_TrimSpace [of "[]"] by simp

text \<open>\<open>strings.Fields\<close>: the maximal runs without white space.\<close>

function fields_space :: "string \<Rightarrow> string \<Rightarrow> string list" where
  "fields_space acc s =
     (case strip_any space_runes s of
        Some t \<Rightarrow> (if acc = [] then fields_space [] t else rev acc # fields_space [] t)
      | None \<Rightarrow>
          (case s of
             [] \<Rightarrow> if acc = [] then [] else [rev acc]
           | c # cs \<Rightarrow> fields_space (c # acc) cs))"
  by pat_completeness auto
termination
proof (relation "measure (length \<circ> snd)")
  have "[] \<notin> set space_runes" using space_runes_nonempty by blast
  then show "\<And>acc s t. strip_any space_runes s = Some t \<Longrightarrow> acc = [] \<Longrightarrow>
      (([], t), (acc, s)) \<in> measure (length \<circ> snd)"
    and "\<And>acc s t. strip_any space_runes s = Some t \<Longrightarrow> acc \<noteq> [] \<Longrightarrow>
      (([], t), (acc, s)) \<in> measure (length \<circ> snd)"
    by (auto intro: strip_any_shorter)
qed auto

declare fields_space.simps [simp del]

definition Fields :: "string \<Rightarrow> string list" where
  "Fields s = fields_space [] s"

section \<open>Decimal numbers\<close>

definition is_digit :: "char \<Rightarrow> bool" where
  "is_digit c \<longleftrightarrow> CHR ''0'' \<le> c \<and> c \<le> CHR ''9''"

definition digit_val :: "char \<Rightarrow> nat" where
  "digit_val c = of_char c - 48"

definition digit_char :: "nat \<Rightarrow> char" where
  "digit_char n = char_of (48 + n)"

lemma is_digit_iff: "is_digit c \<longleftrightarrow> 48 \<le> (of_char c :: nat) \<and> (of_char c :: nat) \<le> 57"
  by (simp add: is_digit_def less_eq_char_def)

lemma of_digit_char: "n < 10 \<Longrightarrow> of_char (digit_char n) = 48 + n"
  by (simp add: digit_char_def)

lemma is_digit_digit_char [simp]: "n < 10 \<Longrightarrow> is_digit (digit_char n)"
  by (simp add: is_digit_iff of_digit_char)

lemma digit_val_digit_char [simp]: "n < 10 \<Longrightarrow> digit_val (digit_char n) = n"
  by (simp add: digit_val_def of_digit_char)

text \<open>The value of a run of digits.\<close>

definition digits_val :: "string \<Rightarrow> nat" where
  "digits_val s = foldl (\<lambda>n c. 10 * n + digit_val c) 0 s"

text \<open>\<open>strconv.ParseUint(s, 10, w)\<close> and \<open>strconv.ParseInt(s, 10, w)\<close>; \<open>None\<close> is an error.\<close>

definition ParseUint :: "nat \<Rightarrow> string \<Rightarrow> nat option" where
  "ParseUint w s =
     (if s \<noteq> [] \<and> list_all is_digit s \<and> digits_val s < 2 ^ w then Some (digits_val s) else None)"

definition ParseInt :: "nat \<Rightarrow> string \<Rightarrow> int option" where
  "ParseInt w s =
     (let neg = (s \<noteq> [] \<and> hd s = CHR ''-'');
          body = (if s \<noteq> [] \<and> (hd s = CHR ''-'' \<or> hd s = CHR ''+'') then tl s else s);
          v = (if neg then - int (digits_val body) else int (digits_val body))
      in if body \<noteq> [] \<and> list_all is_digit body \<and> in_range w v then Some v else None)"

definition Atoi :: "string \<Rightarrow> int option" where
  "Atoi s = ParseInt 64 s"

text \<open>\<open>strconv.FormatUint(n, 10)\<close> and \<open>strconv.Itoa\<close>.\<close>

fun FormatUint :: "nat \<Rightarrow> string" where
  "FormatUint n = (if n < 10 then [digit_char n] else FormatUint (n div 10) @ [digit_char (n mod 10)])"

declare FormatUint.simps [simp del]

definition Itoa :: "int \<Rightarrow> string" where
  "Itoa i = (if i < 0 then CHR ''-'' # FormatUint (nat (- i)) else FormatUint (nat i))"

lemma FormatUint_digits: "list_all is_digit (FormatUint n)"
proof (induction n rule: FormatUint.induct)
  case (1 n)
  then show ?case by (subst FormatUint.simps) simp
qed

lemma FormatUint_not_Nil [simp]: "FormatUint n \<noteq> []"
  by (subst FormatUint.simps) simp

lemma digits_val_snoc [simp]: "digits_val (s @ [c]) = 10 * digits_val s + digit_val c"
  by (simp add: digits_val_def)

lemma digits_val_FormatUint [simp]: "digits_val (FormatUint n) = n"
proof (induction n rule: FormatUint.induct)
  case (1 n)
  show ?case
  proof (cases "n < 10")
    case True
    then show ?thesis by (simp add: FormatUint.simps [of n] digits_val_def)
  next
    case False
    with "1" show ?thesis by (simp add: FormatUint.simps [of n])
  qed
qed

lemma FormatUint_sign: "hd (FormatUint n) \<noteq> CHR ''-''" "hd (FormatUint n) \<noteq> CHR ''+''"
proof -
  have "is_digit (hd (FormatUint n))"
    using FormatUint_digits [of n] by (cases "FormatUint n") auto
  then show "hd (FormatUint n) \<noteq> CHR ''-''" "hd (FormatUint n) \<noteq> CHR ''+''"
    by (auto simp: is_digit_def)
qed

lemma ParseUint_FormatUint [simp]: "n < 2 ^ w \<Longrightarrow> ParseUint w (FormatUint n) = Some n"
  by (simp add: ParseUint_def FormatUint_digits)

lemma ParseInt_Itoa: "0 < w \<Longrightarrow> in_range w i \<Longrightarrow> ParseInt w (Itoa i) = Some i"
  by (auto simp: ParseInt_def Itoa_def FormatUint_digits FormatUint_sign Let_def)

lemma FormatUint_no_char: "\<not> is_digit c \<Longrightarrow> c \<notin> set (FormatUint n)"
  using FormatUint_digits [of n] by (auto simp: list_all_iff)

lemma Itoa_no_char: "\<not> is_digit c \<Longrightarrow> c \<noteq> CHR ''-'' \<Longrightarrow> c \<notin> set (Itoa i)"
  by (auto simp: Itoa_def FormatUint_no_char)

lemma ParseInt_range: "ParseInt w s = Some v \<Longrightarrow> in_range w v"
  by (auto simp: ParseInt_def Let_def split: if_splits)

lemma ParseUint_range: "ParseUint w s = Some v \<Longrightarrow> v < 2 ^ w"
  by (auto simp: ParseUint_def split: if_splits)

lemma digit_not_space: "is_digit c \<Longrightarrow> \<not> space_start c \<and> \<not> space_end c"
proof -
  have "list_all (\<lambda>p. \<not> is_digit (hd p) \<and> \<not> is_digit (last p)) space_runes"
    by (simp add: space_runes_def is_digit_iff)
  then show "is_digit c \<Longrightarrow> \<not> space_start c \<and> \<not> space_end c"
    by (auto simp: space_start_def space_end_def list_all_iff)
qed

interpretation decimal_uint: codec FormatUint "ParseUint 64" "\<lambda>n. n < 2 ^ 64"
  by unfold_locales simp

interpretation decimal_int: codec Itoa Atoi "in_range 64"
  by unfold_locales (simp add: Atoi_def ParseInt_Itoa)

end
