(* ===== verification/Go_Time.thy ===== *)
theory Go_Time
  imports Go_Strings
begin

text \<open>
  Go's \<open>time\<close> package as the program uses it. A \<open>time.Time\<close> is its instant, counted in
  nanoseconds from the zero time (1 January of year 1, 00:00 UTC), so \<open>IsZero\<close> is \<open>t = 0\<close>; a
  \<open>time.Duration\<close> is its nanoseconds. The location of a \<open>time.Time\<close> only matters where the code
  reads a calendar date in it; there the offset from UTC that the location has at the instant is an
  argument.

  Dates are proleptic Gregorian, and a date is the number of days since 1 January of year 1.
  \<open>time.Parse\<close> and \<open>Time.Format\<close> are given for the one layout the program stores dates in,
  \<open>2006-01-02\<close>.
\<close>

section \<open>Instants and durations\<close>

type_synonym gotime = int
type_synonym duration = int

definition Microsecond :: duration where "Microsecond = 1000"
definition Second :: duration where "Second = 1000000000"
definition Minute :: duration where "Minute = 60000000000"
definition Hour :: duration where "Hour = 3600000000000"
definition Day :: duration where "Day = 86400000000000"  \<comment> \<open>\<open>24 * time.Hour\<close>\<close>

lemmas duration_defs = Microsecond_def Second_def Minute_def Hour_def Day_def

definition IsZero :: "gotime \<Rightarrow> bool" where
  "IsZero t \<longleftrightarrow> t = 0"

text \<open>\<open>t.Sub(u)\<close> saturates at the ends of the \<open>int64\<close> range.\<close>

definition time_Sub :: "gotime \<Rightarrow> gotime \<Rightarrow> duration" where
  "time_Sub t u = max min_int64 (min max_int64 (t - u))"

text \<open>\<open>t.Truncate(d)\<close> rounds down to a multiple of \<open>d\<close> since the zero time.\<close>

definition time_Truncate :: "gotime \<Rightarrow> duration \<Rightarrow> gotime" where
  "time_Truncate t d = t - t mod d"

text \<open>Integer division of Go truncates towards zero.\<close>

definition go_div :: "int \<Rightarrow> int \<Rightarrow> int" where
  "go_div a b = sgn a * sgn b * (\<bar>a\<bar> div \<bar>b\<bar>)"

lemma go_div_nonneg: "0 \<le> a \<Longrightarrow> 0 < b \<Longrightarrow> go_div a b = a div b"
  by (cases "a = 0") (simp_all add: go_div_def)

lemma time_Truncate_le: "0 < d \<Longrightarrow> time_Truncate t d \<le> t"
  by (simp add: time_Truncate_def)

lemma time_Truncate_dvd: "d dvd time_Truncate t d"
  by (simp add: time_Truncate_def dvd_minus_mod)

lemma time_Truncate_id: "d dvd t \<Longrightarrow> time_Truncate t d = t"
  by (simp add: time_Truncate_def)

lemma time_Truncate_idem [simp]: "time_Truncate (time_Truncate t d) d = time_Truncate t d"
  by (simp add: time_Truncate_id time_Truncate_dvd)

lemma time_Truncate_mono: "0 < d \<Longrightarrow> t \<le> u \<Longrightarrow> time_Truncate t d \<le> time_Truncate u d"
  by (simp add: time_Truncate_def minus_mod_eq_mult_div zdiv_mono1)

section \<open>Civil dates\<close>

definition is_leap :: "int \<Rightarrow> bool" where
  "is_leap y \<longleftrightarrow> y mod 4 = 0 \<and> (y mod 100 \<noteq> 0 \<or> y mod 400 = 0)"

definition days_in :: "int \<Rightarrow> int \<Rightarrow> int" where
  "days_in m y =
     (if m = 2 then (if is_leap y then 29 else 28)
      else if m \<in> {4, 6, 9, 11} then 30 else 31)"

text \<open>Days before year \<open>y\<close>, and before month \<open>m\<close> in a year.\<close>

definition days_before_year :: "int \<Rightarrow> int" where
  "days_before_year y = 365 * (y - 1) + (y - 1) div 4 - (y - 1) div 100 + (y - 1) div 400"

definition days_before_month :: "bool \<Rightarrow> int \<Rightarrow> int" where
  "days_before_month leap m =
     (if m \<le> 1 then 0 else if m = 2 then 31
      else (if m = 3 then 59 else if m = 4 then 90 else if m = 5 then 120 else if m = 6 then 151
            else if m = 7 then 181 else if m = 8 then 212 else if m = 9 then 243
            else if m = 10 then 273 else if m = 11 then 304 else 334) + (if leap then 1 else 0))"

definition day_of_date :: "int \<Rightarrow> int \<Rightarrow> int \<Rightarrow> int" where
  "day_of_date y m d = days_before_year y + days_before_month (is_leap y) m + d - 1"

text \<open>The date of a day number, by cycles of 400, 100, 4 and 1 years.\<close>

definition year_and_yday :: "int \<Rightarrow> int \<times> int" where
  "year_and_yday n =
     (let e = n div 146097; r = n mod 146097;
          c = min 3 (r div 36524); r1 = r - 36524 * c;
          q = r1 div 1461; r2 = r1 - 1461 * q;
          a = min 3 (r2 div 365)
      in (400 * e + 100 * c + 4 * q + a + 1, r2 - 365 * a))"

definition month_of_yday :: "bool \<Rightarrow> int \<Rightarrow> int" where
  "month_of_yday leap k =
     (let f = (\<lambda>m. days_before_month leap m)
      in if k < f 2 then 1 else if k < f 3 then 2 else if k < f 4 then 3 else if k < f 5 then 4
         else if k < f 6 then 5 else if k < f 7 then 6 else if k < f 8 then 7 else if k < f 9 then 8
         else if k < f 10 then 9 else if k < f 11 then 10 else if k < f 12 then 11 else 12)"

definition date_of_day :: "int \<Rightarrow> int \<times> int \<times> int" where
  "date_of_day n =
     (let (y, k) = year_and_yday n; m = month_of_yday (is_leap y) k
      in (y, m, k - days_before_month (is_leap y) m + 1))"

definition valid_date :: "int \<Rightarrow> int \<Rightarrow> int \<Rightarrow> bool" where
  "valid_date y m d \<longleftrightarrow> 1 \<le> m \<and> m \<le> 12 \<and> 1 \<le> d \<and> d \<le> days_in m y"

lemma year_parts:
  fixes y :: int
  obtains e c q a where "y = 400 * e + 100 * c + 4 * q + a + 1"
    "0 \<le> c" "c \<le> 3" "0 \<le> q" "q \<le> 24" "0 \<le> a" "a \<le> 3"
proof -
  define e r where "e = (y - 1) div 400" and "r = (y - 1) mod 400"
  define c s where "c = r div 100" and "s = r mod 100"
  define q a where "q = s div 4" and "a = s mod 4"
  have "y - 1 = 400 * e + r" by (simp add: e_def r_def)
  moreover have "r = 100 * c + s" by (simp add: c_def s_def)
  moreover have "s = 4 * q + a" by (simp add: q_def a_def)
  moreover have "0 \<le> r" "r < 400" "0 \<le> s" "s < 100" "0 \<le> a" "a < 4"
    by (simp_all add: r_def s_def a_def)
  ultimately show thesis by (intro that [of e c q a]) simp_all
qed

text \<open>A year as 400-, 100-, 4- and 1-year cycles.\<close>

definition year_in_cycles :: "int \<Rightarrow> int \<Rightarrow> int \<Rightarrow> int \<Rightarrow> int \<Rightarrow> bool" where
  "year_in_cycles y e c q a \<longleftrightarrow> y = 400 * e + 100 * c + 4 * q + a + 1
     \<and> 0 \<le> c \<and> c \<le> 3 \<and> 0 \<le> q \<and> q \<le> 24 \<and> 0 \<le> a \<and> a \<le> 3"

lemma days_before_year_parts:
  assumes "year_in_cycles y e c q a"
  shows "days_before_year y = 146097 * e + 36524 * c + 1461 * q + 365 * a"
proof -
  from assms have y: "y - 1 = 400 * e + 100 * c + 4 * q + a"
    and b: "0 \<le> c" "c \<le> 3" "0 \<le> q" "q \<le> 24" "0 \<le> a" "a \<le> 3"
    by (simp_all add: year_in_cycles_def)
  have "(y - 1) div 4 = 100 * e + 25 * c + q"
    by (rule int_div_pos_eq [where r = a]) (use y b in simp_all)
  moreover have "(y - 1) div 100 = 4 * e + c"
    by (rule int_div_pos_eq [where r = "4 * q + a"]) (use y b in simp_all)
  moreover have "(y - 1) div 400 = e"
    by (rule int_div_pos_eq [where r = "100 * c + 4 * q + a"]) (use y b in simp_all)
  ultimately show ?thesis unfolding days_before_year_def using y by simp
qed

lemma is_leap_parts:
  assumes "year_in_cycles y e c q a"
  shows "is_leap y \<longleftrightarrow> a = 3 \<and> (q \<noteq> 24 \<or> c = 3)"
proof -
  from assms have y: "y = 400 * e + 100 * c + 4 * q + a + 1"
    and b: "0 \<le> c" "c \<le> 3" "0 \<le> q" "q \<le> 24" "0 \<le> a" "a \<le> 3"
    by (simp_all add: year_in_cycles_def)
  show ?thesis
  proof (cases "a = 3")
    case False
    have "y mod 4 = a + 1"
      by (rule int_mod_pos_eq [where q = "100 * e + 25 * c + q"]) (use y b False in simp_all)
    with b False show ?thesis by (simp add: is_leap_def)
  next
    case True
    have 4: "y mod 4 = 0"
      by (rule int_mod_pos_eq [where q = "100 * e + 25 * c + q + 1"]) (use y True in simp_all)
    show ?thesis
    proof (cases "q = 24")
      case False
      have "y mod 100 = 4 * q + 4"
        by (rule int_mod_pos_eq [where q = "4 * e + c"]) (use y b True False in simp_all)
      with 4 b True False show ?thesis by (simp add: is_leap_def)
    next
      case q: True
      have 100: "y mod 100 = 0"
        by (rule int_mod_pos_eq [where q = "4 * e + c + 1"]) (use y True q in simp_all)
      show ?thesis
      proof (cases "c = 3")
        case False
        have "y mod 400 = 100 * c + 100"
          by (rule int_mod_pos_eq [where q = e]) (use y b True q False in simp_all)
        with 100 b True q False show ?thesis by (simp add: is_leap_def)
      next
        case c: True
        have "y mod 400 = 0"
          by (rule int_mod_pos_eq [where q = "e + 1"]) (use y True q c in simp_all)
        with 4 True q c show ?thesis by (simp add: is_leap_def)
      qed
    qed
  qed
qed

lemma year_and_yday_parts:
  assumes cyc: "year_in_cycles y e c q a"
    and k: "0 \<le> k" "k < (if is_leap y then 366 else 365)"
  shows "year_and_yday (days_before_year y + k) = (y, k)"
proof -
  from cyc have y: "y = 400 * e + 100 * c + 4 * q + a + 1"
    and b: "0 \<le> c" "c \<le> 3" "0 \<le> q" "q \<le> 24" "0 \<le> a" "a \<le> 3"
    by (simp_all add: year_in_cycles_def)
  from k(2) have k3: "k < 365 \<or> k = 365 \<and> a = 3 \<and> (q \<noteq> 24 \<or> c = 3)"
    using is_leap_parts [OF cyc] by (auto split: if_splits)
  define r where "r = 36524 * c + 1461 * q + 365 * a + k"
  have n: "days_before_year y + k = 146097 * e + r"
    by (simp add: days_before_year_parts [OF cyc] r_def)
  have a3: "365 * a + k < 1461" using k3 b by linarith
  have q3: "1461 * q + 365 * a + k < 36524 \<or> c = 3 \<and> 1461 * q + 365 * a + k < 36525"
    using k3 b a3 by linarith
  have r: "0 \<le> r" "r < 146097" using q3 b k unfolding r_def by linarith+
  have e: "(146097 * e + r) div 146097 = e" "(146097 * e + r) mod 146097 = r"
    using r by simp_all
  have c: "min 3 (r div 36524) = c"
  proof (cases "c = 3")
    case True
    then have "36524 * 3 \<le> r" using b k by (simp add: r_def)
    then have "3 \<le> r div 36524" by (simp add: zdiv_mono1 [of "109572" r 36524, simplified])
    with True show ?thesis by simp
  next
    case False
    have "r div 36524 = c"
      by (rule int_div_pos_eq [where r = "1461 * q + 365 * a + k"])
        (use q3 b k False in \<open>simp_all add: r_def\<close>)
    with b show ?thesis by simp
  qed
  have r1: "r - 36524 * c = 1461 * q + (365 * a + k)" by (simp add: r_def)
  have q: "(1461 * q + (365 * a + k)) div 1461 = q"
    by (rule int_div_pos_eq [where r = "365 * a + k"]) (use a3 b k in simp_all)
  have a: "min 3 ((365 * a + k) div 365) = a"
  proof (cases "a = 3")
    case True
    have "3 \<le> (365 * a + k) div 365" using True k(1) zdiv_mono1 [of "1095" "1095 + k" 365] by simp
    with True show ?thesis by simp
  next
    case False
    have "(365 * a + k) div 365 = a"
      by (rule int_div_pos_eq [where r = k]) (use k k3 False in auto)
    with b show ?thesis by simp
  qed
  show ?thesis
    unfolding year_and_yday_def Let_def n e c r1 q using a y by simp
qed

lemma year_and_yday_inverse:
  assumes "0 \<le> k" "k < (if is_leap y then 366 else 365)"
  shows "year_and_yday (days_before_year y + k) = (y, k)"
proof -
  obtain e c q a where "year_in_cycles y e c q a"
    using year_parts [of y] unfolding year_in_cycles_def by metis
  then show ?thesis using assms by (rule year_and_yday_parts)
qed

lemma month_cases:
  fixes m :: int
  assumes "1 \<le> m" "m \<le> 12"
  shows "m = 1 \<or> m = 2 \<or> m = 3 \<or> m = 4 \<or> m = 5 \<or> m = 6 \<or> m = 7 \<or> m = 8 \<or> m = 9 \<or> m = 10 \<or>
    m = 11 \<or> m = 12"
  using assms by presburger

definition month_length :: "bool \<Rightarrow> int \<Rightarrow> int" where
  "month_length leap m =
     (if m = 2 then (if leap then 29 else 28) else if m \<in> {4, 6, 9, 11} then 30 else 31)"

lemma month_of_yday_length:
  assumes m: "1 \<le> m" "m \<le> 12" and d: "1 \<le> d" "d \<le> month_length leap m"
  shows "month_of_yday leap (days_before_month leap m + d - 1) = m
    \<and> 0 \<le> days_before_month leap m + d - 1
    \<and> days_before_month leap m + d - 1 < (if leap then 366 else 365)"
  using month_cases [OF m] d
  by (cases leap; elim disjE)
    (simp_all add: month_of_yday_def days_before_month_def month_length_def)

lemma month_of_yday_inverse:
  assumes v: "valid_date y m d"
  shows "month_of_yday (is_leap y) (days_before_month (is_leap y) m + d - 1) = m"
    and "0 \<le> days_before_month (is_leap y) m + d - 1"
    and "days_before_month (is_leap y) m + d - 1 < (if is_leap y then 366 else 365)"
proof -
  have "days_in m y = month_length (is_leap y) m" by (simp add: days_in_def month_length_def)
  with v have "1 \<le> m" "m \<le> 12" "1 \<le> d" "d \<le> month_length (is_leap y) m"
    by (simp_all add: valid_date_def)
  from month_of_yday_length [OF this]
  show "month_of_yday (is_leap y) (days_before_month (is_leap y) m + d - 1) = m"
    and "0 \<le> days_before_month (is_leap y) m + d - 1"
    and "days_before_month (is_leap y) m + d - 1 < (if is_leap y then 366 else 365)" by simp_all
qed

theorem date_of_day_of_date:
  assumes "valid_date y m d"
  shows "date_of_day (day_of_date y m d) = (y, m, d)"
proof -
  note inv = month_of_yday_inverse [OF assms]
  have "year_and_yday (day_of_date y m d) = (y, days_before_month (is_leap y) m + d - 1)"
    using year_and_yday_inverse [OF inv(2,3)] by (simp add: day_of_date_def algebra_simps)
  with inv(1) show ?thesis by (simp add: date_of_day_def)
qed

section \<open>The layout 2006-01-02\<close>

text \<open>
  \<open>time.Parse\<close>: four digits, a hyphen, two digits, a hyphen, two digits and nothing else, naming
  a month and a day that the month has.
\<close>

definition parse_date :: "string \<Rightarrow> gotime option" where
  "parse_date s =
     (if length s = 10 \<and> list_all is_digit (take 4 s) \<and> s ! 4 = CHR ''-''
         \<and> list_all is_digit (take 2 (drop 5 s)) \<and> s ! 7 = CHR ''-''
         \<and> list_all is_digit (drop 8 s)
      then
        (let y = int (digits_val (take 4 s));
             m = int (digits_val (take 2 (drop 5 s)));
             d = int (digits_val (drop 8 s))
         in if valid_date y m d then Some (day_of_date y m d * Day) else None)
      else None)"

text \<open>\<open>Time.Format\<close>: every field padded with zeros on the left to its width.\<close>

definition pad :: "nat \<Rightarrow> int \<Rightarrow> string" where
  "pad w i =
     (let s = FormatUint (nat \<bar>i\<bar>)
      in (if i < 0 then ''-'' else []) @ replicate (w - length s) (CHR ''0'') @ s)"

definition format_date :: "gotime \<Rightarrow> string" where
  "format_date t =
     (case date_of_day (t div Day) of (y, m, d) \<Rightarrow> pad 4 y @ ''-'' @ pad 2 m @ ''-'' @ pad 2 d)"

lemma digits_val_zero [simp]: "digits_val (CHR ''0'' # s) = digits_val s"
  by (simp add: digits_val_def digit_val_def)

lemma digits_val_zeros [simp]: "digits_val (replicate n (CHR ''0'') @ s) = digits_val s"
  by (induction n) simp_all

lemma FormatUint_length: "n < 10 ^ w \<Longrightarrow> 0 < w \<Longrightarrow> length (FormatUint n) \<le> w"
proof (induction n arbitrary: w rule: FormatUint.induct)
  case (1 n)
  show ?case
  proof (cases "n < 10")
    case True
    with "1.prems" show ?thesis by (subst FormatUint.simps) simp
  next
    case False
    with "1.prems" obtain v where v: "w = Suc v" "0 < v"
      by (cases w; cases "w - 1") auto
    with "1.prems" have "n div 10 < 10 ^ v" by auto
    with "1.IH" False v have "length (FormatUint (n div 10)) \<le> v" by simp
    with False v show ?thesis by (subst FormatUint.simps) simp
  qed
qed

lemma pad_facts:
  assumes "0 \<le> i" "i < 10 ^ w" "0 < w"
  shows "length (pad w i) = w" "list_all is_digit (pad w i)" "int (digits_val (pad w i)) = i"
proof -
  from assms have "nat i < 10 ^ w" by (metis nat_less_numeral_power_cancel_iff nat_less_iff of_nat_numeral of_nat_power)
  with assms(3) have "length (FormatUint (nat i)) \<le> w" by (simp add: FormatUint_length)
  with assms show "length (pad w i) = w" "list_all is_digit (pad w i)"
    "int (digits_val (pad w i)) = i"
    by (auto simp: pad_def Let_def FormatUint_digits is_digit_def list_all_iff)
      (use FormatUint_digits [of "nat i"] in \<open>auto simp: list_all_iff is_digit_def\<close>)
qed

definition storable_date :: "gotime \<Rightarrow> bool" where
  "storable_date t \<longleftrightarrow> (\<exists>y m d. 0 \<le> y \<and> y \<le> 9999 \<and> valid_date y m d \<and> t = day_of_date y m d * Day)"

lemma storable_dateI:
  "0 \<le> y \<Longrightarrow> y \<le> 9999 \<Longrightarrow> valid_date y m d \<Longrightarrow> storable_date (day_of_date y m d * Day)"
  by (auto simp: storable_date_def)

lemma parse_date_storable: "parse_date s = Some t \<Longrightarrow> storable_date t"
proof -
  assume p: "parse_date s = Some t"
  define y where "y = digits_val (take 4 s)"
  from p have d: "list_all is_digit (take 4 s)" by (simp add: parse_date_def split: if_splits)
  have bound: "digits_val xs < 10 ^ length xs" if "list_all is_digit xs" for xs
    using that
  proof (induction xs rule: rev_induct)
    case (snoc x xs)
    then have "digit_val x < 10" by (auto simp: is_digit_iff digit_val_def)
    with snoc show ?case by simp
  qed (simp add: digits_val_def)
  from p have "length (take 4 s) = 4" by (simp add: parse_date_def split: if_splits)
  with bound [OF d] have "y \<le> 9999" by (simp add: y_def)
  moreover from p have "valid_date (int y) (int (digits_val (take 2 (drop 5 s)))) (int (digits_val (drop 8 s)))"
    "t = day_of_date (int y) (int (digits_val (take 2 (drop 5 s)))) (int (digits_val (drop 8 s))) * Day"
    by (simp_all add: parse_date_def Let_def y_def split: if_splits)
  ultimately show ?thesis
    unfolding storable_date_def by (metis of_nat_0_le_iff of_nat_le_iff of_nat_numeral)
qed

lemma storable_date_midnight: "storable_date t \<Longrightarrow> Day dvd t"
  by (auto simp: storable_date_def)

theorem parse_format_date:
  assumes "storable_date t"
  shows "parse_date (format_date t) = Some t"
proof -
  from assms obtain y m d where ymd: "0 \<le> y" "y \<le> 9999" "valid_date y m d"
    "t = day_of_date y m d * Day" by (auto simp: storable_date_def)
  have "t div Day = day_of_date y m d" by (simp add: ymd(4) Day_def)
  then have f: "format_date t = pad 4 y @ ''-'' @ pad 2 m @ ''-'' @ pad 2 d"
    by (simp add: format_date_def date_of_day_of_date ymd(3))
  have md: "0 \<le> m" "m < 10 ^ 2" "0 \<le> d" "d < 10 ^ 2"
    using ymd(3) by (auto simp: valid_date_def days_in_def split: if_splits)
  have y4: "y < 10 ^ 4" using ymd by simp
  note Y = pad_facts [OF ymd(1) y4, simplified]
  note M = pad_facts [OF md(1,2), simplified]
  note D = pad_facts [OF md(3,4), simplified]
  have sel: "length (format_date t) = 10" "take 4 (format_date t) = pad 4 y"
    "format_date t ! 4 = CHR ''-''" "take 2 (drop 5 (format_date t)) = pad 2 m"
    "format_date t ! 7 = CHR ''-''" "drop 8 (format_date t) = pad 2 d"
    unfolding f using Y(1) M(1) D(1) by (simp_all add: nth_append)
  show ?thesis
    unfolding parse_date_def sel Let_def Y(3) M(3) D(3) using Y M D ymd by simp
qed

lemma parse_date_digits:
  assumes "parse_date s = Some t"
  shows "s \<noteq> []" "is_digit (hd s)" "is_digit (last s)"
proof -
  from assms have s: "length s = 10" "list_all is_digit (take 4 s)" "list_all is_digit (drop 8 s)"
    by (simp_all add: parse_date_def split: if_splits)
  then show "s \<noteq> []" by auto
  with s(2) show "is_digit (hd s)" by (cases s) auto
  from s(1) have "drop 8 s \<noteq> []" "last (drop 8 s) = last s" by simp_all
  with s(3) show "is_digit (last s)" by (metis last_in_set list_all_iff)
qed

lemma TrimSpace_date: "parse_date s = Some t \<Longrightarrow> TrimSpace s = s"
  by (rule TrimSpace_id) (auto dest: parse_date_digits digit_not_space)

interpretation date_codec: codec format_date parse_date storable_date
  by unfold_locales (rule parse_format_date)

end
