(* ===== verification/Calendar.thy ===== *)
theory Calendar
  imports Go_Time
begin

text \<open>
  The class calendar of a deck (\<open>internal/review/calendar.go\<close>): the record, its construction
  from the wire form, and the arithmetic that turns a date into a class day and a class day into
  a date. The main results say that the closed form of \<open>CurrentClassDay\<close> counts the meetings one
  would find by walking the days, and that \<open>MeetingDate\<close> is its inverse.
\<close>

section \<open>The calendar\<close>

definition ReleaseGateOff :: int where "ReleaseGateOff = max_int32"
definition MaxReleaseDay :: int where "MaxReleaseDay = 999"
definition MaxCalendarSkipDates :: nat where "MaxCalendarSkipDates = 60"

record calendar =
  StartDate :: gotime
  Weekdays :: "int list"
  Skip :: "gotime list"

definition no_calendar :: calendar where
  "no_calendar = \<lparr>StartDate = 0, Weekdays = [], Skip = []\<rparr>"

definition Configured :: "calendar \<Rightarrow> bool" where
  "Configured c \<longleftrightarrow> \<not> IsZero (StartDate c) \<and> Weekdays c \<noteq> []"

definition meets :: "calendar \<Rightarrow> int \<Rightarrow> bool" where
  "meets c day \<longleftrightarrow> day \<in> set (Weekdays c)"

definition skipped :: "calendar \<Rightarrow> gotime \<Rightarrow> bool" where
  "skipped c d \<longleftrightarrow> d \<in> set (Skip c)"

definition SkipDates :: "calendar \<Rightarrow> string list" where
  "SkipDates c = map format_date (Skip c)"

text \<open>\<open>time.Weekday\<close>, Sunday = 0; 1 January of year 1 was a Monday.\<close>

definition Weekday :: "gotime \<Rightarrow> int" where
  "Weekday t = (t div Day + 1) mod 7"

definition isoWeekday :: "gotime \<Rightarrow> int" where
  "isoWeekday t = (if Weekday t = 0 then 7 else Weekday t)"

section \<open>Construction\<close>

record calendarWire =
  w_StartDate :: string
  w_Weekdays :: "int list"
  w_Skip :: "string list"

datatype calendar_error = ErrInvalidCalendar

text \<open>The loop over the weekdays of the wire form, and the loop over its skip dates.\<close>

fun add_weekdays :: "calendar \<Rightarrow> int list \<Rightarrow> calendar_error + calendar" where
  "add_weekdays cal [] = Inr cal"
| "add_weekdays cal (d # ds) =
     (if d < 1 \<or> d > 7 then Inl ErrInvalidCalendar
      else if \<not> meets cal d then add_weekdays (cal\<lparr>Weekdays := Weekdays cal @ [d]\<rparr>) ds
      else add_weekdays cal ds)"

fun add_skips :: "calendar \<Rightarrow> string list \<Rightarrow> calendar_error + calendar" where
  "add_skips cal [] = Inr cal"
| "add_skips cal (raw # raws) =
     (case parse_date raw of
        None \<Rightarrow> Inl ErrInvalidCalendar
      | Some d \<Rightarrow>
          if \<not> skipped cal d then add_skips (cal\<lparr>Skip := Skip cal @ [d]\<rparr>) raws
          else add_skips cal raws)"

definition calendarFromWire :: "calendarWire \<Rightarrow> calendar_error + calendar" where
  "calendarFromWire w =
     (case parse_date (TrimSpace (w_StartDate w)) of
        None \<Rightarrow> Inl ErrInvalidCalendar
      | Some start \<Rightarrow>
          bindE (add_weekdays \<lparr>StartDate = start, Weekdays = [], Skip = []\<rparr> (w_Weekdays w)) (\<lambda>cal.
          if Weekdays cal = [] then Inl ErrInvalidCalendar
          else
            let cal = cal\<lparr>Weekdays := sort (Weekdays cal)\<rparr> in
            if length (w_Skip w) > MaxCalendarSkipDates then Inl ErrInvalidCalendar
            else
              bindE (add_skips cal (w_Skip w)) (\<lambda>cal.
              Inr (cal\<lparr>Skip := sort (Skip cal)\<rparr>))))"

text \<open>
  \<open>NewCalendar\<close>: the form's raw strings. \<open>strconv.Atoi\<close> accepts any 64-bit integer and the
  result is narrowed by \<open>int32(day)\<close>, so the wrap-around is kept.
\<close>

definition skip_sep :: "char \<Rightarrow> bool" where
  "skip_sep c \<longleftrightarrow> c = CHR '','' \<or> c = CHR 0x0A \<or> c = CHR 0x0D \<or> c = CHR 0x09 \<or> c = CHR '' ''"

definition form_weekday :: "string \<Rightarrow> calendar_error + int" where
  "form_weekday raw =
     (case Atoi (TrimSpace raw) of None \<Rightarrow> Inl ErrInvalidCalendar | Some day \<Rightarrow> Inr (wrap32 day))"

definition NewCalendar :: "string \<Rightarrow> string list \<Rightarrow> string \<Rightarrow> calendar_error + calendar" where
  "NewCalendar startDate weekdays skip =
     bindE (mapE form_weekday weekdays) (\<lambda>days.
     calendarFromWire
       \<lparr>w_StartDate = startDate, w_Weekdays = days, w_Skip = FieldsFunc skip_sep skip\<rparr>)"

text \<open>\<open>Calendar.JSON\<close>, up to the encoding of the wire form as JSON text.\<close>

definition calendar_wire :: "calendar \<Rightarrow> calendarWire" where
  "calendar_wire c =
     \<lparr>w_StartDate = format_date (StartDate c), w_Weekdays = Weekdays c, w_Skip = SkipDates c\<rparr>"

section \<open>Class days\<close>

text \<open>
  \<open>toDate\<close>: midnight UTC of the date that \<open>t\<close> has in its own location, whose offset from UTC is
  \<open>off\<close> (0 for a date read from Postgres).
\<close>

definition toDate :: "duration \<Rightarrow> gotime \<Rightarrow> gotime" where
  "toDate off t = (t + off) div Day * Day"

text \<open>\<open>t.AddDate(0, 0, n)\<close> on a midnight UTC.\<close>

definition AddDays :: "gotime \<Rightarrow> int \<Rightarrow> gotime" where
  "AddDays t n = t + n * Day"

text \<open>The walk over the first \<open>n\<close> days from \<open>t\<close>, and the subtraction of the skip dates.\<close>

primrec count_meetings :: "calendar \<Rightarrow> gotime \<Rightarrow> nat \<Rightarrow> int" where
  "count_meetings c t 0 = 0"
| "count_meetings c t (Suc n) =
     count_meetings c t n + (if meets c (isoWeekday (AddDays t (int n))) then 1 else 0)"

primrec subtract_skips :: "calendar \<Rightarrow> gotime \<Rightarrow> int \<Rightarrow> gotime list \<Rightarrow> int" where
  "subtract_skips c d count [] = count"
| "subtract_skips c d count (s # ss) =
     subtract_skips c d
       (if \<not> s < StartDate c \<and> \<not> s > d \<and> meets c (isoWeekday s) then count - 1 else count) ss"

definition CurrentClassDay :: "calendar \<Rightarrow> duration \<Rightarrow> gotime \<Rightarrow> int" where
  "CurrentClassDay c off localDate =
     (if \<not> Configured c then 0
      else
        let d = toDate off localDate in
        if d < StartDate c then 0
        else
          let total = go_div (time_Sub d (StartDate c)) Day + 1;
              weeks = go_div total 7;
              count = weeks * int (length (Weekdays c));
              tailStart = AddDays (StartDate c) (weeks * 7);
              count = count + count_meetings c tailStart (nat (total - weeks * 7))
          in wrap32 (subtract_skips c d count (Skip c)))"

definition Gate :: "calendar \<Rightarrow> int \<Rightarrow> int" where
  "Gate c classDay = (if \<not> Configured c then ReleaseGateOff else classDay)"

definition GateDay :: "calendar \<Rightarrow> duration \<Rightarrow> gotime \<Rightarrow> int" where
  "GateDay c off localDate = Gate c (CurrentClassDay c off localDate)"

text \<open>
  The walk of \<open>MeetingDates\<close>: \<open>i\<close> runs to the bound \<open>limit\<close>, or until \<open>n\<close> dates are found.
\<close>

function walk_meetings :: "calendar \<Rightarrow> int \<Rightarrow> int \<Rightarrow> int \<Rightarrow> gotime list \<Rightarrow> gotime list" where
  "walk_meetings c n limit i dates =
     (if i < limit \<and> int (length dates) < n then
        let day = AddDays (StartDate c) i in
        walk_meetings c n limit (i + 1)
          (if meets c (isoWeekday day) \<and> \<not> skipped c day then dates @ [day] else dates)
      else dates)"
  by pat_completeness auto
termination
  by (relation "measure (\<lambda>(c, n, limit, i, dates). nat (limit - i))") auto

declare walk_meetings.simps [simp del]

definition MeetingDates :: "calendar \<Rightarrow> int \<Rightarrow> gotime list" where
  "MeetingDates c n =
     (if \<not> Configured c \<or> n \<le> 0 then []
      else
        let n = min n MaxReleaseDay; limit = 7 * (n + int (length (Skip c)))
        in walk_meetings c n limit 0 [])"

text \<open>The indexing \<open>dates[n-1]\<close> is in range after the length check; \<open>None\<close> is \<open>ok = false\<close>.\<close>

definition MeetingDate :: "calendar \<Rightarrow> int \<Rightarrow> gotime option" where
  "MeetingDate c n =
     (if n \<le> 0 \<or> n > MaxReleaseDay then None
      else
        let dates = MeetingDates c n in
        if int (length dates) < n then None else Some (dates ! nat (n - 1)))"

section \<open>What a calendar may be\<close>

definition calendar_wf :: "calendar \<Rightarrow> bool" where
  "calendar_wf c \<longleftrightarrow> storable_date (StartDate c)
     \<and> Weekdays c \<noteq> [] \<and> sorted_wrt (<) (Weekdays c) \<and> set (Weekdays c) \<subseteq> {1..7}
     \<and> sorted_wrt (<) (Skip c) \<and> list_all storable_date (Skip c)
     \<and> length (Skip c) \<le> MaxCalendarSkipDates"

lemma add_weekdays_Inr:
  "add_weekdays cal ds = Inr cal' \<Longrightarrow> distinct (Weekdays cal) \<Longrightarrow>
     StartDate cal' = StartDate cal \<and> Skip cal' = Skip cal \<and> distinct (Weekdays cal')
     \<and> set (Weekdays cal') = set (Weekdays cal) \<union> set ds \<and> set ds \<subseteq> {1..7}"
  by (induction cal ds rule: add_weekdays.induct) (auto simp: meets_def split: if_splits)

lemma add_weekdays_total:
  "set ds \<subseteq> {1..7} \<Longrightarrow> \<exists>cal'. add_weekdays cal ds = Inr cal'"
  by (induction cal ds rule: add_weekdays.induct) auto

lemma add_skips_Inr:
  "add_skips cal raws = Inr cal' \<Longrightarrow> distinct (Skip cal) \<Longrightarrow> list_all storable_date (Skip cal) \<Longrightarrow>
     StartDate cal' = StartDate cal \<and> Weekdays cal' = Weekdays cal \<and> distinct (Skip cal')
     \<and> Some ` set (Skip cal') = Some ` set (Skip cal) \<union> parse_date ` set raws
     \<and> list_all storable_date (Skip cal') \<and> length (Skip cal') \<le> length (Skip cal) + length raws"
  by (induction cal raws rule: add_skips.induct)
    (auto simp: skipped_def dest: parse_date_storable split: if_splits option.splits)

lemma add_skips_total:
  "\<forall>r\<in>set raws. parse_date r \<noteq> None \<Longrightarrow> \<exists>cal'. add_skips cal raws = Inr cal'"
  by (induction cal raws rule: add_skips.induct) (auto split: option.splits)

lemma sort_Nil: "sort xs = [] \<Longrightarrow> xs = []"
  by (metis length_0_conv length_sort)

lemma calendarFromWire_Inr:
  assumes "calendarFromWire w = Inr c"
  shows "calendar_wf c \<and> parse_date (TrimSpace (w_StartDate w)) = Some (StartDate c)
    \<and> set (Weekdays c) = set (w_Weekdays w)
    \<and> Some ` set (Skip c) = parse_date ` set (w_Skip w)"
proof -
  from assms obtain start cal cal2 where p: "parse_date (TrimSpace (w_StartDate w)) = Some start"
    and a: "add_weekdays \<lparr>StartDate = start, Weekdays = [], Skip = []\<rparr> (w_Weekdays w) = Inr cal"
    and ne: "Weekdays cal \<noteq> []" and len: "length (w_Skip w) \<le> MaxCalendarSkipDates"
    and sk: "add_skips (cal\<lparr>Weekdays := sort (Weekdays cal)\<rparr>) (w_Skip w) = Inr cal2"
    and c: "c = cal2\<lparr>Skip := sort (Skip cal2)\<rparr>"
    by (auto simp: calendarFromWire_def Let_def bindE_eq_Inr split: option.splits if_splits)
  note 1 = add_weekdays_Inr [OF a, simplified]
  from 1 have "Skip cal = []" by simp
  with add_skips_Inr [OF sk] have 2: "StartDate cal2 = start" "Weekdays cal2 = sort (Weekdays cal)"
    "distinct (Skip cal2)" "Some ` set (Skip cal2) = parse_date ` set (w_Skip w)"
    "list_all storable_date (Skip cal2)" "length (Skip cal2) \<le> length (w_Skip w)"
    using 1 by simp_all
  from 2 1 ne len p show ?thesis
    by (auto simp: c calendar_wf_def sorted_strict_dedup_sort parse_date_storable list_all_iff
        dest: sort_Nil)
qed

text \<open>The wire forms that are calendars, and nothing else.\<close>

lemma calendarFromWire_accepts:
  "(\<exists>c. calendarFromWire w = Inr c) \<longleftrightarrow>
     parse_date (TrimSpace (w_StartDate w)) \<noteq> None \<and> w_Weekdays w \<noteq> []
     \<and> set (w_Weekdays w) \<subseteq> {1..7} \<and> length (w_Skip w) \<le> MaxCalendarSkipDates
     \<and> (\<forall>r\<in>set (w_Skip w). parse_date r \<noteq> None)" (is "?l \<longleftrightarrow> ?r")
proof
  assume ?l
  then obtain c where c: "calendarFromWire w = Inr c" ..
  from c have "length (w_Skip w) \<le> MaxCalendarSkipDates"
    by (auto simp: calendarFromWire_def Let_def bindE_eq_Inr split: option.splits if_splits)
  with calendarFromWire_Inr [OF c] show ?r
    by (auto simp: calendar_wf_def)
next
  assume r: ?r
  then obtain start where s: "parse_date (TrimSpace (w_StartDate w)) = Some start" by auto
  let ?cal = "\<lparr>StartDate = start, Weekdays = [], Skip = []\<rparr>"
  from r obtain cal where cal: "add_weekdays ?cal (w_Weekdays w) = Inr cal"
    using add_weekdays_total by blast
  with r have "Weekdays cal \<noteq> []" using add_weekdays_Inr [OF cal] by auto
  moreover obtain cal2 where
    "add_skips (cal\<lparr>Weekdays := sort (Weekdays cal)\<rparr>) (w_Skip w) = Inr cal2"
    using r add_skips_total by blast
  ultimately show ?l using r s cal by (simp add: calendarFromWire_def Let_def)
qed

text \<open>Reading back what \<open>JSON\<close> wrote.\<close>

lemma add_weekdays_append:
  "distinct (Weekdays cal @ ds) \<Longrightarrow> set ds \<subseteq> {1..7} \<Longrightarrow>
     add_weekdays cal ds = Inr (cal\<lparr>Weekdays := Weekdays cal @ ds\<rparr>)"
  by (induction cal ds rule: add_weekdays.induct) (auto simp: meets_def)

lemma add_skips_append:
  "distinct (Skip cal @ ds) \<Longrightarrow> list_all storable_date ds \<Longrightarrow>
     add_skips cal (map format_date ds) = Inr (cal\<lparr>Skip := Skip cal @ ds\<rparr>)"
  by (induction ds arbitrary: cal) (auto simp: skipped_def parse_format_date)

lemma calendarFromWire_wire:
  assumes "calendar_wf c"
  shows "calendarFromWire (calendar_wire c) = Inr c"
proof -
  from assms have wf: "storable_date (StartDate c)" "Weekdays c \<noteq> []" "sorted (Weekdays c)"
    "distinct (Weekdays c)" "set (Weekdays c) \<subseteq> {1..7}" "sorted (Skip c)" "distinct (Skip c)"
    "list_all storable_date (Skip c)" "length (Skip c) \<le> MaxCalendarSkipDates"
    by (simp_all add: calendar_wf_def strict_sorted_iff)
  have start: "parse_date (TrimSpace (format_date (StartDate c))) = Some (StartDate c)"
    using parse_format_date [OF wf(1)] by (simp add: TrimSpace_date)
  have w: "add_weekdays \<lparr>StartDate = StartDate c, Weekdays = [], Skip = []\<rparr> (Weekdays c)
      = Inr \<lparr>StartDate = StartDate c, Weekdays = Weekdays c, Skip = []\<rparr>"
    using wf by (simp add: add_weekdays_append)
  have s: "add_skips \<lparr>StartDate = StartDate c, Weekdays = Weekdays c, Skip = []\<rparr> (SkipDates c)
      = Inr \<lparr>StartDate = StartDate c, Weekdays = Weekdays c, Skip = Skip c\<rparr>"
    using wf by (simp add: add_skips_append SkipDates_def)
  have "length (SkipDates c) \<le> MaxCalendarSkipDates" using wf by (simp add: SkipDates_def)
  then show ?thesis
    using start w s wf by (simp add: calendarFromWire_def calendar_wire_def sorted_sort_id)
qed

interpretation calendar_codec: codec calendar_wire
  "\<lambda>w. case calendarFromWire w of Inl _ \<Rightarrow> None | Inr c \<Rightarrow> Some c" calendar_wf
  by unfold_locales (simp add: calendarFromWire_wire)

section \<open>Walking the days\<close>

definition meeting_day :: "calendar \<Rightarrow> gotime \<Rightarrow> bool" where
  "meeting_day c t \<longleftrightarrow> meets c (isoWeekday t) \<and> \<not> skipped c t"

definition days_from :: "gotime \<Rightarrow> nat \<Rightarrow> gotime list" where
  "days_from t n = map (\<lambda>i. AddDays t (int i)) [0..<n]"

definition class_day_by_walk :: "calendar \<Rightarrow> gotime \<Rightarrow> int" where
  "class_day_by_walk c d =
     int (length (filter (meeting_day c) (days_from (StartDate c) (nat ((d - StartDate c) div Day + 1)))))"

lemma Day_pos [simp]: "0 < Day" "Day \<noteq> 0"
  by (simp_all add: Day_def)

lemma days_from_simps [simp]:
  "days_from t 0 = []"
  "days_from t (Suc n) = days_from t n @ [AddDays t (int n)]"
  "length (days_from t n) = n"
  "i < n \<Longrightarrow> days_from t n ! i = AddDays t (int i)"
  by (simp_all add: days_from_def)

lemma AddDays_inj [simp]: "AddDays t i = AddDays t j \<longleftrightarrow> i = j"
  by (simp add: AddDays_def)

lemma AddDays_AddDays [simp]: "AddDays (AddDays t i) j = AddDays t (i + j)"
  by (simp add: AddDays_def algebra_simps)

lemma distinct_days_from [simp]: "distinct (days_from t n)"
  by (auto simp: days_from_def distinct_map inj_on_def)

lemma days_from_add: "days_from t (m + n) = days_from t m @ days_from (AddDays t (int m)) n"
  by (induction n) simp_all

lemma mod7_cases:
  "(k::int) mod 7 = 0 \<or> k mod 7 = 1 \<or> k mod 7 = 2 \<or> k mod 7 = 3 \<or> k mod 7 = 4 \<or> k mod 7 = 5
    \<or> k mod 7 = 6"
  by presburger

lemma isoWeekday_eq: "isoWeekday t = t div Day mod 7 + 1"
proof -
  have "(if (k + 1) mod 7 = 0 then 7 else (k + 1) mod 7) = k mod 7 + (1::int)" for k :: int
    using mod7_cases [of k] mod_add_left_eq [of k 7 1] by (elim disjE) simp_all
  then show ?thesis by (simp only: isoWeekday_def Weekday_def)
qed

lemma count_meetings_eq:
  "count_meetings c t n = int (length (filter (\<lambda>d. meets c (isoWeekday d)) (days_from t n)))"
  by (induction n) simp_all

lemma isoWeekday_AddDays: "isoWeekday (AddDays t i) = (t div Day + i) mod 7 + 1"
  by (simp add: isoWeekday_eq AddDays_def add.commute)

text \<open>Seven consecutive days hold every weekday once.\<close>

lemma card_weekdays: "W \<subseteq> {1..7::int} \<Longrightarrow>
  int (card W) = of_bool (1 \<in> W) + of_bool (2 \<in> W) + of_bool (3 \<in> W) + of_bool (4 \<in> W)
    + of_bool (5 \<in> W) + of_bool (6 \<in> W) + of_bool (7 \<in> W)"
proof -
  assume W: "W \<subseteq> {1..7}"
  have "x \<in> {1..7} \<longleftrightarrow> x \<in> {1, 2, 3, 4, 5, 6, 7}" for x :: int
    by (simp only: atLeastAtMost_iff insert_iff empty_iff) presburger
  with W have "W = {x \<in> {1, 2, 3, 4, 5, 6, 7}. x \<in> W}" by blast
  then have "card W = card {x \<in> {1, 2, 3, 4, 5, 6, 7}. x \<in> W}" by simp
  also have "\<dots> = (\<Sum>x\<in>{1, 2, 3, 4, 5, 6, 7}. of_bool (x \<in> W))"
    by (simp add: sum.inter_filter [symmetric] of_bool_def)
  finally show ?thesis by simp
qed

lemma week_count:
  assumes "set (Weekdays c) \<subseteq> {1..7}" "distinct (Weekdays c)"
  shows "count_meetings c t 7 = int (length (Weekdays c))"
proof -
  let ?k = "t div Day"
  have "count_meetings c t (Suc (Suc (Suc (Suc (Suc (Suc (Suc 0))))))) = int (card (set (Weekdays c)))"
    unfolding card_weekdays [OF assms(1)]
  proof -
    consider "?k mod 7 = 0" | "?k mod 7 = 1" | "?k mod 7 = 2" | "?k mod 7 = 3" | "?k mod 7 = 4"
      | "?k mod 7 = 5" | "?k mod 7 = 6" using mod7_cases by metis
    then show "count_meetings c t (Suc (Suc (Suc (Suc (Suc (Suc (Suc 0))))))) =
        of_bool (1 \<in> set (Weekdays c)) + of_bool (2 \<in> set (Weekdays c))
        + of_bool (3 \<in> set (Weekdays c)) + of_bool (4 \<in> set (Weekdays c))
        + of_bool (5 \<in> set (Weekdays c)) + of_bool (6 \<in> set (Weekdays c))
        + of_bool (7 \<in> set (Weekdays c))"
      by cases (simp_all add: meets_def isoWeekday_AddDays mod_add_left_eq [of ?k 7, symmetric])
  qed
  then show ?thesis using assms(2) by (simp add: distinct_card numeral_eq_Suc)
qed

lemma count_meetings_add:
  "count_meetings c t (m + n) = count_meetings c t m + count_meetings c (AddDays t (int m)) n"
  by (simp add: count_meetings_eq days_from_add)

lemma weeks_count:
  assumes "set (Weekdays c) \<subseteq> {1..7}" "distinct (Weekdays c)"
  shows "count_meetings c t (w * 7) = int w * int (length (Weekdays c))"
proof (induction w arbitrary: t)
  case (Suc w)
  have "count_meetings c t (Suc w * 7) = count_meetings c t (7 + w * 7)" by simp
  also have "\<dots> = int (length (Weekdays c)) + int w * int (length (Weekdays c))"
    unfolding count_meetings_add Suc week_count [OF assms] ..
  finally show ?case by (simp add: algebra_simps)
qed simp

lemma subtract_skips_eq:
  "subtract_skips c d count ss = count - int (length
     (filter (\<lambda>s. StartDate c \<le> s \<and> s \<le> d \<and> meets c (isoWeekday s)) ss))"
  by (induction ss arbitrary: count) auto

text \<open>A midnight in the window is one of the days walked.\<close>

lemma day_index_le: "k \<le> x div Day \<longleftrightarrow> k * Day \<le> x"
proof
  assume "k \<le> x div Day"
  then have "k * Day \<le> x div Day * Day" by simp
  also have "\<dots> \<le> x"
    using div_mult_mod_eq [of x Day] pos_mod_sign [OF Day_pos(1), of x] by linarith
  finally show "k * Day \<le> x" .
next
  assume "k * Day \<le> x"
  then show "k \<le> x div Day" using zdiv_mono1 [of "k * Day" x Day] by simp
qed

lemma in_days_from:
  assumes "Day dvd t" "Day dvd s"
  shows "s \<in> set (days_from t (nat ((d - t) div Day + 1))) \<longleftrightarrow> t \<le> s \<and> s \<le> d"
proof -
  from assms have "Day dvd s - t" by simp
  then obtain k where "s - t = Day * k" ..
  then have k: "s = AddDays t k" by (simp add: AddDays_def algebra_simps)
  have "(\<exists>i<n. k = int i) \<longleftrightarrow> 0 \<le> k \<and> k < int n" for n
    by (metis nat_0_le of_nat_0_le_iff of_nat_less_iff)
  moreover have "s \<in> set (days_from t n) \<longleftrightarrow> (\<exists>i<n. k = int i)" for n
    unfolding k by (auto simp: days_from_def image_iff)
  ultimately have "s \<in> set (days_from t n) \<longleftrightarrow> 0 \<le> k \<and> k < int n" for n by simp
  then have "s \<in> set (days_from t (nat ((d - t) div Day + 1))) \<longleftrightarrow> 0 \<le> k \<and> k \<le> (d - t) div Day"
    by auto
  also have "k \<le> (d - t) div Day \<longleftrightarrow> s \<le> d"
    unfolding day_index_le k AddDays_def by auto
  also have "0 \<le> k \<longleftrightarrow> t \<le> s"
    unfolding k AddDays_def by (simp add: zero_le_mult_iff Day_def)
  finally show ?thesis .
qed

lemma length_filter_card: "distinct xs \<Longrightarrow> length (filter p xs) = card {x \<in> set xs. p x}"
  by (metis distinct_card distinct_filter set_filter)

lemma walk_minus_skips:
  assumes "Day dvd StartDate c" "distinct (Skip c)" "\<forall>s\<in>set (Skip c). Day dvd s"
    and n: "n = nat ((d - StartDate c) div Day + 1)"
  shows "count_meetings c (StartDate c) n - int (length
      (filter (\<lambda>s. StartDate c \<le> s \<and> s \<le> d \<and> meets c (isoWeekday s)) (Skip c)))
    = class_day_by_walk c d"
proof -
  let ?w = "days_from (StartDate c) n" and ?m = "\<lambda>s. meets c (isoWeekday s)"
  have "{x \<in> set ?w. ?m x} = {x \<in> set ?w. meeting_day c x} \<union> {x \<in> set ?w. ?m x \<and> skipped c x}"
    by (auto simp: meeting_day_def)
  then have "card {x \<in> set ?w. ?m x} =
      card {x \<in> set ?w. meeting_day c x} + card {x \<in> set ?w. ?m x \<and> skipped c x}"
    by (subst card_Un_disjoint [symmetric]) (auto simp: meeting_day_def)
  moreover have "{x \<in> set ?w. ?m x \<and> skipped c x} =
      {s \<in> set (Skip c). StartDate c \<le> s \<and> s \<le> d \<and> ?m s}"
    using assms(1,3) unfolding skipped_def n by (auto simp: in_days_from)
  ultimately show ?thesis
    using assms(2) by (simp add: count_meetings_eq class_day_by_walk_def length_filter_card n)
qed

text \<open>
  The difference of two instants saturates after 106751 days, which is why the closed form needs a
  bound on the distance from the start date.
\<close>

definition span_ok :: "calendar \<Rightarrow> gotime \<Rightarrow> bool" where
  "span_ok c d \<longleftrightarrow> d - StartDate c < 106751 * Day"

lemma calendar_wf_dvd:
  assumes "calendar_wf c"
  shows "Day dvd StartDate c" "\<forall>s\<in>set (Skip c). Day dvd s"
  using assms by (auto simp: calendar_wf_def list_all_iff storable_date_midnight)

lemma class_day_by_walk_bounds:
  "StartDate c \<le> d \<Longrightarrow> 0 \<le> class_day_by_walk c d
    \<and> class_day_by_walk c d \<le> (d - StartDate c) div Day + 1"
proof -
  assume "StartDate c \<le> d"
  then have "0 \<le> (d - StartDate c) div Day" by (simp add: pos_imp_zdiv_nonneg_iff)
  moreover have "length (filter (meeting_day c) (days_from (StartDate c) n)) \<le> n" for n
    using length_filter_le [of "meeting_day c" "days_from (StartDate c) n"] by simp
  then have "class_day_by_walk c d \<le> int (nat ((d - StartDate c) div Day + 1))"
    unfolding class_day_by_walk_def of_nat_le_iff .
  ultimately show ?thesis by (simp add: class_day_by_walk_def)
qed

lemma CurrentClassDay_walk:
  assumes wf: "calendar_wf c" and conf: "Configured c"
    and start: "StartDate c \<le> toDate off t" and span: "span_ok c (toDate off t)"
  shows "CurrentClassDay c off t = class_day_by_walk c (toDate off t)"
proof -
  define d where "d = toDate off t"
  define k where "k = (d - StartDate c) div Day"
  define w where "w = nat ((k + 1) div 7)"
  define r where "r = nat ((k + 1) mod 7)"
  have d: "StartDate c \<le> d" "d - StartDate c < 106751 * Day"
    using start span by (simp_all add: d_def span_ok_def)
  then have k0: "0 \<le> k" by (simp add: k_def pos_imp_zdiv_nonneg_iff)
  have k1: "k < 106751"
    unfolding k_def using zdiv_mono1 [of "d - StartDate c" "106751 * Day - 1" Day] d(2)
    by (simp add: Day_def)
  from d have sub: "time_Sub d (StartDate c) = d - StartDate c"
    by (simp add: time_Sub_def int_bounds Day_def)
  have total: "go_div (time_Sub d (StartDate c)) Day + 1 = k + 1"
    unfolding sub k_def using d by (simp add: go_div_nonneg)
  have weeks: "go_div (k + 1) 7 = int w" using k0 by (simp add: go_div_nonneg w_def)
  have r7: "nat (k + 1 - int w * 7) = r"
    using k0 by (simp add: w_def r_def minus_div_mult_eq_mod)
  have n: "w * 7 + r = nat (k + 1)"
    using k0 by (subst int_int_eq [symmetric]) (simp add: w_def r_def)
  from wf have W: "set (Weekdays c) \<subseteq> {1..7}" "distinct (Weekdays c)" "distinct (Skip c)"
    by (simp_all add: calendar_wf_def strict_sorted_iff)
  have "int w * int (length (Weekdays c)) + count_meetings c (AddDays (StartDate c) (int w * 7)) r
      = count_meetings c (StartDate c) (nat (k + 1))"
    unfolding n [symmetric] count_meetings_add weeks_count [OF W(1,2)] by simp
  then have "CurrentClassDay c off t = wrap32 (class_day_by_walk c d)"
    using conf start walk_minus_skips [OF calendar_wf_dvd(1) [OF wf] W(3) calendar_wf_dvd(2) [OF wf], of "nat (k + 1)" d]
    unfolding CurrentClassDay_def d_def [symmetric] Let_def total weeks r7 subtract_skips_eq
    by (simp add: k_def)
  moreover from class_day_by_walk_bounds [OF d(1)] k1 have "wrap32 (class_day_by_walk c d) = class_day_by_walk c d"
    by (intro wrap32_id) (simp_all add: k_def)
  ultimately show ?thesis by (simp add: d_def)
qed

section \<open>Dates of class days\<close>

lemma walk_meetings_eq:
  "int (length dates) \<le> n \<Longrightarrow> 0 \<le> n \<Longrightarrow> limit = int l \<Longrightarrow> i = int k \<Longrightarrow>
     walk_meetings c n limit i dates =
     dates @ take (nat n - length dates)
       (filter (meeting_day c) (map (\<lambda>j. AddDays (StartDate c) (int j)) [k..<l]))"
proof (induction c n limit i dates arbitrary: k rule: walk_meetings.induct)
  case (1 c n limit i dates)
  show ?case
  proof (cases "i < limit \<and> int (length dates) < n")
    case False
    with "1.prems" have "nat n - length dates = 0 \<or> \<not> k < l" by auto
    with False show ?thesis by (subst walk_meetings.simps) auto
  next
    case True
    let ?day = "AddDays (StartDate c) i"
    let ?dates = "if meets c (isoWeekday ?day) \<and> \<not> skipped c ?day then dates @ [?day] else dates"
    from True "1.prems" have kl: "[k..<l] = k # [Suc k..<l]" by (simp add: upt_conv_Cons)
    have "int (length ?dates) \<le> n" using True by auto
    then have "walk_meetings c n limit (i + 1) ?dates = ?dates @ take (nat n - length ?dates)
        (filter (meeting_day c) (map (\<lambda>j. AddDays (StartDate c) (int j)) [Suc k..<l]))"
      using "1.prems" by (intro "1.IH" [OF True refl]) auto
    then have step: "walk_meetings c n limit i dates = ?dates @ take (nat n - length ?dates)
        (filter (meeting_day c) (map (\<lambda>j. AddDays (StartDate c) (int j)) [Suc k..<l]))"
      using True by (subst walk_meetings.simps) (simp only: Let_def if_True simp_thms)
    moreover have "nat n - length dates = Suc (nat n - Suc (length dates))" using True by linarith
    moreover have "meeting_day c ?day \<longleftrightarrow> meets c (isoWeekday ?day) \<and> \<not> skipped c ?day"
      by (simp add: meeting_day_def)
    ultimately show ?thesis using "1.prems"(4)
      by (cases "meeting_day c ?day") (auto simp: kl)
  qed
qed

text \<open>The bound of the walk is enough for \<open>n\<close> meetings.\<close>

lemma enough_meetings:
  assumes wf: "calendar_wf c"
  shows "n \<le> length (filter (meeting_day c) (days_from (StartDate c) (7 * (n + length (Skip c)))))"
proof -
  let ?l = "(n + length (Skip c)) * 7"
  let ?w = "days_from (StartDate c) ?l" and ?m = "\<lambda>s. meets c (isoWeekday s)"
  from wf have W: "set (Weekdays c) \<subseteq> {1..7}" "distinct (Weekdays c)" "Weekdays c \<noteq> []"
    by (simp_all add: calendar_wf_def strict_sorted_iff)
  have "int (n + length (Skip c)) * 1 \<le> int (n + length (Skip c)) * int (length (Weekdays c))"
    by (rule mult_left_mono) (use W(3) in \<open>auto simp: Suc_le_eq\<close>)
  with weeks_count [OF W(1,2), of "StartDate c" "n + length (Skip c)"]
  have "n + length (Skip c) \<le> length (filter ?m ?w)" by (simp add: count_meetings_eq)
  also have "length (filter ?m ?w) = card {x \<in> set ?w. ?m x}" by (simp add: length_filter_card)
  also have "{x \<in> set ?w. ?m x} \<subseteq> {x \<in> set ?w. meeting_day c x} \<union> set (Skip c)"
    by (auto simp: meeting_day_def skipped_def)
  then have "card {x \<in> set ?w. ?m x} \<le> card ({x \<in> set ?w. meeting_day c x} \<union> set (Skip c))"
    by (simp add: card_mono)
  also have "\<dots> \<le> card {x \<in> set ?w. meeting_day c x} + card (set (Skip c))" by (rule card_Un_le)
  also have "\<dots> \<le> length (filter (meeting_day c) ?w) + length (Skip c)"
    by (simp add: length_filter_card card_length)
  finally show ?thesis by (simp add: mult.commute)
qed

lemma MeetingDate_position:
  assumes wf: "calendar_wf c" and conf: "Configured c" and n: "1 \<le> n" "n \<le> MaxReleaseDay"
  obtains j where "j < 7 * (nat n + length (Skip c))"
    "MeetingDate c n = Some (AddDays (StartDate c) (int j))"
    "meeting_day c (AddDays (StartDate c) (int j))"
    "length (filter (meeting_day c) (days_from (StartDate c) j)) = nat n - 1"
proof -
  let ?l = "7 * (nat n + length (Skip c))"
  let ?f = "filter (meeting_day c) (days_from (StartDate c) ?l)"
  have enough: "nat n \<le> length ?f" by (rule enough_meetings [OF wf])
  have "MeetingDates c n = take (nat n) ?f"
    using conf n walk_meetings_eq [of "[]" n "int ?l" ?l 0 0 c]
    by (simp add: MeetingDates_def days_from_def Let_def)
  with enough n have date: "MeetingDate c n = Some (?f ! (nat n - 1))"
    by (simp add: MeetingDate_def Let_def nat_diff_distrib)
  from enough n have "nat n - 1 < length ?f" by linarith
  from filter_nth_position [OF this] obtain j where j: "j < ?l"
    "days_from (StartDate c) ?l ! j = ?f ! (nat n - 1)" "meeting_day c (days_from (StartDate c) ?l ! j)"
    "length (filter (meeting_day c) (take j (days_from (StartDate c) ?l))) = nat n - 1" by auto
  moreover have "take j (days_from (StartDate c) ?l) = days_from (StartDate c) j"
    using j(1) by (simp add: days_from_def take_map)
  ultimately show thesis using date by (intro that [of j]) simp_all
qed

lemma class_day_by_walk_AddDays:
  "class_day_by_walk c (AddDays (StartDate c) (int j)) =
     int (length (filter (meeting_day c) (days_from (StartDate c) (Suc j))))"
proof -
  have "nat ((AddDays (StartDate c) (int j) - StartDate c) div Day + 1) = Suc j"
    by (simp add: AddDays_def nat_add_distrib)
  then show ?thesis unfolding class_day_by_walk_def by (simp only:)
qed

lemma class_day_by_walk_mono:
  "d \<le> e \<Longrightarrow> class_day_by_walk c d \<le> class_day_by_walk c e"
proof -
  assume "d \<le> e"
  then have "(d - StartDate c) div Day + 1 \<le> (e - StartDate c) div Day + 1"
    by (simp add: zdiv_mono1)
  then obtain k where k: "nat ((e - StartDate c) div Day + 1) = nat ((d - StartDate c) div Day + 1) + k"
    using nat_mono le_Suc_ex by blast
  show ?thesis unfolding class_day_by_walk_def k days_from_add by simp
qed

lemma toDate_midnight [simp]: "Day dvd t \<Longrightarrow> toDate 0 t = t"
  by (auto simp: toDate_def)

lemma class_day_before:
  assumes "Day dvd StartDate c" "StartDate c \<le> toDate 0 e" "e < AddDays (StartDate c) (int j)"
  shows "class_day_by_walk c (toDate 0 e) \<le> int (length (filter (meeting_day c) (days_from (StartDate c) j)))"
proof -
  from assms(1) obtain s where s: "StartDate c = s * Day" by (auto simp: mult.commute)
  have "e < (s + int j) * Day" using assms(3) by (simp add: AddDays_def s algebra_simps)
  then have "\<not> s + int j \<le> e div Day" unfolding day_index_le by simp
  then have "(toDate 0 e - StartDate c) div Day + 1 \<le> int j"
    by (simp add: toDate_def s left_diff_distrib [symmetric])
  then have "nat ((toDate 0 e - StartDate c) div Day + 1) \<le> j" by linarith
  then obtain k where k: "j = nat ((toDate 0 e - StartDate c) div Day + 1) + k"
    using le_Suc_ex by blast
  show ?thesis unfolding class_day_by_walk_def using k
    by (simp only: days_from_add filter_append length_append of_nat_le_iff le_add1)
qed

section \<open>Properties of the calendar\<close>

text \<open>A calendar built from the settings form is well formed (ISO weekdays sorted without
  duplicates, at most 60 distinct sorted skip dates, a storable start date), starts on the date
  typed, meets on exactly the weekdays ticked and skips exactly the dates listed.\<close>

theorem NewCalendar_wf:
  assumes "NewCalendar startDate weekdays skip = Inr c"
  shows "calendar_wf c \<and> parse_date (TrimSpace startDate) = Some (StartDate c)
    \<and> Inr ` set (Weekdays c) = form_weekday ` set weekdays
    \<and> Some ` set (Skip c) = parse_date ` set (FieldsFunc skip_sep skip)"
proof -
  from assms obtain days where m: "mapE form_weekday weekdays = Inr days"
    and w: "calendarFromWire \<lparr>w_StartDate = startDate, w_Weekdays = days,
      w_Skip = FieldsFunc skip_sep skip\<rparr> = Inr c"
    by (auto simp: NewCalendar_def bindE_eq_Inr)
  have "Inr ` set days = form_weekday ` set weekdays" by (rule mapE_Inr_image [OF m])
  with calendarFromWire_Inr [OF w] show ?thesis by simp
qed

definition term_calendar :: calendar where
  "term_calendar = \<lparr>StartDate = 739866 * Day, Weekdays = [2, 4], Skip = [739945 * Day]\<rparr>"

lemma NewCalendar_wf_witness:
  "calendar_wf term_calendar \<and> Inr ` set (Weekdays term_calendar) = form_weekday ` set [''4'', '' 2 '', ''4'']"
proof -
  have "NewCalendar '' 2026-09-08'' [''4'', '' 2 '', ''4''] ''2026-11-26, 2026-11-26'' = Inr term_calendar"
    by code_simp
  from NewCalendar_wf [OF this] show ?thesis by simp
qed

text \<open>A well-formed calendar written by \<open>JSON\<close> is read back unchanged by the rules shared by
  \<open>ParseCalendar\<close> and \<open>NewCalendar\<close>.\<close>

theorem calendar_roundtrip:
  assumes "calendar_wf c"
  shows "calendarFromWire (calendar_wire c) = Inr c"
  using assms by (rule calendarFromWire_wire)

lemma calendar_wf_term: "calendar_wf term_calendar"
proof -
  have d: "739866 = day_of_date 2026 9 8" "739945 = day_of_date 2026 11 26" by code_simp+
  have v: "valid_date 2026 9 8" "valid_date 2026 11 26" by code_simp+
  have "storable_date (739866 * Day)" "storable_date (739945 * Day)"
    unfolding d by (simp_all add: storable_dateI v)
  then show ?thesis by (simp add: calendar_wf_def term_calendar_def MaxCalendarSkipDates_def)
qed

lemma calendar_roundtrip_witness:
  "calendarFromWire (calendar_wire term_calendar) = Inr term_calendar"
  by (rule calendar_roundtrip [OF calendar_wf_term])

text \<open>C8: the closed form of \<open>CurrentClassDay\<close> (whole weeks, a ragged tail, minus the skips) equals
  the number of unskipped meeting days found by walking every day from the start date to the
  student's date.\<close>

theorem CurrentClassDay_counts_meetings:
  assumes "calendar_wf c" and "Configured c"
    and "StartDate c \<le> toDate off t" and "span_ok c (toDate off t)"
  shows "CurrentClassDay c off t = class_day_by_walk c (toDate off t)"
  using assms by (rule CurrentClassDay_walk)

lemma CurrentClassDay_counts_meetings_witness:
  "CurrentClassDay term_calendar (2 * Hour) (739955 * Day) = class_day_by_walk term_calendar (739955 * Day)"
proof -
  have "toDate (2 * Hour) (739955 * Day) = 739955 * Day" by (simp add: toDate_def Day_def Hour_def)
  moreover have "Configured term_calendar" "StartDate term_calendar \<le> 739955 * Day"
    "span_ok term_calendar (739955 * Day)"
    by (simp_all add: Configured_def IsZero_def term_calendar_def span_ok_def Day_def)
  ultimately show ?thesis
    using CurrentClassDay_counts_meetings [OF calendar_wf_term, of "2 * Hour" "739955 * Day"] by simp
qed

text \<open>C9: \<open>MeetingDate\<close> is total on the lesson numbers a note can carry, and the date it names is
  the first one whose class day is that number: \<open>CurrentClassDay\<close> is \<open>n\<close> there and smaller on
  every earlier date.\<close>

theorem MeetingDate_inverse:
  assumes wf: "calendar_wf c" and conf: "Configured c" and n: "1 \<le> n" "n \<le> MaxReleaseDay"
  shows "\<exists>d. MeetingDate c n = Some d \<and> meeting_day c d \<and> CurrentClassDay c 0 d = n
    \<and> (\<forall>e<d. CurrentClassDay c 0 e < n)"
proof -
  obtain j where j: "j < 7 * (nat n + length (Skip c))"
    "MeetingDate c n = Some (AddDays (StartDate c) (int j))"
    "meeting_day c (AddDays (StartDate c) (int j))"
    "length (filter (meeting_day c) (days_from (StartDate c) j)) = nat n - 1"
    using MeetingDate_position [OF assms] .
  let ?d = "AddDays (StartDate c) (int j)"
  from wf have "length (Skip c) \<le> 60" by (simp add: calendar_wf_def MaxCalendarSkipDates_def)
  moreover from n have "nat n \<le> 999" by (simp add: MaxReleaseDay_def)
  ultimately have "nat n + length (Skip c) \<le> 1059" by (simp only: add_mono_thms_linordered_semiring(1) [of _ 999 _ 60, simplified])
  with j(1) have "int j < 7413" by simp
  then have span: "span_ok c ?d" by (simp add: span_ok_def AddDays_def Day_def)
  have sd: "Day dvd StartDate c" by (rule calendar_wf_dvd [OF wf])
  have walk: "CurrentClassDay c 0 e = class_day_by_walk c (toDate 0 e)"
    if "StartDate c \<le> toDate 0 e" "e \<le> ?d" for e
  proof (rule CurrentClassDay_walk [OF wf conf that(1)])
    have "toDate 0 e \<le> e"
      using day_index_le [of "e div Day" e] by (simp add: toDate_def)
    with span that(2) show "span_ok c (toDate 0 e)" by (simp add: span_ok_def)
  qed
  have d: "toDate 0 ?d = ?d" using sd by (simp add: AddDays_def)
  have "CurrentClassDay c 0 ?d = n"
    using j(3,4) n walk [of ?d] unfolding d class_day_by_walk_AddDays by (simp add: AddDays_def Day_def)
  moreover have "CurrentClassDay c 0 e < n" if e: "e < ?d" for e
  proof (cases "StartDate c \<le> toDate 0 e")
    case False
    then show ?thesis using n by (simp add: CurrentClassDay_def Let_def)
  next
    case True
    with e walk have "CurrentClassDay c 0 e = class_day_by_walk c (toDate 0 e)" by simp
    also have "\<dots> \<le> int (nat n - 1)"
      unfolding j(4) [symmetric] using class_day_before [OF sd True e] by simp
    finally show ?thesis using n by simp
  qed
  ultimately show ?thesis using j(2,3) by blast
qed

lemma MeetingDate_inverse_witness:
  "\<exists>d. MeetingDate term_calendar 25 = Some d \<and> meeting_day term_calendar d
    \<and> CurrentClassDay term_calendar 0 d = 25 \<and> (\<forall>e<d. CurrentClassDay term_calendar 0 e < 25)"
proof -
  have "Configured term_calendar"
    by (simp add: Configured_def IsZero_def term_calendar_def Day_def)
  then show ?thesis
    using MeetingDate_inverse [OF calendar_wf_term, of 25] by (simp add: MaxReleaseDay_def)
qed

text \<open>unlocking is cumulative: the gate value of a later study day is at least that of an
  earlier one, and a deck without a calendar has the value above every lesson.\<close>

theorem GateDay_mono:
  assumes wf: "c = no_calendar \<or> calendar_wf c" and le: "toDate off t \<le> toDate off' u"
    and span: "span_ok c (toDate off' u)"
  shows "GateDay c off t \<le> GateDay c off' u \<and> (\<not> Configured c \<longrightarrow> GateDay c off t = ReleaseGateOff)"
proof (cases "Configured c")
  case False
  then show ?thesis by (simp add: GateDay_def Gate_def)
next
  case True
  with wf have wf: "calendar_wf c" by (auto simp: Configured_def no_calendar_def)
  show ?thesis
  proof (cases "StartDate c \<le> toDate off t")
    case False
    then have "CurrentClassDay c off t = 0" by (simp add: CurrentClassDay_def Let_def)
    moreover have "0 \<le> CurrentClassDay c off' u"
    proof (cases "StartDate c \<le> toDate off' u")
      case u: True
      then show ?thesis
        using CurrentClassDay_walk [OF wf True u span] class_day_by_walk_bounds [OF u] by simp
    qed (simp add: CurrentClassDay_def Let_def)
    ultimately show ?thesis using True by (simp add: GateDay_def Gate_def)
  next
    case t: True
    with le have u: "StartDate c \<le> toDate off' u" by simp
    from le span have "span_ok c (toDate off t)" by (simp add: span_ok_def)
    with t u True wf span le show ?thesis
      by (simp add: GateDay_def Gate_def CurrentClassDay_walk class_day_by_walk_mono)
  qed
qed

lemma GateDay_mono_witness:
  "GateDay term_calendar 0 (739880 * Day) \<le> GateDay term_calendar 0 (739955 * Day)"
  by (rule conjunct1 [OF GateDay_mono [OF disjI2 [OF calendar_wf_term]]])
    (simp_all add: span_ok_def toDate_def term_calendar_def Day_def)

end
