(* ===== verification/Go_Json.thy ===== *)
theory Go_Json
  imports Go_Strings
begin

text \<open>
  Decoding of a JSON value into Go data, as \<open>encoding/json\<close> does it. The text has been parsed to a
  value of \<open>json\<close>; a number keeps its literal, because the decoder hands the literal to
  \<open>strconv\<close>. A decoder takes the value and the Go value that is there already, and returns the
  new Go value, or \<open>Inl ()\<close> when \<open>Unmarshal\<close> would return an error. An array is decoded into a
  fresh slice.
\<close>

datatype json =
    JNull
  | JBool bool
  | JNum string
  | JStr string
  | JArr "json list"
  | JObj "(string \<times> json) list"

type_synonym 'a decoder = "json \<Rightarrow> 'a \<Rightarrow> unit + 'a"

definition dec_int32 :: "int decoder" where
  "dec_int32 j old =
     (case j of
        JNull \<Rightarrow> Inr old
      | JNum lit \<Rightarrow> (case ParseInt 32 lit of None \<Rightarrow> Inl () | Some v \<Rightarrow> Inr v)
      | _ \<Rightarrow> Inl ())"

definition dec_string :: "string decoder" where
  "dec_string j old = (case j of JNull \<Rightarrow> Inr old | JStr s \<Rightarrow> Inr s | _ \<Rightarrow> Inl ())"

definition dec_ptr :: "'a \<Rightarrow> 'a decoder \<Rightarrow> 'a option decoder" where
  "dec_ptr zero d j old =
     (if j = JNull then Inr None
      else bindE (d j (case old of None \<Rightarrow> zero | Some x \<Rightarrow> x)) (\<lambda>x. Inr (Some x)))"

definition dec_slice :: "'a \<Rightarrow> 'a decoder \<Rightarrow> 'a list decoder" where
  "dec_slice zero d j old =
     (case j of JNull \<Rightarrow> Inr [] | JArr js \<Rightarrow> mapE (\<lambda>j. d j zero) js | _ \<Rightarrow> Inl ())"

text \<open>
  A key of an object is the field with that name, or else the first field whose name is equal
  under simple case folding. For the ASCII field names of the program, the runes that fold to a
  letter are its two cases and, for K and S, the Kelvin sign and the long s.
\<close>

definition upper_char :: "char \<Rightarrow> char" where
  "upper_char c = (if CHR ''a'' \<le> c \<and> c \<le> CHR ''z'' then char_of (of_char c - (32::nat)) else c)"

fun fold_name :: "string \<Rightarrow> string" where
  "fold_name [] = []"
| "fold_name (a # b # c # s) =
     (if a = CHR 0xE2 \<and> b = CHR 0x84 \<and> c = CHR 0xAA then CHR ''K'' # fold_name s
      else if a = CHR 0xC5 \<and> b = CHR 0xBF then CHR ''S'' # fold_name (c # s)
      else upper_char a # fold_name (b # c # s))"
| "fold_name (a # s) =
     (if [a] @ s = [CHR 0xC5, CHR 0xBF] then ''S'' else upper_char a # fold_name s)"

definition find_field :: "(string \<times> 'd) list \<Rightarrow> string \<Rightarrow> 'd option" where
  "find_field fields k =
     (case find (\<lambda>f. fst f = k) fields of
        Some f \<Rightarrow> Some (snd f)
      | None \<Rightarrow> map_option snd (find (\<lambda>f. fold_name (fst f) = fold_name k) fields))"

definition dec_struct :: "(string \<times> 'a decoder) list \<Rightarrow> 'a decoder" where
  "dec_struct fields j old =
     (case j of
        JNull \<Rightarrow> Inr old
      | JObj members \<Rightarrow>
          foldE (\<lambda>s m. case find_field fields (fst m) of None \<Rightarrow> Inr s | Some d \<Rightarrow> d (snd m) s)
            old members
      | _ \<Rightarrow> Inl ())"

text \<open>\<open>field d get upd\<close>: the decoder of one field of a struct.\<close>

definition field :: "'f decoder \<Rightarrow> ('a \<Rightarrow> 'f) \<Rightarrow> (('f \<Rightarrow> 'f) \<Rightarrow> 'a \<Rightarrow> 'a) \<Rightarrow> 'a decoder" where
  "field d get upd j s = bindE (d j (get s)) (\<lambda>v. Inr (upd (\<lambda>_. v) s))"

lemmas decoder_defs = dec_int32_def dec_string_def dec_ptr_def dec_slice_def dec_struct_def field_def

lemma dec_int32_range: "dec_int32 j old = Inr v \<Longrightarrow> in_range 32 old \<Longrightarrow> in_range 32 v"
  by (auto simp: dec_int32_def dest: ParseInt_range split: json.splits option.splits)

end
