(* ===== verification/Preset.thy ===== *)
theory Preset
  imports Calendar Go_Json
begin

text \<open>
  The per-deck study settings (\<open>internal/review/preset.go\<close>, \<open>order.go\<close> and \<open>ParseCalendar\<close> of
  \<open>calendar.go\<close>): the decoding of \<open>decks.preset\<close>, every reader with its default, and the split of
  a day's budget between new and due cards. A preset is the JSON value of the column, \<open>None\<close> for
  text that is not JSON.
\<close>

section \<open>Orders and priorities\<close>

type_synonym RevOrder = string
type_synonym Priority = string

definition RevOrderDue :: RevOrder where "RevOrderDue = ''due''"
definition RevOrderRandom :: RevOrder where "RevOrderRandom = ''random''"
definition RevOrderIntervalAsc :: RevOrder where "RevOrderIntervalAsc = ''intervalAsc''"
definition RevOrderIntervalDesc :: RevOrder where "RevOrderIntervalDesc = ''intervalDesc''"

definition PriorityDue :: Priority where "PriorityDue = ''due''"
definition PriorityNew :: Priority where "PriorityNew = ''new''"
definition PriorityMixed :: Priority where "PriorityMixed = ''mixed''"

lemmas order_defs = RevOrderDue_def RevOrderRandom_def RevOrderIntervalAsc_def
  RevOrderIntervalDesc_def PriorityDue_def PriorityNew_def PriorityMixed_def

definition RevOrder_Valid :: "RevOrder \<Rightarrow> bool" where
  "RevOrder_Valid r \<longleftrightarrow>
     r \<in> {RevOrderDue, RevOrderRandom, RevOrderIntervalAsc, RevOrderIntervalDesc}"

definition Priority_Valid :: "Priority \<Rightarrow> bool" where
  "Priority_Valid p \<longleftrightarrow> p \<in> {PriorityDue, PriorityNew, PriorityMixed}"

section \<open>The preset\<close>

definition DefaultNewPerDay :: int where "DefaultNewPerDay = 20"
definition MaxNewPerDay :: int where "MaxNewPerDay = 9999"
definition DefaultRevPerDay :: int where "DefaultRevPerDay = 200"
definition MaxRevPerDay :: int where "MaxRevPerDay = 9999"
definition DefaultDueLookAheadMinutes :: int where "DefaultDueLookAheadMinutes = 0"
definition MaxDueLookAheadMinutes :: int where "MaxDueLookAheadMinutes = 1440"

lemmas preset_bounds = DefaultNewPerDay_def MaxNewPerDay_def DefaultRevPerDay_def MaxRevPerDay_def
  DefaultDueLookAheadMinutes_def MaxDueLookAheadMinutes_def

record presetNew =
  new_PerDay :: "int option"
  new_Mix :: "string option"

record presetRev =
  rev_PerDay :: "int option"
  rev_Order :: "string option"

record presetDue =
  due_LookAhead :: "int option"

record deckPreset =
  p_New :: "presetNew option"
  p_Rev :: "presetRev option"
  p_Priority :: "string option"
  p_Due :: "presetDue option"
  p_Calendar :: "calendarWire option"

definition zero_preset :: deckPreset where
  "zero_preset = \<lparr>p_New = None, p_Rev = None, p_Priority = None, p_Due = None, p_Calendar = None\<rparr>"

text \<open>The struct tags.\<close>

definition dec_new :: "presetNew decoder" where
  "dec_new = dec_struct
     [(''perDay'', field (dec_ptr 0 dec_int32) new_PerDay new_PerDay_update),
      (''mix'', field (dec_ptr [] dec_string) new_Mix new_Mix_update)]"

definition dec_rev :: "presetRev decoder" where
  "dec_rev = dec_struct
     [(''perDay'', field (dec_ptr 0 dec_int32) rev_PerDay rev_PerDay_update),
      (''order'', field (dec_ptr [] dec_string) rev_Order rev_Order_update)]"

definition dec_due :: "presetDue decoder" where
  "dec_due = dec_struct
     [(''lookAheadMinutes'', field (dec_ptr 0 dec_int32) due_LookAhead due_LookAhead_update)]"

definition dec_calendar :: "calendarWire decoder" where
  "dec_calendar = dec_struct
     [(''startDate'', field dec_string w_StartDate w_StartDate_update),
      (''weekdays'', field (dec_slice 0 dec_int32) w_Weekdays w_Weekdays_update),
      (''skip'', field (dec_slice [] dec_string) w_Skip w_Skip_update)]"

definition dec_preset :: "deckPreset decoder" where
  "dec_preset = dec_struct
     [(''new'', field (dec_ptr \<lparr>new_PerDay = None, new_Mix = None\<rparr> dec_new) p_New p_New_update),
      (''rev'', field (dec_ptr \<lparr>rev_PerDay = None, rev_Order = None\<rparr> dec_rev) p_Rev p_Rev_update),
      (''priority'', field (dec_ptr [] dec_string) p_Priority p_Priority_update),
      (''due'', field (dec_ptr \<lparr>due_LookAhead = None\<rparr> dec_due) p_Due p_Due_update),
      (''calendar'', field (dec_ptr \<lparr>w_StartDate = [], w_Weekdays = [], w_Skip = []\<rparr> dec_calendar)
         p_Calendar p_Calendar_update)]"

definition parseDeckPreset :: "json option \<Rightarrow> deckPreset \<times> bool" where
  "parseDeckPreset preset =
     (case preset of
        None \<Rightarrow> (zero_preset, False)
      | Some j \<Rightarrow>
          (case dec_preset j zero_preset of
             Inl _ \<Rightarrow> (zero_preset, False)
           | Inr p \<Rightarrow> (p, True)))"

section \<open>Readers\<close>

definition preset_newPerDay :: "deckPreset \<Rightarrow> int" where
  "preset_newPerDay p =
     (case p_New p of
        None \<Rightarrow> DefaultNewPerDay
      | Some n \<Rightarrow>
          (case new_PerDay n of
             None \<Rightarrow> DefaultNewPerDay
           | Some v \<Rightarrow> if v < 0 \<or> v > MaxNewPerDay then DefaultNewPerDay else v))"

definition preset_revPerDay :: "deckPreset \<Rightarrow> int" where
  "preset_revPerDay p =
     (case p_Rev p of
        None \<Rightarrow> DefaultRevPerDay
      | Some n \<Rightarrow>
          (case rev_PerDay n of
             None \<Rightarrow> DefaultRevPerDay
           | Some v \<Rightarrow> if v < 0 \<or> v > MaxRevPerDay then DefaultRevPerDay else v))"

definition preset_dueLookAheadMinutes :: "deckPreset \<Rightarrow> int" where
  "preset_dueLookAheadMinutes p =
     (case p_Due p of
        None \<Rightarrow> DefaultDueLookAheadMinutes
      | Some n \<Rightarrow>
          (case due_LookAhead n of
             None \<Rightarrow> DefaultDueLookAheadMinutes
           | Some v \<Rightarrow>
               if v < 0 \<or> v > MaxDueLookAheadMinutes then DefaultDueLookAheadMinutes else v))"

definition preset_revOrder :: "deckPreset \<Rightarrow> RevOrder" where
  "preset_revOrder p =
     (case p_Rev p of
        None \<Rightarrow> RevOrderDue
      | Some n \<Rightarrow>
          (case rev_Order n of
             None \<Rightarrow> RevOrderDue
           | Some r \<Rightarrow>
               if r \<in> {RevOrderDue, RevOrderRandom, RevOrderIntervalAsc, RevOrderIntervalDesc}
               then r else RevOrderDue))"

definition preset_priority :: "deckPreset \<Rightarrow> Priority" where
  "preset_priority p =
     (case p_Priority p of
        Some v \<Rightarrow> if v \<in> {PriorityDue, PriorityNew, PriorityMixed} then v else PriorityDue
      | None \<Rightarrow>
          (case p_New p of
             None \<Rightarrow> PriorityDue
           | Some n \<Rightarrow>
               (case new_Mix n of
                  None \<Rightarrow> PriorityDue
                | Some m \<Rightarrow>
                    if m = ''beforeReviews'' then PriorityNew
                    else if m = ''mixed'' then PriorityMixed
                    else PriorityDue)))"

definition preset_calendar :: "deckPreset \<Rightarrow> calendar" where
  "preset_calendar p =
     (case p_Calendar p of
        None \<Rightarrow> no_calendar
      | Some w \<Rightarrow> (case calendarFromWire w of Inl _ \<Rightarrow> no_calendar | Inr cal \<Rightarrow> cal))"

definition NewPerDay :: "json option \<Rightarrow> int" where
  "NewPerDay preset = preset_newPerDay (fst (parseDeckPreset preset))"

definition RevPerDay :: "json option \<Rightarrow> int" where
  "RevPerDay preset = preset_revPerDay (fst (parseDeckPreset preset))"

definition DueLookAheadMinutes :: "json option \<Rightarrow> int" where
  "DueLookAheadMinutes preset = preset_dueLookAheadMinutes (fst (parseDeckPreset preset))"

definition ParseRevOrder :: "json option \<Rightarrow> RevOrder" where
  "ParseRevOrder preset = preset_revOrder (fst (parseDeckPreset preset))"

definition ParsePriority :: "json option \<Rightarrow> Priority" where
  "ParsePriority preset = preset_priority (fst (parseDeckPreset preset))"

definition ParseCalendar :: "json option \<Rightarrow> calendar" where
  "ParseCalendar preset = preset_calendar (fst (parseDeckPreset preset))"

definition ReleaseGateDay :: "json option \<Rightarrow> duration \<Rightarrow> gotime \<Rightarrow> int" where
  "ReleaseGateDay preset off localDate = GateDay (ParseCalendar preset) off localDate"

record DeckSettings =
  set_NewPerDay :: int
  set_RevPerDay :: int
  set_Order :: RevOrder
  set_Priority :: Priority
  set_LookAheadMinutes :: int
  set_ClassDay :: int

definition Settings :: "json option \<Rightarrow> duration \<Rightarrow> gotime \<Rightarrow> DeckSettings" where
  "Settings preset off localDate =
     (let p = fst (parseDeckPreset preset) in
      \<lparr>set_NewPerDay = preset_newPerDay p, set_RevPerDay = preset_revPerDay p,
       set_Order = preset_revOrder p, set_Priority = preset_priority p,
       set_LookAheadMinutes = preset_dueLookAheadMinutes p,
       set_ClassDay = GateDay (preset_calendar p) off localDate\<rparr>)"

section \<open>The day's budget\<close>

definition NewRemaining :: "int \<Rightarrow> int \<Rightarrow> int" where
  "NewRemaining perDay introducedToday =
     (let remaining = wrap32 (perDay - wrap32 introducedToday)
      in if remaining < 0 then 0 else remaining)"

definition RevRemaining :: "int \<Rightarrow> int \<Rightarrow> int" where
  "RevRemaining perDay studiedToday =
     (let remaining = wrap32 (perDay - wrap32 studiedToday)
      in if remaining < 0 then 0 else remaining)"

definition PriorityAllocate :: "Priority \<Rightarrow> int \<Rightarrow> int \<Rightarrow> int \<Rightarrow> int \<Rightarrow> int \<times> int" where
  "PriorityAllocate priority newCeiling totalRemaining newAvailable dueAvailable =
     (let ceiling = newCeiling; total = totalRemaining in
      if priority = PriorityNew then
        let newAllowance = wrap32 (min (min ceiling newAvailable) total)
        in (newAllowance, wrap32 (min (wrap64 (total - newAllowance)) dueAvailable))
      else if priority = PriorityDue then
        let dueAllowance = wrap32 (min total dueAvailable)
        in (wrap32 (min (min ceiling (wrap64 (total - dueAllowance))) newAvailable), dueAllowance)
      else (wrap32 (min ceiling newAvailable), wrap32 (min total dueAvailable)))"

definition LeftToStudy :: "int \<Rightarrow> int \<Rightarrow> int \<Rightarrow> Priority \<Rightarrow> int \<Rightarrow> int \<Rightarrow> int" where
  "LeftToStudy newCount learningCount dueCount priority newRemaining totalRemaining =
     (let (newAllowance, dueAllowance) =
            PriorityAllocate priority newRemaining totalRemaining newCount dueCount;
          total = wrap64 (newAllowance + dueAllowance);
          total = (if total > totalRemaining then totalRemaining else total)
      in wrap64 (total + learningCount))"

section \<open>Properties of the settings\<close>

lemma preset_calendar_cases: "preset_calendar p = no_calendar \<or> calendar_wf (preset_calendar p)"
  by (auto simp: preset_calendar_def dest: calendarFromWire_Inr split: option.splits sum.splits)

text \<open>whatever the column holds, every setting read from it is in its documented range: a bad
  preset degrades to defaults field by field and never fails a study fetch; its calendar is well
  formed or absent; and \<open>Settings\<close> agrees with the individual readers.\<close>

theorem Settings_in_range:
  "let s = Settings preset off localDate in
     0 \<le> set_NewPerDay s \<and> set_NewPerDay s \<le> MaxNewPerDay
     \<and> 0 \<le> set_RevPerDay s \<and> set_RevPerDay s \<le> MaxRevPerDay
     \<and> 0 \<le> set_LookAheadMinutes s \<and> set_LookAheadMinutes s \<le> MaxDueLookAheadMinutes
     \<and> RevOrder_Valid (set_Order s) \<and> Priority_Valid (set_Priority s)
     \<and> ParseCalendar preset \<in> {c. c = no_calendar} \<union> {c. calendar_wf c}
     \<and> s = \<lparr>set_NewPerDay = NewPerDay preset, set_RevPerDay = RevPerDay preset,
         set_Order = ParseRevOrder preset, set_Priority = ParsePriority preset,
         set_LookAheadMinutes = DueLookAheadMinutes preset,
         set_ClassDay = ReleaseGateDay preset off localDate\<rparr>"
proof -
  let ?p = "fst (parseDeckPreset preset)"
  have "0 \<le> preset_newPerDay ?p \<and> preset_newPerDay ?p \<le> MaxNewPerDay"
    by (auto simp: preset_newPerDay_def preset_bounds split: option.splits)
  moreover have "0 \<le> preset_revPerDay ?p \<and> preset_revPerDay ?p \<le> MaxRevPerDay"
    by (auto simp: preset_revPerDay_def preset_bounds split: option.splits)
  moreover have "0 \<le> preset_dueLookAheadMinutes ?p
      \<and> preset_dueLookAheadMinutes ?p \<le> MaxDueLookAheadMinutes"
    by (auto simp: preset_dueLookAheadMinutes_def preset_bounds split: option.splits)
  moreover have "RevOrder_Valid (preset_revOrder ?p)"
    by (auto simp: preset_revOrder_def RevOrder_Valid_def split: option.splits)
  moreover have "Priority_Valid (preset_priority ?p)"
    by (auto simp: preset_priority_def Priority_Valid_def split: option.splits)
  ultimately show ?thesis
    using preset_calendar_cases [of ?p]
    by (simp add: Settings_def Let_def NewPerDay_def RevPerDay_def ParseRevOrder_def
        ParsePriority_def DueLookAheadMinutes_def ReleaseGateDay_def ParseCalendar_def)
qed

text \<open>The counts come from the database, the allowances from the readers above.\<close>

definition budget_ok :: "int \<Rightarrow> int \<Rightarrow> int \<Rightarrow> int \<Rightarrow> bool" where
  "budget_ok ceiling budget newCount dueCount \<longleftrightarrow> 0 \<le> ceiling \<and> ceiling \<le> max_int32
     \<and> 0 \<le> budget \<and> budget \<le> max_int32 \<and> 0 \<le> newCount \<and> newCount \<le> max_int64
     \<and> 0 \<le> dueCount \<and> dueCount \<le> max_int64"

lemma budget_sums:
  fixes c t n d :: int
  assumes "0 \<le> c" "0 \<le> t" "0 \<le> n" "0 \<le> d"
  shows "min (min c n) t + min (t - min (min c n) t) d = min t (min c n + d)"
    and "min (min c (t - min t d)) n + min t d = min t (min c n + d)"
    and "min t (min c n + min t d) = min t (min c n + d)"
  using assms by linarith+

lemma PriorityAllocate_exact:
  assumes "budget_ok c t n d"
  shows "PriorityAllocate p c t n d =
    (if p = PriorityNew then (min (min c n) t, min (t - min (min c n) t) d)
     else if p = PriorityDue then (min (min c (t - min t d)) n, min t d)
     else (min c n, min t d))"
proof -
  have b: "wrap32 (min x y) = min x y" if "0 \<le> x" "x \<le> max_int32" "0 \<le> y" for x y
    using that by (intro wrap32_id) (simp_all add: int_bounds)
  have w: "wrap64 (t - x) = t - x" if "0 \<le> x" "x \<le> t" for x
    using that assms by (intro wrap64_id) (simp_all add: budget_ok_def int_bounds)
  from assms have r: "0 \<le> c" "c \<le> max_int32" "0 \<le> t" "t \<le> max_int32" "0 \<le> n" "0 \<le> d"
    by (simp_all add: budget_ok_def)
  have m: "min x y \<le> max_int32" if "x \<le> max_int32" for x y
    using that by simp
  have n1: "wrap32 (min (min c n) t) = min (min c n) t" using r by (intro b m) simp_all
  have n2: "wrap32 (min (t - min (min c n) t) d) = min (t - min (min c n) t) d"
    using r by (intro b) auto
  have d1: "wrap32 (min t d) = min t d" using r by (intro b)
  have d2: "wrap32 (min (min c (t - min t d)) n) = min (min c (t - min t d)) n"
    using r by (intro b m) auto
  have c1: "wrap32 (min c n) = min c n" using r by (intro b)
  show ?thesis
    unfolding PriorityAllocate_def Let_def n1 d1 c1
    using r by (simp add: w n2 d2)
qed

text \<open>C10: the split of the day's budget: neither side gets more than it has or than its ceiling;
  with a priority the two sides together never pass the budget and leave none of it unused while
  cards are left; the priority side is served first.\<close>

theorem PriorityAllocate_budget:
  assumes "budget_ok ceiling budget newAvailable dueAvailable"
    and "PriorityAllocate priority ceiling budget newAvailable dueAvailable = (new, due)"
  shows "0 \<le> new \<and> new \<le> ceiling \<and> new \<le> newAvailable \<and> 0 \<le> due \<and> due \<le> dueAvailable \<and> due \<le> budget
    \<and> (priority = PriorityNew \<or> priority = PriorityDue \<longrightarrow>
         new + due = min budget (min ceiling newAvailable + dueAvailable))
    \<and> (priority = PriorityNew \<longrightarrow> new = min budget (min ceiling newAvailable))
    \<and> (priority = PriorityDue \<longrightarrow> due = min budget dueAvailable)"
proof -
  have "PriorityDue \<noteq> PriorityNew" by (simp add: order_defs)
  with assms show ?thesis
    unfolding PriorityAllocate_exact [OF assms(1)] budget_ok_def
    by (auto simp: budget_sums split: if_splits) (simp add: min.commute)
qed

lemma PriorityAllocate_budget_witness:
  "PriorityAllocate PriorityDue 20 30 15 25 = (5, 25) \<and> (5::int) + 25 = min 30 (min 20 15 + 25)"
proof -
  have b: "budget_ok 20 30 15 25" by (simp add: budget_ok_def int_bounds)
  have p: "PriorityAllocate PriorityDue 20 30 15 25 = (5, 25)" by code_simp
  with PriorityAllocate_budget [OF b p] show ?thesis by simp
qed

text \<open>The number of cards left to study does not depend on the priority mode: it is the
  uncapped learning cards plus the day's budget, cut to what there is.\<close>

theorem LeftToStudy_mode_independent:
  assumes "budget_ok newRemaining totalRemaining newCount dueCount"
    and "0 \<le> learningCount" "learningCount \<le> 2 ^ 62"
  shows "LeftToStudy newCount learningCount dueCount priority newRemaining totalRemaining
    = learningCount + min totalRemaining (min newRemaining newCount + dueCount)"
proof -
  obtain a b where ab: "PriorityAllocate priority newRemaining totalRemaining newCount dueCount = (a, b)"
    by (cases "PriorityAllocate priority newRemaining totalRemaining newCount dueCount")
  from assms(1) have r: "0 \<le> newRemaining" "newRemaining \<le> 2147483647" "0 \<le> totalRemaining"
    "totalRemaining \<le> 2147483647" "0 \<le> newCount" "0 \<le> dueCount"
    by (simp_all add: budget_ok_def int_bounds)
  have sums: "0 \<le> a" "0 \<le> b" "a \<le> newRemaining" "b \<le> totalRemaining"
    "min totalRemaining (a + b) = min totalRemaining (min newRemaining newCount + dueCount)"
    using ab r unfolding PriorityAllocate_exact [OF assms(1)]
    by (auto simp: budget_sums split: if_splits)
  then have "wrap64 (a + b) = a + b" using r by (intro wrap64_id) linarith+
  moreover have "wrap64 (min totalRemaining (a + b) + learningCount) = min totalRemaining (a + b) + learningCount"
    using r sums assms(2,3) by (intro wrap64_id) (simp_all add: min_def)
  moreover have cut: "(if totalRemaining < x then totalRemaining else x) = min totalRemaining x" for x
    by (simp add: min_def)
  ultimately show ?thesis
    unfolding LeftToStudy_def ab sums(5) [symmetric] by (simp add: Let_def cut)
qed

lemma LeftToStudy_mode_independent_witness:
  "LeftToStudy 50 3 500 PriorityMixed 20 180 = 183 \<and> LeftToStudy 50 3 500 PriorityDue 20 180 = 183"
proof -
  have b: "budget_ok 20 180 50 500" by (simp add: budget_ok_def int_bounds)
  show ?thesis using LeftToStudy_mode_independent [OF b, of 3] by simp
qed

end
