(* ===== verification/Interleave.thy ===== *)
theory Interleave
  imports Go_Ints
begin

text \<open>
  The deficit scheduler that mixes review and new cards (\<open>internal/review/interleave.go\<close>). The
  counts are Go \<open>int\<close>s and the two products are taken in 64-bit arithmetic.
\<close>

fun interleave_loop :: "int \<Rightarrow> int \<Rightarrow> int \<Rightarrow> int \<Rightarrow> nat \<Rightarrow> bool list" where
  "interleave_loop reviewCount newCount revTaken newTaken 0 = []"
| "interleave_loop reviewCount newCount revTaken newTaken (Suc n) =
     (let wantReview =
            (if revTaken \<ge> reviewCount then False
             else if newTaken \<ge> newCount then True
             else wrap64 (wrap64 (revTaken + 1) * newCount)
                \<le> wrap64 (wrap64 (newTaken + 1) * reviewCount))
      in wantReview #
        (if wantReview then interleave_loop reviewCount newCount (wrap64 (revTaken + 1)) newTaken n
         else interleave_loop reviewCount newCount revTaken (wrap64 (newTaken + 1)) n))"

definition interleave :: "int \<Rightarrow> int \<Rightarrow> int \<Rightarrow> bool list" where
  "interleave reviewCount newCount limit =
     (let total = wrap64 (reviewCount + newCount);
          total = (if total > limit then limit else total)
      in if total \<le> 0 then [] else interleave_loop reviewCount newCount 0 0 (nat total))"

text \<open>How many picks of a list come from each side.\<close>

definition picked :: "bool \<Rightarrow> bool list \<Rightarrow> int" where
  "picked b ps = int (length (filter (\<lambda>p. p = b) ps))"

lemma picked_simps [simp]:
  "picked b [] = 0"
  "picked b (p # ps) = (if p = b then 1 else 0) + picked b ps"
  by (simp_all add: picked_def)

text \<open>The state of the scheduler: neither source is ahead of its share by more than one card.\<close>

definition fair :: "int \<Rightarrow> int \<Rightarrow> int \<Rightarrow> int \<Rightarrow> bool" where
  "fair R N r n \<longleftrightarrow> 0 \<le> r \<and> r \<le> R \<and> 0 \<le> n \<and> n \<le> N \<and> r * N \<le> (n + 1) * R \<and> n * R \<le> (r + 1) * N"

definition counts_ok :: "int \<Rightarrow> int \<Rightarrow> bool" where
  "counts_ok R N \<longleftrightarrow> 0 \<le> R \<and> R < 2 ^ 31 \<and> 0 \<le> N \<and> N < 2 ^ 31"

lemma product_small:
  assumes "0 \<le> a" "a \<le> 2 ^ 31" "0 \<le> b" "b < (2::int) ^ 31"
  shows "wrap64 (a * b) = a * b"
proof -
  have "a * b \<le> 2 ^ 31 * 2 ^ 31" using assms by (intro mult_mono) simp_all
  moreover have "0 \<le> a * b" using assms by simp
  ultimately show ?thesis by (intro wrap64_id) simp_all
qed

lemma interleave_step:
  assumes ok: "counts_ok R N" and f: "fair R N r n" and room: "r + n < R + N"
  shows "wrap64 (r + 1) = r + 1" "wrap64 (n + 1) = n + 1"
    and "(if r \<ge> R then False else if n \<ge> N then True
          else wrap64 (wrap64 (r + 1) * N) \<le> wrap64 (wrap64 (n + 1) * R))
      \<Longrightarrow> fair R N (r + 1) n"
    and "\<not> (if r \<ge> R then False else if n \<ge> N then True
          else wrap64 (wrap64 (r + 1) * N) \<le> wrap64 (wrap64 (n + 1) * R))
      \<Longrightarrow> fair R N r (n + 1)"
proof -
  from ok f have b: "0 \<le> r" "r \<le> R" "R < 2147483648" "0 \<le> n" "n \<le> N" "N < 2147483648"
    "r * N \<le> (n + 1) * R" "n * R \<le> (r + 1) * N"
    by (simp_all add: counts_ok_def fair_def)
  from b show w: "wrap64 (r + 1) = r + 1" "wrap64 (n + 1) = n + 1"
    by (auto intro!: wrap64_id)
  have p: "wrap64 ((r + 1) * N) = (r + 1) * N" "wrap64 ((n + 1) * R) = (n + 1) * R"
    using b by (auto intro!: product_small)
  show "fair R N (r + 1) n"
    if want: "if r \<ge> R then False else if n \<ge> N then True
      else wrap64 (wrap64 (r + 1) * N) \<le> wrap64 (wrap64 (n + 1) * R)"
  proof -
    from want have r: "r < R" by (auto split: if_splits)
    have "(r + 1) * N \<le> (n + 1) * R"
    proof (cases "n \<ge> N")
      case True
      have "(r + 1) * N \<le> R * N" using b r by (intro mult_right_mono) simp_all
      also have "R * N \<le> (n + 1) * R"
        using b True by (subst mult.commute) (intro mult_right_mono, simp_all)
      finally show ?thesis .
    qed (use want r in \<open>simp add: w p\<close>)
    moreover have "n * R \<le> (r + 1 + 1) * N" using b by (simp add: algebra_simps)
    ultimately show ?thesis using b r by (simp add: fair_def)
  qed
  show "fair R N r (n + 1)"
    if want: "\<not> (if r \<ge> R then False else if n \<ge> N then True
      else wrap64 (wrap64 (r + 1) * N) \<le> wrap64 (wrap64 (n + 1) * R))"
  proof -
    from want room b have n: "n < N" by (auto split: if_splits)
    have "(n + 1) * R \<le> (r + 1) * N"
    proof (cases "r \<ge> R")
      case True
      have "(n + 1) * R \<le> N * R" using b n by (intro mult_right_mono) simp_all
      also have "N * R \<le> (r + 1) * N"
        using b True by (subst mult.commute) (intro mult_right_mono, simp_all)
      finally show ?thesis .
    qed (use want n in \<open>simp add: w p\<close>)
    moreover have "r * N \<le> (n + 1 + 1) * R" using b by (simp add: algebra_simps)
    ultimately show ?thesis using b n by (simp add: fair_def)
  qed
qed

lemma interleave_loop_fair:
  assumes "counts_ok R N" "fair R N r n" "r + n + int k \<le> R + N"
  shows "length (interleave_loop R N r n k) = k \<and>
    (\<forall>j. fair R N (r + picked True (take j (interleave_loop R N r n k)))
      (n + picked False (take j (interleave_loop R N r n k))))"
  using assms(2,3)
proof (induction k arbitrary: r n)
  case 0
  then show ?case by simp
next
  case (Suc k)
  define want where "want = (if r \<ge> R then False else if n \<ge> N then True
      else wrap64 (wrap64 (r + 1) * N) \<le> wrap64 (wrap64 (n + 1) * R))"
  from Suc.prems have "r + n < R + N" by simp
  note s = interleave_step [OF assms(1) Suc.prems(1) this, folded want_def]
  have unfold: "interleave_loop R N r n (Suc k) = want #
      (if want then interleave_loop R N (r + 1) n k else interleave_loop R N r (n + 1) k)"
    by (simp add: Let_def want_def [symmetric] s(1,2))
  show ?case
  proof (cases want)
    case True
    with s(3) Suc.prems Suc.IH [of "r + 1" n]
    have ih: "length (interleave_loop R N (r + 1) n k) = k"
      "\<And>j. fair R N (r + 1 + picked True (take j (interleave_loop R N (r + 1) n k)))
        (n + picked False (take j (interleave_loop R N (r + 1) n k)))" by simp_all
    have "fair R N (r + picked True (take j (True # interleave_loop R N (r + 1) n k)))
        (n + picked False (take j (True # interleave_loop R N (r + 1) n k)))" for j
      using ih(2) [of "j - 1"] Suc.prems(1) by (cases j) (simp_all add: add.assoc)
    with True ih(1) show ?thesis unfolding unfold by simp
  next
    case False
    with s(4) Suc.prems Suc.IH [of r "n + 1"]
    have ih: "length (interleave_loop R N r (n + 1) k) = k"
      "\<And>j. fair R N (r + picked True (take j (interleave_loop R N r (n + 1) k)))
        (n + 1 + picked False (take j (interleave_loop R N r (n + 1) k)))" by simp_all
    have "fair R N (r + picked True (take j (False # interleave_loop R N r (n + 1) k)))
        (n + picked False (take j (False # interleave_loop R N r (n + 1) k)))" for j
      using ih(2) [of "j - 1"] Suc.prems(1) by (cases j) (simp_all add: add.assoc)
    with False ih(1) show ?thesis unfolding unfold by simp
  qed
qed

text \<open>C11: the scheduler returns exactly as many picks as there are cards up to the limit, never
  takes more from a source than it holds, and after every prefix neither source is ahead of its
  proportional share by more than one card.\<close>

theorem interleave_fair:
  assumes "counts_ok reviewCount newCount" and "0 \<le> limit"
  shows "int (length (interleave reviewCount newCount limit)) = min limit (reviewCount + newCount)
    \<and> (let taken = take j (interleave reviewCount newCount limit);
           r = picked True taken; n = picked False taken
       in r \<le> reviewCount \<and> n \<le> newCount
          \<and> r * newCount \<le> (n + 1) * reviewCount \<and> n * reviewCount \<le> (r + 1) * newCount)"
proof -
  let ?t = "min limit (reviewCount + newCount)"
  from assms(1) have b: "0 \<le> reviewCount" "reviewCount < 2147483648" "0 \<le> newCount" "newCount < 2147483648"
    by (simp_all add: counts_ok_def)
  then have "wrap64 (reviewCount + newCount) = reviewCount + newCount" by (intro wrap64_id) simp_all
  with assms(2) b have i: "interleave reviewCount newCount limit =
      interleave_loop reviewCount newCount 0 0 (nat ?t)"
    by (auto simp: interleave_def Let_def min_def)
  have "fair reviewCount newCount 0 0" using b by (simp add: fair_def)
  from interleave_loop_fair [OF assms(1) this, of "nat ?t"] b assms(2)
  show ?thesis unfolding i by (simp add: fair_def Let_def)
qed

lemma interleave_fair_witness:
  "int (length (interleave 6 2 5)) = 5 \<and> picked False (take 4 (interleave 6 2 5)) \<le> 2"
  using interleave_fair [of 6 2 5 4] by (simp add: counts_ok_def Let_def)

end
