(* ===== verification/Pg_Types.thy ===== *)
theory Pg_Types
  imports Go_Time
begin

text \<open>
  The values that cross the boundary to Postgres: a \<open>uuid\<close> is its 128 bits (so \<open>bytes.Compare\<close> is
  the unsigned order), a \<open>pgtype.UUID\<close> is an optional one (\<open>Valid = false\<close> is \<open>None\<close>), and a
  \<open>timestamptz\<close> keeps whole microseconds. The text form of a UUID belongs to the driver and is a
  parameter.
\<close>

type_synonym uuid = "128 word"
type_synonym pguuid = "uuid option"

definition uuid_bytes :: "uuid \<Rightarrow> 8 word list" where
  "uuid_bytes u = map (\<lambda>i. ucast (drop_bit (120 - 8 * i) u)) [0..<16]"

definition pg_timestamp :: "gotime \<Rightarrow> gotime" where
  "pg_timestamp t = time_Truncate t Microsecond"

lemma pg_timestamp_id: "Microsecond dvd t \<Longrightarrow> pg_timestamp t = t"
  by (simp add: pg_timestamp_def time_Truncate_id)

record uuid_text =
  uu_String :: "uuid \<Rightarrow> string"
  uu_Scan :: "string \<Rightarrow> uuid option"

text \<open>What the program relies on: the text is read back, and it is hexadecimal digits and hyphens.\<close>

definition uuid_text_ok :: "uuid_text \<Rightarrow> bool" where
  "uuid_text_ok t \<longleftrightarrow> (\<forall>u. uu_Scan t (uu_String t u) = Some u
     \<and> CHR ''|'' \<notin> set (uu_String t u) \<and> CHR '':'' \<notin> set (uu_String t u))"

text \<open>A text form that satisfies it: the decimal value.\<close>

definition demo_uuid_text :: uuid_text where
  "demo_uuid_text = \<lparr>uu_String = (\<lambda>u. FormatUint (unat u)),
     uu_Scan = (\<lambda>s. map_option of_nat (ParseUint 128 s))\<rparr>"

lemma demo_uuid_text_ok: "uuid_text_ok demo_uuid_text"
proof -
  have "ParseUint 128 (FormatUint (unat u)) = Some (unat u)" for u :: uuid
    using unat_bound [of u] by (intro ParseUint_FormatUint) simp
  then show ?thesis
    by (simp add: uuid_text_ok_def demo_uuid_text_def FormatUint_no_char is_digit_iff)
qed

end
