(* ===== verification/Go_Base64.thy ===== *)
theory Go_Base64
  imports Go_Strings
begin

text \<open>
  Go's \<open>base64.RawURLEncoding\<close>: the URL alphabet, no padding. The decoder ignores line breaks,
  refuses any other byte outside the alphabet and a final group of one character, and, not being
  strict, ignores the unused low bits of the final group.
\<close>

definition b64_char :: "nat \<Rightarrow> char" where
  "b64_char n =
     (if n < 26 then char_of (65 + n) else if n < 52 then char_of (97 + (n - 26))
      else if n < 62 then char_of (48 + (n - 52)) else if n = 62 then CHR ''-'' else CHR ''_'')"

definition b64_val :: "char \<Rightarrow> nat option" where
  "b64_val c =
     (let n = of_char c in
      if 65 \<le> n \<and> n \<le> 90 then Some (n - 65)
      else if 97 \<le> n \<and> n \<le> 122 then Some (n - 97 + 26)
      else if 48 \<le> n \<and> n \<le> 57 then Some (n - 48 + 52)
      else if c = CHR ''-'' then Some 62 else if c = CHR ''_'' then Some 63 else None)"

fun sextets :: "nat list \<Rightarrow> nat list" where
  "sextets [] = []"
| "sextets [a] = [a div 4, a mod 4 * 16]"
| "sextets [a, b] = [a div 4, a mod 4 * 16 + b div 16, b mod 16 * 4]"
| "sextets (a # b # c # r) =
     [a div 4, a mod 4 * 16 + b div 16, b mod 16 * 4 + c div 64, c mod 64] @ sextets r"

fun octets :: "nat list \<Rightarrow> nat list option" where
  "octets [] = Some []"
| "octets [x] = None"
| "octets [x, y] = Some [x * 4 + y div 16]"
| "octets [x, y, z] = Some [x * 4 + y div 16, y mod 16 * 16 + z div 4]"
| "octets (x # y # z # w # r) =
     map_option (\<lambda>bs. [x * 4 + y div 16, y mod 16 * 16 + z div 4, z mod 4 * 64 + w] @ bs) (octets r)"

definition b64_EncodeToString :: "string \<Rightarrow> string" where
  "b64_EncodeToString s = map b64_char (sextets (map of_char s))"

definition b64_DecodeString :: "string \<Rightarrow> string option" where
  "b64_DecodeString s =
     (let cs = filter (\<lambda>c. c \<noteq> CHR 0x0A \<and> c \<noteq> CHR 0x0D) s;
          vs = map b64_val cs
      in if None \<in> set vs then None
         else map_option (map char_of) (octets (map the vs)))"

lemma b64_val_char [simp]: "n < 64 \<Longrightarrow> b64_val (b64_char n) = Some n"
proof -
  assume n: "n < 64"
  have byte: "of_char (char_of k :: char) = k" if "k < 256" for k :: nat
    using that by simp
  consider "n < 26" | "26 \<le> n" "n < 52" | "52 \<le> n" "n < 62" | "n = 62" | "n = 63"
    using n by linarith
  then show "b64_val (b64_char n) = Some n"
  proof cases
    case 3
    then have "48 \<le> n - 4" "n - 4 \<le> 57" by linarith+
    with 3 show ?thesis by (simp add: b64_char_def b64_val_def Let_def byte del: of_char_of)
  next
    case 4
    then show ?thesis by (simp add: b64_char_def b64_val_def)
  next
    case 5
    then show ?thesis by (simp add: b64_char_def b64_val_def)
  qed (simp_all add: b64_char_def b64_val_def Let_def byte del: of_char_of)
qed

lemma byte_parts:
  fixes a :: nat
  assumes "a < 256"
  shows "a div 4 < 64" "a div 16 < 16" "a div 64 < 4" "a mod 4 < 4" "a mod 16 < 16" "a mod 64 < 64"
  using assms by (simp_all add: div_less_iff_less_mult)

lemma sextet_parts:
  fixes a b :: nat
  assumes "a < 256" "b < 256"
  shows "a div 4 < 64" "a mod 4 * 16 + b div 16 < 64" "b mod 16 * 4 + a div 64 < 64"
    "a mod 4 * 16 < 64" "a mod 16 * 4 < 64" "a mod 64 < 64"
  using byte_parts [OF assms(1)] byte_parts [OF assms(2)] by linarith+

lemma sextets_small: "\<forall>a\<in>set bs. a < 256 \<Longrightarrow> \<forall>x\<in>set (sextets bs). x < 64"
proof (induction bs rule: sextets.induct)
  case (2 a)
  then have "a < 256" by simp
  from sextet_parts [OF this this] show ?case by (simp del: One_nat_def)
next
  case (3 a b)
  then have "a < 256" "b < 256" by simp_all
  from sextet_parts [OF this] sextet_parts [OF this(2,1)] show ?case by (simp del: One_nat_def)
next
  case (4 a b c r)
  then have "a < 256" "b < 256" "c < 256" and ih: "\<forall>x\<in>set (sextets r). x < 64" by simp_all
  from ih sextet_parts [OF this(1,2)] sextet_parts [OF this(3,2)] sextet_parts [OF this(3,3)]
  show ?case by (simp del: One_nat_def)
qed simp

lemma high_low:
  fixes q r m :: nat
  assumes "r < m"
  shows "(q * m + r) div m = q" "(q * m + r) mod m = r"
  using assms by simp_all

lemma octets_sextets [simp]: "\<forall>a\<in>set bs. a < 256 \<Longrightarrow> octets (sextets bs) = Some bs"
proof (induction bs rule: sextets.induct)
  case (2 a)
  then show ?case by simp
next
  case (3 a b)
  with byte_parts [of b] show ?case by (simp add: high_low)
next
  case (4 a b c r)
  then have "b div 16 < 16" "c div 64 < 4" and ih: "octets (sextets r) = Some r"
    using byte_parts [of b] byte_parts [of c] by simp_all
  moreover from this(2) have "b mod 16 * 4 + c div 64 < 64" "(b mod 16 * 4 + c div 64) mod 4 = c div 64"
    "(b mod 16 * 4 + c div 64) div 4 = b mod 16" by (simp_all add: high_low)
  ultimately show ?case by (simp add: high_low)
qed simp

theorem b64_decode_encode [simp]: "b64_DecodeString (b64_EncodeToString s) = Some s"
proof -
  let ?xs = "sextets (map of_char s)"
  have bytes: "\<forall>a\<in>set (map of_char s). a < (256::nat)" by auto
  have small: "\<forall>x\<in>set ?xs. x < 64" by (rule sextets_small [OF bytes])
  have "b64_val CHR 0x0A = None" "b64_val CHR 0x0D = None" by code_simp+
  with small have "\<forall>x\<in>set ?xs. b64_char x \<noteq> CHR 0x0A \<and> b64_char x \<noteq> CHR 0x0D"
    by (metis b64_val_char option.distinct(1))
  then have "filter (\<lambda>c. c \<noteq> CHR 0x0A \<and> c \<noteq> CHR 0x0D) (map b64_char ?xs) = map b64_char ?xs"
    by (simp add: filter_id_conv)
  moreover from small have "map b64_val (map b64_char ?xs) = map Some ?xs" by simp
  ultimately have "b64_DecodeString (map b64_char ?xs) =
      map_option (map char_of) (octets (map the (map Some ?xs)))"
    unfolding b64_DecodeString_def Let_def by (simp only:) (simp add: image_iff)
  also have "\<dots> = Some s" using octets_sextets [OF bytes] by (simp add: comp_def)
  finally show ?thesis by (simp add: b64_EncodeToString_def)
qed

lemma b64_EncodeToString_Nil [simp]: "b64_EncodeToString s = [] \<longleftrightarrow> s = []"
  by (cases "map of_char s :: nat list" rule: sextets.cases) (auto simp: b64_EncodeToString_def)

interpretation base64: codec b64_EncodeToString b64_DecodeString "\<lambda>_. True"
  by unfold_locales simp

end
