(* ===== verification/Cursor.thy ===== *)
theory Cursor
  imports Pg_Types Go_Base64
begin

text \<open>
  The opaque keyset cursor over the review queue (\<open>internal/review/types.go\<close>): its encoding, its
  decoding and the query arguments it stands for.
\<close>

section \<open>The cursor\<close>

record Cursor =
  cur_AtStart :: bool
  cur_GroupBit :: int
  cur_Key :: float64
  cur_CardID :: pguuid
  cur_Mixed :: bool
  cur_RevAtStart :: bool
  cur_RevKey :: float64
  cur_RevCardID :: pguuid
  cur_NewAtStart :: bool
  cur_NewKey :: float64
  cur_NewCardID :: pguuid

definition zero_Cursor :: Cursor where
  "zero_Cursor =
     \<lparr>cur_AtStart = False, cur_GroupBit = 0, cur_Key = 0, cur_CardID = None, cur_Mixed = False,
      cur_RevAtStart = False, cur_RevKey = 0, cur_RevCardID = None,
      cur_NewAtStart = False, cur_NewKey = 0, cur_NewCardID = None\<rparr>"

datatype cursor_error = ErrMalformedCursor

text \<open>\<open>pgtype.UUID.String\<close>: empty for a UUID that is not valid.\<close>

definition pguuid_String :: "uuid_text \<Rightarrow> pguuid \<Rightarrow> string" where
  "pguuid_String t u = (case u of None \<Rightarrow> [] | Some v \<Rightarrow> uu_String t v)"

definition encodeSubCursor :: "uuid_text \<Rightarrow> bool \<Rightarrow> float64 \<Rightarrow> pguuid \<Rightarrow> string" where
  "encodeSubCursor t atStart key cardID =
     (if atStart then ''-'' else FormatUint (unat key) @ '':'' @ pguuid_String t cardID)"

definition EncodeCursor :: "uuid_text \<Rightarrow> Cursor \<Rightarrow> string" where
  "EncodeCursor t c =
     (if cur_AtStart c then []
      else
        let raw =
          (if cur_Mixed c then
             ''m:'' @ encodeSubCursor t (cur_RevAtStart c) (cur_RevKey c) (cur_RevCardID c) @ ''|''
               @ encodeSubCursor t (cur_NewAtStart c) (cur_NewKey c) (cur_NewCardID c)
           else Itoa (cur_GroupBit c) @ '':'' @ FormatUint (unat (cur_Key c)) @ '':''
               @ pguuid_String t (cur_CardID c))
        in b64_EncodeToString raw)"

definition decodeSubCursor :: "uuid_text \<Rightarrow> string \<Rightarrow> cursor_error + bool \<times> float64 \<times> pguuid" where
  "decodeSubCursor t s =
     (if s = ''-'' then Inr (True, 0, None)
      else (case Cut s '':'' of
         None \<Rightarrow> Inl ErrMalformedCursor
       | Some (keyPart, idPart) \<Rightarrow>
           (case ParseUint 64 keyPart of
              None \<Rightarrow> Inl ErrMalformedCursor
            | Some bits \<Rightarrow>
                (case uu_Scan t idPart of
                   None \<Rightarrow> Inl ErrMalformedCursor
                 | Some u \<Rightarrow> Inr (False, of_nat bits, Some u)))))"

definition DecodeCursor :: "uuid_text \<Rightarrow> string \<Rightarrow> cursor_error + Cursor" where
  "DecodeCursor t s =
     (if s = [] then Inr (zero_Cursor\<lparr>cur_AtStart := True\<rparr>)
      else (case b64_DecodeString s of
         None \<Rightarrow> Inl ErrMalformedCursor
       | Some raw \<Rightarrow>
           (case CutPrefix raw ''m:'' of
              Some rest \<Rightarrow>
                (case Cut rest ''|'' of
                   None \<Rightarrow> Inl ErrMalformedCursor
                 | Some (revPart, newPart) \<Rightarrow>
                     bindE (decodeSubCursor t revPart) (\<lambda>(revAtStart, revKey, revID).
                     bindE (decodeSubCursor t newPart) (\<lambda>(newAtStart, newKey, newID).
                     Inr (zero_Cursor\<lparr>cur_Mixed := True,
                       cur_RevAtStart := revAtStart, cur_RevKey := revKey, cur_RevCardID := revID,
                       cur_NewAtStart := newAtStart, cur_NewKey := newKey, cur_NewCardID := newID\<rparr>))))
            | None \<Rightarrow>
                (case Cut raw '':'' of
                   None \<Rightarrow> Inl ErrMalformedCursor
                 | Some (groupBitPart, rest) \<Rightarrow>
                     (case Atoi groupBitPart of
                        None \<Rightarrow> Inl ErrMalformedCursor
                      | Some groupBit \<Rightarrow>
                          bindE (decodeSubCursor t rest) (\<lambda>(_, key, u).
                          Inr (zero_Cursor\<lparr>cur_GroupBit := wrap32 groupBit, cur_Key := key,
                            cur_CardID := u\<rparr>)))))))"

section \<open>Query arguments\<close>

definition groupBitArg :: "Cursor \<Rightarrow> int" where
  "groupBitArg c = (if cur_AtStart c then -1 else cur_GroupBit c)"

definition keyArg :: "Cursor \<Rightarrow> float64" where
  "keyArg c = (if cur_AtStart c then flt_neg_inf else cur_Key c)"

definition cardIDArg :: "Cursor \<Rightarrow> pguuid" where
  "cardIDArg c = (if cur_AtStart c then Some 0 else cur_CardID c)"

definition revKeyArg :: "Cursor \<Rightarrow> float64" where
  "revKeyArg c = (if cur_AtStart c \<or> cur_RevAtStart c then flt_neg_inf else cur_RevKey c)"

definition revCardIDArg :: "Cursor \<Rightarrow> pguuid" where
  "revCardIDArg c = (if cur_AtStart c \<or> cur_RevAtStart c then Some 0 else cur_RevCardID c)"

definition newKeyArg :: "Cursor \<Rightarrow> float64" where
  "newKeyArg c = (if cur_AtStart c \<or> cur_NewAtStart c then flt_neg_inf else cur_NewKey c)"

definition newCardIDArg :: "Cursor \<Rightarrow> pguuid" where
  "newCardIDArg c = (if cur_AtStart c \<or> cur_NewAtStart c then Some 0 else cur_NewCardID c)"

lemmas cursor_args = groupBitArg_def keyArg_def cardIDArg_def revKeyArg_def revCardIDArg_def
  newKeyArg_def newCardIDArg_def

section \<open>Canonical cursors\<close>

text \<open>The cursors the program builds: the fields that the mode does not use are zero.\<close>

definition sub_canonical :: "bool \<Rightarrow> float64 \<Rightarrow> pguuid \<Rightarrow> bool" where
  "sub_canonical atStart key u \<longleftrightarrow> (if atStart then key = 0 \<and> u = None else u \<noteq> None)"

definition cursor_canonical :: "Cursor \<Rightarrow> bool" where
  "cursor_canonical c \<longleftrightarrow>
     c = zero_Cursor\<lparr>cur_AtStart := True\<rparr>
     \<or> (\<exists>a k u b l v. c = zero_Cursor\<lparr>cur_Mixed := True,
          cur_RevAtStart := a, cur_RevKey := k, cur_RevCardID := u,
          cur_NewAtStart := b, cur_NewKey := l, cur_NewCardID := v\<rparr>
          \<and> sub_canonical a k u \<and> sub_canonical b l v)
     \<or> (\<exists>g k u. c = zero_Cursor\<lparr>cur_GroupBit := g, cur_Key := k, cur_CardID := Some u\<rparr>
          \<and> in_range 32 g)"

lemma FormatUint_not_dash: "FormatUint n @ s \<noteq> ''-''"
proof
  assume "FormatUint n @ s = ''-''"
  then have "hd (FormatUint n) = CHR ''-''"
    by (metis FormatUint_not_Nil hd_append2 list.sel(1))
  with FormatUint_sign(1) show False by blast
qed

lemma decode_encode_sub:
  assumes "uuid_text_ok t" "sub_canonical a k u"
  shows "decodeSubCursor t (encodeSubCursor t a k u) = Inr (a, k, u)"
proof (cases a)
  case True
  with assms(2) show ?thesis by (simp add: sub_canonical_def encodeSubCursor_def decodeSubCursor_def)
next
  case False
  with assms(2) obtain v where v: "u = Some v" by (auto simp: sub_canonical_def)
  have "CHR '':'' \<notin> set (FormatUint (unat k))"
    by (rule FormatUint_no_char) (simp add: is_digit_iff)
  then have "Cut (FormatUint (unat k) @ '':'' @ uu_String t v) '':'' = Some (FormatUint (unat k), uu_String t v)"
    by (simp add: Cut_char)
  moreover have "unat k < 2 ^ 64" using unat_bound [of k] by simp
  ultimately show ?thesis
    using False v assms(1) FormatUint_not_dash [of "unat k"]
    by (simp add: encodeSubCursor_def decodeSubCursor_def pguuid_String_def uuid_text_ok_def)
qed

lemma encodeSubCursor_no_bar:
  "uuid_text_ok t \<Longrightarrow> CHR ''|'' \<notin> set (encodeSubCursor t a k u)"
  by (auto simp: encodeSubCursor_def pguuid_String_def uuid_text_ok_def FormatUint_no_char
      is_digit_iff split: option.splits)

lemma decodeSubCursor_canonical:
  "decodeSubCursor t s = Inr (a, k, u) \<Longrightarrow> sub_canonical a k u"
  by (auto simp: decodeSubCursor_def sub_canonical_def split: if_splits option.splits)
    (rule exI, erule sym)

section \<open>Properties\<close>

lemma EncodeCursor_mixed:
  assumes "uuid_text_ok t" "sub_canonical a k u" "sub_canonical b l v"
  defines "c \<equiv> zero_Cursor\<lparr>cur_Mixed := True, cur_RevAtStart := a, cur_RevKey := k,
    cur_RevCardID := u, cur_NewAtStart := b, cur_NewKey := l, cur_NewCardID := v\<rparr>"
  shows "DecodeCursor t (EncodeCursor t c) = Inr c"
proof -
  let ?r = "encodeSubCursor t a k u" and ?n = "encodeSubCursor t b l v"
  let ?raw = "''m:'' @ ?r @ ''|'' @ ?n"
  have e: "EncodeCursor t c = b64_EncodeToString ?raw" by (simp add: EncodeCursor_def c_def zero_Cursor_def)
  have p: "CutPrefix ?raw ''m:'' = Some (?r @ ''|'' @ ?n)" by (simp add: CutPrefix_def)
  have q: "Cut (?r @ ''|'' @ ?n) ''|'' = Some (?r, ?n)"
    using encodeSubCursor_no_bar [OF assms(1)] by (simp add: Cut_char)
  have ne: "b64_EncodeToString ?raw \<noteq> []" by simp
  show ?thesis
    unfolding e DecodeCursor_def b64_decode_encode option.case p q
    using ne decode_encode_sub [OF assms(1,2)] decode_encode_sub [OF assms(1,3)]
    by (simp add: c_def del: b64_EncodeToString_Nil)
qed

lemma EncodeCursor_single:
  fixes k :: float64 and u :: uuid
  assumes "uuid_text_ok t" "in_range 32 g"
  defines "c \<equiv> zero_Cursor\<lparr>cur_GroupBit := g, cur_Key := k, cur_CardID := Some u\<rparr>"
  shows "DecodeCursor t (EncodeCursor t c) = Inr c"
proof -
  let ?sub = "encodeSubCursor t False k (Some u)"
  let ?raw = "Itoa g @ '':'' @ ?sub"
  have e: "EncodeCursor t c = b64_EncodeToString ?raw"
    by (simp add: EncodeCursor_def c_def zero_Cursor_def encodeSubCursor_def)
  have "Itoa g \<noteq> []" by (simp add: Itoa_def)
  moreover have "CHR ''m'' \<notin> set (Itoa g)" by (rule Itoa_no_char) (simp_all add: is_digit_iff)
  ultimately have p: "CutPrefix ?raw ''m:'' = None"
    by (cases "Itoa g") (auto simp: CutPrefix_def)
  have "CHR '':'' \<notin> set (Itoa g)" by (rule Itoa_no_char) (simp_all add: is_digit_iff)
  then have q: "Cut ?raw '':'' = Some (Itoa g, ?sub)" by (simp add: Cut_char)
  from assms(2) have "in_range 64 g" by (simp add: in_range_def)
  then have g: "Atoi (Itoa g) = Some g" by (simp add: Atoi_def ParseInt_Itoa)
  have ne: "b64_EncodeToString ?raw \<noteq> []" by simp
  have "sub_canonical False k (Some u)" by (simp add: sub_canonical_def)
  from decode_encode_sub [OF assms(1) this] assms(2) show ?thesis
    unfolding e DecodeCursor_def b64_decode_encode option.case p q
    using ne by (simp add: c_def g del: b64_EncodeToString_Nil)
qed

lemma DecodeCursor_EncodeCursor:
  assumes "uuid_text_ok t" and "cursor_canonical c"
  shows "DecodeCursor t (EncodeCursor t c) = Inr c"
  using assms(2) unfolding cursor_canonical_def
proof (elim disjE exE conjE)
  assume "c = zero_Cursor\<lparr>cur_AtStart := True\<rparr>"
  then show ?thesis by (simp add: EncodeCursor_def DecodeCursor_def)
qed (simp_all add: EncodeCursor_mixed EncodeCursor_single assms(1))

text \<open>a cursor the server hands out comes back from the URL as the same position, bit for bit
  of its float keys, in single and in mixed mode.\<close>

theorem cursor_roundtrip:
  assumes "uuid_text_ok t" and "cursor_canonical c"
  shows "DecodeCursor t (EncodeCursor t c) = Inr c"
  using assms by (rule DecodeCursor_EncodeCursor)

lemma cursor_roundtrip_witness:
  "DecodeCursor demo_uuid_text (EncodeCursor demo_uuid_text
     (zero_Cursor\<lparr>cur_GroupBit := 1, cur_Key := flt_neg_inf, cur_CardID := Some 77\<rparr>))
   = Inr (zero_Cursor\<lparr>cur_GroupBit := 1, cur_Key := flt_neg_inf, cur_CardID := Some 77\<rparr>)"
proof -
  have "cursor_canonical (zero_Cursor\<lparr>cur_GroupBit := 1, cur_Key := flt_neg_inf, cur_CardID := Some 77\<rparr>)"
    unfolding cursor_canonical_def in_range_def
    by (intro disjI2 exI [of _ "1::int"] exI [of _ flt_neg_inf] exI [of _ "77::uuid"]) simp
  then show ?thesis by (rule cursor_roundtrip [OF demo_uuid_text_ok])
qed

text \<open>The cursor of one demo text form, as an instance of the codec interface.\<close>

interpretation demo_cursor: codec "EncodeCursor demo_uuid_text"
  "\<lambda>s. case DecodeCursor demo_uuid_text s of Inl _ \<Rightarrow> None | Inr c \<Rightarrow> Some c" cursor_canonical
  by unfold_locales (simp add: DecodeCursor_EncodeCursor demo_uuid_text_ok)

end
