(* ===== verification/Locks.thy ===== *)
theory Locks
  imports Pg_Types
begin

text \<open>
  The per-(user, card) advisory locks (\<open>internal/review/lock.go\<close>): the key of a pair, the order in
  which a batch takes its keys, and the step relation of concurrent transactions that take
  transaction-scoped advisory locks one by one and release them when they end.
\<close>

section \<open>Keys\<close>

text \<open>\<open>hash/fnv\<close>'s 64-bit FNV-1a.\<close>

definition fnv_offset64 :: "64 word" where "fnv_offset64 = 14695981039346656037"
definition fnv_prime64 :: "64 word" where "fnv_prime64 = 1099511628211"

definition fnv64a :: "64 word \<Rightarrow> 8 word list \<Rightarrow> 64 word" where
  "fnv64a h bs = foldl (\<lambda>h b. xor h (ucast b) * fnv_prime64) h bs"

definition lockKey :: "uuid \<Rightarrow> uuid \<Rightarrow> int" where
  "lockKey userID cardID =
     sint (fnv64a (fnv64a fnv_offset64 (uuid_bytes userID)) (uuid_bytes cardID))"

definition sortedKeys :: "uuid \<Rightarrow> uuid list \<Rightarrow> int list" where
  "sortedKeys userID cardIDs = sort (dedup (map (lockKey userID) cardIDs))"

text \<open>\<open>acquireLocks\<close>: one \<open>LockCardForGrade\<close> per key, stopping at the first error.\<close>

primrec acquireLocks :: "('s \<Rightarrow> int \<Rightarrow> 'e + 's) \<Rightarrow> 's \<Rightarrow> int list \<Rightarrow> 'e + 's" where
  "acquireLocks lock s [] = Inr s"
| "acquireLocks lock s (k # keys) = bindE (lock s k) (\<lambda>s'. acquireLocks lock s' keys)"

definition LockCards :: "('s \<Rightarrow> int \<Rightarrow> 'e + 's) \<Rightarrow> 's \<Rightarrow> uuid \<Rightarrow> uuid list \<Rightarrow> 'e + 's" where
  "LockCards lock s userID cardIDs = acquireLocks lock s (sortedKeys userID cardIDs)"

lemma sortedKeys_strict: "sorted_wrt (<) (sortedKeys u cs)"
  by (simp add: sortedKeys_def sorted_strict_dedup_sort)

lemma set_sortedKeys: "set (sortedKeys u cs) = lockKey u ` set cs"
  by (simp add: sortedKeys_def)

lemma sortedKeys_permute: "set cs = set ds \<Longrightarrow> sortedKeys u cs = sortedKeys u ds"
  by (rule sorted_distinct_set_unique) (simp_all add: sortedKeys_def)

section \<open>Concurrent transactions\<close>

record txn =
  tx_held :: "int list"
  tx_todo :: "int list"
  tx_done :: bool

definition start_tx :: "uuid \<times> uuid list \<Rightarrow> txn" where
  "start_tx r = \<lparr>tx_held = [], tx_todo = sortedKeys (fst r) (snd r), tx_done = False\<rparr>"

text \<open>Transaction \<open>i\<close> can take its next key: no other transaction holds it.\<close>

definition free_for :: "txn list \<Rightarrow> nat \<Rightarrow> int \<Rightarrow> bool" where
  "free_for s i k \<longleftrightarrow> (\<forall>j<length s. j \<noteq> i \<longrightarrow> k \<notin> set (tx_held (s ! j)))"

text \<open>\<open>pg_advisory_xact_lock\<close> waits for the key to be free; commit and rollback release every key.\<close>

inductive lock_step :: "txn list \<Rightarrow> txn list \<Rightarrow> bool" where
  acquire: "i < length s \<Longrightarrow> \<not> tx_done (s ! i) \<Longrightarrow> tx_todo (s ! i) = k # ks \<Longrightarrow> free_for s i k \<Longrightarrow>
    lock_step s (s[i := (s ! i)\<lparr>tx_held := k # tx_held (s ! i), tx_todo := ks\<rparr>])"
| commit: "i < length s \<Longrightarrow> \<not> tx_done (s ! i) \<Longrightarrow> tx_todo (s ! i) = [] \<Longrightarrow>
    lock_step s (s[i := (s ! i)\<lparr>tx_held := [], tx_done := True\<rparr>])"
| rollback: "i < length s \<Longrightarrow> \<not> tx_done (s ! i) \<Longrightarrow>
    lock_step s (s[i := \<lparr>tx_held = [], tx_todo = [], tx_done = True\<rparr>])"

inductive_cases lock_stepE: "lock_step s t"

text \<open>A step that does not need a rollback.\<close>

definition can_progress :: "txn list \<Rightarrow> nat \<Rightarrow> bool" where
  "can_progress s i \<longleftrightarrow> i < length s \<and> \<not> tx_done (s ! i) \<and>
     (case tx_todo (s ! i) of [] \<Rightarrow> True | k # ks \<Rightarrow> free_for s i k)"

definition lock_init :: "txn list \<Rightarrow> bool" where
  "lock_init s \<longleftrightarrow> (\<exists>reqs. s = map start_tx reqs)"

section \<open>The invariant\<close>

definition tx_inv :: "txn \<Rightarrow> bool" where
  "tx_inv x \<longleftrightarrow> sorted_wrt (<) (rev (tx_held x) @ tx_todo x) \<and> (tx_done x \<longrightarrow> tx_held x = [])"

definition exclusive :: "txn list \<Rightarrow> bool" where
  "exclusive s \<longleftrightarrow> (\<forall>i<length s. \<forall>j<length s. i \<noteq> j \<longrightarrow>
     set (tx_held (s ! i)) \<inter> set (tx_held (s ! j)) = {})"

definition lock_inv :: "txn list \<Rightarrow> bool" where
  "lock_inv s \<longleftrightarrow> (\<forall>x\<in>set s. tx_inv x) \<and> exclusive s"

lemma lock_inv_init: "lock_init s \<Longrightarrow> lock_inv s"
  by (auto simp: lock_init_def lock_inv_def exclusive_def start_tx_def tx_inv_def sortedKeys_strict)

lemma exclusive_update:
  assumes "exclusive s" "i < length s"
    and "\<And>j. j < length s \<Longrightarrow> j \<noteq> i \<Longrightarrow> set (tx_held x) \<inter> set (tx_held (s ! j)) = {}"
  shows "exclusive (s[i := x])"
  using assms unfolding exclusive_def by (auto simp: nth_list_update)

lemma lock_inv_update:
  assumes "lock_inv s" "i < length s" "tx_inv x"
    and "\<And>j. j < length s \<Longrightarrow> j \<noteq> i \<Longrightarrow> set (tx_held x) \<inter> set (tx_held (s ! j)) = {}"
  shows "lock_inv (s[i := x])"
  using assms set_update_subset_insert [of s i x] unfolding lock_inv_def
  by (blast intro: exclusive_update)

lemma lock_inv_step: "lock_inv s \<Longrightarrow> lock_step s t \<Longrightarrow> lock_inv t"
proof (erule lock_stepE)
  fix i k ks
  assume inv: "lock_inv s" and t: "t = s[i := (s ! i)\<lparr>tx_held := k # tx_held (s ! i), tx_todo := ks\<rparr>]"
    and i: "i < length s" "\<not> tx_done (s ! i)" "tx_todo (s ! i) = k # ks" "free_for s i k"
  from inv i have "tx_inv (s ! i)" by (simp add: lock_inv_def)
  with i have "tx_inv ((s ! i)\<lparr>tx_held := k # tx_held (s ! i), tx_todo := ks\<rparr>)"
    by (simp add: tx_inv_def)
  with inv i show "lock_inv t"
    unfolding t by (intro lock_inv_update) (auto simp: free_for_def lock_inv_def exclusive_def)
next
  fix i
  assume inv: "lock_inv s" and t: "t = s[i := (s ! i)\<lparr>tx_held := [], tx_done := True\<rparr>]"
    and i: "i < length s" "tx_todo (s ! i) = []"
  then show "lock_inv t" unfolding t by (intro lock_inv_update) (auto simp: tx_inv_def)
next
  fix i
  assume inv: "lock_inv s" and t: "t = s[i := \<lparr>tx_held = [], tx_todo = [], tx_done = True\<rparr>]"
    and i: "i < length s"
  then show "lock_inv t" unfolding t by (intro lock_inv_update) (auto simp: tx_inv_def)
qed

interpretation locks: invariant_system lock_init lock_step lock_inv
  by unfold_locales (fact lock_inv_init, fact lock_inv_step)

section \<open>Progress\<close>

text \<open>
  If a transaction waits, the one that holds its key either has everything or waits for a larger
  key; so the transaction that waits for the largest key is not waiting at all.
\<close>

lemma blocked_waits_below:
  assumes inv: "lock_inv s" and i: "i < length s" "\<not> tx_done (s ! i)" "tx_todo (s ! i) = k # ks"
    and blocked: "\<not> free_for s i k"
  shows "\<exists>j<length s. \<not> tx_done (s ! j) \<and> (\<forall>k' ks'. tx_todo (s ! j) = k' # ks' \<longrightarrow> k < k')"
proof -
  from blocked obtain j where j: "j < length s" "k \<in> set (tx_held (s ! j))"
    by (auto simp: free_for_def)
  from inv j(1) have "tx_inv (s ! j)" by (simp add: lock_inv_def)
  with j(2) show ?thesis
    using j(1) by (intro exI [of _ j]) (auto simp: tx_inv_def sorted_wrt_append)
qed

lemma some_progress:
  assumes inv: "lock_inv s" and live: "\<exists>x\<in>set s. \<not> tx_done x"
  shows "\<exists>i. can_progress s i"
proof (rule ccontr)
  assume stuck: "\<not> (\<exists>i. can_progress s i)"
  let ?W = "{i. i < length s \<and> \<not> tx_done (s ! i)}"
  let ?key = "\<lambda>i. hd (tx_todo (s ! i))"
  have waits: "\<exists>k ks. tx_todo (s ! i) = k # ks \<and> \<not> free_for s i k" if "i \<in> ?W" for i
  proof -
    from that stuck have "\<not> can_progress s i" "i < length s" "\<not> tx_done (s ! i)" by auto
    then show ?thesis by (cases "tx_todo (s ! i)") (auto simp: can_progress_def)
  qed
  have fin: "finite (?key ` ?W)" by simp
  from live obtain i where "i \<in> ?W" by (auto simp: in_set_conv_nth)
  with fin have "Max (?key ` ?W) \<in> ?key ` ?W" by (intro Max_in) auto
  then obtain m where m: "m \<in> ?W" "?key m = Max (?key ` ?W)" by (metis (no_types, lifting) imageE)
  have max: "?key i \<le> ?key m" if "i \<in> ?W" for i
    unfolding m(2) by (rule Max_ge [OF fin imageI [OF that]])
  from waits [OF m(1)] obtain k ks where k: "tx_todo (s ! m) = k # ks" "\<not> free_for s m k" by blast
  from m(1) have m': "m < length s" "\<not> tx_done (s ! m)" by simp_all
  obtain j where j: "j \<in> ?W" "\<forall>k' ks'. tx_todo (s ! j) = k' # ks' \<longrightarrow> k < k'"
    using blocked_waits_below [OF inv m' k] by blast
  from waits [OF j(1)] j(2) have "k < ?key j" by auto
  with max [OF j(1)] k(1) show False by simp
qed

text \<open>Every step uses up a key or ends a transaction, so no run goes on for ever.\<close>

definition work_left :: "txn list \<Rightarrow> nat" where
  "work_left s = (\<Sum>x\<leftarrow>s. if tx_done x then 0 else Suc (length (tx_todo x)))"

lemma work_left_update:
  "i < length s \<Longrightarrow> work_left (s[i := x]) + (if tx_done (s ! i) then 0 else Suc (length (tx_todo (s ! i))))
    = work_left s + (if tx_done x then 0 else Suc (length (tx_todo x)))"
proof (induction s arbitrary: i)
  case (Cons a s)
  show ?case
  proof (cases i)
    case 0
    then show ?thesis by (simp add: work_left_def)
  next
    case (Suc j)
    then have j: "j < length s" using Cons.prems by simp
    have split: "work_left (y # ys) = work_left [y] + work_left ys" for y ys
      by (simp add: work_left_def)
    have eqs: "(a # s)[i := x] = a # s[j := x]" "(a # s) ! i = s ! j" using Suc by simp_all
    show ?thesis
      unfolding eqs split [of a s] split [of a "s[j := x]"] using Cons.IH [OF j] by linarith
  qed
qed simp

lemma lock_step_decreases: "lock_step s t \<Longrightarrow> work_left t < work_left s"
proof (erule lock_stepE)
  fix i k ks
  assume "t = s[i := (s ! i)\<lparr>tx_held := k # tx_held (s ! i), tx_todo := ks\<rparr>]"
    "i < length s" "\<not> tx_done (s ! i)" "tx_todo (s ! i) = k # ks"
  with work_left_update [of i s "(s ! i)\<lparr>tx_held := k # tx_held (s ! i), tx_todo := ks\<rparr>"]
  show ?thesis by simp
next
  fix i
  assume "t = s[i := (s ! i)\<lparr>tx_held := [], tx_done := True\<rparr>]" "i < length s" "\<not> tx_done (s ! i)"
  with work_left_update [of i s "(s ! i)\<lparr>tx_held := [], tx_done := True\<rparr>"]
  show ?thesis by simp
next
  fix i
  assume "t = s[i := \<lparr>tx_held = [], tx_todo = [], tx_done = True\<rparr>]" "i < length s" "\<not> tx_done (s ! i)"
  with work_left_update [of i s "\<lparr>tx_held = [], tx_todo = [], tx_done = True\<rparr>"]
  show ?thesis by simp
qed

section \<open>Properties\<close>

text \<open>C6: however many batches and imports run at once over whatever cards, a lock is held by one of
  them at a time, and as long as one of them is unfinished some transaction can take its next lock
  or commit without anyone being rolled back: taking the keys in ascending order rules out
  deadlock, hash collisions included.\<close>

theorem locks_deadlock_free:
  assumes "reaches lock_init lock_step s"
  shows "exclusive s \<and> ((\<exists>x\<in>set s. \<not> tx_done x) \<longrightarrow> (\<exists>i. can_progress s i))
    \<and> (\<forall>t. lock_step s t \<longrightarrow> work_left t < work_left s)"
  using locks.reachable_inv [OF assms] some_progress lock_step_decreases
  by (auto simp: lock_inv_def)

lemma locks_deadlock_free_witness:
  "exclusive (map start_tx [(1, [5, 6]), (1, [6, 5, 6])])
   \<and> (\<exists>i. can_progress (map start_tx [(1, [5, 6]), (1, [6, 5, 6])]) i)"
proof -
  have "reaches lock_init lock_step (map start_tx [(1, [5, 6]), (1, [6, 5, 6])])"
    by (rule reaches_init) (unfold lock_init_def, rule exI, rule refl)
  from locks_deadlock_free [OF this] show ?thesis by (simp add: start_tx_def)
qed



end
