(* ===== verification/Fsrs_Wrapper.thy ===== *)
theory Fsrs_Wrapper
  imports Go_Time
begin

text \<open>
  The wrapper around the FSRS library (\<open>internal/fsrs/params.go\<close>, \<open>schedule.go\<close>, \<open>errors.go\<close>):
  validation of parameter sets and of prior card states, the grade-time \<open>Schedule\<close>, the four-way
  \<open>PreviewAll\<close> and the narrowing of what the library returns. The library (\<open>go-fsrs\<close>) is the
  parameter \<open>fsrs_lib\<close>: its constants and the three calls the wrapper makes.
\<close>

section \<open>The library\<close>

record lib_card =
  lc_Due :: gotime
  lc_Stability :: float64
  lc_Difficulty :: float64
  lc_ScheduledDays :: nat
  lc_Reps :: nat
  lc_Lapses :: nat
  lc_State :: int
  lc_LastReview :: gotime
  lc_RemainingSteps :: int

record lib_params =
  lp_RequestRetention :: float64
  lp_MaximumInterval :: float64
  lp_W :: "float64 list"
  lp_EnableShortTerm :: bool
  lp_EnableFuzz :: bool
  lp_LearningSteps :: "float64 list"
  lp_RelearningSteps :: "float64 list"

record fsrs_lib =
  lib_DefaultWeights :: "float64 list"
  lib_MaximumInterval :: float64
  lib_LearningSteps :: "float64 list"
  lib_RelearningSteps :: "float64 list"
  lib_Next :: "lib_params \<Rightarrow> lib_card \<Rightarrow> gotime \<Rightarrow> int \<Rightarrow> lib_card option"
  lib_Repeat :: "lib_params \<Rightarrow> lib_card \<Rightarrow> gotime \<Rightarrow> (int \<Rightarrow> lib_card) option"
  lib_Retrievability :: "lib_params \<Rightarrow> lib_card \<Rightarrow> gotime \<Rightarrow> float64 option"

section \<open>Errors, ratings, states\<close>

datatype fsrs_error =
    ErrUnknownVersion
  | ErrUnsupportedVersion
  | ErrWeightCount
  | ErrNonFiniteWeight
  | ErrRetentionRange
  | ErrInvalidRating
  | ErrInvalidCardState
  | ErrSchedule
  | ErrUnvalidatedParams

text \<open>\<open>Rating\<close> and \<open>State\<close> are \<open>uint8\<close>s.\<close>

definition Again :: int where "Again = 1"
definition Hard :: int where "Hard = 2"
definition Good :: int where "Good = 3"
definition Easy :: int where "Easy = 4"

definition New :: int where "New = 0"
definition Learning :: int where "Learning = 1"
definition Review :: int where "Review = 2"
definition Relearning :: int where "Relearning = 3"

lemmas rating_defs = Again_def Hard_def Good_def Easy_def
lemmas state_defs = New_def Learning_def Review_def Relearning_def

definition Ratings :: "int list" where
  "Ratings = [Again, Hard, Good, Easy]"

definition Rating_Valid :: "int \<Rightarrow> bool" where
  "Rating_Valid r \<longleftrightarrow> r \<ge> Again \<and> r \<le> Easy"

definition State_Valid :: "int \<Rightarrow> bool" where
  "State_Valid s \<longleftrightarrow> s \<ge> New \<and> s \<le> Relearning"

section \<open>Parameter sets\<close>

record Params =
  par_version :: int
  par_weights :: "float64 list"
  par_desiredRetention :: float64
  par_valid :: bool

definition zero_Params :: Params where
  "zero_Params = \<lparr>par_version = 0, par_weights = replicate 21 0, par_desiredRetention = 0, par_valid = False\<rparr>"

definition weightCountFor :: "int \<Rightarrow> nat option" where
  "weightCountFor v = (if v = 45 then Some 17 else if v = 5 then Some 19 else if v = 6 then Some 21 else None)"

definition supportedVersion :: int where "supportedVersion = 6"

definition NewParams :: "int \<Rightarrow> float64 list \<Rightarrow> float64 \<Rightarrow> fsrs_error + Params" where
  "NewParams fsrsVersion weights desiredRetention =
     (case weightCountFor fsrsVersion of
        None \<Rightarrow> Inl ErrUnknownVersion
      | Some wantCount \<Rightarrow>
          if length weights \<noteq> wantCount then Inl ErrWeightCount
          else if fsrsVersion \<noteq> supportedVersion then Inl ErrUnsupportedVersion
          else if list_ex (\<lambda>w. IsNaN w \<or> IsInf w) weights then Inl ErrNonFiniteWeight
          else if IsNaN desiredRetention \<or> IsInf desiredRetention
            \<or> flt_le desiredRetention flt_zero \<or> flt_lt flt_one desiredRetention
          then Inl ErrRetentionRange
          else Inr \<lparr>par_version = fsrsVersion, par_weights = weights,
            par_desiredRetention = desiredRetention, par_valid = True\<rparr>)"

definition NewDefaultParams :: "fsrs_lib \<Rightarrow> float64 \<Rightarrow> fsrs_error + Params" where
  "NewDefaultParams lib desiredRetention =
     NewParams supportedVersion (lib_DefaultWeights lib) desiredRetention"

definition maxLearningSteps :: "fsrs_lib \<Rightarrow> int" where
  "maxLearningSteps lib =
     max (int (length (lib_LearningSteps lib))) (int (length (lib_RelearningSteps lib)))"

definition engine :: "fsrs_lib \<Rightarrow> Params \<Rightarrow> lib_params" where
  "engine lib p =
     \<lparr>lp_RequestRetention = par_desiredRetention p, lp_MaximumInterval = lib_MaximumInterval lib,
      lp_W = par_weights p, lp_EnableShortTerm = True, lp_EnableFuzz = False,
      lp_LearningSteps = lib_LearningSteps lib, lp_RelearningSteps = lib_RelearningSteps lib\<rparr>"

section \<open>Card states and outcomes\<close>

record CardState =
  cs_Due :: gotime
  cs_Stability :: float64
  cs_Difficulty :: float64
  cs_State :: int
  cs_Reps :: int
  cs_Lapses :: int
  cs_ScheduledDays :: int
  cs_LearningSteps :: int
  cs_LastReview :: gotime

record Outcome =
  o_Due :: gotime
  o_Stability :: float64
  o_Difficulty :: float64
  o_State :: int
  o_Reps :: int
  o_Lapses :: int
  o_ScheduledDays :: int
  o_LearningSteps :: int

definition CardStateAt :: "Outcome \<Rightarrow> gotime \<Rightarrow> CardState" where
  "CardStateAt r reviewedAt =
     \<lparr>cs_Due = o_Due r, cs_Stability = o_Stability r, cs_Difficulty = o_Difficulty r,
      cs_State = o_State r, cs_Reps = o_Reps r, cs_Lapses = o_Lapses r,
      cs_ScheduledDays = o_ScheduledDays r, cs_LearningSteps = o_LearningSteps r,
      cs_LastReview = reviewedAt\<rparr>"

record Preview =
  pv_Again :: Outcome
  pv_Hard :: Outcome
  pv_Good :: Outcome
  pv_Easy :: Outcome

definition Preview_For :: "Preview \<Rightarrow> int \<Rightarrow> fsrs_error + Outcome" where
  "Preview_For p r =
     (if r = Again then Inr (pv_Again p) else if r = Hard then Inr (pv_Hard p)
      else if r = Good then Inr (pv_Good p) else if r = Easy then Inr (pv_Easy p)
      else Inl ErrInvalidRating)"

text \<open>Midnight UTC of both instants, and the hours between them; the difference saturates.\<close>

definition ElapsedDays :: "CardState \<Rightarrow> gotime \<Rightarrow> int" where
  "ElapsedDays prior now =
     (if IsZero (cs_LastReview prior) then 0
      else
        let day1 = cs_LastReview prior div Day * Day; day2 = now div Day * Day;
            d = time_Sub day2 day1
        in if d < 0 then 0 else wrap32 (d div Day))"

definition toLibCard :: "fsrs_lib \<Rightarrow> CardState \<Rightarrow> fsrs_error + lib_card" where
  "toLibCard lib prior =
     (if \<not> State_Valid (cs_State prior) then Inl ErrInvalidCardState
      else if cs_Reps prior < 0 then Inl ErrInvalidCardState
      else if cs_Lapses prior < 0 then Inl ErrInvalidCardState
      else if cs_ScheduledDays prior < 0 then Inl ErrInvalidCardState
      else if cs_LearningSteps prior < 0 \<or> cs_LearningSteps prior > maxLearningSteps lib
      then Inl ErrInvalidCardState
      else if IsNaN (cs_Stability prior) \<or> IsInf (cs_Stability prior) then Inl ErrInvalidCardState
      else if IsNaN (cs_Difficulty prior) \<or> IsInf (cs_Difficulty prior) then Inl ErrInvalidCardState
      else if cs_State prior \<noteq> New
        \<and> (flt_lt (cs_Stability prior) flt_milli \<or> flt_lt (cs_Difficulty prior) flt_one)
      then Inl ErrInvalidCardState
      else Inr
        \<lparr>lc_Due = cs_Due prior, lc_Stability = cs_Stability prior,
         lc_Difficulty = cs_Difficulty prior, lc_ScheduledDays = nat (cs_ScheduledDays prior),
         lc_Reps = nat (cs_Reps prior), lc_Lapses = nat (cs_Lapses prior),
         lc_State = cs_State prior, lc_LastReview = cs_LastReview prior,
         lc_RemainingSteps = cs_LearningSteps prior\<rparr>)"

definition clampToInt32 :: "nat \<Rightarrow> int" where
  "clampToInt32 v = (if int v > max_int32 then max_int32 else int v)"

definition clampToInt16 :: "int \<Rightarrow> int" where
  "clampToInt16 v = (if v > max_int16 then max_int16 else if v < 0 then 0 else v)"

definition fromLibCard :: "lib_card \<Rightarrow> Outcome" where
  "fromLibCard c =
     \<lparr>o_Due = lc_Due c, o_Stability = lc_Stability c, o_Difficulty = lc_Difficulty c,
      o_State = uwrap 8 (lc_State c), o_Reps = clampToInt32 (lc_Reps c),
      o_Lapses = clampToInt32 (lc_Lapses c),
      o_ScheduledDays = clampToInt32 (lc_ScheduledDays c),
      o_LearningSteps = clampToInt16 (lc_RemainingSteps c)\<rparr>"

section \<open>Scheduling\<close>

definition Schedule :: "fsrs_lib \<Rightarrow> Params \<Rightarrow> CardState \<Rightarrow> int \<Rightarrow> gotime \<Rightarrow> fsrs_error + Outcome" where
  "Schedule lib p prior rating now =
     (if \<not> par_valid p then Inl ErrUnvalidatedParams
      else if \<not> Rating_Valid rating then Inl ErrInvalidRating
      else
        bindE (toLibCard lib prior) (\<lambda>c.
        case lib_Next lib (engine lib p) c now rating of
          None \<Rightarrow> Inl ErrSchedule
        | Some info \<Rightarrow> Inr (fromLibCard info)))"

definition PreviewAll :: "fsrs_lib \<Rightarrow> Params \<Rightarrow> CardState \<Rightarrow> gotime \<Rightarrow> fsrs_error + Preview" where
  "PreviewAll lib p prior now =
     (if \<not> par_valid p then Inl ErrUnvalidatedParams
      else
        bindE (toLibCard lib prior) (\<lambda>c.
        case lib_Repeat lib (engine lib p) c now of
          None \<Rightarrow> Inl ErrSchedule
        | Some log \<Rightarrow> Inr
            \<lparr>pv_Again = fromLibCard (log Again), pv_Hard = fromLibCard (log Hard),
             pv_Good = fromLibCard (log Good), pv_Easy = fromLibCard (log Easy)\<rparr>))"

definition Retrievability :: "fsrs_lib \<Rightarrow> Params \<Rightarrow> CardState \<Rightarrow> gotime \<Rightarrow> fsrs_error + float64" where
  "Retrievability lib p prior now =
     (if \<not> par_valid p then Inl ErrUnvalidatedParams
      else
        bindE (toLibCard lib prior) (\<lambda>c.
        case lib_Retrievability lib (engine lib p) c now of
          None \<Rightarrow> Inl ErrSchedule
        | Some r \<Rightarrow> Inr r))"

section \<open>What the code relies on in the library\<close>

text \<open>
  \<open>Repeat\<close> is \<open>Next\<close> for each of the four ratings. The ranges \<open>toLibCard\<close> asks of a scheduled card are a
  predicate on the one card: the library is not assumed to keep to them for every parameter it is called with.
\<close>

definition repeat_is_next :: "fsrs_lib \<Rightarrow> bool" where
  "repeat_is_next lib \<longleftrightarrow>
     (\<forall>lp c now. case lib_Repeat lib lp c now of
        None \<Rightarrow> list_all (\<lambda>r. lib_Next lib lp c now r = None) Ratings
      | Some log \<Rightarrow> list_all (\<lambda>r. lib_Next lib lp c now r = Some (log r)) Ratings)"

definition scheduled_card :: "fsrs_lib \<Rightarrow> lib_card \<Rightarrow> bool" where
  "scheduled_card lib c \<longleftrightarrow> State_Valid (lc_State c)
     \<and> finite_float (lc_Stability c) \<and> finite_float (lc_Difficulty c)
     \<and> flt_le flt_milli (lc_Stability c) \<and> flt_le flt_one (lc_Difficulty c)
     \<and> lc_RemainingSteps c \<le> maxLearningSteps lib"

text \<open>A small library of that kind: the interval grows with the rating.\<close>

definition demo_next :: "lib_params \<Rightarrow> lib_card \<Rightarrow> gotime \<Rightarrow> int \<Rightarrow> lib_card" where
  "demo_next lp c now r =
     \<lparr>lc_Due = now + r * Day, lc_Stability = flt_one, lc_Difficulty = flt_one,
      lc_ScheduledDays = nat r, lc_Reps = lc_Reps c + 1,
      lc_Lapses = lc_Lapses c + (if r = 1 then 1 else 0), lc_State = (if r = 1 then 3 else 2),
      lc_LastReview = now, lc_RemainingSteps = 0\<rparr>"

definition demo_lib :: fsrs_lib where
  "demo_lib = \<lparr>lib_DefaultWeights = replicate 21 flt_one, lib_MaximumInterval = flt_one,
     lib_LearningSteps = [flt_one, flt_one], lib_RelearningSteps = [flt_one],
     lib_Next = (\<lambda>lp c now r. Some (demo_next lp c now r)),
     lib_Repeat = (\<lambda>lp c now. Some (demo_next lp c now)),
     lib_Retrievability = (\<lambda>lp c now. Some flt_one)\<rparr>"

lemma demo_lib_simps [simp]:
  "lib_Next demo_lib lp c now r = Some (demo_next lp c now r)"
  "lib_Repeat demo_lib lp c now = Some (demo_next lp c now)"
  "maxLearningSteps demo_lib = 2"
  "lib_DefaultWeights demo_lib = replicate 21 flt_one"
  by (simp_all add: demo_lib_def maxLearningSteps_def)

lemma demo_lib_repeat: "repeat_is_next demo_lib"
  by (simp add: repeat_is_next_def Ratings_def)

lemma flt_one_facts [simp]:
  "finite_float flt_one" "flt_le flt_milli flt_one" "flt_le flt_one flt_one"
  by (simp_all add: flt_defs)

section \<open>Lemmas\<close>

lemma Rating_Valid_cases: "Rating_Valid r \<longleftrightarrow> r \<in> set Ratings"
  by (auto simp: Rating_Valid_def Ratings_def rating_defs)

lemma NewParams_Inr:
  "NewParams v ws r = Inr p \<longleftrightarrow>
     v = 6 \<and> length ws = 21 \<and> list_all finite_float ws \<and> finite_float r
     \<and> flt_lt flt_zero r \<and> flt_le r flt_one
     \<and> p = \<lparr>par_version = 6, par_weights = ws, par_desiredRetention = r, par_valid = True\<rparr>"
proof -
  have ws: "list_ex (\<lambda>w. IsNaN w \<or> IsInf w) ws \<longleftrightarrow> \<not> list_all finite_float ws"
    by (auto simp: list_ex_iff list_all_iff finite_float_def)
  have "flt_lt flt_zero r \<longleftrightarrow> \<not> flt_le r flt_zero" "flt_le r flt_one \<longleftrightarrow> \<not> flt_lt flt_one r"
    if "\<not> IsNaN r"
    using that by (auto simp: flt_lt_def flt_le_def flt_zero_def flt_one_def IsNaN_def
        flt_magnitude_def flt_inf_bits_def)
  then show ?thesis
    by (auto simp: NewParams_def weightCountFor_def supportedVersion_def ws finite_float_def
        split: option.splits if_splits)
qed

text \<open>The prior states that \<open>toLibCard\<close> accepts.\<close>

definition card_state_ok :: "fsrs_lib \<Rightarrow> CardState \<Rightarrow> bool" where
  "card_state_ok lib s \<longleftrightarrow> State_Valid (cs_State s) \<and> 0 \<le> cs_Reps s \<and> 0 \<le> cs_Lapses s
     \<and> 0 \<le> cs_ScheduledDays s \<and> 0 \<le> cs_LearningSteps s \<and> cs_LearningSteps s \<le> maxLearningSteps lib
     \<and> finite_float (cs_Stability s) \<and> finite_float (cs_Difficulty s)
     \<and> (cs_State s \<noteq> New \<longrightarrow> \<not> flt_lt (cs_Stability s) flt_milli \<and> \<not> flt_lt (cs_Difficulty s) flt_one)"

lemma toLibCard_ok: "card_state_ok lib s \<longleftrightarrow> (\<exists>c. toLibCard lib s = Inr c)"
  by (auto simp: toLibCard_def card_state_ok_def finite_float_def not_less)

lemma toLibCard_errors: "toLibCard lib s = Inl e \<Longrightarrow> e = ErrInvalidCardState"
  by (auto simp: toLibCard_def split: if_splits)

lemma clamp_bounds:
  "0 \<le> clampToInt32 v" "clampToInt32 v \<le> max_int32"
  "0 \<le> clampToInt16 x" "clampToInt16 x \<le> max_int16" "clampToInt16 x \<le> max 0 x"
  by (simp_all add: clampToInt32_def clampToInt16_def int_bounds)

lemma fromLibCard_ok:
  assumes "scheduled_card lib c"
  shows "card_state_ok lib (CardStateAt (fromLibCard c) t)"
proof -
  from assms have "0 \<le> lc_State c" "lc_State c \<le> 3"
    by (simp_all add: scheduled_card_def State_Valid_def state_defs)
  then have "uwrap 8 (lc_State c) = lc_State c" by (simp add: uwrap_def)
  moreover have "clampToInt16 (lc_RemainingSteps c) \<le> maxLearningSteps lib"
    using assms clamp_bounds(5) [of "lc_RemainingSteps c"]
    by (auto simp: scheduled_card_def maxLearningSteps_def)
  ultimately show ?thesis
    using assms clamp_bounds
    by (auto simp: card_state_ok_def scheduled_card_def CardStateAt_def fromLibCard_def
        flt_lt_def flt_le_def)
qed

lemma Schedule_Inr:
  "Schedule lib p s r now = Inr q \<longleftrightarrow>
     par_valid p \<and> Rating_Valid r \<and>
     (\<exists>c info. toLibCard lib s = Inr c \<and> lib_Next lib (engine lib p) c now r = Some info
        \<and> q = fromLibCard info)"
  by (auto simp: Schedule_def bindE_eq_Inr split: option.splits)

section \<open>Properties of the wrapper\<close>

text \<open>No unvalidated parameter set reaches the library: \<open>NewParams\<close> accepts exactly FSRS-6 with
  21 finite weights and a retention in (0, 1], and without such a set \<open>Schedule\<close>, \<open>PreviewAll\<close> and
  \<open>Retrievability\<close> all fail, the zero value included.\<close>

theorem params_validated:
  "(\<exists>p. NewParams v ws r = Inr p) = (v = 6 \<and> length ws = 21 \<and> list_all finite_float ws
      \<and> finite_float r \<and> flt_lt flt_zero r \<and> flt_le r flt_one)
    \<and> Schedule lib zero_Params s g now = Inl ErrUnvalidatedParams
    \<and> PreviewAll lib zero_Params s now = Inl ErrUnvalidatedParams
    \<and> Retrievability lib zero_Params s now = Inl ErrUnvalidatedParams"
  by (auto simp: NewParams_Inr Schedule_def PreviewAll_def Retrievability_def zero_Params_def)

text \<open>C7: preview parity: the branch shipped to the client for a rating is exactly what grading
  with that rating at the same instant from the same prior state computes, and an invalid rating is
  refused by both.\<close>

theorem preview_parity:
  assumes lib: "repeat_is_next lib" and pv: "PreviewAll lib p prior now = Inr v"
  shows "Schedule lib p prior rating now = Preview_For v rating"
proof -
  from pv obtain c log where p: "par_valid p" and c: "toLibCard lib prior = Inr c"
    and log: "lib_Repeat lib (engine lib p) c now = Some log"
    and v: "v = \<lparr>pv_Again = fromLibCard (log Again), pv_Hard = fromLibCard (log Hard),
      pv_Good = fromLibCard (log Good), pv_Easy = fromLibCard (log Easy)\<rparr>"
    by (auto simp: PreviewAll_def bindE_eq_Inr split: if_splits option.splits)
  have nxt: "\<forall>r\<in>set Ratings. lib_Next lib (engine lib p) c now r = Some (log r)"
  proof -
    from lib have "case lib_Repeat lib (engine lib p) c now of
        None \<Rightarrow> list_all (\<lambda>r. lib_Next lib (engine lib p) c now r = None) Ratings
      | Some log \<Rightarrow> list_all (\<lambda>r. lib_Next lib (engine lib p) c now r = Some (log r)) Ratings"
      unfolding repeat_is_next_def by blast
    with log show ?thesis by (simp add: list_all_iff)
  qed
  show ?thesis
  proof (cases "Rating_Valid rating")
    case True
    with nxt p c have "Schedule lib p prior rating now = Inr (fromLibCard (log rating))"
      by (simp add: Schedule_def Rating_Valid_cases)
    with True v show ?thesis
      by (auto simp: Preview_For_def Rating_Valid_cases Ratings_def)
  next
    case False
    with p v show ?thesis
      by (auto simp: Schedule_def Preview_For_def Rating_Valid_def rating_defs)
  qed
qed

definition demo_params :: Params where
  "demo_params = \<lparr>par_version = 6, par_weights = replicate 21 flt_one,
     par_desiredRetention = flt_0_9, par_valid = True\<rparr>"

definition new_card :: CardState where
  "new_card = \<lparr>cs_Due = 0, cs_Stability = 0, cs_Difficulty = 0, cs_State = 0, cs_Reps = 0,
     cs_Lapses = 0, cs_ScheduledDays = 0, cs_LearningSteps = 0, cs_LastReview = 0\<rparr>"

lemma new_card_ok: "card_state_ok lib new_card"
  by (simp add: card_state_ok_def new_card_def State_Valid_def state_defs flt_defs maxLearningSteps_def)

lemma demo_preview: "\<exists>v. PreviewAll demo_lib demo_params new_card now = Inr v"
proof -
  obtain c where "toLibCard demo_lib new_card = Inr c" using new_card_ok toLibCard_ok by blast
  then show ?thesis by (simp add: PreviewAll_def demo_params_def)
qed

lemma preview_parity_witness:
  "\<exists>v. PreviewAll demo_lib demo_params new_card Day = Inr v
    \<and> Schedule demo_lib demo_params new_card Good Day = Inr (pv_Good v)"
proof -
  obtain v where v: "PreviewAll demo_lib demo_params new_card Day = Inr v" using demo_preview by blast
  with preview_parity [OF demo_lib_repeat v, of Good] show ?thesis
    by (simp add: Preview_For_def rating_defs)
qed

end
