(* ===== verification/Review_Store.thy ===== *)
theory Review_Store
  imports Pg_Types Fsrs_Wrapper
begin

text \<open>
  The tables a grade touches and the statements that read and write them
  (\<open>internal/db/user_card_state.sql.go\<close>, \<open>review_log.sql.go\<close>, \<open>user_fsrs_params.sql.go\<close>, the
  authorisation query of \<open>reviews.sql.go\<close>). A statement that Postgres refuses (a failed check, a lost
  connection) is an error; \<open>db_refuses\<close> says which ones are, besides the checks written out here.
  Statements run inside the caller's transaction, so an error means that none of its writes stay.
\<close>

section \<open>Rows\<close>

record user_card_state =
  us_UserID :: uuid
  us_CardID :: uuid
  us_Due :: gotime
  us_Stability :: float64
  us_Difficulty :: float64
  us_State :: int
  us_Reps :: int
  us_Lapses :: int
  us_ElapsedDays :: int
  us_ScheduledDays :: int
  us_LearningSteps :: int
  us_LastReview :: "gotime option"
  us_Suspended :: bool
  us_BuriedUntil :: "gotime option"
  us_Flag :: int

record review_log =
  rl_ID :: uuid
  rl_UserID :: uuid
  rl_CardID :: uuid
  rl_Rating :: int
  rl_ReviewedAt :: gotime
  rl_DurationMs :: "int option"
  rl_StateBefore :: int
  rl_LearningStepsBefore :: int
  rl_StabilityBefore :: "float64 option"
  rl_DifficultyBefore :: "float64 option"
  rl_ElapsedDaysBefore :: int
  rl_ScheduledDaysAfter :: int
  rl_FsrsVersion :: "int option"
  rl_ReviewKind :: int
  rl_AnkiID :: "int option"

text \<open>The \<open>params\<close> column is a JSON array; \<open>None\<close> when it does not decode to numbers.\<close>

record user_fsrs_params =
  fp_UserID :: uuid
  fp_DeckID :: pguuid
  fp_FsrsVersion :: int
  fp_Params :: "float64 list option"
  fp_DesiredRetention :: float64

text \<open>The columns of \<open>cards\<close> and \<open>deck_access\<close> that authorise a grade.\<close>

record study_card =
  sc_ID :: uuid
  sc_DeckID :: uuid

record study_access =
  sa_DeckID :: uuid
  sa_UserID :: uuid
  sa_can_view :: bool
  sa_can_study :: bool

datatype review_stmt =
    QGetUserCardState
  | QUpsertOnReview
  | QUpsertFromReplay
  | QUpsertSettings
  | QInsertReviewLog
  | QListExistingIDs
  | QListReviewLogForCard
  | QGetEffectiveParams
  | QGetEffectiveParamsForUsers
  | QListStudyableCards
  | QLockCardForGrade

record review_db =
  db_states :: "user_card_state list"
  db_log :: "review_log list"
  db_params :: "user_fsrs_params list"
  db_cards :: "study_card list"
  db_access :: "study_access list"
  db_refuses :: "review_stmt \<Rightarrow> bool"

datatype db_error = DbRefused

definition run_stmt :: "review_db \<Rightarrow> review_stmt \<Rightarrow> 'a \<Rightarrow> db_error + 'a" where
  "run_stmt db st x = (if db_refuses db st then Inl DbRefused else Inr x)"

lemma run_stmt_Inr [simp]: "run_stmt db st x = Inr y \<longleftrightarrow> \<not> db_refuses db st \<and> y = x"
  by (auto simp: run_stmt_def)

definition us_key :: "user_card_state \<Rightarrow> uuid \<times> uuid" where
  "us_key r = (us_UserID r, us_CardID r)"

section \<open>\<open>user_card_state\<close>\<close>

text \<open>\<open>None\<close> is \<open>pgx.ErrNoRows\<close>.\<close>

definition GetUserCardState :: "review_db \<Rightarrow> uuid \<Rightarrow> uuid \<Rightarrow> db_error + user_card_state option" where
  "GetUserCardState db userID cardID =
     run_stmt db QGetUserCardState (row_of us_key (userID, cardID) (db_states db))"

text \<open>The row a first insert makes out of the scheduling columns, and the update of an existing one.\<close>

definition scheduling_update :: "user_card_state \<Rightarrow> user_card_state \<Rightarrow> user_card_state" where
  "scheduling_update excluded old = old
     \<lparr>us_Due := us_Due excluded, us_Stability := us_Stability excluded,
      us_Difficulty := us_Difficulty excluded, us_State := us_State excluded,
      us_Reps := us_Reps excluded, us_Lapses := us_Lapses excluded,
      us_ElapsedDays := us_ElapsedDays excluded, us_ScheduledDays := us_ScheduledDays excluded,
      us_LearningSteps := us_LearningSteps excluded, us_LastReview := us_LastReview excluded\<rparr>"

definition state_check :: "user_card_state \<Rightarrow> bool" where
  "state_check r \<longleftrightarrow> 0 \<le> us_State r \<and> us_State r \<le> 3 \<and> 0 \<le> us_Flag r \<and> us_Flag r \<le> 7"

definition last_review_before :: "gotime option \<Rightarrow> gotime option \<Rightarrow> bool" where
  "last_review_before a b = (case (a, b) of (Some x, Some y) \<Rightarrow> x < y | _ \<Rightarrow> False)"

text \<open>The guarded upsert of a live grade; the result counts the affected rows.\<close>

definition UpsertUserCardStateOnReview ::
  "review_db \<Rightarrow> user_card_state \<Rightarrow> db_error + int \<times> review_db" where
  "UpsertUserCardStateOnReview db excluded =
     (if db_refuses db QUpsertOnReview \<or> \<not> state_check excluded then Inl DbRefused
      else (case row_of us_key (us_key excluded) (db_states db) of
         None \<Rightarrow> Inr (1, db\<lparr>db_states := db_states db @ [excluded]\<rparr>)
       | Some old \<Rightarrow>
           if us_LastReview old = None \<or> last_review_before (us_LastReview old) (us_LastReview excluded)
           then Inr (1, db\<lparr>db_states := put_row us_key (scheduling_update excluded old) (db_states db)\<rparr>)
           else Inr (0, db)))"

definition UpsertUserCardStateFromReplay ::
  "review_db \<Rightarrow> user_card_state \<Rightarrow> db_error + review_db" where
  "UpsertUserCardStateFromReplay db excluded =
     (if db_refuses db QUpsertFromReplay \<or> \<not> state_check excluded then Inl DbRefused
      else (case row_of us_key (us_key excluded) (db_states db) of
         None \<Rightarrow> Inr (db\<lparr>db_states := db_states db @ [excluded]\<rparr>)
       | Some old \<Rightarrow>
           Inr (db\<lparr>db_states := put_row us_key (scheduling_update excluded old) (db_states db)\<rparr>)))"

text \<open>
  The settings write: NULL arguments are \<open>None\<close>; \<open>buriedUntil\<close> is cast to a date. \<open>now\<close> is the
  transaction's \<open>now()\<close>.
\<close>

definition pg_date :: "gotime \<Rightarrow> gotime" where
  "pg_date t = t div Day * Day"

definition coalesce :: "'a option \<Rightarrow> 'a \<Rightarrow> 'a" where
  "coalesce x y = (case x of Some v \<Rightarrow> v | None \<Rightarrow> y)"

definition new_settings_row ::
  "gotime \<Rightarrow> uuid \<Rightarrow> uuid \<Rightarrow> bool option \<Rightarrow> gotime option \<Rightarrow> int option \<Rightarrow> user_card_state" where
  "new_settings_row now userID cardID suspended buriedUntil flag =
     \<lparr>us_UserID = userID, us_CardID = cardID, us_Due = pg_timestamp now, us_Stability = 0,
      us_Difficulty = 0, us_State = 0, us_Reps = 0, us_Lapses = 0, us_ElapsedDays = 0,
      us_ScheduledDays = 0, us_LearningSteps = 0, us_LastReview = None,
      us_Suspended = coalesce suspended False, us_BuriedUntil = map_option pg_date buriedUntil,
      us_Flag = coalesce flag 0\<rparr>"

definition UpsertUserCardStateSettings ::
  "review_db \<Rightarrow> gotime \<Rightarrow> uuid \<Rightarrow> uuid \<Rightarrow> bool option \<Rightarrow> gotime option \<Rightarrow> int option \<Rightarrow> bool
    \<Rightarrow> db_error + user_card_state \<times> review_db" where
  "UpsertUserCardStateSettings db now userID cardID suspended buriedUntil flag clearBuried =
     (let row = (case row_of us_key (userID, cardID) (db_states db) of
            None \<Rightarrow> new_settings_row now userID cardID suspended buriedUntil flag
          | Some old \<Rightarrow> old
              \<lparr>us_Suspended := coalesce suspended (us_Suspended old),
               us_BuriedUntil :=
                 (if clearBuried then None
                  else (case buriedUntil of Some t \<Rightarrow> Some (pg_date t) | None \<Rightarrow> us_BuriedUntil old)),
               us_Flag := coalesce flag (us_Flag old)\<rparr>)
      in if db_refuses db QUpsertSettings \<or> \<not> state_check row then Inl DbRefused
         else Inr (row, db\<lparr>db_states := put_row us_key row (db_states db)\<rparr>))"

section \<open>\<open>review_log\<close>\<close>

definition log_check :: "review_log \<Rightarrow> bool" where
  "log_check r \<longleftrightarrow> 1 \<le> rl_Rating r \<and> rl_Rating r \<le> 4 \<and> 0 \<le> rl_StateBefore r \<and> rl_StateBefore r \<le> 3
     \<and> 0 \<le> rl_ReviewKind r \<and> rl_ReviewKind r \<le> 4"

text \<open>\<open>ON CONFLICT (id) DO NOTHING\<close>; the result is whether a row was inserted.\<close>

definition InsertReviewLog :: "review_db \<Rightarrow> review_log \<Rightarrow> db_error + bool \<times> review_db" where
  "InsertReviewLog db r =
     (if db_refuses db QInsertReviewLog \<or> \<not> log_check r then Inl DbRefused
      else if rl_ID r \<in> rl_ID ` set (db_log db) then Inr (False, db)
      else Inr (True, db\<lparr>db_log := db_log db @ [r]\<rparr>))"

definition ListExistingReviewLogIDs :: "review_db \<Rightarrow> uuid list \<Rightarrow> db_error + uuid list" where
  "ListExistingReviewLogIDs db ids =
     run_stmt db QListExistingIDs (filter (\<lambda>i. i \<in> set ids) (map rl_ID (db_log db)))"

definition log_order :: "review_log \<Rightarrow> gotime \<times> uuid" where
  "log_order r = (rl_ReviewedAt r, rl_ID r)"

definition ListReviewLogForCard :: "review_db \<Rightarrow> uuid \<Rightarrow> uuid \<Rightarrow> db_error + review_log list" where
  "ListReviewLogForCard db userID cardID =
     run_stmt db QListReviewLogForCard
       (sort_key log_order (filter (\<lambda>r. rl_UserID r = userID \<and> rl_CardID r = cardID) (db_log db)))"

section \<open>Parameters and authorisation\<close>

text \<open>The override for the deck if there is one, else the user's global row (\<open>NULLS LAST\<close>).\<close>

definition GetEffectiveFsrsParams ::
  "review_db \<Rightarrow> uuid \<Rightarrow> uuid \<Rightarrow> db_error + user_fsrs_params option" where
  "GetEffectiveFsrsParams db userID deckID =
     run_stmt db QGetEffectiveParams
       (let rows = filter (\<lambda>r. fp_UserID r = userID) (db_params db) in
        case find (\<lambda>r. fp_DeckID r = Some deckID) rows of
          Some r \<Rightarrow> Some r
        | None \<Rightarrow> find (\<lambda>r. fp_DeckID r = None) rows)"

text \<open>\<open>DISTINCT ON (user_id)\<close>: the first row of each user in the same order.\<close>

definition GetEffectiveFsrsParamsForUsers ::
  "review_db \<Rightarrow> uuid list \<Rightarrow> uuid \<Rightarrow> db_error + user_fsrs_params list" where
  "GetEffectiveFsrsParamsForUsers db userIDs deckID =
     run_stmt db QGetEffectiveParamsForUsers
       (let rows = filter (\<lambda>r. fp_UserID r \<in> set userIDs
              \<and> (fp_DeckID r = Some deckID \<or> fp_DeckID r = None)) (db_params db);
            first = (\<lambda>u. case find (\<lambda>r. fp_UserID r = u \<and> fp_DeckID r \<noteq> None) rows of
                Some r \<Rightarrow> Some r | None \<Rightarrow> find (\<lambda>r. fp_UserID r = u) rows)
        in List.map_filter first (sort (dedup (map fp_UserID rows))))"

definition ListStudyableCards ::
  "review_db \<Rightarrow> uuid \<Rightarrow> uuid list \<Rightarrow> db_error + (uuid \<times> uuid) list" where
  "ListStudyableCards db userID cardIDs =
     run_stmt db QListStudyableCards
       (concat (map (\<lambda>c. map (\<lambda>a. (sc_ID c, sc_DeckID c))
          (filter (\<lambda>a. sa_DeckID a = sc_DeckID c \<and> sa_UserID a = userID
             \<and> sa_can_view a \<and> sa_can_study a) (db_access db)))
          (filter (\<lambda>c. sc_ID c \<in> set cardIDs) (db_cards db))))"

definition LockCardForGrade :: "review_db \<Rightarrow> int \<Rightarrow> db_error + review_db" where
  "LockCardForGrade db key = run_stmt db QLockCardForGrade db"

lemmas stmt_defs = GetUserCardState_def ListExistingReviewLogIDs_def ListReviewLogForCard_def
  GetEffectiveFsrsParams_def ListStudyableCards_def LockCardForGrade_def

section \<open>Keys of the tables\<close>

definition review_db_wf :: "review_db \<Rightarrow> bool" where
  "review_db_wf db \<longleftrightarrow> pk us_key (db_states db) \<and> pk rl_ID (db_log db)
     \<and> (\<forall>r\<in>set (db_states db). state_check r)"

text \<open>The columns that are the user's settings and not scheduling output.\<close>

definition settings_of :: "user_card_state \<Rightarrow> bool \<times> gotime option \<times> int" where
  "settings_of r = (us_Suspended r, us_BuriedUntil r, us_Flag r)"

lemma scheduling_update_simps [simp]:
  "us_key (scheduling_update e r) = us_key r"
  "settings_of (scheduling_update e r) = settings_of r"
  "us_LastReview (scheduling_update e r) = us_LastReview e"
  "us_Due (scheduling_update e r) = us_Due e"
  by (simp_all add: scheduling_update_def us_key_def settings_of_def)

lemma state_check_update: "state_check e \<Longrightarrow> state_check r \<Longrightarrow> state_check (scheduling_update e r)"
  by (simp add: state_check_def scheduling_update_def)

lemma set_put_row: "set (put_row k r t) \<subseteq> insert r (set t)"
  by (auto simp: put_row_def map_rows_def)

lemma InsertReviewLog_Inr:
  assumes "InsertReviewLog db r = Inr (b, db')"
  shows "db' = (if b then db\<lparr>db_log := db_log db @ [r]\<rparr> else db)
    \<and> (b \<longleftrightarrow> rl_ID r \<notin> rl_ID ` set (db_log db)) \<and> log_check r"
  using assms by (auto simp: InsertReviewLog_def split: if_splits)

text \<open>What an upsert does to the row it names, and to the others.\<close>

lemma UpsertOnReview_Inr:
  assumes "UpsertUserCardStateOnReview db e = Inr (n, db')"
  shows "\<exists>t. db' = db\<lparr>db_states := t\<rparr> \<and> state_check e
    \<and> (pk us_key (db_states db) \<longrightarrow> pk us_key t)
    \<and> (\<forall>x. row_of us_key x t =
         (if x \<noteq> us_key e then row_of us_key x (db_states db)
          else (case row_of us_key x (db_states db) of
             None \<Rightarrow> Some e
           | Some old \<Rightarrow>
               if us_LastReview old = None \<or> last_review_before (us_LastReview old) (us_LastReview e)
               then Some (scheduling_update e old) else Some old)))"
proof (cases "row_of us_key (us_key e) (db_states db)")
  case None
  with assms have "db' = db\<lparr>db_states := db_states db @ [e]\<rparr>" "state_check e"
    by (auto simp: UpsertUserCardStateOnReview_def split: if_splits)
  with None show ?thesis
    by (intro exI [of _ "put_row us_key e (db_states db)"]) (auto simp: put_row_None)
next
  case (Some old)
  then have k: "us_key old = us_key e" by (auto dest: row_of_Some)
  from assms Some have "state_check e"
    and d: "db' = (if us_LastReview old = None \<or> last_review_before (us_LastReview old) (us_LastReview e)
      then db\<lparr>db_states := put_row us_key (scheduling_update e old) (db_states db)\<rparr> else db)"
    by (auto simp: UpsertUserCardStateOnReview_def split: if_splits)
  then show ?thesis
    using Some k
    by (intro exI [of _ "if us_LastReview old = None \<or> last_review_before (us_LastReview old) (us_LastReview e)
        then put_row us_key (scheduling_update e old) (db_states db) else db_states db"]) auto
qed

lemma UpsertFromReplay_Inr:
  assumes "UpsertUserCardStateFromReplay db e = Inr db'"
  shows "\<exists>t. db' = db\<lparr>db_states := t\<rparr> \<and> state_check e
    \<and> (pk us_key (db_states db) \<longrightarrow> pk us_key t)
    \<and> (\<forall>x. row_of us_key x t =
         (if x \<noteq> us_key e then row_of us_key x (db_states db)
          else (case row_of us_key x (db_states db) of
             None \<Rightarrow> Some e | Some old \<Rightarrow> Some (scheduling_update e old))))"
proof (cases "row_of us_key (us_key e) (db_states db)")
  case None
  with assms have "db' = db\<lparr>db_states := db_states db @ [e]\<rparr>" "state_check e"
    by (auto simp: UpsertUserCardStateFromReplay_def split: if_splits)
  with None show ?thesis
    by (intro exI [of _ "put_row us_key e (db_states db)"]) (auto simp: put_row_None)
next
  case (Some old)
  then have k: "us_key old = us_key e" by (auto dest: row_of_Some)
  from assms Some have "state_check e"
    and "db' = db\<lparr>db_states := put_row us_key (scheduling_update e old) (db_states db)\<rparr>"
    by (auto simp: UpsertUserCardStateFromReplay_def split: if_splits)
  then show ?thesis
    using Some k
    by (intro exI [of _ "put_row us_key (scheduling_update e old) (db_states db)"]) auto
qed

lemma upsert_frame:
  assumes "UpsertUserCardStateOnReview db e = Inr (n, db') \<or> UpsertUserCardStateFromReplay db e = Inr db'"
  shows "\<exists>t. db' = db\<lparr>db_states := t\<rparr> \<and> (pk us_key (db_states db) \<longrightarrow> pk us_key t)
    \<and> (\<forall>x. x \<noteq> us_key e \<longrightarrow> row_of us_key x t = row_of us_key x (db_states db))
    \<and> (\<forall>x r. row_of us_key x (db_states db) = Some r \<longrightarrow>
         (\<exists>r'. row_of us_key x t = Some r' \<and> settings_of r' = settings_of r))"
  using assms
proof
  assume "UpsertUserCardStateOnReview db e = Inr (n, db')"
  from UpsertOnReview_Inr [OF this] obtain t where t: "db' = db\<lparr>db_states := t\<rparr>"
    "pk us_key (db_states db) \<longrightarrow> pk us_key t"
    and rows: "\<forall>x. row_of us_key x t = (if x \<noteq> us_key e then row_of us_key x (db_states db)
          else (case row_of us_key x (db_states db) of
             None \<Rightarrow> Some e
           | Some old \<Rightarrow>
               if us_LastReview old = None \<or> last_review_before (us_LastReview old) (us_LastReview e)
               then Some (scheduling_update e old) else Some old))" by blast
  from t show ?thesis
    by (intro exI [of _ t] conjI) (simp_all add: rows split: option.split)
next
  assume "UpsertUserCardStateFromReplay db e = Inr db'"
  from UpsertFromReplay_Inr [OF this] obtain t where t: "db' = db\<lparr>db_states := t\<rparr>"
    "pk us_key (db_states db) \<longrightarrow> pk us_key t"
    and rows: "\<forall>x. row_of us_key x t = (if x \<noteq> us_key e then row_of us_key x (db_states db)
          else (case row_of us_key x (db_states db) of
             None \<Rightarrow> Some e | Some old \<Rightarrow> Some (scheduling_update e old)))" by blast
  from t show ?thesis
    by (intro exI [of _ t] conjI) (simp_all add: rows split: option.split)
qed

text \<open>Suspending, burying or flagging a card never touches its schedule, and only changes what
  was asked for: an argument that is not given leaves its column alone, \<open>clearBuried\<close> un-buries, and
  no other row changes.\<close>

theorem settings_write_isolated:
  assumes "UpsertUserCardStateSettings db now u c suspended buriedUntil flag clearBuried = Inr (row, db')"
    and "row_of us_key (u, c) (db_states db) = Some old"
  shows "row_of us_key (u, c) (db_states db') = Some row
    \<and> row = scheduling_update old row
    \<and> us_Suspended row = coalesce suspended (us_Suspended old) \<and> us_Flag row = coalesce flag (us_Flag old)
    \<and> us_BuriedUntil row = (if clearBuried then None
         else if buriedUntil = None then us_BuriedUntil old else map_option pg_date buriedUntil)
    \<and> us_Flag row \<le> 7 \<and> db_log db' = db_log db
    \<and> (\<forall>x. x \<noteq> (u, c) \<longrightarrow> row_of us_key x (db_states db') = row_of us_key x (db_states db))"
proof -
  from row_of_Some [OF assms(2)] have "us_UserID old = u" "us_CardID old = c"
    by (simp_all add: us_key_def)
  with assms show ?thesis
    by (auto simp: UpsertUserCardStateSettings_def Let_def scheduling_update_def us_key_def
        state_check_def split: if_splits option.splits)
qed

definition demo_row :: user_card_state where
  "demo_row = \<lparr>us_UserID = 1, us_CardID = 5, us_Due = 30 * Day, us_Stability = flt_one,
     us_Difficulty = flt_one, us_State = 2, us_Reps = 3, us_Lapses = 0, us_ElapsedDays = 1,
     us_ScheduledDays = 2, us_LearningSteps = 0, us_LastReview = Some (28 * Day),
     us_Suspended = True, us_BuriedUntil = None, us_Flag = 3\<rparr>"

definition demo_db :: review_db where
  "demo_db = \<lparr>db_states = [demo_row], db_log = [], db_params = [],
     db_cards = [\<lparr>sc_ID = 5, sc_DeckID = 9\<rparr>, \<lparr>sc_ID = 6, sc_DeckID = 9\<rparr>],
     db_access = [\<lparr>sa_DeckID = 9, sa_UserID = 1, sa_can_view = True, sa_can_study = True\<rparr>],
     db_refuses = (\<lambda>_. False)\<rparr>"

lemma settings_write_isolated_witness:
  "\<exists>row db'. UpsertUserCardStateSettings demo_db Day 1 5 (Some False) None None True = Inr (row, db')
    \<and> us_Suspended row = False \<and> us_Flag row = 3 \<and> row = scheduling_update demo_row row"
proof -
  have old: "row_of us_key (1, 5) (db_states demo_db) = Some demo_row"
    by (simp add: demo_db_def demo_row_def us_key_def)
  then obtain row db' where "UpsertUserCardStateSettings demo_db Day 1 5 (Some False) None None True = Inr (row, db')"
    by (simp add: UpsertUserCardStateSettings_def Let_def state_check_def demo_row_def demo_db_def
        coalesce_def)
  with settings_write_isolated [OF this old] show ?thesis
    by (auto simp: coalesce_def demo_row_def)
qed

end
