(* ===== verification/Review_Params.thy ===== *)
theory Review_Params
  imports Review_Store
begin

text \<open>
  Which FSRS parameters a user studies a deck with (\<open>internal/review/params.go\<close>): the override for
  the deck, else the user's global row, else the library's defaults, with the per-call cache.
\<close>

datatype review_error =
    EDb
  | EFsrs fsrs_error
  | EParamsJSON

abbreviation dbE :: "db_error + 'a \<Rightarrow> review_error + 'a" where
  "dbE m \<equiv> liftE (\<lambda>_. EDb) m"

abbreviation fsrsE :: "fsrs_error + 'a \<Rightarrow> review_error + 'a" where
  "fsrsE m \<equiv> liftE EFsrs m"

definition DefaultDesiredRetention :: float64 where
  "DefaultDesiredRetention = flt_0_9"

definition paramsFromRow ::
  "fsrs_lib \<Rightarrow> int \<Rightarrow> float64 list option \<Rightarrow> float64 \<Rightarrow> review_error + Params" where
  "paramsFromRow lib fsrsVersion params desiredRetention =
     (case params of
        None \<Rightarrow> Inl EParamsJSON
      | Some weights \<Rightarrow>
          if weights = [] then fsrsE (NewDefaultParams lib desiredRetention)
          else fsrsE (NewParams fsrsVersion weights desiredRetention))"

definition EffectiveParams ::
  "fsrs_lib \<Rightarrow> review_db \<Rightarrow> uuid \<Rightarrow> uuid \<Rightarrow> review_error + Params" where
  "EffectiveParams lib db userID deckID =
     bindE (dbE (GetEffectiveFsrsParams db userID deckID)) (\<lambda>row.
     case row of
       None \<Rightarrow> fsrsE (NewDefaultParams lib DefaultDesiredRetention)
     | Some r \<Rightarrow> paramsFromRow lib (fp_FsrsVersion r) (fp_Params r) (fp_DesiredRetention r))"

definition EffectiveParamsForUsers ::
  "fsrs_lib \<Rightarrow> review_db \<Rightarrow> uuid list \<Rightarrow> uuid \<Rightarrow> review_error + (uuid \<Rightarrow> Params option)" where
  "EffectiveParamsForUsers lib db userIDs deckID =
     bindE (dbE (GetEffectiveFsrsParamsForUsers db userIDs deckID)) (\<lambda>rows.
     bindE (foldE (\<lambda>m row.
         bindE (paramsFromRow lib (fp_FsrsVersion row) (fp_Params row) (fp_DesiredRetention row))
           (\<lambda>p. Inr (m(fp_UserID row \<mapsto> p)))) Map.empty rows) (\<lambda>byUser.
     if length (dedup (map fp_UserID rows)) < length userIDs then
       bindE (fsrsE (NewDefaultParams lib DefaultDesiredRetention)) (\<lambda>def.
       Inr (foldl (\<lambda>m i. if m i = None then m(i \<mapsto> def) else m) byUser userIDs))
     else Inr byUser))"

type_synonym ParamsCache = "uuid \<Rightarrow> Params option"

definition NewParamsCache :: ParamsCache where
  "NewParamsCache = Map.empty"

definition ParamsCache_Get ::
  "fsrs_lib \<Rightarrow> review_db \<Rightarrow> ParamsCache \<Rightarrow> uuid \<Rightarrow> uuid \<Rightarrow> review_error + Params \<times> ParamsCache" where
  "ParamsCache_Get lib db cache userID deckID =
     (case cache deckID of
        Some p \<Rightarrow> Inr (p, cache)
      | None \<Rightarrow>
          bindE (EffectiveParams lib db userID deckID) (\<lambda>p. Inr (p, cache(deckID \<mapsto> p))))"

section \<open>The cache is transparent\<close>

text \<open>Every entry is what \<open>EffectiveParams\<close> would return; \<open>db_params\<close> does not change in a batch.\<close>

definition cache_ok :: "fsrs_lib \<Rightarrow> review_db \<Rightarrow> uuid \<Rightarrow> ParamsCache \<Rightarrow> bool" where
  "cache_ok lib db userID cache \<longleftrightarrow>
     (\<forall>d p. cache d = Some p \<longrightarrow> EffectiveParams lib db userID d = Inr p)"

lemma cache_ok_empty [simp]: "cache_ok lib db u NewParamsCache"
  by (simp add: cache_ok_def NewParamsCache_def)

lemma ParamsCache_Get_Inr:
  assumes "cache_ok lib db u cache" "ParamsCache_Get lib db cache u d = Inr (p, cache')"
  shows "EffectiveParams lib db u d = Inr p \<and> cache_ok lib db u cache'"
  using assms by (auto simp: ParamsCache_Get_def cache_ok_def bindE_eq_Inr split: option.splits if_splits)

lemma EffectiveParams_cong:
  "db_params db' = db_params db \<Longrightarrow> db_refuses db' = db_refuses db \<Longrightarrow>
     EffectiveParams lib db' u d = EffectiveParams lib db u d"
  by (simp add: EffectiveParams_def GetEffectiveFsrsParams_def run_stmt_def)

lemma cache_ok_cong:
  assumes "db_params db' = db_params db" "db_refuses db' = db_refuses db"
  shows "cache_ok lib db' u cache = cache_ok lib db u cache"
  unfolding cache_ok_def EffectiveParams_cong [OF assms] ..

lemma NewParams_valid: "NewParams v ws r = Inr p \<Longrightarrow> par_valid p \<and> par_version p = 6"
  by (auto simp: NewParams_Inr)

lemma paramsFromRow_valid: "paramsFromRow lib v ws r = Inr p \<Longrightarrow> par_valid p \<and> par_version p = 6"
  unfolding paramsFromRow_def NewDefaultParams_def
  by (cases ws) (auto dest: NewParams_valid split: if_splits)

lemma EffectiveParams_valid:
  assumes "EffectiveParams lib db u d = Inr p"
  shows "par_valid p \<and> par_version p = 6"
proof -
  from assms obtain row :: "user_fsrs_params option" where
    "(case row of None \<Rightarrow> fsrsE (NewDefaultParams lib DefaultDesiredRetention)
      | Some r \<Rightarrow> paramsFromRow lib (fp_FsrsVersion r) (fp_Params r) (fp_DesiredRetention r)) = Inr p"
    unfolding EffectiveParams_def bindE_eq_Inr by blast
  then show ?thesis
    by (cases row) (auto dest: paramsFromRow_valid NewParams_valid simp: NewDefaultParams_def)
qed

end
