(* ===== verification/Grade.thy ===== *)
theory Grade
  imports Review_Params Locks
begin

text \<open>
  Grading (\<open>internal/review/grade.go\<close>, \<open>replay.go\<close>, the event types of \<open>types.go\<close> and
  \<open>cardStateToDTO\<close> of \<open>batch.go\<close>): one \<open>POST /api/reviews/batch\<close> from the clamping of its
  timestamps to the results in request order. Every function that writes takes the database and
  returns the new one; an \<open>Inl\<close> result means that the caller rolls back.
\<close>

section \<open>Events and results\<close>

datatype Status = StatusApplied | StatusDuplicate | StatusForbidden | StatusRejected

record Event =
  ev_ID :: uuid
  ev_CardID :: uuid
  ev_Rating :: int
  ev_ReviewedAt :: gotime
  ev_DurationMs :: "int option"

record CardStateDTO =
  dto_Due :: gotime
  dto_State :: int
  dto_Stability :: float64
  dto_Difficulty :: float64
  dto_Reps :: int
  dto_Lapses :: int
  dto_ScheduledDays :: int
  dto_LearningSteps :: int
  dto_LastReview :: "gotime option"

record Result =
  res_ID :: uuid
  res_CardID :: uuid
  res_Status :: Status
  res_After :: "CardStateDTO option"
  res_Preview :: "Preview option"

definition cardStateToDTO :: "CardState \<Rightarrow> CardStateDTO" where
  "cardStateToDTO s =
     \<lparr>dto_Due = cs_Due s, dto_State = cs_State s, dto_Stability = cs_Stability s,
      dto_Difficulty = cs_Difficulty s, dto_Reps = cs_Reps s, dto_Lapses = cs_Lapses s,
      dto_ScheduledDays = cs_ScheduledDays s, dto_LearningSteps = cs_LearningSteps s,
      dto_LastReview = (if IsZero (cs_LastReview s) then None else Some (cs_LastReview s))\<rparr>"

section \<open>Timestamps\<close>

definition clampForwardWindow :: duration where "clampForwardWindow = 5 * Minute"
definition rejectPastWindow :: duration where "rejectPastWindow = 30 * 24 * Hour"

text \<open>\<open>None\<close> is \<open>reject = true\<close>.\<close>

definition clampOrReject :: "gotime \<Rightarrow> gotime \<Rightarrow> gotime option" where
  "clampOrReject reviewedAt now =
     (let reviewedAt = time_Truncate reviewedAt Microsecond; now = time_Truncate now Microsecond in
      if reviewedAt > now + clampForwardWindow then None
      else if reviewedAt < now - rejectPastWindow then None
      else if reviewedAt > now then Some now
      else Some reviewedAt)"

definition reviewKind :: "int \<Rightarrow> int" where
  "reviewKind s = (if s = Review then 1 else if s = Relearning then 2 else 0)"

section \<open>Reading the stored state\<close>

definition userCardStateRowToFSRS :: "user_card_state \<Rightarrow> CardState" where
  "userCardStateRowToFSRS row =
     \<lparr>cs_Due = us_Due row, cs_Stability = us_Stability row, cs_Difficulty = us_Difficulty row,
      cs_State = uwrap 8 (us_State row), cs_Reps = us_Reps row, cs_Lapses = us_Lapses row,
      cs_ScheduledDays = us_ScheduledDays row, cs_LearningSteps = us_LearningSteps row,
      cs_LastReview = (case us_LastReview row of Some t \<Rightarrow> t | None \<Rightarrow> 0)\<rparr>"

definition currentState :: "review_db \<Rightarrow> uuid \<Rightarrow> uuid \<Rightarrow> review_error + CardState option" where
  "currentState db userID cardID =
     bindE (dbE (GetUserCardState db userID cardID)) (\<lambda>row.
     Inr (map_option userCardStateRowToFSRS row))"

definition zero_CardState :: CardState where
  "zero_CardState = \<lparr>cs_Due = 0, cs_Stability = 0, cs_Difficulty = 0, cs_State = 0, cs_Reps = 0,
     cs_Lapses = 0, cs_ScheduledDays = 0, cs_LearningSteps = 0, cs_LastReview = 0\<rparr>"

section \<open>The log\<close>

definition log_row ::
  "Params \<Rightarrow> uuid \<Rightarrow> Event \<Rightarrow> CardState \<Rightarrow> Outcome \<Rightarrow> int \<Rightarrow> review_log" where
  "log_row p userID ev prior outcome elapsedDaysBefore =
     \<lparr>rl_ID = ev_ID ev, rl_UserID = userID, rl_CardID = ev_CardID ev,
      rl_Rating = wrap16 (ev_Rating ev), rl_ReviewedAt = pg_timestamp (ev_ReviewedAt ev),
      rl_DurationMs = ev_DurationMs ev, rl_StateBefore = wrap16 (cs_State prior),
      rl_LearningStepsBefore = cs_LearningSteps prior,
      rl_StabilityBefore = Some (cs_Stability prior),
      rl_DifficultyBefore = Some (cs_Difficulty prior),
      rl_ElapsedDaysBefore = elapsedDaysBefore, rl_ScheduledDaysAfter = o_ScheduledDays outcome,
      rl_FsrsVersion = Some (wrap16 (par_version p)), rl_ReviewKind = reviewKind (cs_State prior),
      rl_AnkiID = None\<rparr>"

definition appendReviewLogRow ::
  "review_db \<Rightarrow> Params \<Rightarrow> uuid \<Rightarrow> Event \<Rightarrow> CardState \<Rightarrow> Outcome \<Rightarrow> int
    \<Rightarrow> review_error + bool \<times> review_db" where
  "appendReviewLogRow db p userID ev prior outcome elapsedDaysBefore =
     dbE (InsertReviewLog db (log_row p userID ev prior outcome elapsedDaysBefore))"

definition duplicateOf ::
  "review_db \<Rightarrow> uuid \<Rightarrow> uuid \<Rightarrow> review_error + CardState option \<times> Status" where
  "duplicateOf db userID cardID =
     bindE (currentState db userID cardID) (\<lambda>after. Inr (after, StatusDuplicate))"

definition beforeInLogOrder :: "gotime \<Rightarrow> uuid \<Rightarrow> gotime \<Rightarrow> uuid \<Rightarrow> bool" where
  "beforeInLogOrder aAt aID bAt bID = (if aAt \<noteq> bAt then aAt < bAt else aID < bID)"

record LoggedReview =
  lr_ID :: uuid
  lr_Rating :: int
  lr_ReviewedAt :: gotime

definition loggedReviews :: "review_log list \<Rightarrow> LoggedReview list" where
  "loggedReviews rows = map (\<lambda>r. \<lparr>lr_ID = rl_ID r, lr_Rating = uwrap 8 (rl_Rating r),
     lr_ReviewedAt = rl_ReviewedAt r\<rparr>) rows"

text \<open>\<open>sort.Search\<close>: binary search for the first index at which \<open>f\<close> holds.\<close>

function sort_Search :: "(nat \<Rightarrow> bool) \<Rightarrow> nat \<Rightarrow> nat \<Rightarrow> nat" where
  "sort_Search f i j =
     (if i < j then
        (let h = (i + j) div 2 in if \<not> f h then sort_Search f (h + 1) j else sort_Search f i h)
      else i)"
  by pat_completeness auto
termination
  by (relation "measure (\<lambda>(f, i, j). j - i)") auto

declare sort_Search.simps [simp del]

definition lr_before :: "LoggedReview \<Rightarrow> LoggedReview \<Rightarrow> bool" where
  "lr_before a b = beforeInLogOrder (lr_ReviewedAt a) (lr_ID a) (lr_ReviewedAt b) (lr_ID b)"

definition insertSorted :: "LoggedReview list \<Rightarrow> LoggedReview \<Rightarrow> LoggedReview list \<times> nat" where
  "insertSorted rows ev =
     (let idx = sort_Search (\<lambda>i. lr_before ev (rows ! i)) 0 (length rows)
      in (take idx rows @ ev # drop idx rows, idx))"

section \<open>Replay\<close>

fun replay_from :: "fsrs_lib \<Rightarrow> Params \<Rightarrow> CardState \<Rightarrow> LoggedReview list
    \<Rightarrow> fsrs_error + CardState list \<times> CardState" where
  "replay_from lib p state [] = Inr ([], state)"
| "replay_from lib p state (row # rows) =
     bindE (Schedule lib p state (lr_Rating row) (lr_ReviewedAt row)) (\<lambda>outcome.
     bindE (replay_from lib p (CardStateAt outcome (lr_ReviewedAt row)) rows) (\<lambda>(priors, final).
     Inr (state # priors, final)))"

definition replayStates :: "fsrs_lib \<Rightarrow> Params \<Rightarrow> LoggedReview list
    \<Rightarrow> fsrs_error + CardState list \<times> CardState" where
  "replayStates lib p rows = replay_from lib p zero_CardState rows"

text \<open>The row that the upserts propose: the scheduling columns, the settings at their defaults.\<close>

definition state_row :: "uuid \<Rightarrow> uuid \<Rightarrow> gotime \<Rightarrow> float64 \<Rightarrow> float64 \<Rightarrow> int \<Rightarrow> int \<Rightarrow> int \<Rightarrow> int \<Rightarrow> int
    \<Rightarrow> int \<Rightarrow> gotime \<Rightarrow> user_card_state" where
  "state_row u c due stability difficulty st reps lapses elapsed scheduled steps lastReview =
     \<lparr>us_UserID = u, us_CardID = c, us_Due = pg_timestamp due, us_Stability = stability,
      us_Difficulty = difficulty, us_State = wrap16 st, us_Reps = reps, us_Lapses = lapses,
      us_ElapsedDays = elapsed, us_ScheduledDays = scheduled, us_LearningSteps = steps,
      us_LastReview = Some (pg_timestamp lastReview), us_Suspended = False, us_BuriedUntil = None,
      us_Flag = 0\<rparr>"

definition writeReplayedState :: "review_db \<Rightarrow> uuid \<Rightarrow> uuid \<Rightarrow> CardState \<Rightarrow> CardState \<Rightarrow> gotime
    \<Rightarrow> review_error + review_db" where
  "writeReplayedState db userID cardID lastPrior final lastReviewedAt =
     dbE (UpsertUserCardStateFromReplay db
       (state_row userID cardID (cs_Due final) (cs_Stability final) (cs_Difficulty final)
          (cs_State final) (cs_Reps final) (cs_Lapses final) (ElapsedDays lastPrior lastReviewedAt)
          (cs_ScheduledDays final) (cs_LearningSteps final) lastReviewedAt))"

definition ReplayCard :: "fsrs_lib \<Rightarrow> review_db \<Rightarrow> Params \<Rightarrow> uuid \<Rightarrow> uuid
    \<Rightarrow> review_error + CardState \<times> review_db" where
  "ReplayCard lib db p userID cardID =
     bindE (dbE (ListReviewLogForCard db userID cardID)) (\<lambda>rows.
     if rows = [] then Inr (zero_CardState, db)
     else
       let logged = loggedReviews rows in
       bindE (fsrsE (replayStates lib p logged)) (\<lambda>(priors, final).
       bindE (writeReplayedState db userID cardID (last priors) final (lr_ReviewedAt (last logged)))
         (\<lambda>db'. Inr (final, db'))))"

section \<open>Grading one event\<close>

definition gradeInOrder :: "fsrs_lib \<Rightarrow> review_db \<Rightarrow> Params \<Rightarrow> uuid \<Rightarrow> Event \<Rightarrow> CardState
    \<Rightarrow> review_error + CardState option \<times> Status \<times> review_db" where
  "gradeInOrder lib db p userID ev prior =
     (let elapsedDaysBefore = ElapsedDays prior (ev_ReviewedAt ev) in
      bindE (fsrsE (Schedule lib p prior (ev_Rating ev) (ev_ReviewedAt ev))) (\<lambda>outcome.
      bindE (appendReviewLogRow db p userID ev prior outcome elapsedDaysBefore)
        (\<lambda>(inserted, db1).
      if \<not> inserted then
        bindE (duplicateOf db1 userID (ev_CardID ev)) (\<lambda>(after, status). Inr (after, status, db1))
      else
        bindE (dbE (UpsertUserCardStateOnReview db1
          (state_row userID (ev_CardID ev) (o_Due outcome) (o_Stability outcome)
             (o_Difficulty outcome) (o_State outcome) (o_Reps outcome) (o_Lapses outcome)
             elapsedDaysBefore (o_ScheduledDays outcome) (o_LearningSteps outcome)
             (ev_ReviewedAt ev)))) (\<lambda>(_, db2).
        bindE (currentState db2 userID (ev_CardID ev)) (\<lambda>after.
        Inr (after, StatusApplied, db2))))))"

definition gradeOutOfOrder :: "fsrs_lib \<Rightarrow> review_db \<Rightarrow> Params \<Rightarrow> uuid \<Rightarrow> Event
    \<Rightarrow> review_error + CardState option \<times> Status \<times> review_db" where
  "gradeOutOfOrder lib db p userID ev =
     bindE (dbE (ListReviewLogForCard db userID (ev_CardID ev))) (\<lambda>existingRows.
     let (merged, evIdx) = insertSorted (loggedReviews existingRows)
           \<lparr>lr_ID = ev_ID ev, lr_Rating = ev_Rating ev, lr_ReviewedAt = ev_ReviewedAt ev\<rparr> in
     bindE (fsrsE (replayStates lib p merged)) (\<lambda>(priors, final).
     let priorForEv = priors ! evIdx;
         elapsedDaysBefore = ElapsedDays priorForEv (ev_ReviewedAt ev) in
     bindE (fsrsE (Schedule lib p priorForEv (ev_Rating ev) (ev_ReviewedAt ev))) (\<lambda>outcomeForEv.
     bindE (appendReviewLogRow db p userID ev priorForEv outcomeForEv elapsedDaysBefore)
       (\<lambda>(inserted, db1).
     if \<not> inserted then
       bindE (duplicateOf db1 userID (ev_CardID ev)) (\<lambda>(after, status). Inr (after, status, db1))
     else
       let lastReviewedAt = lr_ReviewedAt (last merged) in
       bindE (writeReplayedState db1 userID (ev_CardID ev) (last priors) final lastReviewedAt)
         (\<lambda>db2. Inr (Some final, StatusApplied, db2))))))"

definition gradeEvent :: "fsrs_lib \<Rightarrow> review_db \<Rightarrow> Params \<Rightarrow> uuid \<Rightarrow> Event
    \<Rightarrow> review_error + CardState option \<times> Status \<times> review_db" where
  "gradeEvent lib db p userID ev =
     bindE (dbE (GetUserCardState db userID (ev_CardID ev))) (\<lambda>row.
     let prior = (case row of Some r \<Rightarrow> userCardStateRowToFSRS r | None \<Rightarrow> zero_CardState) in
     if IsZero (cs_LastReview prior) \<or> \<not> ev_ReviewedAt ev < cs_LastReview prior
     then gradeInOrder lib db p userID ev prior
     else gradeOutOfOrder lib db p userID ev)"

section \<open>Grading a batch\<close>

definition zero_Result :: Result where
  "zero_Result = \<lparr>res_ID = 0, res_CardID = 0, res_Status = StatusRejected, res_After = None,
     res_Preview = None\<rparr>"

definition orderedResults :: "uuid list \<Rightarrow> (uuid \<Rightarrow> Result option) \<Rightarrow> Result list" where
  "orderedResults order results =
     map (\<lambda>i. case results i of Some r \<Rightarrow> r | None \<Rightarrow> zero_Result) order"

definition resultFor :: "fsrs_lib \<Rightarrow> Params \<Rightarrow> Event \<Rightarrow> Status \<Rightarrow> CardState option \<Rightarrow> gotime \<Rightarrow> Result" where
  "resultFor lib p ev status after now =
     (let res = \<lparr>res_ID = ev_ID ev, res_CardID = ev_CardID ev, res_Status = status,
            res_After = None, res_Preview = None\<rparr> in
      case after of
        None \<Rightarrow> res
      | Some s \<Rightarrow>
          (let res = res\<lparr>res_After := Some (cardStateToDTO s)\<rparr> in
           case PreviewAll lib p s now of
             Inl _ \<Rightarrow> res
           | Inr preview \<Rightarrow> res\<lparr>res_Preview := Some preview\<rparr>))"

definition plain_result :: "Event \<Rightarrow> Status \<Rightarrow> Result" where
  "plain_result ev status = \<lparr>res_ID = ev_ID ev, res_CardID = ev_CardID ev, res_Status = status,
     res_After = None, res_Preview = None\<rparr>"

type_synonym results = "uuid \<Rightarrow> Result option"

definition lockKeys :: "uuid \<Rightarrow> Event list \<Rightarrow> int list" where
  "lockKeys userID evs = sortedKeys userID (map ev_CardID evs)"

text \<open>The four loops of \<open>GradeBatch\<close>.\<close>

fun clamp_loop :: "gotime \<Rightarrow> Event list \<Rightarrow> results \<Rightarrow> results \<times> Event list" where
  "clamp_loop now [] results = (results, [])"
| "clamp_loop now (ev # evs) results =
     (case clampOrReject (ev_ReviewedAt ev) now of
        None \<Rightarrow> clamp_loop now evs (results(ev_ID ev \<mapsto> plain_result ev StatusRejected))
      | Some adjusted \<Rightarrow>
          let (results', live) = clamp_loop now evs results
          in (results', ev\<lparr>ev_ReviewedAt := adjusted\<rparr> # live))"

fun authorise_loop :: "(uuid \<Rightarrow> uuid option) \<Rightarrow> Event list \<Rightarrow> results \<Rightarrow> results \<times> Event list" where
  "authorise_loop deckOf [] results = (results, [])"
| "authorise_loop deckOf (ev # evs) results =
     (if deckOf (ev_CardID ev) = None
      then authorise_loop deckOf evs (results(ev_ID ev \<mapsto> plain_result ev StatusForbidden))
      else
        let (results', toGrade) = authorise_loop deckOf evs results
        in (results', ev # toGrade))"

definition dup_step :: "fsrs_lib \<Rightarrow> review_db \<Rightarrow> uuid \<Rightarrow> gotime \<Rightarrow> (uuid \<Rightarrow> uuid option) \<Rightarrow> uuid list
    \<Rightarrow> ParamsCache \<times> results \<times> Event list \<Rightarrow> Event
    \<Rightarrow> review_error + ParamsCache \<times> results \<times> Event list" where
  "dup_step lib db userID now deckOf existing s ev =
     (case s of (cache, results, fresh) \<Rightarrow>
        if ev_ID ev \<notin> set existing then Inr (cache, results, fresh @ [ev])
        else
          bindE (ParamsCache_Get lib db cache userID (the (deckOf (ev_CardID ev)))) (\<lambda>(p, cache').
          bindE (duplicateOf db userID (ev_CardID ev)) (\<lambda>(after, status).
          Inr (cache', results(ev_ID ev \<mapsto> resultFor lib p ev status after now), fresh))))"

definition grade_step :: "fsrs_lib \<Rightarrow> uuid \<Rightarrow> gotime \<Rightarrow> (uuid \<Rightarrow> uuid option)
    \<Rightarrow> ParamsCache \<times> results \<times> review_db \<Rightarrow> Event
    \<Rightarrow> review_error + ParamsCache \<times> results \<times> review_db" where
  "grade_step lib userID now deckOf s ev =
     (case s of (cache, results, db) \<Rightarrow>
        bindE (ParamsCache_Get lib db cache userID (the (deckOf (ev_CardID ev)))) (\<lambda>(p, cache').
        bindE (gradeEvent lib db p userID ev) (\<lambda>(after, status, db').
        Inr (cache', results(ev_ID ev \<mapsto> resultFor lib p ev status after now), db'))))"

definition ev_order :: "Event \<Rightarrow> gotime \<times> uuid" where
  "ev_order ev = (ev_ReviewedAt ev, ev_ID ev)"

definition deck_map :: "(uuid \<times> uuid) list \<Rightarrow> uuid \<Rightarrow> uuid option" where
  "deck_map studyable = foldl (\<lambda>m (c, d). m(c \<mapsto> d)) Map.empty studyable"

definition GradeBatch :: "fsrs_lib \<Rightarrow> review_db \<Rightarrow> uuid \<Rightarrow> gotime \<Rightarrow> Event list
    \<Rightarrow> review_error + Result list \<times> review_db" where
  "GradeBatch lib db userID now0 evs =
     (let now = time_Truncate now0 Microsecond; order = map ev_ID evs;
          (results, live) = clamp_loop now evs Map.empty in
      if live = [] then Inr (orderedResults order results, db)
      else
        bindE (dbE (ListStudyableCards db userID (dedup (map ev_CardID live)))) (\<lambda>studyable.
        let deckOf = deck_map studyable; (results, toGrade) = authorise_loop deckOf live results in
        if toGrade = [] then Inr (orderedResults order results, db)
        else
          bindE (dbE (acquireLocks LockCardForGrade db (lockKeys userID toGrade))) (\<lambda>db.
          bindE (dbE (ListExistingReviewLogIDs db (map ev_ID toGrade))) (\<lambda>existing.
          bindE (foldE (dup_step lib db userID now deckOf existing) (NewParamsCache, results, [])
            toGrade) (\<lambda>(cache, results, fresh).
          if fresh = [] then Inr (orderedResults order results, db)
          else
            bindE (foldE (grade_step lib userID now deckOf) (cache, results, db)
              (sort_key ev_order fresh)) (\<lambda>(_, results, db).
            Inr (orderedResults order results, db)))))))"

end
