(* ===== verification/Grade_Lemmas.thy ===== *)
theory Grade_Lemmas
  imports Grade "HOL-Library.Multiset"
begin

text \<open>
  The lemmas under the properties of grading: the binary search and the insertion into the log
  order, the replay as a fold, what one graded event may change, and the invariant that the stored
  state of a card is the replay of its log.
\<close>

section \<open>The binary search and the log order\<close>

lemma sort_Search_spec:
  assumes "i \<le> j" and "\<And>a b. i \<le> a \<Longrightarrow> a \<le> b \<Longrightarrow> b < j \<Longrightarrow> f a \<Longrightarrow> f b"
  shows "i \<le> sort_Search f i j \<and> sort_Search f i j \<le> j
    \<and> (\<forall>k. i \<le> k \<and> k < sort_Search f i j \<longrightarrow> \<not> f k)
    \<and> (\<forall>k. sort_Search f i j \<le> k \<and> k < j \<longrightarrow> f k)"
  using assms
proof (induction f i j rule: sort_Search.induct)
  case (1 f i j)
  show ?case
  proof (cases "i < j")
    case False
    with "1.prems"(1) have "sort_Search f i j = i" "i = j" by (simp_all add: sort_Search.simps)
    then show ?thesis by auto
  next
    case True
    define h where "h = (i + j) div 2"
    then have h: "i \<le> h" "h < j" using True by simp_all
    show ?thesis
    proof (cases "f h")
      case False
      have low: "\<not> f k" if "i \<le> k" "k \<le> h" for k
        using "1.prems"(2) [OF that h(2)] False by blast
      have "sort_Search f i j = sort_Search f (h + 1) j"
        using True False by (subst sort_Search.simps) (simp add: h_def Let_def)
      moreover have "h + 1 \<le> sort_Search f (h + 1) j \<and> sort_Search f (h + 1) j \<le> j
          \<and> (\<forall>k. h + 1 \<le> k \<and> k < sort_Search f (h + 1) j \<longrightarrow> \<not> f k)
          \<and> (\<forall>k. sort_Search f (h + 1) j \<le> k \<and> k < j \<longrightarrow> f k)"
      proof (rule "1.IH"(1) [OF True h_def False])
        show "f b" if "h + 1 \<le> a" "a \<le> b" "b < j" "f a" for a b
          using "1.prems"(2) [of a b] that h by simp
      qed (use h in simp)
      ultimately show ?thesis using h low
        by (metis Suc_eq_plus1 less_Suc_eq_le not_less order_trans Suc_leD)
    next
      case hold: True
      have "sort_Search f i j = sort_Search f i h"
        using True hold by (subst sort_Search.simps) (simp add: h_def Let_def)
      moreover have "i \<le> sort_Search f i h \<and> sort_Search f i h \<le> h
          \<and> (\<forall>k. i \<le> k \<and> k < sort_Search f i h \<longrightarrow> \<not> f k)
          \<and> (\<forall>k. sort_Search f i h \<le> k \<and> k < h \<longrightarrow> f k)"
        using h hold by (intro "1.IH"(2) [OF True h_def]) (auto intro: "1.prems"(2))
      moreover have "f k" if "h \<le> k" "k < j" for k
        using "1.prems"(2) [OF h(1) that hold] .
      ultimately show ?thesis using h
        by (metis less_imp_le not_less order_trans)
    qed
  qed
qed

definition lr_order :: "LoggedReview \<Rightarrow> gotime \<times> uuid" where
  "lr_order r = (lr_ReviewedAt r, lr_ID r)"

lemma lr_before_iff: "lr_before a b \<longleftrightarrow> lr_order a < lr_order b"
  by (auto simp: lr_before_def beforeInLogOrder_def lr_order_def less_prod_def)

interpretation log_order: strict_order lr_before
  by unfold_locales (auto simp: lr_before_iff)

lemma lr_sorted_iff: "sorted_wrt (\<lambda>x y. \<not> lr_before y x) rows \<longleftrightarrow> sorted (map lr_order rows)"
  by (simp add: lr_before_iff not_less sorted_wrt_map)

lemma insertSorted_spec:
  assumes s: "sorted (map lr_order rows)" and m: "insertSorted rows ev = (merged, idx)"
  shows "sorted (map lr_order merged)" "mset merged = add_mset ev (mset rows)"
    "idx < length merged" "merged ! idx = ev" "take idx merged = take idx rows" "idx \<le> length rows"
proof -
  let ?f = "\<lambda>i. lr_before ev (rows ! i)"
  from s have sw: "sorted_wrt (\<lambda>x y. \<not> lr_before y x) rows" by (simp add: lr_sorted_iff)
  from m have "idx = snd (insertSorted rows ev)" "merged = fst (insertSorted rows ev)" by simp_all
  then have idx: "idx = sort_Search ?f 0 (length rows)"
    and merged: "merged = take idx rows @ ev # drop idx rows"
    by (simp_all only: insertSorted_def Let_def fst_conv snd_conv)
  have spec: "idx \<le> length rows" "\<forall>k<idx. \<not> ?f k" "\<forall>k. idx \<le> k \<and> k < length rows \<longrightarrow> ?f k"
  proof -
    have mono: "?f b" if "0 \<le> a" "a \<le> b" "b < length rows" "?f a" for a b
      by (rule log_order.search_mono [OF sw that(2-4)])
    note search = sort_Search_spec [of 0 "length rows" ?f, OF le0 mono, folded idx]
    from search show "idx \<le> length rows" "\<forall>k<idx. \<not> ?f k"
      "\<forall>k. idx \<le> k \<and> k < length rows \<longrightarrow> ?f k" by simp_all
  qed
  then show "idx \<le> length rows" by simp
  have "sorted_wrt (\<lambda>x y. \<not> lr_before y x) merged"
    unfolding merged using spec by (intro log_order.insert_sorted_wrt [OF sw]) auto
  then show "sorted (map lr_order merged)" by (simp add: lr_sorted_iff)
  have "mset (take idx rows) + mset (drop idx rows) = mset rows"
    by (metis append_take_drop_id mset_append)
  then show "mset merged = add_mset ev (mset rows)" by (simp add: merged)
  show "idx < length merged" "merged ! idx = ev" "take idx merged = take idx rows"
    using spec(1) by (simp_all add: merged nth_append)
qed

text \<open>Sorting by an injective key has one result.\<close>

lemma sorted_key_unique:
  fixes f :: "'a \<Rightarrow> 'k::linorder"
  assumes "sorted (map f xs)" "sorted (map f ys)" "mset xs = mset ys" "inj_on f (set xs)"
  shows "xs = ys"
proof -
  have "map f xs = map f ys"
    using assms(1-3) by (metis mset_map properties_for_sort sort_key_id_if_sorted sorted_sort_id)
  moreover have "set ys = set xs" using assms(3) by (metis set_mset_mset)
  ultimately show ?thesis using assms(4) by (metis map_inj_on Un_absorb)
qed

definition card_log :: "review_db \<Rightarrow> uuid \<Rightarrow> uuid \<Rightarrow> LoggedReview list" where
  "card_log db u c = loggedReviews
     (sort_key log_order (filter (\<lambda>r. rl_UserID r = u \<and> rl_CardID r = c) (db_log db)))"

lemma lr_order_logged: "map lr_order (loggedReviews rows) = map log_order rows"
  by (simp add: loggedReviews_def lr_order_def log_order_def)

lemma card_log_sorted [simp]: "sorted (map lr_order (card_log db u c))"
  by (simp add: card_log_def lr_order_logged)

lemma ListReviewLogForCard_Inr:
  "ListReviewLogForCard db u c = Inr rows \<Longrightarrow> loggedReviews rows = card_log db u c"
  by (simp add: ListReviewLogForCard_def card_log_def)

lemma mset_loggedReviews: "mset (loggedReviews rows) = image_mset
    (\<lambda>r. \<lparr>lr_ID = rl_ID r, lr_Rating = uwrap 8 (rl_Rating r), lr_ReviewedAt = rl_ReviewedAt r\<rparr>) (mset rows)"
  by (simp add: loggedReviews_def)

lemma mset_card_log: "mset (card_log db u c) = image_mset
    (\<lambda>r. \<lparr>lr_ID = rl_ID r, lr_Rating = uwrap 8 (rl_Rating r), lr_ReviewedAt = rl_ReviewedAt r\<rparr>)
    (filter_mset (\<lambda>r. rl_UserID r = u \<and> rl_CardID r = c) (mset (db_log db)))"
  by (simp add: card_log_def mset_loggedReviews)

lemma set_card_log: "set (card_log db u c) =
    (\<lambda>r. \<lparr>lr_ID = rl_ID r, lr_Rating = uwrap 8 (rl_Rating r), lr_ReviewedAt = rl_ReviewedAt r\<rparr>)
    ` {r \<in> set (db_log db). rl_UserID r = u \<and> rl_CardID r = c}"
  using mset_card_log [THEN arg_cong [where f = set_mset], of db u c] by simp

lemma card_log_inj:
  assumes "pk rl_ID (db_log db)"
  shows "inj_on lr_order (set (card_log db u c))"
proof -
  have "inj_on rl_ID (set (db_log db))" using assms by (simp add: pk_def distinct_map)
  then show ?thesis unfolding set_card_log by (auto simp: inj_on_def lr_order_def)
qed

text \<open>The log of a card after a row was appended: the insertion that the code computed.\<close>

lemma card_log_append:
  assumes log: "db_log db' = db_log db @ [r]" and key: "pk rl_ID (db_log db')"
    and r: "rl_UserID r = u" "rl_CardID r = c"
    and ev: "ev = \<lparr>lr_ID = rl_ID r, lr_Rating = uwrap 8 (rl_Rating r), lr_ReviewedAt = rl_ReviewedAt r\<rparr>"
    and m: "sorted (map lr_order merged)" "mset merged = add_mset ev (mset (card_log db u c))"
  shows "card_log db' u c = merged"
proof (rule sorted_key_unique [where f = lr_order])
  show "mset (card_log db' u c) = mset merged"
    using r by (simp add: m(2) mset_card_log log ev)
qed (simp_all add: m card_log_inj [OF key])

lemma card_log_other:
  assumes "db_log db' = db_log db @ [r]" "(u', c') \<noteq> (rl_UserID r, rl_CardID r)"
  shows "card_log db' u' c' = card_log db u' c'"
  using assms by (auto simp: card_log_def)

section \<open>Replay\<close>

lemma replay_from_append:
  "replay_from lib p s (xs @ ys) =
     bindE (replay_from lib p s xs) (\<lambda>(ps, t). bindE (replay_from lib p t ys) (\<lambda>(qs, f). Inr (ps @ qs, f)))"
proof (induction xs arbitrary: s)
  case Nil
  then show ?case by (cases "replay_from lib p s ys") auto
next
  case (Cons x xs)
  show ?case
  proof (cases "Schedule lib p s (lr_Rating x) (lr_ReviewedAt x)")
    case (Inr q)
    then show ?thesis
      using Cons.IH [of "CardStateAt q (lr_ReviewedAt x)"]
      by (cases "replay_from lib p (CardStateAt q (lr_ReviewedAt x)) xs")
        (auto simp: bindE_def split: sum.splits)
  qed simp
qed

lemma replay_from_length: "replay_from lib p s xs = Inr (ps, f) \<Longrightarrow> length ps = length xs"
  by (induction xs arbitrary: s ps f) (auto simp: bindE_eq_Inr)

lemma replay_from_last:
  assumes "replay_from lib p s xs = Inr (ps, f)" "xs \<noteq> []"
  shows "\<exists>q t. f = CardStateAt q (lr_ReviewedAt (last xs)) \<and> Schedule lib p t (lr_Rating (last xs)) (lr_ReviewedAt (last xs)) = Inr q"
  using assms
proof (induction xs arbitrary: s ps f)
  case (Cons x xs)
  then show ?case by (cases "xs = []") (auto simp: bindE_eq_Inr)
qed simp

lemma replayStates_snoc:
  "replayStates lib p xs = Inr (ps, s) \<Longrightarrow>
     Schedule lib p s (lr_Rating x) (lr_ReviewedAt x) = Inr q \<Longrightarrow>
     replayStates lib p (xs @ [x]) = Inr (ps @ [s], CardStateAt q (lr_ReviewedAt x))"
  by (simp add: replayStates_def replay_from_append)

text \<open>The library does not read the due date of the card it schedules.\<close>

definition next_ignores_due :: "fsrs_lib \<Rightarrow> bool" where
  "next_ignores_due lib \<longleftrightarrow>
     (\<forall>lp c now r d. lib_Next lib lp (c\<lparr>lc_Due := d\<rparr>) now r = lib_Next lib lp c now r)"

lemma toLibCard_due:
  "toLibCard lib (s\<lparr>cs_Due := d\<rparr>) = bindE (toLibCard lib s) (\<lambda>c. Inr (c\<lparr>lc_Due := d\<rparr>))"
  by (simp add: toLibCard_def)

lemma Schedule_due:
  assumes "next_ignores_due lib"
  shows "Schedule lib p (s\<lparr>cs_Due := d\<rparr>) r now = Schedule lib p s r now"
  using assms by (cases "toLibCard lib s") (simp_all add: Schedule_def toLibCard_due next_ignores_due_def)

lemma Schedule_same_but_due:
  assumes "next_ignores_due lib" "s\<lparr>cs_Due := 0\<rparr> = t\<lparr>cs_Due := 0\<rparr>"
  shows "Schedule lib p s r now = Schedule lib p t r now"
  using assms by (metis Schedule_due)

lemma Schedule_state_byte:
  "Schedule lib p s r now = Inr q \<Longrightarrow> Rating_Valid r \<and> 0 \<le> o_State q \<and> o_State q < 256"
  by (auto simp: Schedule_Inr fromLibCard_def uwrap_def)

section \<open>The stored state is the replay of the log\<close>

definition state_matches :: "user_card_state option \<Rightarrow> LoggedReview list \<Rightarrow> CardState \<Rightarrow> bool" where
  "state_matches row rows final \<longleftrightarrow>
     (case row of
        None \<Rightarrow> rows = []
      | Some r \<Rightarrow> (userCardStateRowToFSRS r)\<lparr>cs_Due := 0\<rparr> = final\<lparr>cs_Due := 0\<rparr>
          \<and> (rows \<noteq> [] \<longrightarrow> us_Due r = pg_timestamp (cs_Due final))
          \<and> us_LastReview r = (if rows = [] then None else Some (lr_ReviewedAt (last rows))))"

definition replay_consistent :: "fsrs_lib \<Rightarrow> Params \<Rightarrow> review_db \<Rightarrow> uuid \<Rightarrow> uuid \<Rightarrow> bool" where
  "replay_consistent lib p db u c \<longleftrightarrow>
     (\<exists>priors final. replayStates lib p (card_log db u c) = Inr (priors, final)
        \<and> state_matches (row_of us_key (u, c) (db_states db)) (card_log db u c) final)"

definition log_ok :: "review_db \<Rightarrow> bool" where
  "log_ok db \<longleftrightarrow> pk rl_ID (db_log db) \<and> (\<forall>r\<in>set (db_log db). 0 < rl_ReviewedAt r)"

definition before_of :: "user_card_state option \<Rightarrow> CardState" where
  "before_of row = (case row of Some r \<Rightarrow> userCardStateRowToFSRS r | None \<Rightarrow> zero_CardState)"

lemma before_of_matches:
  assumes "replayStates lib p rows = Inr (ps, f)" "state_matches row rows f"
  shows "(before_of row)\<lparr>cs_Due := 0\<rparr> = f\<lparr>cs_Due := 0\<rparr>"
    and "cs_LastReview (before_of row) = (if rows = [] then 0 else lr_ReviewedAt (last rows))"
  using assms
  by (auto simp: state_matches_def before_of_def replayStates_def userCardStateRowToFSRS_def
      zero_CardState_def split: option.splits if_splits)

lemma state_row_matches:
  assumes "0 \<le> cs_State f" "cs_State f < 256" "Microsecond dvd at" "0 < at"
    and "e = state_row u c (cs_Due f) (cs_Stability f) (cs_Difficulty f) (cs_State f) (cs_Reps f)
      (cs_Lapses f) el (cs_ScheduledDays f) (cs_LearningSteps f) at"
    and "cs_LastReview f = at" "rows \<noteq> []" "lr_ReviewedAt (last rows) = at"
  shows "state_matches (Some e) rows f" "state_matches (Some (scheduling_update e old)) rows f"
proof -
  have "wrap16 (cs_State f) = cs_State f"
    using assms(1,2) by (intro wrap_id) (simp_all add: in_range_def)
  moreover have "uwrap 8 (cs_State f) = cs_State f" using assms(1,2) by (simp add: uwrap_def)
  ultimately show "state_matches (Some e) rows f" "state_matches (Some (scheduling_update e old)) rows f"
    using assms(3-8)
    by (simp_all add: state_matches_def state_row_def scheduling_update_def
        userCardStateRowToFSRS_def pg_timestamp_id)
qed

lemma wrap16_rating: "Rating_Valid r \<Longrightarrow> uwrap 8 (wrap16 r) = r"
  by (simp add: Rating_Valid_def rating_defs wrap_id in_range_def uwrap_def)

text \<open>The three ways a graded event ends.\<close>

lemma gradeEvent_cases:
  assumes "gradeEvent lib db p u ev = Inr (after, st, db')"
  obtains (duplicate) "db' = db" "st = StatusDuplicate" "ev_ID ev \<in> rl_ID ` set (db_log db)"
    | (in_order) prior q db1 n where
      "prior = before_of (row_of us_key (u, ev_CardID ev) (db_states db))"
      "cs_LastReview prior = 0 \<or> cs_LastReview prior \<le> ev_ReviewedAt ev"
      "Schedule lib p prior (ev_Rating ev) (ev_ReviewedAt ev) = Inr q"
      "InsertReviewLog db (log_row p u ev prior q (ElapsedDays prior (ev_ReviewedAt ev))) = Inr (True, db1)"
      "UpsertUserCardStateOnReview db1 (state_row u (ev_CardID ev) (o_Due q) (o_Stability q)
         (o_Difficulty q) (o_State q) (o_Reps q) (o_Lapses q) (ElapsedDays prior (ev_ReviewedAt ev))
         (o_ScheduledDays q) (o_LearningSteps q) (ev_ReviewedAt ev)) = Inr (n, db')"
      "st = StatusApplied"
      "after = map_option userCardStateRowToFSRS (row_of us_key (u, ev_CardID ev) (db_states db'))"
    | (out_of_order) merged idx priors final q db1 where
      "ev_ReviewedAt ev < cs_LastReview (before_of (row_of us_key (u, ev_CardID ev) (db_states db)))"
      "insertSorted (card_log db u (ev_CardID ev))
         \<lparr>lr_ID = ev_ID ev, lr_Rating = ev_Rating ev, lr_ReviewedAt = ev_ReviewedAt ev\<rparr> = (merged, idx)"
      "replayStates lib p merged = Inr (priors, final)"
      "Schedule lib p (priors ! idx) (ev_Rating ev) (ev_ReviewedAt ev) = Inr q"
      "InsertReviewLog db (log_row p u ev (priors ! idx) q (ElapsedDays (priors ! idx) (ev_ReviewedAt ev)))
         = Inr (True, db1)"
      "writeReplayedState db1 u (ev_CardID ev) (last priors) final (lr_ReviewedAt (last merged)) = Inr db'"
      "st = StatusApplied" "after = Some final"
proof -
  from assms obtain row where row: "row = row_of us_key (u, ev_CardID ev) (db_states db)"
    and g: "(if IsZero (cs_LastReview (before_of row)) \<or> \<not> ev_ReviewedAt ev < cs_LastReview (before_of row)
      then gradeInOrder lib db p u ev (before_of row) else gradeOutOfOrder lib db p u ev) = Inr (after, st, db')"
    by (auto simp: gradeEvent_def bindE_eq_Inr GetUserCardState_def before_of_def [symmetric] Let_def)
  show thesis
  proof (cases "IsZero (cs_LastReview (before_of row)) \<or> \<not> ev_ReviewedAt ev < cs_LastReview (before_of row)")
    case True
    with g have "gradeInOrder lib db p u ev (before_of row) = Inr (after, st, db')" by simp
    then obtain q b db1 where q: "Schedule lib p (before_of row) (ev_Rating ev) (ev_ReviewedAt ev) = Inr q"
      and ins: "InsertReviewLog db (log_row p u ev (before_of row) q
        (ElapsedDays (before_of row) (ev_ReviewedAt ev))) = Inr (b, db1)"
      and rest: "(if \<not> b then bindE (duplicateOf db1 u (ev_CardID ev)) (\<lambda>(after, status). Inr (after, status, db1))
        else bindE (dbE (UpsertUserCardStateOnReview db1 (state_row u (ev_CardID ev) (o_Due q)
          (o_Stability q) (o_Difficulty q) (o_State q) (o_Reps q) (o_Lapses q)
          (ElapsedDays (before_of row) (ev_ReviewedAt ev)) (o_ScheduledDays q) (o_LearningSteps q)
          (ev_ReviewedAt ev)))) (\<lambda>(_, db2). bindE (currentState db2 u (ev_CardID ev)) (\<lambda>after.
          Inr (after, StatusApplied, db2)))) = Inr (after, st, db')"
      by (auto simp: gradeInOrder_def Let_def bindE_eq_Inr appendReviewLogRow_def)
    show thesis
    proof (cases b)
      case False
      with rest InsertReviewLog_Inr [OF ins] show thesis
        by (intro duplicate) (auto simp: duplicateOf_def bindE_eq_Inr log_row_def)
    next
      case b: True
      with rest obtain n where
        "UpsertUserCardStateOnReview db1 (state_row u (ev_CardID ev) (o_Due q)
          (o_Stability q) (o_Difficulty q) (o_State q) (o_Reps q) (o_Lapses q)
          (ElapsedDays (before_of row) (ev_ReviewedAt ev)) (o_ScheduledDays q) (o_LearningSteps q)
          (ev_ReviewedAt ev)) = Inr (n, db')" "st = StatusApplied"
        "after = map_option userCardStateRowToFSRS (row_of us_key (u, ev_CardID ev) (db_states db'))"
        by (auto simp: bindE_eq_Inr currentState_def GetUserCardState_def)
      with True q ins b show thesis
        unfolding row by (intro in_order) (auto simp: IsZero_def)
    qed
  next
    case False
    with g have "gradeOutOfOrder lib db p u ev = Inr (after, st, db')" by simp
    moreover from this obtain rows where rows: "ListReviewLogForCard db u (ev_CardID ev) = Inr rows"
      by (auto simp: gradeOutOfOrder_def bindE_eq_Inr)
    moreover obtain merged idx where m: "insertSorted (loggedReviews rows)
         \<lparr>lr_ID = ev_ID ev, lr_Rating = ev_Rating ev, lr_ReviewedAt = ev_ReviewedAt ev\<rparr> = (merged, idx)"
      by (cases "insertSorted (loggedReviews rows)
         \<lparr>lr_ID = ev_ID ev, lr_Rating = ev_Rating ev, lr_ReviewedAt = ev_ReviewedAt ev\<rparr>")
    ultimately obtain priors final q b db1 where
      rep: "replayStates lib p merged = Inr (priors, final)"
      and q: "Schedule lib p (priors ! idx) (ev_Rating ev) (ev_ReviewedAt ev) = Inr q"
      and ins: "InsertReviewLog db (log_row p u ev (priors ! idx) q
        (ElapsedDays (priors ! idx) (ev_ReviewedAt ev))) = Inr (b, db1)"
      and rest: "(if \<not> b then bindE (duplicateOf db1 u (ev_CardID ev)) (\<lambda>(after, status). Inr (after, status, db1))
        else bindE (writeReplayedState db1 u (ev_CardID ev) (last priors) final (lr_ReviewedAt (last merged)))
          (\<lambda>db2. Inr (Some final, StatusApplied, db2))) = Inr (after, st, db')"
      unfolding gradeOutOfOrder_def Let_def by (auto simp: bindE_eq_Inr appendReviewLogRow_def)
    show thesis
    proof (cases b)
      case False
      with rest InsertReviewLog_Inr [OF ins] show thesis
        by (intro duplicate) (auto simp: duplicateOf_def bindE_eq_Inr log_row_def)
    next
      case b: True
      with rest have "writeReplayedState db1 u (ev_CardID ev) (last priors) final (lr_ReviewedAt (last merged)) = Inr db'"
        "st = StatusApplied" "after = Some final" by (auto simp: bindE_eq_Inr)
      with False m rep q ins b ListReviewLogForCard_Inr [OF rows] show thesis
        unfolding row by (intro out_of_order) auto
    qed
  qed
qed

section \<open>A graded event keeps the invariant\<close>

lemma log_row_simps [simp]:
  "rl_ID (log_row p u ev s q e) = ev_ID ev"
  "rl_UserID (log_row p u ev s q e) = u"
  "rl_CardID (log_row p u ev s q e) = ev_CardID ev"
  "rl_Rating (log_row p u ev s q e) = wrap16 (ev_Rating ev)"
  "rl_ReviewedAt (log_row p u ev s q e) = pg_timestamp (ev_ReviewedAt ev)"
  by (simp_all add: log_row_def)

lemma state_row_key [simp]: "us_key (state_row u c a b d e f g h i j k) = (u, c)"
  "us_LastReview (state_row u c a b d e f g h i j k) = Some (pg_timestamp k)"
  by (simp_all add: state_row_def us_key_def)

definition logged_event :: "Event \<Rightarrow> LoggedReview" where
  "logged_event ev = \<lparr>lr_ID = ev_ID ev, lr_Rating = ev_Rating ev, lr_ReviewedAt = ev_ReviewedAt ev\<rparr>"

text \<open>What one applied event does to the log of the database.\<close>

lemma applied_log:
  assumes ins: "InsertReviewLog db (log_row p u ev s q e) = Inr (True, db1)"
    and key: "pk rl_ID (db_log db)" and at: "Microsecond dvd ev_ReviewedAt ev"
    and rating: "Rating_Valid (ev_Rating ev)"
  shows "db1 = db\<lparr>db_log := db_log db @ [log_row p u ev s q e]\<rparr>" "pk rl_ID (db_log db1)"
    and "sorted (map lr_order merged) \<Longrightarrow>
      mset merged = add_mset (logged_event ev) (mset (card_log db u (ev_CardID ev))) \<Longrightarrow>
      card_log db1 u (ev_CardID ev) = merged"
proof -
  from InsertReviewLog_Inr [OF ins]
  show db1: "db1 = db\<lparr>db_log := db_log db @ [log_row p u ev s q e]\<rparr>" by simp
  from InsertReviewLog_Inr [OF ins] key show pk: "pk rl_ID (db_log db1)"
    by (auto simp: db1 pk_snoc image_iff)
  show "card_log db1 u (ev_CardID ev) = merged"
    if "sorted (map lr_order merged)"
      "mset merged = add_mset (logged_event ev) (mset (card_log db u (ev_CardID ev)))"
    by (rule card_log_append [where r = "log_row p u ev s q e" and ev = "logged_event ev", OF _ pk _ _ _ that])
      (simp_all add: db1 logged_event_def wrap16_rating [OF rating] pg_timestamp_id [OF at])
qed

lemma card_log_cong: "db_log db' = db_log db \<Longrightarrow> card_log db' u c = card_log db u c"
  by (simp add: card_log_def)

lemma in_order_consistent:
  assumes lib: "next_ignores_due lib" and key: "pk rl_ID (db_log db)"
    and con: "replay_consistent lib p db u (ev_CardID ev)"
    and at: "0 < ev_ReviewedAt ev" "Microsecond dvd ev_ReviewedAt ev"
      "ev_ReviewedAt ev \<notin> lr_ReviewedAt ` set (card_log db u (ev_CardID ev))"
    and prior: "prior = before_of (row_of us_key (u, ev_CardID ev) (db_states db))"
      "cs_LastReview prior = 0 \<or> cs_LastReview prior \<le> ev_ReviewedAt ev"
    and pos: "\<forall>r\<in>set (card_log db u (ev_CardID ev)). 0 < lr_ReviewedAt r"
    and q: "Schedule lib p prior (ev_Rating ev) (ev_ReviewedAt ev) = Inr q"
    and ins: "InsertReviewLog db (log_row p u ev prior q e) = Inr (True, db1)"
    and ups: "UpsertUserCardStateOnReview db1 (state_row u (ev_CardID ev) (o_Due q) (o_Stability q)
         (o_Difficulty q) (o_State q) (o_Reps q) (o_Lapses q) el
         (o_ScheduledDays q) (o_LearningSteps q) (ev_ReviewedAt ev)) = Inr (n, db')"
  shows "replay_consistent lib p db' u (ev_CardID ev)"
    and "card_log db' u (ev_CardID ev) = card_log db u (ev_CardID ev) @ [logged_event ev]"
proof -
  let ?c = "ev_CardID ev" and ?at = "ev_ReviewedAt ev"
  let ?rows = "card_log db u ?c" and ?row = "row_of us_key (u, ?c) (db_states db)"
  let ?new = "state_row u ?c (o_Due q) (o_Stability q) (o_Difficulty q) (o_State q) (o_Reps q)
    (o_Lapses q) el (o_ScheduledDays q) (o_LearningSteps q) ?at"
  from con obtain ps f where rep: "replayStates lib p ?rows = Inr (ps, f)"
    and match: "state_matches ?row ?rows f" by (auto simp: replay_consistent_def)
  note before = before_of_matches [OF rep match]
  from q have rating: "Rating_Valid (ev_Rating ev)" and byte: "0 \<le> o_State q" "o_State q < 256"
    using Schedule_state_byte by blast+
  have later: "lr_ReviewedAt r < ?at" if r: "r \<in> set ?rows" for r
  proof -
    from r have ne: "?rows \<noteq> []" by auto
    with pos have "0 < lr_ReviewedAt (last ?rows)" by simp
    with prior before(2) ne have "lr_ReviewedAt (last ?rows) \<le> ?at" by simp
    moreover have "lr_order r \<le> lr_order (last ?rows)"
      by (rule sorted_last_max [OF card_log_sorted r])
    ultimately have "lr_ReviewedAt r \<le> ?at" by (auto simp: lr_order_def less_eq_prod_def)
    with at(3) r show ?thesis by (metis imageI order_le_less)
  qed
  have sorted: "sorted (map lr_order (?rows @ [logged_event ev]))"
    using later by (auto simp: sorted_append lr_order_def logged_event_def intro: less_imp_le)
  note log = applied_log [OF ins key at(2) rating]
  have clog1: "card_log db1 u ?c = ?rows @ [logged_event ev]" by (rule log(3) [OF sorted]) simp
  from UpsertOnReview_Inr [OF ups] obtain t where t: "db' = db1\<lparr>db_states := t\<rparr>"
    and rows_t: "\<And>x. row_of us_key x t = (if x \<noteq> us_key ?new then row_of us_key x (db_states db1)
          else (case row_of us_key x (db_states db1) of
             None \<Rightarrow> Some ?new
           | Some old \<Rightarrow>
               if us_LastReview old = None \<or> last_review_before (us_LastReview old) (us_LastReview ?new)
               then Some (scheduling_update ?new old) else Some old))" by blast
  show clog: "card_log db' u ?c = ?rows @ [logged_event ev]"
    unfolding clog1 [symmetric] by (rule card_log_cong) (simp add: t)
  from q have "Schedule lib p f (ev_Rating ev) ?at = Inr q"
    using Schedule_same_but_due [OF lib] before(1) prior(1) by metis
  then have rep': "replayStates lib p (card_log db' u ?c) = Inr (ps @ [f], CardStateAt q ?at)"
    unfolding clog using replayStates_snoc [OF rep, of "logged_event ev"] by (simp add: logged_event_def)
  have guard: "us_LastReview old = None \<or> last_review_before (us_LastReview old) (us_LastReview ?new)"
    if "?row = Some old" for old
    using that match later [of "last ?rows"]
    by (cases "?rows = []") (simp_all add: state_matches_def last_review_before_def pg_timestamp_id at)
  have row': "row_of us_key (u, ?c) (db_states db') =
      (case ?row of None \<Rightarrow> Some ?new | Some old \<Rightarrow> Some (scheduling_update ?new old))"
    using guard rows_t [of "(u, ?c)"] by (simp add: t log(1) split: option.split)
  have "state_matches (row_of us_key (u, ?c) (db_states db')) (card_log db' u ?c) (CardStateAt q ?at)"
    unfolding row' clog
    using state_row_matches [of "CardStateAt q ?at" ?at ?new u ?c el "?rows @ [logged_event ev]"] byte at
    by (simp add: CardStateAt_def logged_event_def split: option.split)
  with rep' show "replay_consistent lib p db' u ?c" unfolding replay_consistent_def by blast
qed

lemma out_of_order_consistent:
  assumes key: "pk rl_ID (db_log db)"
    and at: "0 < ev_ReviewedAt ev" "Microsecond dvd ev_ReviewedAt ev"
    and pos: "\<forall>r\<in>set (card_log db u (ev_CardID ev)). 0 < lr_ReviewedAt r \<and> Microsecond dvd lr_ReviewedAt r"
    and m: "insertSorted (card_log db u (ev_CardID ev)) (logged_event ev) = (merged, idx)"
    and rep: "replayStates lib p merged = Inr (priors, final)"
    and q: "Schedule lib p (priors ! idx) (ev_Rating ev) (ev_ReviewedAt ev) = Inr q"
    and ins: "InsertReviewLog db (log_row p u ev prior q e) = Inr (True, db1)"
    and wr: "writeReplayedState db1 u (ev_CardID ev) (last priors) final (lr_ReviewedAt (last merged)) = Inr db'"
  shows "replay_consistent lib p db' u (ev_CardID ev)"
    and "card_log db' u (ev_CardID ev) = merged"
proof -
  let ?c = "ev_CardID ev" and ?at = "lr_ReviewedAt (last merged)"
  let ?new = "state_row u ?c (cs_Due final) (cs_Stability final) (cs_Difficulty final)
    (cs_State final) (cs_Reps final) (cs_Lapses final) (ElapsedDays (last priors) ?at)
    (cs_ScheduledDays final) (cs_LearningSteps final) ?at"
  note ins_s = insertSorted_spec [OF card_log_sorted m]
  have ne: "merged \<noteq> []" using ins_s(3) by auto
  from replay_from_last [OF rep [unfolded replayStates_def] ne] obtain q' t where
    f: "final = CardStateAt q' ?at" "Schedule lib p t (lr_Rating (last merged)) ?at = Inr q'" by blast
  from f have byte: "0 \<le> cs_State final" "cs_State final < 256" "cs_LastReview final = ?at"
    using Schedule_state_byte [OF f(2)] by (simp_all add: CardStateAt_def)
  have "set merged = insert (logged_event ev) (set (card_log db u ?c))"
    using ins_s(2) by (metis set_mset_add_mset_insert set_mset_mset)
  then have last: "0 < ?at" "Microsecond dvd ?at"
    using last_in_set [OF ne] pos at by (auto simp: logged_event_def)
  have rating: "Rating_Valid (ev_Rating ev)" using Schedule_state_byte [OF q] by simp
  note log = applied_log [OF ins key at(2) rating]
  have clog1: "card_log db1 u ?c = merged" by (rule log(3) [OF ins_s(1,2)])
  from wr have "UpsertUserCardStateFromReplay db1 ?new = Inr db'" by (simp add: writeReplayedState_def)
  from UpsertFromReplay_Inr [OF this] obtain t where t: "db' = db1\<lparr>db_states := t\<rparr>"
    and rows_t: "\<And>x. row_of us_key x t = (if x \<noteq> us_key ?new then row_of us_key x (db_states db1)
       else (case row_of us_key x (db_states db1) of
         None \<Rightarrow> Some ?new | Some old \<Rightarrow> Some (scheduling_update ?new old)))" by blast
  show clog: "card_log db' u ?c = merged"
    unfolding clog1 [symmetric] by (rule card_log_cong) (simp add: t)
  have "state_matches (row_of us_key (u, ?c) (db_states db')) (card_log db' u ?c) final"
    unfolding clog using rows_t [of "(u, ?c)"]
      state_row_matches [OF byte(1,2) last(2,1) refl byte(3) ne refl]
    by (simp add: t split: option.split)
  with rep show "replay_consistent lib p db' u ?c" unfolding replay_consistent_def clog by blast
qed

end
