(* ===== verification/Grade_Batch.thy ===== *)
theory Grade_Batch
  imports Grade_Lemmas
begin

text \<open>
  The properties of grading: what a batch may change (its frame), what it answers, that a retry
  changes nothing, and that the stored state of every card stays the replay of its log whatever
  order the reviews arrive in.
\<close>

section \<open>The frame of a batch\<close>

definition batch_frame :: "uuid \<Rightarrow> (review_log \<Rightarrow> bool) \<Rightarrow> review_db \<Rightarrow> review_db \<Rightarrow> bool" where
  "batch_frame u P db db' \<longleftrightarrow>
     db_params db' = db_params db \<and> db_cards db' = db_cards db \<and> db_access db' = db_access db
     \<and> db_refuses db' = db_refuses db
     \<and> (\<exists>new. db_log db' = db_log db @ new \<and> (\<forall>r\<in>set new. rl_UserID r = u \<and> P r))
     \<and> (pk rl_ID (db_log db) \<longrightarrow> pk rl_ID (db_log db'))
     \<and> (pk us_key (db_states db) \<longrightarrow> pk us_key (db_states db'))
     \<and> (\<forall>x. fst x \<noteq> u \<longrightarrow> row_of us_key x (db_states db') = row_of us_key x (db_states db))
     \<and> (\<forall>x r. row_of us_key x (db_states db) = Some r \<longrightarrow>
          (\<exists>r'. row_of us_key x (db_states db') = Some r' \<and> settings_of r' = settings_of r))"

lemma batch_frame_refl: "batch_frame u P db db"
  by (auto simp: batch_frame_def)

lemma batch_frame_trans: "batch_frame u P a b \<Longrightarrow> batch_frame u P b c \<Longrightarrow> batch_frame u P a c"
  unfolding batch_frame_def by (elim conjE exE, intro conjI) (simp_all, blast, metis)

interpretation batch: frame_rule "batch_frame u P" for u P
  by unfold_locales (fact batch_frame_refl, fact batch_frame_trans)

text \<open>One graded event: its own card's row, and at most one log row.\<close>

lemma gradeEvent_effect:
  assumes g: "gradeEvent lib db p u ev = Inr (after, st, db')"
  shows "st = StatusDuplicate \<and> db' = db \<and> ev_ID ev \<in> rl_ID ` set (db_log db)
    \<or> st = StatusApplied \<and> ev_ID ev \<notin> rl_ID ` set (db_log db) \<and> Rating_Valid (ev_Rating ev) \<and>
      (\<exists>t s q e. db' = db\<lparr>db_log := db_log db @ [log_row p u ev s q e], db_states := t\<rparr>
        \<and> (pk us_key (db_states db) \<longrightarrow> pk us_key t)
        \<and> (\<forall>x. x \<noteq> (u, ev_CardID ev) \<longrightarrow> row_of us_key x t = row_of us_key x (db_states db))
        \<and> (\<forall>x r. row_of us_key x (db_states db) = Some r \<longrightarrow>
             (\<exists>r'. row_of us_key x t = Some r' \<and> settings_of r' = settings_of r)))"
  using g
proof (cases rule: gradeEvent_cases)
  case duplicate
  then show ?thesis by simp
next
  case (in_order prior q db1 n)
  from InsertReviewLog_Inr [OF in_order(4)] have
    db1: "db1 = db\<lparr>db_log := db_log db @ [log_row p u ev prior q (ElapsedDays prior (ev_ReviewedAt ev))]\<rparr>"
    and new: "ev_ID ev \<notin> rl_ID ` set (db_log db)" by auto
  from upsert_frame [OF disjI1 [OF in_order(5)]] obtain t where t: "db' = db1\<lparr>db_states := t\<rparr>"
    "pk us_key (db_states db) \<longrightarrow> pk us_key t"
    "\<forall>x. x \<noteq> (u, ev_CardID ev) \<longrightarrow> row_of us_key x t = row_of us_key x (db_states db)"
    "\<forall>x r. row_of us_key x (db_states db) = Some r \<longrightarrow>
      (\<exists>r'. row_of us_key x t = Some r' \<and> settings_of r' = settings_of r)"
    unfolding db1 by auto
  have "Rating_Valid (ev_Rating ev)" using Schedule_state_byte [OF in_order(3)] by simp
  with t(2-4) in_order(6) new show ?thesis
    unfolding t(1) db1 by (intro disjI2 conjI exI [of _ t] exI [of _ prior] exI [of _ q]
        exI [of _ "ElapsedDays prior (ev_ReviewedAt ev)"]) simp_all
next
  case (out_of_order merged idx priors final q db1)
  from InsertReviewLog_Inr [OF out_of_order(5)] have
    db1: "db1 = db\<lparr>db_log := db_log db @ [log_row p u ev (priors ! idx) q (ElapsedDays (priors ! idx) (ev_ReviewedAt ev))]\<rparr>"
    and new: "ev_ID ev \<notin> rl_ID ` set (db_log db)" by auto
  from out_of_order(6) obtain e where e: "us_key e = (u, ev_CardID ev)"
    "UpsertUserCardStateFromReplay db1 e = Inr db'"
    unfolding writeReplayedState_def liftE_simps(3) by (metis state_row_key(1))
  from upsert_frame [OF disjI2 [OF e(2)]] obtain t where t: "db' = db1\<lparr>db_states := t\<rparr>"
    "pk us_key (db_states db) \<longrightarrow> pk us_key t"
    "\<forall>x. x \<noteq> (u, ev_CardID ev) \<longrightarrow> row_of us_key x t = row_of us_key x (db_states db)"
    "\<forall>x r. row_of us_key x (db_states db) = Some r \<longrightarrow>
      (\<exists>r'. row_of us_key x t = Some r' \<and> settings_of r' = settings_of r)"
    unfolding db1 e(1) by auto
  have "Rating_Valid (ev_Rating ev)" using Schedule_state_byte [OF out_of_order(4)] by simp
  with t(2-4) out_of_order(7) new show ?thesis
    unfolding t(1) db1 by (intro disjI2 conjI exI [of _ t] exI [of _ "priors ! idx"] exI [of _ q]
        exI [of _ "ElapsedDays (priors ! idx) (ev_ReviewedAt ev)"]) simp_all
qed

lemma gradeEvent_frame:
  assumes g: "gradeEvent lib db p u ev = Inr (after, st, db')"
    and P: "\<And>s q e. P (log_row p u ev s q e)"
  shows "batch_frame u P db db'" "ev_ID ev \<in> rl_ID ` set (db_log db')"
    "st \<in> {StatusApplied, StatusDuplicate}"
proof -
  from gradeEvent_effect [OF g] have "batch_frame u P db db' \<and> ev_ID ev \<in> rl_ID ` set (db_log db')
    \<and> st \<in> {StatusApplied, StatusDuplicate}"
  proof (elim disjE conjE exE)
    fix t s q e
    assume "db' = db\<lparr>db_log := db_log db @ [log_row p u ev s q e], db_states := t\<rparr>"
      "ev_ID ev \<notin> rl_ID ` set (db_log db)" "st = StatusApplied"
      "pk us_key (db_states db) \<longrightarrow> pk us_key t"
      "\<forall>x. x \<noteq> (u, ev_CardID ev) \<longrightarrow> row_of us_key x t = row_of us_key x (db_states db)"
      "\<forall>x r. row_of us_key x (db_states db) = Some r \<longrightarrow>
             (\<exists>r'. row_of us_key x t = Some r' \<and> settings_of r' = settings_of r)"
    then show ?thesis using P by (auto simp: batch_frame_def pk_snoc image_iff)
  qed (auto simp: batch_frame_refl)
  then show "batch_frame u P db db'" "ev_ID ev \<in> rl_ID ` set (db_log db')"
    "st \<in> {StatusApplied, StatusDuplicate}" by simp_all
qed

section \<open>The loops of a batch\<close>

text \<open>Results are filed under their event's id, and none is lost.\<close>

definition results_wf :: "results \<Rightarrow> bool" where
  "results_wf results \<longleftrightarrow> (\<forall>i r. results i = Some r \<longrightarrow> res_ID r = i)"

lemma plain_result_simps [simp]:
  "res_ID (plain_result ev st) = ev_ID ev" "res_Status (plain_result ev st) = st"
  by (simp_all add: plain_result_def)

lemma resultFor_simps [simp]:
  "res_ID (resultFor lib p ev st after now) = ev_ID ev"
  "res_Status (resultFor lib p ev st after now) = st"
  by (auto simp: resultFor_def Let_def split: option.split sum.split)

lemma results_wf_upd: "results_wf m \<Longrightarrow> res_ID r = i \<Longrightarrow> results_wf (m(i \<mapsto> r))"
  by (simp add: results_wf_def)

text \<open>The statuses of the events that were answered without looking at the log.\<close>

definition answered :: "Status set \<Rightarrow> results \<Rightarrow> bool" where
  "answered S m \<longleftrightarrow> results_wf m \<and> (\<forall>r\<in>ran m. res_Status r \<in> S)"

lemma answered_upd: "answered S m \<Longrightarrow> res_ID r = i \<Longrightarrow> res_Status r \<in> S \<Longrightarrow> answered S (m(i \<mapsto> r))"
  by (auto simp: answered_def results_wf_upd ran_def)

lemma answered_mono: "answered S m \<Longrightarrow> S \<subseteq> T \<Longrightarrow> answered T m"
  by (auto simp: answered_def)

text \<open>An event with its timestamp clamped.\<close>

definition clamped :: "gotime \<Rightarrow> Event \<Rightarrow> Event \<Rightarrow> bool" where
  "clamped now ev ev' \<longleftrightarrow> (\<exists>t. clampOrReject (ev_ReviewedAt ev) now = Some t \<and> ev' = ev\<lparr>ev_ReviewedAt := t\<rparr>)"

lemma clamp_loop_spec:
  assumes "clamp_loop now evs results = (results', live)" "answered {StatusRejected} results"
  shows "answered {StatusRejected} results' \<and> dom results \<subseteq> dom results'
    \<and> (\<forall>ev\<in>set evs. ev_ID ev \<in> dom results' \<or> ev_ID ev \<in> ev_ID ` set live)
    \<and> (\<forall>ev'\<in>set live. \<exists>ev\<in>set evs. clamped now ev ev')"
  using assms
proof (induction now evs results arbitrary: results' live rule: clamp_loop.induct)
  case (2 now ev evs results)
  show ?case
  proof (cases "clampOrReject (ev_ReviewedAt ev) now")
    case None
    with "2.prems" have "answered {StatusRejected} results' \<and> dom (results(ev_ID ev \<mapsto> plain_result ev StatusRejected)) \<subseteq> dom results'
        \<and> (\<forall>ev\<in>set evs. ev_ID ev \<in> dom results' \<or> ev_ID ev \<in> ev_ID ` set live)
        \<and> (\<forall>ev'\<in>set live. \<exists>ev\<in>set evs. clamped now ev ev')"
      by (intro "2.IH"(1) [OF None]) (simp_all add: answered_upd del: fun_upd_apply)
    then show ?thesis by auto
  next
    case (Some t)
    obtain m l where ml: "clamp_loop now evs results = (m, l)" by force
    with "2.prems" Some have r: "results' = m" "live = ev\<lparr>ev_ReviewedAt := t\<rparr> # l" by simp_all
    from "2.IH"(2) [OF Some ml "2.prems"(2)] Some show ?thesis
      by (auto simp: r clamped_def)
  qed
qed auto

lemma authorise_loop_spec:
  assumes "authorise_loop deckOf evs results = (results', toGrade)"
    "answered {StatusRejected, StatusForbidden} results"
  shows "answered {StatusRejected, StatusForbidden} results' \<and> dom results \<subseteq> dom results'
    \<and> (\<forall>ev\<in>set evs. ev_ID ev \<in> dom results' \<or> ev_ID ev \<in> ev_ID ` set toGrade)
    \<and> toGrade = filter (\<lambda>ev. deckOf (ev_CardID ev) \<noteq> None) evs"
  using assms
proof (induction deckOf evs results arbitrary: results' toGrade rule: authorise_loop.induct)
  case (2 deckOf ev evs results)
  show ?case
  proof (cases "deckOf (ev_CardID ev) = None")
    case True
    with "2.prems" have "answered {StatusRejected, StatusForbidden} results'
        \<and> dom (results(ev_ID ev \<mapsto> plain_result ev StatusForbidden)) \<subseteq> dom results'
        \<and> (\<forall>ev\<in>set evs. ev_ID ev \<in> dom results' \<or> ev_ID ev \<in> ev_ID ` set toGrade)
        \<and> toGrade = filter (\<lambda>ev. deckOf (ev_CardID ev) \<noteq> None) evs"
      by (intro "2.IH"(1) [OF True]) (simp_all add: answered_upd del: fun_upd_apply)
    with True show ?thesis by auto
  next
    case False
    obtain m l where ml: "authorise_loop deckOf evs results = (m, l)" by force
    with "2.prems" False have r: "results' = m" "toGrade = ev # l" by simp_all
    from "2.IH"(2) [OF False ml "2.prems"(2)] False show ?thesis by (auto simp: r)
  qed
qed auto

text \<open>A result that says an event is in the log is right.\<close>

definition log_ids :: "review_db \<Rightarrow> uuid set" where
  "log_ids db = rl_ID ` set (db_log db)"

definition logged_results :: "review_db \<Rightarrow> results \<Rightarrow> bool" where
  "logged_results db m \<longleftrightarrow>
     (\<forall>r\<in>ran m. res_Status r \<in> {StatusApplied, StatusDuplicate} \<longrightarrow> res_ID r \<in> log_ids db)"

lemma logged_results_upd:
  "logged_results db m \<Longrightarrow> res_ID r \<in> log_ids db \<Longrightarrow> logged_results db (m(i \<mapsto> r))"
  by (auto simp: logged_results_def ran_def)

lemma logged_resultsD:
  "logged_results db m \<Longrightarrow> r \<in> ran m \<Longrightarrow> res_Status r \<in> {StatusApplied, StatusDuplicate} \<Longrightarrow>
     res_ID r \<in> log_ids db"
  unfolding logged_results_def by (rule mp) (rule bspec)

definition dup_inv :: "fsrs_lib \<Rightarrow> review_db \<Rightarrow> uuid \<Rightarrow> ParamsCache \<times> results \<times> Event list \<Rightarrow> bool" where
  "dup_inv lib db u s \<longleftrightarrow> (case s of (cache, results, fresh) \<Rightarrow>
     cache_ok lib db u cache \<and> logged_results db results
     \<and> answered {StatusRejected, StatusForbidden, StatusDuplicate} results)"

lemma dup_step_spec:
  assumes "dup_step lib db u now deckOf existing (cache, results, fresh) ev = Inr (cache', results', fresh')"
    and "dup_inv lib db u (cache, results, fresh)" and "set existing \<subseteq> log_ids db"
  shows "dup_inv lib db u (cache', results', fresh') \<and> dom results \<subseteq> dom results'
    \<and> fresh' = fresh @ (if ev_ID ev \<in> set existing then [] else [ev])
    \<and> (ev_ID ev \<in> set existing \<longrightarrow> ev_ID ev \<in> dom results')"
  using assms
  by (auto simp: dup_step_def dup_inv_def duplicateOf_def bindE_eq_Inr answered_upd logged_results_upd
      subset_eq dest: ParamsCache_Get_Inr split: if_splits)

lemma dup_loop_spec:
  assumes "foldE (dup_step lib db u now deckOf existing) (cache, results, fresh) evs = Inr (cache', results', fresh')"
    and "dup_inv lib db u (cache, results, fresh)" and "set existing \<subseteq> log_ids db"
  shows "dup_inv lib db u (cache', results', fresh') \<and> dom results \<subseteq> dom results'
    \<and> fresh' = fresh @ filter (\<lambda>ev. ev_ID ev \<notin> set existing) evs
    \<and> (\<forall>ev\<in>set evs. ev_ID ev \<in> dom results' \<or> ev_ID ev \<in> ev_ID ` set fresh')"
  using assms(1,2)
proof (induction evs arbitrary: cache results fresh)
  case (Cons ev evs)
  from Cons.prems(1) obtain c m l where
    step: "dup_step lib db u now deckOf existing (cache, results, fresh) ev = Inr (c, m, l)"
    and rest: "foldE (dup_step lib db u now deckOf existing) (c, m, l) evs = Inr (cache', results', fresh')"
    by (auto simp: bindE_eq_Inr)
  note s = dup_step_spec [OF step Cons.prems(2) assms(3)]
  note r = Cons.IH [OF rest conjunct1 [OF s]]
  from s r show ?case by auto
qed auto

lemma acquireLocks_same: "acquireLocks LockCardForGrade db ks = Inr db' \<Longrightarrow> db' = db"
  by (induction ks) (auto simp: LockCardForGrade_def bindE_eq_Inr)

definition studyable :: "review_db \<Rightarrow> uuid \<Rightarrow> uuid \<Rightarrow> uuid \<Rightarrow> bool" where
  "studyable db u c d \<longleftrightarrow> (\<exists>k\<in>set (db_cards db). sc_ID k = c \<and> sc_DeckID k = d \<and>
     (\<exists>a\<in>set (db_access db). sa_DeckID a = d \<and> sa_UserID a = u \<and> sa_can_view a \<and> sa_can_study a))"

lemma deck_map_aux: "foldl (\<lambda>m (c, d). m(c \<mapsto> d)) m xs c = Some d \<Longrightarrow> m c = Some d \<or> (c, d) \<in> set xs"
proof (induction xs arbitrary: m)
  case (Cons x xs)
  obtain a b where x: "x = (a, b)" by force
  from Cons.prems have "foldl (\<lambda>m (c, d). m(c \<mapsto> d)) (m(a \<mapsto> b)) xs c = Some d"
    by (simp add: x del: fun_upd_apply)
  from Cons.IH [OF this] show ?case by (auto simp: x split: if_splits)
qed simp

lemma deck_map_studyable:
  assumes "ListStudyableCards db u ids = Inr rows" "deck_map rows c = Some d"
  shows "studyable db u c d"
proof -
  from deck_map_aux [of Map.empty rows c d] assms(2) have "(c, d) \<in> set rows"
    by (auto simp: deck_map_def)
  with assms(1) show ?thesis by (auto simp: ListStudyableCards_def studyable_def)
qed

text \<open>How a batch ends: either nothing was left to grade, or the fresh events were graded in order.\<close>

abbreviation screened :: "Status set" where
  "screened \<equiv> {StatusRejected, StatusForbidden, StatusDuplicate}"

definition batch_events :: "review_db \<Rightarrow> uuid \<Rightarrow> gotime \<Rightarrow> Event list \<Rightarrow> (uuid \<Rightarrow> uuid option) \<Rightarrow> Event list \<Rightarrow> bool" where
  "batch_events db u now evs deckOf fresh \<longleftrightarrow> (\<forall>ev\<in>set fresh.
     (\<exists>ev0\<in>set evs. clamped (time_Truncate now Microsecond) ev0 ev) \<and> ev_ID ev \<notin> log_ids db
     \<and> (\<exists>d. deckOf (ev_CardID ev) = Some d \<and> studyable db u (ev_CardID ev) d))"

lemma cover_trans: "A \<subseteq> X \<union> B \<Longrightarrow> X \<subseteq> Y \<Longrightarrow> B \<subseteq> Y \<union> C \<Longrightarrow> A \<subseteq> Y \<union> C"
  by blast

lemma cover_image: "\<forall>x\<in>A. f x \<in> X \<or> f x \<in> B \<Longrightarrow> f ` A \<subseteq> X \<union> B"
  by blast

lemma GradeBatch_cases:
  assumes g: "GradeBatch lib db u now evs = Inr (rs, db')"
  obtains (unchanged) results where "db' = db" "rs = orderedResults (map ev_ID evs) results"
      "answered screened results" "logged_results db results" "ev_ID ` set evs \<subseteq> dom results"
    | (graded) cache results0 cache' results fresh deckOf where
      "foldE (grade_step lib u (time_Truncate now Microsecond) deckOf) (cache, results0, db)
         (sort_key ev_order fresh) = Inr (cache', results, db')"
      "rs = orderedResults (map ev_ID evs) results" "cache_ok lib db u cache"
      "answered screened results0" "logged_results db results0"
      "ev_ID ` set evs \<subseteq> dom results0 \<union> ev_ID ` set fresh" "fresh \<noteq> []"
      "batch_events db u now evs deckOf fresh"
proof -
  let ?now = "time_Truncate now Microsecond"
  obtain m0 live where c: "clamp_loop ?now evs Map.empty = (m0, live)" by force
  have "answered {StatusRejected} Map.empty" by (simp add: answered_def results_wf_def)
  note cs = clamp_loop_spec [OF c this]
  have "logged_results db m0" using cs by (auto simp: answered_def logged_results_def)
  show thesis
  proof (cases "live = []")
    case True
    with g c have rs: "rs = orderedResults (map ev_ID evs) m0" and db: "db' = db"
      by (simp_all add: GradeBatch_def Let_def)
    have "answered screened m0" by (rule answered_mono [OF conjunct1 [OF cs]]) simp
    moreover have "ev_ID ` set evs \<subseteq> dom m0" using cs True by auto
    ultimately show thesis by (rule unchanged [OF db rs _ \<open>logged_results db m0\<close>])
  next
    case live: False
    from g c live obtain rows where rows: "ListStudyableCards db u (dedup (map ev_CardID live)) = Inr rows"
      by (auto simp: GradeBatch_def Let_def bindE_eq_Inr)
    obtain m1 toGrade where a: "authorise_loop (deck_map rows) live m0 = (m1, toGrade)" by force
    have "answered {StatusRejected, StatusForbidden} m0"
      by (rule answered_mono [OF conjunct1 [OF cs]]) simp
    note as = authorise_loop_spec [OF a this]
    then have ans1: "answered screened m1" by (elim conjE) (erule answered_mono, simp)
    have log1: "logged_results db m1" using as by (auto simp: answered_def logged_results_def)
    have dom1: "ev_ID ` set evs \<subseteq> dom m1 \<union> ev_ID ` set toGrade"
      by (rule cover_trans [OF cover_image [OF cs [THEN conjunct2, THEN conjunct2, THEN conjunct1]]
            as [THEN conjunct2, THEN conjunct1]
            cover_image [OF as [THEN conjunct2, THEN conjunct2, THEN conjunct1]]])
    show thesis
    proof (cases "toGrade = []")
      case True
      with g c live rows a have rs: "rs = orderedResults (map ev_ID evs) m1" and db: "db' = db"
        by (simp_all add: GradeBatch_def Let_def)
      from dom1 True have "ev_ID ` set evs \<subseteq> dom m1" by simp
      then show thesis by (rule unchanged [OF db rs ans1 log1])
    next
      case False
      from g c live rows a False obtain dbl existing where
        l: "acquireLocks LockCardForGrade db (lockKeys u toGrade) = Inr dbl"
        and ex: "ListExistingReviewLogIDs dbl (map ev_ID toGrade) = Inr existing"
        by (auto simp: GradeBatch_def Let_def bindE_eq_Inr)
      from acquireLocks_same [OF l] have dbl: "dbl = db" .
      from g c live rows a False l ex obtain cache m2 fresh where
        d: "foldE (dup_step lib db u ?now (deck_map rows) existing) (NewParamsCache, m1, []) toGrade
          = Inr (cache, m2, fresh)"
        and rest: "(if fresh = [] then Inr (orderedResults (map ev_ID evs) m2, db)
          else bindE (foldE (grade_step lib u ?now (deck_map rows)) (cache, m2, db) (sort_key ev_order fresh))
            (\<lambda>(_, results, db). Inr (orderedResults (map ev_ID evs) results, db))) = Inr (rs, db')"
        unfolding dbl by (auto simp: GradeBatch_def Let_def bindE_eq_Inr)
      have exist: "set existing = set (map ev_ID toGrade) \<inter> log_ids db"
        using ex unfolding dbl by (auto simp: ListExistingReviewLogIDs_def log_ids_def)
      have "dup_inv lib db u (NewParamsCache, m1, [])" by (simp add: dup_inv_def ans1 log1)
      note dl = dup_loop_spec [OF d this equalityD1 [OF exist, THEN order_trans, OF Int_lower2]]
      note dinv = dl [THEN conjunct1]
      have fresh: "fresh = filter (\<lambda>ev. ev_ID ev \<notin> set existing) toGrade"
        using dl [THEN conjunct2, THEN conjunct2, THEN conjunct1] by simp
      have dom: "ev_ID ` set evs \<subseteq> dom m2 \<union> ev_ID ` set fresh"
        by (rule cover_trans [OF dom1 dl [THEN conjunct2, THEN conjunct1]
              cover_image [OF dl [THEN conjunct2, THEN conjunct2, THEN conjunct2]]])
      from dinv have inv: "cache_ok lib db u cache" "logged_results db m2" "answered screened m2"
        by (simp_all add: dup_inv_def)
      show thesis
      proof (cases "fresh = []")
        case True
        with rest have rs: "rs = orderedResults (map ev_ID evs) m2" and db: "db' = db" by simp_all
        from dom True have "ev_ID ` set evs \<subseteq> dom m2" by simp
        then show thesis by (rule unchanged [OF db rs inv(3,2)])
      next
        case nf: False
        with rest obtain cache' results where fold: "foldE (grade_step lib u ?now (deck_map rows)) (cache, m2, db)
            (sort_key ev_order fresh) = Inr (cache', results, db')"
          and rs: "rs = orderedResults (map ev_ID evs) results" by (auto simp: bindE_eq_Inr)
        have "batch_events db u now evs (deck_map rows) fresh"
          unfolding batch_events_def
        proof (intro ballI conjI)
          fix ev assume ev: "ev \<in> set fresh"
          then have t: "ev \<in> set toGrade" "ev_ID ev \<notin> set existing" by (auto simp: fresh)
          with exist show "ev_ID ev \<notin> log_ids db" by auto
          from t(1) as have "ev \<in> set live" "deck_map rows (ev_CardID ev) \<noteq> None" by auto
          with cs deck_map_studyable [OF rows] show "\<exists>ev0\<in>set evs. clamped ?now ev0 ev"
            "\<exists>d. deck_map rows (ev_CardID ev) = Some d \<and> studyable db u (ev_CardID ev) d" by auto
        qed
        then show thesis by (rule graded [OF fold rs inv(1,3,2) dom nf])
      qed
    qed
  qed
qed

section \<open>The grading loop\<close>

lemma grade_step_Inr:
  assumes "grade_step lib u now deckOf (cache, results, db) ev = Inr (cache', results', db')"
  obtains p after st where "ParamsCache_Get lib db cache u (the (deckOf (ev_CardID ev))) = Inr (p, cache')"
    "gradeEvent lib db p u ev = Inr (after, st, db')"
    "results' = results(ev_ID ev \<mapsto> resultFor lib p ev st after now)"
  using assms by (auto simp: grade_step_def bindE_eq_Inr)

lemma batch_frame_params: "batch_frame u P db db' \<Longrightarrow> db_params db' = db_params db \<and> db_refuses db' = db_refuses db"
  by (simp add: batch_frame_def)

lemma batch_frame_ids: "batch_frame u P db db' \<Longrightarrow> log_ids db \<subseteq> log_ids db'"
  by (auto simp: batch_frame_def log_ids_def)

lemma logged_results_mono: "logged_results db m \<Longrightarrow> log_ids db \<subseteq> log_ids db' \<Longrightarrow> logged_results db' m"
  by (auto simp: logged_results_def)

lemma grade_loop_spec:
  assumes "foldE (grade_step lib u now deckOf) (cache, results, db) evs = Inr (cache', results', db')"
    and "answered UNIV results" "logged_results db results"
    and "\<And>ev p s q e. ev \<in> set evs \<Longrightarrow> P (log_row p u ev s q e)"
  shows "batch_frame u P db db' \<and> answered UNIV results' \<and> logged_results db' results'
    \<and> dom results' = dom results \<union> ev_ID ` set evs"
  using assms
proof (induction evs arbitrary: cache results db)
  case Nil
  then show ?case by (simp add: batch_frame_refl)
next
  case (Cons ev evs)
  from Cons.prems(1) obtain c m d where
    step: "grade_step lib u now deckOf (cache, results, db) ev = Inr (c, m, d)"
    and rest: "foldE (grade_step lib u now deckOf) (c, m, d) evs = Inr (cache', results', db')"
    by (auto simp: bindE_eq_Inr)
  from grade_step_Inr [OF step] obtain p after st where
    ge: "gradeEvent lib db p u ev = Inr (after, st, d)"
    and m: "m = results(ev_ID ev \<mapsto> resultFor lib p ev st after now)" by blast
  have P: "\<And>s q e. P (log_row p u ev s q e)" by (rule Cons.prems(4)) simp
  note fr = gradeEvent_frame [of lib db p u ev after st d P, OF ge P]
  from Cons.prems(2) have "answered UNIV m" unfolding m by (intro answered_upd) simp_all
  moreover have "logged_results d m"
    unfolding m using logged_results_mono [OF Cons.prems(3) batch_frame_ids [OF fr(1)]] fr(2)
    by (intro logged_results_upd) (simp_all add: log_ids_def)
  ultimately have "batch_frame u P d db' \<and> answered UNIV results' \<and> logged_results db' results'
    \<and> dom results' = dom m \<union> ev_ID ` set evs"
    by (rule Cons.IH [OF rest]) (rule Cons.prems(4), simp)
  with fr(1) show ?case by (auto simp: m intro: batch_frame_trans)
qed

text \<open>What a new row of the log must be.\<close>

definition new_row :: "review_db \<Rightarrow> uuid \<Rightarrow> gotime \<Rightarrow> Event list \<Rightarrow> review_log \<Rightarrow> bool" where
  "new_row db u now evs r \<longleftrightarrow> rl_AnkiID r = None \<and> rl_ID r \<notin> log_ids db
     \<and> (\<exists>d. studyable db u (rl_CardID r) d)
     \<and> (\<exists>ev\<in>set evs. rl_ID r = ev_ID ev \<and> rl_CardID r = ev_CardID ev)
     \<and> now - rejectPastWindow - Microsecond < rl_ReviewedAt r \<and> rl_ReviewedAt r \<le> now"

lemma clampOrReject_bounds:
  assumes "clampOrReject t now = Some t'"
  shows "time_Truncate now Microsecond - rejectPastWindow \<le> t'" "t' \<le> time_Truncate now Microsecond"
    "Microsecond dvd t'" "t' \<le> time_Truncate t Microsecond"
  using assms by (auto simp: clampOrReject_def Let_def time_Truncate_dvd rejectPastWindow_def Hour_def
      split: if_splits)

lemma truncate_bounds: "now - Microsecond < time_Truncate now Microsecond"
  "time_Truncate now Microsecond \<le> now"
proof -
  have "now mod Microsecond < Microsecond" by (simp add: Microsecond_def)
  then show "now - Microsecond < time_Truncate now Microsecond" by (simp add: time_Truncate_def)
  show "time_Truncate now Microsecond \<le> now" by (rule time_Truncate_le) (simp add: Microsecond_def)
qed

lemma batch_events_new_row:
  assumes "batch_events db u now evs deckOf fresh" "ev \<in> set fresh"
  shows "new_row db u now evs (log_row p u ev s q e)"
proof -
  from assms obtain ev0 t where ev0: "ev0 \<in> set evs" "ev = ev0\<lparr>ev_ReviewedAt := t\<rparr>"
    "clampOrReject (ev_ReviewedAt ev0) (time_Truncate now Microsecond) = Some t"
    by (auto simp: batch_events_def clamped_def)
  note b = clampOrReject_bounds [OF ev0(3), simplified]
  have "pg_timestamp t = t" using b(3) by (simp add: pg_timestamp_id)
  moreover have "now - rejectPastWindow - Microsecond < t" "t \<le> now"
    using b(1,2) truncate_bounds [of now] by linarith+
  moreover have "ev_ID ev \<notin> log_ids db" "\<exists>d. studyable db u (ev_CardID ev) d"
    using assms by (auto simp: batch_events_def)
  ultimately show ?thesis using ev0(1,2) by (auto simp: new_row_def log_row_def)
qed

lemma sort_key_set [simp]: "ev \<in> set (sort_key ev_order fresh) \<longleftrightarrow> ev \<in> set fresh"
  by simp

lemma GradeBatch_spec:
  assumes g: "GradeBatch lib db u now evs = Inr (rs, db')"
  shows "batch_frame u (new_row db u now evs) db db'
    \<and> (\<exists>results. rs = orderedResults (map ev_ID evs) results \<and> results_wf results
      \<and> logged_results db' results \<and> ev_ID ` set evs \<subseteq> dom results)"
  using g
proof (cases rule: GradeBatch_cases)
  case (unchanged results)
  then show ?thesis by (auto simp: batch_frame_refl answered_def)
next
  case (graded cache results0 cache' results fresh deckOf)
  have "answered UNIV results0" by (rule answered_mono [OF graded(4)]) simp
  from grade_loop_spec [OF graded(1) this graded(5), of "new_row db u now evs"]
  have "batch_frame u (new_row db u now evs) db db' \<and> answered UNIV results \<and> logged_results db' results
    \<and> dom results = dom results0 \<union> ev_ID ` set fresh"
    using batch_events_new_row [OF graded(8)] by simp
  with graded(2,6) show ?thesis by (intro conjI exI [of _ results]) (simp_all add: answered_def)
qed

lemma orderedResults_ids:
  assumes "results_wf results" "ev_ID ` set evs \<subseteq> dom results"
  shows "map res_ID (orderedResults (map ev_ID evs) results) = map ev_ID evs"
    and "set (orderedResults (map ev_ID evs) results) \<subseteq> ran results"
proof -
  have ev: "\<exists>r. results (ev_ID e) = Some r \<and> res_ID r = ev_ID e" if "e \<in> set evs" for e
    using that assms by (auto simp: results_wf_def)
  then show "map res_ID (orderedResults (map ev_ID evs) results) = map ev_ID evs"
    by (fastforce simp: orderedResults_def)
  from ev show "set (orderedResults (map ev_ID evs) results) \<subseteq> ran results"
    by (fastforce simp: orderedResults_def ran_def)
qed

section \<open>Properties of a batch\<close>

text \<open>C3: the log is append-only under grading, and a batch is confined to its caller: the new rows
  carry the caller's id, an event id of the batch that was not in the log, a card the caller may
  study and a time between 30 days ago and now; no row of another user changes; suspension, burying
  and flags survive; the primary keys stay keys.\<close>

theorem GradeBatch_append_only:
  assumes "GradeBatch lib db u now evs = Inr (rs, db')"
  shows "(\<exists>new. db_log db' = db_log db @ new \<and> (\<forall>r\<in>set new. rl_UserID r = u \<and> new_row db u now evs r))
    \<and> (\<forall>x. fst x \<noteq> u \<longrightarrow> row_of us_key x (db_states db') = row_of us_key x (db_states db))
    \<and> (\<forall>x r. row_of us_key x (db_states db) = Some r \<longrightarrow>
          (\<exists>r'. row_of us_key x (db_states db') = Some r' \<and> settings_of r' = settings_of r))
    \<and> (pk rl_ID (db_log db) \<longrightarrow> pk rl_ID (db_log db'))
    \<and> (pk us_key (db_states db) \<longrightarrow> pk us_key (db_states db'))"
  using GradeBatch_spec [OF assms] unfolding batch_frame_def by blast

text \<open>C5: the response has one result per submitted event, in request order, and an event is
  answered \<open>applied\<close> or \<open>duplicate\<close> only if its id is in the log when the batch ends.\<close>

theorem GradeBatch_answers:
  assumes "GradeBatch lib db u now evs = Inr (rs, db')"
  shows "map res_ID rs = map ev_ID evs
    \<and> (\<forall>r\<in>set rs. res_Status r \<in> {StatusApplied, StatusDuplicate} \<longrightarrow> res_ID r \<in> log_ids db')"
proof -
  from GradeBatch_spec [OF assms] obtain results where
    r: "rs = orderedResults (map ev_ID evs) results" "results_wf results"
      "logged_results db' results" "ev_ID ` set evs \<subseteq> dom results" by blast
  from orderedResults_ids [OF r(2,4)] r(1,3) show ?thesis by (auto simp: logged_results_def)
qed

text \<open>C4: a retry changes nothing: submitting again any events that an earlier batch answered
  \<open>applied\<close> or \<open>duplicate\<close>, at any later time, leaves the database as it is and answers no
  \<open>applied\<close>.\<close>

theorem GradeBatch_retry:
  assumes first: "GradeBatch lib db u now evs = Inr (rs, db')"
    and sub: "ev_ID ` set evs' \<subseteq> {res_ID r |r. r \<in> set rs \<and> res_Status r \<in> {StatusApplied, StatusDuplicate}}"
    and again: "GradeBatch lib db' u now' evs' = Inr (rs', db'')"
  shows "db'' = db' \<and> (\<forall>r\<in>set rs'. res_Status r \<noteq> StatusApplied)"
proof -
  from GradeBatch_spec [OF first] obtain results where
    r: "rs = orderedResults (map ev_ID evs) results" "results_wf results"
      "logged_results db' results" "ev_ID ` set evs \<subseteq> dom results" by blast
  have "set rs \<subseteq> ran results" unfolding r(1) by (rule orderedResults_ids(2) [OF r(2,4)])
  then have ok: "res_ID r \<in> log_ids db'" if "r \<in> set rs" "res_Status r \<in> {StatusApplied, StatusDuplicate}" for r
    by (rule logged_resultsD [OF r(3) subsetD that(2)]) (rule that(1))
  have logged: "ev_ID ` set evs' \<subseteq> log_ids db'"
  proof
    fix i assume "i \<in> ev_ID ` set evs'"
    then have "i \<in> {res_ID r |r. r \<in> set rs \<and> res_Status r \<in> {StatusApplied, StatusDuplicate}}"
      by (rule subsetD [OF sub])
    then obtain r where "i = res_ID r" "r \<in> set rs" "res_Status r \<in> {StatusApplied, StatusDuplicate}"
      by (elim CollectE exE conjE)
    with ok show "i \<in> log_ids db'" by simp
  qed
  from again show ?thesis
  proof (cases rule: GradeBatch_cases)
    case (unchanged results)
    then have "results_wf results" by (simp add: answered_def)
    from orderedResults_ids(2) [OF this unchanged(5)] have "set rs' \<subseteq> ran results"
      unfolding unchanged(2) .
    moreover from unchanged(3) have "\<forall>r\<in>ran results. res_Status r \<in> screened"
      by (simp add: answered_def)
    ultimately have "res_Status r \<in> screened" if "r \<in> set rs'" for r
      using that by (metis subsetD)
    with unchanged(1) show ?thesis by fastforce
  next
    case (graded cache results0 cache' results fresh deckOf)
    then obtain ev where "ev \<in> set fresh" by (cases fresh) auto
    with graded(8) obtain ev0 where "ev0 \<in> set evs'" "ev_ID ev = ev_ID ev0" "ev_ID ev \<notin> log_ids db'"
      by (auto simp: batch_events_def clamped_def)
    moreover from this(1) have "ev_ID ev0 \<in> log_ids db'" by (intro subsetD [OF logged] imageI)
    ultimately show ?thesis by simp
  qed
qed

text \<open>A deck, a student and a batch of two grades of one card, the second event older than the first
  and one event of a card that nobody shares.\<close>

definition demo_events :: "Event list" where
  "demo_events =
     [\<lparr>ev_ID = 101, ev_CardID = 5, ev_Rating = 3, ev_ReviewedAt = 40 * Day, ev_DurationMs = Some 900\<rparr>,
      \<lparr>ev_ID = 100, ev_CardID = 5, ev_Rating = 1, ev_ReviewedAt = 39 * Day, ev_DurationMs = None\<rparr>,
      \<lparr>ev_ID = 102, ev_CardID = 77, ev_Rating = 3, ev_ReviewedAt = 40 * Day, ev_DurationMs = None\<rparr>]"

definition demo_store :: review_db where
  "demo_store = demo_db\<lparr>db_states := []\<rparr>"

text \<open>The response and the log that this batch gives, and a second submission of it a day later.\<close>

definition demo_answer :: "Result list \<times> review_db" where
  "demo_answer = (case GradeBatch demo_lib demo_store 1 (41 * Day) demo_events of
     Inr r \<Rightarrow> r | Inl _ \<Rightarrow> ([], demo_store))"

lemma demo_batch: "GradeBatch demo_lib demo_store 1 (41 * Day) demo_events = Inr demo_answer"
proof -
  have "isl (GradeBatch demo_lib demo_store 1 (41 * Day) demo_events) = False" by code_simp
  then show ?thesis by (auto simp: demo_answer_def split: sum.splits)
qed

lemma demo_batch_pair:
  "GradeBatch demo_lib demo_store 1 (41 * Day) demo_events = Inr (fst demo_answer, snd demo_answer)"
  by (simp add: demo_batch)

lemma demo_answer_status:
  "map res_Status (fst demo_answer) = [StatusApplied, StatusApplied, StatusForbidden]"
  "map res_ID (fst demo_answer) = [101, 100, 102]"
  by code_simp+

lemma GradeBatch_append_only_witness:
  "\<exists>new. db_log (snd demo_answer) = db_log demo_store @ new
     \<and> list_all (\<lambda>r. rl_UserID r = 1 \<and> new_row demo_store 1 (41 * Day) demo_events r) new
     \<and> map rl_ID (db_log (snd demo_answer)) = [100, 101]"
proof -
  have ids: "map rl_ID (db_log (snd demo_answer)) = [100, 101]" by code_simp
  from GradeBatch_append_only [OF demo_batch_pair, THEN conjunct1] obtain new where
    "db_log (snd demo_answer) = db_log demo_store @ new"
    "\<forall>r\<in>set new. rl_UserID r = 1 \<and> new_row demo_store 1 (41 * Day) demo_events r" by (elim exE conjE)
  with ids show ?thesis by (intro exI [of _ new] conjI) (simp_all add: list_all_iff)
qed

lemma GradeBatch_answers_witness:
  "map res_ID (fst demo_answer) = map ev_ID demo_events
     \<and> {100, 101} \<subseteq> log_ids (snd demo_answer)"
proof -
  have "\<exists>r\<in>set (fst demo_answer). res_ID r = 101 \<and> res_Status r = StatusApplied"
    "\<exists>r\<in>set (fst demo_answer). res_ID r = 100 \<and> res_Status r = StatusApplied" by code_simp+
  with GradeBatch_answers [OF demo_batch_pair] show ?thesis by auto
qed

definition demo_again :: "Result list \<times> review_db" where
  "demo_again = (case GradeBatch demo_lib (snd demo_answer) 1 (42 * Day) (take 2 demo_events) of
     Inr r \<Rightarrow> r | Inl _ \<Rightarrow> ([], demo_store))"

lemma GradeBatch_retry_witness:
  "snd demo_again = snd demo_answer
     \<and> map res_Status (fst demo_again) = [StatusDuplicate, StatusDuplicate]"
proof -
  have "isl (GradeBatch demo_lib (snd demo_answer) 1 (42 * Day) (take 2 demo_events)) = False" by code_simp
  then have again: "GradeBatch demo_lib (snd demo_answer) 1 (42 * Day) (take 2 demo_events)
      = Inr (fst demo_again, snd demo_again)"
    by (auto simp: demo_again_def split: sum.splits)
  have "\<exists>r\<in>set (fst demo_answer). res_ID r = 101 \<and> res_Status r = StatusApplied"
    "\<exists>r\<in>set (fst demo_answer). res_ID r = 100 \<and> res_Status r = StatusApplied" by code_simp+
  then have sub: "ev_ID ` set (take 2 demo_events)
      \<subseteq> {res_ID r |r. r \<in> set (fst demo_answer) \<and> res_Status r \<in> {StatusApplied, StatusDuplicate}}"
    by (auto simp: demo_events_def)
  from GradeBatch_retry [OF demo_batch_pair sub again]
  have "snd demo_again = snd demo_answer" by simp
  moreover have "map res_Status (fst demo_again) = [StatusDuplicate, StatusDuplicate]" by code_simp
  ultimately show ?thesis by simp
qed

end
