(* ===== verification/Grade_Order.thy ===== *)
theory Grade_Order
  imports Grade_Batch
begin

text \<open>
  The stored schedule of a card is a function of its log: grading keeps it equal to the replay of the
  log, and so the order in which a student's reviews reach the server does not matter.
\<close>

text \<open>Log timestamps are positive and whole microseconds, as the column keeps them.\<close>

definition log_times_ok :: "review_db \<Rightarrow> bool" where
  "log_times_ok db \<longleftrightarrow> (\<forall>r\<in>set (db_log db). 0 < rl_ReviewedAt r \<and> Microsecond dvd rl_ReviewedAt r)"

definition schedule_inv :: "fsrs_lib \<Rightarrow> Params \<Rightarrow> uuid \<Rightarrow> uuid \<Rightarrow> review_db \<Rightarrow> bool" where
  "schedule_inv lib p u c db \<longleftrightarrow>
     pk rl_ID (db_log db) \<and> log_times_ok db \<and> replay_consistent lib p db u c"

text \<open>A review that the log does not have at that very instant.\<close>

definition fresh_review :: "review_db \<Rightarrow> uuid \<Rightarrow> Event \<Rightarrow> bool" where
  "fresh_review db u ev \<longleftrightarrow> 0 < ev_ReviewedAt ev \<and> Microsecond dvd ev_ReviewedAt ev
     \<and> ev_ReviewedAt ev \<notin> lr_ReviewedAt ` set (card_log db u (ev_CardID ev))
     \<and> ev_ID ev \<notin> log_ids db"

lemma card_log_times:
  "log_times_ok db \<Longrightarrow> r \<in> set (card_log db u c) \<Longrightarrow> 0 < lr_ReviewedAt r \<and> Microsecond dvd lr_ReviewedAt r"
  by (auto simp: set_card_log log_times_ok_def)

lemma gradeEvent_log:
  assumes g: "gradeEvent lib db p u ev = Inr (after, st, db')" and new: "fresh_review db u ev"
    and inv: "pk rl_ID (db_log db)" "log_times_ok db"
  shows "pk rl_ID (db_log db')" "log_times_ok db'" "log_ids db' = insert (ev_ID ev) (log_ids db)"
proof -
  from gradeEvent_effect [OF g] new obtain t s q e where
    db': "db' = db\<lparr>db_log := db_log db @ [log_row p u ev s q e], db_states := t\<rparr>"
    "ev_ID ev \<notin> rl_ID ` set (db_log db)"
    by (auto simp: fresh_review_def log_ids_def)
  show "pk rl_ID (db_log db')" using inv(1) db'(2) by (auto simp: db'(1) pk_snoc image_iff)
  have "Microsecond dvd ev_ReviewedAt ev" "0 < ev_ReviewedAt ev"
    using new by (simp_all add: fresh_review_def)
  with inv(2) show "log_times_ok db'"
    by (auto simp: db'(1) log_times_ok_def pg_timestamp_id)
  show "log_ids db' = insert (ev_ID ev) (log_ids db)" by (simp add: db'(1) log_ids_def)
qed

text \<open>One grade: the card's log gains the event, in its place, and stays what the state is made of.\<close>

lemma gradeEvent_consistent:
  assumes lib: "next_ignores_due lib" and inv: "schedule_inv lib p u (ev_CardID ev) db"
    and new: "fresh_review db u ev" and g: "gradeEvent lib db p u ev = Inr (after, st, db')"
  shows "schedule_inv lib p u (ev_CardID ev) db'"
    "mset (card_log db' u (ev_CardID ev)) = add_mset (logged_event ev) (mset (card_log db u (ev_CardID ev)))"
proof -
  from inv have key: "pk rl_ID (db_log db)" and times: "log_times_ok db"
    and con: "replay_consistent lib p db u (ev_CardID ev)" by (simp_all add: schedule_inv_def)
  from new have at: "0 < ev_ReviewedAt ev" "Microsecond dvd ev_ReviewedAt ev"
    "ev_ReviewedAt ev \<notin> lr_ReviewedAt ` set (card_log db u (ev_CardID ev))"
    by (simp_all add: fresh_review_def)
  note pos = card_log_times [OF times, of _ u "ev_CardID ev"]
  have "replay_consistent lib p db' u (ev_CardID ev) \<and>
    mset (card_log db' u (ev_CardID ev)) = add_mset (logged_event ev) (mset (card_log db u (ev_CardID ev)))"
    using g
  proof (cases rule: gradeEvent_cases)
    case duplicate
    with new show ?thesis by (simp add: fresh_review_def log_ids_def)
  next
    case (in_order prior q db1 n)
    have pos': "\<forall>r\<in>set (card_log db u (ev_CardID ev)). 0 < lr_ReviewedAt r" using pos by blast
    note c = in_order_consistent [OF lib key con at in_order(1,2) pos' in_order(3,4,5)]
    from c(1) show ?thesis unfolding c(2) by simp
  next
    case (out_of_order merged idx priors final q db1)
    have pos': "\<forall>r\<in>set (card_log db u (ev_CardID ev)). 0 < lr_ReviewedAt r \<and> Microsecond dvd lr_ReviewedAt r"
      using pos by blast
    from out_of_order(2) have m: "insertSorted (card_log db u (ev_CardID ev)) (logged_event ev) = (merged, idx)"
      by (simp add: logged_event_def)
    note c = out_of_order_consistent [OF key at(1,2) pos' m out_of_order(3,4,5,6)]
    from c(1) insertSorted_spec(2) [OF card_log_sorted m] show ?thesis unfolding c(2) by simp
  qed
  with gradeEvent_log [OF g new key times] show "schedule_inv lib p u (ev_CardID ev) db'"
    "mset (card_log db' u (ev_CardID ev)) = add_mset (logged_event ev) (mset (card_log db u (ev_CardID ev)))"
    by (simp_all add: schedule_inv_def)
qed

text \<open>The state row is determined by the log.\<close>

lemma consistent_state_unique:
  assumes "replay_consistent lib p db1 u c" "replay_consistent lib p db2 u c"
    and "card_log db1 u c = card_log db2 u c" "card_log db1 u c \<noteq> []"
  shows "map_option userCardStateRowToFSRS (row_of us_key (u, c) (db_states db1)) =
    map_option userCardStateRowToFSRS (row_of us_key (u, c) (db_states db2))"
proof -
  from assms obtain f where f: "state_matches (row_of us_key (u, c) (db_states db1)) (card_log db2 u c) f"
    "state_matches (row_of us_key (u, c) (db_states db2)) (card_log db2 u c) f"
    by (auto simp: replay_consistent_def)
  with assms(3,4) obtain r1 r2 where r: "row_of us_key (u, c) (db_states db1) = Some r1"
    "row_of us_key (u, c) (db_states db2) = Some r2"
    by (auto simp: state_matches_def split: option.splits)
  with f assms(3,4) have "(userCardStateRowToFSRS r1)\<lparr>cs_Due := 0\<rparr> = (userCardStateRowToFSRS r2)\<lparr>cs_Due := 0\<rparr>"
    "us_Due r1 = us_Due r2" by (simp_all add: state_matches_def)
  then have "userCardStateRowToFSRS r1 = userCardStateRowToFSRS r2"
    by (simp add: userCardStateRowToFSRS_def)
  with r show ?thesis by simp
qed

text \<open>A sequence of grades, in the order they reach the server.\<close>

definition grade_all :: "fsrs_lib \<Rightarrow> Params \<Rightarrow> uuid \<Rightarrow> review_db \<Rightarrow> Event list \<Rightarrow> review_error + review_db" where
  "grade_all lib p u = foldE (\<lambda>db ev. bindE (gradeEvent lib db p u ev) (\<lambda>(_, _, db'). Inr db'))"

text \<open>Reviews of one card, each at an instant of its own and under an id of its own.\<close>

definition reviews_of :: "review_db \<Rightarrow> uuid \<Rightarrow> uuid \<Rightarrow> Event list \<Rightarrow> bool" where
  "reviews_of db u c evs \<longleftrightarrow> list_all (\<lambda>ev. ev_CardID ev = c \<and> fresh_review db u ev) evs
     \<and> distinct (map ev_ReviewedAt evs) \<and> distinct (map ev_ID evs)"

lemma grade_all_consistent:
  assumes lib: "next_ignores_due lib"
  shows "schedule_inv lib p u c db \<Longrightarrow> reviews_of db u c evs \<Longrightarrow> grade_all lib p u db evs = Inr db' \<Longrightarrow>
    schedule_inv lib p u c db' \<and> mset (card_log db' u c) = mset (map logged_event evs) + mset (card_log db u c)"
proof (induction evs arbitrary: db)
  case Nil
  then show ?case by (simp add: grade_all_def)
next
  case (Cons ev evs)
  from Cons.prems(3) obtain after st db1 where g: "gradeEvent lib db p u ev = Inr (after, st, db1)"
    "grade_all lib p u db1 evs = Inr db'"
    by (auto simp: grade_all_def bindE_eq_Inr)
  from Cons.prems(2) have c: "ev_CardID ev = c" and new: "fresh_review db u ev" by (auto simp: reviews_of_def)
  note step = gradeEvent_consistent [OF lib Cons.prems(1) [folded c] new g(1), unfolded c]
  from step(2) have set: "set (card_log db1 u c) = insert (logged_event ev) (set (card_log db u c))"
    by (metis set_mset_add_mset_insert set_mset_mset)
  have ids: "log_ids db1 = insert (ev_ID ev) (log_ids db)"
    using gradeEvent_log(3) [OF g(1) new] Cons.prems(1) by (simp add: schedule_inv_def)
  have "fresh_review db1 u ev'" "ev_CardID ev' = c" if "ev' \<in> set evs" for ev'
  proof -
    from that Cons.prems(2) have e: "ev_CardID ev' = c" "fresh_review db u ev'"
      by (simp_all add: reviews_of_def list_all_iff)
    from Cons.prems(2) have "ev_ReviewedAt ev \<notin> ev_ReviewedAt ` set evs" "ev_ID ev \<notin> ev_ID ` set evs"
      by (simp_all add: reviews_of_def)
    with that have ne: "ev_ReviewedAt ev' \<noteq> ev_ReviewedAt ev" "ev_ID ev' \<noteq> ev_ID ev"
      by (metis imageI)+
    from e ne show "fresh_review db1 u ev'" "ev_CardID ev' = c"
      by (simp_all add: fresh_review_def set ids logged_event_def)
  qed
  with Cons.prems(2) have "reviews_of db1 u c evs" by (simp add: reviews_of_def list_all_iff)
  from Cons.IH [OF step(1) this g(2)] step(2) show ?case by simp
qed

text \<open>
  A further grade at the very instant of the stored last review takes the in-order path, whose guarded write is
  strict: its row is logged, and the schedule stays as it is until the card is replayed.
\<close>

definition tie_only_logged :: "fsrs_lib \<Rightarrow> Params \<Rightarrow> uuid \<Rightarrow> uuid \<Rightarrow> review_db \<Rightarrow> bool" where
  "tie_only_logged lib p u c db \<longleftrightarrow>
     (\<forall>ev r after st db'. ev_CardID ev = c \<and> ev_ID ev \<notin> log_ids db \<and> Microsecond dvd ev_ReviewedAt ev
        \<and> row_of us_key (u, c) (db_states db) = Some r \<and> us_LastReview r = Some (ev_ReviewedAt ev)
        \<and> gradeEvent lib db p u ev = Inr (after, st, db')
      \<longrightarrow> st = StatusApplied \<and> after = Some (userCardStateRowToFSRS r) \<and> db_states db' = db_states db
        \<and> (\<exists>row. rl_ID row = ev_ID ev \<and> db_log db' = db_log db @ [row]))"

lemma grade_tie: "tie_only_logged lib p u c db"
  unfolding tie_only_logged_def
proof (intro allI impI, elim conjE)
  fix ev r after st db'
  assume c: "ev_CardID ev = c" and new: "ev_ID ev \<notin> log_ids db" and micro: "Microsecond dvd ev_ReviewedAt ev"
    and r: "row_of us_key (u, c) (db_states db) = Some r" "us_LastReview r = Some (ev_ReviewedAt ev)"
    and g: "gradeEvent lib db p u ev = Inr (after, st, db')"
  have prior: "cs_LastReview (before_of (row_of us_key (u, ev_CardID ev) (db_states db))) = ev_ReviewedAt ev"
    by (simp add: before_of_def c r userCardStateRowToFSRS_def)
  from g show "st = StatusApplied \<and> after = Some (userCardStateRowToFSRS r) \<and> db_states db' = db_states db
        \<and> (\<exists>row. rl_ID row = ev_ID ev \<and> db_log db' = db_log db @ [row])"
  proof (cases rule: gradeEvent_cases)
    case duplicate
    with new show ?thesis by (simp add: log_ids_def)
  next
    case (in_order prior q db1 n)
    let ?row = "log_row p u ev prior q (ElapsedDays prior (ev_ReviewedAt ev))"
    have db1: "db1 = db\<lparr>db_log := db_log db @ [?row]\<rparr>" using InsertReviewLog_Inr [OF in_order(4)] by simp
    have "db' = db1" using in_order(5) r c micro db1
      by (auto simp: UpsertUserCardStateOnReview_def last_review_before_def pg_timestamp_id split: if_splits)
    with db1 in_order(6,7) r(1) c show ?thesis by simp
  next
    case out_of_order
    with prior show ?thesis by simp
  qed
qed

text \<open>C2: grading keeps the stored schedule of a card equal to the replay of its log, wherever each event falls in
  the log: after it, before it or in the middle. The events are new reviews of the card, each at an instant of its
  own (to the microsecond, as stored) and under an id of its own. A further grade at the very instant of the stored
  last review is logged and changes no schedule, as the code says it should be.\<close>

theorem grade_keeps_replay:
  assumes "next_ignores_due lib" and "schedule_inv lib p u c db" and "reviews_of db u c evs"
    and "grade_all lib p u db evs = Inr db'"
  shows "\<exists>priors final r. replayStates lib p (card_log db' u c) = Inr (priors, final)
    \<and> set (card_log db' u c) = set (card_log db u c) \<union> logged_event ` set evs
    \<and> (evs = [] \<or> row_of us_key (u, c) (db_states db') = Some r
        \<and> userCardStateRowToFSRS r = final\<lparr>cs_Due := pg_timestamp (cs_Due final)\<rparr>)
    \<and> tie_only_logged lib p u c db'"
proof -
  note tie = grade_tie [of lib p u c db']
  from grade_all_consistent [OF assms] have inv: "replay_consistent lib p db' u c"
    and m: "mset (card_log db' u c) = mset (map logged_event evs) + mset (card_log db u c)"
    by (simp_all add: schedule_inv_def)
  from m have s: "set (card_log db' u c) = set (card_log db u c) \<union> logged_event ` set evs"
    by (metis set_mset_mset set_mset_union Un_commute list.set_map)
  from inv obtain ps f where rep: "replayStates lib p (card_log db' u c) = Inr (ps, f)"
    and match: "state_matches (row_of us_key (u, c) (db_states db')) (card_log db' u c) f"
    by (auto simp: replay_consistent_def)
  show ?thesis
  proof (cases "evs = []")
    case False
    with s have "card_log db' u c \<noteq> []" by auto
    with match obtain r where r: "row_of us_key (u, c) (db_states db') = Some r"
      "(userCardStateRowToFSRS r)\<lparr>cs_Due := 0\<rparr> = f\<lparr>cs_Due := 0\<rparr>" "us_Due r = pg_timestamp (cs_Due f)"
      by (auto simp: state_matches_def split: option.splits)
    from r(2,3) have "userCardStateRowToFSRS r = f\<lparr>cs_Due := pg_timestamp (cs_Due f)\<rparr>"
      by (cases f) (simp add: userCardStateRowToFSRS_def)
    with r(1) rep s tie show ?thesis by blast
  qed (use rep s tie in blast)
qed

text \<open>C1: delivery order does not matter: two devices that deliver the same reviews of a card in
  different orders leave the same schedule.\<close>

theorem delivery_order_irrelevant:
  assumes "next_ignores_due lib" and "schedule_inv lib p u c db" and "reviews_of db u c evs"
    and "mset evs' = mset evs"
    and "grade_all lib p u db evs = Inr db1" and "grade_all lib p u db evs' = Inr db2"
  shows "map_option userCardStateRowToFSRS (row_of us_key (u, c) (db_states db1)) =
    map_option userCardStateRowToFSRS (row_of us_key (u, c) (db_states db2))"
proof (cases "evs = []")
  case True
  with assms show ?thesis by (simp add: grade_all_def)
next
  case False
  have perm: "mset (map f evs') = mset (map f evs)" for f :: "Event \<Rightarrow> 'z" using assms(4) by simp
  have "reviews_of db u c evs'"
    using assms(3) mset_eq_imp_distinct_iff [OF perm [of ev_ReviewedAt]]
      mset_eq_imp_distinct_iff [OF perm [of ev_ID]] mset_eq_setD [OF assms(4)]
    by (simp add: reviews_of_def list_all_iff)
  note c1 = grade_all_consistent [OF assms(1-3,5)]
    and c2 = grade_all_consistent [OF assms(1,2) this assms(6)]
  from c1 c2 have m: "mset (card_log db1 u c) = mset (card_log db2 u c)" using perm [of logged_event] by simp
  have "card_log db1 u c = card_log db2 u c"
    by (rule sorted_key_unique [OF card_log_sorted card_log_sorted m])
      (use c1 in \<open>simp add: card_log_inj schedule_inv_def\<close>)
  moreover have "card_log db1 u c \<noteq> []" using c1 False by auto
  ultimately show ?thesis
    by (intro consistent_state_unique [of lib p]) (use c1 c2 in \<open>simp_all add: schedule_inv_def\<close>)
qed

definition demo_reviews :: "Event list" where
  "demo_reviews = take 2 demo_events"

lemma demo_lib_ignores_due: "next_ignores_due demo_lib"
  by (simp add: next_ignores_due_def demo_next_def)

lemma demo_reviews_ok: "reviews_of demo_store 1 5 demo_reviews"
  by (simp add: reviews_of_def demo_reviews_def demo_events_def fresh_review_def card_log_def
      demo_store_def demo_db_def log_ids_def loggedReviews_def duration_defs)

lemma demo_store_inv: "schedule_inv demo_lib demo_params 1 5 demo_store"
  by (simp add: schedule_inv_def demo_store_def demo_db_def log_times_ok_def replay_consistent_def
      card_log_def loggedReviews_def replayStates_def state_matches_def pk_def)

definition demo_graded :: "Event list \<Rightarrow> review_db" where
  "demo_graded evs = (case grade_all demo_lib demo_params 1 demo_store evs of Inr db \<Rightarrow> db | Inl _ \<Rightarrow> demo_store)"

lemma demo_graded:
  "grade_all demo_lib demo_params 1 demo_store demo_reviews = Inr (demo_graded demo_reviews)"
  "grade_all demo_lib demo_params 1 demo_store (rev demo_reviews) = Inr (demo_graded (rev demo_reviews))"
proof -
  have "isl (grade_all demo_lib demo_params 1 demo_store demo_reviews) = False"
    "isl (grade_all demo_lib demo_params 1 demo_store (rev demo_reviews)) = False" by code_simp+
  then show "grade_all demo_lib demo_params 1 demo_store demo_reviews = Inr (demo_graded demo_reviews)"
    "grade_all demo_lib demo_params 1 demo_store (rev demo_reviews) = Inr (demo_graded (rev demo_reviews))"
    by (auto simp: demo_graded_def split: sum.splits)
qed

lemma grade_keeps_replay_witness:
  "\<exists>priors final r. replayStates demo_lib demo_params (card_log (demo_graded demo_reviews) 1 5) = Inr (priors, final)
    \<and> row_of us_key (1, 5) (db_states (demo_graded demo_reviews)) = Some r
    \<and> userCardStateRowToFSRS r = final\<lparr>cs_Due := pg_timestamp (cs_Due final)\<rparr>"
proof -
  have "demo_reviews \<noteq> []" by (simp add: demo_reviews_def demo_events_def)
  with grade_keeps_replay [OF demo_lib_ignores_due demo_store_inv demo_reviews_ok demo_graded(1)]
  show ?thesis by blast
qed

lemma delivery_order_irrelevant_witness:
  "map_option userCardStateRowToFSRS (row_of us_key (1, 5) (db_states (demo_graded demo_reviews))) =
     map_option userCardStateRowToFSRS (row_of us_key (1, 5) (db_states (demo_graded (rev demo_reviews))))
   \<and> map rl_ID (db_log (demo_graded demo_reviews)) \<noteq> map rl_ID (db_log (demo_graded (rev demo_reviews)))"
proof
  show "map_option userCardStateRowToFSRS (row_of us_key (1, 5) (db_states (demo_graded demo_reviews))) =
     map_option userCardStateRowToFSRS (row_of us_key (1, 5) (db_states (demo_graded (rev demo_reviews))))"
    by (rule delivery_order_irrelevant [OF demo_lib_ignores_due demo_store_inv demo_reviews_ok _ demo_graded]) simp
  show "map rl_ID (db_log (demo_graded demo_reviews)) \<noteq> map rl_ID (db_log (demo_graded (rev demo_reviews)))"
    by code_simp
qed

end
