(* ===== verification/Cloze.thy ===== *)
theory Cloze
  imports Go_Strings
begin

text \<open>
  Cloze deletions (\<open>internal/render/cloze.go\<close>): the scanner for \<open>{{cN::text::hint}}\<close> markers, the
  numbers for which a note gets a card, and the \<open>cloze:\<close> filter, with \<open>html.EscapeString\<close> and the
  render context that the filters read. A slice \<open>s[a:b]\<close> is \<open>substr s a b\<close>; that its indices are always
  in range, so that the Go code cannot panic, is proved below.
\<close>

definition substr :: "'a list \<Rightarrow> nat \<Rightarrow> nat \<Rightarrow> 'a list" where
  "substr s a b = take (b - a) (drop a s)"

lemma length_slice: "b \<le> length s \<Longrightarrow> length (substr s a b) = b - a"
  by (simp add: substr_def)

text \<open>\<open>html.EscapeString\<close> of the standard library.\<close>

fun EscapeString :: "string \<Rightarrow> string" where
  "EscapeString [] = []"
| "EscapeString (c # s) =
     (if c = CHR ''&'' then ''&amp;''
      else if c = CHR 0x27 then ''&#39;''
      else if c = CHR ''<'' then ''&lt;''
      else if c = CHR ''>'' then ''&gt;''
      else if c = CHR 0x22 then ''&#34;''
      else [c]) @ EscapeString s"

text \<open>Escaped text has no byte that could open a tag or leave an attribute.\<close>

definition html_active :: "char \<Rightarrow> bool" where
  "html_active c \<longleftrightarrow> c \<in> {CHR ''<'', CHR ''>'', CHR 0x22, CHR 0x27}"

lemma EscapeString_inert: "c \<in> set (EscapeString s) \<Longrightarrow> \<not> html_active c"
  by (induction s) (auto simp: html_active_def split: if_splits)

section \<open>The scanner\<close>

record clozeSpan =
  sp_num :: int
  sp_start :: nat
  sp_end :: nat
  sp_text :: string
  sp_hint :: string

text \<open>
  The inner loop: \<open>r\<close> is \<open>s[k:]\<close>. The result is \<open>sepIdx\<close> and \<open>end\<close>; \<open>None\<close> is \<open>-1\<close>.
\<close>

function content_end :: "string \<Rightarrow> nat \<Rightarrow> nat \<Rightarrow> nat option \<Rightarrow> nat option \<times> nat option" where
  "content_end r k depth sepIdx =
     (if r = [] then (sepIdx, None)
      else if HasPrefix r ''{{'' then content_end (drop 2 r) (k + 2) (depth + 1) sepIdx
      else if HasPrefix r ''}}'' then
        (if depth = 0 then (sepIdx, Some (k + 2)) else content_end (drop 2 r) (k + 2) (depth - 1) sepIdx)
      else if depth = 0 \<and> sepIdx = None \<and> HasPrefix r ''::''
      then content_end (drop 1 r) (k + 1) depth (Some k)
      else content_end (drop 1 r) (k + 1) depth sepIdx)"
  by pat_completeness auto
termination
  by (relation "measure (\<lambda>(r, _). length r)") auto

declare content_end.simps [simp del]

definition MaxInt32 :: int where "MaxInt32 = 2147483647"

definition cloze_num :: "string \<Rightarrow> int" where
  "cloze_num numStr =
     (case ParseInt 64 numStr of
        None \<Rightarrow> 0
      | Some v \<Rightarrow> if 1 \<le> v \<and> v \<le> MaxInt32 then v else 0)"

text \<open>What the scanner finds at a \<open>{{c\<close> that starts at \<open>start\<close>: \<open>None\<close> when it is no marker.\<close>

definition cloze_at :: "string \<Rightarrow> nat \<Rightarrow> clozeSpan option" where
  "cloze_at s start =
     (let numStr = takeWhile is_digit (drop (start + 3) s); j = start + 3 + length numStr in
      if numStr = [] \<or> \<not> HasPrefix (drop j s) ''::'' then None
      else
        let contentStart = j + 2 in
        case content_end (drop contentStart s) contentStart 0 None of
          (_, None) \<Rightarrow> None
        | (None, Some e) \<Rightarrow>
            Some \<lparr>sp_num = cloze_num numStr, sp_start = start, sp_end = e,
              sp_text = substr s contentStart (e - 2), sp_hint = []\<rparr>
        | (Some sep, Some e) \<Rightarrow>
            Some \<lparr>sp_num = cloze_num numStr, sp_start = start, sp_end = e,
              sp_text = substr s contentStart sep, sp_hint = substr s (sep + 2) (e - 2)\<rparr>)"

text \<open>The inner loop ends after its start, its separator lies before the end by the room of \<open>::\<close>.\<close>

lemma content_end_bounds:
  assumes "content_end r k depth sepIdx = (sep, Some e)"
    and "\<And>p. sepIdx = Some p \<Longrightarrow> p < k \<and> (p + 1 = k \<longrightarrow> HasPrefix r '':'')"
  shows "k + 2 \<le> e \<and> e \<le> k + length r \<and> (\<forall>p. sep = Some p \<longrightarrow> p + 2 \<le> e - 2 \<and> (sepIdx = Some p \<or> k \<le> p))"
  using assms
proof (induction r k depth sepIdx arbitrary: sep e rule: content_end.induct)
  case (1 r k depth sepIdx)
  note eq = 1(5) [unfolded content_end.simps [of r k depth sepIdx]]
  have pos: "r \<noteq> []" using eq by (auto split: if_splits)
  have two: "HasPrefix r ''{{'' \<or> HasPrefix r ''}}'' \<Longrightarrow> 2 \<le> length r"
    by (auto dest!: HasPrefix_length)
  have sep0: "p + 2 \<le> k" if "sepIdx = Some p" "\<not> HasPrefix r '':''" for p
    using 1(6) [OF that(1)] that(2) by (cases "p + 1 = k") auto
  have colon: "\<not> HasPrefix r '':''" if "HasPrefix r ''{{'' \<or> HasPrefix r ''}}''"
    using that by (cases r) auto
  consider (nest) "HasPrefix r ''{{''"
    | (fin) "\<not> HasPrefix r ''{{''" "HasPrefix r ''}}''" "depth = 0"
    | (closing) "\<not> HasPrefix r ''{{''" "HasPrefix r ''}}''" "depth \<noteq> 0"
    | (sepa) "\<not> HasPrefix r ''{{''" "\<not> HasPrefix r ''}}''" "depth = 0 \<and> sepIdx = None \<and> HasPrefix r ''::''"
    | (other) "\<not> HasPrefix r ''{{''" "\<not> HasPrefix r ''}}''" "\<not> (depth = 0 \<and> sepIdx = None \<and> HasPrefix r ''::'')"
    by blast
  then show ?case
  proof cases
    case nest
    from eq pos nest have e: "content_end (drop 2 r) (k + 2) (depth + 1) sepIdx = (sep, Some e)" by simp
    have "p < k + 2 \<and> (p + 1 = k + 2 \<longrightarrow> HasPrefix (drop 2 r) '':'')" if "sepIdx = Some p" for p
      using 1(6) [OF that] by simp
    from 1(1) [OF pos nest e this] two nest show ?thesis by fastforce
  next
    case fin
    with eq pos have e: "sep = sepIdx" "e = k + 2" by simp_all
    with two fin sep0 colon show ?thesis by auto
  next
    case closing
    from eq pos closing have e: "content_end (drop 2 r) (k + 2) (depth - 1) sepIdx = (sep, Some e)" by simp
    have "p < k + 2 \<and> (p + 1 = k + 2 \<longrightarrow> HasPrefix (drop 2 r) '':'')" if "sepIdx = Some p" for p
      using 1(6) [OF that] by simp
    from 1(2) [OF pos closing(1,2,3) e this] two closing show ?thesis by fastforce
  next
    case sepa
    from eq pos sepa have e: "content_end (drop 1 r) (k + 1) depth (Some k) = (sep, Some e)" by simp
    have "HasPrefix (drop 1 r) '':''" using sepa(3) by (cases r) auto
    then have "p < k + 1 \<and> (p + 1 = k + 1 \<longrightarrow> HasPrefix (drop 1 r) '':'')" if "Some k = Some p" for p
      using that by simp
    from 1(3) [OF pos sepa e this] pos show ?thesis by (cases r) fastforce+
  next
    case other
    from eq pos other have e: "content_end (drop 1 r) (k + 1) depth sepIdx = (sep, Some e)"
      by (simp split: if_splits)
    have "p < k + 1 \<and> (p + 1 = k + 1 \<longrightarrow> HasPrefix (drop 1 r) '':'')" if "sepIdx = Some p" for p
      using 1(6) [OF that] by simp
    from 1(4) [OF pos other e this] pos show ?thesis by (cases r) fastforce+
  qed
qed

text \<open>What a marker is made of: all slice bounds are in range, and its text is shorter than it.\<close>

definition span_wf :: "string \<Rightarrow> nat \<Rightarrow> clozeSpan \<Rightarrow> bool" where
  "span_wf s i sp \<longleftrightarrow> i \<le> sp_start sp \<and> sp_start sp + 7 \<le> sp_end sp - length (sp_text sp) - length (sp_hint sp)
     \<and> sp_end sp \<le> length s \<and> length (sp_text sp) + length (sp_hint sp) + 7 + sp_start sp \<le> sp_end sp
     \<and> 0 \<le> sp_num sp \<and> sp_num sp \<le> MaxInt32"

lemma cloze_num_range: "0 \<le> cloze_num n \<and> cloze_num n \<le> MaxInt32"
  by (simp add: cloze_num_def MaxInt32_def split: option.split)

lemma cloze_at_Some:
  assumes "cloze_at s start = Some sp"
  obtains numStr contentStart sep where
    "numStr = takeWhile is_digit (drop (start + 3) s)" "numStr \<noteq> []"
    "contentStart = start + 5 + length numStr" "contentStart \<le> length s"
    "contentStart + 2 \<le> sp_end sp" "sp_end sp \<le> length s"
    "sp_start sp = start" "sp_num sp = cloze_num numStr"
    "case sep of
       None \<Rightarrow> sp_text sp = substr s contentStart (sp_end sp - 2) \<and> sp_hint sp = []
     | Some p \<Rightarrow> contentStart \<le> p \<and> p + 2 \<le> sp_end sp - 2 \<and> sp_text sp = substr s contentStart p
         \<and> sp_hint sp = substr s (p + 2) (sp_end sp - 2)"
proof -
  define numStr where "numStr = takeWhile is_digit (drop (start + 3) s)"
  define cs where "cs = start + 5 + length numStr"
  from assms have ne: "numStr \<noteq> []" and pre: "HasPrefix (drop (start + 3 + length numStr) s) ''::''"
    by (auto simp: cloze_at_def Let_def numStr_def split: if_splits)
  from HasPrefix_length [OF pre] have cs: "cs \<le> length s" by (simp add: cs_def)
  obtain sep e0 where ce: "content_end (drop cs s) cs 0 None = (sep, e0)" by fastforce
  have d: "start + 3 + length numStr + 2 = cs" by (simp add: cs_def)
  from assms [unfolded cloze_at_def Let_def numStr_def [symmetric] d] ne pre ce obtain e where e0: "e0 = Some e" and sp: "sp =
      (case sep of
         None \<Rightarrow> \<lparr>sp_num = cloze_num numStr, sp_start = start, sp_end = e, sp_text = substr s cs (e - 2), sp_hint = []\<rparr>
       | Some p \<Rightarrow> \<lparr>sp_num = cloze_num numStr, sp_start = start, sp_end = e, sp_text = substr s cs p,
            sp_hint = substr s (p + 2) (e - 2)\<rparr>)"
    by (auto split: option.splits)
  from content_end_bounds [OF ce [unfolded e0]] cs
  have b: "cs + 2 \<le> e" "e \<le> length s" "\<forall>p. sep = Some p \<longrightarrow> p + 2 \<le> e - 2 \<and> cs \<le> p" by auto
  show ?thesis
    by (rule that [OF numStr_def ne _ cs, of sep]) (use b in \<open>auto simp: sp cs_def split: option.split\<close>)
qed

lemma cloze_at_wf: "cloze_at s start = Some sp \<Longrightarrow> span_wf s start sp"
proof (erule cloze_at_Some)
  fix numStr cs sep
  assume a: "numStr \<noteq> []" "cs = start + 5 + length numStr" "cs + 2 \<le> sp_end sp" "sp_end sp \<le> length s"
    "sp_start sp = start" "sp_num sp = cloze_num numStr"
    "case sep of None \<Rightarrow> sp_text sp = substr s cs (sp_end sp - 2) \<and> sp_hint sp = []
     | Some p \<Rightarrow> cs \<le> p \<and> p + 2 \<le> sp_end sp - 2 \<and> sp_text sp = substr s cs p
         \<and> sp_hint sp = substr s (p + 2) (sp_end sp - 2)"
  from a(1) have "1 \<le> length numStr" by (cases numStr) auto
  with a show "span_wf s start sp"
    by (auto simp: span_wf_def length_slice cloze_num_range split: option.splits)
qed

function scan_from :: "string \<Rightarrow> nat \<Rightarrow> clozeSpan list" where
  "scan_from s i =
     (if i < length s then
        (case Index (drop i s) ''{{c'' of
           None \<Rightarrow> []
         | Some rel \<Rightarrow>
             (case cloze_at s (i + rel) of
                None \<Rightarrow> scan_from s (i + rel + 3)
              | Some sp \<Rightarrow> sp # scan_from s (sp_end sp)))
      else [])"
  by pat_completeness auto
termination
proof (relation "measure (\<lambda>(s, i). length s - i)", goal_cases)
  case (3 s i rel sp)
  from cloze_at_wf [OF 3(3)] have "i + rel < sp_end sp" by (simp add: span_wf_def) 
  with 3(1) show ?case by simp
qed auto

declare scan_from.simps [simp del]

definition scanCloze :: "string \<Rightarrow> clozeSpan list" where
  "scanCloze s = scan_from s 0"

lemma span_wf_mono: "span_wf s i sp \<Longrightarrow> j \<le> i \<Longrightarrow> span_wf s j sp"
  by (simp add: span_wf_def)

lemma scan_from_wf:
  "list_all (span_wf s i) (scan_from s i) \<and> sorted_wrt (\<lambda>a b. sp_end a \<le> sp_start b) (scan_from s i)"
proof (induction s i rule: scan_from.induct)
  case (1 s i)
  consider (stop) "\<not> i < length s \<or> Index (drop i s) ''{{c'' = None"
    | (skip) rel where "i < length s" "Index (drop i s) ''{{c'' = Some rel" "cloze_at s (i + rel) = None"
    | (span) rel sp where "i < length s" "Index (drop i s) ''{{c'' = Some rel" "cloze_at s (i + rel) = Some sp"
    by fastforce
  then show ?case
  proof cases
    case stop
    then show ?thesis by (auto simp: scan_from.simps [of s i])
  next
    case skip
    from 1(1) [OF skip] skip show ?thesis
      by (auto simp: scan_from.simps [of s i] list_all_iff intro: span_wf_mono)
  next
    case span
    note wf = cloze_at_wf [OF span(3)]
    then have e: "i \<le> sp_end sp" by (simp add: span_wf_def)
    from 1(2) [OF span] have "list_all (span_wf s (sp_end sp)) (scan_from s (sp_end sp))"
      "sorted_wrt (\<lambda>a b. sp_end a \<le> sp_start b) (scan_from s (sp_end sp))" by simp_all
    moreover from this(1) have "\<forall>b\<in>set (scan_from s (sp_end sp)). sp_end sp \<le> sp_start b"
      by (auto simp: list_all_iff span_wf_def)
    ultimately show ?thesis using span wf e
      by (auto simp: scan_from.simps [of s i] list_all_iff intro: span_wf_mono)
  qed
qed

lemma scanCloze_shorter: "sp \<in> set (scanCloze s) \<Longrightarrow> length (sp_text sp) < length s"
proof -
  assume "sp \<in> set (scanCloze s)"
  with scan_from_wf [of s 0] have "span_wf s 0 sp" by (auto simp: scanCloze_def list_all_iff)
  then show ?thesis by (simp add: span_wf_def)
qed

section \<open>Which cards a note gets\<close>

function collect :: "string \<Rightarrow> int list" where
  "collect s = concat (map (\<lambda>sp. (if 1 \<le> sp_num sp then [sp_num sp] else []) @ collect (sp_text sp))
     (scanCloze s))"
  by pat_completeness auto
termination
  by (relation "measure length") (auto intro: scanCloze_shorter)

declare collect.simps [simp del]

definition ClozeOrdinals :: "string list \<Rightarrow> int list" where
  "ClozeOrdinals flds = sort (dedup (concat (map collect flds)))"

lemma scanCloze_num: "sp \<in> set (scanCloze s) \<Longrightarrow> 0 \<le> sp_num sp \<and> sp_num sp \<le> MaxInt32"
  using scan_from_wf [of s 0] by (auto simp: scanCloze_def list_all_iff span_wf_def)

lemma collect_range: "n \<in> set (collect s) \<Longrightarrow> 1 \<le> n \<and> n \<le> MaxInt32"
proof (induction s rule: collect.induct)
  case (1 s)
  from 1(2) obtain sp where sp: "sp \<in> set (scanCloze s)"
    "n \<in> set ((if 1 \<le> sp_num sp then [sp_num sp] else []) @ collect (sp_text sp))"
    by (subst (asm) collect.simps) auto
  with 1(1) [OF sp(1)] scanCloze_num [OF sp(1)] show ?case by (auto split: if_splits)
qed

section \<open>The filter\<close>

record TypeAnswer =
  ta_Field :: string
  ta_Expected :: string
  ta_Placeholder :: string

record note_fields =
  nf_Fields :: "(string \<times> string) list"
  nf_Tags :: "string list"
  nf_NoteType :: string
  nf_Deck :: string
  nf_Subdeck :: string

text \<open>The \<open>context\<close> of one side, less \<open>typeAnswer\<close>, which changes and is passed along.\<close>

record render_context =
  rc_note :: note_fields
  rc_fieldIndex :: "string \<Rightarrow> string option"
  rc_ordinal :: int
  rc_isCloze :: bool
  rc_cardName :: string
  rc_isQuestionSide :: bool
  rc_frontSide :: string
  rc_frontSideType :: "TypeAnswer option"

definition quoted :: "string \<Rightarrow> string" where
  "quoted s = [CHR 0x22] @ s @ [CHR 0x22]"

definition cloze_open :: string where
  "cloze_open = ''<span class='' @ quoted ''cloze'' @ ''>''"

definition cloze_close :: string where "cloze_close = ''</span>''"

definition cloze_active :: "render_context \<Rightarrow> clozeSpan \<Rightarrow> bool" where
  "cloze_active ctx sp \<longleftrightarrow> rc_isCloze ctx \<and> sp_num sp = rc_ordinal ctx + 1"

text \<open>The writes to \<open>out\<close>: the text between the spans, and what stands for each span.\<close>

fun weave :: "string \<Rightarrow> nat \<Rightarrow> (clozeSpan \<times> string) list \<Rightarrow> string" where
  "weave s pos [] = drop pos s"
| "weave s pos ((sp, out) # rest) = substr s pos (sp_start sp) @ out @ weave s (sp_end sp) rest"

function clozeFilter :: "render_context \<Rightarrow> string \<Rightarrow> string" where
  "clozeFilter ctx s = weave s 0 (map (\<lambda>sp. (sp,
     if cloze_active ctx sp \<and> rc_isQuestionSide ctx then
       (if sp_hint sp \<noteq> [] then cloze_open @ ''['' @ EscapeString (sp_hint sp) @ '']'' @ cloze_close
        else cloze_open @ ''[...]'' @ cloze_close)
     else if cloze_active ctx sp then cloze_open @ clozeFilter ctx (sp_text sp) @ cloze_close
     else clozeFilter ctx (sp_text sp))) (scanCloze s))"
  by pat_completeness auto
termination
  by (relation "measure (length \<circ> snd)") (auto intro: scanCloze_shorter)

declare clozeFilter.simps [simp del]

lemma weave_sublist: "(sp, out) \<in> set ps \<Longrightarrow> sublist out (weave s pos ps)"
proof (induction s pos ps rule: weave.induct)
  case (2 s pos sp' out' rest)
  show ?case
  proof (cases "(sp, out) = (sp', out')")
    case False
    with 2 have "sublist out (weave s (sp_end sp') rest)" by auto
    then show ?thesis by (simp add: sublist_appendI sublist_order.order_trans [OF _ sublist_append_leftI])
  qed (auto simp: sublist_appendI)
qed simp

text \<open>The plain reading of a field: every marker is replaced by its text, whatever its number.\<close>

function reveal :: "string \<Rightarrow> string" where
  "reveal s = weave s 0 (map (\<lambda>sp. (sp, reveal (sp_text sp))) (scanCloze s))"
  by pat_completeness auto
termination
  by (relation "measure length") (auto intro: scanCloze_shorter)

declare reveal.simps [simp del]

lemma clozeFilter_inactive:
  "rc_ordinal ctx + 1 \<notin> set (collect s) \<Longrightarrow> 0 \<le> rc_ordinal ctx \<Longrightarrow> clozeFilter ctx s = reveal s"
proof (induction s rule: collect.induct)
  case (1 s)
  have "\<not> cloze_active ctx sp \<and> clozeFilter ctx (sp_text sp) = reveal (sp_text sp)"
    if sp: "sp \<in> set (scanCloze s)" for sp
  proof -
    have "(if 1 \<le> sp_num sp then {sp_num sp} else {}) \<union> set (collect (sp_text sp)) \<subseteq> set (collect s)"
      using sp by (subst (2) collect.simps) (auto split: if_splits)
    with 1 sp show ?thesis by (auto simp: cloze_active_def split: if_splits)
  qed
  then show ?case
    unfolding clozeFilter.simps [of ctx s] reveal.simps [of s]
    by (intro arg_cong [where f = "weave s 0"] map_cong refl) simp
qed

lemma clozeFilter_active:
  "rc_ordinal ctx + 1 \<in> set (collect s) \<Longrightarrow> rc_isCloze ctx \<Longrightarrow>
     sublist (cloze_open @ (if rc_isQuestionSide ctx then ''['' else [])) (clozeFilter ctx s)"
proof (induction s rule: collect.induct)
  case (1 s)
  let ?mark = "cloze_open @ (if rc_isQuestionSide ctx then ''['' else [])"
  let ?out = "\<lambda>sp. if cloze_active ctx sp \<and> rc_isQuestionSide ctx then
       (if sp_hint sp \<noteq> [] then cloze_open @ ''['' @ EscapeString (sp_hint sp) @ '']'' @ cloze_close
        else cloze_open @ ''[...]'' @ cloze_close)
     else if cloze_active ctx sp then cloze_open @ clozeFilter ctx (sp_text sp) @ cloze_close
     else clozeFilter ctx (sp_text sp)"
  from 1(2) obtain sp where sp: "sp \<in> set (scanCloze s)"
    "rc_ordinal ctx + 1 \<in> set ((if 1 \<le> sp_num sp then [sp_num sp] else []) @ collect (sp_text sp))"
    by (subst (asm) collect.simps) auto
  have "prefix ?mark (?out sp)" if "cloze_active ctx sp" using that by (auto simp: prefix_def)
  moreover have "sublist ?mark (clozeFilter ctx (sp_text sp))" if "\<not> cloze_active ctx sp"
    using that sp 1(1) [OF sp(1) _ 1(3)] 1(3) by (auto simp: cloze_active_def split: if_splits)
  ultimately have "sublist ?mark (?out sp)"
    by (cases "cloze_active ctx sp") (auto intro: prefix_imp_sublist)
  moreover have "sublist (?out sp) (clozeFilter ctx s)"
    unfolding clozeFilter.simps [of ctx s] by (rule weave_sublist [of sp]) (use sp(1) in auto)
  ultimately show ?case by (rule sublist_order.order_trans)
qed


definition demo_ctx :: render_context where
  "demo_ctx = \<lparr>rc_note = \<lparr>nf_Fields = [], nf_Tags = [], nf_NoteType = ''Cloze'', nf_Deck = ''D'', nf_Subdeck = ''D''\<rparr>,
     rc_fieldIndex = Map.empty, rc_ordinal = 1, rc_isCloze = True, rc_cardName = ''Cloze'',
     rc_isQuestionSide = True, rc_frontSide = [], rc_frontSideType = None\<rparr>"

lemmas cloze_eval = scanCloze_def scan_from.simps cloze_at_def content_end.simps Let_def cloze_num_def
  ParseInt_def digits_val_def is_digit_def digit_val_def substr_def in_range_def MaxInt32_def

definition demo_cloze :: string where
  "demo_cloze = ''{{c1::a {{c2::b::h}}}} c''"

lemma demo_cloze_scan:
  "scanCloze demo_cloze
     = [\<lparr>sp_num = 1, sp_start = 0, sp_end = 22, sp_text = ''a {{c2::b::h}}'', sp_hint = []\<rparr>]"
  "scanCloze ''a {{c2::b::h}}'' = [\<lparr>sp_num = 2, sp_start = 2, sp_end = 14, sp_text = ''b'', sp_hint = ''h''\<rparr>]"
  "scanCloze ''b'' = []"
  by (simp_all add: cloze_eval demo_cloze_def)

lemma demo_cloze_ordinals: "ClozeOrdinals [demo_cloze] = [1, 2]"
proof -
  have b: "collect ''b'' = []" by (subst collect.simps) (simp add: demo_cloze_scan)
  have a: "collect ''a {{c2::b::h}}'' = [2]" by (subst collect.simps) (simp add: demo_cloze_scan b)
  have "collect demo_cloze = [1, 2]" by (subst collect.simps) (simp add: demo_cloze_scan a)
  then show ?thesis by (simp add: ClozeOrdinals_def)
qed


section \<open>The scanner reads its input\<close>

lemma substr_prefix: "HasPrefix (drop a s) w \<Longrightarrow> substr s a (a + length w) = w"
  by (auto simp: substr_def HasPrefix_def elim!: prefixE)

lemma substr_append: "a \<le> b \<Longrightarrow> b \<le> c \<Longrightarrow> substr s a b @ substr s b c = substr s a c"
proof -
  assume "a \<le> b" "b \<le> c"
  then have "c - a = (b - a) + (c - b)" "b - a + a = b" by simp_all
  then show ?thesis unfolding substr_def by (metis add.commute drop_drop take_add)
qed

text \<open>The loop stops at a closing bracket, and its separator is one.\<close>

lemma content_end_marks:
  "content_end (drop k s) k depth sepIdx = (sep, Some e) \<Longrightarrow>
     HasPrefix (drop (e - 2) s) ''}}'' \<and> (\<forall>p. sep = Some p \<longrightarrow> sepIdx = Some p \<or> HasPrefix (drop p s) ''::'')"
proof (induction "drop k s" k depth sepIdx arbitrary: sep e rule: content_end.induct)
  case (1 k depth sepIdx)
  note eq = 1(5) [unfolded content_end.simps [of "drop k s"]]
  have d: "drop 2 (drop k s) = drop (k + 2) s" "drop 1 (drop k s) = drop (k + 1) s" by (simp_all add: add.commute)
  have ne: "drop k s \<noteq> []" using eq by (auto split: if_splits)
  show ?case
    using eq ne 1(1) [OF ne _ d(1)] 1(2) [OF ne _ _ _ d(1)] 1(3) [OF ne _ _ _ d(2)] 1(4) [OF ne _ _ _ d(2)]
    unfolding d by (auto split: if_splits)
qed

text \<open>A marker as it is written: digits, a text, and a hint or none.\<close>

definition marker_text :: "string \<Rightarrow> string \<Rightarrow> string option \<Rightarrow> string" where
  "marker_text digits txt hint =
     ''{{c'' @ digits @ ''::'' @ txt @ (case hint of None \<Rightarrow> [] | Some h \<Rightarrow> ''::'' @ h) @ ''}}''"

definition reads_marker :: "string \<Rightarrow> clozeSpan \<Rightarrow> bool" where
  "reads_marker s sp \<longleftrightarrow>
     (\<exists>digits hint. digits \<noteq> [] \<and> list_all is_digit digits \<and> sp_num sp = cloze_num digits
        \<and> sp_hint sp = (case hint of None \<Rightarrow> [] | Some h \<Rightarrow> h)
        \<and> substr s (sp_start sp) (sp_end sp) = marker_text digits (sp_text sp) hint)"

lemma cloze_at_reads:
  assumes pre: "HasPrefix (drop start s) ''{{c''" and at: "cloze_at s start = Some sp"
  shows "reads_marker s sp \<and> sp_start sp = start \<and> start < sp_end sp \<and> sp_end sp \<le> length s"
proof -
  define digits where "digits = takeWhile is_digit (drop (start + 3) s)"
  define j where "j = start + 3 + length digits"
  from at have ne: "digits \<noteq> []" and colons: "HasPrefix (drop j s) ''::''"
    by (auto simp: cloze_at_def Let_def digits_def j_def split: if_splits)
  obtain sep e0 where ce: "content_end (drop (j + 2) s) (j + 2) 0 None = (sep, e0)" by fastforce
  from at [unfolded cloze_at_def Let_def digits_def [symmetric] j_def [symmetric]] ne colons ce
  obtain e where e0: "e0 = Some e" and sp: "sp =
      (case sep of
         None \<Rightarrow> \<lparr>sp_num = cloze_num digits, sp_start = start, sp_end = e, sp_text = substr s (j + 2) (e - 2), sp_hint = []\<rparr>
       | Some p \<Rightarrow> \<lparr>sp_num = cloze_num digits, sp_start = start, sp_end = e, sp_text = substr s (j + 2) p,
            sp_hint = substr s (p + 2) (e - 2)\<rparr>)"
    by (auto split: option.splits)
  from HasPrefix_length [OF colons] have j: "j + 2 \<le> length s" by simp
  from content_end_bounds [OF ce [unfolded e0]] j
  have b: "j + 4 \<le> e" "e \<le> length s" "\<And>p. sep = Some p \<Longrightarrow> p + 2 \<le> e - 2 \<and> j + 2 \<le> p" by auto
  note marks = content_end_marks [OF ce [unfolded e0]]
  have se: "start < e" using b(1) by (simp add: j_def)
  have e2: "e - 2 + 2 = e" using b(1) by simp
  have "prefix digits (drop (start + 3) s)" unfolding digits_def by (rule takeWhile_is_prefix)
  then have dg: "substr s (start + 3) j = digits" by (auto simp: substr_def j_def prefix_def)
  have parts: "substr s start (start + 3) = ''{{c''" "substr s j (j + 2) = ''::''" "substr s (e - 2) e = ''}}''"
    using substr_prefix [OF pre] substr_prefix [OF colons] substr_prefix [of "e - 2" s "''}}''"] marks e2 by (simp_all add: numeral_3_eq_3 numeral_2_eq_2)
  have all: "substr s start e = ''{{c'' @ digits @ ''::'' @ substr s (j + 2) (e - 2) @ ''}}''"
    using b(1) j unfolding parts [symmetric] dg [symmetric]
    by (simp add: substr_append j_def)
  have dig: "list_all is_digit digits" unfolding digits_def by (auto simp: list_all_iff dest: set_takeWhileD)
  show ?thesis
  proof (cases sep)
    case None
    with all ne dig b se show ?thesis
      unfolding reads_marker_def marker_text_def sp by (auto intro!: exI [of _ digits] exI [of _ None])
  next
    case (Some p)
    from marks Some have "substr s p (p + 2) = ''::''" using substr_prefix [of p s "''::''"] by (simp add: numeral_2_eq_2)
    then have "substr s (j + 2) (e - 2) = substr s (j + 2) p @ ''::'' @ substr s (p + 2) (e - 2)"
      using b(3) [OF Some] by (metis substr_append le_add1 le_trans)
    with Some all ne dig b se show ?thesis
      unfolding reads_marker_def marker_text_def sp
      by (auto intro!: exI [of _ digits] exI [of _ "Some (substr s (p + 2) (e - 2))"])
  qed
qed

lemma scan_from_reads: "\<forall>x\<in>set (scan_from s i). reads_marker s x \<and> sp_start x < sp_end x \<and> sp_end x \<le> length s"
proof (induction s i rule: scan_from.induct)
  case (1 s i)
  show ?case
  proof (cases "i < length s \<and> Index (drop i s) ''{{c'' \<noteq> None")
    case False
    then have "scan_from s i = []" by (auto simp: scan_from.simps [of s i])
    then show ?thesis by simp
  next
    case True
    then obtain rel where rel: "i < length s" "Index (drop i s) ''{{c'' = Some rel" by blast
    have pre: "HasPrefix (drop (i + rel) s) ''{{c''" using Index_Some [OF rel(2)] by (simp add: add.commute)
    show ?thesis
    proof (cases "cloze_at s (i + rel)")
      case None
      with 1(1) [OF rel None] rel show ?thesis by (simp add: scan_from.simps [of s i])
    next
      case (Some sp)
      with 1(2) [OF rel Some] rel cloze_at_reads [OF pre Some] show ?thesis by (simp add: scan_from.simps [of s i])
    qed
  qed
qed

section \<open>The scanner finds what is written\<close>

text \<open>
  A text in which every double bracket is closed: characters other than brackets, and bracketed texts. Outside of
  the brackets a colon is allowed when \<open>colons\<close> says so, inside of them always.
\<close>

inductive bracketed :: "bool \<Rightarrow> string \<Rightarrow> bool" where
  bracketed_nil: "bracketed colons []"
| bracketed_char: "c \<notin> {CHR ''{'', CHR ''}''} \<Longrightarrow> colons \<or> c \<noteq> CHR '':'' \<Longrightarrow> bracketed colons x \<Longrightarrow> bracketed colons (c # x)"
| bracketed_nest: "bracketed True x \<Longrightarrow> bracketed colons y \<Longrightarrow> bracketed colons (''{{'' @ x @ ''}}'' @ y)"

lemma content_end_skip:
  "bracketed colons x \<Longrightarrow> \<not> colons \<or> 0 < depth \<or> sep \<noteq> None \<Longrightarrow>
     content_end (x @ r) k depth sep = content_end r (k + length x) depth sep"
proof (induction arbitrary: r k depth rule: bracketed.induct)
  case (bracketed_char c colons x)
  have "content_end ((c # x) @ r) k depth sep = content_end (x @ r) (k + 1) depth sep"
    using bracketed_char.hyps(1,2) bracketed_char.prems by (subst content_end.simps) (auto simp: HasPrefix_def)
  with bracketed_char.IH bracketed_char.prems show ?case by simp
next
  case (bracketed_nest x colons y)
  have "content_end ((''{{'' @ x @ ''}}'' @ y) @ r) k depth sep = content_end (x @ ''}}'' @ y @ r) (k + 2) (depth + 1) sep"
    by (subst content_end.simps) (simp add: HasPrefix_def)
  also have "\<dots> = content_end (''}}'' @ y @ r) (k + 2 + length x) (depth + 1) sep"
    by (rule bracketed_nest.IH(1)) simp
  also have "\<dots> = content_end (y @ r) (k + 2 + length x + 2) depth sep"
    by (subst content_end.simps) (simp add: HasPrefix_def)
  also have "\<dots> = content_end r (k + 2 + length x + 2 + length y) depth sep"
    by (rule bracketed_nest.IH(2)) (fact bracketed_nest.prems)
  finally show ?case by (simp add: algebra_simps)
qed simp

lemma content_end_closes: "content_end (''}}'' @ r) k 0 sep = (sep, Some (k + 2))"
  by (subst content_end.simps) (simp add: HasPrefix_def)

lemma content_end_marker:
  assumes "bracketed False txt" "case hint of None \<Rightarrow> True | Some h \<Rightarrow> bracketed True h"
  shows "content_end (txt @ (case hint of None \<Rightarrow> [] | Some h \<Rightarrow> ''::'' @ h) @ ''}}'' @ r) k 0 None =
    (map_option (\<lambda>_. k + length txt) hint,
     Some (k + length txt + (case hint of None \<Rightarrow> 0 | Some h \<Rightarrow> 2 + length h) + 2))"
proof (cases hint)
  case None
  have "content_end (txt @ ''}}'' @ r) k 0 None = (None, Some (k + length txt + 2))"
    unfolding content_end_skip [OF assms(1) disjI1, simplified] content_end_closes by (rule refl)
  with None show ?thesis by simp
next
  case (Some h)
  let ?k = "k + length txt"
  have "content_end (txt @ ''::'' @ h @ ''}}'' @ r) k 0 None = content_end (''::'' @ h @ ''}}'' @ r) ?k 0 None"
    by (rule content_end_skip [OF assms(1)]) simp
  also have "\<dots> = content_end (('':'' @ h) @ ''}}'' @ r) (?k + 1) 0 (Some ?k)"
    by (subst content_end.simps) (simp add: HasPrefix_def)
  also have "\<dots> = content_end (''}}'' @ r) (?k + 1 + length ('':'' @ h)) 0 (Some ?k)"
    using assms(2) Some by (intro content_end_skip [where colons = True]) (auto intro: bracketed_char)
  also have "\<dots> = (Some ?k, Some (?k + 1 + length ('':'' @ h) + 2))" by (rule content_end_closes)
  finally show ?thesis using Some by simp
qed

lemma drop_at: "n = length a \<Longrightarrow> drop n (a @ b) = b"
  by simp

lemma substr_at: "s = a @ b @ c \<Longrightarrow> n = length a \<Longrightarrow> m = n + length b \<Longrightarrow> substr s n m = b"
  by (simp add: substr_def)

lemma cloze_at_marker:
  assumes "digits \<noteq> []" "list_all is_digit digits" "bracketed False txt"
    "case hint of None \<Rightarrow> True | Some h \<Rightarrow> bracketed True h"
  shows "cloze_at (pre @ marker_text digits txt hint @ post) (length pre) =
    Some \<lparr>sp_num = cloze_num digits, sp_start = length pre, sp_end = length pre + length (marker_text digits txt hint),
      sp_text = txt, sp_hint = (case hint of None \<Rightarrow> [] | Some h \<Rightarrow> h)\<rparr>"
proof -
  define s where "s = pre @ marker_text digits txt hint @ post"
  define tail where "tail = (case hint of None \<Rightarrow> [] | Some h \<Rightarrow> ''::'' @ h) @ ''}}'' @ post"
  define cs where "cs = length pre + 5 + length digits"
  have s: "s = (pre @ ''{{c'') @ digits @ ''::'' @ txt @ tail" by (simp add: s_def marker_text_def tail_def)
  have d3: "drop (length pre + 3) s = digits @ ''::'' @ txt @ tail" by (simp add: s)
  have num: "takeWhile is_digit (drop (length pre + 3) s) = digits"
    using assms(2) unfolding d3 by (subst takeWhile_append2) (auto simp: list_all_iff is_digit_def)
  have "s = (pre @ ''{{c'' @ digits) @ ''::'' @ txt @ tail" by (simp add: s)
  then have dj: "drop (length pre + 3 + length digits) s = ''::'' @ txt @ tail" by (simp only:) (rule drop_at, simp)
  have "s = (pre @ ''{{c'' @ digits @ ''::'') @ txt @ tail" by (simp add: s)
  then have dc: "drop cs s = txt @ tail" by (simp only:) (rule drop_at, simp add: cs_def)
  note ce = content_end_marker [OF assms(3,4), of post cs, folded tail_def]
  have pre: "HasPrefix (drop (length pre + 3 + length digits) s) ''::''" by (simp add: dj HasPrefix_def)
  have c2: "length pre + 3 + length digits + 2 = cs" by (simp add: cs_def)
  have body: "substr s cs (cs + length txt) = txt"
    by (rule substr_at [of _ "pre @ ''{{c'' @ digits @ ''::''" _ tail]) (simp_all add: s cs_def)
  show ?thesis unfolding s_def [symmetric]
  proof (cases hint)
    case None
    with body show "cloze_at s (length pre) = Some \<lparr>sp_num = cloze_num digits, sp_start = length pre,
        sp_end = length pre + length (marker_text digits txt hint), sp_text = txt,
        sp_hint = (case hint of None \<Rightarrow> [] | Some h \<Rightarrow> h)\<rparr>"
      unfolding cloze_at_def Let_def num c2 dc ce using assms(1) pre by (simp add: marker_text_def cs_def ac_simps)
  next
    case (Some h)
    have "substr s (cs + length txt + 2) (cs + length txt + (2 + length h)) = h"
      by (rule substr_at [of _ "pre @ ''{{c'' @ digits @ ''::'' @ txt @ ''::''" _ "''}}'' @ post"]) (simp_all add: s tail_def Some cs_def)
    with body show "cloze_at s (length pre) = Some \<lparr>sp_num = cloze_num digits, sp_start = length pre,
        sp_end = length pre + length (marker_text digits txt hint), sp_text = txt,
        sp_hint = (case hint of None \<Rightarrow> [] | Some h \<Rightarrow> h)\<rparr>"
      unfolding cloze_at_def Let_def num c2 dc ce using assms(1) pre Some by (simp add: marker_text_def cs_def ac_simps)
  qed
qed

text \<open>The scan of what follows does not depend on what came before, but for the positions.\<close>

definition shift :: "nat \<Rightarrow> clozeSpan \<Rightarrow> clozeSpan" where
  "shift n sp = sp\<lparr>sp_start := sp_start sp + n, sp_end := sp_end sp + n\<rparr>"

lemma content_end_shift:
  "content_end r (k + n) depth (map_option (\<lambda>p. p + n) sep) =
     (case content_end r k depth sep of (a, b) \<Rightarrow> (map_option (\<lambda>p. p + n) a, map_option (\<lambda>p. p + n) b))"
proof (induction r k depth sep rule: content_end.induct)
  case (1 r k depth sep)
  show ?case
    using 1 by (subst (1 2) content_end.simps) (auto simp: add.commute [of n] add.assoc)
qed

lemma substr_shift: "substr (a @ b) (x + length a) (y + length a) = substr b x y"
  by (simp add: substr_def)

lemma cloze_at_shift: "cloze_at (a @ b) (start + length a) = map_option (shift (length a)) (cloze_at b start)"
proof -
  define numStr where "numStr = takeWhile is_digit (drop (start + 3) b)"
  define j where "j = start + 3 + length numStr"
  have d: "drop (x + length a) (a @ b) = drop x b" for x by simp
  have num: "takeWhile is_digit (drop (start + length a + 3) (a @ b)) = numStr"
    using d [of "start + 3"] by (simp add: numStr_def algebra_simps)
  have j: "start + length a + 3 + length numStr = j + length a" "j + length a + 2 = j + 2 + length a" by (simp_all add: j_def)
  obtain sep e where ce: "content_end (drop (j + 2) b) (j + 2) 0 None = (sep, e)" by fastforce
  have cs: "content_end (drop (j + 2) b) (j + 2 + length a) 0 None = (map_option (\<lambda>p. p + length a) sep, map_option (\<lambda>p. p + length a) e)"
    using content_end_shift [of "drop (j + 2) b" "j + 2" "length a" 0 None] ce by simp
  have S: "substr (a @ b) (Suc (Suc (x + length a))) (y + length a) = substr b (Suc (Suc x)) y" for x y
    using substr_shift [of a b "Suc (Suc x)" y] by simp
  have b: "2 \<le> e'" if "e = Some e'" for e'
    using content_end_bounds [OF ce [unfolded that]] by simp
  have at: "cloze_at (a @ b) (start + length a) = (if numStr = [] \<or> \<not> HasPrefix (drop j b) ''::'' then None
      else case (map_option (\<lambda>p. p + length a) sep, map_option (\<lambda>p. p + length a) e) of (_, None) \<Rightarrow> None
        | (None, Some e) \<Rightarrow> Some \<lparr>sp_num = cloze_num numStr, sp_start = start + length a, sp_end = e,
              sp_text = substr (a @ b) (j + 2 + length a) (e - 2), sp_hint = []\<rparr>
        | (Some sep, Some e) \<Rightarrow> Some \<lparr>sp_num = cloze_num numStr, sp_start = start + length a, sp_end = e,
              sp_text = substr (a @ b) (j + 2 + length a) sep, sp_hint = substr (a @ b) (sep + 2) (e - 2)\<rparr>)"
    unfolding cloze_at_def Let_def num j d cs by (rule refl)
  have at': "cloze_at b start = (if numStr = [] \<or> \<not> HasPrefix (drop j b) ''::'' then None
      else case (sep, e) of (_, None) \<Rightarrow> None
        | (None, Some e) \<Rightarrow> Some \<lparr>sp_num = cloze_num numStr, sp_start = start, sp_end = e,
              sp_text = substr b (j + 2) (e - 2), sp_hint = []\<rparr>
        | (Some sep, Some e) \<Rightarrow> Some \<lparr>sp_num = cloze_num numStr, sp_start = start, sp_end = e,
              sp_text = substr b (j + 2) sep, sp_hint = substr b (sep + 2) (e - 2)\<rparr>)"
    unfolding cloze_at_def Let_def numStr_def [symmetric] j_def [symmetric] ce by (rule refl)
  show ?thesis
  proof (cases "numStr = [] \<or> \<not> HasPrefix (drop j b) ''::'' \<or> e = None")
    case True
    then show ?thesis unfolding at at' by (auto split: option.splits)
  next
    case False
    then obtain e' where e: "e = Some e'" by blast
    have e2: "e' + length a - 2 = e' - 2 + length a" using b [OF e] by simp
    from False show ?thesis unfolding at at'
      by (cases sep) (simp_all add: e e2 shift_def S substr_shift)
  qed
qed

lemma scan_from_shift: "scan_from (a @ b) (i + length a) = map (shift (length a)) (scan_from b i)"
proof (induction b i rule: scan_from.induct)
  case (1 b i)
  have d: "drop (i + length a) (a @ b) = drop i b" by simp
  show ?case
  proof (cases "i < length b \<and> Index (drop i b) ''{{c'' \<noteq> None")
    case False
    then have "scan_from (a @ b) (i + length a) = []" by (subst scan_from.simps) (auto simp: d)
    moreover have "scan_from b i = []" using False by (subst scan_from.simps) auto
    ultimately show ?thesis by simp
  next
    case True
    then obtain rel where rel: "i < length b" "Index (drop i b) ''{{c'' = Some rel" by blast
    have at: "cloze_at (a @ b) (i + length a + rel) = map_option (shift (length a)) (cloze_at b (i + rel))"
      using cloze_at_shift [of a b "i + rel"] by (simp add: algebra_simps)
    show ?thesis
    proof (cases "cloze_at b (i + rel)")
      case None
      then have "scan_from (a @ b) (i + length a) = scan_from (a @ b) (i + rel + 3 + length a)"
        using rel at by (subst scan_from.simps) (simp add: d algebra_simps)
      moreover have "scan_from b i = scan_from b (i + rel + 3)" using rel None by (subst scan_from.simps) simp
      ultimately show ?thesis using 1(1) [OF rel None] by simp
    next
      case (Some sp)
      then have "scan_from (a @ b) (i + length a) = shift (length a) sp # scan_from (a @ b) (sp_end sp + length a)"
        using rel at by (subst scan_from.simps) (simp add: d shift_def)
      moreover have "scan_from b i = sp # scan_from b (sp_end sp)" using rel Some by (subst scan_from.simps) simp
      ultimately show ?thesis using 1(2) [OF rel Some] by simp
    qed
  qed
qed

lemma scanCloze_marker:
  assumes "CHR ''{'' \<notin> set pre" "digits \<noteq> []" "list_all is_digit digits" "bracketed False txt"
    "case hint of None \<Rightarrow> True | Some h \<Rightarrow> bracketed True h"
  shows "scanCloze (pre @ marker_text digits txt hint @ post) =
    \<lparr>sp_num = cloze_num digits, sp_start = length pre, sp_end = length (pre @ marker_text digits txt hint),
      sp_text = txt, sp_hint = (case hint of None \<Rightarrow> [] | Some h \<Rightarrow> h)\<rparr>
    # map (shift (length (pre @ marker_text digits txt hint))) (scanCloze post)"
proof -
  let ?s = "pre @ marker_text digits txt hint @ post"
  have "Index ?s ''{{c'' = Some (length pre)"
    using assms(1) by (induction pre) (auto simp: marker_text_def HasPrefix_def)
  moreover have "0 < length ?s" by (simp add: marker_text_def)
  ultimately have "scanCloze ?s = \<lparr>sp_num = cloze_num digits, sp_start = length pre, sp_end = length (pre @ marker_text digits txt hint),
      sp_text = txt, sp_hint = (case hint of None \<Rightarrow> [] | Some h \<Rightarrow> h)\<rparr> # scan_from ?s (length (pre @ marker_text digits txt hint))"
    unfolding scanCloze_def by (subst scan_from.simps) (simp add: cloze_at_marker [OF assms(2-5)])
  with scan_from_shift [of "pre @ marker_text digits txt hint" post 0] show ?thesis by (simp add: scanCloze_def)
qed



end
