(* ===== verification/Card_Template.thy ===== *)
theory Card_Template
  imports Cloze
begin

text \<open>
  Card templates (\<open>internal/render\<close>: \<open>token.go\<close>, \<open>filters.go\<close>, \<open>render.go\<close>, \<open>typeanswer.go\<close>): the scanner
  for \<open>{{...}}\<close> tags, the filters, the section stack and the two sides of a card. The HTML sanitiser is a
  third-party library and \<open>html.UnescapeString\<close> a table of two thousand entities; both are arguments
  (\<open>render_env\<close>), as is the random token of a \<open>{{type:Field}}\<close>, where \<open>None\<close> is a failed \<open>rand.Read\<close>.
\<close>

record render_env =
  env_Sanitize :: "string \<Rightarrow> string"
  env_Unescape :: "string \<Rightarrow> string"

datatype render_error =
    ErrUnterminatedTag nat
  | ErrSectionMismatch string
  | ErrUnclosedSection string
  | ErrRandom
  | ErrPlaceholder nat

section \<open>Tokens\<close>

datatype kind = kindText | kindField | kindOpen | kindOpenNeg | kindClose

record token =
  tk_kind :: kind
  tk_text :: string
  tk_name :: string
  tk_filters :: "string list"
  tk_offset :: nat

definition text_token :: "string \<Rightarrow> token" where
  "text_token t = \<lparr>tk_kind = kindText, tk_text = t, tk_name = [], tk_filters = [], tk_offset = 0\<rparr>"

text \<open>The token of one tag: \<open>inner\<close> stands between the braces at \<open>opn\<close>, \<open>raw\<close> is the tag with them.\<close>

definition tag_tokens :: "string \<Rightarrow> nat \<Rightarrow> string \<Rightarrow> token list" where
  "tag_tokens raw opn inner =
     (if HasPrefix inner ''!'' then []
      else if inner = [] \<or> TrimSpace inner = [] then [text_token raw]
      else
        let trimmed = TrimSpace inner in
        if hd trimmed = CHR ''#'' \<or> hd trimmed = CHR ''^'' \<or> hd trimmed = CHR ''/'' then
          [\<lparr>tk_kind = (if hd trimmed = CHR ''^'' then kindOpenNeg
                       else if hd trimmed = CHR ''/'' then kindClose else kindOpen),
            tk_text = [], tk_name = TrimSpace (tl trimmed), tk_filters = [], tk_offset = opn\<rparr>]
        else
          let parts = map TrimSpace (Split CHR '':'' inner) in
          [\<lparr>tk_kind = kindField, tk_text = [], tk_name = last parts, tk_filters = butlast parts,
            tk_offset = opn\<rparr>])"

function tokenise_from :: "string \<Rightarrow> nat \<Rightarrow> render_error + token list" where
  "tokenise_from f i =
     (if i < length f then
        (case Index (drop i f) ''{{'' of
           None \<Rightarrow> Inr [text_token (drop i f)]
         | Some o1 \<Rightarrow>
             let opn = i + o1; pre = (if opn > i then [text_token (substr f i opn)] else []) in
             (case Index (drop (opn + 2) f) ''}}'' of
                None \<Rightarrow> Inl (ErrUnterminatedTag opn)
              | Some c \<Rightarrow>
                  let closeIdx = c + opn + 2; inner = substr f (opn + 2) closeIdx in
                  bindE (tokenise_from f (i + (o1 + (c + 4)))) (\<lambda>toks.
                  Inr (pre @ tag_tokens (substr f opn (closeIdx + 2)) opn inner @ toks))))
      else Inr [])"
  by pat_completeness auto
termination
  by (relation "measure (\<lambda>(f, i). length f - i)") auto

declare tokenise_from.simps [simp del]

definition tokenise :: "string \<Rightarrow> render_error + token list" where
  "tokenise format = tokenise_from format 0"

section \<open>Regular expressions of the filters\<close>

text \<open>\<open>htmlTagRe.ReplaceAllString(s, "")\<close> for \<open><[^>]*>\<close>.\<close>

function stripHTMLTags :: "string \<Rightarrow> string" where
  "stripHTMLTags s =
     (if s = [] then []
      else if hd s = CHR ''<'' \<and> CHR ''>'' \<in> set s
      then stripHTMLTags (tl (dropWhile (\<lambda>c. c \<noteq> CHR ''>'') s))
      else hd s # stripHTMLTags (tl s))"
  by pat_completeness auto

lemma tl_dropWhile_shorter: "s \<noteq> [] \<Longrightarrow> length (tl (dropWhile P s)) < length s"
  using length_dropWhile_le [of P s] by (cases s) (auto simp: less_Suc_eq_le diff_le_mono)

termination stripHTMLTags
  by (relation "measure length") (use tl_dropWhile_shorter in auto)

declare stripHTMLTags.simps [simp del]

definition re_space :: "char \<Rightarrow> bool" where
  "re_space c \<longleftrightarrow> c \<in> {CHR 0x09, CHR 0x0A, CHR 0x0C, CHR 0x0D, CHR 0x20}"

definition re_word :: "char \<Rightarrow> bool" where
  "re_word c \<longleftrightarrow> CHR ''0'' \<le> c \<and> c \<le> CHR ''9'' \<or> CHR ''A'' \<le> c \<and> c \<le> CHR ''Z''
     \<or> CHR ''a'' \<le> c \<and> c \<le> CHR ''z'' \<or> c = CHR ''_''"

definition lower_char :: "char \<Rightarrow> char" where
  "lower_char c = (if CHR ''A'' \<le> c \<and> c \<le> CHR ''Z'' then char_of (of_char c + (32::nat)) else c)"

definition fold_prefix :: "string \<Rightarrow> string \<Rightarrow> bool" where
  "fold_prefix s p \<longleftrightarrow> HasPrefix (map lower_char s) p"

text \<open>\<open>src\<close> under \<open>(?i)\<close>: the long s (two bytes) folds to an s.\<close>

definition drop_src :: "string \<Rightarrow> string option" where
  "drop_src r =
     (if fold_prefix r ''src'' then Some (drop 3 r)
      else if HasPrefix r [CHR 0xC5, CHR 0xBF] \<and> fold_prefix (drop 2 r) ''rc'' then Some (drop 4 r)
      else None)"

definition re_quote :: "char \<Rightarrow> bool" where
  "re_quote c \<longleftrightarrow> c = CHR 0x22 \<or> c = CHR 0x27"

text \<open>
  \<open>\bsrc\s*=\s*["']([^"']*)["'][^>]*>\<close> at \<open>r\<close>, after the byte \<open>prev\<close>: the group and what follows the
  match. \<open>last_src\<close> is the greedy \<open>[^>]*\<close> before it: the furthest of the first \<open>n\<close> positions.
\<close>

definition src_at :: "char \<Rightarrow> string \<Rightarrow> (string \<times> string) option" where
  "src_at prev r =
     (case drop_src r of
        None \<Rightarrow> None
      | Some a \<Rightarrow>
          let b = dropWhile re_space a; d = dropWhile re_space (tl b);
              v = takeWhile (\<lambda>c. \<not> re_quote c) (tl d); rest = dropWhile (\<lambda>c. c \<noteq> CHR ''>'') (tl (drop (length v) (tl d)))
          in if re_word prev = re_word (hd r) \<or> b = [] \<or> hd b \<noteq> CHR ''='' \<or> d = [] \<or> \<not> re_quote (hd d)
                \<or> drop (length v) (tl d) = [] \<or> rest = [] then None
             else Some (v, tl rest))"

fun last_src :: "char \<Rightarrow> string \<Rightarrow> nat \<Rightarrow> (string \<times> string) option" where
  "last_src prev r 0 = src_at prev r"
| "last_src prev [] (Suc n) = None"
| "last_src prev (c # r) (Suc n) =
     (case last_src c r n of Some m \<Rightarrow> Some m | None \<Rightarrow> src_at prev (c # r))"

definition img_at :: "string \<Rightarrow> (string \<times> string) option" where
  "img_at s =
     (if fold_prefix s ''<img'' \<and> \<not> (drop 4 s \<noteq> [] \<and> re_word (hd (drop 4 s)))
      then last_src (s ! 3) (drop 4 s) (length (takeWhile (\<lambda>c. c \<noteq> CHR ''>'') (drop 4 s)))
      else None)"

lemma drop_src_shorter: "drop_src r = Some a \<Longrightarrow> length a \<le> length r"
  by (auto simp: drop_src_def split: if_splits)

lemma src_at_shorter: "src_at prev r = Some (v, rest) \<Longrightarrow> length rest \<le> length r"
proof -
  assume a: "src_at prev r = Some (v, rest)"
  then obtain x where x: "drop_src r = Some x" by (auto simp: src_at_def split: option.splits)
  from a x obtain n where
    "rest = tl (dropWhile (\<lambda>c. c \<noteq> CHR ''>'') (tl (drop n (tl (dropWhile re_space (tl (dropWhile re_space x)))))))"
    by (auto simp: src_at_def Let_def split: if_splits)
  moreover have "length (tl (dropWhile P (tl (drop n (tl (dropWhile Q (tl (dropWhile Q y)))))))) \<le> length y"
    for P Q and y :: string
    using length_dropWhile_le [of Q y] length_dropWhile_le [of Q "tl (dropWhile Q y)"]
      length_dropWhile_le [of P "tl (drop n (tl (dropWhile Q (tl (dropWhile Q y)))))"] by simp
  ultimately have "length rest \<le> length x" by simp
  with drop_src_shorter [OF x] show ?thesis by simp
qed

lemma last_src_shorter: "last_src prev r n = Some (v, rest) \<Longrightarrow> length rest \<le> length r"
  by (induction prev r n rule: last_src.induct)
    (auto dest: src_at_shorter split: option.splits)

lemma img_at_shorter: "img_at s = Some (v, rest) \<Longrightarrow> s \<noteq> [] \<Longrightarrow> length rest < length s"
  by (cases s) (auto simp: img_at_def dest!: last_src_shorter split: if_splits)

text \<open>\<open>imgSrcRe.ReplaceAllString(value, "$1")\<close>.\<close>

function replace_imgs :: "string \<Rightarrow> string" where
  "replace_imgs s =
     (if s = [] then []
      else if img_at s \<noteq> None then fst (the (img_at s)) @ replace_imgs (snd (the (img_at s)))
      else hd s # replace_imgs (tl s))"
  by pat_completeness auto
termination
  by (relation "measure length") (auto simp: img_at_shorter)

declare replace_imgs.simps [simp del]

definition fieldHasContent :: "string \<Rightarrow> bool" where
  "fieldHasContent v \<longleftrightarrow> TrimSpace (stripHTMLTags (replace_imgs v)) \<noteq> []"

datatype furiganaMode = furiganaFull | furiganaKanjiOnly | furiganaKanaOnly

text \<open>\<open>furiganaRe\<close> at \<open>s\<close>: the base, the reading and what follows.\<close>

definition furi_at :: "string \<Rightarrow> (string \<times> string \<times> string) option" where
  "furi_at s =
     (let base = takeWhile (\<lambda>c. \<not> re_space c \<and> c \<noteq> CHR ''['' \<and> c \<noteq> CHR '']'') s;
          r = drop (length base) s; reading = takeWhile (\<lambda>c. c \<noteq> CHR '']'') (tl r);
          r' = drop (length reading) (tl r)
      in if base = [] \<or> r = [] \<or> hd r \<noteq> CHR ''['' \<or> reading = [] \<or> r' = [] then None
         else Some (base, reading, tl r'))"

lemma furi_at_shorter: "furi_at s = Some (b, g, rest) \<Longrightarrow> s \<noteq> [] \<Longrightarrow> length rest < length s"
  by (cases s) (auto simp: furi_at_def Let_def split: if_splits)

function furiganaFilter :: "furiganaMode \<Rightarrow> string \<Rightarrow> string" where
  "furiganaFilter mode s =
     (if s = [] then []
      else if furi_at s \<noteq> None then
        (case the (furi_at s) of (base, reading, _) \<Rightarrow>
           case mode of furiganaKanjiOnly \<Rightarrow> base | furiganaKanaOnly \<Rightarrow> reading
           | furiganaFull \<Rightarrow> ''<ruby>'' @ base @ ''<rt>'' @ reading @ ''</rt></ruby>'')
        @ furiganaFilter mode (snd (snd (the (furi_at s))))
      else hd s # furiganaFilter mode (tl s))"
  by pat_completeness auto
termination
  by (relation "measure (length \<circ> snd)") (auto simp: furi_at_shorter)

declare furiganaFilter.simps [simp del]

section \<open>Filters\<close>

definition textFilter :: "render_env \<Rightarrow> string \<Rightarrow> string" where
  "textFilter env v = EscapeString (env_Unescape env (stripHTMLTags v))"

definition hintFilter :: "string \<Rightarrow> string \<Rightarrow> string" where
  "hintFilter fieldName v =
     (if \<not> fieldHasContent v then []
      else ''<details><summary>'' @ EscapeString fieldName @ ''</summary>'' @ v @ ''</details>'')"

definition applyFilter :: "render_env \<Rightarrow> render_context \<Rightarrow> string \<Rightarrow> string \<Rightarrow> string \<Rightarrow> string" where
  "applyFilter env ctx fieldName filterName v =
     (if filterName = ''text'' then textFilter env v
      else if filterName = ''furigana'' then furiganaFilter furiganaFull v
      else if filterName = ''kanji'' then furiganaFilter furiganaKanjiOnly v
      else if filterName = ''kana'' then furiganaFilter furiganaKanaOnly v
      else if filterName = ''hint'' then hintFilter fieldName v
      else if filterName = ''cloze'' then clozeFilter ctx v
      else if filterName = ''tts'' then ''[unsupported: tts]''
      else if filterName = ''cloze-only'' then ''[unsupported: cloze-only]''
      else EscapeString (''[unknown filter: '' @ filterName @ '']''))"

text \<open>The placeholder and the mutable \<open>ctx.typeAnswer\<close>: the filter returns both.\<close>

definition type_placeholder :: "string \<Rightarrow> string" where
  "type_placeholder hex = ''DECKSHARETYPEANSWER'' @ hex @ ''DECKSHAREEND''"

definition typeFilter :: "render_env \<Rightarrow> string option \<Rightarrow> string \<Rightarrow> string \<Rightarrow> TypeAnswer option
    \<Rightarrow> render_error + string \<times> TypeAnswer option" where
  "typeFilter env rnd fieldName rawValue ta =
     (if ta \<noteq> None then Inr (EscapeString (''[duplicate type: '' @ fieldName @ '']''), ta)
      else
        (case rnd of
           None \<Rightarrow> Inl ErrRandom
         | Some hex \<Rightarrow>
             Inr (type_placeholder hex,
               Some \<lparr>ta_Field = fieldName,
                 ta_Expected = TrimSpace (env_Unescape env (stripHTMLTags rawValue)),
                 ta_Placeholder = type_placeholder hex\<rparr>)))"

definition lookupName :: "render_context \<Rightarrow> string \<Rightarrow> string option" where
  "lookupName ctx name =
     (if name = ''Tags'' then Some (Join '' '' (nf_Tags (rc_note ctx)))
      else if name = ''Type'' then Some (nf_NoteType (rc_note ctx))
      else if name = ''Deck'' then Some (nf_Deck (rc_note ctx))
      else if name = ''Subdeck'' then Some (nf_Subdeck (rc_note ctx))
      else if name = ''Card'' then Some (rc_cardName ctx)
      else rc_fieldIndex ctx name)"

definition applyFilters :: "render_env \<Rightarrow> string option \<Rightarrow> render_context \<Rightarrow> string \<Rightarrow> string list
    \<Rightarrow> TypeAnswer option \<Rightarrow> render_error + string \<times> TypeAnswer option" where
  "applyFilters env rnd ctx name filters ta =
     (case lookupName ctx name of
        None \<Rightarrow> Inr (EscapeString (''[unknown field: '' @ name @ '']''), ta)
      | Some raw \<Rightarrow>
          if filters = [] then Inr (raw, ta)
          else if hd filters = ''type'' then
            (if tl filters = [] then typeFilter env rnd name raw ta
             else Inr (EscapeString (''[unsupported: type:'' @ hd (tl filters) @ '':'' @ name @ '']''), ta))
          else if ''type'' \<in> set filters then Inr (EscapeString ''[unsupported: type: not outermost]'', ta)
          else Inr (foldr (applyFilter env ctx name) filters raw, ta))"

text \<open>\<open>^c(\d+)$\<close>: the section \<open>{{#c1}}\<close>.\<close>

definition cloze_name :: "string \<Rightarrow> string option" where
  "cloze_name name =
     (if name \<noteq> [] \<and> hd name = CHR ''c'' \<and> tl name \<noteq> [] \<and> list_all is_digit (tl name)
      then Some (tl name) else None)"

definition truthy :: "render_context \<Rightarrow> string \<Rightarrow> bool" where
  "truthy ctx name =
     (case cloze_name name of
        Some n \<Rightarrow>
          (case Atoi n of None \<Rightarrow> False | Some v \<Rightarrow> rc_isCloze ctx \<and> v = rc_ordinal ctx + 1)
      | None \<Rightarrow> (case lookupName ctx name of None \<Rightarrow> False | Some v \<Rightarrow> fieldHasContent v))"

definition writeFrontSide :: "render_context \<Rightarrow> TypeAnswer option \<Rightarrow> string \<times> TypeAnswer option" where
  "writeFrontSide ctx ta =
     (if rc_isQuestionSide ctx then (''[unsupported: FrontSide on the question side]'', ta)
      else
        (case rc_frontSideType ctx of
           None \<Rightarrow> (rc_frontSide ctx, ta)
         | Some ft \<Rightarrow>
             if ta \<noteq> None then (rc_frontSide ctx @ ''[duplicate type: '' @ ta_Field ft @ '']'', ta)
             else (rc_frontSide ctx, Some ft)))"

section \<open>Evaluation\<close>

record frame =
  fr_name :: string
  fr_emitting :: bool

text \<open>What a field tag writes.\<close>

definition field_output :: "render_env \<Rightarrow> string option \<Rightarrow> render_context \<Rightarrow> string \<Rightarrow> string list
    \<Rightarrow> TypeAnswer option \<Rightarrow> render_error + string \<times> TypeAnswer option" where
  "field_output env rnd ctx name filters ta =
     (if name = ''FrontSide'' \<and> filters = [] then Inr (writeFrontSide ctx ta)
      else applyFilters env rnd ctx name filters ta)"

type_synonym eval_state = "frame list \<times> string \<times> TypeAnswer option"

text \<open>The innermost section is the head of the stack.\<close>

definition emitting :: "frame list \<Rightarrow> bool" where
  "emitting stack \<longleftrightarrow> list_all fr_emitting stack"

definition eval_step :: "render_env \<Rightarrow> string option \<Rightarrow> render_context \<Rightarrow> eval_state \<Rightarrow> token
    \<Rightarrow> render_error + eval_state" where
  "eval_step env rnd ctx s tok =
     (case s of (stack, out, ta) \<Rightarrow>
        (case tk_kind tok of
           kindText \<Rightarrow> Inr (stack, if emitting stack then out @ tk_text tok else out, ta)
         | kindOpen \<Rightarrow>
             Inr (\<lparr>fr_name = tk_name tok, fr_emitting = (emitting stack \<and> truthy ctx (tk_name tok))\<rparr> # stack, out, ta)
         | kindOpenNeg \<Rightarrow>
             Inr (\<lparr>fr_name = tk_name tok, fr_emitting = (emitting stack \<and> \<not> truthy ctx (tk_name tok))\<rparr> # stack, out, ta)
         | kindClose \<Rightarrow>
             (case stack of
                [] \<Rightarrow> Inl (ErrSectionMismatch (tk_name tok))
              | fr # rest \<Rightarrow>
                  if fr_name fr \<noteq> tk_name tok then Inl (ErrSectionMismatch (tk_name tok))
                  else Inr (rest, out, ta))
         | kindField \<Rightarrow>
             if \<not> emitting stack then Inr (stack, out, ta)
             else bindE (field_output env rnd ctx (tk_name tok) (tk_filters tok) ta) (\<lambda>(v, ta').
                  Inr (stack, out @ v, ta'))))"

definition evaluate :: "render_env \<Rightarrow> string option \<Rightarrow> render_context \<Rightarrow> token list
    \<Rightarrow> render_error + string \<times> TypeAnswer option" where
  "evaluate env rnd ctx toks =
     bindE (foldE (eval_step env rnd ctx) ([], [], None) toks) (\<lambda>(stack, out, ta).
     case stack of [] \<Rightarrow> Inr (out, ta) | fr # _ \<Rightarrow> Inl (ErrUnclosedSection (fr_name fr)))"

section \<open>The two sides of a card\<close>

text \<open>\<open>strings.Count\<close> of a non-empty string, \<open>strings.Replace(s, old, new, 1)\<close>.\<close>

function count_str :: "string \<Rightarrow> string \<Rightarrow> nat" where
  "count_str p s =
     (if s = [] \<or> p = [] then 0
      else if HasPrefix s p then Suc (count_str p (drop (length p) s)) else count_str p (tl s))"
  by pat_completeness auto
termination
  by (relation "measure (length \<circ> snd)") auto

declare count_str.simps [simp del]

definition Replace1 :: "string \<Rightarrow> string \<Rightarrow> string \<Rightarrow> string" where
  "Replace1 s old new =
     (case Index s old of None \<Rightarrow> s | Some i \<Rightarrow> take i s @ new @ drop (i + length old) s)"

record Rendered =
  r_HTML :: string
  r_Type :: "TypeAnswer option"

record card_template =
  ct_Name :: string
  ct_Qfmt :: string
  ct_Afmt :: string

definition finaliseRendered :: "string \<Rightarrow> TypeAnswer option \<Rightarrow> render_error + Rendered" where
  "finaliseRendered html ta =
     (case ta of
        Some t \<Rightarrow>
          if count_str (ta_Placeholder t) html \<noteq> 1
          then Inl (ErrPlaceholder (count_str (ta_Placeholder t) html))
          else Inr \<lparr>r_HTML = html, r_Type = ta\<rparr>
      | None \<Rightarrow> Inr \<lparr>r_HTML = html, r_Type = ta\<rparr>)"

text \<open>A later field of the same name wins, as the loop over \<open>note.Fields\<close> writes the map.\<close>

definition field_index :: "(string \<times> string) list \<Rightarrow> string \<Rightarrow> string option" where
  "field_index fs = foldl (\<lambda>m (n, v). m(n \<mapsto> v)) Map.empty fs"

definition side_context :: "card_template \<Rightarrow> note_fields \<Rightarrow> int \<Rightarrow> bool \<Rightarrow> bool \<Rightarrow> string \<Rightarrow> TypeAnswer option
    \<Rightarrow> render_context" where
  "side_context tmpl note ordinal isCloze question front frontType =
     \<lparr>rc_note = note, rc_fieldIndex = field_index (nf_Fields note), rc_ordinal = ordinal,
      rc_isCloze = isCloze, rc_cardName = ct_Name tmpl, rc_isQuestionSide = question,
      rc_frontSide = front, rc_frontSideType = frontType\<rparr>"

definition RenderCard :: "render_env \<Rightarrow> string option \<Rightarrow> string option \<Rightarrow> card_template \<Rightarrow> note_fields
    \<Rightarrow> int \<Rightarrow> bool \<Rightarrow> render_error + Rendered \<times> Rendered" where
  "RenderCard env rndQ rndA tmpl note ordinal isCloze =
     bindE (tokenise (ct_Qfmt tmpl)) (\<lambda>qToks.
     bindE (tokenise (ct_Afmt tmpl)) (\<lambda>aToks.
     bindE (evaluate env rndQ (side_context tmpl note ordinal isCloze True [] None) qToks) (\<lambda>(q, qType).
     let qSanitised = env_Sanitize env q in
     bindE (finaliseRendered qSanitised qType) (\<lambda>question.
     bindE (evaluate env rndA (side_context tmpl note ordinal isCloze False qSanitised qType) aToks)
       (\<lambda>(a, aType).
     bindE (finaliseRendered (env_Sanitize env a) aType) (\<lambda>answer.
     Inr (question, answer)))))))"

definition type_input_widget :: "TypeAnswer \<Rightarrow> string" where
  "type_input_widget t =
     ''<input type='' @ quoted ''text'' @ '' class='' @ quoted ''type-answer'' @ '' data-expected=''
     @ quoted (EscapeString (ta_Expected t)) @ '' autocomplete='' @ quoted ''off''
     @ '' autocapitalize='' @ quoted ''off'' @ '' autocorrect='' @ quoted ''off''
     @ '' spellcheck='' @ quoted ''false'' @ '' aria-label='' @ quoted ''Type the answer'' @ ''>''"

definition TypeAnswerInput :: "Rendered \<Rightarrow> string" where
  "TypeAnswerInput r =
     (case r_Type r of None \<Rightarrow> r_HTML r
      | Some t \<Rightarrow> Replace1 (r_HTML r) (ta_Placeholder t) (type_input_widget t))"

definition TypeAnswerExpected :: "Rendered \<Rightarrow> string" where
  "TypeAnswerExpected r =
     (case r_Type r of None \<Rightarrow> r_HTML r
      | Some t \<Rightarrow> Replace1 (r_HTML r) (ta_Placeholder t)
          (''<span class='' @ quoted ''type-answer-expected'' @ ''>'' @ EscapeString (ta_Expected t) @ ''</span>''))"

section \<open>Properties\<close>

text \<open>What the section tags of a template alone decide: the stack of open names.\<close>

fun section_check :: "string list \<Rightarrow> token list \<Rightarrow> render_error option" where
  "section_check [] [] = None"
| "section_check (n # ns) [] = Some (ErrUnclosedSection n)"
| "section_check ns (tok # toks) =
     (case tk_kind tok of
        kindOpen \<Rightarrow> section_check (tk_name tok # ns) toks
      | kindOpenNeg \<Rightarrow> section_check (tk_name tok # ns) toks
      | kindClose \<Rightarrow>
          (case ns of
             [] \<Rightarrow> Some (ErrSectionMismatch (tk_name tok))
           | n # ns' \<Rightarrow> if n \<noteq> tk_name tok then Some (ErrSectionMismatch (tk_name tok)) else section_check ns' toks)
      | _ \<Rightarrow> section_check ns toks)"

lemma eval_step_kinds:
  "tk_kind tok = kindText \<Longrightarrow> eval_step env rnd ctx (stack, out, ta) tok =
     Inr (stack, if emitting stack then out @ tk_text tok else out, ta)"
  "tk_kind tok = kindOpen \<Longrightarrow> eval_step env rnd ctx (stack, out, ta) tok =
     Inr (\<lparr>fr_name = tk_name tok, fr_emitting = (emitting stack \<and> truthy ctx (tk_name tok))\<rparr> # stack, out, ta)"
  "tk_kind tok = kindOpenNeg \<Longrightarrow> eval_step env rnd ctx (stack, out, ta) tok =
     Inr (\<lparr>fr_name = tk_name tok, fr_emitting = (emitting stack \<and> \<not> truthy ctx (tk_name tok))\<rparr> # stack, out, ta)"
  "tk_kind tok = kindClose \<Longrightarrow> eval_step env rnd ctx ([], out, ta) tok = Inl (ErrSectionMismatch (tk_name tok))"
  "tk_kind tok = kindClose \<Longrightarrow> eval_step env rnd ctx (fr # stack, out, ta) tok =
     (if fr_name fr \<noteq> tk_name tok then Inl (ErrSectionMismatch (tk_name tok)) else Inr (stack, out, ta))"
  "tk_kind tok = kindField \<Longrightarrow> eval_step env rnd ctx (stack, out, ta) tok =
     (if \<not> emitting stack then Inr (stack, out, ta)
      else bindE (field_output env rnd ctx (tk_name tok) (tk_filters tok) ta) (\<lambda>(v, ta'). Inr (stack, out @ v, ta')))"
  by (simp_all add: eval_step_def)

lemma field_output_total: "\<exists>v ta'. field_output env (Some hex) ctx name fs ta = Inr (v, ta')"
proof -
  have "\<exists>v ta'. typeFilter env (Some hex) name raw ta = Inr (v, ta')" for raw
    by (simp add: typeFilter_def)
  then show ?thesis
    by (auto simp: field_output_def applyFilters_def split: option.split intro: surj_pair)
qed

definition finish :: "eval_state \<Rightarrow> render_error + string \<times> TypeAnswer option" where
  "finish s = (case s of (stack, out, ta) \<Rightarrow>
     case stack of [] \<Rightarrow> Inr (out, ta) | fr # _ \<Rightarrow> Inl (ErrUnclosedSection (fr_name fr)))"

lemma evaluate_finish: "evaluate env rnd ctx toks = bindE (foldE (eval_step env rnd ctx) ([], [], None) toks) finish"
  unfolding evaluate_def finish_def ..

lemma eval_section_check:
  "case section_check (map fr_name stack) toks of
     Some e \<Rightarrow> bindE (foldE (eval_step env (Some hex) ctx) (stack, out, ta) toks) finish = Inl e
   | None \<Rightarrow> \<exists>r. bindE (foldE (eval_step env (Some hex) ctx) (stack, out, ta) toks) finish = Inr r"
proof (induction toks arbitrary: stack out ta)
  case Nil
  then show ?case by (cases stack) (simp_all add: finish_def)
next
  case (Cons tok toks)
  show ?case
  proof (cases "tk_kind tok")
    case kindField
    obtain v ta' where "field_output env (Some hex) ctx (tk_name tok) (tk_filters tok) ta = Inr (v, ta')"
      using field_output_total by blast
    then show ?thesis
      using kindField Cons [of stack "out @ v" ta'] Cons [of stack out ta]
      by (simp add: eval_step_kinds split: option.splits)
  next
    case kindClose
    then show ?thesis
      using Cons [of "tl stack" out ta] by (cases stack) (auto simp: eval_step_kinds split: option.splits)
  next
    case kindOpen
    then show ?thesis
      using Cons [of "\<lparr>fr_name = tk_name tok, fr_emitting = (emitting stack \<and> truthy ctx (tk_name tok))\<rparr> # stack" out ta]
      by (simp add: eval_step_kinds split: option.splits)
  next
    case kindOpenNeg
    then show ?thesis
      using Cons [of "\<lparr>fr_name = tk_name tok, fr_emitting = (emitting stack \<and> \<not> truthy ctx (tk_name tok))\<rparr> # stack" out ta]
      by (simp add: eval_step_kinds split: option.splits)
  next
    case kindText
    then show ?thesis
      using Cons [of stack out ta] Cons [of stack "out @ tk_text tok" ta]
      by (simp add: eval_step_kinds split: option.splits)
  qed
qed

text \<open>C15: a template that is malformed is malformed for every note: whether its sections nest, and which
  error is reported when they do not, depends on the tags alone and not on the fields, the side or the
  card, so a template that renders once never starts to fail for the next note.\<close>

theorem section_errors_note_independent:
  "(evaluate env (Some hex) ctx toks = Inl e) = (evaluate env' (Some hex') ctx' toks = Inl e)"
  using eval_section_check [where stack = "[]" and toks = toks and env = env and hex = hex and ctx = ctx and out = "[]" and ta = None]
    eval_section_check [where stack = "[]" and toks = toks and env = env' and hex = hex' and ctx = ctx' and out = "[]" and ta = None]
  by (auto simp: evaluate_finish split: option.splits)

text \<open>The same language as trees, and their meaning.\<close>

datatype tnode = NText string | NField string "string list" | NSection bool string "tnode list"

fun flatten_node :: "tnode \<Rightarrow> token list" and flatten_nodes :: "tnode list \<Rightarrow> token list" where
  "flatten_node (NText t) = [text_token t]"
| "flatten_node (NField name fs) =
     [\<lparr>tk_kind = kindField, tk_text = [], tk_name = name, tk_filters = fs, tk_offset = 0\<rparr>]"
| "flatten_node (NSection neg name body) =
     \<lparr>tk_kind = (if neg then kindOpenNeg else kindOpen), tk_text = [], tk_name = name, tk_filters = [], tk_offset = 0\<rparr>
     # flatten_nodes body
     @ [\<lparr>tk_kind = kindClose, tk_text = [], tk_name = name, tk_filters = [], tk_offset = 0\<rparr>]"
| "flatten_nodes [] = []"
| "flatten_nodes (n # ns) = flatten_node n @ flatten_nodes ns"

fun render_node :: "render_env \<Rightarrow> string option \<Rightarrow> render_context \<Rightarrow> tnode \<Rightarrow> TypeAnswer option
      \<Rightarrow> render_error + string \<times> TypeAnswer option"
  and render_nodes :: "render_env \<Rightarrow> string option \<Rightarrow> render_context \<Rightarrow> tnode list \<Rightarrow> TypeAnswer option
      \<Rightarrow> render_error + string \<times> TypeAnswer option" where
  "render_node env rnd ctx (NText t) ta = Inr (t, ta)"
| "render_node env rnd ctx (NField name fs) ta = field_output env rnd ctx name fs ta"
| "render_node env rnd ctx (NSection neg name body) ta =
     (if truthy ctx name = neg then Inr ([], ta) else render_nodes env rnd ctx body ta)"
| "render_nodes env rnd ctx [] ta = Inr ([], ta)"
| "render_nodes env rnd ctx (n # ns) ta =
     bindE (render_node env rnd ctx n ta) (\<lambda>(v, ta').
     bindE (render_nodes env rnd ctx ns ta') (\<lambda>(w, ta''). Inr (v @ w, ta'')))"

lemma eval_tree:
  "foldE (eval_step env rnd ctx) (stack, out, ta) (flatten_node n @ rest) =
     (if emitting stack
      then bindE (render_node env rnd ctx n ta) (\<lambda>(v, ta'). foldE (eval_step env rnd ctx) (stack, out @ v, ta') rest)
      else foldE (eval_step env rnd ctx) (stack, out, ta) rest)"
  "foldE (eval_step env rnd ctx) (stack, out, ta) (flatten_nodes ns @ rest) =
     (if emitting stack
      then bindE (render_nodes env rnd ctx ns ta) (\<lambda>(v, ta'). foldE (eval_step env rnd ctx) (stack, out @ v, ta') rest)
      else foldE (eval_step env rnd ctx) (stack, out, ta) rest)"
proof (induction n and ns arbitrary: stack out ta rest and stack out ta rest
    rule: flatten_node_flatten_nodes.induct)
  case (2 name fs)
  then show ?case
    by (cases "field_output env rnd ctx name fs ta") (auto simp: eval_step_kinds)
next
  case (3 neg name body)
  let ?fr = "\<lparr>fr_name = name, fr_emitting = (emitting stack \<and> truthy ctx name \<noteq> neg)\<rparr>"
  have "emitting (?fr # stack) = (emitting stack \<and> truthy ctx name \<noteq> neg)" by (auto simp: emitting_def)
  then show ?case
    by (cases neg; cases "emitting stack"; cases "truthy ctx name"; cases "render_nodes env rnd ctx body ta")
      (auto simp: eval_step_kinds 3)
next
  case (5 n ns)
  show ?case
    by (cases "emitting stack"; cases "render_node env rnd ctx n ta")
      (auto simp: 5 bindE_def split: sum.splits prod.splits)
qed (auto simp: eval_step_kinds text_token_def)

text \<open>C14: the section stack implements the obvious reading of a template as a tree: text is copied, a
  field tag writes its filtered value, a section is rendered when its condition holds and contributes
  nothing when it does not, and the one \<open>{{type:}}\<close> widget is threaded from left to right.\<close>

theorem evaluate_tree:
  "evaluate env rnd ctx (flatten_nodes ns) = render_nodes env rnd ctx ns None"
  using eval_tree(2) [of env rnd ctx "[]" "[]" None ns "[]"]
  by (cases "render_nodes env rnd ctx ns None") (auto simp: evaluate_finish finish_def emitting_def)

lemma count_str_Index: "count_str p s \<noteq> 0 \<Longrightarrow> Index s p \<noteq> None"
proof (induction p s rule: count_str.induct)
  case (1 p s)
  note count_str.simps [of p s]
  with 1 show ?case by (cases s) (auto split: if_splits)
qed

lemma finaliseRendered_Inr:
  assumes "finaliseRendered html ta = Inr r"
  shows "r_HTML r = html \<and> r_Type r = ta
    \<and> (\<forall>t. ta = Some t \<longrightarrow> (\<exists>pre post. html = pre @ ta_Placeholder t @ post
          \<and> (\<forall>w. Replace1 html (ta_Placeholder t) w = pre @ w @ post)))"
proof -
  from assms have r: "r_HTML r = html" "r_Type r = ta"
    "\<forall>t. ta = Some t \<longrightarrow> count_str (ta_Placeholder t) html = 1"
    by (auto simp: finaliseRendered_def split: option.splits if_splits)
  have "\<exists>pre post. html = pre @ ta_Placeholder t @ post
          \<and> (\<forall>w. Replace1 html (ta_Placeholder t) w = pre @ w @ post)" if "ta = Some t" for t
  proof -
    from r(3) that obtain i where i: "Index html (ta_Placeholder t) = Some i"
      using count_str_Index [of "ta_Placeholder t" html] by auto
    from Index_split [OF i] i show ?thesis by (auto simp: Replace1_def)
  qed
  with r show ?thesis by blast
qed

text \<open>What a browser reads in text that was escaped: the five entities, and every other byte as it is.\<close>

fun read_entities :: "nat \<Rightarrow> string \<Rightarrow> string" where
  "read_entities (Suc n) [] = []"
| "read_entities (Suc n) (c # s) =
     (if HasPrefix (c # s) ''&amp;'' then CHR ''&'' # read_entities n (drop 4 s)
      else if HasPrefix (c # s) ''&#39;'' then CHR 0x27 # read_entities n (drop 4 s)
      else if HasPrefix (c # s) ''&lt;'' then CHR ''<'' # read_entities n (drop 3 s)
      else if HasPrefix (c # s) ''&gt;'' then CHR ''>'' # read_entities n (drop 3 s)
      else if HasPrefix (c # s) ''&#34;'' then CHR 0x22 # read_entities n (drop 4 s)
      else c # read_entities n s)"
| "read_entities 0 s = []"

lemma read_entities_EscapeString: "length s < n \<Longrightarrow> read_entities n (EscapeString s) = s"
proof (induction s arbitrary: n)
  case (Cons c s)
  then show ?case by (cases n) auto
qed (auto elim: less_natE)

text \<open>The answer widgets around the expected answer, and what may stand in that place.\<close>

definition input_head :: string where
  "input_head = ''<input type='' @ quoted ''text'' @ '' class='' @ quoted ''type-answer'' @ '' data-expected='' @ [CHR 0x22]"

definition input_tail :: string where
  "input_tail = [CHR 0x22] @ '' autocomplete='' @ quoted ''off'' @ '' autocapitalize='' @ quoted ''off'' @ '' autocorrect='' @ quoted ''off''
     @ '' spellcheck='' @ quoted ''false'' @ '' aria-label='' @ quoted ''Type the answer'' @ ''>''"

definition expected_head :: string where
  "expected_head = ''<span class='' @ quoted ''type-answer-expected'' @ ''>''"

definition inert_copy :: "string \<Rightarrow> string \<Rightarrow> bool" where
  "inert_copy v x \<longleftrightarrow> list_all (\<lambda>c. \<not> html_active c) v \<and> read_entities (Suc (length x)) v = x"

text \<open>C16: nothing reaches the page unsanitised but the answer widget. Each side of a rendered card is the sanitiser's
  output; both widgets replace the one placeholder in it and leave the rest as it was; and of what they put there,
  all but one value is fixed markup, and that value has no \<open><\<close>, no \<open>>\<close> and no quote, so it can neither leave its
  attribute nor open a tag, and reads as the expected answer.\<close>

theorem RenderCard_sanitised:
  assumes "RenderCard env rndQ rndA tmpl note ordinal isCloze = Inr (question, answer)"
    and "side = question \<or> side = answer"
  shows "r_HTML side \<in> range (env_Sanitize env)
    \<and> (case r_Type side of
         None \<Rightarrow> TypeAnswerInput side = r_HTML side \<and> TypeAnswerExpected side = r_HTML side
       | Some t \<Rightarrow> (\<exists>pre post v. r_HTML side = pre @ ta_Placeholder t @ post \<and> inert_copy v (ta_Expected t)
            \<and> TypeAnswerInput side = pre @ input_head @ v @ input_tail @ post
            \<and> TypeAnswerExpected side = pre @ expected_head @ v @ ''</span>'' @ post))"
proof -
  from assms(1) obtain q qType a aType where
    f: "finaliseRendered (env_Sanitize env q) qType = Inr question"
      "finaliseRendered (env_Sanitize env a) aType = Inr answer"
    by (auto simp: RenderCard_def Let_def bindE_eq_Inr)
  from assms(2) f obtain x ta where "finaliseRendered (env_Sanitize env x) ta = Inr side" by blast
  note F = finaliseRendered_Inr [OF this]
  show ?thesis
  proof (cases ta)
    case None
    with F show ?thesis by (simp add: TypeAnswerInput_def TypeAnswerExpected_def)
  next
    case (Some t)
    with F have ty: "r_Type side = Some t" by simp
    from F Some obtain pre post where p: "r_HTML side = pre @ ta_Placeholder t @ post"
      "\<And>w. Replace1 (r_HTML side) (ta_Placeholder t) w = pre @ w @ post" by auto
    have inert: "inert_copy (EscapeString (ta_Expected t)) (ta_Expected t)"
      by (auto simp: inert_copy_def read_entities_EscapeString list_all_iff dest: EscapeString_inert)
    have "TypeAnswerInput side = pre @ input_head @ EscapeString (ta_Expected t) @ input_tail @ post"
      "TypeAnswerExpected side = pre @ expected_head @ EscapeString (ta_Expected t) @ ''</span>'' @ post"
      by (simp_all add: TypeAnswerInput_def TypeAnswerExpected_def ty p(2) type_input_widget_def input_head_def
        input_tail_def expected_head_def quoted_def)
    with p(1) inert have "\<exists>pre post v. r_HTML side = pre @ ta_Placeholder t @ post \<and> inert_copy v (ta_Expected t)
        \<and> TypeAnswerInput side = pre @ input_head @ v @ input_tail @ post
        \<and> TypeAnswerExpected side = pre @ expected_head @ v @ ''</span>'' @ post" by blast
    moreover from F have "r_HTML side \<in> range (env_Sanitize env)" by simp
    ultimately show ?thesis by (simp add: ty)
  qed
qed

text \<open>A template with a typed answer, rendered with a sanitiser and an entity decoder that do nothing.\<close>

definition demo_render_env :: render_env where
  "demo_render_env = \<lparr>env_Sanitize = id, env_Unescape = id\<rparr>"

definition demo_note :: note_fields where
  "demo_note = \<lparr>nf_Fields = [(''Front'', ''cat''), (''Back'', ''chat'')], nf_Tags = [], nf_NoteType = ''Basic'',
     nf_Deck = ''D'', nf_Subdeck = ''D''\<rparr>"

definition demo_template :: card_template where
  "demo_template = \<lparr>ct_Name = ''Card 1'', ct_Qfmt = ''{{Front}} {{type:Back}}'', ct_Afmt = ''{{Back}}''\<rparr>"

lemma demo_tokens:
  "tokenise ''{{Front}} {{type:Back}}'' = Inr
     [\<lparr>tk_kind = kindField, tk_text = [], tk_name = ''Front'', tk_filters = [], tk_offset = 0\<rparr>,
      text_token '' '',
      \<lparr>tk_kind = kindField, tk_text = [], tk_name = ''Back'', tk_filters = [''type''], tk_offset = 10\<rparr>]"
  "tokenise ''{{Back}}'' = Inr
     [\<lparr>tk_kind = kindField, tk_text = [], tk_name = ''Back'', tk_filters = [], tk_offset = 0\<rparr>]"
  by (simp_all add: tokenise_def tokenise_from.simps tag_tokens_def substr_def TrimSpace_def trim_left.simps
      space_runes_def Let_def)

lemma demo_render:
  "RenderCard demo_render_env (Some ''aa'') None demo_template demo_note 0 False = Inr
     (\<lparr>r_HTML = ''cat '' @ type_placeholder ''aa'',
        r_Type = Some \<lparr>ta_Field = ''Back'', ta_Expected = ''chat'', ta_Placeholder = type_placeholder ''aa''\<rparr>\<rparr>,
      \<lparr>r_HTML = ''chat'', r_Type = None\<rparr>)"
  by (simp add: RenderCard_def demo_template_def demo_tokens demo_note_def demo_render_env_def evaluate_def
      eval_step_def emitting_def field_output_def applyFilters_def lookupName_def side_context_def
      field_index_def typeFilter_def text_token_def stripHTMLTags.simps TrimSpace_def trim_left.simps
      space_runes_def finaliseRendered_def type_placeholder_def count_str.simps Let_def)

lemma RenderCard_sanitised_witness:
  "\<exists>q a. RenderCard demo_render_env (Some ''aa'') None demo_template demo_note 0 False = Inr (q, a)
     \<and> r_HTML q \<in> range (env_Sanitize demo_render_env)
     \<and> (\<exists>pre post v. TypeAnswerInput q = pre @ input_head @ v @ input_tail @ post \<and> inert_copy v ''chat'')"
  using RenderCard_sanitised [OF demo_render disjI1 [OF refl]] demo_render by auto

end
