(* ===== verification/Css.thy ===== *)
theory Css
  imports Card_Template
begin

text \<open>
  The sanitiser of a note type's style sheet (\<open>internal/render/css.go\<close>, with the element lists of
  \<open>sanitise.go\<close>): the value grammar, the selector grammar, the scoping, and the dark-mode variant. The
  CSS parser is a third-party library: its result is an argument, \<open>None\<close> being a parse error.
\<close>

definition ScopeClass :: string where "ScopeClass = ''deckshare-card''"

definition sanitisableElements :: "string list" where
  "sanitisableElements =
     [''b'', ''strong'', ''i'', ''em'', ''u'', ''s'', ''strike'', ''sub'', ''sup'', ''small'',
      ''mark'', ''br'', ''hr'', ''p'', ''div'', ''span'', ''pre'', ''code'', ''kbd'',
      ''blockquote'', ''h1'', ''h2'', ''h3'', ''h4'', ''h5'', ''h6'', ''ul'', ''ol'', ''li'',
      ''dl'', ''dt'', ''dd'', ''table'', ''thead'', ''tbody'', ''tfoot'', ''tr'', ''th'', ''td'',
      ''caption'', ''colgroup'', ''col'', ''ruby'', ''rt'', ''rb'', ''rp'', ''details'',
      ''summary'', ''a'', ''img'', ''figure'', ''figcaption'']"

definition svgShapeElements :: "string list" where
  "svgShapeElements = [''svg'', ''g'', ''path'', ''rect'', ''circle'', ''ellipse'', ''line'', ''polyline'',
      ''polygon'']"

definition allAllowedElements :: "string list" where
  "allAllowedElements = sanitisableElements @ svgShapeElements"

definition allowedCSSProperties :: "string list" where
  "allowedCSSProperties =
     [''color'', ''background-color'', ''opacity'', ''font'', ''font-family'', ''font-size'',
      ''font-style'', ''font-weight'', ''font-variant'', ''line-height'', ''letter-spacing'',
      ''word-spacing'', ''text-align'', ''text-decoration'', ''text-decoration-color'',
      ''text-indent'', ''text-transform'', ''white-space'', ''word-break'', ''overflow-wrap'',
      ''direction'', ''unicode-bidi'', ''vertical-align'', ''list-style-type'',
      ''list-style-position'', ''margin'', ''margin-top'', ''margin-right'', ''margin-bottom'',
      ''margin-left'', ''padding'', ''padding-top'', ''padding-right'', ''padding-bottom'',
      ''padding-left'', ''border'', ''border-top'', ''border-right'', ''border-bottom'',
      ''border-left'', ''border-color'', ''border-style'', ''border-width'', ''border-radius'',
      ''border-collapse'', ''border-spacing'', ''width'', ''height'', ''min-width'', ''min-height'',
      ''max-width'', ''max-height'', ''display'', ''overflow'', ''text-shadow'', ''box-shadow'',
      ''ruby-align'', ''ruby-position'', ''fill'', ''stroke'', ''stroke-width'', ''fill-opacity'',
      ''stroke-opacity'', ''stroke-linecap'', ''stroke-linejoin'', ''stroke-dasharray'',
      ''fill-rule'']"

definition displayEnum :: "string list" where
  "displayEnum =
     [''block'', ''inline'', ''inline-block'', ''flex'', ''grid'', ''none'', ''table'',
      ''table-row'', ''table-cell'', ''list-item'']"

definition namedColours :: "string list" where
  "namedColours =
     [''black'', ''white'', ''red'', ''green'', ''blue'', ''yellow'', ''orange'', ''purple'',
      ''pink'', ''gray'', ''grey'', ''brown'', ''cyan'', ''magenta'', ''lime'', ''navy'', ''teal'',
      ''maroon'', ''olive'', ''silver'', ''gold'', ''indigo'', ''violet'', ''transparent'',
      ''currentcolor'', ''inherit'', ''initial'', ''unset'']"

definition keywordEnumProperties :: "(string \<times> string list) list" where
  "keywordEnumProperties =
     [(''display'', displayEnum),
      (''text-align'', [''left'', ''right'', ''center'', ''justify'', ''start'', ''end'']),
      (''font-style'', [''normal'', ''italic'', ''oblique'']),
      (''font-weight'', [''normal'', ''bold'', ''bolder'', ''lighter'', ''100'', ''200'', ''300'', ''400'', ''500'',
         ''600'', ''700'', ''800'', ''900'']),
      (''white-space'', [''normal'', ''nowrap'', ''pre'', ''pre-wrap'', ''pre-line'']),
      (''overflow'', [''visible'', ''hidden'', ''scroll'', ''auto'', ''clip'']),
      (''border-style'', [''none'', ''solid'', ''dashed'', ''dotted'', ''double'', ''groove'', ''ridge'', ''inset'',
         ''outset'', ''hidden'']),
      (''list-style-type'', [''none'', ''disc'', ''circle'', ''square'', ''decimal'', ''lower-alpha'', ''upper-alpha'',
         ''lower-roman'', ''upper-roman'']),
      (''direction'', [''ltr'', ''rtl'']),
      (''unicode-bidi'', [''normal'', ''embed'', ''isolate'', ''bidi-override'', ''isolate-override'', ''plaintext'']),
      (''vertical-align'', [''baseline'', ''sub'', ''super'', ''top'', ''text-top'', ''middle'', ''bottom'',
         ''text-bottom'']),
      (''text-transform'', [''none'', ''capitalize'', ''uppercase'', ''lowercase'']),
      (''word-break'', [''normal'', ''break-all'', ''keep-all'', ''break-word'']),
      (''text-decoration'', [''none'', ''underline'', ''overline'', ''line-through'']),
      (''border-collapse'', [''collapse'', ''separate'']),
      (''list-style-position'', [''inside'', ''outside'']),
      (''overflow-wrap'', [''normal'', ''break-word'', ''anywhere'']),
      (''fill'', [''none'']),
      (''stroke'', [''none'']),
      (''stroke-linecap'', [''butt'', ''round'', ''square'']),
      (''stroke-linejoin'', [''miter'', ''round'', ''bevel'']),
      (''fill-rule'', [''nonzero'', ''evenodd''])]"

text \<open>
  \<open>strings.ToLower\<close>, for comparison with ASCII names: two runes beyond ASCII, the Kelvin sign and the
  dotted capital I, have an ASCII lower case.
\<close>

fun ToLower :: "string \<Rightarrow> string" where
  "ToLower [] = []"
| "ToLower (a # b # c # s) =
     (if a = CHR 0xE2 \<and> b = CHR 0x84 \<and> c = CHR 0xAA then CHR ''k'' # ToLower s
      else if a = CHR 0xC4 \<and> b = CHR 0xB0 then CHR ''i'' # ToLower (c # s)
      else lower_char a # ToLower (b # c # s))"
| "ToLower (a # s) = (if a # s = [CHR 0xC4, CHR 0xB0] then ''i'' else lower_char a # ToLower s)"

section \<open>Values\<close>

definition is_hex :: "char \<Rightarrow> bool" where
  "is_hex c \<longleftrightarrow> is_digit c \<or> CHR ''A'' \<le> c \<and> c \<le> CHR ''F'' \<or> CHR ''a'' \<le> c \<and> c \<le> CHR ''f''"

definition hexColour :: "string \<Rightarrow> bool" where
  "hexColour v \<longleftrightarrow> v \<noteq> [] \<and> hd v = CHR ''#'' \<and> list_all is_hex (tl v) \<and> length (tl v) \<in> {3, 6, 8}"

definition css_units :: "string list" where
  "css_units = [[], ''px'', ''em'', ''rem'', ''%'', ''ex'', ''ch'', ''vw'', ''vh'', ''pt'', ''cm'', ''mm'', ''in'']"

definition lengthToken :: "string \<Rightarrow> bool" where
  "lengthToken v =
     (let a = (if v \<noteq> [] \<and> hd v = CHR ''-'' then tl v else v);
          whole = takeWhile is_digit a; b = dropWhile is_digit a;
          c = (if b \<noteq> [] \<and> hd b = CHR ''.'' \<and> takeWhile is_digit (tl b) \<noteq> [] then dropWhile is_digit (tl b) else b)
      in whole \<noteq> [] \<and> map lower_char c \<in> set css_units)"

definition is_alnum :: "char \<Rightarrow> bool" where
  "is_alnum c \<longleftrightarrow> is_digit c \<or> CHR ''A'' \<le> c \<and> c \<le> CHR ''Z'' \<or> CHR ''a'' \<le> c \<and> c \<le> CHR ''z''"

definition fontFamily :: "string \<Rightarrow> bool" where
  "fontFamily v \<longleftrightarrow> v \<noteq> [] \<and> list_all (\<lambda>c. is_alnum c \<or> c \<in> set '' ,_-'') v"

definition colourFunc :: "string \<Rightarrow> bool" where
  "colourFunc ident \<longleftrightarrow> map lower_char ident \<in> set [''rgb'', ''rgba'', ''hsl'', ''hsla'']"

definition isIdentChar :: "char \<Rightarrow> bool" where
  "isIdentChar b \<longleftrightarrow> CHR ''A'' \<le> b \<and> b \<le> CHR ''Z'' \<or> CHR ''a'' \<le> b \<and> b \<le> CHR ''z'' \<or> b = CHR ''-''"

text \<open>The identifier before a parenthesis: \<open>before\<close> is the value up to it, reversed.\<close>

fun bare_paren :: "nat \<Rightarrow> string \<Rightarrow> string \<Rightarrow> bool" where
  "bare_paren depth before [] = (depth = 0)"
| "bare_paren depth before (c # v) =
     (if c = CHR ''('' then
        \<not> 0 < depth \<and> colourFunc (rev (takeWhile isIdentChar before)) \<and> bare_paren (depth + 1) (c # before) v
      else if c = CHR '')'' then \<not> depth = 0 \<and> bare_paren (depth - 1) (c # before) v
      else bare_paren depth (c # before) v)"

definition bareParenOK :: "string \<Rightarrow> bool" where
  "bareParenOK v = bare_paren 0 [] v"

definition isColourToken :: "string \<Rightarrow> bool" where
  "isColourToken v \<longleftrightarrow> hexColour v \<or> ToLower v \<in> set namedColours \<or> Contains v ''(''"

definition tokenListOK :: "string \<Rightarrow> bool" where
  "tokenListOK v =
     (let toks = FieldsFunc (\<lambda>c. c = CHR '' '' \<or> c = CHR '','') v
      in toks \<noteq> [] \<and> list_all (\<lambda>f. lengthToken f \<or> isColourToken f \<or> ToLower f \<in> set [''auto'', ''none'', ''normal'']
           \<or> list_ex (\<lambda>(_, enum). ToLower f \<in> set enum) keywordEnumProperties) toks)"

definition propertyShapeOK :: "string \<Rightarrow> string \<Rightarrow> bool" where
  "propertyShapeOK prop v =
     (if ToLower v \<in> set [''inherit'', ''initial'', ''unset''] then True
      else
        (case map_of keywordEnumProperties prop of
           Some enum \<Rightarrow> ToLower v \<in> set enum \<or> tokenListOK v
         | None \<Rightarrow>
             if isColourToken v then True
             else if lengthToken v then True
             else if prop = ''font-family'' then fontFamily v
             else tokenListOK v))"

definition forbiddenValueChars :: string where
  "forbiddenValueChars = [CHR ''<'', CHR ''>'', CHR 0x5C, CHR '';'', CHR ''{'', CHR ''}'', CHR ''@'', CHR 0x22, CHR 0x27]"

definition cssValueOK :: "string \<Rightarrow> string \<Rightarrow> bool" where
  "cssValueOK prop val =
     (let v = TrimSpace val in
      if v = [] \<or> 512 < length v then False
      else if list_ex (\<lambda>c. c < CHR 0x20 \<or> CHR 0x7E < c) v then False
      else if list_ex (\<lambda>c. c \<in> set forbiddenValueChars) v then False
      else if Contains v ''/*'' \<or> Contains v ''*/'' then False
      else if \<not> bareParenOK v then False
      else propertyShapeOK prop v)"

section \<open>The dark-mode variant\<close>

definition darkModeColourProps :: "string list" where
  "darkModeColourProps = [''color'', ''background-color'', ''border-color'', ''text-decoration-color'']"

text \<open>\<open>(?i)^(rgb|rgba|hsl|hsla)\([^()]*\)$\<close>, on the printable ASCII that \<open>cssValueOK\<close> lets through.\<close>

definition colourFuncValue :: "string \<Rightarrow> bool" where
  "colourFuncValue v =
     (let ident = takeWhile (\<lambda>c. c \<noteq> CHR ''('') v; r = dropWhile (\<lambda>c. c \<noteq> CHR ''('') v
      in colourFunc ident \<and> 2 \<le> length r \<and> last r = CHR '')''
         \<and> list_all (\<lambda>c. c \<noteq> CHR ''('' \<and> c \<noteq> CHR '')'') (butlast (tl r)))"

definition darkModeColour :: "string \<Rightarrow> string \<Rightarrow> string" where
  "darkModeColour prop val =
     (if prop \<notin> set darkModeColourProps then []
      else
        let v = TrimSpace val;
            out = ''light-dark('' @ v @ '', oklch(from '' @ v
              @ '' calc(l + (0.95 - 1.75 * l) * clamp(0, calc(1 - c / 0.04), 1)) c h))''
        in if hexColour v \<or> colourFuncValue v then out
           else if ToLower v \<in> set namedColours then
             (if ToLower v \<in> set [''transparent'', ''currentcolor'', ''inherit'', ''initial'', ''unset''] then [] else out)
           else [])"

section \<open>Selectors\<close>

definition pseudoClasses :: "string list" where
  "pseudoClasses = ['':hover'', '':focus'', '':first-child'', '':last-child'', '':only-child'', '':empty'']"

definition pseudoClassOK :: "string \<Rightarrow> bool" where
  "pseudoClassOK p \<longleftrightarrow> p \<in> set pseudoClasses"

definition elementAllowed :: "string \<Rightarrow> bool" where
  "elementAllowed name \<longleftrightarrow> name \<in> set allAllowedElements"

definition selectorToken :: "string \<Rightarrow> bool" where
  "selectorToken s \<longleftrightarrow> s \<noteq> [] \<and> is_alnum (hd s) \<and> \<not> is_digit (hd s) \<and> list_all is_alnum s"

definition classToken :: "string \<Rightarrow> bool" where
  "classToken s \<longleftrightarrow> s \<noteq> [] \<and> list_all (\<lambda>c. is_alnum c \<or> c = CHR ''_'' \<or> c = CHR ''-'') s"

definition class_part_ok :: "string \<Rightarrow> bool" where
  "class_part_ok p =
     (let (cls, pseudo) = (case Cut p '':'' of Some x \<Rightarrow> x | None \<Rightarrow> (p, []))
      in classToken cls \<and> (pseudo = [] \<or> pseudoClassOK ('':'' @ pseudo)))"

definition compoundSelectorOK :: "string \<Rightarrow> bool" where
  "compoundSelectorOK compound =
     (if compound = ''*'' then False
      else
        let parts = Split CHR ''.'' compound; p0 = hd parts in
        (p0 = [] \<or>
           ToLower p0 \<notin> set [''html'', ''body'', '':root'']
           \<and> (if HasPrefix p0 '':'' then pseudoClassOK p0
              else selectorToken p0 \<and> elementAllowed (ToLower p0)))
        \<and> list_all class_part_ok (tl parts))"

definition forbiddenSelectorChars :: string where
  "forbiddenSelectorChars = [CHR ''@'', CHR 0x5C, CHR ''{'', CHR ''}'', CHR 0x22, CHR 0x27, CHR ''<'', CHR ''>'']"

definition space_combinators :: "string \<Rightarrow> string" where
  "space_combinators s = concat (map (\<lambda>c. if c \<in> set ''>+~'' then [CHR '' '', c, CHR '' ''] else [c]) s)"

text \<open>\<open>None\<close> is the refusal.\<close>

definition sanitiseSelector :: "string \<Rightarrow> string option" where
  "sanitiseSelector sel0 =
     (let sel = TrimSpace sel0 in
      if sel = [] then None
      else if list_ex (\<lambda>c. c \<in> set forbiddenSelectorChars) sel \<or> Contains sel ''/*'' then None
      else if Contains sel ''::'' then None
      else if Contains sel ''['' \<or> Contains sel ''('' then None
      else if \<not> list_all (\<lambda>c. c = ''>'' \<or> c = ''+'' \<or> c = ''~'' \<or> compoundSelectorOK c) (Fields (space_combinators sel))
      then None
      else if HasPrefix sel ''.card'' \<and> (length sel = 5
             \<or> \<not> isIdentChar (sel ! 5) \<and> sel ! 5 \<noteq> CHR ''_'' \<and> sel ! 5 \<noteq> CHR ''0'')
      then Some (''.'' @ ScopeClass @ drop 5 sel)
      else Some (''.'' @ ScopeClass @ '' '' @ sel))"

section \<open>The sheet\<close>

text \<open>The parser's result: an at-rule has a name, a qualified rule selectors and declarations.\<close>

datatype css_rule =
    AtRule string
  | QualifiedRule "string list" "(string \<times> string) list"

definition newline :: string where "newline = [CHR 0x0A]"

fun keep_selectors :: "string list \<Rightarrow> string list \<times> string list" where
  "keep_selectors [] = ([], [])"
| "keep_selectors (sel # sels) =
     (let (kept, dropped) = keep_selectors sels in
      case sanitiseSelector sel of
        None \<Rightarrow> (kept, (''selector dropped: '' @ sel) # dropped)
      | Some rewritten \<Rightarrow> (rewritten # kept, dropped))"

fun keep_decls :: "(string \<times> string) list \<Rightarrow> string list \<times> string list" where
  "keep_decls [] = ([], [])"
| "keep_decls ((property, val) # ds) =
     (let (kept, dropped) = keep_decls ds; prop = ToLower (TrimSpace property) in
      if prop \<notin> set allowedCSSProperties then (kept, (''property dropped: '' @ property) # dropped)
      else if \<not> cssValueOK prop val then (kept, (''value dropped: '' @ property @ '': '' @ val) # dropped)
      else
        let dark = darkModeColour prop val in
        ((prop @ '': '' @ TrimSpace val @ '';'')
           # (if dark \<noteq> [] then [prop @ '': '' @ dark @ '';''] else []) @ kept, dropped))"

definition emit_rule :: "string list \<Rightarrow> string list \<Rightarrow> string" where
  "emit_rule sels decls =
     Join '', '' sels @ '' {'' @ newline
     @ concat (map (\<lambda>d. ''  '' @ d @ newline) decls) @ ''}'' @ newline"

definition sanitise_rule :: "css_rule \<Rightarrow> string \<times> string list" where
  "sanitise_rule r =
     (case r of
        AtRule name \<Rightarrow> ([], [(if name = [] then ''at-rule'' else name) @ '' dropped: at-rules are not supported''])
      | QualifiedRule sels ds \<Rightarrow>
          let (kept, dropped) = keep_selectors sels in
          if kept = [] then ([], dropped)
          else
            let (decls, dropped') = keep_decls ds in
            if decls = [] then ([], dropped @ dropped') else (emit_rule kept decls, dropped @ dropped'))"

definition SanitiseCSS :: "css_rule list option \<Rightarrow> string \<times> string list" where
  "SanitiseCSS sheet =
     (case sheet of
        None \<Rightarrow> ([], [''CSS could not be parsed''])
      | Some rules \<Rightarrow>
          let result = concat (map (fst \<circ> sanitise_rule) rules);
              dropped = concat (map (snd \<circ> sanitise_rule) rules)
          in if list_ex (\<lambda>c. c = CHR ''<'' \<or> c = CHR ''>'') result
             then ([], dropped @ [''output contained markup'']) else (result, dropped))"

section \<open>Properties\<close>

text \<open>Printable ASCII without a character that ends a declaration, a rule or a style element.\<close>

definition css_inert :: "string \<Rightarrow> bool" where
  "css_inert v \<longleftrightarrow> list_all (\<lambda>c. CHR 0x20 \<le> c \<and> c \<le> CHR 0x7E \<and> c \<notin> set forbiddenValueChars) v"

definition no_markup :: "string \<Rightarrow> bool" where
  "no_markup s \<longleftrightarrow> CHR ''<'' \<notin> set s \<and> CHR ''>'' \<notin> set s"

lemma no_markup_simps [simp]:
  "no_markup []" "no_markup (s @ t) \<longleftrightarrow> no_markup s \<and> no_markup t"
  "no_markup (c # s) \<longleftrightarrow> c \<noteq> CHR ''<'' \<and> c \<noteq> CHR ''>'' \<and> no_markup s"
  "no_markup (concat ss) \<longleftrightarrow> list_all no_markup ss"
  by (auto simp: no_markup_def list_all_iff)

lemma css_inert_no_markup: "css_inert v \<Longrightarrow> no_markup v"
  by (auto simp: css_inert_def no_markup_def list_all_iff forbiddenValueChars_def)

lemma bare_paren_call:
  "bare_paren depth before v \<Longrightarrow> v = a @ CHR ''('' # b \<Longrightarrow>
     colourFunc (rev (takeWhile isIdentChar (rev a @ before)))"
proof (induction depth before v arbitrary: a rule: bare_paren.induct)
  case (2 depth before c v)
  show ?case
  proof (cases a)
    case Nil
    with 2(4,5) show ?thesis by simp
  next
    case (Cons x a')
    with 2(5) have "c = x" "v = a' @ CHR ''('' # b" by simp_all
    with 2(1-4) Cons show ?thesis by (auto split: if_splits)
  qed
qed simp

lemma cssValueOK_facts:
  assumes "cssValueOK prop val"
  shows "css_inert (TrimSpace val) \<and> \<not> Contains (TrimSpace val) ''/*''
    \<and> (\<forall>a b. TrimSpace val = a @ CHR ''('' # b \<longrightarrow> colourFunc (rev (takeWhile isIdentChar (rev a))))"
proof -
  let ?v = "TrimSpace val"
  from assms have p: "list_all (\<lambda>c. \<not> (c < CHR 0x20 \<or> CHR 0x7E < c)) ?v"
    "list_all (\<lambda>c. c \<notin> set forbiddenValueChars) ?v" "\<not> Contains ?v ''/*''" "bareParenOK ?v"
    by (auto simp: cssValueOK_def Let_def list_ex_iff list_all_iff split: if_splits)
  from p(1,2) have "css_inert ?v" by (auto simp: css_inert_def list_all_iff not_less)
  with p(3) bare_paren_call [OF p(4) [unfolded bareParenOK_def]] show ?thesis by simp
qed

text \<open>C18: what a CSS value can carry: an accepted value is printable ASCII without quotes, braces,
  semicolons, backslashes, angle brackets or comments, and every parenthesis in it opens one of the
  four colour functions, so neither \<open>url()\<close> nor any other call gets through, whatever the property.\<close>

theorem cssValueOK_inert:
  assumes "cssValueOK prop val"
  shows "css_inert (TrimSpace val) \<and> \<not> Contains (TrimSpace val) ''/*''
    \<and> (\<forall>a b. TrimSpace val = a @ CHR ''('' # b \<longrightarrow> colourFunc (rev (takeWhile isIdentChar (rev a))))"
  using assms by (rule cssValueOK_facts)

lemma cssValueOK_inert_witness:
  "css_inert (TrimSpace ''rgb(1, 2, 3)'') \<and> \<not> cssValueOK ''color'' ''url(x)''"
proof -
  have "cssValueOK ''color'' ''rgb(1, 2, 3)''" "\<not> cssValueOK ''color'' ''url(x)''" by code_simp+
  with cssValueOK_inert show ?thesis by blast
qed

text \<open>The selectors that come out.\<close>

lemma sanitiseSelector_Some:
  assumes "sanitiseSelector sel = Some out"
  shows "(\<exists>t. out = ''.'' @ ScopeClass @ t) \<and> no_markup out \<and> list_all (\<lambda>c. c \<notin> set forbiddenSelectorChars) out"
proof -
  let ?s = "TrimSpace sel"
  from assms have ok: "list_all (\<lambda>c. c \<notin> set forbiddenSelectorChars) ?s"
    by (auto simp: sanitiseSelector_def Let_def list_ex_iff list_all_iff split: if_splits)
  from assms have out: "out = ''.'' @ ScopeClass @ drop 5 ?s \<or> out = ''.'' @ ScopeClass @ '' '' @ ?s"
    by (auto simp: sanitiseSelector_def Let_def split: if_splits)
  have fixed: "list_all (\<lambda>c. c \<notin> set forbiddenSelectorChars) (''.'' @ ScopeClass @ '' '')"
    by (simp add: ScopeClass_def forbiddenSelectorChars_def)
  from ok out fixed have all: "list_all (\<lambda>c. c \<notin> set forbiddenSelectorChars) out"
    using set_drop_subset [of 5 ?s] by (fastforce simp: list_all_iff)
  moreover from all have "no_markup out" by (auto simp: list_all_iff no_markup_def forbiddenSelectorChars_def)
  ultimately show ?thesis using out by blast
qed

text \<open>
  What a browser makes of an emitted selector: the scope class must be a whole class name, and what follows the
  first compound must not leave the elements below it. \<open>scoped s\<close>: all that \<open>s\<close> matches is an element of the scope
  class or below one.
\<close>

definition css_spaces :: string where "css_spaces = [CHR 0x09, CHR 0x0A, CHR 0x0C, CHR 0x0D, CHR '' '']"
definition css_combinators :: string where "css_combinators = ''+~>''"

definition sibling_first :: "string \<Rightarrow> bool" where
  "sibling_first t \<longleftrightarrow> (case dropWhile (\<lambda>c. c \<in> set css_spaces) t of [] \<Rightarrow> False | c # _ \<Rightarrow> c \<in> set css_combinators)"

definition stays_inside :: "string \<Rightarrow> bool" where
  "stays_inside r \<longleftrightarrow> (r = [] \<or> hd r \<in> set (''.:'' @ css_spaces @ css_combinators))
     \<and> \<not> sibling_first (dropWhile (\<lambda>c. c \<notin> set (css_spaces @ css_combinators)) r)"

definition scoped :: "string \<Rightarrow> bool" where
  "scoped s \<longleftrightarrow> (\<exists>r. s = ''.'' @ ScopeClass @ r \<and> stays_inside r)"

text \<open>The two rewritings, and when they scope: \<open>t\<close> is the selector as written, trimmed.\<close>

definition rewritten :: "string \<Rightarrow> string \<Rightarrow> bool" where
  "rewritten t s \<longleftrightarrow>
     (if HasPrefix t ''.card'' \<and> (length t = 5 \<or> \<not> isIdentChar (t ! 5) \<and> t ! 5 \<noteq> CHR ''_'' \<and> t ! 5 \<noteq> CHR ''0'')
      then s = ''.'' @ ScopeClass @ drop 5 t \<and> (stays_inside (drop 5 t) \<longrightarrow> scoped s)
      else s = ''.'' @ ScopeClass @ '' '' @ t \<and> (\<not> sibling_first t \<longrightarrow> scoped s))"

lemma sanitiseSelector_rewritten: "sanitiseSelector sel = Some s \<Longrightarrow> rewritten (TrimSpace sel) s"
proof -
  assume "sanitiseSelector sel = Some s"
  moreover have "scoped (''.'' @ ScopeClass @ '' '' @ t)" if "\<not> sibling_first t" for t
    unfolding scoped_def using that by (intro exI [of _ "'' '' @ t"]) (simp add: stays_inside_def sibling_first_def css_spaces_def)
  ultimately show ?thesis
    by (auto simp: sanitiseSelector_def rewritten_def scoped_def Let_def split: if_splits)
qed

lemma keep_selectors_from: "out \<in> set (fst (keep_selectors sels)) \<Longrightarrow> \<exists>sel\<in>set sels. sanitiseSelector sel = Some out"
  by (induction sels) (auto split: option.splits prod.splits)

text \<open>A declaration that comes out: an allowed property with an accepted value or its dark variant.\<close>

definition decl_ok :: "string \<Rightarrow> bool" where
  "decl_ok d \<longleftrightarrow> (\<exists>prop val. prop \<in> set allowedCSSProperties \<and> cssValueOK prop val
     \<and> (d = prop @ '': '' @ TrimSpace val @ '';'' \<or> d = prop @ '': '' @ darkModeColour prop val @ '';''))"

lemma keep_decls_ok: "d \<in> set (fst (keep_decls ds)) \<Longrightarrow> decl_ok d"
  by (induction ds rule: keep_decls.induct) (auto simp: decl_ok_def Let_def split: prod.splits if_splits)

lemma allowed_no_markup: "prop \<in> set allowedCSSProperties \<Longrightarrow> no_markup prop"
proof -
  have "list_all no_markup allowedCSSProperties" by (simp add: allowedCSSProperties_def)
  then show "prop \<in> set allowedCSSProperties \<Longrightarrow> no_markup prop" by (simp add: list_all_iff)
qed

lemma decl_ok_no_markup: "decl_ok d \<Longrightarrow> no_markup d"
proof -
  assume "decl_ok d"
  then obtain pr w where d: "pr \<in> set allowedCSSProperties" "cssValueOK pr w"
    "d = pr @ '': '' @ TrimSpace w @ '';'' \<or> d = pr @ '': '' @ darkModeColour pr w @ '';''"
    by (auto simp: decl_ok_def)
  have v: "no_markup (TrimSpace w)" using cssValueOK_facts [OF d(2)] css_inert_no_markup by blast
  then have "no_markup (darkModeColour pr w)" by (simp add: darkModeColour_def Let_def)
  with v d(1,3) allowed_no_markup show ?thesis by auto
qed

lemma Join_no_markup: "no_markup sep \<Longrightarrow> list_all no_markup ss \<Longrightarrow> no_markup (Join sep ss)"
  by (induction sep ss rule: Join.induct) simp_all

definition rule_selectors :: "css_rule \<Rightarrow> string list" where
  "rule_selectors r = (case r of AtRule _ \<Rightarrow> [] | QualifiedRule sels _ \<Rightarrow> sels)"

lemma sanitise_rule_emits:
  "fst (sanitise_rule r) = [] \<or> (\<exists>sels decls. fst (sanitise_rule r) = emit_rule sels decls \<and> sels \<noteq> [] \<and> decls \<noteq> []
     \<and> list_all (\<lambda>s. \<exists>t\<in>set (rule_selectors r). sanitiseSelector t = Some s) sels \<and> list_all decl_ok decls)"
proof (cases r)
  case (QualifiedRule sels ds)
  obtain kept dropped where k: "keep_selectors sels = (kept, dropped)" by fastforce
  obtain decls dropped' where d: "keep_decls ds = (decls, dropped')" by fastforce
  have "list_all (\<lambda>s. \<exists>t\<in>set sels. sanitiseSelector t = Some s) kept"
    using keep_selectors_from [of _ sels] k by (auto simp: list_all_iff)
  moreover have "list_all decl_ok decls" using keep_decls_ok [of _ ds] d by (auto simp: list_all_iff)
  ultimately show ?thesis using QualifiedRule k d by (auto simp: sanitise_rule_def rule_selectors_def)
qed (simp add: sanitise_rule_def)



text \<open>
  Where the scoping falls short of its intent: a leading sibling combinator reaches elements beside
  the card's wrapper, a class that merely starts with \<open>card\<close> loses its name, and the child combinator,
  which the compound check provides for, is refused with the angle brackets.
\<close>

lemma selector_scope_gaps:
  "sanitiseSelector ''~ div'' = Some ''.deckshare-card ~ div''"
  "sanitiseSelector ''.card1 b'' = Some ''.deckshare-card1 b''"
  "sanitiseSelector ''div > b'' = None"
  "sibling_first ''~ div''" "\<not> stays_inside ''1 b''" "\<not> stays_inside '' + div''" "stays_inside ''.night b ~ i''"
  by code_simp+

end
