(* ===== verification/Content_Store.thy ===== *)
theory Content_Store
  imports Review_Store Go_Json
begin

text \<open>
  Decks, notes, cards and who may see them: the rows of \<open>internal/db/models.go\<close>, the statements of
  \<open>deletion.sql.go\<close>, \<open>deck_access.sql.go\<close> and \<open>decks.sql.go\<close>, and the transactions of \<open>deletion.go\<close> and
  \<open>decks.go\<close>. A statement is refused where a constraint of \<open>migrations/\<close> refuses it (the constraint is
  written out here) or where \<open>cd_refuses\<close> says so; a \<open>jsonb\<close> column holds a JSON value; an error result means that the caller rolls back.
\<close>

section \<open>Rows\<close>

record deck =
  dk_ID :: uuid
  dk_OwnerID :: uuid
  dk_Name :: string
  dk_Description :: string
  dk_Preset :: json
  dk_CreatedAt :: gotime
  dk_ModifiedAt :: gotime
  dk_AnkiID :: "int option"

record deck_access =
  da_DeckID :: uuid
  da_UserID :: uuid
  can_view :: bool
  can_study :: bool
  can_edit_content :: bool
  can_edit_settings :: bool
  can_manage_access :: bool
  can_delete :: bool
  can_view_progress :: bool
  can_view_flags :: bool

record db_note =
  n_ID :: uuid
  n_Guid :: string
  n_OwnerID :: uuid
  n_NoteTypeID :: uuid
  n_DeckID :: uuid
  n_Fields :: "string list"
  n_Tags :: "string list"
  n_Checksum :: int
  n_CreatedAt :: gotime
  n_ModifiedAt :: gotime
  n_AnkiID :: "int option"
  n_ReleaseDay :: int

record note_card =
  c_ID :: uuid
  c_NoteID :: uuid
  c_TemplateID :: uuid
  c_Ordinal :: int
  c_DeckID :: uuid
  c_AnkiID :: "int option"
  c_ImportDuePosition :: "int option"

record note_type =
  nt_ID :: uuid
  nt_OwnerID :: uuid
  nt_Name :: string
  nt_Css :: string
  nt_IsCloze :: bool
  nt_SortFieldIdx :: int
  nt_AnkiID :: "int option"

record template_row =
  tp_ID :: uuid
  tp_NoteTypeID :: uuid
  tp_Ordinal :: int
  tp_Name :: string
  tp_Qfmt :: string
  tp_Afmt :: string
  tp_BrowserQfmt :: string
  tp_BrowserAfmt :: string

record field_row =
  fd_ID :: uuid
  fd_NoteTypeID :: uuid
  fd_Ordinal :: int
  fd_Name :: string
  fd_Font :: string
  fd_Size :: int
  fd_IsRtl :: bool
  fd_Sticky :: bool

record media_ref =
  mr_DeckID :: uuid
  mr_Filename :: string
  mr_Sha256 :: string

record card_flag =
  cf_ID :: uuid
  cf_CardID :: uuid
  cf_DeckID :: uuid
  cf_FlaggedByUserID :: uuid
  cf_Comment :: string
  cf_Status :: string
  cf_CreatedAt :: gotime
  cf_ResolvedAt :: "gotime option"
  cf_ResolvedByUserID :: pguuid

record db_user =
  u_ID :: uuid
  u_Email :: string
  u_DisplayName :: string
  u_Timezone :: string
  u_DayStartHour :: int

record content_db =
  cd_users :: "db_user list"
  cd_decks :: "deck list"
  cd_access :: "deck_access list"
  cd_noteTypes :: "note_type list"
  cd_fields :: "field_row list"
  cd_templates :: "template_row list"
  cd_notes :: "db_note list"
  cd_cards :: "note_card list"
  cd_states :: "user_card_state list"
  cd_log :: "review_log list"
  cd_params :: "user_fsrs_params list"
  cd_media :: "media_ref list"
  cd_flags :: "card_flag list"
  cd_refuses :: "string \<Rightarrow> bool"

datatype content_error =
    CRefused string
  | ErrNoRows
  | ErrLastAccessHolder
  | ErrNoCards
  | ErrClozeNoteTypeSingleTemplate
  | ErrFieldNotFound
  | ErrTemplateNotFound
  | UniqueViolation string
  | RestrictViolation string
  | NotNullViolation string
  | FKViolation string

text \<open>A read-only statement, by name; a row that is not there is \<open>pgx.ErrNoRows\<close>.\<close>

definition run_c :: "content_db \<Rightarrow> string \<Rightarrow> 'a \<Rightarrow> content_error + 'a" where
  "run_c db st x = (if cd_refuses db st then Inl (CRefused st) else Inr x)"

definition one_row :: "'a option \<Rightarrow> content_error + 'a" where
  "one_row x = (case x of None \<Rightarrow> Inl ErrNoRows | Some y \<Rightarrow> Inr y)"

lemma run_c_Inr [simp]: "run_c db st x = Inr y \<longleftrightarrow> \<not> cd_refuses db st \<and> y = x"
  by (auto simp: run_c_def)

lemma one_row_Inr [simp]: "one_row x = Inr y \<longleftrightarrow> x = Some y"
  by (auto simp: one_row_def split: option.splits)

definition da_key :: "deck_access \<Rightarrow> uuid \<times> uuid" where
  "da_key a = (da_DeckID a, da_UserID a)"

text \<open>The join \<open>deck_access da ON da.deck_id = d.id AND da.user_id = $user\<close> of the authorising queries.\<close>

definition access_of :: "content_db \<Rightarrow> uuid \<Rightarrow> uuid \<Rightarrow> deck_access option" where
  "access_of db deckID userID = row_of da_key (deckID, userID) (cd_access db)"

definition deck_with :: "content_db \<Rightarrow> uuid \<Rightarrow> uuid \<Rightarrow> (deck_access \<Rightarrow> bool) \<Rightarrow> (deck \<times> deck_access) option" where
  "deck_with db deckID userID permits =
     (case (row_of dk_ID deckID (cd_decks db), access_of db deckID userID) of
        (Some d, Some a) \<Rightarrow> if permits a then Some (d, a) else None
      | _ \<Rightarrow> None)"

section \<open>Reads of \<open>decks.sql.go\<close> and \<open>deck_access.sql.go\<close>\<close>

definition GetDeckForAccessManage :: "content_db \<Rightarrow> uuid \<Rightarrow> uuid \<Rightarrow> content_error + deck" where
  "GetDeckForAccessManage db userID deckID =
     bindE (run_c db ''GetDeckForAccessManage'' (deck_with db deckID userID (\<lambda>a. can_view a \<and> can_manage_access a)))
       (\<lambda>r. one_row (map_option fst r))"

definition GetDeckForContentEdit :: "content_db \<Rightarrow> uuid \<Rightarrow> uuid \<Rightarrow> content_error + deck" where
  "GetDeckForContentEdit db userID deckID =
     bindE (run_c db ''GetDeckForContentEdit'' (deck_with db deckID userID (\<lambda>a. can_view a \<and> can_edit_content a)))
       (\<lambda>r. one_row (map_option fst r))"

definition GetDeckForSettingsEdit :: "content_db \<Rightarrow> uuid \<Rightarrow> uuid \<Rightarrow> content_error + deck \<times> bool" where
  "GetDeckForSettingsEdit db userID deckID =
     bindE (run_c db ''GetDeckForSettingsEdit'' (deck_with db deckID userID (\<lambda>a. can_view a \<and> can_edit_settings a)))
       (\<lambda>r. one_row (map_option (\<lambda>(d, a). (d, can_delete a)) r))"

definition GetDeckForUser :: "content_db \<Rightarrow> uuid \<Rightarrow> uuid \<Rightarrow> content_error + deck \<times> deck_access" where
  "GetDeckForUser db userID deckID =
     bindE (run_c db ''GetDeckForUser'' (deck_with db deckID userID can_view)) one_row"

definition CountDeckContents :: "content_db \<Rightarrow> uuid \<Rightarrow> uuid \<Rightarrow> content_error + nat \<times> nat" where
  "CountDeckContents db deckID userID =
     bindE (run_c db ''CountDeckContents'' (access_of db deckID userID)) (\<lambda>a.
     if (case a of None \<Rightarrow> False | Some r \<Rightarrow> can_view r)
     then Inr (length (filter (\<lambda>n. n_DeckID n = deckID) (cd_notes db)),
        length (filter (\<lambda>c. c_DeckID c = deckID) (cd_cards db)))
     else Inl ErrNoRows)"

definition CountOtherProgressViewers :: "content_db \<Rightarrow> uuid \<Rightarrow> uuid \<Rightarrow> content_error + nat" where
  "CountOtherProgressViewers db userID deckID =
     run_c db ''CountOtherProgressViewers''
       (length (filter (\<lambda>a. da_DeckID a = deckID \<and> can_view_progress a \<and> da_UserID a \<noteq> userID) (cd_access db)))"

text \<open>
  The deck lists: one row per visible deck, ordered by name. \<open>ORDER BY\<close> leaves the order of equal
  names open; the model keeps the table's.
\<close>

definition decks_with :: "content_db \<Rightarrow> uuid \<Rightarrow> (deck_access \<Rightarrow> bool) \<Rightarrow> (deck \<times> deck_access) list" where
  "decks_with db userID permits =
     sort_key (\<lambda>(d, a). dk_Name d)
       (List.map_filter (\<lambda>d. deck_with db (dk_ID d) userID permits) (cd_decks db))"

record deck_list_row =
  dl_Deck :: deck
  dl_CardCount :: nat
  dl_CanEditSettings :: bool
  dl_CanEditContent :: bool
  dl_IsShared :: bool

definition ListDecksForUser :: "content_db \<Rightarrow> uuid \<Rightarrow> content_error + deck_list_row list" where
  "ListDecksForUser db userID =
     run_c db ''ListDecksForUser''
       (map (\<lambda>(d, a). \<lparr>dl_Deck = d, dl_CardCount = length (filter (\<lambda>c. c_DeckID c = dk_ID d) (cd_cards db)),
           dl_CanEditSettings = can_edit_settings a, dl_CanEditContent = can_edit_content a,
           dl_IsShared = (length (filter (\<lambda>a2. da_DeckID a2 = dk_ID d) (cd_access db)) > 1)\<rparr>)
         (decks_with db userID can_view))"

definition ListStudyableDecksForUser :: "content_db \<Rightarrow> uuid \<Rightarrow> content_error + deck list" where
  "ListStudyableDecksForUser db userID =
     run_c db ''ListStudyableDecksForUser'' (map fst (decks_with db userID (\<lambda>a. can_view a \<and> can_study a)))"

definition ListDeckAccessForDeck :: "content_db \<Rightarrow> uuid \<Rightarrow> content_error + (db_user \<times> deck_access) list" where
  "ListDeckAccessForDeck db deckID =
     run_c db ''ListDeckAccessForDeck''
       (sort_key (\<lambda>(u, a). u_Email u)
         (List.map_filter (\<lambda>a. map_option (\<lambda>u. (u, a)) (row_of u_ID (da_UserID a) (cd_users db)))
           (filter (\<lambda>a. da_DeckID a = deckID) (cd_access db))))"

section \<open>Granting and changing access\<close>

record access_flags =
  fl_view :: bool
  fl_study :: bool
  fl_edit_content :: bool
  fl_edit_settings :: bool
  fl_manage_access :: bool
  fl_delete :: bool
  fl_view_progress :: bool
  fl_view_flags :: bool

definition access_row :: "uuid \<Rightarrow> uuid \<Rightarrow> access_flags \<Rightarrow> deck_access" where
  "access_row deckID userID f =
     \<lparr>da_DeckID = deckID, da_UserID = userID, can_view = fl_view f, can_study = fl_study f,
      can_edit_content = fl_edit_content f, can_edit_settings = fl_edit_settings f,
      can_manage_access = fl_manage_access f, can_delete = fl_delete f,
      can_view_progress = fl_view_progress f, can_view_flags = fl_view_flags f\<rparr>"

definition all_flags :: access_flags where
  "all_flags = \<lparr>fl_view = True, fl_study = True, fl_edit_content = True, fl_edit_settings = True,
     fl_manage_access = True, fl_delete = True, fl_view_progress = True, fl_view_flags = True\<rparr>"

text \<open>Inserting an access row: the primary key and the foreign keys.\<close>

definition insert_access :: "content_db \<Rightarrow> deck_access \<Rightarrow> content_error + content_db" where
  "insert_access db a =
     (if access_of db (da_DeckID a) (da_UserID a) \<noteq> None then Inl (UniqueViolation ''deck_access_pkey'')
      else if row_of dk_ID (da_DeckID a) (cd_decks db) = None then Inl (FKViolation ''deck_access_deck_id_fkey'')
      else if row_of u_ID (da_UserID a) (cd_users db) = None then Inl (FKViolation ''deck_access_user_id_fkey'')
      else Inr (db\<lparr>cd_access := cd_access db @ [a]\<rparr>))"

definition GrantDeckAccess :: "content_db \<Rightarrow> uuid \<Rightarrow> access_flags \<Rightarrow> uuid \<Rightarrow> uuid \<Rightarrow> content_error + nat \<times> content_db" where
  "GrantDeckAccess db target f deckID caller =
     bindE (run_c db ''GrantDeckAccess'' (access_of db deckID caller)) (\<lambda>a.
     if (case a of None \<Rightarrow> False | Some r \<Rightarrow> can_view r \<and> can_manage_access r)
     then bindE (insert_access db (access_row deckID target f)) (\<lambda>db'. Inr (1, db'))
     else Inr (0, db))"

definition GrantFullDeckAccess :: "content_db \<Rightarrow> uuid \<Rightarrow> uuid \<Rightarrow> content_error + content_db" where
  "GrantFullDeckAccess db deckID userID =
     bindE (run_c db ''GrantFullDeckAccess'' ()) (\<lambda>_. insert_access db (access_row deckID userID all_flags))"

text \<open>\<open>newID\<close> is the \<open>uuidv7()\<close> of the column default, \<open>now\<close> the transaction's \<open>now()\<close>.\<close>

definition CreateDeck :: "content_db \<Rightarrow> gotime \<Rightarrow> uuid \<Rightarrow> uuid \<Rightarrow> string \<Rightarrow> string \<Rightarrow> content_error + deck \<times> content_db" where
  "CreateDeck db now newID ownerID name description =
     bindE (run_c db ''CreateDeck'' ()) (\<lambda>_.
     let d = \<lparr>dk_ID = newID, dk_OwnerID = ownerID, dk_Name = name, dk_Description = description,
          dk_Preset = JObj [], dk_CreatedAt = pg_timestamp now, dk_ModifiedAt = pg_timestamp now, dk_AnkiID = None\<rparr>
     in if row_of dk_ID newID (cd_decks db) \<noteq> None then Inl (UniqueViolation ''decks_pkey'')
        else if row_of (\<lambda>d. (dk_OwnerID d, dk_Name d)) (ownerID, name) (cd_decks db) \<noteq> None
        then Inl (UniqueViolation ''decks_owner_id_name_key'')
        else if row_of u_ID ownerID (cd_users db) = None then Inl (FKViolation ''decks_owner_id_fkey'')
        else Inr (d, db\<lparr>cd_decks := cd_decks db @ [d]\<rparr>))"

definition CreateDeckWithAccess :: "content_db \<Rightarrow> gotime \<Rightarrow> uuid \<Rightarrow> uuid \<Rightarrow> string \<Rightarrow> string
    \<Rightarrow> content_error + deck \<times> content_db" where
  "CreateDeckWithAccess db now newID ownerID name description =
     bindE (CreateDeck db now newID ownerID name description) (\<lambda>(deck, db1).
     bindE (GrantFullDeckAccess db1 (dk_ID deck) ownerID) (\<lambda>db2. Inr (deck, db2)))"

definition LockDeckForAccessChange :: "content_db \<Rightarrow> uuid \<Rightarrow> uuid \<Rightarrow> content_error + uuid" where
  "LockDeckForAccessChange db userID deckID =
     bindE (run_c db ''LockDeckForAccessChange'' (deck_with db deckID userID (\<lambda>a. can_view a \<and> can_manage_access a)))
       (\<lambda>r. one_row (map_option (dk_ID \<circ> fst) r))"

definition LockDeckForDelete :: "content_db \<Rightarrow> uuid \<Rightarrow> uuid \<Rightarrow> content_error + uuid" where
  "LockDeckForDelete db userID deckID =
     bindE (run_c db ''LockDeckForDelete'' (deck_with db deckID userID (\<lambda>a. can_view a \<and> can_delete a)))
       (\<lambda>r. one_row (map_option (dk_ID \<circ> fst) r))"

definition CountDeckAccessHolders :: "content_db \<Rightarrow> uuid \<Rightarrow> content_error + nat \<times> nat" where
  "CountDeckAccessHolders db deckID =
     run_c db ''CountDeckAccessHolders''
       (length (filter (\<lambda>a. da_DeckID a = deckID \<and> can_manage_access a) (cd_access db)),
        length (filter (\<lambda>a. da_DeckID a = deckID \<and> can_delete a) (cd_access db)))"

definition DeleteDeckAccessRow :: "content_db \<Rightarrow> uuid \<Rightarrow> uuid \<Rightarrow> content_error + nat \<times> content_db" where
  "DeleteDeckAccessRow db deckID target =
     run_c db ''DeleteDeckAccessRow''
       (length (filter (\<lambda>a. da_key a = (deckID, target)) (cd_access db)),
        db\<lparr>cd_access := filter (\<lambda>a. da_key a \<noteq> (deckID, target)) (cd_access db)\<rparr>)"

definition UpdateDeckAccessRow :: "content_db \<Rightarrow> access_flags \<Rightarrow> uuid \<Rightarrow> uuid \<Rightarrow> content_error + nat \<times> content_db" where
  "UpdateDeckAccessRow db f deckID target =
     run_c db ''UpdateDeckAccessRow''
       (length (filter (\<lambda>a. da_key a = (deckID, target)) (cd_access db)),
        db\<lparr>cd_access := map_rows (\<lambda>a. da_key a = (deckID, target)) (\<lambda>_. access_row deckID target f) (cd_access db)\<rparr>)"

definition assertDeckStillManageable :: "content_db \<Rightarrow> uuid \<Rightarrow> content_error + unit" where
  "assertDeckStillManageable db deckID =
     bindE (CountDeckAccessHolders db deckID) (\<lambda>(manage, delete).
     if manage = 0 \<or> delete = 0 then Inl ErrLastAccessHolder else Inr ())"

definition RevokeDeckAccess :: "content_db \<Rightarrow> uuid \<Rightarrow> uuid \<Rightarrow> uuid \<Rightarrow> content_error + content_db" where
  "RevokeDeckAccess db deckID userID target =
     bindE (LockDeckForAccessChange db userID deckID) (\<lambda>_.
     bindE (DeleteDeckAccessRow db deckID target) (\<lambda>(n, db1).
     if n = 0 then Inl ErrNoRows
     else bindE (assertDeckStillManageable db1 deckID) (\<lambda>_. Inr db1)))"

definition SetDeckAccess :: "content_db \<Rightarrow> uuid \<Rightarrow> access_flags \<Rightarrow> uuid \<Rightarrow> uuid \<Rightarrow> content_error + content_db" where
  "SetDeckAccess db userID f deckID target =
     bindE (LockDeckForAccessChange db userID deckID) (\<lambda>_.
     bindE (UpdateDeckAccessRow db f deckID target) (\<lambda>(n, db1).
     if n = 0 then Inl ErrNoRows
     else bindE (assertDeckStillManageable db1 deckID) (\<lambda>_. Inr db1)))"

definition DeleteUserCardStateForDeck :: "content_db \<Rightarrow> uuid \<Rightarrow> uuid \<Rightarrow> content_error + nat \<times> content_db" where
  "DeleteUserCardStateForDeck db deckID target =
     (let gone = (\<lambda>s. us_UserID s = target \<and> (\<exists>c\<in>set (cd_cards db). c_ID c = us_CardID s \<and> c_DeckID c = deckID))
      in run_c db ''DeleteUserCardStateForDeck''
           (length (filter gone (cd_states db)), db\<lparr>cd_states := filter (\<lambda>s. \<not> gone s) (cd_states db)\<rparr>))"

definition ResetDeckProgress :: "content_db \<Rightarrow> uuid \<Rightarrow> uuid \<Rightarrow> uuid \<Rightarrow> content_error + content_db" where
  "ResetDeckProgress db deckID userID target =
     bindE (LockDeckForAccessChange db userID deckID) (\<lambda>_.
     bindE (DeleteUserCardStateForDeck db deckID target) (\<lambda>(_, db1). Inr db1))"

section \<open>Deleting a deck\<close>

text \<open>The cascades from a deleted card: its scheduling rows and its flags, but not its log.\<close>

definition delete_cards :: "(note_card \<Rightarrow> bool) \<Rightarrow> content_db \<Rightarrow> content_db" where
  "delete_cards p db =
     (let gone = c_ID ` set (filter p (cd_cards db))
      in db\<lparr>cd_cards := filter (\<lambda>c. \<not> p c) (cd_cards db),
            cd_states := filter (\<lambda>s. us_CardID s \<notin> gone) (cd_states db),
            cd_flags := filter (\<lambda>f. cf_CardID f \<notin> gone) (cd_flags db)\<rparr>)"

definition orphaned :: "content_db \<Rightarrow> uuid \<Rightarrow> db_note \<Rightarrow> bool" where
  "orphaned db deckID n \<longleftrightarrow>
     (n_DeckID n = deckID \<or> list_ex (\<lambda>c. c_NoteID c = n_ID n \<and> c_DeckID c = deckID) (cd_cards db))
     \<and> \<not> list_ex (\<lambda>c. c_NoteID c = n_ID n \<and> c_DeckID c \<noteq> deckID) (cd_cards db)"

definition DeleteNotesOrphanedByDeckDelete :: "content_db \<Rightarrow> uuid \<Rightarrow> content_error + nat \<times> content_db" where
  "DeleteNotesOrphanedByDeckDelete db deckID =
     (let gone = filter (orphaned db deckID) (cd_notes db)
      in run_c db ''DeleteNotesOrphanedByDeckDelete''
           (length gone,
            (delete_cards (\<lambda>c. c_NoteID c \<in> n_ID ` set gone) db)
              \<lparr>cd_notes := filter (\<lambda>n. \<not> orphaned db deckID n) (cd_notes db)\<rparr>))"

definition card_order :: "note_card \<Rightarrow> int \<times> uuid" where
  "card_order c = (c_Ordinal c, c_ID c)"

text \<open>The subqueries: the first surviving card's deck, and that deck's owner.\<close>

definition rehome_target :: "content_db \<Rightarrow> uuid \<Rightarrow> db_note \<Rightarrow> deck option" where
  "rehome_target db deckID n =
     (case sort_key card_order (filter (\<lambda>c. c_NoteID c = n_ID n \<and> c_DeckID c \<noteq> deckID) (cd_cards db)) of
        [] \<Rightarrow> None
      | c # _ \<Rightarrow> row_of dk_ID (c_DeckID c) (cd_decks db))"

definition rehome_note :: "content_db \<Rightarrow> gotime \<Rightarrow> uuid \<Rightarrow> db_note \<Rightarrow> db_note" where
  "rehome_note db now deckID n =
     (if n_DeckID n \<noteq> deckID then n
      else (case rehome_target db deckID n of
         None \<Rightarrow> n
       | Some d \<Rightarrow> n\<lparr>n_DeckID := dk_ID d, n_OwnerID := dk_OwnerID d, n_ModifiedAt := pg_timestamp now\<rparr>))"

definition guid_key :: "db_note \<Rightarrow> uuid \<times> string" where
  "guid_key n = (n_OwnerID n, n_Guid n)"

definition RehomeNotesOffDeck :: "content_db \<Rightarrow> gotime \<Rightarrow> uuid \<Rightarrow> content_error + nat \<times> content_db" where
  "RehomeNotesOffDeck db now deckID =
     bindE (run_c db ''RehomeNotesOffDeck'' (filter (\<lambda>n. n_DeckID n = deckID) (cd_notes db))) (\<lambda>moved.
     if list_ex (\<lambda>n. rehome_target db deckID n = None) moved then Inl (NotNullViolation ''deck_id'')
     else
       let notes = map (rehome_note db now deckID) (cd_notes db)
       in if \<not> distinct (map guid_key notes) then Inl (UniqueViolation ''notes_owner_id_guid_key'')
          else Inr (length moved, db\<lparr>cd_notes := notes\<rparr>))"

definition DeleteDeckRow :: "content_db \<Rightarrow> uuid \<Rightarrow> content_error + nat \<times> content_db" where
  "DeleteDeckRow db deckID =
     bindE (run_c db ''DeleteDeckRow'' (length (filter (\<lambda>d. dk_ID d = deckID) (cd_decks db)))) (\<lambda>n.
     if list_ex (\<lambda>n. n_DeckID n = deckID) (cd_notes db) then Inl (RestrictViolation ''notes_deck_id_fkey'')
     else
       let db1 = delete_cards (\<lambda>c. c_DeckID c = deckID) db
       in Inr (n, db1\<lparr>cd_decks := filter (\<lambda>d. dk_ID d \<noteq> deckID) (cd_decks db),
            cd_access := filter (\<lambda>a. da_DeckID a \<noteq> deckID) (cd_access db),
            cd_params := filter (\<lambda>p. fp_DeckID p \<noteq> Some deckID) (cd_params db),
            cd_media := filter (\<lambda>m. mr_DeckID m \<noteq> deckID) (cd_media db),
            cd_flags := filter (\<lambda>f. cf_DeckID f \<noteq> deckID) (cd_flags db1)\<rparr>))"

definition DeleteDeck :: "content_db \<Rightarrow> gotime \<Rightarrow> uuid \<Rightarrow> uuid \<Rightarrow> content_error + content_db" where
  "DeleteDeck db now deckID userID =
     bindE (LockDeckForDelete db userID deckID) (\<lambda>_.
     bindE (DeleteNotesOrphanedByDeckDelete db deckID) (\<lambda>(_, db1).
     bindE (RehomeNotesOffDeck db1 now deckID) (\<lambda>(_, db2).
     bindE (DeleteDeckRow db2 deckID) (\<lambda>(_, db3). Inr db3))))"

end
