(* ===== verification/Content_Deletion.thy ===== *)
theory Content_Deletion
  imports Content_Store
begin

text \<open>
  What the deck transactions keep: the keys and references of the content tables, the rule that every
  note has a card, and the rule that every deck has somebody who can manage and somebody who can
  delete it.
\<close>

lemma pk_unique: "pk k t \<Longrightarrow> r \<in> set t \<Longrightarrow> r' \<in> set t \<Longrightarrow> k r = k r' \<Longrightarrow> r = r'"
  by (auto simp: pk_def distinct_map dest: inj_onD)

section \<open>The invariants\<close>

definition has_card :: "content_db \<Rightarrow> db_note \<Rightarrow> bool" where
  "has_card db n \<longleftrightarrow> (\<exists>c\<in>set (cd_cards db). c_NoteID c = n_ID n)"

definition card_place :: "note_card \<Rightarrow> uuid \<times> int" where
  "card_place c = (c_NoteID c, c_Ordinal c)"

definition content_keys :: "content_db \<Rightarrow> bool" where
  "content_keys db \<longleftrightarrow> pk dk_ID (cd_decks db) \<and> pk da_key (cd_access db) \<and> pk n_ID (cd_notes db)
     \<and> pk guid_key (cd_notes db) \<and> pk c_ID (cd_cards db) \<and> pk card_place (cd_cards db)"

definition content_refs :: "content_db \<Rightarrow> bool" where
  "content_refs db \<longleftrightarrow>
     (\<forall>c\<in>set (cd_cards db). (\<exists>n\<in>set (cd_notes db). n_ID n = c_NoteID c) \<and> (\<exists>d\<in>set (cd_decks db). dk_ID d = c_DeckID c))
     \<and> (\<forall>n\<in>set (cd_notes db). \<exists>d\<in>set (cd_decks db). dk_ID d = n_DeckID n \<and> dk_OwnerID d = n_OwnerID n)
     \<and> (\<forall>a\<in>set (cd_access db). \<exists>d\<in>set (cd_decks db). dk_ID d = da_DeckID a)
     \<and> (\<forall>s\<in>set (cd_states db). \<exists>c\<in>set (cd_cards db). c_ID c = us_CardID s)"

definition content_wf :: "content_db \<Rightarrow> bool" where
  "content_wf db \<longleftrightarrow> content_keys db \<and> content_refs db \<and> (\<forall>n\<in>set (cd_notes db). has_card db n)"

definition deck_covered :: "content_db \<Rightarrow> uuid \<Rightarrow> bool" where
  "deck_covered db d \<longleftrightarrow>
     (\<exists>a\<in>set (cd_access db). da_DeckID a = d \<and> can_manage_access a)
     \<and> (\<exists>a\<in>set (cd_access db). da_DeckID a = d \<and> can_delete a)"

definition no_deck_stranded :: "content_db \<Rightarrow> bool" where
  "no_deck_stranded db \<longleftrightarrow> (\<forall>d\<in>set (cd_decks db). deck_covered db (dk_ID d))"

section \<open>Deleting a deck\<close>

lemma delete_cards_simps [simp]:
  "cd_cards (delete_cards p db) = filter (\<lambda>c. \<not> p c) (cd_cards db)"
  "cd_states (delete_cards p db) = filter (\<lambda>s. us_CardID s \<notin> c_ID ` set (filter p (cd_cards db))) (cd_states db)"
  "cd_decks (delete_cards p db) = cd_decks db" "cd_access (delete_cards p db) = cd_access db"
  "cd_notes (delete_cards p db) = cd_notes db" "cd_log (delete_cards p db) = cd_log db"
  "cd_params (delete_cards p db) = cd_params db" "cd_media (delete_cards p db) = cd_media db"
  "cd_templates (delete_cards p db) = cd_templates db" "cd_noteTypes (delete_cards p db) = cd_noteTypes db"
  "cd_refuses (delete_cards p db) = cd_refuses db"
  by (simp_all add: delete_cards_def Let_def)

text \<open>Deleting cards leaves no scheduling row without its card.\<close>

lemma delete_cards_states:
  assumes "\<forall>s\<in>set (cd_states db). \<exists>c\<in>set (cd_cards db). c_ID c = us_CardID s"
  shows "\<forall>s\<in>set (cd_states (delete_cards p db)). \<exists>c\<in>set (cd_cards (delete_cards p db)). c_ID c = us_CardID s"
proof
  fix s assume s: "s \<in> set (cd_states (delete_cards p db))"
  then have "s \<in> set (cd_states db)" by simp
  with assms obtain c where c: "c \<in> set (cd_cards db)" "c_ID c = us_CardID s" by blast
  with s have "\<not> p c" by (auto simp: image_iff)
  with c show "\<exists>c\<in>set (cd_cards (delete_cards p db)). c_ID c = us_CardID s" by auto
qed

lemma rehome_note_simps [simp]:
  "n_ID (rehome_note db now d n) = n_ID n" "n_Guid (rehome_note db now d n) = n_Guid n"
  by (auto simp: rehome_note_def split: option.split)

lemma rehome_target_Some:
  assumes "rehome_target db d n = Some dk"
  shows "dk \<in> set (cd_decks db) \<and> dk_ID dk \<noteq> d
    \<and> (\<exists>c\<in>set (cd_cards db). c_NoteID c = n_ID n \<and> c_DeckID c = dk_ID dk)"
proof -
  let ?cs = "sort_key card_order (filter (\<lambda>c. c_NoteID c = n_ID n \<and> c_DeckID c \<noteq> d) (cd_cards db))"
  from assms obtain c rest where c: "?cs = c # rest" "row_of dk_ID (c_DeckID c) (cd_decks db) = Some dk"
    by (auto simp: rehome_target_def split: list.splits)
  from arg_cong [OF c(1), of set] have "c \<in> set (cd_cards db) \<and> c_NoteID c = n_ID n \<and> c_DeckID c \<noteq> d" by auto
  with row_of_Some [OF c(2)] show ?thesis by auto
qed

lemma rehome_target_None:
  assumes "\<forall>c\<in>set (cd_cards db). \<exists>d\<in>set (cd_decks db). dk_ID d = c_DeckID c"
    and "\<exists>c\<in>set (cd_cards db). c_NoteID c = n_ID n \<and> c_DeckID c \<noteq> d"
  shows "rehome_target db d n \<noteq> None"
proof -
  let ?cs = "sort_key card_order (filter (\<lambda>c. c_NoteID c = n_ID n \<and> c_DeckID c \<noteq> d) (cd_cards db))"
  from assms(2) have "set ?cs \<noteq> {}" by auto
  then obtain c rest where c: "?cs = c # rest" by (cases ?cs) auto
  from arg_cong [OF c(1), of set] have "c \<in> set (cd_cards db)" by auto
  with assms(1) have "row_of dk_ID (c_DeckID c) (cd_decks db) \<noteq> None" by (auto simp: row_of_None)
  with c show ?thesis by (simp add: rehome_target_def)
qed

definition may :: "content_db \<Rightarrow> uuid \<Rightarrow> uuid \<Rightarrow> (deck_access \<Rightarrow> bool) \<Rightarrow> bool" where
  "may db deckID userID permits \<longleftrightarrow> (\<exists>d\<in>set (cd_decks db). dk_ID d = deckID)
     \<and> (\<exists>a\<in>set (cd_access db). da_key a = (deckID, userID) \<and> can_view a \<and> permits a)"

lemma deck_with_Some:
  "deck_with db d u p = Some (dk, a) \<Longrightarrow>
     dk \<in> set (cd_decks db) \<and> dk_ID dk = d \<and> a \<in> set (cd_access db) \<and> da_key a = (d, u) \<and> p a"
  by (auto simp: deck_with_def access_of_def dest!: row_of_Some split: option.splits if_splits)

lemma deck_with_iff:
  assumes "content_keys db"
  shows "deck_with db d u (\<lambda>a. can_view a \<and> p a) \<noteq> None \<longleftrightarrow> may db d u p"
proof -
  from assms have k: "pk dk_ID (cd_decks db)" "pk da_key (cd_access db)" by (simp_all add: content_keys_def)
  show ?thesis
    unfolding deck_with_def access_of_def may_def
    by (auto simp: row_of_pk [OF k(1)] row_of_pk [OF k(2)] row_of_None split: option.splits
        dest: pk_unique [OF k(2)])
qed

lemma LockDeckForDelete_Inr: "LockDeckForDelete db u d = Inr x \<Longrightarrow> may db d u can_delete"
  by (auto simp: LockDeckForDelete_def bindE_eq_Inr may_def dest!: deck_with_Some)

lemma LockDeckForAccessChange_Inr: "LockDeckForAccessChange db u d = Inr x \<Longrightarrow> may db d u can_manage_access"
  by (auto simp: LockDeckForAccessChange_def bindE_eq_Inr may_def dest!: deck_with_Some)

text \<open>What a successful \<open>DeleteDeck\<close> computes.\<close>

definition after_orphans :: "content_db \<Rightarrow> uuid \<Rightarrow> content_db" where
  "after_orphans db d =
     (delete_cards (\<lambda>c. c_NoteID c \<in> n_ID ` set (filter (orphaned db d) (cd_notes db))) db)
       \<lparr>cd_notes := filter (\<lambda>n. \<not> orphaned db d n) (cd_notes db)\<rparr>"

lemma DeleteDeck_Inr:
  assumes "DeleteDeck db now d u = Inr db'"
  shows "may db d u can_delete"
    and "\<forall>n\<in>set (cd_notes (after_orphans db d)). n_DeckID n = d \<longrightarrow> rehome_target (after_orphans db d) d n \<noteq> None"
    and "cd_notes db' = map (rehome_note (after_orphans db d) now d) (cd_notes (after_orphans db d))"
    and "distinct (map guid_key (cd_notes db'))" "\<forall>n\<in>set (cd_notes db'). n_DeckID n \<noteq> d"
    and "cd_decks db' = filter (\<lambda>x. dk_ID x \<noteq> d) (cd_decks db)"
    and "cd_access db' = filter (\<lambda>a. da_DeckID a \<noteq> d) (cd_access db)"
    and "cd_cards db' = cd_cards (delete_cards (\<lambda>c. c_DeckID c = d) (after_orphans db d))"
    and "cd_states db' = cd_states (delete_cards (\<lambda>c. c_DeckID c = d) (after_orphans db d))"
    and "cd_log db' = cd_log db"
proof -
  from assms obtain x k1 db1 k2 db2 k3 where
    l: "LockDeckForDelete db u d = Inr x" and
    o: "DeleteNotesOrphanedByDeckDelete db d = Inr (k1, db1)" and
    r: "RehomeNotesOffDeck db1 now d = Inr (k2, db2)" and
    w: "DeleteDeckRow db2 d = Inr (k3, db')"
    by (auto simp: DeleteDeck_def bindE_eq_Inr)
  show "may db d u can_delete" by (rule LockDeckForDelete_Inr [OF l])
  have db1: "db1 = after_orphans db d"
    using o by (auto simp: DeleteNotesOrphanedByDeckDelete_def after_orphans_def Let_def)
  from r have db2: "db2 = db1\<lparr>cd_notes := map (rehome_note db1 now d) (cd_notes db1)\<rparr>"
    and "\<not> list_ex (\<lambda>n. rehome_target db1 d n = None) (filter (\<lambda>n. n_DeckID n = d) (cd_notes db1))"
    and dist: "distinct (map guid_key (map (rehome_note db1 now d) (cd_notes db1)))"
    by (auto simp: RehomeNotesOffDeck_def Let_def bindE_eq_Inr split: if_splits)
  then show "\<forall>n\<in>set (cd_notes (after_orphans db d)). n_DeckID n = d \<longrightarrow> rehome_target (after_orphans db d) d n \<noteq> None"
    by (auto simp: db1 list_ex_iff)
  from w have db': "db' = (let db1 = delete_cards (\<lambda>c. c_DeckID c = d) db2
       in db1\<lparr>cd_decks := filter (\<lambda>x. dk_ID x \<noteq> d) (cd_decks db2),
            cd_access := filter (\<lambda>a. da_DeckID a \<noteq> d) (cd_access db2),
            cd_params := filter (\<lambda>p. fp_DeckID p \<noteq> Some d) (cd_params db2),
            cd_media := filter (\<lambda>m. mr_DeckID m \<noteq> d) (cd_media db2),
            cd_flags := filter (\<lambda>f. cf_DeckID f \<noteq> d) (cd_flags db1)\<rparr>)"
    and none: "\<forall>n\<in>set (cd_notes db2). n_DeckID n \<noteq> d"
    by (auto simp: DeleteDeckRow_def Let_def bindE_eq_Inr list_ex_iff split: if_splits)
  have same: "cd_decks db1 = cd_decks db" "cd_access db1 = cd_access db" "cd_log db1 = cd_log db"
    by (simp_all add: db1 after_orphans_def)
  show "cd_notes db' = map (rehome_note (after_orphans db d) now d) (cd_notes (after_orphans db d))"
    by (simp add: db' Let_def db2 db1)
  show "distinct (map guid_key (cd_notes db'))" using dist by (simp add: db' Let_def db2)
  show "\<forall>n\<in>set (cd_notes db'). n_DeckID n \<noteq> d" using none by (simp add: db' Let_def db2)
  show "cd_decks db' = filter (\<lambda>x. dk_ID x \<noteq> d) (cd_decks db)"
    "cd_access db' = filter (\<lambda>a. da_DeckID a \<noteq> d) (cd_access db)" "cd_log db' = cd_log db"
    by (simp_all add: db' Let_def db2 same)
  show "cd_cards db' = cd_cards (delete_cards (\<lambda>c. c_DeckID c = d) (after_orphans db d))"
    "cd_states db' = cd_states (delete_cards (\<lambda>c. c_DeckID c = d) (after_orphans db d))"
    by (simp_all add: db' Let_def db2 db1)
qed

text \<open>A card of an orphaned note is filed in the deck, so the first step deletes no card of another deck.\<close>

lemma after_orphans_cards:
  assumes "content_wf db"
  shows "filter (\<lambda>c. c_DeckID c \<noteq> d) (cd_cards (after_orphans db d)) = filter (\<lambda>c. c_DeckID c \<noteq> d) (cd_cards db)"
proof -
  have "c_NoteID c \<notin> n_ID ` set (filter (orphaned db d) (cd_notes db))"
    if "c \<in> set (cd_cards db)" "c_DeckID c \<noteq> d" for c
    using that by (auto simp: orphaned_def list_ex_iff)
  then show ?thesis by (auto simp: after_orphans_def intro!: filter_cong)
qed

lemma after_orphans_note:
  assumes "content_wf db" "n \<in> set (cd_notes (after_orphans db d))"
  shows "n \<in> set (cd_notes db) \<and> (\<exists>c\<in>set (cd_cards db). c_NoteID c = n_ID n \<and> c_DeckID c \<noteq> d)"
proof -
  from assms(2) have n: "n \<in> set (cd_notes db)" "\<not> orphaned db d n" by (simp_all add: after_orphans_def)
  from n(1) assms(1) obtain c where c: "c \<in> set (cd_cards db)" "c_NoteID c = n_ID n"
    by (auto simp: content_wf_def has_card_def)
  with n show ?thesis by (cases "c_DeckID c = d") (auto simp: orphaned_def list_ex_iff)
qed

lemma DeleteDeck_wf:
  assumes wf: "content_wf db" and del: "DeleteDeck db now d u = Inr db'"
  shows "content_wf db'" "cd_cards db' = filter (\<lambda>c. c_DeckID c \<noteq> d) (cd_cards db)"
    "n_ID ` set (cd_notes db') = c_NoteID ` set (filter (\<lambda>c. c_DeckID c \<noteq> d) (cd_cards db))"
proof -
  note D = DeleteDeck_Inr [OF del]
  from wf have keys: "content_keys db" and refs: "content_refs db" by (simp_all add: content_wf_def)
  show cards: "cd_cards db' = filter (\<lambda>c. c_DeckID c \<noteq> d) (cd_cards db)"
    using after_orphans_cards [OF wf] D(8) by simp
  have ids: "map n_ID (cd_notes db') = map n_ID (filter (\<lambda>n. \<not> orphaned db d n) (cd_notes db))"
    by (simp add: D(3) after_orphans_def o_def)
  have note_of: "\<exists>c\<in>set (cd_cards db'). c_NoteID c = n_ID n" if "n \<in> set (cd_notes db')" for n
  proof -
    from that obtain m where m: "m \<in> set (cd_notes (after_orphans db d))" "n_ID n = n_ID m"
      by (auto simp: D(3))
    from after_orphans_note [OF wf m(1)] m(2) show ?thesis by (auto simp: cards)
  qed
  have survives: "\<exists>n\<in>set (cd_notes db'). n_ID n = c_NoteID c" if c: "c \<in> set (cd_cards db')" for c
  proof -
    from c have c': "c \<in> set (cd_cards db)" "c_DeckID c \<noteq> d" by (simp_all add: cards)
    with refs obtain n where n: "n \<in> set (cd_notes db)" "n_ID n = c_NoteID c" by (auto simp: content_refs_def)
    with c' have "\<not> orphaned db d n" by (auto simp: orphaned_def list_ex_iff)
    with n have "c_NoteID c \<in> set (map n_ID (cd_notes db'))" unfolding ids by force
    then show ?thesis by auto
  qed
  show "n_ID ` set (cd_notes db') = c_NoteID ` set (filter (\<lambda>c. c_DeckID c \<noteq> d) (cd_cards db))"
    using note_of survives unfolding cards by (auto simp: image_iff) (metis, metis)
  have "content_keys db'"
  proof -
    have "pk n_ID (cd_notes db')" using keys unfolding pk_def ids content_keys_def
      by (simp add: distinct_map_filter)
    with keys D(4) show ?thesis by (simp add: content_keys_def cards D(6,7) pk_def distinct_map_filter)
  qed
  moreover have "content_refs db'"
  proof -
    have "\<exists>e\<in>set (cd_decks db'). dk_ID e = n_DeckID n \<and> dk_OwnerID e = n_OwnerID n"
      if n: "n \<in> set (cd_notes db')" for n
    proof -
      from n obtain m where m: "m \<in> set (cd_notes (after_orphans db d))" "n = rehome_note (after_orphans db d) now d m"
        by (auto simp: D(3))
      show ?thesis
      proof (cases "n_DeckID m = d")
        case True
        with m D(2) obtain e where e: "rehome_target (after_orphans db d) d m = Some e" by blast
        from rehome_target_Some [OF e] True m(2) e show ?thesis
          by (auto simp: D(6) rehome_note_def after_orphans_def)
      next
        case False
        with m(2) have "n = m" by (simp add: rehome_note_def)
        with after_orphans_note [OF wf m(1)] refs obtain e where
          "e \<in> set (cd_decks db)" "dk_ID e = n_DeckID n" "dk_OwnerID e = n_OwnerID n"
          by (auto simp: content_refs_def)
        with False \<open>n = m\<close> show ?thesis by (auto simp: D(6))
      qed
    qed
    moreover have "\<forall>s\<in>set (cd_states db'). \<exists>c\<in>set (cd_cards db'). c_ID c = us_CardID s"
      unfolding D(8,9)
    proof (rule delete_cards_states)
      have "\<forall>s\<in>set (cd_states db). \<exists>c\<in>set (cd_cards db). c_ID c = us_CardID s"
        using refs by (simp add: content_refs_def)
      from delete_cards_states [OF this]
      show "\<forall>s\<in>set (cd_states (after_orphans db d)). \<exists>c\<in>set (cd_cards (after_orphans db d)). c_ID c = us_CardID s"
        by (simp add: after_orphans_def)
    qed
    moreover have "\<exists>e\<in>set (cd_decks db'). dk_ID e = c_DeckID c" if "c \<in> set (cd_cards db')" for c
    proof -
      from that refs obtain e where "e \<in> set (cd_decks db)" "dk_ID e = c_DeckID c"
        by (auto simp: content_refs_def cards)
      with that show ?thesis by (auto simp: cards D(6))
    qed
    moreover have "\<exists>e\<in>set (cd_decks db'). dk_ID e = da_DeckID a" if "a \<in> set (cd_access db')" for a
    proof -
      from that refs obtain e where "e \<in> set (cd_decks db)" "dk_ID e = da_DeckID a"
        by (auto simp: content_refs_def D(7))
      with that show ?thesis by (auto simp: D(6,7))
    qed
    ultimately show ?thesis using survives unfolding content_refs_def by blast
  qed
  ultimately show "content_wf db'" using note_of by (simp add: content_wf_def has_card_def)
qed

lemma deck_covered_others:
  assumes "deck_covered db e" "e \<noteq> d" "cd_access db' = filter (\<lambda>a. da_DeckID a \<noteq> d) (cd_access db)"
  shows "deck_covered db' e"
  using assms by (auto simp: deck_covered_def)

text \<open>C19: deleting a deck needs \<open>can_view\<close> and \<open>can_delete\<close>, deletes exactly the cards filed in it and
  exactly the notes that have no card elsewhere, keeps every key and reference, re-homes the surviving
  notes to a deck (with its owner) that holds one of their cards, leaves no note without a card, strands
  no other deck and does not touch the log.\<close>

theorem DeleteDeck_correct:
  assumes "content_wf db" and "DeleteDeck db now d u = Inr db'"
  shows "may db d u can_delete \<and> content_wf db'
    \<and> cd_cards db' = filter (\<lambda>c. c_DeckID c \<noteq> d) (cd_cards db)
    \<and> n_ID ` set (cd_notes db') = c_NoteID ` set (filter (\<lambda>c. c_DeckID c \<noteq> d) (cd_cards db))
    \<and> cd_decks db' = filter (\<lambda>x. dk_ID x \<noteq> d) (cd_decks db) \<and> cd_log db' = cd_log db
    \<and> (no_deck_stranded db \<longrightarrow> no_deck_stranded db')"
proof -
  note D = DeleteDeck_Inr [OF assms(2)]
  have "no_deck_stranded db \<longrightarrow> no_deck_stranded db'"
    using deck_covered_others [OF _ _ D(7)] by (auto simp: no_deck_stranded_def D(6))
  with DeleteDeck_wf [OF assms] D(1,6,10) show ?thesis by blast
qed

text \<open>
  The foreign keys never stop a permitted deletion; only the re-homing can, when two surviving notes with one guid
  end with the same owner. \<open>heir\<close> is the owner a surviving note ends with.
\<close>

definition heir :: "content_db \<Rightarrow> uuid \<Rightarrow> db_note \<Rightarrow> uuid" where
  "heir db d n = (case (if n_DeckID n = d then rehome_target db d n else None) of None \<Rightarrow> n_OwnerID n | Some e \<Rightarrow> dk_OwnerID e)"

definition survivors :: "content_db \<Rightarrow> uuid \<Rightarrow> db_note list" where
  "survivors db d = filter (\<lambda>n. \<exists>c\<in>set (cd_cards db). c_NoteID c = n_ID n \<and> c_DeckID c \<noteq> d) (cd_notes db)"

definition guid_clash :: "content_db \<Rightarrow> uuid \<Rightarrow> bool" where
  "guid_clash db d \<longleftrightarrow> (\<exists>n\<in>set (survivors db d). \<exists>m\<in>set (survivors db d). n_ID n \<noteq> n_ID m
     \<and> n_Guid n = n_Guid m \<and> heir db d n = heir db d m)"

definition no_refusals :: "content_db \<Rightarrow> bool" where
  "no_refusals db \<longleftrightarrow> (\<forall>st. \<not> cd_refuses db st)"

lemma after_orphans_survivors: "content_wf db \<Longrightarrow> cd_notes (after_orphans db d) = survivors db d"
proof -
  assume wf: "content_wf db"
  have "\<not> orphaned db d n \<longleftrightarrow> (\<exists>c\<in>set (cd_cards db). c_NoteID c = n_ID n \<and> c_DeckID c \<noteq> d)" if "n \<in> set (cd_notes db)" for n
    using after_orphans_note [OF wf, of n d] that by (auto simp: after_orphans_def orphaned_def list_ex_iff)
  then show ?thesis by (auto simp: after_orphans_def survivors_def intro!: filter_cong)
qed

lemma rehome_target_after: "content_wf db \<Longrightarrow> rehome_target (after_orphans db d) d n = rehome_target db d n"
proof -
  assume wf: "content_wf db"
  have f: "filter (\<lambda>c. c_NoteID c = n_ID n \<and> c_DeckID c \<noteq> d) cs = filter (\<lambda>c. c_NoteID c = n_ID n) (filter (\<lambda>c. c_DeckID c \<noteq> d) cs)" for cs
    by (simp add: conj_commute)
  have "cd_decks (after_orphans db d) = cd_decks db" by (simp add: after_orphans_def)
  then show ?thesis unfolding rehome_target_def f after_orphans_cards [OF wf] by (simp split: list.split)
qed

lemma rehomed_key:
  assumes "content_wf db"
  shows "guid_key (rehome_note (after_orphans db d) now d n) = (heir db d n, n_Guid n)"
  by (auto simp: rehome_note_def guid_key_def heir_def rehome_target_after [OF assms] split: option.split)

lemma rehomed_distinct:
  assumes wf: "content_wf db"
  shows "distinct (map guid_key (map (rehome_note (after_orphans db d) now d) (cd_notes (after_orphans db d)))) \<longleftrightarrow> \<not> guid_clash db d"
proof -
  have ids: "distinct (map n_ID (survivors db d))"
    using wf by (simp add: survivors_def content_wf_def content_keys_def pk_def distinct_map_filter)
  have "map guid_key (map (rehome_note (after_orphans db d) now d) (cd_notes (after_orphans db d)))
      = map (\<lambda>n. (heir db d n, n_Guid n)) (survivors db d)"
    by (simp add: rehomed_key [OF wf] after_orphans_survivors [OF wf])
  moreover have "distinct (map (\<lambda>n. (heir db d n, n_Guid n)) (survivors db d)) \<longleftrightarrow> \<not> guid_clash db d"
    using ids unfolding guid_clash_def distinct_map inj_on_def by (metis prod.inject)
  ultimately show ?thesis by (simp only:)
qed

lemma DeleteDeck_outcome_aux:
  assumes wf: "content_wf db" and may: "may db d u can_delete" and go: "no_refusals db"
  shows "if guid_clash db d then DeleteDeck db now d u = Inl (UniqueViolation ''notes_owner_id_guid_key'')
    else \<exists>db'. DeleteDeck db now d u = Inr db'"
proof -
  let ?db1 = "after_orphans db d"
  from wf have keys: "content_keys db" and refs: "content_refs db" by (simp_all add: content_wf_def)
  from deck_with_iff [OF keys, of d u can_delete] may obtain x where
    "deck_with db d u (\<lambda>a. can_view a \<and> can_delete a) = Some x" by auto
  then have l: "LockDeckForDelete db u d = Inr (dk_ID (fst x))"
    using go by (simp add: LockDeckForDelete_def run_c_def no_refusals_def)
  have o: "DeleteNotesOrphanedByDeckDelete db d = Inr (length (filter (orphaned db d) (cd_notes db)), ?db1)"
    using go by (simp add: DeleteNotesOrphanedByDeckDelete_def after_orphans_def Let_def run_c_def no_refusals_def)
  have same: "cd_decks ?db1 = cd_decks db" "cd_refuses ?db1 = cd_refuses db" by (simp_all add: after_orphans_def)
  have target: "rehome_target ?db1 d n \<noteq> None" if n: "n \<in> set (cd_notes ?db1)" for n
  proof (rule rehome_target_None)
    show "\<forall>c\<in>set (cd_cards ?db1). \<exists>e\<in>set (cd_decks ?db1). dk_ID e = c_DeckID c"
      using refs by (auto simp: content_refs_def after_orphans_def)
    from after_orphans_note [OF wf n] obtain c where "c \<in> set (cd_cards db)" "c_NoteID c = n_ID n" "c_DeckID c \<noteq> d"
      by blast
    then have "c \<in> set (filter (\<lambda>c. c_DeckID c \<noteq> d) (cd_cards ?db1)) \<and> c_NoteID c = n_ID n"
      unfolding after_orphans_cards [OF wf] by simp
    then show "\<exists>c\<in>set (cd_cards ?db1). c_NoteID c = n_ID n \<and> c_DeckID c \<noteq> d" by auto
  qed
  let ?notes = "map (rehome_note ?db1 now d) (cd_notes ?db1)"
  have r: "RehomeNotesOffDeck ?db1 now d = (if guid_clash db d then Inl (UniqueViolation ''notes_owner_id_guid_key'')
      else Inr (length (filter (\<lambda>n. n_DeckID n = d) (cd_notes ?db1)), ?db1\<lparr>cd_notes := ?notes\<rparr>))"
    using go target rehomed_distinct [OF wf, of d now]
    by (auto simp: RehomeNotesOffDeck_def run_c_def same no_refusals_def list_ex_iff Let_def)
  have "n_DeckID (rehome_note ?db1 now d n) \<noteq> d" if n: "n \<in> set (cd_notes ?db1)" for n
    using target [OF n] rehome_target_Some [of ?db1 d n] by (auto simp: rehome_note_def)
  then have "\<exists>db3. DeleteDeckRow (?db1\<lparr>cd_notes := ?notes\<rparr>) d = Inr db3"
    using go by (auto simp: DeleteDeckRow_def run_c_def same no_refusals_def list_ex_iff Let_def)
  then obtain db3 where w: "DeleteDeckRow (?db1\<lparr>cd_notes := ?notes\<rparr>) d = Inr db3" ..
  show ?thesis by (cases db3) (simp add: DeleteDeck_def l o r w)
qed

text \<open>C20: what a request to delete a deck comes to, while the database refuses no statement for a reason of its own:
  without \<open>can_view\<close> and \<open>can_delete\<close> it is the error of a deck that does not exist; with them it succeeds, except when
  two notes that survive (by cards in other decks) carry the same guid and end with the same owner, and then it is
  the violation of \<open>notes_owner_id_guid_key\<close>. No foreign key ever stops it.\<close>

theorem DeleteDeck_outcome:
  assumes "content_wf db" and "no_refusals db"
  shows "if \<not> may db d u can_delete then DeleteDeck db now d u = Inl ErrNoRows
    else if guid_clash db d then DeleteDeck db now d u = Inl (UniqueViolation ''notes_owner_id_guid_key'')
    else \<exists>db'. DeleteDeck db now d u = Inr db'"
proof (cases "may db d u can_delete")
  case True
  with DeleteDeck_outcome_aux [OF assms(1) True assms(2), of now] show ?thesis by simp
next
  case False
  moreover from assms(1) have "content_keys db" by (simp add: content_wf_def)
  ultimately have "deck_with db d u (\<lambda>a. can_view a \<and> can_delete a) = None"
    using deck_with_iff [of db d u can_delete] by blast
  with False assms(2) show ?thesis
    by (simp add: DeleteDeck_def LockDeckForDelete_def run_c_def no_refusals_def one_row_def)
qed

section \<open>Access\<close>

lemma assertDeckStillManageable_Inr:
  "assertDeckStillManageable db d = Inr () \<Longrightarrow> deck_covered db d"
  by (auto simp: assertDeckStillManageable_def CountDeckAccessHolders_def bindE_eq_Inr deck_covered_def
      filter_empty_conv split: if_splits)

text \<open>Only the access table changes, and of it only the target's row.\<close>

lemma RevokeDeckAccess_Inr:
  assumes "RevokeDeckAccess db d u t = Inr db'"
  shows "may db d u can_manage_access" "deck_covered db' d"
    "db' = db\<lparr>cd_access := filter (\<lambda>a. da_key a \<noteq> (d, t)) (cd_access db)\<rparr>"
proof -
  from assms obtain x n where l: "LockDeckForAccessChange db u d = Inr x"
    and r: "DeleteDeckAccessRow db d t = Inr (n, db')" "assertDeckStillManageable db' d = Inr ()"
    by (auto simp: RevokeDeckAccess_def bindE_eq_Inr split: if_splits)
  show "may db d u can_manage_access" by (rule LockDeckForAccessChange_Inr [OF l])
  show "deck_covered db' d" by (rule assertDeckStillManageable_Inr [OF r(2)])
  show "db' = db\<lparr>cd_access := filter (\<lambda>a. da_key a \<noteq> (d, t)) (cd_access db)\<rparr>"
    using r(1) by (simp add: DeleteDeckAccessRow_def)
qed

lemma SetDeckAccess_Inr:
  assumes "SetDeckAccess db u f d t = Inr db'"
  shows "may db d u can_manage_access" "deck_covered db' d"
    "db' = db\<lparr>cd_access := map_rows (\<lambda>a. da_key a = (d, t)) (\<lambda>_. access_row d t f) (cd_access db)\<rparr>"
proof -
  from assms obtain x n where l: "LockDeckForAccessChange db u d = Inr x"
    and r: "UpdateDeckAccessRow db f d t = Inr (n, db')" "assertDeckStillManageable db' d = Inr ()"
    by (auto simp: SetDeckAccess_def bindE_eq_Inr split: if_splits)
  show "may db d u can_manage_access" by (rule LockDeckForAccessChange_Inr [OF l])
  show "deck_covered db' d" by (rule assertDeckStillManageable_Inr [OF r(2)])
  show "db' = db\<lparr>cd_access := map_rows (\<lambda>a. da_key a = (d, t)) (\<lambda>_. access_row d t f) (cd_access db)\<rparr>"
    using r(1) by (simp add: UpdateDeckAccessRow_def)
qed

lemma ResetDeckProgress_Inr:
  assumes "ResetDeckProgress db d u t = Inr db'"
  shows "may db d u can_manage_access"
    "\<exists>p. db' = db\<lparr>cd_states := filter p (cd_states db)\<rparr>
       \<and> (\<forall>s\<in>set (cd_states db). p s = (us_UserID s \<noteq> t
            \<or> (\<forall>c\<in>set (cd_cards db). c_ID c = us_CardID s \<longrightarrow> c_DeckID c \<noteq> d)))"
proof -
  from assms obtain x n where l: "LockDeckForAccessChange db u d = Inr x"
    and r: "DeleteUserCardStateForDeck db d t = Inr (n, db')"
    by (auto simp: ResetDeckProgress_def bindE_eq_Inr)
  show "may db d u can_manage_access" by (rule LockDeckForAccessChange_Inr [OF l])
  show "\<exists>p. db' = db\<lparr>cd_states := filter p (cd_states db)\<rparr>
       \<and> (\<forall>s\<in>set (cd_states db). p s = (us_UserID s \<noteq> t
            \<or> (\<forall>c\<in>set (cd_cards db). c_ID c = us_CardID s \<longrightarrow> c_DeckID c \<noteq> d)))"
    using r by (auto simp: DeleteUserCardStateForDeck_def Let_def)
qed

lemma insert_access_Inr:
  "insert_access db a = Inr db' \<Longrightarrow> db' = db\<lparr>cd_access := cd_access db @ [a]\<rparr>
     \<and> row_of da_key (da_key a) (cd_access db) = None \<and> (\<exists>d\<in>set (cd_decks db). dk_ID d = da_DeckID a)"
  by (auto simp: insert_access_def access_of_def da_key_def row_of_None split: if_splits dest!: row_of_Some)

lemma GrantDeckAccess_Inr:
  assumes "GrantDeckAccess db t f d u = Inr (n, db')"
  shows "db' = db \<and> n = 0 \<or> n = 1 \<and> (\<exists>a\<in>set (cd_access db). da_key a = (d, u) \<and> can_view a \<and> can_manage_access a)
    \<and> insert_access db (access_row d t f) = Inr db'"
  using assms by (auto simp: GrantDeckAccess_def bindE_eq_Inr access_of_def split: if_splits option.splits dest!: row_of_Some)

section \<open>An example\<close>

text \<open>Two decks of one owner and two notes homed in the first: one with a card in each deck, one only here.\<close>

definition demo_deck :: "uuid \<Rightarrow> uuid \<Rightarrow> string \<Rightarrow> deck" where
  "demo_deck i owner name = \<lparr>dk_ID = i, dk_OwnerID = owner, dk_Name = name, dk_Description = [],
     dk_Preset = JObj [], dk_CreatedAt = 0, dk_ModifiedAt = 0, dk_AnkiID = None\<rparr>"

definition demo_note_row :: "uuid \<Rightarrow> string \<Rightarrow> uuid \<Rightarrow> db_note" where
  "demo_note_row i guid d = \<lparr>n_ID = i, n_Guid = guid, n_OwnerID = 1, n_NoteTypeID = 7, n_DeckID = d,
     n_Fields = [''a'', ''b''], n_Tags = [], n_Checksum = 0, n_CreatedAt = 0, n_ModifiedAt = 0,
     n_AnkiID = None, n_ReleaseDay = 0\<rparr>"

definition demo_card :: "uuid \<Rightarrow> uuid \<Rightarrow> int \<Rightarrow> uuid \<Rightarrow> note_card" where
  "demo_card i n ord d = \<lparr>c_ID = i, c_NoteID = n, c_TemplateID = 8, c_Ordinal = ord, c_DeckID = d,
     c_AnkiID = None, c_ImportDuePosition = Some 1\<rparr>"

definition demo_content :: content_db where
  "demo_content = \<lparr>cd_users = [\<lparr>u_ID = 1, u_Email = ''a@b'', u_DisplayName = [], u_Timezone = ''UTC'', u_DayStartHour = 0\<rparr>],
     cd_decks = [demo_deck 10 1 ''A'', demo_deck 11 1 ''B''],
     cd_access = [access_row 10 1 all_flags, access_row 11 1 all_flags],
     cd_noteTypes = [\<lparr>nt_ID = 7, nt_OwnerID = 1, nt_Name = ''Basic'', nt_Css = [], nt_IsCloze = False,
        nt_SortFieldIdx = 0, nt_AnkiID = None\<rparr>],
     cd_fields = [\<lparr>fd_ID = 5, fd_NoteTypeID = 7, fd_Ordinal = 0, fd_Name = ''Front'', fd_Font = ''Arial'', fd_Size = 20, fd_IsRtl = False, fd_Sticky = False\<rparr>],
     cd_templates = [\<lparr>tp_ID = 8, tp_NoteTypeID = 7, tp_Ordinal = 0, tp_Name = ''Card 1'', tp_Qfmt = [],
        tp_Afmt = [], tp_BrowserQfmt = [], tp_BrowserAfmt = []\<rparr>],
     cd_notes = [demo_note_row 20 ''g1'' 10, demo_note_row 21 ''g2'' 10],
     cd_cards = [demo_card 30 20 0 10, demo_card 31 20 1 11, demo_card 32 21 0 10],
     cd_states = [], cd_log = [], cd_params = [], cd_media = [], cd_flags = [], cd_refuses = (\<lambda>_. False)\<rparr>"

lemma demo_content_wf: "content_wf demo_content" "no_refusals demo_content"
  by (simp_all add: content_wf_def content_keys_def content_refs_def has_card_def demo_content_def pk_def
      demo_deck_def demo_note_row_def demo_card_def access_row_def da_key_def guid_key_def card_place_def
      no_refusals_def)

lemma demo_content_access: "may demo_content 10 1 can_delete" "\<not> may demo_content 10 2 can_delete"
  by (simp_all add: may_def demo_content_def demo_deck_def access_row_def da_key_def all_flags_def)

lemma demo_content_no_clash: "\<not> guid_clash demo_content 10"
  by (auto simp: guid_clash_def survivors_def demo_content_def demo_note_row_def demo_card_def)

lemma DeleteDeck_outcome_witness:
  "(\<exists>db'. DeleteDeck demo_content Day 10 1 = Inr db') \<and> DeleteDeck demo_content Day 10 2 = Inl ErrNoRows"
  using DeleteDeck_outcome [OF demo_content_wf, of 10 1 Day] DeleteDeck_outcome [OF demo_content_wf, of 10 2 Day]
  by (simp add: demo_content_access demo_content_no_clash)

lemma DeleteDeck_correct_witness:
  "\<exists>db'. DeleteDeck demo_content Day 10 1 = Inr db' \<and> n_ID ` set (cd_notes db') = {20} \<and> content_wf db'"
proof -
  from DeleteDeck_outcome_aux [OF demo_content_wf(1) demo_content_access(1) demo_content_wf(2), of Day] demo_content_no_clash
  obtain db' where d: "DeleteDeck demo_content Day 10 1 = Inr db'" by auto
  from DeleteDeck_correct [OF demo_content_wf(1) d] have "content_wf db'"
    "n_ID ` set (cd_notes db') = c_NoteID ` set (filter (\<lambda>c. c_DeckID c \<noteq> 10) (cd_cards demo_content))" by simp_all
  moreover have "c_NoteID ` set (filter (\<lambda>c. c_DeckID c \<noteq> 10) (cd_cards demo_content)) = {20}"
    by (simp add: demo_content_def demo_card_def)
  ultimately show ?thesis using d by metis
qed

end
