(* ===== verification/Note_Cards.thy ===== *)
theory Note_Cards
  imports Content_Deletion
begin

text \<open>
  Which cards a note has: the statements of \<open>cards.sql.go\<close>, the note statements they work with, the diff
  that reconciles a note's cards (\<open>SyncNoteCards\<close>), the note-type-wide remap (\<open>RemapNoteTypeCards\<close>) and
  the note transactions of \<open>notes.go\<close>. The ids of new rows (\<open>uuidv7()\<close>) are arguments; an id that is
  taken is refused by the primary key.
\<close>

section \<open>Card statements\<close>

definition max_position :: int where "max_position = 2147483647"

text \<open>\<open>COALESCE(max(c.import_due_position), 0)\<close> over the deck's cards.\<close>

definition last_position :: "content_db \<Rightarrow> uuid \<Rightarrow> int" where
  "last_position db deckID =
     (let ps = List.map_filter c_ImportDuePosition (filter (\<lambda>c. c_DeckID c = deckID) (cd_cards db))
      in if ps = [] then 0 else fold max (tl ps) (hd ps))"

definition insert_card :: "content_db \<Rightarrow> note_card \<Rightarrow> content_error + content_db" where
  "insert_card db c =
     (if row_of c_ID (c_ID c) (cd_cards db) \<noteq> None then Inl (UniqueViolation ''cards_pkey'')
      else if row_of card_place (card_place c) (cd_cards db) \<noteq> None then Inl (UniqueViolation ''cards_note_id_ordinal_key'')
      else if row_of n_ID (c_NoteID c) (cd_notes db) = None then Inl (FKViolation ''cards_note_id_fkey'')
      else if row_of tp_ID (c_TemplateID c) (cd_templates db) = None then Inl (FKViolation ''cards_template_id_fkey'')
      else if row_of dk_ID (c_DeckID c) (cd_decks db) = None then Inl (FKViolation ''cards_deck_id_fkey'')
      else Inr (db\<lparr>cd_cards := cd_cards db @ [c]\<rparr>))"

definition card_row :: "uuid \<Rightarrow> uuid \<Rightarrow> uuid \<Rightarrow> int \<Rightarrow> uuid \<Rightarrow> int \<Rightarrow> note_card" where
  "card_row newID noteID templateID ordinal deckID position =
     \<lparr>c_ID = newID, c_NoteID = noteID, c_TemplateID = templateID, c_Ordinal = ordinal, c_DeckID = deckID,
      c_AnkiID = None, c_ImportDuePosition = Some (min position max_position)\<rparr>"

definition CreateCard :: "content_db \<Rightarrow> uuid \<Rightarrow> uuid \<Rightarrow> uuid \<Rightarrow> int \<Rightarrow> uuid \<Rightarrow> content_error + note_card \<times> content_db" where
  "CreateCard db newID noteID templateID ordinal deckID =
     bindE (run_c db ''CreateCard'' (card_row newID noteID templateID ordinal deckID (last_position db deckID + 1))) (\<lambda>c.
     bindE (insert_card db c) (\<lambda>db'. Inr (c, db')))"

definition ListCardsForNoteForUpdate :: "content_db \<Rightarrow> uuid \<Rightarrow> content_error + note_card list" where
  "ListCardsForNoteForUpdate db noteID =
     run_c db ''ListCardsForNoteForUpdate'' (sort_key c_Ordinal (filter (\<lambda>c. c_NoteID c = noteID) (cd_cards db)))"

definition ListCardsForNote :: "content_db \<Rightarrow> uuid \<Rightarrow> content_error + int list" where
  "ListCardsForNote db noteID =
     run_c db ''ListCardsForNote'' (map c_Ordinal (sort_key c_Ordinal (filter (\<lambda>c. c_NoteID c = noteID) (cd_cards db))))"

definition CountCardsForTemplates :: "content_db \<Rightarrow> uuid list \<Rightarrow> content_error + nat" where
  "CountCardsForTemplates db ids =
     run_c db ''CountCardsForTemplates'' (length (filter (\<lambda>c. c_TemplateID c \<in> set ids) (cd_cards db)))"

definition DeleteCardsByOrdinals :: "content_db \<Rightarrow> uuid \<Rightarrow> int list \<Rightarrow> content_error + nat \<times> content_db" where
  "DeleteCardsByOrdinals db noteID ordinals =
     (let p = (\<lambda>c. c_NoteID c = noteID \<and> c_Ordinal c \<in> set ordinals)
      in run_c db ''DeleteCardsByOrdinals'' (length (filter p (cd_cards db)), delete_cards p db))"

definition DeleteCardsForTemplates :: "content_db \<Rightarrow> uuid list \<Rightarrow> content_error + nat \<times> content_db" where
  "DeleteCardsForTemplates db ids =
     (let p = (\<lambda>c. c_TemplateID c \<in> set ids)
      in run_c db ''DeleteCardsForTemplates'' (length (filter p (cd_cards db)), delete_cards p db))"

definition UpdateCardTemplate :: "content_db \<Rightarrow> uuid \<Rightarrow> uuid \<Rightarrow> content_error + nat \<times> content_db" where
  "UpdateCardTemplate db templateID cardID =
     bindE (run_c db ''UpdateCardTemplate'' (length (filter (\<lambda>c. c_ID c = cardID) (cd_cards db)))) (\<lambda>n.
     if n > 0 \<and> row_of tp_ID templateID (cd_templates db) = None then Inl (FKViolation ''cards_template_id_fkey'')
     else Inr (n, db\<lparr>cd_cards := map_rows (\<lambda>c. c_ID c = cardID) (\<lambda>c. c\<lparr>c_TemplateID := templateID\<rparr>) (cd_cards db)\<rparr>))"

text \<open>
  An update of \<open>ordinal\<close>: the unique key is checked row by row, in an order that is Postgres' own. The model
  refuses it exactly when some order of the rows is refused: two rows end at one place, or the new place of a moved
  row is the old place of another, which is still there when the first is written before it.
\<close>

definition set_ordinals :: "content_db \<Rightarrow> (note_card \<Rightarrow> bool) \<Rightarrow> (note_card \<Rightarrow> int) \<Rightarrow> content_error + nat \<times> content_db" where
  "set_ordinals db p f =
     (let moved = filter p (cd_cards db); new = map (\<lambda>c. (c_NoteID c, f c)) moved;
          cards = map_rows p (\<lambda>c. c\<lparr>c_Ordinal := f c\<rparr>) (cd_cards db)
      in if \<not> distinct (map card_place cards)
           \<or> list_ex (\<lambda>c. list_ex (\<lambda>c'. c_ID c \<noteq> c_ID c' \<and> (c_NoteID c, f c) = card_place c') moved) moved
         then Inl (UniqueViolation ''cards_note_id_ordinal_key'')
         else if list_ex (\<lambda>c. \<not> in_range 32 (f c)) moved then Inl (CRefused ''integer out of range'')
         else Inr (length moved, db\<lparr>cd_cards := cards\<rparr>))"

definition OffsetCardOrdinalsForTemplates :: "content_db \<Rightarrow> uuid list \<Rightarrow> content_error + nat \<times> content_db" where
  "OffsetCardOrdinalsForTemplates db ids =
     bindE (run_c db ''OffsetCardOrdinalsForTemplates'' ()) (\<lambda>_.
     if list_ex (\<lambda>c. c_TemplateID c \<in> set ids \<and> c_Ordinal c = max_int32) (cd_cards db)
     then Inl (CRefused ''integer out of range'')
     else set_ordinals db (\<lambda>c. c_TemplateID c \<in> set ids) (\<lambda>c. - (c_Ordinal c + 1)))"

text \<open>The unnested arrays are joined by position; they have the same length where this is called.\<close>

definition FinalizeCardOrdinalsForTemplates :: "content_db \<Rightarrow> uuid list \<Rightarrow> int list \<Rightarrow> content_error + nat \<times> content_db" where
  "FinalizeCardOrdinalsForTemplates db templateIds newOrdinals =
     bindE (run_c db ''FinalizeCardOrdinalsForTemplates'' (map_of (zip templateIds newOrdinals))) (\<lambda>m.
     set_ordinals db (\<lambda>c. m (c_TemplateID c) \<noteq> None) (\<lambda>c. the (m (c_TemplateID c))))"

text \<open>One card per note of the note type, numbered after the deck's last position in note order.\<close>

definition template_targets :: "content_db \<Rightarrow> uuid \<Rightarrow> db_note list" where
  "template_targets db noteTypeID = sort_key n_ID (filter (\<lambda>n. n_NoteTypeID n = noteTypeID) (cd_notes db))"

definition row_number :: "db_note list \<Rightarrow> db_note \<Rightarrow> int" where
  "row_number targets n = int (length (filter (\<lambda>m. n_DeckID m = n_DeckID n \<and> n_ID m \<le> n_ID n) targets))"

definition CreateCardsForNewTemplate :: "content_db \<Rightarrow> (uuid \<Rightarrow> uuid) \<Rightarrow> uuid \<Rightarrow> int \<Rightarrow> uuid \<Rightarrow> content_error + content_db" where
  "CreateCardsForNewTemplate db newID templateID ordinal noteTypeID =
     bindE (run_c db ''CreateCardsForNewTemplate'' (template_targets db noteTypeID)) (\<lambda>targets.
     foldE (\<lambda>d n.
         if row_of card_place (n_ID n, ordinal) (cd_cards d) \<noteq> None then Inr d
         else insert_card d (card_row (newID (n_ID n)) (n_ID n) templateID ordinal (n_DeckID n)
           (last_position db (n_DeckID n) + row_number targets n))) db targets)"

definition DeleteTemplatesByIDs :: "content_db \<Rightarrow> uuid \<Rightarrow> uuid list \<Rightarrow> content_error + nat \<times> content_db" where
  "DeleteTemplatesByIDs db noteTypeID ids =
     (let p = (\<lambda>t. tp_NoteTypeID t = noteTypeID \<and> tp_ID t \<in> set ids); gone = filter p (cd_templates db)
      in bindE (run_c db ''DeleteTemplatesByIDs'' (length gone)) (\<lambda>n.
         if list_ex (\<lambda>c. c_TemplateID c \<in> tp_ID ` set gone) (cd_cards db)
         then Inl (RestrictViolation ''cards_template_id_fkey'')
         else Inr (n, db\<lparr>cd_templates := filter (\<lambda>t. \<not> p t) (cd_templates db)\<rparr>)))"

section \<open>The card diff\<close>

record DesiredCard =
  dc_Ordinal :: int
  dc_TemplateID :: uuid

text \<open>\<open>desiredByOrdinal\<close>: a later entry for the same ordinal wins.\<close>

definition desiredByOrdinal :: "DesiredCard list \<Rightarrow> int \<Rightarrow> uuid option" where
  "desiredByOrdinal desired = map_of (rev (map (\<lambda>d. (dc_Ordinal d, dc_TemplateID d)) desired))"

definition create_missing :: "(int \<Rightarrow> uuid) \<Rightarrow> uuid \<Rightarrow> uuid \<Rightarrow> (int \<Rightarrow> uuid option) \<Rightarrow> content_db \<Rightarrow> int list
    \<Rightarrow> content_error + content_db" where
  "create_missing newID noteID homeDeckID desiredOf =
     foldE (\<lambda>d ord. bindE (CreateCard d (newID ord) noteID (the (desiredOf ord)) ord homeDeckID) (\<lambda>(_, d'). Inr d'))"

definition repoint :: "(int \<Rightarrow> uuid option) \<Rightarrow> content_db \<Rightarrow> note_card list \<Rightarrow> content_error + content_db" where
  "repoint desiredOf =
     foldE (\<lambda>d c.
       (case desiredOf (c_Ordinal c) of
          None \<Rightarrow> Inr d
        | Some t \<Rightarrow> if t = c_TemplateID c then Inr d
            else bindE (UpdateCardTemplate d t (c_ID c)) (\<lambda>(_, d'). Inr d')))"

definition SyncNoteCards :: "(int \<Rightarrow> uuid) \<Rightarrow> content_db \<Rightarrow> uuid \<Rightarrow> uuid \<Rightarrow> DesiredCard list \<Rightarrow> content_error + content_db" where
  "SyncNoteCards newID db noteID homeDeckID desired =
     (if desired = [] then Inl ErrNoCards
      else
        bindE (ListCardsForNoteForUpdate db noteID) (\<lambda>existing.
        let desiredOf = desiredByOrdinal desired;
            missing = filter (\<lambda>ord. ord \<notin> c_Ordinal ` set existing) (sort (dedup (map dc_Ordinal desired)));
            destroy = map c_Ordinal (filter (\<lambda>c. desiredOf (c_Ordinal c) = None) existing)
        in bindE (create_missing newID noteID homeDeckID desiredOf db missing) (\<lambda>db1.
           bindE (if destroy \<noteq> [] then bindE (DeleteCardsByOrdinals db1 noteID destroy) (\<lambda>(_, d). Inr d) else Inr db1) (\<lambda>db2.
           repoint desiredOf db2 existing))))"

section \<open>The note-type remap\<close>

record TemplateOrdinalChange =
  tc_TemplateID :: uuid
  tc_NewOrdinal :: int

record AddedTemplate =
  at_TemplateID :: uuid
  at_Ordinal :: int

definition RemapNoteTypeCards :: "(uuid \<Rightarrow> uuid \<Rightarrow> uuid) \<Rightarrow> content_db \<Rightarrow> uuid \<Rightarrow> TemplateOrdinalChange list \<Rightarrow> uuid list
    \<Rightarrow> AddedTemplate list \<Rightarrow> content_error + content_db" where
  "RemapNoteTypeCards newID db noteTypeID changed removed added =
     bindE (if changed \<noteq> [] then bindE (OffsetCardOrdinalsForTemplates db (map tc_TemplateID changed)) (\<lambda>(_, d). Inr d)
            else Inr db) (\<lambda>db1.
     bindE (if removed \<noteq> [] then
              bindE (DeleteCardsForTemplates db1 removed) (\<lambda>(_, d).
              bindE (DeleteTemplatesByIDs d noteTypeID removed) (\<lambda>(_, d'). Inr d'))
            else Inr db1) (\<lambda>db2.
     bindE (foldE (\<lambda>d a. CreateCardsForNewTemplate d (newID (at_TemplateID a)) (at_TemplateID a) (at_Ordinal a) noteTypeID)
              db2 added) (\<lambda>db3.
     if changed \<noteq> [] then
       bindE (FinalizeCardOrdinalsForTemplates db3 (map tc_TemplateID changed) (map tc_NewOrdinal changed)) (\<lambda>(_, d). Inr d)
     else Inr db3)))"

section \<open>Notes\<close>

definition note_type_readable :: "content_db \<Rightarrow> uuid \<Rightarrow> note_type \<Rightarrow> bool" where
  "note_type_readable db userID nt \<longleftrightarrow> nt_OwnerID nt = userID
     \<or> list_ex (\<lambda>rn. n_NoteTypeID rn = nt_ID nt
          \<and> (case access_of db (n_DeckID rn) userID of None \<Rightarrow> False | Some a \<Rightarrow> can_view a)) (cd_notes db)"

definition CreateNote :: "content_db \<Rightarrow> gotime \<Rightarrow> uuid \<Rightarrow> string \<Rightarrow> string list \<Rightarrow> string list \<Rightarrow> int \<Rightarrow> uuid \<Rightarrow> uuid \<Rightarrow> uuid
    \<Rightarrow> content_error + db_note \<times> content_db" where
  "CreateNote db now newID guid flds tags checksum userID noteTypeID deckID =
     bindE (run_c db ''CreateNote'' (deck_with db deckID userID (\<lambda>a. can_view a \<and> can_edit_content a))) (\<lambda>r.
     case (r, row_of nt_ID noteTypeID (cd_noteTypes db)) of
       (Some (d, _), Some nt) \<Rightarrow>
         if \<not> note_type_readable db userID nt then Inl ErrNoRows
         else
           let n = \<lparr>n_ID = newID, n_Guid = guid, n_OwnerID = dk_OwnerID d, n_NoteTypeID = nt_ID nt, n_DeckID = dk_ID d,
                n_Fields = flds, n_Tags = tags, n_Checksum = checksum, n_CreatedAt = pg_timestamp now,
                n_ModifiedAt = pg_timestamp now, n_AnkiID = None, n_ReleaseDay = 0\<rparr>
           in if row_of n_ID newID (cd_notes db) \<noteq> None then Inl (UniqueViolation ''notes_pkey'')
              else if row_of guid_key (guid_key n) (cd_notes db) \<noteq> None then Inl (UniqueViolation ''notes_owner_id_guid_key'')
              else Inr (n, db\<lparr>cd_notes := cd_notes db @ [n]\<rparr>)
     | _ \<Rightarrow> Inl ErrNoRows)"

definition LockNoteForContentEdit :: "content_db \<Rightarrow> uuid \<Rightarrow> uuid \<Rightarrow> content_error + db_note" where
  "LockNoteForContentEdit db userID noteID =
     bindE (run_c db ''LockNoteForContentEdit'' (row_of n_ID noteID (cd_notes db))) (\<lambda>r.
     case r of None \<Rightarrow> Inl ErrNoRows
     | Some n \<Rightarrow>
         if (case access_of db (n_DeckID n) userID of None \<Rightarrow> False | Some a \<Rightarrow> can_view a \<and> can_edit_content a)
         then Inr n else Inl ErrNoRows)"

definition UpdateNoteContent :: "content_db \<Rightarrow> gotime \<Rightarrow> string list \<Rightarrow> string list \<Rightarrow> int \<Rightarrow> uuid \<Rightarrow> uuid
    \<Rightarrow> content_error + nat \<times> content_db" where
  "UpdateNoteContent db now flds tags checksum noteTypeID noteID =
     bindE (run_c db ''UpdateNoteContent'' (length (filter (\<lambda>n. n_ID n = noteID) (cd_notes db)))) (\<lambda>k.
     if k > 0 \<and> row_of nt_ID noteTypeID (cd_noteTypes db) = None then Inl (FKViolation ''notes_note_type_id_fkey'')
     else Inr (k, db\<lparr>cd_notes := map_rows (\<lambda>n. n_ID n = noteID)
       (\<lambda>n. n\<lparr>n_Fields := flds, n_Tags := tags, n_Checksum := checksum, n_NoteTypeID := noteTypeID,
              n_ModifiedAt := pg_timestamp now\<rparr>) (cd_notes db)\<rparr>))"

definition MoveNoteToDeck :: "content_db \<Rightarrow> gotime \<Rightarrow> uuid \<Rightarrow> uuid \<Rightarrow> uuid \<Rightarrow> content_error + nat \<times> content_db" where
  "MoveNoteToDeck db now noteID targetDeckID userID =
     bindE (run_c db ''MoveNoteToDeck'' (deck_with db targetDeckID userID (\<lambda>a. can_view a \<and> can_edit_content a))) (\<lambda>r.
     case r of
       None \<Rightarrow> Inr (0, db)
     | Some (d, _) \<Rightarrow>
         let notes = map_rows (\<lambda>n. n_ID n = noteID)
               (\<lambda>n. n\<lparr>n_DeckID := dk_ID d, n_OwnerID := dk_OwnerID d, n_ModifiedAt := pg_timestamp now\<rparr>) (cd_notes db)
         in if \<not> distinct (map guid_key notes) then Inl (UniqueViolation ''notes_owner_id_guid_key'')
            else Inr (length (filter (\<lambda>n. n_ID n = noteID) (cd_notes db)), db\<lparr>cd_notes := notes\<rparr>))"

definition MoveNoteCardsFromDeck :: "content_db \<Rightarrow> uuid \<Rightarrow> uuid \<Rightarrow> uuid \<Rightarrow> content_error + nat \<times> content_db" where
  "MoveNoteCardsFromDeck db targetDeckID noteID sourceDeckID =
     (let p = (\<lambda>c. c_NoteID c = noteID \<and> c_DeckID c = sourceDeckID); k = length (filter p (cd_cards db))
      in bindE (run_c db ''MoveNoteCardsFromDeck'' k) (\<lambda>k.
         if k > 0 \<and> row_of dk_ID targetDeckID (cd_decks db) = None then Inl (FKViolation ''cards_deck_id_fkey'')
         else Inr (k, db\<lparr>cd_cards := map_rows p (\<lambda>c. c\<lparr>c_DeckID := targetDeckID\<rparr>) (cd_cards db)\<rparr>)))"

definition CreateNoteWithCards :: "(int \<Rightarrow> uuid) \<Rightarrow> content_db \<Rightarrow> gotime \<Rightarrow> uuid \<Rightarrow> string \<Rightarrow> string list \<Rightarrow> string list \<Rightarrow> int
    \<Rightarrow> uuid \<Rightarrow> uuid \<Rightarrow> uuid \<Rightarrow> DesiredCard list \<Rightarrow> content_error + db_note \<times> content_db" where
  "CreateNoteWithCards newID db now newNoteID guid flds tags checksum userID noteTypeID deckID desired =
     bindE (CreateNote db now newNoteID guid flds tags checksum userID noteTypeID deckID) (\<lambda>(n, db1).
     bindE (SyncNoteCards newID db1 (n_ID n) (n_DeckID n) desired) (\<lambda>db2. Inr (n, db2)))"

definition UpdateNoteWithCards :: "(int \<Rightarrow> uuid) \<Rightarrow> content_db \<Rightarrow> gotime \<Rightarrow> uuid \<Rightarrow> uuid \<Rightarrow> uuid \<Rightarrow> string list \<Rightarrow> string list \<Rightarrow> int
    \<Rightarrow> DesiredCard list \<Rightarrow> content_error + content_db" where
  "UpdateNoteWithCards newID db now userID noteID noteTypeID flds tags checksum desired =
     bindE (LockNoteForContentEdit db userID noteID) (\<lambda>n.
     bindE (UpdateNoteContent db now flds tags checksum noteTypeID noteID) (\<lambda>(_, db1).
     SyncNoteCards newID db1 noteID (n_DeckID n) desired))"

definition MoveNote :: "content_db \<Rightarrow> gotime \<Rightarrow> uuid \<Rightarrow> uuid \<Rightarrow> uuid \<Rightarrow> content_error + content_db" where
  "MoveNote db now userID noteID targetDeckID =
     bindE (LockNoteForContentEdit db userID noteID) (\<lambda>n.
     bindE (MoveNoteToDeck db now noteID targetDeckID userID) (\<lambda>(k, db1).
     if k = 0 then Inl ErrNoRows
     else bindE (MoveNoteCardsFromDeck db1 targetDeckID noteID (n_DeckID n)) (\<lambda>(_, db2). Inr db2)))"

end
