(* ===== verification/Note_Cards_Lemmas.thy ===== *)
theory Note_Cards_Lemmas
  imports Note_Cards
begin

text \<open>
  The properties of the card diff and of the note-type remap: what survives an edit, and that neither
  can break a key or leave a note without a card.
\<close>

section \<open>The three phases of the diff\<close>

lemma insert_card_Inr:
  assumes "insert_card db c = Inr db'"
  shows "db' = db\<lparr>cd_cards := cd_cards db @ [c]\<rparr>" "row_of c_ID (c_ID c) (cd_cards db) = None"
    "row_of card_place (card_place c) (cd_cards db) = None" "\<exists>n\<in>set (cd_notes db). n_ID n = c_NoteID c"
    "\<exists>d\<in>set (cd_decks db). dk_ID d = c_DeckID c"
  using assms by (auto simp: insert_card_def row_of_None split: if_splits)

lemma insert_card_keys: "insert_card db c = Inr db' \<Longrightarrow> content_keys db \<Longrightarrow> content_keys db'"
  using insert_card_Inr [of db c db'] by (auto simp: content_keys_def pk_snoc row_of_None)

lemma card_row_simps [simp]:
  "c_ID (card_row i n t ord d p) = i" "c_NoteID (card_row i n t ord d p) = n"
  "c_TemplateID (card_row i n t ord d p) = t" "c_Ordinal (card_row i n t ord d p) = ord"
  "c_DeckID (card_row i n t ord d p) = d"
  by (simp_all add: card_row_def)

lemma CreateCard_Inr:
  "CreateCard db i n t ord d = Inr (c, db') \<Longrightarrow>
     insert_card db c = Inr db' \<and> c_ID c = i \<and> c_NoteID c = n \<and> c_TemplateID c = t \<and> c_Ordinal c = ord \<and> c_DeckID c = d"
  by (auto simp: CreateCard_def bindE_eq_Inr)

lemma create_missing_Inr:
  "create_missing newID n d dOf db ords = Inr db' \<Longrightarrow>
     \<exists>new. db' = db\<lparr>cd_cards := cd_cards db @ new\<rparr> \<and> map c_Ordinal new = ords
       \<and> (\<forall>c\<in>set new. c_NoteID c = n \<and> c_DeckID c = d \<and> c_TemplateID c = the (dOf (c_Ordinal c))
            \<and> row_of c_ID (c_ID c) (cd_cards db) = None)
       \<and> (content_keys db \<longrightarrow> content_keys db')
       \<and> (ords \<noteq> [] \<longrightarrow> (\<exists>x\<in>set (cd_notes db). n_ID x = n) \<and> (\<exists>x\<in>set (cd_decks db). dk_ID x = d))"
proof (induction ords arbitrary: db)
  case Nil
  then show ?case by (simp add: create_missing_def)
next
  case (Cons ord ords)
  from Cons.prems obtain c db1 where c: "CreateCard db (newID ord) n (the (dOf ord)) ord d = Inr (c, db1)"
    "create_missing newID n d dOf db1 ords = Inr db'"
    by (auto simp: create_missing_def bindE_eq_Inr)
  note i = CreateCard_Inr [OF c(1)]
  then have ins: "insert_card db c = Inr db1" by simp
  note f = insert_card_Inr [OF ins]
  from Cons.IH [OF c(2)] obtain new where new: "db' = db1\<lparr>cd_cards := cd_cards db1 @ new\<rparr>" "map c_Ordinal new = ords"
    "\<forall>c\<in>set new. c_NoteID c = n \<and> c_DeckID c = d \<and> c_TemplateID c = the (dOf (c_Ordinal c))
       \<and> row_of c_ID (c_ID c) (cd_cards db1) = None" "content_keys db1 \<longrightarrow> content_keys db'" by blast
  show ?case
    by (rule exI [of _ "c # new"]) (use i f new insert_card_keys [OF ins] in \<open>auto simp: row_of_None\<close>)
qed

lemma delete_cards_none: "\<forall>c\<in>set (cd_cards db). \<not> p c \<Longrightarrow> delete_cards p db = db"
  by (cases db) (simp add: delete_cards_def Let_def)

lemma delete_cards_keys [simp]: "content_keys db \<Longrightarrow> content_keys (delete_cards p db)"
  by (simp add: content_keys_def)

text \<open>What the repointing does to a card that was there.\<close>

definition retarget :: "(int \<Rightarrow> uuid option) \<Rightarrow> note_card \<Rightarrow> note_card" where
  "retarget dOf c = (case dOf (c_Ordinal c) of None \<Rightarrow> c | Some t \<Rightarrow> c\<lparr>c_TemplateID := t\<rparr>)"

lemma retarget_simps [simp]:
  "c_ID (retarget dOf c) = c_ID c" "c_NoteID (retarget dOf c) = c_NoteID c" "c_Ordinal (retarget dOf c) = c_Ordinal c"
  "c_DeckID (retarget dOf c) = c_DeckID c"
  by (simp_all add: retarget_def split: option.split)

lemma content_keys_cards:
  "map c_ID cards = map c_ID (cd_cards db) \<Longrightarrow> map card_place cards = map card_place (cd_cards db) \<Longrightarrow>
     content_keys (db\<lparr>cd_cards := cards\<rparr>) = content_keys db"
  by (simp add: content_keys_def pk_def)

lemma repoint_Inr:
  assumes "repoint dOf db cs = Inr db'" "pk c_ID (cd_cards db)" "distinct (map c_ID cs)"
    and "\<forall>c\<in>set (cd_cards db). \<forall>e\<in>set cs. c_ID e = c_ID c \<longrightarrow> e = c"
  shows "db' = db\<lparr>cd_cards := map (\<lambda>c. if c_ID c \<in> c_ID ` set cs then retarget dOf c else c) (cd_cards db)\<rparr>"
  using assms
proof (induction cs arbitrary: db)
  case Nil
  then show ?case by (simp add: repoint_def)
next
  case (Cons e cs)
  define step where "step = map_rows (\<lambda>c. c_ID c = c_ID e) (\<lambda>c. retarget dOf e) (cd_cards db)"
  have same: "retarget dOf c = c" if "dOf (c_Ordinal c) = None \<or> dOf (c_Ordinal c) = Some (c_TemplateID c)" for c
    using that by (auto simp: retarget_def)
  have row: "c = e" if "c \<in> set (cd_cards db)" "c_ID c = c_ID e" for c using Cons.prems(4) that by auto
  have "repoint dOf (db\<lparr>cd_cards := step\<rparr>) cs = Inr db'"
  proof (cases "dOf (c_Ordinal e) = None \<or> dOf (c_Ordinal e) = Some (c_TemplateID e)")
    case True
    then have "step = cd_cards db" using same [OF True] by (auto simp: step_def map_rows_def intro!: map_idI row [symmetric])
    with True Cons.prems(1) show ?thesis by (auto simp: repoint_def split: option.splits)
  next
    case False
    then obtain t where t: "dOf (c_Ordinal e) = Some t" "t \<noteq> c_TemplateID e" by auto
    have "step = map_rows (\<lambda>c. c_ID c = c_ID e) (\<lambda>c. c\<lparr>c_TemplateID := t\<rparr>) (cd_cards db)"
      using row t by (auto simp: step_def map_rows_def retarget_def)
    with t Cons.prems(1) show ?thesis
      by (auto simp: repoint_def UpdateCardTemplate_def bindE_eq_Inr split: if_splits)
  qed
  moreover have "map c_ID step = map c_ID (cd_cards db)" by (simp add: step_def map_rows_def)
  then have "pk c_ID (cd_cards (db\<lparr>cd_cards := step\<rparr>))" using Cons.prems(2) by (simp add: pk_def)
  moreover have "\<forall>c\<in>set step. \<forall>e'\<in>set cs. c_ID e' = c_ID c \<longrightarrow> e' = c"
  proof (intro ballI impI)
    fix c e' assume c: "c \<in> set step" "e' \<in> set cs" "c_ID e' = c_ID c"
    from c(2) have "c_ID e' \<in> c_ID ` set cs" by simp
    moreover have "c_ID e \<notin> c_ID ` set cs" using Cons.prems(3) by simp
    ultimately have "c_ID e' \<noteq> c_ID e" by metis
    with c have "c \<in> set (cd_cards db)" by (auto simp: step_def map_rows_def split: if_splits)
    with c Cons.prems(4) show "e' = c" by simp
  qed
  ultimately have "db' = db\<lparr>cd_cards := map (\<lambda>c. if c_ID c \<in> c_ID ` set cs then retarget dOf c else c) step\<rparr>"
    using Cons.IH [of "db\<lparr>cd_cards := step\<rparr>"] Cons.prems(3) by simp
  moreover have "map (\<lambda>c. if c_ID c \<in> c_ID ` set cs then retarget dOf c else c) step
      = map (\<lambda>c. if c_ID c \<in> c_ID ` set (e # cs) then retarget dOf c else c) (cd_cards db)"
    using row Cons.prems(3) by (auto simp: step_def map_rows_def)
  ultimately show ?case by simp
qed

section \<open>The diff\<close>

lemma desiredByOrdinal_dom: "dom (desiredByOrdinal desired) = dc_Ordinal ` set desired"
  by (simp add: desiredByOrdinal_def dom_map_of_conv_image_fst image_image)

lemma SyncNoteCards_phases:
  assumes "SyncNoteCards newID db noteID home desired = Inr db'" and dOf: "dOf = desiredByOrdinal desired"
  obtains db1 db2 where "desired \<noteq> []"
    "create_missing newID noteID home dOf db (filter (\<lambda>ord. ord \<notin> c_Ordinal ` set (sort_key c_Ordinal
       (filter (\<lambda>c. c_NoteID c = noteID) (cd_cards db)))) (sort (dedup (map dc_Ordinal desired)))) = Inr db1"
    "(if map c_Ordinal (filter (\<lambda>c. dOf (c_Ordinal c) = None) (sort_key c_Ordinal
        (filter (\<lambda>c. c_NoteID c = noteID) (cd_cards db)))) \<noteq> []
      then bindE (DeleteCardsByOrdinals db1 noteID (map c_Ordinal (filter (\<lambda>c. dOf (c_Ordinal c) = None)
        (sort_key c_Ordinal (filter (\<lambda>c. c_NoteID c = noteID) (cd_cards db)))))) (\<lambda>(_, d). Inr d) else Inr db1) = Inr db2"
    "repoint dOf db2 (sort_key c_Ordinal (filter (\<lambda>c. c_NoteID c = noteID) (cd_cards db))) = Inr db'"
proof -
  have ne: "desired \<noteq> []" using assms(1) by (auto simp: SyncNoteCards_def)
  show ?thesis
    by (insert assms(1) ne, simp only: SyncNoteCards_def if_False Let_def bindE_eq_Inr ListCardsForNoteForUpdate_def
      run_c_Inr flip: dOf) (erule exE conjE, (erule exE conjE)+, rule that, simp_all only:, simp_all)
qed

text \<open>What the diff does to the cards: the note's survivors, retargeted, the rest as it was, and the new ones.\<close>

lemma SyncNoteCards_Inr:
  assumes sync: "SyncNoteCards newID db noteID home desired = Inr db'" and keys: "content_keys db"
    and dOf: "dOf = desiredByOrdinal desired"
  obtains new where
    "desired \<noteq> []" "content_keys db'"
    "db' = (delete_cards (\<lambda>c. c_NoteID c = noteID \<and> dOf (c_Ordinal c) = None) (db\<lparr>cd_cards := cd_cards db @ new\<rparr>))
       \<lparr>cd_cards := map (\<lambda>c. if c_NoteID c = noteID then retarget dOf c else c)
          (filter (\<lambda>c. \<not> (c_NoteID c = noteID \<and> dOf (c_Ordinal c) = None)) (cd_cards db)) @ new\<rparr>"
    "\<forall>c\<in>set new. c_NoteID c = noteID \<and> c_DeckID c = home \<and> dOf (c_Ordinal c) = Some (c_TemplateID c)"
    "set (map c_Ordinal new) = dc_Ordinal ` set desired - c_Ordinal ` {c \<in> set (cd_cards db). c_NoteID c = noteID}"
    "new \<noteq> [] \<longrightarrow> (\<exists>x\<in>set (cd_notes db). n_ID x = noteID) \<and> (\<exists>x\<in>set (cd_decks db). dk_ID x = home)"
    "\<forall>c\<in>set new. row_of c_ID (c_ID c) (cd_cards db) = None"
proof -
  let ?ex = "sort_key c_Ordinal (filter (\<lambda>c. c_NoteID c = noteID) (cd_cards db))"
  let ?missing = "filter (\<lambda>ord. ord \<notin> c_Ordinal ` set ?ex) (sort (dedup (map dc_Ordinal desired)))"
  let ?destroy = "map c_Ordinal (filter (\<lambda>c. dOf (c_Ordinal c) = None) ?ex)"
  let ?p = "\<lambda>c. c_NoteID c = noteID \<and> c_Ordinal c \<in> set ?destroy"
  let ?q = "\<lambda>c. c_NoteID c = noteID \<and> dOf (c_Ordinal c) = None"
  from sync obtain db1 db2 where ne: "desired \<noteq> []"
    and c: "create_missing newID noteID home dOf db ?missing = Inr db1"
    and d: "(if ?destroy \<noteq> [] then bindE (DeleteCardsByOrdinals db1 noteID ?destroy) (\<lambda>(_, d). Inr d) else Inr db1) = Inr db2"
    and r: "repoint dOf db2 ?ex = Inr db'"
    by (elim SyncNoteCards_phases [where dOf = dOf, OF _ dOf])
  from create_missing_Inr [OF c] obtain new where db1: "db1 = db\<lparr>cd_cards := cd_cards db @ new\<rparr>"
    and ords: "map c_Ordinal new = ?missing"
    and new: "\<forall>c\<in>set new. c_NoteID c = noteID \<and> c_DeckID c = home \<and> c_TemplateID c = the (dOf (c_Ordinal c))
       \<and> row_of c_ID (c_ID c) (cd_cards db) = None"
    and keys1: "content_keys db1"
    and src: "?missing \<noteq> [] \<longrightarrow> (\<exists>x\<in>set (cd_notes db). n_ID x = noteID) \<and> (\<exists>x\<in>set (cd_decks db). dk_ID x = home)"
    using keys by blast
  have newords: "dOf (c_Ordinal c) = Some (c_TemplateID c)" if c: "c \<in> set new" for c
  proof -
    from c ords have "c_Ordinal c \<in> set ?missing" by (metis image_eqI image_set)
    then have "c_Ordinal c \<in> dom dOf" unfolding dOf desiredByOrdinal_dom by auto
    with new c show ?thesis by auto
  qed
  have pq: "?p c = ?q c" if "c \<in> set (cd_cards db1)" for c
    using that newords by (auto simp: db1)
  have del: "delete_cards ?p db1 = delete_cards ?q db1"
    using pq by (auto simp: delete_cards_def Let_def cong: filter_cong)
  have db2: "db2 = delete_cards ?q db1"
  proof (cases "?destroy = []")
    case True
    then have "\<forall>c\<in>set (cd_cards db1). \<not> ?p c" by simp
    from delete_cards_none [OF this] True d del show ?thesis by simp
  next
    case False
    with d del show ?thesis by (auto simp: DeleteCardsByOrdinals_def bindE_eq_Inr Let_def)
  qed
  have pk1: "pk c_ID (cd_cards db1)" using keys1 by (simp add: content_keys_def)
  have "\<forall>c\<in>set (cd_cards db2). \<forall>e\<in>set ?ex. c_ID e = c_ID c \<longrightarrow> e = c"
    using pk_unique [OF pk1] by (auto simp: db2 db1)
  moreover have "distinct (map c_ID ?ex)"
    using keys by (auto simp: content_keys_def pk_def distinct_map inj_on_def)
  moreover have "pk c_ID (cd_cards db2)" using pk1 by (simp add: db2)
  ultimately have rep: "db' = db2\<lparr>cd_cards := map (\<lambda>c. if c_ID c \<in> c_ID ` set ?ex then retarget dOf c else c) (cd_cards db2)\<rparr>"
    using repoint_Inr [OF r] by blast
  have old: "c_ID c \<in> c_ID ` set ?ex \<longleftrightarrow> c_NoteID c = noteID" if "c \<in> set (cd_cards db)" for c
    using that keys by (auto simp: content_keys_def dest: pk_unique)
  have fresh: "c_ID c \<notin> c_ID ` set ?ex" if "c \<in> set new" for c
    using new that by (force simp: row_of_None)
  have cards: "map (\<lambda>c. if c_ID c \<in> c_ID ` set ?ex then retarget dOf c else c) (cd_cards db2)
     = map (\<lambda>c. if c_NoteID c = noteID then retarget dOf c else c) (filter (\<lambda>c. \<not> ?q c) (cd_cards db)) @ new"
  proof -
    have "filter (\<lambda>c. \<not> ?q c) new = new" using newords by (intro filter_True) auto
    moreover have "map (\<lambda>c. if c_ID c \<in> c_ID ` set ?ex then retarget dOf c else c) new = new"
      using fresh by (intro map_idI) auto
    ultimately show ?thesis using old by (simp add: db2 db1)
  qed
  have "content_keys db'"
  proof -
    have "content_keys db2" using keys1 by (simp add: db2)
    then show ?thesis unfolding rep by (subst content_keys_cards) (auto simp: card_place_def)
  qed
  then show ?thesis
  proof (rule that [OF ne])
    show "db' = (delete_cards ?q (db\<lparr>cd_cards := cd_cards db @ new\<rparr>))
       \<lparr>cd_cards := map (\<lambda>c. if c_NoteID c = noteID then retarget dOf c else c) (filter (\<lambda>c. \<not> ?q c) (cd_cards db)) @ new\<rparr>"
      unfolding rep cards by (simp add: db2 db1)
    show "\<forall>c\<in>set new. c_NoteID c = noteID \<and> c_DeckID c = home \<and> dOf (c_Ordinal c) = Some (c_TemplateID c)"
      using new newords by blast
    show "set (map c_Ordinal new) = dc_Ordinal ` set desired - c_Ordinal ` {c \<in> set (cd_cards db). c_NoteID c = noteID}"
      unfolding ords by auto
    show "new \<noteq> [] \<longrightarrow> (\<exists>x\<in>set (cd_notes db). n_ID x = noteID) \<and> (\<exists>x\<in>set (cd_decks db). dk_ID x = home)"
      using src ords by (cases new) auto
    show "\<forall>c\<in>set new. row_of c_ID (c_ID c) (cd_cards db) = None" using new by blast
  qed
qed

text \<open>The same, table by table.\<close>

lemma SyncNoteCards_tables:
  assumes sync: "SyncNoteCards newID db noteID home desired = Inr db'" and keys: "content_keys db"
    and d: "d = desiredByOrdinal desired"
  obtains new where
    "desired \<noteq> []" "content_keys db'"
    "cd_cards db' = map (\<lambda>c. if c_NoteID c = noteID then retarget d c else c)
       (filter (\<lambda>c. \<not> (c_NoteID c = noteID \<and> d (c_Ordinal c) = None)) (cd_cards db)) @ new"
    "cd_states db' = filter (\<lambda>s. us_CardID s \<notin> c_ID ` set (filter (\<lambda>c. c_NoteID c = noteID \<and> d (c_Ordinal c) = None)
       (cd_cards db @ new))) (cd_states db)"
    "cd_log db' = cd_log db" "cd_notes db' = cd_notes db" "cd_decks db' = cd_decks db" "cd_access db' = cd_access db"
    "\<forall>c\<in>set new. c_NoteID c = noteID \<and> c_DeckID c = home \<and> d (c_Ordinal c) = Some (c_TemplateID c)"
    "set (map c_Ordinal new) = dc_Ordinal ` set desired - c_Ordinal ` {c \<in> set (cd_cards db). c_NoteID c = noteID}"
    "new \<noteq> [] \<longrightarrow> (\<exists>x\<in>set (cd_notes db). n_ID x = noteID) \<and> (\<exists>x\<in>set (cd_decks db). dk_ID x = home)"
    "\<forall>c\<in>set new. row_of c_ID (c_ID c) (cd_cards db) = None"
proof (rule SyncNoteCards_Inr [OF sync keys d])
  fix new
  assume db': "db' = (delete_cards (\<lambda>c. c_NoteID c = noteID \<and> d (c_Ordinal c) = None) (db\<lparr>cd_cards := cd_cards db @ new\<rparr>))
       \<lparr>cd_cards := map (\<lambda>c. if c_NoteID c = noteID then retarget d c else c)
          (filter (\<lambda>c. \<not> (c_NoteID c = noteID \<and> d (c_Ordinal c) = None)) (cd_cards db)) @ new\<rparr>"
    and *: "desired \<noteq> []" "content_keys db'"
    "\<forall>c\<in>set new. c_NoteID c = noteID \<and> c_DeckID c = home \<and> d (c_Ordinal c) = Some (c_TemplateID c)"
    "set (map c_Ordinal new) = dc_Ordinal ` set desired - c_Ordinal ` {c \<in> set (cd_cards db). c_NoteID c = noteID}"
    "new \<noteq> [] \<longrightarrow> (\<exists>x\<in>set (cd_notes db). n_ID x = noteID) \<and> (\<exists>x\<in>set (cd_decks db). dk_ID x = home)"
    "\<forall>c\<in>set new. row_of c_ID (c_ID c) (cd_cards db) = None"
  show thesis
  proof (rule that [OF *(1,2) _ _ _ _ _ _ *(3-6)])
    show "cd_states db' = filter (\<lambda>s. us_CardID s \<notin> c_ID ` set (filter (\<lambda>c. c_NoteID c = noteID \<and> d (c_Ordinal c) = None)
       (cd_cards db @ new))) (cd_states db)"
      unfolding db' by simp
  qed (simp_all add: db')
qed

text \<open>C22: editing a note keeps its cards: an ordinal that stays keeps its card, with the same id, deck and
  position and with every student's schedule for it; exactly the desired ordinals remain, with the
  desired templates; only the schedules of dropped cards go; the cards of other notes and the log are
  not touched, and the keys hold.\<close>

theorem SyncNoteCards_diff:
  assumes "SyncNoteCards newID db noteID home desired = Inr db'" and "content_keys db"
  shows "c_Ordinal ` {c \<in> set (cd_cards db'). c_NoteID c = noteID} = dc_Ordinal ` set desired
    \<and> (\<forall>c\<in>set (cd_cards db'). c_NoteID c = noteID \<longrightarrow> desiredByOrdinal desired (c_Ordinal c) = Some (c_TemplateID c))
    \<and> (\<forall>c\<in>set (cd_cards db). c_NoteID c = noteID \<and> c_Ordinal c \<in> dc_Ordinal ` set desired \<longrightarrow>
         (\<exists>t. c\<lparr>c_TemplateID := t\<rparr> \<in> set (cd_cards db')))
    \<and> filter (\<lambda>c. c_NoteID c \<noteq> noteID) (cd_cards db') = filter (\<lambda>c. c_NoteID c \<noteq> noteID) (cd_cards db)
    \<and> (\<forall>s\<in>set (cd_states db). s \<in> set (cd_states db') \<or> (\<exists>c\<in>set (cd_cards db). c_ID c = us_CardID s
         \<and> c_NoteID c = noteID \<and> c_Ordinal c \<notin> dc_Ordinal ` set desired))
    \<and> cd_log db' = cd_log db \<and> cd_notes db' = cd_notes db \<and> desired \<noteq> [] \<and> content_keys db'"
proof -
  let ?d = "desiredByOrdinal desired"
  obtain new where n: "desired \<noteq> []" "content_keys db'"
    and list: "cd_cards db' = map (\<lambda>c. if c_NoteID c = noteID then retarget ?d c else c)
       (filter (\<lambda>c. \<not> (c_NoteID c = noteID \<and> ?d (c_Ordinal c) = None)) (cd_cards db)) @ new"
    and states: "cd_states db' = filter (\<lambda>s. us_CardID s \<notin> c_ID ` set (filter (\<lambda>c. c_NoteID c = noteID
       \<and> ?d (c_Ordinal c) = None) (cd_cards db @ new))) (cd_states db)"
    and same: "cd_log db' = cd_log db" "cd_notes db' = cd_notes db"
    and new: "\<forall>c\<in>set new. c_NoteID c = noteID \<and> c_DeckID c = home \<and> ?d (c_Ordinal c) = Some (c_TemplateID c)"
      "set (map c_Ordinal new) = dc_Ordinal ` set desired - c_Ordinal ` {c \<in> set (cd_cards db). c_NoteID c = noteID}"
    by (rule SyncNoteCards_tables [OF assms refl])
  have dom: "ord \<in> dc_Ordinal ` set desired \<longleftrightarrow> ?d ord \<noteq> None" for ord
    by (metis desiredByOrdinal_dom domIff)
  let ?keep = "\<lambda>c. \<not> (c_NoteID c = noteID \<and> ?d (c_Ordinal c) = None)"
  let ?f = "\<lambda>c. if c_NoteID c = noteID then retarget ?d c else c"
  have cards: "set (cd_cards db') = ?f ` {c \<in> set (cd_cards db). ?keep c} \<union> set new" unfolding list by simp
  have kept: "retarget ?d c \<in> set (cd_cards db')"
    if c: "c \<in> set (cd_cards db)" "c_NoteID c = noteID" "?d (c_Ordinal c) \<noteq> None" for c
  proof -
    from c have "?f c \<in> set (cd_cards db')" unfolding cards by (intro UnI1 imageI) simp
    with c show ?thesis by simp
  qed
  have here: "\<exists>c0\<in>set (cd_cards db). c = retarget ?d c0 \<and> c_NoteID c0 = noteID \<and> ?d (c_Ordinal c0) \<noteq> None"
    if "c \<in> set (cd_cards db')" "c_NoteID c = noteID" "c \<notin> set new" for c
    using that unfolding cards by (auto split: if_splits)
  have "c_Ordinal ` {c \<in> set (cd_cards db'). c_NoteID c = noteID} = dc_Ordinal ` set desired" (is "?L = ?R")
  proof
    show "?L \<subseteq> ?R"
    proof
      fix ord assume "ord \<in> ?L"
      then obtain c where c: "c \<in> set (cd_cards db')" "c_NoteID c = noteID" "ord = c_Ordinal c" by auto
      show "ord \<in> ?R"
        using new(1) here [OF c(1,2)] unfolding dom c(3) by (cases "c \<in> set new") auto
    qed
    show "?R \<subseteq> ?L"
    proof
      fix ord assume ord: "ord \<in> ?R"
      show "ord \<in> ?L"
      proof (cases "ord \<in> c_Ordinal ` {c \<in> set (cd_cards db). c_NoteID c = noteID}")
        case True
        then obtain c where c: "c \<in> set (cd_cards db)" "c_NoteID c = noteID" "ord = c_Ordinal c" by auto
        with ord kept [of c] show ?thesis unfolding dom by (intro image_eqI [of _ _ "retarget ?d c"]) auto
      next
        case False
        with ord have "ord \<in> set (map c_Ordinal new)" unfolding new(2) by blast
        then obtain c where "c \<in> set new" "ord = c_Ordinal c" by auto
        with new(1) show ?thesis unfolding cards by auto
      qed
    qed
  qed
  moreover have "\<forall>c\<in>set (cd_cards db'). c_NoteID c = noteID \<longrightarrow> ?d (c_Ordinal c) = Some (c_TemplateID c)"
  proof (intro ballI impI)
    fix c assume c: "c \<in> set (cd_cards db')" "c_NoteID c = noteID"
    show "?d (c_Ordinal c) = Some (c_TemplateID c)"
    proof (cases "c \<in> set new")
      case False
      from here [OF c this] obtain c0 where "c = retarget ?d c0" "?d (c_Ordinal c0) \<noteq> None" by blast
      then show ?thesis by (auto simp: retarget_def)
    qed (use new(1) in auto)
  qed
  moreover have "\<exists>t. c\<lparr>c_TemplateID := t\<rparr> \<in> set (cd_cards db')"
    if "c \<in> set (cd_cards db)" "c_NoteID c = noteID" "c_Ordinal c \<in> dc_Ordinal ` set desired" for c
  proof -
    from that(3) obtain t where t: "?d (c_Ordinal c) = Some t" unfolding dom by auto
    then have "retarget ?d c = c\<lparr>c_TemplateID := t\<rparr>" by (simp add: retarget_def)
    with kept [OF that(1,2)] t show ?thesis by (metis option.distinct(1))
  qed
  moreover have "filter (\<lambda>c. c_NoteID c \<noteq> noteID) (cd_cards db') = filter (\<lambda>c. c_NoteID c \<noteq> noteID) (cd_cards db)"
  proof -
    have "filter (\<lambda>c. c_NoteID c \<noteq> noteID) (map ?f (filter ?keep cs)) = filter (\<lambda>c. c_NoteID c \<noteq> noteID) cs" for cs
      by (induction cs) auto
    moreover have "filter (\<lambda>c. c_NoteID c \<noteq> noteID) new = []" using new(1) by (simp add: filter_empty_conv)
    ultimately show ?thesis unfolding list by simp
  qed
  moreover have "s \<in> set (cd_states db') \<or> (\<exists>c\<in>set (cd_cards db). c_ID c = us_CardID s
         \<and> c_NoteID c = noteID \<and> c_Ordinal c \<notin> dc_Ordinal ` set desired)" if s: "s \<in> set (cd_states db)" for s
  proof (cases "s \<in> set (cd_states db')")
    case False
    with s obtain c where c: "c \<in> set (cd_cards db) \<union> set new" "\<not> ?keep c" "us_CardID s = c_ID c"
      unfolding states by auto
    with new(1) have "c \<in> set (cd_cards db)" by auto
    with c show ?thesis unfolding dom by auto
  qed simp
  ultimately show ?thesis using n same by simp
qed

end
