(* ===== verification/Content_System.thy ===== *)
theory Content_System
  imports Note_Cards_Lemmas
begin

text \<open>
  The content transactions as one system: every state they can reach from an empty set of decks keeps the
  keys and references, has a card for every note and an owner of every deck who can manage and delete it.
\<close>

section \<open>The note transactions keep the invariant\<close>

lemma states_after_cards:
  assumes states: "\<forall>s\<in>set ss. \<exists>c\<in>set cs. c_ID c = us_CardID s"
    and kept: "\<forall>c\<in>set cs. \<not> p c \<longrightarrow> (\<exists>c'\<in>set cs'. c_ID c' = c_ID c)"
    and gone: "\<forall>c\<in>set cs. p c \<longrightarrow> c_ID c \<in> G"
  shows "\<forall>s\<in>set (filter (\<lambda>s. us_CardID s \<notin> G) ss). \<exists>c\<in>set cs'. c_ID c = us_CardID s"
proof
  fix s assume s: "s \<in> set (filter (\<lambda>s. us_CardID s \<notin> G) ss)"
  then obtain c where c: "c \<in> set cs" "c_ID c = us_CardID s" using states by auto
  with s gone have "\<not> p c" by auto
  with kept c show "\<exists>c\<in>set cs'. c_ID c = us_CardID s" by metis
qed

lemma SyncNoteCards_wf:
  assumes sync: "SyncNoteCards newID db noteID home desired = Inr db'"
    and keys: "content_keys db" and refs: "content_refs db"
    and others: "\<forall>n\<in>set (cd_notes db). n_ID n = noteID \<or> has_card db n"
  shows "content_wf db'" "cd_decks db' = cd_decks db" "cd_access db' = cd_access db" "cd_notes db' = cd_notes db"
proof -
  let ?d = "desiredByOrdinal desired"
  let ?q = "\<lambda>c. c_NoteID c = noteID \<and> ?d (c_Ordinal c) = None"
  let ?f = "\<lambda>c. if c_NoteID c = noteID then retarget ?d c else c"
  obtain new where ne: "desired \<noteq> []" and keys': "content_keys db'"
    and list: "cd_cards db' = map ?f (filter (\<lambda>c. \<not> ?q c) (cd_cards db)) @ new"
    and states: "cd_states db' = filter (\<lambda>s. us_CardID s \<notin> c_ID ` set (filter ?q (cd_cards db @ new))) (cd_states db)"
    and same: "cd_notes db' = cd_notes db" "cd_decks db' = cd_decks db" "cd_access db' = cd_access db"
    and new: "\<forall>c\<in>set new. c_NoteID c = noteID \<and> c_DeckID c = home \<and> ?d (c_Ordinal c) = Some (c_TemplateID c)"
    and ords: "set (map c_Ordinal new) = dc_Ordinal ` set desired - c_Ordinal ` {c \<in> set (cd_cards db). c_NoteID c = noteID}"
    and src: "new \<noteq> [] \<longrightarrow> (\<exists>x\<in>set (cd_notes db). n_ID x = noteID) \<and> (\<exists>x\<in>set (cd_decks db). dk_ID x = home)"
    by (rule SyncNoteCards_tables [OF sync keys refl])
  show "cd_decks db' = cd_decks db" "cd_access db' = cd_access db" "cd_notes db' = cd_notes db" by (fact same)+
  have f: "c_ID (?f c) = c_ID c" "c_NoteID (?f c) = c_NoteID c" "c_DeckID (?f c) = c_DeckID c" for c by simp_all
  have kept: "?f c \<in> set (cd_cards db')" if "c \<in> set (cd_cards db)" "\<not> ?q c" for c
    unfolding list using that by (simp del: retarget_simps)
  have card_refs: "(\<exists>n\<in>set (cd_notes db). n_ID n = c_NoteID c) \<and> (\<exists>d\<in>set (cd_decks db). dk_ID d = c_DeckID c)"
    if c: "c \<in> set (cd_cards db')" for c
  proof (cases "c \<in> set new")
    case True
    with new src show ?thesis by (cases new) auto
  next
    case False
    with c obtain c0 where "c0 \<in> set (cd_cards db)" "c = ?f c0" unfolding list by auto
    with refs f show ?thesis by (simp add: content_refs_def)
  qed
  have "content_refs db'"
    unfolding content_refs_def same
  proof (intro conjI)
    show "\<forall>c\<in>set (cd_cards db'). (\<exists>n\<in>set (cd_notes db). n_ID n = c_NoteID c) \<and> (\<exists>d\<in>set (cd_decks db). dk_ID d = c_DeckID c)"
      using card_refs by blast
    show "\<forall>n\<in>set (cd_notes db). \<exists>d\<in>set (cd_decks db). dk_ID d = n_DeckID n \<and> dk_OwnerID d = n_OwnerID n"
      "\<forall>a\<in>set (cd_access db). \<exists>d\<in>set (cd_decks db). dk_ID d = da_DeckID a"
      using refs by (simp_all add: content_refs_def)
    have "\<forall>s\<in>set (cd_states db). \<exists>c\<in>set (cd_cards db). c_ID c = us_CardID s" using refs by (simp add: content_refs_def)
    moreover have "\<forall>c\<in>set (cd_cards db). \<not> ?q c \<longrightarrow> (\<exists>c'\<in>set (cd_cards db'). c_ID c' = c_ID c)"
    proof (intro ballI impI)
      fix c assume "c \<in> set (cd_cards db)" "\<not> ?q c"
      from kept [OF this] f(1) show "\<exists>c'\<in>set (cd_cards db'). c_ID c' = c_ID c" by (rule bexI [rotated])
    qed
    moreover have "\<forall>c\<in>set (cd_cards db). ?q c \<longrightarrow> c_ID c \<in> c_ID ` set (filter ?q (cd_cards db @ new))" by auto
    ultimately show "\<forall>s\<in>set (cd_states db'). \<exists>c\<in>set (cd_cards db'). c_ID c = us_CardID s"
      unfolding states by (rule states_after_cards)
  qed
  moreover have "has_card db' n" if n: "n \<in> set (cd_notes db)" for n
  proof (cases "n_ID n = noteID")
    case False
    with others n obtain c where c: "c \<in> set (cd_cards db)" "c_NoteID c = n_ID n" by (auto simp: has_card_def)
    with False have "?f c \<in> set (cd_cards db')" by (intro kept) auto
    then show ?thesis unfolding has_card_def by (rule bexI [rotated]) (simp add: c f(2))
  next
    case True
    from ne obtain e where e: "e \<in> set desired" by (cases desired) auto
    show ?thesis
    proof (cases "dc_Ordinal e \<in> c_Ordinal ` {c \<in> set (cd_cards db). c_NoteID c = noteID}")
      case in_old: True
      then obtain c where c: "c \<in> set (cd_cards db)" "c_NoteID c = noteID" "dc_Ordinal e = c_Ordinal c" by auto
      have "dc_Ordinal e \<in> dom ?d" unfolding desiredByOrdinal_dom using e by simp
      with c have "?f c \<in> set (cd_cards db')" by (intro kept) auto
      then show ?thesis unfolding has_card_def by (rule bexI [rotated]) (simp add: c f(2) True)
    next
      case False
      with e have "dc_Ordinal e \<in> set (map c_Ordinal new)" unfolding ords by blast
      then obtain c where "c \<in> set new" by auto
      with new True show ?thesis unfolding has_card_def list by auto
    qed
  qed
  ultimately show "content_wf db'" using keys' by (simp add: content_wf_def same)
qed


lemma ex_key_cong: "map k xs = map k ys \<Longrightarrow> (\<exists>x\<in>set xs. k x = i) = (\<exists>y\<in>set ys. k y = i)"
proof -
  assume "map k xs = map k ys"
  then have "i \<in> k ` set xs \<longleftrightarrow> i \<in> k ` set ys" by (metis list.set_map)
  then show ?thesis by (simp add: image_iff eq_commute)
qed

lemma may_content: "(case access_of db d u of None \<Rightarrow> False | Some a \<Rightarrow> can_view a \<and> can_edit_content a) \<Longrightarrow>
    \<exists>a\<in>set (cd_access db). da_key a = (d, u) \<and> can_view a \<and> can_edit_content a"
  by (auto simp: access_of_def dest!: row_of_Some split: option.splits)

lemma CreateNote_Inr:
  assumes "CreateNote db now newID guid flds tags cs userID ntID deckID = Inr (n, db')"
  shows "db' = db\<lparr>cd_notes := cd_notes db @ [n]\<rparr>" "n_ID n = newID" "n_DeckID n = deckID"
    "may db deckID userID can_edit_content"
    "\<exists>d\<in>set (cd_decks db). dk_ID d = n_DeckID n \<and> dk_OwnerID d = n_OwnerID n"
    "row_of n_ID newID (cd_notes db) = None" "row_of guid_key (guid_key n) (cd_notes db) = None"
  using assms
  by (auto simp: CreateNote_def bindE_eq_Inr Let_def may_def split: option.splits if_splits dest!: deck_with_Some)
    blast

lemma CreateNoteWithCards_wf:
  assumes wf: "content_wf db"
    and new: "CreateNoteWithCards newID db now newNoteID guid flds tags cs userID ntID deckID desired = Inr (n, db')"
  shows "content_wf db'" "cd_decks db' = cd_decks db" "cd_access db' = cd_access db"
    "may db deckID userID can_edit_content"
proof -
  from new obtain db1 where c: "CreateNote db now newNoteID guid flds tags cs userID ntID deckID = Inr (n, db1)"
    and s: "SyncNoteCards newID db1 (n_ID n) (n_DeckID n) desired = Inr db'"
    by (auto simp: CreateNoteWithCards_def bindE_eq_Inr)
  note C = CreateNote_Inr [OF c]
  show "may db deckID userID can_edit_content" by (fact C(4))
  have keys: "content_keys db1"
    using wf C(6,7) by (simp add: C(1) content_wf_def content_keys_def pk_snoc C(2) row_of_None)
  have refs: "content_refs db1" using wf C(5) by (auto simp: C(1) content_wf_def content_refs_def)
  have "\<forall>m\<in>set (cd_notes db1). n_ID m = n_ID n \<or> has_card db1 m"
    using wf by (auto simp: C(1) content_wf_def has_card_def)
  from SyncNoteCards_wf [OF s keys refs this]
  show "content_wf db'" "cd_decks db' = cd_decks db" "cd_access db' = cd_access db" by (simp_all add: C(1))
qed

lemma LockNoteForContentEdit_Inr:
  assumes "LockNoteForContentEdit db userID noteID = Inr n"
  shows "n \<in> set (cd_notes db)" "n_ID n = noteID"
    "\<exists>a\<in>set (cd_access db). da_key a = (n_DeckID n, userID) \<and> can_view a \<and> can_edit_content a"
  using assms may_content [of db "n_DeckID n" userID]
  by (auto simp: LockNoteForContentEdit_def bindE_eq_Inr split: option.splits if_splits dest!: row_of_Some)

text \<open>A statement that changes notes in place, keeping their ids.\<close>

lemma content_keys_notes:
  assumes "map n_ID notes = map n_ID (cd_notes db)" "distinct (map guid_key notes)"
  shows "content_keys db \<Longrightarrow> content_keys (db\<lparr>cd_notes := notes\<rparr>)"
  using assms by (simp add: content_keys_def pk_def)

lemma has_card_notes [simp]: "has_card (db\<lparr>cd_notes := notes\<rparr>) n = has_card db n"
  by (simp add: has_card_def)

lemma content_wf_notes:
  assumes wf: "content_wf db" and ids: "map n_ID notes = map n_ID (cd_notes db)" and guids: "distinct (map guid_key notes)"
    and decks: "\<forall>n\<in>set notes. \<exists>d\<in>set (cd_decks db). dk_ID d = n_DeckID n \<and> dk_OwnerID d = n_OwnerID n"
  shows "content_wf (db\<lparr>cd_notes := notes\<rparr>)"
proof -
  have ex: "(\<exists>n\<in>set notes. n_ID n = i) = (\<exists>n\<in>set (cd_notes db). n_ID n = i)" for i
    by (rule ex_key_cong [OF ids])
  have "has_card db n" if n: "n \<in> set notes" for n
  proof -
    from n ex [of "n_ID n"] obtain m where "m \<in> set (cd_notes db)" "n_ID m = n_ID n" by blast
    moreover from this wf have "has_card db m" by (simp add: content_wf_def)
    ultimately show ?thesis by (simp add: has_card_def)
  qed
  with wf content_keys_notes [OF ids guids] decks show ?thesis
    by (simp add: content_wf_def content_refs_def ex)
qed

lemma UpdateNoteContent_wf:
  assumes wf: "content_wf db" and up: "UpdateNoteContent db now flds tags cs ntID noteID = Inr (k, db')"
  shows "content_wf db'" "cd_decks db' = cd_decks db" "cd_access db' = cd_access db"
proof -
  let ?notes = "map_rows (\<lambda>n. n_ID n = noteID)
     (\<lambda>n. n\<lparr>n_Fields := flds, n_Tags := tags, n_Checksum := cs, n_NoteTypeID := ntID, n_ModifiedAt := pg_timestamp now\<rparr>) (cd_notes db)"
  have db': "db' = db\<lparr>cd_notes := ?notes\<rparr>" using up by (auto simp: UpdateNoteContent_def bindE_eq_Inr split: if_splits)
  show "cd_decks db' = cd_decks db" "cd_access db' = cd_access db" by (simp_all add: db')
  have guids: "map guid_key ?notes = map guid_key (cd_notes db)" by (simp add: map_rows_def guid_key_def)
  have decks: "map (\<lambda>n. (n_DeckID n, n_OwnerID n)) ?notes = map (\<lambda>n. (n_DeckID n, n_OwnerID n)) (cd_notes db)"
    by (simp add: map_rows_def)
  show "content_wf db'"
    unfolding db'
  proof (rule content_wf_notes [OF wf])
    show "map n_ID ?notes = map n_ID (cd_notes db)" by (simp add: map_rows_def)
    show "distinct (map guid_key ?notes)" unfolding guids using wf by (simp add: content_wf_def content_keys_def pk_def)
    show "\<forall>n\<in>set ?notes. \<exists>d\<in>set (cd_decks db). dk_ID d = n_DeckID n \<and> dk_OwnerID d = n_OwnerID n"
      using wf by (auto simp: map_rows_def content_wf_def content_refs_def)
  qed
qed

lemma UpdateNoteWithCards_wf:
  assumes wf: "content_wf db" and up: "UpdateNoteWithCards newID db now userID noteID ntID flds tags cs desired = Inr db'"
  shows "content_wf db'" "cd_decks db' = cd_decks db" "cd_access db' = cd_access db"
proof -
  from up obtain n k db1 where "LockNoteForContentEdit db userID noteID = Inr n"
    and u: "UpdateNoteContent db now flds tags cs ntID noteID = Inr (k, db1)"
    and s: "SyncNoteCards newID db1 noteID (n_DeckID n) desired = Inr db'"
    unfolding UpdateNoteWithCards_def bindE_eq_Inr by (auto simp: bindE_eq_Inr)
  note U = UpdateNoteContent_wf [OF wf u]
  then have "content_keys db1" "content_refs db1" "\<forall>m\<in>set (cd_notes db1). n_ID m = noteID \<or> has_card db1 m"
    by (simp_all add: content_wf_def)
  from SyncNoteCards_wf [OF s this] U
  show "content_wf db'" "cd_decks db' = cd_decks db" "cd_access db' = cd_access db" by simp_all
qed

lemma MoveNote_wf:
  assumes wf: "content_wf db" and mv: "MoveNote db now userID noteID target = Inr db'"
  shows "content_wf db'" "cd_decks db' = cd_decks db" "cd_access db' = cd_access db" "cd_states db' = cd_states db"
    "may db target userID can_edit_content"
    "\<exists>d\<in>set (cd_decks db). dk_ID d = target \<and> (\<forall>n\<in>set (cd_notes db'). n_ID n = noteID \<longrightarrow>
       n_DeckID n = target \<and> n_OwnerID n = dk_OwnerID d)"
proof -
  from mv obtain n k db1 j where l: "LockNoteForContentEdit db userID noteID = Inr n"
    and m: "MoveNoteToDeck db now noteID target userID = Inr (k, db1)" "k \<noteq> 0"
    and c: "MoveNoteCardsFromDeck db1 target noteID (n_DeckID n) = Inr (j, db')"
    unfolding MoveNote_def bindE_eq_Inr by (auto simp: bindE_eq_Inr split: if_splits)
  from m obtain d a where d: "deck_with db target userID (\<lambda>a. can_view a \<and> can_edit_content a) = Some (d, a)"
    by (auto simp: MoveNoteToDeck_def bindE_eq_Inr split: option.splits)
  let ?mv = "\<lambda>n. n\<lparr>n_DeckID := dk_ID d, n_OwnerID := dk_OwnerID d, n_ModifiedAt := pg_timestamp now\<rparr>"
  let ?notes = "map_rows (\<lambda>n. n_ID n = noteID) ?mv (cd_notes db)"
  from m d have db1: "db1 = db\<lparr>cd_notes := ?notes\<rparr>" and guids: "distinct (map guid_key ?notes)"
    by (auto simp: MoveNoteToDeck_def bindE_eq_Inr Let_def split: if_splits)
  from deck_with_Some [OF d] have dk: "d \<in> set (cd_decks db)" "dk_ID d = target" and a: "a \<in> set (cd_access db)"
    "da_key a = (target, userID)" "can_view a" "can_edit_content a" by simp_all
  then show "may db target userID can_edit_content" by (auto simp: may_def)
  have wf1: "content_wf db1"
    unfolding db1
  proof (rule content_wf_notes [OF wf _ guids])
    show "map n_ID ?notes = map n_ID (cd_notes db)" by (simp add: map_rows_def)
    show "\<forall>n\<in>set ?notes. \<exists>d\<in>set (cd_decks db). dk_ID d = n_DeckID n \<and> dk_OwnerID d = n_OwnerID n"
      using wf dk(1) by (auto simp: map_rows_def content_wf_def content_refs_def)
  qed
  let ?p = "\<lambda>x. c_NoteID x = noteID \<and> c_DeckID x = n_DeckID n"
  let ?cards = "map_rows ?p (\<lambda>x. x\<lparr>c_DeckID := target\<rparr>) (cd_cards db1)"
  from c have db': "db' = db1\<lparr>cd_cards := ?cards\<rparr>"
    by (auto simp: MoveNoteCardsFromDeck_def bindE_eq_Inr Let_def split: if_splits)
  show "cd_decks db' = cd_decks db" "cd_access db' = cd_access db" "cd_states db' = cd_states db"
    by (simp_all add: db' db1)
  show "\<exists>d\<in>set (cd_decks db). dk_ID d = target \<and> (\<forall>n\<in>set (cd_notes db'). n_ID n = noteID \<longrightarrow>
       n_DeckID n = target \<and> n_OwnerID n = dk_OwnerID d)"
  proof (rule bexI [OF _ dk(1)], intro conjI ballI impI)
    fix n assume "n \<in> set (cd_notes db')" "n_ID n = noteID"
    then obtain m where "m \<in> set (cd_notes db)" "n = ?mv m" by (auto simp: db' db1 map_rows_def split: if_splits)
    then show "n_DeckID n = target" "n_OwnerID n = dk_OwnerID d" by (simp_all add: dk)
  qed (fact dk(2))
  have ids: "map c_ID ?cards = map c_ID (cd_cards db1)" and places: "map card_place ?cards = map card_place (cd_cards db1)"
    and noteids: "map c_NoteID ?cards = map c_NoteID (cd_cards db1)" by (simp_all add: map_rows_def card_place_def)
  have exid: "(\<exists>x\<in>set ?cards. c_ID x = i) = (\<exists>x\<in>set (cd_cards db1). c_ID x = i)"
    and exnote: "(\<exists>x\<in>set ?cards. c_NoteID x = i) = (\<exists>x\<in>set (cd_cards db1). c_NoteID x = i)" for i
    by (rule ex_key_cong [OF ids], rule ex_key_cong [OF noteids])
  have "(\<exists>n\<in>set (cd_notes db1). n_ID n = c_NoteID x) \<and> (\<exists>d\<in>set (cd_decks db1). dk_ID d = c_DeckID x)"
    if x: "x \<in> set ?cards" for x
  proof -
    from x obtain y where y: "y \<in> set (cd_cards db1)" "x = (if ?p y then y\<lparr>c_DeckID := target\<rparr> else y)"
      by (auto simp: map_rows_def)
    with wf1 have "(\<exists>n\<in>set (cd_notes db1). n_ID n = c_NoteID y) \<and> (\<exists>d\<in>set (cd_decks db1). dk_ID d = c_DeckID y)"
      by (simp add: content_wf_def content_refs_def)
    moreover have "\<exists>e\<in>set (cd_decks db1). dk_ID e = target" using dk by (auto simp: db1)
    ultimately show ?thesis using y(2) by (cases "?p y") simp_all
  qed
  with wf1 content_keys_cards [OF ids places] show "content_wf db'"
    by (simp add: db' content_wf_def content_refs_def has_card_def exid exnote)
qed

section \<open>The deck transactions\<close>

lemma content_wf_access:
  assumes "content_wf db" "pk da_key rows" "\<forall>a\<in>set rows. \<exists>d\<in>set (cd_decks db). dk_ID d = da_DeckID a"
  shows "content_wf (db\<lparr>cd_access := rows\<rparr>)"
  using assms by (simp add: content_wf_def content_keys_def content_refs_def has_card_def)

lemma no_deck_stranded_update:
  assumes "no_deck_stranded db" "deck_covered db' d" "cd_decks db' = cd_decks db"
    and "\<forall>a\<in>set (cd_access db). da_DeckID a \<noteq> d \<longrightarrow> a \<in> set (cd_access db')"
  shows "no_deck_stranded db'"
proof -
  have other: "deck_covered db' e" if "e \<noteq> d" "deck_covered db e" for e
  proof -
    from that(2) obtain a b where "a \<in> set (cd_access db)" "da_DeckID a = e" "can_manage_access a"
      "b \<in> set (cd_access db)" "da_DeckID b = e" "can_delete b" unfolding deck_covered_def by blast
    moreover from this assms(4) that(1) have "a \<in> set (cd_access db')" "b \<in> set (cd_access db')" by simp_all
    ultimately show ?thesis unfolding deck_covered_def by blast
  qed
  show ?thesis
    unfolding no_deck_stranded_def assms(3)
  proof
    fix x assume "x \<in> set (cd_decks db)"
    with assms(1) have "deck_covered db (dk_ID x)" by (simp add: no_deck_stranded_def)
    with other assms(2) show "deck_covered db' (dk_ID x)" by (cases "dk_ID x = d") auto
  qed
qed

lemma RevokeDeckAccess_inv:
  assumes "content_wf db" "no_deck_stranded db" "RevokeDeckAccess db d u t = Inr db'"
  shows "content_wf db' \<and> no_deck_stranded db'"
proof
  note R = RevokeDeckAccess_Inr [OF assms(3)]
  show "content_wf db'"
    unfolding R(3)
    by (rule content_wf_access [OF assms(1)]) (use assms(1) in \<open>auto simp: content_wf_def content_keys_def
      content_refs_def pk_def distinct_map_filter\<close>)
  show "no_deck_stranded db'"
    by (rule no_deck_stranded_update [OF assms(2) R(2)]) (auto simp: R(3) da_key_def)
qed

lemma SetDeckAccess_inv:
  assumes "content_wf db" "no_deck_stranded db" "SetDeckAccess db u f d t = Inr db'"
  shows "content_wf db' \<and> no_deck_stranded db'"
proof
  note S = SetDeckAccess_Inr [OF assms(3)]
  let ?rows = "map_rows (\<lambda>a. da_key a = (d, t)) (\<lambda>_. access_row d t f) (cd_access db)"
  have ids: "map da_key ?rows = map da_key (cd_access db)"
    by (auto simp: map_rows_def da_key_def access_row_def)
  show "content_wf db'"
    unfolding S(3)
  proof (rule content_wf_access [OF assms(1)])
    show "pk da_key ?rows" using assms(1) unfolding pk_def ids by (simp add: content_wf_def content_keys_def pk_def)
    show "\<forall>a\<in>set ?rows. \<exists>d\<in>set (cd_decks db). dk_ID d = da_DeckID a"
      using assms(1) by (auto simp: content_wf_def content_refs_def map_rows_def da_key_def access_row_def)
  qed
  show "no_deck_stranded db'"
    by (rule no_deck_stranded_update [OF assms(2) S(2)]) (force simp: S(3) da_key_def map_rows_def)+
qed

lemma insert_access_inv:
  assumes "content_wf db" and "insert_access db a = Inr db'"
  shows "content_wf db'" "cd_decks db' = cd_decks db" "a \<in> set (cd_access db')"
    "\<forall>d. deck_covered db d \<longrightarrow> deck_covered db' d"
proof -
  from insert_access_Inr [OF assms(2)] have a: "db' = db\<lparr>cd_access := cd_access db @ [a]\<rparr>"
    "row_of da_key (da_key a) (cd_access db) = None" "\<exists>d\<in>set (cd_decks db). dk_ID d = da_DeckID a" by simp_all
  show "content_wf db'"
    unfolding a(1)
    by (rule content_wf_access [OF assms(1)]) (use a assms(1) in \<open>auto simp: content_wf_def content_keys_def
      content_refs_def pk_snoc row_of_None\<close>)
  show "cd_decks db' = cd_decks db" "a \<in> set (cd_access db')" by (simp_all add: a)
  show "\<forall>d. deck_covered db d \<longrightarrow> deck_covered db' d" by (auto simp: deck_covered_def a)
qed

lemma GrantDeckAccess_inv:
  assumes "content_wf db" "no_deck_stranded db" "GrantDeckAccess db t f d u = Inr (n, db')"
  shows "content_wf db' \<and> no_deck_stranded db'"
  using GrantDeckAccess_Inr [OF assms(3)]
proof (elim disjE)
  assume "n = 1 \<and> (\<exists>a\<in>set (cd_access db). da_key a = (d, u) \<and> can_view a \<and> can_manage_access a)
    \<and> insert_access db (access_row d t f) = Inr db'"
  then have i: "insert_access db (access_row d t f) = Inr db'" by simp
  from insert_access_inv [OF assms(1) i] assms(2) show ?thesis by (simp add: no_deck_stranded_def)
qed (use assms in simp)

lemma ResetDeckProgress_inv:
  assumes "content_wf db" "no_deck_stranded db" "ResetDeckProgress db d u t = Inr db'"
  shows "content_wf db' \<and> no_deck_stranded db'"
proof -
  from ResetDeckProgress_Inr(2) [OF assms(3)] obtain p where "db' = db\<lparr>cd_states := filter p (cd_states db)\<rparr>" by blast
  with assms(1,2) show ?thesis
    by (simp add: content_wf_def content_keys_def content_refs_def has_card_def no_deck_stranded_def deck_covered_def)
qed

lemma CreateDeck_Inr:
  assumes "CreateDeck db now newID owner name desc = Inr (d, db')"
  shows "db' = db\<lparr>cd_decks := cd_decks db @ [d]\<rparr>" "dk_ID d = newID" "dk_OwnerID d = owner"
    "row_of dk_ID newID (cd_decks db) = None"
  using assms by (auto simp: CreateDeck_def bindE_eq_Inr Let_def split: if_splits)

lemma content_wf_deck:
  assumes "content_wf db" "row_of dk_ID (dk_ID d) (cd_decks db) = None"
  shows "content_wf (db\<lparr>cd_decks := cd_decks db @ [d]\<rparr>)"
  using assms by (simp add: content_wf_def content_keys_def content_refs_def has_card_def pk_snoc row_of_None)

lemma CreateDeckWithAccess_inv:
  assumes wf: "content_wf db" and cov: "no_deck_stranded db"
    and new: "CreateDeckWithAccess db now newID owner name desc = Inr (d, db')"
  shows "content_wf db' \<and> no_deck_stranded db'"
proof -
  from new obtain db1 where c: "CreateDeck db now newID owner name desc = Inr (d, db1)"
    and g: "insert_access db1 (access_row (dk_ID d) owner all_flags) = Inr db'"
    by (auto simp: CreateDeckWithAccess_def GrantFullDeckAccess_def bindE_eq_Inr)
  note C = CreateDeck_Inr [OF c]
  have wf1: "content_wf db1" unfolding C(1) by (rule content_wf_deck) (simp_all add: wf C(2,4))
  note I = insert_access_inv [OF wf1 g]
  have "deck_covered db' (dk_ID d)"
    using I(3) unfolding deck_covered_def
    by (intro conjI bexI [of _ "access_row (dk_ID d) owner all_flags"]) (simp_all add: access_row_def all_flags_def)
  moreover have "deck_covered db1 (dk_ID x)" if "x \<in> set (cd_decks db)" for x
    using cov that by (auto simp: C(1) no_deck_stranded_def deck_covered_def)
  ultimately have "no_deck_stranded db'" using I(2,4) by (auto simp: no_deck_stranded_def C(1))
  with I(1) show ?thesis by simp
qed

section \<open>The system\<close>

definition content_init :: "content_db \<Rightarrow> bool" where
  "content_init db \<longleftrightarrow> cd_decks db = [] \<and> cd_access db = [] \<and> cd_notes db = [] \<and> cd_cards db = [] \<and> cd_states db = []"

text \<open>One committed transaction; the aborted ones leave the database as it was.\<close>

inductive content_step :: "content_db \<Rightarrow> content_db \<Rightarrow> bool" where
  step_create: "CreateDeckWithAccess db now newID owner name desc = Inr (d, db') \<Longrightarrow> content_step db db'"
| step_grant: "GrantDeckAccess db target f d u = Inr (n, db') \<Longrightarrow> content_step db db'"
| step_set: "SetDeckAccess db u f d target = Inr db' \<Longrightarrow> content_step db db'"
| step_revoke: "RevokeDeckAccess db d u target = Inr db' \<Longrightarrow> content_step db db'"
| step_reset: "ResetDeckProgress db d u target = Inr db' \<Longrightarrow> content_step db db'"
| step_delete: "DeleteDeck db now d u = Inr db' \<Longrightarrow> content_step db db'"
| step_note: "CreateNoteWithCards newID db now noteID guid flds tags cs u ntID d desired = Inr (n, db') \<Longrightarrow> content_step db db'"
| step_edit: "UpdateNoteWithCards newID db now u noteID ntID flds tags cs desired = Inr db' \<Longrightarrow> content_step db db'"
| step_move: "MoveNote db now u noteID d = Inr db' \<Longrightarrow> content_step db db'"
| step_refuse: "content_step db (db\<lparr>cd_refuses := r\<rparr>)"

inductive_cases content_stepE: "content_step db db'"

definition content_inv :: "content_db \<Rightarrow> bool" where
  "content_inv db \<longleftrightarrow> content_wf db \<and> no_deck_stranded db"

lemma no_deck_stranded_same:
  "cd_decks db' = cd_decks db \<Longrightarrow> cd_access db' = cd_access db \<Longrightarrow> no_deck_stranded db' = no_deck_stranded db"
  by (simp add: no_deck_stranded_def deck_covered_def)

lemma DeleteDeck_stranded:
  assumes "DeleteDeck db now d u = Inr db'" "no_deck_stranded db"
  shows "no_deck_stranded db'"
  unfolding no_deck_stranded_def DeleteDeck_Inr(6) [OF assms(1)]
proof
  fix x assume "x \<in> set (filter (\<lambda>x. dk_ID x \<noteq> d) (cd_decks db))"
  with assms(2) have "deck_covered db (dk_ID x)" "dk_ID x \<noteq> d" by (simp_all add: no_deck_stranded_def)
  then show "deck_covered db' (dk_ID x)" by (rule deck_covered_others [OF _ _ DeleteDeck_Inr(7) [OF assms(1)]])
qed

lemma content_inv_init: "content_init db \<Longrightarrow> content_inv db"
  by (simp add: content_init_def content_inv_def content_wf_def content_keys_def content_refs_def pk_def no_deck_stranded_def)

lemma content_inv_step: "content_inv db \<Longrightarrow> content_step db db' \<Longrightarrow> content_inv db'"
proof (erule content_stepE)
  assume "content_inv db"
  then have wf: "content_wf db" and cov: "no_deck_stranded db" by (simp_all add: content_inv_def)
  show "content_inv db'" if "CreateDeckWithAccess db now newID owner name desc = Inr (d, db')" for now newID owner name desc d
    using CreateDeckWithAccess_inv [OF wf cov that] by (simp add: content_inv_def)
  show "content_inv db'" if "GrantDeckAccess db target f d u = Inr (n, db')" for target f d u n
    using GrantDeckAccess_inv [OF wf cov that] by (simp add: content_inv_def)
  show "content_inv db'" if "SetDeckAccess db u f d target = Inr db'" for u f d target
    using SetDeckAccess_inv [OF wf cov that] by (simp add: content_inv_def)
  show "content_inv db'" if "RevokeDeckAccess db d u target = Inr db'" for d u target
    using RevokeDeckAccess_inv [OF wf cov that] by (simp add: content_inv_def)
  show "content_inv db'" if "ResetDeckProgress db d u target = Inr db'" for d u target
    using ResetDeckProgress_inv [OF wf cov that] by (simp add: content_inv_def)
  show "content_inv db'" if "DeleteDeck db now d u = Inr db'" for now d u
    using DeleteDeck_wf(1) [OF wf that] DeleteDeck_stranded [OF that cov] by (simp add: content_inv_def)
  show "content_inv db'" if "CreateNoteWithCards newID db now noteID guid flds tags cs u ntID d desired = Inr (n, db')"
    for newID now noteID guid flds tags cs u ntID d desired n
    using CreateNoteWithCards_wf(1) [OF wf that] no_deck_stranded_same [OF CreateNoteWithCards_wf(2,3) [OF wf that]] cov by (simp add: content_inv_def)
  show "content_inv db'" if "UpdateNoteWithCards newID db now u noteID ntID flds tags cs desired = Inr db'"
    for newID now u noteID ntID flds tags cs desired
    using UpdateNoteWithCards_wf(1) [OF wf that] no_deck_stranded_same [OF UpdateNoteWithCards_wf(2,3) [OF wf that]] cov by (simp add: content_inv_def)
  show "content_inv db'" if "MoveNote db now u noteID d = Inr db'" for now u noteID d
    using MoveNote_wf(1) [OF wf that] no_deck_stranded_same [OF MoveNote_wf(2,3) [OF wf that]] cov by (simp add: content_inv_def)
  show "content_inv db'" if "db' = db\<lparr>cd_refuses := r\<rparr>" for r
    using wf cov that by (simp add: content_inv_def content_wf_def content_keys_def content_refs_def has_card_def
      no_deck_stranded_def deck_covered_def)
qed

interpretation content: invariant_system content_init content_step content_inv
  by unfold_locales (fact content_inv_init, fact content_inv_step)

text \<open>C21: whatever decks, notes and access rows are created, edited, moved, shared, revoked and deleted, in any
  order and by anybody, every reachable database has its keys and references intact, a card for every
  note, each note filed under a deck of its owner, and for every deck somebody who may manage it and
  somebody who may delete it.\<close>

theorem content_always_wf: "reaches content_init content_step db \<Longrightarrow> content_wf db \<and> no_deck_stranded db"
  using content.reachable_inv [of db] by (simp add: content_inv_def)

definition empty_content :: content_db where
  "empty_content = demo_content\<lparr>cd_decks := [], cd_access := [], cd_notes := [], cd_cards := []\<rparr>"

lemma content_always_wf_witness:
  "\<exists>d db. CreateDeckWithAccess empty_content Day 10 1 ''A'' [] = Inr (d, db) \<and> cd_decks db \<noteq> [] \<and> content_wf db
     \<and> no_deck_stranded db"
proof -
  have init: "content_init empty_content" by (simp add: content_init_def empty_content_def demo_content_def)
  obtain d db where c: "CreateDeckWithAccess empty_content Day 10 1 ''A'' [] = Inr (d, db)" "cd_decks db \<noteq> []"
    by (simp add: CreateDeckWithAccess_def CreateDeck_def GrantFullDeckAccess_def insert_access_def access_of_def
      empty_content_def demo_content_def run_c_def access_row_def da_key_def bindE_def Let_def)
  have "reaches content_init content_step empty_content" by (rule reaches_init) (rule init)
  then have "reaches content_init content_step db" by (rule reaches_step) (rule step_create [OF c(1)])
  from content_always_wf [OF this] c show ?thesis by blast
qed

text \<open>C23: a note changes hands only for somebody with \<open>can_view\<close> and \<open>can_edit_content\<close> on the deck it is in and
  on the deck it goes to; afterwards it belongs to the target deck and to that deck's owner, no student's
  schedule is touched, and keys and references hold.\<close>

theorem MoveNote_correct:
  assumes "content_wf db" and "MoveNote db now userID noteID target = Inr db'"
  shows "content_wf db' \<and> may db target userID can_edit_content
    \<and> (\<exists>n\<in>set (cd_notes db). n_ID n = noteID \<and> may db (n_DeckID n) userID can_edit_content)
    \<and> (\<exists>d\<in>set (cd_decks db). dk_ID d = target \<and> (\<forall>n\<in>set (cd_notes db'). n_ID n = noteID \<longrightarrow>
         n_DeckID n = target \<and> n_OwnerID n = dk_OwnerID d))
    \<and> cd_states db' = cd_states db"
proof -
  note M = MoveNote_wf [OF assms]
  from assms(2) obtain n where "LockNoteForContentEdit db userID noteID = Inr n" by (auto simp: MoveNote_def bindE_eq_Inr)
  note L = LockNoteForContentEdit_Inr [OF this]
  with assms(1) have "may db (n_DeckID n) userID can_edit_content"
    by (auto simp: may_def content_wf_def content_refs_def)
  with L M show ?thesis by blast
qed

lemma MoveNote_correct_witness:
  "\<exists>db'. MoveNote demo_content Day 1 21 11 = Inr db' \<and> content_wf db'"
proof -
  obtain db' where m: "MoveNote demo_content Day 1 21 11 = Inr db'"
    by (simp add: MoveNote_def LockNoteForContentEdit_def MoveNoteToDeck_def MoveNoteCardsFromDeck_def run_c_def bindE_def
      deck_with_def access_of_def demo_content_def demo_deck_def demo_note_row_def demo_card_def access_row_def da_key_def
      all_flags_def map_rows_def guid_key_def)
  from MoveNote_correct [OF demo_content_wf(1) m] m show ?thesis by blast
qed

lemma SyncNoteCards_diff_witness:
  "\<exists>db'. SyncNoteCards (\<lambda>i. 90 + word_of_int i) demo_content 20 10 [\<lparr>dc_Ordinal = 1, dc_TemplateID = 8\<rparr>, \<lparr>dc_Ordinal = 2, dc_TemplateID = 8\<rparr>]
     = Inr db' \<and> c_Ordinal ` {c \<in> set (cd_cards db'). c_NoteID c = 20} = {1, 2}"
proof -
  let ?d = "[\<lparr>dc_Ordinal = 1, dc_TemplateID = 8\<rparr>, \<lparr>dc_Ordinal = 2, dc_TemplateID = 8\<rparr>]"
  obtain db' where s: "SyncNoteCards (\<lambda>i. 90 + word_of_int i) demo_content 20 10 ?d = Inr db'"
    by (simp add: SyncNoteCards_def ListCardsForNoteForUpdate_def create_missing_def CreateCard_def insert_card_def
      card_row_def card_place_def DeleteCardsByOrdinals_def repoint_def desiredByOrdinal_def run_c_def bindE_def
      demo_content_def demo_deck_def demo_note_row_def demo_card_def delete_cards_def Let_def)
  have "content_keys demo_content" using demo_content_wf(1) by (simp add: content_wf_def)
  from SyncNoteCards_diff [OF s this] have "c_Ordinal ` {c \<in> set (cd_cards db'). c_NoteID c = 20} = dc_Ordinal ` set ?d"
    by blast
  with s show ?thesis by (intro exI [of _ db']) simp
qed

end
