(* ===== verification/Study_Queue.thy ===== *)
theory Study_Queue
  imports Content_Store Preset Interleave Cursor Card_Template
begin

text \<open>
  The reviewer's queue: the study queries of \<open>internal/db/reviews.sql.go\<close> with the sort keys of
  \<open>migrations/00026_sort_key_functions.sql\<close>, and \<open>internal/review/batch.go\<close>, which fetches a page of it,
  renders every card and computes the four rating outcomes. The clock of the database, its casts to
  \<open>double precision\<close> and \<open>md5\<close>, the HTML tokeniser and the random placeholders are parameters.
\<close>

section \<open>Parameters\<close>

record queue_keys =
  qk_of_int :: "int \<Rightarrow> float64"
  qk_epoch :: "gotime \<Rightarrow> float64"
  qk_md5 :: "uuid \<Rightarrow> string \<Rightarrow> float64"

datatype html_kind = StartTagToken | SelfClosingTagToken | OtherToken

text \<open>\<open>ht_Raw\<close> is what \<open>Raw\<close> returns where the code calls it: for a tag, after the call of \<open>Token\<close>.\<close>

record html_token =
  ht_Kind :: html_kind
  ht_Data :: string
  ht_Attr :: "(string \<times> string) list"
  ht_Raw :: string

record media_env =
  me_Tokens :: "string \<Rightarrow> html_token list"
  me_String :: "html_token \<Rightarrow> string"
  me_NFC :: "string \<Rightarrow> string"
  me_isAbsoluteURL :: "string \<Rightarrow> bool"

record study_env =
  se_now :: gotime
  se_keys :: queue_keys
  se_uuid :: uuid_text
  se_lib :: fsrs_lib
  se_render :: render_env
  se_rand :: "uuid \<Rightarrow> string option \<times> string option"
  se_media :: media_env

section \<open>Sort keys\<close>

text \<open>The order of \<open>double precision\<close>: the zeros are equal, NaN is above everything.\<close>

definition pg_rank :: "float64 \<Rightarrow> int" where
  "pg_rank x = (if IsNaN x then flt_inf_bits + 1 else flt_rank x)"

definition new_card_key :: "queue_keys \<Rightarrow> int option \<Rightarrow> float64" where
  "new_card_key K pos = qk_of_int K (coalesce pos 2147483647)"

definition rev_key :: "queue_keys \<Rightarrow> RevOrder \<Rightarrow> gotime \<Rightarrow> int \<Rightarrow> uuid \<Rightarrow> string \<Rightarrow> float64" where
  "rev_key K rev_order due scheduled_days card_id seed =
     (if rev_order = RevOrderRandom then qk_md5 K card_id seed
      else if rev_order = RevOrderIntervalAsc then qk_of_int K scheduled_days
      else if rev_order = RevOrderIntervalDesc then qk_of_int K (- scheduled_days)
      else qk_epoch K due)"

section \<open>Rows\<close>

record queue_row =
  qr_CardID :: uuid
  qr_CardOrdinal :: int
  qr_Unseen :: bool
  qr_Due :: gotime
  qr_Stability :: float64
  qr_Difficulty :: float64
  qr_State :: int
  qr_Reps :: int
  qr_Lapses :: int
  qr_ScheduledDays :: int
  qr_LearningSteps :: int
  qr_LastReview :: "gotime option"
  qr_NoteFields :: "string list"
  qr_NoteTags :: "string list"
  qr_NoteTypeID :: uuid
  qr_NoteTypeName :: string
  qr_IsCloze :: bool
  qr_TemplateName :: string
  qr_Qfmt :: string
  qr_Afmt :: string
  qr_SortKey :: float64

text \<open>The columns of \<open>scored\<close> that the outer query filters by.\<close>

record scored_row = queue_row +
  so_suspended :: bool
  so_buried_until :: "gotime option"
  so_release_day :: int

definition studyable :: "content_db \<Rightarrow> uuid \<Rightarrow> uuid \<Rightarrow> bool" where
  "studyable db userID deckID =
     (case access_of db deckID userID of None \<Rightarrow> False | Some a \<Rightarrow> can_view a \<and> can_study a)"

definition state_of :: "content_db \<Rightarrow> uuid \<Rightarrow> uuid \<Rightarrow> user_card_state option" where
  "state_of db userID cardID = row_of us_key (userID, cardID) (cd_states db)"

definition release_day :: "content_db \<Rightarrow> note_card \<Rightarrow> int option" where
  "release_day db c = map_option n_ReleaseDay (row_of n_ID (c_NoteID c) (cd_notes db))"

text \<open>One row of \<open>scored\<close>: the card joined with its note, note type and template.\<close>

definition score :: "study_env \<Rightarrow> content_db \<Rightarrow> RevOrder \<Rightarrow> string \<Rightarrow> uuid \<Rightarrow> note_card \<Rightarrow> scored_row option" where
  "score E db order seed userID c =
     (case (row_of n_ID (c_NoteID c) (cd_notes db), row_of tp_ID (c_TemplateID c) (cd_templates db)) of
        (Some n, Some t) \<Rightarrow>
          (case row_of nt_ID (n_NoteTypeID n) (cd_noteTypes db) of
             None \<Rightarrow> None
           | Some nt \<Rightarrow>
               let s = state_of db userID (c_ID c); get = (\<lambda>f d. case s of None \<Rightarrow> d | Some u \<Rightarrow> f u) in
               Some \<lparr>qr_CardID = c_ID c, qr_CardOrdinal = c_Ordinal c, qr_Unseen = (s = None),
                 qr_Due = (case s of None \<Rightarrow> se_now E | Some u \<Rightarrow> us_Due u),
                 qr_Stability = (case s of None \<Rightarrow> 0 | Some u \<Rightarrow> us_Stability u),
                 qr_Difficulty = (case s of None \<Rightarrow> 0 | Some u \<Rightarrow> us_Difficulty u),
                 qr_State = get us_State 0, qr_Reps = get us_Reps 0, qr_Lapses = get us_Lapses 0,
                 qr_ScheduledDays = get us_ScheduledDays 0, qr_LearningSteps = get us_LearningSteps 0,
                 qr_LastReview = (case s of None \<Rightarrow> None | Some u \<Rightarrow> us_LastReview u),
                 qr_NoteFields = n_Fields n, qr_NoteTags = n_Tags n, qr_NoteTypeID = nt_ID nt,
                 qr_NoteTypeName = nt_Name nt, qr_IsCloze = nt_IsCloze nt, qr_TemplateName = tp_Name t,
                 qr_Qfmt = tp_Qfmt t, qr_Afmt = tp_Afmt t,
                 qr_SortKey = (case s of
                    None \<Rightarrow> new_card_key (se_keys E) (c_ImportDuePosition c)
                  | Some u \<Rightarrow> rev_key (se_keys E) order (us_Due u) (us_ScheduledDays u) (c_ID c) seed),
                 so_suspended = (case s of None \<Rightarrow> False | Some u \<Rightarrow> us_Suspended u),
                 so_buried_until = (case s of None \<Rightarrow> None | Some u \<Rightarrow> us_BuriedUntil u),
                 so_release_day = n_ReleaseDay n\<rparr>)
      | _ \<Rightarrow> None)"

definition deck_cards :: "content_db \<Rightarrow> uuid \<Rightarrow> note_card list" where
  "deck_cards db deckID = filter (\<lambda>c. c_DeckID c = deckID) (cd_cards db)"

definition scored :: "study_env \<Rightarrow> content_db \<Rightarrow> RevOrder \<Rightarrow> string \<Rightarrow> uuid \<Rightarrow> uuid \<Rightarrow> scored_row list" where
  "scored E db order seed userID deckID =
     (if studyable db userID deckID
      then List.map_filter (score E db order seed userID) (deck_cards db deckID) else [])"

section \<open>The daily caps\<close>

type_synonym position = "int \<times> uuid"

definition row_position :: "'a queue_row_scheme \<Rightarrow> position" where
  "row_position r = (pg_rank (qr_SortKey r), qr_CardID r)"

text \<open>\<open>ORDER BY ... OFFSET GREATEST(n - 1, 0) LIMIT 1\<close>, left-joined: the boundary of an allowance of \<open>n\<close>.\<close>

definition cutoff :: "int \<Rightarrow> position list \<Rightarrow> position option" where
  "cutoff n ps = (let k = nat (max (n - 1) 0) in if k < length ps then Some (sort ps ! k) else None)"

definition within :: "int \<Rightarrow> position list \<Rightarrow> position \<Rightarrow> bool" where
  "within n ps p \<longleftrightarrow> 0 < n \<and> (case cutoff n ps of None \<Rightarrow> True | Some q \<Rightarrow> p \<le> q)"

definition not_buried :: "gotime \<Rightarrow> gotime option \<Rightarrow> bool" where
  "not_buried dayStart buriedUntil = (case buriedUntil of None \<Rightarrow> True | Some b \<Rightarrow> b \<le> pg_date dayStart)"

definition not_today :: "gotime \<Rightarrow> gotime option \<Rightarrow> bool" where
  "not_today dayStart lastReview = (case lastReview of None \<Rightarrow> True | Some l \<Rightarrow> l < dayStart)"

definition rev_positions :: "study_env \<Rightarrow> content_db \<Rightarrow> RevOrder \<Rightarrow> string \<Rightarrow> uuid \<Rightarrow> uuid \<Rightarrow> gotime \<Rightarrow> gotime \<Rightarrow> int
    \<Rightarrow> position list" where
  "rev_positions E db order seed userID deckID dayStart now lookAhead =
     List.map_filter (\<lambda>c. case state_of db userID (c_ID c) of
         None \<Rightarrow> None
       | Some u \<Rightarrow>
           if us_State u = 2 \<and> \<not> us_Suspended u \<and> not_buried dayStart (us_BuriedUntil u)
             \<and> us_Due u \<le> now + lookAhead * Minute \<and> not_today dayStart (us_LastReview u)
           then Some (pg_rank (rev_key (se_keys E) order (us_Due u) (us_ScheduledDays u) (c_ID c) seed), c_ID c)
           else None) (deck_cards db deckID)"

definition new_positions :: "study_env \<Rightarrow> content_db \<Rightarrow> uuid \<Rightarrow> uuid \<Rightarrow> int \<Rightarrow> position list" where
  "new_positions E db userID deckID classDay =
     map (\<lambda>c. (pg_rank (new_card_key (se_keys E) (c_ImportDuePosition c)), c_ID c))
       (filter (\<lambda>c. state_of db userID (c_ID c) = None
          \<and> (case release_day db c of None \<Rightarrow> False | Some d \<Rightarrow> d \<le> classDay)) (deck_cards db deckID))"

section \<open>The queries\<close>

definition refuse_limit :: content_error where
  "refuse_limit = CRefused ''LIMIT must not be negative''"

text \<open>A row comparison with a NULL card id is true only when it is decided before it.\<close>

definition row_after :: "position \<Rightarrow> float64 \<Rightarrow> pguuid \<Rightarrow> bool" where
  "row_after p key cardID \<longleftrightarrow>
     pg_rank key < fst p \<or> fst p = pg_rank key \<and> (case cardID of None \<Rightarrow> False | Some u \<Rightarrow> u < snd p)"

record ListDueCardsForStudyParams =
  ldp_Priority :: Priority
  ldp_RevOrder :: RevOrder
  ldp_HashSeed :: string
  ldp_UserID :: uuid
  ldp_DeckID :: uuid
  ldp_StudyDayStart :: gotime
  ldp_Now :: gotime
  ldp_LookAheadMinutes :: int
  ldp_RevRemaining :: int
  ldp_CurrentClassDay :: int
  ldp_NewRemaining :: int
  ldp_CursorGroupBit :: int
  ldp_CursorKey :: float64
  ldp_CursorCardID :: pguuid
  ldp_BatchSize :: int

definition group_bit :: "Priority \<Rightarrow> 'a queue_row_scheme \<Rightarrow> int" where
  "group_bit priority r =
     (if priority = PriorityNew then if qr_Unseen r then 0 else 1 else if qr_Unseen r then 1 else 0)"

text \<open>The \<open>WHERE\<close> clause up to the cursor.\<close>

definition due_eligible :: "study_env \<Rightarrow> content_db \<Rightarrow> ListDueCardsForStudyParams \<Rightarrow> scored_row \<Rightarrow> bool" where
  "due_eligible E db P r \<longleftrightarrow>
     \<not> so_suspended r \<and> not_buried (ldp_StudyDayStart P) (so_buried_until r)
     \<and> (qr_Unseen r \<or> qr_Due r \<le> ldp_Now P + ldp_LookAheadMinutes P * Minute)
     \<and> not_today (ldp_StudyDayStart P) (qr_LastReview r)
     \<and> (\<not> qr_Unseen r \<or> so_release_day r \<le> ldp_CurrentClassDay P)
     \<and> (\<not> qr_Unseen r \<or> within (ldp_NewRemaining P)
          (new_positions E db (ldp_UserID P) (ldp_DeckID P) (ldp_CurrentClassDay P)) (row_position r))
     \<and> (qr_State r \<noteq> 2 \<or> within (ldp_RevRemaining P)
          (rev_positions E db (ldp_RevOrder P) (ldp_HashSeed P) (ldp_UserID P) (ldp_DeckID P)
             (ldp_StudyDayStart P) (ldp_Now P) (ldp_LookAheadMinutes P)) (row_position r))"

definition due_after :: "ListDueCardsForStudyParams \<Rightarrow> scored_row \<Rightarrow> bool" where
  "due_after P r \<longleftrightarrow>
     ldp_CursorGroupBit P < group_bit (ldp_Priority P) r
     \<or> ldp_CursorGroupBit P = group_bit (ldp_Priority P) r
       \<and> row_after (row_position r) (ldp_CursorKey P) (ldp_CursorCardID P)"

definition due_order :: "ListDueCardsForStudyParams \<Rightarrow> 'a queue_row_scheme \<Rightarrow> int \<times> position" where
  "due_order P r = (group_bit (ldp_Priority P) r, row_position r)"

text \<open>Each row with its \<open>group_bit\<close>.\<close>

definition ListDueCardsForStudy :: "study_env \<Rightarrow> content_db \<Rightarrow> ListDueCardsForStudyParams
    \<Rightarrow> content_error + (queue_row \<times> int) list" where
  "ListDueCardsForStudy E db P =
     bindE (run_c db ''ListDueCardsForStudy''
        (scored E db (ldp_RevOrder P) (ldp_HashSeed P) (ldp_UserID P) (ldp_DeckID P))) (\<lambda>rows.
     if ldp_BatchSize P < 0 then Inl refuse_limit
     else Inr (map (\<lambda>r. (queue_row.truncate r, group_bit (ldp_Priority P) r))
        (take (nat (ldp_BatchSize P))
          (sort_key (due_order P) (filter (\<lambda>r. due_eligible E db P r \<and> due_after P r) rows)))))"

definition review_eligible :: "study_env \<Rightarrow> content_db \<Rightarrow> RevOrder \<Rightarrow> string \<Rightarrow> uuid \<Rightarrow> uuid \<Rightarrow> gotime \<Rightarrow> gotime \<Rightarrow> int
    \<Rightarrow> int \<Rightarrow> scored_row \<Rightarrow> bool" where
  "review_eligible E db order seed userID deckID dayStart now lookAhead revRemaining r \<longleftrightarrow>
     \<not> qr_Unseen r \<and> \<not> so_suspended r \<and> not_buried dayStart (so_buried_until r)
     \<and> qr_Due r \<le> now + lookAhead * Minute \<and> not_today dayStart (qr_LastReview r)
     \<and> (qr_State r \<noteq> 2 \<or> within revRemaining
          (rev_positions E db order seed userID deckID dayStart now lookAhead) (row_position r))"

definition ListReviewCardsForStudy :: "study_env \<Rightarrow> content_db \<Rightarrow> RevOrder \<Rightarrow> string \<Rightarrow> uuid \<Rightarrow> uuid \<Rightarrow> gotime \<Rightarrow> gotime
    \<Rightarrow> int \<Rightarrow> int \<Rightarrow> float64 \<Rightarrow> pguuid \<Rightarrow> int \<Rightarrow> content_error + queue_row list" where
  "ListReviewCardsForStudy E db order seed userID deckID dayStart now lookAhead revRemaining key cardID batchSize =
     bindE (run_c db ''ListReviewCardsForStudy'' (scored E db order seed userID deckID)) (\<lambda>rows.
     if batchSize < 0 then Inl refuse_limit
     else Inr (map queue_row.truncate (take (nat batchSize) (sort_key row_position
       (filter (\<lambda>r. review_eligible E db order seed userID deckID dayStart now lookAhead revRemaining r
          \<and> row_after (row_position r) key cardID) rows)))))"

definition new_eligible :: "study_env \<Rightarrow> content_db \<Rightarrow> uuid \<Rightarrow> uuid \<Rightarrow> int \<Rightarrow> int \<Rightarrow> scored_row \<Rightarrow> bool" where
  "new_eligible E db userID deckID classDay newRemaining r \<longleftrightarrow>
     qr_Unseen r \<and> so_release_day r \<le> classDay
     \<and> within newRemaining (new_positions E db userID deckID classDay) (row_position r)"

definition ListNewCardsForStudy :: "study_env \<Rightarrow> content_db \<Rightarrow> uuid \<Rightarrow> uuid \<Rightarrow> int \<Rightarrow> int \<Rightarrow> float64 \<Rightarrow> pguuid \<Rightarrow> int
    \<Rightarrow> content_error + queue_row list" where
  "ListNewCardsForStudy E db userID deckID classDay newRemaining key cardID batchSize =
     bindE (run_c db ''ListNewCardsForStudy'' (scored E db RevOrderDue [] userID deckID)) (\<lambda>rows.
     if batchSize < 0 then Inl refuse_limit
     else Inr (map queue_row.truncate (take (nat batchSize) (sort_key row_position
       (filter (\<lambda>r. new_eligible E db userID deckID classDay newRemaining r
          \<and> row_after (row_position r) key cardID) rows)))))"

section \<open>The counts\<close>

text \<open>The log entries of a day that count against an allowance: those in the given state before the review.\<close>

definition studied_cards :: "content_db \<Rightarrow> uuid \<Rightarrow> (uuid \<Rightarrow> bool) \<Rightarrow> int \<Rightarrow> gotime \<Rightarrow> gotime \<Rightarrow> uuid list" where
  "studied_cards db userID inDeck stateBefore dayStart dayEnd =
     dedup (map rl_CardID (filter (\<lambda>l. rl_UserID l = userID \<and> rl_StateBefore l = stateBefore
        \<and> dayStart \<le> rl_ReviewedAt l \<and> rl_ReviewedAt l < dayEnd
        \<and> (case row_of c_ID (rl_CardID l) (cd_cards db) of
             None \<Rightarrow> False | Some c \<Rightarrow> inDeck (c_DeckID c) \<and> studyable db userID (c_DeckID c)))
      (cd_log db)))"

definition CountNewIntroducedToday :: "content_db \<Rightarrow> uuid \<Rightarrow> uuid \<Rightarrow> gotime \<Rightarrow> gotime \<Rightarrow> content_error + int" where
  "CountNewIntroducedToday db userID deckID dayStart dayEnd =
     run_c db ''CountNewIntroducedToday''
       (int (length (studied_cards db userID (\<lambda>d. d = deckID) 0 dayStart dayEnd)))"

definition CountReviewedToday :: "content_db \<Rightarrow> uuid \<Rightarrow> uuid \<Rightarrow> gotime \<Rightarrow> gotime \<Rightarrow> content_error + int" where
  "CountReviewedToday db userID deckID dayStart dayEnd =
     run_c db ''CountReviewedToday''
       (int (length (studied_cards db userID (\<lambda>d. d = deckID) 2 dayStart dayEnd)))"

text \<open>\<open>GROUP BY c.deck_id\<close>: one row per deck that occurs.\<close>

definition grouped_by_deck :: "content_db \<Rightarrow> uuid list \<Rightarrow> (uuid \<times> int) list" where
  "grouped_by_deck db cards =
     (let decks = List.map_filter (\<lambda>i. map_option c_DeckID (row_of c_ID i (cd_cards db))) cards
      in map (\<lambda>d. (d, int (length (filter (\<lambda>e. e = d) decks)))) (dedup decks))"

definition CountNewIntroducedTodayForUser :: "content_db \<Rightarrow> uuid \<Rightarrow> gotime \<Rightarrow> gotime \<Rightarrow> content_error + (uuid \<times> int) list" where
  "CountNewIntroducedTodayForUser db userID dayStart dayEnd =
     run_c db ''CountNewIntroducedTodayForUser''
       (grouped_by_deck db (studied_cards db userID (\<lambda>_. True) 0 dayStart dayEnd))"

definition CountReviewedTodayForUser :: "content_db \<Rightarrow> uuid \<Rightarrow> gotime \<Rightarrow> gotime \<Rightarrow> content_error + (uuid \<times> int) list" where
  "CountReviewedTodayForUser db userID dayStart dayEnd =
     run_c db ''CountReviewedTodayForUser''
       (grouped_by_deck db (studied_cards db userID (\<lambda>_. True) 2 dayStart dayEnd))"

definition queue_eligible :: "content_db \<Rightarrow> uuid \<Rightarrow> gotime \<Rightarrow> gotime \<Rightarrow> int \<Rightarrow> int \<Rightarrow> note_card \<Rightarrow> bool" where
  "queue_eligible db userID dayStart now lookAhead classDay c \<longleftrightarrow>
     studyable db userID (c_DeckID c)
     \<and> (case release_day db c of
          None \<Rightarrow> False
        | Some d \<Rightarrow>
            (case state_of db userID (c_ID c) of
               None \<Rightarrow> d \<le> classDay
             | Some u \<Rightarrow> \<not> us_Suspended u \<and> not_buried dayStart (us_BuriedUntil u)
                 \<and> us_Due u \<le> now + lookAhead * Minute \<and> not_today dayStart (us_LastReview u)))"

record queue_counts =
  qc_NewCount :: int
  qc_LearningCount :: int
  qc_DueCount :: int

definition count_queue :: "content_db \<Rightarrow> uuid \<Rightarrow> note_card list \<Rightarrow> queue_counts" where
  "count_queue db userID cs =
     (let count = (\<lambda>p. int (length (filter (\<lambda>c. p (state_of db userID (c_ID c))) cs)))
      in \<lparr>qc_NewCount = count (\<lambda>s. s = None),
          qc_LearningCount = count (\<lambda>s. case s of None \<Rightarrow> False | Some u \<Rightarrow> us_State u = 1 \<or> us_State u = 3),
          qc_DueCount = count (\<lambda>s. case s of None \<Rightarrow> False | Some u \<Rightarrow> us_State u = 2)\<rparr>)"

definition CountQueueForDeck :: "content_db \<Rightarrow> uuid \<Rightarrow> uuid \<Rightarrow> gotime \<Rightarrow> gotime \<Rightarrow> int \<Rightarrow> int \<Rightarrow> content_error + queue_counts" where
  "CountQueueForDeck db userID deckID dayStart now lookAhead classDay =
     run_c db ''CountQueueForDeck'' (count_queue db userID
       (filter (queue_eligible db userID dayStart now lookAhead classDay) (deck_cards db deckID)))"

text \<open>The three arrays are unnested in parallel; the rows of a deck listed more than once are counted each time.\<close>

definition CountQueueForUser :: "content_db \<Rightarrow> uuid \<Rightarrow> gotime \<Rightarrow> gotime \<Rightarrow> uuid list \<Rightarrow> int list \<Rightarrow> int list
    \<Rightarrow> content_error + (uuid \<times> queue_counts) list" where
  "CountQueueForUser db userID dayStart now deckIds lookAheads classDays =
     (let la = zip deckIds (zip lookAheads classDays);
          rows = concat (map (\<lambda>c. map (\<lambda>_. c) (filter (\<lambda>(d, l, k). d = c_DeckID c
             \<and> queue_eligible db userID dayStart now l k c) la)) (cd_cards db))
      in run_c db ''CountQueueForUser''
           (map (\<lambda>d. (d, count_queue db userID (filter (\<lambda>c. c_DeckID c = d) rows))) (dedup (map c_DeckID rows))))"

text \<open>The lowest lesson not reached yet.\<close>

definition NextLockedLesson :: "content_db \<Rightarrow> uuid \<Rightarrow> uuid \<Rightarrow> int \<Rightarrow> content_error + int" where
  "NextLockedLesson db userID deckID classDay =
     bindE (run_c db ''NextLockedLesson'' (sort (filter (\<lambda>d. d > classDay) (List.map_filter (\<lambda>c.
        if (case access_of db deckID userID of None \<Rightarrow> False | Some a \<Rightarrow> can_view a)
          \<and> state_of db userID (c_ID c) = None then release_day db c else None) (deck_cards db deckID))))) (\<lambda>ds.
     case ds of [] \<Rightarrow> Inl ErrNoRows | d # _ \<Rightarrow> Inr d)"

definition GetDeckForStudy :: "content_db \<Rightarrow> uuid \<Rightarrow> uuid \<Rightarrow> content_error + deck" where
  "GetDeckForStudy db userID deckID =
     bindE (run_c db ''GetDeckForStudy'' (deck_with db deckID userID (\<lambda>a. can_view a \<and> can_study a)))
       (\<lambda>r. one_row (map_option fst r))"

definition ListNoteTypeCSSForDeck :: "content_db \<Rightarrow> uuid \<Rightarrow> uuid \<Rightarrow> content_error + (uuid \<times> string) list" where
  "ListNoteTypeCSSForDeck db userID deckID =
     run_c db ''ListNoteTypeCSSForDeck''
       (if studyable db userID deckID
        then dedup (List.map_filter (\<lambda>c. case row_of n_ID (c_NoteID c) (cd_notes db) of
               None \<Rightarrow> None
             | Some n \<Rightarrow> map_option (\<lambda>nt. (nt_ID nt, nt_Css nt)) (row_of nt_ID (n_NoteTypeID n) (cd_noteTypes db)))
             (deck_cards db deckID))
        else [])"

section \<open>The study day\<close>

text \<open>\<open>AT TIME ZONE\<close> in both directions; \<open>None\<close> is a zone Postgres does not know.\<close>

record pg_zones =
  pz_local :: "string \<Rightarrow> gotime \<Rightarrow> gotime option"
  pz_instant :: "string \<Rightarrow> gotime \<Rightarrow> gotime option"

record StudyDay =
  sd_Start :: gotime
  sd_End :: gotime
  sd_LocalDate :: gotime

definition GetStudyDayWindow :: "pg_zones \<Rightarrow> content_db \<Rightarrow> gotime \<Rightarrow> uuid \<Rightarrow> content_error + StudyDay" where
  "GetStudyDayWindow Z db now userID =
     bindE (run_c db ''GetStudyDayWindow'' (row_of u_ID userID (cd_users db))) (\<lambda>r.
     case r of None \<Rightarrow> Inl ErrNoRows
     | Some u \<Rightarrow>
         (case pz_local Z (u_Timezone u) now of
            None \<Rightarrow> Inl (CRefused ''time zone not recognized'')
          | Some local_now \<Rightarrow>
              let h = u_DayStartHour u * Hour; start_local = pg_date (local_now - h) + h
              in (case (pz_instant Z (u_Timezone u) start_local, pz_instant Z (u_Timezone u) (start_local + Day)) of
                    (Some s, Some e) \<Rightarrow> Inr \<lparr>sd_Start = s, sd_End = e, sd_LocalDate = pg_date start_local\<rparr>
                  | _ \<Rightarrow> Inl (CRefused ''time zone not recognized''))))"

end
