(* ===== verification/Study_Batch.thy ===== *)
theory Study_Batch
  imports Study_Queue Locks
begin

text \<open>
  \<open>internal/review/batch.go\<close>: a page of the reviewer's queue. \<open>BuildBatch\<close> computes the day's remaining
  allowances, fetches a page in one of the two modes, renders and previews every card and returns the
  cursor of the next page.
\<close>

section \<open>Types\<close>

datatype batch_error =
    BatchDb string content_error
  | BatchRender render_error
  | BatchPreview fsrs_error
  | BatchPanic

record QueueCard =
  qca_CardID :: uuid
  qca_Unseen :: bool
  qca_Question :: string
  qca_Answer :: string
  qca_Preview :: Preview

record Batch =
  b_Cards :: "QueueCard list"
  b_Cursor :: string
  b_Exhausted :: bool

text \<open>\<open>fmt.Errorf("review: count ...: %w", err)\<close>.\<close>

definition db_err :: "string \<Rightarrow> content_error + 'a \<Rightarrow> batch_error + 'a" where
  "db_err what m = liftE (BatchDb what) m"

text \<open>\<open>time.RFC3339Nano\<close> of a UTC time: the fraction without its trailing zeros.\<close>

definition format_rfc3339nano :: "gotime \<Rightarrow> string" where
  "format_rfc3339nano t =
     (let frac = t mod Second; secs = (t div Second) mod 86400
      in format_date t @ ''T'' @ pad 2 (secs div 3600) @ '':'' @ pad 2 (secs div 60 mod 60) @ '':'' @ pad 2 (secs mod 60)
         @ (if frac = 0 then [] else ''.'' @ rev (dropWhile (\<lambda>c. c = CHR ''0'') (rev (pad 9 frac)))) @ ''Z'')"

definition hashSeedFor :: "uuid_text \<Rightarrow> uuid \<Rightarrow> StudyDay \<Rightarrow> string" where
  "hashSeedFor t userID window = uu_String t userID @ ''|'' @ format_rfc3339nano (sd_Start window)"

text \<open>\<open>strings.LastIndex(name, "::")\<close>: what follows the last separator.\<close>

fun lastSubdeck :: "string \<Rightarrow> string" where
  "lastSubdeck [] = []"
| "lastSubdeck (c # s) =
     (case Index s ''::'' of
        Some _ \<Rightarrow> lastSubdeck s
      | None \<Rightarrow> if HasPrefix (c # s) ''::'' then drop 2 (c # s) else c # s)"

section \<open>Rendering\<close>

definition ListFieldsForNoteTypes :: "content_db \<Rightarrow> uuid list \<Rightarrow> content_error + field_row list" where
  "ListFieldsForNoteTypes db ids =
     run_c db ''ListFieldsForNoteTypes''
       (sort_key (\<lambda>f. (fd_NoteTypeID f, fd_Ordinal f)) (filter (\<lambda>f. fd_NoteTypeID f \<in> set ids) (cd_fields db)))"

definition ListMediaRefsForDeck :: "content_db \<Rightarrow> uuid \<Rightarrow> content_error + media_ref list" where
  "ListMediaRefsForDeck db deckID =
     run_c db ''ListMediaRefsForDeck'' (filter (\<lambda>m. mr_DeckID m = deckID) (cd_media db))"

definition rewrite_src :: "media_env \<Rightarrow> (string \<Rightarrow> string option) \<Rightarrow> string \<times> string \<Rightarrow> string \<times> string" where
  "rewrite_src M resolve a =
     (if fst a \<noteq> ''src'' \<or> me_isAbsoluteURL M (snd a) then a
      else (case resolve (me_NFC M (snd a)) of
              None \<Rightarrow> a
            | Some sha \<Rightarrow> (fst a, ''/media/'' @ sha)))"

definition RewriteMediaSrcs :: "media_env \<Rightarrow> (string \<Rightarrow> string option) \<Rightarrow> string \<Rightarrow> string" where
  "RewriteMediaSrcs M resolve cardHTML =
     (if \<not> Contains cardHTML ''<img'' then cardHTML
      else concat (map (\<lambda>tok.
        if ht_Kind tok = OtherToken \<or> ht_Data tok \<noteq> ''img'' then ht_Raw tok
        else me_String M (tok\<lparr>ht_Attr := map (rewrite_src M resolve) (ht_Attr tok)\<rparr>)) (me_Tokens M cardHTML)))"

text \<open>The value of a field of the note type; an ordinal below zero is an index out of range.\<close>

definition field_value :: "string list \<Rightarrow> field_row \<Rightarrow> batch_error + (string \<times> string)" where
  "field_value values f =
     (if fd_Ordinal f < int (length values) then
        if fd_Ordinal f < 0 then Inl BatchPanic else Inr (fd_Name f, values ! nat (fd_Ordinal f))
      else Inr (fd_Name f, []))"

definition prior_state :: "queue_row \<Rightarrow> CardState" where
  "prior_state r =
     \<lparr>cs_Due = qr_Due r, cs_Stability = qr_Stability r, cs_Difficulty = qr_Difficulty r,
      cs_State = uwrap 8 (qr_State r), cs_Reps = qr_Reps r, cs_Lapses = qr_Lapses r,
      cs_ScheduledDays = qr_ScheduledDays r, cs_LearningSteps = qr_LearningSteps r,
      cs_LastReview = (case qr_LastReview r of None \<Rightarrow> 0 | Some t \<Rightarrow> t)\<rparr>"

definition render_row :: "study_env \<Rightarrow> (uuid \<Rightarrow> field_row list) \<Rightarrow> (string \<Rightarrow> string option) \<Rightarrow> string \<Rightarrow> Params \<Rightarrow> gotime
    \<Rightarrow> queue_row \<Rightarrow> batch_error + QueueCard" where
  "render_row E fieldsByNoteType resolve deckName p now r =
     bindE (mapE (field_value (qr_NoteFields r)) (fieldsByNoteType (qr_NoteTypeID r))) (\<lambda>fs.
     let n = \<lparr>nf_Fields = fs, nf_Tags = qr_NoteTags r, nf_NoteType = qr_NoteTypeName r, nf_Deck = deckName,
           nf_Subdeck = lastSubdeck deckName\<rparr>;
         tmpl = \<lparr>ct_Name = qr_TemplateName r, ct_Qfmt = qr_Qfmt r, ct_Afmt = qr_Afmt r\<rparr>;
         rnd = se_rand E (qr_CardID r);
         media = (\<lambda>x. x\<lparr>r_HTML := RewriteMediaSrcs (se_media E) resolve (r_HTML x)\<rparr>)
     in bindE (liftE BatchRender (RenderCard (se_render E) (fst rnd) (snd rnd) tmpl n (qr_CardOrdinal r) (qr_IsCloze r)))
          (\<lambda>(question, answer).
        bindE (liftE BatchPreview (PreviewAll (se_lib E) p (prior_state r) now)) (\<lambda>preview.
        Inr \<lparr>qca_CardID = qr_CardID r, qca_Unseen = qr_Unseen r, qca_Question = TypeAnswerInput (media question),
          qca_Answer = TypeAnswerExpected (media answer), qca_Preview = preview\<rparr>)))"

definition renderQueueRows :: "study_env \<Rightarrow> content_db \<Rightarrow> uuid \<Rightarrow> string \<Rightarrow> Params \<Rightarrow> gotime \<Rightarrow> queue_row list
    \<Rightarrow> batch_error + QueueCard list" where
  "renderQueueRows E db deckID deckName p now rows =
     bindE (db_err ''list fields'' (ListFieldsForNoteTypes db (dedup (map qr_NoteTypeID rows)))) (\<lambda>fieldRows.
     bindE (db_err ''list media refs'' (ListMediaRefsForDeck db deckID)) (\<lambda>mediaRefs.
     let fieldsByNoteType = (\<lambda>nt. filter (\<lambda>f. fd_NoteTypeID f = nt) fieldRows);
         resolve = map_of (rev (map (\<lambda>m. (mr_Filename m, mr_Sha256 m)) mediaRefs))
     in mapE (render_row E fieldsByNoteType resolve deckName p now) rows))"

section \<open>Building a batch\<close>

definition buildSingleBatch :: "study_env \<Rightarrow> content_db \<Rightarrow> Params \<Rightarrow> uuid \<Rightarrow> uuid \<Rightarrow> string \<Rightarrow> StudyDay \<Rightarrow> RevOrder \<Rightarrow> Priority
    \<Rightarrow> int \<Rightarrow> int \<Rightarrow> Cursor \<Rightarrow> int \<Rightarrow> gotime \<Rightarrow> int \<Rightarrow> int \<Rightarrow> batch_error + Batch" where
  "buildSingleBatch E db p userID deckID deckName window order priority newRemaining totalRemaining cur limit now
       lookAheadMinutes classDay =
     bindE (db_err ''list due cards'' (ListDueCardsForStudy E db
       \<lparr>ldp_Priority = priority, ldp_RevOrder = order, ldp_HashSeed = hashSeedFor (se_uuid E) userID window,
        ldp_UserID = userID, ldp_DeckID = deckID, ldp_StudyDayStart = sd_Start window, ldp_Now = pg_timestamp now,
        ldp_LookAheadMinutes = lookAheadMinutes, ldp_RevRemaining = totalRemaining, ldp_CurrentClassDay = classDay,
        ldp_NewRemaining = newRemaining, ldp_CursorGroupBit = groupBitArg cur, ldp_CursorKey = keyArg cur,
        ldp_CursorCardID = cardIDArg cur, ldp_BatchSize = limit\<rparr>)) (\<lambda>rows.
     let exhausted = wrap32 (int (length rows)) < limit in
     if rows = [] then Inr \<lparr>b_Cards = [], b_Cursor = [], b_Exhausted = exhausted\<rparr>
     else
       bindE (renderQueueRows E db deckID deckName p now (map fst rows)) (\<lambda>cards.
       Inr \<lparr>b_Cards = cards,
         b_Cursor = (if exhausted then [] else EncodeCursor (se_uuid E)
           (zero_Cursor\<lparr>cur_GroupBit := snd (last rows), cur_Key := qr_SortKey (fst (last rows)),
              cur_CardID := Some (qr_CardID (fst (last rows)))\<rparr>)),
         b_Exhausted = exhausted\<rparr>))"

definition carryRevCursor :: "Cursor \<Rightarrow> bool \<times> float64 \<times> pguuid" where
  "carryRevCursor cur =
     (if cur_AtStart cur then (True, 0, None) else (cur_RevAtStart cur, cur_RevKey cur, cur_RevCardID cur))"

definition carryNewCursor :: "Cursor \<Rightarrow> bool \<times> float64 \<times> pguuid" where
  "carryNewCursor cur =
     (if cur_AtStart cur then (True, 0, None) else (cur_NewAtStart cur, cur_NewKey cur, cur_NewCardID cur))"

text \<open>The picked rows: \<open>True\<close> takes the next review row, \<open>False\<close> the next new one.\<close>

fun pick_rows :: "bool list \<Rightarrow> 'a list \<Rightarrow> 'a list \<Rightarrow> 'a list" where
  "pick_rows [] revRows newRows = []"
| "pick_rows (True # ps) revRows newRows = hd revRows # pick_rows ps (tl revRows) newRows"
| "pick_rows (False # ps) revRows newRows = hd newRows # pick_rows ps revRows (tl newRows)"

definition next_mixed :: "Cursor \<Rightarrow> queue_row list \<Rightarrow> queue_row list \<Rightarrow> nat \<Rightarrow> nat \<Rightarrow> Cursor" where
  "next_mixed cur revRows newRows revTaken newTaken =
     (let (ra, rk, ri) = (if revTaken > 0
            then (False, qr_SortKey (revRows ! (revTaken - 1)), Some (qr_CardID (revRows ! (revTaken - 1))))
            else carryRevCursor cur);
          (na, nk, ni) = (if newTaken > 0
            then (False, qr_SortKey (newRows ! (newTaken - 1)), Some (qr_CardID (newRows ! (newTaken - 1))))
            else carryNewCursor cur)
      in zero_Cursor\<lparr>cur_Mixed := True, cur_RevAtStart := ra, cur_RevKey := rk, cur_RevCardID := ri,
           cur_NewAtStart := na, cur_NewKey := nk, cur_NewCardID := ni\<rparr>)"

definition buildMixedBatch :: "study_env \<Rightarrow> content_db \<Rightarrow> Params \<Rightarrow> uuid \<Rightarrow> uuid \<Rightarrow> string \<Rightarrow> StudyDay \<Rightarrow> RevOrder
    \<Rightarrow> int \<Rightarrow> int \<Rightarrow> Cursor \<Rightarrow> int \<Rightarrow> gotime \<Rightarrow> int \<Rightarrow> int \<Rightarrow> batch_error + Batch" where
  "buildMixedBatch E db p userID deckID deckName window order newRemaining totalRemaining cur limit now
       lookAheadMinutes classDay =
     bindE (db_err ''list review cards'' (ListReviewCardsForStudy E db order (hashSeedFor (se_uuid E) userID window)
       userID deckID (sd_Start window) (pg_timestamp now) lookAheadMinutes totalRemaining
       (revKeyArg cur) (revCardIDArg cur) limit)) (\<lambda>reviewRows.
     bindE (db_err ''list new cards'' (ListNewCardsForStudy E db userID deckID classDay newRemaining
       (newKeyArg cur) (newCardIDArg cur) limit)) (\<lambda>newRows.
     let combined = int (length reviewRows) + int (length newRows);
         exhausted = (wrap32 (int (length reviewRows)) < limit \<and> wrap32 (int (length newRows)) < limit
           \<and> wrap32 combined \<le> limit);
         picks = interleave (int (length reviewRows)) (int (length newRows)) limit;
         revTaken = length (filter id picks); newTaken = length (filter Not picks)
     in if picks = [] then Inr \<lparr>b_Cards = [], b_Cursor = [], b_Exhausted = exhausted\<rparr>
        else
          bindE (renderQueueRows E db deckID deckName p now (pick_rows picks reviewRows newRows)) (\<lambda>cards.
          Inr \<lparr>b_Cards = cards,
            b_Cursor = (if exhausted then []
              else EncodeCursor (se_uuid E) (next_mixed cur reviewRows newRows revTaken newTaken)),
            b_Exhausted = exhausted\<rparr>)))"

definition BuildBatch :: "study_env \<Rightarrow> content_db \<Rightarrow> Params \<Rightarrow> uuid \<Rightarrow> uuid \<Rightarrow> string \<Rightarrow> StudyDay \<Rightarrow> DeckSettings \<Rightarrow> Cursor
    \<Rightarrow> int \<Rightarrow> gotime \<Rightarrow> int \<Rightarrow> batch_error + Batch" where
  "BuildBatch E db p userID deckID deckName window s cur limit now extraRounds =
     bindE (db_err ''count new introduced today''
       (CountNewIntroducedToday db userID deckID (sd_Start window) (sd_End window))) (\<lambda>introduced.
     bindE (db_err ''count reviewed today''
       (CountReviewedToday db userID deckID (sd_Start window) (sd_End window))) (\<lambda>reviewed.
     let effectiveNewPerDay = wrap32 (set_NewPerDay s + wrap32 (extraRounds * set_NewPerDay s));
         effectiveRevPerDay = wrap32 (set_RevPerDay s + wrap32 (extraRounds * set_RevPerDay s));
         totalRemaining = RevRemaining effectiveRevPerDay (wrap64 (introduced + reviewed));
         newRemaining = (if totalRemaining \<le> 0 then 0 else NewRemaining effectiveNewPerDay introduced);
         effectiveLimit = (if totalRemaining \<le> 0 then limit else min limit totalRemaining)
     in if set_Priority s = PriorityMixed
        then buildMixedBatch E db p userID deckID deckName window (set_Order s) newRemaining totalRemaining cur
          effectiveLimit now (set_LookAheadMinutes s) (set_ClassDay s)
        else buildSingleBatch E db p userID deckID deckName window (set_Order s) (set_Priority s) newRemaining
          totalRemaining cur effectiveLimit now (set_LookAheadMinutes s) (set_ClassDay s)))"

end
