(* ===== verification/Study_Batch_Lemmas.thy ===== *)
theory Study_Batch_Lemmas
  imports Study_Batch Content_System
begin

text \<open>
  The properties of a study page: only eligible cards are served, the daily allowances hold, and
  following the cursors serves every eligible card exactly once.
\<close>

section \<open>Rows and cards\<close>

lemma truncate_simps [simp]:
  "qr_CardID (queue_row.truncate r) = qr_CardID r" "qr_Unseen (queue_row.truncate r) = qr_Unseen r"
  "qr_State (queue_row.truncate r) = qr_State r" "qr_SortKey (queue_row.truncate r) = qr_SortKey r"
  "row_position (queue_row.truncate r) = row_position r" "group_bit P (queue_row.truncate r) = group_bit P r"
  by (simp_all add: queue_row.truncate_def row_position_def group_bit_def)

lemma score_Some:
  assumes "score E db order seed u c = Some r"
  shows "qr_CardID r = c_ID c" "qr_Unseen r \<longleftrightarrow> state_of db u (c_ID c) = None"
    "release_day db c = Some (so_release_day r)"
    "state_of db u (c_ID c) = None \<Longrightarrow> qr_State r = 0 \<and> row_position r = (pg_rank (new_card_key (se_keys E) (c_ImportDuePosition c)), c_ID c)"
    "state_of db u (c_ID c) = Some s \<Longrightarrow> qr_State r = us_State s \<and> so_suspended r = us_Suspended s
       \<and> so_buried_until r = us_BuriedUntil s \<and> qr_Due r = us_Due s \<and> qr_LastReview r = us_LastReview s
       \<and> row_position r = (pg_rank (rev_key (se_keys E) order (us_Due s) (us_ScheduledDays s) (c_ID c) seed), c_ID c)"
  using assms
  by (auto simp: score_def release_day_def row_position_def Let_def split: option.splits)

lemma in_scored:
  assumes "r \<in> set (scored E db order seed u d)"
  obtains c where "c \<in> set (deck_cards db d)" "score E db order seed u c = Some r" "studyable db u d"
  using assms by (auto simp: scored_def List.map_filter_def split: if_splits)

lemma deck_cards_iff [simp]: "c \<in> set (deck_cards db d) \<longleftrightarrow> c \<in> set (cd_cards db) \<and> c_DeckID c = d"
  by (simp add: deck_cards_def)

lemma distinct_map_filter_key:
  assumes "distinct (map f xs)" "\<And>x y. x \<in> set xs \<Longrightarrow> g x = Some y \<Longrightarrow> h y = f x"
  shows "distinct (map h (List.map_filter g xs))"
  using assms
proof (induction xs)
  case (Cons x xs)
  have sub: "h ` set (List.map_filter g xs) \<subseteq> f ` set xs"
    using Cons.prems(2) by (force simp: List.map_filter_def)
  have IH: "distinct (map h (List.map_filter g xs))" using Cons by simp
  show ?case
  proof (cases "g x")
    case (Some a)
    then have "h a = f x" using Cons.prems(2) by simp
    moreover have "f x \<notin> f ` set xs" using Cons.prems(1) by simp
    ultimately have "h a \<notin> h ` set (List.map_filter g xs)" using sub by auto
    with IH Some show ?thesis by (simp add: List.map_filter_simps)
  qed (use IH in \<open>simp add: List.map_filter_simps\<close>)
qed (simp add: List.map_filter_def)

lemma scored_distinct: "pk c_ID (cd_cards db) \<Longrightarrow> distinct (map qr_CardID (scored E db order seed u d))"
  unfolding scored_def
  by (auto intro!: distinct_map_filter_key [where f = c_ID] simp: score_Some(1) pk_def deck_cards_def distinct_map_filter)

section \<open>Allowances\<close>

text \<open>At most \<open>n\<close> positions are within an allowance of \<open>n\<close>.\<close>

lemma within_bound:
  assumes "distinct ps"
  shows "card {p \<in> set ps. within n ps p} \<le> nat n"
proof (cases "0 < n")
  case False
  then show ?thesis by (simp add: within_def)
next
  case True
  let ?k = "nat (max (n - 1) 0)"
  show ?thesis
  proof (cases "?k < length ps")
    case False
    then have "card (set ps) \<le> nat n" using distinct_card [OF assms] True by simp
    moreover have "card {p \<in> set ps. within n ps p} \<le> card (set ps)" by (rule card_mono) auto
    ultimately show ?thesis by simp
  next
    case k: True
    let ?qs = "sort ps"
    have "{p \<in> set ps. within n ps p} \<subseteq> (\<lambda>i. ?qs ! i) ` {..?k}"
    proof
      fix p assume "p \<in> {p \<in> set ps. within n ps p}"
      with k have p: "p \<in> set ?qs" "p \<le> ?qs ! ?k"
        by (simp_all add: within_def cutoff_def Let_def max_def split: if_splits)
      then obtain i where i: "i < length ?qs" "p = ?qs ! i" by (metis in_set_conv_nth)
      show "p \<in> (\<lambda>i. ?qs ! i) ` {..?k}"
      proof (cases "i \<le> ?k")
        case False
        with i k have "?qs ! ?k \<le> p" by (auto intro: sorted_nth_mono)
        with p(2) have eq: "?qs ! ?k = p" by simp
        show ?thesis unfolding eq [symmetric] by (intro imageI) simp
      qed (use i in auto)
    qed
    from card_mono [OF _ this] have "card {p \<in> set ps. within n ps p} \<le> card ((\<lambda>i. ?qs ! i) ` {..?k})" by simp
    also have "\<dots> \<le> card {..?k}" by (rule card_image_le) simp
    also have "\<dots> = nat n" using True by simp
    finally show ?thesis .
  qed
qed

lemma within_length:
  assumes "distinct ps" "distinct (map f xs)" "\<And>x. x \<in> set xs \<Longrightarrow> f x \<in> set ps \<and> within n ps (f x)"
  shows "length xs \<le> nat n"
proof -
  have "length xs = card (f ` set xs)" using distinct_card [OF assms(2)] by simp
  also have "\<dots> \<le> card {p \<in> set ps. within n ps p}" using assms(3) by (intro card_mono) auto
  also have "\<dots> \<le> nat n" by (rule within_bound [OF assms(1)])
  finally show ?thesis .
qed

lemma new_positions_distinct: "pk c_ID (cd_cards db) \<Longrightarrow> distinct (new_positions E db u d k)"
proof -
  assume "pk c_ID (cd_cards db)"
  then have "distinct (map snd (new_positions E db u d k))"
    by (simp add: new_positions_def o_def pk_def deck_cards_def distinct_map_filter)
  then show ?thesis by (simp add: distinct_map)
qed

lemma rev_positions_distinct: "pk c_ID (cd_cards db) \<Longrightarrow> distinct (rev_positions E db order seed u d s now la)"
proof -
  assume "pk c_ID (cd_cards db)"
  then have "distinct (map snd (rev_positions E db order seed u d s now la))"
    unfolding rev_positions_def
    by (intro distinct_map_filter_key [where f = c_ID])
      (auto simp: pk_def deck_cards_def distinct_map_filter split: option.splits if_splits)
  then show ?thesis by (simp add: distinct_map)
qed

lemma in_new_positions:
  assumes "score E db order seed u c = Some r" "c \<in> set (deck_cards db d)" "qr_Unseen r" "so_release_day r \<le> k"
  shows "row_position r \<in> set (new_positions E db u d k)"
  using assms score_Some [OF assms(1)] by (auto simp: new_positions_def)

lemma in_rev_positions:
  assumes "score E db order seed u c = Some r" "c \<in> set (deck_cards db d)" "qr_State r = 2"
    "\<not> so_suspended r" "not_buried s (so_buried_until r)" "qr_Due r \<le> now + la * Minute" "not_today s (qr_LastReview r)"
  shows "row_position r \<in> set (rev_positions E db order seed u d s now la)"
proof -
  from score_Some(4) [OF assms(1)] assms(3) obtain st where st: "state_of db u (c_ID c) = Some st"
    by (cases "state_of db u (c_ID c)") auto
  from score_Some(5) [OF assms(1) st] assms(2-) st show ?thesis
    by (force simp: rev_positions_def List.map_filter_def)
qed

section \<open>What a page serves\<close>

text \<open>The whole queue behind the cursors, and the page that a query returns of it.\<close>

definition study_queue :: "study_env \<Rightarrow> content_db \<Rightarrow> ListDueCardsForStudyParams \<Rightarrow> scored_row list" where
  "study_queue E db P = sort_key (due_order P) (filter (due_eligible E db P)
     (scored E db (ldp_RevOrder P) (ldp_HashSeed P) (ldp_UserID P) (ldp_DeckID P)))"

lemma ListDueCardsForStudy_page:
  "ListDueCardsForStudy E db P = Inr rows \<Longrightarrow> \<not> cd_refuses db ''ListDueCardsForStudy'' \<and> 0 \<le> ldp_BatchSize P
     \<and> rows = map (\<lambda>r. (queue_row.truncate r, group_bit (ldp_Priority P) r))
         (take (nat (ldp_BatchSize P)) (filter (due_after P) (study_queue E db P)))"
  by (auto simp: ListDueCardsForStudy_def bindE_eq_Inr study_queue_def filter_sort filter_filter conj_commute
      split: if_splits)

text \<open>What a row of the queue says of its card.\<close>

definition servable :: "study_env \<Rightarrow> content_db \<Rightarrow> ListDueCardsForStudyParams \<Rightarrow> queue_row \<Rightarrow> bool" where
  "servable E db P q \<longleftrightarrow> (\<exists>r\<in>set (scored E db (ldp_RevOrder P) (ldp_HashSeed P) (ldp_UserID P) (ldp_DeckID P)).
     due_eligible E db P r \<and> q = queue_row.truncate r)"

lemma servable_card:
  assumes "servable E db P q"
  obtains c where "c \<in> set (cd_cards db)" "c_ID c = qr_CardID q" "c_DeckID c = ldp_DeckID P"
    "queue_eligible db (ldp_UserID P) (ldp_StudyDayStart P) (ldp_Now P) (ldp_LookAheadMinutes P) (ldp_CurrentClassDay P) c"
    "qr_Unseen q \<longleftrightarrow> state_of db (ldp_UserID P) (c_ID c) = None"
    "\<And>s. state_of db (ldp_UserID P) (c_ID c) = Some s \<Longrightarrow> qr_State q = us_State s"
proof -
  from assms obtain r where r: "r \<in> set (scored E db (ldp_RevOrder P) (ldp_HashSeed P) (ldp_UserID P) (ldp_DeckID P))"
    "due_eligible E db P r" "q = queue_row.truncate r" by (auto simp: servable_def)
  from in_scored [OF r(1)] obtain c where c: "c \<in> set (deck_cards db (ldp_DeckID P))"
    "score E db (ldp_RevOrder P) (ldp_HashSeed P) (ldp_UserID P) c = Some r" "studyable db (ldp_UserID P) (ldp_DeckID P)" .
  note S = score_Some [OF c(2)]
  show thesis
  proof (rule that)
    show "queue_eligible db (ldp_UserID P) (ldp_StudyDayStart P) (ldp_Now P) (ldp_LookAheadMinutes P)
        (ldp_CurrentClassDay P) c"
      using S r(2) c by (cases "state_of db (ldp_UserID P) (c_ID c)") (auto simp: queue_eligible_def due_eligible_def)
  qed (use S r c in auto)
qed

lemma servable_new:
  assumes "servable E db P q" "qr_Unseen q"
  shows "within (ldp_NewRemaining P) (new_positions E db (ldp_UserID P) (ldp_DeckID P) (ldp_CurrentClassDay P)) (row_position q)
    \<and> row_position q \<in> set (new_positions E db (ldp_UserID P) (ldp_DeckID P) (ldp_CurrentClassDay P))"
proof -
  from assms obtain r where r: "r \<in> set (scored E db (ldp_RevOrder P) (ldp_HashSeed P) (ldp_UserID P) (ldp_DeckID P))"
    "due_eligible E db P r" "q = queue_row.truncate r" by (auto simp: servable_def)
  from in_scored [OF r(1)] obtain c where c: "c \<in> set (deck_cards db (ldp_DeckID P))"
    "score E db (ldp_RevOrder P) (ldp_HashSeed P) (ldp_UserID P) c = Some r" .
  from in_new_positions [OF c(2,1)] r assms(2) show ?thesis by (simp add: due_eligible_def)
qed

lemma servable_review:
  assumes "servable E db P q" "qr_State q = 2"
  shows "let ps = rev_positions E db (ldp_RevOrder P) (ldp_HashSeed P) (ldp_UserID P) (ldp_DeckID P)
      (ldp_StudyDayStart P) (ldp_Now P) (ldp_LookAheadMinutes P)
    in within (ldp_RevRemaining P) ps (row_position q) \<and> row_position q \<in> set ps"
proof -
  from assms obtain r where r: "r \<in> set (scored E db (ldp_RevOrder P) (ldp_HashSeed P) (ldp_UserID P) (ldp_DeckID P))"
    "due_eligible E db P r" "q = queue_row.truncate r" by (auto simp: servable_def)
  from in_scored [OF r(1)] obtain c where c: "c \<in> set (deck_cards db (ldp_DeckID P))"
    "score E db (ldp_RevOrder P) (ldp_HashSeed P) (ldp_UserID P) c = Some r" .
  from r assms(2) have st: "qr_State r = 2" by simp
  with score_Some(2,4) [OF c(2)] have "\<not> qr_Unseen r" by auto
  with r(2) st in_rev_positions [OF c(2,1) st] show ?thesis
    by (simp add: r(3) due_eligible_def Let_def)
qed

lemma row_position_distinct: "distinct (map qr_CardID rows) \<Longrightarrow> distinct (map row_position rows)"
  by (auto simp: distinct_map inj_on_def row_position_def)

text \<open>The allowances hold for any set of rows, so in particular over all pages together.\<close>

lemma servable_caps:
  assumes "pk c_ID (cd_cards db)" "\<forall>q\<in>set rows. servable E db P q" "distinct (map qr_CardID rows)"
  shows "length (filter qr_Unseen rows) \<le> nat (ldp_NewRemaining P)"
    "length (filter (\<lambda>q. qr_State q = 2) rows) \<le> nat (ldp_RevRemaining P)"
proof -
  have d: "distinct (map row_position (filter p rows))" for p
    by (rule row_position_distinct) (simp add: assms(3) distinct_map_filter)
  show "length (filter qr_Unseen rows) \<le> nat (ldp_NewRemaining P)"
  proof (rule within_length [OF new_positions_distinct [OF assms(1)] d])
    fix q assume "q \<in> set (filter qr_Unseen rows)"
    with assms(2) show "row_position q \<in> set (new_positions E db (ldp_UserID P) (ldp_DeckID P) (ldp_CurrentClassDay P))
      \<and> within (ldp_NewRemaining P) (new_positions E db (ldp_UserID P) (ldp_DeckID P) (ldp_CurrentClassDay P)) (row_position q)"
      using servable_new [of E db P q] by simp
  qed
  let ?ps = "rev_positions E db (ldp_RevOrder P) (ldp_HashSeed P) (ldp_UserID P) (ldp_DeckID P)
      (ldp_StudyDayStart P) (ldp_Now P) (ldp_LookAheadMinutes P)"
  show "length (filter (\<lambda>q. qr_State q = 2) rows) \<le> nat (ldp_RevRemaining P)"
  proof (rule within_length [OF rev_positions_distinct [OF assms(1)] d])
    fix q assume "q \<in> set (filter (\<lambda>q. qr_State q = 2) rows)"
    with assms(2) show "row_position q \<in> set ?ps \<and> within (ldp_RevRemaining P) ?ps (row_position q)"
      using servable_review [of E db P q] by (simp add: Let_def)
  qed
qed

text \<open>A never-seen card looks the same whatever the order, and an eligible one passes every filter.\<close>

lemma score_unseen:
  "score E db order seed u c = Some r \<Longrightarrow> qr_Unseen r \<Longrightarrow> score E db order' seed' u c = Some r"
  by (auto simp: score_def Let_def split: option.splits)

lemma scored_unseen:
  assumes "r \<in> set (scored E db order seed u d)" "qr_Unseen r"
  shows "r \<in> set (scored E db order' seed' u d)"
proof -
  from in_scored [OF assms(1)] obtain c where c: "c \<in> set (deck_cards db d)" "score E db order seed u c = Some r"
    "studyable db u d" .
  from score_unseen [OF c(2) assms(2)] c show ?thesis by (force simp: scored_def List.map_filter_def)
qed

lemma score_unseen_free:
  "r \<in> set (scored E db order seed u d) \<Longrightarrow> qr_Unseen r \<Longrightarrow>
     \<not> so_suspended r \<and> so_buried_until r = None \<and> qr_LastReview r = None \<and> qr_State r = 0"
  by (elim in_scored) (auto simp: score_def Let_def split: option.splits)

section \<open>The mixed mode\<close>

definition mixed_params :: "RevOrder \<Rightarrow> string \<Rightarrow> uuid \<Rightarrow> uuid \<Rightarrow> gotime \<Rightarrow> gotime \<Rightarrow> int \<Rightarrow> int \<Rightarrow> int \<Rightarrow> int
    \<Rightarrow> ListDueCardsForStudyParams" where
  "mixed_params order seed u d s now la k newRem revRem =
     \<lparr>ldp_Priority = PriorityMixed, ldp_RevOrder = order, ldp_HashSeed = seed, ldp_UserID = u, ldp_DeckID = d,
      ldp_StudyDayStart = s, ldp_Now = now, ldp_LookAheadMinutes = la, ldp_RevRemaining = revRem,
      ldp_CurrentClassDay = k, ldp_NewRemaining = newRem, ldp_CursorGroupBit = 0, ldp_CursorKey = 0,
      ldp_CursorCardID = None, ldp_BatchSize = 0\<rparr>"

lemma review_rows_servable:
  assumes "ListReviewCardsForStudy E db order seed u d s now la revRem key i b = Inr rows" "q \<in> set rows"
  shows "servable E db (mixed_params order seed u d s now la k newRem revRem) q" "\<not> qr_Unseen q"
proof -
  from assms obtain r where r: "r \<in> set (scored E db order seed u d)" "review_eligible E db order seed u d s now la revRem r"
    "q = queue_row.truncate r"
    by (auto simp: ListReviewCardsForStudy_def bindE_eq_Inr dest!: in_set_takeD split: if_splits)
  then show "servable E db (mixed_params order seed u d s now la k newRem revRem) q" "\<not> qr_Unseen q"
    by (auto simp: servable_def mixed_params_def review_eligible_def due_eligible_def)
qed

lemma new_rows_servable:
  assumes "ListNewCardsForStudy E db u d k newRem key i b = Inr rows" "q \<in> set rows"
  shows "servable E db (mixed_params order seed u d s now la k newRem revRem) q" "qr_Unseen q"
proof -
  from assms obtain r where r: "r \<in> set (scored E db RevOrderDue [] u d)" "new_eligible E db u d k newRem r"
    "q = queue_row.truncate r"
    by (auto simp: ListNewCardsForStudy_def bindE_eq_Inr dest!: in_set_takeD split: if_splits)
  then have un: "qr_Unseen r" by (simp add: new_eligible_def)
  from scored_unseen [OF r(1) un] score_unseen_free [OF r(1) un] r un
  show "servable E db (mixed_params order seed u d s now la k newRem revRem) q" "qr_Unseen q"
    by (auto simp: servable_def mixed_params_def new_eligible_def due_eligible_def not_buried_def not_today_def)
qed

lemma mapE_map_key:
  assumes "mapE f xs = Inr ys" "\<And>x y. x \<in> set xs \<Longrightarrow> f x = Inr y \<Longrightarrow> g y = h x"
  shows "map g ys = map h xs"
  using assms
proof (induction xs arbitrary: ys)
  case (Cons x xs)
  from Cons.prems(1) obtain z zs where "f x = Inr z" "mapE f xs = Inr zs" "ys = z # zs" by (auto simp: bindE_eq_Inr)
  with Cons show ?case by simp
qed simp

lemma render_row_Inr:
  "render_row E fs res dn p now r = Inr q \<Longrightarrow> qca_CardID q = qr_CardID r \<and> qca_Unseen q = qr_Unseen r"
  by (auto simp: render_row_def bindE_eq_Inr Let_def)

lemma renderQueueRows_Inr:
  assumes "renderQueueRows E db d dn p now rows = Inr cards"
  shows "map qca_CardID cards = map qr_CardID rows" "map qca_Unseen cards = map qr_Unseen rows"
proof -
  from assms obtain fs res where m: "mapE (render_row E fs res dn p now) rows = Inr cards"
    by (auto simp: renderQueueRows_def bindE_eq_Inr Let_def)
  show "map qca_CardID cards = map qr_CardID rows" "map qca_Unseen cards = map qr_Unseen rows"
    by (rule mapE_map_key [OF m], simp add: render_row_Inr)+
qed

lemma sort_take_distinct:
  "distinct (map f xs) \<Longrightarrow> distinct (map f (take n (sort_key g (filter p xs))))"
proof -
  assume "distinct (map f xs)"
  then have "distinct xs" "inj_on f (set xs)" by (simp_all add: distinct_map)
  then have "distinct (sort_key g (filter p xs))" "inj_on f (set (sort_key g (filter p xs)))"
    by (auto simp: inj_on_def)
  then have "distinct (map f (sort_key g (filter p xs)))" by (simp add: distinct_map)
  then show ?thesis by (simp add: take_map [symmetric])
qed

lemma pick_rows_split:
  assumes "length (filter id ps) \<le> length rs" "length (filter Not ps) \<le> length ns"
    and "\<forall>r\<in>set rs. \<not> p r" "\<forall>n\<in>set ns. p n"
  shows "filter (\<lambda>r. \<not> p r) (pick_rows ps rs ns) = take (length (filter id ps)) rs"
    "filter p (pick_rows ps rs ns) = take (length (filter Not ps)) ns"
    "length (pick_rows ps rs ns) = length ps"
  using assms
proof (induction ps rs ns rule: pick_rows.induct)
  case (2 ps rs ns)
  { case 1 with 2 show ?case by (cases rs) auto }
  { case 2 with "2.IH" show ?case by (cases rs) auto }
  { case 3 with "2.IH" show ?case by (cases rs) auto }
next
  case (3 ps rs ns)
  { case 1 with "3.IH" show ?case by (cases ns) auto }
  { case 2 with "3.IH" show ?case by (cases ns) auto }
  { case 3 with "3.IH" show ?case by (cases ns) auto }
qed simp_all

lemma distinct_by_parts:
  assumes "distinct (map f (filter p xs))" "distinct (map f (filter (\<lambda>x. \<not> p x) xs))"
    and "f ` set (filter p xs) \<inter> f ` set (filter (\<lambda>x. \<not> p x) xs) = {}"
  shows "distinct (map f xs)"
  using assms
proof (induction xs)
  case (Cons x xs)
  then have "distinct (map f xs)" by (cases "p x") auto
  moreover have "f x \<notin> f ` set xs"
  proof
    assume "f x \<in> f ` set xs"
    then obtain y where "y \<in> set xs" "f x = f y" by auto
    with Cons.prems show False by (cases "p x"; cases "p y") auto
  qed
  ultimately show ?case by simp
qed simp

text \<open>The counts of \<open>interleave\<close>.\<close>

lemma picked_length: "picked True ps = int (length (filter id ps))" "picked False ps = int (length (filter Not ps))"
  by (simp_all add: picked_def id_def)

lemma interleave_counts:
  assumes "counts_ok R N" "0 \<le> limit"
  shows "int (length (interleave R N limit)) = min limit (R + N)"
    "picked True (interleave R N limit) \<le> R" "picked False (interleave R N limit) \<le> N"
proof -
  let ?t = "min limit (R + N)"
  from assms(1) have b: "0 \<le> R" "R < 2147483648" "0 \<le> N" "N < 2147483648" by (simp_all add: counts_ok_def)
  then have "wrap64 (R + N) = R + N" by (intro wrap64_id) simp_all
  with assms(2) b have i: "interleave R N limit = interleave_loop R N 0 0 (nat ?t)"
    by (auto simp: interleave_def Let_def min_def)
  have "fair R N 0 0" using b by (simp add: fair_def)
  from interleave_loop_fair [OF assms(1) this, of "nat ?t"] b assms(2)
  have len: "length (interleave_loop R N 0 0 (nat ?t)) = nat ?t"
    and fair: "\<And>j. fair R N (0 + picked True (take j (interleave_loop R N 0 0 (nat ?t))))
      (0 + picked False (take j (interleave_loop R N 0 0 (nat ?t))))" by auto
  from len b assms(2) show "int (length (interleave R N limit)) = ?t" unfolding i by simp
  from fair [of "nat ?t"] len show "picked True (interleave R N limit) \<le> R" "picked False (interleave R N limit) \<le> N"
    unfolding i by (simp_all add: fair_def)
qed

section \<open>Every page\<close>

definition allowances :: "content_db \<Rightarrow> uuid \<Rightarrow> uuid \<Rightarrow> StudyDay \<Rightarrow> DeckSettings \<Rightarrow> int \<Rightarrow> int \<times> int" where
  "allowances db u d window s extraRounds =
     (let introduced = int (length (studied_cards db u (\<lambda>x. x = d) 0 (sd_Start window) (sd_End window)));
          reviewed = int (length (studied_cards db u (\<lambda>x. x = d) 2 (sd_Start window) (sd_End window)));
          tot = RevRemaining (wrap32 (set_RevPerDay s + wrap32 (extraRounds * set_RevPerDay s)))
            (wrap64 (introduced + reviewed))
      in (if tot \<le> 0 then 0
          else NewRemaining (wrap32 (set_NewPerDay s + wrap32 (extraRounds * set_NewPerDay s))) introduced, tot))"

definition page_limit :: "int \<Rightarrow> int \<Rightarrow> int" where
  "page_limit limit tot = (if tot \<le> 0 then limit else min limit tot)"

lemma BuildBatch_modes:
  assumes "allowances db u d window s extra = (newRem, tot)"
  shows "BuildBatch E db p u d dn window s cur limit now extra = Inr b \<longleftrightarrow>
    \<not> cd_refuses db ''CountNewIntroducedToday'' \<and> \<not> cd_refuses db ''CountReviewedToday''
    \<and> (if set_Priority s = PriorityMixed
       then buildMixedBatch E db p u d dn window (set_Order s) newRem tot cur (page_limit limit tot) now
         (set_LookAheadMinutes s) (set_ClassDay s)
       else buildSingleBatch E db p u d dn window (set_Order s) (set_Priority s) newRem tot cur (page_limit limit tot) now
         (set_LookAheadMinutes s) (set_ClassDay s)) = Inr b"
  using assms
  by (auto simp: BuildBatch_def db_err_def CountNewIntroducedToday_def CountReviewedToday_def bindE_eq_Inr
      allowances_def page_limit_def Let_def)

text \<open>The rows of a page, and the parameters that they are servable under.\<close>

definition day_params :: "study_env \<Rightarrow> uuid \<Rightarrow> uuid \<Rightarrow> StudyDay \<Rightarrow> DeckSettings \<Rightarrow> gotime \<Rightarrow> int \<times> int
    \<Rightarrow> ListDueCardsForStudyParams" where
  "day_params E u d window s now a = mixed_params (set_Order s) (hashSeedFor (se_uuid E) u window) u d (sd_Start window)
     (pg_timestamp now) (set_LookAheadMinutes s) (set_ClassDay s) (fst a) (snd a)"

lemma servable_cong:
  "ldp_RevOrder P = ldp_RevOrder Q \<Longrightarrow> ldp_HashSeed P = ldp_HashSeed Q \<Longrightarrow> ldp_UserID P = ldp_UserID Q \<Longrightarrow>
   ldp_DeckID P = ldp_DeckID Q \<Longrightarrow> ldp_StudyDayStart P = ldp_StudyDayStart Q \<Longrightarrow> ldp_Now P = ldp_Now Q \<Longrightarrow>
   ldp_LookAheadMinutes P = ldp_LookAheadMinutes Q \<Longrightarrow> ldp_RevRemaining P = ldp_RevRemaining Q \<Longrightarrow>
   ldp_CurrentClassDay P = ldp_CurrentClassDay Q \<Longrightarrow> ldp_NewRemaining P = ldp_NewRemaining Q \<Longrightarrow>
   servable E db P q = servable E db Q q"
  by (simp add: servable_def due_eligible_def)

lemma single_page_rows:
  assumes pk: "pk c_ID (cd_cards db)"
    and b: "buildSingleBatch E db p u d dn window order prio newRem tot cur limit now la k = Inr b"
  obtains rows where "map qca_CardID (b_Cards b) = map qr_CardID rows" "map qca_Unseen (b_Cards b) = map qr_Unseen rows"
    "\<forall>q\<in>set rows. servable E db (mixed_params order (hashSeedFor (se_uuid E) u window) u d (sd_Start window)
       (pg_timestamp now) la k newRem tot) q"
    "distinct (map qr_CardID rows)" "int (length rows) \<le> limit"
proof -
  let ?P = "\<lparr>ldp_Priority = prio, ldp_RevOrder = order, ldp_HashSeed = hashSeedFor (se_uuid E) u window,
        ldp_UserID = u, ldp_DeckID = d, ldp_StudyDayStart = sd_Start window, ldp_Now = pg_timestamp now,
        ldp_LookAheadMinutes = la, ldp_RevRemaining = tot, ldp_CurrentClassDay = k,
        ldp_NewRemaining = newRem, ldp_CursorGroupBit = groupBitArg cur, ldp_CursorKey = keyArg cur,
        ldp_CursorCardID = cardIDArg cur, ldp_BatchSize = limit\<rparr>"
  from b obtain rs where l: "ListDueCardsForStudy E db ?P = Inr rs"
    and c: "rs = [] \<and> b_Cards b = [] \<or> renderQueueRows E db d dn p now (map fst rs) = Inr (b_Cards b)"
    by (auto simp: buildSingleBatch_def db_err_def bindE_eq_Inr Let_def split: if_splits)
  from ListDueCardsForStudy_page [OF l] have lim: "0 \<le> limit"
    and rs: "map fst rs = map queue_row.truncate (take (nat limit) (filter (due_after ?P) (study_queue E db ?P)))"
    by (simp_all add: o_def)
  have "distinct (map qr_CardID (scored E db order (hashSeedFor (se_uuid E) u window) u d))"
    by (rule scored_distinct [OF pk])
  from sort_take_distinct [OF this, of "nat limit" "due_order ?P" "\<lambda>r. due_eligible E db ?P r \<and> due_after ?P r"]
  have "distinct (map qr_CardID (map fst rs))"
    unfolding rs by (simp add: o_def study_queue_def filter_sort filter_filter)
  moreover have "servable E db (mixed_params order (hashSeedFor (se_uuid E) u window) u d (sd_Start window)
       (pg_timestamp now) la k newRem tot) q" if "q \<in> set (map fst rs)" for q
  proof -
    from that have "servable E db ?P q"
      unfolding rs servable_def by (auto simp: study_queue_def dest!: in_set_takeD)
    then show ?thesis by (subst servable_cong [where Q = ?P]) (simp_all add: mixed_params_def)
  qed
  moreover from rs have "length rs \<le> nat limit" by (metis length_map length_take min.cobounded2)
  moreover from c have "map qca_CardID (b_Cards b) = map qr_CardID (map fst rs)"
    "map qca_Unseen (b_Cards b) = map qr_Unseen (map fst rs)"
    using renderQueueRows_Inr by auto
  ultimately show thesis using lim by (intro that [of "map fst rs"]) simp_all
qed

lemma query_length:
  "ListReviewCardsForStudy E db order seed u d s now la revRem key i b = Inr rows \<Longrightarrow> 0 \<le> b \<and> int (length rows) \<le> b"
  "ListNewCardsForStudy E db u d k newRem key i b = Inr rows \<Longrightarrow> 0 \<le> b \<and> int (length rows) \<le> b"
  by (auto simp: ListReviewCardsForStudy_def ListNewCardsForStudy_def bindE_eq_Inr split: if_splits)

lemma query_distinct:
  assumes "pk c_ID (cd_cards db)"
  shows "ListReviewCardsForStudy E db order seed u d s now la revRem key i b = Inr rows \<Longrightarrow> distinct (map qr_CardID rows)"
    "ListNewCardsForStudy E db u d k newRem key i b = Inr rows' \<Longrightarrow> distinct (map qr_CardID rows')"
  by (auto simp: ListReviewCardsForStudy_def ListNewCardsForStudy_def bindE_eq_Inr o_def
      intro!: sort_take_distinct scored_distinct assms split: if_splits)

lemma mixed_picks:
  assumes "ListReviewCardsForStudy E db order seed u d s now la revRem key i limit = Inr rs"
    and "ListNewCardsForStudy E db u d k newRem key' i' limit = Inr ns" and "limit \<le> max_int32"
  shows "let ps = interleave (int (length rs)) (int (length ns)) limit in
      int (length ps) = min limit (int (length rs) + int (length ns))
      \<and> length (filter id ps) \<le> length rs \<and> length (filter Not ps) \<le> length ns"
proof -
  have "counts_ok (int (length rs)) (int (length ns))"
    using query_length(1) [OF assms(1)] query_length(2) [OF assms(2)] assms(3) by (simp add: counts_ok_def max_int32_def)
  with interleave_counts [OF this, of limit] query_length(1) [OF assms(1)] show ?thesis
    by (simp add: Let_def picked_length)
qed

lemma mixed_page_rows:
  assumes pk: "pk c_ID (cd_cards db)" and lim: "limit \<le> max_int32"
    and b: "buildMixedBatch E db p u d dn window order newRem tot cur limit now la k = Inr b"
  obtains rows where "map qca_CardID (b_Cards b) = map qr_CardID rows" "map qca_Unseen (b_Cards b) = map qr_Unseen rows"
    "\<forall>q\<in>set rows. servable E db (mixed_params order (hashSeedFor (se_uuid E) u window) u d (sd_Start window)
       (pg_timestamp now) la k newRem tot) q"
    "distinct (map qr_CardID rows)" "int (length rows) \<le> limit"
proof -
  let ?seed = "hashSeedFor (se_uuid E) u window"
  let ?S = "servable E db (mixed_params order ?seed u d (sd_Start window) (pg_timestamp now) la k newRem tot)"
  from b obtain rs ns where
    rs: "ListReviewCardsForStudy E db order ?seed u d (sd_Start window) (pg_timestamp now) la tot (revKeyArg cur)
      (revCardIDArg cur) limit = Inr rs"
    and ns: "ListNewCardsForStudy E db u d k newRem (newKeyArg cur) (newCardIDArg cur) limit = Inr ns"
    and c: "(let ps = interleave (int (length rs)) (int (length ns)) limit in
       ps = [] \<and> b_Cards b = [] \<or> renderQueueRows E db d dn p now (pick_rows ps rs ns) = Inr (b_Cards b))"
    by (auto simp: buildMixedBatch_def db_err_def bindE_eq_Inr Let_def split: if_splits)
  let ?ps = "interleave (int (length rs)) (int (length ns)) limit"
  let ?rows = "pick_rows ?ps rs ns"
  note R = review_rows_servable [OF rs] and N = new_rows_servable [OF ns]
  from mixed_picks [OF rs ns lim] have len: "int (length ?ps) = min limit (int (length rs) + int (length ns))"
    and cnt: "length (filter id ?ps) \<le> length rs" "length (filter Not ?ps) \<le> length ns" by (simp_all add: Let_def)
  have "\<forall>r\<in>set rs. \<not> qr_Unseen r" "\<forall>r\<in>set ns. qr_Unseen r" using R(2) N(2) by blast+
  note split = pick_rows_split [OF cnt this]
  have part: "q \<in> set (filter (\<lambda>r. \<not> qr_Unseen r) ?rows) \<or> q \<in> set (filter qr_Unseen ?rows)" if "q \<in> set ?rows" for q
    using that by simp
  have S: "?S q" if q: "q \<in> set ?rows" for q
    using part [OF q] R(1) N(1) unfolding split(1,2) by (auto dest!: in_set_takeD)
  have "distinct (map qr_CardID ?rows)"
  proof (rule distinct_by_parts [where p = qr_Unseen])
    show "distinct (map qr_CardID (filter qr_Unseen ?rows))"
      unfolding split(2) take_map [symmetric] by (rule distinct_take [OF query_distinct(2) [OF pk ns]])
    show "distinct (map qr_CardID (filter (\<lambda>r. \<not> qr_Unseen r) ?rows))"
      unfolding split(1) take_map [symmetric] by (rule distinct_take [OF query_distinct(1) [OF pk rs]])
    have "qr_CardID q \<noteq> qr_CardID q'" if "q \<in> set ?rows" "q' \<in> set ?rows" "qr_Unseen q" "\<not> qr_Unseen q'" for q q'
      using servable_card [OF S [OF that(1)]] servable_card [OF S [OF that(2)]] that(3,4) by metis
    then show "qr_CardID ` set (filter qr_Unseen ?rows) \<inter> qr_CardID ` set (filter (\<lambda>x. \<not> qr_Unseen x) ?rows) = {}"
      by auto
  qed
  moreover have "int (length ?rows) \<le> limit" using split(3) len by simp
  moreover have "map qca_CardID (b_Cards b) = map qr_CardID ?rows" "map qca_Unseen (b_Cards b) = map qr_Unseen ?rows"
    using c renderQueueRows_Inr by (auto simp: Let_def)
  ultimately show thesis using S by (intro that [of ?rows]) simp_all
qed

lemma BuildBatch_rows:
  assumes pk: "pk c_ID (cd_cards db)" and lim: "limit \<le> max_int32"
    and b: "BuildBatch E db p u d dn window s cur limit now extra = Inr b"
  obtains rows where "map qca_CardID (b_Cards b) = map qr_CardID rows" "map qca_Unseen (b_Cards b) = map qr_Unseen rows"
    "\<forall>q\<in>set rows. servable E db (day_params E u d window s now (allowances db u d window s extra)) q"
    "distinct (map qr_CardID rows)" "int (length rows) \<le> page_limit limit (snd (allowances db u d window s extra))"
proof -
  obtain newRem tot where a: "allowances db u d window s extra = (newRem, tot)" by (cases "allowances db u d window s extra")
  have l: "page_limit limit tot \<le> max_int32" using lim by (simp add: page_limit_def min_def)
  show thesis
  proof (cases "set_Priority s = PriorityMixed")
    case True
    with b have "buildMixedBatch E db p u d dn window (set_Order s) newRem tot cur (page_limit limit tot) now
         (set_LookAheadMinutes s) (set_ClassDay s) = Inr b" by (simp add: BuildBatch_modes [OF a])
    note page = this
    show thesis by (rule mixed_page_rows [OF pk l page]) (erule that, simp_all add: a day_params_def)
  next
    case False
    with b have "buildSingleBatch E db p u d dn window (set_Order s) (set_Priority s) newRem tot cur (page_limit limit tot) now
         (set_LookAheadMinutes s) (set_ClassDay s) = Inr b" by (simp add: BuildBatch_modes [OF a])
    note page = this
    show thesis by (rule single_page_rows [OF pk page]) (erule that, simp_all add: a day_params_def)
  qed
qed

lemma day_params_simps [simp]:
  "ldp_UserID (day_params E u d window s now a) = u" "ldp_DeckID (day_params E u d window s now a) = d"
  "ldp_StudyDayStart (day_params E u d window s now a) = sd_Start window"
  "ldp_Now (day_params E u d window s now a) = pg_timestamp now"
  "ldp_LookAheadMinutes (day_params E u d window s now a) = set_LookAheadMinutes s"
  "ldp_CurrentClassDay (day_params E u d window s now a) = set_ClassDay s"
  "ldp_NewRemaining (day_params E u d window s now a) = fst a" "ldp_RevRemaining (day_params E u d window s now a) = snd a"
  by (simp_all add: day_params_def mixed_params_def)

text \<open>C25: a study page, in every mode and for every cursor, serves each card at most once, and only cards of
  the deck that this user may study and that the deck page counts as waiting: not suspended, not buried,
  due (or never seen and unlocked by the class calendar) and not already studied today. No number of
  extra rounds reaches a locked lesson.\<close>

theorem BuildBatch_eligible:
  assumes "content_wf db" and "BuildBatch E db p u d dn window s cur limit now extra = Inr b" and "limit \<le> max_int32"
  shows "distinct (map qca_CardID (b_Cards b))
    \<and> (\<forall>q\<in>set (b_Cards b). \<exists>c\<in>set (cd_cards db). c_ID c = qca_CardID q \<and> c_DeckID c = d
         \<and> queue_eligible db u (sd_Start window) (pg_timestamp now) (set_LookAheadMinutes s) (set_ClassDay s) c
         \<and> (qca_Unseen q \<longleftrightarrow> state_of db u (c_ID c) = None))"
proof -
  from assms(1) have pk: "pk c_ID (cd_cards db)" by (simp add: content_wf_def content_keys_def)
  obtain rows where r: "map qca_CardID (b_Cards b) = map qr_CardID rows" "map qca_Unseen (b_Cards b) = map qr_Unseen rows"
    "\<forall>q\<in>set rows. servable E db (day_params E u d window s now (allowances db u d window s extra)) q"
    "distinct (map qr_CardID rows)" by (rule BuildBatch_rows [OF pk assms(3,2)])
  have "\<exists>c\<in>set (cd_cards db). c_ID c = qca_CardID q \<and> c_DeckID c = d
         \<and> queue_eligible db u (sd_Start window) (pg_timestamp now) (set_LookAheadMinutes s) (set_ClassDay s) c
         \<and> (qca_Unseen q \<longleftrightarrow> state_of db u (c_ID c) = None)" if q: "q \<in> set (b_Cards b)" for q
  proof -
    from q obtain i where i: "i < length (b_Cards b)" "q = b_Cards b ! i" by (auto simp: in_set_conv_nth)
    from arg_cong [OF r(1), of length] i have len: "i < length rows" by simp
    from arg_cong [OF r(1), of "\<lambda>l. l ! i"] arg_cong [OF r(2), of "\<lambda>l. l ! i"] i len
    have eq: "qca_CardID q = qr_CardID (rows ! i)" "qca_Unseen q = qr_Unseen (rows ! i)" by simp_all
    from len r(3) have "servable E db (day_params E u d window s now (allowances db u d window s extra)) (rows ! i)" by simp
    from servable_card [OF this] show ?thesis unfolding eq by (metis day_params_simps(1-6))
  qed
  with r(1,4) show ?thesis by simp
qed

definition in_review :: "content_db \<Rightarrow> uuid \<Rightarrow> uuid \<Rightarrow> bool" where
  "in_review db u i \<longleftrightarrow> (case state_of db u i of None \<Rightarrow> False | Some s \<Rightarrow> us_State s = 2)"

text \<open>C26: no page exceeds what is left of the day: never more never-seen cards than the new-card allowance,
  never more review cards than the day's total, never more cards than the page size, and, once the
  total is used up, nothing but cards in (re)learning.\<close>

theorem BuildBatch_within_budget:
  assumes "content_wf db" and "BuildBatch E db p u d dn window s cur limit now extra = Inr b" and "limit \<le> max_int32"
  shows "let (newRemaining, totalRemaining) = allowances db u d window s extra;
      new = length (filter qca_Unseen (b_Cards b));
      review = length (filter (\<lambda>q. in_review db u (qca_CardID q)) (b_Cards b))
    in int new \<le> max 0 newRemaining \<and> int review \<le> max 0 totalRemaining
       \<and> int (length (b_Cards b)) \<le> (if totalRemaining \<le> 0 then limit else min limit totalRemaining)
       \<and> (totalRemaining \<le> 0 \<longrightarrow> new = 0 \<and> review = 0)"
proof -
  from assms(1) have pk: "pk c_ID (cd_cards db)" by (simp add: content_wf_def content_keys_def)
  let ?a = "allowances db u d window s extra"
  obtain rows where r: "map qca_CardID (b_Cards b) = map qr_CardID rows" "map qca_Unseen (b_Cards b) = map qr_Unseen rows"
    "\<forall>q\<in>set rows. servable E db (day_params E u d window s now ?a) q"
    "distinct (map qr_CardID rows)" "int (length rows) \<le> page_limit limit (snd ?a)"
    by (rule BuildBatch_rows [OF pk assms(3,2)])
  have len: "length (b_Cards b) = length rows" using arg_cong [OF r(1), of length] by simp
  have count: "length (filter (\<lambda>x. f (h x)) xs) = length (filter f (map h xs))" for f :: "'b \<Rightarrow> bool" and h :: "'a \<Rightarrow> 'b" and xs
    by (simp add: filter_map o_def)
  have new: "length (filter qca_Unseen (b_Cards b)) = length (filter qr_Unseen rows)"
    using arg_cong [OF r(2), of "\<lambda>l. length (filter id l)"] by (simp add: filter_map o_def)
  have "qr_State q = 2 \<longleftrightarrow> in_review db u (qr_CardID q)" if q: "q \<in> set rows" for q
  proof -
    from r(3) q have "servable E db (day_params E u d window s now ?a) q" by simp
    then show ?thesis
    proof (rule servable_card)
      fix c assume c: "c_ID c = qr_CardID q"
        "qr_Unseen q \<longleftrightarrow> state_of db (ldp_UserID (day_params E u d window s now ?a)) (c_ID c) = None"
        "\<And>st. state_of db (ldp_UserID (day_params E u d window s now ?a)) (c_ID c) = Some st \<Longrightarrow> qr_State q = us_State st"
      have "qr_State q = 0" if "qr_Unseen q"
        using r(3) q that score_unseen_free by (auto simp: servable_def)
      with c show ?thesis by (cases "state_of db u (c_ID c)") (simp_all add: in_review_def)
    qed
  qed
  then have "filter (\<lambda>q. in_review db u (qr_CardID q)) rows = filter (\<lambda>q. qr_State q = 2) rows" by (intro filter_cong) auto
  then have review: "length (filter (\<lambda>q. in_review db u (qca_CardID q)) (b_Cards b)) = length (filter (\<lambda>q. qr_State q = 2) rows)"
    using arg_cong [OF r(1), of "\<lambda>l. length (filter (in_review db u) l)"] by (simp add: filter_map o_def)
  have zero: "snd ?a \<le> 0 \<Longrightarrow> fst ?a = 0" by (simp add: allowances_def Let_def)
  obtain nr tr where a: "?a = (nr, tr)" by (cases ?a)
  from servable_caps [OF pk r(3,4)] have c: "length (filter qr_Unseen rows) \<le> nat nr"
    "length (filter (\<lambda>q. qr_State q = 2) rows) \<le> nat tr" by (simp_all add: a)
  then have "int (length (filter qr_Unseen rows)) \<le> max 0 nr" "int (length (filter (\<lambda>q. qr_State q = 2) rows)) \<le> max 0 tr"
    by linarith+
  moreover have "length (filter qr_Unseen rows) = 0 \<and> length (filter (\<lambda>q. qr_State q = 2) rows) = 0" if "tr \<le> 0"
    using c zero that by (simp add: a)
  moreover have "int (length rows) \<le> (if tr \<le> 0 then limit else min limit tr)" using r(5) by (simp add: a page_limit_def)
  ultimately show ?thesis unfolding a new review len by (simp split: if_splits)
qed

end
