(* ===== verification/Study_Paging.thy ===== *)
theory Study_Paging
  imports Study_Batch_Lemmas "HOL-Library.Multiset"
begin

text \<open>
  Following the cursors of the study queue: on an unchanged database the fetches end, and together they
  serve every eligible card exactly once, in the single-query modes and in the mixed mode.
\<close>

section \<open>A paged fetch\<close>

text \<open>The client's loop: fetch, and while the page is not the last one go on with its cursor.\<close>

fun follow :: "('c \<Rightarrow> 'e + 'b) \<Rightarrow> ('b \<Rightarrow> 'f + 'c option) \<Rightarrow> nat \<Rightarrow> 'c \<Rightarrow> 'b list option" where
  "follow fetch onward 0 c = None"
| "follow fetch onward (Suc n) c =
     (case fetch c of
        Inl _ \<Rightarrow> None
      | Inr b \<Rightarrow>
          (case onward b of
             Inl _ \<Rightarrow> None
           | Inr None \<Rightarrow> Some [b]
           | Inr (Some c') \<Rightarrow> map_option (Cons b) (follow fetch onward n c')))"

locale pager =
  fixes fetch :: "'c \<Rightarrow> 'e + 'b" and onward :: "'b \<Rightarrow> 'f + 'c option" and items :: "'b \<Rightarrow> 'x list"
    and valid :: "'c \<Rightarrow> bool" and rest :: "'c \<Rightarrow> 'x list"
  assumes page: "valid c \<Longrightarrow> \<exists>b. fetch c = Inr b \<and>
      (onward b = Inr None \<and> mset (items b) = mset (rest c)
       \<or> (\<exists>c'. onward b = Inr (Some c') \<and> valid c' \<and> items b \<noteq> [] \<and> mset (rest c) = mset (items b) + mset (rest c')))"
begin

lemma follow_serves:
  "valid c \<Longrightarrow> length (rest c) < n \<Longrightarrow>
     \<exists>bs. follow fetch onward n c = Some bs \<and> mset (concat (map items bs)) = mset (rest c)"
proof (induction n arbitrary: c)
  case (Suc n)
  from page [OF Suc.prems(1)] obtain b where b: "fetch c = Inr b"
    "onward b = Inr None \<and> mset (items b) = mset (rest c)
       \<or> (\<exists>c'. onward b = Inr (Some c') \<and> valid c' \<and> items b \<noteq> [] \<and> mset (rest c) = mset (items b) + mset (rest c'))"
    by blast
  from b(2) show ?case
  proof (elim disjE exE conjE)
    fix c' assume c: "onward b = Inr (Some c')" "valid c'" "items b \<noteq> []" "mset (rest c) = mset (items b) + mset (rest c')"
    from arg_cong [OF c(4), of size] have "length (rest c) = length (items b) + length (rest c')" by simp
    with c(3) Suc.prems(2) have "length (rest c') < n" by (cases "items b") auto
    from Suc.IH [OF c(2) this] obtain bs where "follow fetch onward n c' = Some bs"
      "mset (concat (map items bs)) = mset (rest c')" by blast
    with b(1) c show ?thesis by (intro exI [of _ "b # bs"]) simp
  qed (use b in simp)
qed simp

end

section \<open>Keyset positions\<close>

lemma keyset_drop:
  fixes f :: "'a \<Rightarrow> 'k::linorder"
  assumes "sorted (map f xs)" "distinct (map f xs)" "i < length xs"
  shows "filter (\<lambda>x. f (xs ! i) < f x) xs = drop (Suc i) xs"
proof -
  have "\<not> f (xs ! i) < f x" if x: "x \<in> set (take (Suc i) xs)" for x
  proof -
    from x obtain j where "j < Suc i" "x = xs ! j" using assms(3) by (auto simp: in_set_conv_nth)
    with assms(1,3) show ?thesis by (auto simp: not_less sorted_iff_nth_mono)
  qed
  then have "filter (\<lambda>x. f (xs ! i) < f x) (take (Suc i) xs) = []" by (simp add: filter_empty_conv)
  moreover have "f (xs ! i) < f x" if x: "x \<in> set (drop (Suc i) xs)" for x
  proof -
    from x obtain j where j: "i < j" "j < length xs" "x = xs ! j"
      by (auto simp: in_set_conv_nth) (metis add_Suc less_add_Suc1 less_diff_conv add.commute)
    with assms(1) have "f (xs ! i) \<le> f x" by (auto simp: sorted_iff_nth_mono)
    moreover have "f (xs ! i) \<noteq> f x" using assms(2) j by (auto simp: distinct_conv_nth)
    ultimately show ?thesis by simp
  qed
  then have "filter (\<lambda>x. f (xs ! i) < f x) (drop (Suc i) xs) = drop (Suc i) xs" by (simp add: filter_id_conv)
  ultimately show ?thesis by (metis append_self_conv2 append_take_drop_id filter_append)
qed

text \<open>Going on after row \<open>i\<close> of what is left drops the rows up to it.\<close>

lemma keyset_next:
  fixes f :: "'a \<Rightarrow> 'k::linorder"
  assumes "sorted (map f xs)" "distinct (map f xs)" "i < length (filter p xs)"
    and up: "\<And>x y. p x \<Longrightarrow> f x < f y \<Longrightarrow> p y"
  shows "filter (\<lambda>x. f (filter p xs ! i) < f x) xs = drop (Suc i) (filter p xs)"
proof -
  let ?ys = "filter p xs"
  have "?ys ! i \<in> set ?ys" using assms(3) by (rule nth_mem)
  then have px: "p (?ys ! i)" by simp
  have "filter (\<lambda>x. f (?ys ! i) < f x) xs = filter (\<lambda>x. f (?ys ! i) < f x) ?ys"
    unfolding filter_filter by (rule filter_cong [OF refl]) (use up [OF px] in blast)
  also have "\<dots> = drop (Suc i) ?ys"
    by (rule keyset_drop [OF sorted_filter [OF assms(1)] _ assms(3)]) (simp add: distinct_map_filter assms(2))
  finally show ?thesis .
qed

lemma row_after_iff: "row_after q key (Some u) \<longleftrightarrow> (pg_rank key, u) < q"
  by (cases q) (auto simp: row_after_def less_prod_def)

section \<open>Rendering every row\<close>

lemma fields_of_type:
  assumes "nt \<in> ids"
  shows "filter (\<lambda>f. fd_NoteTypeID f = nt) (sort_key k (filter (\<lambda>f. fd_NoteTypeID f \<in> ids) fs))
    = sort_key k (filter (\<lambda>f. fd_NoteTypeID f = nt) fs)"
proof -
  have "filter (\<lambda>f. fd_NoteTypeID f \<in> ids \<and> fd_NoteTypeID f = nt) fs = filter (\<lambda>f. fd_NoteTypeID f = nt) fs"
    by (rule filter_cong) (use assms in auto)
  then show ?thesis by (simp add: filter_sort filter_filter)
qed

lemma mapE_total: "(\<forall>x\<in>set xs. \<exists>y. f x = Inr y) \<Longrightarrow> \<exists>ys. mapE f xs = Inr ys"
  by (induction xs) auto

lemma mapE_cong: "(\<And>x. x \<in> set xs \<Longrightarrow> f x = g x) \<Longrightarrow> mapE f xs = mapE g xs"
  by (induction xs) auto

lemma renderQueueRows_total:
  assumes "\<forall>q\<in>set rows. \<exists>x. renderQueueRows E db d dn p now [q] = Inr x" "rows \<noteq> []"
  shows "\<exists>cards. renderQueueRows E db d dn p now rows = Inr cards"
proof -
  let ?k = "\<lambda>f. (fd_NoteTypeID f, fd_Ordinal f)"
  let ?fs = "\<lambda>nt. sort_key ?k (filter (\<lambda>f. fd_NoteTypeID f = nt) (cd_fields db))"
  let ?res = "map_of (rev (map (\<lambda>m. (mr_Filename m, mr_Sha256 m)) (filter (\<lambda>m. mr_DeckID m = d) (cd_media db))))"
  let ?r = "render_row E ?fs ?res dn p now"
  have same_row: "render_row E F ?res dn p now q = render_row E F' ?res dn p now q"
    if "F (qr_NoteTypeID q) = F' (qr_NoteTypeID q)" for F F' q
    using that by (simp add: render_row_def)
  have unfold: "renderQueueRows E db d dn p now qs = mapE ?r qs"
    if "\<not> cd_refuses db ''ListFieldsForNoteTypes''" "\<not> cd_refuses db ''ListMediaRefsForDeck''" for qs
  proof -
    have "mapE (render_row E (\<lambda>nt. filter (\<lambda>f. fd_NoteTypeID f = nt) (sort_key ?k
        (filter (\<lambda>f. fd_NoteTypeID f \<in> qr_NoteTypeID ` set qs) (cd_fields db)))) ?res dn p now) qs = mapE ?r qs"
      by (rule mapE_cong) (auto intro!: same_row fields_of_type)
    with that show ?thesis
      by (simp add: renderQueueRows_def ListFieldsForNoteTypes_def ListMediaRefsForDeck_def run_c_def db_err_def)
  qed
  from assms obtain q x where q: "q \<in> set rows" "renderQueueRows E db d dn p now [q] = Inr x" by (cases rows) auto
  then have go: "\<not> cd_refuses db ''ListFieldsForNoteTypes''" "\<not> cd_refuses db ''ListMediaRefsForDeck''"
    by (auto simp: renderQueueRows_def ListFieldsForNoteTypes_def ListMediaRefsForDeck_def db_err_def bindE_eq_Inr)
  have "\<exists>y. ?r q = Inr y" if "q \<in> set rows" for q
    using assms(1) that by (auto simp: unfold [OF go] bindE_eq_Inr)
  then show ?thesis unfolding unfold [OF go] by (intro mapE_total) blast
qed

section \<open>The single-query modes\<close>

definition onward_of :: "uuid_text \<Rightarrow> Batch \<Rightarrow> cursor_error + Cursor option" where
  "onward_of t b = (if b_Exhausted b then Inr None else bindE (DecodeCursor t (b_Cursor b)) (\<lambda>c. Inr (Some c)))"

text \<open>What following the cursors relies on: the database answers, and every servable card renders.\<close>

definition paging_ok :: "study_env \<Rightarrow> content_db \<Rightarrow> Params \<Rightarrow> uuid \<Rightarrow> uuid \<Rightarrow> string \<Rightarrow> StudyDay \<Rightarrow> DeckSettings \<Rightarrow> int
    \<Rightarrow> gotime \<Rightarrow> int \<Rightarrow> bool" where
  "paging_ok E db p u d dn window s limit now extra \<longleftrightarrow>
     pk c_ID (cd_cards db) \<and> uuid_text_ok (se_uuid E) \<and> no_refusals db \<and> 0 < limit \<and> 2 * limit \<le> max_int32
     \<and> (\<forall>q. servable E db (day_params E u d window s now (allowances db u d window s extra)) q \<longrightarrow>
          (\<exists>x. renderQueueRows E db d dn p now [q] = Inr x))"

definition single_params :: "study_env \<Rightarrow> uuid \<Rightarrow> uuid \<Rightarrow> StudyDay \<Rightarrow> DeckSettings \<Rightarrow> gotime \<Rightarrow> int \<times> int \<Rightarrow> int \<Rightarrow> Cursor
    \<Rightarrow> ListDueCardsForStudyParams" where
  "single_params E u d window s now a limit cur =
     \<lparr>ldp_Priority = set_Priority s, ldp_RevOrder = set_Order s, ldp_HashSeed = hashSeedFor (se_uuid E) u window,
      ldp_UserID = u, ldp_DeckID = d, ldp_StudyDayStart = sd_Start window, ldp_Now = pg_timestamp now,
      ldp_LookAheadMinutes = set_LookAheadMinutes s, ldp_RevRemaining = snd a, ldp_CurrentClassDay = set_ClassDay s,
      ldp_NewRemaining = fst a, ldp_CursorGroupBit = groupBitArg cur, ldp_CursorKey = keyArg cur,
      ldp_CursorCardID = cardIDArg cur, ldp_BatchSize = page_limit limit (snd a)\<rparr>"

lemma study_queue_cursor:
  "study_queue E db (single_params E u d window s now a limit c') = study_queue E db (single_params E u d window s now a limit c)"
  (is "study_queue E db ?P' = study_queue E db ?P")
proof -
  have "due_eligible E db ?P' = due_eligible E db ?P" "due_order ?P' = (due_order ?P :: scored_row \<Rightarrow> _)"
    by (rule ext, simp add: due_eligible_def due_order_def single_params_def)+
  then show ?thesis by (simp add: study_queue_def single_params_def)
qed

definition single_cursor :: "Cursor \<Rightarrow> bool" where
  "single_cursor c \<longleftrightarrow> c = zero_Cursor\<lparr>cur_AtStart := True\<rparr>
     \<or> (\<exists>g k i. c = zero_Cursor\<lparr>cur_GroupBit := g, cur_Key := k, cur_CardID := Some i\<rparr> \<and> in_range 32 g)"

lemma single_cursor_id: "single_cursor c \<Longrightarrow> \<exists>i. cardIDArg c = Some i"
  by (auto simp: single_cursor_def cardIDArg_def zero_Cursor_def)

lemma due_after_iff:
  assumes "ldp_CursorCardID P = Some i"
  shows "due_after P r \<longleftrightarrow> (ldp_CursorGroupBit P, (pg_rank (ldp_CursorKey P), i)) < due_order P r"
  by (auto simp: due_after_def due_order_def row_after_iff assms less_prod_def)

lemma due_order_distinct:
  "distinct (map qr_CardID xs) \<Longrightarrow> distinct (map (due_order P) (sort_key f xs))"
proof -
  assume "distinct (map qr_CardID xs)"
  then have "distinct xs" "inj_on qr_CardID (set xs)" by (simp_all add: distinct_map)
  moreover have "inj_on (due_order P) (set xs)"
    using calculation(2) by (auto simp: inj_on_def due_order_def row_position_def)
  ultimately show ?thesis by (simp add: distinct_map)
qed

lemma wrap32_length: "int n \<le> max_int32 \<Longrightarrow> wrap32 (int n) = int n"
  by (intro wrap32_id) (simp_all add: max_int32_def)

lemma page_limit_pos: "0 < limit \<Longrightarrow> 2 * limit \<le> max_int32 \<Longrightarrow> 0 < page_limit limit t \<and> 2 * page_limit limit t \<le> max_int32"
  by (simp add: page_limit_def min_def)

text \<open>The cards that are left after a cursor.\<close>

definition single_rest :: "study_env \<Rightarrow> content_db \<Rightarrow> uuid \<Rightarrow> uuid \<Rightarrow> StudyDay \<Rightarrow> DeckSettings \<Rightarrow> int \<Rightarrow> gotime \<Rightarrow> int \<Rightarrow> Cursor
    \<Rightarrow> uuid list" where
  "single_rest E db u d window s limit now extra cur =
     (let P = single_params E u d window s now (allowances db u d window s extra) limit cur
      in map qr_CardID (filter (due_after P) (study_queue E db P)))"

lemma single_page:
  assumes ok: "paging_ok E db p u d dn window s limit now extra" and mode: "set_Priority s \<noteq> PriorityMixed"
    and cur: "single_cursor cur"
  shows "\<exists>b. BuildBatch E db p u d dn window s cur limit now extra = Inr b \<and>
      (onward_of (se_uuid E) b = Inr None
         \<and> mset (map qca_CardID (b_Cards b)) = mset (single_rest E db u d window s limit now extra cur)
       \<or> (\<exists>c'. onward_of (se_uuid E) b = Inr (Some c') \<and> single_cursor c' \<and> map qca_CardID (b_Cards b) \<noteq> []
         \<and> mset (single_rest E db u d window s limit now extra cur)
            = mset (map qca_CardID (b_Cards b)) + mset (single_rest E db u d window s limit now extra c')))"
proof -
  obtain newRem tot where a: "allowances db u d window s extra = (newRem, tot)" by (cases "allowances db u d window s extra")
  let ?L = "page_limit limit tot"
  let ?params = "single_params E u d window s now (newRem, tot) limit"
  define P where "P = ?params cur"
  define Q where "Q = study_queue E db P"
  define R where "R = filter (due_after P) Q"
  from ok have pk: "pk c_ID (cd_cards db)" and t: "uuid_text_ok (se_uuid E)" and go: "no_refusals db"
    and L: "0 < ?L" "?L \<le> max_int32" using page_limit_pos [of limit tot] by (simp_all add: paging_ok_def)
  have rest: "single_rest E db u d window s limit now extra cur = map qr_CardID R"
    by (simp add: single_rest_def a Let_def P_def Q_def R_def)
  have list: "ListDueCardsForStudy E db P = Inr (map (\<lambda>r. (queue_row.truncate r, group_bit (ldp_Priority P) r)) (take (nat ?L) R))"
    using go L by (simp add: ListDueCardsForStudy_def run_c_def no_refusals_def R_def Q_def study_queue_def filter_sort
        filter_filter single_params_def P_def)
  have rows: "\<exists>cards. renderQueueRows E db d dn p now (map queue_row.truncate (take (nat ?L) R)) = Inr cards" if "R \<noteq> []"
  proof (rule renderQueueRows_total)
    show "\<forall>q\<in>set (map queue_row.truncate (take (nat ?L) R)). \<exists>x. renderQueueRows E db d dn p now [q] = Inr x"
    proof
      fix q assume "q \<in> set (map queue_row.truncate (take (nat ?L) R))"
      then have "servable E db P q" by (auto simp: R_def Q_def servable_def study_queue_def dest!: in_set_takeD)
      then have "servable E db (day_params E u d window s now (newRem, tot)) q"
        by (subst servable_cong [where Q = P]) (simp_all add: P_def single_params_def day_params_def mixed_params_def)
      with ok show "\<exists>x. renderQueueRows E db d dn p now [q] = Inr x" by (simp add: paging_ok_def a)
    qed
  qed (use that L in simp)
  have len: "wrap32 (int (length (take (nat ?L) R))) = int (length (take (nat ?L) R))"
    by (rule wrap32_length) (use L in simp)
  have exh: "wrap32 (int (length (take (nat ?L) R))) < ?L \<longleftrightarrow> length R < nat ?L" unfolding len using L by auto
  have build: "BuildBatch E db p u d dn window s cur limit now extra = Inr b \<longleftrightarrow>
      buildSingleBatch E db p u d dn window (set_Order s) (set_Priority s) newRem tot cur ?L now
        (set_LookAheadMinutes s) (set_ClassDay s) = Inr b" for b
    using go mode by (simp add: BuildBatch_modes [OF a] no_refusals_def)
  show ?thesis
  proof (cases "R = []")
    case True
    let ?b = "\<lparr>b_Cards = [], b_Cursor = [], b_Exhausted = True\<rparr>"
    have "BuildBatch E db p u d dn window s cur limit now extra = Inr ?b"
      unfolding build using list True L exh
      by (simp add: buildSingleBatch_def P_def single_params_def db_err_def Let_def)
    then show ?thesis by (intro exI [of _ ?b]) (simp add: onward_of_def rest True)
  next
    case False
    from rows [OF False] obtain cards where
      cards: "renderQueueRows E db d dn p now (map queue_row.truncate (take (nat ?L) R)) = Inr cards" by blast
    from renderQueueRows_Inr(1) [OF cards] have ids: "map qca_CardID cards = map qr_CardID (take (nat ?L) R)"
      by (simp add: o_def)
    define x where "x = last (take (nat ?L) R)"
    define c' where "c' = zero_Cursor\<lparr>cur_GroupBit := group_bit (ldp_Priority P) x, cur_Key := qr_SortKey x, cur_CardID := Some (qr_CardID x)\<rparr>"
    let ?e = "length R < nat ?L"
    let ?b = "\<lparr>b_Cards = cards, b_Cursor = (if ?e then [] else EncodeCursor (se_uuid E) c'), b_Exhausted = ?e\<rparr>"
    have ne: "take (nat ?L) R \<noteq> []" using False L by simp
    have b: "BuildBatch E db p u d dn window s cur limit now extra = Inr ?b"
      unfolding build using list ne cards exh
      by (simp add: buildSingleBatch_def P_def single_params_def db_err_def Let_def o_def last_map x_def c'_def)
    show ?thesis
    proof (cases ?e)
      case True
      with b ids show ?thesis by (intro exI [of _ ?b]) (simp add: onward_of_def rest)
    next
      case more: False
      have c': "single_cursor c'" unfolding single_cursor_def c'_def
        by (intro disjI2 exI conjI, rule refl) (simp add: group_bit_def in_range_def)
      from EncodeCursor_single [OF t, where g = "group_bit (ldp_Priority P) x" and k = "qr_SortKey x" and u = "qr_CardID x"]
      have dec: "onward_of (se_uuid E) ?b = Inr (Some c')"
        using more by (simp add: onward_of_def c'_def group_bit_def in_range_def)
      have x: "x = R ! (nat ?L - 1)" unfolding x_def using more L by (subst last_conv_nth) (auto simp: ne)
      have P': "single_rest E db u d window s limit now extra c' = map qr_CardID (filter (\<lambda>r. due_order P x < due_order P r) Q)"
      proof -
        have "study_queue E db (?params c') = Q"
          unfolding Q_def P_def by (rule study_queue_cursor)
        moreover have "due_after (?params c') = (\<lambda>r. due_order P x < due_order P r)"
          by (rule ext, subst due_after_iff [where i = "qr_CardID x"])
            (simp_all add: single_params_def c'_def cursor_args zero_Cursor_def due_order_def row_position_def P_def)
        ultimately show ?thesis by (simp add: single_rest_def a Let_def)
      qed
      obtain i where i: "ldp_CursorCardID P = Some i"
        using single_cursor_id [OF cur] by (auto simp: P_def single_params_def)
      have "filter (\<lambda>r. due_order P x < due_order P r) Q = drop (Suc (nat ?L - 1)) R"
        unfolding x R_def
      proof (rule keyset_next)
        show "sorted (map (due_order P) Q)" by (simp add: Q_def study_queue_def)
        show "distinct (map (due_order P) Q)"
          unfolding Q_def study_queue_def
          by (rule due_order_distinct) (simp add: distinct_map_filter scored_distinct [OF pk])
        show "nat ?L - 1 < length (filter (due_after P) Q)" using more L by (simp add: R_def)
        show "due_after P y" if "due_after P x" "due_order P x < due_order P y" for x y
          using that unfolding due_after_iff [OF i] by (rule less_trans)
      qed
      also have "\<dots> = drop (nat ?L) R" using L by simp
      finally have "single_rest E db u d window s limit now extra c' = map qr_CardID (drop (nat ?L) R)" unfolding P' by simp
      moreover have "mset (map qr_CardID R) = mset (map qr_CardID (take (nat ?L) R)) + mset (map qr_CardID (drop (nat ?L) R))"
        by (metis append_take_drop_id map_append mset_append)
      ultimately show ?thesis
        using b c' dec ids ne by (intro exI [of _ ?b] conjI disjI2 exI [of _ c']) (simp_all add: rest)
    qed
  qed
qed

section \<open>The mixed mode\<close>

definition mixed_cursor :: "Cursor \<Rightarrow> bool" where
  "mixed_cursor c \<longleftrightarrow> c = zero_Cursor\<lparr>cur_AtStart := True\<rparr>
     \<or> (\<exists>a k u b l v. c = zero_Cursor\<lparr>cur_Mixed := True,
          cur_RevAtStart := a, cur_RevKey := k, cur_RevCardID := u,
          cur_NewAtStart := b, cur_NewKey := l, cur_NewCardID := v\<rparr> \<and> sub_canonical a k u \<and> sub_canonical b l v)"

lemma mixed_cursor_ids: "mixed_cursor c \<Longrightarrow> (\<exists>i. revCardIDArg c = Some i) \<and> (\<exists>i. newCardIDArg c = Some i)"
  by (auto simp: mixed_cursor_def cursor_args zero_Cursor_def sub_canonical_def)

lemma carry_canonical:
  assumes "mixed_cursor c"
  shows "carryRevCursor c = (a, k, u) \<Longrightarrow> sub_canonical a k u"
    "carryNewCursor c = (a, k, u) \<Longrightarrow> sub_canonical a k u"
  using assms by (auto simp: mixed_cursor_def carryRevCursor_def carryNewCursor_def zero_Cursor_def sub_canonical_def split: if_splits)

definition rev_queue :: "study_env \<Rightarrow> content_db \<Rightarrow> uuid \<Rightarrow> uuid \<Rightarrow> StudyDay \<Rightarrow> DeckSettings \<Rightarrow> gotime \<Rightarrow> int \<Rightarrow> scored_row list" where
  "rev_queue E db u d window s now revRem =
     (let seed = hashSeedFor (se_uuid E) u window
      in sort_key row_position (filter (review_eligible E db (set_Order s) seed u d (sd_Start window) (pg_timestamp now)
           (set_LookAheadMinutes s) revRem) (scored E db (set_Order s) seed u d)))"

definition new_queue :: "study_env \<Rightarrow> content_db \<Rightarrow> uuid \<Rightarrow> uuid \<Rightarrow> DeckSettings \<Rightarrow> int \<Rightarrow> scored_row list" where
  "new_queue E db u d s newRem =
     sort_key row_position (filter (new_eligible E db u d (set_ClassDay s) newRem) (scored E db RevOrderDue [] u d))"

definition after_rev :: "Cursor \<Rightarrow> 'a queue_row_scheme \<Rightarrow> bool" where
  "after_rev c r = row_after (row_position r) (revKeyArg c) (revCardIDArg c)"

definition after_new :: "Cursor \<Rightarrow> 'a queue_row_scheme \<Rightarrow> bool" where
  "after_new c r = row_after (row_position r) (newKeyArg c) (newCardIDArg c)"

definition mixed_rest :: "study_env \<Rightarrow> content_db \<Rightarrow> uuid \<Rightarrow> uuid \<Rightarrow> StudyDay \<Rightarrow> DeckSettings \<Rightarrow> gotime \<Rightarrow> int \<Rightarrow> Cursor \<Rightarrow> uuid list" where
  "mixed_rest E db u d window s now extra c =
     (let (newRem, revRem) = allowances db u d window s extra
      in map qr_CardID (filter (after_rev c) (rev_queue E db u d window s now revRem))
         @ map qr_CardID (filter (after_new c) (new_queue E db u d s newRem)))"

text \<open>Both halves of a mixed cursor move past what was taken, or stay where they were.\<close>

lemma row_position_distinct_sorted:
  "distinct (map qr_CardID xs) \<Longrightarrow> distinct (map row_position (sort_key f xs))"
proof -
  assume d: "distinct (map qr_CardID xs)"
  then have "distinct (map row_position xs)" by (rule row_position_distinct)
  then have "distinct xs" "inj_on row_position (set xs)" by (simp_all add: distinct_map)
  then show ?thesis by (simp add: distinct_map)
qed

lemma after_rev_next:
  fixes Q :: "'a queue_row_scheme list"
  assumes "sorted (map row_position Q)" "distinct (map row_position Q)" "mixed_cursor c"
    and "0 < n" "n \<le> length (filter (after_rev c) Q)"
    and "q = row_position (filter (after_rev c) Q ! (n - 1))" "\<And>r :: 'a queue_row_scheme. after_rev c' r \<longleftrightarrow> q < row_position r"
  shows "filter (after_rev c') Q = drop n (filter (after_rev c) Q)"
proof -
  from mixed_cursor_ids [OF assms(3)] obtain i where i: "revCardIDArg c = Some i" by blast
  have "after_rev c' = (\<lambda>r :: 'a queue_row_scheme. row_position (filter (after_rev c) Q ! (n - 1)) < row_position r)"
    by (rule ext) (simp add: assms(6,7))
  moreover have "filter (\<lambda>r. row_position (filter (after_rev c) Q ! (n - 1)) < row_position r) Q
      = drop (Suc (n - 1)) (filter (after_rev c) Q)"
    by (rule keyset_next [OF assms(1,2)]) (use assms(4,5) in \<open>auto simp: after_rev_def i row_after_iff intro: less_trans\<close>)
  ultimately show ?thesis using assms(4) by simp
qed

lemma after_new_next:
  fixes Q :: "'a queue_row_scheme list"
  assumes "sorted (map row_position Q)" "distinct (map row_position Q)" "mixed_cursor c"
    and "0 < n" "n \<le> length (filter (after_new c) Q)"
    and "q = row_position (filter (after_new c) Q ! (n - 1))" "\<And>r :: 'a queue_row_scheme. after_new c' r \<longleftrightarrow> q < row_position r"
  shows "filter (after_new c') Q = drop n (filter (after_new c) Q)"
proof -
  from mixed_cursor_ids [OF assms(3)] obtain i where i: "newCardIDArg c = Some i" by blast
  have "after_new c' = (\<lambda>r :: 'a queue_row_scheme. row_position (filter (after_new c) Q ! (n - 1)) < row_position r)"
    by (rule ext) (simp add: assms(6,7))
  moreover have "filter (\<lambda>r. row_position (filter (after_new c) Q ! (n - 1)) < row_position r) Q
      = drop (Suc (n - 1)) (filter (after_new c) Q)"
    by (rule keyset_next [OF assms(1,2)]) (use assms(4,5) in \<open>auto simp: after_new_def i row_after_iff intro: less_trans\<close>)
  ultimately show ?thesis using assms(4) by simp
qed

lemma next_mixed_rev:
  "0 < r \<Longrightarrow> after_rev (next_mixed c rs ns r n) x \<longleftrightarrow> row_position (rs ! (r - 1)) < row_position x"
  "after_rev (next_mixed c rs ns 0 n) x \<longleftrightarrow> after_rev c x"
  by (simp_all add: next_mixed_def after_rev_def cursor_args zero_Cursor_def row_after_iff row_position_def
      carryRevCursor_def split: prod.splits)

lemma next_mixed_new:
  "0 < n \<Longrightarrow> after_new (next_mixed c rs ns r n) x \<longleftrightarrow> row_position (ns ! (n - 1)) < row_position x"
  "after_new (next_mixed c rs ns r 0) x \<longleftrightarrow> after_new c x"
  by (simp_all add: next_mixed_def after_new_def cursor_args zero_Cursor_def row_after_iff row_position_def
      carryNewCursor_def split: prod.splits)

lemma next_mixed_cursor:
  assumes "mixed_cursor c"
  shows "mixed_cursor (next_mixed c rs ns r n)"
proof -
  obtain ra rk ri where rev: "(if r > 0 then (False, qr_SortKey (rs ! (r - 1)), Some (qr_CardID (rs ! (r - 1))))
      else carryRevCursor c) = (ra, rk, ri)" by (rule prod_cases3)
  obtain na nk ni where new: "(if n > 0 then (False, qr_SortKey (ns ! (n - 1)), Some (qr_CardID (ns ! (n - 1))))
      else carryNewCursor c) = (na, nk, ni)" by (rule prod_cases3)
  have "sub_canonical ra rk ri" using rev carry_canonical(1) [OF assms] by (cases "r > 0") (auto simp: sub_canonical_def)
  moreover have "sub_canonical na nk ni" using new carry_canonical(2) [OF assms] by (cases "n > 0") (auto simp: sub_canonical_def)
  moreover have "next_mixed c rs ns r n = zero_Cursor\<lparr>cur_Mixed := True, cur_RevAtStart := ra, cur_RevKey := rk,
      cur_RevCardID := ri, cur_NewAtStart := na, cur_NewKey := nk, cur_NewCardID := ni\<rparr>"
    unfolding next_mixed_def rev new by simp
  ultimately show ?thesis unfolding mixed_cursor_def by blast
qed

lemma map_key_by_parts:
  "mset (map f xs) = mset (map f (filter p xs)) + mset (map f (filter (\<lambda>x. \<not> p x) xs))"
  by (induction xs) auto

lemma rev_queue_sorted:
  assumes "pk c_ID (cd_cards db)"
  shows "sorted (map row_position (rev_queue E db u d window s now revRem))"
    "distinct (map row_position (rev_queue E db u d window s now revRem))"
    "sorted (map row_position (new_queue E db u d s newRem))" "distinct (map row_position (new_queue E db u d s newRem))"
  by (auto simp: rev_queue_def new_queue_def Let_def distinct_map_filter scored_distinct [OF assms]
      intro!: row_position_distinct_sorted)

lemma ListReviewCardsForStudy_page:
  assumes "no_refusals db" "0 \<le> L"
  shows "ListReviewCardsForStudy E db (set_Order s) (hashSeedFor (se_uuid E) u window) u d (sd_Start window)
      (pg_timestamp now) (set_LookAheadMinutes s) revRem (revKeyArg c) (revCardIDArg c) L
    = Inr (map queue_row.truncate (take (nat L) (filter (after_rev c) (rev_queue E db u d window s now revRem))))"
proof -
  have "after_rev c = (\<lambda>r :: scored_row. row_after (row_position r) (revKeyArg c) (revCardIDArg c))"
    by (rule ext) (simp add: after_rev_def)
  with assms show ?thesis
    by (simp add: ListReviewCardsForStudy_def run_c_def no_refusals_def rev_queue_def Let_def filter_sort filter_filter)
qed

lemma ListNewCardsForStudy_page:
  assumes "no_refusals db" "0 \<le> L"
  shows "ListNewCardsForStudy E db u d (set_ClassDay s) newRem (newKeyArg c) (newCardIDArg c) L
    = Inr (map queue_row.truncate (take (nat L) (filter (after_new c) (new_queue E db u d s newRem))))"
proof -
  have "after_new c = (\<lambda>r :: scored_row. row_after (row_position r) (newKeyArg c) (newCardIDArg c))"
    by (rule ext) (simp add: after_new_def)
  with assms show ?thesis
    by (simp add: ListNewCardsForStudy_def run_c_def no_refusals_def new_queue_def Let_def filter_sort filter_filter)
qed

text \<open>How a mixed page moves the two positions.\<close>

lemma mixed_advance:
  assumes pk: "pk c_ID (cd_cards db)" and c: "mixed_cursor c"
    and R: "R = filter (after_rev c) (rev_queue E db u d window s now revRem)"
    and N: "N = filter (after_new c) (new_queue E db u d s newRem)"
    and r: "r \<le> length (take l R)" and n: "n \<le> length (take l N)"
    and c': "c' = next_mixed c (map queue_row.truncate (take l R)) (map queue_row.truncate (take l N)) r n"
  shows "filter (after_rev c') (rev_queue E db u d window s now revRem) = drop r R"
    "filter (after_new c') (new_queue E db u d s newRem) = drop n N"
proof -
  note S = rev_queue_sorted [OF pk]
  show "filter (after_rev c') (rev_queue E db u d window s now revRem) = drop r R"
  proof (cases "r = 0")
    case True
    then have "after_rev c' = (after_rev c :: scored_row \<Rightarrow> bool)" unfolding c' by (intro ext) (simp add: next_mixed_rev)
    with True R show ?thesis by simp
  next
    case False
    with r have le: "r \<le> length R" "r - 1 < length (take l R)" by auto
    then have q: "row_position (map queue_row.truncate (take l R) ! (r - 1)) = row_position (R ! (r - 1))" by simp
    show ?thesis unfolding R
    proof (rule after_rev_next [OF S(1,2) c])
      show "row_position (R ! (r - 1)) = row_position (filter (after_rev c) (rev_queue E db u d window s now revRem) ! (r - 1))" by (simp add: R)
    qed (use False le q in \<open>simp_all add: R [symmetric] c' next_mixed_rev(1)\<close>)
  qed
  show "filter (after_new c') (new_queue E db u d s newRem) = drop n N"
  proof (cases "n = 0")
    case True
    then have "after_new c' = (after_new c :: scored_row \<Rightarrow> bool)" unfolding c' by (intro ext) (simp add: next_mixed_new)
    with True N show ?thesis by simp
  next
    case False
    with n have le: "n \<le> length N" "n - 1 < length (take l N)" by auto
    then have q: "row_position (map queue_row.truncate (take l N) ! (n - 1)) = row_position (N ! (n - 1))" by simp
    show ?thesis unfolding N
    proof (rule after_new_next [OF S(3,4) c])
      show "row_position (N ! (n - 1)) = row_position (filter (after_new c) (new_queue E db u d s newRem) ! (n - 1))" by (simp add: N)
    qed (use False le q in \<open>simp_all add: N [symmetric] c' next_mixed_new(1)\<close>)
  qed
qed

lemma mixed_page:
  assumes ok: "paging_ok E db p u d dn window s limit now extra" and mode: "set_Priority s = PriorityMixed"
    and cur: "mixed_cursor cur"
  shows "\<exists>b. BuildBatch E db p u d dn window s cur limit now extra = Inr b \<and>
      (onward_of (se_uuid E) b = Inr None
         \<and> mset (map qca_CardID (b_Cards b)) = mset (mixed_rest E db u d window s now extra cur)
       \<or> (\<exists>c'. onward_of (se_uuid E) b = Inr (Some c') \<and> mixed_cursor c' \<and> map qca_CardID (b_Cards b) \<noteq> []
         \<and> mset (mixed_rest E db u d window s now extra cur)
            = mset (map qca_CardID (b_Cards b)) + mset (mixed_rest E db u d window s now extra c')))"
proof -
  obtain newRem tot where a: "allowances db u d window s extra = (newRem, tot)" by (cases "allowances db u d window s extra")
  define L where "L = page_limit limit tot"
  define R where "R = filter (after_rev cur) (rev_queue E db u d window s now tot)"
  define N where "N = filter (after_new cur) (new_queue E db u d s newRem)"
  define rs where "rs = map queue_row.truncate (take (nat L) R)"
  define ns where "ns = map queue_row.truncate (take (nat L) N)"
  define ps where "ps = interleave (int (length rs)) (int (length ns)) L"
  define r where "r = length (filter id ps)"
  define n where "n = length (filter Not ps)"
  define rows where "rows = pick_rows ps rs ns"
  define exh where "exh \<longleftrightarrow> length R < nat L \<and> length N < nat L \<and> length R + length N \<le> nat L"
  from ok have pk: "pk c_ID (cd_cards db)" and t: "uuid_text_ok (se_uuid E)" and go: "no_refusals db"
    and L: "0 < L" "2 * L \<le> max_int32" using page_limit_pos [of limit tot] by (simp_all add: paging_ok_def L_def)
  then have Lm: "L \<le> max_int32" "0 \<le> L" by (simp_all add: max_int32_def)
  have rest: "mixed_rest E db u d window s now extra cur = map qr_CardID R @ map qr_CardID N"
    by (simp add: mixed_rest_def a R_def N_def)
  note RL = ListReviewCardsForStudy_page [OF go Lm(2), of E s u window d now tot cur, folded R_def, folded rs_def]
  note NL = ListNewCardsForStudy_page [OF go Lm(2), of E u d s newRem cur, folded N_def, folded ns_def]
  have len: "length ps = min (nat L) (length rs + length ns)" "r \<le> length rs" "n \<le> length ns"
    using mixed_picks [OF RL NL Lm(1)] L by (auto simp: Let_def ps_def r_def n_def)
  have unseen: "\<forall>q\<in>set rs. \<not> qr_Unseen q" "\<forall>q\<in>set ns. qr_Unseen q"
    using review_rows_servable(2) [OF RL] new_rows_servable(2) [OF NL] by blast+
  note split = pick_rows_split [OF len(2,3) [unfolded r_def n_def] unseen, folded rows_def r_def n_def]
  have rn: "length ps = r + n" unfolding r_def n_def by (induction ps) auto
  have rL: "min r (nat L) = r" "min n (nat L) = n" using len(2,3) by (auto simp: rs_def ns_def min_def split: if_splits)
  have ids: "mset (map qr_CardID rows) = mset (map qr_CardID (take r R)) + mset (map qr_CardID (take n N))"
    using map_key_by_parts [of qr_CardID rows qr_Unseen]
    by (simp add: split rs_def ns_def take_map o_def add.commute rL)
  have render: "\<exists>cards. renderQueueRows E db d dn p now rows = Inr cards" if "rows \<noteq> []"
  proof (rule renderQueueRows_total [OF _ that], rule ballI)
    fix q assume q: "q \<in> set rows"
    then have "q \<in> set (filter (\<lambda>r. \<not> qr_Unseen r) rows) \<or> q \<in> set (filter qr_Unseen rows)" by simp
    then have "q \<in> set rs \<or> q \<in> set ns" unfolding split(1,2) by (auto dest: in_set_takeD)
    then have "servable E db (day_params E u d window s now (newRem, tot)) q"
      using review_rows_servable(1) [OF RL] new_rows_servable(1) [OF NL] by (auto simp: day_params_def)
    with ok show "\<exists>x. renderQueueRows E db d dn p now [q] = Inr x" by (simp add: paging_ok_def a)
  qed
  have small: "int (length rs) \<le> L" "int (length ns) \<le> L" using L by (simp_all add: rs_def ns_def)
  then have w: "wrap32 (int (length rs)) = int (length rs)" "wrap32 (int (length ns)) = int (length ns)"
    "wrap32 (int (length rs) + int (length ns)) = int (length rs) + int (length ns)"
    using L Lm by (auto intro!: wrap32_id simp: max_int32_def)
  have exh_iff: "(int (length rs) < L \<and> int (length ns) < L \<and> int (length rs) + int (length ns) \<le> L) \<longleftrightarrow> exh"
    using L by (auto simp: exh_def rs_def ns_def min_def)
  have build: "BuildBatch E db p u d dn window s cur limit now extra = Inr b \<longleftrightarrow>
      buildMixedBatch E db p u d dn window (set_Order s) newRem tot cur L now
        (set_LookAheadMinutes s) (set_ClassDay s) = Inr b" for b
    using go mode by (simp add: BuildBatch_modes [OF a] no_refusals_def L_def)
  have all: "r = length R \<and> n = length N" if exh
    using that len rn by (auto simp: exh_def rs_def ns_def min_def split: if_splits)
  show ?thesis
  proof (cases "ps = []")
    case True
    with len(1) L have "rs = []" "ns = []" by (auto simp: min_def split: if_splits)
    then have RN: "R = []" "N = []" using L by (simp_all add: rs_def ns_def)
    then have e: exh using L by (simp add: exh_def)
    let ?b = "\<lparr>b_Cards = [], b_Cursor = [], b_Exhausted = True\<rparr>"
    have "BuildBatch E db p u d dn window s cur limit now extra = Inr ?b"
      unfolding build buildMixedBatch_def RL NL db_err_def
      using True e exh_iff by (simp add: w ps_def Let_def)
    then show ?thesis by (intro exI [of _ ?b]) (simp add: onward_of_def rest RN)
  next
    case False
    then have "rows \<noteq> []" using split(3) by auto
    from render [OF this] obtain cards where cards: "renderQueueRows E db d dn p now rows = Inr cards" by blast
    from renderQueueRows_Inr(1) [OF cards] have cids: "map qca_CardID cards = map qr_CardID rows" .
    define c' where "c' = next_mixed cur rs ns r n"
    let ?b = "\<lparr>b_Cards = cards, b_Cursor = (if exh then [] else EncodeCursor (se_uuid E) c'), b_Exhausted = exh\<rparr>"
    have b: "BuildBatch E db p u d dn window s cur limit now extra = Inr ?b"
      unfolding build buildMixedBatch_def RL NL db_err_def
      using False cards exh_iff by (simp add: w ps_def [symmetric] rows_def [symmetric] r_def [symmetric] n_def [symmetric] c'_def Let_def)
    show ?thesis
    proof (cases exh)
      case True
      with b ids all cids show ?thesis by (intro exI [of _ ?b]) (simp add: onward_of_def rest)
    next
      case more: False
      have c': "mixed_cursor c'" unfolding c'_def by (rule next_mixed_cursor [OF cur])
      have ne: "c' \<noteq> zero_Cursor\<lparr>cur_AtStart := True\<rparr>" by (simp add: c'_def next_mixed_def zero_Cursor_def split: prod.splits)
      with c' have "DecodeCursor (se_uuid E) (EncodeCursor (se_uuid E) c') = Inr c'"
        by (intro DecodeCursor_EncodeCursor [OF t]) (auto simp: mixed_cursor_def cursor_canonical_def)
      with more have dec: "onward_of (se_uuid E) ?b = Inr (Some c')" by (simp add: onward_of_def)
      have rest': "mixed_rest E db u d window s now extra c' = map qr_CardID (drop r R) @ map qr_CardID (drop n N)"
        using mixed_advance [OF pk cur R_def N_def, of r "nat L" n c'] len(2,3)
        by (simp add: mixed_rest_def a c'_def rs_def ns_def)
      have parts: "mset (map qr_CardID xs) = mset (map qr_CardID (take k xs)) + mset (map qr_CardID (drop k xs))"
        for k and xs :: "scored_row list" by (metis append_take_drop_id map_append mset_append)
      have "mset (mixed_rest E db u d window s now extra cur)
         = mset (map qca_CardID cards) + mset (mixed_rest E db u d window s now extra c')"
        unfolding rest rest' cids ids mset_append using parts [of R r] parts [of N n] by (simp add: ac_simps)
      then show ?thesis
        using b c' dec cids \<open>rows \<noteq> []\<close> by (intro exI [of _ ?b] conjI disjI2 exI [of _ c']) simp_all
    qed
  qed
qed

section \<open>The whole session\<close>

interpretation single_pages: pager "\<lambda>cur. BuildBatch E db p u d dn window s cur limit now extra" "onward_of (se_uuid E)"
    "\<lambda>b. map qca_CardID (b_Cards b)"
    "\<lambda>cur. paging_ok E db p u d dn window s limit now extra \<and> set_Priority s \<noteq> PriorityMixed \<and> single_cursor cur"
    "single_rest E db u d window s limit now extra"
  for E db p u d dn window s limit now extra
  by unfold_locales (use single_page in blast)

interpretation mixed_pages: pager "\<lambda>cur. BuildBatch E db p u d dn window s cur limit now extra" "onward_of (se_uuid E)"
    "\<lambda>b. map qca_CardID (b_Cards b)"
    "\<lambda>cur. paging_ok E db p u d dn window s limit now extra \<and> set_Priority s = PriorityMixed \<and> mixed_cursor cur"
    "mixed_rest E db u d window s now extra"
  for E db p u d dn window s limit now extra
  by unfold_locales (use mixed_page in blast)

text \<open>The keys are numbers above minus infinity, as Postgres' casts and \<open>md5\<close> make them.\<close>

definition keys_ok :: "queue_keys \<Rightarrow> bool" where
  "keys_ok K \<longleftrightarrow> (\<forall>i. pg_rank flt_neg_inf < pg_rank (qk_of_int K i)) \<and> (\<forall>t. pg_rank flt_neg_inf < pg_rank (qk_epoch K t))
     \<and> (\<forall>u s. pg_rank flt_neg_inf < pg_rank (qk_md5 K u s))"

lemma scored_key_ok:
  "keys_ok (se_keys E) \<Longrightarrow> r \<in> set (scored E db order seed u d) \<Longrightarrow> pg_rank flt_neg_inf < fst (row_position r)"
  by (elim in_scored) (auto simp: score_def Let_def row_position_def keys_ok_def new_card_key_def rev_key_def split: option.splits)

abbreviation start_cursor :: Cursor where "start_cursor \<equiv> zero_Cursor\<lparr>cur_AtStart := True\<rparr>"

lemma scored_length: "length (scored E db order seed u d) \<le> length (cd_cards db)"
proof -
  have "length (List.map_filter f xs) \<le> length xs" for f :: "note_card \<Rightarrow> scored_row option" and xs
    by (simp add: List.map_filter_def)
  also have "length (deck_cards db d) \<le> length (cd_cards db)" by (simp add: deck_cards_def)
  finally show ?thesis by (simp add: scored_def)
qed

lemma scored_sorted_distinct:
  assumes "pk c_ID (cd_cards db)"
  shows "distinct (map qr_CardID (sort_key f (filter q (scored E db order seed u d))))"
  using sort_take_distinct [OF scored_distinct [OF assms, of E order seed u d], where p = q and g = f
    and n = "length (sort_key f (filter q (scored E db order seed u d)))"] by simp

lemma servable_ids:
  "qr_CardID ` {q. servable E db P q}
     = qr_CardID ` {r \<in> set (scored E db (ldp_RevOrder P) (ldp_HashSeed P) (ldp_UserID P) (ldp_DeckID P)). due_eligible E db P r}"
proof -
  have "{q. servable E db P q} = queue_row.truncate ` {r \<in> set (scored E db (ldp_RevOrder P) (ldp_HashSeed P) (ldp_UserID P)
      (ldp_DeckID P)). due_eligible E db P r}" by (auto simp: servable_def)
  then show ?thesis by (simp add: image_image)
qed

lemma single_start:
  assumes pk: "pk c_ID (cd_cards db)"
    and ids_def: "ids = single_rest E db u d window s limit now extra start_cursor"
  shows "distinct ids" "length ids \<le> length (cd_cards db)"
    "set ids = qr_CardID ` {q. servable E db (day_params E u d window s now (allowances db u d window s extra)) q}"
proof -
  let ?a = "allowances db u d window s extra"
  let ?P = "single_params E u d window s now ?a limit start_cursor"
  let ?D = "day_params E u d window s now ?a"
  have "due_after ?P = (\<lambda>_. True)"
    by (rule ext) (auto simp: due_after_def single_params_def groupBitArg_def group_bit_def)
  then have ids: "ids = map qr_CardID (study_queue E db ?P)" by (simp add: ids_def single_rest_def Let_def)
  show "distinct ids" unfolding ids study_queue_def
    by (rule scored_sorted_distinct [OF pk])
  show "length ids \<le> length (cd_cards db)"
    unfolding ids study_queue_def using scored_length by (simp add: length_filter_le le_trans [OF length_filter_le])
  have "set ids = qr_CardID ` {r \<in> set (scored E db (ldp_RevOrder ?P) (ldp_HashSeed ?P) (ldp_UserID ?P) (ldp_DeckID ?P)). due_eligible E db ?P r}"
    unfolding ids study_queue_def by simp
  also have "\<dots> = qr_CardID ` {q. servable E db ?P q}" by (rule servable_ids [symmetric])
  also have "{q. servable E db ?P q} = {q. servable E db ?D q}"
    by (subst servable_cong [where Q = ?D]) (simp_all add: single_params_def day_params_def mixed_params_def)
  finally show "set ids = qr_CardID ` {q. servable E db ?D q}" .
qed

lemma mixed_start:
  assumes pk: "pk c_ID (cd_cards db)" and keys: "keys_ok (se_keys E)"
    and ids_def: "ids = mixed_rest E db u d window s now extra start_cursor"
  shows "distinct ids" "length ids \<le> length (cd_cards db)"
    "set ids = qr_CardID ` {q. servable E db (day_params E u d window s now (allowances db u d window s extra)) q}"
proof -
  obtain newRem tot where a: "allowances db u d window s extra = (newRem, tot)" by (cases "allowances db u d window s extra")
  let ?seed = "hashSeedFor (se_uuid E) u window"
  let ?D = "day_params E u d window s now (newRem, tot)"
  let ?rows = "scored E db (set_Order s) ?seed u d"
  let ?rev = "review_eligible E db (set_Order s) ?seed u d (sd_Start window) (pg_timestamp now) (set_LookAheadMinutes s) tot"
  let ?new = "new_eligible E db u d (set_ClassDay s) newRem"
  have after: "after_rev start_cursor r" "after_new start_cursor r" if "r \<in> set (scored E db order seed u d)" for r order seed
    using scored_key_ok [OF keys that] by (simp_all add: after_rev_def after_new_def cursor_args zero_Cursor_def row_after_def)
  have "filter (after_rev start_cursor) (rev_queue E db u d window s now tot) = rev_queue E db u d window s now tot"
    "filter (after_new start_cursor) (new_queue E db u d s newRem) = new_queue E db u d s newRem"
    using after by (auto simp: rev_queue_def new_queue_def Let_def filter_id_conv)
  then have ids: "ids = map qr_CardID (rev_queue E db u d window s now tot) @ map qr_CardID (new_queue E db u d s newRem)"
    by (simp add: ids_def mixed_rest_def a)
  have un: "set (filter ?new (scored E db RevOrderDue [] u d)) = set (filter ?new ?rows)"
    using scored_unseen by (auto simp: new_eligible_def)
  have set: "set ids = qr_CardID ` set (filter ?rev ?rows) \<union> qr_CardID ` set (filter ?new ?rows)"
    using un by (simp add: ids rev_queue_def new_queue_def Let_def)
  have inj: "inj_on qr_CardID (set ?rows)" using scored_distinct [OF pk] by (simp add: distinct_map)
  have disj: "qr_CardID ` set (filter ?rev ?rows) \<inter> qr_CardID ` set (filter ?new ?rows) = {}"
    using inj by (auto simp: review_eligible_def new_eligible_def dest: inj_onD)
  show "distinct ids"
    using disj un by (simp add: ids rev_queue_def new_queue_def Let_def scored_sorted_distinct [OF pk])
  have "length ids = card (set ids)" using \<open>distinct ids\<close> distinct_card by metis
  also have "\<dots> \<le> card (c_ID ` set (cd_cards db))"
    unfolding set by (rule card_mono) (auto elim!: in_scored simp: score_Some(1))
  also have "\<dots> \<le> length (cd_cards db)" by (metis card_image_le card_length finite_set le_trans)
  finally show "length ids \<le> length (cd_cards db)" .
  have "{r \<in> set ?rows. due_eligible E db ?D r} = set (filter ?rev ?rows) \<union> set (filter ?new ?rows)"
    using score_unseen_free [of _ E db "set_Order s" ?seed u d]
    by (auto simp: due_eligible_def review_eligible_def new_eligible_def day_params_def mixed_params_def not_buried_def
        not_today_def)
  then have "qr_CardID ` {q. servable E db ?D q} = set ids"
    unfolding servable_ids set by (simp add: image_Un [symmetric] day_params_def mixed_params_def)
  then show "set ids = qr_CardID ` {q. servable E db (day_params E u d window s now (allowances db u d window s extra)) q}"
    by (simp add: a)
qed

text \<open>
  What is served without a look at the combined daily total: every card that its own side's allowance lets through.
\<close>

lemma session_serves:
  assumes "paging_ok E db p u d dn window s limit now extra" and "keys_ok (se_keys E)"
  shows "\<exists>bs. follow (\<lambda>cur. BuildBatch E db p u d dn window s cur limit now extra) (onward_of (se_uuid E))
        (Suc (length (cd_cards db))) start_cursor = Some bs
      \<and> distinct (map qca_CardID (concat (map b_Cards bs)))
      \<and> set (map qca_CardID (concat (map b_Cards bs)))
         = qr_CardID ` {q. servable E db (day_params E u d window s now (allowances db u d window s extra)) q}"
proof -
  from assms(1) have pk: "pk c_ID (cd_cards db)" by (simp add: paging_ok_def)
  let ?go = "\<lambda>n. follow (\<lambda>cur. BuildBatch E db p u d dn window s cur limit now extra) (onward_of (se_uuid E)) n start_cursor"
  have start: "single_cursor start_cursor" "mixed_cursor start_cursor" by (simp_all add: single_cursor_def mixed_cursor_def)
  obtain ids where ids: "distinct ids" "length ids \<le> length (cd_cards db)"
    "set ids = qr_CardID ` {q. servable E db (day_params E u d window s now (allowances db u d window s extra)) q}"
    and serve: "\<exists>bs. ?go (Suc (length (cd_cards db))) = Some bs \<and> mset (concat (map (\<lambda>b. map qca_CardID (b_Cards b)) bs)) = mset ids"
  proof (cases "set_Priority s = PriorityMixed")
    case True
    note M = mixed_start [OF pk assms(2) refl, of u d window s now extra]
    from mixed_pages.follow_serves [of E db p u d dn window s limit now extra start_cursor "Suc (length (cd_cards db))"] M(2) True assms(1) start
    show thesis by (intro that [OF M]) simp
  next
    case False
    note S = single_start [OF pk refl, of E u d window s limit now extra]
    from single_pages.follow_serves [of E db p u d dn window s limit now extra start_cursor "Suc (length (cd_cards db))"] S(2) False assms(1) start
    show thesis by (intro that [OF S]) simp
  qed
  from serve obtain bs where bs: "?go (Suc (length (cd_cards db))) = Some bs"
    "mset (concat (map (\<lambda>b. map qca_CardID (b_Cards b)) bs)) = mset ids" by blast
  have eq: "concat (map (\<lambda>b. map qca_CardID (b_Cards b)) bs) = map qca_CardID (concat (map b_Cards bs))"
    by (simp add: map_concat o_def)
  from bs(2) have "distinct (map qca_CardID (concat (map b_Cards bs)))" "set (map qca_CardID (concat (map b_Cards bs))) = set ids"
    unfolding eq using mset_eq_imp_distinct_iff mset_eq_setD ids(1) by blast+
  with bs(1) ids(3) show ?thesis by blast
qed

text \<open>The cards that count towards the daily total: never-seen ones and those in the review state.\<close>

definition counts_towards_total :: "content_db \<Rightarrow> uuid \<Rightarrow> uuid \<Rightarrow> bool" where
  "counts_towards_total db u i \<longleftrightarrow> (case state_of db u i of None \<Rightarrow> True | Some s \<Rightarrow> us_State s = 2)"

definition day_cards :: "study_env \<Rightarrow> content_db \<Rightarrow> uuid \<Rightarrow> uuid \<Rightarrow> StudyDay \<Rightarrow> DeckSettings \<Rightarrow> gotime \<Rightarrow> int \<Rightarrow> uuid set" where
  "day_cards E db u d window s now extra =
     qr_CardID ` {q. servable E db (day_params E u d window s now (allowances db u d window s extra)) q}"

text \<open>C24: on an unchanged database a study session ends: following the cursors from the start, through their text
  form in the URL, takes at most one fetch more than the deck has cards, in the single-query modes and in the
  mixed mode. When the new and the review-state cards that the two daily limits let through fit together into
  what is left of the combined daily total, the session serves every card of the day exactly once and stays
  within that total. (When they do not fit, the total is kept page by page only, BuildBatch_within_budget: the
  refills of an unanswered session go past it.)\<close>

theorem study_session_complete:
  assumes "paging_ok E db p u d dn window s limit now extra" and "keys_ok (se_keys E)"
    and "int (card {i \<in> day_cards E db u d window s now extra. counts_towards_total db u i})
      \<le> max 0 (snd (allowances db u d window s extra))"
  shows "\<exists>bs. follow (\<lambda>cur. BuildBatch E db p u d dn window s cur limit now extra) (onward_of (se_uuid E))
        (Suc (length (cd_cards db))) start_cursor = Some bs
      \<and> (let served = map qca_CardID (concat (map b_Cards bs)) in
          distinct served \<and> set served = day_cards E db u d window s now extra
          \<and> int (length (filter (counts_towards_total db u) served)) \<le> max 0 (snd (allowances db u d window s extra)))"
proof -
  obtain bs where bs: "follow (\<lambda>cur. BuildBatch E db p u d dn window s cur limit now extra) (onward_of (se_uuid E))
        (Suc (length (cd_cards db))) start_cursor = Some bs"
    and served: "distinct (map qca_CardID (concat (map b_Cards bs)))"
      "set (map qca_CardID (concat (map b_Cards bs))) = day_cards E db u d window s now extra"
    unfolding day_cards_def using session_serves [OF assms(1,2)] by blast
  let ?f = "filter (counts_towards_total db u) (map qca_CardID (concat (map b_Cards bs)))"
  have "length ?f = card (set ?f)" using served(1) by (intro distinct_card [symmetric] distinct_filter)
  also have "set ?f = {i \<in> day_cards E db u d window s now extra. counts_towards_total db u i}"
    unfolding served(2) [symmetric] by auto
  finally have "int (length ?f) \<le> max 0 (snd (allowances db u d window s extra))" using assms(3) by simp
  with bs served show ?thesis by (auto simp only: Let_def)
qed

section \<open>An example\<close>

definition demo_study_env :: study_env where
  "demo_study_env = \<lparr>se_now = Day, se_keys = \<lparr>qk_of_int = (\<lambda>_. 0), qk_epoch = (\<lambda>_. 0), qk_md5 = (\<lambda>_ _. 0)\<rparr>,
     se_uuid = demo_uuid_text, se_lib = demo_lib, se_render = demo_render_env, se_rand = (\<lambda>_. (None, None)),
     se_media = \<lparr>me_Tokens = (\<lambda>_. []), me_String = (\<lambda>_. []), me_NFC = id, me_isAbsoluteURL = (\<lambda>_. False)\<rparr>\<rparr>"

definition demo_settings :: "Priority \<Rightarrow> DeckSettings" where
  "demo_settings prio = \<lparr>set_NewPerDay = 20, set_RevPerDay = 200, set_Order = RevOrderDue, set_Priority = prio,
     set_LookAheadMinutes = 0, set_ClassDay = 0\<rparr>"

definition demo_window :: StudyDay where
  "demo_window = \<lparr>sd_Start = Day, sd_End = 2 * Day, sd_LocalDate = Day\<rparr>"

lemma demo_keys_ok: "keys_ok (se_keys demo_study_env)"
  by (simp add: keys_ok_def demo_study_env_def pg_rank_def flt_defs)

lemma demo_row:
  assumes "r \<in> set (scored demo_study_env demo_content order seed 1 10)"
  shows "qr_Qfmt r = [] \<and> qr_Afmt r = [] \<and> qr_State r = 0 \<and> qr_Reps r = 0 \<and> qr_Lapses r = 0 \<and> qr_ScheduledDays r = 0
     \<and> qr_LearningSteps r = 0 \<and> qr_Stability r = 0 \<and> qr_Difficulty r = 0 \<and> qr_LastReview r = None"
  using assms
  by (elim in_scored) (auto simp: score_def Let_def demo_content_def demo_card_def demo_note_row_def state_of_def split: option.splits if_splits)

lemma demo_render_row:
  assumes "qr_Qfmt q = []" "qr_Afmt q = []" "qr_State q = 0" "qr_Reps q = 0" "qr_Lapses q = 0" "qr_ScheduledDays q = 0"
    "qr_LearningSteps q = 0" "qr_Stability q = 0" "qr_Difficulty q = 0"
    and "\<exists>fs. mapE (field_value (qr_NoteFields q)) (F (qr_NoteTypeID q)) = Inr fs"
  shows "\<exists>x. render_row demo_study_env F res dn demo_params now q = Inr x"
proof -
  have "card_state_ok demo_lib (prior_state q)"
    using assms by (simp add: prior_state_def uwrap_def card_state_ok_def State_Valid_def state_defs flt_defs maxLearningSteps_def)
  then obtain c where "toLibCard demo_lib (prior_state q) = Inr c" using toLibCard_ok by blast
  then obtain v where pv: "PreviewAll demo_lib demo_params (prior_state q) now = Inr v" by (simp add: PreviewAll_def demo_params_def)
  have rc: "RenderCard demo_render_env None None \<lparr>ct_Name = t, ct_Qfmt = [], ct_Afmt = []\<rparr> n i b
      = Inr (\<lparr>r_HTML = [], r_Type = None\<rparr>, \<lparr>r_HTML = [], r_Type = None\<rparr>)" for t n i b
    by (simp add: RenderCard_def tokenise_def tokenise_from.simps evaluate_def finaliseRendered_def demo_render_env_def)
  from assms(10) obtain fs where fs: "mapE (field_value (qr_NoteFields q)) (F (qr_NoteTypeID q)) = Inr fs" by blast
  have env: "se_render demo_study_env = demo_render_env" "se_rand demo_study_env i = (None, None)" "se_lib demo_study_env = demo_lib" for i
    by (simp_all add: demo_study_env_def)
  show ?thesis unfolding render_row_def fs env Let_def bindE_simps assms(1,2) fst_conv snd_conv rc pv liftE_simps prod.case by blast
qed

lemma demo_paging_ok: "paging_ok demo_study_env demo_content demo_params 1 10 ''A'' demo_window (demo_settings prio) 1 Day 0"
  unfolding paging_ok_def
proof (intro conjI allI impI)
  show "pk c_ID (cd_cards demo_content)" using demo_content_wf(1) by (simp add: content_wf_def content_keys_def)
  show "uuid_text_ok (se_uuid demo_study_env)" by (simp add: demo_study_env_def demo_uuid_text_ok)
  show "no_refusals demo_content" by (fact demo_content_wf(2))
  fix q assume "servable demo_study_env demo_content (day_params demo_study_env 1 10 demo_window (demo_settings prio) Day
      (allowances demo_content 1 10 demo_window (demo_settings prio) 0)) q"
  then obtain r order seed where r: "r \<in> set (scored demo_study_env demo_content order seed 1 10)" "q = queue_row.truncate r"
    by (auto simp: servable_def)
  from r(1) have "qr_NoteTypeID r = 7 \<and> qr_NoteFields r = [''a'', ''b'']"
    by (elim in_scored) (auto simp: score_def Let_def demo_content_def demo_card_def demo_note_row_def split: if_splits)
  with demo_row [OF r(1)] r(2) have q: "qr_Qfmt q = []" "qr_Afmt q = []" "qr_State q = 0" "qr_Reps q = 0" "qr_Lapses q = 0"
    "qr_ScheduledDays q = 0" "qr_LearningSteps q = 0" "qr_Stability q = 0" "qr_Difficulty q = 0"
    and nt: "qr_NoteTypeID q = 7" "qr_NoteFields q = [''a'', ''b'']" by (simp_all add: queue_row.truncate_def)
  let ?F = "\<lambda>nt. filter (\<lambda>f. fd_NoteTypeID f = nt) [\<lparr>fd_ID = 5, fd_NoteTypeID = 7, fd_Ordinal = 0, fd_Name = ''Front'', fd_Font = ''Arial'', fd_Size = 20, fd_IsRtl = False, fd_Sticky = False\<rparr>]"
  have "\<exists>fs. mapE (field_value (qr_NoteFields q)) (?F (qr_NoteTypeID q)) = Inr fs"
    by (simp add: nt field_value_def)
  from demo_render_row [where F = ?F, OF q this] obtain x where
    "render_row demo_study_env ?F Map.empty ''A'' demo_params Day q = Inr x" by blast
  then show "\<exists>x. renderQueueRows demo_study_env demo_content 10 ''A'' demo_params Day [q] = Inr x"
    by (simp add: renderQueueRows_def ListFieldsForNoteTypes_def ListMediaRefsForDeck_def run_c_def db_err_def
      demo_content_def nt Let_def)
qed (simp_all add: max_int32_def)

lemma demo_allowances: "allowances demo_content 1 10 demo_window (demo_settings prio) 0 = (20, 200)"
  by (simp add: allowances_def studied_cards_def demo_content_def demo_settings_def RevRemaining_def NewRemaining_def
    wrap32_id wrap64_id)

lemma day_cards_few: "card {i \<in> day_cards E db u d window s now extra. counts_towards_total db u i} \<le> length (cd_cards db)"
proof -
  have "{i \<in> day_cards E db u d window s now extra. counts_towards_total db u i} \<subseteq> set (map c_ID (cd_cards db))"
  proof
    fix i assume "i \<in> {i \<in> day_cards E db u d window s now extra. counts_towards_total db u i}"
    then obtain q where q: "servable E db (day_params E u d window s now (allowances db u d window s extra)) q" "i = qr_CardID q"
      by (auto simp: day_cards_def)
    from servable_card [OF q(1)] q(2) show "i \<in> set (map c_ID (cd_cards db))" by (metis image_eqI list.set_map)
  qed
  from card_mono [OF _ this] card_length [of "map c_ID (cd_cards db)"] show ?thesis by simp
qed

lemma study_session_complete_witness:
  "\<exists>bs. follow (\<lambda>cur. BuildBatch demo_study_env demo_content demo_params 1 10 ''A'' demo_window (demo_settings PriorityMixed) cur 1 Day 0)
       (onward_of demo_uuid_text) 4 start_cursor = Some bs
     \<and> distinct (map qca_CardID (concat (map b_Cards bs)))
     \<and> length (filter (counts_towards_total demo_content 1) (map qca_CardID (concat (map b_Cards bs)))) \<le> 200"
proof -
  have n: "length (cd_cards demo_content) = 3" by (simp add: demo_content_def)
  have "int (card {i \<in> day_cards demo_study_env demo_content 1 10 demo_window (demo_settings PriorityMixed) Day 0.
      counts_towards_total demo_content 1 i}) \<le> max 0 (snd (allowances demo_content 1 10 demo_window (demo_settings PriorityMixed) 0))"
    using day_cards_few [of demo_study_env demo_content 1 10 demo_window "demo_settings PriorityMixed" Day 0]
    unfolding demo_allowances n by simp
  from study_session_complete [OF demo_paging_ok demo_keys_ok this] show ?thesis
    unfolding demo_allowances n Let_def by (auto simp: demo_study_env_def eval_nat_numeral simp del: follow.simps)
qed

lemma demo_first_page:
  "\<exists>b. BuildBatch demo_study_env demo_content demo_params 1 10 ''A'' demo_window (demo_settings PriorityNew) start_cursor 1 Day 0 = Inr b"
  using single_page [OF demo_paging_ok, of PriorityNew start_cursor]
  by (auto simp: demo_settings_def single_cursor_def PriorityNew_def PriorityMixed_def)

lemma BuildBatch_eligible_witness:
  "\<exists>b. BuildBatch demo_study_env demo_content demo_params 1 10 ''A'' demo_window (demo_settings PriorityNew) start_cursor 1 Day 0 = Inr b
     \<and> distinct (map qca_CardID (b_Cards b))"
proof -
  obtain b where b: "BuildBatch demo_study_env demo_content demo_params 1 10 ''A'' demo_window (demo_settings PriorityNew)
    start_cursor 1 Day 0 = Inr b" using demo_first_page by blast
  from BuildBatch_eligible [OF demo_content_wf(1) b] b show ?thesis by (simp add: max_int32_def)
qed

lemma BuildBatch_within_budget_witness:
  "\<exists>b. BuildBatch demo_study_env demo_content demo_params 1 10 ''A'' demo_window (demo_settings PriorityNew) start_cursor 1 Day 0 = Inr b
     \<and> length (b_Cards b) \<le> 1"
proof -
  obtain b where b: "BuildBatch demo_study_env demo_content demo_params 1 10 ''A'' demo_window (demo_settings PriorityNew)
    start_cursor 1 Day 0 = Inr b" using demo_first_page by blast
  from BuildBatch_within_budget [OF demo_content_wf(1) b] b show ?thesis
    by (simp add: max_int32_def demo_allowances Let_def)
qed

end
