(* ===== verification/Note_Types.thy ===== *)
theory Note_Types
  imports Content_System
begin

text \<open>
  Note types, their fields and templates: the statements of \<open>note_types.sql.go\<close>, \<open>fields.sql.go\<close> and
  \<open>templates.sql.go\<close>, and the creation and the structural edit of \<open>internal/db/notetypes.go\<close>. Positions of
  a submitted form are counted without the narrowing to \<open>int32\<close> (a form has far fewer rows). The ids of
  new rows are arguments, and SHA-1 is a parameter.
\<close>

section \<open>Who may read and edit a note type\<close>

text \<open>READABLE is \<^const>\<open>note_type_readable\<close>. WRITABLE: no deck with a note of the type lacks the rights.\<close>

definition may_edit_deck :: "content_db \<Rightarrow> uuid \<Rightarrow> uuid \<Rightarrow> bool" where
  "may_edit_deck db userID deckID =
     (case access_of db deckID userID of None \<Rightarrow> False | Some a \<Rightarrow> can_view a \<and> can_edit_content a)"

definition notes_of_type :: "content_db \<Rightarrow> uuid \<Rightarrow> db_note list" where
  "notes_of_type db ntID = filter (\<lambda>n. n_NoteTypeID n = ntID) (cd_notes db)"

definition note_type_writable :: "content_db \<Rightarrow> uuid \<Rightarrow> note_type \<Rightarrow> bool" where
  "note_type_writable db userID nt \<longleftrightarrow>
     list_all (\<lambda>n. may_edit_deck db userID (n_DeckID n)) (notes_of_type db (nt_ID nt))
     \<and> (notes_of_type db (nt_ID nt) \<noteq> [] \<or> nt_OwnerID nt = userID)"

definition LockNoteTypeForEdit :: "content_db \<Rightarrow> uuid \<Rightarrow> uuid \<Rightarrow> content_error + note_type" where
  "LockNoteTypeForEdit db ntID userID =
     bindE (run_c db ''LockNoteTypeForEdit'' (row_of nt_ID ntID (cd_noteTypes db))) (\<lambda>r.
     case r of None \<Rightarrow> Inl ErrNoRows
     | Some nt \<Rightarrow> if note_type_writable db userID nt then Inr nt else Inl ErrNoRows)"

definition CanEditNoteType :: "content_db \<Rightarrow> uuid \<Rightarrow> uuid \<Rightarrow> content_error + bool" where
  "CanEditNoteType db userID ntID =
     bindE (run_c db ''CanEditNoteType'' (row_of nt_ID ntID (cd_noteTypes db))) (\<lambda>r.
     case r of None \<Rightarrow> Inl ErrNoRows | Some nt \<Rightarrow> Inr (note_type_writable db userID nt))"

definition GetNoteType :: "content_db \<Rightarrow> uuid \<Rightarrow> content_error + note_type" where
  "GetNoteType db ntID = bindE (run_c db ''GetNoteType'' (row_of nt_ID ntID (cd_noteTypes db))) one_row"

definition GetNoteTypeForRead :: "content_db \<Rightarrow> uuid \<Rightarrow> uuid \<Rightarrow> content_error + note_type" where
  "GetNoteTypeForRead db ntID userID =
     bindE (run_c db ''GetNoteTypeForRead'' (row_of nt_ID ntID (cd_noteTypes db))) (\<lambda>r.
     case r of None \<Rightarrow> Inl ErrNoRows
     | Some nt \<Rightarrow> if note_type_readable db userID nt then Inr nt else Inl ErrNoRows)"

definition CountNotesOfNoteType :: "content_db \<Rightarrow> uuid \<Rightarrow> content_error + nat" where
  "CountNotesOfNoteType db ntID = run_c db ''CountNotesOfNoteType'' (length (notes_of_type db ntID))"

definition NoteTypeOtherUserCount :: "content_db \<Rightarrow> uuid \<Rightarrow> uuid \<Rightarrow> content_error + nat" where
  "NoteTypeOtherUserCount db ntID userID =
     run_c db ''NoteTypeOtherUserCount''
       (length (dedup (map da_UserID (filter (\<lambda>a. da_UserID a \<noteq> userID
          \<and> list_ex (\<lambda>n. n_DeckID n = da_DeckID a) (notes_of_type db ntID)) (cd_access db)))))"

section \<open>Lists of note types and of their decks\<close>

record deck_using_row =
  du_DeckID :: uuid
  du_Name :: string
  du_Visible :: bool
  du_Editable :: bool

definition may_see_deck :: "content_db \<Rightarrow> uuid \<Rightarrow> uuid \<Rightarrow> bool" where
  "may_see_deck db userID deckID = (case access_of db deckID userID of None \<Rightarrow> False | Some a \<Rightarrow> can_view a)"

definition ListDecksUsingNoteType :: "content_db \<Rightarrow> uuid \<Rightarrow> uuid \<Rightarrow> content_error + deck_using_row list" where
  "ListDecksUsingNoteType db userID ntID =
     run_c db ''ListDecksUsingNoteType''
       (sort_key du_Name
         (map (\<lambda>d. \<lparr>du_DeckID = dk_ID d, du_Name = dk_Name d, du_Visible = may_see_deck db userID (dk_ID d),
              du_Editable = may_edit_deck db userID (dk_ID d)\<rparr>)
           (filter (\<lambda>d. list_ex (\<lambda>n. n_DeckID n = dk_ID d) (notes_of_type db ntID)) (cd_decks db))))"

definition field_names :: "content_db \<Rightarrow> uuid \<Rightarrow> string list" where
  "field_names db ntID = map fd_Name (sort_key fd_Ordinal (filter (\<lambda>f. fd_NoteTypeID f = ntID) (cd_fields db)))"

text \<open>\<open>array_agg\<close> over no field is \<open>NULL\<close>, and \<open>NULL = x\<close> is not true.\<close>

definition ListFieldCompatibleNoteTypesForUser :: "content_db \<Rightarrow> uuid \<Rightarrow> bool \<Rightarrow> uuid \<Rightarrow> content_error + note_type list" where
  "ListFieldCompatibleNoteTypesForUser db userID isCloze current =
     run_c db ''ListFieldCompatibleNoteTypesForUser''
       (sort_key nt_Name (filter (\<lambda>nt. note_type_readable db userID nt \<and> nt_IsCloze nt = isCloze
          \<and> field_names db (nt_ID nt) \<noteq> [] \<and> field_names db (nt_ID nt) = field_names db current) (cd_noteTypes db)))"

definition ListNoteTypesForNoteForm :: "content_db \<Rightarrow> uuid \<Rightarrow> uuid \<Rightarrow> content_error + (note_type \<times> bool) list" where
  "ListNoteTypesForNoteForm db deckID userID =
     run_c db ''ListNoteTypesForNoteForm''
       (sort_key (\<lambda>(nt, here). (\<not> here, nt_Name nt))
         (map (\<lambda>nt. (nt, list_ex (\<lambda>n. n_DeckID n = deckID) (notes_of_type db (nt_ID nt))))
           (filter (note_type_readable db userID) (cd_noteTypes db))))"

record note_type_list_row =
  nl_NoteType :: note_type
  nl_NoteCount :: nat
  nl_DeckCount :: nat
  nl_CanEdit :: bool

definition ListNoteTypesForUser :: "content_db \<Rightarrow> uuid \<Rightarrow> content_error + note_type_list_row list" where
  "ListNoteTypesForUser db userID =
     run_c db ''ListNoteTypesForUser''
       (sort_key (nt_Name \<circ> nl_NoteType)
         (map (\<lambda>nt. \<lparr>nl_NoteType = nt, nl_NoteCount = length (notes_of_type db (nt_ID nt)),
              nl_DeckCount = length (dedup (map n_DeckID (notes_of_type db (nt_ID nt)))),
              nl_CanEdit = note_type_writable db userID nt\<rparr>)
           (filter (note_type_readable db userID) (cd_noteTypes db))))"

definition ListFieldsForNoteType :: "content_db \<Rightarrow> uuid \<Rightarrow> content_error + field_row list" where
  "ListFieldsForNoteType db ntID =
     run_c db ''ListFieldsForNoteType'' (sort_key fd_Ordinal (filter (\<lambda>f. fd_NoteTypeID f = ntID) (cd_fields db)))"

definition ListTemplatesForNoteType :: "content_db \<Rightarrow> uuid \<Rightarrow> content_error + template_row list" where
  "ListTemplatesForNoteType db ntID =
     run_c db ''ListTemplatesForNoteType'' (sort_key tp_Ordinal (filter (\<lambda>t. tp_NoteTypeID t = ntID) (cd_templates db)))"

section \<open>Writing note types, fields and templates\<close>

definition CreateNoteType :: "content_db \<Rightarrow> uuid \<Rightarrow> uuid \<Rightarrow> string \<Rightarrow> string \<Rightarrow> bool \<Rightarrow> int \<Rightarrow> content_error + note_type \<times> content_db" where
  "CreateNoteType db newID ownerID name css isCloze sortFieldIdx =
     bindE (run_c db ''CreateNoteType'' ()) (\<lambda>_.
     let nt = \<lparr>nt_ID = newID, nt_OwnerID = ownerID, nt_Name = name, nt_Css = css, nt_IsCloze = isCloze,
          nt_SortFieldIdx = sortFieldIdx, nt_AnkiID = None\<rparr>
     in if row_of nt_ID newID (cd_noteTypes db) \<noteq> None then Inl (UniqueViolation ''note_types_pkey'')
        else if row_of (\<lambda>t. (nt_OwnerID t, nt_Name t)) (ownerID, name) (cd_noteTypes db) \<noteq> None
        then Inl (UniqueViolation ''note_types_owner_id_name_key'')
        else Inr (nt, db\<lparr>cd_noteTypes := cd_noteTypes db @ [nt]\<rparr>))"

definition CreateField :: "content_db \<Rightarrow> uuid \<Rightarrow> uuid \<Rightarrow> int \<Rightarrow> string \<Rightarrow> content_error + content_db" where
  "CreateField db newID ntID ordinal name =
     bindE (run_c db ''CreateField'' ()) (\<lambda>_.
     if row_of fd_ID newID (cd_fields db) \<noteq> None then Inl (UniqueViolation ''fields_pkey'')
     else if row_of nt_ID ntID (cd_noteTypes db) = None then Inl (FKViolation ''fields_note_type_id_fkey'')
     else Inr (db\<lparr>cd_fields := cd_fields db
       @ [\<lparr>fd_ID = newID, fd_NoteTypeID = ntID, fd_Ordinal = ordinal, fd_Name = name, fd_Font = ''Arial'', fd_Size = 20, fd_IsRtl = False, fd_Sticky = False\<rparr>]\<rparr>))"

definition CreateTemplate :: "content_db \<Rightarrow> uuid \<Rightarrow> uuid \<Rightarrow> int \<Rightarrow> string \<Rightarrow> string \<Rightarrow> string \<Rightarrow> content_error + content_db" where
  "CreateTemplate db newID ntID ordinal name qfmt afmt =
     bindE (run_c db ''CreateTemplate'' ()) (\<lambda>_.
     if row_of tp_ID newID (cd_templates db) \<noteq> None then Inl (UniqueViolation ''templates_pkey'')
     else if row_of nt_ID ntID (cd_noteTypes db) = None then Inl (FKViolation ''templates_note_type_id_fkey'')
     else Inr (db\<lparr>cd_templates := cd_templates db
       @ [\<lparr>tp_ID = newID, tp_NoteTypeID = ntID, tp_Ordinal = ordinal, tp_Name = name, tp_Qfmt = qfmt, tp_Afmt = afmt,
           tp_BrowserQfmt = [], tp_BrowserAfmt = []\<rparr>]\<rparr>))"

definition DeleteField :: "content_db \<Rightarrow> uuid \<Rightarrow> uuid \<Rightarrow> content_error + content_db" where
  "DeleteField db fieldID ntID =
     run_c db ''DeleteField'' (db\<lparr>cd_fields := filter (\<lambda>f. \<not> (fd_ID f = fieldID \<and> fd_NoteTypeID f = ntID)) (cd_fields db)\<rparr>)"

definition UpdateFieldNameAndOrdinal :: "content_db \<Rightarrow> string \<Rightarrow> int \<Rightarrow> uuid \<Rightarrow> uuid \<Rightarrow> content_error + nat \<times> content_db" where
  "UpdateFieldNameAndOrdinal db name ordinal fieldID ntID =
     (let p = (\<lambda>f. fd_ID f = fieldID \<and> fd_NoteTypeID f = ntID)
      in run_c db ''UpdateFieldNameAndOrdinal'' (length (filter p (cd_fields db)),
           db\<lparr>cd_fields := map_rows p (\<lambda>f. f\<lparr>fd_Name := name, fd_Ordinal := ordinal\<rparr>) (cd_fields db)\<rparr>))"

definition UpdateTemplateContentAndOrdinal :: "content_db \<Rightarrow> string \<Rightarrow> string \<Rightarrow> string \<Rightarrow> int \<Rightarrow> uuid \<Rightarrow> uuid
    \<Rightarrow> content_error + nat \<times> content_db" where
  "UpdateTemplateContentAndOrdinal db name qfmt afmt ordinal templateID ntID =
     (let p = (\<lambda>t. tp_ID t = templateID \<and> tp_NoteTypeID t = ntID)
      in run_c db ''UpdateTemplateContentAndOrdinal'' (length (filter p (cd_templates db)),
           db\<lparr>cd_templates := map_rows p (\<lambda>t. t\<lparr>tp_Name := name, tp_Qfmt := qfmt, tp_Afmt := afmt, tp_Ordinal := ordinal\<rparr>)
             (cd_templates db)\<rparr>))"

definition UpdateNoteTypeRow :: "content_db \<Rightarrow> string \<Rightarrow> string \<Rightarrow> int \<Rightarrow> uuid \<Rightarrow> uuid \<Rightarrow> content_error + nat \<times> content_db" where
  "UpdateNoteTypeRow db name css sortFieldIdx ntID userID =
     (let p = (\<lambda>nt. nt_ID nt = ntID \<and> note_type_writable db userID nt);
          rows = map_rows p (\<lambda>nt. nt\<lparr>nt_Name := name, nt_Css := css, nt_SortFieldIdx := sortFieldIdx\<rparr>) (cd_noteTypes db)
      in bindE (run_c db ''UpdateNoteTypeRow'' (length (filter p (cd_noteTypes db)))) (\<lambda>n.
         if n > 0 \<and> \<not> distinct (map (\<lambda>t. (nt_OwnerID t, nt_Name t)) rows)
         then Inl (UniqueViolation ''note_types_owner_id_name_key'')
         else Inr (n, db\<lparr>cd_noteTypes := rows\<rparr>)))"

text \<open>
  Deleting a note type: its fields and templates cascade; a note of the type restricts it, and so does a
  card of one of its templates.
\<close>

definition DeleteNoteType :: "content_db \<Rightarrow> uuid \<Rightarrow> uuid \<Rightarrow> content_error + nat \<times> content_db" where
  "DeleteNoteType db ntID ownerID =
     (let p = (\<lambda>nt. nt_ID nt = ntID \<and> nt_OwnerID nt = ownerID);
          tmpls = filter (\<lambda>t. tp_NoteTypeID t = ntID) (cd_templates db)
      in bindE (run_c db ''DeleteNoteType'' (length (filter p (cd_noteTypes db)))) (\<lambda>n.
         if n = 0 then Inr (0, db)
         else if notes_of_type db ntID \<noteq> [] then Inl (RestrictViolation ''notes_note_type_id_fkey'')
         else if list_ex (\<lambda>c. c_TemplateID c \<in> tp_ID ` set tmpls) (cd_cards db)
         then Inl (RestrictViolation ''cards_template_id_fkey'')
         else Inr (n, db\<lparr>cd_noteTypes := filter (\<lambda>nt. \<not> p nt) (cd_noteTypes db),
               cd_fields := filter (\<lambda>f. fd_NoteTypeID f \<noteq> ntID) (cd_fields db),
               cd_templates := filter (\<lambda>t. tp_NoteTypeID t \<noteq> ntID) (cd_templates db)\<rparr>)))"

end
