(* ===== verification/Note_Type_Edit.thy ===== *)
theory Note_Type_Edit
  imports Note_Types
begin

text \<open>
  Creating and editing a note type (\<open>internal/db/notetypes.go\<close>): the plan of a structural edit, the remap of
  every note's fields and of every card, and the two tests that decide whether the form asks for
  confirmation. A note's fields are the strings that Go reads from the JSON array (a \<open>null\<close> reads as the
  empty string).
\<close>

section \<open>The checksum of a note\<close>

text \<open>\<open>htmlTagRe.ReplaceAllString(s, "")\<close>: every \<open><\<close> up to the next \<open>></\<close> goes; a \<open><\<close> without one stays.\<close>

function strip_tags :: "string \<Rightarrow> string" where
  "strip_tags [] = []"
| "strip_tags (c # s) =
     (if c = CHR 0x3C \<and> CHR 0x3E \<in> set s then strip_tags (tl (dropWhile (\<lambda>x. x \<noteq> CHR 0x3E) s))
      else c # strip_tags s)"
  by pat_completeness auto
termination
proof (relation "measure length")
  fix c and s :: string
  have "length (tl (dropWhile (\<lambda>x. x \<noteq> CHR 0x3E) s)) \<le> length s"
    using length_dropWhile_le [of "\<lambda>x. x \<noteq> CHR 0x3E" s] by simp
  then show "(tl (dropWhile (\<lambda>x. x \<noteq> CHR 0x3E) s), c # s) \<in> measure length" by simp
qed simp_all

text \<open>The first four bytes of the SHA-1 sum, most significant first.\<close>

definition ComputeNoteChecksum :: "(string \<Rightarrow> 8 word list) \<Rightarrow> string \<Rightarrow> int" where
  "ComputeNoteChecksum sha1 firstField =
     (let sum = sha1 (strip_tags firstField)
      in foldl (\<lambda>a b. a * 256 + uint b) 0 (take 4 sum))"

section \<open>Creation\<close>

record FieldEdit =
  fe_ID :: pguuid
  fe_Name :: string

record TemplateEdit =
  te_ID :: pguuid
  te_Name :: string
  te_Qfmt :: string
  te_Afmt :: string

text \<open>The ids of the new rows, by position in the form.\<close>

record new_ids =
  ni_field :: "nat \<Rightarrow> uuid"
  ni_template :: "nat \<Rightarrow> uuid"
  ni_card :: "uuid \<Rightarrow> uuid \<Rightarrow> uuid"

definition CreateNoteTypeWithFieldsAndTemplates :: "new_ids \<Rightarrow> content_db \<Rightarrow> uuid \<Rightarrow> uuid \<Rightarrow> string \<Rightarrow> string \<Rightarrow> bool \<Rightarrow> int
    \<Rightarrow> string list \<Rightarrow> TemplateEdit list \<Rightarrow> content_error + note_type \<times> content_db" where
  "CreateNoteTypeWithFieldsAndTemplates ids db newID ownerID name css isCloze sortFieldIdx fieldNames templates =
     (if isCloze \<and> length templates \<noteq> 1 then Inl ErrClozeNoteTypeSingleTemplate
      else
        bindE (CreateNoteType db newID ownerID name css isCloze sortFieldIdx) (\<lambda>(nt, db1).
        bindE (foldE (\<lambda>d (i, fieldName). CreateField d (ni_field ids i) (nt_ID nt) (int i) fieldName)
                 db1 (enumerate 0 fieldNames)) (\<lambda>db2.
        bindE (foldE (\<lambda>d (i, t). CreateTemplate d (ni_template ids i) (nt_ID nt) (int i) (te_Name t) (te_Qfmt t) (te_Afmt t))
                 db2 (enumerate 0 templates)) (\<lambda>db3. Inr (nt, db3)))))"

section \<open>The plan of an edit\<close>

record edit_plan =
  keptOldOrdinal :: "int list"
  removedIDs :: "uuid list"

text \<open>
  The loop of \<open>planFields\<close> and \<open>planTemplates\<close>: a row without an id is new (\<open>-1\<close>), an id that is not there or
  was there already is refused. The result carries the ids seen.
\<close>

fun plan_entries :: "(uuid \<Rightarrow> int option) \<Rightarrow> content_error \<Rightarrow> uuid list \<Rightarrow> pguuid list \<Rightarrow> content_error + int list \<times> uuid list" where
  "plan_entries ordOf err seen [] = Inr ([], seen)"
| "plan_entries ordOf err seen (None # es) =
     bindE (plan_entries ordOf err seen es) (\<lambda>(kept, seen'). Inr (-1 # kept, seen'))"
| "plan_entries ordOf err seen (Some i # es) =
     (case ordOf i of
        None \<Rightarrow> Inl err
      | Some old \<Rightarrow>
          if i \<in> set seen then Inl err
          else bindE (plan_entries ordOf err (i # seen) es) (\<lambda>(kept, seen'). Inr (old # kept, seen')))"

definition plan_rows :: "content_error \<Rightarrow> (uuid \<times> int) list \<Rightarrow> pguuid list \<Rightarrow> content_error + edit_plan" where
  "plan_rows err existing submitted =
     bindE (plan_entries (map_of (rev existing)) err [] submitted) (\<lambda>(kept, seen).
     Inr \<lparr>keptOldOrdinal = kept, removedIDs = filter (\<lambda>i. i \<notin> set seen) (map fst existing)\<rparr>)"

definition planFields :: "field_row list \<Rightarrow> FieldEdit list \<Rightarrow> content_error + edit_plan" where
  "planFields existing submitted =
     plan_rows ErrFieldNotFound (map (\<lambda>f. (fd_ID f, fd_Ordinal f)) existing) (map fe_ID submitted)"

definition planTemplates :: "template_row list \<Rightarrow> TemplateEdit list \<Rightarrow> content_error + edit_plan" where
  "planTemplates existing submitted =
     plan_rows ErrTemplateNotFound (map (\<lambda>t. (tp_ID t, tp_Ordinal t)) existing) (map te_ID submitted)"

definition fieldPlanIsIdentity :: "edit_plan \<Rightarrow> bool" where
  "fieldPlanIsIdentity plan \<longleftrightarrow> removedIDs plan = []
     \<and> list_all (\<lambda>(i, old). old = int i) (enumerate 0 (keptOldOrdinal plan))"

text \<open>\<open>FieldOrderChanged\<close> and \<open>TemplateOrderChanged\<close>: an existing row after a new one, or the ids differ.\<close>

fun submitted_existing :: "bool \<Rightarrow> pguuid list \<Rightarrow> uuid list option" where
  "submitted_existing sawNew [] = Some []"
| "submitted_existing sawNew (None # es) = submitted_existing True es"
| "submitted_existing sawNew (Some i # es) =
     (if sawNew then None else map_option ((#) i) (submitted_existing False es))"

definition order_changed :: "uuid list \<Rightarrow> pguuid list \<Rightarrow> bool" where
  "order_changed existing submitted =
     (case submitted_existing False submitted of
        None \<Rightarrow> True
      | Some ids \<Rightarrow> length ids \<noteq> length existing \<or> list_ex (\<lambda>(a, b). a \<noteq> b) (zip ids existing))"

definition FieldOrderChanged :: "field_row list \<Rightarrow> FieldEdit list \<Rightarrow> bool" where
  "FieldOrderChanged existing submitted = order_changed (map fd_ID existing) (map fe_ID submitted)"

definition TemplateOrderChanged :: "template_row list \<Rightarrow> TemplateEdit list \<Rightarrow> bool" where
  "TemplateOrderChanged existing submitted = order_changed (map tp_ID existing) (map te_ID submitted)"

section \<open>Applying the plan to the fields\<close>

text \<open>\<open>fields -> i\<close> past the end of the array is null.\<close>

definition remap_fields :: "int list \<Rightarrow> string list \<Rightarrow> string list" where
  "remap_fields olds flds =
     map (\<lambda>k. if k < 0 then [] else if nat k < length flds then flds ! nat k else []) olds"

definition RemapNoteFields :: "content_db \<Rightarrow> gotime \<Rightarrow> int list \<Rightarrow> uuid \<Rightarrow> content_error + content_db" where
  "RemapNoteFields db now olds ntID =
     bindE (run_c db ''RemapNoteFields'' ()) (\<lambda>_.
     if olds = [] \<and> notes_of_type db ntID \<noteq> [] then Inl (NotNullViolation ''fields'')
     else Inr (db\<lparr>cd_notes := map_rows (\<lambda>n. n_NoteTypeID n = ntID)
       (\<lambda>n. n\<lparr>n_Fields := remap_fields olds (n_Fields n), n_ModifiedAt := pg_timestamp now\<rparr>) (cd_notes db)\<rparr>))"

definition ListNoteFieldsForNoteType :: "content_db \<Rightarrow> uuid \<Rightarrow> content_error + (uuid \<times> string list) list" where
  "ListNoteFieldsForNoteType db ntID =
     run_c db ''ListNoteFieldsForNoteType'' (map (\<lambda>n. (n_ID n, n_Fields n)) (notes_of_type db ntID))"

definition BulkUpdateNoteChecksums :: "content_db \<Rightarrow> uuid list \<Rightarrow> int list \<Rightarrow> content_error + content_db" where
  "BulkUpdateNoteChecksums db noteIds checksums =
     (let m = map_of (zip noteIds checksums)
      in run_c db ''BulkUpdateNoteChecksums''
           (db\<lparr>cd_notes := map_rows (\<lambda>n. m (n_ID n) \<noteq> None) (\<lambda>n. n\<lparr>n_Checksum := the (m (n_ID n))\<rparr>) (cd_notes db)\<rparr>))"

definition recompute_checksums :: "(string \<Rightarrow> 8 word list) \<Rightarrow> content_db \<Rightarrow> uuid \<Rightarrow> content_error + content_db" where
  "recompute_checksums sha1 db ntID =
     bindE (ListNoteFieldsForNoteType db ntID) (\<lambda>rows.
     let rows' = filter (\<lambda>(_, vals). vals \<noteq> []) rows
     in if rows' = [] then Inr db
        else BulkUpdateNoteChecksums db (map fst rows') (map (\<lambda>(_, vals). ComputeNoteChecksum sha1 (hd vals)) rows'))"

definition write_field :: "new_ids \<Rightarrow> uuid \<Rightarrow> content_db \<Rightarrow> nat \<times> FieldEdit \<times> int \<Rightarrow> content_error + content_db" where
  "write_field ids ntID d = (\<lambda>(i, f, old).
     if old \<ge> 0 then
       bindE (UpdateFieldNameAndOrdinal d (fe_Name f) (int i) (the (fe_ID f)) ntID) (\<lambda>(n, d').
       if n = 0 then Inl ErrFieldNotFound else Inr d')
     else CreateField d (ni_field ids i) ntID (int i) (fe_Name f))"

definition applyFieldPlan :: "(string \<Rightarrow> 8 word list) \<Rightarrow> new_ids \<Rightarrow> content_db \<Rightarrow> gotime \<Rightarrow> uuid \<Rightarrow> FieldEdit list \<Rightarrow> edit_plan
    \<Rightarrow> content_error + content_db" where
  "applyFieldPlan sha1 ids db now ntID flds plan =
     bindE (foldE (\<lambda>d i. DeleteField d i ntID) db (removedIDs plan)) (\<lambda>db1.
     bindE (foldE (write_field ids ntID) db1 (enumerate 0 (zip flds (keptOldOrdinal plan)))) (\<lambda>db2.
     bindE (if fieldPlanIsIdentity plan then Inr db2 else RemapNoteFields db2 now (keptOldOrdinal plan) ntID) (\<lambda>db3.
     if flds \<noteq> [] \<and> hd (keptOldOrdinal plan) \<noteq> 0 then recompute_checksums sha1 db3 ntID else Inr db3)))"

section \<open>Applying the plan to the templates and cards\<close>

text \<open>The loop over the submitted templates, with the lists \<open>changed\<close> and \<open>added\<close> it builds.\<close>

definition write_template :: "new_ids \<Rightarrow> uuid \<Rightarrow> content_db \<times> TemplateOrdinalChange list \<times> AddedTemplate list
    \<Rightarrow> nat \<times> TemplateEdit \<times> int \<Rightarrow> content_error + content_db \<times> TemplateOrdinalChange list \<times> AddedTemplate list" where
  "write_template ids ntID = (\<lambda>(d, changed, added) (i, t, old).
     if old \<ge> 0 then
       bindE (UpdateTemplateContentAndOrdinal d (te_Name t) (te_Qfmt t) (te_Afmt t) (int i) (the (te_ID t)) ntID) (\<lambda>(n, d').
       if n = 0 then Inl ErrTemplateNotFound
       else Inr (d', if old \<noteq> int i then changed @ [\<lparr>tc_TemplateID = the (te_ID t), tc_NewOrdinal = int i\<rparr>] else changed, added))
     else
       bindE (CreateTemplate d (ni_template ids i) ntID (int i) (te_Name t) (te_Qfmt t) (te_Afmt t)) (\<lambda>d'.
       Inr (d', changed, added @ [\<lparr>at_TemplateID = ni_template ids i, at_Ordinal = int i\<rparr>])))"

definition applyTemplatePlan :: "new_ids \<Rightarrow> content_db \<Rightarrow> uuid \<Rightarrow> TemplateEdit list \<Rightarrow> edit_plan \<Rightarrow> content_error + content_db" where
  "applyTemplatePlan ids db ntID templates plan =
     bindE (foldE (write_template ids ntID) (db, [], []) (enumerate 0 (zip templates (keptOldOrdinal plan)))) (\<lambda>(db1, changed, added).
     if removedIDs plan = [] \<and> changed = [] \<and> added = [] then Inr db1
     else RemapNoteTypeCards (ni_card ids) db1 ntID changed (removedIDs plan) added)"

section \<open>The edit\<close>

definition UpdateNoteType :: "(string \<Rightarrow> 8 word list) \<Rightarrow> new_ids \<Rightarrow> content_db \<Rightarrow> gotime \<Rightarrow> uuid \<Rightarrow> uuid \<Rightarrow> string \<Rightarrow> string \<Rightarrow> int
    \<Rightarrow> FieldEdit list \<Rightarrow> TemplateEdit list \<Rightarrow> content_error + content_db" where
  "UpdateNoteType sha1 ids db now userID ntID name css sortFieldIdx flds templates =
     bindE (LockNoteTypeForEdit db ntID userID) (\<lambda>nt.
     if nt_IsCloze nt \<and> length templates \<noteq> 1 then Inl ErrClozeNoteTypeSingleTemplate
     else
       bindE (ListFieldsForNoteType db ntID) (\<lambda>existingFields.
       bindE (ListTemplatesForNoteType db ntID) (\<lambda>existingTemplates.
       bindE (UpdateNoteTypeRow db name css sortFieldIdx ntID userID) (\<lambda>(_, db1).
       bindE (planFields existingFields flds) (\<lambda>fieldsPlan.
       bindE (applyFieldPlan sha1 ids db1 now ntID flds fieldsPlan) (\<lambda>db2.
       bindE (planTemplates existingTemplates templates) (\<lambda>templatesPlan.
       applyTemplatePlan ids db2 ntID templates templatesPlan)))))))"

end
