(* ===== verification/Note_Type_Lemmas.thy ===== *)
theory Note_Type_Lemmas
  imports Note_Type_Edit
begin

text \<open>
  What a structural edit of a note type keeps: the plan is checked against the stored rows, the phases of
  the remap compose to one map over the cards, and each card stays with its template.
\<close>

section \<open>The plan\<close>

text \<open>The ids of the submitted rows that exist already.\<close>

definition given :: "pguuid list \<Rightarrow> uuid list" where
  "given es = List.map_filter (\<lambda>x. x) es"

lemma given_simps [simp]:
  "given [] = []" "given (None # es) = given es" "given (Some i # es) = i # given es"
  by (simp_all add: given_def List.map_filter_simps)

lemma given_set: "i \<in> set (given es) \<longleftrightarrow> Some i \<in> set es"
  by (induction es) (auto simp: given_def List.map_filter_simps split: option.splits)

lemma map_of_rev_distinct: "distinct (map fst xs) \<Longrightarrow> map_of (rev xs) = map_of xs"
proof (rule ext)
  fix k assume d: "distinct (map fst xs)"
  then have "distinct (map fst (rev xs))" by (simp add: rev_map [symmetric])
  with d show "map_of (rev xs) k = map_of xs k"
    using map_of_eq_None_iff [of xs k] map_of_eq_None_iff [of "rev xs" k]
    by (cases "map_of xs k") (simp_all add: map_of_eq_Some_iff)
qed

lemma plan_entries_Inr:
  assumes "plan_entries ordOf err seen es = Inr (kept, seen')"
  shows "kept = map (\<lambda>e. case e of None \<Rightarrow> -1 | Some i \<Rightarrow> the (ordOf i)) es"
    "set seen' = set seen \<union> set (given es)" "distinct (given es)" "set (given es) \<inter> set seen = {}"
    "\<forall>i\<in>set (given es). ordOf i \<noteq> None"
  using assms
proof (atomize (full), induction ordOf err seen es arbitrary: kept rule: plan_entries.induct)
  case (2 ordOf err seen es)
  then show ?case by (auto simp: bindE_eq_Inr)
next
  case (3 ordOf err seen i es)
  from 3(2) obtain old where old: "ordOf i = Some old" "i \<notin> set seen"
    and rest: "bindE (plan_entries ordOf err (i # seen) es) (\<lambda>(kept, seen'). Inr (old # kept, seen')) = Inr (kept, seen')"
    by (auto split: option.splits if_splits)
  then obtain k where "plan_entries ordOf err (i # seen) es = Inr (k, seen')" "kept = old # k"
    by (auto simp: bindE_eq_Inr)
  with 3(1) [OF old, of k] old show ?case by auto
qed simp

lemma plan_entries_total:
  "distinct (given es) \<Longrightarrow> set (given es) \<inter> set seen = {} \<Longrightarrow> \<forall>i\<in>set (given es). ordOf i \<noteq> None \<Longrightarrow>
     \<exists>kept seen'. plan_entries ordOf err seen es = Inr (kept, seen')"
proof (induction ordOf err seen es rule: plan_entries.induct)
  case (2 ordOf err seen es)
  then obtain k s where "plan_entries ordOf err seen es = Inr (k, s)" by auto
  then show ?case by simp
next
  case (3 ordOf err seen i es)
  from 3(4) obtain old where old: "ordOf i = Some old" by auto
  with 3 obtain k s where "plan_entries ordOf err (i # seen) es = Inr (k, s)" by auto
  with old 3(3) show ?case by simp
qed simp

definition kept_ordinals :: "(uuid \<times> int) list \<Rightarrow> pguuid list \<Rightarrow> int list" where
  "kept_ordinals existing es = map (\<lambda>e. case e of None \<Rightarrow> -1 | Some i \<Rightarrow> the (map_of existing i)) es"

lemma plan_rows_Inr:
  assumes plan: "plan_rows err existing es = Inr p" and ids: "distinct (map fst existing)"
  shows "p = \<lparr>keptOldOrdinal = kept_ordinals existing es,
      removedIDs = filter (\<lambda>i. i \<notin> set (given es)) (map fst existing)\<rparr>"
    "distinct (given es)" "set (given es) \<subseteq> fst ` set existing"
proof -
  from plan obtain kept seen where pe: "plan_entries (map_of (rev existing)) err [] es = Inr (kept, seen)"
    and p: "p = \<lparr>keptOldOrdinal = kept, removedIDs = filter (\<lambda>i. i \<notin> set seen) (map fst existing)\<rparr>"
    by (auto simp: plan_rows_def bindE_eq_Inr)
  note P = plan_entries_Inr [OF pe]
  have rev: "map_of (rev existing) = map_of existing" using ids by (simp add: map_of_rev_distinct)
  show "p = \<lparr>keptOldOrdinal = kept_ordinals existing es,
      removedIDs = filter (\<lambda>i. i \<notin> set (given es)) (map fst existing)\<rparr>"
    using P(1,2) unfolding p rev kept_ordinals_def by simp
  show "distinct (given es)" by (fact P(3))
  show "set (given es) \<subseteq> fst ` set existing" using P(5) unfolding rev by (auto simp: map_of_eq_None_iff)
qed

section \<open>The two tests for a structural change\<close>

lemma submitted_existing_True: "submitted_existing True es = Some ids \<longleftrightarrow> ids = [] \<and> (\<exists>k. es = replicate k None)"
proof (induction es)
  case (Cons e es)
  show ?case
  proof (cases e)
    case None
    have "(\<exists>k. None # es = replicate k None) \<longleftrightarrow> (\<exists>k. es = replicate k None)"
      (is "?l \<longleftrightarrow> ?r")
    proof
      assume ?l
      then obtain k where "None # es = replicate k None" ..
      then show ?r by (cases k) auto
    next
      assume ?r
      then obtain k where "es = replicate k None" ..
      then show ?l by (intro exI [of _ "Suc k"]) simp
    qed
    with Cons None show ?thesis by simp
  next
    case (Some i)
    have "Some i # es \<noteq> replicate k None" for k by (cases k) simp_all
    with Some show ?thesis by simp
  qed
qed auto

lemma submitted_existing_iff:
  "submitted_existing False es = Some ids \<longleftrightarrow> (\<exists>k. es = map Some ids @ replicate k None)"
proof (induction es arbitrary: ids)
  case Nil
  then show ?case by auto
next
  case (Cons e es)
  show ?case
  proof (cases e)
    case None
    have "(\<exists>k. None # es = map Some ids @ replicate k None) \<longleftrightarrow> ids = [] \<and> (\<exists>k. es = replicate k None)"
      (is "?l = ?r")
    proof
      assume ?l
      then obtain k where k: "None # es = map Some ids @ replicate k None" ..
      then have "ids = []" by (cases ids) auto
      with k show ?r by (cases k) auto
    next
      assume ?r
      then obtain k where "es = replicate k None" "ids = []" by blast
      then show ?l by (intro exI [of _ "Suc k"]) simp
    qed
    with None submitted_existing_True show ?thesis by simp
  next
    case (Some i)
    have "(\<exists>k. Some i # es = map Some ids @ replicate k None)
        \<longleftrightarrow> (\<exists>ids'. ids = i # ids' \<and> (\<exists>k. es = map Some ids' @ replicate k None))"
    proof
      assume "\<exists>k. Some i # es = map Some ids @ replicate k None"
      then obtain k where k: "Some i # es = map Some ids @ replicate k None" ..
      then obtain ids' where "ids = i # ids'" by (cases ids; cases k) auto
      with k show "\<exists>ids'. ids = i # ids' \<and> (\<exists>k. es = map Some ids' @ replicate k None)" by auto
    qed auto
    with Some Cons.IH show ?thesis by auto
  qed
qed

lemma order_changed_iff: "\<not> order_changed ids es \<longleftrightarrow> (\<exists>k. es = map Some ids @ replicate k None)"
proof -
  have eq: "length xs = length ys \<and> \<not> list_ex (\<lambda>(a, b). a \<noteq> b) (zip xs ys) \<longleftrightarrow> xs = ys" for xs ys :: "uuid list"
    by (induction xs ys rule: list_induct2') auto
  have "\<not> order_changed ids es \<longleftrightarrow> submitted_existing False es = Some ids"
    using eq by (auto simp: order_changed_def split: option.splits)
  then show ?thesis by (simp add: submitted_existing_iff)
qed

lemma given_append [simp]: "given (es @ fs) = given es @ given fs"
  by (induction es) (auto simp: given_def List.map_filter_simps split: option.splits)

lemma given_map_Some [simp]: "given (map Some ids) = ids"
  by (induction ids) simp_all

lemma given_replicate [simp]: "given (replicate k None) = []"
  by (induction k) simp_all

text \<open>The plan of an edit that needs no confirmation: every stored row keeps its place.\<close>

lemma unchanged_plan:
  assumes same: "\<not> order_changed (map fst existing) es" and ids: "distinct (map fst existing)"
    and plan: "plan_rows err existing es = Inr p"
  shows "\<exists>k. length es = length existing + k \<and> es = map (Some \<circ> fst) existing @ replicate k None
    \<and> p = \<lparr>keptOldOrdinal = map snd existing @ replicate k (-1), removedIDs = []\<rparr>"
proof -
  from same obtain k where es: "es = map Some (map fst existing) @ replicate k None" by (auto simp: order_changed_iff)
  have "kept_ordinals existing es = map snd existing @ replicate k (-1)"
    using ids by (auto simp: kept_ordinals_def es map_of_eq_Some_iff)
  moreover have "filter (\<lambda>i. i \<notin> set (given es)) (map fst existing) = []" by (simp add: es filter_empty_conv del: List.map_map)
  ultimately show ?thesis using plan_rows_Inr(1) [OF plan ids] es by (intro exI [of _ k]) simp
qed

section \<open>The template loop\<close>

type_synonym template_entry = "nat \<times> TemplateEdit \<times> int"

definition kept_entries :: "template_entry list \<Rightarrow> (uuid \<times> nat \<times> TemplateEdit) list" where
  "kept_entries es = List.map_filter (\<lambda>(i, t, old). if old \<ge> 0 then Some (the (te_ID t), i, t) else None) es"

definition write_row :: "uuid \<Rightarrow> (uuid \<times> nat \<times> TemplateEdit) list \<Rightarrow> template_row \<Rightarrow> template_row" where
  "write_row ntID ks t =
     (if tp_NoteTypeID t \<noteq> ntID then t
      else (case map_of ks (tp_ID t) of
          None \<Rightarrow> t
        | Some (i, e) \<Rightarrow> t\<lparr>tp_Name := te_Name e, tp_Qfmt := te_Qfmt e, tp_Afmt := te_Afmt e, tp_Ordinal := int i\<rparr>))"

definition new_rows :: "new_ids \<Rightarrow> uuid \<Rightarrow> template_entry list \<Rightarrow> template_row list" where
  "new_rows ids ntID es = List.map_filter (\<lambda>(i, t, old). if old \<ge> 0 then None
     else Some \<lparr>tp_ID = ni_template ids i, tp_NoteTypeID = ntID, tp_Ordinal = int i, tp_Name = te_Name t,
       tp_Qfmt = te_Qfmt t, tp_Afmt = te_Afmt t, tp_BrowserQfmt = [], tp_BrowserAfmt = []\<rparr>) es"

definition changed_of :: "template_entry list \<Rightarrow> TemplateOrdinalChange list" where
  "changed_of es = List.map_filter (\<lambda>(i, t, old). if old \<ge> 0 \<and> old \<noteq> int i
     then Some \<lparr>tc_TemplateID = the (te_ID t), tc_NewOrdinal = int i\<rparr> else None) es"

definition added_of :: "new_ids \<Rightarrow> template_entry list \<Rightarrow> AddedTemplate list" where
  "added_of ids es = List.map_filter (\<lambda>(i, t, old). if old \<ge> 0 then None
     else Some \<lparr>at_TemplateID = ni_template ids i, at_Ordinal = int i\<rparr>) es"

lemmas entry_defs = kept_entries_def new_rows_def changed_of_def added_of_def

lemma entry_simps [simp]:
  "kept_entries [] = []" "new_rows ids ntID [] = []" "changed_of [] = []" "added_of ids [] = []"
  "old \<ge> 0 \<Longrightarrow> kept_entries ((i, t, old) # es) = (the (te_ID t), i, t) # kept_entries es"
  "old \<ge> 0 \<Longrightarrow> new_rows ids ntID ((i, t, old) # es) = new_rows ids ntID es"
  "old \<ge> 0 \<Longrightarrow> added_of ids ((i, t, old) # es) = added_of ids es"
  "old < 0 \<Longrightarrow> kept_entries ((i, t, old) # es) = kept_entries es"
  "old < 0 \<Longrightarrow> changed_of ((i, t, old) # es) = changed_of es"
  "old < 0 \<Longrightarrow> added_of ids ((i, t, old) # es) = \<lparr>at_TemplateID = ni_template ids i, at_Ordinal = int i\<rparr> # added_of ids es"
  "old < 0 \<Longrightarrow> new_rows ids ntID ((i, t, old) # es) =
     \<lparr>tp_ID = ni_template ids i, tp_NoteTypeID = ntID, tp_Ordinal = int i, tp_Name = te_Name t,
       tp_Qfmt = te_Qfmt t, tp_Afmt = te_Afmt t, tp_BrowserQfmt = [], tp_BrowserAfmt = []\<rparr> # new_rows ids ntID es"
  by (simp_all add: entry_defs List.map_filter_simps)

lemma write_row_simps [simp]:
  "tp_ID (write_row ntID ks t) = tp_ID t" "tp_NoteTypeID (write_row ntID ks t) = tp_NoteTypeID t"
  by (simp_all add: write_row_def split: option.splits prod.splits)

lemma write_templates_Inr:
  assumes "foldE (write_template ids ntID) (d, ch, ad) es = Inr (d', ch', ad')"
    and "distinct (map fst (kept_entries es))"
    and "\<forall>x\<in>fst ` set (kept_entries es). \<exists>t\<in>set (cd_templates d). tp_ID t = x"
    and "pk tp_ID (cd_templates d)"
  shows "d' = d\<lparr>cd_templates := map (write_row ntID (kept_entries es)) (cd_templates d) @ new_rows ids ntID es\<rparr>
    \<and> ch' = ch @ changed_of es \<and> ad' = ad @ added_of ids es \<and> pk tp_ID (cd_templates d')"
  using assms
proof (induction es arbitrary: d ch ad)
  case Nil
  have "map (write_row ntID []) (cd_templates d) = cd_templates d" by (simp add: map_idI write_row_def)
  with Nil show ?case by simp
next
  case (Cons e es)
  obtain i t old where e: "e = (i, t, old)" by (cases e)
  show ?case
  proof (cases "old \<ge> 0")
    case True
    let ?x = "the (te_ID t)"
    let ?p = "\<lambda>r. tp_ID r = ?x \<and> tp_NoteTypeID r = ntID"
    let ?f = "\<lambda>r. r\<lparr>tp_Name := te_Name t, tp_Qfmt := te_Qfmt t, tp_Afmt := te_Afmt t, tp_Ordinal := int i\<rparr>"
    let ?d = "d\<lparr>cd_templates := map_rows ?p ?f (cd_templates d)\<rparr>"
    let ?ch = "if old \<noteq> int i then ch @ [\<lparr>tc_TemplateID = ?x, tc_NewOrdinal = int i\<rparr>] else ch"
    from Cons.prems(1) True have rest: "foldE (write_template ids ntID) (?d, ?ch, ad) es = Inr (d', ch', ad')"
      by (auto simp: e write_template_def UpdateTemplateContentAndOrdinal_def bindE_eq_Inr Let_def split: if_splits)
    have ids_same: "map tp_ID (map_rows ?p ?f (cd_templates d)) = map tp_ID (cd_templates d)" by (simp add: map_rows_def)
    have ex: "(\<exists>t\<in>set (map_rows ?p ?f (cd_templates d)). tp_ID t = x) = (\<exists>t\<in>set (cd_templates d). tp_ID t = x)" for x
      by (rule ex_key_cong [OF ids_same])
    have "d' = ?d\<lparr>cd_templates := map (write_row ntID (kept_entries es)) (cd_templates ?d) @ new_rows ids ntID es\<rparr>
        \<and> ch' = ?ch @ changed_of es \<and> ad' = ad @ added_of ids es \<and> pk tp_ID (cd_templates d')"
      by (rule Cons.IH [OF rest]) (use Cons.prems True ids_same in \<open>auto simp: e ex pk_def\<close>)
    moreover have row: "write_row ntID (kept_entries es) (if ?p r then ?f r else r) = write_row ntID (kept_entries (e # es)) r" for r
    proof (cases "?p r")
      case p: True
      have "map_of (kept_entries es) ?x = None" using Cons.prems(2) True by (simp add: e map_of_eq_None_iff)
      with p True show ?thesis by (simp add: e write_row_def)
    next
      case False
      with True show ?thesis by (auto simp: e write_row_def)
    qed
    moreover have "map (write_row ntID (kept_entries es)) (cd_templates ?d) = map (write_row ntID (kept_entries (e # es))) (cd_templates d)"
      by (simp add: map_rows_def o_def row)
    moreover have "?ch @ changed_of es = ch @ changed_of (e # es)"
      using True by (simp add: e changed_of_def List.map_filter_simps)
    ultimately show ?thesis using True by (clarsimp simp: e)
  next
    case False
    let ?r = "\<lparr>tp_ID = ni_template ids i, tp_NoteTypeID = ntID, tp_Ordinal = int i, tp_Name = te_Name t,
       tp_Qfmt = te_Qfmt t, tp_Afmt = te_Afmt t, tp_BrowserQfmt = [], tp_BrowserAfmt = []\<rparr>"
    let ?d = "d\<lparr>cd_templates := cd_templates d @ [?r]\<rparr>"
    let ?ad = "ad @ [\<lparr>at_TemplateID = ni_template ids i, at_Ordinal = int i\<rparr>]"
    from Cons.prems(1) False have rest: "foldE (write_template ids ntID) (?d, ch, ?ad) es = Inr (d', ch', ad')"
      and fresh: "row_of tp_ID (ni_template ids i) (cd_templates d) = None"
      by (auto simp: e write_template_def CreateTemplate_def bindE_eq_Inr split: if_splits)
    have "d' = ?d\<lparr>cd_templates := map (write_row ntID (kept_entries es)) (cd_templates ?d) @ new_rows ids ntID es\<rparr>
        \<and> ch' = ch @ changed_of es \<and> ad' = ?ad @ added_of ids es \<and> pk tp_ID (cd_templates d')"
      by (rule Cons.IH [OF rest]) (use Cons.prems False fresh in \<open>auto simp: e pk_snoc row_of_None\<close>)
    moreover have "write_row ntID (kept_entries es) ?r = ?r"
    proof -
      have "map_of (kept_entries es) (ni_template ids i) = None"
        using Cons.prems(3) False fresh by (auto simp: e map_of_eq_None_iff row_of_None)
      then show ?thesis by (simp add: write_row_def)
    qed
    ultimately show ?thesis using False by (clarsimp simp: e)
  qed
qed

section \<open>The phases of the card remap\<close>

lemma set_ordinals_Inr:
  assumes "set_ordinals db p f = Inr (n, db')"
  shows "db' = db\<lparr>cd_cards := map_rows p (\<lambda>c. c\<lparr>c_Ordinal := f c\<rparr>) (cd_cards db)\<rparr>"
    "content_keys db \<Longrightarrow> content_keys db'"
proof -
  let ?cards = "map_rows p (\<lambda>c. c\<lparr>c_Ordinal := f c\<rparr>) (cd_cards db)"
  show db': "db' = db\<lparr>cd_cards := ?cards\<rparr>"
    using assms by (auto simp: set_ordinals_def Let_def split: if_splits)
  have "distinct (map card_place ?cards)"
    using assms by (auto simp: set_ordinals_def Let_def split: if_splits)
  moreover have "map c_ID ?cards = map c_ID (cd_cards db)" by (simp add: map_rows_def)
  ultimately show "content_keys db \<Longrightarrow> content_keys db'" by (simp add: db' content_keys_def pk_def)
qed

lemma CreateCardsForNewTemplate_Inr:
  assumes "CreateCardsForNewTemplate db newID t ord ntID = Inr db'"
  shows "\<exists>new. db' = db\<lparr>cd_cards := cd_cards db @ new\<rparr>
    \<and> (\<forall>c\<in>set new. c_TemplateID c = t \<and> c_Ordinal c = ord \<and> c_NoteID c \<in> n_ID ` set (notes_of_type db ntID))
    \<and> (content_keys db \<longrightarrow> content_keys db')
    \<and> (\<forall>n\<in>set (notes_of_type db ntID). \<exists>c\<in>set (cd_cards db'). card_place c = (n_ID n, ord))"
proof -
  define step where "step = (\<lambda>d n. if row_of card_place (n_ID n, ord) (cd_cards d) \<noteq> None then Inr d
     else insert_card d (card_row (newID (n_ID n)) (n_ID n) t ord (n_DeckID n)
       (last_position db (n_DeckID n) + row_number (template_targets db ntID) n)))"
  have loop: "\<exists>new. d' = d\<lparr>cd_cards := cd_cards d @ new\<rparr>
      \<and> (\<forall>c\<in>set new. c_TemplateID c = t \<and> c_Ordinal c = ord \<and> c_NoteID c \<in> n_ID ` set ns)
      \<and> (content_keys d \<longrightarrow> content_keys d')
      \<and> (\<forall>n\<in>set ns. \<exists>c\<in>set (cd_cards d'). card_place c = (n_ID n, ord))"
    if "foldE step d ns = Inr d'" for d d' ns
    using that
  proof (induction ns arbitrary: d)
    case Nil
    then show ?case by simp
  next
    case (Cons n ns)
    from Cons.prems obtain d1 where s: "step d n = Inr d1" and r: "foldE step d1 ns = Inr d'"
      by (auto simp: bindE_eq_Inr)
    from Cons.IH [OF r] obtain new where new: "d' = d1\<lparr>cd_cards := cd_cards d1 @ new\<rparr>"
      "\<forall>c\<in>set new. c_TemplateID c = t \<and> c_Ordinal c = ord \<and> c_NoteID c \<in> n_ID ` set ns"
      "content_keys d1 \<longrightarrow> content_keys d'" "\<forall>n\<in>set ns. \<exists>c\<in>set (cd_cards d'). card_place c = (n_ID n, ord)" by blast
    have "\<exists>one. d1 = d\<lparr>cd_cards := cd_cards d @ one\<rparr>
        \<and> (\<forall>c\<in>set one. c_TemplateID c = t \<and> c_Ordinal c = ord \<and> c_NoteID c = n_ID n)
        \<and> (content_keys d \<longrightarrow> content_keys d1) \<and> (\<exists>c\<in>set (cd_cards d1). card_place c = (n_ID n, ord))"
    proof (cases "row_of card_place (n_ID n, ord) (cd_cards d)")
      case (Some c)
      from row_of_Some [OF this] have "\<exists>c\<in>set (cd_cards d). card_place c = (n_ID n, ord)" by blast
      with s Some show ?thesis by (intro exI [of _ "[]"]) (simp add: step_def)
    next
      case None
      with s have ins: "insert_card d (card_row (newID (n_ID n)) (n_ID n) t ord (n_DeckID n)
        (last_position db (n_DeckID n) + row_number (template_targets db ntID) n)) = Inr d1" (is "insert_card d ?c = _")
        by (simp add: step_def)
      from insert_card_Inr(1) [OF ins] insert_card_keys [OF ins] show ?thesis
        by (intro exI [of _ "[?c]"]) (simp add: card_place_def)
    qed
    then obtain one where "d1 = d\<lparr>cd_cards := cd_cards d @ one\<rparr>"
      "\<forall>c\<in>set one. c_TemplateID c = t \<and> c_Ordinal c = ord \<and> c_NoteID c = n_ID n"
      "content_keys d \<longrightarrow> content_keys d1" "\<exists>c\<in>set (cd_cards d1). card_place c = (n_ID n, ord)" by blast
    with new show ?case by (intro exI [of _ "one @ new"]) auto
  qed
  from assms have "foldE step db (template_targets db ntID) = Inr db'"
    by (simp add: CreateCardsForNewTemplate_def bindE_eq_Inr step_def)
  from loop [OF this] show ?thesis by (simp add: template_targets_def notes_of_type_def)
qed

lemma add_templates_Inr:
  assumes "foldE (\<lambda>d a. CreateCardsForNewTemplate d (newID (at_TemplateID a)) (at_TemplateID a) (at_Ordinal a) ntID) db added = Inr db'"
  shows "\<exists>new. db' = db\<lparr>cd_cards := cd_cards db @ new\<rparr>
    \<and> (\<forall>c\<in>set new. (\<exists>a\<in>set added. c_TemplateID c = at_TemplateID a \<and> c_Ordinal c = at_Ordinal a)
         \<and> c_NoteID c \<in> n_ID ` set (notes_of_type db ntID))
    \<and> (content_keys db \<longrightarrow> content_keys db')
    \<and> (\<forall>a\<in>set added. \<forall>n\<in>set (notes_of_type db ntID). \<exists>c\<in>set (cd_cards db'). card_place c = (n_ID n, at_Ordinal a))"
  using assms
proof (induction added arbitrary: db)
  case Nil
  then show ?case by simp
next
  case (Cons a added)
  from Cons.prems obtain d where s: "CreateCardsForNewTemplate db (newID (at_TemplateID a)) (at_TemplateID a) (at_Ordinal a) ntID = Inr d"
    and r: "foldE (\<lambda>d a. CreateCardsForNewTemplate d (newID (at_TemplateID a)) (at_TemplateID a) (at_Ordinal a) ntID) d added = Inr db'"
    by (auto simp: bindE_eq_Inr)
  from CreateCardsForNewTemplate_Inr [OF s] obtain one where one: "d = db\<lparr>cd_cards := cd_cards db @ one\<rparr>"
    "\<forall>c\<in>set one. c_TemplateID c = at_TemplateID a \<and> c_Ordinal c = at_Ordinal a \<and> c_NoteID c \<in> n_ID ` set (notes_of_type db ntID)"
    "content_keys db \<longrightarrow> content_keys d"
    "\<forall>n\<in>set (notes_of_type db ntID). \<exists>c\<in>set (cd_cards d). card_place c = (n_ID n, at_Ordinal a)" by blast
  from Cons.IH [OF r] obtain new where new: "db' = d\<lparr>cd_cards := cd_cards d @ new\<rparr>"
    "\<forall>c\<in>set new. (\<exists>a\<in>set added. c_TemplateID c = at_TemplateID a \<and> c_Ordinal c = at_Ordinal a)
         \<and> c_NoteID c \<in> n_ID ` set (notes_of_type d ntID)" "content_keys d \<longrightarrow> content_keys db'"
    "\<forall>a\<in>set added. \<forall>n\<in>set (notes_of_type d ntID). \<exists>c\<in>set (cd_cards db'). card_place c = (n_ID n, at_Ordinal a)" by blast
  have same: "notes_of_type d ntID = notes_of_type db ntID" by (simp add: one(1) notes_of_type_def)
  show ?case
    by (rule exI [of _ "one @ new"]) (use one new same in auto)
qed

definition change_map :: "TemplateOrdinalChange list \<Rightarrow> uuid \<Rightarrow> int option" where
  "change_map changed = map_of (zip (map tc_TemplateID changed) (map tc_NewOrdinal changed))"

definition staged :: "TemplateOrdinalChange list \<Rightarrow> note_card \<Rightarrow> note_card" where
  "staged changed c = (if c_TemplateID c \<in> tc_TemplateID ` set changed then c\<lparr>c_Ordinal := - (c_Ordinal c + 1)\<rparr> else c)"

definition placed :: "TemplateOrdinalChange list \<Rightarrow> note_card \<Rightarrow> note_card" where
  "placed changed c = (case change_map changed (c_TemplateID c) of None \<Rightarrow> c | Some k \<Rightarrow> c\<lparr>c_Ordinal := k\<rparr>)"

lemma change_map_Nil [simp]: "change_map [] = (\<lambda>_. None)"
  by (rule ext) (simp add: change_map_def)

lemma change_map_dom: "change_map changed t = None \<longleftrightarrow> t \<notin> tc_TemplateID ` set changed"
  by (simp add: change_map_def map_of_eq_None_iff set_map [symmetric] del: set_map)

lemma placed_simps [simp]:
  "c_ID (placed ch c) = c_ID c" "c_NoteID (placed ch c) = c_NoteID c" "c_TemplateID (placed ch c) = c_TemplateID c"
  "c_DeckID (placed ch c) = c_DeckID c" "placed [] c = c"
  by (simp_all add: placed_def split: option.splits)

lemma staged_simps [simp]:
  "c_ID (staged ch c) = c_ID c" "c_NoteID (staged ch c) = c_NoteID c" "c_TemplateID (staged ch c) = c_TemplateID c"
  "c_DeckID (staged ch c) = c_DeckID c" "staged [] c = c" "placed ch (staged ch c) = placed ch c"
  by (auto simp: staged_def placed_def change_map_dom split: option.splits)

lemma staged_unmoved: "c_TemplateID c \<notin> tc_TemplateID ` set ch \<Longrightarrow> staged ch c = c"
  by (simp add: staged_def)

lemma placed_unmoved: "c_TemplateID c \<notin> tc_TemplateID ` set ch \<Longrightarrow> placed ch c = c"
  by (simp add: placed_def change_map_dom [symmetric])

lemma offset_phase:
  assumes "(if ch \<noteq> [] then bindE (OffsetCardOrdinalsForTemplates db (map tc_TemplateID ch)) (\<lambda>(_, d). Inr d) else Inr db) = Inr db1"
  shows "db1 = db\<lparr>cd_cards := map (staged ch) (cd_cards db)\<rparr>" "content_keys db \<Longrightarrow> content_keys db1"
proof (atomize (full), cases "ch = []")
  case True
  with assms show "db1 = db\<lparr>cd_cards := map (staged ch) (cd_cards db)\<rparr> \<and> (content_keys db \<longrightarrow> content_keys db1)"
    by (simp add: map_idI)
next
  case False
  with assms obtain n where "set_ordinals db (\<lambda>c. c_TemplateID c \<in> set (map tc_TemplateID ch)) (\<lambda>c. - (c_Ordinal c + 1)) = Inr (n, db1)"
    by (auto simp: OffsetCardOrdinalsForTemplates_def bindE_eq_Inr split: if_splits)
  from set_ordinals_Inr [OF this]
  show "db1 = db\<lparr>cd_cards := map (staged ch) (cd_cards db)\<rparr> \<and> (content_keys db \<longrightarrow> content_keys db1)"
    by (simp add: map_rows_def staged_def [abs_def])
qed

lemma finalize_phase:
  assumes "(if ch \<noteq> [] then bindE (FinalizeCardOrdinalsForTemplates db (map tc_TemplateID ch) (map tc_NewOrdinal ch)) (\<lambda>(_, d). Inr d)
     else Inr db) = Inr db1"
  shows "db1 = db\<lparr>cd_cards := map (placed ch) (cd_cards db)\<rparr>" "content_keys db \<Longrightarrow> content_keys db1"
proof (atomize (full), cases "ch = []")
  case True
  with assms show "db1 = db\<lparr>cd_cards := map (placed ch) (cd_cards db)\<rparr> \<and> (content_keys db \<longrightarrow> content_keys db1)"
    by (simp add: map_idI)
next
  case False
  with assms obtain n where "set_ordinals db (\<lambda>c. change_map ch (c_TemplateID c) \<noteq> None)
      (\<lambda>c. the (change_map ch (c_TemplateID c))) = Inr (n, db1)"
    by (auto simp: FinalizeCardOrdinalsForTemplates_def change_map_def [symmetric] bindE_eq_Inr
      simp del: not_None_eq split: if_splits)
  note S = set_ordinals_Inr [OF this]
  have "placed ch = (\<lambda>c. if change_map ch (c_TemplateID c) \<noteq> None then c\<lparr>c_Ordinal := the (change_map ch (c_TemplateID c))\<rparr> else c)"
    by (rule ext) (simp add: placed_def split: option.splits)
  with S show "db1 = db\<lparr>cd_cards := map (placed ch) (cd_cards db)\<rparr> \<and> (content_keys db \<longrightarrow> content_keys db1)"
    by (simp only: map_rows_def) simp
qed

lemma remove_phase:
  assumes "(if removed \<noteq> [] then bindE (DeleteCardsForTemplates db removed) (\<lambda>(_, d).
      bindE (DeleteTemplatesByIDs d ntID removed) (\<lambda>(_, d'). Inr d')) else Inr db) = Inr db1"
  shows "db1 = (delete_cards (\<lambda>c. c_TemplateID c \<in> set removed) db)
      \<lparr>cd_templates := filter (\<lambda>t. \<not> (tp_NoteTypeID t = ntID \<and> tp_ID t \<in> set removed)) (cd_templates db)\<rparr>"
proof (cases "removed = []")
  case True
  with assms show ?thesis by (cases db) (simp add: delete_cards_def Let_def)
next
  case False
  with assms show ?thesis
    by (auto simp: DeleteCardsForTemplates_def DeleteTemplatesByIDs_def bindE_eq_Inr Let_def split: if_splits)
qed

lemma RemapNoteTypeCards_Inr:
  assumes "RemapNoteTypeCards newID db ntID ch removed added = Inr db'"
  obtains new where "cd_cards db' = map (placed ch) (filter (\<lambda>c. c_TemplateID c \<notin> set removed) (cd_cards db) @ new)"
    "\<forall>c\<in>set new. (\<exists>a\<in>set added. c_TemplateID c = at_TemplateID a \<and> c_Ordinal c = at_Ordinal a)
         \<and> c_NoteID c \<in> n_ID ` set (notes_of_type db ntID)"
    "\<forall>a\<in>set added. \<forall>n\<in>set (notes_of_type db ntID).
       \<exists>c\<in>set (map (staged ch) (filter (\<lambda>c. c_TemplateID c \<notin> set removed) (cd_cards db)) @ new). card_place c = (n_ID n, at_Ordinal a)"
    "cd_states db' = filter (\<lambda>s. us_CardID s \<notin> c_ID ` set (filter (\<lambda>c. c_TemplateID c \<in> set removed) (cd_cards db))) (cd_states db)"
    "cd_templates db' = filter (\<lambda>t. \<not> (tp_NoteTypeID t = ntID \<and> tp_ID t \<in> set removed)) (cd_templates db)"
    "cd_notes db' = cd_notes db" "cd_decks db' = cd_decks db" "cd_access db' = cd_access db" "cd_fields db' = cd_fields db"
    "cd_noteTypes db' = cd_noteTypes db" "content_keys db \<Longrightarrow> content_keys db'"
proof -
  let ?gone = "\<lambda>c. c_TemplateID c \<in> set removed"
  from assms obtain db1 db2 db3 where
    p1: "(if ch \<noteq> [] then bindE (OffsetCardOrdinalsForTemplates db (map tc_TemplateID ch)) (\<lambda>(_, d). Inr d) else Inr db) = Inr db1"
    and p2: "(if removed \<noteq> [] then bindE (DeleteCardsForTemplates db1 removed) (\<lambda>(_, d).
      bindE (DeleteTemplatesByIDs d ntID removed) (\<lambda>(_, d'). Inr d')) else Inr db1) = Inr db2"
    and p3: "foldE (\<lambda>d a. CreateCardsForNewTemplate d (newID (at_TemplateID a)) (at_TemplateID a) (at_Ordinal a) ntID) db2 added = Inr db3"
    and p4: "(if ch \<noteq> [] then bindE (FinalizeCardOrdinalsForTemplates db3 (map tc_TemplateID ch) (map tc_NewOrdinal ch)) (\<lambda>(_, d). Inr d)
     else Inr db3) = Inr db'"
    unfolding RemapNoteTypeCards_def bindE_eq_Inr by blast
  note P1 = offset_phase [OF p1] and P2 = remove_phase [OF p2] and P4 = finalize_phase [OF p4]
  from add_templates_Inr [OF p3] obtain new where P3: "db3 = db2\<lparr>cd_cards := cd_cards db2 @ new\<rparr>"
    "\<forall>c\<in>set new. (\<exists>a\<in>set added. c_TemplateID c = at_TemplateID a \<and> c_Ordinal c = at_Ordinal a)
         \<and> c_NoteID c \<in> n_ID ` set (notes_of_type db2 ntID)" "content_keys db2 \<longrightarrow> content_keys db3"
    "\<forall>a\<in>set added. \<forall>n\<in>set (notes_of_type db2 ntID). \<exists>c\<in>set (cd_cards db3). card_place c = (n_ID n, at_Ordinal a)" by blast
  have staged_filter: "filter (\<lambda>c. \<not> ?gone c) (map (staged ch) cs) = map (staged ch) (filter (\<lambda>c. \<not> ?gone c) cs)"
    "c_ID ` set (filter ?gone (map (staged ch) cs)) = c_ID ` set (filter ?gone cs)" for cs
    by (auto simp: filter_map o_def image_iff)
  have staged_ids: "c_ID ` {x \<in> staged ch ` A. c_TemplateID x \<in> T} = c_ID ` {x \<in> A. c_TemplateID x \<in> T}" for A T
  proof -
    have "{x \<in> staged ch ` A. c_TemplateID x \<in> T} = staged ch ` {x \<in> A. c_TemplateID x \<in> T}" by auto
    then show ?thesis by (simp add: image_image)
  qed
  have cards2: "cd_cards db2 = map (staged ch) (filter (\<lambda>c. \<not> ?gone c) (cd_cards db))"
    by (simp add: P2 P1(1) staged_filter del: delete_cards_simps(1)) (simp add: staged_filter)
  have notes2: "notes_of_type db2 ntID = notes_of_type db ntID" by (simp add: P2 P1(1) notes_of_type_def)
  show ?thesis
  proof (rule that [of new])
    show "cd_cards db' = map (placed ch) (filter (\<lambda>c. c_TemplateID c \<notin> set removed) (cd_cards db) @ new)"
      by (simp add: P4(1) P3(1) cards2)
    show "\<forall>c\<in>set new. (\<exists>a\<in>set added. c_TemplateID c = at_TemplateID a \<and> c_Ordinal c = at_Ordinal a)
         \<and> c_NoteID c \<in> n_ID ` set (notes_of_type db ntID)" using P3(2) by (simp add: notes2)
    show "\<forall>a\<in>set added. \<forall>n\<in>set (notes_of_type db ntID).
       \<exists>c\<in>set (map (staged ch) (filter (\<lambda>c. c_TemplateID c \<notin> set removed) (cd_cards db)) @ new). card_place c = (n_ID n, at_Ordinal a)"
      using P3(4) by (simp add: P3(1) cards2 notes2)
    show "cd_states db' = filter (\<lambda>s. us_CardID s \<notin> c_ID ` set (filter (\<lambda>c. c_TemplateID c \<in> set removed) (cd_cards db))) (cd_states db)"
      by (simp add: P4(1) P3(1) P2 P1(1) delete_cards_def Let_def staged_ids)
    show "content_keys db \<Longrightarrow> content_keys db'"
    proof -
      assume "content_keys db"
      then have "content_keys (delete_cards ?gone db1)" by (intro delete_cards_keys P1(2))
      then have "content_keys db2" by (simp add: P2 content_keys_def)
      with P3(3) P4(2) show "content_keys db'" by blast
    qed
  qed (simp_all add: P4(1) P3(1) P2 P1(1) delete_cards_def Let_def)
qed

section \<open>The notes after an edit\<close>

definition edited_note :: "(string \<Rightarrow> 8 word list) \<Rightarrow> gotime \<Rightarrow> edit_plan \<Rightarrow> db_note \<Rightarrow> db_note" where
  "edited_note sha1 now plan n =
     (let olds = keptOldOrdinal plan;
          n1 = (if fieldPlanIsIdentity plan then n
                else n\<lparr>n_Fields := remap_fields olds (n_Fields n), n_ModifiedAt := pg_timestamp now\<rparr>)
      in if olds \<noteq> [] \<and> hd olds \<noteq> 0 \<and> n_Fields n1 \<noteq> []
         then n1\<lparr>n_Checksum := ComputeNoteChecksum sha1 (hd (n_Fields n1))\<rparr> else n1)"

lemma edited_note_simps [simp]:
  "n_ID (edited_note sha1 now plan n) = n_ID n" "n_NoteTypeID (edited_note sha1 now plan n) = n_NoteTypeID n"
  "n_DeckID (edited_note sha1 now plan n) = n_DeckID n" "n_OwnerID (edited_note sha1 now plan n) = n_OwnerID n"
  "n_Guid (edited_note sha1 now plan n) = n_Guid n" "n_Tags (edited_note sha1 now plan n) = n_Tags n"
  by (simp_all add: edited_note_def Let_def)

lemma filter_map_rows: "(\<And>x. p (f x) = p x) \<Longrightarrow> filter p (map_rows p f xs) = map f (filter p xs)"
  by (induction xs) (simp_all add: map_rows_def)

lemma recompute_checksums_Inr:
  assumes r: "recompute_checksums sha1 db ntID = Inr db'" and ids: "pk n_ID (cd_notes db)"
  shows "db' = db\<lparr>cd_notes := map_rows (\<lambda>n. n_NoteTypeID n = ntID)
     (\<lambda>n. if n_Fields n \<noteq> [] then n\<lparr>n_Checksum := ComputeNoteChecksum sha1 (hd (n_Fields n))\<rparr> else n) (cd_notes db)\<rparr>"
proof -
  let ?rows = "filter (\<lambda>(_, vals). vals \<noteq> []) (map (\<lambda>n. (n_ID n, n_Fields n)) (notes_of_type db ntID))"
  let ?m = "map_of (zip (map fst ?rows) (map (\<lambda>(_, vals). ComputeNoteChecksum sha1 (hd vals)) ?rows))"
  let ?f = "\<lambda>n. if n_Fields n \<noteq> [] then n\<lparr>n_Checksum := ComputeNoteChecksum sha1 (hd (n_Fields n))\<rparr> else n"
  have m: "?m = map_of (map (\<lambda>(i, vals). (i, ComputeNoteChecksum sha1 (hd vals))) ?rows)"
    by (simp add: zip_map_map zip_same_conv_map o_def case_prod_unfold)
  have look: "?m (n_ID n) = (if n_NoteTypeID n = ntID \<and> n_Fields n \<noteq> []
      then Some (ComputeNoteChecksum sha1 (hd (n_Fields n))) else None)" if n: "n \<in> set (cd_notes db)" for n
  proof -
    have d: "distinct (map n_ID (filter (\<lambda>n. n_NoteTypeID n = ntID \<and> n_Fields n \<noteq> []) (cd_notes db)))"
      using ids by (simp add: pk_def distinct_map_filter)
    have rows: "map (\<lambda>(i, vals). (i, ComputeNoteChecksum sha1 (hd vals))) ?rows
        = map (\<lambda>n. (n_ID n, ComputeNoteChecksum sha1 (hd (n_Fields n))))
            (filter (\<lambda>n. n_NoteTypeID n = ntID \<and> n_Fields n \<noteq> []) (cd_notes db))"
      by (simp add: notes_of_type_def filter_map o_def conj_commute)
    have inj: "m = n" if "m \<in> set (cd_notes db)" "n_ID m = n_ID n" for m
      using ids n that by (auto simp: pk_def distinct_map inj_on_def)
    show ?thesis
    proof (cases "n_NoteTypeID n = ntID \<and> n_Fields n \<noteq> []")
      case True
      then have "(n_ID n, ComputeNoteChecksum sha1 (hd (n_Fields n)))
          \<in> set (map (\<lambda>n. (n_ID n, ComputeNoteChecksum sha1 (hd (n_Fields n))))
            (filter (\<lambda>n. n_NoteTypeID n = ntID \<and> n_Fields n \<noteq> []) (cd_notes db)))" using n by auto
      with d True show ?thesis unfolding m rows by (subst map_of_is_SomeI) (simp_all add: o_def)
    next
      case False
      then have "n_ID n \<notin> fst ` set (map (\<lambda>n. (n_ID n, ComputeNoteChecksum sha1 (hd (n_Fields n))))
            (filter (\<lambda>n. n_NoteTypeID n = ntID \<and> n_Fields n \<noteq> []) (cd_notes db)))" using inj by auto
      then have "?m (n_ID n) = None" unfolding m rows by (rule iffD2 [OF map_of_eq_None_iff])
      then show ?thesis by (simp only: if_not_P [OF False])
    qed
  qed
  have eq: "map_rows (\<lambda>n. ?m (n_ID n) \<noteq> None) (\<lambda>n. n\<lparr>n_Checksum := the (?m (n_ID n))\<rparr>) (cd_notes db)
      = map_rows (\<lambda>n. n_NoteTypeID n = ntID) ?f (cd_notes db)"
    unfolding map_rows_def by (rule map_cong [OF refl]) (simp only: look, simp)
  show ?thesis
  proof (cases "?rows = []")
    case False
    with r have "db' = db\<lparr>cd_notes := map_rows (\<lambda>n. ?m (n_ID n) \<noteq> None) (\<lambda>n. n\<lparr>n_Checksum := the (?m (n_ID n))\<rparr>) (cd_notes db)\<rparr>"
      unfolding recompute_checksums_def ListNoteFieldsForNoteType_def BulkUpdateNoteChecksums_def bindE_eq_Inr run_c_Inr Let_def
      by (auto simp only: if_False run_c_Inr)
    then show ?thesis by (simp only: eq)
  next
    case True
    then have "map_rows (\<lambda>n. n_NoteTypeID n = ntID) ?f (cd_notes db) = cd_notes db"
      unfolding map_rows_def by (intro map_idI) (auto simp: filter_empty_conv notes_of_type_def)
    moreover from r True have "db' = db"
      unfolding recompute_checksums_def ListNoteFieldsForNoteType_def bindE_eq_Inr run_c_Inr Let_def by auto
    ultimately show ?thesis by simp
  qed
qed

lemma fields_only:
  assumes "foldE f db xs = Inr db'" "\<And>d x d'. f d x = Inr d' \<Longrightarrow> \<exists>F. d' = d\<lparr>cd_fields := F\<rparr>"
  shows "\<exists>F. db' = db\<lparr>cd_fields := F\<rparr>"
  using assms(1)
proof (induction xs arbitrary: db)
  case Nil
  then show ?case by (intro exI [of _ "cd_fields db"]) simp
next
  case (Cons x xs)
  from Cons.prems obtain d where "f db x = Inr d" "foldE f d xs = Inr db'" by (auto simp: bindE_eq_Inr)
  with assms(2) Cons.IH obtain F F' where "d = db\<lparr>cd_fields := F\<rparr>" "db' = d\<lparr>cd_fields := F'\<rparr>" by blast
  then show ?case by (intro exI [of _ F']) simp
qed

lemma applyFieldPlan_Inr:
  assumes ap: "applyFieldPlan sha1 ids db now ntID flds plan = Inr db'" and pk: "pk n_ID (cd_notes db)"
    and len: "length flds = length (keptOldOrdinal plan)"
  shows "\<exists>F. db' = db\<lparr>cd_fields := F,
     cd_notes := map_rows (\<lambda>n. n_NoteTypeID n = ntID) (edited_note sha1 now plan) (cd_notes db)\<rparr>"
proof -
  let ?olds = "keptOldOrdinal plan"
  from ap obtain db1 db2 db3 where s1: "foldE (\<lambda>d i. DeleteField d i ntID) db (removedIDs plan) = Inr db1"
    and s2: "foldE (write_field ids ntID) db1 (enumerate 0 (zip flds ?olds)) = Inr db2"
    and s3: "(if fieldPlanIsIdentity plan then Inr db2 else RemapNoteFields db2 now ?olds ntID) = Inr db3"
    and s4: "(if flds \<noteq> [] \<and> hd ?olds \<noteq> 0 then recompute_checksums sha1 db3 ntID else Inr db3) = Inr db'"
    unfolding applyFieldPlan_def bindE_eq_Inr by blast
  from fields_only [OF s1] obtain F1 where F1: "db1 = db\<lparr>cd_fields := F1\<rparr>"
    by (auto simp: DeleteField_def)
  have "\<exists>F. d' = d\<lparr>cd_fields := F\<rparr>" if "write_field ids ntID d x = Inr d'" for d x d'
    using that by (auto simp: write_field_def UpdateFieldNameAndOrdinal_def CreateField_def bindE_eq_Inr Let_def
      split: prod.splits if_splits)
  with fields_only [OF s2] obtain F2 where F2: "db2 = db1\<lparr>cd_fields := F2\<rparr>" by blast
  let ?g = "\<lambda>n. if fieldPlanIsIdentity plan then n
      else n\<lparr>n_Fields := remap_fields ?olds (n_Fields n), n_ModifiedAt := pg_timestamp now\<rparr>"
  have notes3: "db3 = db2\<lparr>cd_notes := map_rows (\<lambda>n. n_NoteTypeID n = ntID) ?g (cd_notes db)\<rparr>"
  proof (cases "fieldPlanIsIdentity plan")
    case True
    with s3 have "db3 = db2" by simp
    with True show ?thesis by (cases db) (simp add: F1 F2 map_rows_def)
  next
    case False
    with s3 show ?thesis by (auto simp: RemapNoteFields_def bindE_eq_Inr F1 F2 split: if_splits)
  qed
  have pk3: "pk n_ID (cd_notes db3)" using pk by (simp add: notes3 pk_map_rows)
  have ne: "flds \<noteq> [] \<longleftrightarrow> ?olds \<noteq> []" using len by auto
  have "db' = db3\<lparr>cd_notes := map_rows (\<lambda>n. n_NoteTypeID n = ntID) (edited_note sha1 now plan) (cd_notes db)\<rparr>"
  proof (cases "flds \<noteq> [] \<and> hd ?olds \<noteq> 0")
    case True
    with s4 recompute_checksums_Inr [OF _ pk3]
    have "db' = db3\<lparr>cd_notes := map_rows (\<lambda>n. n_NoteTypeID n = ntID)
      (\<lambda>n. if n_Fields n \<noteq> [] then n\<lparr>n_Checksum := ComputeNoteChecksum sha1 (hd (n_Fields n))\<rparr> else n) (cd_notes db3)\<rparr>"
      by simp
    with True ne show ?thesis by (simp add: notes3 map_rows_def edited_note_def Let_def cong: if_cong)
  next
    case False
    with s4 ne have "db' = db3" "edited_note sha1 now plan = ?g" by (auto simp: edited_note_def Let_def)
    then show ?thesis by (simp add: notes3)
  qed
  then show ?thesis by (intro exI [of _ F2]) (simp add: notes3 F1 F2)
qed

section \<open>The entries of the template loop\<close>

definition entries :: "(uuid \<times> int) list \<Rightarrow> TemplateEdit list \<Rightarrow> template_entry list" where
  "entries existing ts = enumerate 0 (zip ts (kept_ordinals existing (map te_ID ts)))"

lemma entries_set:
  "(i, t, old) \<in> set (entries existing ts) \<longleftrightarrow>
     i < length ts \<and> t = ts ! i \<and> old = (case te_ID (ts ! i) of None \<Rightarrow> -1 | Some x \<Rightarrow> the (map_of existing x))"
  by (auto simp: entries_def in_set_enumerate_eq kept_ordinals_def)

lemma set_map_filter: "set (List.map_filter f xs) = {y. \<exists>x\<in>set xs. f x = Some y}"
  by (induction xs) (auto simp: List.map_filter_simps split: option.splits)

text \<open>An edit whose given ids are stored ids with ordinals from 0 on.\<close>

definition known :: "(uuid \<times> int) list \<Rightarrow> TemplateEdit list \<Rightarrow> bool" where
  "known existing ts \<longleftrightarrow> distinct (map fst existing) \<and> (\<forall>(x, k)\<in>set existing. 0 \<le> k)
     \<and> distinct (given (map te_ID ts)) \<and> set (given (map te_ID ts)) \<subseteq> fst ` set existing"

lemma known_old:
  assumes "known existing ts" "i < length ts" "te_ID (ts ! i) = Some x"
  shows "\<exists>k. map_of existing x = Some k \<and> 0 \<le> k"
proof -
  have "Some x \<in> set (map te_ID ts)" using nth_mem [OF assms(2)] assms(3) by (metis image_eqI set_map)
  then have "x \<in> set (given (map te_ID ts))" by (simp add: given_set)
  with assms(1) have "x \<in> fst ` set existing" unfolding known_def by blast
  then obtain k where "(x, k) \<in> set existing" by auto
  with assms(1) show ?thesis by (auto simp: known_def map_of_eq_Some_iff)
qed

lemma kept_entries_set:
  assumes "known existing ts"
  shows "(x, i, t) \<in> set (kept_entries (entries existing ts)) \<longleftrightarrow> i < length ts \<and> t = ts ! i \<and> te_ID t = Some x"
proof -
  have "(x, i, t) \<in> set (kept_entries (entries existing ts)) \<longleftrightarrow>
     (\<exists>old. (i, t, old) \<in> set (entries existing ts) \<and> 0 \<le> old \<and> x = the (te_ID t))"
    by (force simp: kept_entries_def set_map_filter split: if_splits)
  also have "\<dots> \<longleftrightarrow> i < length ts \<and> t = ts ! i \<and> te_ID t = Some x"
    using known_old [OF assms, of i] by (auto simp: entries_set split: option.splits)
  finally show ?thesis .
qed

lemma changed_of_set:
  assumes "known existing ts"
  shows "c \<in> set (changed_of (entries existing ts)) \<longleftrightarrow>
     (\<exists>i<length ts. \<exists>x. te_ID (ts ! i) = Some x \<and> map_of existing x \<noteq> Some (int i)
        \<and> c = \<lparr>tc_TemplateID = x, tc_NewOrdinal = int i\<rparr>)"
proof -
  have "c \<in> set (changed_of (entries existing ts)) \<longleftrightarrow>
     (\<exists>i t old. (i, t, old) \<in> set (entries existing ts) \<and> 0 \<le> old \<and> old \<noteq> int i
        \<and> c = \<lparr>tc_TemplateID = the (te_ID t), tc_NewOrdinal = int i\<rparr>)"
    by (force simp: changed_of_def set_map_filter split: if_splits)
  also have "\<dots> \<longleftrightarrow> (\<exists>i<length ts. \<exists>x. te_ID (ts ! i) = Some x \<and> map_of existing x \<noteq> Some (int i)
        \<and> c = \<lparr>tc_TemplateID = x, tc_NewOrdinal = int i\<rparr>)"
    using known_old [OF assms] by (fastforce simp: entries_set split: option.splits)
  finally show ?thesis .
qed

lemma added_of_set:
  assumes "known existing ts"
  shows "a \<in> set (added_of ids (entries existing ts)) \<longleftrightarrow>
     (\<exists>i<length ts. te_ID (ts ! i) = None \<and> a = \<lparr>at_TemplateID = ni_template ids i, at_Ordinal = int i\<rparr>)"
    "t \<in> set (new_rows ids ntID (entries existing ts)) \<longleftrightarrow>
     (\<exists>i<length ts. te_ID (ts ! i) = None \<and> t = \<lparr>tp_ID = ni_template ids i, tp_NoteTypeID = ntID, tp_Ordinal = int i,
        tp_Name = te_Name (ts ! i), tp_Qfmt = te_Qfmt (ts ! i), tp_Afmt = te_Afmt (ts ! i),
        tp_BrowserQfmt = [], tp_BrowserAfmt = []\<rparr>)"
proof -
  have old: "0 \<le> old \<longleftrightarrow> te_ID (ts ! i) \<noteq> None" if "(i, t, old) \<in> set (entries existing ts)" for i t old
    using that known_old [OF assms, of i] by (auto simp: entries_set split: option.splits)
  have mem: "\<exists>old. (i, ts ! i, old) \<in> set (entries existing ts)" if "i < length ts" for i
    using that by (auto simp: entries_set)
  show "a \<in> set (added_of ids (entries existing ts)) \<longleftrightarrow>
     (\<exists>i<length ts. te_ID (ts ! i) = None \<and> a = \<lparr>at_TemplateID = ni_template ids i, at_Ordinal = int i\<rparr>)"
  proof
    assume "a \<in> set (added_of ids (entries existing ts))"
    then obtain i t old where "(i, t, old) \<in> set (entries existing ts)" "\<not> 0 \<le> old"
      "a = \<lparr>at_TemplateID = ni_template ids i, at_Ordinal = int i\<rparr>"
      by (auto simp: added_of_def set_map_filter split: if_splits)
    with old show "\<exists>i<length ts. te_ID (ts ! i) = None \<and> a = \<lparr>at_TemplateID = ni_template ids i, at_Ordinal = int i\<rparr>"
      by (intro exI [of _ i]) (auto simp: entries_set)
  next
    assume "\<exists>i<length ts. te_ID (ts ! i) = None \<and> a = \<lparr>at_TemplateID = ni_template ids i, at_Ordinal = int i\<rparr>"
    then obtain i where i: "i < length ts" "te_ID (ts ! i) = None" "a = \<lparr>at_TemplateID = ni_template ids i, at_Ordinal = int i\<rparr>" by blast
    with mem obtain old' where m: "(i, ts ! i, old') \<in> set (entries existing ts)" by blast
    with old i have "\<not> 0 \<le> old'" by blast
    with m i show "a \<in> set (added_of ids (entries existing ts))"
      unfolding added_of_def set_map_filter by (intro CollectI bexI [OF _ m]) simp
  qed
  show "t \<in> set (new_rows ids ntID (entries existing ts)) \<longleftrightarrow>
     (\<exists>i<length ts. te_ID (ts ! i) = None \<and> t = \<lparr>tp_ID = ni_template ids i, tp_NoteTypeID = ntID, tp_Ordinal = int i,
        tp_Name = te_Name (ts ! i), tp_Qfmt = te_Qfmt (ts ! i), tp_Afmt = te_Afmt (ts ! i),
        tp_BrowserQfmt = [], tp_BrowserAfmt = []\<rparr>)" (is "_ = (\<exists>i<length ts. ?P i)")
  proof
    assume "t \<in> set (new_rows ids ntID (entries existing ts))"
    then obtain i e old where m: "(i, e, old) \<in> set (entries existing ts)" and neg: "\<not> 0 \<le> old"
      and t: "t = \<lparr>tp_ID = ni_template ids i, tp_NoteTypeID = ntID, tp_Ordinal = int i,
        tp_Name = te_Name e, tp_Qfmt = te_Qfmt e, tp_Afmt = te_Afmt e, tp_BrowserQfmt = [], tp_BrowserAfmt = []\<rparr>"
      by (auto simp: new_rows_def set_map_filter split: if_splits)
    from m have e: "i < length ts" "e = ts ! i" by (simp_all add: entries_set)
    from old [OF m] neg t e show "\<exists>i<length ts. ?P i" by (intro exI [of _ i]) simp
  next
    assume "\<exists>i<length ts. ?P i"
    then obtain i where i: "i < length ts" "?P i" by blast
    with mem obtain old' where m: "(i, ts ! i, old') \<in> set (entries existing ts)" by blast
    with old i have "\<not> 0 \<le> old'" by blast
    with m i show "t \<in> set (new_rows ids ntID (entries existing ts))"
      unfolding new_rows_def set_map_filter by (intro CollectI bexI [OF _ m]) simp
  qed
qed

lemma kept_entries_ids:
  assumes "known existing ts"
  shows "map fst (kept_entries (entries existing ts)) = given (map te_ID ts)"
proof -
  have "map fst (kept_entries (enumerate k (zip us (kept_ordinals existing (map te_ID us))))) = given (map te_ID us)"
    if "\<forall>x\<in>set (given (map te_ID us)). 0 \<le> the (map_of existing x)" for us k
    using that
  proof (induction us arbitrary: k)
    case (Cons u us)
    then show ?case by (cases "te_ID u") (simp_all add: kept_ordinals_def)
  qed (simp add: kept_ordinals_def)
  moreover have "\<forall>x\<in>set (given (map te_ID ts)). 0 \<le> the (map_of existing x)"
  proof
    fix x assume "x \<in> set (given (map te_ID ts))"
    then have "Some x \<in> set (map te_ID ts)" by (simp add: given_set)
    then obtain t where "t \<in> set ts" "te_ID t = Some x" by auto
    then obtain i where "i < length ts" "te_ID (ts ! i) = Some x" by (auto simp: in_set_conv_nth)
    from known_old [OF assms this] show "0 \<le> the (map_of existing x)" by auto
  qed
  ultimately show ?thesis by (simp add: entries_def)
qed

text \<open>Two rows with the same id are one row.\<close>

lemma known_unique:
  assumes "known existing ts" "i < length ts" "j < length ts" "te_ID (ts ! i) = Some x" "te_ID (ts ! j) = Some x"
  shows "i = j"
proof -
  have "distinct (map fst (kept_entries (entries existing ts)))"
    using assms(1) by (simp add: kept_entries_ids known_def)
  moreover have "(x, i, ts ! i) \<in> set (kept_entries (entries existing ts))"
    "(x, j, ts ! j) \<in> set (kept_entries (entries existing ts))" using assms by (simp_all add: kept_entries_set)
  ultimately have "(i, ts ! i) = (j, ts ! j)" by (rule eq_key_imp_eq_value)
  then show ?thesis by simp
qed

lemma changed_of_map:
  assumes k: "known existing ts" and i: "i < length ts" "te_ID (ts ! i) = Some x"
  shows "change_map (changed_of (entries existing ts)) x = (if map_of existing x = Some (int i) then None else Some (int i))"
proof (cases "map_of existing x = Some (int i)")
  case True
  have "x \<notin> tc_TemplateID ` set (changed_of (entries existing ts))"
  proof
    assume "x \<in> tc_TemplateID ` set (changed_of (entries existing ts))"
    then obtain j where "j < length ts" "te_ID (ts ! j) = Some x" "map_of existing x \<noteq> Some (int j)"
      by (auto simp: changed_of_set [OF k])
    with known_unique [OF k i(1) _ i(2)] True show False by blast
  qed
  with True show ?thesis by (simp add: change_map_dom)
next
  case False
  then have "\<lparr>tc_TemplateID = x, tc_NewOrdinal = int i\<rparr> \<in> set (changed_of (entries existing ts))"
    unfolding changed_of_set [OF k] using i by blast
  then have "x \<in> tc_TemplateID ` set (changed_of (entries existing ts))" by force
  then obtain m where m: "change_map (changed_of (entries existing ts)) x = Some m"
    using change_map_dom [of "changed_of (entries existing ts)" x] by auto
  then have "(x, m) \<in> set (zip (map tc_TemplateID (changed_of (entries existing ts))) (map tc_NewOrdinal (changed_of (entries existing ts))))"
    unfolding change_map_def by (rule map_of_SomeD)
  then obtain c where "c \<in> set (changed_of (entries existing ts))" "tc_TemplateID c = x" "tc_NewOrdinal c = m"
    by (auto simp: zip_map_map zip_same_conv_map)
  then obtain j where "j < length ts" "te_ID (ts ! j) = Some x" "m = int j" by (auto simp: changed_of_set [OF k])
  with known_unique [OF k i(1) _ i(2)] m False show ?thesis by auto
qed

section \<open>The whole edit\<close>

definition stored_templates :: "content_db \<Rightarrow> uuid \<Rightarrow> (uuid \<times> int) list" where
  "stored_templates db ntID = map (\<lambda>t. (tp_ID t, tp_Ordinal t)) (sort_key tp_Ordinal (filter (\<lambda>t. tp_NoteTypeID t = ntID) (cd_templates db)))"

lemma stored_templates_set:
  "(x, k) \<in> set (stored_templates db ntID) \<longleftrightarrow> (\<exists>t\<in>set (cd_templates db). tp_NoteTypeID t = ntID \<and> tp_ID t = x \<and> tp_Ordinal t = k)"
  by (auto simp: stored_templates_def)

lemma stored_templates_ids: "fst ` set (stored_templates db ntID) = tp_ID ` {t \<in> set (cd_templates db). tp_NoteTypeID t = ntID}"
  by (simp add: stored_templates_def image_image)

lemma stored_templates_distinct: "pk tp_ID (cd_templates db) \<Longrightarrow> distinct (map fst (stored_templates db ntID))"
  by (simp add: stored_templates_def pk_def o_def distinct_map inj_on_def)

text \<open>A template of the note type that the form does not hand back.\<close>

definition dropped :: "content_db \<Rightarrow> uuid \<Rightarrow> TemplateEdit list \<Rightarrow> uuid set" where
  "dropped db ntID ts = fst ` set (stored_templates db ntID) - set (given (map te_ID ts))"

lemma UpdateNoteType_Inr:
  assumes up: "UpdateNoteType sha1 ids db now userID ntID name css k flds ts = Inr db'"
    and pks: "pk n_ID (cd_notes db)" "pk tp_ID (cd_templates db)" "pk fd_ID (cd_fields db)"
    and ords: "\<forall>t\<in>set (cd_templates db). tp_NoteTypeID t = ntID \<longrightarrow> 0 \<le> tp_Ordinal t"
  obtains nt rows F plan E new where
    "nt \<in> set (cd_noteTypes db)" "nt_ID nt = ntID" "note_type_writable db userID nt"
    "E = entries (stored_templates db ntID) ts" "known (stored_templates db ntID) ts"
    "planFields (sort_key fd_Ordinal (filter (\<lambda>f. fd_NoteTypeID f = ntID) (cd_fields db))) flds = Inr plan"
    "cd_notes db' = map_rows (\<lambda>n. n_NoteTypeID n = ntID) (edited_note sha1 now plan) (cd_notes db)"
    "cd_templates db' = filter (\<lambda>t. \<not> (tp_NoteTypeID t = ntID \<and> tp_ID t \<in> dropped db ntID ts))
       (map (write_row ntID (kept_entries E)) (cd_templates db) @ new_rows ids ntID E)"
    "pk tp_ID (map (write_row ntID (kept_entries E)) (cd_templates db) @ new_rows ids ntID E)"
    "cd_cards db' = map (placed (changed_of E)) (filter (\<lambda>c. c_TemplateID c \<notin> dropped db ntID ts) (cd_cards db) @ new)"
    "\<forall>c\<in>set new. (\<exists>a\<in>set (added_of ids E). c_TemplateID c = at_TemplateID a \<and> c_Ordinal c = at_Ordinal a)
       \<and> c_NoteID c \<in> n_ID ` set (notes_of_type db ntID)"
    "\<forall>a\<in>set (added_of ids E). \<forall>n\<in>set (notes_of_type db ntID).
       \<exists>c\<in>set (map (staged (changed_of E)) (filter (\<lambda>c. c_TemplateID c \<notin> dropped db ntID ts) (cd_cards db)) @ new).
         card_place c = (n_ID n, at_Ordinal a)"
    "cd_states db' = filter (\<lambda>s. us_CardID s \<notin> c_ID ` {c \<in> set (cd_cards db). c_TemplateID c \<in> dropped db ntID ts}) (cd_states db)"
    "cd_decks db' = cd_decks db" "cd_access db' = cd_access db"
proof -
  let ?F = "sort_key fd_Ordinal (filter (\<lambda>f. fd_NoteTypeID f = ntID) (cd_fields db))"
  let ?T = "sort_key tp_Ordinal (filter (\<lambda>t. tp_NoteTypeID t = ntID) (cd_templates db))"
  let ?S = "stored_templates db ntID" and ?E = "entries (stored_templates db ntID) ts"
  from up obtain nt n db1 plan db2 tplan where lock: "LockNoteTypeForEdit db ntID userID = Inr nt"
    and row: "UpdateNoteTypeRow db name css k ntID userID = Inr (n, db1)" and plan: "planFields ?F flds = Inr plan"
    and fields: "applyFieldPlan sha1 ids db1 now ntID flds plan = Inr db2"
    and tplan: "planTemplates ?T ts = Inr tplan" and tmpl: "applyTemplatePlan ids db2 ntID ts tplan = Inr db'"
    by (auto simp: UpdateNoteType_def bindE_eq_Inr ListFieldsForNoteType_def ListTemplatesForNoteType_def split: if_splits)
  have nt: "nt \<in> set (cd_noteTypes db)" "nt_ID nt = ntID" "note_type_writable db userID nt"
    using lock by (auto simp: LockNoteTypeForEdit_def bindE_eq_Inr split: option.splits if_splits dest!: row_of_Some)
  obtain R where db1: "db1 = db\<lparr>cd_noteTypes := R\<rparr>"
    using row by (auto simp: UpdateNoteTypeRow_def bindE_eq_Inr Let_def split: if_splits)
  have "distinct (map fst (map (\<lambda>f. (fd_ID f, fd_Ordinal f)) ?F))"
    using pks(3) by (simp add: pk_def o_def distinct_map inj_on_def)
  from plan_rows_Inr(1) [OF plan [unfolded planFields_def] this] have len: "length flds = length (keptOldOrdinal plan)"
    by (simp add: kept_ordinals_def)
  from applyFieldPlan_Inr [OF fields _ len] pks(1) obtain F where
    db2: "db2 = db1\<lparr>cd_fields := F, cd_notes := map_rows (\<lambda>n. n_NoteTypeID n = ntID) (edited_note sha1 now plan) (cd_notes db1)\<rparr>"
    by (auto simp: db1)
  note TP = plan_rows_Inr [OF tplan [unfolded planTemplates_def, folded stored_templates_def] stored_templates_distinct [OF pks(2)]]
  have "\<forall>(x, k)\<in>set ?S. 0 \<le> k" using ords by (auto simp: stored_templates_def)
  with TP(2,3) stored_templates_distinct [OF pks(2)] have known: "known ?S ts" by (simp add: known_def)
  have removed: "set (removedIDs tplan) = dropped db ntID ts" by (auto simp: TP(1) dropped_def)
  have kept_entries: "enumerate 0 (zip ts (keptOldOrdinal tplan)) = ?E" by (simp add: TP(1) entries_def)
  from tmpl obtain db3 ch ad where loop: "foldE (write_template ids ntID) (db2, [], []) ?E = Inr (db3, ch, ad)"
    and remap: "(if removedIDs tplan = [] \<and> ch = [] \<and> ad = [] then Inr db3
        else RemapNoteTypeCards (ni_card ids) db3 ntID ch (removedIDs tplan) ad) = Inr db'"
    by (auto simp: applyTemplatePlan_def bindE_eq_Inr kept_entries)
  have ids_there: "\<forall>x\<in>fst ` set (kept_entries ?E). \<exists>t\<in>set (cd_templates db2). tp_ID t = x"
  proof
    fix x assume "x \<in> fst ` set (kept_entries ?E)"
    then have "x \<in> set (given (map te_ID ts))" using kept_entries_ids [OF known] by (metis set_map)
    with TP(3) have "x \<in> tp_ID ` {t \<in> set (cd_templates db). tp_NoteTypeID t = ntID}" unfolding stored_templates_ids by blast
    then show "\<exists>t\<in>set (cd_templates db2). tp_ID t = x" by (auto simp: db2 db1)
  qed
  have d: "distinct (map fst (kept_entries ?E))" using TP(2) by (simp add: kept_entries_ids [OF known])
  have pk2: "pk tp_ID (cd_templates db2)" using pks(2) by (simp add: db2 db1)
  note W = write_templates_Inr [OF loop d ids_there pk2]
  have L: "db3 = db2\<lparr>cd_templates := map (write_row ntID (kept_entries ?E)) (cd_templates db2) @ new_rows ids ntID ?E\<rparr>"
    using W by (rule conjunct1)
  have L2: "ch = changed_of ?E" and L3: "ad = added_of ids ?E" using W by simp_all
  have L4: "pk tp_ID (cd_templates db3)" using W by (elim conjE)
  have t3: "cd_templates db3 = map (write_row ntID (kept_entries ?E)) (cd_templates db) @ new_rows ids ntID ?E"
    "cd_cards db3 = cd_cards db" "cd_states db3 = cd_states db" "cd_decks db3 = cd_decks db" "cd_access db3 = cd_access db"
    "cd_notes db3 = map_rows (\<lambda>n. n_NoteTypeID n = ntID) (edited_note sha1 now plan) (cd_notes db)"
    by (simp_all add: L db2 db1)
  have notes3: "n_ID ` set (notes_of_type db3 ntID) = n_ID ` set (notes_of_type db ntID)"
    by (simp add: notes_of_type_def t3 filter_map_rows image_image)
  have each3: "(\<forall>n\<in>set (notes_of_type db3 ntID). P (n_ID n)) = (\<forall>n\<in>set (notes_of_type db ntID). P (n_ID n))" for P
  proof -
    have "(\<forall>i\<in>n_ID ` set (notes_of_type db3 ntID). P i) = (\<forall>i\<in>n_ID ` set (notes_of_type db ntID). P i)" unfolding notes3 ..
    then show ?thesis by simp
  qed
  have gone: "filter (\<lambda>c. c_TemplateID c \<notin> set (removedIDs tplan)) (cd_cards db3) = filter (\<lambda>c. c_TemplateID c \<notin> dropped db ntID ts) (cd_cards db)"
    by (simp add: removed t3)
  show ?thesis
  proof (cases "removedIDs tplan = [] \<and> ch = [] \<and> ad = []")
    case True
    with remap have db': "db' = db3" by simp
    from True removed have none: "dropped db ntID ts = {}" by simp
    from True L2 L3 have e: "changed_of ?E = []" "added_of ids ?E = []" by simp_all
    have pl: "map (placed []) cs = cs" for cs by (simp add: map_idI)
    show ?thesis
    proof (rule that [OF nt refl known plan, of "[]"])
      show "pk tp_ID (map (write_row ntID (kept_entries ?E)) (cd_templates db) @ new_rows ids ntID ?E)"
        using L4 by (simp only: t3(1))
    qed (simp_all add: db' t3 none e pl)
  next
    case False
    with remap have "RemapNoteTypeCards (ni_card ids) db3 ntID ch (removedIDs tplan) ad = Inr db'" by auto
    then show ?thesis
    proof (rule RemapNoteTypeCards_Inr)
      fix new
      assume R: "cd_cards db' = map (placed ch) (filter (\<lambda>c. c_TemplateID c \<notin> set (removedIDs tplan)) (cd_cards db3) @ new)"
        "\<forall>c\<in>set new. (\<exists>a\<in>set ad. c_TemplateID c = at_TemplateID a \<and> c_Ordinal c = at_Ordinal a)
           \<and> c_NoteID c \<in> n_ID ` set (notes_of_type db3 ntID)"
        "\<forall>a\<in>set ad. \<forall>n\<in>set (notes_of_type db3 ntID).
           \<exists>c\<in>set (map (staged ch) (filter (\<lambda>c. c_TemplateID c \<notin> set (removedIDs tplan)) (cd_cards db3)) @ new). card_place c = (n_ID n, at_Ordinal a)"
        "cd_states db' = filter (\<lambda>s. us_CardID s \<notin> c_ID ` set (filter (\<lambda>c. c_TemplateID c \<in> set (removedIDs tplan)) (cd_cards db3))) (cd_states db3)"
        "cd_templates db' = filter (\<lambda>t. \<not> (tp_NoteTypeID t = ntID \<and> tp_ID t \<in> set (removedIDs tplan))) (cd_templates db3)"
        "cd_notes db' = cd_notes db3" "cd_decks db' = cd_decks db3" "cd_access db' = cd_access db3"
      show ?thesis
      proof (rule that [OF nt refl known plan, of new])
        show "cd_notes db' = map_rows (\<lambda>n. n_NoteTypeID n = ntID) (edited_note sha1 now plan) (cd_notes db)" using R(6) t3(6) by simp
        show "cd_templates db' = filter (\<lambda>t. \<not> (tp_NoteTypeID t = ntID \<and> tp_ID t \<in> dropped db ntID ts))
           (map (write_row ntID (kept_entries ?E)) (cd_templates db) @ new_rows ids ntID ?E)"
          using R(5) by (simp only: t3(1) removed)
        show "pk tp_ID (map (write_row ntID (kept_entries ?E)) (cd_templates db) @ new_rows ids ntID ?E)" using L4 by (simp only: t3(1))
        show "cd_cards db' = map (placed (changed_of ?E)) (filter (\<lambda>c. c_TemplateID c \<notin> dropped db ntID ts) (cd_cards db) @ new)"
          using R(1) by (simp only: gone L2)
        show "\<forall>c\<in>set new. (\<exists>a\<in>set (added_of ids ?E). c_TemplateID c = at_TemplateID a \<and> c_Ordinal c = at_Ordinal a)
           \<and> c_NoteID c \<in> n_ID ` set (notes_of_type db ntID)" using R(2) by (simp only: notes3 L3)
        show "\<forall>a\<in>set (added_of ids ?E). \<forall>n\<in>set (notes_of_type db ntID).
           \<exists>c\<in>set (map (staged (changed_of ?E)) (filter (\<lambda>c. c_TemplateID c \<notin> dropped db ntID ts) (cd_cards db)) @ new).
             card_place c = (n_ID n, at_Ordinal a)"
          using R(3) unfolding gone L2 L3
            each3 [of "\<lambda>i. \<exists>c\<in>set (map (staged (changed_of ?E)) (filter (\<lambda>c. c_TemplateID c \<notin> dropped db ntID ts) (cd_cards db)) @ new).
              card_place c = (i, at_Ordinal a)" for a] .
        show "cd_states db' = filter (\<lambda>s. us_CardID s \<notin> c_ID ` {c \<in> set (cd_cards db). c_TemplateID c \<in> dropped db ntID ts}) (cd_states db)"
          using R(4) by (simp only: t3 removed set_filter)
        show "cd_decks db' = cd_decks db" "cd_access db' = cd_access db" using R(7,8) t3 by simp_all
      qed
    qed
  qed
qed

section \<open>Cards follow their template\<close>

text \<open>Every note of the type has exactly one card per template, at the template's position.\<close>

definition cards_match :: "content_db \<Rightarrow> uuid \<Rightarrow> bool" where
  "cards_match db ntID \<longleftrightarrow>
     (\<forall>n\<in>set (notes_of_type db ntID).
        (\<lambda>c. (c_TemplateID c, c_Ordinal c)) ` {c \<in> set (cd_cards db). c_NoteID c = n_ID n}
          = (\<lambda>t. (tp_ID t, tp_Ordinal t)) ` {t \<in> set (cd_templates db). tp_NoteTypeID t = ntID})"

text \<open>The id a submitted row ends up with.\<close>

definition final_id :: "new_ids \<Rightarrow> TemplateEdit list \<Rightarrow> nat \<Rightarrow> uuid" where
  "final_id ids ts i = (case te_ID (ts ! i) of Some x \<Rightarrow> x | None \<Rightarrow> ni_template ids i)"

lemma edited_templates:
  assumes known: "known (stored_templates db ntID) ts" and E: "E = entries (stored_templates db ntID) ts"
    and pk: "pk tp_ID (map (write_row ntID (kept_entries E)) (cd_templates db) @ new_rows ids ntID E)"
    and T: "templates = filter (\<lambda>t. \<not> (tp_NoteTypeID t = ntID \<and> tp_ID t \<in> dropped db ntID ts))
       (map (write_row ntID (kept_entries E)) (cd_templates db) @ new_rows ids ntID E)"
  shows "(\<lambda>t. (tp_ID t, tp_Ordinal t)) ` {t \<in> set templates. tp_NoteTypeID t = ntID}
     = (\<lambda>i. (final_id ids ts i, int i)) ` {..<length ts}" (is "?l = ?r")
proof -
  let ?K = "kept_entries E"
  have given_iff: "x \<in> set (given (map te_ID ts)) \<longleftrightarrow> (\<exists>i<length ts. te_ID (ts ! i) = Some x)" for x
  proof -
    have "x \<in> set (given (map te_ID ts)) \<longleftrightarrow> (\<exists>e\<in>set ts. te_ID e = Some x)"
      unfolding given_set set_map by (metis imageE imageI)
    moreover have "(\<exists>e\<in>set ts. te_ID e = Some x) \<longleftrightarrow> (\<exists>i<length ts. te_ID (ts ! i) = Some x)"
      by (metis in_set_conv_nth)
    ultimately show ?thesis by simp
  qed
  have dist: "distinct (map fst ?K)" using known by (simp add: E kept_entries_ids known_def)
  have look: "map_of ?K x = Some (i, ts ! i)" if "i < length ts" "te_ID (ts ! i) = Some x" for i x
    using that dist by (simp add: map_of_eq_Some_iff E kept_entries_set [OF known])
  have old_row: "(tp_ID r, tp_Ordinal r) \<in> ?r"
    if t: "t \<in> set (cd_templates db)" "tp_NoteTypeID t = ntID" "r = write_row ntID ?K t" "tp_ID t \<notin> dropped db ntID ts" for t r
  proof -
    from t(1,2,4) have "tp_ID t \<in> set (given (map te_ID ts))" by (auto simp: dropped_def stored_templates_ids)
    then obtain i where i: "i < length ts" "te_ID (ts ! i) = Some (tp_ID t)" by (auto simp: given_iff)
    then have "(tp_ID r, tp_Ordinal r) = (final_id ids ts i, int i)"
      by (simp add: t(3) write_row_def t(2) look final_id_def)
    with i(1) show ?thesis by blast
  qed
  show ?thesis
  proof (intro equalityI subsetI)
    fix y assume "y \<in> ?l"
    then obtain r where r: "r \<in> set templates" "tp_NoteTypeID r = ntID" "y = (tp_ID r, tp_Ordinal r)" by auto
    from r(1,2) T have "tp_ID r \<notin> dropped db ntID ts"
      "r \<in> write_row ntID ?K ` set (cd_templates db) \<or> r \<in> set (new_rows ids ntID E)" by auto
    then show "y \<in> ?r"
    proof (elim disjE)
      assume "r \<in> write_row ntID ?K ` set (cd_templates db)" and nd: "tp_ID r \<notin> dropped db ntID ts"
      then obtain t where t: "t \<in> set (cd_templates db)" "r = write_row ntID ?K t" by blast
      have "tp_NoteTypeID t = ntID" "tp_ID t \<notin> dropped db ntID ts" using r(2) nd unfolding t(2) by simp_all
      from old_row [OF t(1) this(1) t(2) this(2)] r(3) show ?thesis by simp
    next
      assume "r \<in> set (new_rows ids ntID E)"
      then obtain i where "i < length ts" "te_ID (ts ! i) = None" "tp_ID r = ni_template ids i" "tp_Ordinal r = int i"
        by (auto simp: E added_of_set [OF known])
      with r(3) show ?thesis by (intro image_eqI [of _ _ i]) (simp_all add: final_id_def)
    qed
  next
    fix y assume "y \<in> ?r"
    then obtain i where i: "i < length ts" "y = (final_id ids ts i, int i)" by auto
    show "y \<in> ?l"
    proof (cases "te_ID (ts ! i)")
      case (Some x)
      with i(1) have g: "x \<in> set (given (map te_ID ts))" by (auto simp: given_iff)
      with known have "x \<in> fst ` set (stored_templates db ntID)" by (auto simp: known_def)
      then obtain t where t: "t \<in> set (cd_templates db)" "tp_NoteTypeID t = ntID" "tp_ID t = x"
        by (auto simp: stored_templates_ids)
      let ?t = "write_row ntID ?K t"
      have "?t \<in> set templates" using t g by (simp add: T dropped_def)
      moreover have "tp_Ordinal ?t = int i" using look [OF i(1) Some] t by (simp add: write_row_def)
      ultimately show ?thesis using t i(2) Some by (intro image_eqI [of _ _ ?t]) (simp_all add: final_id_def)
    next
      case None
      let ?t = "\<lparr>tp_ID = ni_template ids i, tp_NoteTypeID = ntID, tp_Ordinal = int i,
        tp_Name = te_Name (ts ! i), tp_Qfmt = te_Qfmt (ts ! i), tp_Afmt = te_Afmt (ts ! i), tp_BrowserQfmt = [], tp_BrowserAfmt = []\<rparr>"
      have new: "?t \<in> set (new_rows ids ntID E)" using i(1) None by (auto simp: E added_of_set [OF known])
      have "tp_ID ?t \<notin> dropped db ntID ts"
      proof
        assume "tp_ID ?t \<in> dropped db ntID ts"
        then have "tp_ID ?t \<in> tp_ID ` set (cd_templates db)" by (auto simp: dropped_def stored_templates_ids)
        then have "tp_ID ?t \<in> tp_ID ` set (map (write_row ntID ?K) (cd_templates db))" by (simp add: image_image)
        moreover have "tp_ID ?t \<in> tp_ID ` set (new_rows ids ntID E)" using new by (rule imageI)
        ultimately show False using pk unfolding pk_def map_append distinct_append set_map by blast
      qed
      with new have "?t \<in> set templates" by (simp add: T)
      with i(2) None show ?thesis by (intro image_eqI [of _ _ ?t]) (simp_all add: final_id_def)
    qed
  qed
qed

text \<open>The cards of one note, from the phases of the remap.\<close>

lemma edited_cards:
  assumes known: "known (stored_templates db ntID) ts" and E: "E = entries (stored_templates db ntID) ts"
    and fresh: "pk tp_ID (map (write_row ntID (kept_entries E)) (cd_templates db) @ new_rows ids ntID E)"
    and ords: "\<forall>t\<in>set (cd_templates db). tp_NoteTypeID t = ntID \<longrightarrow> 0 \<le> tp_Ordinal t"
    and match: "(\<lambda>c. (c_TemplateID c, c_Ordinal c)) ` {c \<in> set (cd_cards db). c_NoteID c = n}
       = (\<lambda>t. (tp_ID t, tp_Ordinal t)) ` {t \<in> set (cd_templates db). tp_NoteTypeID t = ntID}"
    and new: "\<forall>c\<in>set new. \<exists>a\<in>set (added_of ids E). c_TemplateID c = at_TemplateID a \<and> c_Ordinal c = at_Ordinal a"
    and all_new: "\<forall>a\<in>set (added_of ids E).
       \<exists>c\<in>set (map (staged (changed_of E)) (filter (\<lambda>c. c_TemplateID c \<notin> dropped db ntID ts) (cd_cards db)) @ new).
         card_place c = (n, at_Ordinal a)"
    and cards: "cards = map (placed (changed_of E)) (filter (\<lambda>c. c_TemplateID c \<notin> dropped db ntID ts) (cd_cards db) @ new)"
  shows "(\<lambda>c. (c_TemplateID c, c_Ordinal c)) ` {c \<in> set cards. c_NoteID c = n}
     = (\<lambda>i. (final_id ids ts i, int i)) ` {..<length ts}" (is "?l = ?r")
proof -
  let ?S = "stored_templates db ntID"
  have given_iff: "x \<in> set (given (map te_ID ts)) \<longleftrightarrow> (\<exists>i<length ts. te_ID (ts ! i) = Some x)" for x
  proof -
    have "x \<in> set (given (map te_ID ts)) \<longleftrightarrow> (\<exists>e\<in>set ts. te_ID e = Some x)"
      unfolding given_set set_map by (metis imageE imageI)
    moreover have "(\<exists>e\<in>set ts. te_ID e = Some x) \<longleftrightarrow> (\<exists>i<length ts. te_ID (ts ! i) = Some x)"
      by (metis in_set_conv_nth)
    ultimately show ?thesis by simp
  qed
  have stored: "map_of ?S x = Some k \<longleftrightarrow> (x, k) \<in> set ?S" for x k
    using known by (simp add: known_def map_of_eq_Some_iff)
  have mine: "(c_TemplateID c, c_Ordinal c) \<in> set ?S" if "c \<in> set (cd_cards db)" "c_NoteID c = n" for c
  proof -
    from that have "(c_TemplateID c, c_Ordinal c) \<in> (\<lambda>c. (c_TemplateID c, c_Ordinal c)) ` {c \<in> set (cd_cards db). c_NoteID c = n}" by blast
    then show ?thesis unfolding match by (auto simp: stored_templates_set)
  qed
  text \<open>A surviving card of the note goes to the position of its template.\<close>
  have old: "\<exists>i<length ts. te_ID (ts ! i) = Some (c_TemplateID c) \<and> c_Ordinal (placed (changed_of E) c) = int i
      \<and> (c_Ordinal (staged (changed_of E) c) = int i \<or> c_Ordinal (staged (changed_of E) c) < 0)"
    if c: "c \<in> set (cd_cards db)" "c_NoteID c = n" "c_TemplateID c \<notin> dropped db ntID ts" for c
  proof -
    let ?x = "c_TemplateID c"
    note m = mine [OF c(1,2)]
    then have "?x \<in> fst ` set ?S" by force
    with c(3) obtain i where i: "i < length ts" "te_ID (ts ! i) = Some ?x" by (auto simp: dropped_def given_iff)
    note ch = changed_of_map [OF known i, folded E]
    show ?thesis
    proof (cases "c_Ordinal c = int i")
      case True
      with m ch stored have none: "change_map (changed_of E) ?x = None" by simp
      then have "?x \<notin> tc_TemplateID ` set (changed_of E)" by (simp add: change_map_dom)
      with True i none show ?thesis by (auto simp: placed_def staged_def)
    next
      case False
      have "map_of ?S ?x = Some (c_Ordinal c)" using m by (simp only: stored)
      with False have "map_of ?S ?x \<noteq> Some (int i)" by simp
      with ch have some: "change_map (changed_of E) ?x = Some (int i)" by simp
      then have "?x \<in> tc_TemplateID ` set (changed_of E)" using change_map_dom [of "changed_of E" ?x] by auto
      moreover have "0 \<le> c_Ordinal c" using m ords by (auto simp: stored_templates_set)
      ultimately show ?thesis using i some by (intro exI [of _ i]) (auto simp: placed_def staged_def)
    qed
  qed
  have new_id: "ni_template ids i \<notin> tc_TemplateID ` set (changed_of E)" if i: "i < length ts" "te_ID (ts ! i) = None" for i
  proof
    assume "ni_template ids i \<in> tc_TemplateID ` set (changed_of E)"
    then obtain j where j: "j < length ts" "te_ID (ts ! j) = Some (ni_template ids i)" by (auto simp: E changed_of_set [OF known])
    then have "ni_template ids i \<in> set (given (map te_ID ts))" by (auto simp: given_iff)
    with known have "ni_template ids i \<in> fst ` set ?S" by (auto simp: known_def)
    then have "ni_template ids i \<in> tp_ID ` set (map (write_row ntID (kept_entries E)) (cd_templates db))"
      by (auto simp: stored_templates_ids image_image)
    moreover have "ni_template ids i \<in> tp_ID ` set (new_rows ids ntID E)"
      using i by (force simp: E added_of_set [OF known])
    ultimately show False using fresh unfolding pk_def map_append distinct_append set_map by blast
  qed
  have newc: "\<exists>i<length ts. te_ID (ts ! i) = None \<and> c_TemplateID c = ni_template ids i \<and> c_Ordinal c = int i
      \<and> placed (changed_of E) c = c" if "c \<in> set new" for c
  proof -
    from that new obtain i where i: "i < length ts" "te_ID (ts ! i) = None" "c_TemplateID c = ni_template ids i" "c_Ordinal c = int i"
      by (fastforce simp: E added_of_set [OF known])
    with new_id [OF i(1,2)] show ?thesis by (intro exI [of _ i]) (simp add: placed_unmoved)
  qed
  show ?thesis
  proof (intro equalityI subsetI)
    fix y assume "y \<in> ?l"
    then obtain c' where c': "c' \<in> set cards" "c_NoteID c' = n" "y = (c_TemplateID c', c_Ordinal c')" by blast
    then obtain c where "c \<in> set (filter (\<lambda>c. c_TemplateID c \<notin> dropped db ntID ts) (cd_cards db) @ new)"
      "c' = placed (changed_of E) c" unfolding cards set_map by blast
    with c' have c: "c \<in> set (filter (\<lambda>c. c_TemplateID c \<notin> dropped db ntID ts) (cd_cards db) @ new)"
      "c_NoteID c = n" "y = (c_TemplateID c, c_Ordinal (placed (changed_of E) c))" by simp_all
    show "y \<in> ?r"
    proof (cases "c \<in> set new")
      case True
      from newc [OF this] obtain i where "i < length ts" "te_ID (ts ! i) = None" "c_TemplateID c = ni_template ids i"
        "c_Ordinal c = int i" "placed (changed_of E) c = c" by blast
      with c(3) show ?thesis by (intro image_eqI [of _ _ i]) (simp_all add: final_id_def)
    next
      case False
      with c have "c \<in> set (cd_cards db)" "c_NoteID c = n" "c_TemplateID c \<notin> dropped db ntID ts" by auto
      from old [OF this] obtain i where "i < length ts" "te_ID (ts ! i) = Some (c_TemplateID c)"
        "c_Ordinal (placed (changed_of E) c) = int i" by blast
      with c(3) show ?thesis by (intro image_eqI [of _ _ i]) (simp_all add: final_id_def)
    qed
  next
    fix y assume "y \<in> ?r"
    then obtain i where i: "i < length ts" "y = (final_id ids ts i, int i)" by auto
    show "y \<in> ?l"
    proof (cases "te_ID (ts ! i)")
      case (Some x)
      with i(1) have g: "x \<in> set (given (map te_ID ts))" by (auto simp: given_iff)
      with known obtain k where k: "(x, k) \<in> set ?S" by (auto simp: known_def)
      then have "(x, k) \<in> (\<lambda>c. (c_TemplateID c, c_Ordinal c)) ` {c \<in> set (cd_cards db). c_NoteID c = n}"
        unfolding match by (auto simp: stored_templates_set)
      then obtain c where c: "c \<in> set (cd_cards db)" "c_NoteID c = n" "c_TemplateID c = x" by auto
      with g have nd: "c_TemplateID c \<notin> dropped db ntID ts" by (simp add: dropped_def)
      from old [OF c(1,2) nd] obtain j where j: "j < length ts" "te_ID (ts ! j) = Some x" "c_Ordinal (placed (changed_of E) c) = int j"
        using c(3) by auto
      from known_unique [OF known i(1) j(1) Some j(2)] have "j = i" by simp
      with j c nd i(2) Some show ?thesis
        by (intro image_eqI [of _ _ "placed (changed_of E) c"]) (auto simp: final_id_def cards)
    next
      case None
      let ?a = "\<lparr>at_TemplateID = ni_template ids i, at_Ordinal = int i\<rparr>"
      have "?a \<in> set (added_of ids E)" using i(1) None by (auto simp: E added_of_set [OF known])
      with all_new obtain c where c: "c \<in> set (map (staged (changed_of E)) (filter (\<lambda>c. c_TemplateID c \<notin> dropped db ntID ts) (cd_cards db)) @ new)"
        "c_NoteID c = n" "c_Ordinal c = int i" by (fastforce simp: card_place_def)
      have "c \<in> set new"
      proof (rule ccontr)
        assume "c \<notin> set new"
        with c obtain c0 where c0: "c0 \<in> set (cd_cards db)" "c_TemplateID c0 \<notin> dropped db ntID ts" "c = staged (changed_of E) c0" by auto
        with c(2) have "c_NoteID c0 = n" by simp
        from old [OF c0(1) this c0(2)] c(3) c0(3) obtain j where "te_ID (ts ! j) = Some (c_TemplateID c0)" "int i = int j" by auto
        with None show False by simp
      qed
      from newc [OF this] c(3) None i(1)
      have "c_TemplateID c = ni_template ids i" "placed (changed_of E) c = c" by auto
      with \<open>c \<in> set new\<close> c(2,3) i(2) None show ?thesis
        by (intro image_eqI [of _ _ c]) (auto simp: final_id_def cards image_iff intro!: bexI [of _ c])
    qed
  qed
qed

section \<open>The properties\<close>

lemma notes_of_edited:
  assumes "cd_notes db' = map_rows (\<lambda>n. n_NoteTypeID n = ntID) f (cd_notes db)" "\<And>n. n_NoteTypeID (f n) = n_NoteTypeID n"
  shows "notes_of_type db' ntID = map f (notes_of_type db ntID)"
  using assms by (simp add: notes_of_type_def filter_map_rows)

text \<open>C27: a saved edit of a note type, however it renames, reorders, adds and removes templates, keeps the cards
  in step: if every note of the type had exactly one card per template at the template's position, it has so
  for the submitted templates in their submitted order; a card whose template was handed back is the same
  row but for its position, the cards of a removed template are gone with their schedules, and no other
  schedule is lost. Saving needs the right to edit the content of every deck with a note of the type.\<close>

theorem UpdateNoteType_cards:
  assumes up: "UpdateNoteType sha1 ids db now userID ntID name css k flds ts = Inr db'"
    and pks: "pk n_ID (cd_notes db)" "pk tp_ID (cd_templates db)" "pk fd_ID (cd_fields db)"
    and ords: "\<forall>t\<in>set (cd_templates db). tp_NoteTypeID t = ntID \<longrightarrow> 0 \<le> tp_Ordinal t"
    and match: "cards_match db ntID"
  shows "cards_match db' ntID
    \<and> (\<lambda>t. (tp_ID t, tp_Ordinal t)) ` {t \<in> set (cd_templates db'). tp_NoteTypeID t = ntID}
        = (\<lambda>i. (final_id ids ts i, int i)) ` {..<length ts}
    \<and> (\<forall>c\<in>set (cd_cards db). if c_TemplateID c \<in> dropped db ntID ts
         then \<forall>c'\<in>set (cd_cards db'). c_TemplateID c' \<noteq> c_TemplateID c
         else \<exists>j. c\<lparr>c_Ordinal := j\<rparr> \<in> set (cd_cards db'))
    \<and> cd_states db' = filter (\<lambda>s. us_CardID s \<notin> c_ID ` {c \<in> set (cd_cards db). c_TemplateID c \<in> dropped db ntID ts}) (cd_states db)
    \<and> (\<forall>n\<in>set (notes_of_type db ntID). may_edit_deck db userID (n_DeckID n))"
  using up pks ords
proof (rule UpdateNoteType_Inr)
  fix nt plan E new
  assume nt: "nt_ID nt = ntID" "note_type_writable db userID nt"
    and E: "E = entries (stored_templates db ntID) ts" and known: "known (stored_templates db ntID) ts"
    and nts: "cd_notes db' = map_rows (\<lambda>n. n_NoteTypeID n = ntID) (edited_note sha1 now plan) (cd_notes db)"
    and T: "cd_templates db' = filter (\<lambda>t. \<not> (tp_NoteTypeID t = ntID \<and> tp_ID t \<in> dropped db ntID ts))
       (map (write_row ntID (kept_entries E)) (cd_templates db) @ new_rows ids ntID E)"
    and pk: "pk tp_ID (map (write_row ntID (kept_entries E)) (cd_templates db) @ new_rows ids ntID E)"
    and C: "cd_cards db' = map (placed (changed_of E)) (filter (\<lambda>c. c_TemplateID c \<notin> dropped db ntID ts) (cd_cards db) @ new)"
    and new: "\<forall>c\<in>set new. (\<exists>a\<in>set (added_of ids E). c_TemplateID c = at_TemplateID a \<and> c_Ordinal c = at_Ordinal a)
       \<and> c_NoteID c \<in> n_ID ` set (notes_of_type db ntID)"
    and all_new: "\<forall>a\<in>set (added_of ids E). \<forall>n\<in>set (notes_of_type db ntID).
       \<exists>c\<in>set (map (staged (changed_of E)) (filter (\<lambda>c. c_TemplateID c \<notin> dropped db ntID ts) (cd_cards db)) @ new).
         card_place c = (n_ID n, at_Ordinal a)"
    and S: "cd_states db' = filter (\<lambda>s. us_CardID s \<notin> c_ID ` {c \<in> set (cd_cards db). c_TemplateID c \<in> dropped db ntID ts}) (cd_states db)"
  note tmpl = edited_templates [OF known E pk T]
  have "cards_match db' ntID"
    unfolding cards_match_def notes_of_edited [OF nts edited_note_simps(2)] set_map ball_simps(9) edited_note_simps tmpl
  proof
    fix n assume n: "n \<in> set (notes_of_type db ntID)"
    show "(\<lambda>c. (c_TemplateID c, c_Ordinal c)) ` {c \<in> set (cd_cards db'). c_NoteID c = n_ID n}
        = (\<lambda>i. (final_id ids ts i, int i)) ` {..<length ts}"
      by (rule edited_cards [OF known E pk ords _ _ _ C]) (use match n new all_new in \<open>auto simp: cards_match_def\<close>)
  qed
  moreover have "\<forall>c\<in>set (cd_cards db). if c_TemplateID c \<in> dropped db ntID ts
         then \<forall>c'\<in>set (cd_cards db'). c_TemplateID c' \<noteq> c_TemplateID c
         else \<exists>j. c\<lparr>c_Ordinal := j\<rparr> \<in> set (cd_cards db')"
  proof
    fix c assume c: "c \<in> set (cd_cards db)"
    have fresh: "c_TemplateID c' \<notin> dropped db ntID ts" if c': "c' \<in> set (cd_cards db')" for c'
    proof -
      have "x \<notin> dropped db ntID ts" if x: "x \<in> tp_ID ` set (new_rows ids ntID E)" for x
      proof
        assume "x \<in> dropped db ntID ts"
        then have "x \<in> tp_ID ` set (map (write_row ntID (kept_entries E)) (cd_templates db))"
          by (auto simp: dropped_def stored_templates_ids image_image)
        with x show False using pk unfolding pk_def map_append distinct_append set_map by blast
      qed
      moreover have "c_TemplateID c0 \<in> tp_ID ` set (new_rows ids ntID E)" if "c0 \<in> set new" for c0
      proof -
        from that new obtain i where "i < length ts" "te_ID (ts ! i) = None" "c_TemplateID c0 = ni_template ids i"
          by (fastforce simp: E added_of_set [OF known])
        then show ?thesis by (force simp: E added_of_set [OF known])
      qed
      ultimately show ?thesis using c' by (auto simp: C)
    qed
    show "if c_TemplateID c \<in> dropped db ntID ts then \<forall>c'\<in>set (cd_cards db'). c_TemplateID c' \<noteq> c_TemplateID c
         else \<exists>j. c\<lparr>c_Ordinal := j\<rparr> \<in> set (cd_cards db')"
    proof (cases "c_TemplateID c \<in> dropped db ntID ts")
      case True
      have "c_TemplateID c' \<noteq> c_TemplateID c" if "c' \<in> set (cd_cards db')" for c'
        using fresh [OF that] True by metis
      with True show ?thesis by simp
    next
      case False
      with c have "placed (changed_of E) c \<in> set (cd_cards db')" by (auto simp: C)
      moreover have "\<exists>j. placed (changed_of E) c = c\<lparr>c_Ordinal := j\<rparr>"
        by (cases "change_map (changed_of E) (c_TemplateID c)")
          (auto simp: placed_def intro: exI [of _ "c_Ordinal c"] exI)
      ultimately show ?thesis using False by auto
    qed
  qed
  moreover have "\<forall>n\<in>set (notes_of_type db ntID). may_edit_deck db userID (n_DeckID n)"
    using nt by (auto simp: note_type_writable_def list_all_iff)
  ultimately show ?thesis using tmpl S by blast
qed

lemma remap_fields_extend: "length flds = n \<Longrightarrow> remap_fields (map int [0..<n] @ replicate k (-1)) flds = flds @ replicate k []"
  by (rule nth_equalityI) (auto simp: remap_fields_def nth_append)

text \<open>C28: an edit for which the form asks no confirmation (the stored fields and templates come back in their
  order, new ones behind them) loses nothing: every note keeps its values and its checksum and gets an empty
  value per new field, every card stays as it is, and so does every schedule.\<close>

theorem unconfirmed_edit_keeps_content:
  assumes up: "UpdateNoteType sha1 ids db now userID ntID name css k flds ts = Inr db'"
    and pks: "pk n_ID (cd_notes db)" "pk tp_ID (cd_templates db)" "pk fd_ID (cd_fields db)"
    and fields: "existingFields = sort_key fd_Ordinal (filter (\<lambda>f. fd_NoteTypeID f = ntID) (cd_fields db))"
      "existingFields \<noteq> []" "map fd_Ordinal existingFields = map int [0..<length existingFields]"
    and templates: "existingTemplates = sort_key tp_Ordinal (filter (\<lambda>t. tp_NoteTypeID t = ntID) (cd_templates db))"
      "map tp_Ordinal existingTemplates = map int [0..<length existingTemplates]"
    and full: "\<forall>n\<in>set (notes_of_type db ntID). length (n_Fields n) = length existingFields"
    and same: "\<not> FieldOrderChanged existingFields flds" "\<not> TemplateOrderChanged existingTemplates ts"
  shows "(\<forall>n\<in>set (notes_of_type db ntID). \<exists>n'\<in>set (cd_notes db').
      n_ID n' = n_ID n \<and> n_Fields n' = n_Fields n @ replicate (length flds - length existingFields) []
      \<and> n_Checksum n' = n_Checksum n \<and> n_Tags n' = n_Tags n)
    \<and> set (cd_cards db) \<subseteq> set (cd_cards db') \<and> cd_states db' = cd_states db"
proof -
  have ords: "\<forall>t\<in>set (cd_templates db). tp_NoteTypeID t = ntID \<longrightarrow> 0 \<le> tp_Ordinal t"
  proof (intro ballI impI)
    fix t assume "t \<in> set (cd_templates db)" "tp_NoteTypeID t = ntID"
    then have "tp_Ordinal t \<in> set (map tp_Ordinal existingTemplates)" by (simp add: templates(1))
    then show "0 \<le> tp_Ordinal t" unfolding templates(2) by auto
  qed
  show ?thesis
    using up pks ords
  proof (rule UpdateNoteType_Inr)
    fix plan E new
    assume E: "E = entries (stored_templates db ntID) ts" and known: "known (stored_templates db ntID) ts"
      and plan: "planFields (sort_key fd_Ordinal (filter (\<lambda>f. fd_NoteTypeID f = ntID) (cd_fields db))) flds = Inr plan"
      and nts: "cd_notes db' = map_rows (\<lambda>n. n_NoteTypeID n = ntID) (edited_note sha1 now plan) (cd_notes db)"
      and C: "cd_cards db' = map (placed (changed_of E)) (filter (\<lambda>c. c_TemplateID c \<notin> dropped db ntID ts) (cd_cards db) @ new)"
      and S: "cd_states db' = filter (\<lambda>s. us_CardID s \<notin> c_ID ` {c \<in> set (cd_cards db). c_TemplateID c \<in> dropped db ntID ts}) (cd_states db)"
    let ?n = "length existingFields"
    have d: "distinct (map fst (map (\<lambda>f. (fd_ID f, fd_Ordinal f)) existingFields))"
      using pks(3) by (simp add: fields(1) pk_def o_def distinct_map inj_on_def)
    have o_same: "\<not> order_changed (map fst (map (\<lambda>f. (fd_ID f, fd_Ordinal f)) existingFields)) (map fe_ID flds)"
      using same(1) by (simp add: FieldOrderChanged_def o_def)
    have "map snd (map (\<lambda>f. (fd_ID f, fd_Ordinal f)) existingFields) = map int [0..<?n]"
      unfolding fields(3) [symmetric] by simp
    with unchanged_plan [OF o_same d plan [folded fields(1), unfolded planFields_def]]
    obtain m where m: "length flds = ?n + m"
      "plan = \<lparr>keptOldOrdinal = map int [0..<?n] @ replicate m (-1), removedIDs = []\<rparr>" by auto
    have hd0: "hd (keptOldOrdinal plan) = 0" using fields(2) by (cases existingFields) (simp_all add: m(2) upt_rec)
    have flds': "n_Fields (edited_note sha1 now plan n) = n_Fields n @ replicate m []"
      "n_Checksum (edited_note sha1 now plan n) = n_Checksum n" if "n \<in> set (notes_of_type db ntID)" for n
    proof -
      have "m = 0" if "fieldPlanIsIdentity plan"
      proof (rule ccontr)
        assume "m \<noteq> 0"
        then have "(?n, -1) \<in> set (enumerate 0 (keptOldOrdinal plan))"
          by (simp add: m(2) in_set_enumerate_eq nth_append)
        with that show False by (auto simp: fieldPlanIsIdentity_def list_all_iff)
      qed
      moreover have "remap_fields (keptOldOrdinal plan) (n_Fields n) = n_Fields n @ replicate m []"
        using full that by (simp add: m(2) remap_fields_extend)
      ultimately show "n_Fields (edited_note sha1 now plan n) = n_Fields n @ replicate m []"
        "n_Checksum (edited_note sha1 now plan n) = n_Checksum n" by (simp_all add: edited_note_def Let_def hd0)
    qed
    have "\<exists>n'\<in>set (cd_notes db'). n_ID n' = n_ID n \<and> n_Fields n' = n_Fields n @ replicate (length flds - ?n) []
        \<and> n_Checksum n' = n_Checksum n \<and> n_Tags n' = n_Tags n" if n: "n \<in> set (notes_of_type db ntID)" for n
    proof (rule bexI [of _ "edited_note sha1 now plan n"])
      show "edited_note sha1 now plan n \<in> set (cd_notes db')" using n by (auto simp: nts map_rows_def notes_of_type_def)
    qed (use flds' [OF n] m(1) in simp)
    moreover have same_order: "\<not> order_changed (map fst (stored_templates db ntID)) (map te_ID ts)"
      using same(2) by (simp add: TemplateOrderChanged_def stored_templates_def templates(1) o_def)
    then obtain j where j: "map te_ID ts = map Some (map fst (stored_templates db ntID)) @ replicate j None"
      by (auto simp: order_changed_iff)
    have "given (map te_ID ts) = map fst (stored_templates db ntID)" unfolding j by (simp del: List.map_map)
    then have none: "dropped db ntID ts = {}" by (simp add: dropped_def)
    have "changed_of E = []"
    proof (rule ccontr)
      assume "changed_of E \<noteq> []"
      then obtain c where "c \<in> set (changed_of E)" by (cases "changed_of E") auto
      then obtain i x where i: "i < length ts" "te_ID (ts ! i) = Some x" "map_of (stored_templates db ntID) x \<noteq> Some (int i)"
        by (auto simp: E changed_of_set [OF known])
      have "map te_ID ts ! i = Some x" using i by simp
      moreover have "i < length (stored_templates db ntID) + j" using i(1) arg_cong [OF j, of length] by simp
      ultimately have p: "i < length (stored_templates db ntID)" "fst (stored_templates db ntID ! i) = x"
        unfolding j by (auto simp: nth_append split: if_splits)
      have sn: "map snd (stored_templates db ntID) = map int [0..<length (stored_templates db ntID)]"
        using templates by (simp add: stored_templates_def o_def)
      have "snd (stored_templates db ntID ! i) = int i" using arg_cong [OF sn, of "\<lambda>l. l ! i"] p(1) by simp
      with p have "(x, int i) \<in> set (stored_templates db ntID)" by (metis nth_mem prod.collapse)
      with i(3) known show False by (simp add: known_def map_of_eq_Some_iff)
    qed
    then have "set (cd_cards db) \<subseteq> set (cd_cards db')" by (auto simp: C none)
    moreover have "cd_states db' = cd_states db" by (simp add: S none)
    ultimately show ?thesis by blast
  qed
qed

section \<open>An example\<close>

text \<open>A note type with two fields and three templates, and one note with its three cards.\<close>

definition demo_template :: "uuid \<Rightarrow> int \<Rightarrow> template_row" where
  "demo_template i k = \<lparr>tp_ID = i, tp_NoteTypeID = 7, tp_Ordinal = k, tp_Name = ''T'', tp_Qfmt = [], tp_Afmt = [],
     tp_BrowserQfmt = [], tp_BrowserAfmt = []\<rparr>"

definition demo_types :: content_db where
  "demo_types = demo_content\<lparr>
     cd_fields := [\<lparr>fd_ID = 5, fd_NoteTypeID = 7, fd_Ordinal = 0, fd_Name = ''Front'', fd_Font = ''Arial'', fd_Size = 20, fd_IsRtl = False, fd_Sticky = False\<rparr>,
        \<lparr>fd_ID = 6, fd_NoteTypeID = 7, fd_Ordinal = 1, fd_Name = ''Back'', fd_Font = ''Arial'', fd_Size = 20, fd_IsRtl = False, fd_Sticky = False\<rparr>],
     cd_templates := [demo_template 8 0, demo_template 9 1, demo_template 10 2],
     cd_notes := [demo_note_row 20 ''g1'' 10],
     cd_cards := [demo_card 30 20 0 10, (demo_card 31 20 1 10)\<lparr>c_TemplateID := 9\<rparr>, (demo_card 32 20 2 10)\<lparr>c_TemplateID := 10\<rparr>]\<rparr>"

definition demo_ids :: new_ids where
  "demo_ids = \<lparr>ni_field = (\<lambda>i. 50 + of_nat i), ni_template = (\<lambda>i. 60 + of_nat i), ni_card = (\<lambda>t n. 100 + t)\<rparr>"

definition demo_sha1 :: "string \<Rightarrow> 8 word list" where
  "demo_sha1 s = replicate 20 (of_nat (length s))"

text \<open>The second template goes, the first and the third change places, a new one comes between them.\<close>

definition demo_edit :: "TemplateEdit list" where
  "demo_edit = [\<lparr>te_ID = Some 10, te_Name = ''C'', te_Qfmt = [], te_Afmt = []\<rparr>,
     \<lparr>te_ID = None, te_Name = ''N'', te_Qfmt = [], te_Afmt = []\<rparr>,
     \<lparr>te_ID = Some 8, te_Name = ''A'', te_Qfmt = [], te_Afmt = []\<rparr>]"

lemmas demo_type_defs = demo_types_def demo_template_def demo_content_def demo_deck_def demo_note_row_def demo_card_def
  access_row_def all_flags_def demo_ids_def

lemma demo_types_hyps:
  "pk n_ID (cd_notes demo_types)" "pk tp_ID (cd_templates demo_types)" "pk fd_ID (cd_fields demo_types)"
  "\<forall>t\<in>set (cd_templates demo_types). tp_NoteTypeID t = 7 \<longrightarrow> 0 \<le> tp_Ordinal t" "cards_match demo_types 7"
proof -
  show "cards_match demo_types 7"
    unfolding cards_match_def
  proof
    fix n assume "n \<in> set (notes_of_type demo_types 7)"
    then have "n_ID n = 20" by (simp add: notes_of_type_def demo_type_defs)
    moreover have "{c \<in> set (cd_cards demo_types). c_NoteID c = 20} = set (cd_cards demo_types)"
      by (auto simp: demo_type_defs)
    moreover have "{t \<in> set (cd_templates demo_types). tp_NoteTypeID t = 7} = set (cd_templates demo_types)"
      by (auto simp: demo_type_defs)
    ultimately show "(\<lambda>c. (c_TemplateID c, c_Ordinal c)) ` {c \<in> set (cd_cards demo_types). c_NoteID c = n_ID n}
        = (\<lambda>t. (tp_ID t, tp_Ordinal t)) ` {t \<in> set (cd_templates demo_types). tp_NoteTypeID t = 7}"
      by (simp add: demo_type_defs)
  qed
qed (simp_all add: demo_type_defs pk_def)

lemmas edit_eval = UpdateNoteType_def LockNoteTypeForEdit_def note_type_writable_def notes_of_type_def may_edit_deck_def
  access_of_def ListFieldsForNoteType_def ListTemplatesForNoteType_def UpdateNoteTypeRow_def planFields_def planTemplates_def
  plan_rows_def applyFieldPlan_def write_field_def UpdateFieldNameAndOrdinal_def CreateField_def DeleteField_def
  fieldPlanIsIdentity_def RemapNoteFields_def remap_fields_def recompute_checksums_def ListNoteFieldsForNoteType_def
  BulkUpdateNoteChecksums_def applyTemplatePlan_def write_template_def UpdateTemplateContentAndOrdinal_def CreateTemplate_def
  run_c_def map_rows_def da_key_def

lemmas remap_eval = RemapNoteTypeCards_def OffsetCardOrdinalsForTemplates_def set_ordinals_def DeleteCardsForTemplates_def
  DeleteTemplatesByIDs_def CreateCardsForNewTemplate_def FinalizeCardOrdinalsForTemplates_def template_targets_def
  insert_card_def card_row_def card_place_def last_position_def max_position_def row_number_def delete_cards_def
  map_filter_simps in_range_def max_int32_def

lemma UpdateNoteType_cards_witness:
  "\<exists>db'. UpdateNoteType demo_sha1 demo_ids demo_types Day 1 7 ''Basic'' [] 0
      [\<lparr>fe_ID = Some 5, fe_Name = ''F''\<rparr>, \<lparr>fe_ID = Some 6, fe_Name = ''B''\<rparr>] demo_edit = Inr db'
    \<and> cards_match db' 7 \<and> c_Ordinal ` set (cd_cards db') = {0, 1, 2}"
proof -
  let ?f = "[\<lparr>fe_ID = Some 5, fe_Name = ''F''\<rparr>, \<lparr>fe_ID = Some 6, fe_Name = ''B''\<rparr>]"
  obtain db' where up: "UpdateNoteType demo_sha1 demo_ids demo_types Day 1 7 ''Basic'' [] 0 ?f demo_edit = Inr db'"
    and c: "c_Ordinal ` set (cd_cards db') = {0, 1, 2}"
    by (simp add: edit_eval remap_eval demo_type_defs demo_edit_def enumerate_eq_zip upt_rec Let_def insert_commute
      del: set_filter)
  from UpdateNoteType_cards [OF up demo_types_hyps] up c show ?thesis by blast
qed

text \<open>The unconfirmed edit: a third field and a fourth template behind the stored ones.\<close>

lemma unconfirmed_edit_keeps_content_witness:
  "\<exists>db'. UpdateNoteType demo_sha1 demo_ids demo_types Day 1 7 ''Basic'' [] 0
      [\<lparr>fe_ID = Some 5, fe_Name = ''F''\<rparr>, \<lparr>fe_ID = Some 6, fe_Name = ''B''\<rparr>, \<lparr>fe_ID = None, fe_Name = ''X''\<rparr>]
      (map (\<lambda>i. \<lparr>te_ID = i, te_Name = ''T'', te_Qfmt = [], te_Afmt = []\<rparr>) [Some 8, Some 9, Some 10, None]) = Inr db'
    \<and> set (cd_cards demo_types) \<subseteq> set (cd_cards db')"
proof -
  let ?f = "[\<lparr>fe_ID = Some 5, fe_Name = ''F''\<rparr>, \<lparr>fe_ID = Some 6, fe_Name = ''B''\<rparr>, \<lparr>fe_ID = None, fe_Name = ''X''\<rparr>]"
  let ?t = "map (\<lambda>i. \<lparr>te_ID = i, te_Name = ''T'', te_Qfmt = [], te_Afmt = []\<rparr>) [Some 8, Some 9, Some 10, None]"
  obtain db' where up: "UpdateNoteType demo_sha1 demo_ids demo_types Day 1 7 ''Basic'' [] 0 ?f ?t = Inr db'"
    by (simp add: edit_eval remap_eval demo_type_defs enumerate_eq_zip upt_rec Let_def)
  let ?ef = "sort_key fd_Ordinal (filter (\<lambda>f. fd_NoteTypeID f = 7) (cd_fields demo_types))"
  let ?et = "sort_key tp_Ordinal (filter (\<lambda>t. tp_NoteTypeID t = 7) (cd_templates demo_types))"
  have "?ef \<noteq> []" "map fd_Ordinal ?ef = map int [0..<length ?ef]" "map tp_Ordinal ?et = map int [0..<length ?et]"
    "\<forall>n\<in>set (notes_of_type demo_types 7). length (n_Fields n) = length ?ef"
    "\<not> FieldOrderChanged ?ef ?f" "\<not> TemplateOrderChanged ?et ?t"
    by (simp_all add: demo_type_defs notes_of_type_def FieldOrderChanged_def TemplateOrderChanged_def order_changed_def upt_rec)
  from unconfirmed_edit_keeps_content [OF up demo_types_hyps(1-3) refl this(1,2) refl this(3-6)] up show ?thesis by blast
qed

end
