(* ===== verification/Auth_Limiter.thy ===== *)
theory Auth_Limiter
  imports Go_Time
begin

text \<open>
  The fixed-window rate limiter of \<open>internal/auth/ratelimit.go\<close>: a counter per key that starts anew when its
  window has run out. The mutex makes each call one step, so a run is a sequence of calls; the clock
  (\<open>l.now\<close>) is the time each call reads.
\<close>

section \<open>The code\<close>

record bucket =
  bk_count :: int
  bk_resetAt :: gotime

record limiter =
  lm_limit :: int
  lm_window :: duration
  lm_seen :: "string \<Rightarrow> bucket option"

definition newLimiter :: "int \<Rightarrow> duration \<Rightarrow> limiter" where
  "newLimiter limit window = \<lparr>lm_limit = limit, lm_window = window, lm_seen = (\<lambda>_. None)\<rparr>"

text \<open>The bucket a call at \<open>now\<close> counts in: the stored one, or a new one once its window has elapsed.\<close>

definition current_bucket :: "limiter \<Rightarrow> gotime \<Rightarrow> string \<Rightarrow> bucket" where
  "current_bucket l now key =
     (let fresh = \<lparr>bk_count = 0, bk_resetAt = now + lm_window l\<rparr>
      in case lm_seen l key of
           None \<Rightarrow> fresh
         | Some b \<Rightarrow> if now > bk_resetAt b \<or> now = bk_resetAt b then fresh else b)"

definition Allow :: "limiter \<Rightarrow> gotime \<Rightarrow> string \<Rightarrow> (bool \<times> duration) \<times> limiter" where
  "Allow l now key =
     (let b0 = current_bucket l now key;
          b = b0\<lparr>bk_count := wrap64 (bk_count b0 + 1)\<rparr>;
          l' = l\<lparr>lm_seen := (lm_seen l)(key := Some b)\<rparr>
      in if bk_count b > lm_limit l then ((False, time_Sub (bk_resetAt b) now), l')
         else ((True, 0), l'))"

definition Sweep :: "limiter \<Rightarrow> gotime \<Rightarrow> limiter" where
  "Sweep l now =
     l\<lparr>lm_seen := (\<lambda>key. case lm_seen l key of
          None \<Rightarrow> None
        | Some b \<Rightarrow> if now > bk_resetAt b then None else Some b)\<rparr>"

section \<open>Runs\<close>

datatype limiter_call = AllowCall string gotime | SweepCall gotime

fun call_time :: "limiter_call \<Rightarrow> gotime" where
  "call_time (AllowCall _ t) = t"
| "call_time (SweepCall t) = t"

text \<open>What a sequence of calls answers: one entry per \<open>Allow\<close>.\<close>

record answer =
  an_key :: string
  an_time :: gotime
  an_ok :: bool

fun limiter_run :: "limiter \<Rightarrow> limiter_call list \<Rightarrow> answer list \<times> limiter" where
  "limiter_run l [] = ([], l)"
| "limiter_run l (AllowCall key t # cs) =
     (let ((ok, _), l') = Allow l t key; (as, l'') = limiter_run l' cs
      in (\<lparr>an_key = key, an_time = t, an_ok = ok\<rparr> # as, l''))"
| "limiter_run l (SweepCall t # cs) = limiter_run (Sweep l t) cs"

lemma Allow_config [simp]:
  "lm_limit (snd (Allow l t k)) = lm_limit l" "lm_window (snd (Allow l t k)) = lm_window l"
  by (simp_all add: Allow_def Let_def)

lemma Sweep_config [simp]: "lm_limit (Sweep l t) = lm_limit l" "lm_window (Sweep l t) = lm_window l"
  by (simp_all add: Sweep_def)

lemma newLimiter_config [simp]:
  "lm_limit (newLimiter n w) = n" "lm_window (newLimiter n w) = w" "lm_seen (newLimiter n w) k = None"
  by (simp_all add: newLimiter_def)

lemma Allow_other [simp]: "k' \<noteq> k \<Longrightarrow> lm_seen (snd (Allow l t k)) k' = lm_seen l k'"
  by (simp add: Allow_def Let_def)

lemma Allow_seen:
  "lm_seen (snd (Allow l t k)) k =
     Some (current_bucket l t k\<lparr>bk_count := wrap64 (bk_count (current_bucket l t k) + 1)\<rparr>)"
  by (simp add: Allow_def Let_def)

lemma Allow_ok: "fst (fst (Allow l t k)) \<longleftrightarrow> wrap64 (bk_count (current_bucket l t k) + 1) \<le> lm_limit l"
  by (simp add: Allow_def Let_def not_less [symmetric])

section \<open>How many calls a window admits\<close>

definition in_window :: "gotime \<Rightarrow> duration \<Rightarrow> gotime \<Rightarrow> bool" where
  "in_window t w s \<longleftrightarrow> t \<le> s \<and> s < t + w"

definition admitted :: "string \<Rightarrow> gotime \<Rightarrow> duration \<Rightarrow> answer list \<Rightarrow> int" where
  "admitted k t w as = int (length (filter (\<lambda>a. an_key a = k \<and> an_ok a \<and> in_window t w (an_time a)) as))"

lemma admitted_simps [simp]:
  "admitted k t w [] = 0"
  "admitted k t w (a # as) =
     (if an_key a = k \<and> an_ok a \<and> in_window t w (an_time a) then 1 else 0) + admitted k t w as"
  by (simp_all add: admitted_def)

text \<open>
  What holds after calls up to \<open>now\<close> that admitted \<open>A\<close> times within \<open>[t, t + window)\<close>: a bucket that ends
  before the window does holds all of them, one that ends after it was opened within the window, so the
  others came from the one bucket before it.
\<close>

definition window_inv :: "limiter \<Rightarrow> string \<Rightarrow> gotime \<Rightarrow> int \<Rightarrow> int \<Rightarrow> gotime \<Rightarrow> bool" where
  "window_inv l k t A n now \<longleftrightarrow>
     0 \<le> A \<and> A \<le> 2 * lm_limit l \<and> (now < t \<longrightarrow> A = 0)
     \<and> (case lm_seen l k of
          None \<Rightarrow> A \<le> lm_limit l \<or> t + lm_window l \<le> now
        | Some b \<Rightarrow> 0 \<le> bk_count b \<and> bk_count b \<le> n
            \<and> (bk_resetAt b < t + lm_window l \<longrightarrow> A \<le> bk_count b \<and> A \<le> lm_limit l)
            \<and> (t + lm_window l \<le> bk_resetAt b \<longrightarrow>
                 A \<le> lm_limit l + bk_count b \<or> t + lm_window l \<le> now))"

lemma window_inv_later: "window_inv l k t A n now \<Longrightarrow> now \<le> now' \<Longrightarrow> n \<le> n' \<Longrightarrow> window_inv l k t A n' now'"
  by (auto simp: window_inv_def split: option.splits)

lemma window_inv_Sweep:
  assumes "window_inv l k t A n now" "now \<le> s" "n \<le> n'"
  shows "window_inv (Sweep l s) k t A n' s"
proof -
  from window_inv_later [OF assms] have inv: "window_inv l k t A n' s" .
  show ?thesis
  proof (cases "lm_seen l k")
    case None
    with inv show ?thesis by (simp add: window_inv_def Sweep_def)
  next
    case (Some b)
    show ?thesis
    proof (cases "s > bk_resetAt b")
      case False
      with inv Some show ?thesis by (simp add: window_inv_def Sweep_def)
    next
      case True
      with Some have none: "lm_seen (Sweep l s) k = None" by (simp add: Sweep_def)
      from inv Some True have "A \<le> lm_limit l \<or> t + lm_window l \<le> s" by (auto simp: window_inv_def)
      with inv none show ?thesis by (simp add: window_inv_def)
    qed
  qed
qed

lemma window_inv_Allow:
  assumes inv: "window_inv l k t A n now" and s: "now \<le> s" and n: "0 \<le> n" "n + 1 < 2 ^ 63"
    and w: "0 < lm_window l" and lim: "0 \<le> lm_limit l"
  shows "window_inv (snd (Allow l s k)) k t
     (A + (if fst (fst (Allow l s k)) \<and> in_window t (lm_window l) s then 1 else 0)) (n + 1) s"
proof -
  define b where "b = current_bucket l s k"
  define c where "c = bk_count b + 1"
  define ok where "ok \<longleftrightarrow> c \<le> lm_limit l"
  have b_new: "bk_count b = 0 \<and> bk_resetAt b = s + lm_window l
       \<and> (case lm_seen l k of None \<Rightarrow> True | Some b' \<Rightarrow> bk_resetAt b' \<le> s)
     \<or> lm_seen l k = Some b \<and> s < bk_resetAt b"
    by (auto simp: b_def current_bucket_def Let_def split: option.splits)
  have range: "0 \<le> bk_count b" "bk_count b \<le> n"
    using b_new inv n by (auto simp: window_inv_def)
  then have c: "wrap64 (bk_count b + 1) = c" using n unfolding c_def by (intro wrap64_id) simp_all
  have ok': "fst (fst (Allow l s k)) = ok" by (simp add: Allow_ok ok_def b_def [symmetric] c)
  have seen: "lm_seen (snd (Allow l s k)) k = Some (b\<lparr>bk_count := c\<rparr>)"
    by (simp add: Allow_seen b_def [symmetric] c)
  show ?thesis
    using b_new
  proof (elim disjE conjE)
    assume fresh: "bk_count b = 0" "bk_resetAt b = s + lm_window l"
      and old: "case lm_seen l k of None \<Rightarrow> True | Some b' \<Rightarrow> bk_resetAt b' \<le> s"
    have "A \<le> lm_limit l \<or> t + lm_window l \<le> s"
      using inv old s by (auto simp: window_inv_def split: option.splits)
    moreover have "0 \<le> A" "A \<le> 2 * lm_limit l" "s < t \<longrightarrow> A = 0" using inv s by (auto simp: window_inv_def)
    ultimately show ?thesis
      using n w lim fresh unfolding window_inv_def ok' seen
      by (auto simp: in_window_def ok_def c_def)
  next
    assume old: "lm_seen l k = Some b" "s < bk_resetAt b"
    with inv s have "0 \<le> A" "A \<le> 2 * lm_limit l" "s < t \<longrightarrow> A = 0"
      "bk_resetAt b < t + lm_window l \<longrightarrow> A \<le> bk_count b \<and> A \<le> lm_limit l"
      "t + lm_window l \<le> bk_resetAt b \<longrightarrow> A \<le> lm_limit l + bk_count b \<or> t + lm_window l \<le> s"
      by (auto simp: window_inv_def)
    with range show ?thesis
      using n w lim old unfolding window_inv_def ok' seen
      by (auto simp: in_window_def ok_def c_def)
  qed
qed

lemma window_inv_other:
  assumes "k \<noteq> k'" and inv: "window_inv l k t A n now" and "now \<le> s"
  shows "window_inv (snd (Allow l s k')) k t A (n + 1) s"
proof -
  from inv have "window_inv l k t A (n + 1) s" by (rule window_inv_later) (use assms in simp_all)
  then show ?thesis unfolding window_inv_def Allow_config Allow_other [OF assms(1)] .
qed

lemma limiter_run_window:
  assumes "window_inv l k t A n now" "0 \<le> n" "n + int (length cs) < 2 ^ 63"
    and "sorted (map call_time cs)" "\<forall>c\<in>set cs. now \<le> call_time c"
    and "0 < lm_window l" "0 \<le> lm_limit l"
  shows "A + admitted k t (lm_window l) (fst (limiter_run l cs)) \<le> 2 * lm_limit l"
  using assms
proof (induction cs arbitrary: l A n now)
  case Nil
  then show ?case by (simp add: window_inv_def)
next
  case (Cons c cs)
  show ?case
  proof (cases c)
    case (SweepCall s)
    with Cons.prems have "window_inv (Sweep l s) k t A (n + 1) s" by (intro window_inv_Sweep) auto
    from Cons.IH [OF this] Cons.prems SweepCall show ?thesis by simp
  next
    case (AllowCall key s)
    let ?A = "A + (if key = k \<and> fst (fst (Allow l s k)) \<and> in_window t (lm_window l) s then 1 else 0)"
    have "window_inv (snd (Allow l s key)) k t ?A (n + 1) s"
    proof (cases "key = k")
      case True
      from window_inv_Allow [OF Cons.prems(1), of s] Cons.prems True AllowCall show ?thesis by simp
    next
      case False
      with window_inv_other Cons.prems AllowCall show ?thesis by simp
    qed
    from Cons.IH [OF this] Cons.prems AllowCall
    have "?A + admitted k t (lm_window l) (fst (limiter_run (snd (Allow l s key)) cs)) \<le> 2 * lm_limit l"
      by simp
    then show ?thesis using AllowCall by (auto simp: split_beta split: if_splits)
  qed
qed

section \<open>When a call is refused\<close>

definition recent :: "string \<Rightarrow> gotime \<Rightarrow> answer list \<Rightarrow> int" where
  "recent k since as = int (length (filter (\<lambda>a. an_key a = k \<and> since \<le> an_time a) as))"

lemma recent_append [simp]: "recent k t (as @ bs) = recent k t as + recent k t bs"
  by (simp add: recent_def)

lemma recent_simps [simp]:
  "recent k t [] = 0"
  "recent k t (a # as) = (if an_key a = k \<and> t \<le> an_time a then 1 else 0) + recent k t as"
  by (simp_all add: recent_def)

lemma recent_nonneg [simp]: "0 \<le> recent k t as"
  by (simp add: recent_def)

lemma recent_mono: "t' \<le> t \<Longrightarrow> recent k t as \<le> recent k t' as"
  by (induction as) auto

text \<open>A bucket counts no call that was not made since it was opened.\<close>

definition count_inv :: "limiter \<Rightarrow> answer list \<Rightarrow> int \<Rightarrow> bool" where
  "count_inv l H n \<longleftrightarrow>
     (\<forall>k b. lm_seen l k = Some b \<longrightarrow>
        0 \<le> bk_count b \<and> bk_count b \<le> n \<and> bk_count b \<le> recent k (bk_resetAt b - lm_window l) H)"

lemma current_bucket_count:
  assumes "count_inv l H n" "0 \<le> n"
  shows "0 \<le> bk_count (current_bucket l s k)" "bk_count (current_bucket l s k) \<le> n"
    "bk_count (current_bucket l s k) \<le> recent k (bk_resetAt (current_bucket l s k) - lm_window l) H"
    "s < bk_resetAt (current_bucket l s k) \<or> bk_count (current_bucket l s k) = 0"
    "bk_resetAt (current_bucket l s k) - lm_window l \<le> s \<or> lm_seen l k = Some (current_bucket l s k)"
  using assms by (auto simp: current_bucket_def Let_def count_inv_def split: option.splits)

definition opened_inv :: "limiter \<Rightarrow> gotime \<Rightarrow> bool" where
  "opened_inv l now \<longleftrightarrow> (\<forall>k b. lm_seen l k = Some b \<longrightarrow> bk_resetAt b - lm_window l \<le> now)"

lemma opened_inv_later: "opened_inv l now \<Longrightarrow> now \<le> s \<Longrightarrow> opened_inv l s"
  by (force simp: opened_inv_def)

lemma opened_inv_Allow:
  assumes "opened_inv l now" "now \<le> s"
  shows "opened_inv (snd (Allow l s k)) s"
  using opened_inv_later [OF assms]
  by (auto simp: opened_inv_def Allow_def Let_def current_bucket_def split: option.splits if_splits)

lemma opened_inv_Sweep:
  assumes "opened_inv l now" "now \<le> s"
  shows "opened_inv (Sweep l s) s"
  using opened_inv_later [OF assms] by (auto simp: opened_inv_def Sweep_def split: option.splits if_splits)

lemma count_inv_later: "count_inv l H n \<Longrightarrow> n \<le> n' \<Longrightarrow> count_inv l H n'"
  by (force simp: count_inv_def)

lemma count_inv_Sweep: "count_inv l H n \<Longrightarrow> count_inv (Sweep l s) H n"
  by (auto simp: count_inv_def Sweep_def split: option.splits if_splits)

lemma count_inv_Allow:
  assumes inv: "count_inv l H n" and op: "opened_inv l now" and s: "now \<le> s" and n: "0 \<le> n" "n + 1 < 2 ^ 63"
    and w: "0 < lm_window l" and a: "an_key a = k" "an_time a = s"
  shows "count_inv (snd (Allow l s k)) (H @ [a]) (n + 1)"
    "\<not> fst (fst (Allow l s k)) \<Longrightarrow> 0 \<le> lm_limit l \<Longrightarrow> lm_limit l \<le> recent k (s - lm_window l) H"
proof -
  define b where "b = current_bucket l s k"
  note B = current_bucket_count [OF inv n(1), of s k, folded b_def]
  have c: "wrap64 (bk_count b + 1) = bk_count b + 1" using B n by (intro wrap64_id) simp_all
  have open_s: "bk_resetAt b - lm_window l \<le> s" using B(5) opened_inv_later [OF op s] by (auto simp: opened_inv_def)
  show "count_inv (snd (Allow l s k)) (H @ [a]) (n + 1)"
    unfolding count_inv_def
  proof (intro allI impI)
    fix k' b' assume b': "lm_seen (snd (Allow l s k)) k' = Some b'"
    show "0 \<le> bk_count b' \<and> bk_count b' \<le> n + 1
        \<and> bk_count b' \<le> recent k' (bk_resetAt b' - lm_window (snd (Allow l s k))) (H @ [a])"
    proof (cases "k' = k")
      case True
      with b' c have "b' = b\<lparr>bk_count := bk_count b + 1\<rparr>" by (simp add: Allow_seen b_def [symmetric])
      with True B a open_s show ?thesis by simp
    next
      case False
      with b' have "lm_seen l k' = Some b'" by simp
      with inv have "0 \<le> bk_count b' \<and> bk_count b' \<le> n
          \<and> bk_count b' \<le> recent k' (bk_resetAt b' - lm_window l) H" by (simp add: count_inv_def)
      with a False show ?thesis by simp
    qed
  qed
  assume no: "\<not> fst (fst (Allow l s k))" and lim: "0 \<le> lm_limit l"
  then have "lm_limit l < bk_count b + 1" by (simp add: Allow_ok b_def [symmetric] c)
  moreover have "recent k (bk_resetAt b - lm_window l) H \<le> recent k (s - lm_window l) H" if "0 < bk_count b"
    using B(4) that by (intro recent_mono) auto
  ultimately show "lm_limit l \<le> recent k (s - lm_window l) H"
    using B(1,3) by (cases "bk_count b = 0") (auto intro: order_trans [OF _ recent_nonneg])
qed

lemma limiter_run_refused:
  assumes "count_inv l H n" "opened_inv l now" "0 \<le> n" "n + int (length cs) < 2 ^ 63"
    and "sorted (map call_time cs)" "\<forall>c\<in>set cs. now \<le> call_time c"
    and "0 < lm_window l" "0 \<le> lm_limit l"
    and "fst (limiter_run l cs) = pre @ a # post" "\<not> an_ok a"
  shows "lm_limit l \<le> recent (an_key a) (an_time a - lm_window l) (H @ pre)"
  using assms
proof (induction cs arbitrary: l H n now pre)
  case (Cons c cs)
  show ?case
  proof (cases c)
    case (SweepCall s)
    with Cons.prems have s: "now \<le> s" by simp
    have "lm_limit (Sweep l s) \<le> recent (an_key a) (an_time a - lm_window (Sweep l s)) (H @ pre)"
      by (rule Cons.IH [OF count_inv_later [OF count_inv_Sweep [OF Cons.prems(1)], of "n + 1"]
            opened_inv_Sweep [OF Cons.prems(2) s]])
        (use Cons.prems SweepCall in auto)
    then show ?thesis by simp
  next
    case (AllowCall k s)
    let ?h = "\<lparr>an_key = k, an_time = s, an_ok = fst (fst (Allow l s k))\<rparr>"
    let ?l = "snd (Allow l s k)"
    have as: "?h # fst (limiter_run ?l cs) = pre @ a # post"
      using Cons.prems(9) AllowCall by (simp add: split_beta)
    have s: "now \<le> s" "n + 1 < 2 ^ 63" using Cons.prems AllowCall by simp_all
    note step = count_inv_Allow [OF Cons.prems(1,2) s(1) Cons.prems(3) s(2) Cons.prems(7), of ?h k]
    show ?thesis
    proof (cases pre)
      case Nil
      with as have "a = ?h" by simp
      with Nil step(2) Cons.prems(8,10) show ?thesis by simp
    next
      case (Cons p pre')
      with as have tl: "fst (limiter_run ?l cs) = pre' @ a # post" and p: "p = ?h" by simp_all
      have "lm_limit ?l \<le> recent (an_key a) (an_time a - lm_window ?l) ((H @ [?h]) @ pre')"
        by (rule Cons.IH [OF step(1) opened_inv_Allow [OF Cons.prems(2) s(1)]])
          (use Cons.prems AllowCall tl in auto)
      with p Cons show ?thesis by simp
    qed
  qed
qed simp

section \<open>The rate a limiter lets through\<close>

lemma limiter_rate_parts:
  assumes run: "limiter_run (newLimiter limit window) cs = (as, l')"
    and cfg: "0 \<le> limit" "0 < window"
    and time: "sorted (map call_time cs)"
    and len: "length cs < 2 ^ 63"
  shows "admitted k t window as \<le> 2 * limit"
    and "as = pre @ a # post \<Longrightarrow> \<not> an_ok a \<Longrightarrow> limit \<le> recent (an_key a) (an_time a - window) pre"
proof -
  let ?l = "newLimiter limit window"
  define now where "now = min t (if cs = [] then t else call_time (hd cs))"
  have later: "\<forall>c\<in>set cs. now \<le> call_time c" using time by (cases cs) (auto simp: now_def)
  have len': "0 + int (length cs) < 2 ^ 63" using len by simp
  have "window_inv ?l k t 0 0 now" using cfg by (simp add: window_inv_def)
  from limiter_run_window [OF this _ len' time later] cfg run
  show "admitted k t window as \<le> 2 * limit" by simp
  have "count_inv ?l [] 0" "opened_inv ?l now" by (simp_all add: count_inv_def opened_inv_def)
  from limiter_run_refused [OF this _ len' time later] cfg run
  show "as = pre @ a # post \<Longrightarrow> \<not> an_ok a \<Longrightarrow> limit \<le> recent (an_key a) (an_time a - window) pre" by simp
qed

text \<open>C29: From a new limiter, however calls for different keys and sweeps interleave, no window-long span of
  time admits more than twice the limit for a key (a fixed window can be used up at its end and the next at
  its beginning), and a call is refused only if at least \<open>limit\<close> calls with its key were made in the window
  before it: sweeping the buckets never lets a key through early and never locks one out.\<close>

theorem limiter_rate:
  assumes "limiter_run (newLimiter limit window) cs = (as, l')" and "0 \<le> limit" "0 < window"
    and "sorted (map call_time cs)" and "length cs < 2 ^ 63"
  shows "(\<forall>k t. admitted k t window as \<le> 2 * limit)
    \<and> (\<forall>pre a post. as = pre @ a # post \<and> \<not> an_ok a \<longrightarrow> limit \<le> recent (an_key a) (an_time a - window) pre)"
  using limiter_rate_parts [OF assms] by blast

text \<open>Two attempts per minute: the third within the minute is refused, the next minute starts anew.\<close>

definition demo_calls :: "limiter_call list" where
  "demo_calls = [AllowCall ''a'' 0, AllowCall ''a'' 50, AllowCall ''b'' 55, AllowCall ''a'' 59, SweepCall 59, AllowCall ''a'' 60]"

theorem limiter_rate_witness:
  "admitted ''a'' 50 60 (fst (limiter_run (newLimiter 2 60) demo_calls)) \<le> 2 * 2
   \<and> (2::int) \<le> recent ''a'' (59 - 60) [\<lparr>an_key = ''a'', an_time = 0, an_ok = True\<rparr>,
        \<lparr>an_key = ''a'', an_time = 50, an_ok = True\<rparr>, \<lparr>an_key = ''b'', an_time = 55, an_ok = True\<rparr>]"
proof -
  obtain l' where run: "limiter_run (newLimiter 2 60) demo_calls =
     ([\<lparr>an_key = ''a'', an_time = 0, an_ok = True\<rparr>, \<lparr>an_key = ''a'', an_time = 50, an_ok = True\<rparr>,
       \<lparr>an_key = ''b'', an_time = 55, an_ok = True\<rparr>, \<lparr>an_key = ''a'', an_time = 59, an_ok = False\<rparr>,
       \<lparr>an_key = ''a'', an_time = 60, an_ok = True\<rparr>], l')"
    by (simp add: demo_calls_def Allow_def Sweep_def current_bucket_def newLimiter_def Let_def wrap_def)
  have time: "sorted (map call_time demo_calls)" "length demo_calls < 2 ^ 63" by (simp_all add: demo_calls_def)
  let ?pre = "[\<lparr>an_key = ''a'', an_time = 0, an_ok = True\<rparr>, \<lparr>an_key = ''a'', an_time = 50, an_ok = True\<rparr>,
    \<lparr>an_key = ''b'', an_time = 55, an_ok = True\<rparr>]"
  let ?a = "\<lparr>an_key = ''a'', an_time = 59, an_ok = False\<rparr>" and ?post = "[\<lparr>an_key = ''a'', an_time = 60, an_ok = True\<rparr>]"
  have fst_run: "fst (limiter_run (newLimiter 2 60) demo_calls) = ?pre @ ?a # ?post" by (simp add: run)
  have "limiter_run (newLimiter 2 60) demo_calls = (?pre @ ?a # ?post, l')" by (simp add: run)
  then have r: "(\<forall>k t. admitted k t 60 (?pre @ ?a # ?post) \<le> 2 * 2)
    \<and> (\<forall>pre a post. ?pre @ ?a # ?post = pre @ a # post \<and> \<not> an_ok a \<longrightarrow> (2::int) \<le> recent (an_key a) (an_time a - 60) pre)"
    by (rule limiter_rate) (use time in simp_all)
  have "admitted ''a'' 50 60 (?pre @ ?a # ?post) \<le> 2 * 2" using r by blast
  moreover have "(2::int) \<le> recent (an_key ?a) (an_time ?a - 60) ?pre"
    by (rule conjunct2 [OF r, rule_format, of ?pre ?a ?post]) simp
  ultimately show ?thesis unfolding fst_run by simp
qed

end
