(* ===== verification/Auth_Store.thy ===== *)
theory Auth_Store
  imports Auth_Limiter Note_Type_Edit
begin

text \<open>
  Accounts, sessions and password reset links: the rows of \<open>db/models.go\<close> and the statements of
  \<open>users.sql.go\<close>, \<open>sessions.sql.go\<close> and \<open>password_reset_tokens.sql.go\<close>. The constraints of migrations 1, 2, 17
  and 22 to 25 are written out; \<open>ad_refuses\<close> is the statement that fails for another reason. Postgres's
  \<open>lower\<close> depends on the collation and is a parameter, and so are the id a row gets by default and \<open>now()\<close>.
\<close>

section \<open>Rows\<close>

record user =
  us_ID :: uuid
  us_Email :: string
  us_PasswordHash :: string
  us_DisplayName :: string
  us_Timezone :: string
  us_DayStartHour :: int
  us_CreatedAt :: gotime
  us_AvatarSha256 :: "string option"
  us_ColorScheme :: string
  us_LastSeenVersion :: string
  us_Accent :: string

record session =
  ss_ID :: string
  ss_UserID :: uuid
  ss_ExpiresAt :: gotime
  ss_CreatedAt :: gotime

record reset_token =
  rt_ID :: string
  rt_UserID :: uuid
  rt_ExpiresAt :: gotime
  rt_CreatedAt :: gotime

text \<open>The content tables, for the note types a new account gets; \<open>ad_blobs\<close> are the keys of \<open>media_blobs\<close>.\<close>

record auth_db =
  ad_users :: "user list"
  ad_sessions :: "session list"
  ad_resets :: "reset_token list"
  ad_blobs :: "string list"
  ad_content :: content_db
  ad_refuses :: "string \<Rightarrow> bool"

datatype store_error = SRefused string | SNoRows | SUnique string | SForeignKey string | SCheck string

definition run_a :: "auth_db \<Rightarrow> string \<Rightarrow> 'a \<Rightarrow> store_error + 'a" where
  "run_a db st x = (if ad_refuses db st then Inl (SRefused st) else Inr x)"

definition one_a :: "'a option \<Rightarrow> store_error + 'a" where
  "one_a x = (case x of None \<Rightarrow> Inl SNoRows | Some y \<Rightarrow> Inr y)"

lemma run_a_Inr [simp]: "run_a db st x = Inr y \<longleftrightarrow> \<not> ad_refuses db st \<and> y = x"
  by (auto simp: run_a_def)

lemma one_a_Inr [simp]: "one_a x = Inr y \<longleftrightarrow> x = Some y"
  by (auto simp: one_a_def split: option.splits)

section \<open>Users\<close>

definition new_user :: "uuid \<Rightarrow> gotime \<Rightarrow> string \<Rightarrow> string \<Rightarrow> string \<Rightarrow> string \<Rightarrow> user" where
  "new_user newID now email hash name version =
     \<lparr>us_ID = newID, us_Email = email, us_PasswordHash = hash, us_DisplayName = name, us_Timezone = ''UTC'',
      us_DayStartHour = 4, us_CreatedAt = now, us_AvatarSha256 = None, us_ColorScheme = ''auto'',
      us_LastSeenVersion = version, us_Accent = ''azure''\<rparr>"

text \<open>\<open>ON CONFLICT (lower(email)) DO NOTHING RETURNING\<close>: a taken address returns no row.\<close>

definition CreateUser :: "(string \<Rightarrow> string) \<Rightarrow> auth_db \<Rightarrow> uuid \<Rightarrow> gotime \<Rightarrow> string \<Rightarrow> string \<Rightarrow> string \<Rightarrow> string
    \<Rightarrow> store_error + user \<times> auth_db" where
  "CreateUser lower db newID now email hash name version =
     bindE (run_a db ''CreateUser'' ()) (\<lambda>_.
       if \<exists>u\<in>set (ad_users db). lower (us_Email u) = lower email then Inl SNoRows
       else if \<exists>u\<in>set (ad_users db). us_ID u = newID then Inl (SUnique ''users_pkey'')
       else let u = new_user newID now email hash name version
            in Inr (u, db\<lparr>ad_users := ad_users db @ [u]\<rparr>))"

definition EmailExists :: "(string \<Rightarrow> string) \<Rightarrow> auth_db \<Rightarrow> string \<Rightarrow> store_error + bool" where
  "EmailExists lower db email =
     run_a db ''EmailExists'' (\<exists>u\<in>set (ad_users db). lower (us_Email u) = lower email)"

definition GetUser :: "auth_db \<Rightarrow> uuid \<Rightarrow> store_error + user" where
  "GetUser db userID = bindE (run_a db ''GetUser'' (row_of us_ID userID (ad_users db))) one_a"

definition GetUserByEmail :: "(string \<Rightarrow> string) \<Rightarrow> auth_db \<Rightarrow> string \<Rightarrow> store_error + user" where
  "GetUserByEmail lower db email =
     bindE (run_a db ''GetUserByEmail'' (row_of (\<lambda>u. lower (us_Email u)) (lower email) (ad_users db))) one_a"

definition update_user :: "auth_db \<Rightarrow> uuid \<Rightarrow> (user \<Rightarrow> user) \<Rightarrow> auth_db" where
  "update_user db userID f = db\<lparr>ad_users := map_rows (\<lambda>u. us_ID u = userID) f (ad_users db)\<rparr>"

definition user_exists :: "auth_db \<Rightarrow> uuid \<Rightarrow> bool" where
  "user_exists db userID \<longleftrightarrow> (\<exists>u\<in>set (ad_users db). us_ID u = userID)"

definition UpdateUserAppearance :: "auth_db \<Rightarrow> uuid \<Rightarrow> string \<Rightarrow> string \<Rightarrow> store_error + auth_db" where
  "UpdateUserAppearance db userID scheme accent =
     bindE (run_a db ''UpdateUserAppearance'' ()) (\<lambda>_.
       if \<not> user_exists db userID then Inr db
       else if accent \<notin> set [''azure'', ''blue'', ''indigo'', ''purple'', ''pink'', ''red'', ''orange'', ''green'']
         then Inl (SCheck ''users_accent_check'')
       else if scheme \<notin> set [''auto'', ''light'', ''dark''] then Inl (SCheck ''users_color_scheme_check'')
       else Inr (update_user db userID (\<lambda>u. u\<lparr>us_ColorScheme := scheme, us_Accent := accent\<rparr>)))"

definition UpdateUserAvatar :: "auth_db \<Rightarrow> uuid \<Rightarrow> string option \<Rightarrow> store_error + auth_db" where
  "UpdateUserAvatar db userID sha =
     bindE (run_a db ''UpdateUserAvatar'' ()) (\<lambda>_.
       if user_exists db userID \<and> (case sha of None \<Rightarrow> False | Some s \<Rightarrow> s \<notin> set (ad_blobs db))
       then Inl (SForeignKey ''users_avatar_sha256_fkey'')
       else Inr (update_user db userID (\<lambda>u. u\<lparr>us_AvatarSha256 := sha\<rparr>)))"

definition UpdateUserLastSeenVersion :: "auth_db \<Rightarrow> uuid \<Rightarrow> string \<Rightarrow> store_error + auth_db" where
  "UpdateUserLastSeenVersion db userID version =
     bindE (run_a db ''UpdateUserLastSeenVersion'' ()) (\<lambda>_.
       Inr (update_user db userID (\<lambda>u. u\<lparr>us_LastSeenVersion := version\<rparr>)))"

definition UpdateUserPassword :: "auth_db \<Rightarrow> uuid \<Rightarrow> string \<Rightarrow> store_error + auth_db" where
  "UpdateUserPassword db userID hash =
     bindE (run_a db ''UpdateUserPassword'' ()) (\<lambda>_.
       Inr (update_user db userID (\<lambda>u. u\<lparr>us_PasswordHash := hash\<rparr>)))"

definition UpdateUserProfile :: "auth_db \<Rightarrow> uuid \<Rightarrow> string \<Rightarrow> string \<Rightarrow> int \<Rightarrow> store_error + auth_db" where
  "UpdateUserProfile db userID name timezone hour =
     bindE (run_a db ''UpdateUserProfile'' ()) (\<lambda>_.
       if user_exists db userID \<and> \<not> (0 \<le> hour \<and> hour \<le> 23) then Inl (SCheck ''users_day_start_hour_check'')
       else Inr (update_user db userID
         (\<lambda>u. u\<lparr>us_DisplayName := name, us_Timezone := timezone, us_DayStartHour := hour\<rparr>)))"

section \<open>Sessions\<close>

definition CreateSession :: "auth_db \<Rightarrow> gotime \<Rightarrow> string \<Rightarrow> uuid \<Rightarrow> gotime \<Rightarrow> store_error + auth_db" where
  "CreateSession db now sid userID expiresAt =
     bindE (run_a db ''CreateSession'' ()) (\<lambda>_.
       if \<exists>s\<in>set (ad_sessions db). ss_ID s = sid then Inl (SUnique ''sessions_pkey'')
       else if \<not> user_exists db userID then Inl (SForeignKey ''sessions_user_id_fkey'')
       else Inr (db\<lparr>ad_sessions := ad_sessions db @
         [\<lparr>ss_ID = sid, ss_UserID = userID, ss_ExpiresAt = pg_timestamp expiresAt, ss_CreatedAt = now\<rparr>]\<rparr>))"

definition keep_sessions :: "auth_db \<Rightarrow> (session \<Rightarrow> bool) \<Rightarrow> auth_db" where
  "keep_sessions db p = db\<lparr>ad_sessions := filter p (ad_sessions db)\<rparr>"

definition DeleteExpiredSessions :: "auth_db \<Rightarrow> gotime \<Rightarrow> store_error + nat \<times> auth_db" where
  "DeleteExpiredSessions db now =
     bindE (run_a db ''DeleteExpiredSessions'' ()) (\<lambda>_.
       Inr (length (filter (\<lambda>s. ss_ExpiresAt s < now) (ad_sessions db)), keep_sessions db (\<lambda>s. \<not> ss_ExpiresAt s < now)))"

definition DeleteSession :: "auth_db \<Rightarrow> string \<Rightarrow> store_error + auth_db" where
  "DeleteSession db sid =
     bindE (run_a db ''DeleteSession'' ()) (\<lambda>_. Inr (keep_sessions db (\<lambda>s. ss_ID s \<noteq> sid)))"

definition DeleteSessionsForUser :: "auth_db \<Rightarrow> uuid \<Rightarrow> store_error + nat \<times> auth_db" where
  "DeleteSessionsForUser db userID =
     bindE (run_a db ''DeleteSessionsForUser'' ()) (\<lambda>_.
       Inr (length (filter (\<lambda>s. ss_UserID s = userID) (ad_sessions db)), keep_sessions db (\<lambda>s. ss_UserID s \<noteq> userID)))"

definition GetSession :: "auth_db \<Rightarrow> string \<Rightarrow> store_error + session" where
  "GetSession db sid = bindE (run_a db ''GetSession'' (row_of ss_ID sid (ad_sessions db))) one_a"

definition GetSessionUser :: "auth_db \<Rightarrow> gotime \<Rightarrow> string \<Rightarrow> store_error + user \<times> gotime" where
  "GetSessionUser db now sid =
     bindE (run_a db ''GetSessionUser'' (row_of ss_ID sid (ad_sessions db))) (\<lambda>r.
       case r of
         None \<Rightarrow> Inl SNoRows
       | Some s \<Rightarrow>
           if ss_ExpiresAt s > now
           then one_a (map_option (\<lambda>u. (u, ss_ExpiresAt s)) (row_of us_ID (ss_UserID s) (ad_users db)))
           else Inl SNoRows)"

definition RenewSession :: "auth_db \<Rightarrow> string \<Rightarrow> gotime \<Rightarrow> store_error + auth_db" where
  "RenewSession db sid expiresAt =
     bindE (run_a db ''RenewSession'' ()) (\<lambda>_.
       Inr (db\<lparr>ad_sessions := map_rows (\<lambda>s. ss_ID s = sid) (\<lambda>s. s\<lparr>ss_ExpiresAt := pg_timestamp expiresAt\<rparr>)
                (ad_sessions db)\<rparr>))"

section \<open>Password reset links\<close>

text \<open>The \<open>DELETE\<close> is the authorisation: a link that is gone or expired returns no row.\<close>

definition ConsumePasswordResetToken :: "auth_db \<Rightarrow> gotime \<Rightarrow> string \<Rightarrow> store_error + uuid \<times> auth_db" where
  "ConsumePasswordResetToken db now sid =
     bindE (run_a db ''ConsumePasswordResetToken'' (row_of rt_ID sid (ad_resets db))) (\<lambda>r.
       case r of
         None \<Rightarrow> Inl SNoRows
       | Some t \<Rightarrow>
           if rt_ExpiresAt t > now
           then Inr (rt_UserID t, db\<lparr>ad_resets := filter (\<lambda>t. \<not> (rt_ID t = sid \<and> rt_ExpiresAt t > now)) (ad_resets db)\<rparr>)
           else Inl SNoRows)"

definition CreatePasswordResetToken :: "auth_db \<Rightarrow> gotime \<Rightarrow> string \<Rightarrow> uuid \<Rightarrow> gotime \<Rightarrow> store_error + auth_db" where
  "CreatePasswordResetToken db now sid userID expiresAt =
     bindE (run_a db ''CreatePasswordResetToken'' ()) (\<lambda>_.
       if \<exists>t\<in>set (ad_resets db). rt_ID t = sid then Inl (SUnique ''password_reset_tokens_pkey'')
       else if \<not> user_exists db userID then Inl (SForeignKey ''password_reset_tokens_user_id_fkey'')
       else Inr (db\<lparr>ad_resets := ad_resets db @
         [\<lparr>rt_ID = sid, rt_UserID = userID, rt_ExpiresAt = pg_timestamp expiresAt, rt_CreatedAt = now\<rparr>]\<rparr>))"

definition DeleteExpiredPasswordResetTokens :: "auth_db \<Rightarrow> gotime \<Rightarrow> store_error + nat \<times> auth_db" where
  "DeleteExpiredPasswordResetTokens db now =
     bindE (run_a db ''DeleteExpiredPasswordResetTokens'' ()) (\<lambda>_.
       Inr (length (filter (\<lambda>t. rt_ExpiresAt t < now) (ad_resets db)),
            db\<lparr>ad_resets := filter (\<lambda>t. \<not> rt_ExpiresAt t < now) (ad_resets db)\<rparr>))"

definition DeletePasswordResetTokensForUser :: "auth_db \<Rightarrow> uuid \<Rightarrow> store_error + nat \<times> auth_db" where
  "DeletePasswordResetTokensForUser db userID =
     bindE (run_a db ''DeletePasswordResetTokensForUser'' ()) (\<lambda>_.
       Inr (length (filter (\<lambda>t. rt_UserID t = userID) (ad_resets db)),
            db\<lparr>ad_resets := filter (\<lambda>t. rt_UserID t \<noteq> userID) (ad_resets db)\<rparr>))"

definition GetPasswordResetToken :: "auth_db \<Rightarrow> gotime \<Rightarrow> string \<Rightarrow> store_error + uuid" where
  "GetPasswordResetToken db now sid =
     bindE (run_a db ''GetPasswordResetToken'' (row_of rt_ID sid (ad_resets db))) (\<lambda>r.
       case r of
         None \<Rightarrow> Inl SNoRows
       | Some t \<Rightarrow> if rt_ExpiresAt t > now then Inr (rt_UserID t) else Inl SNoRows)"

end
