(* ===== verification/Auth.thy ===== *)
theory Auth
  imports Auth_Store Go_Base64 Go_Hex
begin

text \<open>
  \<open>internal/auth\<close>: signing up and in, sessions, the profile, changing a password and operator-issued reset
  links (\<open>auth.go\<close>, \<open>reset.go\<close>, \<open>notetypes.go\<close>, \<open>cleanup.go\<close>) and the session middleware (\<open>middleware.go\<close>).

  argon2id, SHA-256, the address grammar of \<open>net/mail\<close>, URL parsing, the time zone database and Unicode case
  mapping are the record \<open>auth_lib\<close>. What one call reads from outside is an \<open>auth_env\<close>: its clock readings in
  order, \<open>now()\<close> of its statements, the bytes of \<open>crypto/rand\<close> (\<open>None\<close> when it fails), default row ids, and
  \<open>en_others\<close>: what other requests do to the database between two statements of the call that are not
  in one transaction. A transaction is one step.
\<close>

section \<open>Libraries, environment, errors\<close>

record auth_lib =
  al_lower :: "string \<Rightarrow> string"
  al_CreateHash :: "string \<Rightarrow> string \<Rightarrow> string"
  al_Compare :: "string \<Rightarrow> string \<Rightarrow> bool option"
  al_Sum256 :: "string \<Rightarrow> string"
  al_ParseAddress :: "string \<Rightarrow> string option"
  al_LoadLocation :: "string \<Rightarrow> bool"
  al_ParseURL :: "string \<Rightarrow> (string \<times> string) option"
  al_ToLower :: "string \<Rightarrow> string"
  al_EqualFold :: "string \<Rightarrow> string \<Rightarrow> bool"
  al_uuid :: uuid_text

record auth_env =
  en_clock :: "nat \<Rightarrow> gotime"
  en_dbnow :: "nat \<Rightarrow> gotime"
  en_random :: "string option"
  en_salt :: "string option"
  en_newID :: uuid
  en_noteTypeID :: "nat \<Rightarrow> uuid"
  en_noteTypeIDs :: "nat \<Rightarrow> new_ids"
  en_others :: "nat \<Rightarrow> auth_db \<Rightarrow> auth_db"

datatype auth_error =
    ValidationError string
  | RateLimitError duration
  | ErrEmailTaken
  | ErrInvalidCredentials
  | ErrInvalidResetToken
  | ErrNoSuchUser
  | Internal string
  | Wrapped string store_error

record auth_service =
  sv_dummyHash :: string
  sv_origins :: "(string \<times> string) list option"
  sv_signupMode :: string
  sv_loginIP :: limiter
  sv_loginEmail :: limiter
  sv_signupIP :: limiter
  sv_changePassword :: limiter
  sv_resetPassword :: limiter

text \<open>A call returns a value or an error; either way the limiters and the database may have moved on.\<close>

type_synonym 'a outcome = "(auth_error + 'a) \<times> auth_service \<times> auth_db"

definition SessionLifetime :: duration where "SessionLifetime = 30 * Day"
definition RenewThreshold :: duration where "RenewThreshold = 15 * Day"
definition PasswordResetLifetime :: duration where "PasswordResetLifetime = Day"
definition dummyPassword :: string where "dummyPassword = ''deckshare-timing-safe-dummy-password''"

section \<open>The version stamped on a new account\<close>

text \<open>\<open>^## \[([^\]]+)\]\<close> at the start of a line of the embedded changelog.\<close>

definition version_of_line :: "string \<Rightarrow> string option" where
  "version_of_line line =
     (if HasPrefix line ''## ['' then
        let r = drop 4 line; v = takeWhile (\<lambda>c. c \<noteq> CHR '']'') r
        in if v \<noteq> [] \<and> length v < length r then Some v else None
      else None)"

definition Version :: "string \<Rightarrow> string" where
  "Version changelog =
     (case List.map_filter version_of_line (Split (CHR 0x0A) changelog) of [] \<Rightarrow> ''unknown'' | v # _ \<Rightarrow> v)"

section \<open>Validation: the message of the first rule that is broken\<close>

definition validateEmail :: "auth_lib \<Rightarrow> string \<Rightarrow> string option" where
  "validateEmail lib email =
     (if email = [] then Some ''Email is required''
      else if length email > 254 then Some ''Email is too long''
      else if al_ParseAddress lib email \<noteq> Some email then Some ''Enter a valid email address''
      else None)"

definition validatePassword :: "string \<Rightarrow> string option" where
  "validatePassword password =
     (if length password < 8 then Some ''Password must be at least 8 characters''
      else if length password > 256 then Some ''Password is too long'' else None)"

definition validateDisplayName :: "string \<Rightarrow> string option" where
  "validateDisplayName name =
     (if name = [] then Some ''Name is required'' else if length name > 100 then Some ''Name is too long'' else None)"

definition validateTimezone :: "auth_lib \<Rightarrow> string \<Rightarrow> string option" where
  "validateTimezone lib tz =
     (if tz = [] then Some ''Unknown timezone'' else if \<not> al_LoadLocation lib tz then Some ''Unknown timezone'' else None)"

section \<open>Tokens\<close>

definition hashToken :: "auth_lib \<Rightarrow> string \<Rightarrow> string" where
  "hashToken lib token = hex_EncodeToString (al_Sum256 lib token)"

definition newToken :: "auth_env \<Rightarrow> string option" where
  "newToken env = map_option b64_EncodeToString (en_random env)"

definition createSession :: "auth_lib \<Rightarrow> auth_env \<Rightarrow> auth_db \<Rightarrow> gotime \<Rightarrow> gotime \<Rightarrow> uuid \<Rightarrow> auth_error + string \<times> auth_db" where
  "createSession lib env db dbnow now userID =
     (case newToken env of
        None \<Rightarrow> Inl (Internal ''generate session token'')
      | Some token \<Rightarrow>
          bindE (liftE (Wrapped ''create session'')
            (CreateSession db dbnow (hashToken lib token) userID (now + SessionLifetime))) (\<lambda>db'. Inr (token, db')))"

section \<open>The service\<close>

fun parse_origins :: "auth_lib \<Rightarrow> string list \<Rightarrow> (string \<times> string) list option" where
  "parse_origins lib [] = Some []"
| "parse_origins lib (s # ss) =
     (case al_ParseURL lib (TrimSpace s) of
        None \<Rightarrow> None
      | Some u \<Rightarrow> map_option ((#) u) (parse_origins lib ss))"

definition NewService :: "auth_lib \<Rightarrow> auth_env \<Rightarrow> string \<Rightarrow> string \<Rightarrow> auth_error + auth_service" where
  "NewService lib env cfgOrigin cfgSignupMode =
     (case en_salt env of
        None \<Rightarrow> Inl (Internal ''compute dummy hash'')
      | Some salt \<Rightarrow>
          bindE (if cfgOrigin = [] then Inr None
                 else case parse_origins lib (Split (CHR '','') cfgOrigin) of
                        None \<Rightarrow> Inl (Internal ''parse Config.Origin'') | Some os \<Rightarrow> Inr (Some os)) (\<lambda>origins.
          let signupMode = (if cfgSignupMode = [] then ''open'' else cfgSignupMode)
          in if signupMode \<noteq> ''open'' \<and> signupMode \<noteq> ''closed'' then Inl (Internal ''invalid Config.SignupMode'')
             else Inr \<lparr>sv_dummyHash = al_CreateHash lib salt dummyPassword, sv_origins = origins,
               sv_signupMode = signupMode, sv_loginIP = newLimiter 20 (15 * Minute),
               sv_loginEmail = newLimiter 5 (15 * Minute), sv_signupIP = newLimiter 5 Hour,
               sv_changePassword = newLimiter 5 (15 * Minute), sv_resetPassword = newLimiter 10 (15 * Minute)\<rparr>))"

definition SignupOpen :: "auth_service \<Rightarrow> bool" where
  "SignupOpen sv \<longleftrightarrow> sv_signupMode sv \<noteq> ''closed''"

section \<open>Signing up\<close>

datatype seed_error = SeedStore store_error | SeedContent content_error

definition content_user :: "user \<Rightarrow> db_user" where
  "content_user u = \<lparr>u_ID = us_ID u, u_Email = us_Email u, u_DisplayName = us_DisplayName u,
     u_Timezone = us_Timezone u, u_DayStartHour = us_DayStartHour u\<rparr>"

text \<open>The content tables beside the users of this database.\<close>

definition content_of :: "auth_db \<Rightarrow> content_db" where
  "content_of db = (ad_content db)\<lparr>cd_users := map content_user (ad_users db)\<rparr>"

definition css_lines :: "string list \<Rightarrow> string" where
  "css_lines ls = concat (map (\<lambda>l. l @ [CHR 0x0A]) ls)"

definition baseCardCSS :: string where
  "baseCardCSS = css_lines [''.card {'', ''    font-family: arial;'', ''    font-size: 20px;'',
     ''    text-align: center;'', ''    color: black;'', ''    background-color: white;'', ''}'']"

definition seedDefaultNoteTypes :: "auth_env \<Rightarrow> auth_db \<Rightarrow> uuid \<Rightarrow> seed_error + auth_db" where
  "seedDefaultNoteTypes env db userID =
     bindE (liftE SeedStore (run_a db ''Begin'' ())) (\<lambda>_.
     bindE (liftE SeedContent (CreateNoteTypeWithFieldsAndTemplates (en_noteTypeIDs env 0) (content_of db)
         (en_noteTypeID env 0) userID ''Basic'' baseCardCSS False 0 [''Front'', ''Back'']
         [\<lparr>te_ID = None, te_Name = ''Card 1'', te_Qfmt = ''{{Front}}'', te_Afmt = ''{{FrontSide}}<hr>{{Back}}''\<rparr>])) (\<lambda>(_, c1).
     bindE (liftE SeedContent (CreateNoteTypeWithFieldsAndTemplates (en_noteTypeIDs env 1) c1
         (en_noteTypeID env 1) userID ''Cloze'' (baseCardCSS @ css_lines [''.cloze {'', ''    font-weight: bold;'', ''}''])
         True 0 [''Text'', ''Extra'']
         [\<lparr>te_ID = None, te_Name = ''Cloze'', te_Qfmt = ''{{cloze:Text}}'', te_Afmt = ''{{cloze:Text}}''\<rparr>])) (\<lambda>(_, c2).
     bindE (liftE SeedStore (run_a db ''Commit'' ())) (\<lambda>_. Inr (db\<lparr>ad_content := c2\<rparr>)))))"

text \<open>
  The statements of a signup commit one by one: the account stays when the session cannot be created. Other
  requests run between looking the address up and the insert, between the insert and the seeding, and
  between the seeding and the session. The hash is computed while the address is looked up.
\<close>

definition Signup :: "auth_lib \<Rightarrow> string \<Rightarrow> auth_env \<Rightarrow> auth_service \<Rightarrow> auth_db \<Rightarrow> string \<Rightarrow> string \<Rightarrow> string \<Rightarrow> string
    \<Rightarrow> (user \<times> string) outcome" where
  "Signup lib changelog env sv db ip email0 password displayName0 =
     (let email = TrimSpace email0; displayName = TrimSpace displayName0 in
      case validateEmail lib email of Some msg \<Rightarrow> (Inl (ValidationError msg), sv, db) | None \<Rightarrow>
      case validatePassword password of Some msg \<Rightarrow> (Inl (ValidationError msg), sv, db) | None \<Rightarrow>
      case validateDisplayName displayName of Some msg \<Rightarrow> (Inl (ValidationError msg), sv, db) | None \<Rightarrow>
      let ((ok, retryAfter), lim) = Allow (sv_signupIP sv) (en_clock env 0) ip; sv = sv\<lparr>sv_signupIP := lim\<rparr> in
      if \<not> ok then (Inl (RateLimitError retryAfter), sv, db) else
      case en_salt env of None \<Rightarrow> (Inl (Internal ''hash password''), sv, db) | Some salt \<Rightarrow>
      case EmailExists (al_lower lib) db email of
        Inl e \<Rightarrow> (Inl (Wrapped ''check email exists'' e), sv, db)
      | Inr True \<Rightarrow> (Inl ErrEmailTaken, sv, db)
      | Inr False \<Rightarrow>
      let db1 = en_others env 0 db in
      case CreateUser (al_lower lib) db1 (en_newID env) (en_dbnow env 0) email (al_CreateHash lib salt password)
             displayName (Version changelog) of
        Inl SNoRows \<Rightarrow> (Inl ErrEmailTaken, sv, db1)
      | Inl e \<Rightarrow> (Inl (Wrapped ''create user'' e), sv, db1)
      | Inr (user, db2) \<Rightarrow>
      let db3 = en_others env 1 db2;
          db4 = (case seedDefaultNoteTypes env db3 (us_ID user) of Inl _ \<Rightarrow> db3 | Inr d \<Rightarrow> d);
          db5 = en_others env 2 db4 in
      case createSession lib env db5 (en_dbnow env 1) (en_clock env 1) (us_ID user) of
        Inl e \<Rightarrow> (Inl e, sv, db5)
      | Inr (token, db6) \<Rightarrow> (Inr (user, token), sv, db6))"

section \<open>Signing in and out\<close>

text \<open>The password is always compared once: with the account's hash, or with the dummy hash when there is none.\<close>

definition Login :: "auth_lib \<Rightarrow> auth_env \<Rightarrow> auth_service \<Rightarrow> auth_db \<Rightarrow> string \<Rightarrow> string \<Rightarrow> string
    \<Rightarrow> (user \<times> string) outcome" where
  "Login lib env sv db ip email0 password =
     (let email = TrimSpace email0 in
      case validateEmail lib email of Some msg \<Rightarrow> (Inl (ValidationError msg), sv, db) | None \<Rightarrow>
      case validatePassword password of Some msg \<Rightarrow> (Inl (ValidationError msg), sv, db) | None \<Rightarrow>
      let ((ok, retryAfter), lim) = Allow (sv_loginIP sv) (en_clock env 0) ip; sv = sv\<lparr>sv_loginIP := lim\<rparr> in
      if \<not> ok then (Inl (RateLimitError retryAfter), sv, db) else
      let ((ok, retryAfter), lim) = Allow (sv_loginEmail sv) (en_clock env 1) (al_ToLower lib email);
          sv = sv\<lparr>sv_loginEmail := lim\<rparr> in
      if \<not> ok then (Inl (RateLimitError retryAfter), sv, db) else
      let got = GetUserByEmail (al_lower lib) db email in
      case (case got of Inl SNoRows \<Rightarrow> Inr None | Inl e \<Rightarrow> Inl (Wrapped ''get user by email'' e) | Inr u \<Rightarrow> Inr (Some u)) of
        Inl e \<Rightarrow> (Inl e, sv, db)
      | Inr found \<Rightarrow>
      let hash = (case found of None \<Rightarrow> sv_dummyHash sv | Some u \<Rightarrow> us_PasswordHash u) in
      case al_Compare lib password hash of
        None \<Rightarrow> (Inl (Internal ''compare password''), sv, db)
      | Some matches \<Rightarrow>
      case (found, matches) of
        (Some user, True) \<Rightarrow>
          let db1 = en_others env 0 db in
          (case createSession lib env db1 (en_dbnow env 1) (en_clock env 2) (us_ID user) of
             Inl e \<Rightarrow> (Inl e, sv, db1)
           | Inr (token, db2) \<Rightarrow> (Inr (user, token), sv, db2))
      | _ \<Rightarrow> (Inl ErrInvalidCredentials, sv, db))"

definition Logout :: "auth_lib \<Rightarrow> auth_db \<Rightarrow> string \<Rightarrow> auth_error + auth_db" where
  "Logout lib db token = liftE (Wrapped ''delete session'') (DeleteSession db (hashToken lib token))"

section \<open>The account's settings\<close>

definition UpdateProfile :: "auth_lib \<Rightarrow> auth_db \<Rightarrow> uuid \<Rightarrow> string \<Rightarrow> string \<Rightarrow> int \<Rightarrow> auth_error + auth_db" where
  "UpdateProfile lib db userID displayName0 timezone dayStartHour =
     (let displayName = TrimSpace displayName0 in
      case validateDisplayName displayName of Some msg \<Rightarrow> Inl (ValidationError msg) | None \<Rightarrow>
      case validateTimezone lib timezone of Some msg \<Rightarrow> Inl (ValidationError msg) | None \<Rightarrow>
      if dayStartHour < 0 \<or> dayStartHour > 23 then Inl (ValidationError ''Day start hour must be 0-23'')
      else liftE (Wrapped ''update user profile'') (UpdateUserProfile db userID displayName timezone dayStartHour))"

text \<open>The transaction of a password change: the new hash, the end of every session and reset link, a new session.\<close>

definition change_tx :: "auth_lib \<Rightarrow> auth_env \<Rightarrow> auth_db \<Rightarrow> uuid \<Rightarrow> string \<Rightarrow> auth_error + string \<times> auth_db" where
  "change_tx lib env db userID newHash =
     bindE (liftE (Wrapped ''begin tx'') (run_a db ''Begin'' ())) (\<lambda>_.
     bindE (liftE (Wrapped ''update user password'') (UpdateUserPassword db userID newHash)) (\<lambda>db1.
     bindE (liftE (Wrapped ''delete sessions for user'') (DeleteSessionsForUser db1 userID)) (\<lambda>(_, db2).
     bindE (liftE (Wrapped ''delete password reset tokens for user'') (DeletePasswordResetTokensForUser db2 userID)) (\<lambda>(_, db3).
     bindE (createSession lib env db3 (en_dbnow env 0) (en_clock env 1) userID) (\<lambda>(token, db4).
     bindE (liftE (Wrapped ''commit password change'') (run_a db4 ''Commit'' ())) (\<lambda>_. Inr (token, db4)))))))"

definition ChangePassword :: "auth_lib \<Rightarrow> auth_env \<Rightarrow> auth_service \<Rightarrow> auth_db \<Rightarrow> uuid \<Rightarrow> string \<Rightarrow> string \<Rightarrow> string
    \<Rightarrow> string outcome" where
  "ChangePassword lib env sv db userID currentHash currentPassword newPassword =
     (case validatePassword newPassword of Some msg \<Rightarrow> (Inl (ValidationError msg), sv, db) | None \<Rightarrow>
      let ((ok, retryAfter), lim) = Allow (sv_changePassword sv) (en_clock env 0) (uu_String (al_uuid lib) userID);
          sv = sv\<lparr>sv_changePassword := lim\<rparr> in
      if \<not> ok then (Inl (RateLimitError retryAfter), sv, db) else
      case al_Compare lib currentPassword currentHash of
        None \<Rightarrow> (Inl (Internal ''compare password''), sv, db)
      | Some False \<Rightarrow> (Inl ErrInvalidCredentials, sv, db)
      | Some True \<Rightarrow>
      case en_salt env of None \<Rightarrow> (Inl (Internal ''hash password''), sv, db) | Some salt \<Rightarrow>
      case change_tx lib env db userID (al_CreateHash lib salt newPassword) of
        Inl e \<Rightarrow> (Inl e, sv, db)
      | Inr (token, db') \<Rightarrow> (Inr token, sv, db'))"

section \<open>Reset links\<close>

definition issue_tx :: "auth_lib \<Rightarrow> auth_env \<Rightarrow> auth_db \<Rightarrow> uuid \<Rightarrow> string \<Rightarrow> auth_error + auth_db" where
  "issue_tx lib env db userID raw =
     bindE (liftE (Wrapped ''begin tx'') (run_a db ''Begin'' ())) (\<lambda>_.
     bindE (liftE (Wrapped ''delete password reset tokens for user'') (DeletePasswordResetTokensForUser db userID)) (\<lambda>(_, db1).
     bindE (liftE (Wrapped ''create password reset token'') (CreatePasswordResetToken db1 (en_dbnow env 1)
         (hashToken lib raw) userID (en_clock env 0 + PasswordResetLifetime))) (\<lambda>db2.
     bindE (liftE (Wrapped ''commit password reset token'') (run_a db2 ''Commit'' ())) (\<lambda>_. Inr db2))))"

definition CreatePasswordReset :: "auth_lib \<Rightarrow> auth_env \<Rightarrow> auth_db \<Rightarrow> string \<Rightarrow> (auth_error + user \<times> string) \<times> auth_db" where
  "CreatePasswordReset lib env db email0 =
     (let email = TrimSpace email0 in
      case validateEmail lib email of Some msg \<Rightarrow> (Inl (ValidationError msg), db) | None \<Rightarrow>
      case GetUserByEmail (al_lower lib) db email of
        Inl SNoRows \<Rightarrow> (Inl ErrNoSuchUser, db)
      | Inl e \<Rightarrow> (Inl (Wrapped ''get user by email'' e), db)
      | Inr user \<Rightarrow>
      case newToken env of None \<Rightarrow> (Inl (Internal ''generate reset token''), db) | Some raw \<Rightarrow>
      let db1 = en_others env 0 db in
      case issue_tx lib env db1 (us_ID user) raw of
        Inl e \<Rightarrow> (Inl e, db1)
      | Inr db2 \<Rightarrow> (Inr (user, raw), db2))"

definition PasswordResetValid :: "auth_lib \<Rightarrow> auth_db \<Rightarrow> gotime \<Rightarrow> string \<Rightarrow> auth_error + bool" where
  "PasswordResetValid lib db now rawToken =
     (case GetPasswordResetToken db now (hashToken lib rawToken) of
        Inl SNoRows \<Rightarrow> Inr False
      | Inl e \<Rightarrow> Inl (Wrapped ''get password reset token'' e)
      | Inr _ \<Rightarrow> Inr True)"

definition reset_tx :: "auth_lib \<Rightarrow> auth_env \<Rightarrow> auth_db \<Rightarrow> string \<Rightarrow> string \<Rightarrow> auth_error + string \<times> auth_db" where
  "reset_tx lib env db rawToken newHash =
     bindE (liftE (Wrapped ''begin tx'') (run_a db ''Begin'' ())) (\<lambda>_.
     bindE (case ConsumePasswordResetToken db (en_dbnow env 1) (hashToken lib rawToken) of
              Inl SNoRows \<Rightarrow> Inl ErrInvalidResetToken
            | Inl e \<Rightarrow> Inl (Wrapped ''consume password reset token'' e)
            | Inr r \<Rightarrow> Inr r) (\<lambda>(userID, db1).
     bindE (liftE (Wrapped ''update user password'') (UpdateUserPassword db1 userID newHash)) (\<lambda>db2.
     bindE (liftE (Wrapped ''delete sessions for user'') (DeleteSessionsForUser db2 userID)) (\<lambda>(_, db3).
     bindE (createSession lib env db3 (en_dbnow env 1) (en_clock env 1) userID) (\<lambda>(token, db4).
     bindE (liftE (Wrapped ''commit password reset'') (run_a db4 ''Commit'' ())) (\<lambda>_. Inr (token, db4)))))))"

definition ResetPassword :: "auth_lib \<Rightarrow> auth_env \<Rightarrow> auth_service \<Rightarrow> auth_db \<Rightarrow> string \<Rightarrow> string \<Rightarrow> string \<Rightarrow> string outcome" where
  "ResetPassword lib env sv db ip rawToken newPassword =
     (case validatePassword newPassword of Some msg \<Rightarrow> (Inl (ValidationError msg), sv, db) | None \<Rightarrow>
      let ((ok, retryAfter), lim) = Allow (sv_resetPassword sv) (en_clock env 0) ip; sv = sv\<lparr>sv_resetPassword := lim\<rparr> in
      if \<not> ok then (Inl (RateLimitError retryAfter), sv, db) else
      case PasswordResetValid lib db (en_dbnow env 0) rawToken of
        Inl e \<Rightarrow> (Inl e, sv, db)
      | Inr False \<Rightarrow> (Inl ErrInvalidResetToken, sv, db)
      | Inr True \<Rightarrow>
      case en_salt env of None \<Rightarrow> (Inl (Internal ''hash password''), sv, db) | Some salt \<Rightarrow>
      let db1 = en_others env 0 db in
      case reset_tx lib env db1 rawToken (al_CreateHash lib salt newPassword) of
        Inl e \<Rightarrow> (Inl e, sv, db1)
      | Inr (token, db2) \<Rightarrow> (Inr token, sv, db2))"

section \<open>Cleaning up\<close>

text \<open>One tick of \<open>Run\<close>: a statement that fails is logged and the tick goes on.\<close>

definition cleanup_tick :: "auth_env \<Rightarrow> auth_service \<Rightarrow> auth_db \<Rightarrow> auth_service \<times> auth_db" where
  "cleanup_tick env sv db =
     (let db1 = (case DeleteExpiredSessions db (en_dbnow env 0) of Inl _ \<Rightarrow> db | Inr (_, d) \<Rightarrow> d);
          db2 = en_others env 0 db1;
          db3 = (case DeleteExpiredPasswordResetTokens db2 (en_dbnow env 1) of Inl _ \<Rightarrow> db2 | Inr (_, d) \<Rightarrow> d)
      in (sv\<lparr>sv_loginIP := Sweep (sv_loginIP sv) (en_clock env 0),
             sv_loginEmail := Sweep (sv_loginEmail sv) (en_clock env 1),
             sv_signupIP := Sweep (sv_signupIP sv) (en_clock env 2),
             sv_changePassword := Sweep (sv_changePassword sv) (en_clock env 3),
             sv_resetPassword := Sweep (sv_resetPassword sv) (en_clock env 4)\<rparr>, db3))"

end
