(* ===== verification/Auth_Middleware.thy ===== *)
theory Auth_Middleware
  imports Auth
begin

text \<open>
  \<open>internal/auth/middleware.go\<close>: the check of the \<open>Origin\<close> header, the lookup and sliding renewal of the session,
  and the session cookie; and \<open>internal/http/clientip.go\<close>, which chooses the key the limiters count by.
\<close>

section \<open>Requests and cookies\<close>

record request =
  rq_Method :: string
  rq_Origin :: string
  rq_Host :: string
  rq_Cookie :: "string option"

record cookie =
  ck_Name :: string
  ck_Value :: string
  ck_Path :: string
  ck_Secure :: bool
  ck_HttpOnly :: bool
  ck_SameSite :: string
  ck_MaxAge :: int

definition CookieName :: string where "CookieName = ''__Host-deckshare_session''"

definition sessionCookie :: "string \<Rightarrow> int \<Rightarrow> cookie" where
  "sessionCookie v maxAge = \<lparr>ck_Name = CookieName, ck_Value = v, ck_Path = ''/'', ck_Secure = True,
     ck_HttpOnly = True, ck_SameSite = ''Lax'', ck_MaxAge = maxAge\<rparr>"

definition SetSessionCookie :: "string \<Rightarrow> cookie" where
  "SetSessionCookie token = sessionCookie token (SessionLifetime div Second)"

definition ClearSessionCookie :: cookie where
  "ClearSessionCookie = sessionCookie [] (- 1)"

section \<open>The middleware\<close>

definition isStateChanging :: "string \<Rightarrow> bool" where
  "isStateChanging m \<longleftrightarrow> m \<notin> set [''GET'', ''HEAD'', ''OPTIONS'']"

definition checkOrigin :: "auth_lib \<Rightarrow> auth_service \<Rightarrow> request \<Rightarrow> bool" where
  "checkOrigin lib sv r =
     (if rq_Origin r = [] then False
      else case al_ParseURL lib (rq_Origin r) of
             None \<Rightarrow> False
           | Some (scheme, host) \<Rightarrow>
               (case sv_origins sv of
                  Some os \<Rightarrow> list_ex (\<lambda>(s, h). al_EqualFold lib scheme s \<and> al_EqualFold lib host h) os
                | None \<Rightarrow> al_EqualFold lib host (rq_Host r)))"

text \<open>What the middleware answers: it refuses the request, or passes it on with the user and cookies to set.\<close>

datatype passed = Forbidden | ServerError | Next "user option" "cookie list"

definition Middleware :: "auth_lib \<Rightarrow> auth_env \<Rightarrow> auth_service \<Rightarrow> auth_db \<Rightarrow> request \<Rightarrow> passed \<times> auth_db" where
  "Middleware lib env sv db r =
     (if isStateChanging (rq_Method r) \<and> \<not> checkOrigin lib sv r then (Forbidden, db)
      else case rq_Cookie r of
        None \<Rightarrow> (Next None [], db)
      | Some value \<Rightarrow>
          (case GetSessionUser db (en_dbnow env 0) (hashToken lib value) of
             Inl SNoRows \<Rightarrow> (Next None [ClearSessionCookie], db)
           | Inl _ \<Rightarrow> (ServerError, db)
           | Inr (user, expiresAt) \<Rightarrow>
               if time_Sub expiresAt (en_clock env 0) < RenewThreshold then
                 let db1 = en_others env 0 db in
                 (case RenewSession db1 (hashToken lib value) (en_clock env 1 + SessionLifetime) of
                    Inl _ \<Rightarrow> (Next (Some user) [], db1)
                  | Inr db2 \<Rightarrow> (Next (Some user) [SetSessionCookie value], db2))
               else (Next (Some user) [], db)))"

definition RequireUser :: "user option \<Rightarrow> (user \<Rightarrow> 'r) \<Rightarrow> 'r \<Rightarrow> 'r" where
  "RequireUser u next redirectToLogin = (case u of None \<Rightarrow> redirectToLogin | Some x \<Rightarrow> next x)"

section \<open>The client's address\<close>

text \<open>
  \<open>net\<close> and \<open>net/netip\<close> are the record \<open>ip_lib\<close>; \<open>ip_ParseAddr\<close> is \<open>netip.ParseAddr\<close> with \<open>Unmap().WithZone("")\<close>,
  \<open>ip_SplitHostPort\<close> the host part.
\<close>

record ('a, 'p) ip_lib =
  ip_ParseAddr :: "string \<Rightarrow> 'a option"
  ip_AddrString :: "'a \<Rightarrow> string"
  ip_ParsePrefix :: "string \<Rightarrow> 'p option"
  ip_Contains :: "'p \<Rightarrow> 'a \<Rightarrow> bool"
  ip_SplitHostPort :: "string \<Rightarrow> string option"

fun parse_prefixes :: "('a, 'p) ip_lib \<Rightarrow> string list \<Rightarrow> 'p list option" where
  "parse_prefixes ip [] = Some []"
| "parse_prefixes ip (e # es) =
     (if TrimSpace e = [] then parse_prefixes ip es
      else case ip_ParsePrefix ip (TrimSpace e) of
             None \<Rightarrow> None
           | Some p \<Rightarrow> map_option ((#) p) (parse_prefixes ip es))"

definition parseTrustedProxies :: "('a, 'p) ip_lib \<Rightarrow> string \<Rightarrow> 'p list option" where
  "parseTrustedProxies ip s = parse_prefixes ip (Split (CHR '','') s)"

definition proxy_contains :: "('a, 'p) ip_lib \<Rightarrow> 'p list \<Rightarrow> 'a \<Rightarrow> bool" where
  "proxy_contains ip t a \<longleftrightarrow> list_ex (\<lambda>p. ip_Contains ip p a) t"

definition remoteHost :: "('a, 'p) ip_lib \<Rightarrow> string \<Rightarrow> string" where
  "remoteHost ip remoteAddr = (case ip_SplitHostPort ip remoteAddr of None \<Rightarrow> remoteAddr | Some h \<Rightarrow> h)"

text \<open>The walk over the hops, last one first.\<close>

fun walk_hops :: "('a, 'p) ip_lib \<Rightarrow> 'p list \<Rightarrow> string \<Rightarrow> string list \<Rightarrow> string" where
  "walk_hops ip t peer [] = peer"
| "walk_hops ip t peer (h # hs) =
     (case ip_ParseAddr ip (TrimSpace h) of
        None \<Rightarrow> peer
      | Some a \<Rightarrow> if proxy_contains ip t a then walk_hops ip t peer hs else ip_AddrString ip a)"

definition clientIP :: "('a, 'p) ip_lib \<Rightarrow> 'p list \<Rightarrow> string \<Rightarrow> string list \<Rightarrow> string" where
  "clientIP ip t remoteAddr forwardedFor =
     (let peer = remoteHost ip remoteAddr in
      if t = [] then peer
      else case ip_ParseAddr ip peer of
        None \<Rightarrow> peer
      | Some a \<Rightarrow>
          if \<not> proxy_contains ip t a then peer
          else let joined = Join '','' forwardedFor in
            if joined = [] then peer else walk_hops ip t peer (rev (Split (CHR '','') joined)))"

text \<open>
  What a client writes into the header does not matter: once the last hops, the ones the trusted
  proxies appended, hold an address that is not a proxy's, that address is the key.
\<close>

lemma walk_hops_append:
  assumes "\<forall>h\<in>set hs. \<exists>a. ip_ParseAddr ip (TrimSpace h) = Some a \<and> proxy_contains ip t a"
    and "ip_ParseAddr ip (TrimSpace h) = Some a" "\<not> proxy_contains ip t a"
  shows "walk_hops ip t peer (hs @ h # rest) = ip_AddrString ip a"
  using assms by (induction hs) auto

lemma clientIP_unspoofable:
  assumes peer: "ip_ParseAddr ip (remoteHost ip remoteAddr) = Some p" "proxy_contains ip t p"
    and joined: "Join '','' forwardedFor = spoofed @ '','' @ Join '','' (h # hs)"
    and hop: "ip_ParseAddr ip (TrimSpace h) = Some a" "\<not> proxy_contains ip t a"
    and proxies: "\<forall>h\<in>set hs. \<exists>a. ip_ParseAddr ip (TrimSpace h) = Some a \<and> proxy_contains ip t a"
    and plain: "\<forall>h'\<in>set (h # hs). CHR '','' \<notin> set h'"
  shows "clientIP ip t remoteAddr forwardedFor = ip_AddrString ip a"
proof -
  have "Split (CHR '','') (s @ CHR '','' # r) = Split (CHR '','') s @ Split (CHR '','') r" for s r :: string
    by (induction s) (auto split: list.splits)
  with plain have split: "rev (Split (CHR '','') (Join '','' forwardedFor)) = rev hs @ h # rev (Split (CHR '','') spoofed)"
    unfolding joined by (simp add: Split_Join)
  have "t \<noteq> []" using peer(2) by (auto simp: proxy_contains_def)
  moreover have "Join '','' forwardedFor \<noteq> []" unfolding joined by simp
  ultimately show ?thesis
    using peer walk_hops_append [of "rev hs" ip t h a] proxies hop
    by (simp add: clientIP_def Let_def split)
qed

end
