(* ===== verification/Auth_Lemmas.thy ===== *)
theory Auth_Lemmas
  imports Auth_Middleware
begin

text \<open>
  What signing in and password changes guarantee. The database steps of all requests (a statement outside
  a transaction, or a whole transaction) are the relation \<open>auth_act\<close>, labelled with the ids of the sessions and
  of the reset links it issues; \<open>auth_run\<close> is a sequence of them, whatever requests they belong to.
\<close>

section \<open>Steps and runs\<close>

inductive auth_act :: "auth_lib \<Rightarrow> auth_db \<Rightarrow> string list \<Rightarrow> string list \<Rightarrow> auth_db \<Rightarrow> bool" for lib where
  act_user: "CreateUser (al_lower lib) db newID now email hash name version = Inr (u, db') \<Longrightarrow> auth_act lib db [] [] db'"
| act_seed: "seedDefaultNoteTypes env db userID = Inr db' \<Longrightarrow> auth_act lib db [] [] db'"
| act_session: "createSession lib env db dbnow now userID = Inr (token, db') \<Longrightarrow> auth_act lib db [hashToken lib token] [] db'"
| act_logout: "Logout lib db token = Inr db' \<Longrightarrow> auth_act lib db [] [] db'"
| act_profile: "UpdateProfile lib db userID name tz hour = Inr db' \<Longrightarrow> auth_act lib db [] [] db'"
| act_change: "change_tx lib env db userID hash = Inr (token, db') \<Longrightarrow> auth_act lib db [hashToken lib token] [] db'"
| act_issue: "issue_tx lib env db userID raw = Inr db' \<Longrightarrow> auth_act lib db [] [hashToken lib raw] db'"
| act_reset: "reset_tx lib env db raw hash = Inr (token, db') \<Longrightarrow> auth_act lib db [hashToken lib token] [] db'"
| act_renew: "RenewSession db sid expiresAt = Inr db' \<Longrightarrow> auth_act lib db [] [] db'"
| act_expire_sessions: "DeleteExpiredSessions db now = Inr (n, db') \<Longrightarrow> auth_act lib db [] [] db'"
| act_expire_resets: "DeleteExpiredPasswordResetTokens db now = Inr (n, db') \<Longrightarrow> auth_act lib db [] [] db'"
| act_appearance: "UpdateUserAppearance db userID scheme accent = Inr db' \<Longrightarrow> auth_act lib db [] [] db'"
| act_avatar: "UpdateUserAvatar db userID sha = Inr db' \<Longrightarrow> auth_act lib db [] [] db'"
| act_version: "UpdateUserLastSeenVersion db userID version = Inr db' \<Longrightarrow> auth_act lib db [] [] db'"
| act_outside: "(\<forall>u\<in>set (ad_users db). \<forall>sha. us_AvatarSha256 u = Some sha \<longrightarrow> sha \<in> set blobs) \<Longrightarrow>
    auth_act lib db [] [] (db\<lparr>ad_blobs := blobs, ad_content := c, ad_refuses := r\<rparr>)"

inductive auth_run :: "auth_lib \<Rightarrow> auth_db \<Rightarrow> string list \<Rightarrow> string list \<Rightarrow> auth_db \<Rightarrow> bool" for lib where
  run_nil: "auth_run lib db [] [] db"
| run_step: "auth_run lib db ss rs db' \<Longrightarrow> auth_act lib db' ss' rs' db'' \<Longrightarrow> auth_run lib db (ss @ ss') (rs @ rs') db''"

lemma run_act: "auth_act lib db ss rs db' \<Longrightarrow> auth_run lib db ss rs db'"
  using run_step [OF run_nil] by fastforce

lemma run_trans:
  assumes "auth_run lib db ss rs db'" "auth_run lib db' ss' rs' db''"
  shows "auth_run lib db (ss @ ss') (rs @ rs') db''"
  using assms(2,1) by (induction) (auto intro: run_step simp flip: append_assoc)

definition some_run :: "auth_lib \<Rightarrow> auth_db \<Rightarrow> auth_db \<Rightarrow> bool" where
  "some_run lib db db' \<longleftrightarrow> (\<exists>ss rs. auth_run lib db ss rs db')"

interpretation some_run: frame_rule "some_run lib" for lib
  by unfold_locales (auto simp: some_run_def intro: run_nil run_trans)

lemma some_run_act: "auth_act lib db ss rs db' \<Longrightarrow> some_run lib db db'"
  by (auto simp: some_run_def intro: run_act)

section \<open>Inversions\<close>

lemmas stmt_defs = CreateUser_def CreateSession_def DeleteExpiredSessions_def DeleteSession_def DeleteSessionsForUser_def
  RenewSession_def ConsumePasswordResetToken_def CreatePasswordResetToken_def DeleteExpiredPasswordResetTokens_def
  DeletePasswordResetTokensForUser_def UpdateUserAppearance_def UpdateUserAvatar_def UpdateUserLastSeenVersion_def
  UpdateUserPassword_def UpdateUserProfile_def keep_sessions_def update_user_def

lemma createSession_Inr:
  "createSession lib env db dbnow now userID = Inr (token, db') \<Longrightarrow>
     db' = db\<lparr>ad_sessions := ad_sessions db @ [\<lparr>ss_ID = hashToken lib token, ss_UserID = userID,
       ss_ExpiresAt = pg_timestamp (now + SessionLifetime), ss_CreatedAt = dbnow\<rparr>]\<rparr>
     \<and> (\<forall>s\<in>set (ad_sessions db). ss_ID s \<noteq> hashToken lib token) \<and> user_exists db userID"
  by (auto simp: createSession_def CreateSession_def bindE_eq_Inr split: option.splits if_splits)

lemma change_tx_steps:
  assumes "change_tx lib env db userID hash = Inr (token, db')"
  obtains db1 n db2 m db3 where "UpdateUserPassword db userID hash = Inr db1"
    "DeleteSessionsForUser db1 userID = Inr (n, db2)" "DeletePasswordResetTokensForUser db2 userID = Inr (m, db3)"
    "createSession lib env db3 (en_dbnow env 0) (en_clock env 1) userID = Inr (token, db')"
  using assms by (auto simp: change_tx_def bindE_eq_Inr)

lemma change_tx_Inr:
  assumes "change_tx lib env db userID hash = Inr (token, db')"
  shows "ad_users db' = map_rows (\<lambda>u. us_ID u = userID) (\<lambda>u. u\<lparr>us_PasswordHash := hash\<rparr>) (ad_users db)"
    and "ad_sessions db' = filter (\<lambda>s. ss_UserID s \<noteq> userID) (ad_sessions db) @
      [\<lparr>ss_ID = hashToken lib token, ss_UserID = userID,
        ss_ExpiresAt = pg_timestamp (en_clock env 1 + SessionLifetime), ss_CreatedAt = en_dbnow env 0\<rparr>]"
    and "ad_resets db' = filter (\<lambda>t. rt_UserID t \<noteq> userID) (ad_resets db)"
    and "ad_blobs db' = ad_blobs db"
    and "\<forall>s\<in>set (ad_sessions db). ss_UserID s \<noteq> userID \<longrightarrow> ss_ID s \<noteq> hashToken lib token"
    and "user_exists db userID"
proof -
  from assms obtain db1 n db2 m db3 where c: "UpdateUserPassword db userID hash = Inr db1"
    "DeleteSessionsForUser db1 userID = Inr (n, db2)" "DeletePasswordResetTokensForUser db2 userID = Inr (m, db3)"
    "createSession lib env db3 (en_dbnow env 0) (en_clock env 1) userID = Inr (token, db')"
    by (rule change_tx_steps)
  have d: "db1 = update_user db userID (\<lambda>u. u\<lparr>us_PasswordHash := hash\<rparr>)"
    "db2 = keep_sessions db1 (\<lambda>s. ss_UserID s \<noteq> userID)"
    "db3 = db2\<lparr>ad_resets := filter (\<lambda>t. rt_UserID t \<noteq> userID) (ad_resets db2)\<rparr>"
    using c(1-3) by (simp_all add: UpdateUserPassword_def DeleteSessionsForUser_def DeletePasswordResetTokensForUser_def bindE_eq_Inr)
  note s = createSession_Inr [OF c(4)]
  have s1: "db' = db3\<lparr>ad_sessions := ad_sessions db3 @ [\<lparr>ss_ID = hashToken lib token, ss_UserID = userID,
       ss_ExpiresAt = pg_timestamp (en_clock env 1 + SessionLifetime), ss_CreatedAt = en_dbnow env 0\<rparr>]\<rparr>"
    by (rule conjunct1 [OF s])
  note defs = d update_user_def keep_sessions_def
  show "ad_users db' = map_rows (\<lambda>u. us_ID u = userID) (\<lambda>u. u\<lparr>us_PasswordHash := hash\<rparr>) (ad_users db)"
    "ad_sessions db' = filter (\<lambda>s. ss_UserID s \<noteq> userID) (ad_sessions db) @
      [\<lparr>ss_ID = hashToken lib token, ss_UserID = userID,
        ss_ExpiresAt = pg_timestamp (en_clock env 1 + SessionLifetime), ss_CreatedAt = en_dbnow env 0\<rparr>]"
    "ad_resets db' = filter (\<lambda>t. rt_UserID t \<noteq> userID) (ad_resets db)"
    "ad_blobs db' = ad_blobs db"
    by (simp_all add: s1 defs)
  show "\<forall>s\<in>set (ad_sessions db). ss_UserID s \<noteq> userID \<longrightarrow> ss_ID s \<noteq> hashToken lib token" "user_exists db userID"
    using conjunct2 [OF s] by (auto simp: defs user_exists_def map_rows_def)
qed

lemma issue_tx_Inr:
  assumes "issue_tx lib env db userID raw = Inr db'"
  shows "ad_users db' = ad_users db" "ad_sessions db' = ad_sessions db" "ad_blobs db' = ad_blobs db"
    and "ad_resets db' = filter (\<lambda>t. rt_UserID t \<noteq> userID) (ad_resets db) @
      [\<lparr>rt_ID = hashToken lib raw, rt_UserID = userID,
        rt_ExpiresAt = pg_timestamp (en_clock env 0 + PasswordResetLifetime), rt_CreatedAt = en_dbnow env 1\<rparr>]"
    and "\<forall>t\<in>set (ad_resets db). rt_UserID t \<noteq> userID \<longrightarrow> rt_ID t \<noteq> hashToken lib raw"
    and "user_exists db userID"
  using assms by (auto simp: issue_tx_def bindE_eq_Inr stmt_defs user_exists_def split: if_splits)

lemma reset_tx_Inr:
  assumes "reset_tx lib env db raw hash = Inr (token, db')"
  obtains t where "row_of rt_ID (hashToken lib raw) (ad_resets db) = Some t" "rt_ExpiresAt t > en_dbnow env 1"
    and "ad_users db' = map_rows (\<lambda>u. us_ID u = rt_UserID t) (\<lambda>u. u\<lparr>us_PasswordHash := hash\<rparr>) (ad_users db)"
    and "ad_sessions db' = filter (\<lambda>s. ss_UserID s \<noteq> rt_UserID t) (ad_sessions db) @
      [\<lparr>ss_ID = hashToken lib token, ss_UserID = rt_UserID t,
        ss_ExpiresAt = pg_timestamp (en_clock env 1 + SessionLifetime), ss_CreatedAt = en_dbnow env 1\<rparr>]"
    and "ad_resets db' = filter (\<lambda>t. \<not> (rt_ID t = hashToken lib raw \<and> rt_ExpiresAt t > en_dbnow env 1)) (ad_resets db)"
    and "ad_blobs db' = ad_blobs db"
    and "\<forall>s\<in>set (ad_sessions db). ss_UserID s \<noteq> rt_UserID t \<longrightarrow> ss_ID s \<noteq> hashToken lib token"
    and "user_exists db (rt_UserID t)"
proof -
  from assms obtain userID db1 db2 m db3 where
    c: "ConsumePasswordResetToken db (en_dbnow env 1) (hashToken lib raw) = Inr (userID, db1)"
    and u: "UpdateUserPassword db1 userID hash = Inr db2" and d: "DeleteSessionsForUser db2 userID = Inr (m, db3)"
    and s: "createSession lib env db3 (en_dbnow env 1) (en_clock env 1) userID = Inr (token, db')"
    by (auto simp: reset_tx_def bindE_eq_Inr split: sum.splits store_error.splits)
  from c obtain t where t: "row_of rt_ID (hashToken lib raw) (ad_resets db) = Some t" "rt_ExpiresAt t > en_dbnow env 1"
    "userID = rt_UserID t"
    "db1 = db\<lparr>ad_resets := filter (\<lambda>t. \<not> (rt_ID t = hashToken lib raw \<and> rt_ExpiresAt t > en_dbnow env 1)) (ad_resets db)\<rparr>"
    by (auto simp: ConsumePasswordResetToken_def bindE_eq_Inr split: option.splits if_splits)
  show thesis
    by (rule that [OF t(1,2)])
      (use u d createSession_Inr [OF s] t(3,4) in \<open>auto simp: stmt_defs bindE_eq_Inr user_exists_def map_rows_def\<close>)
qed

section \<open>Which rows a step may add\<close>

text \<open>Every row of \<open>rows'\<close> was issued, or was there before with the same owner.\<close>

definition traced :: "('r \<Rightarrow> string) \<Rightarrow> ('r \<Rightarrow> uuid) \<Rightarrow> 'r list \<Rightarrow> string list \<Rightarrow> 'r list \<Rightarrow> bool" where
  "traced ident owner rows issued rows' \<longleftrightarrow>
     (\<forall>r'\<in>set rows'. ident r' \<in> set issued \<or> (\<exists>r\<in>set rows. ident r = ident r' \<and> owner r = owner r'))"

lemma traced_refl [simp]: "traced ident owner rows issued rows"
  by (auto simp: traced_def)

lemma traced_filter [simp]: "traced ident owner rows issued (filter p rows)"
  by (auto simp: traced_def)

lemma traced_trans:
  "traced ident owner a is b \<Longrightarrow> traced ident owner b js c \<Longrightarrow> traced ident owner a (is @ js) c"
  unfolding traced_def by (metis Un_iff set_append)

lemma traced_snoc: "ident r \<in> set issued \<Longrightarrow> traced ident owner rows issued (filter p rows @ [r])"
  by (auto simp: traced_def)

lemma traced_snoc': "ident r \<in> set issued \<Longrightarrow> traced ident owner rows issued (rows @ [r])"
  by (auto simp: traced_def)

lemma traced_map_rows:
  "(\<And>r. ident (f r) = ident r \<and> owner (f r) = owner r) \<Longrightarrow> traced ident owner rows issued (map_rows p f rows)"
  by (auto simp: traced_def map_rows_def)

abbreviation sessions_traced :: "auth_db \<Rightarrow> string list \<Rightarrow> auth_db \<Rightarrow> bool" where
  "sessions_traced db ss db' \<equiv> traced ss_ID ss_UserID (ad_sessions db) ss (ad_sessions db')"

abbreviation resets_traced :: "auth_db \<Rightarrow> string list \<Rightarrow> auth_db \<Rightarrow> bool" where
  "resets_traced db rs db' \<equiv> traced rt_ID rt_UserID (ad_resets db) rs (ad_resets db')"

lemma auth_act_traced:
  assumes "auth_act lib db ss rs db'"
  shows "sessions_traced db ss db' \<and> resets_traced db rs db'"
  using assms
proof cases
  case (act_change env userID hash token)
  then show ?thesis by (simp add: change_tx_Inr(2,3) traced_snoc)
next
  case (act_issue env userID raw)
  then show ?thesis by (simp add: issue_tx_Inr(2,4) traced_snoc)
next
  case (act_reset env raw hash token)
  from act_reset(3) show ?thesis
    by (rule reset_tx_Inr) (simp add: act_reset(1,2) traced_snoc)
next
  case (act_session env dbnow now userID token)
  from createSession_Inr [OF act_session(3)] act_session(1,2) show ?thesis by (simp add: traced_snoc')
next
  case (act_renew sid expiresAt)
  then show ?thesis by (auto simp: RenewSession_def bindE_eq_Inr intro!: traced_map_rows)
qed (auto simp: stmt_defs bindE_eq_Inr Let_def seedDefaultNoteTypes_def Logout_def UpdateProfile_def split: if_splits option.splits)

lemma auth_run_traced: "auth_run lib db ss rs db' \<Longrightarrow> sessions_traced db ss db' \<and> resets_traced db rs db'"
proof (induction rule: auth_run.induct)
  case (run_step db ss rs db' ss' rs' db'')
  with auth_act_traced [OF run_step(2)] show ?case by (auto intro: traced_trans)
qed simp

section \<open>The invariant\<close>

definition auth_wf :: "auth_lib \<Rightarrow> auth_db \<Rightarrow> bool" where
  "auth_wf lib db \<longleftrightarrow>
     pk us_ID (ad_users db) \<and> pk (\<lambda>u. al_lower lib (us_Email u)) (ad_users db)
     \<and> pk ss_ID (ad_sessions db) \<and> (\<forall>s\<in>set (ad_sessions db). user_exists db (ss_UserID s))
     \<and> pk rt_ID (ad_resets db) \<and> pk rt_UserID (ad_resets db) \<and> (\<forall>t\<in>set (ad_resets db). user_exists db (rt_UserID t))
     \<and> (\<forall>u\<in>set (ad_users db). 0 \<le> us_DayStartHour u \<and> us_DayStartHour u \<le> 23
          \<and> (\<forall>sha. us_AvatarSha256 u = Some sha \<longrightarrow> sha \<in> set (ad_blobs db)))"

definition auth_init :: "auth_db \<Rightarrow> bool" where
  "auth_init db \<longleftrightarrow> ad_users db = [] \<and> ad_sessions db = [] \<and> ad_resets db = []"

definition auth_step :: "auth_lib \<Rightarrow> auth_db \<Rightarrow> auth_db \<Rightarrow> bool" where
  "auth_step lib db db' \<longleftrightarrow> (\<exists>ss rs. auth_act lib db ss rs db')"

text \<open>A step that replaces users by users with the same id and address, and drops or adds rows, keeps it.\<close>

definition same_account :: "user \<Rightarrow> user \<Rightarrow> bool" where
  "same_account u u' \<longleftrightarrow> us_ID u' = us_ID u \<and> us_Email u' = us_Email u"

definition user_ok :: "auth_db \<Rightarrow> user \<Rightarrow> bool" where
  "user_ok db u \<longleftrightarrow> 0 \<le> us_DayStartHour u \<and> us_DayStartHour u \<le> 23
     \<and> (\<forall>sha. us_AvatarSha256 u = Some sha \<longrightarrow> sha \<in> set (ad_blobs db))"

lemma pk_map_rows_in:
  assumes "\<And>r. r \<in> set t \<Longrightarrow> p r \<Longrightarrow> k (f r) = k r"
  shows "pk k (map_rows p f t) = pk k t"
proof -
  have "map k (map_rows p f t) = map k t" using assms by (induction t) (auto simp: map_rows_def)
  then show ?thesis by (simp add: pk_def)
qed

lemma auth_wf_update_user:
  assumes wf: "auth_wf lib db" and same: "\<And>u. same_account u (f u)"
    and ok: "\<And>u. user_ok db u \<Longrightarrow> us_ID u = userID \<Longrightarrow> user_ok db (f u)"
  shows "auth_wf lib (update_user db userID f)"
proof -
  have ex: "user_exists (update_user db userID f) x = user_exists db x" for x
    using same by (auto simp: user_exists_def update_user_def map_rows_def same_account_def)
  have "\<forall>u\<in>set (ad_users (update_user db userID f)). user_ok db u"
    using wf ok by (auto simp: auth_wf_def user_ok_def update_user_def map_rows_def)
  with wf same show ?thesis
    by (auto simp: auth_wf_def ex) (auto simp: update_user_def user_ok_def same_account_def pk_map_rows)
qed

lemma auth_wf_rows:
  assumes "auth_wf lib db" "ad_users db' = ad_users db" "ad_blobs db' = ad_blobs db"
    and "pk ss_ID (ad_sessions db')" "\<forall>s\<in>set (ad_sessions db'). user_exists db (ss_UserID s)"
    and "pk rt_ID (ad_resets db')" "pk rt_UserID (ad_resets db')" "\<forall>t\<in>set (ad_resets db'). user_exists db (rt_UserID t)"
  shows "auth_wf lib db'"
  using assms by (simp add: auth_wf_def user_exists_def)

lemma auth_wf_D:
  assumes "auth_wf lib db"
  shows "pk us_ID (ad_users db)" "pk (\<lambda>u. al_lower lib (us_Email u)) (ad_users db)" "pk ss_ID (ad_sessions db)"
    "s \<in> set (ad_sessions db) \<Longrightarrow> user_exists db (ss_UserID s)" "pk rt_ID (ad_resets db)" "pk rt_UserID (ad_resets db)"
    "t \<in> set (ad_resets db) \<Longrightarrow> user_exists db (rt_UserID t)"
  using assms by (simp_all add: auth_wf_def)

lemma auth_wf_keep:
  assumes "auth_wf lib db"
  shows "auth_wf lib (keep_sessions db p)" "auth_wf lib (db\<lparr>ad_resets := filter q (ad_resets db)\<rparr>)"
  by (rule auth_wf_rows [OF assms]; use auth_wf_D [OF assms] in \<open>simp add: keep_sessions_def\<close>)+

lemma auth_wf_session:
  assumes "auth_wf lib db" "\<forall>s\<in>set (ad_sessions db). ss_ID s \<noteq> ss_ID r" "user_exists db (ss_UserID r)"
  shows "auth_wf lib (db\<lparr>ad_sessions := ad_sessions db @ [r]\<rparr>)"
  by (rule auth_wf_rows [OF assms(1)]) (use auth_wf_D [OF assms(1)] assms(2,3) in \<open>auto simp: pk_snoc\<close>)

lemma auth_wf_reset:
  assumes "auth_wf lib db" "\<forall>t\<in>set (ad_resets db). rt_ID t \<noteq> rt_ID r \<and> rt_UserID t \<noteq> rt_UserID r"
    "user_exists db (rt_UserID r)"
  shows "auth_wf lib (db\<lparr>ad_resets := ad_resets db @ [r]\<rparr>)"
  by (rule auth_wf_rows [OF assms(1)]) (use auth_wf_D [OF assms(1)] assms(2,3) in \<open>auto simp: pk_snoc\<close>)

lemma auth_wf_same:
  assumes "auth_wf lib d" "ad_users db = ad_users d" "ad_sessions db = ad_sessions d" "ad_resets db = ad_resets d"
    "ad_blobs db = ad_blobs d"
  shows "auth_wf lib db"
  using assms by (simp add: auth_wf_def user_exists_def)

lemma user_exists_update [simp]:
  "(\<And>u. same_account u (f u)) \<Longrightarrow> user_exists (update_user db userID f) x = user_exists db x"
  by (auto simp: user_exists_def update_user_def map_rows_def same_account_def)

lemma user_exists_more [simp]:
  "user_exists (keep_sessions db p) x = user_exists db x"
  "user_exists (db\<lparr>ad_resets := r\<rparr>) x = user_exists db x"
  by (simp_all add: user_exists_def keep_sessions_def)

text \<open>A new password and a new session: the common end of a change and a reset.\<close>

lemma auth_wf_new_password:
  assumes wf: "auth_wf lib db"
    and users: "ad_users db' = map_rows (\<lambda>u. us_ID u = userID) (\<lambda>u. u\<lparr>us_PasswordHash := hash\<rparr>) (ad_users db)"
    and ss: "ad_sessions db' = filter (\<lambda>s. ss_UserID s \<noteq> userID) (ad_sessions db) @ [r]" "ss_UserID r = userID"
    and fresh: "\<forall>s\<in>set (ad_sessions db). ss_UserID s \<noteq> userID \<longrightarrow> ss_ID s \<noteq> ss_ID r"
    and rs: "ad_resets db' = filter p (ad_resets db)" and blobs: "ad_blobs db' = ad_blobs db"
    and ex: "user_exists db userID"
  shows "auth_wf lib db'"
proof -
  define d where "d = update_user db userID (\<lambda>u. u\<lparr>us_PasswordHash := hash\<rparr>)"
  have same: "same_account u (u\<lparr>us_PasswordHash := hash\<rparr>)" for u by (simp add: same_account_def)
  have d: "auth_wf lib d" unfolding d_def by (rule auth_wf_update_user [OF wf same]) (simp add: user_ok_def)
  have ex': "user_exists d x = user_exists db x" for x
    unfolding d_def by (rule user_exists_update) (rule same)
  note W = auth_wf_D [OF wf]
  show ?thesis
  proof (rule auth_wf_rows [OF d])
    show "ad_users db' = ad_users d" "ad_blobs db' = ad_blobs d" by (simp_all add: users blobs d_def update_user_def)
    show "pk ss_ID (ad_sessions db')" using W(3) fresh by (simp add: ss pk_snoc)
    show "\<forall>s\<in>set (ad_sessions db'). user_exists d (ss_UserID s)" using W(4) ex by (auto simp: ss ex')
    show "pk rt_ID (ad_resets db')" "pk rt_UserID (ad_resets db')" using W(5,6) by (simp_all add: rs)
    show "\<forall>t\<in>set (ad_resets db'). user_exists d (rt_UserID t)" using W(7) by (auto simp: rs ex')
  qed
qed

lemma CreateUser_wf:
  assumes wf: "auth_wf lib db" and c: "CreateUser (al_lower lib) db newID now email hash name version = Inr (u, db')"
  shows "auth_wf lib db'"
proof -
  from c have new: "\<forall>v\<in>set (ad_users db). al_lower lib (us_Email v) \<noteq> al_lower lib email \<and> us_ID v \<noteq> newID"
    and db': "db' = db\<lparr>ad_users := ad_users db @ [new_user newID now email hash name version]\<rparr>"
    by (auto simp: CreateUser_def bindE_eq_Inr Let_def split: if_splits)
  have "user_exists db x \<Longrightarrow> user_exists db' x" for x by (auto simp: user_exists_def db')
  with wf new show ?thesis
    by (simp add: auth_wf_def db' pk_snoc) (simp add: new_user_def)
qed

lemma auth_act_wf:
  assumes "auth_act lib db ss rs db'" and wf: "auth_wf lib db"
  shows "auth_wf lib db'"
  using assms(1)
proof cases
  case (act_user newID now email hash name version u)
  then show ?thesis using CreateUser_wf [OF wf] by blast
next
  case (act_seed env userID)
  then show ?thesis by (auto simp: seedDefaultNoteTypes_def bindE_eq_Inr intro: auth_wf_same [OF wf])
next
  case (act_session env dbnow now userID token)
  from createSession_Inr [OF act_session(3)] show ?thesis
    by (auto intro!: auth_wf_session [OF wf])
next
  case (act_change env userID hash token)
  note c = change_tx_Inr [OF act_change(3)]
  show ?thesis by (rule auth_wf_new_password [OF wf c(1,2) _ _ c(3,4,6)]) (use c(5) in simp_all)
next
  case (act_issue env userID raw)
  note c = issue_tx_Inr [OF act_issue(3)]
  let ?d = "db\<lparr>ad_resets := filter (\<lambda>t. rt_UserID t \<noteq> userID) (ad_resets db)\<rparr>"
  let ?r = "\<lparr>rt_ID = hashToken lib raw, rt_UserID = userID,
    rt_ExpiresAt = pg_timestamp (en_clock env 0 + PasswordResetLifetime), rt_CreatedAt = en_dbnow env 1\<rparr>"
  have "auth_wf lib (?d\<lparr>ad_resets := ad_resets ?d @ [?r]\<rparr>)"
    by (rule auth_wf_reset) (use auth_wf_keep(2) [OF wf] c(5,6) in auto)
  then show ?thesis by (rule auth_wf_same) (simp_all add: c)
next
  case (act_reset env raw hash token)
  from act_reset(3) show ?thesis
  proof (rule reset_tx_Inr)
    fix t
    assume c: "ad_users db' = map_rows (\<lambda>u. us_ID u = rt_UserID t) (\<lambda>u. u\<lparr>us_PasswordHash := hash\<rparr>) (ad_users db)"
      "ad_sessions db' = filter (\<lambda>s. ss_UserID s \<noteq> rt_UserID t) (ad_sessions db) @
        [\<lparr>ss_ID = hashToken lib token, ss_UserID = rt_UserID t,
          ss_ExpiresAt = pg_timestamp (en_clock env 1 + SessionLifetime), ss_CreatedAt = en_dbnow env 1\<rparr>]"
      "ad_resets db' = filter (\<lambda>t. \<not> (rt_ID t = hashToken lib raw \<and> rt_ExpiresAt t > en_dbnow env 1)) (ad_resets db)"
      "ad_blobs db' = ad_blobs db"
      "\<forall>s\<in>set (ad_sessions db). ss_UserID s \<noteq> rt_UserID t \<longrightarrow> ss_ID s \<noteq> hashToken lib token"
      "user_exists db (rt_UserID t)"
    show ?thesis by (rule auth_wf_new_password [OF wf c(1,2) _ _ c(3,4,6)]) (use c(5) in simp_all)
  qed
next
  case (act_renew sid expiresAt)
  then have db': "db' = db\<lparr>ad_sessions := map_rows (\<lambda>s. ss_ID s = sid)
      (\<lambda>s. s\<lparr>ss_ExpiresAt := pg_timestamp expiresAt\<rparr>) (ad_sessions db)\<rparr>"
    by (simp add: RenewSession_def bindE_eq_Inr)
  have "pk ss_ID (map_rows (\<lambda>s. ss_ID s = sid) (\<lambda>s. s\<lparr>ss_ExpiresAt := pg_timestamp expiresAt\<rparr>) (ad_sessions db))"
    using auth_wf_D(3) [OF wf] by (simp add: pk_map_rows)
  then show ?thesis unfolding db'
    by (intro auth_wf_rows [OF wf]) (use auth_wf_D [OF wf] in \<open>auto simp: map_rows_def\<close>)
next
  case (act_outside blobs c r)
  with wf show ?thesis by (simp add: auth_wf_def user_exists_def)
next
  case (act_profile userID name tz hour)
  then show ?thesis
    by (auto simp: UpdateProfile_def UpdateUserProfile_def bindE_eq_Inr Let_def same_account_def user_ok_def
      split: option.splits if_splits intro!: auth_wf_update_user [OF wf])
next
  case (act_avatar userID sha)
  then have ok: "\<not> (user_exists db userID \<and> (case sha of None \<Rightarrow> False | Some s \<Rightarrow> s \<notin> set (ad_blobs db)))"
    and db': "db' = update_user db userID (\<lambda>u. u\<lparr>us_AvatarSha256 := sha\<rparr>)"
    by (auto simp: UpdateUserAvatar_def bindE_eq_Inr split: if_splits)
  show ?thesis
  proof (cases "user_exists db userID")
    case True
    with ok show ?thesis unfolding db'
      by (intro auth_wf_update_user [OF wf]) (auto simp: same_account_def user_ok_def)
  next
    case False
    then have "map_rows (\<lambda>u. us_ID u = userID) (\<lambda>u. u\<lparr>us_AvatarSha256 := sha\<rparr>) (ad_users db) = ad_users db"
      unfolding map_rows_def user_exists_def by (intro map_idI) auto
    then show ?thesis using wf unfolding db' update_user_def by simp
  qed
next
  case (act_appearance userID scheme accent)
  with wf show ?thesis
    by (auto simp: UpdateUserAppearance_def bindE_eq_Inr same_account_def user_ok_def split: if_splits
      intro: auth_wf_update_user)
qed (auto simp: Logout_def DeleteSession_def DeleteExpiredSessions_def DeleteExpiredPasswordResetTokens_def
  UpdateUserLastSeenVersion_def bindE_eq_Inr same_account_def user_ok_def wf
  split: if_splits intro!: auth_wf_keep [OF wf] auth_wf_update_user [OF wf])

lemma auth_init_wf: "auth_init db \<Longrightarrow> auth_wf lib db"
  by (simp add: auth_init_def auth_wf_def pk_def)

interpretation auth: invariant_system auth_init "auth_step lib" "auth_wf lib" for lib
  by unfold_locales (auto simp: auth_step_def intro: auth_init_wf auth_act_wf)

lemma auth_run_wf: "auth_run lib db ss rs db' \<Longrightarrow> auth_wf lib db \<Longrightarrow> auth_wf lib db'"
  by (induction rule: auth_run.induct) (auto intro: auth_act_wf)

end
