(* ===== verification/Auth_System.thy ===== *)
theory Auth_System
  imports Auth_Lemmas
begin

text \<open>
  The properties of accounts and sessions: every request handler of \<open>internal/auth\<close> is a sequence of the
  steps of \<open>auth_act\<close>, so what holds for all runs holds whatever requests are served together.
\<close>

section \<open>Handlers are runs\<close>

definition others_ok :: "auth_lib \<Rightarrow> auth_env \<Rightarrow> bool" where
  "others_ok lib env \<longleftrightarrow> (\<forall>i d. some_run lib d (en_others env i d))"

lemma some_run_others: "others_ok lib env \<Longrightarrow> some_run lib db d \<Longrightarrow> some_run lib db (en_others env i d)"
  using some_run.frame_trans by (auto simp: others_ok_def)

lemma some_run_then: "auth_act lib d ss rs d' \<Longrightarrow> some_run lib db d \<Longrightarrow> some_run lib db d'"
  using some_run.frame_trans some_run_act by blast

lemmas some_run_acts =
  act_user [THEN some_run_then] act_seed [THEN some_run_then] act_session [THEN some_run_then]
  act_change [THEN some_run_then] act_issue [THEN some_run_then] act_reset [THEN some_run_then]
  act_renew [THEN some_run_then] act_expire_sessions [THEN some_run_then] act_expire_resets [THEN some_run_then]

text \<open>What a handler leaves, by the cases of its body.\<close>

definition leaves :: "auth_lib \<Rightarrow> auth_db \<Rightarrow> 'a outcome \<Rightarrow> bool" where
  "leaves lib db res \<longleftrightarrow> some_run lib db (snd (snd res))"

lemma leaves_intros:
  "some_run lib db d \<Longrightarrow> leaves lib db (r, sv, d)"
  "(x = None \<Longrightarrow> leaves lib db a) \<Longrightarrow> (\<And>y. x = Some y \<Longrightarrow> leaves lib db (f y)) \<Longrightarrow>
     leaves lib db (case x of None \<Rightarrow> a | Some y \<Rightarrow> f y)"
  "(\<And>e. m = Inl e \<Longrightarrow> leaves lib db (g e)) \<Longrightarrow> (\<And>y. m = Inr y \<Longrightarrow> leaves lib db (h y)) \<Longrightarrow>
     leaves lib db (case m of Inl e \<Rightarrow> g e | Inr y \<Rightarrow> h y)"
  "(b \<Longrightarrow> leaves lib db s) \<Longrightarrow> (\<not> b \<Longrightarrow> leaves lib db t) \<Longrightarrow> leaves lib db (if b then s else t)"
  "(b \<Longrightarrow> leaves lib db s) \<Longrightarrow> (\<not> b \<Longrightarrow> leaves lib db t) \<Longrightarrow> leaves lib db (case b of True \<Rightarrow> s | False \<Rightarrow> t)"
  "(\<And>q1 q2. q = (q1, q2) \<Longrightarrow> leaves lib db (k q1 q2)) \<Longrightarrow> leaves lib db (case q of (q1, q2) \<Rightarrow> k q1 q2)"
  "leaves lib db (w v) \<Longrightarrow> leaves lib db (let x = v in w x)"
  "(\<And>l. leaves lib db (f1 l)) \<Longrightarrow> leaves lib db e1 \<Longrightarrow> (\<And>l. leaves lib db (f2 l)) \<Longrightarrow> (\<And>l. leaves lib db (f3 l)) \<Longrightarrow>
     (\<And>l. leaves lib db (f4 l)) \<Longrightarrow> leaves lib db (case er of SRefused l \<Rightarrow> f1 l | SNoRows \<Rightarrow> e1
       | SUnique l \<Rightarrow> f2 l | SForeignKey l \<Rightarrow> f3 l | SCheck l \<Rightarrow> f4 l)"
  by (auto simp: leaves_def split: option.splits sum.splits bool.splits prod.splits store_error.splits)

lemma Login_run:
  assumes "others_ok lib env"
  shows "leaves lib db (Login lib env sv db ip email password)"
  unfolding Login_def Let_def split_beta
  by (intro leaves_intros some_run.frame_refl) (auto intro!: some_run_others [OF assms] intro: some_run_acts some_run.frame_refl)

lemma Signup_run:
  assumes "others_ok lib env"
  shows "leaves lib db (Signup lib changelog env sv db ip email password name)"
proof -
  have created: "some_run lib db d"
    if "CreateUser (al_lower lib) (en_others env 0 db) i t e h n v = Inr (u, d)" for i t e h n v u d
    using that by (intro some_run_acts(1) [OF that] some_run_others [OF assms] some_run.frame_refl)
  then have seeded: "some_run lib db d'"
    if "CreateUser (al_lower lib) (en_others env 0 db) i t e h n v = Inr (u, d)"
      "seedDefaultNoteTypes env (en_others env 1 d) w = Inr d'" for i t e h n v u w d d'
    using that by (blast intro: some_run_others [OF assms] some_run_acts)
  have session: "some_run lib db d'"
    if "createSession lib env (en_others env 2 d) t n w = Inr (tok, d')" "some_run lib db d" for t n w tok d d'
    using some_run_acts(3) [OF that(1) some_run_others [OF assms that(2)]] .
  have seeded_session: "some_run lib db d''"
    if "createSession lib env (en_others env 2 d') t n u = Inr (tok, d'')"
      "seedDefaultNoteTypes env (en_others env 1 d) w = Inr d'"
      "CreateUser (al_lower lib) (en_others env 0 db) i t' e h nm v = Inr (x, d)" for t n u tok d d' d'' w i t' e h nm v x
    using session [OF that(1) seeded [OF that(3,2)]] .
  show ?thesis
    unfolding Signup_def Let_def split_beta
    by (intro leaves_intros some_run.frame_refl)
      (auto simp del: One_nat_def split: sum.splits intro!: some_run_others [OF assms] some_run.frame_refl
        intro: created seeded session seeded_session)
qed

lemma ChangePassword_run: "leaves lib db (ChangePassword lib env sv db userID currentHash old new)"
  unfolding ChangePassword_def Let_def split_beta
  by (intro leaves_intros some_run.frame_refl) (auto intro: some_run_acts some_run.frame_refl)

lemma ResetPassword_run:
  assumes "others_ok lib env"
  shows "leaves lib db (ResetPassword lib env sv db ip raw new)"
  unfolding ResetPassword_def Let_def split_beta
  by (intro leaves_intros some_run.frame_refl) (auto intro!: some_run_others [OF assms] intro: some_run_acts some_run.frame_refl)

lemma CreatePasswordReset_run:
  assumes "others_ok lib env"
  shows "some_run lib db (snd (CreatePasswordReset lib env db email))"
proof -
  have "some_run lib db (en_others env 0 db)" by (rule some_run_others [OF assms some_run.frame_refl])
  then show ?thesis
    by (auto simp: CreatePasswordReset_def Let_def some_run.frame_refl
      split: option.splits sum.splits store_error.splits intro: some_run_acts)
qed

lemma Middleware_run:
  assumes "others_ok lib env"
  shows "some_run lib db (snd (Middleware lib env sv db r))"
proof -
  have "some_run lib db (en_others env 0 db)" by (rule some_run_others [OF assms some_run.frame_refl])
  then show ?thesis
    by (auto simp: Middleware_def Let_def some_run.frame_refl
      split: option.splits sum.splits store_error.splits intro: some_run_acts)
qed

lemma cleanup_run:
  assumes "others_ok lib env"
  shows "some_run lib db (snd (cleanup_tick env sv db))"
  by (auto simp: cleanup_tick_def Let_def split: sum.splits intro!: some_run_others [OF assms]
    intro: some_run_acts some_run.frame_refl)

section \<open>Who is signed in\<close>

lemma GetSessionUser_Inr:
  "GetSessionUser db now sid = Inr (u, e) \<Longrightarrow>
     u \<in> set (ad_users db) \<and> (\<exists>s\<in>set (ad_sessions db). ss_ID s = sid \<and> ss_UserID s = us_ID u \<and> ss_ExpiresAt s > now)"
  by (auto simp: GetSessionUser_def bindE_eq_Inr split: option.splits if_splits dest!: row_of_Some)

lemma Middleware_user:
  assumes "Middleware lib env sv db r = (Next (Some u) cs, db')"
  obtains v s where "rq_Cookie r = Some v" "s \<in> set (ad_sessions db)" "ss_ID s = hashToken lib v"
    "ss_UserID s = us_ID u" "ss_ExpiresAt s > en_dbnow env 0" "u \<in> set (ad_users db)"
  using assms
  by (auto simp: Middleware_def Let_def split: if_splits option.splits sum.splits store_error.splits
    dest!: GetSessionUser_Inr)

text \<open>After a step that leaves one session of the account, later sessions of it were issued later.\<close>

lemma sessions_after:
  assumes "\<forall>s\<in>set (ad_sessions db1). ss_UserID s = userID \<longrightarrow> ss_ID s = sid"
    and "auth_run lib db1 ss rs db2" "s \<in> set (ad_sessions db2)" "ss_UserID s = userID"
  shows "ss_ID s \<in> set (sid # ss)"
  using auth_run_traced [OF assms(2)] assms(1,3,4) unfolding traced_def by (metis list.set_intros)

lemma resets_after:
  assumes "\<forall>t\<in>set (ad_resets db1). \<not> p (rt_ID t) (rt_UserID t)"
    and "auth_run lib db1 ss rs db2" "t \<in> set (ad_resets db2)" "rt_ID t \<notin> set rs"
  shows "\<not> p (rt_ID t) (rt_UserID t)"
  using auth_run_traced [OF assms(2)] assms(1,3,4) unfolding traced_def by metis

section \<open>Changing the password\<close>

lemma map_rows_set_hash:
  assumes "u \<in> set (map_rows (\<lambda>u. us_ID u = userID) (\<lambda>u. u\<lparr>us_PasswordHash := hash\<rparr>) users)" "us_ID u = userID"
  shows "us_PasswordHash u = hash"
proof -
  from assms(1) obtain w where "u = (if us_ID w = userID then w\<lparr>us_PasswordHash := hash\<rparr> else w)"
    unfolding map_rows_def set_map by blast
  with assms(2) show ?thesis by (cases "us_ID w = userID") simp_all
qed

lemma ChangePassword_Inr:
  assumes "ChangePassword lib env sv db userID currentHash currentPassword newPassword = (Inr token, sv', db')"
  obtains salt where "change_tx lib env db userID (al_CreateHash lib salt newPassword) = Inr (token, db')"
    "en_salt env = Some salt" "al_Compare lib currentPassword currentHash = Some True" "validatePassword newPassword = None"
  using assms
  by (auto simp: ChangePassword_def Let_def split_beta split: option.splits if_splits bool.splits sum.splits)

lemma password_change_revokes_parts:
  assumes change: "ChangePassword lib env sv db userID currentHash currentPassword newPassword = (Inr token, sv1, db1)"
    and later: "auth_run lib db1 ss rs db2"
  shows "al_Compare lib currentPassword currentHash = Some True"
    and "\<exists>salt. \<forall>u\<in>set (ad_users db1). us_ID u = userID \<longrightarrow> us_PasswordHash u = al_CreateHash lib salt newPassword"
    and "Middleware lib env2 sv2 db2 r = (Next (Some u) cs, db3) \<Longrightarrow> us_ID u = userID \<Longrightarrow> rq_Cookie r = Some cookie \<Longrightarrow>
      hashToken lib cookie \<in> set (hashToken lib token # ss)"
    and "reset_tx lib env3 db2 raw hash = Inr (tok, db4) \<Longrightarrow> hashToken lib raw \<notin> set rs \<Longrightarrow>
      v \<in> set (ad_users db4) \<Longrightarrow> us_ID v = userID \<Longrightarrow> v \<in> set (ad_users db2)"
proof -
  from change obtain salt where tx: "change_tx lib env db userID (al_CreateHash lib salt newPassword) = Inr (token, db1)"
    and "en_salt env = Some salt" and ok: "al_Compare lib currentPassword currentHash = Some True"
    and "validatePassword newPassword = None" by (rule ChangePassword_Inr)
  note c = change_tx_Inr [OF tx]
  show "al_Compare lib currentPassword currentHash = Some True" by (rule ok)
  show "\<exists>salt. \<forall>u\<in>set (ad_users db1). us_ID u = userID \<longrightarrow> us_PasswordHash u = al_CreateHash lib salt newPassword"
    by (rule exI [of _ salt], intro ballI impI) (rule map_rows_set_hash [of _ userID _ "ad_users db"], simp only: c(1) [symmetric])
  have one: "\<forall>s\<in>set (ad_sessions db1). ss_UserID s = userID \<longrightarrow> ss_ID s = hashToken lib token"
    by (auto simp: c(2))
  show "hashToken lib cookie \<in> set (hashToken lib token # ss)"
    if "Middleware lib env2 sv2 db2 r = (Next (Some u) cs, db3)" "us_ID u = userID" "rq_Cookie r = Some cookie"
    using that(1)
  proof (rule Middleware_user)
    fix w s assume s: "rq_Cookie r = Some w" "s \<in> set (ad_sessions db2)" "ss_ID s = hashToken lib w" "ss_UserID s = us_ID u"
    then have "ss_UserID s = userID" "w = cookie" using that(2,3) by simp_all
    with sessions_after [OF one later s(2)] s(3) show ?thesis by simp
  qed
  show "v \<in> set (ad_users db2)"
    if "reset_tx lib env3 db2 raw hash = Inr (tok, db4)" "hashToken lib raw \<notin> set rs"
      "v \<in> set (ad_users db4)" "us_ID v = userID"
    using that(1)
  proof (rule reset_tx_Inr)
    fix t assume t: "row_of rt_ID (hashToken lib raw) (ad_resets db2) = Some t"
      "ad_users db4 = map_rows (\<lambda>u. us_ID u = rt_UserID t) (\<lambda>u. u\<lparr>us_PasswordHash := hash\<rparr>) (ad_users db2)"
    from row_of_Some [OF t(1)] have t1: "t \<in> set (ad_resets db2)" "rt_ID t \<notin> set rs" using that(2) by auto
    have "\<forall>t\<in>set (ad_resets db1). \<not> rt_UserID t = userID" by (auto simp: c(3))
    from resets_after [of db1 "\<lambda>_ x. x = userID", OF this later t1] have "rt_UserID t \<noteq> userID" .
    with t(2) that(3,4) show ?thesis by (auto simp: map_rows_def split: if_splits)
  qed
qed

text \<open>C30: changing the password needs the current one; afterwards, whatever requests are served in whatever
  interleaving, a request is only served as that account with a session issued by the change itself or later,
  so every older cookie, a stolen one included, is dead, and no reset link issued before can set the
  account's password any more.\<close>

theorem password_change_revokes:
  assumes "ChangePassword lib env sv db userID currentHash currentPassword newPassword = (Inr token, sv1, db1)"
    and "auth_run lib db1 ss rs db2"
  shows "al_Compare lib currentPassword currentHash = Some True
    \<and> (\<exists>salt. \<forall>u\<in>set (ad_users db1). us_ID u = userID \<longrightarrow> us_PasswordHash u = al_CreateHash lib salt newPassword)
    \<and> (\<forall>env2 sv2 r u cs db3 cookie. Middleware lib env2 sv2 db2 r = (Next (Some u) cs, db3) \<and> us_ID u = userID
         \<and> rq_Cookie r = Some cookie \<longrightarrow> hashToken lib cookie \<in> set (hashToken lib token # ss))
    \<and> (\<forall>env3 raw hash tok db4 v. reset_tx lib env3 db2 raw hash = Inr (tok, db4) \<and> hashToken lib raw \<notin> set rs
         \<and> v \<in> set (ad_users db4) \<and> us_ID v = userID \<longrightarrow> v \<in> set (ad_users db2))"
  using password_change_revokes_parts [OF assms] by blast

section \<open>Reset links\<close>

lemma ResetPassword_Inr:
  assumes "ResetPassword lib env sv db ip raw newPassword = (Inr token, sv', db')"
  obtains salt where "reset_tx lib env (en_others env 0 db) raw (al_CreateHash lib salt newPassword) = Inr (token, db')"
  using assms
  by (auto simp: ResetPassword_def Let_def split_beta split: option.splits if_splits bool.splits sum.splits)

text \<open>A link that is not in the table is refused, by the first look and by the transaction.\<close>

lemma PasswordResetValid_gone:
  assumes "\<forall>t\<in>set (ad_resets db). rt_ID t \<noteq> hashToken lib raw"
  shows "PasswordResetValid lib db now raw \<noteq> Inr True"
  using assms by (auto simp: PasswordResetValid_def GetPasswordResetToken_def bindE_def run_a_def row_of_None [THEN iffD2]
    split: sum.splits store_error.splits option.splits if_splits dest!: row_of_Some)

lemma ResetPassword_gone:
  assumes "\<forall>t\<in>set (ad_resets db). rt_ID t \<noteq> hashToken lib raw"
  shows "\<exists>e sv'. ResetPassword lib env sv db ip raw newPassword = (Inl e, sv', db)"
  using PasswordResetValid_gone [OF assms, of "en_dbnow env 0"]
  by (auto simp: ResetPassword_def Let_def split_beta split: option.splits sum.splits bool.splits)

lemma reset_tx_gone:
  assumes "\<forall>t\<in>set (ad_resets db). rt_ID t \<noteq> hashToken lib raw"
  shows "reset_tx lib env db raw hash \<noteq> Inr x"
proof
  assume "reset_tx lib env db raw hash = Inr x"
  then have "reset_tx lib env db raw hash = Inr (fst x, snd x)" by simp
  then show False
  proof (rule reset_tx_Inr)
    fix t assume "row_of rt_ID (hashToken lib raw) (ad_resets db) = Some t"
    from row_of_Some [OF this] assms show False by blast
  qed
qed

lemma reset_link_single_use_parts:
  assumes reach: "reaches auth_init (auth_step lib) db" and others: "others_ok lib env"
    and reset: "ResetPassword lib env sv db ip raw newPassword = (Inr token, sv1, db1)"
    and later: "auth_run lib db1 ss rs db2"
  shows "hashToken lib raw \<notin> set rs \<Longrightarrow> \<exists>e sv3. ResetPassword lib env2 sv2 db2 ip2 raw pw2 = (Inl e, sv3, db2)"
    and "hashToken lib raw \<notin> set rs \<Longrightarrow> reset_tx lib env2 db2 raw hash \<noteq> Inr x"
    and "\<exists>t salt. t \<in> set (ad_resets (en_others env 0 db)) \<and> rt_ID t = hashToken lib raw
      \<and> (\<forall>u\<in>set (ad_users db1). us_ID u = rt_UserID t \<longrightarrow> us_PasswordHash u = al_CreateHash lib salt newPassword)
      \<and> (\<forall>s\<in>set (ad_sessions db2). ss_UserID s = rt_UserID t \<longrightarrow> ss_ID s \<in> set (hashToken lib token # ss))"
proof -
  define d where "d = en_others env 0 db"
  have "auth_wf lib db" using auth.reachable_inv [OF reach] .
  moreover have "some_run lib db d" unfolding d_def by (rule some_run_others [OF others some_run.frame_refl])
  ultimately have wf: "auth_wf lib d" unfolding some_run_def using auth_run_wf by blast
  from reset obtain salt where tx: "reset_tx lib env d raw (al_CreateHash lib salt newPassword) = Inr (token, db1)"
    unfolding d_def by (rule ResetPassword_Inr)
  from tx obtain t where t: "row_of rt_ID (hashToken lib raw) (ad_resets d) = Some t" "rt_ExpiresAt t > en_dbnow env 1"
    and users: "ad_users db1 = map_rows (\<lambda>u. us_ID u = rt_UserID t)
      (\<lambda>u. u\<lparr>us_PasswordHash := al_CreateHash lib salt newPassword\<rparr>) (ad_users d)"
    and sess: "ad_sessions db1 = filter (\<lambda>s. ss_UserID s \<noteq> rt_UserID t) (ad_sessions d) @
      [\<lparr>ss_ID = hashToken lib token, ss_UserID = rt_UserID t,
        ss_ExpiresAt = pg_timestamp (en_clock env 1 + SessionLifetime), ss_CreatedAt = en_dbnow env 1\<rparr>]"
    and resets: "ad_resets db1 = filter (\<lambda>t. \<not> (rt_ID t = hashToken lib raw \<and> rt_ExpiresAt t > en_dbnow env 1)) (ad_resets d)"
    and "ad_blobs db1 = ad_blobs d" "\<forall>s\<in>set (ad_sessions d). ss_UserID s \<noteq> rt_UserID t \<longrightarrow> ss_ID s \<noteq> hashToken lib token"
    and "user_exists d (rt_UserID t)"
    by (rule reset_tx_Inr)
  have "r = t" if "r \<in> set (ad_resets d)" "rt_ID r = hashToken lib raw" for r
    using row_of_pk [OF auth_wf_D(5) [OF wf], of "hashToken lib raw" r] t(1) that by simp
  then have none: "\<forall>r\<in>set (ad_resets db1). \<not> rt_ID r = hashToken lib raw"
    using t(2) by (auto simp: resets)
  have gone: "\<forall>r\<in>set (ad_resets db2). rt_ID r \<noteq> hashToken lib raw" if "hashToken lib raw \<notin> set rs"
    using resets_after [of db1 "\<lambda>i _. i = hashToken lib raw", OF none later] that by metis
  show "\<exists>e sv3. ResetPassword lib env2 sv2 db2 ip2 raw pw2 = (Inl e, sv3, db2)" if "hashToken lib raw \<notin> set rs"
    by (rule ResetPassword_gone [OF gone [OF that]])
  show "reset_tx lib env2 db2 raw hash \<noteq> Inr x" if "hashToken lib raw \<notin> set rs"
    by (rule reset_tx_gone [OF gone [OF that]])
  have one: "\<forall>s\<in>set (ad_sessions db1). ss_UserID s = rt_UserID t \<longrightarrow> ss_ID s = hashToken lib token" by (auto simp: sess)
  show "\<exists>t salt. t \<in> set (ad_resets (en_others env 0 db)) \<and> rt_ID t = hashToken lib raw
      \<and> (\<forall>u\<in>set (ad_users db1). us_ID u = rt_UserID t \<longrightarrow> us_PasswordHash u = al_CreateHash lib salt newPassword)
      \<and> (\<forall>s\<in>set (ad_sessions db2). ss_UserID s = rt_UserID t \<longrightarrow> ss_ID s \<in> set (hashToken lib token # ss))"
    using row_of_Some [OF t(1)] sessions_after [OF one later]
    by (intro exI [of _ t] exI [of _ salt] conjI ballI impI)
      (simp_all add: d_def [symmetric], rule map_rows_set_hash [of _ "rt_UserID t" _ "ad_users d"], simp_all add: users)
qed

text \<open>C31: a reset link works once: the reset sets the password of the account the link was issued for and leaves
  that account only the session it returns or later ones; after it, whatever is served in between, and
  also for a second submission that had already passed the first look at the link, the link is refused
  and changes nothing, unless a link with the same hash is issued again.\<close>

theorem reset_link_single_use:
  assumes "reaches auth_init (auth_step lib) db" and "others_ok lib env"
    and "ResetPassword lib env sv db ip raw newPassword = (Inr token, sv1, db1)"
    and "auth_run lib db1 ss rs db2"
  shows "(hashToken lib raw \<notin> set rs \<longrightarrow>
        (\<forall>env2 sv2 ip2 pw2. \<exists>e sv3. ResetPassword lib env2 sv2 db2 ip2 raw pw2 = (Inl e, sv3, db2))
        \<and> (\<forall>env2 hash x. reset_tx lib env2 db2 raw hash \<noteq> Inr x))
    \<and> (\<exists>t salt. t \<in> set (ad_resets (en_others env 0 db)) \<and> rt_ID t = hashToken lib raw
      \<and> (\<forall>u\<in>set (ad_users db1). us_ID u = rt_UserID t \<longrightarrow> us_PasswordHash u = al_CreateHash lib salt newPassword)
      \<and> (\<forall>s\<in>set (ad_sessions db2). ss_UserID s = rt_UserID t \<longrightarrow> ss_ID s \<in> set (hashToken lib token # ss)))"
  using reset_link_single_use_parts [OF assms] by blast

section \<open>Signing in\<close>

lemma Login_Inr:
  assumes "Login lib env sv db ip email password = (Inr (u, token), sv', db')"
  shows "GetUserByEmail (al_lower lib) db (TrimSpace email) = Inr u"
    "al_Compare lib password (us_PasswordHash u) = Some True"
    "createSession lib env (en_others env 0 db) (en_dbnow env 1) (en_clock env 2) (us_ID u) = Inr (token, db')"
  using assms
  by (auto simp: Login_def Let_def split_beta split: option.splits if_splits bool.splits sum.splits store_error.splits)

lemma Login_correct_parts:
  shows "Login lib env sv db ip email password = (Inr (u, token), sv', db') \<Longrightarrow>
      u \<in> set (ad_users db) \<and> al_lower lib (us_Email u) = al_lower lib (TrimSpace email)
      \<and> al_Compare lib password (us_PasswordHash u) = Some True
      \<and> (\<exists>s\<in>set (ad_sessions db'). ss_ID s = hashToken lib token \<and> ss_UserID s = us_ID u)"
    and "\<forall>v\<in>set (ad_users db). al_lower lib (us_Email v) = al_lower lib (TrimSpace email) \<longrightarrow>
        al_Compare lib password (us_PasswordHash v) = Some False \<Longrightarrow>
      al_Compare lib password (sv_dummyHash sv) = Some b \<Longrightarrow>
      without = db\<lparr>ad_users := filter (\<lambda>v. al_lower lib (us_Email v) \<noteq> al_lower lib (TrimSpace email)) (ad_users db)\<rparr> \<Longrightarrow>
      \<exists>e sv'. Login lib env sv db ip email password = (Inl e, sv', db)
        \<and> Login lib env sv without ip email password = (Inl e, sv', without)"
proof -
  show "u \<in> set (ad_users db) \<and> al_lower lib (us_Email u) = al_lower lib (TrimSpace email)
      \<and> al_Compare lib password (us_PasswordHash u) = Some True
      \<and> (\<exists>s\<in>set (ad_sessions db'). ss_ID s = hashToken lib token \<and> ss_UserID s = us_ID u)"
    if "Login lib env sv db ip email password = (Inr (u, token), sv', db')"
    using Login_Inr(1,2) [OF that] createSession_Inr [OF Login_Inr(3) [OF that]]
    by (auto simp: GetUserByEmail_def bindE_eq_Inr dest!: row_of_Some)
  let ?find = "\<lambda>db. row_of (\<lambda>u. al_lower lib (us_Email u)) (al_lower lib (TrimSpace email)) (ad_users db)"
  assume wrong: "\<forall>v\<in>set (ad_users db). al_lower lib (us_Email v) = al_lower lib (TrimSpace email) \<longrightarrow>
      al_Compare lib password (us_PasswordHash v) = Some False"
    and dummy: "al_Compare lib password (sv_dummyHash sv) = Some b"
    and without: "without = db\<lparr>ad_users := filter (\<lambda>v. al_lower lib (us_Email v) \<noteq> al_lower lib (TrimSpace email)) (ad_users db)\<rparr>"
  have none: "?find without = None" by (auto simp: without row_of_None)
  have refuses: "ad_refuses without = ad_refuses db" by (simp add: without)
  show "\<exists>e sv'. Login lib env sv db ip email password = (Inl e, sv', db)
      \<and> Login lib env sv without ip email password = (Inl e, sv', without)"
  proof (cases "?find db")
    case None
    then show ?thesis using dummy none
      by (simp add: Login_def Let_def split_beta GetUserByEmail_def run_a_def one_a_def refuses split: option.split bool.split)
  next
    case (Some v)
    with wrong have "al_Compare lib password (us_PasswordHash v) = Some False" by (auto dest: row_of_Some)
    then show ?thesis using dummy none Some
      by (simp add: Login_def Let_def split_beta GetUserByEmail_def run_a_def one_a_def refuses split: option.split bool.split)
  qed
qed

text \<open>C32: a sign-in succeeds only for the account with that address (in any casing) and only with its password, and
  the session it stores is that account's; a failed sign-in tells nothing: with a wrong password the answer and
  the limiters are the same whether the account exists or not, and the database is left alone.\<close>

theorem Login_correct:
  "(\<forall>u token sv' db'. Login lib env sv db ip email password = (Inr (u, token), sv', db') \<longrightarrow>
      u \<in> set (ad_users db) \<and> al_lower lib (us_Email u) = al_lower lib (TrimSpace email)
      \<and> al_Compare lib password (us_PasswordHash u) = Some True
      \<and> (\<exists>s\<in>set (ad_sessions db'). ss_ID s = hashToken lib token \<and> ss_UserID s = us_ID u))
   \<and> ((\<forall>v\<in>set (ad_users db). al_lower lib (us_Email v) = al_lower lib (TrimSpace email) \<longrightarrow>
        al_Compare lib password (us_PasswordHash v) = Some False)
      \<and> al_Compare lib password (sv_dummyHash sv) = Some b
      \<and> without = db\<lparr>ad_users := filter (\<lambda>v. al_lower lib (us_Email v) \<noteq> al_lower lib (TrimSpace email)) (ad_users db)\<rparr> \<longrightarrow>
      (\<exists>e sv'. Login lib env sv db ip email password = (Inl e, sv', db)
        \<and> Login lib env sv without ip email password = (Inl e, sv', without)))"
  using Login_correct_parts(1) [of lib env sv db ip email password] Login_correct_parts(2) [of db lib email password sv b without env ip]
  by blast

section \<open>Concrete runs\<close>

definition demo_auth_lib :: auth_lib where
  "demo_auth_lib = \<lparr>al_lower = (\<lambda>s. s), al_CreateHash = (\<lambda>salt p. salt @ p), al_Compare = (\<lambda>p h. Some (h = ''h'' @ p)),
     al_Sum256 = (\<lambda>s. s), al_ParseAddress = Some, al_LoadLocation = (\<lambda>_. True), al_ParseURL = (\<lambda>s. Some (''https'', s)),
     al_ToLower = (\<lambda>s. s), al_EqualFold = (=), al_uuid = demo_uuid_text\<rparr>"

definition demo_auth_env :: auth_env where
  "demo_auth_env = \<lparr>en_clock = (\<lambda>_. Second), en_dbnow = (\<lambda>_. Second), en_random = Some ''abc'', en_salt = Some ''h'',
     en_newID = 2, en_noteTypeID = of_nat, en_noteTypeIDs = (\<lambda>_. \<lparr>ni_field = of_nat, ni_template = of_nat, ni_card = (\<lambda>n _. n)\<rparr>),
     en_others = (\<lambda>_ d. d)\<rparr>"

definition demo_service :: auth_service where
  "demo_service = \<lparr>sv_dummyHash = ''hdummy'', sv_origins = None, sv_signupMode = ''open'', sv_loginIP = newLimiter 20 Hour,
     sv_loginEmail = newLimiter 5 Hour, sv_signupIP = newLimiter 5 Hour, sv_changePassword = newLimiter 5 Hour,
     sv_resetPassword = newLimiter 10 Hour\<rparr>"

definition empty_auth_db :: auth_db where
  "empty_auth_db = \<lparr>ad_users = [], ad_sessions = [], ad_resets = [], ad_blobs = [], ad_content = empty_content,
     ad_refuses = (\<lambda>_. False)\<rparr>"

definition demo_user :: user where
  "demo_user = new_user 1 0 ''a@b'' ''hpassword1'' ''A'' ''1''"

definition demo_auth_db :: auth_db where
  "demo_auth_db = empty_auth_db\<lparr>ad_users := [demo_user],
     ad_sessions := [\<lparr>ss_ID = ''old'', ss_UserID = 1, ss_ExpiresAt = Day, ss_CreatedAt = 0\<rparr>]\<rparr>"

lemmas demo_auth_defs = demo_auth_lib_def demo_auth_env_def demo_service_def empty_auth_db_def demo_user_def new_user_def
  demo_auth_db_def

lemma demo_others_ok: "others_ok demo_auth_lib demo_auth_env"
  by (simp add: others_ok_def demo_auth_env_def some_run.frame_refl)

lemma demo_Allow: "0 < n \<Longrightarrow> fst (Allow (newLimiter n w) t k) = (True, 0)"
  by (simp add: Allow_def current_bucket_def newLimiter_def Let_def wrap_def)

lemma demo_validate: "validatePassword ''password2'' = None" "validatePassword ''password1'' = None"
  by (simp_all add: validatePassword_def)

lemma password_change_revokes_witness:
  "\<exists>token sv1 db1 u cs. ChangePassword demo_auth_lib demo_auth_env demo_service demo_auth_db 1 ''hpassword1'' ''password1'' ''password2''
       = (Inr token, sv1, db1)
     \<and> Middleware demo_auth_lib demo_auth_env demo_service db1
         \<lparr>rq_Method = ''GET'', rq_Origin = [], rq_Host = [], rq_Cookie = Some token\<rparr> = (Next (Some u) cs, db1)
     \<and> hashToken demo_auth_lib token \<in> set [hashToken demo_auth_lib token]"
proof -
  let ?r = "\<lambda>token. \<lparr>rq_Method = ''GET'', rq_Origin = [], rq_Host = [], rq_Cookie = Some token\<rparr>"
  define token where "token = b64_EncodeToString ''abc''"
  obtain sv1 db1 where c: "ChangePassword demo_auth_lib demo_auth_env demo_service demo_auth_db 1 ''hpassword1'' ''password1'' ''password2''
      = (Inr token, sv1, db1)"
    and d: "ad_users db1 = [demo_user\<lparr>us_PasswordHash := ''hpassword2''\<rparr>]" "ad_refuses db1 = (\<lambda>_. False)"
      "ad_sessions db1 = [\<lparr>ss_ID = hashToken demo_auth_lib token, ss_UserID = 1,
         ss_ExpiresAt = pg_timestamp (Second + SessionLifetime), ss_CreatedAt = Second\<rparr>]"
    by (simp add: ChangePassword_def change_tx_def demo_validate demo_Allow Let_def split_beta stmt_defs
      createSession_def newToken_def token_def demo_auth_defs run_a_def map_rows_def user_exists_def bindE_def)
  have m: "Middleware demo_auth_lib demo_auth_env demo_service db1 (?r token)
      = (Next (Some (demo_user\<lparr>us_PasswordHash := ''hpassword2''\<rparr>)) [], db1)"
    by (simp add: Middleware_def isStateChanging_def GetSessionUser_def run_a_def one_a_def d bindE_def demo_auth_env_def
      demo_user_def new_user_def pg_timestamp_def time_Truncate_def time_Sub_def SessionLifetime_def RenewThreshold_def
      duration_defs int_bounds)
  have "us_ID (demo_user\<lparr>us_PasswordHash := ''hpassword2''\<rparr>) = 1" by (simp add: demo_user_def new_user_def)
  with password_change_revokes [OF c run_nil] m have "hashToken demo_auth_lib token \<in> set [hashToken demo_auth_lib token]"
    by fastforce
  with c m show ?thesis by blast
qed

lemma reset_link_single_use_witness:
  "\<exists>db token sv1 db1 e sv3. reaches auth_init (auth_step demo_auth_lib) db
     \<and> ResetPassword demo_auth_lib demo_auth_env demo_service db ''ip'' ''link'' ''password2'' = (Inr token, sv1, db1)
     \<and> ResetPassword demo_auth_lib demo_auth_env demo_service db1 ''ip'' ''link'' ''password1'' = (Inl e, sv3, db1)"
proof -
  let ?L = demo_auth_lib
  let ?db1 = "empty_auth_db\<lparr>ad_users := [demo_user]\<rparr>"
  let ?db2 = "?db1\<lparr>ad_resets := [\<lparr>rt_ID = hashToken ?L ''link'', rt_UserID = 1,
    rt_ExpiresAt = pg_timestamp (Second + PasswordResetLifetime), rt_CreatedAt = Second\<rparr>]\<rparr>"
  have 0: "auth_init empty_auth_db" by (simp add: auth_init_def empty_auth_db_def)
  have "CreateUser (al_lower ?L) empty_auth_db 1 0 ''a@b'' ''hpassword1'' ''A'' ''1'' = Inr (demo_user, ?db1)"
    by (simp add: CreateUser_def run_a_def demo_user_def empty_auth_db_def Let_def)
  then have 1: "auth_step ?L empty_auth_db ?db1" unfolding auth_step_def by (blast intro: act_user)
  have "issue_tx ?L demo_auth_env ?db1 1 ''link'' = Inr ?db2"
    by (simp add: issue_tx_def stmt_defs run_a_def user_exists_def demo_auth_defs)
  then have 2: "auth_step ?L ?db1 ?db2" unfolding auth_step_def by (blast intro: act_issue)
  from 0 1 2 have reach: "reaches auth_init (auth_step ?L) ?db2" by (blast intro: reaches_init reaches_step)
  obtain token sv1 db1 where r: "ResetPassword ?L demo_auth_env demo_service ?db2 ''ip'' ''link'' ''password2'' = (Inr token, sv1, db1)"
    by (simp add: ResetPassword_def reset_tx_def demo_validate demo_Allow Let_def split_beta stmt_defs PasswordResetValid_def
      GetPasswordResetToken_def one_a_def createSession_def newToken_def demo_auth_defs run_a_def map_rows_def user_exists_def
      bindE_def pg_timestamp_def time_Truncate_def PasswordResetLifetime_def duration_defs)
  have "\<exists>e sv3. ResetPassword ?L demo_auth_env demo_service db1 ''ip'' ''link'' ''password1'' = (Inl e, sv3, db1)"
    using reset_link_single_use [OF reach demo_others_ok r run_nil] by simp
  with r reach show ?thesis by blast
qed

lemma Login_correct_witness:
  "(\<exists>token sv' db'. Login demo_auth_lib demo_auth_env demo_service (demo_auth_db\<lparr>ad_sessions := []\<rparr>) ''ip'' ''a@b'' ''password1''
        = (Inr (demo_user, token), sv', db')
      \<and> (\<exists>s\<in>set (ad_sessions db'). ss_ID s = hashToken demo_auth_lib token \<and> ss_UserID s = 1))
   \<and> (\<exists>e sv'. Login demo_auth_lib demo_auth_env demo_service demo_auth_db ''ip'' ''a@b'' ''password2'' = (Inl e, sv', demo_auth_db)
      \<and> Login demo_auth_lib demo_auth_env demo_service (demo_auth_db\<lparr>ad_users := []\<rparr>) ''ip'' ''a@b'' ''password2''
        = (Inl e, sv', demo_auth_db\<lparr>ad_users := []\<rparr>))"
proof
  have trim: "TrimSpace ''a@b'' = ''a@b''" by (rule TrimSpace_id) (simp_all add: space_start_def space_end_def space_runes_def)
  obtain token sv' db' where l: "Login demo_auth_lib demo_auth_env demo_service (demo_auth_db\<lparr>ad_sessions := []\<rparr>) ''ip'' ''a@b'' ''password1''
        = (Inr (demo_user, token), sv', db')"
    by (simp add: Login_def trim validateEmail_def demo_validate demo_Allow Let_def split_beta GetUserByEmail_def run_a_def
      one_a_def createSession_def newToken_def CreateSession_def user_exists_def demo_auth_defs bindE_def)
  from Login_correct [where lib = demo_auth_lib and env = demo_auth_env and sv = demo_service and email = "''a@b''"
      and db = "demo_auth_db\<lparr>ad_sessions := []\<rparr>" and ip = "''ip''" and password = "''password1''"] l
  have "\<exists>s\<in>set (ad_sessions db'). ss_ID s = hashToken demo_auth_lib token \<and> ss_UserID s = us_ID demo_user" by blast
  with l show "\<exists>token sv' db'. Login demo_auth_lib demo_auth_env demo_service (demo_auth_db\<lparr>ad_sessions := []\<rparr>) ''ip'' ''a@b'' ''password1''
        = (Inr (demo_user, token), sv', db')
      \<and> (\<exists>s\<in>set (ad_sessions db'). ss_ID s = hashToken demo_auth_lib token \<and> ss_UserID s = 1)"
    by (auto simp: demo_user_def new_user_def)
  have "\<forall>v\<in>set (ad_users demo_auth_db). al_lower demo_auth_lib (us_Email v) = al_lower demo_auth_lib (TrimSpace ''a@b'') \<longrightarrow>
      al_Compare demo_auth_lib ''password2'' (us_PasswordHash v) = Some False"
    by (simp add: demo_auth_defs)
  with Login_correct [where lib = demo_auth_lib and db = demo_auth_db and sv = demo_service and b = False and env = demo_auth_env
      and ip = "''ip''" and email = "''a@b''" and password = "''password2''" and without = "demo_auth_db\<lparr>ad_users := []\<rparr>"]
  show "\<exists>e sv'. Login demo_auth_lib demo_auth_env demo_service demo_auth_db ''ip'' ''a@b'' ''password2'' = (Inl e, sv', demo_auth_db)
      \<and> Login demo_auth_lib demo_auth_env demo_service (demo_auth_db\<lparr>ad_users := []\<rparr>) ''ip'' ''a@b'' ''password2''
        = (Inl e, sv', demo_auth_db\<lparr>ad_users := []\<rparr>)"
    by (simp add: demo_auth_defs trim)
qed

end
