(* ===== verification/Http_Auth.thy ===== *)
theory Http_Auth
  imports Auth_Middleware Review_Params
begin

text \<open>
  The routes of \<open>internal/http/auth.go\<close> and the account routes of \<open>settings.go\<close>, with \<open>errors.go\<close> and the parts of
  \<open>respond.go\<close> they use. A handler maps the request to a response and the new state; a response is its status,
  the page or text, the data the page shows, and the headers and cookies set. A parsed form is its \<open>Get\<close>
  (the empty string for a field that is not there), \<open>None\<close> a body that does not parse. The avatar upload is
  left out (image decoding).
\<close>

section \<open>Responses\<close>

record response =
  rp_Status :: int
  rp_Page :: string
  rp_Text :: string
  rp_Data :: "(string \<times> string) list"
  rp_Location :: string
  rp_RetryAfter :: string
  rp_Cookies :: "cookie list"

definition text_response :: "int \<Rightarrow> string \<Rightarrow> response" where
  "text_response status t = \<lparr>rp_Status = status, rp_Page = [], rp_Text = t, rp_Data = [], rp_Location = [],
     rp_RetryAfter = [], rp_Cookies = []\<rparr>"

definition redirect :: "string \<Rightarrow> response" where
  "redirect loc = (text_response 303 [])\<lparr>rp_Location := loc\<rparr>"

definition page :: "string \<Rightarrow> int \<Rightarrow> (string \<times> string) list \<Rightarrow> response" where
  "page name status view = (text_response status [])\<lparr>rp_Page := name, rp_Data := view\<rparr>"

definition serverError :: response where "serverError = text_response 500 ''internal server error''"
definition badRequest :: response where "badRequest = text_response 400 ''bad request''"
definition notFound :: response where "notFound = text_response 404 ''not found''"

text \<open>
  \<open>int(d.Seconds())\<close> rounds towards zero; a limiter's wait is at most its window, an hour, where
  the \<open>float64\<close> holds every value exactly enough for that.
\<close>

definition formatRetryAfter :: "duration \<Rightarrow> string" where
  "formatRetryAfter d = (let secs = go_div d Second in Itoa (if secs < 1 then 1 else secs))"

text \<open>Status, message and \<open>Retry-After\<close> of an error the page may show; \<open>None\<close> is a bare 500.\<close>

definition classifyFormError :: "auth_error \<Rightarrow> (auth_error \<Rightarrow> (int \<times> string) option) \<Rightarrow> (int \<times> string \<times> string) option" where
  "classifyFormError err domain =
     (case domain err of
        Some (status, msg) \<Rightarrow> Some (status, msg, [])
      | None \<Rightarrow>
          (case err of
             ValidationError msg \<Rightarrow> Some (400, msg, [])
           | RateLimitError d \<Rightarrow> Some (429, ''Too many attempts. Try again later.'', formatRetryAfter d)
           | _ \<Rightarrow> None))"

text \<open>The answer to a failed form: the page again with the message, or a 500.\<close>

definition form_error :: "auth_error \<Rightarrow> (auth_error \<Rightarrow> (int \<times> string) option) \<Rightarrow> string \<Rightarrow> (string \<Rightarrow> (string \<times> string) list) \<Rightarrow> response" where
  "form_error err domain name view =
     (case classifyFormError err domain of
        None \<Rightarrow> serverError
      | Some (status, msg, retryAfter) \<Rightarrow> (page name status (view msg))\<lparr>rp_RetryAfter := retryAfter\<rparr>)"

type_synonym form = "(string \<Rightarrow> string) option"

section \<open>The routes of \<open>auth.go\<close>\<close>

definition get_signup :: "auth_service \<Rightarrow> user option \<Rightarrow> response" where
  "get_signup sv user = (if \<not> SignupOpen sv then notFound else if user \<noteq> None then redirect ''/decks'' else page ''signup'' 200 [])"

definition post_signup :: "auth_lib \<Rightarrow> string \<Rightarrow> auth_env \<Rightarrow> auth_service \<Rightarrow> auth_db \<Rightarrow> string \<Rightarrow> form
    \<Rightarrow> response \<times> auth_service \<times> auth_db" where
  "post_signup lib changelog env sv db ip form =
     (if \<not> SignupOpen sv then (text_response 403 ''forbidden'', sv, db)
      else case form of None \<Rightarrow> (badRequest, sv, db) | Some f \<Rightarrow>
      (case Signup lib changelog env sv db ip (f ''email'') (f ''password'') (f ''display_name'') of
         (Inl err, st) \<Rightarrow>
           (form_error err (\<lambda>e. if e = ErrEmailTaken then Some (409, ''That email is already registered'') else None) ''signup''
              (\<lambda>msg. [(''Email'', f ''email''), (''DisplayName'', f ''display_name''), (''Error'', msg)]), st)
       | (Inr (_, token), st) \<Rightarrow> ((redirect ''/decks'')\<lparr>rp_Cookies := [SetSessionCookie token]\<rparr>, st)))"

definition get_login :: "user option \<Rightarrow> response" where
  "get_login user = (if user \<noteq> None then redirect ''/decks'' else page ''login'' 200 [])"

definition post_login :: "auth_lib \<Rightarrow> auth_env \<Rightarrow> auth_service \<Rightarrow> auth_db \<Rightarrow> string \<Rightarrow> form \<Rightarrow> response \<times> auth_service \<times> auth_db" where
  "post_login lib env sv db ip form =
     (case form of None \<Rightarrow> (badRequest, sv, db) | Some f \<Rightarrow>
      (case Login lib env sv db ip (f ''email'') (f ''password'') of
         (Inl err, st) \<Rightarrow>
           (form_error err (\<lambda>e. if e = ErrInvalidCredentials then Some (401, ''Email or password is incorrect'') else None) ''login''
              (\<lambda>msg. [(''Email'', f ''email''), (''Error'', msg)]), st)
       | (Inr (_, token), st) \<Rightarrow> ((redirect ''/decks'')\<lparr>rp_Cookies := [SetSessionCookie token]\<rparr>, st)))"

definition get_reset_password :: "auth_lib \<Rightarrow> auth_env \<Rightarrow> auth_db \<Rightarrow> string \<Rightarrow> response" where
  "get_reset_password lib env db token =
     (case PasswordResetValid lib db (en_dbnow env 0) token of
        Inl _ \<Rightarrow> serverError
      | Inr False \<Rightarrow> page ''reset_password'' 200 [(''Invalid'', ''true'')]
      | Inr True \<Rightarrow> page ''reset_password'' 200 [(''Token'', token)])"

definition post_reset_password :: "auth_lib \<Rightarrow> auth_env \<Rightarrow> auth_service \<Rightarrow> auth_db \<Rightarrow> string \<Rightarrow> form
    \<Rightarrow> response \<times> auth_service \<times> auth_db" where
  "post_reset_password lib env sv db ip form =
     (case form of None \<Rightarrow> (badRequest, sv, db) | Some f \<Rightarrow>
      if f ''new_password'' \<noteq> f ''confirm_password''
      then (page ''reset_password'' 400 [(''Token'', f ''token''), (''Error'', ''Passwords do not match'')], sv, db)
      else (case ResetPassword lib env sv db ip (f ''token'') (f ''new_password'') of
         (Inl err, st) \<Rightarrow>
           (form_error err (\<lambda>e. if e = ErrInvalidResetToken
                then Some (400, ''This reset link is invalid, expired, or already used. Ask for a new one.'') else None)
              ''reset_password'' (\<lambda>msg. [(''Token'', f ''token''), (''Error'', msg)]), st)
       | (Inr token, st) \<Rightarrow> ((redirect ''/decks'')\<lparr>rp_Cookies := [SetSessionCookie token]\<rparr>, st)))"

definition post_logout :: "auth_lib \<Rightarrow> auth_db \<Rightarrow> user option \<Rightarrow> string option \<Rightarrow> response \<times> auth_db" where
  "post_logout lib db user cookie =
     RequireUser user (\<lambda>_.
       case Logout lib db (case cookie of None \<Rightarrow> [] | Some v \<Rightarrow> v) of
         Inl _ \<Rightarrow> (serverError, db)
       | Inr db' \<Rightarrow> ((redirect ''/login'')\<lparr>rp_Cookies := [ClearSessionCookie]\<rparr>, db'))
     (redirect ''/login'', db)"

definition get_root :: "user option \<Rightarrow> response" where
  "get_root user = (if user = None then redirect ''/login'' else redirect ''/decks'')"

section \<open>The routes of \<open>settings.go\<close>\<close>

definition colorSchemes :: "string list" where
  "colorSchemes = [''auto'', ''light'', ''dark'']"

definition accentOptions :: "(string \<times> string) list" where
  "accentOptions = [(''azure'', ''Azure (default)''), (''blue'', ''Blue''), (''indigo'', ''Indigo''), (''purple'', ''Purple''),
     (''pink'', ''Pink''), (''red'', ''Red''), (''orange'', ''Orange''), (''green'', ''Green'')]"

definition validAccent :: "string \<Rightarrow> bool" where
  "validAccent v \<longleftrightarrow> list_ex (\<lambda>a. fst a = v) accentOptions"

text \<open>A user's row of \<open>user_fsrs_params\<close> without a deck; at most one, by \<open>user_fsrs_params_user_id_global_key\<close>.\<close>

definition global_params :: "auth_db \<Rightarrow> uuid \<Rightarrow> user_fsrs_params option" where
  "global_params db userID = find (\<lambda>p. fp_UserID p = userID \<and> fp_DeckID p = None) (cd_params (ad_content db))"

definition GetGlobalFsrsRetention :: "auth_db \<Rightarrow> uuid \<Rightarrow> store_error + float64" where
  "GetGlobalFsrsRetention db userID =
     bindE (run_a db ''GetGlobalFsrsRetention'' (map_option fp_DesiredRetention (global_params db userID))) one_a"

definition UpsertGlobalFsrsRetention :: "auth_db \<Rightarrow> uuid \<Rightarrow> int \<Rightarrow> float64 \<Rightarrow> store_error + auth_db" where
  "UpsertGlobalFsrsRetention db userID version retention =
     bindE (run_a db ''UpsertGlobalFsrsRetention'' ()) (\<lambda>_.
       if \<not> (flt_lt flt_zero retention \<and> flt_lt retention flt_one)
       then Inl (SCheck ''user_fsrs_params_desired_retention_check'')
       else let c = ad_content db in
         if global_params db userID \<noteq> None
         then Inr (db\<lparr>ad_content := c\<lparr>cd_params := map_rows (\<lambda>p. fp_UserID p = userID \<and> fp_DeckID p = None)
                (\<lambda>p. p\<lparr>fp_FsrsVersion := version, fp_DesiredRetention := retention\<rparr>) (cd_params c)\<rparr>\<rparr>)
         else if \<not> user_exists db userID then Inl (SForeignKey ''user_fsrs_params_user_id_fkey'')
         else Inr (db\<lparr>ad_content := c\<lparr>cd_params := cd_params c @
                [\<lparr>fp_UserID = userID, fp_DeckID = None, fp_FsrsVersion = version, fp_Params = Some [],
                  fp_DesiredRetention = retention\<rparr>]\<rparr>\<rparr>))"

definition currentRetention :: "auth_db \<Rightarrow> uuid \<Rightarrow> store_error + float64" where
  "currentRetention db userID =
     (case GetGlobalFsrsRetention db userID of
        Inl SNoRows \<Rightarrow> Inr DefaultDesiredRetention | Inl e \<Rightarrow> Inl e | Inr r \<Rightarrow> Inr r)"

text \<open>The view: the account as it is to be shown, and the message of one section of the page.\<close>

record settingsView =
  vw_User :: user
  vw_Accents :: "(string \<times> string) list"
  vw_Version :: string
  vw_DesiredRetention :: float64
  vw_Message :: "(string \<times> string) option"

definition buildSettingsView :: "string \<Rightarrow> user \<Rightarrow> float64 \<Rightarrow> settingsView" where
  "buildSettingsView changelog user retention = \<lparr>vw_User = user, vw_Accents = accentOptions,
     vw_Version = Version changelog, vw_DesiredRetention = retention, vw_Message = None\<rparr>"

datatype settings_reply = Plain response | Settings int settingsView string "cookie list"

definition settings_msg :: "string \<Rightarrow> user \<Rightarrow> float64 \<Rightarrow> int \<Rightarrow> string \<Rightarrow> string \<Rightarrow> settings_reply" where
  "settings_msg changelog user retention status part msg =
     Settings status ((buildSettingsView changelog user retention)\<lparr>vw_Message := Some (part, msg)\<rparr>) [] []"

definition get_settings :: "string \<Rightarrow> auth_db \<Rightarrow> user option \<Rightarrow> settings_reply" where
  "get_settings changelog db user =
     RequireUser user (\<lambda>u.
       case currentRetention db (us_ID u) of
         Inl _ \<Rightarrow> Plain serverError
       | Inr retention \<Rightarrow> Settings 200 (buildSettingsView changelog u retention) [] [])
     (Plain (redirect ''/login''))"

definition post_settings :: "auth_lib \<Rightarrow> string \<Rightarrow> auth_db \<Rightarrow> user option \<Rightarrow> form \<Rightarrow> settings_reply \<times> auth_db" where
  "post_settings lib changelog db user form =
     RequireUser user (\<lambda>u0.
       case form of None \<Rightarrow> (Plain badRequest, db) | Some f \<Rightarrow>
       case currentRetention db (us_ID u0) of Inl _ \<Rightarrow> (Plain serverError, db) | Inr retention \<Rightarrow>
       let u1 = u0\<lparr>us_DisplayName := f ''display_name'', us_Timezone := f ''timezone''\<rparr>;
           hour = (case Atoi (f ''day_start_hour'') of None \<Rightarrow> None
                   | Some h \<Rightarrow> if in_range 16 h then Some h else None) in
       case hour of
         None \<Rightarrow> (settings_msg changelog u1 retention 400 ''ProfileError'' ''Day start hour must be a valid number'', db)
       | Some h \<Rightarrow>
           let u2 = u1\<lparr>us_DayStartHour := h\<rparr> in
           (case UpdateProfile lib db (us_ID u0) (f ''display_name'') (f ''timezone'') h of
              Inl err \<Rightarrow>
                (case classifyFormError err (\<lambda>_. None) of
                   None \<Rightarrow> (Plain serverError, db)
                 | Some (status, msg, _) \<Rightarrow> (settings_msg changelog u2 retention status ''ProfileError'' msg, db))
            | Inr db' \<Rightarrow> (settings_msg changelog u2 retention 200 ''ProfileSuccess'' ''Profile updated'', db')))
     (Plain (redirect ''/login''), db)"

definition post_settings_password :: "auth_lib \<Rightarrow> string \<Rightarrow> auth_env \<Rightarrow> auth_service \<Rightarrow> auth_db \<Rightarrow> user option \<Rightarrow> form
    \<Rightarrow> settings_reply \<times> auth_service \<times> auth_db" where
  "post_settings_password lib changelog env sv db user form =
     RequireUser user (\<lambda>u.
       case form of None \<Rightarrow> (Plain badRequest, sv, db) | Some f \<Rightarrow>
       case currentRetention db (us_ID u) of Inl _ \<Rightarrow> (Plain serverError, sv, db) | Inr retention \<Rightarrow>
       if f ''new_password'' \<noteq> f ''confirm_password''
       then (settings_msg changelog u retention 400 ''PasswordError'' ''Passwords do not match'', sv, db)
       else (case ChangePassword lib env sv db (us_ID u) (us_PasswordHash u) (f ''current_password'') (f ''new_password'') of
         (Inl err, st) \<Rightarrow>
           (case classifyFormError err (\<lambda>e. if e = ErrInvalidCredentials then Some (401, ''Current password is incorrect'') else None) of
              None \<Rightarrow> (Plain serverError, st)
            | Some (status, msg, retryAfter) \<Rightarrow>
                (Settings status ((buildSettingsView changelog u retention)\<lparr>vw_Message := Some (''PasswordError'', msg)\<rparr>) retryAfter [], st))
       | (Inr token, st) \<Rightarrow>
           (Settings 200 ((buildSettingsView changelog u retention)\<lparr>vw_Message := Some (''PasswordSuccess'', ''Password changed'')\<rparr>)
              [] [SetSessionCookie token], st)))
     (Plain (redirect ''/login''), sv, db)"

text \<open>\<open>strconv.ParseFloat\<close> is a parameter; on an error it still returns a number, which the page shows.\<close>

definition post_settings_fsrs :: "fsrs_lib \<Rightarrow> (string \<Rightarrow> float64 \<times> bool) \<Rightarrow> string \<Rightarrow> auth_db \<Rightarrow> user option \<Rightarrow> form
    \<Rightarrow> settings_reply \<times> auth_db" where
  "post_settings_fsrs lib parseFloat changelog db user form =
     RequireUser user (\<lambda>u.
       case form of None \<Rightarrow> (Plain badRequest, db) | Some f \<Rightarrow>
       let (retention, ok) = parseFloat (f ''desired_retention'') in
       if \<not> ok then (settings_msg changelog u retention 400 ''FsrsError'' ''Desired retention must be a number'', db)
       else (case NewDefaultParams lib retention of
         Inl _ \<Rightarrow> (settings_msg changelog u retention 400 ''FsrsError'' ''Desired retention must be between 0 and 1'', db)
       | Inr params \<Rightarrow>
           (case UpsertGlobalFsrsRetention db (us_ID u) (wrap 16 (par_version params)) retention of
              Inl _ \<Rightarrow> (Plain serverError, db)
            | Inr db' \<Rightarrow> (settings_msg changelog u retention 200 ''FsrsSuccess'' ''Retention target updated'', db'))))
     (Plain (redirect ''/login''), db)"

definition post_settings_appearance :: "string \<Rightarrow> auth_db \<Rightarrow> user option \<Rightarrow> form \<Rightarrow> settings_reply \<times> auth_db" where
  "post_settings_appearance changelog db user form =
     RequireUser user (\<lambda>u.
       case form of None \<Rightarrow> (Plain badRequest, db) | Some f \<Rightarrow>
       case currentRetention db (us_ID u) of Inl _ \<Rightarrow> (Plain serverError, db) | Inr retention \<Rightarrow>
       let scheme = f ''color_scheme''; accent = f ''accent'' in
       if scheme \<notin> set colorSchemes \<or> \<not> validAccent accent
       then (settings_msg changelog u retention 400 ''AppearanceError''
              ''Choose Light, Dark or Auto, and one of the listed accent colours'', db)
       else (case UpdateUserAppearance db (us_ID u) scheme accent of
         Inl _ \<Rightarrow> (Plain serverError, db)
       | Inr db' \<Rightarrow> (settings_msg changelog (u\<lparr>us_ColorScheme := scheme, us_Accent := accent\<rparr>) retention 200
              ''AppearanceSuccess'' ''Appearance updated'', db')))
     (Plain (redirect ''/login''), db)"

text \<open>What the form accepts as an appearance, the table accepts: only a refused statement makes a 500.\<close>

lemma appearance_matches_check:
  assumes "scheme \<in> set colorSchemes" "validAccent accent" "\<not> ad_refuses db ''UpdateUserAppearance''"
  shows "\<exists>db'. UpdateUserAppearance db userID scheme accent = Inr db'"
  using assms by (auto simp: UpdateUserAppearance_def colorSchemes_def validAccent_def accentOptions_def run_a_def)

text \<open>
  The retention form and the table disagree at 1: \<open>NewDefaultParams\<close> accepts it, the check constraint does
  not, so the answer is a 500 and not the form's message.
\<close>

lemma retention_one_server_error:
  assumes "NewDefaultParams lib flt_one = Inr params" "parseFloat (f ''desired_retention'') = (flt_one, True)"
  shows "post_settings_fsrs lib parseFloat changelog db (Some u) (Some f) = (Plain serverError, db)"
proof -
  have "\<not> flt_lt flt_one flt_one" by (simp add: flt_lt_def)
  with assms show ?thesis
    by (simp add: post_settings_fsrs_def RequireUser_def UpsertGlobalFsrsRetention_def run_a_def bindE_def)
qed

end
