(* ===== verification/Content_Statements.thy ===== *)
theory Content_Statements
  imports Note_Type_Edit
begin

text \<open>
  The statements the content pages run: the note list, the bulk edits and the suspend toggle of \<open>notes.sql.go\<close>,
  the flags of \<open>flags.sql.go\<close> and a deck's own retention in \<open>user_fsrs_params.sql.go\<close>. Tags are ordered by their
  bytes where a statement orders them by the database's collation.
\<close>

section \<open>Single notes\<close>

text \<open>The join \<open>deck_access da ON da.deck_id = n.deck_id\<close> of the authorising note queries.\<close>

definition note_with :: "content_db \<Rightarrow> uuid \<Rightarrow> uuid \<Rightarrow> (deck_access \<Rightarrow> bool) \<Rightarrow> (db_note \<times> deck_access) option" where
  "note_with db userID noteID permits =
     (case row_of n_ID noteID (cd_notes db) of
        None \<Rightarrow> None
      | Some n \<Rightarrow>
          (case access_of db (n_DeckID n) userID of
             None \<Rightarrow> None
           | Some a \<Rightarrow> if permits a then Some (n, a) else None))"

definition GetNoteForContentEdit :: "content_db \<Rightarrow> uuid \<Rightarrow> uuid \<Rightarrow> content_error + db_note \<times> bool" where
  "GetNoteForContentEdit db userID noteID =
     bindE (run_c db ''GetNoteForContentEdit'' (note_with db userID noteID (\<lambda>a. can_view a \<and> can_edit_content a)))
       (\<lambda>r. one_row (map_option (\<lambda>(n, a). (n, can_manage_access a)) r))"

definition GetNoteForNoteTypeChange :: "content_db \<Rightarrow> uuid \<Rightarrow> uuid \<Rightarrow> content_error + db_note" where
  "GetNoteForNoteTypeChange db userID noteID =
     bindE (run_c db ''GetNoteForNoteTypeChange''
         (note_with db userID noteID (\<lambda>a. can_view a \<and> can_edit_content a \<and> can_manage_access a)))
       (\<lambda>r. one_row (map_option fst r))"

text \<open>Deleting notes takes their cards with them, and what hangs on those.\<close>

definition delete_notes :: "(db_note \<Rightarrow> bool) \<Rightarrow> content_db \<Rightarrow> content_db" where
  "delete_notes p db =
     (let gone = n_ID ` set (filter p (cd_notes db))
      in (delete_cards (\<lambda>c. c_NoteID c \<in> gone) db)\<lparr>cd_notes := filter (\<lambda>n. \<not> p n) (cd_notes db)\<rparr>)"

definition DeleteNote :: "content_db \<Rightarrow> uuid \<Rightarrow> uuid \<Rightarrow> content_error + nat \<times> content_db" where
  "DeleteNote db noteID userID =
     (let p = (\<lambda>n. n_ID n = noteID \<and> may_edit_deck db userID (n_DeckID n))
      in run_c db ''DeleteNote'' (length (filter p (cd_notes db)), delete_notes p db))"

section \<open>Bulk edits\<close>

text \<open>The rows of every bulk statement: the selected notes of this deck, where the caller may edit content.\<close>

definition selected :: "content_db \<Rightarrow> uuid list \<Rightarrow> uuid \<Rightarrow> uuid \<Rightarrow> db_note \<Rightarrow> bool" where
  "selected db noteIds deckID userID n \<longleftrightarrow>
     n_ID n \<in> set noteIds \<and> n_DeckID n = deckID \<and> may_edit_deck db userID (n_DeckID n)"

definition update_notes :: "(db_note \<Rightarrow> bool) \<Rightarrow> (db_note \<Rightarrow> db_note) \<Rightarrow> content_db \<Rightarrow> nat \<times> content_db" where
  "update_notes p f db = (length (filter p (cd_notes db)), db\<lparr>cd_notes := map_rows p f (cd_notes db)\<rparr>)"

definition BulkDeleteNotes :: "content_db \<Rightarrow> uuid list \<Rightarrow> uuid \<Rightarrow> uuid \<Rightarrow> content_error + nat \<times> content_db" where
  "BulkDeleteNotes db noteIds deckID userID =
     (let p = selected db noteIds deckID userID
      in run_c db ''BulkDeleteNotes'' (length (filter p (cd_notes db)), delete_notes p db))"

definition merged_tags :: "string list \<Rightarrow> db_note \<Rightarrow> string list" where
  "merged_tags tags n = sort (remdups (n_Tags n @ tags))"

definition BulkAddNoteTags :: "content_db \<Rightarrow> gotime \<Rightarrow> string list \<Rightarrow> uuid list \<Rightarrow> uuid \<Rightarrow> uuid \<Rightarrow> int
    \<Rightarrow> content_error + nat \<times> content_db" where
  "BulkAddNoteTags db now tags noteIds deckID userID maxTags =
     (let p = (\<lambda>n. selected db noteIds deckID userID n \<and> int (length (merged_tags tags n)) \<le> maxTags)
      in bindE (run_c db ''BulkAddNoteTags'' ()) (\<lambda>_.
         if list_ex (\<lambda>n. p n \<and> merged_tags tags n = []) (cd_notes db) then Inl (NotNullViolation ''tags'')
         else Inr (update_notes p (\<lambda>n. n\<lparr>n_Tags := merged_tags tags n, n_ModifiedAt := pg_timestamp now\<rparr>) db)))"

definition BulkRemoveNoteTags :: "content_db \<Rightarrow> gotime \<Rightarrow> string list \<Rightarrow> uuid list \<Rightarrow> uuid \<Rightarrow> uuid
    \<Rightarrow> content_error + nat \<times> content_db" where
  "BulkRemoveNoteTags db now tags noteIds deckID userID =
     run_c db ''BulkRemoveNoteTags'' (update_notes (selected db noteIds deckID userID)
       (\<lambda>n. n\<lparr>n_Tags := filter (\<lambda>t. t \<notin> set tags) (n_Tags n), n_ModifiedAt := pg_timestamp now\<rparr>) db)"

text \<open>The check \<open>notes_release_day_range\<close> of migration 20.\<close>

definition BulkSetNoteReleaseDay :: "content_db \<Rightarrow> gotime \<Rightarrow> int \<Rightarrow> uuid list \<Rightarrow> uuid \<Rightarrow> uuid
    \<Rightarrow> content_error + nat \<times> content_db" where
  "BulkSetNoteReleaseDay db now releaseDay noteIds deckID userID =
     (let p = selected db noteIds deckID userID
      in bindE (run_c db ''BulkSetNoteReleaseDay'' ()) (\<lambda>_.
         if list_ex p (cd_notes db) \<and> \<not> (0 \<le> releaseDay \<and> releaseDay \<le> 999)
         then Inl (CRefused ''notes_release_day_range'')
         else Inr (update_notes p (\<lambda>n. n\<lparr>n_ReleaseDay := releaseDay, n_ModifiedAt := pg_timestamp now\<rparr>) db)))"

section \<open>Lists\<close>

definition CountNotesByReleaseDay :: "content_db \<Rightarrow> uuid \<Rightarrow> uuid \<Rightarrow> content_error + (int \<times> int) list" where
  "CountNotesByReleaseDay db userID deckID =
     (let days = (if may_see_deck db userID deckID
            then map n_ReleaseDay (filter (\<lambda>n. n_DeckID n = deckID) (cd_notes db)) else [])
      in run_c db ''CountNotesByReleaseDay''
           (map (\<lambda>d. (d, int (length (filter (\<lambda>e. e = d) days)))) (sort (remdups days))))"

record note_list_row =
  nr_ID :: uuid
  nr_SortText :: "string option"
  nr_Tags :: "string list"
  nr_ModifiedAt :: gotime
  nr_NoteTypeName :: string
  nr_ReleaseDay :: int
  nr_CardCount :: nat
  nr_SortKey :: int
  nr_AllSuspended :: bool

text \<open>\<open>fields ->> i\<close>: a negative index counts from the end, one past the end is \<open>NULL\<close>.\<close>

definition jsonb_text_at :: "string list \<Rightarrow> int \<Rightarrow> string option" where
  "jsonb_text_at flds i =
     (let k = (if i < 0 then int (length flds) + i else i)
      in if 0 \<le> k \<and> k < int (length flds) then Some (flds ! nat k) else None)"

definition suspended_for :: "content_db \<Rightarrow> uuid \<Rightarrow> note_card \<Rightarrow> bool" where
  "suspended_for db userID c =
     (case row_of us_key (userID, c_ID c) (cd_states db) of None \<Rightarrow> False | Some s \<Rightarrow> us_Suspended s)"

text \<open>
  \<open>deckshare_new_card_key(min(import_due_position))::bigint\<close>: the cast of a 32-bit integer to \<open>double precision\<close>
  and back is exact, so the key is the integer itself.
\<close>

definition note_sort_key :: "note_card list \<Rightarrow> int" where
  "note_sort_key cs = (let ps = List.map_filter c_ImportDuePosition cs in if ps = [] then max_position else Min (set ps))"

definition note_list_row_of :: "content_db \<Rightarrow> uuid \<Rightarrow> db_note \<Rightarrow> note_list_row option" where
  "note_list_row_of db userID n =
     (let cs = filter (\<lambda>c. c_NoteID c = n_ID n) (cd_cards db)
      in map_option (\<lambda>nt. \<lparr>nr_ID = n_ID n, nr_SortText = jsonb_text_at (n_Fields n) (nt_SortFieldIdx nt), nr_Tags = n_Tags n,
           nr_ModifiedAt = n_ModifiedAt n, nr_NoteTypeName = nt_Name nt, nr_ReleaseDay = n_ReleaseDay n,
           nr_CardCount = length cs, nr_SortKey = note_sort_key cs,
           nr_AllSuspended = (cs \<noteq> [] \<and> list_all (suspended_for db userID) cs)\<rparr>)
         (row_of nt_ID (n_NoteTypeID n) (cd_noteTypes db)))"

definition ListNotesInDeck :: "content_db \<Rightarrow> uuid \<Rightarrow> uuid \<Rightarrow> bool \<Rightarrow> int \<Rightarrow> pguuid \<Rightarrow> int \<Rightarrow> content_error + note_list_row list" where
  "ListNotesInDeck db userID deckID atStart cursorKey cursorID limitCount =
     bindE (run_c db ''ListNotesInDeck'' ()) (\<lambda>_.
     let rows = (if may_see_deck db userID deckID
           then List.map_filter (note_list_row_of db userID) (filter (\<lambda>n. n_DeckID n = deckID) (cd_notes db)) else []);
         after = (\<lambda>r. atStart \<or> nr_SortKey r > cursorKey
           \<or> nr_SortKey r = cursorKey \<and> (case cursorID of None \<Rightarrow> False | Some u \<Rightarrow> nr_ID r > u))
     in if limitCount < 0 then Inl (CRefused ''LIMIT must not be negative'')
        else Inr (take (nat limitCount) (sort_key (\<lambda>r. (nr_SortKey r, nr_ID r)) (filter after rows))))"

section \<open>Suspending a note's cards\<close>

definition suspend_row :: "content_db \<Rightarrow> gotime \<Rightarrow> uuid \<Rightarrow> bool \<Rightarrow> uuid \<Rightarrow> user_card_state" where
  "suspend_row db now userID suspend cardID =
     (case row_of us_key (userID, cardID) (cd_states db) of
        Some s \<Rightarrow> s\<lparr>us_Suspended := suspend\<rparr>
      | None \<Rightarrow> new_settings_row now userID cardID (Some suspend) None None)"

definition ToggleSuspendCardsForNote :: "content_db \<Rightarrow> gotime \<Rightarrow> uuid \<Rightarrow> uuid \<Rightarrow> uuid \<Rightarrow> content_error + nat \<times> content_db" where
  "ToggleSuspendCardsForNote db now userID noteID deckID =
     (let targets = (if (case access_of db deckID userID of None \<Rightarrow> False | Some a \<Rightarrow> can_view a \<and> can_study a)
            then filter (\<lambda>c. c_NoteID c = noteID \<and> c_DeckID c = deckID) (cd_cards db) else []);
          suspend = (\<not> list_all (suspended_for db userID) targets);
          rows = map (suspend_row db now userID suspend \<circ> c_ID) targets
      in run_c db ''ToggleSuspendCardsForNote''
           (length targets, db\<lparr>cd_states := foldl (\<lambda>t r. put_row us_key r t) (cd_states db) rows\<rparr>))"

section \<open>Flags\<close>

definition flagStatusOpen :: string where "flagStatusOpen = ''open''"
definition flagStatusResolved :: string where "flagStatusResolved = ''resolved''"

definition GetCardForFlag :: "content_db \<Rightarrow> uuid \<Rightarrow> uuid \<Rightarrow> uuid \<Rightarrow> content_error + uuid \<times> uuid" where
  "GetCardForFlag db userID cardID deckID =
     bindE (run_c db ''GetCardForFlag'' (row_of c_ID cardID (cd_cards db))) (\<lambda>r.
     case r of None \<Rightarrow> Inl ErrNoRows
     | Some c \<Rightarrow>
         if c_DeckID c = deckID
           \<and> (case access_of db (c_DeckID c) userID of None \<Rightarrow> False | Some a \<Rightarrow> can_view a \<and> can_study a)
         then Inr (c_ID c, c_DeckID c) else Inl ErrNoRows)"

definition GetDeckForFlags :: "content_db \<Rightarrow> uuid \<Rightarrow> uuid \<Rightarrow> content_error + deck \<times> bool" where
  "GetDeckForFlags db userID deckID =
     bindE (run_c db ''GetDeckForFlags'' (deck_with db deckID userID (\<lambda>a. can_view a \<and> can_view_flags a)))
       (\<lambda>r. one_row (map_option (\<lambda>(d, a). (d, can_edit_content a)) r))"

definition CountOpenFlagsForDeck :: "content_db \<Rightarrow> uuid \<Rightarrow> content_error + nat" where
  "CountOpenFlagsForDeck db deckID =
     run_c db ''CountOpenFlagsForDeck''
       (length (filter (\<lambda>f. cf_DeckID f = deckID \<and> cf_Status f = flagStatusOpen) (cd_flags db)))"

record flag_list_row =
  fr_ID :: uuid
  fr_Comment :: string
  fr_Status :: string
  fr_CreatedAt :: gotime
  fr_ResolvedAt :: "gotime option"
  fr_FlaggedByEmail :: string
  fr_FlaggedByDisplayName :: string
  fr_NoteID :: uuid
  fr_Label :: "string option"

definition may_view_flags :: "content_db \<Rightarrow> uuid \<Rightarrow> uuid \<Rightarrow> bool" where
  "may_view_flags db userID deckID =
     (case access_of db deckID userID of None \<Rightarrow> False | Some a \<Rightarrow> can_view a \<and> can_view_flags a)"

definition flag_list_row_of :: "content_db \<Rightarrow> card_flag \<Rightarrow> flag_list_row option" where
  "flag_list_row_of db f =
     (case (row_of u_ID (cf_FlaggedByUserID f) (cd_users db), row_of c_ID (cf_CardID f) (cd_cards db)) of
        (Some u, Some c) \<Rightarrow>
          map_option (\<lambda>n. \<lparr>fr_ID = cf_ID f, fr_Comment = cf_Comment f, fr_Status = cf_Status f, fr_CreatedAt = cf_CreatedAt f,
            fr_ResolvedAt = cf_ResolvedAt f, fr_FlaggedByEmail = u_Email u, fr_FlaggedByDisplayName = u_DisplayName u,
            fr_NoteID = n_ID n, fr_Label = jsonb_text_at (n_Fields n) 0\<rparr>) (row_of n_ID (c_NoteID c) (cd_notes db))
      | _ \<Rightarrow> None)"

definition ListFlagsForDeck :: "content_db \<Rightarrow> uuid \<Rightarrow> uuid \<Rightarrow> string \<Rightarrow> content_error + flag_list_row list" where
  "ListFlagsForDeck db userID deckID status =
     run_c db ''ListFlagsForDeck''
       (sort_key fr_CreatedAt (List.map_filter (flag_list_row_of db)
         (filter (\<lambda>f. cf_DeckID f = deckID \<and> cf_Status f = status \<and> may_view_flags db userID deckID) (cd_flags db))))"

definition ResolveCardFlag :: "content_db \<Rightarrow> gotime \<Rightarrow> uuid \<Rightarrow> uuid \<Rightarrow> uuid \<Rightarrow> content_error + nat \<times> content_db" where
  "ResolveCardFlag db now resolvedBy flagID deckID =
     (let p = (\<lambda>f. cf_ID f = flagID \<and> cf_DeckID f = deckID \<and> may_view_flags db resolvedBy deckID \<and> cf_Status f = flagStatusOpen)
      in run_c db ''ResolveCardFlag'' (length (filter p (cd_flags db)),
           db\<lparr>cd_flags := map_rows p (\<lambda>f. f\<lparr>cf_Status := flagStatusResolved, cf_ResolvedAt := Some (pg_timestamp now),
             cf_ResolvedByUserID := Some resolvedBy\<rparr>) (cd_flags db)\<rparr>))"

text \<open>\<open>ON CONFLICT (card_id, flagged_by_user_id) WHERE status = 'open'\<close>.\<close>

definition UpsertCardFlag :: "content_db \<Rightarrow> gotime \<Rightarrow> uuid \<Rightarrow> uuid \<Rightarrow> uuid \<Rightarrow> uuid \<Rightarrow> string \<Rightarrow> content_error + content_db" where
  "UpsertCardFlag db now newID cardID deckID flaggedBy comment =
     (let p = (\<lambda>f. cf_CardID f = cardID \<and> cf_FlaggedByUserID f = flaggedBy \<and> cf_Status f = flagStatusOpen)
      in bindE (run_c db ''UpsertCardFlag'' ()) (\<lambda>_.
         if list_ex p (cd_flags db)
         then Inr (db\<lparr>cd_flags := map_rows p (\<lambda>f. f\<lparr>cf_Comment := comment, cf_CreatedAt := pg_timestamp now\<rparr>) (cd_flags db)\<rparr>)
         else if row_of cf_ID newID (cd_flags db) \<noteq> None then Inl (UniqueViolation ''card_flags_pkey'')
         else if row_of c_ID cardID (cd_cards db) = None then Inl (FKViolation ''card_flags_card_id_fkey'')
         else if row_of dk_ID deckID (cd_decks db) = None then Inl (FKViolation ''card_flags_deck_id_fkey'')
         else Inr (db\<lparr>cd_flags := cd_flags db @ [\<lparr>cf_ID = newID, cf_CardID = cardID, cf_DeckID = deckID,
                cf_FlaggedByUserID = flaggedBy, cf_Comment = comment, cf_Status = flagStatusOpen,
                cf_CreatedAt = pg_timestamp now, cf_ResolvedAt = None, cf_ResolvedByUserID = None\<rparr>]\<rparr>)))"

section \<open>A deck's own retention\<close>

definition UpsertDeckFsrsRetention :: "content_db \<Rightarrow> uuid \<Rightarrow> uuid \<Rightarrow> int \<Rightarrow> float64 \<Rightarrow> content_error + nat \<times> content_db" where
  "UpsertDeckFsrsRetention db userID deckID version retention =
     (let p = (\<lambda>r. fp_UserID r = userID \<and> fp_DeckID r = Some deckID)
      in bindE (run_c db ''UpsertDeckFsrsRetention'' (access_of db deckID userID)) (\<lambda>a.
         if \<not> (case a of None \<Rightarrow> False | Some r \<Rightarrow> can_view r \<and> can_study r) then Inr (0, db)
         else if \<not> (flt_lt flt_zero retention \<and> flt_lt retention flt_one)
         then Inl (CRefused ''user_fsrs_params_desired_retention_check'')
         else if list_ex p (cd_params db)
         then Inr (1, db\<lparr>cd_params := map_rows p (\<lambda>r. r\<lparr>fp_FsrsVersion := version, fp_DesiredRetention := retention\<rparr>) (cd_params db)\<rparr>)
         else Inr (1, db\<lparr>cd_params := cd_params db @ [\<lparr>fp_UserID = userID, fp_DeckID = Some deckID, fp_FsrsVersion = version,
                fp_Params = Some [], fp_DesiredRetention = retention\<rparr>]\<rparr>)))"

end
