(* ===== verification/Deck_Settings.thy ===== *)
theory Deck_Settings
  imports Content_System Preset
begin

text \<open>
  The settings of a deck as they are stored: the \<open>jsonb\<close> operators of \<open>UpdateDeck\<close> (\<open>decks.sql.go\<close>), the merge of a
  patch into \<open>decks.preset\<close>, and the readers of \<open>review/preset.go\<close> on the result.
\<close>

section \<open>The \<open>jsonb\<close> operators\<close>

text \<open>The keys of an object are distinct, ordered by length and then by bytes.\<close>

definition jsonb_before :: "string \<Rightarrow> string \<Rightarrow> bool" where
  "jsonb_before a b \<longleftrightarrow> length a < length b \<or> length a = length b \<and> a < b"

definition obj_set :: "string \<Rightarrow> json \<Rightarrow> (string \<times> json) list \<Rightarrow> (string \<times> json) list" where
  "obj_set k v ms =
     (if k \<in> fst ` set ms then map (\<lambda>m. if fst m = k then (k, v) else m) ms
      else takeWhile (\<lambda>m. jsonb_before (fst m) k) ms @ (k, v) # dropWhile (\<lambda>m. jsonb_before (fst m) k) ms)"

definition obj_union :: "(string \<times> json) list \<Rightarrow> (string \<times> json) list \<Rightarrow> (string \<times> json) list" where
  "obj_union ms ns = foldl (\<lambda>acc m. obj_set (fst m) (snd m) acc) ms ns"

text \<open>\<open>||\<close>: the union of two objects, the right one winning; anything else is put into an array and appended.\<close>

definition jsonb_elements :: "json \<Rightarrow> json list" where
  "jsonb_elements j = (case j of JArr js \<Rightarrow> js | _ \<Rightarrow> [j])"

definition jsonb_concat :: "json \<Rightarrow> json \<Rightarrow> json" where
  "jsonb_concat a b =
     (case (a, b) of (JObj ms, JObj ns) \<Rightarrow> JObj (obj_union ms ns) | _ \<Rightarrow> JArr (jsonb_elements a @ jsonb_elements b))"

text \<open>\<open>-> key\<close>: the member of an object; \<open>None\<close> is SQL's \<open>NULL\<close>.\<close>

definition jsonb_get :: "json \<Rightarrow> string \<Rightarrow> json option" where
  "jsonb_get j k = (case j of JObj ms \<Rightarrow> map_of ms k | _ \<Rightarrow> None)"

text \<open>\<open>- text[]\<close>: the members with these keys go, in an array the strings; a scalar is refused.\<close>

definition jsonb_delete :: "json \<Rightarrow> string list \<Rightarrow> json option" where
  "jsonb_delete j ks =
     (case j of
        JObj ms \<Rightarrow> Some (JObj (filter (\<lambda>m. fst m \<notin> set ks) ms))
      | JArr js \<Rightarrow> Some (JArr (filter (\<lambda>x. x \<notin> JStr ` set ks) js))
      | _ \<Rightarrow> None)"

definition jsonb_build_object :: "string \<Rightarrow> json \<Rightarrow> json" where
  "jsonb_build_object k v = JObj [(k, v)]"

section \<open>The statement\<close>

record deck_patch =
  up_Name :: string
  up_Description :: string
  up_NewPerDay :: "int option"
  up_RevPerDay :: "int option"
  up_RevOrder :: "string option"
  up_Priority :: "string option"
  up_DueLookAheadMinutes :: "int option"
  up_Calendar :: "json option"
  up_ClearCalendar :: bool

definition or_empty :: "json option \<Rightarrow> json" where
  "or_empty j = (case j of None \<Rightarrow> JObj [] | Some x \<Rightarrow> x)"

definition int_member :: "string \<Rightarrow> int option \<Rightarrow> json" where
  "int_member k v = (case v of None \<Rightarrow> JObj [] | Some i \<Rightarrow> jsonb_build_object k (JNum (Itoa i)))"

definition text_member :: "string \<Rightarrow> string option \<Rightarrow> json" where
  "text_member k v = (case v of None \<Rightarrow> JObj [] | Some s \<Rightarrow> jsonb_build_object k (JStr s))"

definition patched_preset :: "json \<Rightarrow> deck_patch \<Rightarrow> json option" where
  "patched_preset preset up =
     (let new = (case up_NewPerDay up of
            None \<Rightarrow> preset
          | Some v \<Rightarrow> jsonb_concat preset (jsonb_build_object ''new''
              (jsonb_concat (or_empty (jsonb_get preset ''new'')) (jsonb_build_object ''perDay'' (JNum (Itoa v))))));
          rev = (if up_RevPerDay up = None \<and> up_RevOrder up = None then JObj []
            else jsonb_build_object ''rev''
              (jsonb_concat (jsonb_concat (or_empty (jsonb_get preset ''rev'')) (int_member ''perDay'' (up_RevPerDay up)))
                 (text_member ''order'' (up_RevOrder up))));
          due = (case up_DueLookAheadMinutes up of
            None \<Rightarrow> JObj []
          | Some v \<Rightarrow> jsonb_build_object ''due'' (jsonb_build_object ''lookAheadMinutes'' (JNum (Itoa v))));
          calendar = (case up_Calendar up of None \<Rightarrow> JObj [] | Some c \<Rightarrow> jsonb_build_object ''calendar'' c)
      in jsonb_delete (jsonb_concat (jsonb_concat (jsonb_concat (jsonb_concat new rev)
            (text_member ''priority'' (up_Priority up))) due) calendar)
           (if up_ClearCalendar up then [''calendar''] else []))"

definition UpdateDeck :: "content_db \<Rightarrow> gotime \<Rightarrow> deck_patch \<Rightarrow> uuid \<Rightarrow> uuid \<Rightarrow> content_error + nat \<times> content_db" where
  "UpdateDeck db now up deckID userID =
     bindE (run_c db ''UpdateDeck'' (deck_with db deckID userID (\<lambda>a. can_view a \<and> can_edit_settings a))) (\<lambda>r.
     case r of
       None \<Rightarrow> Inr (0, db)
     | Some (d, _) \<Rightarrow>
         (case patched_preset (dk_Preset d) up of
            None \<Rightarrow> Inl (CRefused ''cannot delete from scalar'')
          | Some preset \<Rightarrow>
              let rows = map_rows (\<lambda>x. dk_ID x = deckID)
                    (\<lambda>x. x\<lparr>dk_Name := up_Name up, dk_Description := up_Description up, dk_Preset := preset,
                           dk_ModifiedAt := pg_timestamp now\<rparr>) (cd_decks db)
              in if \<not> distinct (map (\<lambda>x. (dk_OwnerID x, dk_Name x)) rows)
                 then Inl (UniqueViolation ''decks_owner_id_name_key'')
                 else Inr (1, db\<lparr>cd_decks := rows\<rparr>)))"

text \<open>\<open>Calendar.JSON\<close>, as \<open>jsonb\<close> keeps it.\<close>

definition calendar_json :: "calendar \<Rightarrow> json" where
  "calendar_json c = (let w = calendar_wire c in
     JObj [(''skip'', JArr (map JStr (w_Skip w))), (''weekdays'', JArr (map (JNum \<circ> Itoa) (w_Weekdays w))),
       (''startDate'', JStr (w_StartDate w))])"

section \<open>The shape of a preset\<close>

text \<open>
  What \<open>decks.preset\<close> holds: it starts as the empty object and \<open>UpdateDeck\<close> is the only statement that
  writes it. An object of the given members, each of its own kind, without repetition.
\<close>

definition int_json :: "json \<Rightarrow> bool" where
  "int_json j \<longleftrightarrow> (case j of JNum l \<Rightarrow> ParseInt 32 l \<noteq> None | _ \<Rightarrow> False)"

definition str_json :: "json \<Rightarrow> bool" where
  "str_json j \<longleftrightarrow> (case j of JStr _ \<Rightarrow> True | _ \<Rightarrow> False)"

definition arr_json :: "(json \<Rightarrow> bool) \<Rightarrow> json \<Rightarrow> bool" where
  "arr_json p j \<longleftrightarrow> (case j of JArr js \<Rightarrow> list_all p js | _ \<Rightarrow> False)"

definition members_ok :: "(string \<times> (json \<Rightarrow> bool)) list \<Rightarrow> (string \<times> json) list \<Rightarrow> bool" where
  "members_ok spec ms \<longleftrightarrow> distinct (map fst ms)
     \<and> list_all (\<lambda>m. case map_of spec (fst m) of None \<Rightarrow> False | Some p \<Rightarrow> p (snd m)) ms"

definition obj_ok :: "(string \<times> (json \<Rightarrow> bool)) list \<Rightarrow> json \<Rightarrow> bool" where
  "obj_ok spec j \<longleftrightarrow> (case j of JObj ms \<Rightarrow> members_ok spec ms | _ \<Rightarrow> False)"

definition new_shape :: "(string \<times> (json \<Rightarrow> bool)) list" where
  "new_shape = [(''perDay'', int_json), (''mix'', str_json)]"

definition rev_shape :: "(string \<times> (json \<Rightarrow> bool)) list" where
  "rev_shape = [(''perDay'', int_json), (''order'', str_json)]"

definition due_shape :: "(string \<times> (json \<Rightarrow> bool)) list" where
  "due_shape = [(''lookAheadMinutes'', int_json)]"

definition calendar_shape :: "(string \<times> (json \<Rightarrow> bool)) list" where
  "calendar_shape = [(''startDate'', str_json), (''weekdays'', arr_json int_json), (''skip'', arr_json str_json)]"

definition preset_members :: "(string \<times> (json \<Rightarrow> bool)) list" where
  "preset_members = [(''new'', obj_ok new_shape), (''rev'', obj_ok rev_shape), (''priority'', str_json),
     (''due'', obj_ok due_shape), (''calendar'', obj_ok calendar_shape)]"

definition preset_shape :: "json \<Rightarrow> bool" where
  "preset_shape = obj_ok preset_members"

lemmas shape_defs = new_shape_def rev_shape_def due_shape_def calendar_shape_def preset_members_def

lemma members_ok_Nil [simp]: "members_ok spec []"
  by (simp add: members_ok_def)

lemma members_okD:
  assumes "members_ok spec ms" "map_of ms k = Some v"
  shows "\<exists>p. map_of spec k = Some p \<and> p v"
proof -
  from assms(2) have "(k, v) \<in> set ms" by (rule map_of_SomeD)
  with assms(1) have "case map_of spec (fst (k, v)) of None \<Rightarrow> False | Some p \<Rightarrow> p (snd (k, v))"
    unfolding members_ok_def list_all_iff by blast
  then show ?thesis by (simp split: option.splits)
qed

lemma obj_set_cases:
  obtains (old) "k \<in> fst ` set ms" "obj_set k v ms = map (\<lambda>m. if fst m = k then (k, v) else m) ms"
  | (fresh) a b where "k \<notin> fst ` set ms" "ms = a @ b" "obj_set k v ms = a @ (k, v) # b"
proof (cases "k \<in> fst ` set ms")
  case True
  then show ?thesis by (rule old) (simp add: obj_set_def True)
next
  case False
  then show ?thesis
    by (rule fresh [of "takeWhile (\<lambda>m. jsonb_before (fst m) k) ms" "dropWhile (\<lambda>m. jsonb_before (fst m) k) ms"])
      (simp_all add: obj_set_def False)
qed

lemma map_of_replace:
  "map_of (map (\<lambda>m. if fst m = k then (k, v) else m) ms) x
     = (if x = k then map_option (\<lambda>_. v) (map_of ms k) else map_of ms x)"
  by (induction ms) auto

lemma map_of_obj_set [simp]: "map_of (obj_set k v ms) = (map_of ms)(k \<mapsto> v)"
proof (cases rule: obj_set_cases [of k ms v])
  case old
  then obtain w where "map_of ms k = Some w" by (metis map_of_eq_None_iff not_None_eq)
  with old show ?thesis by (simp add: fun_eq_iff map_of_replace)
next
  case (fresh a b)
  then have "k \<notin> fst ` set a" by auto
  then have "map_of a k = None" by (simp add: map_of_eq_None_iff)
  with fresh show ?thesis by (auto simp: fun_eq_iff map_add_def split: option.split)
qed

lemma obj_set_distinct:
  assumes "distinct (map fst ms)"
  shows "distinct (map fst (obj_set k v ms))"
proof (cases rule: obj_set_cases [of k ms v])
  case old
  have "map fst (map (\<lambda>m. if fst m = k then (k, v) else m) ms) = map fst ms" by (induction ms) auto
  with old assms show ?thesis by metis
next
  case (fresh a b)
  with assms show ?thesis by auto
qed

lemma obj_set_members: "set (obj_set k v ms) \<subseteq> insert (k, v) (set ms)"
  by (cases rule: obj_set_cases [of k ms v]) auto

lemma members_ok_obj_set:
  "members_ok spec ms \<Longrightarrow> map_of spec k = Some p \<Longrightarrow> p v \<Longrightarrow> members_ok spec (obj_set k v ms)"
  using obj_set_members [of k v ms] by (fastforce simp: members_ok_def list_all_iff obj_set_distinct)

text \<open>The object operators, by their effect on the members.\<close>

lemma jsonb_concat_one: "jsonb_concat (JObj ms) (jsonb_build_object k v) = JObj (obj_set k v ms)"
  by (simp add: jsonb_concat_def jsonb_build_object_def obj_union_def)

lemma jsonb_concat_none: "jsonb_concat (JObj ms) (JObj []) = JObj ms"
  by (simp add: jsonb_concat_def obj_union_def)

lemma jsonb_concat_int:
  "jsonb_concat (JObj ms) (int_member k v) = JObj (case v of None \<Rightarrow> ms | Some i \<Rightarrow> obj_set k (JNum (Itoa i)) ms)"
  by (simp add: int_member_def jsonb_concat_one jsonb_concat_none split: option.split)

lemma jsonb_concat_text:
  "jsonb_concat (JObj ms) (text_member k v) = JObj (case v of None \<Rightarrow> ms | Some t \<Rightarrow> obj_set k (JStr t) ms)"
  by (simp add: text_member_def jsonb_concat_one jsonb_concat_none split: option.split)

section \<open>Reading a preset of this shape\<close>

text \<open>A struct is decoded member by member; each member goes to its own field.\<close>

lemma dec_struct_total:
  assumes "members_ok spec ms"
    and "\<And>k p v s. map_of spec k = Some p \<Longrightarrow> p v \<Longrightarrow> \<exists>d x. find_field decs k = Some d \<and> d v s = Inr x"
  shows "\<exists>x. dec_struct decs (JObj ms) s = Inr x"
  using assms(1)
proof (induction ms arbitrary: s)
  case (Cons m ms)
  then have "case map_of spec (fst m) of None \<Rightarrow> False | Some p \<Rightarrow> p (snd m)" and rest: "members_ok spec ms"
    by (simp_all add: members_ok_def)
  then obtain p where "map_of spec (fst m) = Some p" "p (snd m)" by (auto split: option.splits)
  from assms(2) [OF this, of s] obtain d t where "find_field decs (fst m) = Some d" "d (snd m) s = Inr t" by blast
  with Cons.IH [OF rest, of t] show ?case by (simp add: dec_struct_def)
qed (simp add: dec_struct_def)

lemma dec_struct_member:
  assumes "dec_struct decs (JObj ms) s = Inr x" and "members_ok spec ms"
    and frame: "\<And>k d v t t'. k \<in> fst ` set spec \<Longrightarrow> k \<noteq> k0 \<Longrightarrow> find_field decs k = Some d \<Longrightarrow> d v t = Inr t' \<Longrightarrow> g t' = g t"
    and hit: "\<And>v t t'. (case find_field decs k0 of None \<Rightarrow> Inr t | Some d \<Rightarrow> d v t) = Inr t' \<Longrightarrow> d0 v (g t) = Inr (g t')"
  shows "case map_of ms k0 of None \<Rightarrow> g x = g s | Some v \<Rightarrow> d0 v (g s) = Inr (g x)"
  using assms(1,2)
proof (induction ms arbitrary: s)
  case (Cons m ms)
  let ?st = "\<lambda>s m. case find_field decs (fst m) of None \<Rightarrow> Inr s | Some d \<Rightarrow> d (snd m) s"
  from Cons.prems(1) obtain t where t: "?st s m = Inr t" "dec_struct decs (JObj ms) t = Inr x"
    by (auto simp: dec_struct_def bindE_eq_Inr)
  from Cons.prems(2) have rest: "members_ok spec ms" and new: "fst m \<notin> fst ` set ms"
    and "map_of spec (fst m) \<noteq> None"
    by (auto simp: members_ok_def)
  then have k: "fst m \<in> fst ` set spec" by (metis map_of_eq_None_iff)
  note IH = Cons.IH [OF t(2) rest]
  show ?case
  proof (cases "fst m = k0")
    case True
    with new have "map_of ms k0 = None" by (simp add: map_of_eq_None_iff)
    with IH hit [where v = "snd m" and t = s and t' = t] t(1) True show ?thesis by (cases m) simp
  next
    case False
    have "g t = g s" using t(1) frame [OF k False] by (auto split: option.splits)
    with IH False show ?thesis by (cases m) (simp split: option.splits)
  qed
qed (simp add: dec_struct_def)

definition json_int :: "json \<Rightarrow> int" where
  "json_int j = (case j of JNum l \<Rightarrow> the (ParseInt 32 l) | _ \<Rightarrow> 0)"

definition json_str :: "json \<Rightarrow> string" where
  "json_str j = (case j of JStr s \<Rightarrow> s | _ \<Rightarrow> [])"

definition json_list :: "json \<Rightarrow> json list" where
  "json_list j = (case j of JArr js \<Rightarrow> js | _ \<Rightarrow> [])"

lemma dec_int32_shape: "int_json j \<Longrightarrow> dec_int32 j s = Inr (json_int j)"
  by (auto simp: int_json_def dec_int32_def json_int_def split: json.splits option.splits)

lemma dec_string_shape: "str_json j \<Longrightarrow> dec_string j s = Inr (json_str j)"
  by (auto simp: str_json_def dec_string_def json_str_def split: json.splits)

lemma dec_slice_shape:
  assumes "arr_json p j" "\<And>x. p x \<Longrightarrow> d x z = Inr (f x)"
  shows "dec_slice z d j s = Inr (map f (json_list j))"
proof -
  from assms(1) obtain js where j: "j = JArr js" "list_all p js" by (auto simp: arr_json_def split: json.splits)
  from j(2) have "mapE (\<lambda>x. d x z) js = Inr (map f js)" by (induction js) (simp_all add: assms(2))
  with j(1) show ?thesis by (simp add: dec_slice_def json_list_def)
qed

lemma shape_not_null: "int_json j \<Longrightarrow> j \<noteq> JNull" "str_json j \<Longrightarrow> j \<noteq> JNull" "obj_ok spec j \<Longrightarrow> j \<noteq> JNull"
  by (auto simp: int_json_def str_json_def obj_ok_def)

definition member2 :: "json \<Rightarrow> string \<Rightarrow> string \<Rightarrow> json option" where
  "member2 j a b = Option.bind (jsonb_get j a) (\<lambda>x. jsonb_get x b)"

text \<open>The pointer fields: absent is \<open>nil\<close>.\<close>

lemma dec_ptr_None: "j \<noteq> JNull \<Longrightarrow> d j z = Inr x \<Longrightarrow> dec_ptr z d j None = Inr (Some x)"
  by (simp add: dec_ptr_def)

lemma dec_ptr_int: "int_json j \<Longrightarrow> dec_ptr 0 dec_int32 j s = Inr (Some (json_int j))"
  by (simp add: dec_ptr_def shape_not_null dec_int32_shape)

lemma dec_ptr_string: "str_json j \<Longrightarrow> dec_ptr [] dec_string j s = Inr (Some (json_str j))"
  by (simp add: dec_ptr_def shape_not_null dec_string_shape)

lemma field_total: "d j (get s) = Inr v \<Longrightarrow> \<exists>x. field d get upd j s = Inr x"
  by (simp add: field_def)

lemma members_ok_get:
  assumes "members_ok spec ms" "map_of ms k = Some v" "map_of spec k = Some p"
  shows "p v"
  using members_okD [OF assms(1,2)] assms(3) by auto

lemmas find_defs = find_field_def field_def bindE_eq_Inr

lemma obj_okE:
  assumes "obj_ok spec j"
  obtains ms where "j = JObj ms" "members_ok spec ms"
  using assms by (auto simp: obj_ok_def split: json.splits)

lemma dec_new_total:
  assumes "members_ok new_shape ms"
  shows "\<exists>n. dec_new (JObj ms) s = Inr n"
  unfolding dec_new_def
  by (rule dec_struct_total [OF assms]) (auto simp: new_shape_def find_field_def field_def dec_ptr_int dec_ptr_string split: if_splits)

lemma dec_rev_total:
  assumes "members_ok rev_shape ms"
  shows "\<exists>n. dec_rev (JObj ms) s = Inr n"
  unfolding dec_rev_def
  by (rule dec_struct_total [OF assms]) (auto simp: rev_shape_def find_field_def field_def dec_ptr_int dec_ptr_string split: if_splits)

lemma dec_due_total:
  assumes "members_ok due_shape ms"
  shows "\<exists>n. dec_due (JObj ms) s = Inr n"
  unfolding dec_due_def
  by (rule dec_struct_total [OF assms]) (auto simp: due_shape_def find_field_def field_def dec_ptr_int split: if_splits)

lemma dec_calendar_total:
  assumes "members_ok calendar_shape ms"
  shows "\<exists>w. dec_calendar (JObj ms) s = Inr w"
  unfolding dec_calendar_def
  by (rule dec_struct_total [OF assms])
    (auto simp: calendar_shape_def find_field_def field_def dec_string_shape dec_slice_shape [OF _ dec_int32_shape]
      dec_slice_shape [OF _ dec_string_shape] split: if_splits)

lemma dec_ptr_total:
  assumes "obj_ok spec j" "\<And>ms s. members_ok spec ms \<Longrightarrow> \<exists>x. d (JObj ms) s = Inr x"
  shows "\<exists>x. dec_ptr z d j s = Inr x"
proof -
  from assms(1) obtain ms where j: "j = JObj ms" and "members_ok spec ms" by (rule obj_okE)
  with assms(2) obtain x where "d (JObj ms) (case s of None \<Rightarrow> z | Some x \<Rightarrow> x) = Inr x" by blast
  then show ?thesis by (simp add: dec_ptr_def j)
qed

lemma dec_new_shape:
  assumes "obj_ok new_shape j"
  shows "\<exists>n. dec_new j \<lparr>new_PerDay = None, new_Mix = None\<rparr> = Inr n
    \<and> new_PerDay n = map_option json_int (jsonb_get j ''perDay'') \<and> new_Mix n = map_option json_str (jsonb_get j ''mix'')"
proof -
  let ?z = "\<lparr>new_PerDay = None, new_Mix = None\<rparr>"
  from assms obtain ms where j: "j = JObj ms" and m: "members_ok new_shape ms" by (rule obj_okE)
  from dec_new_total [OF m] obtain n where n: "dec_new (JObj ms) ?z = Inr n" by blast
  have "case map_of ms ''perDay'' of None \<Rightarrow> new_PerDay n = new_PerDay ?z | Some v \<Rightarrow> dec_ptr 0 dec_int32 v (new_PerDay ?z) = Inr (new_PerDay n)"
    by (rule dec_struct_member [OF n [unfolded dec_new_def] m]) (auto simp: new_shape_def find_defs)
  moreover have "case map_of ms ''mix'' of None \<Rightarrow> new_Mix n = new_Mix ?z | Some v \<Rightarrow> dec_ptr [] dec_string v (new_Mix ?z) = Inr (new_Mix n)"
    by (rule dec_struct_member [OF n [unfolded dec_new_def] m]) (auto simp: new_shape_def find_defs)
  ultimately show ?thesis
    using n members_ok_get [OF m, of "''perDay''"] members_ok_get [OF m, of "''mix''"]
    by (auto simp: j jsonb_get_def new_shape_def dec_ptr_int dec_ptr_string split: option.splits)
qed

lemma dec_rev_shape:
  assumes "obj_ok rev_shape j"
  shows "\<exists>n. dec_rev j \<lparr>rev_PerDay = None, rev_Order = None\<rparr> = Inr n
    \<and> rev_PerDay n = map_option json_int (jsonb_get j ''perDay'') \<and> rev_Order n = map_option json_str (jsonb_get j ''order'')"
proof -
  let ?z = "\<lparr>rev_PerDay = None, rev_Order = None\<rparr>"
  from assms obtain ms where j: "j = JObj ms" and m: "members_ok rev_shape ms" by (rule obj_okE)
  from dec_rev_total [OF m] obtain n where n: "dec_rev (JObj ms) ?z = Inr n" by blast
  have "case map_of ms ''perDay'' of None \<Rightarrow> rev_PerDay n = rev_PerDay ?z | Some v \<Rightarrow> dec_ptr 0 dec_int32 v (rev_PerDay ?z) = Inr (rev_PerDay n)"
    by (rule dec_struct_member [OF n [unfolded dec_rev_def] m]) (auto simp: rev_shape_def find_defs)
  moreover have "case map_of ms ''order'' of None \<Rightarrow> rev_Order n = rev_Order ?z | Some v \<Rightarrow> dec_ptr [] dec_string v (rev_Order ?z) = Inr (rev_Order n)"
    by (rule dec_struct_member [OF n [unfolded dec_rev_def] m]) (auto simp: rev_shape_def find_defs)
  ultimately show ?thesis
    using n members_ok_get [OF m, of "''perDay''"] members_ok_get [OF m, of "''order''"]
    by (auto simp: j jsonb_get_def rev_shape_def dec_ptr_int dec_ptr_string split: option.splits)
qed

lemma dec_due_shape:
  assumes "obj_ok due_shape j"
  shows "\<exists>n. dec_due j \<lparr>due_LookAhead = None\<rparr> = Inr n \<and> due_LookAhead n = map_option json_int (jsonb_get j ''lookAheadMinutes'')"
proof -
  let ?z = "\<lparr>due_LookAhead = None\<rparr>"
  from assms obtain ms where j: "j = JObj ms" and m: "members_ok due_shape ms" by (rule obj_okE)
  from dec_due_total [OF m] obtain n where n: "dec_due (JObj ms) ?z = Inr n" by blast
  have "case map_of ms ''lookAheadMinutes'' of None \<Rightarrow> due_LookAhead n = due_LookAhead ?z
      | Some v \<Rightarrow> dec_ptr 0 dec_int32 v (due_LookAhead ?z) = Inr (due_LookAhead n)"
    by (rule dec_struct_member [OF n [unfolded dec_due_def] m]) (auto simp: due_shape_def find_defs)
  then show ?thesis
    using n members_ok_get [OF m, of "''lookAheadMinutes''"]
    by (auto simp: j jsonb_get_def due_shape_def dec_ptr_int split: option.splits)
qed

lemma parse_preset:
  assumes "preset_shape j"
  shows "\<exists>p. parseDeckPreset (Some j) = (p, True)
    \<and> (case jsonb_get j ''new'' of None \<Rightarrow> p_New p = None
       | Some v \<Rightarrow> dec_ptr \<lparr>new_PerDay = None, new_Mix = None\<rparr> dec_new v None = Inr (p_New p))
    \<and> (case jsonb_get j ''rev'' of None \<Rightarrow> p_Rev p = None
       | Some v \<Rightarrow> dec_ptr \<lparr>rev_PerDay = None, rev_Order = None\<rparr> dec_rev v None = Inr (p_Rev p))
    \<and> (case jsonb_get j ''priority'' of None \<Rightarrow> p_Priority p = None | Some v \<Rightarrow> dec_ptr [] dec_string v None = Inr (p_Priority p))
    \<and> (case jsonb_get j ''due'' of None \<Rightarrow> p_Due p = None
       | Some v \<Rightarrow> dec_ptr \<lparr>due_LookAhead = None\<rparr> dec_due v None = Inr (p_Due p))
    \<and> (case jsonb_get j ''calendar'' of None \<Rightarrow> p_Calendar p = None
       | Some v \<Rightarrow> dec_ptr \<lparr>w_StartDate = [], w_Weekdays = [], w_Skip = []\<rparr> dec_calendar v None = Inr (p_Calendar p))"
proof -
  from assms obtain ms where j: "j = JObj ms" and m: "members_ok preset_members ms"
    by (auto simp: preset_shape_def obj_ok_def split: json.splits)
  let ?n = "\<lparr>new_PerDay = None, new_Mix = None\<rparr>" and ?r = "\<lparr>rev_PerDay = None, rev_Order = None\<rparr>"
    and ?d = "\<lparr>due_LookAhead = None\<rparr>" and ?c = "\<lparr>w_StartDate = [], w_Weekdays = [], w_Skip = []\<rparr>"
  let ?F = "[(''new'', field (dec_ptr ?n dec_new) p_New p_New_update), (''rev'', field (dec_ptr ?r dec_rev) p_Rev p_Rev_update),
      (''priority'', field (dec_ptr [] dec_string) p_Priority p_Priority_update),
      (''due'', field (dec_ptr ?d dec_due) p_Due p_Due_update), (''calendar'', field (dec_ptr ?c dec_calendar) p_Calendar p_Calendar_update)]"
  have F: "find_field ?F ''new'' = Some (field (dec_ptr ?n dec_new) p_New p_New_update)"
    "find_field ?F ''rev'' = Some (field (dec_ptr ?r dec_rev) p_Rev p_Rev_update)"
    "find_field ?F ''priority'' = Some (field (dec_ptr [] dec_string) p_Priority p_Priority_update)"
    "find_field ?F ''due'' = Some (field (dec_ptr ?d dec_due) p_Due p_Due_update)"
    "find_field ?F ''calendar'' = Some (field (dec_ptr ?c dec_calendar) p_Calendar p_Calendar_update)"
    by (simp_all add: find_field_def)
  have "\<exists>p. dec_preset (JObj ms) zero_preset = Inr p"
    unfolding dec_preset_def
  proof (rule dec_struct_total [OF m])
    fix k q v and s :: deckPreset
    assume kq: "map_of preset_members k = Some q" "q v"
    have "obj_ok new_shape v \<Longrightarrow> \<exists>x. dec_ptr ?n dec_new v (p_New s) = Inr x" by (erule dec_ptr_total) (rule dec_new_total)
    moreover have "obj_ok rev_shape v \<Longrightarrow> \<exists>x. dec_ptr ?r dec_rev v (p_Rev s) = Inr x" by (erule dec_ptr_total) (rule dec_rev_total)
    moreover have "obj_ok due_shape v \<Longrightarrow> \<exists>x. dec_ptr ?d dec_due v (p_Due s) = Inr x" by (erule dec_ptr_total) (rule dec_due_total)
    moreover have "obj_ok calendar_shape v \<Longrightarrow> \<exists>x. dec_ptr ?c dec_calendar v (p_Calendar s) = Inr x"
      by (erule dec_ptr_total) (rule dec_calendar_total)
    ultimately show "\<exists>d x. find_field ?F k = Some d \<and> d v s = Inr x"
      using kq by (auto simp: preset_members_def F field_def dec_ptr_string split: if_splits)
  qed
  then obtain p where p: "dec_preset (JObj ms) zero_preset = Inr p" ..
  note M = dec_struct_member [OF p [unfolded dec_preset_def] m]
  have "case map_of ms ''new'' of None \<Rightarrow> p_New p = p_New zero_preset
      | Some v \<Rightarrow> dec_ptr ?n dec_new v (p_New zero_preset) = Inr (p_New p)"
    by (rule M) (auto simp: preset_members_def F field_def bindE_eq_Inr)
  moreover have "case map_of ms ''rev'' of None \<Rightarrow> p_Rev p = p_Rev zero_preset
      | Some v \<Rightarrow> dec_ptr ?r dec_rev v (p_Rev zero_preset) = Inr (p_Rev p)"
    by (rule M) (auto simp: preset_members_def F field_def bindE_eq_Inr)
  moreover have "case map_of ms ''priority'' of None \<Rightarrow> p_Priority p = p_Priority zero_preset
      | Some v \<Rightarrow> dec_ptr [] dec_string v (p_Priority zero_preset) = Inr (p_Priority p)"
    by (rule M) (auto simp: preset_members_def F field_def bindE_eq_Inr)
  moreover have "case map_of ms ''due'' of None \<Rightarrow> p_Due p = p_Due zero_preset
      | Some v \<Rightarrow> dec_ptr ?d dec_due v (p_Due zero_preset) = Inr (p_Due p)"
    by (rule M) (auto simp: preset_members_def F field_def bindE_eq_Inr)
  moreover have "case map_of ms ''calendar'' of None \<Rightarrow> p_Calendar p = p_Calendar zero_preset
      | Some v \<Rightarrow> dec_ptr ?c dec_calendar v (p_Calendar zero_preset) = Inr (p_Calendar p)"
    by (rule M) (auto simp: preset_members_def F field_def bindE_eq_Inr)
  ultimately show ?thesis
    using p by (simp add: j parseDeckPreset_def jsonb_get_def zero_preset_def cong: option.case_cong)
qed

section \<open>The readers\<close>

definition calendar_of :: "json \<Rightarrow> calendar" where
  "calendar_of j =
     (case dec_calendar j \<lparr>w_StartDate = [], w_Weekdays = [], w_Skip = []\<rparr> of
        Inl _ \<Rightarrow> no_calendar
      | Inr w \<Rightarrow> (case calendarFromWire w of Inl _ \<Rightarrow> no_calendar | Inr cal \<Rightarrow> cal))"

definition mix_priority :: "json option \<Rightarrow> Priority" where
  "mix_priority m =
     (case m of None \<Rightarrow> PriorityDue
      | Some v \<Rightarrow> if json_str v = ''beforeReviews'' then PriorityNew else if json_str v = ''mixed'' then PriorityMixed
          else PriorityDue)"

definition in_bounds :: "int \<Rightarrow> int \<Rightarrow> json option \<Rightarrow> int" where
  "in_bounds dflt bound m = (case m of None \<Rightarrow> dflt | Some v \<Rightarrow> if json_int v < 0 \<or> json_int v > bound then dflt else json_int v)"

lemma preset_member:
  assumes "preset_shape j" "jsonb_get j k = Some v" "map_of preset_members k = Some p"
  shows "p v"
proof -
  from assms(1) obtain ms where "j = JObj ms" "members_ok preset_members ms"
    unfolding preset_shape_def by (rule obj_okE)
  with members_ok_get [of preset_members ms k v p] assms(2,3) show ?thesis by (simp add: jsonb_get_def)
qed

lemma read_new:
  assumes "preset_shape j"
  shows "NewPerDay (Some j) = in_bounds DefaultNewPerDay MaxNewPerDay (member2 j ''new'' ''perDay'')"
    and "ParsePriority (Some j) = (case jsonb_get j ''priority'' of
       Some v \<Rightarrow> if Priority_Valid (json_str v) then json_str v else PriorityDue
     | None \<Rightarrow> mix_priority (member2 j ''new'' ''mix''))"
proof -
  from parse_preset [OF assms] obtain p where p: "parseDeckPreset (Some j) = (p, True)"
    and n: "case jsonb_get j ''new'' of None \<Rightarrow> p_New p = None
       | Some v \<Rightarrow> dec_ptr \<lparr>new_PerDay = None, new_Mix = None\<rparr> dec_new v None = Inr (p_New p)"
    and y: "case jsonb_get j ''priority'' of None \<Rightarrow> p_Priority p = None | Some v \<Rightarrow> dec_ptr [] dec_string v None = Inr (p_Priority p)"
    by blast
  have n': "case p_New p of
      None \<Rightarrow> member2 j ''new'' ''perDay'' = None \<and> member2 j ''new'' ''mix'' = None
    | Some x \<Rightarrow> new_PerDay x = map_option json_int (member2 j ''new'' ''perDay'')
        \<and> new_Mix x = map_option json_str (member2 j ''new'' ''mix'')"
  proof (cases "jsonb_get j ''new''")
    case None
    with n show ?thesis by (simp add: member2_def)
  next
    case (Some v)
    have o: "obj_ok new_shape v" by (rule preset_member [OF assms Some]) (simp add: preset_members_def)
    from dec_new_shape [OF this] n Some shape_not_null(3) [OF o] show ?thesis by (auto simp: dec_ptr_None member2_def split: option.splits)
  qed
  then show "NewPerDay (Some j) = in_bounds DefaultNewPerDay MaxNewPerDay (member2 j ''new'' ''perDay'')"
    by (auto simp: NewPerDay_def p preset_newPerDay_def in_bounds_def split: option.splits)
  have y': "p_Priority p = map_option json_str (jsonb_get j ''priority'')"
  proof (cases "jsonb_get j ''priority''")
    case (Some v)
    have "str_json v" by (rule preset_member [OF assms Some]) (simp add: preset_members_def)
    with y Some show ?thesis by (simp add: dec_ptr_string)
  qed (use y in simp)
  with n' show "ParsePriority (Some j) = (case jsonb_get j ''priority'' of
       Some v \<Rightarrow> if Priority_Valid (json_str v) then json_str v else PriorityDue
     | None \<Rightarrow> mix_priority (member2 j ''new'' ''mix''))"
    by (auto simp: ParsePriority_def p preset_priority_def mix_priority_def Priority_Valid_def split: option.splits)
qed

lemma read_rev:
  assumes "preset_shape j"
  shows "RevPerDay (Some j) = in_bounds DefaultRevPerDay MaxRevPerDay (member2 j ''rev'' ''perDay'')"
    and "ParseRevOrder (Some j) = (case member2 j ''rev'' ''order'' of
       Some v \<Rightarrow> if RevOrder_Valid (json_str v) then json_str v else RevOrderDue | None \<Rightarrow> RevOrderDue)"
proof -
  from parse_preset [OF assms] obtain p where p: "parseDeckPreset (Some j) = (p, True)"
    and n: "case jsonb_get j ''rev'' of None \<Rightarrow> p_Rev p = None
       | Some v \<Rightarrow> dec_ptr \<lparr>rev_PerDay = None, rev_Order = None\<rparr> dec_rev v None = Inr (p_Rev p)"
    by blast
  have n': "case p_Rev p of
      None \<Rightarrow> member2 j ''rev'' ''perDay'' = None \<and> member2 j ''rev'' ''order'' = None
    | Some x \<Rightarrow> rev_PerDay x = map_option json_int (member2 j ''rev'' ''perDay'')
        \<and> rev_Order x = map_option json_str (member2 j ''rev'' ''order'')"
  proof (cases "jsonb_get j ''rev''")
    case None
    with n show ?thesis by (simp add: member2_def)
  next
    case (Some v)
    have o: "obj_ok rev_shape v" by (rule preset_member [OF assms Some]) (simp add: preset_members_def)
    from dec_rev_shape [OF this] n Some shape_not_null(3) [OF o] show ?thesis by (auto simp: dec_ptr_None member2_def split: option.splits)
  qed
  then show "RevPerDay (Some j) = in_bounds DefaultRevPerDay MaxRevPerDay (member2 j ''rev'' ''perDay'')"
    by (auto simp: RevPerDay_def p preset_revPerDay_def in_bounds_def split: option.splits)
  from n' show "ParseRevOrder (Some j) = (case member2 j ''rev'' ''order'' of
       Some v \<Rightarrow> if RevOrder_Valid (json_str v) then json_str v else RevOrderDue | None \<Rightarrow> RevOrderDue)"
    by (auto simp: ParseRevOrder_def p preset_revOrder_def RevOrder_Valid_def split: option.splits)
qed

lemma read_due:
  assumes "preset_shape j"
  shows "DueLookAheadMinutes (Some j)
    = in_bounds DefaultDueLookAheadMinutes MaxDueLookAheadMinutes (member2 j ''due'' ''lookAheadMinutes'')"
    and "ParseCalendar (Some j) = (case jsonb_get j ''calendar'' of None \<Rightarrow> no_calendar | Some v \<Rightarrow> calendar_of v)"
proof -
  from parse_preset [OF assms] obtain p where p: "parseDeckPreset (Some j) = (p, True)"
    and n: "case jsonb_get j ''due'' of None \<Rightarrow> p_Due p = None
       | Some v \<Rightarrow> dec_ptr \<lparr>due_LookAhead = None\<rparr> dec_due v None = Inr (p_Due p)"
    and c: "case jsonb_get j ''calendar'' of None \<Rightarrow> p_Calendar p = None
       | Some v \<Rightarrow> dec_ptr \<lparr>w_StartDate = [], w_Weekdays = [], w_Skip = []\<rparr> dec_calendar v None = Inr (p_Calendar p)"
    by blast
  have n': "case p_Due p of None \<Rightarrow> member2 j ''due'' ''lookAheadMinutes'' = None
    | Some x \<Rightarrow> due_LookAhead x = map_option json_int (member2 j ''due'' ''lookAheadMinutes'')"
  proof (cases "jsonb_get j ''due''")
    case None
    with n show ?thesis by (simp add: member2_def)
  next
    case (Some v)
    have o: "obj_ok due_shape v" by (rule preset_member [OF assms Some]) (simp add: preset_members_def)
    from dec_due_shape [OF this] n Some shape_not_null(3) [OF o] show ?thesis by (auto simp: dec_ptr_None member2_def split: option.splits)
  qed
  then show "DueLookAheadMinutes (Some j)
    = in_bounds DefaultDueLookAheadMinutes MaxDueLookAheadMinutes (member2 j ''due'' ''lookAheadMinutes'')"
    by (auto simp: DueLookAheadMinutes_def p preset_dueLookAheadMinutes_def in_bounds_def split: option.splits)
  show "ParseCalendar (Some j) = (case jsonb_get j ''calendar'' of None \<Rightarrow> no_calendar | Some v \<Rightarrow> calendar_of v)"
  proof (cases "jsonb_get j ''calendar''")
    case None
    with c show ?thesis by (simp add: ParseCalendar_def p preset_calendar_def)
  next
    case (Some v)
    have o: "obj_ok calendar_shape v" by (rule preset_member [OF assms Some]) (simp add: preset_members_def)
    with c Some show ?thesis
      using shape_not_null(3) [OF o]
      by (cases "p_Calendar p") (auto simp: ParseCalendar_def p preset_calendar_def calendar_of_def dec_ptr_def bindE_eq_Inr)
  qed
qed

section \<open>The merge\<close>

definition opt_set :: "string \<Rightarrow> json option \<Rightarrow> (string \<times> json) list \<Rightarrow> (string \<times> json) list" where
  "opt_set k v ms = (case v of None \<Rightarrow> ms | Some x \<Rightarrow> obj_set k x ms)"

definition sub_members :: "json \<Rightarrow> string \<Rightarrow> (string \<times> json) list" where
  "sub_members j k = (case jsonb_get j k of Some (JObj ns) \<Rightarrow> ns | _ \<Rightarrow> [])"

definition new_part :: "json \<Rightarrow> deck_patch \<Rightarrow> json option" where
  "new_part j up = map_option (\<lambda>v. JObj (obj_set ''perDay'' (JNum (Itoa v)) (sub_members j ''new''))) (up_NewPerDay up)"

definition rev_part :: "json \<Rightarrow> deck_patch \<Rightarrow> json option" where
  "rev_part j up =
     (if up_RevPerDay up = None \<and> up_RevOrder up = None then None
      else Some (JObj (opt_set ''order'' (map_option JStr (up_RevOrder up))
        (opt_set ''perDay'' (map_option (JNum \<circ> Itoa) (up_RevPerDay up)) (sub_members j ''rev'')))))"

definition due_part :: "deck_patch \<Rightarrow> json option" where
  "due_part up = map_option (\<lambda>v. JObj [(''lookAheadMinutes'', JNum (Itoa v))]) (up_DueLookAheadMinutes up)"

definition merged :: "(string \<times> json) list \<Rightarrow> deck_patch \<Rightarrow> (string \<times> json) list" where
  "merged ms up =
     opt_set ''calendar'' (up_Calendar up) (opt_set ''due'' (due_part up)
       (opt_set ''priority'' (map_option JStr (up_Priority up))
         (opt_set ''rev'' (rev_part (JObj ms) up) (opt_set ''new'' (new_part (JObj ms) up) ms))))"

lemma or_empty_members:
  assumes "preset_shape j" "map_of preset_members k = Some (obj_ok spec)"
  shows "or_empty (jsonb_get j k) = JObj (sub_members j k)" "members_ok spec (sub_members j k)"
proof -
  have "or_empty (jsonb_get j k) = JObj (sub_members j k) \<and> members_ok spec (sub_members j k)"
  proof (cases "jsonb_get j k")
    case (Some v)
    from preset_member [OF assms(1) Some assms(2)] obtain ns where "v = JObj ns" "members_ok spec ns" by (rule obj_okE)
    with Some show ?thesis by (simp add: or_empty_def sub_members_def)
  qed (simp add: or_empty_def sub_members_def)
  then show "or_empty (jsonb_get j k) = JObj (sub_members j k)" "members_ok spec (sub_members j k)" by simp_all
qed

lemma jsonb_concat_opt: "jsonb_concat (JObj ms) (case v of None \<Rightarrow> JObj [] | Some x \<Rightarrow> jsonb_build_object k x) = JObj (opt_set k v ms)"
  by (simp add: opt_set_def jsonb_concat_one jsonb_concat_none split: option.split)

lemma patched_merged:
  assumes "preset_shape (JObj ms)"
  shows "patched_preset (JObj ms) up
    = Some (JObj (filter (\<lambda>m. up_ClearCalendar up \<longrightarrow> fst m \<noteq> ''calendar'') (merged ms up)))"
proof -
  note n = or_empty_members(1) [OF assms, of "''new''" new_shape, simplified preset_members_def, simplified]
  note r = or_empty_members(1) [OF assms, of "''rev''" rev_shape, simplified preset_members_def, simplified]
  have new: "(case up_NewPerDay up of None \<Rightarrow> JObj ms | Some v \<Rightarrow> jsonb_concat (JObj ms) (jsonb_build_object ''new''
       (jsonb_concat (or_empty (jsonb_get (JObj ms) ''new'')) (jsonb_build_object ''perDay'' (JNum (Itoa v))))))
     = JObj (opt_set ''new'' (new_part (JObj ms) up) ms)"
    by (simp add: n opt_set_def new_part_def jsonb_concat_one split: option.split)
  have rev: "(if up_RevPerDay up = None \<and> up_RevOrder up = None then JObj []
      else jsonb_build_object ''rev'' (jsonb_concat (jsonb_concat (or_empty (jsonb_get (JObj ms) ''rev''))
        (int_member ''perDay'' (up_RevPerDay up))) (text_member ''order'' (up_RevOrder up))))
     = (case rev_part (JObj ms) up of None \<Rightarrow> JObj [] | Some x \<Rightarrow> jsonb_build_object ''rev'' x)"
    by (auto simp: r rev_part_def opt_set_def jsonb_concat_int jsonb_concat_text split: option.split)
  have pri: "text_member ''priority'' (up_Priority up)
     = (case map_option JStr (up_Priority up) of None \<Rightarrow> JObj [] | Some x \<Rightarrow> jsonb_build_object ''priority'' x)"
    by (simp add: text_member_def split: option.split)
  have due: "(case up_DueLookAheadMinutes up of None \<Rightarrow> JObj []
      | Some v \<Rightarrow> jsonb_build_object ''due'' (jsonb_build_object ''lookAheadMinutes'' (JNum (Itoa v))))
     = (case due_part up of None \<Rightarrow> JObj [] | Some x \<Rightarrow> jsonb_build_object ''due'' x)"
    by (simp add: due_part_def jsonb_build_object_def split: option.split)
  show ?thesis
    unfolding patched_preset_def Let_def new rev pri due jsonb_concat_opt
    by (cases "up_ClearCalendar up") (simp_all add: merged_def jsonb_delete_def)
qed

lemma map_of_opt_set: "map_of (opt_set k v ms) x = (if x = k \<and> v \<noteq> None then v else map_of ms x)"
  by (auto simp: opt_set_def split: option.split)

lemma map_of_filter_key: "map_of (filter (\<lambda>m. P (fst m)) ms) k = (if P k then map_of ms k else None)"
  by (induction ms) auto

lemma members_ok_opt_set:
  assumes "members_ok spec ms" "map_of spec k = Some p" "\<And>x. v = Some x \<Longrightarrow> p x"
  shows "members_ok spec (opt_set k v ms)"
  using assms members_ok_obj_set [OF assms(1,2)] by (cases v) (auto simp: opt_set_def)

lemma members_ok_filter: "members_ok spec ms \<Longrightarrow> members_ok spec (filter P ms)"
  by (auto simp: members_ok_def list_all_iff distinct_map_filter)

lemma int_json_Itoa: "in_range 32 v \<Longrightarrow> int_json (JNum (Itoa v))" "in_range 32 v \<Longrightarrow> json_int (JNum (Itoa v)) = v"
  by (simp_all add: int_json_def json_int_def ParseInt_Itoa)

lemma calendar_json_shape:
  assumes "calendar_wf c"
  shows "obj_ok calendar_shape (calendar_json c)" "calendar_of (calendar_json c) = c"
proof -
  have d: "in_range 32 d" if "d \<in> set (Weekdays c)" for d
  proof -
    from that assms have "d \<in> {1..7}" by (auto simp: calendar_wf_def)
    then show ?thesis by (simp add: in_range_def)
  qed
  let ?w = "calendar_wire c"
  have days: "arr_json int_json (JArr (map (JNum \<circ> Itoa) (w_Weekdays ?w)))"
    using d by (simp add: arr_json_def list_all_iff calendar_wire_def int_json_Itoa)
  have skip: "arr_json str_json (JArr (map JStr (w_Skip ?w)))" by (simp add: arr_json_def list_all_iff str_json_def)
  from days skip show "obj_ok calendar_shape (calendar_json c)"
    by (simp add: obj_ok_def members_ok_def calendar_json_def calendar_shape_def Let_def str_json_def)
  have w: "map json_int (map (JNum \<circ> Itoa) (w_Weekdays ?w)) = w_Weekdays ?w"
    using d by (simp add: calendar_wire_def int_json_Itoa map_idI)
  have k: "map json_str (map JStr (w_Skip ?w)) = w_Skip ?w" by (simp add: map_idI json_str_def)
  have "dec_calendar (calendar_json c) \<lparr>w_StartDate = [], w_Weekdays = [], w_Skip = []\<rparr> = Inr ?w"
    unfolding calendar_json_def Let_def dec_calendar_def
    by (simp add: dec_struct_def find_field_def field_def dec_slice_shape [OF days dec_int32_shape]
        dec_slice_shape [OF skip dec_string_shape] json_list_def w k dec_string_def del: map_map)
  then show "calendar_of (calendar_json c) = c" by (simp add: calendar_of_def calendarFromWire_wire [OF assms])
qed

text \<open>The values of a patch: the numbers fit the column's \<open>int\<close>, the calendar is one that \<open>JSON\<close> wrote.\<close>

definition patch_ok :: "deck_patch \<Rightarrow> bool" where
  "patch_ok up \<longleftrightarrow> pred_option (in_range 32) (up_NewPerDay up) \<and> pred_option (in_range 32) (up_RevPerDay up)
     \<and> pred_option (in_range 32) (up_DueLookAheadMinutes up)"

lemma merged_shape:
  assumes "preset_shape (JObj ms)" "patch_ok up" "pred_option (obj_ok calendar_shape) (up_Calendar up)"
  shows "members_ok preset_members (merged ms up)"
proof -
  from assms(1) have m: "members_ok preset_members ms" by (simp add: preset_shape_def obj_ok_def)
  note n = or_empty_members(2) [OF assms(1), of "''new''" new_shape, simplified preset_members_def, simplified]
  note r = or_empty_members(2) [OF assms(1), of "''rev''" rev_shape, simplified preset_members_def, simplified]
  have "obj_ok new_shape x" if "new_part (JObj ms) up = Some x" for x
    using that assms(2) n
    by (auto simp: new_part_def obj_ok_def patch_ok_def int_json_Itoa new_shape_def intro!: members_ok_obj_set)
  moreover have "obj_ok rev_shape x" if "rev_part (JObj ms) up = Some x" for x
    using that assms(2) r
    by (auto simp: rev_part_def obj_ok_def patch_ok_def int_json_Itoa rev_shape_def str_json_def
        intro!: members_ok_opt_set split: if_splits)
  moreover have "obj_ok due_shape x" if "due_part up = Some x" for x
    using that assms(2) by (auto simp: due_part_def obj_ok_def members_ok_def due_shape_def patch_ok_def int_json_Itoa)
  moreover have "str_json x" if "map_option JStr (up_Priority up) = Some x" for x
    using that by (auto simp: str_json_def)
  moreover have "obj_ok calendar_shape x" if "up_Calendar up = Some x" for x
    using that assms(3) by simp
  ultimately show ?thesis
    unfolding merged_def
    by (intro members_ok_opt_set [where p = "obj_ok calendar_shape"] members_ok_opt_set [where p = "obj_ok due_shape"]
        members_ok_opt_set [where p = str_json] members_ok_opt_set [where p = "obj_ok rev_shape"]
        members_ok_opt_set [where p = "obj_ok new_shape"] m) (simp_all add: preset_members_def)
qed

text \<open>What a saved patch reads as.\<close>

definition saved :: "'a option \<Rightarrow> 'a \<Rightarrow> 'a" where
  "saved v old = (case v of None \<Rightarrow> old | Some x \<Rightarrow> x)"

definition saved_as :: "deck_patch \<Rightarrow> calendar option \<Rightarrow> json \<Rightarrow> json \<Rightarrow> bool" where
  "saved_as up cal j j' \<longleftrightarrow> preset_shape j'
     \<and> NewPerDay (Some j') = saved (up_NewPerDay up) (NewPerDay (Some j))
     \<and> RevPerDay (Some j') = saved (up_RevPerDay up) (RevPerDay (Some j))
     \<and> ParseRevOrder (Some j') = saved (up_RevOrder up) (ParseRevOrder (Some j))
     \<and> ParsePriority (Some j') = saved (up_Priority up) (ParsePriority (Some j))
     \<and> DueLookAheadMinutes (Some j') = saved (up_DueLookAheadMinutes up) (DueLookAheadMinutes (Some j))
     \<and> ParseCalendar (Some j') = (if up_ClearCalendar up then no_calendar else saved cal (ParseCalendar (Some j)))"

definition values_ok :: "deck_patch \<Rightarrow> bool" where
  "values_ok up \<longleftrightarrow> pred_option (\<lambda>v. 0 \<le> v \<and> v \<le> MaxNewPerDay) (up_NewPerDay up)
     \<and> pred_option (\<lambda>v. 0 \<le> v \<and> v \<le> MaxRevPerDay) (up_RevPerDay up)
     \<and> pred_option (\<lambda>v. 0 \<le> v \<and> v \<le> MaxDueLookAheadMinutes) (up_DueLookAheadMinutes up)
     \<and> pred_option RevOrder_Valid (up_RevOrder up) \<and> pred_option Priority_Valid (up_Priority up)"

lemma values_ok_patch: "values_ok up \<Longrightarrow> patch_ok up"
  by (cases "up_NewPerDay up"; cases "up_RevPerDay up"; cases "up_DueLookAheadMinutes up")
    (simp_all add: values_ok_def patch_ok_def preset_bounds in_range_def)

lemma merge_saved:
  assumes shape: "preset_shape j" and vals: "values_ok up"
    and cal: "up_Calendar up = map_option calendar_json cal" "pred_option calendar_wf cal"
  shows "\<exists>j'. patched_preset j up = Some j' \<and> saved_as up cal j j'"
proof -
  from shape obtain ms where j: "j = JObj ms" by (auto simp: preset_shape_def elim: obj_okE)
  note pm = shape [unfolded j]
  define ns where "ns = filter (\<lambda>m. up_ClearCalendar up \<longrightarrow> fst m \<noteq> ''calendar'') (merged ms up)"
  have ok: "patch_ok up" using vals by (rule values_ok_patch)
  have "pred_option (obj_ok calendar_shape) (up_Calendar up)"
    using cal calendar_json_shape by (cases cal) simp_all
  from merged_shape [OF pm ok this] have sh: "preset_shape (JObj ns)"
    by (simp add: preset_shape_def obj_ok_def ns_def members_ok_filter)
  have get: "map_of ns k = (if k = ''calendar'' \<and> up_ClearCalendar up then None
     else if k = ''calendar'' \<and> up_Calendar up \<noteq> None then up_Calendar up
     else if k = ''due'' \<and> due_part up \<noteq> None then due_part up
     else if k = ''priority'' \<and> up_Priority up \<noteq> None then map_option JStr (up_Priority up)
     else if k = ''rev'' \<and> rev_part (JObj ms) up \<noteq> None then rev_part (JObj ms) up
     else if k = ''new'' \<and> new_part (JObj ms) up \<noteq> None then new_part (JObj ms) up else map_of ms k)" for k
    by (simp add: ns_def map_of_filter_key [where P = "\<lambda>k. up_ClearCalendar up \<longrightarrow> k \<noteq> ''calendar''"] merged_def map_of_opt_set del: not_None_eq)
  have sub: "map_of (sub_members (JObj ms) a) b = member2 (JObj ms) a b" if "map_of preset_members a = Some (obj_ok spec)" for a b spec
    using preset_member [OF pm _ that]
    by (cases "jsonb_get (JObj ms) a") (auto simp: sub_members_def member2_def jsonb_get_def elim!: obj_okE)
  have new_sub: "map_of preset_members ''new'' = Some (obj_ok new_shape)" "map_of preset_members ''rev'' = Some (obj_ok rev_shape)"
    by (simp_all add: preset_members_def)
  note ss = sub [OF new_sub(1)] sub [OF new_sub(2)]
  have m2: "member2 (JObj ns) a b = Option.bind (map_of ns a) (\<lambda>x. jsonb_get x b)" for a b
    by (simp add: member2_def jsonb_get_def)
  have m2': "Option.bind (map_of ms a) (\<lambda>x. jsonb_get x b) = member2 (JObj ms) a b" for a b
    by (simp add: member2_def jsonb_get_def)
  have n1: "member2 (JObj ns) ''new'' ''perDay''
      = (case up_NewPerDay up of None \<Rightarrow> member2 (JObj ms) ''new'' ''perDay'' | Some v \<Rightarrow> Some (JNum (Itoa v)))"
    by (cases "up_NewPerDay up") (simp_all add: m2 m2' get new_part_def jsonb_get_def [of "JObj _"])
  have n2: "member2 (JObj ns) ''new'' ''mix'' = member2 (JObj ms) ''new'' ''mix''"
    by (cases "up_NewPerDay up") (simp_all add: m2 m2' get new_part_def jsonb_get_def [of "JObj _"] ss)
  have r1: "member2 (JObj ns) ''rev'' ''perDay''
      = (case up_RevPerDay up of None \<Rightarrow> member2 (JObj ms) ''rev'' ''perDay'' | Some v \<Rightarrow> Some (JNum (Itoa v)))"
    by (cases "up_RevPerDay up"; cases "up_RevOrder up")
      (simp_all add: m2 m2' get rev_part_def jsonb_get_def [of "JObj _"] map_of_opt_set ss)
  have r2: "member2 (JObj ns) ''rev'' ''order''
      = (case up_RevOrder up of None \<Rightarrow> member2 (JObj ms) ''rev'' ''order'' | Some v \<Rightarrow> Some (JStr v))"
    by (cases "up_RevPerDay up"; cases "up_RevOrder up")
      (simp_all add: m2 m2' get rev_part_def jsonb_get_def [of "JObj _"] map_of_opt_set ss)
  have d1: "member2 (JObj ns) ''due'' ''lookAheadMinutes'' = (case up_DueLookAheadMinutes up of
      None \<Rightarrow> member2 (JObj ms) ''due'' ''lookAheadMinutes'' | Some v \<Rightarrow> Some (JNum (Itoa v)))"
    by (cases "up_DueLookAheadMinutes up") (simp_all add: m2 m2' get due_part_def jsonb_get_def [of "JObj _"])
  have p1: "jsonb_get (JObj ns) ''priority'' = (case up_Priority up of None \<Rightarrow> jsonb_get (JObj ms) ''priority'' | Some v \<Rightarrow> Some (JStr v))"
    by (cases "up_Priority up") (simp_all add: jsonb_get_def get)
  have c1: "jsonb_get (JObj ns) ''calendar'' = (if up_ClearCalendar up then None
      else case up_Calendar up of None \<Rightarrow> jsonb_get (JObj ms) ''calendar'' | Some v \<Rightarrow> Some v)"
    by (cases "up_Calendar up") (simp_all add: jsonb_get_def get)
  have i: "in_bounds dflt b (case v of None \<Rightarrow> old | Some v \<Rightarrow> Some (JNum (Itoa v))) = saved v (in_bounds dflt b old)"
    if "pred_option (\<lambda>v. 0 \<le> v \<and> v \<le> b) v" "b \<le> 9999" for dflt b v old
    using that by (cases v) (simp_all add: saved_def in_bounds_def int_json_Itoa in_range_def)
  have "NewPerDay (Some (JObj ns)) = saved (up_NewPerDay up) (NewPerDay (Some j))"
    unfolding read_new(1) [OF sh] read_new(1) [OF pm] n1 j
    using vals by (intro i) (simp_all add: values_ok_def preset_bounds)
  moreover have "RevPerDay (Some (JObj ns)) = saved (up_RevPerDay up) (RevPerDay (Some j))"
    unfolding read_rev(1) [OF sh] read_rev(1) [OF pm] r1 j
    using vals by (intro i) (simp_all add: values_ok_def preset_bounds)
  moreover have "DueLookAheadMinutes (Some (JObj ns)) = saved (up_DueLookAheadMinutes up) (DueLookAheadMinutes (Some j))"
    unfolding read_due(1) [OF sh] read_due(1) [OF pm] d1 j
    using vals by (intro i) (simp_all add: values_ok_def preset_bounds)
  moreover have "ParseRevOrder (Some (JObj ns)) = saved (up_RevOrder up) (ParseRevOrder (Some j))"
    unfolding read_rev(2) [OF sh] read_rev(2) [OF pm] r2 j
    using vals by (cases "up_RevOrder up") (simp_all add: values_ok_def saved_def json_str_def)
  moreover have "ParsePriority (Some (JObj ns)) = saved (up_Priority up) (ParsePriority (Some j))"
    unfolding read_new(2) [OF sh] read_new(2) [OF pm] p1 n2 j
    using vals by (cases "up_Priority up") (simp_all add: values_ok_def saved_def json_str_def)
  moreover have "ParseCalendar (Some (JObj ns)) = (if up_ClearCalendar up then no_calendar else saved cal (ParseCalendar (Some j)))"
    unfolding read_due(2) [OF sh] read_due(2) [OF pm] c1 j
    using cal by (cases cal) (simp_all add: saved_def calendar_json_shape)
  ultimately have "saved_as up cal j (JObj ns)" using sh by (simp add: saved_as_def)
  moreover have "patched_preset j up = Some (JObj ns)" unfolding j ns_def by (rule patched_merged [OF pm])
  ultimately show ?thesis by blast
qed

text \<open>The statement, when it finds the deck and the right: only this deck changes, and it reads as saved.\<close>

lemma UpdateDeck_saves:
  assumes keys: "content_keys db" and run: "UpdateDeck db now up deckID userID = Inr (n, db')" "n \<noteq> 0"
    and d: "row_of dk_ID deckID (cd_decks db) = Some d" and shape: "preset_shape (dk_Preset d)" and vals: "values_ok up"
    and cal: "up_Calendar up = map_option calendar_json cal" "pred_option calendar_wf cal"
  shows "may db deckID userID can_edit_settings \<and> (\<exists>j'. saved_as up cal (dk_Preset d) j'
    \<and> db' = db\<lparr>cd_decks := map_rows (\<lambda>x. dk_ID x = deckID) (\<lambda>x. x\<lparr>dk_Name := up_Name up, dk_Description := up_Description up,
         dk_Preset := j', dk_ModifiedAt := pg_timestamp now\<rparr>) (cd_decks db)\<rparr>)"
proof -
  from run obtain e a where w: "deck_with db deckID userID (\<lambda>a. can_view a \<and> can_edit_settings a) = Some (e, a)"
    by (auto simp: UpdateDeck_def bindE_eq_Inr split: option.splits)
  then have "e = d" using d by (auto simp: deck_with_def split: option.splits if_splits)
  from merge_saved [OF shape vals cal] obtain j' where j': "patched_preset (dk_Preset d) up = Some j'" "saved_as up cal (dk_Preset d) j'"
    by blast
  have "may db deckID userID can_edit_settings"
    using deck_with_iff [OF keys, of deckID userID can_edit_settings] w by simp
  moreover have "db' = db\<lparr>cd_decks := map_rows (\<lambda>x. dk_ID x = deckID) (\<lambda>x. x\<lparr>dk_Name := up_Name up,
      dk_Description := up_Description up, dk_Preset := j', dk_ModifiedAt := pg_timestamp now\<rparr>) (cd_decks db)\<rparr>"
    using run w j'(1) by (auto simp: UpdateDeck_def bindE_eq_Inr \<open>e = d\<close> Let_def split: if_splits)
  ultimately show ?thesis using j'(2) by blast
qed

end
