(* ===== verification/Http_Content.thy ===== *)
theory Http_Content
  imports Http_Auth Content_Statements Deck_Settings Study_Queue Go_Base64
begin

text \<open>
  What the content routes of \<open>internal/http\<close> share: early returns (\<open>respond.go\<close>, \<open>pathparam.go\<close>, \<open>templates.go\<close>),
  transactions (\<open>startTx\<close>, \<open>commitTx\<close>), forms with several values per name, and the position in a deck's note
  list (\<open>notes.go\<close>). A handler's early return is the error of its result; the templates are not modelled, a page
  is its name, its status and what it shows.
\<close>

section \<open>Requests\<close>

record http_env =
  he_now :: gotime
  he_dbnow :: gotime
  he_zones :: pg_zones
  he_uuid :: uuid_text
  he_lib :: fsrs_lib
  he_parseFloat :: "string \<Rightarrow> float64 \<times> bool"
  he_sha1 :: "string \<Rightarrow> 8 word list"
  he_newID :: uuid
  he_newCard :: "int \<Rightarrow> uuid"
  he_newIds :: new_ids
  he_guid :: "string option"

type_synonym post_form = "(string \<Rightarrow> string list) option"

text \<open>\<open>url.Values.Get\<close>: the first value, or the empty string.\<close>

definition form_get :: "(string \<Rightarrow> string list) \<Rightarrow> string \<Rightarrow> string" where
  "form_get f k = (case f k of [] \<Rightarrow> [] | v # _ \<Rightarrow> v)"

datatype 'v reply = Http response | View string int 'v

section \<open>Early returns\<close>

definition notFoundPage :: response where "notFoundPage = page ''not_found'' 404 []"

definition handleQueryErr :: "content_error \<Rightarrow> response" where
  "handleQueryErr e = (if e = ErrNoRows then notFound else serverError)"

definition handleQueryErrPage :: "content_error \<Rightarrow> response" where
  "handleQueryErrPage e = (if e = ErrNoRows then notFoundPage else serverError)"

definition orServerError :: "content_error + 'a \<Rightarrow> response + 'a" where
  "orServerError m = liftE (\<lambda>_. serverError) m"

definition orNotFoundPage :: "content_error + 'a \<Rightarrow> response + 'a" where
  "orNotFoundPage m = liftE handleQueryErrPage m"

definition unlessE :: "bool \<Rightarrow> response \<Rightarrow> response + unit" where
  "unlessE bad r = (if bad then Inl r else Inr ())"

definition pathUUID :: "http_env \<Rightarrow> string \<Rightarrow> response + uuid" where
  "pathUUID E s = (case uu_Scan (he_uuid E) s of None \<Rightarrow> Inl notFoundPage | Some u \<Rightarrow> Inr u)"

definition parseForm :: "post_form \<Rightarrow> response + (string \<Rightarrow> string list)" where
  "parseForm form = (case form of None \<Rightarrow> Inl badRequest | Some f \<Rightarrow> Inr f)"

definition reply_of :: "response + 'v reply \<Rightarrow> 'v reply" where
  "reply_of m = (case m of Inl r \<Rightarrow> Http r | Inr v \<Rightarrow> v)"

text \<open>A route that writes: an early return leaves the database as it was.\<close>

definition finish :: "content_db \<Rightarrow> response + 'v reply \<times> content_db \<Rightarrow> 'v reply \<times> content_db" where
  "finish db m = (case m of Inl r \<Rightarrow> (Http r, db) | Inr x \<Rightarrow> x)"

definition signed_in :: "user option \<Rightarrow> (user \<Rightarrow> response + 'v reply) \<Rightarrow> 'v reply" where
  "signed_in user h = RequireUser user (\<lambda>u. reply_of (h u)) (Http (redirect ''/login''))"

definition signed_in_tx :: "content_db \<Rightarrow> user option \<Rightarrow> (user \<Rightarrow> response + 'v reply \<times> content_db) \<Rightarrow> 'v reply \<times> content_db" where
  "signed_in_tx db user h = RequireUser user (\<lambda>u. finish db (h u)) (Http (redirect ''/login''), db)"

section \<open>Transactions\<close>

text \<open>\<open>startTx\<close>, the body, \<open>commitTx\<close>; on any early return the deferred rollback runs.\<close>

definition in_tx :: "content_db \<Rightarrow> response + 'a \<times> content_db \<Rightarrow> response + 'a \<times> content_db" where
  "in_tx db body =
     bindE (orServerError (run_c db ''Begin'' ())) (\<lambda>_.
     bindE body (\<lambda>(x, db').
     bindE (orServerError (run_c db' ''Commit'' ())) (\<lambda>_. Inr (x, db'))))"

lemma in_tx_Inr: "in_tx db body = Inr (x, db') \<Longrightarrow> body = Inr (x, db')"
  by (auto simp: in_tx_def bindE_eq_Inr)

lemma signed_in_tx_unchanged: "signed_in_tx db (Some u) h = (r, db') \<Longrightarrow> (\<forall>x. h u \<noteq> Inr x) \<Longrightarrow> db' = db"
  by (auto simp: signed_in_tx_def RequireUser_def finish_def split: sum.splits)

section \<open>Limits\<close>

text \<open>\<open>utf8.RuneCountInString\<close>: a valid sequence counts once, any other byte on its own.\<close>

definition byte :: "char \<Rightarrow> nat" where "byte c = of_char c"

definition cont_in :: "nat \<Rightarrow> nat \<Rightarrow> char \<Rightarrow> bool" where
  "cont_in lo hi c \<longleftrightarrow> lo \<le> byte c \<and> byte c \<le> hi"

definition rune_width :: "string \<Rightarrow> nat" where
  "rune_width s =
     (case s of
        [] \<Rightarrow> 0
      | c # r \<Rightarrow>
          let b = byte c; tail = (\<lambda>k lo hi. length r \<ge> k \<and> cont_in lo hi (r ! 0) \<and> list_all (cont_in 0x80 0xBF) (take (k - 1) (drop 1 r)))
          in if 0xC2 \<le> b \<and> b \<le> 0xDF \<and> tail 1 0x80 0xBF then 2
             else if b = 0xE0 \<and> tail 2 0xA0 0xBF then 3
             else if b = 0xED \<and> tail 2 0x80 0x9F then 3
             else if 0xE1 \<le> b \<and> b \<le> 0xEF \<and> b \<noteq> 0xED \<and> tail 2 0x80 0xBF then 3
             else if b = 0xF0 \<and> tail 3 0x90 0xBF then 4
             else if 0xF1 \<le> b \<and> b \<le> 0xF3 \<and> tail 3 0x80 0xBF then 4
             else if b = 0xF4 \<and> tail 3 0x80 0x8F then 4
             else 1)"

function RuneCount :: "string \<Rightarrow> nat" where
  "RuneCount s = (if s = [] then 0 else Suc (RuneCount (drop (max 1 (rune_width s)) s)))"
  by pat_completeness auto
termination by (relation "measure length") auto

declare RuneCount.simps [simp del]

definition maxNameChars :: nat where "maxNameChars = 200"

definition bad_name :: "string \<Rightarrow> bool" where
  "bad_name name \<longleftrightarrow> name = [] \<or> RuneCount name > maxNameChars"

section \<open>The position in a note list\<close>

definition notesPageSize :: int where "notesPageSize = 200"

record noteCursor =
  nc_atStart :: bool
  nc_sortKey :: int
  nc_id :: pguuid

definition noteCursorAtStart :: noteCursor where
  "noteCursorAtStart = \<lparr>nc_atStart = True, nc_sortKey = 0, nc_id = None\<rparr>"

definition pguuid_String :: "uuid_text \<Rightarrow> pguuid \<Rightarrow> string" where
  "pguuid_String t u = (case u of None \<Rightarrow> [] | Some x \<Rightarrow> uu_String t x)"

definition encodeNoteCursor :: "uuid_text \<Rightarrow> noteCursor \<Rightarrow> string" where
  "encodeNoteCursor t c =
     (if nc_atStart c then []
      else b64_EncodeToString (Itoa (nc_sortKey c) @ '':'' @ pguuid_String t (nc_id c)))"

definition decodeNoteCursor :: "uuid_text \<Rightarrow> string \<Rightarrow> noteCursor option" where
  "decodeNoteCursor t s =
     (if s = [] then Some noteCursorAtStart
      else case b64_DecodeString s of
        None \<Rightarrow> None
      | Some raw \<Rightarrow>
          (case Cut raw '':'' of
             None \<Rightarrow> None
           | Some (keyPart, idPart) \<Rightarrow>
               (case ParseInt 64 keyPart of
                  None \<Rightarrow> None
                | Some k \<Rightarrow> map_option (\<lambda>u. \<lparr>nc_atStart = False, nc_sortKey = k, nc_id = Some u\<rparr>) (uu_Scan t idPart))))"

text \<open>A position handed out is read back, so the redirect of a bulk edit returns to the page it came from.\<close>

lemma noteCursor_roundtrip:
  assumes "uuid_text_ok t" "in_range 64 k"
  shows "decodeNoteCursor t (encodeNoteCursor t \<lparr>nc_atStart = False, nc_sortKey = k, nc_id = Some u\<rparr>)
    = Some \<lparr>nc_atStart = False, nc_sortKey = k, nc_id = Some u\<rparr>"
proof -
  have "CHR '':'' \<notin> set (Itoa k)" by (rule Itoa_no_char) (simp_all add: is_digit_iff)
  then have "Cut (Itoa k @ '':'' @ uu_String t u) '':'' = Some (Itoa k, uu_String t u)" by (simp add: Cut_char)
  with assms show ?thesis
    by (simp add: decodeNoteCursor_def encodeNoteCursor_def pguuid_String_def ParseInt_Itoa uuid_text_ok_def)
qed

end
