(* ===== verification/Http_Decks.thy ===== *)
theory Http_Decks
  imports Http_Content
begin

text \<open>
  The deck pages: the routes of \<open>internal/http/decks.go\<close>, the unlock line of \<open>pacing.go\<close>, the sharing routes of
  \<open>access.go\<close> and the flag routes of \<open>flags.go\<close>.
\<close>

section \<open>Dates as the pages show them\<close>

definition weekday_name :: "gotime \<Rightarrow> string" where
  "weekday_name t = [''Sunday'', ''Monday'', ''Tuesday'', ''Wednesday'', ''Thursday'', ''Friday'', ''Saturday''] ! nat (Weekday t)"

definition month_name :: "int \<Rightarrow> string" where
  "month_name m = [''January'', ''February'', ''March'', ''April'', ''May'', ''June'', ''July'', ''August'', ''September'',
     ''October'', ''November'', ''December''] ! nat (m - 1)"

text \<open>\<open>Mon 2 Jan 2006\<close> and \<open>Monday, 2 January 2006\<close>.\<close>

definition short_date :: "gotime \<Rightarrow> string" where
  "short_date t = (let (y, m, d) = date_of_day (t div Day)
     in take 3 (weekday_name t) @ '' '' @ Itoa d @ '' '' @ take 3 (month_name m) @ '' '' @ pad 4 y)"

definition unlock_date :: "gotime \<Rightarrow> string" where
  "unlock_date t = (let (y, m, d) = date_of_day (t div Day)
     in weekday_name t @ '', '' @ Itoa d @ '' '' @ month_name m @ '' '' @ pad 4 y)"

section \<open>The deck list\<close>

record queueCounts =
  q_New :: int
  q_Learning :: int
  q_Due :: int
  q_Left :: int

text \<open>What is left today, from the queue and the day's introduced and reviewed counts.\<close>

definition queue_left :: "int \<Rightarrow> int \<Rightarrow> Priority \<Rightarrow> int \<Rightarrow> int \<Rightarrow> queue_counts \<Rightarrow> queueCounts" where
  "queue_left newPerDay revPerDay priority introduced reviewed row =
     (let newRemaining = NewRemaining newPerDay introduced; totalRemaining = RevRemaining revPerDay (wrap64 (introduced + reviewed))
      in \<lparr>q_New = min (qc_NewCount row) newRemaining, q_Learning = qc_LearningCount row, q_Due = qc_DueCount row,
          q_Left = LeftToStudy (qc_NewCount row) (qc_LearningCount row) (qc_DueCount row) priority newRemaining totalRemaining\<rparr>)"

record decks_view =
  dv_User :: user
  dv_Decks :: "deck_list_row list"
  dv_Counts :: "(uuid \<times> queueCounts) list"
  dv_TotalLeft :: int

definition or_zero :: "int option \<Rightarrow> int" where "or_zero x = (case x of None \<Rightarrow> 0 | Some v \<Rightarrow> v)"

definition zero_DeckSettings :: DeckSettings where
  "zero_DeckSettings = \<lparr>set_NewPerDay = 0, set_RevPerDay = 0, set_Order = [], set_Priority = [], set_LookAheadMinutes = 0,
     set_ClassDay = 0\<rparr>"

definition studyDayWindow :: "http_env \<Rightarrow> content_db \<Rightarrow> uuid \<Rightarrow> content_error + StudyDay" where
  "studyDayWindow E db userID = GetStudyDayWindow (he_zones E) db (he_now E) userID"

definition get_decks :: "http_env \<Rightarrow> content_db \<Rightarrow> user option \<Rightarrow> decks_view reply" where
  "get_decks E db user = signed_in user (\<lambda>u.
     bindE (orServerError (ListDecksForUser db (us_ID u))) (\<lambda>decks.
     bindE (orServerError (studyDayWindow E db (us_ID u))) (\<lambda>window.
     let settings = map (\<lambda>d. (dk_ID (dl_Deck d), Preset.Settings (Some (dk_Preset (dl_Deck d))) 0 (sd_LocalDate window))) decks in
     bindE (orServerError (CountQueueForUser db (us_ID u) (sd_Start window) (he_now E) (map fst settings)
              (map (set_LookAheadMinutes \<circ> snd) settings) (map (set_ClassDay \<circ> snd) settings))) (\<lambda>rows.
     bindE (orServerError (CountNewIntroducedTodayForUser db (us_ID u) (sd_Start window) (sd_End window))) (\<lambda>introduced.
     bindE (orServerError (CountReviewedTodayForUser db (us_ID u) (sd_Start window) (sd_End window))) (\<lambda>reviewed.
     let counts = map (\<lambda>(d, row).
           let s = (case map_of settings d of None \<Rightarrow> zero_DeckSettings | Some s \<Rightarrow> s)
           in (d, queue_left (set_NewPerDay s) (set_RevPerDay s) (set_Priority s) (or_zero (map_of introduced d))
                 (or_zero (map_of reviewed d)) row)) rows
     in Inr (View ''decks'' 200 \<lparr>dv_User = u, dv_Decks = decks, dv_Counts = counts,
          dv_TotalLeft = foldl (\<lambda>t (_, c). wrap64 (t + q_Left c)) 0 counts\<rparr>)))))))"

section \<open>Creating a deck\<close>

definition get_deck_new :: "user option \<Rightarrow> user reply" where
  "get_deck_new user = signed_in user (\<lambda>u. Inr (View ''deck_new'' 200 u))"

definition deck_new_error :: "int \<Rightarrow> string \<Rightarrow> string \<Rightarrow> string \<Rightarrow> response" where
  "deck_new_error status name description msg =
     page ''deck_new'' status [(''Name'', name), (''Description'', description), (''Error'', msg)]"

definition deck_url :: "http_env \<Rightarrow> uuid \<Rightarrow> string" where
  "deck_url E deckID = ''/decks/'' @ uu_String (he_uuid E) deckID"

definition post_decks :: "http_env \<Rightarrow> content_db \<Rightarrow> user option \<Rightarrow> post_form \<Rightarrow> user reply \<times> content_db" where
  "post_decks E db user form = signed_in_tx db user (\<lambda>u.
     bindE (parseForm form) (\<lambda>f.
     let name = TrimSpace (form_get f ''name''); description = form_get f ''description'' in
     bindE (unlessE (bad_name name)
        (deck_new_error 400 name description (''Name must be between 1 and '' @ Itoa (int maxNameChars) @ '' characters''))) (\<lambda>_.
     bindE (in_tx db (liftE (\<lambda>e. if e = UniqueViolation ''decks_owner_id_name_key''
          then deck_new_error 409 name description ''You already have a deck with that name'' else serverError)
        (CreateDeckWithAccess db (he_dbnow E) (he_newID E) (us_ID u) name description))) (\<lambda>(deck, db').
     Inr (Http (redirect (deck_url E (dk_ID deck))), db')))))"

section \<open>The deck page\<close>

record nextUnlockView =
  nu_Lesson :: int
  nu_Date :: string

definition nextUnlock :: "content_db \<Rightarrow> uuid \<Rightarrow> uuid \<Rightarrow> calendar \<Rightarrow> gotime \<Rightarrow> content_error + nextUnlockView option" where
  "nextUnlock db userID deckID cal localDate =
     (if \<not> Configured cal then Inr None
      else case NextLockedLesson db userID deckID (CurrentClassDay cal 0 localDate) of
        Inl e \<Rightarrow> if e = ErrNoRows then Inr None else Inl e
      | Inr lesson \<Rightarrow>
          Inr (map_option (\<lambda>d. \<lparr>nu_Lesson = lesson, nu_Date = unlock_date d\<rparr>) (MeetingDate cal lesson)))"

record classDayView =
  cv_Day :: int
  cv_Date :: string
  cv_Notes :: int
  cv_Unlocked :: bool

definition calendarPreviewMeetings :: int where "calendarPreviewMeetings = 4"

definition deckClassDays :: "content_db \<Rightarrow> uuid \<Rightarrow> uuid \<Rightarrow> calendar \<Rightarrow> int \<Rightarrow> content_error + classDayView list \<times> int" where
  "deckClassDays db userID deckID cal currentClassDay =
     (if \<not> Configured cal then Inr ([], 0)
      else bindE (CountNotesByReleaseDay db userID deckID) (\<lambda>rows.
        let unassigned = (case map_of (rev rows) 0 of None \<Rightarrow> 0 | Some n \<Rightarrow> n);
            assigned = filter (\<lambda>(d, _). d \<noteq> 0) rows;
            lastAssigned = foldl max 0 (map fst assigned);
            dates = MeetingDates cal (max (max lastAssigned currentClassDay) calendarPreviewMeetings)
        in Inr (map (\<lambda>(i, d). \<lparr>cv_Day = int i + 1, cv_Date = short_date d,
                cv_Notes = or_zero (map_of (rev assigned) (int i + 1)), cv_Unlocked = (int i + 1 \<le> currentClassDay)\<rparr>)
              (enumerate 0 dates), unassigned)))"

text \<open>\<open>review.EffectiveParams\<close> reads \<open>user_fsrs_params\<close> only.\<close>

definition params_view :: "content_db \<Rightarrow> review_db" where
  "params_view db = \<lparr>db_states = cd_states db, db_log = cd_log db, db_params = cd_params db, db_cards = [], db_access = [],
     db_refuses = (\<lambda>_. cd_refuses db ''GetEffectiveFsrsParams'')\<rparr>"

record deck_view =
  kv_User :: user
  kv_Deck :: "deck \<times> deck_access"
  kv_Counts :: "nat \<times> nat"
  kv_Notes :: "note_list_row list"
  kv_ClassDays :: "classDayView list"
  kv_UnassignedNotes :: int
  kv_CurrentClassDay :: int
  kv_NextUnlock :: "nextUnlockView option"
  kv_HasMoreNotes :: bool
  kv_NextNotesCursor :: string
  kv_NotesCursor :: string
  kv_NotesPaged :: bool
  kv_DesiredRetention :: float64
  kv_OtherProgressViewers :: nat
  kv_OpenFlags :: nat
  kv_Queue :: queueCounts

text \<open>\<open>rawCursor\<close> is the query parameter \<open>notesCursor\<close>.\<close>

definition get_deck :: "http_env \<Rightarrow> content_db \<Rightarrow> user option \<Rightarrow> string \<Rightarrow> string \<Rightarrow> deck_view reply" where
  "get_deck E db user rawID rawCursor = signed_in user (\<lambda>u.
     bindE (pathUUID E rawID) (\<lambda>deckID.
     bindE (orNotFoundPage (GetDeckForUser db (us_ID u) deckID)) (\<lambda>deck.
     bindE (orServerError (CountDeckContents db deckID (us_ID u))) (\<lambda>counts.
     bindE (case decodeNoteCursor (he_uuid E) rawCursor of None \<Rightarrow> Inl badRequest | Some c \<Rightarrow> Inr c) (\<lambda>cur.
     bindE (orServerError (ListNotesInDeck db (us_ID u) deckID (nc_atStart cur) (nc_sortKey cur) (nc_id cur) (notesPageSize + 1))) (\<lambda>rows.
     let more = int (length rows) > notesPageSize; shown = (if more then take (nat notesPageSize) rows else rows);
         next = (if more then encodeNoteCursor (he_uuid E)
           \<lparr>nc_atStart = False, nc_sortKey = nr_SortKey (last shown), nc_id = Some (nr_ID (last shown))\<rparr> else []) in
     bindE (liftE (\<lambda>_. serverError) (EffectiveParams (he_lib E) (params_view db) (us_ID u) deckID)) (\<lambda>params.
     bindE (orServerError (studyDayWindow E db (us_ID u))) (\<lambda>window.
     let preset = Some (dk_Preset (fst deck)); cal = ParseCalendar preset;
         classDay = CurrentClassDay cal 0 (sd_LocalDate window) in
     bindE (orServerError (CountQueueForDeck db (us_ID u) deckID (sd_Start window) (he_now E) (DueLookAheadMinutes preset)
              (Gate cal classDay))) (\<lambda>queue.
     bindE (orServerError (CountNewIntroducedToday db (us_ID u) deckID (sd_Start window) (sd_End window))) (\<lambda>introduced.
     bindE (orServerError (CountReviewedToday db (us_ID u) deckID (sd_Start window) (sd_End window))) (\<lambda>reviewed.
     bindE (orServerError (CountOtherProgressViewers db (us_ID u) deckID)) (\<lambda>viewers.
     bindE (orServerError (CountOpenFlagsForDeck db deckID)) (\<lambda>flags.
     bindE (orServerError (deckClassDays db (us_ID u) deckID cal classDay)) (\<lambda>(classDays, unassigned).
     bindE (orServerError (nextUnlock db (us_ID u) deckID cal (sd_LocalDate window))) (\<lambda>unlock.
     Inr (View ''deck'' 200 \<lparr>kv_User = u, kv_Deck = deck, kv_Counts = counts, kv_Notes = shown, kv_ClassDays = classDays,
       kv_UnassignedNotes = unassigned, kv_CurrentClassDay = classDay, kv_NextUnlock = unlock, kv_HasMoreNotes = more,
       kv_NextNotesCursor = next, kv_NotesCursor = encodeNoteCursor (he_uuid E) cur, kv_NotesPaged = (\<not> nc_atStart cur),
       kv_DesiredRetention = par_desiredRetention params, kv_OtherProgressViewers = viewers, kv_OpenFlags = flags,
       kv_Queue = queue_left (NewPerDay preset) (RevPerDay preset) (ParsePriority preset) introduced reviewed queue\<rparr>))))))))))))))))"

section \<open>The settings form\<close>

record weekdayView =
  wv_ISO :: int
  wv_Name :: string
  wv_Checked :: bool

record calendarFormView =
  cf_StartDate :: string
  cf_Weekdays :: "weekdayView list"
  cf_Skip :: string

definition weekdayNames :: "string list" where
  "weekdayNames = [''Monday'', ''Tuesday'', ''Wednesday'', ''Thursday'', ''Friday'', ''Saturday'', ''Sunday'']"

definition calendarForm :: "calendar \<Rightarrow> calendarFormView" where
  "calendarForm cal =
     \<lparr>cf_StartDate = (if Configured cal then format_date (StartDate cal) else []),
      cf_Weekdays = map (\<lambda>(i, name). \<lparr>wv_ISO = int i + 1, wv_Name = name, wv_Checked = (int i + 1 \<in> set (Weekdays cal))\<rparr>)
        (enumerate 0 weekdayNames),
      cf_Skip = Join [CHR 0x0A] (SkipDates cal)\<rparr>"

record deck_edit_view =
  ev_User :: user
  ev_Deck :: "deck \<times> bool"
  ev_NewPerDay :: int
  ev_RevPerDay :: int
  ev_RevOrder :: RevOrder
  ev_Priority :: Priority
  ev_DueLookAheadMinutes :: int
  ev_Calendar :: calendarFormView

definition get_deck_edit :: "http_env \<Rightarrow> content_db \<Rightarrow> user option \<Rightarrow> string \<Rightarrow> deck_edit_view reply" where
  "get_deck_edit E db user rawID = signed_in user (\<lambda>u.
     bindE (pathUUID E rawID) (\<lambda>deckID.
     bindE (orNotFoundPage (GetDeckForSettingsEdit db (us_ID u) deckID)) (\<lambda>deck.
     let preset = Some (dk_Preset (fst deck)) in
     Inr (View ''deck_edit'' 200 \<lparr>ev_User = u, ev_Deck = deck, ev_NewPerDay = NewPerDay preset, ev_RevPerDay = RevPerDay preset,
       ev_RevOrder = ParseRevOrder preset, ev_Priority = ParsePriority preset,
       ev_DueLookAheadMinutes = DueLookAheadMinutes preset, ev_Calendar = calendarForm (ParseCalendar preset)\<rparr>))))"

text \<open>
  A number of the form: blank leaves the setting alone. \<open>strconv.Atoi\<close> reads a 64-bit integer, and the upper
  bound is tested after the conversion to \<open>int32\<close>.
\<close>

definition form_number :: "int \<Rightarrow> string \<Rightarrow> response + int option" where
  "form_number bound value =
     (let raw = TrimSpace value in
      if raw = [] then Inr None
      else case Atoi raw of
        None \<Rightarrow> Inl badRequest
      | Some v \<Rightarrow> if v < 0 \<or> wrap32 v > bound then Inl badRequest else Inr (Some (wrap32 v)))"

definition form_choice :: "(string \<Rightarrow> bool) \<Rightarrow> string \<Rightarrow> response + string option" where
  "form_choice valid value =
     (let raw = TrimSpace value in
      if raw = [] then Inr None else if valid raw then Inr (Some raw) else Inl badRequest)"

definition form_calendar :: "(string \<Rightarrow> string list) \<Rightarrow> response + calendar option" where
  "form_calendar f =
     (let startDate = TrimSpace (form_get f ''calendar_start_date'');
          given = (startDate \<noteq> [] \<or> f ''calendar_weekday'' \<noteq> [] \<or> TrimSpace (form_get f ''calendar_skip'') \<noteq> [])
      in if form_get f ''calendar_clear'' = [] \<and> given
         then (case NewCalendar startDate (f ''calendar_weekday'') (form_get f ''calendar_skip'') of
                 Inl _ \<Rightarrow> Inl badRequest | Inr cal \<Rightarrow> Inr (Some cal))
         else Inr None)"

definition deck_form :: "(string \<Rightarrow> string list) \<Rightarrow> response + deck_patch \<times> calendar option" where
  "deck_form f =
     (let name = TrimSpace (form_get f ''name'') in
      bindE (unlessE (bad_name name) badRequest) (\<lambda>_.
      bindE (form_number MaxNewPerDay (form_get f ''new_per_day'')) (\<lambda>newPerDay.
      bindE (form_number MaxRevPerDay (form_get f ''rev_per_day'')) (\<lambda>revPerDay.
      bindE (form_choice Priority_Valid (form_get f ''priority'')) (\<lambda>priority.
      bindE (form_choice RevOrder_Valid (form_get f ''rev_order'')) (\<lambda>revOrder.
      bindE (form_number MaxDueLookAheadMinutes (form_get f ''due_look_ahead_minutes'')) (\<lambda>lookAhead.
      bindE (form_calendar f) (\<lambda>cal.
      Inr (\<lparr>up_Name = name, up_Description = form_get f ''description'', up_NewPerDay = newPerDay, up_RevPerDay = revPerDay,
             up_RevOrder = revOrder, up_Priority = priority, up_DueLookAheadMinutes = lookAhead,
             up_Calendar = map_option calendar_json cal, up_ClearCalendar = (form_get f ''calendar_clear'' \<noteq> [])\<rparr>, cal)))))))))"

definition post_deck_edit :: "http_env \<Rightarrow> content_db \<Rightarrow> user option \<Rightarrow> string \<Rightarrow> post_form \<Rightarrow> user reply \<times> content_db" where
  "post_deck_edit E db user rawID form = signed_in_tx db user (\<lambda>u.
     bindE (pathUUID E rawID) (\<lambda>deckID.
     bindE (parseForm form) (\<lambda>f.
     bindE (deck_form f) (\<lambda>(up, _).
     bindE (liftE (\<lambda>e. if e = UniqueViolation ''decks_owner_id_name_key''
          then text_response 409 ''a deck with that name already exists'' else serverError)
        (UpdateDeck db (he_dbnow E) up deckID (us_ID u))) (\<lambda>(n, db').
     bindE (unlessE (n = 0) notFoundPage) (\<lambda>_.
     Inr (Http (redirect (deck_url E deckID)), db')))))))"

section \<open>Deleting a deck, and its retention\<close>

definition post_deck_delete :: "http_env \<Rightarrow> content_db \<Rightarrow> user option \<Rightarrow> string \<Rightarrow> user reply \<times> content_db" where
  "post_deck_delete E db user rawID = signed_in_tx db user (\<lambda>u.
     bindE (pathUUID E rawID) (\<lambda>deckID.
     bindE (in_tx db (bindE (orNotFoundPage (DeleteDeck db (he_dbnow E) deckID (us_ID u))) (\<lambda>db'. Inr ((), db')))) (\<lambda>(_, db').
     Inr (Http (redirect ''/decks''), db'))))"

definition post_deck_fsrs :: "http_env \<Rightarrow> content_db \<Rightarrow> user option \<Rightarrow> string \<Rightarrow> post_form \<Rightarrow> user reply \<times> content_db" where
  "post_deck_fsrs E db user rawID form = signed_in_tx db user (\<lambda>u.
     bindE (pathUUID E rawID) (\<lambda>deckID.
     bindE (parseForm form) (\<lambda>f.
     let (retention, ok) = he_parseFloat E (form_get f ''desired_retention'') in
     bindE (unlessE (\<not> ok) badRequest) (\<lambda>_.
     bindE (liftE (\<lambda>_. badRequest) (NewDefaultParams (he_lib E) retention)) (\<lambda>params.
     bindE (orServerError (UpsertDeckFsrsRetention db (us_ID u) deckID (wrap 16 (par_version params)) retention)) (\<lambda>(n, db').
     bindE (unlessE (n = 0) notFoundPage) (\<lambda>_.
     Inr (Http (redirect (deck_url E deckID)), db'))))))))"

section \<open>Sharing a deck\<close>

definition flagsFromForm :: "(string \<Rightarrow> string list) \<Rightarrow> access_flags" where
  "flagsFromForm f = (let on = (\<lambda>k. form_get f k = ''on'') in
     \<lparr>fl_view = on ''can_view'', fl_study = on ''can_study'', fl_edit_content = on ''can_edit_content'',
      fl_edit_settings = on ''can_edit_settings'', fl_manage_access = on ''can_manage_access'', fl_delete = on ''can_delete'',
      fl_view_progress = on ''can_view_progress'', fl_view_flags = on ''can_view_flags''\<rparr>)"

record access_view =
  xv_User :: user
  xv_Deck :: deck
  xv_Collaborators :: "(db_user \<times> deck_access) list"
  xv_Error :: string

definition renderAccess :: "content_db \<Rightarrow> user \<Rightarrow> deck \<Rightarrow> int \<Rightarrow> string \<Rightarrow> response + access_view reply" where
  "renderAccess db u deck status msg =
     bindE (orServerError (ListDeckAccessForDeck db (dk_ID deck))) (\<lambda>rows.
     Inr (View ''access'' status \<lparr>xv_User = u, xv_Deck = deck, xv_Collaborators = rows, xv_Error = msg\<rparr>))"

definition get_access :: "http_env \<Rightarrow> content_db \<Rightarrow> user option \<Rightarrow> string \<Rightarrow> access_view reply" where
  "get_access E db user rawID = signed_in user (\<lambda>u.
     bindE (pathUUID E rawID) (\<lambda>deckID.
     bindE (orNotFoundPage (GetDeckForAccessManage db (us_ID u) deckID)) (\<lambda>deck. renderAccess db u deck 200 [])))"

text \<open>\<open>grantDeckAccess\<close>, with its transaction; every error but a taken key is a 500.\<close>

definition grantDeckAccess :: "content_db \<Rightarrow> uuid \<Rightarrow> access_flags \<Rightarrow> uuid \<Rightarrow> uuid \<Rightarrow> content_error + nat \<times> content_db" where
  "grantDeckAccess db target flags deckID caller =
     bindE (run_c db ''Begin'' ()) (\<lambda>_.
     bindE (GrantDeckAccess db target flags deckID caller) (\<lambda>(n, db').
     bindE (run_c db' ''Commit'' ()) (\<lambda>_. Inr (n, db'))))"

text \<open>\<open>byEmail\<close> is \<open>GetUserByEmail\<close> on the accounts.\<close>

definition post_access :: "http_env \<Rightarrow> (string \<Rightarrow> store_error + user) \<Rightarrow> content_db \<Rightarrow> user option \<Rightarrow> string \<Rightarrow> post_form
    \<Rightarrow> access_view reply \<times> content_db" where
  "post_access E byEmail db user rawID form = signed_in_tx db user (\<lambda>u.
     bindE (pathUUID E rawID) (\<lambda>deckID.
     bindE (parseForm form) (\<lambda>f.
     bindE (orNotFoundPage (GetDeckForAccessManage db (us_ID u) deckID)) (\<lambda>deck.
     case byEmail (TrimSpace (form_get f ''email'')) of
       Inl SNoRows \<Rightarrow>
         bindE (renderAccess db u deck 400 ''No account with that email address'') (\<lambda>v. Inr (v, db))
     | Inl _ \<Rightarrow> Inl serverError
     | Inr target \<Rightarrow>
         (case grantDeckAccess db (us_ID target) (flagsFromForm f) deckID (us_ID u) of
            Inl e \<Rightarrow>
              if e = UniqueViolation ''deck_access_pkey''
              then bindE (renderAccess db u deck 409 ''That user already has access to this deck'') (\<lambda>v. Inr (v, db))
              else Inl serverError
          | Inr (n, db') \<Rightarrow>
              bindE (unlessE (n = 0) notFoundPage) (\<lambda>_.
              Inr (Http (redirect (deck_url E deckID @ ''/access'')), db')))))))"

definition handleAccessChangeErr :: "content_error \<Rightarrow> response" where
  "handleAccessChangeErr e =
     (if e = ErrNoRows then notFoundPage
      else if e = ErrLastAccessHolder
      then text_response 409 ''a deck must keep at least one member who can manage access and one who can delete it''
      else serverError)"

text \<open>The three changes to one member: \<open>change\<close> is the transaction of \<open>db/deletion.go\<close>.\<close>

definition access_change :: "http_env \<Rightarrow> content_db \<Rightarrow> uuid \<Rightarrow> (content_db \<Rightarrow> content_error + content_db) \<Rightarrow> response + user reply \<times> content_db" where
  "access_change E db deckID change =
     bindE (in_tx db (bindE (liftE handleAccessChangeErr (change db)) (\<lambda>db'. Inr ((), db')))) (\<lambda>(_, db').
     Inr (Http (redirect (deck_url E deckID @ ''/access'')), db'))"

definition post_access_edit :: "http_env \<Rightarrow> content_db \<Rightarrow> user option \<Rightarrow> string \<Rightarrow> string \<Rightarrow> post_form \<Rightarrow> user reply \<times> content_db" where
  "post_access_edit E db user rawID rawUser form = signed_in_tx db user (\<lambda>u.
     bindE (pathUUID E rawID) (\<lambda>deckID.
     bindE (pathUUID E rawUser) (\<lambda>target.
     bindE (parseForm form) (\<lambda>f.
     access_change E db deckID (\<lambda>d. SetDeckAccess d (us_ID u) (flagsFromForm f) deckID target)))))"

definition post_access_delete :: "http_env \<Rightarrow> content_db \<Rightarrow> user option \<Rightarrow> string \<Rightarrow> string \<Rightarrow> user reply \<times> content_db" where
  "post_access_delete E db user rawID rawUser = signed_in_tx db user (\<lambda>u.
     bindE (pathUUID E rawID) (\<lambda>deckID.
     bindE (pathUUID E rawUser) (\<lambda>target.
     access_change E db deckID (\<lambda>d. RevokeDeckAccess d deckID (us_ID u) target))))"

definition post_access_reset :: "http_env \<Rightarrow> content_db \<Rightarrow> user option \<Rightarrow> string \<Rightarrow> string \<Rightarrow> user reply \<times> content_db" where
  "post_access_reset E db user rawID rawUser = signed_in_tx db user (\<lambda>u.
     bindE (pathUUID E rawID) (\<lambda>deckID.
     bindE (pathUUID E rawUser) (\<lambda>target.
     access_change E db deckID (\<lambda>d. ResetDeckProgress d deckID (us_ID u) target))))"

section \<open>Flags\<close>

definition maxFlagCommentLen :: nat where "maxFlagCommentLen = 2000"

text \<open>The one route here that answers a fragment: its 404s are plain text.\<close>

definition post_card_flag :: "http_env \<Rightarrow> content_db \<Rightarrow> user option \<Rightarrow> string \<Rightarrow> post_form \<Rightarrow> bool reply \<times> content_db" where
  "post_card_flag E db user rawID form = signed_in_tx db user (\<lambda>u.
     bindE (case uu_Scan (he_uuid E) rawID of None \<Rightarrow> Inl notFound | Some d \<Rightarrow> Inr d) (\<lambda>deckID.
     bindE (parseForm form) (\<lambda>f.
     bindE (case uu_Scan (he_uuid E) (form_get f ''cardId'') of None \<Rightarrow> Inl badRequest | Some c \<Rightarrow> Inr c) (\<lambda>cardID.
     let comment = TrimSpace (form_get f ''comment'') in
     bindE (unlessE (comment = [] \<or> RuneCount comment > maxFlagCommentLen) badRequest) (\<lambda>_.
     bindE (liftE handleQueryErr (GetCardForFlag db (us_ID u) cardID deckID)) (\<lambda>(card, deck).
     bindE (orServerError (UpsertCardFlag db (he_dbnow E) (he_newID E) card deck (us_ID u) comment)) (\<lambda>db'.
     Inr (View ''flag_status'' 200 True, db'))))))))"

record flags_view =
  gv_User :: user
  gv_Deck :: "deck \<times> bool"
  gv_Flags :: "flag_list_row list"
  gv_Status :: string

text \<open>The row of the page is the statement's row with its time formatted.\<close>

definition get_flags :: "http_env \<Rightarrow> content_db \<Rightarrow> user option \<Rightarrow> string \<Rightarrow> string \<Rightarrow> flags_view reply" where
  "get_flags E db user rawID rawStatus = signed_in user (\<lambda>u.
     bindE (pathUUID E rawID) (\<lambda>deckID.
     bindE (orNotFoundPage (GetDeckForFlags db (us_ID u) deckID)) (\<lambda>deck.
     let status = (if rawStatus = flagStatusResolved then flagStatusResolved else flagStatusOpen) in
     bindE (orServerError (ListFlagsForDeck db (us_ID u) deckID status)) (\<lambda>rows.
     bindE (unlessE (\<exists>r\<in>set rows. fr_Label r = None) serverError) (\<lambda>_.
     Inr (View ''flags'' 200 \<lparr>gv_User = u, gv_Deck = deck, gv_Flags = rows, gv_Status = status\<rparr>))))))"

definition post_flag_resolve :: "http_env \<Rightarrow> content_db \<Rightarrow> user option \<Rightarrow> string \<Rightarrow> string \<Rightarrow> user reply \<times> content_db" where
  "post_flag_resolve E db user rawID rawFlag = signed_in_tx db user (\<lambda>u.
     bindE (pathUUID E rawID) (\<lambda>deckID.
     bindE (pathUUID E rawFlag) (\<lambda>flagID.
     bindE (orServerError (ResolveCardFlag db (he_dbnow E) (us_ID u) flagID deckID)) (\<lambda>(n, db').
     bindE (unlessE (n = 0) notFoundPage) (\<lambda>_.
     Inr (Http (redirect (deck_url E deckID @ ''/flags'')), db'))))))"

end
