(* ===== verification/Http_Notes.thy ===== *)
theory Http_Notes
  imports Http_Decks
begin

text \<open>
  The note pages: the routes of \<open>internal/http/notes.go\<close> and its forms. \<open>json.Marshal\<close> is the identity on the
  values of a field but for bytes that are not UTF-8.
\<close>

section \<open>Tags\<close>

definition maxTagsPerNote :: nat where "maxTagsPerNote = 64"
definition maxTagChars :: nat where "maxTagChars = 100"

definition parseTags :: "string \<Rightarrow> string list" where "parseTags raw = dedup (Fields raw)"

definition validateTags :: "string list \<Rightarrow> string list \<Rightarrow> string + unit" where
  "validateTags tags existing =
     (if length tags > maxTagsPerNote \<and> length tags > length existing
      then Inl (''at most '' @ Itoa (int maxTagsPerNote) @ '' tags'')
      else if list_ex (\<lambda>t. RuneCount t > maxTagChars \<and> t \<notin> set existing) tags
      then Inl (''a tag is too long (max '' @ Itoa (int maxTagChars) @ '' characters)'')
      else Inr ())"

definition or400 :: "string + 'a \<Rightarrow> response + 'a" where
  "or400 m = liftE (\<lambda>msg. text_response 400 msg) m"

definition parseNoteTags :: "(string \<Rightarrow> string list) \<Rightarrow> string list \<Rightarrow> response + string list" where
  "parseNoteTags f existing =
     (let tags = parseTags (form_get f ''tags'') in bindE (or400 (validateTags tags existing)) (\<lambda>_. Inr tags))"

section \<open>Fields\<close>

definition maxFieldBytes :: nat where "maxFieldBytes = 64 * 1024"

text \<open>\<open>json.Marshal\<close> of a string, read back: a byte that starts no valid sequence is U+FFFD.\<close>

definition fffd :: string where "fffd = [CHR 0xEF, CHR 0xBF, CHR 0xBD]"

function json_text :: "string \<Rightarrow> string" where
  "json_text s =
     (if s = [] then []
      else if rune_width s \<le> 1 \<and> byte (hd s) \<ge> 0x80 then fffd @ json_text (tl s)
      else take (max 1 (rune_width s)) s @ json_text (drop (max 1 (rune_width s)) s))"
  by pat_completeness auto
termination by (relation "measure length") auto

declare json_text.simps [simp del]

definition validateNoteFields :: "(string \<Rightarrow> 8 word list) \<Rightarrow> string list \<Rightarrow> nat \<Rightarrow> string + string list \<times> int" where
  "validateNoteFields sha1 fieldValues wantCount =
     (if length fieldValues \<noteq> wantCount
      then Inl (''expected '' @ Itoa (int wantCount) @ '' fields, got '' @ Itoa (int (length fieldValues)))
      else if fieldValues = [] \<or> TrimSpace (hd fieldValues) = [] then Inl ''the first field must not be empty''
      else if list_ex (\<lambda>v. length v > maxFieldBytes) fieldValues then Inl ''a field is too large''
      else Inr (map json_text fieldValues, ComputeNoteChecksum sha1 (hd fieldValues)))"

definition fieldsCompatible :: "note_type \<Rightarrow> field_row list \<Rightarrow> note_type \<Rightarrow> field_row list \<Rightarrow> bool" where
  "fieldsCompatible fromNT fromFields toNT toFields \<longleftrightarrow>
     nt_IsCloze fromNT = nt_IsCloze toNT \<and> length fromFields = length toFields
     \<and> list_all (\<lambda>(a, b). fd_Name a = fd_Name b) (zip fromFields toFields)"

definition desiredCards :: "note_type \<Rightarrow> template_row list \<Rightarrow> string list \<Rightarrow> string + DesiredCard list" where
  "desiredCards nt templates fieldValues =
     (if \<not> nt_IsCloze nt then Inr (map (\<lambda>t. \<lparr>dc_Ordinal = tp_Ordinal t, dc_TemplateID = tp_ID t\<rparr>) templates)
      else case templates of
        [] \<Rightarrow> Inl ''cloze note type has no template''
      | t # _ \<Rightarrow>
          let numbers = ClozeOrdinals fieldValues
          in if numbers = [] then Inl ''a cloze note must contain at least one {{c1::...}} marker''
             else Inr (map (\<lambda>n. \<lparr>dc_Ordinal = n - 1, dc_TemplateID = tp_ID t\<rparr>) numbers))"

text \<open>\<open>he_guid\<close> is what \<open>rand.Read\<close> gives.\<close>

definition randomGuid :: "http_env \<Rightarrow> response + string" where
  "randomGuid E = (case he_guid E of None \<Rightarrow> Inl serverError | Some b \<Rightarrow> Inr (b64_EncodeToString b))"

section \<open>The new-note form\<close>

datatype note_form =
    PickNoteType user deck "(note_type \<times> bool) list"
  | NewNote user deck note_type "field_row list"
  | EditNote user "db_note \<times> bool" note_type "field_row list" "string list" "deck_list_row list" "note_type list"
  | ConfirmNoteTypeChange user "db_note \<times> bool" note_type note_type nat nat "string list" string

definition get_note_new :: "http_env \<Rightarrow> content_db \<Rightarrow> user option \<Rightarrow> string \<Rightarrow> string \<Rightarrow> note_form reply" where
  "get_note_new E db user rawID rawNoteType = signed_in user (\<lambda>u.
     bindE (pathUUID E rawID) (\<lambda>deckID.
     bindE (orNotFoundPage (GetDeckForContentEdit db (us_ID u) deckID)) (\<lambda>deck.
     if rawNoteType = []
     then bindE (orServerError (ListNoteTypesForNoteForm db deckID (us_ID u))) (\<lambda>noteTypes.
          Inr (View ''note_form'' 200 (PickNoteType u deck noteTypes)))
     else bindE (pathUUID E rawNoteType) (\<lambda>noteTypeID.
          bindE (orNotFoundPage (GetNoteTypeForRead db noteTypeID (us_ID u))) (\<lambda>nt.
          bindE (orServerError (ListFieldsForNoteType db noteTypeID)) (\<lambda>flds.
          Inr (View ''note_form'' 200 (NewNote u deck nt flds))))))))"

text \<open>The errors of the two saving transactions.\<close>

definition note_save_error :: "content_error \<Rightarrow> response" where
  "note_save_error e =
     (if e = ErrNoRows then notFoundPage
      else if e = ErrNoCards then text_response 400 ''a cloze note must keep at least one cloze marker''
      else serverError)"

definition form_uuid :: "http_env \<Rightarrow> (string \<Rightarrow> string list) \<Rightarrow> string \<Rightarrow> response + uuid" where
  "form_uuid E f key = (case uu_Scan (he_uuid E) (form_get f key) of None \<Rightarrow> Inl badRequest | Some u \<Rightarrow> Inr u)"

definition post_notes :: "http_env \<Rightarrow> content_db \<Rightarrow> user option \<Rightarrow> string \<Rightarrow> post_form \<Rightarrow> note_form reply \<times> content_db" where
  "post_notes E db user rawID form = signed_in_tx db user (\<lambda>u.
     bindE (pathUUID E rawID) (\<lambda>deckID.
     bindE (parseForm form) (\<lambda>f.
     bindE (form_uuid E f ''note_type_id'') (\<lambda>noteTypeID.
     bindE (orNotFoundPage (GetNoteTypeForRead db noteTypeID (us_ID u))) (\<lambda>nt.
     bindE (orServerError (ListTemplatesForNoteType db noteTypeID)) (\<lambda>templates.
     bindE (orServerError (ListFieldsForNoteType db noteTypeID)) (\<lambda>flds.
     let fieldValues = f ''field[]'' in
     bindE (or400 (validateNoteFields (he_sha1 E) fieldValues (length flds))) (\<lambda>(fieldsJSON, checksum).
     bindE (or400 (desiredCards nt templates fieldValues)) (\<lambda>desired.
     bindE (parseNoteTags f []) (\<lambda>tags.
     bindE (randomGuid E) (\<lambda>guid.
     bindE (in_tx db (liftE note_save_error (CreateNoteWithCards (he_newCard E) db (he_dbnow E) (he_newID E) guid fieldsJSON tags
         checksum (us_ID u) noteTypeID deckID desired))) (\<lambda>(_, db').
     Inr (Http (redirect (deck_url E deckID)), db')))))))))))))"

section \<open>The edit form\<close>

definition get_note_edit :: "http_env \<Rightarrow> content_db \<Rightarrow> user option \<Rightarrow> string \<Rightarrow> note_form reply" where
  "get_note_edit E db user rawID = signed_in user (\<lambda>u.
     bindE (pathUUID E rawID) (\<lambda>noteID.
     bindE (orNotFoundPage (GetNoteForContentEdit db (us_ID u) noteID)) (\<lambda>(note, manage).
     bindE (orServerError (GetNoteType db (n_NoteTypeID note))) (\<lambda>nt.
     bindE (orServerError (ListFieldsForNoteType db (n_NoteTypeID note))) (\<lambda>flds.
     bindE (orServerError (ListDecksForUser db (us_ID u))) (\<lambda>decks.
     bindE (orServerError (ListFieldCompatibleNoteTypesForUser db (us_ID u) (nt_IsCloze nt) (n_NoteTypeID note))) (\<lambda>compatible.
     Inr (View ''note_form'' 200 (EditNote u (note, manage) nt flds (n_Fields note) decks compatible)))))))))"

text \<open>
  What the submitted note type changes: nothing, or the note type, its templates and its number of fields. A
  change asks for \<open>can_manage_access\<close> before anything else.
\<close>

definition note_type_change :: "content_db \<Rightarrow> uuid \<Rightarrow> db_note \<Rightarrow> note_type \<Rightarrow> template_row list \<Rightarrow> field_row list \<Rightarrow> uuid
    \<Rightarrow> response + note_type \<times> template_row list \<times> nat" where
  "note_type_change db userID note nt templates flds target =
     (if target = n_NoteTypeID note then Inr (nt, templates, length flds)
      else bindE (orNotFoundPage (GetNoteForNoteTypeChange db userID (n_ID note))) (\<lambda>_.
           bindE (orNotFoundPage (GetNoteTypeForRead db target userID)) (\<lambda>targetNT.
           bindE (orServerError (ListFieldsForNoteType db target)) (\<lambda>targetFields.
           bindE (unlessE (\<not> fieldsCompatible nt flds targetNT targetFields)
             (text_response 400 ''note types must have the same fields in the same order to switch between them'')) (\<lambda>_.
           bindE (orServerError (ListTemplatesForNoteType db target)) (\<lambda>targetTemplates.
           Inr (targetNT, targetTemplates, length targetFields)))))))"

definition ordinal_diff :: "int list \<Rightarrow> int list \<Rightarrow> nat" where
  "ordinal_diff xs ys = length (remdups (filter (\<lambda>o'. o' \<notin> set ys) xs))"

definition post_note_edit :: "http_env \<Rightarrow> content_db \<Rightarrow> user option \<Rightarrow> string \<Rightarrow> post_form \<Rightarrow> note_form reply \<times> content_db" where
  "post_note_edit E db user rawID form = signed_in_tx db user (\<lambda>u.
     bindE (pathUUID E rawID) (\<lambda>noteID.
     bindE (parseForm form) (\<lambda>f.
     bindE (orNotFoundPage (GetNoteForContentEdit db (us_ID u) noteID)) (\<lambda>(note, manage).
     bindE (orServerError (GetNoteType db (n_NoteTypeID note))) (\<lambda>nt.
     bindE (orServerError (ListTemplatesForNoteType db (n_NoteTypeID note))) (\<lambda>templates.
     bindE (orServerError (ListFieldsForNoteType db (n_NoteTypeID note))) (\<lambda>flds.
     let fieldValues = f ''field[]'' in
     bindE (form_uuid E f ''note_type_id'') (\<lambda>target.
     bindE (note_type_change db (us_ID u) note nt templates flds target) (\<lambda>(targetNT, targetTemplates, wantFieldCount).
     bindE (or400 (validateNoteFields (he_sha1 E) fieldValues wantFieldCount)) (\<lambda>(fieldsJSON, checksum).
     bindE (or400 (desiredCards targetNT targetTemplates fieldValues)) (\<lambda>desired.
     bindE (parseNoteTags f (n_Tags note)) (\<lambda>tags.
     if target \<noteq> n_NoteTypeID note \<and> form_get f ''confirm_note_type_change'' \<noteq> ''1''
     then bindE (orServerError (ListCardsForNote db noteID)) (\<lambda>existing.
          Inr (View ''note_form'' 200 (ConfirmNoteTypeChange u (note, manage) nt targetNT
            (ordinal_diff existing (map dc_Ordinal desired)) (ordinal_diff (map dc_Ordinal desired) existing)
            fieldValues (form_get f ''tags'')), db))
     else bindE (in_tx db (bindE (liftE note_save_error (UpdateNoteWithCards (he_newCard E) db (he_dbnow E) (us_ID u) noteID target
              fieldsJSON tags checksum desired)) (\<lambda>db'. Inr ((), db')))) (\<lambda>(_, db').
          Inr (Http (redirect (deck_url E (n_DeckID note))), db'))))))))))))))"

section \<open>Deleting and moving\<close>

definition post_note_delete :: "http_env \<Rightarrow> content_db \<Rightarrow> user option \<Rightarrow> string \<Rightarrow> note_form reply \<times> content_db" where
  "post_note_delete E db user rawID = signed_in_tx db user (\<lambda>u.
     bindE (pathUUID E rawID) (\<lambda>noteID.
     bindE (orNotFoundPage (GetNoteForContentEdit db (us_ID u) noteID)) (\<lambda>(note, _).
     bindE (orServerError (DeleteNote db noteID (us_ID u))) (\<lambda>(n, db').
     bindE (unlessE (n = 0) notFoundPage) (\<lambda>_.
     Inr (Http (redirect (deck_url E (n_DeckID note))), db'))))))"

definition post_note_move :: "http_env \<Rightarrow> content_db \<Rightarrow> user option \<Rightarrow> string \<Rightarrow> post_form \<Rightarrow> note_form reply \<times> content_db" where
  "post_note_move E db user rawID form = signed_in_tx db user (\<lambda>u.
     bindE (pathUUID E rawID) (\<lambda>noteID.
     bindE (parseForm form) (\<lambda>f.
     bindE (form_uuid E f ''target_deck_id'') (\<lambda>target.
     bindE (in_tx db (bindE (orNotFoundPage (MoveNote db (he_dbnow E) (us_ID u) noteID target)) (\<lambda>db'. Inr ((), db')))) (\<lambda>(_, db').
     Inr (Http (redirect (deck_url E target)), db'))))))"

section \<open>Bulk edits\<close>

definition maxBulkSelection :: nat where "maxBulkSelection = nat notesPageSize"

definition parseBulkNoteIDs :: "http_env \<Rightarrow> (string \<Rightarrow> string list) \<Rightarrow> response + uuid list" where
  "parseBulkNoteIDs E f =
     (let raw = f ''note_id'' in
      if raw = [] then Inl (text_response 400 ''select at least one note'')
      else if length raw > maxBulkSelection
      then Inl (text_response 400 (''too many notes selected (max '' @ Itoa (int maxBulkSelection) @ '')''))
      else mapE (\<lambda>s. case uu_Scan (he_uuid E) s of None \<Rightarrow> Inl badRequest | Some u \<Rightarrow> Inr u) raw)"

definition parseBulkRequest :: "http_env \<Rightarrow> string \<Rightarrow> post_form \<Rightarrow> response + uuid \<times> (string \<Rightarrow> string list) \<times> uuid list" where
  "parseBulkRequest E rawID form =
     bindE (pathUUID E rawID) (\<lambda>deckID.
     bindE (parseForm form) (\<lambda>f.
     bindE (parseBulkNoteIDs E f) (\<lambda>ids. Inr (deckID, f, ids))))"

definition parseBulkTags :: "(string \<Rightarrow> string list) \<Rightarrow> response + string list" where
  "parseBulkTags f =
     (let tags = parseTags (form_get f ''tags'')
      in if tags = [] then Inl (text_response 400 ''enter at least one tag'') else Inr tags)"

text \<open>Checked as a 64-bit integer, before the narrowing.\<close>

definition parseBulkReleaseDay :: "(string \<Rightarrow> string list) \<Rightarrow> response + int" where
  "parseBulkReleaseDay f =
     (let raw = TrimSpace (form_get f ''release_day'');
          bad = text_response 400 (''lesson must be between 0 and '' @ Itoa MaxReleaseDay @ '', or blank to clear it'')
      in if raw = [] then Inr 0
         else case Atoi raw of
           None \<Rightarrow> Inl bad
         | Some v \<Rightarrow> if v < 0 \<or> v > MaxReleaseDay then Inl bad else Inr (wrap32 v))"

definition bulk_dest :: "http_env \<Rightarrow> uuid \<Rightarrow> (string \<Rightarrow> string list) \<Rightarrow> string" where
  "bulk_dest E deckID f =
     deck_url E deckID
     @ (case decodeNoteCursor (he_uuid E) (form_get f ''notesCursor'') of
          None \<Rightarrow> []
        | Some cur \<Rightarrow> if nc_atStart cur then [] else ''?notesCursor='' @ encodeNoteCursor (he_uuid E) cur)
     @ ''#notes''"

definition finishBulk :: "http_env \<Rightarrow> uuid \<Rightarrow> (string \<Rightarrow> string list) \<Rightarrow> content_error + nat \<times> content_db
    \<Rightarrow> response + note_form reply \<times> content_db" where
  "finishBulk E deckID f result =
     bindE (orServerError result) (\<lambda>(n, db').
     bindE (unlessE (n = 0) notFoundPage) (\<lambda>_.
     Inr (Http (redirect (bulk_dest E deckID f)), db')))"

datatype bulk_action = BulkDelete | BulkTagAdd | BulkTagRemove | BulkReleaseDay

definition post_bulk :: "bulk_action \<Rightarrow> http_env \<Rightarrow> content_db \<Rightarrow> user option \<Rightarrow> string \<Rightarrow> post_form \<Rightarrow> note_form reply \<times> content_db" where
  "post_bulk act E db user rawID form = signed_in_tx db user (\<lambda>u.
     bindE (parseBulkRequest E rawID form) (\<lambda>(deckID, f, ids).
     case act of
       BulkDelete \<Rightarrow> finishBulk E deckID f (BulkDeleteNotes db ids deckID (us_ID u))
     | BulkTagAdd \<Rightarrow>
         bindE (parseBulkTags f) (\<lambda>tags.
         bindE (or400 (validateTags tags [])) (\<lambda>_.
         finishBulk E deckID f (BulkAddNoteTags db (he_dbnow E) tags ids deckID (us_ID u) (int maxTagsPerNote))))
     | BulkTagRemove \<Rightarrow>
         bindE (parseBulkTags f) (\<lambda>tags.
         finishBulk E deckID f (BulkRemoveNoteTags db (he_dbnow E) tags ids deckID (us_ID u)))
     | BulkReleaseDay \<Rightarrow>
         bindE (parseBulkReleaseDay f) (\<lambda>releaseDay.
         finishBulk E deckID f (BulkSetNoteReleaseDay db (he_dbnow E) releaseDay ids deckID (us_ID u)))))"

section \<open>Suspending\<close>

definition post_suspend_cards :: "http_env \<Rightarrow> content_db \<Rightarrow> user option \<Rightarrow> string \<Rightarrow> string \<Rightarrow> note_form reply \<times> content_db" where
  "post_suspend_cards E db user rawDeck rawNote = signed_in_tx db user (\<lambda>u.
     bindE (pathUUID E rawDeck) (\<lambda>deckID.
     bindE (pathUUID E rawNote) (\<lambda>noteID.
     bindE (orServerError (ToggleSuspendCardsForNote db (he_dbnow E) (us_ID u) noteID deckID)) (\<lambda>(n, db').
     bindE (unlessE (n = 0) notFoundPage) (\<lambda>_.
     Inr (Http (redirect (deck_url E deckID @ ''#notes'')), db'))))))"

end
