(* ===== verification/Http_Deck_Lemmas.thy ===== *)
theory Http_Deck_Lemmas
  imports Http_Decks
begin

text \<open>
  The settings form of a deck: what the page shows after a save is what the form said.
\<close>

section \<open>The form\<close>

definition given :: "string \<Rightarrow> string option" where
  "given value = (if TrimSpace value = [] then None else Some (TrimSpace value))"

definition small_number :: "string \<Rightarrow> bool" where
  "small_number value \<longleftrightarrow>
     (case given value of None \<Rightarrow> True | Some raw \<Rightarrow> (case Atoi raw of None \<Rightarrow> True | Some v \<Rightarrow> v < 2 ^ 31))"

lemma form_number_small:
  assumes "form_number bound value = Inr x" "small_number value" "bound < 2 ^ 31"
  shows "x = map_option (\<lambda>raw. the (Atoi raw)) (given value)" "pred_option (\<lambda>v. 0 \<le> v \<and> v \<le> bound) x"
proof -
  have w: "wrap32 v = v" if "0 \<le> v" "v < 2 ^ 31" for v
    using that by (intro wrap32_id) (simp_all add: int_bounds)
  from assms show "x = map_option (\<lambda>raw. the (Atoi raw)) (given value)" "pred_option (\<lambda>v. 0 \<le> v \<and> v \<le> bound) x"
    by (cases "Atoi (TrimSpace value)"; auto simp: form_number_def given_def small_number_def Let_def w split: if_splits)+
qed

lemma form_choice_given: "form_choice valid value = Inr x \<Longrightarrow> x = given value \<and> pred_option valid x"
  by (auto simp: form_choice_def given_def Let_def split: if_splits)

lemma NewCalendar_Inr: "NewCalendar startDate days skip = Inr c \<Longrightarrow> calendar_wf c"
  by (auto simp: NewCalendar_def bindE_eq_Inr dest: calendarFromWire_Inr)

lemma form_calendar_wf: "form_calendar f = Inr cal \<Longrightarrow> pred_option calendar_wf cal"
  by (auto simp: form_calendar_def Let_def dest: NewCalendar_Inr split: if_splits sum.splits)

text \<open>
  A number beyond 31 bits passes the test when its low 32 bits do, and it is stored as these: 4294967301 as 5,
  and 2147483648 as a negative number, which the reader replaces by the default.
\<close>

lemma TrimSpace_Itoa: "0 \<le> v \<Longrightarrow> TrimSpace (Itoa v) = Itoa v"
proof -
  assume "0 \<le> v"
  then have "list_all is_digit (Itoa v)" "Itoa v \<noteq> []" by (simp_all add: Itoa_def FormatUint_digits)
  then have "is_digit (hd (Itoa v))" "is_digit (last (Itoa v))" by (simp_all add: list_all_iff)
  with \<open>Itoa v \<noteq> []\<close> show ?thesis by (intro TrimSpace_id) (simp_all add: digit_not_space)
qed

lemma form_number_wraps:
  assumes "0 \<le> v" "v < 2 ^ 63" "wrap32 v \<le> bound"
  shows "form_number bound (Itoa v) = Inr (Some (wrap32 v))"
proof -
  have "Itoa v \<noteq> []" using assms by (simp add: Itoa_def)
  moreover have "Atoi (Itoa v) = Some v" using assms by (simp add: Atoi_def ParseInt_Itoa in_range_def)
  ultimately show ?thesis using assms by (simp add: form_number_def TrimSpace_Itoa Let_def)
qed

definition number_saved :: "string \<Rightarrow> int \<Rightarrow> int" where
  "number_saved value old = (case given value of None \<Rightarrow> old | Some raw \<Rightarrow> the (Atoi raw))"

definition text_saved :: "string \<Rightarrow> string \<Rightarrow> string" where
  "text_saved value old = (case given value of None \<Rightarrow> old | Some raw \<Rightarrow> raw)"

definition calendar_saved :: "(string \<Rightarrow> string list) \<Rightarrow> calendar \<Rightarrow> calendar" where
  "calendar_saved f old =
     (if form_get f ''calendar_clear'' \<noteq> [] then no_calendar
      else case form_calendar f of Inr (Some c) \<Rightarrow> c | _ \<Rightarrow> old)"

text \<open>What a deck with preset \<open>j\<close> is after the form was saved: every setting the form gives reads as given, the others as before.\<close>

definition reads_as_form :: "(string \<Rightarrow> string list) \<Rightarrow> json \<Rightarrow> json \<Rightarrow> bool" where
  "reads_as_form f j j' \<longleftrightarrow>
     NewPerDay (Some j') = number_saved (form_get f ''new_per_day'') (NewPerDay (Some j))
     \<and> RevPerDay (Some j') = number_saved (form_get f ''rev_per_day'') (RevPerDay (Some j))
     \<and> DueLookAheadMinutes (Some j') = number_saved (form_get f ''due_look_ahead_minutes'') (DueLookAheadMinutes (Some j))
     \<and> ParsePriority (Some j') = text_saved (form_get f ''priority'') (ParsePriority (Some j))
     \<and> ParseRevOrder (Some j') = text_saved (form_get f ''rev_order'') (ParseRevOrder (Some j))
     \<and> ParseCalendar (Some j') = calendar_saved f (ParseCalendar (Some j))"

lemma saved_as_form:
  assumes form: "deck_form f = Inr (up, cal)" and saved: "saved_as up cal j j'"
    and small: "list_all (\<lambda>k. small_number (form_get f k)) [''new_per_day'', ''rev_per_day'', ''due_look_ahead_minutes'']"
  shows "reads_as_form f j j'"
proof -
  from form obtain n r p ord l where F: "form_number MaxNewPerDay (form_get f ''new_per_day'') = Inr n"
    "form_number MaxRevPerDay (form_get f ''rev_per_day'') = Inr r" "form_choice Priority_Valid (form_get f ''priority'') = Inr p"
    "form_choice RevOrder_Valid (form_get f ''rev_order'') = Inr ord"
    "form_number MaxDueLookAheadMinutes (form_get f ''due_look_ahead_minutes'') = Inr l" "form_calendar f = Inr cal"
    and up: "up_NewPerDay up = n" "up_RevPerDay up = r" "up_Priority up = p" "up_RevOrder up = ord"
      "up_DueLookAheadMinutes up = l" "up_ClearCalendar up = (form_get f ''calendar_clear'' \<noteq> [])"
    by (auto simp: deck_form_def Let_def bindE_eq_Inr)
  have "n = map_option (\<lambda>raw. the (Atoi raw)) (given (form_get f ''new_per_day''))"
    "r = map_option (\<lambda>raw. the (Atoi raw)) (given (form_get f ''rev_per_day''))"
    "l = map_option (\<lambda>raw. the (Atoi raw)) (given (form_get f ''due_look_ahead_minutes''))"
    using small form_number_small(1) [OF F(1)] form_number_small(1) [OF F(2)] form_number_small(1) [OF F(5)]
    by (simp_all add: preset_bounds)
  moreover have "p = given (form_get f ''priority'')" "ord = given (form_get f ''rev_order'')"
    using form_choice_given [OF F(3)] form_choice_given [OF F(4)] by simp_all
  ultimately show ?thesis
    using saved F(6) unfolding saved_as_def up reads_as_form_def
    by (simp add: saved_def number_saved_def text_saved_def calendar_saved_def split: option.split)
qed

lemma deck_form_ok:
  assumes form: "deck_form f = Inr (up, cal)"
    and small: "list_all (\<lambda>k. small_number (form_get f k)) [''new_per_day'', ''rev_per_day'', ''due_look_ahead_minutes'']"
  shows "values_ok up" "up_Calendar up = map_option calendar_json cal" "pred_option calendar_wf cal"
    "up_Name up = TrimSpace (form_get f ''name'')" "up_Description up = form_get f ''description''"
proof -
  from form obtain n r p ord l where F: "form_number MaxNewPerDay (form_get f ''new_per_day'') = Inr n"
    "form_number MaxRevPerDay (form_get f ''rev_per_day'') = Inr r" "form_choice Priority_Valid (form_get f ''priority'') = Inr p"
    "form_choice RevOrder_Valid (form_get f ''rev_order'') = Inr ord"
    "form_number MaxDueLookAheadMinutes (form_get f ''due_look_ahead_minutes'') = Inr l" "form_calendar f = Inr cal"
    and up: "up_NewPerDay up = n" "up_RevPerDay up = r" "up_Priority up = p" "up_RevOrder up = ord"
      "up_DueLookAheadMinutes up = l" and rest: "up_Calendar up = map_option calendar_json cal"
      "up_Name up = TrimSpace (form_get f ''name'')" "up_Description up = form_get f ''description''"
    by (auto simp: deck_form_def Let_def bindE_eq_Inr)
  show "values_ok up"
    using small form_number_small(2) [OF F(1)] form_number_small(2) [OF F(2)] form_number_small(2) [OF F(5)]
      form_choice_given [OF F(3)] form_choice_given [OF F(4)]
    by (auto simp: values_ok_def up preset_bounds)
  show "pred_option calendar_wf cal" by (rule form_calendar_wf [OF F(6)])
  show "up_Calendar up = map_option calendar_json cal" "up_Name up = TrimSpace (form_get f ''name'')"
    "up_Description up = form_get f ''description''" by (fact rest)+
qed

section \<open>Saving the settings\<close>

lemma form_errors:
  "form_number b v = Inl e \<Longrightarrow> e = badRequest" "form_choice p v = Inl e \<Longrightarrow> e = badRequest"
  "form_calendar f = Inl e \<Longrightarrow> e = badRequest" "unlessE bad badRequest = Inl e \<Longrightarrow> e = badRequest"
  by (auto simp: form_number_def form_choice_def form_calendar_def unlessE_def Let_def split: if_splits option.splits sum.splits)

lemma bindE_errE:
  assumes "bindE m k = Inl e"
  obtains "m = Inl e" | x where "m = Inr x" "k x = Inl e"
  using assms by (cases m) auto

lemma deck_form_err: "deck_form f = Inl e \<Longrightarrow> e = badRequest"
  unfolding deck_form_def Let_def by (elim bindE_errE) (auto dest: form_errors)

lemma post_deck_edit_runs:
  assumes "post_deck_edit E db (Some u) rawID (Some f) = (Http r, db')" "rp_Status r = 303"
    and "uu_Scan (he_uuid E) rawID = Some deckID"
  shows "\<exists>up cal n. deck_form f = Inr (up, cal) \<and> UpdateDeck db (he_dbnow E) up deckID (us_ID u) = Inr (n, db') \<and> n \<noteq> 0"
proof -
  let ?err = "\<lambda>e. if e = UniqueViolation ''decks_owner_id_name_key''
    then text_response 409 ''a deck with that name already exists'' else serverError"
  have bad: "rp_Status badRequest = 400" "rp_Status (?err e) \<noteq> 303" "rp_Status notFoundPage = 404" for e
    by (simp_all add: badRequest_def notFoundPage_def serverError_def text_response_def page_def)
  have run: "post_deck_edit E db (Some u) rawID (Some f) = finish db (bindE (deck_form f) (\<lambda>(up, _).
      bindE (liftE ?err (UpdateDeck db (he_dbnow E) up deckID (us_ID u))) (\<lambda>(n, db').
      bindE (unlessE (n = 0) notFoundPage) (\<lambda>_. Inr (Http (redirect (deck_url E deckID)), db')))))"
    by (simp add: post_deck_edit_def signed_in_tx_def RequireUser_def pathUUID_def parseForm_def assms(3))
  have "deck_form f \<noteq> Inl e" for e
    using deck_form_err [of f e] assms(1,2) bad(1) by (auto simp: run finish_def)
  then obtain up cal where F: "deck_form f = Inr (up, cal)" by (metis surj_pair sum.exhaust)
  with assms(1) have *: "finish db (bindE (liftE ?err (UpdateDeck db (he_dbnow E) up deckID (us_ID u))) (\<lambda>(n, db').
       bindE (unlessE (n = 0) notFoundPage) (\<lambda>_. Inr (Http (redirect (deck_url E deckID)), db')))) = (Http r :: user reply, db')"
    by (simp add: run)
  show ?thesis
  proof (cases "UpdateDeck db (he_dbnow E) up deckID (us_ID u)")
    case (Inl e)
    with * bad(2) [of e] assms(2) show ?thesis by (auto simp: finish_def)
  next
    case (Inr x)
    obtain n db1 where x: "x = (n, db1)" by (cases x)
    with * Inr bad(3) assms(2) have "n \<noteq> 0 \<and> db1 = db'" by (auto simp: finish_def unlessE_def split: if_splits)
    with F Inr x show ?thesis by blast
  qed
qed

text \<open>C39: saving the settings form of a deck whose three numbers are below 2^31 (small_number; a larger one is cut to
  its low 32 bits before the bound is tested and is stored as these, form_number_wraps): when the page answers
  with its redirect, the user holds the right to edit this deck's settings; the deck has the name and description
  of the form; each setting the form gives (limits, priority, order, look-ahead, calendar, or the calendar's
  removal) is what the reviewer then reads, each blank one is as before; and nothing else in the database has
  changed.\<close>

theorem deck_settings_saved:
  assumes "content_keys db" and "post_deck_edit E db (Some u) rawID (Some f) = (Http r, db')" and "rp_Status r = 303"
    and "uu_Scan (he_uuid E) rawID = Some deckID"
    and "row_of dk_ID deckID (cd_decks db) = Some d" and "preset_shape (dk_Preset d)"
    and "list_all (\<lambda>k. small_number (form_get f k)) [''new_per_day'', ''rev_per_day'', ''due_look_ahead_minutes'']"
  shows "may db deckID (us_ID u) can_edit_settings
    \<and> (\<exists>j. preset_shape j \<and> reads_as_form f (dk_Preset d) j
        \<and> row_of dk_ID deckID (cd_decks db') = Some (d\<lparr>dk_Name := TrimSpace (form_get f ''name''),
             dk_Description := form_get f ''description'', dk_Preset := j, dk_ModifiedAt := pg_timestamp (he_dbnow E)\<rparr>))
    \<and> (\<forall>x. x \<noteq> deckID \<longrightarrow> row_of dk_ID x (cd_decks db') = row_of dk_ID x (cd_decks db))
    \<and> db' = db\<lparr>cd_decks := cd_decks db'\<rparr>"
proof -
  from post_deck_edit_runs [OF assms(2-4)] obtain up cal n where F: "deck_form f = Inr (up, cal)"
    and U: "UpdateDeck db (he_dbnow E) up deckID (us_ID u) = Inr (n, db')" "n \<noteq> 0" by blast
  note ok = deck_form_ok [OF F assms(7)]
  from UpdateDeck_saves [OF assms(1) U assms(5,6) ok(1-3)] obtain j where may: "may db deckID (us_ID u) can_edit_settings"
    and j: "saved_as up cal (dk_Preset d) j"
    and db': "db' = db\<lparr>cd_decks := map_rows (\<lambda>x. dk_ID x = deckID) (\<lambda>x. x\<lparr>dk_Name := up_Name up,
      dk_Description := up_Description up, dk_Preset := j, dk_ModifiedAt := pg_timestamp (he_dbnow E)\<rparr>) (cd_decks db)\<rparr>"
    by blast
  let ?g = "\<lambda>x. x\<lparr>dk_Name := up_Name up, dk_Description := up_Description up, dk_Preset := j,
      dk_ModifiedAt := pg_timestamp (he_dbnow E)\<rparr>"
  have rows: "row_of dk_ID x (cd_decks db') = map_option (\<lambda>r. if dk_ID r = deckID then ?g r else r) (row_of dk_ID x (cd_decks db))" for x
    unfolding db' by (simp add: row_of_map_rows)
  have row: "row_of dk_ID deckID (cd_decks db') = Some (d\<lparr>dk_Name := TrimSpace (form_get f ''name''),
       dk_Description := form_get f ''description'', dk_Preset := j, dk_ModifiedAt := pg_timestamp (he_dbnow E)\<rparr>)"
    unfolding rows assms(5) ok(4,5) using row_of_Some [OF assms(5)] by simp
  have others: "row_of dk_ID x (cd_decks db') = row_of dk_ID x (cd_decks db)" if "x \<noteq> deckID" for x
    unfolding rows using row_of_Some [of dk_ID x "cd_decks db"] that by (cases "row_of dk_ID x (cd_decks db)") auto
  have "reads_as_form f (dk_Preset d) j" by (rule saved_as_form [OF F j assms(7)])
  moreover have "preset_shape j" using j by (simp add: saved_as_def)
  moreover have "db' = db\<lparr>cd_decks := cd_decks db'\<rparr>" unfolding db' by simp
  ultimately show ?thesis using may row others by blast
qed

definition demo_deck_form :: "string \<Rightarrow> string list" where
  "demo_deck_form k =
     (if k = ''name'' then [''Spanish''] else if k = ''new_per_day'' then [''30''] else if k = ''priority'' then [''new''] else [])"

definition demo_http_user :: user where
  "demo_http_user = new_user 1 0 [] [] [] []"

definition demo_http_env :: http_env where
  "demo_http_env = \<lparr>he_now = 0, he_dbnow = Day, he_zones = \<lparr>pz_local = (\<lambda>_ t. Some t), pz_instant = (\<lambda>_ t. Some t)\<rparr>,
     he_uuid = demo_uuid_text, he_lib = demo_lib, he_parseFloat = (\<lambda>_. (flt_0_9, True)), he_sha1 = (\<lambda>_. []), he_newID = 90,
     he_newCard = (\<lambda>i. 91 + word_of_int i),
     he_newIds = \<lparr>ni_field = (\<lambda>i. 200 + of_nat i), ni_template = (\<lambda>i. 300 + of_nat i), ni_card = (\<lambda>t n. 400 + n)\<rparr>,
     he_guid = Some ''guid''\<rparr>"

lemma deck_settings_saved_witness:
  "\<exists>db' d'. post_deck_edit demo_http_env demo_content (Some demo_http_user) (uu_String demo_uuid_text 10) (Some demo_deck_form)
      = (Http (redirect (deck_url demo_http_env 10)), db')
    \<and> row_of dk_ID 10 (cd_decks db') = Some d' \<and> dk_Name d' = ''Spanish'' \<and> NewPerDay (Some (dk_Preset d')) = 30
    \<and> RevPerDay (Some (dk_Preset d')) = 200 \<and> ParsePriority (Some (dk_Preset d')) = ''new''"
proof -
  let ?up = "\<lparr>up_Name = ''Spanish'', up_Description = [], up_NewPerDay = Some 30, up_RevPerDay = None, up_RevOrder = None,
      up_Priority = Some ''new'', up_DueLookAheadMinutes = None, up_Calendar = None, up_ClearCalendar = False\<rparr>"
  have f: "deck_form demo_deck_form = Inr (?up, None)" by code_simp
  have id: "uu_Scan (he_uuid demo_http_env) (uu_String demo_uuid_text 10) = Some 10"
    using demo_uuid_text_ok by (simp add: uuid_text_ok_def demo_http_env_def)
  have vals: "values_ok ?up" by (simp add: values_ok_def preset_bounds Priority_Valid_def order_defs)
  have keys: "content_keys demo_content" using demo_content_wf(1) by (simp add: content_wf_def)
  obtain d where d: "row_of dk_ID 10 (cd_decks demo_content) = Some d" "preset_shape (dk_Preset d)" "dk_Preset d = JObj []"
    by (simp add: demo_content_def row_of_def demo_deck_def preset_shape_def obj_ok_def)
  have "\<exists>x. patched_preset (JObj []) ?up = Some x"
    using merge_saved [OF d(2) _ _, of ?up None] vals by (auto simp: d(3))
  then obtain x where x: "patched_preset (JObj []) ?up = Some x" ..
  have w: "deck_with demo_content 10 1 (\<lambda>a. can_view a \<and> can_edit_settings a) = Some (d, access_row 10 1 all_flags)"
    using d(1) by (simp add: deck_with_def access_of_def demo_content_def row_of_def access_row_def all_flags_def da_key_def)
  have c: "cd_refuses demo_content st = False" "cd_decks demo_content = [demo_deck 10 1 ''A'', demo_deck 11 1 ''B'']" for st
    by (simp_all add: demo_content_def)
  have "us_ID demo_http_user = 1" by (simp add: demo_http_user_def new_user_def)
  then have "\<exists>db'. UpdateDeck demo_content (he_dbnow demo_http_env) ?up 10 (us_ID demo_http_user) = Inr (1, db')"
    unfolding UpdateDeck_def by (simp add: w run_c_def d(3) x c demo_deck_def map_rows_def Let_def)
  then obtain db' where U: "UpdateDeck demo_content (he_dbnow demo_http_env) ?up 10 (us_ID demo_http_user) = Inr (1, db')" ..
  have p: "post_deck_edit demo_http_env demo_content (Some demo_http_user) (uu_String demo_uuid_text 10) (Some demo_deck_form)
      = (Http (redirect (deck_url demo_http_env 10)), db')"
    by (simp add: post_deck_edit_def signed_in_tx_def RequireUser_def pathUUID_def parseForm_def id f U finish_def unlessE_def)
  have small: "list_all (\<lambda>k. small_number (form_get demo_deck_form k)) [''new_per_day'', ''rev_per_day'', ''due_look_ahead_minutes'']"
    by code_simp
  have s: "rp_Status (redirect (deck_url demo_http_env 10)) = 303" by (simp add: redirect_def text_response_def)
  from deck_settings_saved [OF keys p s id d(1,2) small] obtain j where j: "reads_as_form demo_deck_form (dk_Preset d) j"
    "row_of dk_ID 10 (cd_decks db') = Some (d\<lparr>dk_Name := TrimSpace (form_get demo_deck_form ''name''),
       dk_Description := form_get demo_deck_form ''description'', dk_Preset := j, dk_ModifiedAt := pg_timestamp (he_dbnow demo_http_env)\<rparr>)"
    by blast
  have read: "number_saved (form_get demo_deck_form ''new_per_day'') 20 = 30" "number_saved (form_get demo_deck_form ''rev_per_day'') 200 = 200"
    "text_saved (form_get demo_deck_form ''priority'') PriorityDue = ''new''" "TrimSpace (form_get demo_deck_form ''name'') = ''Spanish''"
    "NewPerDay (Some (JObj [])) = 20" "RevPerDay (Some (JObj [])) = 200" "ParsePriority (Some (JObj [])) = PriorityDue"
    by code_simp+
  from j(1) have "NewPerDay (Some j) = 30" "RevPerDay (Some j) = 200" "ParsePriority (Some j) = ''new''"
    unfolding reads_as_form_def d(3) read by simp_all
  with p j(2) read(4) show ?thesis by simp
qed

end
