(* ===== verification/Http_System.thy ===== *)
theory Http_System
  imports Http_Notes Http_Deck_Lemmas
begin

text \<open>
  The deck, sharing, flag and note routes as one server: what a request answers and what it leaves in the
  database. Whatever requests arrive, the content tables stay well formed.
\<close>

section \<open>Requests\<close>

datatype deck_request =
    GetDeck string
  | GetDeckEdit
  | PostDeckEdit post_form
  | PostDeckDelete
  | PostDeckFsrs post_form
  | GetAccess
  | PostAccess post_form
  | PostAccessEdit string post_form
  | PostAccessDelete string
  | PostAccessReset string
  | PostCardFlag post_form
  | GetFlags string
  | PostFlagResolve string
  | GetNoteNew string
  | PostNotes post_form
  | PostBulk bulk_action post_form
  | PostSuspendCards string

datatype note_request = GetNoteEdit | PostNoteEdit post_form | PostNoteDelete | PostNoteMove post_form

datatype request = GetDecks | GetDeckNew | PostDecks post_form | OnDeck string deck_request | OnNote string note_request

text \<open>A response without a page's content, or \<open>None\<close> for a page that shows some.\<close>

definition plain :: "'v reply \<Rightarrow> response option" where
  "plain r = (case r of Http x \<Rightarrow> Some x | View _ _ _ \<Rightarrow> None)"

definition reads :: "content_db \<Rightarrow> 'v reply \<Rightarrow> response option \<times> content_db" where
  "reads db r = (plain r, db)"

definition writes :: "'v reply \<times> content_db \<Rightarrow> response option \<times> content_db" where
  "writes = map_prod plain id"

fun serve_deck :: "http_env \<Rightarrow> (string \<Rightarrow> store_error + user) \<Rightarrow> content_db \<Rightarrow> user option \<Rightarrow> string \<Rightarrow> deck_request
    \<Rightarrow> response option \<times> content_db" where
  "serve_deck E byEmail db user raw (GetDeck cursor) = reads db (get_deck E db user raw cursor)"
| "serve_deck E byEmail db user raw GetDeckEdit = reads db (get_deck_edit E db user raw)"
| "serve_deck E byEmail db user raw (PostDeckEdit form) = writes (post_deck_edit E db user raw form)"
| "serve_deck E byEmail db user raw PostDeckDelete = writes (post_deck_delete E db user raw)"
| "serve_deck E byEmail db user raw (PostDeckFsrs form) = writes (post_deck_fsrs E db user raw form)"
| "serve_deck E byEmail db user raw GetAccess = reads db (get_access E db user raw)"
| "serve_deck E byEmail db user raw (PostAccess form) = writes (post_access E byEmail db user raw form)"
| "serve_deck E byEmail db user raw (PostAccessEdit rawUser form) = writes (post_access_edit E db user raw rawUser form)"
| "serve_deck E byEmail db user raw (PostAccessDelete rawUser) = writes (post_access_delete E db user raw rawUser)"
| "serve_deck E byEmail db user raw (PostAccessReset rawUser) = writes (post_access_reset E db user raw rawUser)"
| "serve_deck E byEmail db user raw (PostCardFlag form) = writes (post_card_flag E db user raw form)"
| "serve_deck E byEmail db user raw (GetFlags status) = reads db (get_flags E db user raw status)"
| "serve_deck E byEmail db user raw (PostFlagResolve rawFlag) = writes (post_flag_resolve E db user raw rawFlag)"
| "serve_deck E byEmail db user raw (GetNoteNew rawNoteType) = reads db (get_note_new E db user raw rawNoteType)"
| "serve_deck E byEmail db user raw (PostNotes form) = writes (post_notes E db user raw form)"
| "serve_deck E byEmail db user raw (PostBulk act form) = writes (post_bulk act E db user raw form)"
| "serve_deck E byEmail db user raw (PostSuspendCards rawNote) = writes (post_suspend_cards E db user raw rawNote)"

fun serve_note :: "http_env \<Rightarrow> content_db \<Rightarrow> user option \<Rightarrow> string \<Rightarrow> note_request \<Rightarrow> response option \<times> content_db" where
  "serve_note E db user raw GetNoteEdit = reads db (get_note_edit E db user raw)"
| "serve_note E db user raw (PostNoteEdit form) = writes (post_note_edit E db user raw form)"
| "serve_note E db user raw PostNoteDelete = writes (post_note_delete E db user raw)"
| "serve_note E db user raw (PostNoteMove form) = writes (post_note_move E db user raw form)"

fun serve :: "http_env \<Rightarrow> (string \<Rightarrow> store_error + user) \<Rightarrow> content_db \<Rightarrow> user option \<Rightarrow> request
    \<Rightarrow> response option \<times> content_db" where
  "serve E byEmail db user GetDecks = reads db (get_decks E db user)"
| "serve E byEmail db user GetDeckNew = reads db (get_deck_new user)"
| "serve E byEmail db user (PostDecks form) = writes (post_decks E db user form)"
| "serve E byEmail db user (OnDeck raw req) = serve_deck E byEmail db user raw req"
| "serve E byEmail db user (OnNote raw req) = serve_note E db user raw req"

lemma reads_db [simp]: "snd (reads db r) = db" by (simp add: reads_def)
lemma writes_db [simp]: "snd (writes x) = snd x" by (simp add: writes_def)

section \<open>The statements keep the content well formed\<close>

text \<open>Tables that the invariant does not read.\<close>

lemma content_inv_ignores [simp]:
  "content_inv (db\<lparr>cd_params := ps\<rparr>) = content_inv db" "content_inv (db\<lparr>cd_flags := fs\<rparr>) = content_inv db"
  by (simp_all add: content_inv_def content_wf_def content_keys_def content_refs_def has_card_def no_deck_stranded_def
    deck_covered_def)

lemma content_inv_same_access:
  "content_wf db' \<Longrightarrow> no_deck_stranded db \<Longrightarrow> cd_decks db' = cd_decks db \<Longrightarrow> cd_access db' = cd_access db \<Longrightarrow> content_inv db'"
  by (simp add: content_inv_def no_deck_stranded_def deck_covered_def)

text \<open>A statement that changes decks in place, keeping their ids and owners.\<close>

lemma content_inv_decks:
  assumes inv: "content_inv db"
    and ids: "map (\<lambda>d. (dk_ID d, dk_OwnerID d)) rows = map (\<lambda>d. (dk_ID d, dk_OwnerID d)) (cd_decks db)"
  shows "content_inv (db\<lparr>cd_decks := rows\<rparr>)"
proof -
  have id: "map dk_ID rows = map dk_ID (cd_decks db)"
    using arg_cong [OF ids, of "map fst"] by (simp add: comp_def)
  have ex: "(\<exists>d\<in>set rows. dk_ID d = i) = (\<exists>d\<in>set (cd_decks db). dk_ID d = i)" for i by (rule ex_key_cong [OF id])
  have exo: "(\<exists>d\<in>set rows. dk_ID d = i \<and> dk_OwnerID d = w) = (\<exists>d\<in>set (cd_decks db). dk_ID d = i \<and> dk_OwnerID d = w)" for i w
    using ex_key_cong [OF ids, of "(i, w)"] by simp
  have all: "(\<forall>d\<in>set rows. P (dk_ID d)) = (\<forall>d\<in>set (cd_decks db). P (dk_ID d))" for P
    using arg_cong [OF id, of set] by (metis (no_types, lifting) imageE image_eqI list.set_map)
  show ?thesis
    using inv unfolding content_inv_def content_wf_def content_keys_def content_refs_def no_deck_stranded_def
    by (simp add: ex exo id pk_def has_card_def deck_covered_def all [of "\<lambda>i. (\<exists>a\<in>set (cd_access db). da_DeckID a = i \<and> can_manage_access a)
      \<and> (\<exists>a\<in>set (cd_access db). da_DeckID a = i \<and> can_delete a)"])
qed

lemma UpdateDeck_inv:
  assumes "content_inv db" "UpdateDeck db now up d u = Inr (n, db')"
  shows "content_inv db'"
proof -
  from assms(2) have "db' = db \<or> (\<exists>p. db' = db\<lparr>cd_decks := map_rows (\<lambda>x. dk_ID x = d)
      (\<lambda>x. x\<lparr>dk_Name := up_Name up, dk_Description := up_Description up, dk_Preset := p, dk_ModifiedAt := pg_timestamp now\<rparr>) (cd_decks db)\<rparr>)"
    by (auto simp: UpdateDeck_def bindE_eq_Inr Let_def split: option.splits if_splits)
  then show ?thesis
    using assms(1) by (elim disjE exE) (simp_all add: content_inv_decks map_rows_def)
qed

lemma delete_notes_inv:
  assumes "content_inv db"
  shows "content_inv (delete_notes p db)"
proof (rule content_inv_same_access)
  let ?gone = "n_ID ` set (filter p (cd_notes db))"
  let ?db1 = "delete_cards (\<lambda>c. c_NoteID c \<in> ?gone) db"
  have wf: "content_wf db" and "no_deck_stranded db" using assms by (simp_all add: content_inv_def)
  show "no_deck_stranded db" by fact
  show "cd_decks (delete_notes p db) = cd_decks db" "cd_access (delete_notes p db) = cd_access db"
    by (simp_all add: delete_notes_def)
  have D: "delete_notes p db = ?db1\<lparr>cd_notes := filter (\<lambda>n. \<not> p n) (cd_notes db)\<rparr>" by (simp add: delete_notes_def Let_def)
  from wf have keys: "content_keys (delete_notes p db)"
    by (simp add: D content_wf_def content_keys_def pk_def distinct_map_filter)
  have unique: "n = m" if "n \<in> set (cd_notes db)" "m \<in> set (cd_notes db)" "n_ID n = n_ID m" for n m
    using wf that by (auto simp: content_wf_def content_keys_def dest: pk_unique)
  from wf have cards: "\<exists>n\<in>set (cd_notes db). n_ID n = c_NoteID c" "\<exists>d\<in>set (cd_decks db). dk_ID d = c_DeckID c"
    if "c \<in> set (cd_cards db)" for c
    using that by (simp_all add: content_wf_def content_refs_def)
  have kept: "\<exists>n\<in>set (cd_notes db). \<not> p n \<and> n_ID n = c_NoteID c" if c: "c \<in> set (cd_cards db)" "c_NoteID c \<notin> ?gone" for c
  proof -
    from cards(1) [OF c(1)] obtain n where n: "n \<in> set (cd_notes db)" "n_ID n = c_NoteID c" by blast
    have "\<not> p n"
    proof
      assume "p n"
      with n(1) have "n_ID n \<in> ?gone" by simp
      with c(2) n(2) show False by simp
    qed
    with n show ?thesis by blast
  qed
  have "\<forall>s\<in>set (cd_states ?db1). \<exists>c\<in>set (cd_cards ?db1). c_ID c = us_CardID s"
    by (rule delete_cards_states) (use wf in \<open>simp add: content_wf_def content_refs_def\<close>)
  then have states: "\<forall>s\<in>set (cd_states (delete_notes p db)). \<exists>c\<in>set (cd_cards (delete_notes p db)). c_ID c = us_CardID s"
    by (simp add: D)
  have refs: "content_refs (delete_notes p db)"
    unfolding content_refs_def
  proof (intro conjI states)
    show "\<forall>c\<in>set (cd_cards (delete_notes p db)). (\<exists>n\<in>set (cd_notes (delete_notes p db)). n_ID n = c_NoteID c)
        \<and> (\<exists>d\<in>set (cd_decks (delete_notes p db)). dk_ID d = c_DeckID c)"
      using cards kept by (simp add: D Bex_def)
    show "\<forall>n\<in>set (cd_notes (delete_notes p db)). \<exists>d\<in>set (cd_decks (delete_notes p db)). dk_ID d = n_DeckID n \<and> dk_OwnerID d = n_OwnerID n"
      "\<forall>a\<in>set (cd_access (delete_notes p db)). \<exists>d\<in>set (cd_decks (delete_notes p db)). dk_ID d = da_DeckID a"
      using wf by (simp_all add: D content_wf_def content_refs_def)
  qed
  have "has_card (delete_notes p db) n" if n: "n \<in> set (cd_notes db)" "\<not> p n" for n
  proof -
    from n wf obtain c where c: "c \<in> set (cd_cards db)" "c_NoteID c = n_ID n" by (auto simp: content_wf_def has_card_def)
    have "c_NoteID c \<notin> ?gone"
    proof
      assume "c_NoteID c \<in> ?gone"
      then obtain m where "m \<in> set (cd_notes db)" "p m" "n_ID m = c_NoteID c" by auto
      with unique [of m n] n c(2) show False by simp
    qed
    with c have "c \<in> set (cd_cards (delete_notes p db))" by (simp add: D)
    with c(2) show ?thesis unfolding has_card_def by blast
  qed
  then have "\<forall>n\<in>set (cd_notes (delete_notes p db)). has_card (delete_notes p db) n" by (simp add: delete_notes_def)
  with keys refs show "content_wf (delete_notes p db)" unfolding content_wf_def by blast
qed

lemma update_notes_inv:
  assumes inv: "content_inv db" and f: "\<And>n. n_ID (f n) = n_ID n" "\<And>n. n_Guid (f n) = n_Guid n" "\<And>n. n_OwnerID (f n) = n_OwnerID n"
    "\<And>n. n_DeckID (f n) = n_DeckID n"
  shows "content_inv (snd (update_notes p f db))"
proof -
  let ?rows = "map_rows p f (cd_notes db)"
  have guids: "map guid_key ?rows = map guid_key (cd_notes db)" by (simp add: map_rows_def guid_key_def f)
  have "content_wf (db\<lparr>cd_notes := ?rows\<rparr>)"
  proof (rule content_wf_notes)
    show "content_wf db" using inv by (simp add: content_inv_def)
    show "map n_ID ?rows = map n_ID (cd_notes db)" by (simp add: map_rows_def f)
    show "distinct (map guid_key ?rows)" unfolding guids using inv by (simp add: content_inv_def content_wf_def content_keys_def pk_def)
    show "\<forall>n\<in>set ?rows. \<exists>d\<in>set (cd_decks db). dk_ID d = n_DeckID n \<and> dk_OwnerID d = n_OwnerID n"
      using inv by (auto simp: map_rows_def f content_inv_def content_wf_def content_refs_def)
  qed
  then show ?thesis using inv by (intro content_inv_same_access [of _ db]) (simp_all add: update_notes_def content_inv_def)
qed

lemma content_inv_states:
  assumes "content_inv db" "\<forall>s\<in>set rows. \<exists>c\<in>set (cd_cards db). c_ID c = us_CardID s"
  shows "content_inv (db\<lparr>cd_states := rows\<rparr>)"
  using assms by (simp add: content_inv_def content_wf_def content_keys_def content_refs_def has_card_def no_deck_stranded_def
    deck_covered_def)

lemma set_put_row_update: "set (put_row k r t) \<subseteq> insert r (set t)"
  by (auto simp: put_row_def map_rows_def)

lemma set_put_rows: "set (foldl (\<lambda>t r. put_row k r t) t rows) \<subseteq> set t \<union> set rows"
proof (induction rows arbitrary: t)
  case (Cons r rows)
  from Cons [of "put_row k r t"] set_put_row_update [of k r t] show ?case by auto
qed simp

lemma suspend_row_card: "us_CardID (suspend_row db now u b c) = c"
  by (auto simp: suspend_row_def new_settings_row_def us_key_def dest!: row_of_Some split: option.splits)

lemma content_inv_put_states:
  assumes "content_inv db" "\<forall>r\<in>set rows. \<exists>c\<in>set (cd_cards db). c_ID c = us_CardID r"
  shows "content_inv (db\<lparr>cd_states := foldl (\<lambda>t r. put_row us_key r t) (cd_states db) rows\<rparr>)"
proof (rule content_inv_states [OF assms(1)], rule ballI)
  fix s assume "s \<in> set (foldl (\<lambda>t r. put_row us_key r t) (cd_states db) rows)"
  with set_put_rows have "s \<in> set (cd_states db) \<union> set rows" by (rule subsetD)
  moreover have "\<forall>s\<in>set (cd_states db). \<exists>c\<in>set (cd_cards db). c_ID c = us_CardID s"
    using assms(1) by (simp add: content_inv_def content_wf_def content_refs_def)
  ultimately show "\<exists>c\<in>set (cd_cards db). c_ID c = us_CardID s" using assms(2) by blast
qed

lemma ToggleSuspendCardsForNote_inv:
  assumes "content_inv db" "ToggleSuspendCardsForNote db now u noteID d = Inr (n, db')"
  shows "content_inv db'"
proof -
  define cs where "cs = (if (case access_of db d u of None \<Rightarrow> False | Some a \<Rightarrow> can_view a \<and> can_study a)
    then filter (\<lambda>c. c_NoteID c = noteID \<and> c_DeckID c = d) (cd_cards db) else [])"
  define b where "b = (\<not> list_all (suspended_for db u) cs)"
  have "db' = db\<lparr>cd_states := foldl (\<lambda>t r. put_row us_key r t) (cd_states db) (map (suspend_row db now u b \<circ> c_ID) cs)\<rparr>"
    using assms(2) unfolding ToggleSuspendCardsForNote_def Let_def cs_def [symmetric] b_def [symmetric] by simp
  moreover have "set cs \<subseteq> set (cd_cards db)" unfolding cs_def by auto
  then have "\<forall>r\<in>set (map (suspend_row db now u b \<circ> c_ID) cs). \<exists>c\<in>set (cd_cards db). c_ID c = us_CardID r"
    by (auto simp: suspend_row_card)
  ultimately show ?thesis using content_inv_put_states [OF assms(1)] by simp
qed

text \<open>The bulk statements.\<close>

lemma content_inv_update_notes:
  "content_inv db \<Longrightarrow> update_notes p f db = (k, db') \<Longrightarrow> (\<And>n. n_ID (f n) = n_ID n \<and> n_Guid (f n) = n_Guid n
     \<and> n_OwnerID (f n) = n_OwnerID n \<and> n_DeckID (f n) = n_DeckID n) \<Longrightarrow> content_inv db'"
  using update_notes_inv [of db f p] by simp

lemma bulk_inv:
  assumes "content_inv db"
  shows "BulkDeleteNotes db ids d u = Inr (n, db') \<Longrightarrow> content_inv db'"
    "BulkAddNoteTags db now tags ids d u k = Inr (n, db') \<Longrightarrow> content_inv db'"
    "BulkRemoveNoteTags db now tags ids d u = Inr (n, db') \<Longrightarrow> content_inv db'"
    "BulkSetNoteReleaseDay db now day ids d u = Inr (n, db') \<Longrightarrow> content_inv db'"
    "DeleteNote db noteID u = Inr (n, db') \<Longrightarrow> content_inv db'"
proof -
  note del = delete_notes_inv [OF assms]
  note upd = content_inv_update_notes [OF assms]
  show "BulkDeleteNotes db ids d u = Inr (n, db') \<Longrightarrow> content_inv db'" by (simp add: BulkDeleteNotes_def Let_def del)
  show "DeleteNote db noteID u = Inr (n, db') \<Longrightarrow> content_inv db'" by (simp add: DeleteNote_def Let_def del)
  show "BulkAddNoteTags db now tags ids d u k = Inr (n, db') \<Longrightarrow> content_inv db'"
    by (auto simp: BulkAddNoteTags_def Let_def bindE_eq_Inr split: if_splits elim!: upd)
  show "BulkRemoveNoteTags db now tags ids d u = Inr (n, db') \<Longrightarrow> content_inv db'"
    by (auto simp: BulkRemoveNoteTags_def elim!: upd [OF sym])
  show "BulkSetNoteReleaseDay db now day ids d u = Inr (n, db') \<Longrightarrow> content_inv db'"
    by (auto simp: BulkSetNoteReleaseDay_def Let_def bindE_eq_Inr split: if_splits elim!: upd)
qed

lemma flag_inv:
  assumes "content_inv db"
  shows "UpsertCardFlag db now i c d u s = Inr db' \<Longrightarrow> content_inv db'"
    "ResolveCardFlag db now u f d = Inr (n, db') \<Longrightarrow> content_inv db'"
    "UpsertDeckFsrsRetention db u d v r = Inr (n, db') \<Longrightarrow> content_inv db'"
  using assms by (auto simp: UpsertCardFlag_def ResolveCardFlag_def UpsertDeckFsrsRetention_def Let_def bindE_eq_Inr split: if_splits)

text \<open>The transactions, from \<^theory_text>\<open>Content_System\<close>.\<close>

lemma transaction_inv:
  assumes "content_inv db"
  shows "CreateDeckWithAccess db now newID owner name desc = Inr (d, db') \<Longrightarrow> content_inv db'"
    "GrantDeckAccess db target f dk u = Inr (n, db') \<Longrightarrow> content_inv db'"
    "SetDeckAccess db u f dk target = Inr db' \<Longrightarrow> content_inv db'"
    "RevokeDeckAccess db dk u target = Inr db' \<Longrightarrow> content_inv db'"
    "ResetDeckProgress db dk u target = Inr db' \<Longrightarrow> content_inv db'"
    "DeleteDeck db now dk u = Inr db' \<Longrightarrow> content_inv db'"
    "CreateNoteWithCards newCard db now noteID guid flds tags cs u ntID dk desired = Inr (note, db') \<Longrightarrow> content_inv db'"
    "UpdateNoteWithCards newCard db now u noteID ntID flds tags cs desired = Inr db' \<Longrightarrow> content_inv db'"
    "MoveNote db now u noteID dk = Inr db' \<Longrightarrow> content_inv db'"
  by (rule content_inv_step [OF assms], erule content_step.intros)+

section \<open>Requests keep it\<close>

lemma signed_in_tx_inv:
  assumes "P db" "\<And>u r db'. user = Some u \<Longrightarrow> h u = Inr (r, db') \<Longrightarrow> P db'"
  shows "P (snd (signed_in_tx db user h))"
  using assms by (auto simp: signed_in_tx_def RequireUser_def finish_def split: option.splits sum.splits)

lemma in_tx_eq_Inr: "in_tx db body = Inr (x, db') \<longleftrightarrow> body = Inr (x, db') \<and> \<not> cd_refuses db ''Begin'' \<and> \<not> cd_refuses db' ''Commit''"
  by (auto simp: in_tx_def bindE_eq_Inr orServerError_def)

lemma orError_Inr [simp]:
  "orServerError m = Inr x \<longleftrightarrow> m = Inr x" "orNotFoundPage m = Inr x \<longleftrightarrow> m = Inr x"
  by (simp_all add: orServerError_def orNotFoundPage_def)

lemma unlessE_Inr [simp]: "unlessE bad r = Inr x \<longleftrightarrow> \<not> bad" by (simp add: unlessE_def)

lemmas request_simps = bindE_eq_Inr in_tx_eq_Inr

lemma post_deck_edit_inv: "content_inv db \<Longrightarrow> content_inv (snd (post_deck_edit E db user raw form))"
  unfolding post_deck_edit_def by (rule signed_in_tx_inv, assumption) (clarsimp simp: request_simps; elim UpdateDeck_inv)

lemma post_deck_delete_inv: "content_inv db \<Longrightarrow> content_inv (snd (post_deck_delete E db user raw))"
  unfolding post_deck_delete_def by (rule signed_in_tx_inv, assumption) (clarsimp simp: request_simps; elim transaction_inv)

lemma post_deck_fsrs_inv: "content_inv db \<Longrightarrow> content_inv (snd (post_deck_fsrs E db user raw form))"
  unfolding post_deck_fsrs_def by (rule signed_in_tx_inv, assumption) (clarsimp simp: request_simps case_prod_beta; elim flag_inv; force)

lemma grantDeckAccess_inv: "content_inv db \<Longrightarrow> grantDeckAccess db target f d u = Inr (n, db') \<Longrightarrow> content_inv db'"
  by (clarsimp simp: grantDeckAccess_def bindE_eq_Inr; elim transaction_inv)

lemma post_access_inv: "content_inv db \<Longrightarrow> content_inv (snd (post_access E byEmail db user raw form))"
  unfolding post_access_def
  by (rule signed_in_tx_inv, assumption)
    ((clarsimp simp: bindE_eq_Inr split del: if_split)+, (simp add: bindE_eq_Inr split: sum.split_asm store_error.split_asm if_split_asm)+,
     (clarsimp simp: bindE_eq_Inr; elim grantDeckAccess_inv)?)

lemma post_access_edit_inv: "content_inv db \<Longrightarrow> content_inv (snd (post_access_edit E db user raw rawUser form))"
  unfolding post_access_edit_def by (rule signed_in_tx_inv, assumption) (clarsimp simp: request_simps access_change_def; elim transaction_inv)

lemma post_access_delete_inv: "content_inv db \<Longrightarrow> content_inv (snd (post_access_delete E db user raw rawUser))"
  unfolding post_access_delete_def by (rule signed_in_tx_inv, assumption) (clarsimp simp: request_simps access_change_def; elim transaction_inv)

lemma post_access_reset_inv: "content_inv db \<Longrightarrow> content_inv (snd (post_access_reset E db user raw rawUser))"
  unfolding post_access_reset_def by (rule signed_in_tx_inv, assumption) (clarsimp simp: request_simps access_change_def; elim transaction_inv)

lemma post_card_flag_inv: "content_inv db \<Longrightarrow> content_inv (snd (post_card_flag E db user raw form))"
  unfolding post_card_flag_def by (rule signed_in_tx_inv, assumption) (clarsimp simp: request_simps Let_def; elim flag_inv)

lemma post_flag_resolve_inv: "content_inv db \<Longrightarrow> content_inv (snd (post_flag_resolve E db user raw rawFlag))"
  unfolding post_flag_resolve_def by (rule signed_in_tx_inv, assumption) (clarsimp simp: request_simps; elim flag_inv)

lemma post_notes_inv: "content_inv db \<Longrightarrow> content_inv (snd (post_notes E db user raw form))"
  unfolding post_notes_def by (rule signed_in_tx_inv, assumption) (clarsimp simp: request_simps Let_def; elim transaction_inv)

lemma post_bulk_inv: "content_inv db \<Longrightarrow> content_inv (snd (post_bulk act E db user raw form))"
  unfolding post_bulk_def
  by (rule signed_in_tx_inv, assumption) (cases act; clarsimp simp: request_simps finishBulk_def; elim bulk_inv)

lemma post_suspend_cards_inv: "content_inv db \<Longrightarrow> content_inv (snd (post_suspend_cards E db user raw rawNote))"
  unfolding post_suspend_cards_def by (rule signed_in_tx_inv, assumption) (clarsimp simp: request_simps; elim ToggleSuspendCardsForNote_inv)

lemma post_note_edit_inv: "content_inv db \<Longrightarrow> content_inv (snd (post_note_edit E db user raw form))"
  unfolding post_note_edit_def Let_def
  by (rule signed_in_tx_inv, assumption)
    (clarsimp simp: request_simps split del: if_split, split if_split_asm; clarsimp simp: request_simps; elim transaction_inv)

lemma post_note_delete_inv: "content_inv db \<Longrightarrow> content_inv (snd (post_note_delete E db user raw))"
  unfolding post_note_delete_def by (rule signed_in_tx_inv, assumption) (clarsimp simp: request_simps; elim bulk_inv)

lemma post_note_move_inv: "content_inv db \<Longrightarrow> content_inv (snd (post_note_move E db user raw form))"
  unfolding post_note_move_def by (rule signed_in_tx_inv, assumption) (clarsimp simp: request_simps; elim transaction_inv)

lemma post_decks_inv: "content_inv db \<Longrightarrow> content_inv (snd (post_decks E db user form))"
  unfolding post_decks_def by (rule signed_in_tx_inv, assumption) (clarsimp simp: request_simps Let_def; elim transaction_inv)

lemmas route_inv = post_deck_edit_inv post_deck_delete_inv post_deck_fsrs_inv post_access_inv post_access_edit_inv
  post_access_delete_inv post_access_reset_inv post_card_flag_inv post_flag_resolve_inv post_notes_inv post_bulk_inv
  post_suspend_cards_inv post_note_edit_inv post_note_delete_inv post_note_move_inv post_decks_inv

lemma requests_inv: "content_inv db \<Longrightarrow> content_inv (snd (serve E byEmail db user req))"
proof (cases req)
  case (OnDeck raw d)
  then show "content_inv db \<Longrightarrow> ?thesis" by (cases d) (simp_all add: route_inv)
next
  case (OnNote raw n)
  then show "content_inv db \<Longrightarrow> ?thesis" by (cases n) (simp_all add: route_inv)
qed (simp_all add: route_inv)

section \<open>The server\<close>

text \<open>One request, by anybody or nobody; the database may start or stop refusing statements at any time.\<close>

inductive http_step :: "content_db \<Rightarrow> content_db \<Rightarrow> bool" where
  step_request: "serve E byEmail db user req = (r, db') \<Longrightarrow> http_step db db'"
| step_refuses: "http_step db (db\<lparr>cd_refuses := refuses\<rparr>)"

inductive_cases http_stepE: "http_step db db'"

lemma http_step_inv: "content_inv db \<Longrightarrow> http_step db db' \<Longrightarrow> content_inv db'"
proof (erule http_stepE)
  assume inv: "content_inv db"
  show "content_inv db'" if "serve E byEmail db user req = (r, db')" for E byEmail user req r
    using requests_inv [OF inv, of E byEmail user req] that by simp
  show "content_inv db'" if "db' = db\<lparr>cd_refuses := f\<rparr>" for f
    unfolding that by (rule content_inv_step [OF inv step_refuse])
qed

interpretation http: invariant_system content_init http_step content_inv
  by unfold_locales (fact content_inv_init, fact http_step_inv)

text \<open>
  Whatever requests arrive at the deck, sharing, flag and note routes, in any order, from anybody, with any
  path, query and form, and whichever statements the database refuses: the content tables keep their keys and
  references, every note has a card and lies in a deck of its owner, every scheduling row has its card, and every
  deck keeps somebody who may manage its members and somebody who may delete it.\<close>

theorem requests_always_wf: "reaches content_init http_step db \<Longrightarrow> content_wf db \<and> no_deck_stranded db"
  using http.reachable_inv [of db] by (simp add: content_inv_def)

lemma requests_always_wf_witness:
  "\<exists>r db. serve demo_http_env (\<lambda>_. Inl SNoRows) empty_content (Some demo_http_user) (PostDecks (Some demo_deck_form)) = (Some r, db)
     \<and> rp_Status r = 303 \<and> cd_decks db \<noteq> [] \<and> content_wf db \<and> no_deck_stranded db"
proof -
  have init: "content_init empty_content" by (simp add: content_init_def empty_content_def demo_content_def)
  have name: "TrimSpace (form_get demo_deck_form ''name'') = ''Spanish''" "bad_name ''Spanish'' = False" by code_simp+
  have "\<exists>r db. serve demo_http_env (\<lambda>_. Inl SNoRows) empty_content (Some demo_http_user) (PostDecks (Some demo_deck_form)) = (Some r, db)
     \<and> rp_Status r = 303 \<and> cd_decks db \<noteq> []"
    by (simp add: demo_http_user_def new_user_def post_decks_def signed_in_tx_def RequireUser_def parseForm_def name in_tx_def CreateDeckWithAccess_def CreateDeck_def
      GrantFullDeckAccess_def insert_access_def access_of_def empty_content_def demo_content_def run_c_def access_row_def da_key_def
      unlessE_def orServerError_def finish_def writes_def plain_def redirect_def text_response_def Let_def)
  then obtain r db where s: "serve demo_http_env (\<lambda>_. Inl SNoRows) empty_content (Some demo_http_user) (PostDecks (Some demo_deck_form))
      = (Some r, db)" "rp_Status r = 303" "cd_decks db \<noteq> []" by blast
  have "reaches content_init http_step db"
    using reaches_init [of content_init, OF init] step_request [OF s(1)] by (rule reaches_step)
  from requests_always_wf [OF this] s show ?thesis by blast
qed

section \<open>A deck one may not see\<close>

definition erase_deck :: "uuid \<Rightarrow> content_db \<Rightarrow> content_db" where
  "erase_deck d db = db\<lparr>cd_decks := filter (\<lambda>x. dk_ID x \<noteq> d) (cd_decks db), cd_access := filter (\<lambda>a. da_DeckID a \<noteq> d) (cd_access db),
     cd_notes := filter (\<lambda>n. n_DeckID n \<noteq> d) (cd_notes db), cd_cards := filter (\<lambda>c. c_DeckID c \<noteq> d) (cd_cards db),
     cd_flags := filter (\<lambda>f. cf_DeckID f \<noteq> d) (cd_flags db)\<rparr>"

lemma erase_deck_simps [simp]:
  "cd_refuses (erase_deck d db) = cd_refuses db" "cd_noteTypes (erase_deck d db) = cd_noteTypes db"
  "cd_fields (erase_deck d db) = cd_fields db" "cd_templates (erase_deck d db) = cd_templates db"
  "cd_notes (erase_deck d db) = filter (\<lambda>n. n_DeckID n \<noteq> d) (cd_notes db)"
  "cd_cards (erase_deck d db) = filter (\<lambda>c. c_DeckID c \<noteq> d) (cd_cards db)"
  by (simp_all add: erase_deck_def)

lemma row_of_filter_key: "(\<And>r. k r = x \<Longrightarrow> p r) \<Longrightarrow> row_of k x (filter p t) = row_of k x t"
  by (induction t) (auto simp: row_of_def)

lemma row_of_filter_not: "(\<And>r. k r = x \<Longrightarrow> \<not> p r) \<Longrightarrow> row_of k x (filter p t) = None"
  by (induction t) (auto simp: row_of_def)

lemma access_of_erase [simp]: "access_of (erase_deck d db) e u = (if e = d then None else access_of db e u)"
  by (auto simp: access_of_def erase_deck_def da_key_def intro!: row_of_filter_not row_of_filter_key)

definition hidden :: "content_db \<Rightarrow> uuid \<Rightarrow> uuid \<Rightarrow> bool" where
  "hidden db d u \<longleftrightarrow> \<not> may_see_deck db u d"

lemma hidden_erase [simp]: "hidden (erase_deck d db) d u"
  by (simp add: hidden_def may_see_deck_def)

lemma hidden_access: "hidden db d u \<Longrightarrow> access_of db d u = Some a \<Longrightarrow> \<not> can_view a"
  by (simp add: hidden_def may_see_deck_def)

lemma hidden_with:
  assumes "hidden db d u"
  shows "deck_with db d u can_view = None" "deck_with db d u (\<lambda>a. can_view a \<and> p a) = None"
  using hidden_access [OF assms] by (auto simp: deck_with_def split: option.splits)

lemma hidden_case: "hidden db d u \<Longrightarrow> (case access_of db d u of None \<Rightarrow> False | Some a \<Rightarrow> can_view a \<and> p a) = False"
  by (auto dest: hidden_access split: option.splits)

text \<open>The error of a read that finds no row.\<close>

definition no_row :: "content_db \<Rightarrow> string \<Rightarrow> content_error" where
  "no_row db st = (if cd_refuses db st then CRefused st else ErrNoRows)"

lemma no_row_erase [simp]: "no_row (erase_deck d db) st = no_row db st" by (simp add: no_row_def)

lemma hidden_reads:
  assumes "hidden db d u"
  shows "GetDeckForUser db u d = Inl (no_row db ''GetDeckForUser'')"
    "GetDeckForContentEdit db u d = Inl (no_row db ''GetDeckForContentEdit'')"
    "GetDeckForSettingsEdit db u d = Inl (no_row db ''GetDeckForSettingsEdit'')"
    "GetDeckForAccessManage db u d = Inl (no_row db ''GetDeckForAccessManage'')"
    "GetDeckForFlags db u d = Inl (no_row db ''GetDeckForFlags'')"
    "GetCardForFlag db u c d = Inl (no_row db ''GetCardForFlag'')"
    "DeleteDeck db now d u = Inl (no_row db ''LockDeckForDelete'')"
    "SetDeckAccess db u f d t = Inl (no_row db ''LockDeckForAccessChange'')"
    "RevokeDeckAccess db d u t = Inl (no_row db ''LockDeckForAccessChange'')"
    "ResetDeckProgress db d u t = Inl (no_row db ''LockDeckForAccessChange'')"
    "CreateNoteWithCards newCard db now noteID guid flds tags cs u ntID d desired = Inl (no_row db ''CreateNote'')"
proof -
  note w = hidden_with [OF assms]
  note simps = no_row_def run_c_def one_row_def w
  show "GetDeckForUser db u d = Inl (no_row db ''GetDeckForUser'')" by (simp add: GetDeckForUser_def simps)
  show "GetDeckForContentEdit db u d = Inl (no_row db ''GetDeckForContentEdit'')" by (simp add: GetDeckForContentEdit_def simps)
  show "GetDeckForSettingsEdit db u d = Inl (no_row db ''GetDeckForSettingsEdit'')" by (simp add: GetDeckForSettingsEdit_def simps)
  show "GetDeckForAccessManage db u d = Inl (no_row db ''GetDeckForAccessManage'')" by (simp add: GetDeckForAccessManage_def simps)
  show "GetDeckForFlags db u d = Inl (no_row db ''GetDeckForFlags'')" by (simp add: GetDeckForFlags_def simps)
  show "GetCardForFlag db u c d = Inl (no_row db ''GetCardForFlag'')"
    using hidden_access [OF assms] by (auto simp: GetCardForFlag_def simps split: option.splits)
  show "DeleteDeck db now d u = Inl (no_row db ''LockDeckForDelete'')" by (simp add: DeleteDeck_def LockDeckForDelete_def simps)
  show "SetDeckAccess db u f d t = Inl (no_row db ''LockDeckForAccessChange'')"
    "RevokeDeckAccess db d u t = Inl (no_row db ''LockDeckForAccessChange'')"
    "ResetDeckProgress db d u t = Inl (no_row db ''LockDeckForAccessChange'')"
    by (simp_all add: SetDeckAccess_def RevokeDeckAccess_def ResetDeckProgress_def LockDeckForAccessChange_def simps)
  show "CreateNoteWithCards newCard db now noteID guid flds tags cs u ntID d desired = Inl (no_row db ''CreateNote'')"
    by (simp add: CreateNoteWithCards_def CreateNote_def simps split: option.splits)
qed

text \<open>Statements that report how many rows they changed.\<close>

definition no_rows_changed :: "content_db \<Rightarrow> string \<Rightarrow> content_error + nat \<times> content_db \<Rightarrow> bool" where
  "no_rows_changed db st m \<longleftrightarrow> (if cd_refuses db st then m = Inl (CRefused st) else \<exists>db'. m = Inr (0, db'))"

lemma no_rows_answer:
  assumes "no_rows_changed db st m"
  shows "bindE (liftE err m) (\<lambda>(n, db'). bindE (unlessE (n = 0) notFoundPage) (k db' n))
    = Inl (if cd_refuses db st then err (CRefused st) else notFoundPage)"
  using assms by (auto simp: no_rows_changed_def unlessE_def split: if_splits)

lemma hidden_writes:
  assumes "hidden db d u"
  shows "no_rows_changed db ''UpdateDeck'' (UpdateDeck db now up d u)"
    "no_rows_changed db ''UpsertDeckFsrsRetention'' (UpsertDeckFsrsRetention db u d v r)"
    "no_rows_changed db ''ResolveCardFlag'' (ResolveCardFlag db now u fl d)"
    "no_rows_changed db ''BulkDeleteNotes'' (BulkDeleteNotes db ids d u)"
    "no_rows_changed db ''BulkAddNoteTags'' (BulkAddNoteTags db now tags ids d u k)"
    "no_rows_changed db ''BulkRemoveNoteTags'' (BulkRemoveNoteTags db now tags ids d u)"
    "no_rows_changed db ''BulkSetNoteReleaseDay'' (BulkSetNoteReleaseDay db now day ids d u)"
    "no_rows_changed db ''ToggleSuspendCardsForNote'' (ToggleSuspendCardsForNote db now u noteID d)"
proof -
  note case_ = hidden_case [OF assms]
  have edit: "selected db ids d u = (\<lambda>_. False)" by (auto simp: fun_eq_iff selected_def may_edit_deck_def case_)
  have fl: "may_view_flags db u d = False" by (simp add: may_view_flags_def case_)
  have none: "list_ex (\<lambda>x. False) xs = False" for xs :: "'x list" by (induction xs) simp_all
  note simps = no_rows_changed_def run_c_def Let_def edit none
  show "no_rows_changed db ''UpdateDeck'' (UpdateDeck db now up d u)"
    by (simp add: UpdateDeck_def simps hidden_with [OF assms])
  show "no_rows_changed db ''UpsertDeckFsrsRetention'' (UpsertDeckFsrsRetention db u d v r)"
    by (simp add: UpsertDeckFsrsRetention_def simps case_)
  show "no_rows_changed db ''ResolveCardFlag'' (ResolveCardFlag db now u fl d)" by (simp add: ResolveCardFlag_def simps fl)
  show "no_rows_changed db ''BulkDeleteNotes'' (BulkDeleteNotes db ids d u)" by (simp add: BulkDeleteNotes_def simps)
  show "no_rows_changed db ''BulkAddNoteTags'' (BulkAddNoteTags db now tags ids d u k)"
    by (simp add: BulkAddNoteTags_def update_notes_def simps)
  show "no_rows_changed db ''BulkRemoveNoteTags'' (BulkRemoveNoteTags db now tags ids d u)"
    by (simp add: BulkRemoveNoteTags_def update_notes_def simps)
  show "no_rows_changed db ''BulkSetNoteReleaseDay'' (BulkSetNoteReleaseDay db now day ids d u)"
    by (simp add: BulkSetNoteReleaseDay_def update_notes_def simps)
  show "no_rows_changed db ''ToggleSuspendCardsForNote'' (ToggleSuspendCardsForNote db now u noteID d)"
    by (simp add: ToggleSuspendCardsForNote_def simps case_)
qed

text \<open>Two handlers that end early with the same response.\<close>

definition both :: "response + 'a \<Rightarrow> response + 'b \<Rightarrow> bool" where
  "both a b \<longleftrightarrow> (\<exists>r. a = Inl r \<and> b = Inl r)"

lemma both_Inl [intro]: "both (Inl r) (Inl r)" by (simp add: both_def)

lemma both_bind [intro]: "(\<And>x. m = Inr x \<Longrightarrow> both (f x) (g x)) \<Longrightarrow> both (bindE m f) (bindE m g)"
  by (cases m) (auto simp: both_def)

definition same_answer :: "content_db \<Rightarrow> content_db \<Rightarrow> response option \<times> content_db \<Rightarrow> response option \<times> content_db \<Rightarrow> bool" where
  "same_answer db db2 x y \<longleftrightarrow> (\<exists>r. x = (Some r, db) \<and> y = (Some r, db2))"

lemma same_answerI:
  "both (h u) (h2 u) \<Longrightarrow> same_answer db db2 (reads db (signed_in (Some u) h)) (reads db2 (signed_in (Some u) h2))"
  "both (k u) (k2 u) \<Longrightarrow> same_answer db db2 (writes (signed_in_tx db (Some u) k)) (writes (signed_in_tx db2 (Some u) k2))"
  by (auto simp: both_def same_answer_def reads_def writes_def signed_in_def signed_in_tx_def RequireUser_def reply_of_def
      finish_def plain_def)

lemma in_tx_hidden: "both (bindE (in_tx db (Inl r)) f) (bindE (in_tx (erase_deck d db) (Inl r)) g)"
  by (auto simp: both_def in_tx_def orServerError_def run_c_def)

lemma note_type_readable_erase:
  assumes "hidden db d u"
  shows "note_type_readable (erase_deck d db) u = note_type_readable db u"
  using hidden_access [OF assms]
  by (auto simp: fun_eq_iff note_type_readable_def list_ex_iff split: option.splits)

lemma note_type_reads_erase:
  assumes "hidden db d u"
  shows "GetNoteTypeForRead (erase_deck d db) nt u = GetNoteTypeForRead db nt u"
    "ListFieldsForNoteType (erase_deck d db) nt = ListFieldsForNoteType db nt"
    "ListTemplatesForNoteType (erase_deck d db) nt = ListTemplatesForNoteType db nt"
  by (simp_all add: GetNoteTypeForRead_def ListFieldsForNoteType_def ListTemplatesForNoteType_def run_c_def
    note_type_readable_erase [OF assms] split: option.split)

lemma finishBulk_hidden:
  "no_rows_changed db st m \<Longrightarrow> no_rows_changed (erase_deck d db) st m2 \<Longrightarrow> both (finishBulk E d f m) (finishBulk E d f m2)"
  by (simp add: finishBulk_def orServerError_def no_rows_answer both_Inl)

lemma post_bulk_hidden:
  assumes "hidden db d (us_ID u)" "pathUUID E raw = Inr d"
  shows "same_answer db (erase_deck d db) (writes (post_bulk act E db (Some u) raw form)) (writes (post_bulk act E (erase_deck d db) (Some u) raw form))"
  unfolding post_bulk_def parseBulkRequest_def assms(2) bindE_simps
  by (rule same_answerI)
    (cases act; clarsimp simp: bindE_eq_Inr intro!: both_bind;
     rule finishBulk_hidden [OF hidden_writes(4) [OF assms(1)] hidden_writes(4) [OF hidden_erase]]
       finishBulk_hidden [OF hidden_writes(5) [OF assms(1)] hidden_writes(5) [OF hidden_erase]]
       finishBulk_hidden [OF hidden_writes(6) [OF assms(1)] hidden_writes(6) [OF hidden_erase]]
       finishBulk_hidden [OF hidden_writes(7) [OF assms(1)] hidden_writes(7) [OF hidden_erase]])

lemma deck_request_hidden:
  assumes h: "hidden db d (us_ID u)" and raw: "uu_Scan (he_uuid E) raw = Some d"
  shows "same_answer db (erase_deck d db) (serve_deck E byEmail db (Some u) raw req) (serve_deck E byEmail (erase_deck d db) (Some u) raw req)"
proof -
  have id: "pathUUID E raw = Inr d" by (simp add: pathUUID_def raw)
  note reads = hidden_reads [OF h] hidden_reads [OF hidden_erase, simplified no_row_erase]
  note writes = hidden_writes [OF h, THEN no_rows_answer] hidden_writes [OF hidden_erase, THEN no_rows_answer, simplified erase_deck_simps]
  note simps = id reads writes orServerError_def orNotFoundPage_def
  show ?thesis
  proof (cases req)
    case (GetDeck c)
    then show ?thesis unfolding GetDeck serve_deck.simps get_deck_def by (intro same_answerI) (simp add: simps both_Inl)
  next
    case GetDeckEdit
    then show ?thesis unfolding GetDeckEdit serve_deck.simps get_deck_edit_def by (intro same_answerI) (simp add: simps both_Inl)
  next
    case (PostDeckEdit form)
    then show ?thesis unfolding PostDeckEdit serve_deck.simps post_deck_edit_def
      by (intro same_answerI) (simp only: simps bindE_simps, intro both_bind, clarsimp simp: simps both_Inl)
  next
    case PostDeckDelete
    then show ?thesis unfolding PostDeckDelete serve_deck.simps post_deck_delete_def
      by (intro same_answerI) (simp add: simps in_tx_hidden)
  next
    case (PostDeckFsrs form)
    then show ?thesis unfolding PostDeckFsrs serve_deck.simps post_deck_fsrs_def
      by (intro same_answerI) (simp only: simps bindE_simps, intro both_bind, clarsimp simp: simps both_Inl both_bind case_prod_beta)
  next
    case GetAccess
    then show ?thesis unfolding GetAccess serve_deck.simps get_access_def by (intro same_answerI) (simp add: simps both_Inl)
  next
    case (PostAccess form)
    then show ?thesis unfolding PostAccess serve_deck.simps post_access_def
      by (intro same_answerI) (simp only: simps bindE_simps liftE_simps, intro both_bind both_Inl)
  next
    case (PostAccessEdit rawUser form)
    then show ?thesis unfolding PostAccessEdit serve_deck.simps post_access_edit_def access_change_def
      by (intro same_answerI) (simp only: simps bindE_simps liftE_simps, intro both_bind in_tx_hidden)
  next
    case (PostAccessDelete rawUser)
    then show ?thesis unfolding PostAccessDelete serve_deck.simps post_access_delete_def access_change_def
      by (intro same_answerI) (simp only: simps bindE_simps liftE_simps, intro both_bind in_tx_hidden)
  next
    case (PostAccessReset rawUser)
    then show ?thesis unfolding PostAccessReset serve_deck.simps post_access_reset_def access_change_def
      by (intro same_answerI) (simp only: simps bindE_simps liftE_simps, intro both_bind in_tx_hidden)
  next
    case (PostCardFlag form)
    then show ?thesis unfolding PostCardFlag serve_deck.simps post_card_flag_def Let_def
      by (intro same_answerI) (simp only: simps raw option.case bindE_simps liftE_simps, intro both_bind both_Inl)
  next
    case (GetFlags status)
    then show ?thesis unfolding GetFlags serve_deck.simps get_flags_def by (intro same_answerI) (simp add: simps both_Inl)
  next
    case (PostFlagResolve rawFlag)
    then show ?thesis unfolding PostFlagResolve serve_deck.simps post_flag_resolve_def
      by (intro same_answerI) (simp only: simps bindE_simps, intro both_bind both_Inl)
  next
    case (GetNoteNew rawNoteType)
    then show ?thesis unfolding GetNoteNew serve_deck.simps get_note_new_def by (intro same_answerI) (simp add: simps both_Inl)
  next
    case (PostNotes form)
    then show ?thesis unfolding PostNotes serve_deck.simps post_notes_def Let_def
      by (intro same_answerI) (simp add: simps note_type_reads_erase [OF h], intro both_bind, clarsimp, intro both_bind in_tx_hidden)
  next
    case (PostBulk act form)
    then show ?thesis by (simp add: post_bulk_hidden [OF h id])
  next
    case (PostSuspendCards rawNote)
    then show ?thesis unfolding PostSuspendCards serve_deck.simps post_suspend_cards_def
      by (intro same_answerI) (simp only: simps bindE_simps, intro both_bind both_Inl)
  qed
qed

section \<open>Notes in a deck one may not see\<close>

lemma row_of_pk_filter:
  assumes "pk k t" "row_of k x t = Some r"
  shows "row_of k x (filter p t) = (if p r then Some r else None)"
proof -
  from row_of_Some [OF assms(2)] have r: "r \<in> set t" "k r = x" by simp_all
  have f: "pk k (filter p t)" using assms(1) by (simp add: pk_def distinct_map_filter)
  show ?thesis
  proof (cases "p r")
    case True
    with r have "row_of k x (filter p t) = Some r" by (simp add: row_of_pk [OF f])
    with True show ?thesis by simp
  next
    case False
    with r pk_unique [OF assms(1)] have "row_of k x (filter p t) = None" by (auto simp: row_of_None)
    with False show ?thesis by simp
  qed
qed

text \<open>A note is hidden when its deck is; every other note is still there after the deck is erased.\<close>

definition in_deck :: "content_db \<Rightarrow> uuid \<Rightarrow> uuid \<Rightarrow> bool" where
  "in_deck db d noteID \<longleftrightarrow> (case row_of n_ID noteID (cd_notes db) of None \<Rightarrow> False | Some n \<Rightarrow> n_DeckID n = d)"

lemma note_erased:
  assumes "content_keys db"
  shows "row_of n_ID noteID (cd_notes (erase_deck d db)) = (if in_deck db d noteID then None else row_of n_ID noteID (cd_notes db))"
proof (cases "row_of n_ID noteID (cd_notes db)")
  case None
  then have "row_of n_ID noteID (filter (\<lambda>n. n_DeckID n \<noteq> d) (cd_notes db)) = None" by (simp add: row_of_None)
  with None show ?thesis by simp
next
  case (Some n)
  with assms have "row_of n_ID noteID (filter (\<lambda>n. n_DeckID n \<noteq> d) (cd_notes db)) = (if n_DeckID n \<noteq> d then Some n else None)"
    by (intro row_of_pk_filter) (simp_all add: content_keys_def)
  with Some show ?thesis by (simp add: in_deck_def)
qed

lemma hidden_note:
  assumes "hidden db d u" "in_deck db d noteID"
  shows "GetNoteForContentEdit db u noteID = Inl (no_row db ''GetNoteForContentEdit'')"
    "LockNoteForContentEdit db u noteID = Inl (no_row db ''LockNoteForContentEdit'')"
  using assms hidden_access [OF assms(1)]
  by (auto simp: GetNoteForContentEdit_def LockNoteForContentEdit_def note_with_def in_deck_def no_row_def run_c_def one_row_def
      split: option.splits)

lemma erased_note:
  assumes "row_of n_ID noteID (cd_notes db) = None"
  shows "GetNoteForContentEdit db u noteID = Inl (no_row db ''GetNoteForContentEdit'')"
    "LockNoteForContentEdit db u noteID = Inl (no_row db ''LockNoteForContentEdit'')"
  using assms by (simp_all add: GetNoteForContentEdit_def LockNoteForContentEdit_def note_with_def no_row_def run_c_def one_row_def)

lemma MoveNoteToDeck_hidden:
  "hidden db d u \<Longrightarrow> no_rows_changed db ''MoveNoteToDeck'' (MoveNoteToDeck db now noteID d u)"
  by (simp add: MoveNoteToDeck_def no_rows_changed_def run_c_def hidden_with)

definition move_error :: "content_db \<Rightarrow> uuid \<Rightarrow> uuid \<Rightarrow> content_error" where
  "move_error db u noteID =
     (case LockNoteForContentEdit db u noteID of Inl e \<Rightarrow> e | Inr _ \<Rightarrow> no_row db ''MoveNoteToDeck'')"

lemma MoveNote_hidden_target:
  assumes "hidden db d u"
  shows "MoveNote db now u noteID d = Inl (move_error db u noteID)"
  using MoveNoteToDeck_hidden [OF assms, of now noteID]
  by (cases "LockNoteForContentEdit db u noteID")
    (auto simp: MoveNote_def move_error_def no_rows_changed_def no_row_def split: if_splits)

lemma LockNote_erased:
  assumes "content_keys db" "hidden db d u"
  shows "LockNoteForContentEdit (erase_deck d db) u noteID = LockNoteForContentEdit db u noteID"
proof (cases "in_deck db d noteID")
  case True
  then have "row_of n_ID noteID (cd_notes (erase_deck d db)) = None" by (simp only: note_erased [OF assms(1)] if_True)
  from erased_note(2) [OF this] hidden_note(2) [OF assms(2) True] show ?thesis by simp
next
  case False
  then have row: "row_of n_ID noteID (cd_notes (erase_deck d db)) = row_of n_ID noteID (cd_notes db)"
    by (simp only: note_erased [OF assms(1)] if_False)
  have "n_DeckID n \<noteq> d" if "row_of n_ID noteID (cd_notes db) = Some n" for n
    using False that by (simp add: in_deck_def)
  then show ?thesis
    unfolding LockNoteForContentEdit_def row by (auto simp: run_c_def split: option.splits)
qed

lemma note_request_hidden:
  assumes keys: "content_keys db" and h: "hidden db d (us_ID u)" and raw: "uu_Scan (he_uuid E) raw = Some noteID" and n: "in_deck db d noteID"
  shows "same_answer db (erase_deck d db) (serve_note E db (Some u) raw req) (serve_note E (erase_deck d db) (Some u) raw req)"
proof -
  have id: "pathUUID E raw = Inr noteID" by (simp add: pathUUID_def raw)
  have gone: "row_of n_ID noteID (cd_notes (erase_deck d db)) = None" using n by (simp only: note_erased [OF keys] if_True)
  note reads = hidden_note [OF h n] erased_note [OF gone, simplified no_row_erase]
  note simps = id reads orServerError_def orNotFoundPage_def
  show ?thesis
  proof (cases req)
    case GetNoteEdit
    then show ?thesis unfolding GetNoteEdit serve_note.simps get_note_edit_def by (intro same_answerI) (simp add: simps both_Inl)
  next
    case (PostNoteEdit form)
    then show ?thesis unfolding PostNoteEdit serve_note.simps post_note_edit_def
      by (intro same_answerI) (simp only: simps bindE_simps liftE_simps, intro both_bind both_Inl)
  next
    case PostNoteDelete
    then show ?thesis unfolding PostNoteDelete serve_note.simps post_note_delete_def by (intro same_answerI) (simp add: simps both_Inl)
  next
    case (PostNoteMove form)
    then show ?thesis unfolding PostNoteMove serve_note.simps post_note_move_def MoveNote_def
      by (intro same_answerI) (simp only: simps bindE_simps liftE_simps, intro both_bind in_tx_hidden)
  qed
qed

text \<open>Moving a note one may edit into a hidden deck.\<close>

lemma move_into_hidden:
  assumes keys: "content_keys db" and h: "hidden db d (us_ID u)" and f: "form_uuid E f ''target_deck_id'' = Inr d"
  shows "same_answer db (erase_deck d db) (serve_note E db (Some u) raw (PostNoteMove (Some f)))
    (serve_note E (erase_deck d db) (Some u) raw (PostNoteMove (Some f)))"
proof -
  have e: "move_error (erase_deck d db) (us_ID u) x = move_error db (us_ID u) x" for x
    by (simp add: move_error_def LockNote_erased [OF keys h] split: sum.split)
  note simps = f MoveNote_hidden_target [OF h] MoveNote_hidden_target [OF hidden_erase] e parseForm_def orNotFoundPage_def
  show ?thesis unfolding serve_note.simps post_note_move_def
    by (intro same_answerI) (simp only: simps option.case bindE_simps liftE_simps, intro both_bind in_tx_hidden)
qed

definition about :: "http_env \<Rightarrow> content_db \<Rightarrow> uuid \<Rightarrow> request \<Rightarrow> bool" where
  "about E db d req \<longleftrightarrow>
     (case req of
        OnDeck raw _ \<Rightarrow> uu_Scan (he_uuid E) raw = Some d
      | OnNote raw r \<Rightarrow>
          (case uu_Scan (he_uuid E) raw of None \<Rightarrow> False | Some noteID \<Rightarrow> in_deck db d noteID)
          \<or> (case r of PostNoteMove (Some f) \<Rightarrow> form_uuid E f ''target_deck_id'' = Inr d | _ \<Rightarrow> False)
      | _ \<Rightarrow> False)"

text \<open>C40: a deck one may not see cannot be told from a deck that is not there: every request about it, whichever of
  the deck, sharing, flag and note routes it takes, with whatever form, and be it for one of its notes or for a
  note that should move into it, answers exactly as a server whose database has no trace of the deck, shows no
  page and changes nothing.\<close>

theorem hidden_deck_is_absent:
  assumes "content_wf db" and "\<not> may_see_deck db (us_ID u) d" and "about E db d req"
  shows "\<exists>r. serve E byEmail db (Some u) req = (Some r, db)
    \<and> serve E byEmail (erase_deck d db) (Some u) req = (Some r, erase_deck d db)"
proof -
  have keys: "content_keys db" using assms(1) by (simp add: content_wf_def)
  have h: "hidden db d (us_ID u)" using assms(2) by (simp add: hidden_def)
  have "same_answer db (erase_deck d db) (serve E byEmail db (Some u) req) (serve E byEmail (erase_deck d db) (Some u) req)"
  proof (cases req)
    case (OnDeck raw r)
    with assms(3) deck_request_hidden [OF h] show ?thesis by (simp add: about_def)
  next
    case (OnNote raw r)
    with assms(3) consider noteID where "uu_Scan (he_uuid E) raw = Some noteID" "in_deck db d noteID"
      | f where "r = PostNoteMove (Some f)" "form_uuid E f ''target_deck_id'' = Inr d"
      by (auto simp: about_def split: option.splits note_request.splits)
    then show ?thesis
    proof cases
      case 1
      from note_request_hidden [OF keys h this] OnNote show ?thesis by simp
    next
      case 2
      from move_into_hidden [OF keys h 2(2)] OnNote 2(1) show ?thesis by simp
    qed
  qed (use assms(3) in \<open>simp_all add: about_def\<close>)
  then show ?thesis by (simp add: same_answer_def)
qed

lemma hidden_deck_is_absent_witness:
  "\<exists>r. serve demo_http_env (\<lambda>_. Inl SNoRows) demo_content (Some (demo_http_user\<lparr>us_ID := 9\<rparr>))
       (OnDeck (uu_String demo_uuid_text 10) (GetDeck [])) = (Some r, demo_content) \<and> cd_decks demo_content \<noteq> cd_decks (erase_deck 10 demo_content)"
proof -
  let ?u = "demo_http_user\<lparr>us_ID := 9\<rparr>"
  have hid: "\<not> may_see_deck demo_content (us_ID ?u) 10"
    by (simp add: may_see_deck_def access_of_def demo_content_def row_of_def access_row_def all_flags_def da_key_def)
  have about: "about demo_http_env demo_content 10 (OnDeck (uu_String demo_uuid_text 10) (GetDeck []))"
    using demo_uuid_text_ok by (simp add: about_def uuid_text_ok_def demo_http_env_def)
  have "cd_decks demo_content \<noteq> cd_decks (erase_deck 10 demo_content)" by (simp add: demo_content_def erase_deck_def demo_deck_def)
  with hidden_deck_is_absent [OF demo_content_wf(1) hid about, of "\<lambda>_. Inl SNoRows"] show ?thesis by blast
qed

end
