(* ===== verification/Apkg_Proto.thy ===== *)
theory Apkg_Proto
  imports Go_Strings
begin

text \<open>
  \<open>internal/apkg/protobuf.go\<close>: the decoder for the protobuf blobs of an Anki package, and the wire format it
  reads, given by an encoder. A byte slice is a \<open>string\<close>; unsigned integers are \<open>nat\<close> in their range.
\<close>

section \<open>Errors of the package reader\<close>

datatype apkg_error =
    ErrNotAPackage
  | ErrNoCollection
  | ErrTooManyMembers
  | ErrMemberTooLarge
  | ErrArchiveTooLarge
  | ErrBadZstdFrame
  | ErrUnknownSchema
  | ErrCorruptCollection
  | ErrMediaIndex
  | ErrSchema18Config
  | ErrNoteTypeMismatch
  | ErrArchiveIO string

section \<open>\<open>encoding/binary\<close>\<close>

abbreviation byte_of :: "char \<Rightarrow> nat" where "byte_of c \<equiv> of_char c"

text \<open>
  \<open>binary.Uvarint\<close>: the value and the number of bytes read; 0 when the input ends first, negative when the
  value does not fit 64 bits. The shifted groups do not overlap, so their \<open>|\<close> is their sum.
\<close>

fun uvarint_from :: "nat \<Rightarrow> nat \<Rightarrow> string \<Rightarrow> nat \<times> int" where
  "uvarint_from i x [] = (0, 0)"
| "uvarint_from i x (c # b) =
     (if i = 10 then (0, - (int i + 1))
      else if byte_of c < 128 then
        (if i = 9 \<and> byte_of c > 1 then (0, - (int i + 1)) else (x + byte_of c * 2 ^ (7 * i), int i + 1))
      else uvarint_from (Suc i) (x + byte_of c mod 128 * 2 ^ (7 * i)) b)"

definition decodeVarint :: "string \<Rightarrow> nat \<times> int" where
  "decodeVarint b = uvarint_from 0 0 b"

definition le_uint :: "string \<Rightarrow> nat" where
  "le_uint b = foldr (\<lambda>c v. byte_of c + 256 * v) b 0"

section \<open>The decoder\<close>

record protoField =
  pf_Number :: nat
  pf_Type :: nat
  pf_Varint :: nat
  pf_Bytes :: string

definition maxProtoFields :: nat where "maxProtoFields = 4096"

abbreviation (input) protoVarint :: nat where "protoVarint \<equiv> 0"
abbreviation (input) protoI64 :: nat where "protoI64 \<equiv> 1"
abbreviation (input) protoBytes :: nat where "protoBytes \<equiv> 2"
abbreviation (input) protoI32 :: nat where "protoI32 \<equiv> 5"

text \<open>One turn of the loop: the field at the front of \<open>b\<close> and the rest of \<open>b\<close>.\<close>

definition decode_field :: "string \<Rightarrow> apkg_error + protoField \<times> string" where
  "decode_field b =
     (let (tag, n) = decodeVarint b in
      if n \<le> 0 then Inl ErrSchema18Config
      else
        let b = drop (nat n) b; num = tag div 8 mod 2 ^ 32; wt = tag mod 8 in
        if wt = protoVarint then
          (let (v, n) = decodeVarint b in
           if n \<le> 0 then Inl ErrSchema18Config
           else Inr (\<lparr>pf_Number = num, pf_Type = wt, pf_Varint = v, pf_Bytes = []\<rparr>, drop (nat n) b))
        else if wt = protoI64 then
          (if length b < 8 then Inl ErrSchema18Config
           else Inr (\<lparr>pf_Number = num, pf_Type = wt, pf_Varint = le_uint (take 8 b), pf_Bytes = []\<rparr>, drop 8 b))
        else if wt = protoBytes then
          (let (ln, n) = decodeVarint b in
           if n \<le> 0 then Inl ErrSchema18Config
           else let b = drop (nat n) b in
             if ln > length b then Inl ErrSchema18Config
             else Inr (\<lparr>pf_Number = num, pf_Type = wt, pf_Varint = 0, pf_Bytes = take ln b\<rparr>, drop ln b))
        else if wt = protoI32 then
          (if length b < 4 then Inl ErrSchema18Config
           else Inr (\<lparr>pf_Number = num, pf_Type = wt, pf_Varint = le_uint (take 4 b), pf_Bytes = []\<rparr>, drop 4 b))
        else Inl ErrSchema18Config)"

lemma uvarint_consumes: "snd (uvarint_from i x b) \<le> int i + int (length b)"
  by (induction i x b rule: uvarint_from.induct) auto

lemma uvarint_positive: "0 < snd (uvarint_from i x b) \<Longrightarrow> b \<noteq> [] \<and> int i < snd (uvarint_from i x b)"
  by (induction i x b rule: uvarint_from.induct) (auto split: if_splits)

lemma decode_field_shorter:
  assumes "decode_field b = Inr (f, r)"
  shows "length r < length b" "length (pf_Bytes f) + length r < length b"
proof -
  obtain tag n where t: "decodeVarint b = (tag, n)" by (cases "decodeVarint b")
  have "b \<noteq> []" "0 < n"
    using assms uvarint_positive [of 0 0 b] t
    by (auto simp: decode_field_def decodeVarint_def split: if_splits)
  then have "length (drop (nat n) b) < length b" by (cases b) auto
  with assms t show "length r < length b" "length (pf_Bytes f) + length r < length b"
    by (auto simp: decode_field_def Let_def split: if_splits prod.splits)
qed

function decode_fields :: "nat \<Rightarrow> string \<Rightarrow> apkg_error + protoField list" where
  "decode_fields count b =
     (if b = [] then Inr []
      else if count \<ge> maxProtoFields then Inl ErrSchema18Config
      else case decode_field b of
        Inl e \<Rightarrow> Inl e
      | Inr (f, r) \<Rightarrow> bindE (decode_fields (Suc count) r) (\<lambda>fs. Inr (f # fs)))"
  by pat_completeness auto
termination
  by (relation "measure (\<lambda>(_, b). length b)") (auto dest: decode_field_shorter(1))

declare decode_fields.simps [simp del]

definition decodeProto :: "string \<Rightarrow> apkg_error + protoField list" where
  "decodeProto b = decode_fields 0 b"

section \<open>Lookup\<close>

definition protoLast :: "protoField list \<Rightarrow> nat \<Rightarrow> nat \<Rightarrow> protoField option" where
  "protoLast fs n wt = foldl (\<lambda>out f. if pf_Number f = n \<and> pf_Type f = wt then Some f else out) None fs"

definition protoString :: "protoField list \<Rightarrow> nat \<Rightarrow> string option" where
  "protoString fs n = map_option pf_Bytes (protoLast fs n protoBytes)"

definition protoUint :: "protoField list \<Rightarrow> nat \<Rightarrow> nat option" where
  "protoUint fs n = map_option pf_Varint (protoLast fs n protoVarint)"

text \<open>An absent field reads as 0.\<close>

definition protoInt32 :: "protoField list \<Rightarrow> nat \<Rightarrow> int" where
  "protoInt32 fs n =
     (let v = (case protoUint fs n of None \<Rightarrow> 0 | Some v \<Rightarrow> v) in if v > 2147483647 then 0 else int v)"

definition protoMessage :: "protoField list \<Rightarrow> nat \<Rightarrow> protoField list option" where
  "protoMessage fs n =
     (case protoLast fs n protoBytes of
        None \<Rightarrow> None
      | Some f \<Rightarrow> (case decodeProto (pf_Bytes f) of Inl _ \<Rightarrow> None | Inr nested \<Rightarrow> Some nested))"

section \<open>The wire format\<close>

text \<open>A message as protobuf encoders write it: minimal varints, little-endian fixed-width values.\<close>

fun uvarint_bytes :: "nat \<Rightarrow> string" where
  "uvarint_bytes v = (if v < 128 then [char_of v] else char_of (v mod 128 + 128) # uvarint_bytes (v div 128))"

declare uvarint_bytes.simps [simp del]

fun le_bytes :: "nat \<Rightarrow> nat \<Rightarrow> string" where
  "le_bytes 0 v = []"
| "le_bytes (Suc k) v = char_of (v mod 256) # le_bytes k (v div 256)"

definition encode_field :: "protoField \<Rightarrow> string" where
  "encode_field f = uvarint_bytes (pf_Number f * 8 + pf_Type f) @
     (if pf_Type f = protoVarint then uvarint_bytes (pf_Varint f)
      else if pf_Type f = protoI64 then le_bytes 8 (pf_Varint f)
      else if pf_Type f = protoBytes then uvarint_bytes (length (pf_Bytes f)) @ pf_Bytes f
      else le_bytes 4 (pf_Varint f))"

definition encodeProto :: "protoField list \<Rightarrow> string" where
  "encodeProto fs = concat (map encode_field fs)"

text \<open>The fields the format can express: the types read, values in range, no payload beside the value.\<close>

definition pf_ok :: "protoField \<Rightarrow> bool" where
  "pf_ok f \<longleftrightarrow> pf_Number f < 2 ^ 32
     \<and> (pf_Type f = protoVarint \<and> pf_Varint f < 2 ^ 64 \<and> pf_Bytes f = []
        \<or> pf_Type f = protoI64 \<and> pf_Varint f < 2 ^ 64 \<and> pf_Bytes f = []
        \<or> pf_Type f = protoBytes \<and> pf_Varint f = 0 \<and> length (pf_Bytes f) < 2 ^ 64
        \<or> pf_Type f = protoI32 \<and> pf_Varint f < 2 ^ 32 \<and> pf_Bytes f = [])"

lemma byte_char: "n < 256 \<Longrightarrow> byte_of (char_of n) = n"
  by simp

lemma byte_bound: "byte_of c < 256"
  by (rule nat_of_char_less_256)

lemma uvarint_append:
  assumes "v < 2 ^ (64 - 7 * i)" "i \<le> 9"
  shows "uvarint_from i x (uvarint_bytes v @ r) = (x + v * 2 ^ (7 * i), int i + int (length (uvarint_bytes v)))"
  using assms
proof (induction v arbitrary: i x rule: uvarint_bytes.induct)
  case (1 v)
  show ?case
  proof (cases "v < 128")
    case True
    have "\<not> (i = 9 \<and> 1 < v)" using 1(2) by auto
    with True 1(3) show ?thesis by (subst (1 2) uvarint_bytes.simps) (simp add: byte_char del: of_char_of)
  next
    case False
    have i: "i \<le> 8"
    proof (rule ccontr)
      assume "\<not> i \<le> 8"
      with 1(3) have "i = 9" by simp
      with 1(2) False show False by simp
    qed
    then have "(2::nat) ^ (64 - 7 * i) = 128 * 2 ^ (64 - 7 * Suc i)"
      by (subst power_add [symmetric, of "2::nat" 7, simplified]) (simp add: Suc_diff_Suc)
    with 1(2) have "v div 128 < 2 ^ (64 - 7 * Suc i)" by (simp add: div_less_iff_less_mult)
    from 1(1) [OF False this] i have IH: "uvarint_from (Suc i) y (uvarint_bytes (v div 128) @ r)
        = (y + v div 128 * 2 ^ (7 * Suc i), int (Suc i) + int (length (uvarint_bytes (v div 128))))" for y by simp
    have "v mod 128 * 2 ^ (7 * i) + v div 128 * 2 ^ (7 * Suc i) = (v mod 128 + v div 128 * 128) * 2 ^ (7 * i)"
    proof -
      have "(2::nat) ^ (7 * Suc i) = 128 * 2 ^ (7 * i)" by (simp add: power_add)
      then show ?thesis by (simp only: distrib_right mult.assoc)
    qed
    moreover have "v mod 128 + v div 128 * 128 = v" by simp
    ultimately have "x + v mod 128 * 2 ^ (7 * i) + v div 128 * 2 ^ (7 * Suc i) = x + v * 2 ^ (7 * i)"
      by (metis add.assoc)
    moreover have "uvarint_from i x (uvarint_bytes v @ r)
        = uvarint_from (Suc i) (x + v mod 128 * 2 ^ (7 * i)) (uvarint_bytes (v div 128) @ r)"
    proof -
      have "byte_of (char_of (v mod 128 + 128)) = v mod 128 + 128" by (rule byte_char) (simp add: add.commute)
      then show ?thesis using False i by (subst uvarint_bytes.simps) (simp del: of_char_of)
    qed
    moreover have "length (uvarint_bytes v) = Suc (length (uvarint_bytes (v div 128)))"
      using False by (subst uvarint_bytes.simps) simp
    ultimately show ?thesis using IH by simp
  qed
qed

lemma decodeVarint_append [simp]:
  "v < 2 ^ 64 \<Longrightarrow> decodeVarint (uvarint_bytes v @ r) = (v, int (length (uvarint_bytes v)))"
  using uvarint_append [of v 0 0 r] by (simp add: decodeVarint_def)

lemma uvarint_bytes_pos [simp]: "uvarint_bytes v \<noteq> []"
  by (subst uvarint_bytes.simps) simp

lemma length_le_bytes [simp]: "length (le_bytes k v) = k"
  by (induction k arbitrary: v) simp_all

lemma le_uint_le_bytes: "v < 256 ^ k \<Longrightarrow> le_uint (le_bytes k v) = v"
proof (induction k arbitrary: v)
  case (Suc k)
  then have "v div 256 < 256 ^ k" by (simp add: div_less_iff_less_mult mult.commute)
  from Suc.IH [OF this] have IH: "foldr (\<lambda>c v. byte_of c + 256 * v) (le_bytes k (v div 256)) 0 = v div 256"
    by (simp add: le_uint_def)
  have "byte_of (char_of (v mod 256)) = v mod 256" by (rule byte_char) simp
  with IH show ?case by (simp only: le_uint_def le_bytes.simps foldr.simps o_apply) simp
qed (simp add: le_uint_def)

lemma le_uint_bound: "le_uint b < 256 ^ length b"
proof (induction b)
  case (Cons c b)
  have "byte_of c + 256 * le_uint b < 256 * 256 ^ length b" using Cons byte_bound [of c] by linarith
  then show ?case by (simp add: le_uint_def)
qed (simp add: le_uint_def)

lemma uvarint_bound:
  assumes "uvarint_from i x b = (v, n)" "0 < n" "x < 2 ^ (7 * i)" "i \<le> 9"
  shows "v < 2 ^ 64"
  using assms
proof (induction i x b rule: uvarint_from.induct)
  case (2 i x c b)
  show ?case
  proof (cases "byte_of c < 128")
    case True
    with 2 have v: "v = x + byte_of c * 2 ^ (7 * i)" "i = 9 \<longrightarrow> byte_of c \<le> 1" by (auto split: if_splits)
    show ?thesis
    proof (cases "i = 9")
      case True
      with v(2) have "byte_of c * 2 ^ (7 * i) \<le> 1 * 2 ^ 63" by (intro mult_le_mono) auto
      with v(1) 2(4) True show ?thesis by simp
    next
      case False
      have "byte_of c * 2 ^ (7 * i) \<le> 127 * 2 ^ (7 * i)" using \<open>byte_of c < 128\<close> by simp
      with v(1) 2(4) have "v < 128 * 2 ^ (7 * i)" by linarith
      also have "\<dots> = 2 ^ (7 * Suc i)" by (simp add: power_add)
      also have "\<dots> \<le> (2::nat) ^ 64" using False 2(5) by (intro power_increasing) auto
      finally show ?thesis .
    qed
  next
    case False
    have "byte_of c mod 128 * 2 ^ (7 * i) \<le> 127 * 2 ^ (7 * i)" by (intro mult_le_mono) auto
    with 2(4) have "x + byte_of c mod 128 * 2 ^ (7 * i) < 128 * 2 ^ (7 * i)" by linarith
    then have x: "x + byte_of c mod 128 * 2 ^ (7 * i) < 2 ^ (7 * Suc i)" by (simp add: power_add)
    have rec: "uvarint_from (Suc i) (x + byte_of c mod 128 * 2 ^ (7 * i)) b = (v, n)"
      using 2(2,5) False by (simp split: if_splits)
    show ?thesis
    proof (cases "i = 9")
      case True
      with rec 2(3) show ?thesis by (cases b) (auto split: if_splits)
    next
      case False
      with 2(5) have "Suc i \<le> 9" by simp
      with 2(1) [OF _ \<open>\<not> byte_of c < 128\<close> rec 2(3) x] 2(5) show ?thesis by simp
    qed
  qed
qed simp

section \<open>Reading back\<close>

lemma decode_encode_field:
  assumes ok: "pf_ok f"
  shows "decode_field (encode_field f @ r) = Inr (f, r)"
proof -
  let ?tag = "pf_Number f * 8 + pf_Type f"
  have wt: "pf_Type f < 8" "pf_Number f < 2 ^ 32" using ok by (auto simp: pf_ok_def)
  then have tag: "?tag < 2 ^ 64" by simp
  have "?tag mod 8 = pf_Type f" "?tag div 8 mod 2 ^ 32 = pf_Number f" using wt by simp_all
  moreover have "f = \<lparr>pf_Number = pf_Number f, pf_Type = pf_Type f, pf_Varint = pf_Varint f, pf_Bytes = pf_Bytes f\<rparr>"
    by simp
  moreover have "le_uint (le_bytes 8 (pf_Varint f)) = pf_Varint f" if "pf_Type f = protoI64"
    using ok that by (intro le_uint_le_bytes) (auto simp: pf_ok_def)
  moreover have "le_uint (le_bytes 4 (pf_Varint f)) = pf_Varint f" if "pf_Type f = protoI32"
    using ok that by (intro le_uint_le_bytes) (auto simp: pf_ok_def)
  ultimately show ?thesis
    using ok tag unfolding decode_field_def encode_field_def pf_ok_def Let_def
    by (elim conjE disjE) (simp_all add: split_beta)
qed

lemma encode_field_pos [simp]: "encode_field f \<noteq> []"
  using uvarint_bytes_pos [of "pf_Number f * 8 + pf_Type f"] by (auto simp: encode_field_def simp del: uvarint_bytes_pos)

lemma decode_encode_fields:
  "list_all pf_ok fs \<Longrightarrow> count + length fs \<le> maxProtoFields \<Longrightarrow> decode_fields count (encodeProto fs) = Inr fs"
proof (induction fs arbitrary: count)
  case Nil
  then show ?case by (simp add: encodeProto_def decode_fields.simps)
next
  case (Cons f fs)
  then have "decode_fields (Suc count) (encodeProto fs) = Inr fs" by simp
  moreover have "decode_field (encode_field f @ encodeProto fs) = Inr (f, encodeProto fs)"
    using Cons.prems by (intro decode_encode_field) simp
  ultimately show ?case using Cons.prems
    by (subst decode_fields.simps) (simp add: encodeProto_def)
qed

definition wire_ok :: "protoField list \<Rightarrow> bool" where
  "wire_ok fs \<longleftrightarrow> list_all pf_ok fs \<and> length fs \<le> maxProtoFields"

interpretation proto: codec encodeProto "\<lambda>b. case decodeProto b of Inl _ \<Rightarrow> None | Inr fs \<Rightarrow> Some fs" wire_ok
  by unfold_locales (simp add: decodeProto_def wire_ok_def decode_encode_fields)

section \<open>What the bytes say\<close>

text \<open>
  The format read off the bytes, with no reference to the decoder. A varint is one byte below 128 after any
  number of bytes of at least 128, ten bytes at most, each giving seven bits from the low end, and its value fits
  64 bits; it need not be the shortest one. A field is its tag followed by a value of the tag's wire type; a
  number keeps the low 32 bits of the tag. A message is at most 4096 fields, one after the other, with no byte
  left over or missing.
\<close>

definition groups_value :: "string \<Rightarrow> nat" where
  "groups_value m = foldr (\<lambda>c v. byte_of c mod 128 + 128 * v) m 0"

definition is_varint :: "string \<Rightarrow> nat \<Rightarrow> bool" where
  "is_varint m v \<longleftrightarrow> m \<noteq> [] \<and> length m \<le> 10 \<and> (\<forall>c\<in>set (butlast m). 128 \<le> byte_of c) \<and> byte_of (last m) < 128
     \<and> v = groups_value m \<and> v < 2 ^ 64"

definition is_value :: "nat \<Rightarrow> string \<Rightarrow> nat \<Rightarrow> string \<Rightarrow> bool" where
  "is_value wt p v bytes \<longleftrightarrow>
     wt = protoVarint \<and> is_varint p v \<and> bytes = []
     \<or> wt = protoI64 \<and> length p = 8 \<and> v = le_uint p \<and> bytes = []
     \<or> wt = protoBytes \<and> v = 0 \<and> (\<exists>l. is_varint l (length bytes) \<and> p = l @ bytes)
     \<or> wt = protoI32 \<and> length p = 4 \<and> v = le_uint p \<and> bytes = []"

definition is_field :: "string \<Rightarrow> protoField \<Rightarrow> bool" where
  "is_field m f \<longleftrightarrow> (\<exists>t p tag. m = t @ p \<and> is_varint t tag \<and> pf_Number f = tag div 8 mod 2 ^ 32 \<and> pf_Type f = tag mod 8
     \<and> is_value (pf_Type f) p (pf_Varint f) (pf_Bytes f))"

definition is_message :: "string \<Rightarrow> protoField list \<Rightarrow> bool" where
  "is_message b fs \<longleftrightarrow> length fs \<le> 4096 \<and> (\<exists>ms. b = concat ms \<and> list_all2 is_field ms fs)"

lemma groups_value_simps [simp]:
  "groups_value [] = 0" "groups_value (c # m) = byte_of c mod 128 + 128 * groups_value m"
  by (simp_all add: groups_value_def)

lemma groups_value_last: "m \<noteq> [] \<Longrightarrow> byte_of (last m) < 128 \<Longrightarrow> byte_of (last m) * 128 ^ (length m - 1) \<le> groups_value m"
proof (induction m)
  case (Cons c m)
  show ?case
  proof (cases "m = []")
    case False
    then obtain k where k: "length m = Suc k" by (cases m) simp_all
    define x where "x = byte_of (last m) * 128 ^ k"
    have "x \<le> groups_value m" using Cons.IH Cons.prems False k by (simp add: x_def)
    moreover have "byte_of (last (c # m)) * 128 ^ (length (c # m) - 1) = 128 * x" using False k by (simp add: x_def)
    ultimately show ?thesis by simp
  qed (use Cons in simp)
qed simp

lemma uvarint_from_sound:
  assumes "uvarint_from i x b = (v, n)" "0 < n" "i \<le> 9"
  shows "\<exists>m r. b = m @ r \<and> m \<noteq> [] \<and> (\<forall>c\<in>set (butlast m). 128 \<le> byte_of c) \<and> byte_of (last m) < 128
    \<and> i + length m \<le> 10 \<and> n = int i + int (length m) \<and> v = x + groups_value m * 2 ^ (7 * i)"
  using assms
proof (induction i x b rule: uvarint_from.induct)
  case (2 i x c b)
  show ?case
  proof (cases "byte_of c < 128")
    case True
    with 2 have "v = x + byte_of c * 2 ^ (7 * i)" "n = int i + 1" by (auto split: if_splits)
    with True 2(4) show ?thesis by (intro exI [of _ "[c]"] exI [of _ b]) simp
  next
    case False
    have rec: "uvarint_from (Suc i) (x + byte_of c mod 128 * 2 ^ (7 * i)) b = (v, n)"
      using 2(2,4) False by (simp split: if_splits)
    have "i \<noteq> 9" using rec 2(3) by (cases b) (auto split: if_splits)
    with 2(4) have i: "Suc i \<le> 9" "i \<noteq> 10" by auto
    from 2(1) [OF i(2) False rec 2(3) i(1)] obtain m r where m: "b = m @ r" "m \<noteq> []"
      "\<forall>c\<in>set (butlast m). 128 \<le> byte_of c" "byte_of (last m) < 128" "Suc i + length m \<le> 10"
      "n = int (Suc i) + int (length m)"
      "v = x + byte_of c mod 128 * 2 ^ (7 * i) + groups_value m * 2 ^ (7 * Suc i)" by blast
    have "v = x + groups_value (c # m) * 2 ^ (7 * i)" using m(7) by (simp add: algebra_simps power_add)
    with m False show ?thesis by (intro exI [of _ "c # m"] exI [of _ r]) auto
  qed
qed simp

lemma uvarint_from_complete:
  assumes "m \<noteq> []" "\<forall>c\<in>set (butlast m). 128 \<le> byte_of c" "byte_of (last m) < 128" "i + length m \<le> 10"
    "i + length m = 10 \<longrightarrow> byte_of (last m) \<le> 1"
  shows "uvarint_from i x (m @ r) = (x + groups_value m * 2 ^ (7 * i), int i + int (length m))"
  using assms
proof (induction m arbitrary: i x)
  case (Cons c m)
  show ?case
  proof (cases "m = []")
    case False
    with Cons.prems have c: "\<not> byte_of c < 128" "i \<noteq> 10" by auto
    have "uvarint_from (Suc i) y (m @ r) = (y + groups_value m * 2 ^ (7 * Suc i), int (Suc i) + int (length m))" for y
      using Cons.prems False by (intro Cons.IH) auto
    with c show ?thesis by (simp add: algebra_simps power_add)
  qed (use Cons.prems in auto)
qed simp

lemma decodeVarint_iff:
  "decodeVarint b = (v, n) \<and> 0 < n \<longleftrightarrow> (\<exists>m r. b = m @ r \<and> is_varint m v \<and> n = int (length m))"
proof
  assume "decodeVarint b = (v, n) \<and> 0 < n"
  then have d: "uvarint_from 0 0 b = (v, n)" "0 < n" by (simp_all add: decodeVarint_def)
  from uvarint_bound [OF d] have "v < 2 ^ 64" by simp
  with uvarint_from_sound [OF d] show "\<exists>m r. b = m @ r \<and> is_varint m v \<and> n = int (length m)"
    unfolding is_varint_def by fastforce
next
  assume "\<exists>m r. b = m @ r \<and> is_varint m v \<and> n = int (length m)"
  then obtain m r where m: "b = m @ r" "is_varint m v" "n = int (length m)" by blast
  have "byte_of (last m) \<le> 1" if "length m = 10"
  proof (rule ccontr)
    assume "\<not> byte_of (last m) \<le> 1"
    then have "2 * 128 ^ 9 \<le> byte_of (last m) * 128 ^ (length m - 1)" using that by simp
    also have "\<dots> \<le> v" using groups_value_last [of m] m(2) by (simp add: is_varint_def)
    finally show False using m(2) by (simp add: is_varint_def)
  qed
  with m uvarint_from_complete [of m 0 0 r] show "decodeVarint b = (v, n) \<and> 0 < n"
    by (simp add: is_varint_def decodeVarint_def)
qed

lemma decodeVarint_good: "is_varint m v \<Longrightarrow> decodeVarint (m @ r) = (v, int (length m)) \<and> 0 < int (length m)"
  by (subst decodeVarint_iff) blast

lemma decodeVarint_split:
  assumes "decodeVarint b = (v, n)" "\<not> n \<le> 0"
  obtains m where "b = m @ drop (nat n) b" "is_varint m v" "n = int (length m)"
  using assms decodeVarint_iff [of b v n] by fastforce

lemma decode_field_sound:
  assumes d: "decode_field b = Inr (f, r)"
  shows "\<exists>m. b = m @ r \<and> is_field m f"
proof -
  obtain tag n where t: "decodeVarint b = (tag, n)" by (cases "decodeVarint b")
  define s where "s = drop (nat n) b"
  obtain v k where v: "decodeVarint s = (v, k)" by (cases "decodeVarint s")
  have "\<not> n \<le> 0" using d t by (auto simp: decode_field_def)
  from decodeVarint_split [OF t this] obtain m where m: "b = m @ s" "is_varint m tag" unfolding s_def by blast
  have vk: "\<exists>l. s = l @ drop (nat k) s \<and> is_varint l v" if "\<not> k \<le> 0"
    using decodeVarint_split [OF v that] by metis
  have num: "pf_Number f = tag div 8 mod 2 ^ 32 \<and> pf_Type f = tag mod 8"
    using d unfolding decode_field_def Let_def t prod.case s_def [symmetric] v by (auto split: if_splits)
  have "\<exists>p. s = p @ r \<and> is_value (pf_Type f) p (pf_Varint f) (pf_Bytes f)"
  proof -
    consider (varint) "tag mod 8 = 0" "\<not> k \<le> 0" "pf_Varint f = v" "pf_Bytes f = []" "r = drop (nat k) s"
      | (i64) "tag mod 8 = 1" "8 \<le> length s" "pf_Varint f = le_uint (take 8 s)" "pf_Bytes f = []" "r = drop 8 s"
      | (bytes) "tag mod 8 = 2" "\<not> k \<le> 0" "v \<le> length (drop (nat k) s)" "pf_Varint f = 0"
          "pf_Bytes f = take v (drop (nat k) s)" "r = drop v (drop (nat k) s)"
      | (i32) "tag mod 8 = 5" "4 \<le> length s" "pf_Varint f = le_uint (take 4 s)" "pf_Bytes f = []" "r = drop 4 s"
      using d unfolding decode_field_def Let_def t prod.case s_def [symmetric] v by (auto split: if_splits)
    then show ?thesis
    proof cases
      case varint
      with vk num show ?thesis by (auto simp: is_value_def)
    next
      case i64
      with num show ?thesis by (intro exI [of _ "take 8 s"]) (simp add: is_value_def)
    next
      case bytes
      from vk [OF bytes(2)] obtain l where l: "s = l @ drop (nat k) s" "is_varint l v" by blast
      from bytes(3,5) have len: "length (pf_Bytes f) = v" by simp
      have "pf_Bytes f @ r = drop (nat k) s" unfolding bytes(5,6) by (rule append_take_drop_id)
      then have "s = (l @ pf_Bytes f) @ r" using l(1) by simp
      with l(2) len bytes(1,4) num show ?thesis by (intro exI [of _ "l @ pf_Bytes f"]) (auto simp: is_value_def)
    next
      case i32
      with num show ?thesis by (intro exI [of _ "take 4 s"]) (simp add: is_value_def)
    qed
  qed
  with m num show ?thesis unfolding is_field_def by (metis append.assoc)
qed

lemma decode_field_complete:
  assumes "is_field m f"
  shows "decode_field (m @ r) = Inr (f, r)"
proof -
  from assms obtain t p tag where t: "m = t @ p" "is_varint t tag" "pf_Number f = tag div 8 mod 2 ^ 32"
    "pf_Type f = tag mod 8" and v: "is_value (pf_Type f) p (pf_Varint f) (pf_Bytes f)" unfolding is_field_def by blast
  have f: "f = \<lparr>pf_Number = pf_Number f, pf_Type = pf_Type f, pf_Varint = pf_Varint f, pf_Bytes = pf_Bytes f\<rparr>" by simp
  have d: "decodeVarint (m @ r) = (tag, int (length t))" "0 < int (length t)"
    using decodeVarint_good [OF t(2), of "p @ r"] t(1) by simp_all
  have s: "drop (length t) (m @ r) = p @ r" by (simp add: t(1))
  from v show ?thesis unfolding is_value_def
  proof (elim disjE conjE exE)
    assume *: "pf_Type f = 0" "is_varint p (pf_Varint f)" "pf_Bytes f = []"
    from decodeVarint_good [OF *(2), of r] d s t(3,4) * show ?thesis by (subst f) (simp add: decode_field_def Let_def)
  next
    fix l assume *: "pf_Type f = 2" "pf_Varint f = 0" "is_varint l (length (pf_Bytes f))" "p = l @ pf_Bytes f"
    from decodeVarint_good [OF *(3), of "pf_Bytes f @ r"] d s t(3,4) * show ?thesis
      by (subst f) (simp add: decode_field_def Let_def)
  qed (use d s t(3,4) in \<open>subst f, simp add: decode_field_def Let_def\<close>)+
qed

lemma is_field_nonempty: "is_field m f \<Longrightarrow> m \<noteq> []"
  by (auto simp: is_field_def is_varint_def)

lemma decode_fields_iff:
  "decode_fields count b = Inr fs \<longleftrightarrow>
     (fs = [] \<or> count + length fs \<le> maxProtoFields) \<and> (\<exists>ms. b = concat ms \<and> list_all2 is_field ms fs)"
proof (induction fs arbitrary: count b)
  case Nil
  show ?case by (subst decode_fields.simps) (auto simp: bindE_eq_Inr split: sum.splits)
next
  case (Cons f fs)
  show ?case (is "?l \<longleftrightarrow> ?r")
  proof
    assume ?l
    then obtain r where r: "b \<noteq> []" "count < maxProtoFields" "decode_field b = Inr (f, r)" "decode_fields (Suc count) r = Inr fs"
      by (subst (asm) decode_fields.simps) (auto simp: bindE_eq_Inr split: if_splits sum.splits)
    from decode_field_sound [OF r(3)] obtain m where m: "b = m @ r" "is_field m f" by blast
    from r(2,4) Cons.IH [of "Suc count" r] obtain ms where "r = concat ms" "list_all2 is_field ms fs"
      "Suc count + length fs \<le> maxProtoFields" by fastforce
    with m show ?r by (intro conjI exI [of _ "m # ms"]) auto
  next
    assume ?r
    then obtain m ms where m: "b = m @ concat ms" "is_field m f" "list_all2 is_field ms fs"
      "count + length (f # fs) \<le> maxProtoFields" by (auto simp: list_all2_Cons2)
    with Cons.IH [of "Suc count" "concat ms"] have "decode_fields (Suc count) (concat ms) = Inr fs" by auto
    with m is_field_nonempty [OF m(2)] decode_field_complete [OF m(2), of "concat ms"] show ?l
      by (subst decode_fields.simps) simp
  qed
qed

lemma decode_field_error: "decode_field b = Inl e \<Longrightarrow> e = ErrSchema18Config"
  by (auto simp: decode_field_def Let_def split: if_splits prod.splits)

lemma decode_fields_error: "decode_fields count b = Inl e \<Longrightarrow> e = ErrSchema18Config"
proof (induction count b arbitrary: e rule: decode_fields.induct)
  case (1 count b)
  then show ?case
    by (subst (asm) (2) decode_fields.simps) (auto dest: decode_field_error simp: bindE_def split: if_splits sum.splits prod.splits)
qed

lemma is_value_ok:
  assumes "is_value wt p v bytes"
  shows "wt = protoVarint \<and> v < 2 ^ 64 \<and> bytes = []
    \<or> wt = protoI64 \<and> v < 2 ^ 64 \<and> bytes = []
    \<or> wt = protoBytes \<and> v = 0 \<and> length bytes < 2 ^ 64
    \<or> wt = protoI32 \<and> v < 2 ^ 32 \<and> bytes = []"
proof -
  have "length p = 8 \<Longrightarrow> le_uint p < 2 ^ 64" "length p = 4 \<Longrightarrow> le_uint p < 2 ^ 32"
    using le_uint_bound [of p] by simp_all
  with assms show ?thesis unfolding is_value_def is_varint_def by blast
qed

lemma is_field_ok:
  assumes "is_field m f"
  shows "pf_ok f"
proof -
  from assms obtain p tag where f: "pf_Number f = tag div 8 mod 2 ^ 32" and v: "is_value (pf_Type f) p (pf_Varint f) (pf_Bytes f)"
    unfolding is_field_def by blast
  have "pf_Number f < 2 ^ 32" unfolding f by (rule mod_less_divisor) simp
  with is_value_ok [OF v] show ?thesis unfolding pf_ok_def by blast
qed

lemma is_message_ok: "is_message b fs \<Longrightarrow> wire_ok fs"
  by (auto simp: is_message_def wire_ok_def maxProtoFields_def list_all2_conv_all_nth list_all_length intro: is_field_ok)

text \<open>C33: the package reader's protobuf decoder reads back every message of at most 4096 fields as it was written.
  Whatever the bytes are, it returns a list of fields exactly when the bytes are those fields on the wire, one
  after the other, every tag, length and value a complete varint that fits 64 bits and every payload as long as
  its length says, with nothing missing and nothing left over; any other input, a truncated one among them, is
  the one error and no fields. What it returns is itself such a message, and reads back as written.\<close>

theorem decodeProto_roundtrip:
  "(wire_ok fs \<longrightarrow> decodeProto (encodeProto fs) = Inr fs)
    \<and> (decodeProto b = Inr gs \<longleftrightarrow> is_message b gs)
    \<and> (is_message b gs \<longrightarrow> wire_ok gs \<and> decodeProto (encodeProto gs) = Inr gs)
    \<and> (decodeProto b = Inl e \<longleftrightarrow> e = ErrSchema18Config \<and> (\<nexists>gs. is_message b gs))"
proof -
  have enc: "wire_ok fs \<Longrightarrow> decodeProto (encodeProto fs) = Inr fs" for fs
    using proto.dec_enc [of fs] by (simp split: sum.splits)
  have iff: "decodeProto b = Inr gs \<longleftrightarrow> is_message b gs" for gs
    by (auto simp: decodeProto_def decode_fields_iff is_message_def maxProtoFields_def)
  moreover have "decodeProto b = Inl e \<longleftrightarrow> e = ErrSchema18Config \<and> (\<nexists>gs. is_message b gs)"
    unfolding iff [symmetric] using decode_fields_error [of 0 b] by (cases "decodeProto b") (auto simp: decodeProto_def)
  ultimately show ?thesis using enc is_message_ok by blast
qed

lemma decodeProto_roundtrip_witness:
  "decodeProto (encodeProto [\<lparr>pf_Number = 1, pf_Type = 0, pf_Varint = 150, pf_Bytes = []\<rparr>])
       = Inr [\<lparr>pf_Number = 1, pf_Type = 0, pf_Varint = 150, pf_Bytes = []\<rparr>]
   \<and> is_message [CHR 0x0A, CHR 0x02, CHR 0x41, CHR 0x42] [\<lparr>pf_Number = 1, pf_Type = 2, pf_Varint = 0, pf_Bytes = ''AB''\<rparr>]
   \<and> decodeProto [CHR 0x0A, CHR 0x03, CHR 0x41, CHR 0x42] = Inl ErrSchema18Config
   \<and> (\<nexists>gs. is_message [CHR 0x0A, CHR 0x03, CHR 0x41, CHR 0x42] gs)"
proof -
  let ?f = "\<lparr>pf_Number = 1, pf_Type = 0, pf_Varint = 150, pf_Bytes = []\<rparr>"
  have w: "wire_ok [?f]" by (simp add: wire_ok_def pf_ok_def maxProtoFields_def)
  have m: "decodeProto [CHR 0x0A, CHR 0x02, CHR 0x41, CHR 0x42] = Inr [\<lparr>pf_Number = 1, pf_Type = 2, pf_Varint = 0, pf_Bytes = ''AB''\<rparr>]"
    by (simp add: decodeProto_def decode_fields.simps decode_field_def decodeVarint_def maxProtoFields_def)
  have t: "decodeProto [CHR 0x0A, CHR 0x03, CHR 0x41, CHR 0x42] = Inl ErrSchema18Config"
    by (simp add: decodeProto_def decode_fields.simps decode_field_def decodeVarint_def maxProtoFields_def)
  show ?thesis
    using decodeProto_roundtrip [of "[?f]" "[]"] w
      decodeProto_roundtrip [of "[]" "[CHR 0x0A, CHR 0x02, CHR 0x41, CHR 0x42]"] m
      decodeProto_roundtrip [of "[]" "[CHR 0x0A, CHR 0x03, CHR 0x41, CHR 0x42]" "[]" ErrSchema18Config] t
    by blast
qed

end
