(* ===== verification/Apkg_Ir.thy ===== *)
theory Apkg_Ir
  imports Apkg_Proto Go_Time
begin

text \<open>
  \<open>internal/apkg/ir.go\<close> and the constants of \<open>ankischema.go\<close>: the normalised form of an Anki package and the
  conversions every reader uses. \<open>int32\<close> and \<open>int64\<close> are \<open>int\<close> in range; a warning is its kind and data, not its text.
\<close>

section \<open>The normalised package\<close>

record IrField =
  if_Ordinal :: int
  if_Name :: string
  if_Font :: string
  if_Size :: int
  if_IsRTL :: bool
  if_Sticky :: bool

record IrTemplate =
  it_Ordinal :: int
  it_Name :: string
  it_Qfmt :: string
  it_Afmt :: string
  it_BrowserQfmt :: string
  it_BrowserAfmt :: string

record IrNoteType =
  in_AnkiID :: int
  in_Name :: string
  in_CSS :: string
  in_IsCloze :: bool
  in_SortFieldIdx :: int
  in_Fields :: "IrField list"
  in_Templates :: "IrTemplate list"

record IrDeck =
  ir_deck_AnkiID :: int
  ir_deck_Name :: string
  ir_deck_Description :: string
  ir_deck_IsFiltered :: bool

record IrNote =
  ir_note_AnkiID :: int
  ir_note_Guid :: string
  ir_note_NoteTypeAnkiID :: int
  ir_note_Fields :: "string list"
  ir_note_Tags :: "string list"
  ir_note_Checksum :: int
  ir_note_Created :: gotime
  ir_note_Modified :: gotime
  ir_note_HomeDeckAnkiID :: int

text \<open>A due value: none, a queue position, or an instant (\<open>IrDue\<close> with its \<open>Kind\<close>).\<close>

datatype IrDue = DueNone | DuePosition int | DueAt gotime

record IrFSRSState =
  if_Stability :: float64
  if_Difficulty :: float64
  if_DesiredRetention :: float64
  if_Position :: int

record IrCard =
  ir_card_AnkiID :: int
  ir_card_NoteAnkiID :: int
  ir_card_DeckAnkiID :: int
  ir_card_FilteredDeckAnkiID :: int
  ir_card_Ordinal :: int
  ir_card_Type :: int
  ir_card_Queue :: int
  ir_card_Due :: IrDue
  ir_card_IntervalSeconds :: int
  ir_card_Factor :: int
  ir_card_Reps :: int
  ir_card_Lapses :: int
  ir_card_Flag :: int
  ir_card_Suspended :: bool
  ir_card_Buried :: bool
  ir_card_FSRS :: "IrFSRSState option"

record IrReview =
  ir_rev_AnkiID :: int
  ir_rev_CardAnkiID :: int
  ir_rev_ReviewedAt :: gotime
  ir_rev_Rating :: int
  ir_rev_IntervalSeconds :: int
  ir_rev_LastIntervalSeconds :: int
  ir_rev_Factor :: int
  ir_rev_DurationMs :: int
  ir_rev_Kind :: int

record IrMedia =
  im_Index :: string
  im_Filename :: string
  im_SHA256 :: string
  im_SizeBytes :: int
  im_Data :: string

datatype warning =
    MissingMember string
  | OversizedMember string string
  | DuplicateName string
  | ManualReschedule int
  | RevlogOutOfRange int int int
  | NoHomeDeck string

record IrCollection =
  irc_Crt :: gotime
  irc_SchemaVersion :: int
  irc_NoteTypes :: "IrNoteType list"
  irc_Decks :: "IrDeck list"
  irc_Notes :: "IrNote list"
  irc_Cards :: "IrCard list"
  irc_Reviews :: "IrReview list"
  irc_Media :: "IrMedia list"
  irc_Warnings :: "warning list"

section \<open>Instants\<close>

text \<open>\<open>time.Unix(s, 0)\<close> and \<open>time.UnixMilli(ms)\<close>; seconds since year 1 are an \<open>int64\<close>. \<open>t.Add(d)\<close> saturates.\<close>

definition unix_epoch :: int where "unix_epoch = 62135596800"

definition time_Unix :: "int \<Rightarrow> gotime" where
  "time_Unix s = wrap64 (s + unix_epoch) * Second"

definition time_UnixMilli :: "int \<Rightarrow> gotime" where
  "time_UnixMilli ms = wrap64 (ms div 1000 + unix_epoch) * Second + ms mod 1000 * 1000000"

definition time_Add :: "gotime \<Rightarrow> duration \<Rightarrow> gotime" where
  "time_Add t d = max (- max_int64 * Second) (min (max_int64 * Second + (Second - 1)) (t + d))"

section \<open>Conversions\<close>

definition secondsPerDay :: int where "secondsPerDay = 86400"

definition intervalSeconds :: "int \<Rightarrow> int" where
  "intervalSeconds ivl =
     (if ivl = min_int64 \<or> ivl > max_int64 div secondsPerDay then max_int64
      else if ivl < 0 then - ivl
      else ivl * secondsPerDay)"

definition clampInt32 :: "int \<Rightarrow> int" where
  "clampInt32 v = min (max v min_int32) max_int32"

definition splitFields :: "string \<Rightarrow> string list" where
  "splitFields flds = Split (CHR 0x1F) flds"

definition splitTags :: "string \<Rightarrow> string list" where
  "splitTags tags = Fields tags"

text \<open>\<open>strings.ReplaceAll(name, "\x1f", "::")\<close>.\<close>

definition normaliseDeckName :: "string \<Rightarrow> string" where
  "normaliseDeckName name = concat (map (\<lambda>c. if c = CHR 0x1F then ''::'' else [c]) name)"

definition days_after :: "gotime \<Rightarrow> int \<Rightarrow> gotime" where
  "days_after crt v = time_Add crt (wrap64 (wrap64 (v * 24) * Hour))"

definition epochSecondsThreshold :: int where "epochSecondsThreshold = 1000000000"

definition resolveDue :: "int \<Rightarrow> int \<Rightarrow> int \<Rightarrow> int \<Rightarrow> int \<Rightarrow> gotime \<Rightarrow> IrDue" where
  "resolveDue queue typ due odue odid crt =
     (let v = (if odid \<noteq> 0 then odue else due) in
      if queue = 0 then DuePosition (clampInt32 v)
      else if queue = 1 \<or> queue = 4 then DueAt (time_Unix v)
      else if queue = 2 \<or> queue = 3 then DueAt (days_after crt v)
      else if queue = -1 \<or> queue = -2 \<or> queue = -3 then
        (if typ = 0 then DuePosition (clampInt32 v)
         else if v \<ge> epochSecondsThreshold then DueAt (time_Unix v)
         else DueAt (days_after crt v))
      else DueNone)"

definition guidOrAnki :: "IrNote \<Rightarrow> string" where
  "guidOrAnki n = (if ir_note_Guid n \<noteq> [] then ir_note_Guid n else ''anki_id '' @ Itoa (ir_note_AnkiID n))"

text \<open>The first loop of \<open>resolveHomeDecks\<close>: for every note the card with the lowest id, the first of equal ones.\<close>

definition lowest_step :: "(int \<Rightarrow> IrCard option) \<Rightarrow> IrCard \<Rightarrow> (int \<Rightarrow> IrCard option)" where
  "lowest_step m c =
     (case m (ir_card_NoteAnkiID c) of
        None \<Rightarrow> m(ir_card_NoteAnkiID c \<mapsto> c)
      | Some d \<Rightarrow> if ir_card_AnkiID c < ir_card_AnkiID d then m(ir_card_NoteAnkiID c \<mapsto> c) else m)"

definition resolveHomeDecks :: "IrNote list \<Rightarrow> IrCard list \<Rightarrow> IrNote list \<times> warning list" where
  "resolveHomeDecks ns cards =
     (let lowestCard = foldl lowest_step (\<lambda>_. None) cards in
      (map (\<lambda>n. case lowestCard (ir_note_AnkiID n) of
              None \<Rightarrow> n | Some c \<Rightarrow> n\<lparr>ir_note_HomeDeckAnkiID := ir_card_DeckAnkiID c\<rparr>) ns,
       List.map_filter (\<lambda>n. if lowestCard (ir_note_AnkiID n) = None then Some (NoHomeDeck (guidOrAnki n)) else None) ns))"

text \<open>\<open>sort.Slice\<close> leaves open in which order rows with the same ordinal come; here they keep theirs.\<close>

definition sortFieldsByOrdinal :: "IrField list \<Rightarrow> IrField list" where
  "sortFieldsByOrdinal fs = sort_key if_Ordinal fs"

definition sortTemplatesByOrdinal :: "IrTemplate list \<Rightarrow> IrTemplate list" where
  "sortTemplatesByOrdinal ts = sort_key it_Ordinal ts"

section \<open>What the conversions guarantee\<close>

text \<open>An interval of an \<open>int64\<close> column is never negative and never wraps.\<close>

lemma intervalSeconds_range:
  assumes "min_int64 \<le> ivl" "ivl \<le> max_int64"
  shows "0 \<le> intervalSeconds ivl" "intervalSeconds ivl \<le> max_int64"
  using assms by (auto simp: intervalSeconds_def secondsPerDay_def int_bounds)

lemma clampInt32_range: "min_int32 \<le> clampInt32 v" "clampInt32 v \<le> max_int32" "in_range 32 (clampInt32 v)"
  by (auto simp: clampInt32_def int_bounds in_range_def)

lemma normaliseDeckName_idem [simp]: "normaliseDeckName (normaliseDeckName name) = normaliseDeckName name"
  by (induction name) (simp_all add: normaliseDeckName_def)

text \<open>Beyond 292 years the day offset of a due date leaves the range of a \<open>time.Duration\<close> and wraps.\<close>

lemma day_offset_wraps: "resolveDue 2 2 106752 0 0 0 = DueAt t \<Longrightarrow> t < 0"
  by (auto simp: resolveDue_def days_after_def time_Add_def wrap_def duration_defs int_bounds)

lemma lowest_step_other [simp]: "ir_card_NoteAnkiID c \<noteq> k \<Longrightarrow> lowest_step m c k = m k"
  by (auto simp: lowest_step_def split: option.splits)

lemma lowest_fold_None: "foldl lowest_step m cards k = None \<longleftrightarrow> m k = None \<and> (\<forall>c\<in>set cards. ir_card_NoteAnkiID c \<noteq> k)"
proof (induction cards arbitrary: m)
  case (Cons c cards)
  have "lowest_step m c (ir_card_NoteAnkiID c) \<noteq> None" by (auto simp: lowest_step_def split: option.splits)
  then show ?case by (cases "ir_card_NoteAnkiID c = k") (auto simp: Cons.IH)
qed simp

lemma lowest_fold_Some:
  assumes "foldl lowest_step m cards k = Some c"
  shows "(c \<in> set cards \<and> ir_card_NoteAnkiID c = k \<or> m k = Some c)
    \<and> (\<forall>d\<in>set cards. ir_card_NoteAnkiID d = k \<longrightarrow> ir_card_AnkiID c \<le> ir_card_AnkiID d)
    \<and> (\<forall>d. m k = Some d \<longrightarrow> ir_card_AnkiID c \<le> ir_card_AnkiID d)"
  using assms
proof (induction cards arbitrary: m)
  case (Cons e cards)
  note IH = Cons.IH [of "lowest_step m e"]
  show ?case
  proof (cases "ir_card_NoteAnkiID e = k")
    case False
    with IH Cons.prems show ?thesis by auto
  next
    case True
    show ?thesis
    proof (cases "m k")
      case None
      with True have "lowest_step m e k = Some e" by (simp add: lowest_step_def)
      with IH Cons.prems True None show ?thesis by auto
    next
      case (Some d)
      with True have "lowest_step m e k = Some (if ir_card_AnkiID e < ir_card_AnkiID d then e else d)"
        by (simp add: lowest_step_def)
      with IH Cons.prems True Some show ?thesis by (auto split: if_splits)
    qed
  qed
qed simp

text \<open>
  A note is filed under the home deck of its lowest-numbered card; a note without cards is left and
  reported.
\<close>

lemma resolveHomeDecks_spec:
  assumes "resolveHomeDecks ns cards = (ns', ws)" "i < length ns"
  shows "length ns' = length ns"
    and "(\<exists>c\<in>set cards. ir_card_NoteAnkiID c = ir_note_AnkiID (ns ! i)
        \<and> (\<forall>d\<in>set cards. ir_card_NoteAnkiID d = ir_note_AnkiID (ns ! i) \<longrightarrow> ir_card_AnkiID c \<le> ir_card_AnkiID d)
        \<and> ns' ! i = (ns ! i)\<lparr>ir_note_HomeDeckAnkiID := ir_card_DeckAnkiID c\<rparr>)
      \<or> (\<forall>c\<in>set cards. ir_card_NoteAnkiID c \<noteq> ir_note_AnkiID (ns ! i)) \<and> ns' ! i = ns ! i
        \<and> NoHomeDeck (guidOrAnki (ns ! i)) \<in> set ws"
proof -
  let ?m = "foldl lowest_step (\<lambda>_. None) cards"
  let ?f = "\<lambda>n. case ?m (ir_note_AnkiID n) of None \<Rightarrow> n | Some c \<Rightarrow> n\<lparr>ir_note_HomeDeckAnkiID := ir_card_DeckAnkiID c\<rparr>"
  let ?w = "\<lambda>n. if ?m (ir_note_AnkiID n) = None then Some (NoHomeDeck (guidOrAnki n)) else None"
  from assms(1) have ns': "ns' = map ?f ns" and ws: "ws = List.map_filter ?w ns"
    by (simp_all add: resolveHomeDecks_def Let_def)
  show "length ns' = length ns" by (simp add: ns')
  have in_ws: "?m (ir_note_AnkiID (ns ! i)) = None \<Longrightarrow> NoHomeDeck (guidOrAnki (ns ! i)) \<in> set ws"
    using assms(2) by (auto simp: ws map_filter_def intro!: image_eqI [of _ _ "ns ! i"])
  show "(\<exists>c\<in>set cards. ir_card_NoteAnkiID c = ir_note_AnkiID (ns ! i)
        \<and> (\<forall>d\<in>set cards. ir_card_NoteAnkiID d = ir_note_AnkiID (ns ! i) \<longrightarrow> ir_card_AnkiID c \<le> ir_card_AnkiID d)
        \<and> ns' ! i = (ns ! i)\<lparr>ir_note_HomeDeckAnkiID := ir_card_DeckAnkiID c\<rparr>)
      \<or> (\<forall>c\<in>set cards. ir_card_NoteAnkiID c \<noteq> ir_note_AnkiID (ns ! i)) \<and> ns' ! i = ns ! i
        \<and> NoHomeDeck (guidOrAnki (ns ! i)) \<in> set ws"
  proof (cases "?m (ir_note_AnkiID (ns ! i))")
    case None
    with in_ws lowest_fold_None [of "\<lambda>_. None" cards "ir_note_AnkiID (ns ! i)"] assms(2) show ?thesis by (simp add: ns')
  next
    case (Some c)
    from lowest_fold_Some [OF Some] Some assms(2) show ?thesis by (intro disjI1 bexI [of _ c]) (auto simp: ns')
  qed
qed

end
