(* ===== verification/Apkg_Archive.thy ===== *)
theory Apkg_Archive
  imports Apkg_Ir Go_Hex
begin

text \<open>
  The zip side of the package reader: \<open>internal/apkg/read.go\<close> up to the collection file, and \<open>media.go\<close>. An archive is
  the list of its members: name, the size its header claims, whether it opens, the bytes it yields and
  whether reading them then fails. zstd, JSON, NFC normalisation and SHA-256 are parameters.
\<close>

section \<open>Members and limits\<close>

record member =
  zm_Name :: string
  zm_UncompressedSize :: nat
  zm_Opens :: bool
  zm_Data :: string
  zm_Fails :: bool

record ArchiveLimits =
  MaxMembers :: int
  MaxMemberBytes :: int
  MaxTotalBytes :: int

definition DefaultArchiveLimits :: ArchiveLimits where
  "DefaultArchiveLimits = \<lparr>MaxMembers = 5000, MaxMemberBytes = 100 * 2 ^ 20, MaxTotalBytes = 500 * 2 ^ 20\<rparr>"

text \<open>
  \<open>io.ReadAll(io.LimitReader(r, n))\<close> of a reader that yields \<open>data\<close> and then fails or ends: the first \<open>n\<close> bytes; the
  failure is met only when the limit was not.
\<close>

definition read_limited :: "int \<Rightarrow> string \<Rightarrow> bool \<Rightarrow> string option" where
  "read_limited n data fails = (if fails \<and> int (length data) < n then None else Some (take (nat n) data))"

lemma read_limited_Some: "read_limited n data fails = Some buf \<Longrightarrow> buf = take (nat n) data"
  by (simp add: read_limited_def split: if_splits)

definition memberBytes :: "ArchiveLimits \<Rightarrow> int \<Rightarrow> member \<Rightarrow> apkg_error + string \<times> int" where
  "memberBytes limits budget f =
     (if wrap64 (int (zm_UncompressedSize f)) > MaxMemberBytes limits then Inl ErrMemberTooLarge
      else if \<not> zm_Opens f then Inl (ErrArchiveIO ''opening archive member'')
      else case read_limited (wrap64 (MaxMemberBytes limits + 1)) (zm_Data f) (zm_Fails f) of
        None \<Rightarrow> Inl (ErrArchiveIO ''reading archive member'')
      | Some buf \<Rightarrow>
          if int (length buf) > MaxMemberBytes limits then Inl ErrMemberTooLarge
          else if int (length buf) > budget then Inl ErrArchiveTooLarge
          else Inr (buf, budget - int (length buf)))"

definition findMember :: "member list \<Rightarrow> string \<Rightarrow> member option" where
  "findMember z name = find (\<lambda>f. zm_Name f = name) z"

fun pick_first :: "member list \<Rightarrow> string list \<Rightarrow> apkg_error + member" where
  "pick_first z [] = Inl ErrNoCollection"
| "pick_first z (name # names) = (case findMember z name of Some f \<Rightarrow> Inr f | None \<Rightarrow> pick_first z names)"

definition pickCollectionMember :: "member list \<Rightarrow> apkg_error + member" where
  "pickCollectionMember z = pick_first z [''collection.anki21b'', ''collection.anki21'', ''collection.anki2'']"

section \<open>zstd frames\<close>

definition sniffZstd :: "string \<Rightarrow> bool" where
  "sniffZstd b \<longleftrightarrow> HasPrefix b [CHR 0x28, CHR 0xB5, CHR 0x2F, CHR 0xFD]"

text \<open>The declared content size of a frame; \<open>None\<close> when it declares none.\<close>

definition zstdDeclaredSize :: "string \<Rightarrow> apkg_error + int option" where
  "zstdDeclaredSize b =
     (if length b < 5 then Inl ErrBadZstdFrame
      else
        let fhd = byte_of (b ! 4);
            fcsCode = fhd div 64;
            singleSegment = (fhd div 32 mod 2 = 1);
            off = 5 + (if singleSegment then 0 else 1) + [0, 1, 2, 4] ! (fhd mod 4);
            fcsSize = (if fcsCode = 0 then (if singleSegment then 1 else 0) else [0, 2, 4, 8] ! fcsCode)
        in if fcsSize = 0 then Inr None
           else if length b < off + fcsSize then Inl ErrBadZstdFrame
           else let v = le_uint (take fcsSize (drop off b))
                in Inr (Some (wrap64 (int (if fcsSize = 2 then v + 256 else v)))))"

text \<open>
  The decoder, for a memory limit: whether it accepts the frame's start, the bytes it yields, whether
  it then fails.
\<close>

type_synonym zstd_lib = "int \<Rightarrow> string \<Rightarrow> (string \<times> bool) option"

definition decompressZstd :: "zstd_lib \<Rightarrow> ArchiveLimits \<Rightarrow> int \<Rightarrow> string \<Rightarrow> apkg_error + string \<times> int" where
  "decompressZstd zstd limits budget b =
     (let limit = min budget (MaxMemberBytes limits) in
      bindE (zstdDeclaredSize b) (\<lambda>declared.
      if (case declared of None \<Rightarrow> False | Some n \<Rightarrow> n > limit) then Inl ErrMemberTooLarge
      else case zstd (MaxMemberBytes limits) b of
        None \<Rightarrow> Inl ErrBadZstdFrame
      | Some (data, fails) \<Rightarrow>
          (case read_limited (wrap64 (limit + 1)) data fails of
             None \<Rightarrow> Inl ErrBadZstdFrame
           | Some out \<Rightarrow> if int (length out) > limit then Inl ErrMemberTooLarge else Inr (out, budget - int (length out)))))"

definition memberPlain :: "zstd_lib \<Rightarrow> ArchiveLimits \<Rightarrow> int \<Rightarrow> member \<Rightarrow> apkg_error + string \<times> int" where
  "memberPlain zstd limits budget f =
     bindE (memberBytes limits budget f) (\<lambda>(b, budget').
       if sniffZstd b then decompressZstd zstd limits budget' b else Inr (b, budget'))"

section \<open>The media index\<close>

text \<open>A Go map is the list of its entries in the order an iteration takes, which is arbitrary; keys are distinct.\<close>

fun media_entries :: "nat \<Rightarrow> protoField list \<Rightarrow> apkg_error + (string \<times> string) list" where
  "media_entries pos [] = Inr []"
| "media_entries pos (f # fs) =
     (if pf_Number f \<noteq> 1 \<or> pf_Type f \<noteq> protoBytes then media_entries pos fs
      else case decodeProto (pf_Bytes f) of
        Inl _ \<Rightarrow> Inl ErrMediaIndex
      | Inr entry \<Rightarrow>
          (case protoString entry 1 of
             None \<Rightarrow> Inl ErrMediaIndex
           | Some name \<Rightarrow> bindE (media_entries (Suc pos) fs) (\<lambda>es. Inr ((Itoa (int pos), name) # es))))"

definition decodeProtoMediaIndex :: "string \<Rightarrow> apkg_error + (string \<times> string) list" where
  "decodeProtoMediaIndex b = (case decodeProto b of Inl _ \<Rightarrow> Inl ErrMediaIndex | Inr fs \<Rightarrow> media_entries 0 fs)"

definition readMediaIndex :: "(string \<Rightarrow> (string \<times> string) list option) \<Rightarrow> string \<Rightarrow> apkg_error + (string \<times> string) list" where
  "readMediaIndex json b =
     (if b = [] then Inr []
      else if hd b = CHR 0x7B then (case json b of None \<Rightarrow> Inl ErrMediaIndex | Some idx \<Rightarrow> Inr idx)
      else decodeProtoMediaIndex b)"

section \<open>Collecting the media\<close>

text \<open>The value \<open>strconv.Atoi\<close> returns beside its error: 0 for bad syntax, the nearest \<open>int64\<close> out of range.\<close>

definition atoi_value :: "string \<Rightarrow> int" where
  "atoi_value s =
     (let neg = HasPrefix s ''-''; ds = (if neg \<or> HasPrefix s ''+'' then tl s else s) in
      if ds = [] \<or> \<not> list_all is_digit ds then 0
      else let v = int (digits_val ds) in if neg then max min_int64 (- v) else min max_int64 v)"

text \<open>The last member of a name wins in the map of members.\<close>

definition member_map :: "member list \<Rightarrow> string \<Rightarrow> member option" where
  "member_map z name = findMember (rev z) name"

record media_state =
  ms_media :: "IrMedia list"
  ms_warnings :: "warning list"
  ms_budget :: int

text \<open>The first file of a name is kept; a later one is dropped, in silence when it is the same file.\<close>

definition add_media :: "(string \<Rightarrow> string) \<Rightarrow> (string \<Rightarrow> string) \<Rightarrow> string \<times> string \<Rightarrow> string \<Rightarrow> media_state \<Rightarrow> media_state" where
  "add_media nfc sha256 e bytes st =
     (let normalised = nfc (snd e); hexSum = hex_EncodeToString (sha256 bytes) in
      case find (\<lambda>m. im_Filename m = normalised) (ms_media st) of
        Some existing \<Rightarrow>
          (if im_SHA256 existing = hexSum then st
           else st\<lparr>ms_warnings := ms_warnings st @ [DuplicateName normalised]\<rparr>)
      | None \<Rightarrow>
          st\<lparr>ms_media := ms_media st @ [\<lparr>im_Index = fst e, im_Filename = normalised, im_SHA256 = hexSum,
            im_SizeBytes = int (length bytes), im_Data = bytes\<rparr>]\<rparr>)"

definition collect_entry :: "(string \<Rightarrow> string) \<Rightarrow> (string \<Rightarrow> string) \<Rightarrow> zstd_lib \<Rightarrow> ArchiveLimits \<Rightarrow> member list
    \<Rightarrow> media_state \<Rightarrow> string \<times> string \<Rightarrow> apkg_error + media_state" where
  "collect_entry nfc sha256 zstd limits z st e =
     (case member_map z (fst e) of
        None \<Rightarrow> Inr (st\<lparr>ms_warnings := ms_warnings st @ [MissingMember (fst e)]\<rparr>)
      | Some f \<Rightarrow>
      bindE (memberBytes limits (ms_budget st) f) (\<lambda>(raw, budget1).
        let unpacked = (if sniffZstd raw then decompressZstd zstd limits budget1 raw else Inr (raw, budget1)) in
        if unpacked = Inl ErrMemberTooLarge
        then Inr (st\<lparr>ms_budget := budget1, ms_warnings := ms_warnings st @ [OversizedMember (fst e) (snd e)]\<rparr>)
        else
          let (bytes, budget2) = (case unpacked of Inr r \<Rightarrow> r | Inl _ \<Rightarrow> (raw, budget1))
          in Inr (add_media nfc sha256 e bytes (st\<lparr>ms_budget := budget2\<rparr>))))"

definition collectMedia :: "(string \<Rightarrow> string) \<Rightarrow> (string \<Rightarrow> string) \<Rightarrow> zstd_lib \<Rightarrow> ArchiveLimits \<Rightarrow> member list
    \<Rightarrow> (string \<times> string) list \<Rightarrow> int \<Rightarrow> apkg_error + media_state" where
  "collectMedia nfc sha256 zstd limits z idx budget =
     foldE (collect_entry nfc sha256 zstd limits z) \<lparr>ms_media = [], ms_warnings = [], ms_budget = budget\<rparr>
       (sort_key (\<lambda>e. atoi_value (fst e)) idx)"

section \<open>Reads are metered\<close>

text \<open>
  The contract of every routine that reads untrusted bytes: what it yields fits the member limit and is paid for
  out of the budget, which does not become negative.
\<close>

locale metered_read =
  fixes rd :: "int \<Rightarrow> 'a \<Rightarrow> apkg_error + string \<times> int"
    and lim :: int
  assumes spends: "rd budget x = Inr (b, budget')
    \<Longrightarrow> int (length b) \<le> lim \<and> 0 \<le> budget' \<and> int (length b) \<le> budget - budget'"
begin

lemma fits: "rd budget x = Inr (b, budget') \<Longrightarrow> int (length b) \<le> lim"
  by (simp add: spends)

lemma solvent: "rd budget x = Inr (b, budget') \<Longrightarrow> 0 \<le> budget' \<and> budget' \<le> budget"
  by (frule spends) linarith

lemma paid: "rd budget x = Inr (b, budget') \<Longrightarrow> int (length b) + budget' \<le> budget"
  by (frule spends) linarith

text \<open>Two metered reads after one another, keeping the second's bytes.\<close>

lemma then_read:
  assumes "rd budget x = Inr (b, budget1)"
    and "metered_read rd' lim'" and "rd' budget1 y = Inr (c, budget2)"
  shows "int (length c) \<le> lim' \<and> 0 \<le> budget2 \<and> int (length c) \<le> budget - budget2"
  using metered_read.spends [OF assms(2,3)] solvent [OF assms(1)] by linarith

end

lemma length_read_limited: "read_limited n data fails = Some buf \<Longrightarrow> length buf \<le> length data"
  by (auto dest: read_limited_Some)

interpretation member_bytes: metered_read "memberBytes limits" "MaxMemberBytes limits" for limits
proof (unfold_locales, goal_cases)
  case (1 budget x b budget')
  then show ?case by (auto simp: memberBytes_def split: if_splits option.splits)
qed

interpretation zstd_frame: metered_read "decompressZstd zstd limits" "MaxMemberBytes limits" for zstd limits
proof (unfold_locales, goal_cases)
  case (1 budget x b budget')
  then show ?case by (auto simp: decompressZstd_def bindE_eq_Inr Let_def split: if_splits option.splits prod.splits)
qed

interpretation member_plain: metered_read "memberPlain zstd limits" "MaxMemberBytes limits" for zstd limits
proof (unfold_locales, goal_cases)
  case (1 budget f b budget')
  then obtain raw budget1 where raw: "memberBytes limits budget f = Inr (raw, budget1)"
    and rest: "(if sniffZstd raw then decompressZstd zstd limits budget1 raw else Inr (raw, budget1)) = Inr (b, budget')"
    by (auto simp: memberPlain_def bindE_eq_Inr)
  show ?case
  proof (cases "sniffZstd raw")
    case True
    with rest have "decompressZstd zstd limits budget1 raw = Inr (b, budget')" by simp
    with member_bytes.then_read [OF raw zstd_frame.metered_read_axioms] show ?thesis by blast
  next
    case False
    with rest raw member_bytes.spends [OF raw] show ?thesis by simp
  qed
qed

text \<open>The media collected so far fit what has been spent; names are distinct and the hashes are those of the data.\<close>

definition media_ok :: "(string \<Rightarrow> string) \<Rightarrow> ArchiveLimits \<Rightarrow> int \<Rightarrow> media_state \<Rightarrow> bool" where
  "media_ok sha256 limits budget st \<longleftrightarrow>
     0 \<le> ms_budget st \<and> sum_list (map im_SizeBytes (ms_media st)) + ms_budget st \<le> budget
     \<and> distinct (map im_Filename (ms_media st))
     \<and> (\<forall>m\<in>set (ms_media st). im_SizeBytes m = int (length (im_Data m)) \<and> im_SizeBytes m \<le> MaxMemberBytes limits
          \<and> im_SHA256 m = hex_EncodeToString (sha256 (im_Data m)))"

lemma media_ok_add:
  assumes "media_ok sha256 limits budget st"
    and "int (length bytes) \<le> MaxMemberBytes limits" "0 \<le> b" "int (length bytes) + b \<le> ms_budget st"
  shows "media_ok sha256 limits budget (add_media nfc sha256 e bytes (st\<lparr>ms_budget := b\<rparr>))"
proof -
  have "b \<le> ms_budget st" using assms(4) by simp
  then show ?thesis using assms
    by (auto simp: media_ok_def add_media_def Let_def find_None_iff split: option.splits)
qed

lemma media_ok_spend:
  "media_ok sha256 limits budget st \<Longrightarrow> 0 \<le> b \<Longrightarrow> b \<le> ms_budget st \<Longrightarrow>
    media_ok sha256 limits budget (st\<lparr>ms_budget := b, ms_warnings := ws\<rparr>)"
  by (auto simp: media_ok_def)

lemma collect_entry_ok:
  assumes "collect_entry nfc sha256 zstd limits z st e = Inr st'" and ok: "media_ok sha256 limits budget st"
  shows "media_ok sha256 limits budget st'"
proof (cases "member_map z (fst e)")
  case None
  with assms show ?thesis by (auto simp: collect_entry_def media_ok_def)
next
  case (Some f)
  then obtain raw budget1 where raw: "memberBytes limits (ms_budget st) f = Inr (raw, budget1)"
    using assms(1) by (auto simp: collect_entry_def bindE_eq_Inr)
  define unpacked where
    "unpacked = (if sniffZstd raw then decompressZstd zstd limits budget1 raw else Inr (raw, budget1))"
  define chosen where "chosen = (case unpacked of Inr r \<Rightarrow> r | Inl _ \<Rightarrow> (raw, budget1))"
  note raw_sp = member_bytes.spends [OF raw]
  have spent: "int (length (fst chosen)) \<le> MaxMemberBytes limits \<and> 0 \<le> snd chosen
      \<and> int (length (fst chosen)) + snd chosen \<le> ms_budget st"
  proof (cases "decompressZstd zstd limits budget1 raw")
    case (Inr r)
    obtain c b2 where r: "r = (c, b2)" by (cases r)
    from member_bytes.then_read [OF raw zstd_frame.metered_read_axioms Inr [unfolded r]] raw_sp show ?thesis
      by (auto simp: chosen_def unpacked_def Inr r)
  qed (use raw_sp in \<open>auto simp: chosen_def unpacked_def\<close>)
  have "st' = st\<lparr>ms_budget := budget1, ms_warnings := ms_warnings st @ [OversizedMember (fst e) (snd e)]\<rparr>
      \<or> st' = add_media nfc sha256 e (fst chosen) (st\<lparr>ms_budget := snd chosen\<rparr>)"
    using assms(1) Some raw
    by (auto simp: collect_entry_def split_beta Let_def unpacked_def chosen_def split: if_splits sum.splits)
  then show ?thesis
    using spent raw_sp media_ok_add [OF ok, of "fst chosen" "snd chosen" nfc e] media_ok_spend [OF ok, of budget1] by auto
qed

theorem collectMedia_ok:
  assumes "collectMedia nfc sha256 zstd limits z idx budget = Inr st" "0 \<le> budget"
  shows "media_ok sha256 limits budget st"
proof -
  have "media_ok sha256 limits budget \<lparr>ms_media = [], ms_warnings = [], ms_budget = budget\<rparr>"
    using assms(2) by (simp add: media_ok_def)
  with assms(1) show ?thesis
    unfolding collectMedia_def by (rule foldE_invariant) (rule collect_entry_ok)
qed

end
