(* ===== verification/Apkg_Read.thy ===== *)
theory Apkg_Read
  imports Apkg_Archive
begin

text \<open>
  \<open>internal/apkg/read.go\<close> from the collection file on, and the shapes of \<open>ankischema.go\<close>: the SQLite file is the results
  of the statements the reader runs. Opening it, JSON, zstd, NFC and SHA-256 are the fields of \<open>apkg_lib\<close>.
\<close>

section \<open>What the collection file answers\<close>

text \<open>
  A query fails to start (\<open>None\<close>), or yields rows, each of which may fail to scan, and then ends well or in an
  error (\<open>rows.Err\<close>).
\<close>

type_synonym 'a query = "('a option list \<times> bool) option"

definition scan_rows :: "('s \<Rightarrow> 'a \<Rightarrow> apkg_error + 's) \<Rightarrow> 's \<Rightarrow> 'a query \<Rightarrow> apkg_error + 's" where
  "scan_rows step s q =
     (case q of
        None \<Rightarrow> Inl ErrCorruptCollection
      | Some (rows, ended) \<Rightarrow>
          bindE (foldE (\<lambda>s r. case r of None \<Rightarrow> Inl ErrCorruptCollection | Some x \<Rightarrow> step s x) s rows) (\<lambda>s.
          if ended then Inr s else Inl ErrCorruptCollection))"

lemma scan_rows_invariant:
  assumes "scan_rows step s q = Inr s'" "I s"
    and "\<And>s x t. step s x = Inr t \<Longrightarrow> I s \<Longrightarrow> I t"
  shows "I s'"
proof -
  obtain rs ended where q: "q = Some (rs, ended)"
    using assms(1) by (cases q) (auto simp: scan_rows_def)
  then have "foldE (\<lambda>s r. case r of None \<Rightarrow> Inl ErrCorruptCollection | Some x \<Rightarrow> step s x) s rs = Inr s'"
    using assms(1) by (auto simp: scan_rows_def bindE_eq_Inr split: if_splits)
  from this assms(2) show ?thesis by (rule foldE_invariant) (auto intro: assms(3) split: option.splits)
qed

record note_row =
  nr_id :: int
  nr_guid :: string
  nr_mid :: int
  nr_mod :: int
  nr_tags :: string
  nr_flds :: string
  nr_csum :: int

record anki_card_row =
  cr_id :: int
  cr_nid :: int
  cr_did :: int
  cr_ord :: int
  cr_type :: int
  cr_queue :: int
  cr_due :: int
  cr_ivl :: int
  cr_factor :: int
  cr_reps :: int
  cr_lapses :: int
  cr_odue :: int
  cr_odid :: int
  cr_flags :: int
  cr_data :: string

record revlog_row =
  rr_id :: int
  rr_cid :: int
  rr_ease :: int
  rr_ivl :: int
  rr_lastIvl :: int
  rr_factor :: int
  rr_time :: int
  rr_type :: int

record sqlite =
  sq_tables :: "string query"
  sq_crt :: "int option"
  sq_col11 :: "(string \<times> string) option"
  sq_notetypes :: "(int \<times> string \<times> string) query"
  sq_fields :: "(int \<times> int \<times> string \<times> string) query"
  sq_templates :: "(int \<times> int \<times> string \<times> string) query"
  sq_decks :: "(int \<times> string \<times> string \<times> string) query"
  sq_notes :: "note_row query"
  sq_cards :: "anki_card_row query"
  sq_hasRevlog :: "bool option"
  sq_revlog :: "revlog_row query"

section \<open>The JSON shapes\<close>

text \<open>\<open>strings.Trim(s, "\"")\<close>, then \<open>ParseInt\<close>.\<close>

definition trim_quotes :: "string \<Rightarrow> string" where
  "trim_quotes s = rev (dropWhile ((=) (CHR 0x22)) (rev (dropWhile ((=) (CHR 0x22)) s)))"

definition ankiIntOrString_UnmarshalJSON :: "string \<Rightarrow> int option" where
  "ankiIntOrString_UnmarshalJSON b = ParseInt 64 (trim_quotes b)"

definition ankiIntOrString_MarshalJSON :: "int \<Rightarrow> string" where
  "ankiIntOrString_MarshalJSON n = Itoa n"

record ankiField11 =
  af_Name :: string
  af_Ord :: int
  af_Sticky :: bool
  af_RTL :: bool
  af_Font :: string
  af_Size :: int

record ankiTemplate11 =
  at_Name :: string
  at_Ord :: int
  at_Qfmt :: string
  at_Afmt :: string
  at_Bqfmt :: string
  at_Bafmt :: string

record ankiModel11 =
  am_ID :: int
  am_Name :: string
  am_Type :: int
  am_Sortf :: int
  am_CSS :: string
  am_Flds :: "ankiField11 list"
  am_Tmpls :: "ankiTemplate11 list"

record ankiDeck11 =
  adk_ID :: int
  adk_Name :: string
  adk_Desc :: string
  adk_Dyn :: int

record ankiCardData =
  acd_Pos :: "int option"
  acd_S :: "float64 option"
  acd_D :: "float64 option"
  acd_DR :: "float64 option"

text \<open>
  The JSON decoders of the two schema-11 objects take the decoder of an id and return the object's values in
  the order an iteration of the Go map takes, which is arbitrary.
\<close>

record apkg_lib =
  lib_zstd :: zstd_lib
  lib_nfc :: "string \<Rightarrow> string"
  lib_sha256 :: "string \<Rightarrow> string"
  lib_sqlite :: "string \<Rightarrow> sqlite option"
  lib_json_media :: "string \<Rightarrow> (string \<times> string) list option"
  lib_json_models :: "(string \<Rightarrow> int option) \<Rightarrow> string \<Rightarrow> ankiModel11 list option"
  lib_json_decks :: "(string \<Rightarrow> int option) \<Rightarrow> string \<Rightarrow> ankiDeck11 list option"
  lib_json_card :: "string \<Rightarrow> ankiCardData option"

section \<open>Schema and anchor\<close>

definition openCollection :: "apkg_lib \<Rightarrow> string \<Rightarrow> apkg_error + sqlite" where
  "openCollection lib b =
     (case lib_sqlite lib b of None \<Rightarrow> Inl (ErrArchiveIO ''opening collection sqlite file'') | Some h \<Rightarrow> Inr h)"

definition detectSchema :: "sqlite \<Rightarrow> apkg_error + int" where
  "detectSchema h =
     bindE (scan_rows (\<lambda>ts name. Inr (insert name ts)) {} (sq_tables h)) (\<lambda>tables.
     if ''notetypes'' \<in> tables \<and> ''fields'' \<in> tables \<and> ''templates'' \<in> tables \<and> ''decks'' \<in> tables then Inr 18
     else if ''col'' \<in> tables then Inr 11
     else Inl ErrUnknownSchema)"

definition readCrt :: "sqlite \<Rightarrow> apkg_error + gotime" where
  "readCrt h = (case sq_crt h of None \<Rightarrow> Inl ErrCorruptCollection | Some crt \<Rightarrow> Inr (time_Unix crt))"

section \<open>Schema 11\<close>

definition model_field :: "ankiField11 \<Rightarrow> IrField" where
  "model_field f = \<lparr>if_Ordinal = af_Ord f, if_Name = af_Name f, if_Font = af_Font f, if_Size = af_Size f,
     if_IsRTL = af_RTL f, if_Sticky = af_Sticky f\<rparr>"

definition model_template :: "ankiTemplate11 \<Rightarrow> IrTemplate" where
  "model_template t = \<lparr>it_Ordinal = at_Ord t, it_Name = at_Name t, it_Qfmt = at_Qfmt t, it_Afmt = at_Afmt t,
     it_BrowserQfmt = at_Bqfmt t, it_BrowserAfmt = at_Bafmt t\<rparr>"

definition model_notetype :: "ankiModel11 \<Rightarrow> IrNoteType" where
  "model_notetype m = \<lparr>in_AnkiID = am_ID m, in_Name = am_Name m, in_CSS = am_CSS m, in_IsCloze = (am_Type m = 1),
     in_SortFieldIdx = am_Sortf m,
     in_Fields = sortFieldsByOrdinal (map model_field (am_Flds m)),
     in_Templates = sortTemplatesByOrdinal (map model_template (am_Tmpls m))\<rparr>"

definition model_deck :: "ankiDeck11 \<Rightarrow> IrDeck" where
  "model_deck d = \<lparr>ir_deck_AnkiID = adk_ID d, ir_deck_Name = normaliseDeckName (adk_Name d),
     ir_deck_Description = adk_Desc d, ir_deck_IsFiltered = (adk_Dyn d \<noteq> 0)\<rparr>"

definition readSchema11 :: "apkg_lib \<Rightarrow> sqlite \<Rightarrow> apkg_error + IrNoteType list \<times> IrDeck list" where
  "readSchema11 lib h =
     (case sq_col11 h of
        None \<Rightarrow> Inl ErrCorruptCollection
      | Some (modelsJSON, decksJSON) \<Rightarrow>
     (case lib_json_models lib ankiIntOrString_UnmarshalJSON modelsJSON of
        None \<Rightarrow> Inl ErrCorruptCollection
      | Some models \<Rightarrow>
     (case lib_json_decks lib ankiIntOrString_UnmarshalJSON decksJSON of
        None \<Rightarrow> Inl ErrCorruptCollection
      | Some deckMap \<Rightarrow>
          Inr (sort_key in_AnkiID (map model_notetype models), sort_key ir_deck_AnkiID (map model_deck deckMap)))))"

section \<open>Schema 18\<close>

text \<open>The note types in row order, and the index of an id in them; the last row of an id wins.\<close>

definition readNotetypes18 :: "sqlite \<Rightarrow> apkg_error + IrNoteType list \<times> (int \<Rightarrow> nat option)" where
  "readNotetypes18 h =
     scan_rows (\<lambda>(nts, ntByID) (nid, name, config).
       bindE (decodeProto config) (\<lambda>fs.
       Inr (nts @ [\<lparr>in_AnkiID = nid, in_Name = name,
              in_CSS = (case protoString fs 3 of None \<Rightarrow> [] | Some css \<Rightarrow> css),
              in_IsCloze = (protoUint fs 1 = Some 1),
              in_SortFieldIdx = protoInt32 fs 2, in_Fields = [], in_Templates = []\<rparr>],
            ntByID(nid \<mapsto> length nts))))
       ([], \<lambda>_. None) (sq_notetypes h)"

definition readFields18 :: "sqlite \<Rightarrow> (int \<Rightarrow> nat option) \<Rightarrow> IrNoteType list \<Rightarrow> apkg_error + IrNoteType list" where
  "readFields18 h ntByID nts =
     scan_rows (\<lambda>nts (ntid, ord, name, config).
       case ntByID ntid of
         None \<Rightarrow> Inr nts
       | Some i \<Rightarrow>
           bindE (decodeProto config) (\<lambda>fs.
           Inr (nts[i := (nts ! i)\<lparr>in_Fields := in_Fields (nts ! i) @
             [\<lparr>if_Ordinal = ord, if_Name = name, if_Font = (case protoString fs 3 of None \<Rightarrow> [] | Some s \<Rightarrow> s),
               if_Size = protoInt32 fs 4, if_IsRTL = False, if_Sticky = False\<rparr>]\<rparr>])))
       nts (sq_fields h)"

definition readTemplates18 :: "sqlite \<Rightarrow> (int \<Rightarrow> nat option) \<Rightarrow> IrNoteType list \<Rightarrow> apkg_error + IrNoteType list" where
  "readTemplates18 h ntByID nts =
     scan_rows (\<lambda>nts (ntid, ord, name, config).
       case ntByID ntid of
         None \<Rightarrow> Inr nts
       | Some i \<Rightarrow>
           bindE (decodeProto config) (\<lambda>fs.
           Inr (nts[i := (nts ! i)\<lparr>in_Templates := in_Templates (nts ! i) @
             [\<lparr>it_Ordinal = ord, it_Name = name, it_Qfmt = (case protoString fs 1 of None \<Rightarrow> [] | Some s \<Rightarrow> s),
               it_Afmt = (case protoString fs 2 of None \<Rightarrow> [] | Some s \<Rightarrow> s), it_BrowserQfmt = [], it_BrowserAfmt = []\<rparr>]\<rparr>])))
       nts (sq_templates h)"

definition readDecks18 :: "sqlite \<Rightarrow> apkg_error + IrDeck list" where
  "readDecks18 h =
     scan_rows (\<lambda>decks (did, name, common, kind).
       bindE (decodeProto common) (\<lambda>_.
       bindE (decodeProto kind) (\<lambda>kindFields.
       Inr (decks @ [\<lparr>ir_deck_AnkiID = did, ir_deck_Name = normaliseDeckName name, ir_deck_Description = [],
         ir_deck_IsFiltered = (protoMessage kindFields 1 = None)\<rparr>]))))
       [] (sq_decks h)"

definition validateSchema18Decode :: "IrNoteType list \<Rightarrow> apkg_error + unit" where
  "validateSchema18Decode nts =
     (if list_all (\<lambda>nt. in_Fields nt \<noteq> [] \<and> list_all (\<lambda>t. it_Qfmt t \<noteq> []) (in_Templates nt)) nts
      then Inr () else Inl ErrSchema18Config)"

definition sort_parts :: "IrNoteType \<Rightarrow> IrNoteType" where
  "sort_parts nt = nt\<lparr>in_Fields := sortFieldsByOrdinal (in_Fields nt), in_Templates := sortTemplatesByOrdinal (in_Templates nt)\<rparr>"

definition readSchema18 :: "sqlite \<Rightarrow> apkg_error + IrNoteType list \<times> IrDeck list" where
  "readSchema18 h =
     bindE (readNotetypes18 h) (\<lambda>(nts, ntByID).
     bindE (readFields18 h ntByID nts) (\<lambda>nts.
     bindE (readTemplates18 h ntByID nts) (\<lambda>nts.
     let nts = map sort_parts nts in
     bindE (validateSchema18Decode nts) (\<lambda>_.
     bindE (readDecks18 h) (\<lambda>decks.
     Inr (nts, decks))))))"

section \<open>Notes, cards and the review log\<close>

definition note_of_row :: "note_row \<Rightarrow> IrNote" where
  "note_of_row r = \<lparr>ir_note_AnkiID = nr_id r, ir_note_Guid = nr_guid r, ir_note_NoteTypeAnkiID = nr_mid r,
     ir_note_Fields = splitFields (nr_flds r), ir_note_Tags = splitTags (nr_tags r), ir_note_Checksum = nr_csum r,
     ir_note_Created = time_UnixMilli (nr_id r), ir_note_Modified = time_Unix (nr_mod r), ir_note_HomeDeckAnkiID = 0\<rparr>"

definition readNotes :: "sqlite \<Rightarrow> apkg_error + IrNote list" where
  "readNotes h = scan_rows (\<lambda>ns r. Inr (ns @ [note_of_row r])) [] (sq_notes h)"

text \<open>The FSRS state of \<open>cards.data\<close>; data that does not parse or has no stability or difficulty is none.\<close>

definition card_fsrs :: "apkg_lib \<Rightarrow> string \<Rightarrow> IrFSRSState option" where
  "card_fsrs lib data =
     (if data = [] then None
      else case lib_json_card lib data of
        None \<Rightarrow> None
      | Some cd \<Rightarrow>
          (case (acd_S cd, acd_D cd) of
             (Some s, Some d) \<Rightarrow>
               Some \<lparr>if_Stability = s, if_Difficulty = d,
                 if_DesiredRetention = (case acd_DR cd of None \<Rightarrow> flt_zero | Some dr \<Rightarrow> dr),
                 if_Position = (case acd_Pos cd of None \<Rightarrow> 0 | Some p \<Rightarrow> p)\<rparr>
           | _ \<Rightarrow> None))"

text \<open>\<open>flags & 0x7\<close> of an \<open>int32\<close> is its remainder modulo 8.\<close>

definition card_of_row :: "apkg_lib \<Rightarrow> gotime \<Rightarrow> anki_card_row \<Rightarrow> IrCard" where
  "card_of_row lib crt r = \<lparr>ir_card_AnkiID = cr_id r, ir_card_NoteAnkiID = cr_nid r,
     ir_card_DeckAnkiID = (if cr_odid r \<noteq> 0 then cr_odid r else cr_did r),
     ir_card_FilteredDeckAnkiID = (if cr_odid r \<noteq> 0 then cr_did r else 0),
     ir_card_Ordinal = cr_ord r, ir_card_Type = cr_type r, ir_card_Queue = cr_queue r,
     ir_card_Due = resolveDue (cr_queue r) (cr_type r) (cr_due r) (cr_odue r) (cr_odid r) crt,
     ir_card_IntervalSeconds = intervalSeconds (cr_ivl r), ir_card_Factor = cr_factor r,
     ir_card_Reps = cr_reps r, ir_card_Lapses = cr_lapses r, ir_card_Flag = cr_flags r mod 8,
     ir_card_Suspended = (cr_queue r = -1), ir_card_Buried = (cr_queue r = -2 \<or> cr_queue r = -3),
     ir_card_FSRS = card_fsrs lib (cr_data r)\<rparr>"

definition readCards :: "apkg_lib \<Rightarrow> sqlite \<Rightarrow> gotime \<Rightarrow> apkg_error + IrCard list" where
  "readCards lib h crt = scan_rows (\<lambda>cs r. Inr (cs @ [card_of_row lib crt r])) [] (sq_cards h)"

definition revlog_step :: "IrReview list \<times> warning list \<Rightarrow> revlog_row \<Rightarrow> apkg_error + IrReview list \<times> warning list" where
  "revlog_step s r =
     (let (reviews, ws) = s in
      if rr_ease r = 0 then Inr (reviews, ws @ [ManualReschedule (rr_id r)])
      else if rr_ease r < 1 \<or> rr_ease r > 4 \<or> rr_type r < 0 \<or> rr_type r > 4
      then Inr (reviews, ws @ [RevlogOutOfRange (rr_ease r) (rr_type r) (rr_id r)])
      else Inr (reviews @ [\<lparr>ir_rev_AnkiID = rr_id r, ir_rev_CardAnkiID = rr_cid r,
             ir_rev_ReviewedAt = time_UnixMilli (rr_id r), ir_rev_Rating = wrap16 (rr_ease r),
             ir_rev_IntervalSeconds = intervalSeconds (rr_ivl r),
             ir_rev_LastIntervalSeconds = intervalSeconds (rr_lastIvl r),
             ir_rev_Factor = rr_factor r, ir_rev_DurationMs = rr_time r, ir_rev_Kind = wrap16 (rr_type r)\<rparr>], ws))"

definition readRevlog :: "sqlite \<Rightarrow> apkg_error + IrReview list \<times> warning list" where
  "readRevlog h =
     (case sq_hasRevlog h of
        None \<Rightarrow> Inl ErrCorruptCollection
      | Some hasTable \<Rightarrow> if \<not> hasTable then Inr ([], []) else scan_rows revlog_step ([], []) (sq_revlog h))"

section \<open>The reader\<close>

text \<open>\<open>zip.NewReader\<close> yields the members or refuses the file.\<close>

definition openArchive :: "ArchiveLimits \<Rightarrow> member list option \<Rightarrow> apkg_error + member list" where
  "openArchive limits z =
     (case z of
        None \<Rightarrow> Inl ErrNotAPackage
      | Some members \<Rightarrow> if int (length members) > MaxMembers limits then Inl ErrTooManyMembers else Inr members)"

text \<open>The media block of \<open>Read\<close>.\<close>

definition readMedia :: "apkg_lib \<Rightarrow> ArchiveLimits \<Rightarrow> member list \<Rightarrow> int \<Rightarrow> apkg_error + IrMedia list \<times> warning list" where
  "readMedia lib limits z budget =
     (case findMember z ''media'' of
        None \<Rightarrow> Inr ([], [])
      | Some f \<Rightarrow>
          bindE (memberPlain (lib_zstd lib) limits budget f) (\<lambda>(mediaBytes, budget).
          bindE (readMediaIndex (lib_json_media lib) mediaBytes) (\<lambda>idx.
          bindE (collectMedia (lib_nfc lib) (lib_sha256 lib) (lib_zstd lib) limits z idx budget) (\<lambda>st.
          Inr (ms_media st, ms_warnings st)))))"

text \<open>The collection block of \<open>Read\<close>: everything but the media.\<close>

definition readCollection :: "apkg_lib \<Rightarrow> string \<Rightarrow> apkg_error + IrCollection" where
  "readCollection lib collBytes =
     bindE (openCollection lib collBytes) (\<lambda>h.
     bindE (detectSchema h) (\<lambda>schema.
     bindE (readCrt h) (\<lambda>crt.
     bindE (if schema = 11 then readSchema11 lib h else if schema = 18 then readSchema18 h else Inr ([], [])) (\<lambda>(nts, decks).
     bindE (readNotes h) (\<lambda>ns.
     bindE (readCards lib h crt) (\<lambda>cards.
     bindE (readRevlog h) (\<lambda>(reviews, warnings).
     let (ns, homeDeckWarnings) = resolveHomeDecks ns cards in
     Inr \<lparr>irc_Crt = crt, irc_SchemaVersion = schema, irc_NoteTypes = nts, irc_Decks = decks, irc_Notes = ns,
       irc_Cards = cards, irc_Reviews = reviews, irc_Media = [], irc_Warnings = warnings @ homeDeckWarnings\<rparr>)))))))"

definition Read :: "apkg_lib \<Rightarrow> ArchiveLimits \<Rightarrow> member list option \<Rightarrow> apkg_error + IrCollection" where
  "Read lib limits r =
     bindE (openArchive limits r) (\<lambda>z.
     bindE (pickCollectionMember z) (\<lambda>collMember.
     bindE (memberPlain (lib_zstd lib) limits (MaxTotalBytes limits) collMember) (\<lambda>(collBytes, budget).
     bindE (readCollection lib collBytes) (\<lambda>c.
     bindE (readMedia lib limits z budget) (\<lambda>(media, mediaWarnings).
     Inr (c\<lparr>irc_Media := media, irc_Warnings := irc_Warnings c @ mediaWarnings\<rparr>))))))"

text \<open>\<open>ReadFile\<close>: \<open>None\<close> stands for a path that does not open or stat.\<close>

definition ReadFile :: "apkg_lib \<Rightarrow> ArchiveLimits \<Rightarrow> member list option option \<Rightarrow> apkg_error + IrCollection" where
  "ReadFile lib limits file =
     (case file of None \<Rightarrow> Inl (ErrArchiveIO ''opening file'') | Some r \<Rightarrow> Read lib limits r)"

section \<open>What a package that is read looks like\<close>

definition notetype_ok :: "int \<Rightarrow> IrNoteType \<Rightarrow> bool" where
  "notetype_ok schema nt \<longleftrightarrow> sorted (map if_Ordinal (in_Fields nt)) \<and> sorted (map it_Ordinal (in_Templates nt))
     \<and> (schema = 18 \<longrightarrow> in_Fields nt \<noteq> [] \<and> (\<forall>t\<in>set (in_Templates nt). it_Qfmt t \<noteq> []))"

definition card_ok :: "IrCard \<Rightarrow> bool" where
  "card_ok k \<longleftrightarrow> 0 \<le> ir_card_IntervalSeconds k \<and> 0 \<le> ir_card_Flag k \<and> ir_card_Flag k < 8
     \<and> \<not> (ir_card_Suspended k \<and> ir_card_Buried k)
     \<and> (\<forall>v. ir_card_Due k = DuePosition v \<longrightarrow> in_range 32 v)"

definition review_ok :: "IrReview \<Rightarrow> bool" where
  "review_ok v \<longleftrightarrow> ir_rev_Rating v \<in> {1..4} \<and> ir_rev_Kind v \<in> {0..4}
     \<and> 0 \<le> ir_rev_IntervalSeconds v \<and> 0 \<le> ir_rev_LastIntervalSeconds v"

text \<open>A note is filed under the home deck of its lowest-numbered card, or has no card and is reported.\<close>

definition note_filed :: "IrCard list \<Rightarrow> warning list \<Rightarrow> IrNote \<Rightarrow> bool" where
  "note_filed cards ws n \<longleftrightarrow>
     (\<exists>k\<in>set cards. ir_card_NoteAnkiID k = ir_note_AnkiID n \<and> ir_note_HomeDeckAnkiID n = ir_card_DeckAnkiID k
        \<and> (\<forall>k'\<in>set cards. ir_card_NoteAnkiID k' = ir_note_AnkiID n \<longrightarrow> ir_card_AnkiID k \<le> ir_card_AnkiID k'))
     \<or> (\<forall>k\<in>set cards. ir_card_NoteAnkiID k \<noteq> ir_note_AnkiID n) \<and> ir_note_HomeDeckAnkiID n = 0
        \<and> NoHomeDeck (guidOrAnki n) \<in> set ws"

lemma intervalSeconds_nonneg: "0 \<le> intervalSeconds ivl"
  by (simp add: intervalSeconds_def secondsPerDay_def int_bounds)

lemma sorted_parts [simp]:
  "sorted (map if_Ordinal (sortFieldsByOrdinal fs))" "sorted (map it_Ordinal (sortTemplatesByOrdinal ts))"
  by (simp_all add: sortFieldsByOrdinal_def sortTemplatesByOrdinal_def)

lemma readSchema11_ok:
  assumes "readSchema11 lib h = Inr (nts, decks)" "nt \<in> set nts"
  shows "notetype_ok 11 nt"
  using assms by (auto simp: readSchema11_def notetype_ok_def model_notetype_def split: option.splits)

lemma readSchema18_ok:
  assumes "readSchema18 h = Inr (nts, decks)" "nt \<in> set nts"
  shows "notetype_ok 18 nt"
proof -
  obtain nts' where nts: "nts = map sort_parts nts'" and v: "validateSchema18Decode nts = Inr ()"
    using assms(1) by (auto simp: readSchema18_def bindE_eq_Inr Let_def)
  from v assms(2) have "in_Fields nt \<noteq> [] \<and> (\<forall>t\<in>set (in_Templates nt). it_Qfmt t \<noteq> [])"
    by (auto simp: validateSchema18Decode_def list_all_iff split: if_splits)
  then show ?thesis using assms(2) by (auto simp: nts notetype_ok_def sort_parts_def)
qed

lemma card_of_row_ok: "card_ok (card_of_row lib crt r)"
  by (auto simp: card_ok_def card_of_row_def intervalSeconds_nonneg resolveDue_def Let_def clampInt32_range split: if_splits)

lemma readCards_ok:
  assumes "readCards lib h crt = Inr cards" "k \<in> set cards"
  shows "card_ok k"
proof -
  have "\<forall>k\<in>set cards. card_ok k"
    using assms(1) unfolding readCards_def
    by (rule scan_rows_invariant [where I = "\<lambda>cs. \<forall>k\<in>set cs. card_ok k"]) (auto simp: card_of_row_ok)
  with assms(2) show ?thesis by blast
qed

lemma readNotes_unfiled:
  assumes "readNotes h = Inr ns" "n \<in> set ns"
  shows "ir_note_HomeDeckAnkiID n = 0"
proof -
  have "\<forall>n\<in>set ns. ir_note_HomeDeckAnkiID n = 0"
    using assms(1) unfolding readNotes_def
    by (rule scan_rows_invariant [where I = "\<lambda>ns. \<forall>n\<in>set ns. ir_note_HomeDeckAnkiID n = 0"]) (auto simp: note_of_row_def)
  with assms(2) show ?thesis by blast
qed

lemma wrap16_small: "0 \<le> x \<Longrightarrow> x \<le> 4 \<Longrightarrow> wrap16 x = x"
  by (simp add: wrap_def)

lemma revlog_step_ok:
  assumes "revlog_step s r = Inr t" "\<forall>v\<in>set (fst s). review_ok v"
  shows "\<forall>v\<in>set (fst t). review_ok v"
  using assms by (auto simp: revlog_step_def review_ok_def intervalSeconds_nonneg wrap16_small split_beta split: if_splits)

lemma readRevlog_ok:
  assumes "readRevlog h = Inr (reviews, ws)" "v \<in> set reviews"
  shows "review_ok v"
proof (cases "sq_hasRevlog h")
  case (Some has)
  show ?thesis
  proof (cases has)
    case True
    with Some assms(1) have "scan_rows revlog_step ([], []) (sq_revlog h) = Inr (reviews, ws)" by (simp add: readRevlog_def)
    then have "\<forall>v\<in>set (fst (reviews, ws)). review_ok v"
      by (rule scan_rows_invariant [where I = "\<lambda>s. \<forall>v\<in>set (fst s). review_ok v"]) (auto intro: revlog_step_ok [rule_format])
    with assms(2) show ?thesis by simp
  qed (use Some assms in \<open>simp add: readRevlog_def\<close>)
qed (use assms in \<open>simp add: readRevlog_def\<close>)

lemma resolveHomeDecks_filed:
  assumes "resolveHomeDecks ns cards = (ns', ws)" "n \<in> set ns'" "\<forall>n\<in>set ns. ir_note_HomeDeckAnkiID n = 0"
  shows "note_filed cards ws n"
proof -
  have len: "length ns' = length ns" using assms(1) by (auto simp: resolveHomeDecks_def Let_def)
  obtain i where i: "i < length ns" "n = ns' ! i" using assms(2) len by (auto simp: in_set_conv_nth)
  have [simp]: "guidOrAnki (m\<lparr>ir_note_HomeDeckAnkiID := d\<rparr>) = guidOrAnki m" for m d by (simp add: guidOrAnki_def)
  show ?thesis
    using resolveHomeDecks_spec(2) [OF assms(1) i(1)]
  proof (elim disjE bexE conjE)
    fix k assume "k \<in> set cards" "ir_card_NoteAnkiID k = ir_note_AnkiID (ns ! i)"
      "\<forall>d\<in>set cards. ir_card_NoteAnkiID d = ir_note_AnkiID (ns ! i) \<longrightarrow> ir_card_AnkiID k \<le> ir_card_AnkiID d"
      "ns' ! i = (ns ! i)\<lparr>ir_note_HomeDeckAnkiID := ir_card_DeckAnkiID k\<rparr>"
    then show ?thesis unfolding note_filed_def i(2) by (intro disjI1 bexI [of _ k]) simp_all
  next
    assume "\<forall>c\<in>set cards. ir_card_NoteAnkiID c \<noteq> ir_note_AnkiID (ns ! i)" "ns' ! i = ns ! i"
      "NoHomeDeck (guidOrAnki (ns ! i)) \<in> set ws"
    moreover have "ns ! i \<in> set ns" using i(1) by simp
    ultimately show ?thesis unfolding note_filed_def i(2) using assms(3) by simp
  qed
qed

lemma readCollection_parts:
  assumes "readCollection lib b = Inr c"
  obtains h ns ws ws' decks where "irc_SchemaVersion c = 11 \<and> readSchema11 lib h = Inr (irc_NoteTypes c, decks)
        \<or> irc_SchemaVersion c = 18 \<and> readSchema18 h = Inr (irc_NoteTypes c, decks)"
    and "readNotes h = Inr ns" and "readCards lib h (irc_Crt c) = Inr (irc_Cards c)"
    and "readRevlog h = Inr (irc_Reviews c, ws)"
    and "resolveHomeDecks ns (irc_Cards c) = (irc_Notes c, ws')" and "irc_Warnings c = ws @ ws'"
proof -
  obtain h schema crt nts decks ns cards reviews ws where
    sch: "detectSchema h = Inr schema" and
    nts: "(if schema = 11 then readSchema11 lib h else if schema = 18 then readSchema18 h else Inr ([], [])) = Inr (nts, decks)" and
    rest: "readNotes h = Inr ns" "readCards lib h crt = Inr cards" "readRevlog h = Inr (reviews, ws)" and
    c: "c = (let (ns, homeDeckWarnings) = resolveHomeDecks ns cards in
      \<lparr>irc_Crt = crt, irc_SchemaVersion = schema, irc_NoteTypes = nts, irc_Decks = decks, irc_Notes = ns,
       irc_Cards = cards, irc_Reviews = reviews, irc_Media = [], irc_Warnings = ws @ homeDeckWarnings\<rparr>)"
    using assms unfolding readCollection_def bindE_eq_Inr Let_def split_beta by (auto simp del: if_split)
  obtain ns' ws' where home: "resolveHomeDecks ns cards = (ns', ws')" by (cases "resolveHomeDecks ns cards")
  from sch have "schema = 11 \<or> schema = 18" by (auto simp: detectSchema_def bindE_eq_Inr split: if_splits)
  with nts rest home show ?thesis by (intro that [of h decks ns ws ws']) (auto simp: c)
qed

lemma Read_parts:
  assumes "Read lib limits r = Inr c"
  obtains z f b budget c' media ws where "openArchive limits r = Inr z" "pickCollectionMember z = Inr f"
    "memberPlain (lib_zstd lib) limits (MaxTotalBytes limits) f = Inr (b, budget)" "readCollection lib b = Inr c'"
    "readMedia lib limits z budget = Inr (media, ws)"
    "c = c'\<lparr>irc_Media := media, irc_Warnings := irc_Warnings c' @ ws\<rparr>"
  using assms unfolding Read_def bindE_eq_Inr split_beta by auto

text \<open>C35: a package that is read is well formed as far as this says: the fields and templates of every note type are
  in ordinal order, and a package of schema 18 has no note type without fields and no template with an empty front
  (the reader does not ask this of schema 11); every note is filed under the home deck of its lowest-numbered card
  or reported; intervals are not negative, queue positions and flags in range, ratings 1 to 4 and review kinds 0
  to 4.\<close>

theorem Read_well_formed:
  assumes "Read lib limits r = Inr c"
  shows "irc_SchemaVersion c \<in> {11, 18}
    \<and> list_all (notetype_ok (irc_SchemaVersion c)) (irc_NoteTypes c)
    \<and> list_all (note_filed (irc_Cards c) (irc_Warnings c)) (irc_Notes c)
    \<and> list_all card_ok (irc_Cards c) \<and> list_all review_ok (irc_Reviews c)"
proof -
  from assms obtain z f b budget c' media mws where coll: "readCollection lib b = Inr c'"
    and c: "c = c'\<lparr>irc_Media := media, irc_Warnings := irc_Warnings c' @ mws\<rparr>" by (rule Read_parts)
  from coll obtain h ns ws ws' decks where sch: "irc_SchemaVersion c' = 11 \<and> readSchema11 lib h = Inr (irc_NoteTypes c', decks)
        \<or> irc_SchemaVersion c' = 18 \<and> readSchema18 h = Inr (irc_NoteTypes c', decks)"
    and ns: "readNotes h = Inr ns" and cards: "readCards lib h (irc_Crt c') = Inr (irc_Cards c')"
    and revs: "readRevlog h = Inr (irc_Reviews c', ws)"
    and home: "resolveHomeDecks ns (irc_Cards c') = (irc_Notes c', ws')" and ws: "irc_Warnings c' = ws @ ws'"
    by (rule readCollection_parts)
  have "note_filed (irc_Cards c') (irc_Warnings c) n" if "n \<in> set (irc_Notes c')" for n
    using resolveHomeDecks_filed [OF home that] readNotes_unfiled [OF ns] by (auto simp: note_filed_def c ws)
  then show ?thesis
    using sch readCards_ok [OF cards] readRevlog_ok [OF revs]
    by (auto simp: c list_all_iff dest: readSchema11_ok readSchema18_ok)
qed

text \<open>C34: reading an untrusted package keeps within its limits: no more members than allowed, and the collection and
  every medium fit the member limit and together the total, however far the archive's headers understate
  what its streams expand to. File names are distinct, and the hashes those of the data.
\<close>

theorem Read_within_limits:
  assumes "Read lib limits r = Inr c"
  shows "\<exists>z f b budget. r = Some z \<and> int (length z) \<le> MaxMembers limits \<and> pickCollectionMember z = Inr f
    \<and> memberPlain (lib_zstd lib) limits (MaxTotalBytes limits) f = Inr (b, budget)
    \<and> int (length b) \<le> MaxMemberBytes limits
    \<and> int (length b) + sum_list (map (\<lambda>m. int (length (im_Data m))) (irc_Media c)) \<le> MaxTotalBytes limits
    \<and> (\<forall>m\<in>set (irc_Media c). int (length (im_Data m)) \<le> MaxMemberBytes limits
         \<and> im_SizeBytes m = int (length (im_Data m)) \<and> im_SHA256 m = hex_EncodeToString (lib_sha256 lib (im_Data m)))
    \<and> distinct (map im_Filename (irc_Media c))"
proof -
  from assms obtain z f b budget c' media mws where z: "openArchive limits r = Inr z" "pickCollectionMember z = Inr f"
    and b: "memberPlain (lib_zstd lib) limits (MaxTotalBytes limits) f = Inr (b, budget)"
    and m: "readMedia lib limits z budget = Inr (media, mws)"
    and c: "c = c'\<lparr>irc_Media := media, irc_Warnings := irc_Warnings c' @ mws\<rparr>" by (rule Read_parts)
  note spent = member_plain.spends [OF b]
  have r: "r = Some z" "int (length z) \<le> MaxMembers limits"
    using z(1) by (auto simp: openArchive_def split: option.splits if_splits)
  have "\<exists>st. media_ok (lib_sha256 lib) limits budget st \<and> ms_media st = media"
  proof (cases "findMember z ''media''")
    case None
    with m spent show ?thesis
      by (intro exI [of _ "\<lparr>ms_media = [], ms_warnings = [], ms_budget = 0\<rparr>"]) (auto simp: readMedia_def media_ok_def)
  next
    case (Some g)
    with m obtain mb budget1 idx st where mb: "memberPlain (lib_zstd lib) limits budget g = Inr (mb, budget1)"
      and st: "collectMedia (lib_nfc lib) (lib_sha256 lib) (lib_zstd lib) limits z idx budget1 = Inr st" "media = ms_media st"
      by (auto simp: readMedia_def bindE_eq_Inr)
    from member_plain.solvent [OF mb] collectMedia_ok [OF st(1)] have "media_ok (lib_sha256 lib) limits budget st"
      by (auto simp: media_ok_def)
    with st(2) show ?thesis by blast
  qed
  then obtain st where ok: "media_ok (lib_sha256 lib) limits budget st" and st: "ms_media st = media" by blast
  then have "map im_SizeBytes media = map (\<lambda>m. int (length (im_Data m))) media" by (auto simp: media_ok_def)
  with ok st spent have "int (length b) + sum_list (map (\<lambda>m. int (length (im_Data m))) media) \<le> MaxTotalBytes limits"
    by (simp add: media_ok_def)
  with ok st spent z(2) b r show ?thesis
    by (intro exI [of _ z] exI [of _ f] exI [of _ b] exI [of _ budget]) (auto simp: media_ok_def c)
qed

section \<open>A sample package\<close>

text \<open>One note with one card and one review, a second review that is dropped, and one medium.\<close>

definition sample_db :: sqlite where
  "sample_db = \<lparr>sq_tables = Some ([Some ''col''], True), sq_crt = Some 0, sq_col11 = Some ([], []),
     sq_notetypes = None, sq_fields = None, sq_templates = None, sq_decks = None,
     sq_notes = Some ([Some \<lparr>nr_id = 1, nr_guid = ''g'', nr_mid = 5, nr_mod = 0, nr_tags = [], nr_flds = ''a'', nr_csum = 0\<rparr>], True),
     sq_cards = Some ([Some \<lparr>cr_id = 2, cr_nid = 1, cr_did = 7, cr_ord = 0, cr_type = 0, cr_queue = 0, cr_due = 3, cr_ivl = 0,
       cr_factor = 0, cr_reps = 0, cr_lapses = 0, cr_odue = 0, cr_odid = 0, cr_flags = 1, cr_data = []\<rparr>], True),
     sq_hasRevlog = Some True,
     sq_revlog = Some ([Some \<lparr>rr_id = 9, rr_cid = 2, rr_ease = 3, rr_ivl = 1, rr_lastIvl = 0, rr_factor = 0, rr_time = 5, rr_type = 1\<rparr>,
       Some \<lparr>rr_id = 10, rr_cid = 2, rr_ease = 0, rr_ivl = 1, rr_lastIvl = 0, rr_factor = 0, rr_time = 5, rr_type = 4\<rparr>], True)\<rparr>"

definition sample_lib :: apkg_lib where
  "sample_lib = \<lparr>lib_zstd = (\<lambda>_ _. Some ([], False)), lib_nfc = (\<lambda>s. s), lib_sha256 = (\<lambda>s. s), lib_sqlite = (\<lambda>_. Some sample_db),
     lib_json_media = (\<lambda>_. Some [(''0'', ''a'')]),
     lib_json_models = (\<lambda>_ _. Some [\<lparr>am_ID = 5, am_Name = ''Basic'', am_Type = 0, am_Sortf = 0, am_CSS = [],
       am_Flds = [\<lparr>af_Name = ''F'', af_Ord = 0, af_Sticky = False, af_RTL = False, af_Font = [], af_Size = 20\<rparr>], am_Tmpls = []\<rparr>]),
     lib_json_decks = (\<lambda>_ _. Some []), lib_json_card = (\<lambda>_. None)\<rparr>"

definition sample_zip :: "member list" where
  "sample_zip = map (\<lambda>(n, d). \<lparr>zm_Name = n, zm_UncompressedSize = 1, zm_Opens = True, zm_Data = d, zm_Fails = False\<rparr>)
     [(''collection.anki2'', ''db''), (''media'', [CHR 0x7B]), (''0'', ''pic'')]"

definition sample_limits :: ArchiveLimits where
  "sample_limits = \<lparr>MaxMembers = 3, MaxMemberBytes = 4, MaxTotalBytes = 6\<rparr>"

lemma sample_reads:
  "case Read sample_lib sample_limits (Some sample_zip) of
     Inl _ \<Rightarrow> False
   | Inr c \<Rightarrow> length (irc_Notes c) = 1 \<and> map im_Data (irc_Media c) = [''pic''] \<and> map ir_rev_Rating (irc_Reviews c) = [3]"
  by code_simp

lemma sample_read:
  obtains c where "Read sample_lib sample_limits (Some sample_zip) = Inr c" "length (irc_Notes c) = 1"
    "map im_Data (irc_Media c) = [''pic'']" "map ir_rev_Rating (irc_Reviews c) = [3]"
  using sample_reads by (cases "Read sample_lib sample_limits (Some sample_zip)") auto

theorem Read_well_formed_witness:
  "\<exists>c. Read sample_lib sample_limits (Some sample_zip) = Inr c \<and> length (irc_Notes c) = 1
     \<and> map ir_rev_Rating (irc_Reviews c) = [3] \<and> list_all (note_filed (irc_Cards c) (irc_Warnings c)) (irc_Notes c)
     \<and> list_all review_ok (irc_Reviews c)"
proof -
  obtain c where c: "Read sample_lib sample_limits (Some sample_zip) = Inr c" "length (irc_Notes c) = 1"
    "map im_Data (irc_Media c) = [''pic'']" "map ir_rev_Rating (irc_Reviews c) = [3]" by (rule sample_read)
  note wf = Read_well_formed [OF c(1)]
  have "list_all (note_filed (irc_Cards c) (irc_Warnings c)) (irc_Notes c)" by (rule wf [THEN conjunct2, THEN conjunct2, THEN conjunct1])
  moreover have "list_all review_ok (irc_Reviews c)" by (rule wf [THEN conjunct2, THEN conjunct2, THEN conjunct2, THEN conjunct2])
  ultimately show ?thesis using c(1,2,4) by (intro exI [of _ c] conjI)
qed

theorem Read_within_limits_witness:
  "\<exists>c (b::string). Read sample_lib sample_limits (Some sample_zip) = Inr c \<and> map im_Data (irc_Media c) = [''pic'']
     \<and> int (length b) + sum_list (map (\<lambda>m. int (length (im_Data m))) (irc_Media c)) \<le> 6"
proof -
  obtain c where c: "Read sample_lib sample_limits (Some sample_zip) = Inr c" "length (irc_Notes c) = 1"
    "map im_Data (irc_Media c) = [''pic'']" "map ir_rev_Rating (irc_Reviews c) = [3]" by (rule sample_read)
  have "MaxTotalBytes sample_limits = 6" by (simp add: sample_limits_def)
  with Read_within_limits [OF c(1)] obtain b :: string where
    "int (length b) + sum_list (map (\<lambda>m. int (length (im_Data m))) (irc_Media c)) \<le> 6" by metis
  with c show ?thesis by (intro exI [of _ c] exI [of _ b] conjI)
qed

end
