(* ===== verification/Media_Store.thy ===== *)
theory Media_Store
  imports Content_Store
begin

text \<open>
  Media: the blob store of \<open>internal/media/store.go\<close>, the statements of \<open>media_blobs.sql.go\<close> and \<open>media_refs.sql.go\<close>,
  and the collector of \<open>gc.go\<close>. A file is its digest, modification time and bytes, at the path its digest gives (a file
  with such a name elsewhere under the root, which \<open>Walk\<close> would report and \<open>Delete\<close> not find, is not modelled);
  \<open>bs_fails\<close> says which file operations fail: creating, writing, closing and renaming the temporary file of a \<open>Put\<close>
  are one operation, since each failure returns an error and leaves no file under the digest; \<open>bs_refuses\<close> which statements the database refuses. What other requests commit while a
  sweep runs is an argument.
\<close>

section \<open>The file store\<close>

record blob_file =
  bf_Digest :: string
  bf_ModTime :: gotime
  bf_Data :: string

record media_blob =
  mbl_Sha256 :: string
  mbl_SizeBytes :: int
  mbl_Mime :: string
  mbl_CreatedAt :: gotime

text \<open>\<open>bs_avatars\<close> are the values of \<open>users.avatar_sha256\<close>; the rows of \<open>media_refs\<close> are in the content database.\<close>

record blob_state =
  bs_blobs :: "media_blob list"
  bs_avatars :: "string list"
  bs_files :: "blob_file list"
  bs_refuses :: "string \<Rightarrow> bool"
  bs_fails :: "string \<Rightarrow> string \<Rightarrow> bool"

datatype media_error =
    NotADigest string
  | MediaIO string
  | MRefused string
  | MForeignKey string
  | MRestrict string
  | MNoRows

definition sha256Hex :: "string \<Rightarrow> bool" where
  "sha256Hex s \<longleftrightarrow> length s = 64 \<and> list_all (\<lambda>c. c \<in> set ''0123456789abcdef'') s"

definition blob_path :: "string \<Rightarrow> media_error + string" where
  "blob_path digest = (if sha256Hex digest then Inr (take 2 digest @ ''/'' @ digest) else Inl (NotADigest digest))"

definition file_of :: "blob_state \<Rightarrow> string \<Rightarrow> blob_file option" where
  "file_of bs digest = row_of bf_Digest digest (bs_files bs)"

definition Put :: "blob_state \<Rightarrow> gotime \<Rightarrow> string \<Rightarrow> string \<Rightarrow> media_error + blob_state" where
  "Put bs now digest data =
     bindE (blob_path digest) (\<lambda>_.
     if file_of bs digest \<noteq> None then Inr bs
     else if bs_fails bs ''put'' digest then Inl (MediaIO digest)
     else Inr (bs\<lparr>bs_files := bs_files bs @ [\<lparr>bf_Digest = digest, bf_ModTime = now, bf_Data = data\<rparr>]\<rparr>))"

definition Delete :: "blob_state \<Rightarrow> string \<Rightarrow> media_error + blob_state" where
  "Delete bs digest =
     bindE (blob_path digest) (\<lambda>_.
     if file_of bs digest \<noteq> None \<and> bs_fails bs ''delete'' digest then Inl (MediaIO digest)
     else Inr (bs\<lparr>bs_files := filter (\<lambda>f. bf_Digest f \<noteq> digest) (bs_files bs)\<rparr>))"

definition Open :: "blob_state \<Rightarrow> string \<Rightarrow> media_error + string" where
  "Open bs digest =
     bindE (blob_path digest) (\<lambda>_.
     case file_of bs digest of
       None \<Rightarrow> Inl (MediaIO digest)
     | Some f \<Rightarrow> if bs_fails bs ''open'' digest then Inl (MediaIO digest) else Inr (bf_Data f))"

text \<open>
  \<open>Walk\<close> visits the files whose name is a digest, in lexical order; the callers here only collect. A directory that
  cannot be read (here the empty name) or a file whose information cannot be had stops it; one that is gone is
  passed over.
\<close>

definition visit :: "blob_state \<Rightarrow> blob_file \<Rightarrow> media_error + string \<times> gotime" where
  "visit bs f = (if bs_fails bs ''walk'' (bf_Digest f) then Inl (MediaIO (bf_Digest f)) else Inr (bf_Digest f, bf_ModTime f))"

definition Walk :: "blob_state \<Rightarrow> media_error + (string \<times> gotime) list" where
  "Walk bs =
     (if bs_fails bs ''walk'' [] then Inl (MediaIO [])
      else mapE (visit bs) (sort_key bf_Digest (filter (\<lambda>f. sha256Hex (bf_Digest f)) (bs_files bs))))"

section \<open>Statements\<close>

definition run_m :: "blob_state \<Rightarrow> string \<Rightarrow> 'a \<Rightarrow> media_error + 'a" where
  "run_m bs st x = (if bs_refuses bs st then Inl (MRefused st) else Inr x)"

lemma run_m_Inr [simp]: "run_m bs st x = Inr y \<longleftrightarrow> \<not> bs_refuses bs st \<and> y = x"
  by (auto simp: run_m_def)

abbreviation blob_shas :: "blob_state \<Rightarrow> string set" where
  "blob_shas bs \<equiv> mbl_Sha256 ` set (bs_blobs bs)"

definition CreateMediaBlob :: "blob_state \<Rightarrow> gotime \<Rightarrow> string \<Rightarrow> int \<Rightarrow> string \<Rightarrow> media_error + blob_state" where
  "CreateMediaBlob bs now sha sizeBytes mime =
     bindE (run_m bs ''CreateMediaBlob'' ()) (\<lambda>_.
     if sha \<in> blob_shas bs then Inr bs
     else Inr (bs\<lparr>bs_blobs := bs_blobs bs @ [\<lparr>mbl_Sha256 = sha, mbl_SizeBytes = sizeBytes, mbl_Mime = mime,
       mbl_CreatedAt = pg_timestamp now\<rparr>]\<rparr>))"

definition GetMediaBlob :: "blob_state \<Rightarrow> string \<Rightarrow> media_error + media_blob" where
  "GetMediaBlob bs sha =
     bindE (run_m bs ''GetMediaBlob'' (row_of mbl_Sha256 sha (bs_blobs bs))) (\<lambda>r.
     case r of None \<Rightarrow> Inl MNoRows | Some b \<Rightarrow> Inr b)"

definition GetMediaBlobForUser :: "blob_state \<Rightarrow> content_db \<Rightarrow> string \<Rightarrow> uuid \<Rightarrow> media_error + media_blob" where
  "GetMediaBlobForUser bs db sha userID =
     bindE (run_m bs ''GetMediaBlobForUser'' (row_of mbl_Sha256 sha (bs_blobs bs))) (\<lambda>r.
     case r of
       None \<Rightarrow> Inl MNoRows
     | Some b \<Rightarrow>
         if list_ex (\<lambda>m. mr_Sha256 m = sha \<and> list_ex (\<lambda>a. da_DeckID a = mr_DeckID m \<and> da_UserID a = userID \<and> can_view a)
              (cd_access db)) (cd_media db)
         then Inr b else Inl MNoRows)"

definition ListExistingMediaBlobs :: "blob_state \<Rightarrow> string list \<Rightarrow> media_error + string list" where
  "ListExistingMediaBlobs bs shas =
     run_m bs ''ListExistingMediaBlobs'' (filter (\<lambda>s. s \<in> set shas) (map mbl_Sha256 (bs_blobs bs)))"

definition referenced :: "blob_state \<Rightarrow> media_ref list \<Rightarrow> string \<Rightarrow> bool" where
  "referenced bs refs sha \<longleftrightarrow> sha \<in> mr_Sha256 ` set refs \<or> sha \<in> set (bs_avatars bs)"

definition ListUnreferencedMediaBlobs :: "blob_state \<Rightarrow> media_ref list \<Rightarrow> media_error + string list" where
  "ListUnreferencedMediaBlobs bs refs =
     run_m bs ''ListUnreferencedMediaBlobs'' (filter (\<lambda>s. \<not> referenced bs refs s) (map mbl_Sha256 (bs_blobs bs)))"

text \<open>Both foreign keys onto \<open>media_blobs\<close> restrict.\<close>

definition DeleteMediaBlob :: "blob_state \<Rightarrow> media_ref list \<Rightarrow> string \<Rightarrow> media_error + blob_state" where
  "DeleteMediaBlob bs refs sha =
     bindE (run_m bs ''DeleteMediaBlob'' ()) (\<lambda>_.
     if sha \<notin> blob_shas bs then Inr bs
     else if sha \<in> mr_Sha256 ` set refs then Inl (MRestrict ''media_refs_sha256_fkey'')
     else if sha \<in> set (bs_avatars bs) then Inl (MRestrict ''users_avatar_sha256_fkey'')
     else Inr (bs\<lparr>bs_blobs := filter (\<lambda>b. mbl_Sha256 b \<noteq> sha) (bs_blobs bs)\<rparr>))"

text \<open>The first reference of a name on a deck is kept.\<close>

definition CreateMediaRef :: "blob_state \<Rightarrow> content_db \<Rightarrow> uuid \<Rightarrow> string \<Rightarrow> string \<Rightarrow> media_error + content_db" where
  "CreateMediaRef bs db deckID filename sha =
     bindE (run_m bs ''CreateMediaRef'' ()) (\<lambda>_.
     if (deckID, filename) \<in> (\<lambda>m. (mr_DeckID m, mr_Filename m)) ` set (cd_media db) then Inr db
     else if row_of dk_ID deckID (cd_decks db) = None then Inl (MForeignKey ''media_refs_deck_id_fkey'')
     else if sha \<notin> blob_shas bs then Inl (MForeignKey ''media_refs_sha256_fkey'')
     else Inr (db\<lparr>cd_media := cd_media db @ [\<lparr>mr_DeckID = deckID, mr_Filename = filename, mr_Sha256 = sha\<rparr>]\<rparr>))"

definition GetMediaRef :: "blob_state \<Rightarrow> content_db \<Rightarrow> uuid \<Rightarrow> string \<Rightarrow> media_error + media_ref" where
  "GetMediaRef bs db deckID filename =
     bindE (run_m bs ''GetMediaRef'' (row_of (\<lambda>m. (mr_DeckID m, mr_Filename m)) (deckID, filename) (cd_media db))) (\<lambda>r.
     case r of None \<Rightarrow> Inl MNoRows | Some m \<Rightarrow> Inr m)"

section \<open>The collector\<close>

text \<open>
  What other requests commit before the file of a blob is unlinked, between that and the deletion of its row,
  and between the look-up of the rows of old files and the deletion of the files.
\<close>

type_synonym gc_world = "blob_state \<times> media_ref list"

record gc_env =
  gc_grace :: duration
  gc_before_unlink :: "string \<Rightarrow> gc_world \<Rightarrow> gc_world"
  gc_before_delete :: "string \<Rightarrow> gc_world \<Rightarrow> gc_world"
  gc_after_check :: "gc_world \<Rightarrow> gc_world"

definition sweep_row :: "gc_env \<Rightarrow> gc_world \<times> media_error list \<Rightarrow> string \<Rightarrow> gc_world \<times> media_error list" where
  "sweep_row e s sha =
     (let (w, errs) = s; (bs, refs) = gc_before_unlink e sha w in
      case Delete bs sha of
        Inl err \<Rightarrow> ((bs, refs), errs @ [err])
      | Inr bs1 \<Rightarrow>
          let (bs2, refs2) = gc_before_delete e sha (bs1, refs) in
          (case DeleteMediaBlob bs2 refs2 sha of
             Inr bs3 \<Rightarrow> ((bs3, refs2), errs)
           | Inl err \<Rightarrow>
               if err \<in> {MRestrict ''media_refs_sha256_fkey'', MRestrict ''users_avatar_sha256_fkey''}
               then ((bs2, refs2), errs) else ((bs2, refs2), errs @ [err])))"

definition sweepUnreferencedRows :: "gc_env \<Rightarrow> gc_world \<Rightarrow> gc_world \<times> media_error list" where
  "sweepUnreferencedRows e w =
     (case ListUnreferencedMediaBlobs (fst w) (snd w) of
        Inl err \<Rightarrow> (w, [err])
      | Inr shas \<Rightarrow> foldl (sweep_row e) (w, []) shas)"

definition sweep_file :: "string list \<Rightarrow> blob_state \<times> media_error list \<Rightarrow> string \<Rightarrow> blob_state \<times> media_error list" where
  "sweep_file hasRow s sha =
     (let (bs, errs) = s in
      if sha \<in> set hasRow then (bs, errs)
      else case Delete bs sha of Inl err \<Rightarrow> (bs, errs @ [err]) | Inr bs1 \<Rightarrow> (bs1, errs))"

definition sweepOrphanFiles :: "gc_env \<Rightarrow> gotime \<Rightarrow> gc_world \<Rightarrow> gc_world \<times> media_error list" where
  "sweepOrphanFiles e now w =
     (let cutoff = now - gc_grace e in
      case Walk (fst w) of
        Inl err \<Rightarrow> (w, [err])
      | Inr files \<Rightarrow>
          let candidates = map fst (filter (\<lambda>(sha, modTime). \<not> modTime > cutoff) files)
          in if candidates = [] then (w, [])
             else case ListExistingMediaBlobs (fst w) candidates of
               Inl err \<Rightarrow> (w, [err])
             | Inr existing \<Rightarrow>
                 let (bs, refs) = gc_after_check e w; (bs', errs) = foldl (sweep_file existing) (bs, []) candidates
                 in ((bs', refs), errs))"

definition Sweep :: "gc_env \<Rightarrow> gotime \<Rightarrow> gc_world \<Rightarrow> gc_world \<times> media_error list" where
  "Sweep e now w =
     (let (w1, errs1) = sweepUnreferencedRows e w; (w2, errs2) = sweepOrphanFiles e now w1
      in (w2, errs1 @ errs2))"

section \<open>A sweep on its own\<close>

text \<open>Every row has its bytes, and every reference a row.\<close>

definition blobs_wf :: "gc_world \<Rightarrow> bool" where
  "blobs_wf w \<longleftrightarrow> (case w of (bs, refs) \<Rightarrow>
     pk mbl_Sha256 (bs_blobs bs) \<and> pk bf_Digest (bs_files bs)
     \<and> (\<forall>s\<in>blob_shas bs. sha256Hex s \<and> s \<in> bf_Digest ` set (bs_files bs))
     \<and> mr_Sha256 ` set refs \<subseteq> blob_shas bs \<and> set (bs_avatars bs) \<subseteq> blob_shas bs)"

definition quiet :: "gc_env \<Rightarrow> bool" where
  "quiet e \<longleftrightarrow> gc_before_unlink e = (\<lambda>_ w. w) \<and> gc_before_delete e = (\<lambda>_ w. w) \<and> gc_after_check e = (\<lambda>w. w)"

definition io_ok :: "blob_state \<Rightarrow> bool" where
  "io_ok bs \<longleftrightarrow> bs_refuses bs = (\<lambda>_. False) \<and> bs_fails bs = (\<lambda>_ _. False)"

definition drop_rows :: "string set \<Rightarrow> blob_state \<Rightarrow> blob_state" where
  "drop_rows S bs = bs\<lparr>bs_blobs := filter (\<lambda>b. mbl_Sha256 b \<notin> S) (bs_blobs bs),
     bs_files := filter (\<lambda>f. bf_Digest f \<notin> S) (bs_files bs)\<rparr>"

definition drop_files :: "string set \<Rightarrow> blob_state \<Rightarrow> blob_state" where
  "drop_files S bs = bs\<lparr>bs_files := filter (\<lambda>f. bf_Digest f \<notin> S) (bs_files bs)\<rparr>"

lemma drop_simps [simp]:
  "bs_avatars (drop_rows S bs) = bs_avatars bs" "bs_refuses (drop_rows S bs) = bs_refuses bs"
  "bs_fails (drop_rows S bs) = bs_fails bs" "bs_avatars (drop_files S bs) = bs_avatars bs"
  "bs_refuses (drop_files S bs) = bs_refuses bs" "bs_fails (drop_files S bs) = bs_fails bs"
  "io_ok (drop_rows S bs) \<longleftrightarrow> io_ok bs" "io_ok (drop_files S bs) \<longleftrightarrow> io_ok bs"
  "bs_blobs (drop_files S bs) = bs_blobs bs" "drop_rows {} bs = bs" "drop_files {} bs = bs"
  by (simp_all add: drop_rows_def drop_files_def io_ok_def)

lemma drop_drop:
  "drop_rows S (drop_rows T bs) = drop_rows (insert_all) bs" if "insert_all = S \<union> T"
  using that by (simp add: drop_rows_def conj_commute)

lemma drop_files_drop: "drop_files S (drop_files T bs) = drop_files (S \<union> T) bs"
  by (simp add: drop_files_def conj_commute)

lemma Delete_quiet: "io_ok bs \<Longrightarrow> sha256Hex s \<Longrightarrow> Delete bs s = Inr (drop_files {s} bs)"
  by (simp add: Delete_def blob_path_def io_ok_def drop_files_def)

lemma sweep_row_quiet:
  assumes "quiet e" "io_ok bs" "sha256Hex s" "\<not> referenced bs refs s"
  shows "sweep_row e ((bs, refs), errs) s = ((drop_rows {s} bs, refs), errs)"
proof -
  have "s \<notin> blob_shas bs \<Longrightarrow> filter (\<lambda>b. mbl_Sha256 b \<noteq> s) (bs_blobs bs) = bs_blobs bs"
    by (auto simp: filter_id_conv)
  then have "DeleteMediaBlob (drop_files {s} bs) refs s = Inr (drop_rows {s} bs)"
    using assms by (auto simp: DeleteMediaBlob_def run_m_def io_ok_def referenced_def drop_files_def drop_rows_def)
  then show ?thesis using assms by (simp add: sweep_row_def quiet_def Delete_quiet)
qed

lemma sweep_rows_quiet:
  assumes "quiet e" "io_ok bs" "\<And>s. s \<in> set shas \<Longrightarrow> sha256Hex s \<and> \<not> referenced bs refs s"
  shows "foldl (sweep_row e) ((bs, refs), errs) shas = ((drop_rows (set shas) bs, refs), errs)"
  using assms
proof (induction shas arbitrary: bs)
  case (Cons s shas)
  have ref: "referenced (drop_rows T bs) refs = referenced bs refs" for T by (simp add: referenced_def fun_eq_iff)
  have "sweep_row e ((bs, refs), errs) s = ((drop_rows {s} bs, refs), errs)"
    using Cons.prems by (intro sweep_row_quiet) auto
  moreover have "foldl (sweep_row e) ((drop_rows {s} bs, refs), errs) shas
      = ((drop_rows (set shas) (drop_rows {s} bs), refs), errs)"
    using Cons.prems by (intro Cons.IH) (auto simp: ref)
  ultimately show ?case by (simp add: drop_drop)
qed simp

lemma sweep_files_quiet:
  assumes "io_ok bs" "\<And>s. s \<in> set shas \<Longrightarrow> sha256Hex s"
  shows "foldl (sweep_file existing) (bs, errs) shas = (drop_files (set shas - set existing) bs, errs)"
  using assms
proof (induction shas arbitrary: bs)
  case (Cons s shas)
  have "sweep_file existing (bs, errs) s = (drop_files ({s} - set existing) bs, errs)"
    using Cons.prems by (cases "s \<in> set existing") (auto simp: sweep_file_def Delete_quiet insert_Diff_if)
  moreover have "foldl (sweep_file existing) (drop_files ({s} - set existing) bs, errs) shas
      = (drop_files (set shas - set existing) (drop_files ({s} - set existing) bs), errs)"
    using Cons.prems by (intro Cons.IH) auto
  moreover have "set shas - set existing \<union> ({s} - set existing) = set (s # shas) - set existing" by auto
  ultimately show ?case by (simp add: drop_files_drop)
qed simp

definition digest_files :: "blob_state \<Rightarrow> (string \<times> gotime) list" where
  "digest_files bs = map (\<lambda>f. (bf_Digest f, bf_ModTime f)) (sort_key bf_Digest (filter (\<lambda>f. sha256Hex (bf_Digest f)) (bs_files bs)))"

lemma Walk_quiet:
  assumes "io_ok bs"
  shows "Walk bs = Inr (digest_files bs)"
proof -
  have "mapE (visit bs) fs = Inr (map (\<lambda>f. (bf_Digest f, bf_ModTime f)) fs)" for fs
    using assms by (induction fs) (simp_all add: visit_def io_ok_def)
  with assms show ?thesis by (simp add: Walk_def digest_files_def io_ok_def)
qed

text \<open>C36: a sweep that nothing interferes with and no I/O error hits deletes exactly the rows that no deck and no user
  refers to, with their files, and the files without a row that are older than the grace period; all else,
  every referenced file with its bytes among it, stays, and every row keeps its bytes.\<close>

theorem Sweep_correct:
  assumes "quiet e" "io_ok bs" "blobs_wf (bs, refs)" "Sweep e now (bs, refs) = ((bs', refs'), errs)"
  shows "errs = [] \<and> refs' = refs \<and> blobs_wf (bs', refs)
    \<and> bs_blobs bs' = filter (\<lambda>b. referenced bs refs (mbl_Sha256 b)) (bs_blobs bs)
    \<and> bs_files bs' = filter (\<lambda>f. if bf_Digest f \<in> blob_shas bs then referenced bs refs (bf_Digest f)
         else \<not> sha256Hex (bf_Digest f) \<or> now - gc_grace e < bf_ModTime f) (bs_files bs)"
proof -
  define U where "U = set (filter (\<lambda>s. \<not> referenced bs refs s) (map mbl_Sha256 (bs_blobs bs)))"
  define bs1 where "bs1 = drop_rows U bs"
  define cands where "cands = map fst (filter (\<lambda>(sha, modTime). \<not> modTime > now - gc_grace e) (digest_files bs1))"
  have wf: "pk mbl_Sha256 (bs_blobs bs)" "pk bf_Digest (bs_files bs)" "mr_Sha256 ` set refs \<subseteq> blob_shas bs"
    "set (bs_avatars bs) \<subseteq> blob_shas bs" "\<And>s. s \<in> blob_shas bs \<Longrightarrow> sha256Hex s \<and> s \<in> bf_Digest ` set (bs_files bs)"
    using assms(3) by (auto simp: blobs_wf_def)
  have io1: "io_ok bs1" using assms(2) by (simp add: bs1_def)
  have "foldl (sweep_row e) ((bs, refs), []) (filter (\<lambda>s. \<not> referenced bs refs s) (map mbl_Sha256 (bs_blobs bs))) = ((bs1, refs), [])"
    unfolding bs1_def U_def using wf(5) by (intro sweep_rows_quiet assms(1,2)) auto
  then have rows: "sweepUnreferencedRows e (bs, refs) = ((bs1, refs), [])"
    using assms(2) by (simp add: sweepUnreferencedRows_def ListUnreferencedMediaBlobs_def run_m_def io_ok_def)
  have hex: "\<And>s. s \<in> set cands \<Longrightarrow> sha256Hex s" by (auto simp: cands_def digest_files_def)
  have cands: "set cands = {bf_Digest f |f. f \<in> set (bs_files bs1) \<and> sha256Hex (bf_Digest f) \<and> \<not> now - gc_grace e < bf_ModTime f}"
    unfolding cands_def digest_files_def set_map set_filter set_sort by (safe; force)
  have unf: "sweepOrphanFiles e now (bs1, refs) = (if cands = [] then ((bs1, refs), [])
      else case ListExistingMediaBlobs bs1 cands of Inl err \<Rightarrow> ((bs1, refs), [err])
        | Inr existing \<Rightarrow> let (bs, refs) = gc_after_check e (bs1, refs); (bs', errs) = foldl (sweep_file existing) (bs, []) cands
            in ((bs', refs), errs))"
    unfolding sweepOrphanFiles_def Let_def fst_conv cands_def Walk_quiet [OF io1] sum.case by (rule refl)
  have files: "sweepOrphanFiles e now (bs1, refs) = ((drop_files (set cands - blob_shas bs1) bs1, refs), [])"
  proof (cases "cands = []")
    case False
    have "set cands - set (filter (\<lambda>s. s \<in> set cands) (map mbl_Sha256 (bs_blobs bs1))) = set cands - blob_shas bs1" by auto
    moreover have "ListExistingMediaBlobs bs1 cands = Inr (filter (\<lambda>s. s \<in> set cands) (map mbl_Sha256 (bs_blobs bs1)))"
      using io1 by (simp add: ListExistingMediaBlobs_def run_m_def io_ok_def)
    ultimately show ?thesis using False assms(1) sweep_files_quiet [OF io1 hex]
      by (simp add: unf quiet_def)
  qed (simp add: unf)
  have res: "bs' = drop_files (set cands - blob_shas bs1) bs1" "refs' = refs" "errs = []"
    using assms(4) rows files by (auto simp: Sweep_def)
  have blobs: "bs_blobs bs' = filter (\<lambda>b. referenced bs refs (mbl_Sha256 b)) (bs_blobs bs)"
    by (auto simp: res bs1_def drop_rows_def U_def intro!: filter_cong)
  have shas1: "blob_shas bs1 = {s \<in> blob_shas bs. referenced bs refs s}"
    by (auto simp: bs1_def drop_rows_def U_def)
  have pkf: "\<And>f g. f \<in> set (bs_files bs) \<Longrightarrow> g \<in> set (bs_files bs) \<Longrightarrow> bf_Digest f = bf_Digest g \<Longrightarrow> f = g"
    using wf(2) by (auto simp: pk_def distinct_map inj_on_def)
  have keep: "bf_Digest f \<notin> U \<and> bf_Digest f \<notin> set cands - blob_shas bs1 \<longleftrightarrow> (if bf_Digest f \<in> blob_shas bs then referenced bs refs (bf_Digest f)
         else \<not> sha256Hex (bf_Digest f) \<or> now - gc_grace e < bf_ModTime f)" if f: "f \<in> set (bs_files bs)" for f
  proof (cases "bf_Digest f \<in> blob_shas bs")
    case True
    then show ?thesis by (auto simp: U_def shas1)
  next
    case False
    then have "bf_Digest f \<notin> U" "bf_Digest f \<notin> blob_shas bs1" by (auto simp: U_def shas1)
    moreover from f this(1) have "f \<in> set (bs_files bs1)" by (simp add: bs1_def drop_rows_def)
    ultimately show ?thesis using False f pkf by (auto simp: cands bs1_def drop_rows_def)
  qed
  have "bs_files bs' = filter (\<lambda>f. bf_Digest f \<notin> U \<and> bf_Digest f \<notin> set cands - blob_shas bs1) (bs_files bs)"
    unfolding res(1) drop_files_def bs1_def drop_rows_def by (simp add: filter_filter conj_commute)
  also have "\<dots> = filter (\<lambda>f. if bf_Digest f \<in> blob_shas bs then referenced bs refs (bf_Digest f)
         else \<not> sha256Hex (bf_Digest f) \<or> now - gc_grace e < bf_ModTime f) (bs_files bs)"
    using keep by (rule filter_cong [OF refl])
  finally have files': "bs_files bs' = filter (\<lambda>f. if bf_Digest f \<in> blob_shas bs then referenced bs refs (bf_Digest f)
         else \<not> sha256Hex (bf_Digest f) \<or> now - gc_grace e < bf_ModTime f) (bs_files bs)" .
  have shas: "blob_shas bs' = {s \<in> blob_shas bs. referenced bs refs s}" by (auto simp: blobs)
  have av: "bs_avatars bs' = bs_avatars bs" by (simp add: res(1) bs1_def)
  have "s \<in> bf_Digest ` set (bs_files bs')" if s: "s \<in> blob_shas bs" "referenced bs refs s" for s
  proof -
    from wf(5) [OF s(1)] obtain f where f: "f \<in> set (bs_files bs)" "bf_Digest f = s" by blast
    with s have "f \<in> set (bs_files bs')" by (simp add: files')
    with f(2) show ?thesis by blast
  qed
  moreover have "mr_Sha256 ` set refs \<subseteq> blob_shas bs'" "set (bs_avatars bs) \<subseteq> blob_shas bs'"
    using wf(3,4) by (auto simp: shas referenced_def)
  moreover have "pk mbl_Sha256 (bs_blobs bs')" "pk bf_Digest (bs_files bs')"
    unfolding blobs files' by (rule pk_filter, rule wf(1), rule pk_filter, rule wf(2))
  moreover have "\<forall>s\<in>blob_shas bs'. sha256Hex s" using wf(5) shas by blast
  ultimately have "blobs_wf (bs', refs)" unfolding blobs_wf_def av prod.case by (intro conjI ballI) (simp_all add: shas)
  then show ?thesis by (intro conjI res blobs files')
qed

lemma sha256Hex_replicate [simp]: "sha256Hex (replicate 64 c) \<longleftrightarrow> c \<in> set ''0123456789abcdef''"
  by (simp add: sha256Hex_def list_all_iff)

text \<open>A store with a referenced blob, one that nothing refers to any more, and the file of a rolled-back import.\<close>

definition demo_blobs :: blob_state where
  "demo_blobs = \<lparr>bs_blobs = map (\<lambda>c. \<lparr>mbl_Sha256 = replicate 64 c, mbl_SizeBytes = 3, mbl_Mime = ''image/png'', mbl_CreatedAt = 0\<rparr>) ''ab'',
     bs_avatars = [], bs_files = map (\<lambda>c. \<lparr>bf_Digest = replicate 64 c, bf_ModTime = 0, bf_Data = ''pic''\<rparr>) ''abc'',
     bs_refuses = (\<lambda>_. False), bs_fails = (\<lambda>_ _. False)\<rparr>"

definition demo_gc :: gc_env where
  "demo_gc = \<lparr>gc_grace = Hour, gc_before_unlink = (\<lambda>_ w. w), gc_before_delete = (\<lambda>_ w. w), gc_after_check = (\<lambda>w. w)\<rparr>"

definition demo_ref :: media_ref where
  "demo_ref = \<lparr>mr_DeckID = 1, mr_Filename = ''a.png'', mr_Sha256 = replicate 64 CHR ''a''\<rparr>"

theorem Sweep_correct_witness:
  "map bf_Digest (bs_files (fst (fst (Sweep demo_gc (2 * Hour) (demo_blobs, [demo_ref]))))) = [replicate 64 CHR ''a'']"
proof -
  obtain bs' refs' errs where s: "Sweep demo_gc (2 * Hour) (demo_blobs, [demo_ref]) = ((bs', refs'), errs)"
    by (metis prod.exhaust)
  have "quiet demo_gc" "io_ok demo_blobs" by (simp_all add: quiet_def demo_gc_def io_ok_def demo_blobs_def)
  moreover have "blobs_wf (demo_blobs, [demo_ref])"
    by (auto simp: blobs_wf_def demo_blobs_def demo_ref_def pk_def)
  ultimately have "bs_files bs' = filter (\<lambda>f. if bf_Digest f \<in> blob_shas demo_blobs then referenced demo_blobs [demo_ref] (bf_Digest f)
         else \<not> sha256Hex (bf_Digest f) \<or> 2 * Hour - gc_grace demo_gc < bf_ModTime f) (bs_files demo_blobs)"
    using Sweep_correct [OF _ _ _ s] by blast
  then have "map bf_Digest (bs_files bs') = [replicate 64 CHR ''a'']"
    by (simp add: demo_blobs_def demo_ref_def demo_gc_def referenced_def duration_defs)
  then show ?thesis by (simp only: s fst_conv)
qed

section \<open>A sweep and an import at the same time\<close>

text \<open>
  An import that commits between the list of unreferenced rows and the unlinking of a file finds the file
  in place and writes nothing: the row is then kept, by the foreign key, but its bytes are gone.
\<close>

definition racing_import :: "string \<Rightarrow> gc_world \<Rightarrow> gc_world" where
  "racing_import sha w =
     (let (bs, refs) = w in
      case bindE (Put bs 0 sha ''pic'') (\<lambda>bs1. CreateMediaBlob bs1 0 sha 3 ''image/png'') of
        Inl _ \<Rightarrow> w
      | Inr bs2 \<Rightarrow> (bs2, refs @ [\<lparr>mr_DeckID = 1, mr_Filename = ''b.png'', mr_Sha256 = sha\<rparr>]))"

lemma sweep_race_strands_blob:
  fixes b defines "b \<equiv> replicate 64 CHR ''b''"
  shows "case Sweep (demo_gc\<lparr>gc_before_unlink := racing_import\<rparr>) 0 (demo_blobs, [demo_ref]) of
     ((bs', refs'), errs) \<Rightarrow> errs = [] \<and> b \<in> mr_Sha256 ` set refs' \<and> b \<in> blob_shas bs' \<and> file_of bs' b = None"
  unfolding b_def by code_simp

end
