(* ===== verification/Apkg_Import_Store.thy ===== *)
theory Apkg_Import_Store
  imports Media_Store Note_Types Grade
begin

text \<open>
  The statements of \<open>import.sql.go\<close>, which an import runs inside one transaction, and \<open>SeedDeckFsrsRetention\<close> of
  \<open>user_fsrs_params.sql.go\<close>. \<open>now\<close> is the transaction's \<open>now()\<close>; new ids are arguments.
\<close>

section \<open>The content database as grading sees it\<close>

fun stmt_name :: "review_stmt \<Rightarrow> string" where
  "stmt_name QGetUserCardState = ''GetUserCardState''"
| "stmt_name QUpsertOnReview = ''UpsertUserCardStateOnReview''"
| "stmt_name QUpsertFromReplay = ''UpsertUserCardStateFromReplay''"
| "stmt_name QUpsertSettings = ''UpsertUserCardStateSettings''"
| "stmt_name QInsertReviewLog = ''InsertReviewLog''"
| "stmt_name QListExistingIDs = ''ListExistingReviewLogIDs''"
| "stmt_name QListReviewLogForCard = ''ListReviewLogForCard''"
| "stmt_name QGetEffectiveParams = ''GetEffectiveFsrsParams''"
| "stmt_name QGetEffectiveParamsForUsers = ''GetEffectiveFsrsParamsForUsers''"
| "stmt_name QListStudyableCards = ''ListStudyableCards''"
| "stmt_name QLockCardForGrade = ''LockCardForGrade''"

definition review_view :: "content_db \<Rightarrow> review_db" where
  "review_view db = \<lparr>db_states = cd_states db, db_log = cd_log db, db_params = cd_params db,
     db_cards = map (\<lambda>c. \<lparr>sc_ID = c_ID c, sc_DeckID = c_DeckID c\<rparr>) (cd_cards db),
     db_access = map (\<lambda>a. \<lparr>sa_DeckID = da_DeckID a, sa_UserID = da_UserID a, sa_can_view = can_view a,
       sa_can_study = can_study a\<rparr>) (cd_access db),
     db_refuses = (\<lambda>st. cd_refuses db (stmt_name st))\<rparr>"

section \<open>Decks and note types\<close>

definition deck_name_key :: "deck \<Rightarrow> uuid \<times> string" where
  "deck_name_key d = (dk_OwnerID d, dk_Name d)"

definition type_name_key :: "note_type \<Rightarrow> uuid \<times> string" where
  "type_name_key t = (nt_OwnerID t, nt_Name t)"

definition GetDeckByOwnerAndName :: "content_db \<Rightarrow> uuid \<Rightarrow> string \<Rightarrow> content_error + deck" where
  "GetDeckByOwnerAndName db ownerID name =
     bindE (run_c db ''GetDeckByOwnerAndName'' (row_of deck_name_key (ownerID, name) (cd_decks db))) one_row"

definition SetDeckAnkiID :: "content_db \<Rightarrow> gotime \<Rightarrow> int \<Rightarrow> uuid \<Rightarrow> content_error + nat \<times> content_db" where
  "SetDeckAnkiID db now ankiID deckID =
     (let p = (\<lambda>d. dk_ID d = deckID \<and> dk_AnkiID d = None)
      in run_c db ''SetDeckAnkiID'' (length (filter p (cd_decks db)),
           db\<lparr>cd_decks := map_rows p (\<lambda>d. d\<lparr>dk_AnkiID := Some ankiID, dk_ModifiedAt := pg_timestamp now\<rparr>) (cd_decks db)\<rparr>))"

definition GetNoteTypeByOwnerAndName :: "content_db \<Rightarrow> uuid \<Rightarrow> string \<Rightarrow> content_error + note_type" where
  "GetNoteTypeByOwnerAndName db ownerID name =
     bindE (run_c db ''GetNoteTypeByOwnerAndName'' (row_of type_name_key (ownerID, name) (cd_noteTypes db))) one_row"

definition CreateImportedNoteType :: "content_db \<Rightarrow> uuid \<Rightarrow> uuid \<Rightarrow> string \<Rightarrow> string \<Rightarrow> bool \<Rightarrow> int \<Rightarrow> int
    \<Rightarrow> content_error + note_type \<times> content_db" where
  "CreateImportedNoteType db newID ownerID name css isCloze sortFieldIdx ankiID =
     bindE (run_c db ''CreateImportedNoteType'' ()) (\<lambda>_.
     let nt = \<lparr>nt_ID = newID, nt_OwnerID = ownerID, nt_Name = name, nt_Css = css, nt_IsCloze = isCloze,
          nt_SortFieldIdx = sortFieldIdx, nt_AnkiID = Some ankiID\<rparr>
     in if row_of nt_ID newID (cd_noteTypes db) \<noteq> None then Inl (UniqueViolation ''note_types_pkey'')
        else if row_of type_name_key (ownerID, name) (cd_noteTypes db) \<noteq> None
        then Inl (UniqueViolation ''note_types_owner_id_name_key'')
        else Inr (nt, db\<lparr>cd_noteTypes := cd_noteTypes db @ [nt]\<rparr>))"

definition CreateImportedField :: "content_db \<Rightarrow> field_row \<Rightarrow> content_error + content_db" where
  "CreateImportedField db f =
     bindE (run_c db ''CreateImportedField'' ()) (\<lambda>_.
     if row_of fd_ID (fd_ID f) (cd_fields db) \<noteq> None then Inl (UniqueViolation ''fields_pkey'')
     else if row_of nt_ID (fd_NoteTypeID f) (cd_noteTypes db) = None then Inl (FKViolation ''fields_note_type_id_fkey'')
     else Inr (db\<lparr>cd_fields := cd_fields db @ [f]\<rparr>))"

definition CreateImportedTemplate :: "content_db \<Rightarrow> template_row \<Rightarrow> content_error + template_row \<times> content_db" where
  "CreateImportedTemplate db t =
     bindE (run_c db ''CreateImportedTemplate'' ()) (\<lambda>_.
     if row_of tp_ID (tp_ID t) (cd_templates db) \<noteq> None then Inl (UniqueViolation ''templates_pkey'')
     else if row_of nt_ID (tp_NoteTypeID t) (cd_noteTypes db) = None then Inl (FKViolation ''templates_note_type_id_fkey'')
     else Inr (t, db\<lparr>cd_templates := cd_templates db @ [t]\<rparr>))"

section \<open>Notes and cards\<close>

definition GetNoteByOwnerAndGuid :: "content_db \<Rightarrow> uuid \<Rightarrow> string \<Rightarrow> content_error + db_note" where
  "GetNoteByOwnerAndGuid db ownerID guid =
     bindE (run_c db ''GetNoteByOwnerAndGuid'' (row_of guid_key (ownerID, guid) (cd_notes db))) one_row"

text \<open>The note belongs to the deck's owner; without edit rights or on another's note type no row is inserted.\<close>

definition CreateImportedNote :: "content_db \<Rightarrow> uuid \<Rightarrow> string \<Rightarrow> string list \<Rightarrow> string list \<Rightarrow> int \<Rightarrow> gotime \<Rightarrow> gotime \<Rightarrow> int
    \<Rightarrow> uuid \<Rightarrow> uuid \<Rightarrow> uuid \<Rightarrow> content_error + db_note \<times> content_db" where
  "CreateImportedNote db newID guid flds tags checksum createdAt modifiedAt ankiID userID noteTypeID deckID =
     bindE (run_c db ''CreateImportedNote'' (deck_with db deckID userID (\<lambda>a. can_view a \<and> can_edit_content a))) (\<lambda>r.
     case (r, row_of nt_ID noteTypeID (cd_noteTypes db)) of
       (Some (d, _), Some nt) \<Rightarrow>
         if nt_OwnerID nt \<noteq> userID then Inl ErrNoRows
         else
           let n = \<lparr>n_ID = newID, n_Guid = guid, n_OwnerID = dk_OwnerID d, n_NoteTypeID = nt_ID nt, n_DeckID = dk_ID d,
                n_Fields = flds, n_Tags = tags, n_Checksum = checksum, n_CreatedAt = pg_timestamp createdAt,
                n_ModifiedAt = pg_timestamp modifiedAt, n_AnkiID = Some ankiID, n_ReleaseDay = 0\<rparr>
           in if row_of n_ID newID (cd_notes db) \<noteq> None then Inl (UniqueViolation ''notes_pkey'')
              else if row_of guid_key (guid_key n) (cd_notes db) \<noteq> None then Inl (UniqueViolation ''notes_owner_id_guid_key'')
              else Inr (n, db\<lparr>cd_notes := cd_notes db @ [n]\<rparr>)
     | _ \<Rightarrow> Inl ErrNoRows)"

definition UpdateImportedNote :: "content_db \<Rightarrow> string list \<Rightarrow> string list \<Rightarrow> int \<Rightarrow> uuid \<Rightarrow> gotime \<Rightarrow> int \<Rightarrow> uuid \<Rightarrow> uuid
    \<Rightarrow> content_error + nat \<times> content_db" where
  "UpdateImportedNote db flds tags checksum noteTypeID modifiedAt ankiID noteID userID =
     (let p = (\<lambda>n. n_ID n = noteID \<and> may_edit_deck db userID (n_DeckID n)); k = length (filter p (cd_notes db))
      in bindE (run_c db ''UpdateImportedNote'' k) (\<lambda>k.
         if k > 0 \<and> row_of nt_ID noteTypeID (cd_noteTypes db) = None then Inl (FKViolation ''notes_note_type_id_fkey'')
         else Inr (k, db\<lparr>cd_notes := map_rows p (\<lambda>n. n\<lparr>n_Fields := flds, n_Tags := tags, n_Checksum := checksum,
           n_NoteTypeID := noteTypeID, n_ModifiedAt := pg_timestamp modifiedAt, n_AnkiID := Some ankiID\<rparr>) (cd_notes db)\<rparr>)))"

definition UpsertImportedCard :: "content_db \<Rightarrow> uuid \<Rightarrow> uuid \<Rightarrow> uuid \<Rightarrow> int \<Rightarrow> uuid \<Rightarrow> int \<Rightarrow> int option
    \<Rightarrow> content_error + note_card \<times> content_db" where
  "UpsertImportedCard db newID noteID templateID ordinal deckID ankiID position =
     bindE (run_c db ''UpsertImportedCard'' (row_of card_place (noteID, ordinal) (cd_cards db))) (\<lambda>r.
     case r of
       None \<Rightarrow>
         let c = \<lparr>c_ID = newID, c_NoteID = noteID, c_TemplateID = templateID, c_Ordinal = ordinal, c_DeckID = deckID,
              c_AnkiID = Some ankiID, c_ImportDuePosition = position\<rparr>
         in bindE (insert_card db c) (\<lambda>db'. Inr (c, db'))
     | Some old \<Rightarrow>
         let f = (\<lambda>c. c\<lparr>c_DeckID := deckID, c_TemplateID := templateID, c_AnkiID := Some ankiID, c_ImportDuePosition := position\<rparr>)
         in if row_of tp_ID templateID (cd_templates db) = None then Inl (FKViolation ''cards_template_id_fkey'')
            else if row_of dk_ID deckID (cd_decks db) = None then Inl (FKViolation ''cards_deck_id_fkey'')
            else Inr (f old, db\<lparr>cd_cards := map_rows (\<lambda>c. card_place c = (noteID, ordinal)) f (cd_cards db)\<rparr>))"

section \<open>Reviews, schedules and settings\<close>

definition anki_key :: "review_log \<Rightarrow> uuid \<times> uuid \<times> int option" where
  "anki_key r = (rl_UserID r, rl_CardID r, rl_AnkiID r)"

text \<open>\<open>ON CONFLICT (user_id, card_id, anki_id) DO NOTHING\<close>; a \<open>NULL\<close> conflicts with nothing, and an import has none.\<close>

definition InsertImportedReviewLog :: "content_db \<Rightarrow> review_log \<Rightarrow> content_error + nat \<times> content_db" where
  "InsertImportedReviewLog db r =
     (if cd_refuses db ''InsertImportedReviewLog'' then Inl (CRefused ''InsertImportedReviewLog'')
      else if \<not> log_check r then Inl (CRefused ''review_log_check'')
      else if rl_AnkiID r \<noteq> None \<and> anki_key r \<in> anki_key ` set (cd_log db) then Inr (0, db)
      else if rl_ID r \<in> rl_ID ` set (cd_log db) then Inl (UniqueViolation ''review_log_pkey'')
      else Inr (1, db\<lparr>cd_log := cd_log db @ [r]\<rparr>))"

definition SeedImportedUserCardState :: "content_db \<Rightarrow> user_card_state \<Rightarrow> content_error + nat \<times> content_db" where
  "SeedImportedUserCardState db s =
     (if cd_refuses db ''SeedImportedUserCardState'' then Inl (CRefused ''SeedImportedUserCardState'')
      else if \<not> state_check s then Inl (CRefused ''user_card_state_check'')
      else if row_of us_key (us_key s) (cd_states db) \<noteq> None then Inr (0, db)
      else if row_of c_ID (us_CardID s) (cd_cards db) = None then Inl (FKViolation ''user_card_state_card_id_fkey'')
      else Inr (1, db\<lparr>cd_states := cd_states db @ [s]\<rparr>))"

definition params_key :: "user_fsrs_params \<Rightarrow> uuid \<times> pguuid" where
  "params_key p = (fp_UserID p, fp_DeckID p)"

text \<open>The check \<open>0 < desired_retention < 1\<close> of migration 12 is on the row the \<open>SELECT\<close> yields.\<close>

definition SeedDeckFsrsRetention :: "content_db \<Rightarrow> uuid \<Rightarrow> uuid \<Rightarrow> int \<Rightarrow> float64 \<Rightarrow> content_error + content_db" where
  "SeedDeckFsrsRetention db userID deckID version retention =
     bindE (run_c db ''SeedDeckFsrsRetention'' (access_of db deckID userID)) (\<lambda>a.
     if \<not> (case a of None \<Rightarrow> False | Some r \<Rightarrow> can_view r \<and> can_study r) then Inr db
     else if \<not> (flt_lt flt_zero retention \<and> flt_lt retention flt_one)
     then Inl (CRefused ''user_fsrs_params_desired_retention_check'')
     else if row_of params_key (userID, Some deckID) (cd_params db) \<noteq> None then Inr db
     else Inr (db\<lparr>cd_params := cd_params db @ [\<lparr>fp_UserID = userID, fp_DeckID = Some deckID, fp_FsrsVersion = version,
       fp_Params = Some [], fp_DesiredRetention = retention\<rparr>]\<rparr>))"

end
