(* ===== verification/Apkg_Import.thy ===== *)
theory Apkg_Import
  imports Apkg_Import_Store Apkg_Ir
begin

text \<open>
  \<open>internal/apkg/dbwrite.go\<close>: a package that has been read is filed under its owner. An import runs inside one
  transaction; an error result means that the caller rolls it back. The state of an import is the database,
  the blob store, the number of ids drawn so far and the tally; a warning is its kind and data.
\<close>

section \<open>Results and state\<close>

datatype import_warning =
    FromPackage warning
  | FilteredDeckSkipped string
  | NoteTypeUnresolved string
  | HomeDeckUnresolved string
  | CardNoteUnresolved int
  | ClozeWithoutTemplate int
  | NoTemplateAtOrdinal int int
  | CardDeckUnresolved int
  | CardDeckFallback int int
  | ReviewCardUnresolved int
  | RetentionOutOfRange uuid float64
  | TypeOutOfRange int int

record ImportedDeck =
  idk_ID :: uuid
  idk_CardCount :: nat

record ImportResult =
  DecksCreated :: nat
  DecksReused :: nat
  NoteTypesCreated :: nat
  NoteTypesReused :: nat
  NotesInserted :: nat
  NotesUpdated :: nat
  CardsUpserted :: nat
  ReviewsInserted :: nat
  CardStatesSeeded :: nat
  CardStatesReplayed :: nat
  MediaImported :: nat
  Warnings :: "import_warning list"
  Decks :: "ImportedDeck list"

definition zero_ImportResult :: "import_warning list \<Rightarrow> ImportResult" where
  "zero_ImportResult ws = \<lparr>DecksCreated = 0, DecksReused = 0, NoteTypesCreated = 0, NoteTypesReused = 0, NotesInserted = 0,
     NotesUpdated = 0, CardsUpserted = 0, ReviewsInserted = 0, CardStatesSeeded = 0, CardStatesReplayed = 0,
     MediaImported = 0, Warnings = ws, Decks = []\<rparr>"

datatype import_error =
    IContent content_error
  | IReview review_error
  | IMedia media_error
  | IMismatch string

record import_state =
  is_db :: content_db
  is_blobs :: blob_state
  is_next :: nat
  is_result :: ImportResult

text \<open>
  What an import is given: the ids of new rows, the clock, the scheduling library, the text of a MIME type for
  an extension and for bytes.
\<close>

record import_env =
  ie_newID :: "nat \<Rightarrow> uuid"
  ie_now :: gotime
  ie_lib :: fsrs_lib
  ie_TypeByExtension :: "string \<Rightarrow> string"
  ie_DetectContentType :: "string \<Rightarrow> string"

abbreviation contE :: "content_error + 'a \<Rightarrow> import_error + 'a" where "contE m \<equiv> liftE IContent m"
abbreviation revE :: "review_error + 'a \<Rightarrow> import_error + 'a" where "revE m \<equiv> liftE IReview m"
abbreviation mediaE :: "media_error + 'a \<Rightarrow> import_error + 'a" where "mediaE m \<equiv> liftE IMedia m"

definition fresh_id :: "import_env \<Rightarrow> import_state \<Rightarrow> uuid" where
  "fresh_id e st = ie_newID e (is_next st)"

definition with_db :: "content_db \<Rightarrow> import_state \<Rightarrow> import_state" where
  "with_db db st = st\<lparr>is_db := db, is_next := Suc (is_next st)\<rparr>"

definition warn :: "import_warning \<Rightarrow> import_state \<Rightarrow> import_state" where
  "warn w st = st\<lparr>is_result := (is_result st)\<lparr>Warnings := Warnings (is_result st) @ [w]\<rparr>\<rparr>"

definition tally :: "(ImportResult \<Rightarrow> ImportResult) \<Rightarrow> import_state \<Rightarrow> import_state" where
  "tally f st = st\<lparr>is_result := f (is_result st)\<rparr>"

section \<open>Decks\<close>

type_synonym deck_ids = "int \<Rightarrow> uuid option"

definition import_deck :: "import_env \<Rightarrow> uuid \<Rightarrow> deck_ids \<times> import_state \<Rightarrow> IrDeck \<Rightarrow> import_error + deck_ids \<times> import_state" where
  "import_deck e ownerID s d =
     (let (ids, st) = s in
      if ir_deck_IsFiltered d then Inr (ids, warn (FilteredDeckSkipped (ir_deck_Name d)) st)
      else case GetDeckByOwnerAndName (is_db st) ownerID (ir_deck_Name d) of
        Inl ErrNoRows \<Rightarrow>
          bindE (contE (CreateDeckWithAccess (is_db st) (ie_now e) (fresh_id e st) ownerID (ir_deck_Name d) (ir_deck_Description d)))
            (\<lambda>(created, db1).
          bindE (contE (SetDeckAnkiID db1 (ie_now e) (ir_deck_AnkiID d) (dk_ID created))) (\<lambda>(_, db2).
          Inr (ids(ir_deck_AnkiID d \<mapsto> dk_ID created), tally (\<lambda>r. r\<lparr>DecksCreated := Suc (DecksCreated r)\<rparr>) (with_db db2 st))))
      | Inl err \<Rightarrow> Inl (IContent err)
      | Inr existing \<Rightarrow>
          bindE (contE (GetDeckForContentEdit (is_db st) ownerID (dk_ID existing))) (\<lambda>_.
          bindE (contE (SetDeckAnkiID (is_db st) (ie_now e) (ir_deck_AnkiID d) (dk_ID existing))) (\<lambda>(_, db1).
          Inr (ids(ir_deck_AnkiID d \<mapsto> dk_ID existing),
               tally (\<lambda>r. r\<lparr>DecksReused := Suc (DecksReused r)\<rparr>) (st\<lparr>is_db := db1\<rparr>)))))"

definition importDecks :: "import_env \<Rightarrow> uuid \<Rightarrow> IrDeck list \<Rightarrow> import_state \<Rightarrow> import_error + deck_ids \<times> import_state" where
  "importDecks e ownerID decks st = foldE (import_deck e ownerID) (Map.empty, st) decks"

section \<open>Note types\<close>

record importedNoteType =
  imt_ID :: uuid
  imt_Templates :: "int \<Rightarrow> uuid option"
  imt_IsCloze :: bool

type_synonym type_ids = "int \<Rightarrow> importedNoteType option"

definition import_field :: "import_env \<Rightarrow> uuid \<Rightarrow> import_state \<Rightarrow> IrField \<Rightarrow> import_error + import_state" where
  "import_field e ntID st f =
     bindE (contE (CreateImportedField (is_db st) \<lparr>fd_ID = fresh_id e st, fd_NoteTypeID = ntID, fd_Ordinal = if_Ordinal f,
       fd_Name = if_Name f, fd_Font = if_Font f, fd_Size = if_Size f, fd_IsRtl = if_IsRTL f, fd_Sticky = if_Sticky f\<rparr>))
     (\<lambda>db. Inr (with_db db st))"

definition import_template :: "import_env \<Rightarrow> uuid \<Rightarrow> (int \<Rightarrow> uuid option) \<times> import_state \<Rightarrow> IrTemplate
    \<Rightarrow> import_error + (int \<Rightarrow> uuid option) \<times> import_state" where
  "import_template e ntID s t =
     (let (templates, st) = s in
      bindE (contE (CreateImportedTemplate (is_db st) \<lparr>tp_ID = fresh_id e st, tp_NoteTypeID = ntID, tp_Ordinal = it_Ordinal t,
        tp_Name = it_Name t, tp_Qfmt = it_Qfmt t, tp_Afmt = it_Afmt t, tp_BrowserQfmt = it_BrowserQfmt t,
        tp_BrowserAfmt = it_BrowserAfmt t\<rparr>)) (\<lambda>(created, db).
      Inr (templates(it_Ordinal t \<mapsto> tp_ID created), with_db db st)))"

definition import_notetype :: "import_env \<Rightarrow> uuid \<Rightarrow> type_ids \<times> import_state \<Rightarrow> IrNoteType \<Rightarrow> import_error + type_ids \<times> import_state" where
  "import_notetype e ownerID s nt =
     (let (ids, st) = s in
      case GetNoteTypeByOwnerAndName (is_db st) ownerID (in_Name nt) of
        Inl ErrNoRows \<Rightarrow>
          bindE (contE (CreateImportedNoteType (is_db st) (fresh_id e st) ownerID (in_Name nt) (in_CSS nt) (in_IsCloze nt)
            (in_SortFieldIdx nt) (in_AnkiID nt))) (\<lambda>(created, db1).
          bindE (foldE (import_field e (nt_ID created)) (with_db db1 st) (in_Fields nt)) (\<lambda>st2.
          bindE (foldE (import_template e (nt_ID created)) (Map.empty, st2) (in_Templates nt)) (\<lambda>(templates, st3).
          Inr (ids(in_AnkiID nt \<mapsto> \<lparr>imt_ID = nt_ID created, imt_Templates = templates, imt_IsCloze = in_IsCloze nt\<rparr>),
               tally (\<lambda>r. r\<lparr>NoteTypesCreated := Suc (NoteTypesCreated r)\<rparr>) st3))))
      | Inl err \<Rightarrow> Inl (IContent err)
      | Inr existing \<Rightarrow>
          bindE (contE (ListFieldsForNoteType (is_db st) (nt_ID existing))) (\<lambda>existingFields.
          if length existingFields \<noteq> length (in_Fields nt) then Inl (IMismatch (in_Name nt))
          else
          bindE (contE (ListTemplatesForNoteType (is_db st) (nt_ID existing))) (\<lambda>existingTemplates.
          Inr (ids(in_AnkiID nt \<mapsto> \<lparr>imt_ID = nt_ID existing,
                 imt_Templates = foldl (\<lambda>m t. m(tp_Ordinal t \<mapsto> tp_ID t)) Map.empty existingTemplates,
                 imt_IsCloze = nt_IsCloze existing\<rparr>),
               tally (\<lambda>r. r\<lparr>NoteTypesReused := Suc (NoteTypesReused r)\<rparr>) st))))"

definition importNoteTypes :: "import_env \<Rightarrow> uuid \<Rightarrow> IrNoteType list \<Rightarrow> import_state \<Rightarrow> import_error + type_ids \<times> import_state" where
  "importNoteTypes e ownerID nts st = foldE (import_notetype e ownerID) (Map.empty, st) nts"

section \<open>Notes\<close>

type_synonym note_ids = "int \<Rightarrow> uuid option"

definition import_note :: "import_env \<Rightarrow> uuid \<Rightarrow> deck_ids \<Rightarrow> type_ids \<Rightarrow> note_ids \<times> import_state \<Rightarrow> IrNote
    \<Rightarrow> import_error + note_ids \<times> import_state" where
  "import_note e ownerID deckIDs typeIDs s n =
     (let (ids, st) = s in
      case typeIDs (ir_note_NoteTypeAnkiID n) of
        None \<Rightarrow> Inr (ids, warn (NoteTypeUnresolved (ir_note_Guid n)) st)
      | Some nt \<Rightarrow>
      (case deckIDs (ir_note_HomeDeckAnkiID n) of
        None \<Rightarrow> Inr (ids, warn (HomeDeckUnresolved (ir_note_Guid n)) st)
      | Some deckID \<Rightarrow>
      (case GetNoteByOwnerAndGuid (is_db st) ownerID (ir_note_Guid n) of
         Inl ErrNoRows \<Rightarrow>
           bindE (contE (CreateImportedNote (is_db st) (fresh_id e st) (ir_note_Guid n) (ir_note_Fields n) (ir_note_Tags n)
             (ir_note_Checksum n) (ir_note_Created n) (ir_note_Modified n) (ir_note_AnkiID n) ownerID (imt_ID nt) deckID))
             (\<lambda>(created, db1).
           Inr (ids(ir_note_AnkiID n \<mapsto> n_ID created), tally (\<lambda>r. r\<lparr>NotesInserted := Suc (NotesInserted r)\<rparr>) (with_db db1 st)))
       | Inl err \<Rightarrow> Inl (IContent err)
       | Inr existing \<Rightarrow>
           bindE (contE (UpdateImportedNote (is_db st) (ir_note_Fields n) (ir_note_Tags n) (ir_note_Checksum n) (imt_ID nt)
             (ir_note_Modified n) (ir_note_AnkiID n) (n_ID existing) ownerID)) (\<lambda>(_, db1).
           Inr (ids(ir_note_AnkiID n \<mapsto> n_ID existing),
                tally (\<lambda>r. r\<lparr>NotesUpdated := Suc (NotesUpdated r)\<rparr>) (st\<lparr>is_db := db1\<rparr>))))))"

definition importNotes :: "import_env \<Rightarrow> uuid \<Rightarrow> IrNote list \<Rightarrow> deck_ids \<Rightarrow> type_ids \<Rightarrow> import_state
    \<Rightarrow> import_error + note_ids \<times> import_state" where
  "importNotes e ownerID ns deckIDs typeIDs st = foldE (import_note e ownerID deckIDs typeIDs) (Map.empty, st) ns"

section \<open>Cards\<close>

record importedCards =
  IDByAnkiID :: "int \<Rightarrow> uuid option"
  DeckByAnkiID :: "int \<Rightarrow> uuid option"
  CountByDeck :: "uuid \<Rightarrow> nat"

text \<open>
  Where a card goes, or why it is skipped: its note, its template (ordinal 0 of a cloze type), and its deck,
  with the note's home deck as the fallback. A note that is not in \<open>col.Notes\<close> reads as Go's zero values.
\<close>

definition zero_noteType :: importedNoteType where
  "zero_noteType = \<lparr>imt_ID = 0, imt_Templates = Map.empty, imt_IsCloze = False\<rparr>"

definition noteTypeOf :: "type_ids \<Rightarrow> IrNote list \<Rightarrow> int \<Rightarrow> importedNoteType" where
  "noteTypeOf typeIDs ns a =
     (case row_of ir_note_AnkiID a (rev ns) of
        None \<Rightarrow> zero_noteType
      | Some n \<Rightarrow> (case typeIDs (ir_note_NoteTypeAnkiID n) of None \<Rightarrow> zero_noteType | Some nt \<Rightarrow> nt))"

definition homeDeckOf :: "IrNote list \<Rightarrow> int \<Rightarrow> int" where
  "homeDeckOf ns a = (case row_of ir_note_AnkiID a (rev ns) of None \<Rightarrow> 0 | Some n \<Rightarrow> ir_note_HomeDeckAnkiID n)"

record card_plan =
  cp_NoteID :: uuid
  cp_TemplateID :: uuid
  cp_DeckID :: uuid
  cp_Fallback :: bool

definition plan_card :: "note_ids \<Rightarrow> (int \<Rightarrow> importedNoteType) \<Rightarrow> (int \<Rightarrow> int) \<Rightarrow> deck_ids \<Rightarrow> IrCard
    \<Rightarrow> import_warning + card_plan" where
  "plan_card noteIDs typeOf homeOf deckIDs c =
     (case noteIDs (ir_card_NoteAnkiID c) of
        None \<Rightarrow> Inl (CardNoteUnresolved (ir_card_AnkiID c))
      | Some noteID \<Rightarrow>
          let nt = typeOf (ir_card_NoteAnkiID c); ord = (if imt_IsCloze nt then 0 else ir_card_Ordinal c) in
          (case imt_Templates nt ord of
             None \<Rightarrow> Inl (if imt_IsCloze nt then ClozeWithoutTemplate (ir_card_AnkiID c)
                          else NoTemplateAtOrdinal (ir_card_AnkiID c) (ir_card_Ordinal c))
           | Some templateID \<Rightarrow>
               (case deckIDs (ir_card_DeckAnkiID c) of
                  Some deckID \<Rightarrow> Inr \<lparr>cp_NoteID = noteID, cp_TemplateID = templateID, cp_DeckID = deckID, cp_Fallback = False\<rparr>
                | None \<Rightarrow>
                    (case deckIDs (homeOf (ir_card_NoteAnkiID c)) of
                       None \<Rightarrow> Inl (CardDeckUnresolved (ir_card_AnkiID c))
                     | Some deckID \<Rightarrow>
                         Inr \<lparr>cp_NoteID = noteID, cp_TemplateID = templateID, cp_DeckID = deckID, cp_Fallback = True\<rparr>))))"

definition import_card :: "import_env \<Rightarrow> note_ids \<Rightarrow> (int \<Rightarrow> importedNoteType) \<Rightarrow> (int \<Rightarrow> int) \<Rightarrow> deck_ids
    \<Rightarrow> importedCards \<times> import_state \<Rightarrow> IrCard \<Rightarrow> import_error + importedCards \<times> import_state" where
  "import_card e noteIDs typeOf homeOf deckIDs s c =
     (let (out, st) = s in
      case plan_card noteIDs typeOf homeOf deckIDs c of
        Inl w \<Rightarrow> Inr (out, warn w st)
      | Inr p \<Rightarrow>
          let st = (if cp_Fallback p then warn (CardDeckFallback (ir_card_AnkiID c) (ir_card_DeckAnkiID c)) st else st);
              position = (case ir_card_Due c of DuePosition v \<Rightarrow> Some v | _ \<Rightarrow> None)
          in bindE (contE (UpsertImportedCard (is_db st) (fresh_id e st) (cp_NoteID p) (cp_TemplateID p) (ir_card_Ordinal c)
               (cp_DeckID p) (ir_card_AnkiID c) position)) (\<lambda>(created, db1).
             Inr (out\<lparr>IDByAnkiID := (IDByAnkiID out)(ir_card_AnkiID c \<mapsto> c_ID created),
                      DeckByAnkiID := (DeckByAnkiID out)(ir_card_AnkiID c \<mapsto> cp_DeckID p),
                      CountByDeck := (CountByDeck out)(cp_DeckID p := Suc (CountByDeck out (cp_DeckID p)))\<rparr>,
                  tally (\<lambda>r. r\<lparr>CardsUpserted := Suc (CardsUpserted r)\<rparr>) (with_db db1 st))))"

definition importCards :: "import_env \<Rightarrow> IrCollection \<Rightarrow> note_ids \<Rightarrow> type_ids \<Rightarrow> deck_ids \<Rightarrow> import_state
    \<Rightarrow> import_error + importedCards \<times> import_state" where
  "importCards e col noteIDs typeIDs deckIDs st =
     foldE (import_card e noteIDs (noteTypeOf typeIDs (irc_Notes col)) (homeDeckOf (irc_Notes col)) deckIDs)
       (\<lparr>IDByAnkiID = Map.empty, DeckByAnkiID = Map.empty, CountByDeck = (\<lambda>_. 0)\<rparr>, st) (irc_Cards col)"

section \<open>Desired retention\<close>

definition flt_eq :: "float64 \<Rightarrow> float64 \<Rightarrow> bool" where
  "flt_eq x y \<longleftrightarrow> flt_le x y \<and> flt_le y x"

text \<open>The tally of one deck: its values in the order they were first seen, with their counts.\<close>

fun count_retention :: "float64 \<Rightarrow> (float64 \<times> nat) list \<Rightarrow> (float64 \<times> nat) list" where
  "count_retention v [] = [(v, 1)]"
| "count_retention v ((w, n) # t) = (if flt_eq w v then (w, Suc n) # t else (w, n) # count_retention v t)"

definition tally_card :: "(int \<Rightarrow> uuid option) \<Rightarrow> uuid list \<times> (uuid \<Rightarrow> (float64 \<times> nat) list option) \<Rightarrow> IrCard
    \<Rightarrow> uuid list \<times> (uuid \<Rightarrow> (float64 \<times> nat) list option)" where
  "tally_card deckOf s c =
     (let (order, tallies) = s in
      case (ir_card_FSRS c, deckOf (ir_card_AnkiID c)) of
        (Some f, Some deckID) \<Rightarrow>
          if flt_eq (if_DesiredRetention f) flt_zero then s
          else (case tallies deckID of
              None \<Rightarrow> (order @ [deckID], tallies(deckID \<mapsto> count_retention (if_DesiredRetention f) []))
            | Some t \<Rightarrow> (order, tallies(deckID \<mapsto> count_retention (if_DesiredRetention f) t)))
      | _ \<Rightarrow> s)"

fun best_tally :: "float64 \<times> nat \<Rightarrow> (float64 \<times> nat) list \<Rightarrow> float64" where
  "best_tally b [] = fst b"
| "best_tally b (c # cs) = best_tally (if snd c > snd b then c else b) cs"

definition seed_retention :: "import_env \<Rightarrow> uuid \<Rightarrow> (uuid \<Rightarrow> (float64 \<times> nat) list option) \<Rightarrow> import_state \<Rightarrow> uuid
    \<Rightarrow> import_error + import_state" where
  "seed_retention e ownerID tallies st deckID =
     (let t = the (tallies deckID); best = best_tally (hd t) (tl t) in
      case NewDefaultParams (ie_lib e) best of
        Inl _ \<Rightarrow> Inr (warn (RetentionOutOfRange deckID best) st)
      | Inr params \<Rightarrow>
          bindE (contE (SeedDeckFsrsRetention (is_db st) ownerID deckID (wrap16 (par_version params)) best)) (\<lambda>db.
          Inr (st\<lparr>is_db := db\<rparr>)))"

definition seedDeckRetention :: "import_env \<Rightarrow> uuid \<Rightarrow> IrCard list \<Rightarrow> importedCards \<Rightarrow> import_state \<Rightarrow> import_error + import_state" where
  "seedDeckRetention e ownerID irCards cards st =
     (let (deckOrder, tallies) = foldl (tally_card (DeckByAnkiID cards)) ([], Map.empty) irCards
      in foldE (seed_retention e ownerID tallies) st deckOrder)"

section \<open>Review history\<close>

definition reviewKindToState :: "int \<Rightarrow> int" where
  "reviewKindToState kind = (if kind = 0 then 1 else if kind = 2 then 3 else 2)"

definition durationMsParam :: "int \<Rightarrow> int option" where
  "durationMsParam ms = (if ms \<le> 0 then None else Some ms)"

definition import_review :: "import_env \<Rightarrow> uuid \<Rightarrow> uuid \<Rightarrow> import_state \<Rightarrow> IrReview \<Rightarrow> import_error + import_state" where
  "import_review e ownerID cardID st r =
     bindE (contE (InsertImportedReviewLog (is_db st) \<lparr>rl_ID = fresh_id e st, rl_UserID = ownerID, rl_CardID = cardID,
       rl_Rating = ir_rev_Rating r, rl_ReviewedAt = pg_timestamp (ir_rev_ReviewedAt r),
       rl_DurationMs = durationMsParam (ir_rev_DurationMs r), rl_StateBefore = reviewKindToState (ir_rev_Kind r),
       rl_LearningStepsBefore = 0, rl_StabilityBefore = None, rl_DifficultyBefore = None, rl_ElapsedDaysBefore = 0,
       rl_ScheduledDaysAfter = max 0 (clampInt32 (go_div (ir_rev_IntervalSeconds r) secondsPerDay)),
       rl_FsrsVersion = None, rl_ReviewKind = ir_rev_Kind r, rl_AnkiID = Some (ir_rev_AnkiID r)\<rparr>)) (\<lambda>(n, db).
     Inr (tally (\<lambda>res. res\<lparr>ReviewsInserted := ReviewsInserted res + n\<rparr>) (with_db db st)))"

definition replay_imported :: "import_env \<Rightarrow> uuid \<Rightarrow> importedCards \<Rightarrow> int \<Rightarrow> uuid \<Rightarrow> ParamsCache \<times> import_state
    \<Rightarrow> import_error + ParamsCache \<times> import_state" where
  "replay_imported e ownerID cards cardAnkiID cardID s =
     (let (cache, st) = s; deckID = (case DeckByAnkiID cards cardAnkiID of None \<Rightarrow> 0 | Some d \<Rightarrow> d); db = is_db st in
      bindE (revE (ParamsCache_Get (ie_lib e) (review_view db) cache ownerID deckID)) (\<lambda>(params, cache).
      bindE (revE (ReplayCard (ie_lib e) (review_view db) params ownerID cardID)) (\<lambda>(_, rdb).
      Inr (cache, tally (\<lambda>r. r\<lparr>CardStatesReplayed := Suc (CardStatesReplayed r)\<rparr>) (st\<lparr>is_db := db\<lparr>cd_states := db_states rdb\<rparr>\<rparr>)))))"

definition import_card_reviews :: "import_env \<Rightarrow> uuid \<Rightarrow> IrReview list \<Rightarrow> importedCards
    \<Rightarrow> (int \<Rightarrow> bool) \<times> ParamsCache \<times> import_state \<Rightarrow> int \<Rightarrow> import_error + (int \<Rightarrow> bool) \<times> ParamsCache \<times> import_state" where
  "import_card_reviews e ownerID reviews cards s cardAnkiID =
     (let (has, cache, st) = s in
      case IDByAnkiID cards cardAnkiID of
        None \<Rightarrow> Inr (has, cache, warn (ReviewCardUnresolved cardAnkiID) st)
      | Some cardID \<Rightarrow>
          bindE (foldE (import_review e ownerID cardID) st (filter (\<lambda>r. ir_rev_CardAnkiID r = cardAnkiID) reviews)) (\<lambda>st1.
          bindE (replay_imported e ownerID cards cardAnkiID cardID (cache, st1)) (\<lambda>(cache, st2).
          Inr (has(cardAnkiID := True), cache, st2))))"

definition importReviews :: "import_env \<Rightarrow> uuid \<Rightarrow> IrReview list \<Rightarrow> importedCards \<Rightarrow> import_state
    \<Rightarrow> import_error + (int \<Rightarrow> bool) \<times> import_state" where
  "importReviews e ownerID reviews cards st =
     bindE (foldE (import_card_reviews e ownerID reviews cards) (\<lambda>_. False, NewParamsCache, st)
       (dedup (map ir_rev_CardAnkiID reviews))) (\<lambda>(has, _, st). Inr (has, st))"

section \<open>Schedules without a history\<close>

definition hasState :: "IrCard \<Rightarrow> bool" where
  "hasState c \<longleftrightarrow> ir_card_FSRS c \<noteq> None \<or> ir_card_Type c \<noteq> 0 \<or> ir_card_Suspended c \<or> ir_card_Flag c \<noteq> 0"

definition seeded_row :: "uuid \<Rightarrow> uuid \<Rightarrow> gotime \<Rightarrow> IrCard \<Rightarrow> user_card_state" where
  "seeded_row ownerID cardID now c =
     (let due = (case ir_card_Due c of DueAt t \<Rightarrow> t | _ \<Rightarrow> now);
          lastReview = (case ir_card_Due c of
              DueAt t \<Rightarrow> if ir_card_IntervalSeconds c > 0
                then Some (pg_timestamp (time_Add t (wrap64 (wrap64 (- ir_card_IntervalSeconds c) * Second)))) else None
            | _ \<Rightarrow> None)
      in \<lparr>us_UserID = ownerID, us_CardID = cardID, us_Due = pg_timestamp due,
          us_Stability = (case ir_card_FSRS c of None \<Rightarrow> flt_zero | Some f \<Rightarrow> if_Stability f),
          us_Difficulty = (case ir_card_FSRS c of None \<Rightarrow> flt_zero | Some f \<Rightarrow> if_Difficulty f),
          us_State = wrap16 (ir_card_Type c), us_Reps = ir_card_Reps c, us_Lapses = ir_card_Lapses c, us_ElapsedDays = 0,
          us_ScheduledDays = max 0 (clampInt32 (go_div (ir_card_IntervalSeconds c) secondsPerDay)),
          us_LearningSteps = 0, us_LastReview = lastReview, us_Suspended = ir_card_Suspended c,
          us_BuriedUntil = None, us_Flag = ir_card_Flag c\<rparr>)"

definition seed_state :: "import_env \<Rightarrow> uuid \<Rightarrow> (int \<Rightarrow> uuid option) \<Rightarrow> (int \<Rightarrow> bool) \<Rightarrow> import_state \<Rightarrow> IrCard
    \<Rightarrow> import_error + import_state" where
  "seed_state e ownerID cardIDs has st c =
     (if has (ir_card_AnkiID c) then Inr st
      else case cardIDs (ir_card_AnkiID c) of
        None \<Rightarrow> Inr st
      | Some cardID \<Rightarrow>
          if \<not> hasState c then Inr st
          else if ir_card_Type c < 0 \<or> ir_card_Type c > 3
          then Inr (warn (TypeOutOfRange (ir_card_AnkiID c) (ir_card_Type c)) st)
          else bindE (contE (SeedImportedUserCardState (is_db st) (seeded_row ownerID cardID (ie_now e) c))) (\<lambda>(n, db).
            Inr (tally (\<lambda>r. r\<lparr>CardStatesSeeded := CardStatesSeeded r + n\<rparr>) (st\<lparr>is_db := db\<rparr>))))"

definition seedCardStates :: "import_env \<Rightarrow> uuid \<Rightarrow> IrCard list \<Rightarrow> (int \<Rightarrow> uuid option) \<Rightarrow> (int \<Rightarrow> bool) \<Rightarrow> import_state
    \<Rightarrow> import_error + import_state" where
  "seedCardStates e ownerID cards cardIDs has st = foldE (seed_state e ownerID cardIDs has) st cards"

section \<open>Media\<close>

text \<open>\<open>filepath.Ext\<close>: from the last dot of the last path element.\<close>

definition filepath_Ext :: "string \<Rightarrow> string" where
  "filepath_Ext path =
     (let tail = takeWhile (\<lambda>c. c \<noteq> CHR ''.'' \<and> c \<noteq> CHR ''/'') (rev path); rest = drop (length tail) (rev path)
      in if rest \<noteq> [] \<and> hd rest = CHR ''.'' then CHR ''.'' # rev tail else [])"

definition detectMediaMime :: "import_env \<Rightarrow> string \<Rightarrow> string \<Rightarrow> string" where
  "detectMediaMime e filename data =
     (let t = ie_TypeByExtension e (filepath_Ext filename) in if t \<noteq> [] then t else ie_DetectContentType e data)"

definition import_ref :: "IrMedia \<Rightarrow> import_state \<Rightarrow> uuid \<Rightarrow> import_error + import_state" where
  "import_ref m st deckID =
     bindE (mediaE (CreateMediaRef (is_blobs st) (is_db st) deckID (im_Filename m) (im_SHA256 m))) (\<lambda>db. Inr (st\<lparr>is_db := db\<rparr>))"

definition import_medium :: "import_env \<Rightarrow> uuid list \<Rightarrow> import_state \<Rightarrow> IrMedia \<Rightarrow> import_error + import_state" where
  "import_medium e deckIDs st m =
     bindE (mediaE (Put (is_blobs st) (ie_now e) (im_SHA256 m) (im_Data m))) (\<lambda>bs1.
     bindE (mediaE (CreateMediaBlob bs1 (ie_now e) (im_SHA256 m) (im_SizeBytes m) (detectMediaMime e (im_Filename m) (im_Data m)))) (\<lambda>bs2.
     bindE (foldE (import_ref m) (st\<lparr>is_blobs := bs2\<rparr>) deckIDs) (\<lambda>st.
     Inr (tally (\<lambda>r. r\<lparr>MediaImported := Suc (MediaImported r)\<rparr>) st))))"

definition importMedia :: "import_env \<Rightarrow> uuid list \<Rightarrow> IrMedia list \<Rightarrow> import_state \<Rightarrow> import_error + import_state" where
  "importMedia e deckIDs media st = foldE (import_medium e deckIDs) st media"

section \<open>The import\<close>

definition deck_list :: "deck_ids \<Rightarrow> IrDeck list \<Rightarrow> uuid list" where
  "deck_list ids decks = dedup (List.map_filter (\<lambda>d. ids (ir_deck_AnkiID d)) decks)"

definition lock_cards :: "uuid \<Rightarrow> uuid list \<Rightarrow> import_state \<Rightarrow> import_error + import_state" where
  "lock_cards ownerID cardIDs st =
     (if cardIDs = [] then Inr st
      else bindE (revE (dbE (acquireLocks LockCardForGrade (review_view (is_db st)) (sortedKeys ownerID cardIDs)))) (\<lambda>_. Inr st))"

definition Import :: "import_env \<Rightarrow> uuid \<Rightarrow> IrCollection \<Rightarrow> content_db \<Rightarrow> blob_state
    \<Rightarrow> import_error + ImportResult \<times> content_db \<times> blob_state" where
  "Import e ownerID col db bs =
     (let st = \<lparr>is_db = db, is_blobs = bs, is_next = 0, is_result = zero_ImportResult (map FromPackage (irc_Warnings col))\<rparr> in
      bindE (importDecks e ownerID (irc_Decks col) st) (\<lambda>(deckIDs, st).
      bindE (importNoteTypes e ownerID (irc_NoteTypes col) st) (\<lambda>(typeIDs, st).
      bindE (importNotes e ownerID (irc_Notes col) deckIDs typeIDs st) (\<lambda>(noteIDs, st).
      bindE (importCards e col noteIDs typeIDs deckIDs st) (\<lambda>(cards, st).
      bindE (seedDeckRetention e ownerID (irc_Cards col) cards st) (\<lambda>st.
      let decks = deck_list deckIDs (irc_Decks col);
          st = tally (\<lambda>r. r\<lparr>Decks := map (\<lambda>d. \<lparr>idk_ID = d, idk_CardCount = CountByDeck cards d\<rparr>) decks\<rparr>) st in
      bindE (lock_cards ownerID (List.map_filter (\<lambda>c. IDByAnkiID cards (ir_card_AnkiID c)) (irc_Cards col)) st) (\<lambda>st.
      bindE (importReviews e ownerID (irc_Reviews col) cards st) (\<lambda>(has, st).
      bindE (seedCardStates e ownerID (irc_Cards col) (IDByAnkiID cards) has st) (\<lambda>st.
      bindE (importMedia e decks (irc_Media col) st) (\<lambda>st.
      Inr (is_result st, is_db st, is_blobs st)))))))))))"

end
