(* ===== verification/Apkg_Import_Lemmas.thy ===== *)
theory Apkg_Import_Lemmas
  imports Apkg_Import
begin

text \<open>
  What an import may do to the database it runs in: it adds rows and rewrites the contents of the owner's notes
  and cards, and nothing else.
\<close>

section \<open>Tables that grow\<close>

text \<open>Every row stays at its place and keeps the columns \<open>k\<close>; new rows come after.\<close>

definition extends :: "('r \<Rightarrow> 'k) \<Rightarrow> 'r list \<Rightarrow> 'r list \<Rightarrow> bool" where
  "extends k t u \<longleftrightarrow> (\<exists>v. map k u = map k t @ v)"

lemma extends_refl [simp, intro]: "extends k t t"
  by (simp add: extends_def)

lemma extends_trans: "extends k t u \<Longrightarrow> extends k u v \<Longrightarrow> extends k t v"
  by (auto simp: extends_def)

lemma extends_append [simp, intro]: "extends k t (t @ u)"
  by (simp add: extends_def)

lemma extends_map_rows [intro]:
  assumes "\<And>r. r \<in> set t \<Longrightarrow> p r \<Longrightarrow> k (f r) = k r"
  shows "extends k t (map_rows p f t)"
proof -
  have "map k (map_rows p f t) = map k t" using assms by (auto simp: map_rows_def)
  then show ?thesis by (simp add: extends_def)
qed

lemma extends_same: "map k u = map k t \<Longrightarrow> extends k t u"
  by (simp add: extends_def)

lemma extends_row_of:
  assumes "extends k t u" "row_of (f \<circ> k) x t = Some r"
  shows "\<exists>r'. row_of (f \<circ> k) x u = Some r' \<and> k r' = k r"
proof -
  have key: "map_option k (row_of (f \<circ> k) x w) = find (\<lambda>y. f y = x) (map k w)" for w
    by (induction w) auto
  from assms(1) obtain v where "map k u = map k t @ v" by (auto simp: extends_def)
  then have "map_option k (row_of (f \<circ> k) x u) = find (\<lambda>y. f y = x) (map k t @ v)" by (simp add: key)
  also have "\<dots> = Some (k r)"
  proof -
    have "find (\<lambda>y. f y = x) (map k t) = Some (k r)" using key [of t] assms(2) by simp
    then show ?thesis by (induction t) (auto split: if_splits)
  qed
  finally show ?thesis by auto
qed

section \<open>What an import keeps\<close>

definition deck_kept :: "deck \<Rightarrow> uuid \<times> uuid \<times> string \<times> string \<times> json \<times> gotime" where
  "deck_kept d = (dk_ID d, dk_OwnerID d, dk_Name d, dk_Description d, dk_Preset d, dk_CreatedAt d)"

definition note_kept :: "db_note \<Rightarrow> uuid \<times> uuid \<times> string \<times> uuid \<times> gotime \<times> int" where
  "note_kept n = (n_ID n, n_OwnerID n, n_Guid n, n_DeckID n, n_CreatedAt n, n_ReleaseDay n)"

definition card_kept :: "note_card \<Rightarrow> uuid \<times> uuid \<times> int" where
  "card_kept c = (c_ID c, c_NoteID c, c_Ordinal c)"

definition state_kept :: "user_card_state \<Rightarrow> (uuid \<times> uuid) \<times> bool \<times> gotime option \<times> int" where
  "state_kept s = (us_key s, settings_of s)"

definition import_frame :: "uuid \<Rightarrow> content_db \<Rightarrow> content_db \<Rightarrow> bool" where
  "import_frame u db db' \<longleftrightarrow>
     extends deck_kept (cd_decks db) (cd_decks db')
     \<and> (\<exists>new. cd_access db' = cd_access db @ new \<and> (\<forall>a\<in>set new. da_UserID a = u))
     \<and> extends (\<lambda>x. x) (cd_noteTypes db) (cd_noteTypes db') \<and> extends (\<lambda>x. x) (cd_fields db) (cd_fields db')
     \<and> extends (\<lambda>x. x) (cd_templates db) (cd_templates db')
     \<and> extends note_kept (cd_notes db) (cd_notes db') \<and> extends card_kept (cd_cards db) (cd_cards db')
     \<and> filter (\<lambda>s. us_UserID s \<noteq> u) (cd_states db') = filter (\<lambda>s. us_UserID s \<noteq> u) (cd_states db)
     \<and> (pk us_key (cd_states db) \<longrightarrow> pk us_key (cd_states db') \<and> extends state_kept (cd_states db) (cd_states db'))
     \<and> (\<exists>new. cd_log db' = cd_log db @ new \<and> (\<forall>r\<in>set new. rl_UserID r = u \<and> rl_AnkiID r \<noteq> None))
     \<and> (\<exists>new. cd_params db' = cd_params db @ new \<and> (\<forall>p\<in>set new. fp_UserID p = u))
     \<and> extends (\<lambda>x. x) (cd_media db) (cd_media db')
     \<and> cd_users db' = cd_users db \<and> cd_flags db' = cd_flags db \<and> cd_refuses db' = cd_refuses db"

lemma appended_trans:
  assumes "\<exists>v. t' = t @ v \<and> (\<forall>r\<in>set v. P r)" "\<exists>v. t'' = t' @ v \<and> (\<forall>r\<in>set v. P r)"
  shows "\<exists>v. t'' = t @ v \<and> (\<forall>r\<in>set v. P r)"
proof -
  from assms obtain v w where "t' = t @ v" "\<forall>r\<in>set v. P r" "t'' = t' @ w" "\<forall>r\<in>set w. P r" by blast
  then have "t'' = t @ (v @ w) \<and> (\<forall>r\<in>set (v @ w). P r)" by auto
  then show ?thesis by blast
qed

lemma import_frame_refl [simp]: "import_frame u db db"
  by (simp add: import_frame_def)

lemma import_frame_trans:
  assumes "import_frame u a b" "import_frame u b c"
  shows "import_frame u a c"
  using assms unfolding import_frame_def
  by (elim conjE, intro conjI)
     (erule (1) extends_trans | erule (1) appended_trans | simp only: | (rule impI, elim impE, assumption, blast)
       | (intro impI conjI, blast, blast intro: extends_trans))+

interpretation imp: frame_rule "import_frame u" for u
  by unfold_locales (simp, rule import_frame_trans)

text \<open>After the decks and note types, an import leaves them and the rights alone.\<close>

definition content_frame :: "uuid \<Rightarrow> content_db \<Rightarrow> content_db \<Rightarrow> bool" where
  "content_frame u db db' \<longleftrightarrow> import_frame u db db' \<and> cd_decks db' = cd_decks db \<and> cd_access db' = cd_access db
     \<and> cd_noteTypes db' = cd_noteTypes db \<and> cd_fields db' = cd_fields db \<and> cd_templates db' = cd_templates db"

lemma content_frame_refl [simp]: "content_frame u db db"
  by (simp add: content_frame_def)

lemma content_frame_trans: "content_frame u a b \<Longrightarrow> content_frame u b c \<Longrightarrow> content_frame u a c"
  unfolding content_frame_def by (auto intro: import_frame_trans)

lemma content_frameD: "content_frame u db db' \<Longrightarrow> import_frame u db db'"
  by (simp add: content_frame_def)

interpretation cont: frame_rule "content_frame u" for u
  by unfold_locales (simp, rule content_frame_trans)

lemmas frame_intros = import_frame_def extends_append extends_refl

section \<open>Statements\<close>

lemma frame_CreateDeckWithAccess:
  "CreateDeckWithAccess db now i u name desc = Inr (d, db') \<Longrightarrow> import_frame u db db'"
  by (auto simp: CreateDeckWithAccess_def CreateDeck_def GrantFullDeckAccess_def insert_access_def access_row_def
      bindE_eq_Inr Let_def frame_intros split: if_splits)

lemma frame_SetDeckAnkiID: "SetDeckAnkiID db now a d = Inr (n, db') \<Longrightarrow> import_frame u db db'"
  by (auto simp: SetDeckAnkiID_def Let_def frame_intros deck_kept_def intro!: extends_map_rows)

lemma frame_CreateImportedNoteType:
  "CreateImportedNoteType db i u name css cl si a = Inr (nt, db') \<Longrightarrow> import_frame v db db'"
  by (auto simp: CreateImportedNoteType_def bindE_eq_Inr Let_def frame_intros split: if_splits)

lemma frame_CreateImportedField: "CreateImportedField db f = Inr db' \<Longrightarrow> import_frame u db db'"
  by (auto simp: CreateImportedField_def bindE_eq_Inr frame_intros split: if_splits)

lemma frame_CreateImportedTemplate: "CreateImportedTemplate db t = Inr (t', db') \<Longrightarrow> import_frame u db db'"
  by (auto simp: CreateImportedTemplate_def bindE_eq_Inr frame_intros split: if_splits)

lemma frame_CreateImportedNote:
  "CreateImportedNote db i g fs ts ck cr md a u nt d = Inr (n, db') \<Longrightarrow> content_frame v db db'"
  by (auto simp: CreateImportedNote_def bindE_eq_Inr Let_def content_frame_def frame_intros split: if_splits option.splits)

lemma frame_UpdateImportedNote:
  "UpdateImportedNote db fs ts ck nt md a n u = Inr (k, db') \<Longrightarrow> content_frame v db db'"
  by (auto simp: UpdateImportedNote_def bindE_eq_Inr Let_def content_frame_def frame_intros note_kept_def split: if_splits intro!: extends_map_rows)

lemma frame_UpsertImportedCard:
  "UpsertImportedCard db i n t ord d a pos = Inr (c, db') \<Longrightarrow> content_frame u db db'"
  by (auto simp: UpsertImportedCard_def insert_card_def bindE_eq_Inr Let_def content_frame_def frame_intros card_kept_def
      split: if_splits option.splits intro!: extends_map_rows)

lemma frame_InsertImportedReviewLog:
  "InsertImportedReviewLog db r = Inr (n, db') \<Longrightarrow> rl_UserID r = u \<Longrightarrow> rl_AnkiID r \<noteq> None \<Longrightarrow> content_frame u db db'"
  by (auto simp: InsertImportedReviewLog_def content_frame_def frame_intros split: if_splits)

lemma frame_SeedImportedUserCardState:
  "SeedImportedUserCardState db s = Inr (n, db') \<Longrightarrow> us_UserID s = u \<Longrightarrow> content_frame u db db'"
  by (auto simp: SeedImportedUserCardState_def content_frame_def frame_intros pk_snoc row_of_None split: if_splits)

lemma frame_SeedDeckFsrsRetention:
  "SeedDeckFsrsRetention db u d v r = Inr db' \<Longrightarrow> content_frame u db db'"
  by (auto simp: SeedDeckFsrsRetention_def bindE_eq_Inr content_frame_def frame_intros split: if_splits)

lemma frame_CreateMediaRef: "CreateMediaRef bs db d f s = Inr db' \<Longrightarrow> content_frame u db db'"
  by (auto simp: CreateMediaRef_def bindE_eq_Inr content_frame_def frame_intros split: if_splits)

text \<open>A replay writes the schedule of one card of the user and leaves the settings.\<close>

lemma overwrite_others:
  assumes "us_UserID n = u" "fst k = u"
  shows "filter (\<lambda>s. us_UserID s \<noteq> u) (map_rows (\<lambda>s. us_key s = k) (\<lambda>_. n) t) = filter (\<lambda>s. us_UserID s \<noteq> u) t"
  using assms by (induction t) (auto simp: map_rows_def us_key_def)

lemma put_state_frame:
  assumes "us_UserID r = u" "row_of us_key (us_key r) t = Some old"
  shows "filter (\<lambda>s. us_UserID s \<noteq> u) (put_row us_key (scheduling_update r old) t) = filter (\<lambda>s. us_UserID s \<noteq> u) t"
    and "pk us_key t \<Longrightarrow> extends state_kept t (put_row us_key (scheduling_update r old) t)"
proof -
  have old: "old \<in> set t" "us_key old = us_key r" using row_of_Some [OF assms(2)] by auto
  have put: "put_row us_key (scheduling_update r old) t = map_rows (\<lambda>s. us_key s = us_key r) (\<lambda>_. scheduling_update r old) t"
    using old by (auto simp: put_row_def)
  have "us_UserID (scheduling_update r old) = us_UserID old" by (simp add: scheduling_update_def)
  with old(2) assms(1) have "us_UserID (scheduling_update r old) = u" by (simp add: us_key_def)
  then show "filter (\<lambda>s. us_UserID s \<noteq> u) (put_row us_key (scheduling_update r old) t) = filter (\<lambda>s. us_UserID s \<noteq> u) t"
    unfolding put by (rule overwrite_others) (simp add: us_key_def assms(1))
  assume "pk us_key t"
  then have "s = old" if "s \<in> set t" "us_key s = us_key r" for s
    using old that by (auto simp: pk_def distinct_map inj_on_def)
  then show "extends state_kept t (put_row us_key (scheduling_update r old) t)"
    unfolding put by (intro extends_map_rows) (simp add: state_kept_def)
qed

lemma ReplayCard_cases:
  assumes "ReplayCard lib (review_view db) p u c = Inr (s, rdb)"
  obtains (nothing) "filter (\<lambda>r. rl_UserID r = u \<and> rl_CardID r = c) (cd_log db) = []" "db_states rdb = cd_states db"
  | (inserted) r where "us_key r = (u, c)" "row_of us_key (u, c) (cd_states db) = None" "db_states rdb = cd_states db @ [r]"
  | (updated) r old where "us_key r = (u, c)" "row_of us_key (u, c) (cd_states db) = Some old"
      "db_states rdb = put_row us_key (scheduling_update r old) (cd_states db)"
proof -
  have "db_states (review_view db) = cd_states db" "db_log (review_view db) = cd_log db" by (simp_all add: review_view_def)
  note v = this
  obtain rows where rows: "dbE (ListReviewLogForCard (review_view db) u c) = Inr rows"
    using assms unfolding ReplayCard_def bindE_eq_Inr by blast
  then have run: "(if rows = [] then Inr (zero_CardState, review_view db)
      else let logged = loggedReviews rows in
        bindE (fsrsE (replayStates lib p logged)) (\<lambda>(priors, final).
        bindE (writeReplayedState (review_view db) u c (last priors) final (lr_ReviewedAt (last logged)))
          (\<lambda>db'. Inr (final, db')))) = Inr (s, rdb)"
    using assms unfolding ReplayCard_def by simp
  show ?thesis
  proof (cases "rows = []")
    case True
    then have "set (sort_key log_order (filter (\<lambda>r. rl_UserID r = u \<and> rl_CardID r = c) (cd_log db))) = {}"
      using rows by (simp add: ListReviewLogForCard_def v)
    then have "filter (\<lambda>r. rl_UserID r = u \<and> rl_CardID r = c) (cd_log db) = []"
      by (simp only: set_sort set_empty)
    moreover have "db_states rdb = cd_states db" using run [unfolded if_P [OF True]] v(1) by auto
    ultimately show ?thesis by (rule nothing)
  next
    case False
    obtain lp final at where "writeReplayedState (review_view db) u c lp final at = Inr rdb"
      using run [unfolded if_not_P [OF False] Let_def bindE_eq_Inr split_beta] by auto
    then have "UpsertUserCardStateFromReplay (review_view db)
        (state_row u c (cs_Due final) (cs_Stability final) (cs_Difficulty final) (cs_State final) (cs_Reps final)
          (cs_Lapses final) (ElapsedDays lp at) (cs_ScheduledDays final) (cs_LearningSteps final) at) = Inr rdb"
      by (simp add: writeReplayedState_def)
    moreover have "us_key (state_row u c x1 x2 x3 x4 x5 x6 x7 x8 x9 x10) = (u, c)" for x1 x2 x3 x4 x5 x6 x7 x8 x9 x10
      by (simp add: state_row_def us_key_def)
    ultimately obtain r where r: "UpsertUserCardStateFromReplay (review_view db) r = Inr rdb" "us_key r = (u, c)" by blast
    show ?thesis
    proof (cases "row_of us_key (us_key r) (cd_states db)")
      case None
      with r have "db_states rdb = cd_states db @ [r]" by (auto simp: UpsertUserCardStateFromReplay_def v split: if_splits)
      then show ?thesis using None r(2) by (intro inserted [of r]) simp_all
    next
      case (Some old)
      with r have "db_states rdb = put_row us_key (scheduling_update r old) (cd_states db)"
        by (auto simp: UpsertUserCardStateFromReplay_def v split: if_splits)
      then show ?thesis using Some r(2) by (intro updated [of r old]) simp_all
    qed
  qed
qed

lemma frame_ReplayCard:
  assumes "ReplayCard lib (review_view db) p u c = Inr (s, rdb)"
  shows "content_frame u db (db\<lparr>cd_states := db_states rdb\<rparr>)"
  using assms
proof (cases rule: ReplayCard_cases)
  case nothing
  then show ?thesis by (simp add: content_frame_def)
next
  case (inserted r)
  then have "us_UserID r = u" by (simp add: us_key_def)
  then show ?thesis using inserted by (auto simp: content_frame_def frame_intros pk_snoc row_of_None)
next
  case (updated r old)
  then have "us_UserID r = u" "row_of us_key (us_key r) (cd_states db) = Some old" by (simp_all add: us_key_def)
  from put_state_frame [OF this] updated show ?thesis by (auto simp: content_frame_def frame_intros)
qed

section \<open>The steps of an import\<close>

lemma db_of_updates [simp]:
  "is_db (warn w st) = is_db st" "is_db (tally f st) = is_db st" "is_db (with_db db st) = db"
  "is_blobs (warn w st) = is_blobs st" "is_blobs (tally f st) = is_blobs st" "is_blobs (with_db db st) = is_blobs st"
  by (simp_all add: warn_def tally_def with_db_def)

lemma import_deck_cases:
  assumes "import_deck e u (ids, st) d = Inr (ids', st')"
  obtains (filtered) "ir_deck_IsFiltered d" "ids' = ids" "is_db st' = is_db st"
  | (created) dk db1 n db2 where "\<not> ir_deck_IsFiltered d" "row_of deck_name_key (u, ir_deck_Name d) (cd_decks (is_db st)) = None"
      "CreateDeckWithAccess (is_db st) (ie_now e) (fresh_id e st) u (ir_deck_Name d) (ir_deck_Description d) = Inr (dk, db1)"
      "SetDeckAnkiID db1 (ie_now e) (ir_deck_AnkiID d) (dk_ID dk) = Inr (n, db2)"
      "ids' = ids(ir_deck_AnkiID d \<mapsto> dk_ID dk)" "is_db st' = db2"
  | (reused) dk n db1 where "\<not> ir_deck_IsFiltered d" "row_of deck_name_key (u, ir_deck_Name d) (cd_decks (is_db st)) = Some dk"
      "SetDeckAnkiID (is_db st) (ie_now e) (ir_deck_AnkiID d) (dk_ID dk) = Inr (n, db1)"
      "ids' = ids(ir_deck_AnkiID d \<mapsto> dk_ID dk)" "is_db st' = db1"
proof (cases "ir_deck_IsFiltered d")
  case True
  with assms show ?thesis by (intro filtered) (auto simp: import_deck_def)
next
  case False
  show ?thesis
  proof (cases "GetDeckByOwnerAndName (is_db st) u (ir_deck_Name d)")
    case (Inl err)
    with assms False have "err = ErrNoRows" by (auto simp: import_deck_def split: content_error.splits)
    moreover from this Inl have "row_of deck_name_key (u, ir_deck_Name d) (cd_decks (is_db st)) = None"
      by (auto simp: GetDeckByOwnerAndName_def run_c_def one_row_def split: if_splits option.splits)
    ultimately show ?thesis using assms False Inl by (auto simp: import_deck_def bindE_eq_Inr intro!: created)
  next
    case (Inr dk)
    then have "row_of deck_name_key (u, ir_deck_Name d) (cd_decks (is_db st)) = Some dk"
      by (auto simp: GetDeckByOwnerAndName_def bindE_eq_Inr)
    with assms False Inr show ?thesis by (auto simp: import_deck_def bindE_eq_Inr intro!: reused)
  qed
qed

lemma frame_import_deck: "import_deck e u s d = Inr s' \<Longrightarrow> import_frame u (is_db (snd s)) (is_db (snd s'))"
proof -
  obtain ids st ids' st' where s: "s = (ids, st)" "s' = (ids', st')" by (metis prod.exhaust)
  assume "import_deck e u s d = Inr s'"
  then show ?thesis unfolding s
    by (elim import_deck_cases) (auto dest!: frame_CreateDeckWithAccess frame_SetDeckAnkiID intro: import_frame_trans)
qed

lemma frame_importDecks:
  "importDecks e u decks st = Inr (ids, st') \<Longrightarrow> import_frame u (is_db st) (is_db st')"
  unfolding importDecks_def by (drule imp.foldE_frame [where st = "is_db \<circ> snd" and u = u]) (auto dest: frame_import_deck)

lemma frame_import_field: "import_field e nt st f = Inr st' \<Longrightarrow> import_frame u (is_db st) (is_db st')"
  by (auto simp: import_field_def bindE_eq_Inr dest: frame_CreateImportedField)

lemma frame_import_template: "import_template e nt s t = Inr s' \<Longrightarrow> import_frame u (is_db (snd s)) (is_db (snd s'))"
  by (auto simp: import_template_def bindE_eq_Inr split_beta dest: frame_CreateImportedTemplate)

lemma import_notetype_cases:
  assumes "import_notetype e u (ids, st) nt = Inr (ids', st')"
  obtains (created) row db1 st2 templates st3 where
      "row_of type_name_key (u, in_Name nt) (cd_noteTypes (is_db st)) = None"
      "CreateImportedNoteType (is_db st) (fresh_id e st) u (in_Name nt) (in_CSS nt) (in_IsCloze nt) (in_SortFieldIdx nt) (in_AnkiID nt)
         = Inr (row, db1)"
      "foldE (import_field e (nt_ID row)) (with_db db1 st) (in_Fields nt) = Inr st2"
      "foldE (import_template e (nt_ID row)) (Map.empty, st2) (in_Templates nt) = Inr (templates, st3)"
      "ids' = ids(in_AnkiID nt \<mapsto> \<lparr>imt_ID = nt_ID row, imt_Templates = templates, imt_IsCloze = in_IsCloze nt\<rparr>)"
      "is_db st' = is_db st3"
  | (reused) row where "row_of type_name_key (u, in_Name nt) (cd_noteTypes (is_db st)) = Some row"
      "ids' = ids(in_AnkiID nt \<mapsto> \<lparr>imt_ID = nt_ID row,
         imt_Templates = foldl (\<lambda>m t. m(tp_Ordinal t \<mapsto> tp_ID t)) Map.empty
           (sort_key tp_Ordinal (filter (\<lambda>t. tp_NoteTypeID t = nt_ID row) (cd_templates (is_db st)))),
         imt_IsCloze = nt_IsCloze row\<rparr>)" "is_db st' = is_db st"
proof (cases "GetNoteTypeByOwnerAndName (is_db st) u (in_Name nt)")
  case (Inl err)
  with assms have "err = ErrNoRows" by (auto simp: import_notetype_def split: content_error.splits)
  moreover from this Inl have "row_of type_name_key (u, in_Name nt) (cd_noteTypes (is_db st)) = None"
    by (auto simp: GetNoteTypeByOwnerAndName_def run_c_def one_row_def split: if_splits option.splits)
  ultimately show ?thesis using assms Inl by (auto simp: import_notetype_def bindE_eq_Inr intro!: created)
next
  case (Inr row)
  then have "row_of type_name_key (u, in_Name nt) (cd_noteTypes (is_db st)) = Some row"
    by (auto simp: GetNoteTypeByOwnerAndName_def bindE_eq_Inr)
  with assms Inr show ?thesis
    by (auto simp: import_notetype_def bindE_eq_Inr ListTemplatesForNoteType_def split: if_splits intro!: reused)
qed

lemma frame_import_notetype: "import_notetype e u s nt = Inr s' \<Longrightarrow> import_frame u (is_db (snd s)) (is_db (snd s'))"
proof -
  obtain ids st ids' st' where s: "s = (ids, st)" "s' = (ids', st')" by (metis prod.exhaust)
  assume "import_notetype e u s nt = Inr s'"
  from this [unfolded s] show ?thesis
  proof (cases rule: import_notetype_cases)
    case (created row db1 st2 templates st3)
    have "import_frame u db1 (is_db st2)"
      using imp.foldE_frame [OF created(3), where st = is_db and u = u] by (auto dest: frame_import_field)
    moreover have "import_frame u (is_db st2) (is_db st3)"
      using imp.foldE_frame [OF created(4), where st = "is_db \<circ> snd" and u = u] by (auto dest: frame_import_template)
    ultimately show ?thesis
      using frame_CreateImportedNoteType [OF created(2), of u] created(6) by (auto simp: s intro: import_frame_trans)
  qed (simp add: s)
qed

lemma frame_importNoteTypes:
  "importNoteTypes e u nts st = Inr (ids, st') \<Longrightarrow> import_frame u (is_db st) (is_db st')"
  unfolding importNoteTypes_def by (drule imp.foldE_frame [where st = "is_db \<circ> snd" and u = u]) (auto dest: frame_import_notetype)

lemma import_note_cases:
  assumes "import_note e u deckIDs typeIDs (ids, st) n = Inr (ids', st')"
  obtains (skipped) "typeIDs (ir_note_NoteTypeAnkiID n) = None \<or> deckIDs (ir_note_HomeDeckAnkiID n) = None" "ids' = ids" "is_db st' = is_db st"
  | (created) nt d row db1 where "typeIDs (ir_note_NoteTypeAnkiID n) = Some nt" "deckIDs (ir_note_HomeDeckAnkiID n) = Some d"
      "row_of guid_key (u, ir_note_Guid n) (cd_notes (is_db st)) = None"
      "CreateImportedNote (is_db st) (fresh_id e st) (ir_note_Guid n) (ir_note_Fields n) (ir_note_Tags n)
         (ir_note_Checksum n) (ir_note_Created n) (ir_note_Modified n) (ir_note_AnkiID n) u (imt_ID nt) d = Inr (row, db1)"
      "ids' = ids(ir_note_AnkiID n \<mapsto> n_ID row)" "is_db st' = db1"
  | (updated) nt d row k db1 where "typeIDs (ir_note_NoteTypeAnkiID n) = Some nt" "deckIDs (ir_note_HomeDeckAnkiID n) = Some d"
      "row_of guid_key (u, ir_note_Guid n) (cd_notes (is_db st)) = Some row"
      "UpdateImportedNote (is_db st) (ir_note_Fields n) (ir_note_Tags n) (ir_note_Checksum n) (imt_ID nt)
             (ir_note_Modified n) (ir_note_AnkiID n) (n_ID row) u = Inr (k, db1)"
      "ids' = ids(ir_note_AnkiID n \<mapsto> n_ID row)" "is_db st' = db1"
proof (cases "typeIDs (ir_note_NoteTypeAnkiID n) = None \<or> deckIDs (ir_note_HomeDeckAnkiID n) = None")
  case True
  with assms show ?thesis by (intro skipped) (auto simp: import_note_def split: option.splits)
next
  case False
  then obtain nt d where td: "typeIDs (ir_note_NoteTypeAnkiID n) = Some nt" "deckIDs (ir_note_HomeDeckAnkiID n) = Some d" by auto
  show ?thesis
  proof (cases "GetNoteByOwnerAndGuid (is_db st) u (ir_note_Guid n)")
    case (Inl err)
    with assms td have "err = ErrNoRows" by (auto simp: import_note_def split: content_error.splits)
    moreover from this Inl have "row_of guid_key (u, ir_note_Guid n) (cd_notes (is_db st)) = None"
      by (auto simp: GetNoteByOwnerAndGuid_def run_c_def one_row_def split: if_splits option.splits)
    ultimately show ?thesis using assms td Inl by (auto simp: import_note_def bindE_eq_Inr intro!: created)
  next
    case (Inr row)
    then have "row_of guid_key (u, ir_note_Guid n) (cd_notes (is_db st)) = Some row"
      by (auto simp: GetNoteByOwnerAndGuid_def bindE_eq_Inr)
    with assms td Inr show ?thesis by (auto simp: import_note_def bindE_eq_Inr intro!: updated)
  qed
qed

lemma frame_import_note:
  "import_note e u deckIDs typeIDs s n = Inr s' \<Longrightarrow> content_frame u (is_db (snd s)) (is_db (snd s'))"
proof -
  obtain ids st ids' st' where s: "s = (ids, st)" "s' = (ids', st')" by (metis prod.exhaust)
  assume "import_note e u deckIDs typeIDs s n = Inr s'"
  then show ?thesis unfolding s
    by (elim import_note_cases) (auto dest: frame_CreateImportedNote frame_UpdateImportedNote)
qed

lemma frame_importNotes:
  "importNotes e u ns deckIDs typeIDs st = Inr (ids, st') \<Longrightarrow> content_frame u (is_db st) (is_db st')"
  unfolding importNotes_def by (drule cont.foldE_frame [where st = "is_db \<circ> snd" and u = u]) (auto dest: frame_import_note)

lemma import_card_cases:
  assumes "import_card e noteIDs typeOf homeOf deckIDs (out, st) c = Inr (out', st')"
  obtains (skipped) w where "plan_card noteIDs typeOf homeOf deckIDs c = Inl w" "out' = out" "is_db st' = is_db st"
  | (upserted) p i pos row db1 where "plan_card noteIDs typeOf homeOf deckIDs c = Inr p"
      "UpsertImportedCard (is_db st) i (cp_NoteID p) (cp_TemplateID p) (ir_card_Ordinal c) (cp_DeckID p) (ir_card_AnkiID c) pos
         = Inr (row, db1)"
      "IDByAnkiID out' = (IDByAnkiID out)(ir_card_AnkiID c \<mapsto> c_ID row)"
      "DeckByAnkiID out' = (DeckByAnkiID out)(ir_card_AnkiID c \<mapsto> cp_DeckID p)" "is_db st' = db1"
proof (cases "plan_card noteIDs typeOf homeOf deckIDs c")
  case (Inl w)
  with assms show ?thesis by (intro skipped [of w]) (auto simp: import_card_def)
next
  case (Inr p)
  have "is_db (if cp_Fallback p then warn w st else st) = is_db st" for w by simp
  with assms Inr show ?thesis
    by (auto simp: import_card_def bindE_eq_Inr Let_def intro!: upserted)
qed

lemma frame_import_card:
  "import_card e noteIDs typeOf homeOf deckIDs s c = Inr s' \<Longrightarrow> content_frame u (is_db (snd s)) (is_db (snd s'))"
proof -
  obtain out st out' st' where s: "s = (out, st)" "s' = (out', st')" by (metis prod.exhaust)
  assume "import_card e noteIDs typeOf homeOf deckIDs s c = Inr s'"
  then show ?thesis unfolding s by (elim import_card_cases) (auto dest: frame_UpsertImportedCard)
qed

lemma frame_importCards:
  "importCards e col noteIDs typeIDs deckIDs st = Inr (cards, st') \<Longrightarrow> content_frame u (is_db st) (is_db st')"
  unfolding importCards_def by (drule cont.foldE_frame [where st = "is_db \<circ> snd" and u = u]) (auto dest: frame_import_card)

lemma frame_seedDeckRetention:
  "seedDeckRetention e u irCards cards st = Inr st' \<Longrightarrow> content_frame u (is_db st) (is_db st')"
proof -
  have step: "seed_retention e u tallies s d = Inr t \<Longrightarrow> content_frame u (is_db s) (is_db t)" for tallies s d t
    by (auto simp: seed_retention_def Let_def bindE_eq_Inr split: sum.splits dest: frame_SeedDeckFsrsRetention)
  assume "seedDeckRetention e u irCards cards st = Inr st'"
  then obtain order tallies where "foldE (seed_retention e u tallies) st order = Inr st'"
    by (auto simp: seedDeckRetention_def split: prod.splits)
  from cont.foldE_frame [OF this, where st = is_db and u = u] step show ?thesis by blast
qed

lemma frame_import_review: "import_review e u c st r = Inr st' \<Longrightarrow> content_frame u (is_db st) (is_db st')"
  by (auto simp: import_review_def bindE_eq_Inr dest!: frame_InsertImportedReviewLog)

lemma frame_replay_imported:
  "replay_imported e u cards a c (cache, st) = Inr (cache', st') \<Longrightarrow> content_frame u (is_db st) (is_db st')"
  by (auto simp: replay_imported_def Let_def bindE_eq_Inr dest!: frame_ReplayCard)

lemma frame_import_card_reviews:
  "import_card_reviews e u reviews cards s a = Inr s' \<Longrightarrow> content_frame u (is_db (snd (snd s))) (is_db (snd (snd s')))"
proof -
  obtain has cache st where s: "s = (has, cache, st)" by (metis prod.exhaust)
  assume step: "import_card_reviews e u reviews cards s a = Inr s'"
  show ?thesis
  proof (cases "IDByAnkiID cards a")
    case None
    with step show ?thesis by (auto simp: s import_card_reviews_def)
  next
    case (Some c)
    with step obtain st1 cache2 st2 where
      "foldE (import_review e u c) st (filter (\<lambda>r. ir_rev_CardAnkiID r = a) reviews) = Inr st1"
      "replay_imported e u cards a c (cache, st1) = Inr (cache2, st2)" "snd (snd s') = st2"
      by (auto simp: s import_card_reviews_def bindE_eq_Inr)
    with cont.foldE_frame [OF this(1), where st = is_db and u = u] show ?thesis
      by (auto simp: s dest: frame_import_review frame_replay_imported intro: content_frame_trans)
  qed
qed

lemma frame_importReviews:
  "importReviews e u reviews cards st = Inr (has, st') \<Longrightarrow> content_frame u (is_db st) (is_db st')"
proof -
  assume "importReviews e u reviews cards st = Inr (has, st')"
  then obtain cache where "foldE (import_card_reviews e u reviews cards) (\<lambda>_. False, NewParamsCache, st)
      (dedup (map ir_rev_CardAnkiID reviews)) = Inr (has, cache, st')" by (auto simp: importReviews_def bindE_eq_Inr)
  from cont.foldE_frame [OF this, where st = "is_db \<circ> snd \<circ> snd" and u = u] show ?thesis
    by (auto dest: frame_import_card_reviews)
qed

lemma seed_state_cases:
  assumes "seed_state e u cardIDs has st c = Inr st'"
  obtains (kept) "is_db st' = is_db st" "has (ir_card_AnkiID c) \<or> cardIDs (ir_card_AnkiID c) = None \<or> \<not> hasState c
      \<or> ir_card_Type c < 0 \<or> ir_card_Type c > 3"
  | (seeded) i n where "cardIDs (ir_card_AnkiID c) = Some i"
      "SeedImportedUserCardState (is_db st) (seeded_row u i (ie_now e) c) = Inr (n, is_db st')"
  using assms by (auto simp: seed_state_def bindE_eq_Inr split: if_splits option.splits)

lemma frame_seed_state: "seed_state e u cardIDs has st c = Inr st' \<Longrightarrow> content_frame u (is_db st) (is_db st')"
  by (elim seed_state_cases) (auto simp: seeded_row_def Let_def dest!: frame_SeedImportedUserCardState [where u = u])

lemma frame_seedCardStates:
  "seedCardStates e u cards cardIDs has st = Inr st' \<Longrightarrow> content_frame u (is_db st) (is_db st')"
  unfolding seedCardStates_def by (drule cont.foldE_frame [where st = is_db and u = u]) (auto dest: frame_seed_state)

lemma frame_import_medium: "import_medium e deckIDs st m = Inr st' \<Longrightarrow> content_frame u (is_db st) (is_db st')"
proof -
  have step: "import_ref m s d = Inr t \<Longrightarrow> content_frame u (is_db s) (is_db t)" for s d t
    by (auto simp: import_ref_def bindE_eq_Inr dest: frame_CreateMediaRef)
  assume "import_medium e deckIDs st m = Inr st'"
  then obtain bs st1 where f: "foldE (import_ref m) (st\<lparr>is_blobs := bs\<rparr>) deckIDs = Inr st1" "is_db st' = is_db st1"
    by (auto simp: import_medium_def bindE_eq_Inr)
  from cont.foldE_frame [OF f(1), where st = is_db and u = u] step f(2) show ?thesis by simp
qed

lemma frame_importMedia: "importMedia e deckIDs media st = Inr st' \<Longrightarrow> content_frame u (is_db st) (is_db st')"
  unfolding importMedia_def by (drule cont.foldE_frame [where st = is_db and u = u]) (auto dest: frame_import_medium)

lemma Import_stages:
  assumes "Import e u col db bs = Inr (res, db', bs')"
  obtains st deckIDs st1 typeIDs st2 noteIDs st3 cards st4 st5 st5' has st6 st7 st8 where
    "is_db st = db" "is_blobs st = bs" "importDecks e u (irc_Decks col) st = Inr (deckIDs, st1)"
    "importNoteTypes e u (irc_NoteTypes col) st1 = Inr (typeIDs, st2)"
    "importNotes e u (irc_Notes col) deckIDs typeIDs st2 = Inr (noteIDs, st3)"
    "importCards e col noteIDs typeIDs deckIDs st3 = Inr (cards, st4)"
    "seedDeckRetention e u (irc_Cards col) cards st4 = Inr st5" "is_db st5' = is_db st5" "is_blobs st5' = is_blobs st5"
    "importReviews e u (irc_Reviews col) cards st5' = Inr (has, st6)"
    "seedCardStates e u (irc_Cards col) (IDByAnkiID cards) has st6 = Inr st7"
    "importMedia e (deck_list deckIDs (irc_Decks col)) (irc_Media col) st7 = Inr st8"
    "is_db st8 = db'" "is_blobs st8 = bs'" "is_result st8 = res"
proof -
  let ?st = "\<lparr>is_db = db, is_blobs = bs, is_next = 0, is_result = zero_ImportResult (map FromPackage (irc_Warnings col))\<rparr>"
  have lock: "lock_cards u ids s = Inr s' \<Longrightarrow> s' = s" for ids s s'
    by (auto simp: lock_cards_def bindE_eq_Inr split: if_splits)
  show ?thesis
    using assms unfolding Import_def Let_def bindE_eq_Inr
    by (elim exE conjE) (simp split: prod.splits add: bindE_eq_Inr, elim exE conjE, drule lock,
        rule that [of ?st]; (assumption | simp))
qed

section \<open>Whose rows an import may write\<close>

text \<open>
  From \<open>t\<close> to \<open>t'\<close> every row of \<open>t\<close> stays at its place; a row that is not the same row as before belongs to
  \<open>P\<close>, before and after; and so does every new row.
\<close>

definition own_rows_only :: "('r \<Rightarrow> bool) \<Rightarrow> 'r list \<Rightarrow> 'r list \<Rightarrow> bool" where
  "own_rows_only P t t' \<longleftrightarrow>
     (\<exists>t0 new. t' = t0 @ new \<and> list_all2 (\<lambda>r r'. r' = r \<or> P r \<and> P r') t t0 \<and> (\<forall>r\<in>set new. P r))"

lemma own_rows_only_refl [simp, intro]: "own_rows_only P t t"
  unfolding own_rows_only_def by (intro exI [of _ t] exI [of _ "[]"]) (simp add: list.rel_refl)

lemma own_rows_only_map_rows: "(\<And>r. r \<in> set t \<Longrightarrow> p r \<Longrightarrow> P r \<and> P (f r)) \<Longrightarrow> own_rows_only P t (map_rows p f t)"
  unfolding own_rows_only_def
  by (intro exI [of _ "map_rows p f t"] exI [of _ "[]"]) (auto simp: map_rows_def list_all2_conv_all_nth)

lemma own_rows_only_append: "(\<And>r. r \<in> set new \<Longrightarrow> P r) \<Longrightarrow> own_rows_only P t (t @ new)"
  unfolding own_rows_only_def by (intro exI [of _ t] exI [of _ new]) (simp add: list.rel_refl)

lemma own_rows_only_trans:
  assumes "own_rows_only P t t'" "own_rows_only P t' t''"
  shows "own_rows_only P t t''"
proof -
  define R where "R r r' \<longleftrightarrow> r' = r \<or> P r \<and> P r'" for r r'
  from assms obtain t0 new u0 w where t: "t' = t0 @ new" "list_all2 R t t0" "\<forall>r\<in>set new. P r"
    "t'' = u0 @ w" "list_all2 R t' u0" "\<forall>r\<in>set w. P r" unfolding own_rows_only_def R_def by blast
  from t(5) obtain a b where u0: "u0 = a @ b" "list_all2 R t0 a" "list_all2 R new b"
    unfolding t(1) list_all2_append1 by blast
  have "list_all2 (R OO R) t a" using t(2) u0(2) unfolding list.rel_compp by (rule relcomppI)
  then have a: "list_all2 R t a" by (rule list_all2_mono) (auto simp: R_def)
  have b: "\<forall>r\<in>set b. P r"
  proof
    fix r assume "r \<in> set b"
    then obtain i where "i < length b" "r = b ! i" by (auto simp: in_set_conv_nth)
    with u0(3) have "new ! i \<in> set new" "R (new ! i) r" by (simp_all add: list_all2_conv_all_nth)
    with t(3) show "P r" by (auto simp: R_def)
  qed
  from a b t(4,6) u0(1) show ?thesis unfolding own_rows_only_def R_def
    by (intro exI [of _ a] exI [of _ "b @ w"]) auto
qed

text \<open>The notes a package may write: those of the importing user whose guid is in the package.\<close>

definition imported_note :: "uuid \<Rightarrow> IrCollection \<Rightarrow> db_note \<Rightarrow> bool" where
  "imported_note u col n \<longleftrightarrow> n_OwnerID n = u \<and> n_Guid n \<in> ir_note_Guid ` set (irc_Notes col)"

definition imported_notes :: "uuid \<Rightarrow> IrCollection \<Rightarrow> content_db \<Rightarrow> uuid set" where
  "imported_notes u col db = n_ID ` {n \<in> set (cd_notes db). imported_note u col n}"

definition own_decks :: "uuid \<Rightarrow> content_db \<Rightarrow> uuid set" where
  "own_decks u db = dk_ID ` {d \<in> set (cd_decks db). dk_OwnerID d = u}"

text \<open>
  Other rows are as they were, to the last column: other people's decks; the rights on every deck there was; all
  note types with their fields and templates; other people's notes and those the package does not name; the cards
  of all these notes; every entry of every deck's media. New rows go to decks of the user, to note types that are new.
\<close>

definition others_untouched :: "uuid \<Rightarrow> IrCollection \<Rightarrow> content_db \<Rightarrow> content_db \<Rightarrow> bool" where
  "others_untouched u col db db' \<longleftrightarrow>
     own_rows_only (\<lambda>d. dk_OwnerID d = u) (cd_decks db) (cd_decks db')
     \<and> (\<exists>new. cd_access db' = cd_access db @ new \<and> (\<forall>a\<in>set new. da_DeckID a \<notin> dk_ID ` set (cd_decks db)))
     \<and> (\<exists>new. cd_noteTypes db' = cd_noteTypes db @ new \<and> (\<forall>t\<in>set new. nt_OwnerID t = u))
     \<and> (\<exists>new. cd_fields db' = cd_fields db @ new \<and> (\<forall>f\<in>set new. fd_NoteTypeID f \<notin> nt_ID ` set (cd_noteTypes db)))
     \<and> (\<exists>new. cd_templates db' = cd_templates db @ new \<and> (\<forall>t\<in>set new. tp_NoteTypeID t \<notin> nt_ID ` set (cd_noteTypes db)))
     \<and> own_rows_only (imported_note u col) (cd_notes db) (cd_notes db')
     \<and> own_rows_only (\<lambda>c. c_NoteID c \<in> imported_notes u col db') (cd_cards db) (cd_cards db')
     \<and> (\<exists>new. cd_media db' = cd_media db @ new \<and> (\<forall>m\<in>set new. mr_DeckID m \<in> own_decks u db'))"

text \<open>What the decks' pass has done so far, from the database it began with.\<close>

definition decks_stage :: "uuid \<Rightarrow> content_db \<Rightarrow> deck_ids \<Rightarrow> content_db \<Rightarrow> bool" where
  "decks_stage u db0 ids db \<longleftrightarrow>
     own_rows_only (\<lambda>d. dk_OwnerID d = u) (cd_decks db0) (cd_decks db) \<and> pk dk_ID (cd_decks db)
     \<and> dk_ID ` set (cd_decks db0) \<subseteq> dk_ID ` set (cd_decks db)
     \<and> (\<exists>new. cd_access db = cd_access db0 @ new \<and> (\<forall>a\<in>set new. da_DeckID a \<notin> dk_ID ` set (cd_decks db0)))
     \<and> ran ids \<subseteq> own_decks u db
     \<and> cd_noteTypes db = cd_noteTypes db0 \<and> cd_fields db = cd_fields db0 \<and> cd_templates db = cd_templates db0
     \<and> cd_notes db = cd_notes db0 \<and> cd_cards db = cd_cards db0 \<and> cd_media db = cd_media db0"

lemma map_rows_key:
  assumes "\<And>r. k (f r) = k r"
  shows "k ` set (map_rows p f t) = k ` set t"
proof -
  have "map k (map_rows p f t) = map k t" by (simp add: map_rows_def assms)
  then show ?thesis by (metis list.set_map)
qed

lemma map_rows_filter_key:
  assumes "\<And>r. k (f r) = k r" "\<And>r. q (f r) = q r"
  shows "k ` {r \<in> set (map_rows p f t). q r} = k ` {r \<in> set t. q r}"
proof -
  have "map k (filter q (map_rows p f t)) = map k (filter q t)" using assms by (induction t) (simp_all add: map_rows_def)
  from arg_cong [OF this, of set] show ?thesis by simp
qed

lemma CreateDeckWithAccess_rows:
  assumes "CreateDeckWithAccess db now i u name desc = Inr (dk, db1)"
  obtains a where "da_DeckID a = dk_ID dk" "dk_OwnerID dk = u" "dk_ID dk \<notin> dk_ID ` set (cd_decks db)"
    "db1 = db\<lparr>cd_decks := cd_decks db @ [dk], cd_access := cd_access db @ [a]\<rparr>"
proof -
  from assms obtain db0 where c: "CreateDeck db now i u name desc = Inr (dk, db0)" and g: "GrantFullDeckAccess db0 (dk_ID dk) u = Inr db1"
    by (auto simp: CreateDeckWithAccess_def bindE_eq_Inr)
  from g have "db1 = db0\<lparr>cd_access := cd_access db0 @ [access_row (dk_ID dk) u all_flags]\<rparr>"
    by (auto simp: GrantFullDeckAccess_def insert_access_def bindE_eq_Inr split: if_splits)
  moreover from c have "dk_OwnerID dk = u" "dk_ID dk \<notin> dk_ID ` set (cd_decks db)" "db0 = db\<lparr>cd_decks := cd_decks db @ [dk]\<rparr>"
    by (auto simp: CreateDeck_def bindE_eq_Inr Let_def row_of_None split: if_splits)
  moreover have "da_DeckID (access_row (dk_ID dk) u all_flags) = dk_ID dk" by (simp add: access_row_def)
  ultimately show thesis by (intro that) simp_all
qed

lemma SetDeckAnkiID_stage:
  assumes "SetDeckAnkiID db now a i = Inr (n, db')" "pk dk_ID (cd_decks db)" "i \<in> own_decks u db"
  shows "own_rows_only (\<lambda>d. dk_OwnerID d = u) (cd_decks db) (cd_decks db')" "pk dk_ID (cd_decks db')"
    "dk_ID ` set (cd_decks db') = dk_ID ` set (cd_decks db)" "own_decks u db' = own_decks u db"
    "db' = db\<lparr>cd_decks := cd_decks db'\<rparr>"
proof -
  let ?p = "\<lambda>d. dk_ID d = i \<and> dk_AnkiID d = None"
  let ?f = "\<lambda>d. d\<lparr>dk_AnkiID := Some a, dk_ModifiedAt := pg_timestamp now\<rparr>"
  from assms(1) have db': "db' = db\<lparr>cd_decks := map_rows ?p ?f (cd_decks db)\<rparr>"
    by (auto simp: SetDeckAnkiID_def Let_def)
  have own: "dk_OwnerID d = u" if "d \<in> set (cd_decks db)" "dk_ID d = i" for d
    using assms(2,3) that by (auto simp: own_decks_def pk_def distinct_map inj_on_def)
  show "own_rows_only (\<lambda>d. dk_OwnerID d = u) (cd_decks db) (cd_decks db')"
    unfolding db' using own by (auto intro!: own_rows_only_map_rows)
  show "pk dk_ID (cd_decks db')" unfolding db' using assms(2) by (simp add: pk_map_rows)
  show "dk_ID ` set (cd_decks db') = dk_ID ` set (cd_decks db)" unfolding db' by (simp add: map_rows_key)
  show "own_decks u db' = own_decks u db" unfolding db' own_decks_def by (simp add: map_rows_filter_key)
  show "db' = db\<lparr>cd_decks := cd_decks db'\<rparr>" unfolding db' by simp
qed

lemma decks_stage_step:
  assumes st: "decks_stage u db0 ids (is_db st)" and step: "import_deck e u (ids, st) d = Inr (ids', st')"
  shows "decks_stage u db0 ids' (is_db st')"
  using step
proof (cases rule: import_deck_cases)
  case filtered
  with st show ?thesis by (simp add: decks_stage_def)
next
  case (created dk db1 n db2)
  from CreateDeckWithAccess_rows [OF created(3)] obtain acc where acc: "da_DeckID acc = dk_ID dk" "dk_OwnerID dk = u"
    "dk_ID dk \<notin> dk_ID ` set (cd_decks (is_db st))"
    "db1 = (is_db st)\<lparr>cd_decks := cd_decks (is_db st) @ [dk], cd_access := cd_access (is_db st) @ [acc]\<rparr>" .
  then have db1: "cd_decks db1 = cd_decks (is_db st) @ [dk]" "dk_OwnerID dk = u" "dk_ID dk \<notin> dk_ID ` set (cd_decks (is_db st))"
    by simp_all
  have own1: "own_decks u db1 = insert (dk_ID dk) (own_decks u (is_db st))"
    using db1(1,2) by (auto simp: own_decks_def)
  have pk1: "pk dk_ID (cd_decks db1)" 
    unfolding db1(1) pk_snoc using st db1(3) by (simp add: decks_stage_def) (metis image_eqI)
  note two = SetDeckAnkiID_stage [OF created(4) pk1, of u]
  have "own_rows_only (\<lambda>d. dk_OwnerID d = u) (cd_decks db0) (cd_decks db1)"
    unfolding db1(1) using st db1(2)
    by (intro own_rows_only_trans [OF _ own_rows_only_append]) (simp_all add: decks_stage_def)
  with two own1 have "own_rows_only (\<lambda>d. dk_OwnerID d = u) (cd_decks db0) (cd_decks db2)" by (auto intro: own_rows_only_trans)
  moreover from st have "dk_ID dk \<notin> dk_ID ` set (cd_decks db0)" using db1(3) by (auto simp: decks_stage_def)
  moreover have "cd_access db1 = cd_access (is_db st) @ [acc]"
    "cd_noteTypes db1 = cd_noteTypes (is_db st)" "cd_fields db1 = cd_fields (is_db st)" "cd_templates db1 = cd_templates (is_db st)"
    "cd_notes db1 = cd_notes (is_db st)" "cd_cards db1 = cd_cards (is_db st)" "cd_media db1 = cd_media (is_db st)" by (simp_all add: acc(4))
  moreover have "ran ids' \<subseteq> own_decks u db2" using st own1 two(4) created(5) by (auto simp: decks_stage_def ran_def split: if_splits)
  moreover have "cd_access db2 = cd_access db1" "cd_noteTypes db2 = cd_noteTypes db1" "cd_fields db2 = cd_fields db1"
    "cd_templates db2 = cd_templates db1" "cd_notes db2 = cd_notes db1" "cd_cards db2 = cd_cards db1" "cd_media db2 = cd_media db1"
    by (subst two(5), simp add: own1, simp)+
  ultimately show ?thesis using st two(2,3) own1 db1(1) acc(1) created(6) by (auto simp: decks_stage_def)
next
  case (reused dk n db1)
  then have dk: "dk_ID dk \<in> own_decks u (is_db st)"
    by (auto simp: own_decks_def deck_name_key_def dest!: row_of_Some)
  have pk1: "pk dk_ID (cd_decks (is_db st))" using st by (simp add: decks_stage_def)
  note two = SetDeckAnkiID_stage [OF reused(3) pk1 dk]
  have rest: "cd_access db1 = cd_access (is_db st)" "cd_noteTypes db1 = cd_noteTypes (is_db st)" "cd_fields db1 = cd_fields (is_db st)"
    "cd_templates db1 = cd_templates (is_db st)" "cd_notes db1 = cd_notes (is_db st)" "cd_cards db1 = cd_cards (is_db st)"
    "cd_media db1 = cd_media (is_db st)" by (subst two(5), simp)+
  have "ran ids' \<subseteq> own_decks u db1" using st dk two(4) reused(4) by (auto simp: decks_stage_def ran_def split: if_splits)
  with st two rest reused(5) show ?thesis by (auto simp: decks_stage_def intro: own_rows_only_trans)
qed

lemma decks_stage_all:
  assumes "importDecks e u decks st = Inr (ids, st')" "pk dk_ID (cd_decks (is_db st))"
  shows "decks_stage u (is_db st) ids (is_db st')"
proof -
  let ?I = "\<lambda>s. decks_stage u (is_db st) (fst s) (is_db (snd s))"
  have step: "?I s \<Longrightarrow> import_deck e u s x = Inr t \<Longrightarrow> ?I t" for s x t
    using decks_stage_step [of u "is_db st" "fst s" "snd s" e x "fst t" "snd t"] by simp
  have "?I (Map.empty, st)" using assms(2) by (simp add: decks_stage_def)
  from foldE_invariant [where I = ?I, OF assms(1) [unfolded importDecks_def] this step] show ?thesis by simp
qed

text \<open>The note types' pass.\<close>

definition types_stage :: "uuid \<Rightarrow> content_db \<Rightarrow> content_db \<Rightarrow> bool" where
  "types_stage u db0 db \<longleftrightarrow>
     (\<exists>new. cd_noteTypes db = cd_noteTypes db0 @ new \<and> (\<forall>t\<in>set new. nt_OwnerID t = u))
     \<and> (\<exists>new. cd_fields db = cd_fields db0 @ new \<and> (\<forall>f\<in>set new. fd_NoteTypeID f \<notin> nt_ID ` set (cd_noteTypes db0)))
     \<and> (\<exists>new. cd_templates db = cd_templates db0 @ new \<and> (\<forall>t\<in>set new. tp_NoteTypeID t \<notin> nt_ID ` set (cd_noteTypes db0)))
     \<and> cd_decks db = cd_decks db0 \<and> cd_access db = cd_access db0
     \<and> cd_notes db = cd_notes db0 \<and> cd_cards db = cd_cards db0 \<and> cd_media db = cd_media db0"

lemma types_stage_field:
  assumes "types_stage u db0 (is_db st)" "nt \<notin> nt_ID ` set (cd_noteTypes db0)" "import_field e nt st f = Inr st'"
  shows "types_stage u db0 (is_db st')"
  using assms by (auto simp: types_stage_def import_field_def CreateImportedField_def bindE_eq_Inr split: if_splits)

lemma types_stage_template:
  assumes "types_stage u db0 (is_db (snd s))" "nt \<notin> nt_ID ` set (cd_noteTypes db0)" "import_template e nt s t = Inr s'"
  shows "types_stage u db0 (is_db (snd s'))"
  using assms by (cases s) (auto simp: types_stage_def import_template_def CreateImportedTemplate_def bindE_eq_Inr split: if_splits)

lemma types_stage_step:
  assumes st: "types_stage u db0 (is_db (snd s))" and step: "import_notetype e u s nt = Inr s'"
  shows "types_stage u db0 (is_db (snd s'))"
proof -
  obtain ids st0 ids' st' where s: "s = (ids, st0)" "s' = (ids', st')" by (metis prod.exhaust)
  from step [unfolded s] show ?thesis
  proof (cases rule: import_notetype_cases)
    case (created row db1 st2 templates st3)
    then have row: "nt_OwnerID row = u" "nt_ID row \<notin> nt_ID ` set (cd_noteTypes (is_db st0))"
      "db1 = (is_db st0)\<lparr>cd_noteTypes := cd_noteTypes (is_db st0) @ [row]\<rparr>"
      by (auto simp: CreateImportedNoteType_def bindE_eq_Inr Let_def row_of_None split: if_splits)
    then have new: "nt_ID row \<notin> nt_ID ` set (cd_noteTypes db0)" using st s by (auto simp: types_stage_def)
    have "types_stage u db0 (is_db (with_db db1 st0))" using st s row(1,3) by (auto simp: types_stage_def)
    from foldE_invariant [where I = "\<lambda>st. types_stage u db0 (is_db st)", OF created(3) this types_stage_field [OF _ new]]
    have "types_stage u db0 (is_db (snd (Map.empty :: int \<Rightarrow> uuid option, st2)))" by simp
    from foldE_invariant [where I = "\<lambda>s. types_stage u db0 (is_db (snd s))", OF created(4) this types_stage_template [OF _ new]]
    show ?thesis using created(6) s by simp
  next
    case (reused row)
    with st s show ?thesis by simp
  qed
qed

lemma types_stage_all:
  assumes "importNoteTypes e u nts st = Inr (ids, st')"
  shows "types_stage u (is_db st) (is_db st')"
proof -
  have "types_stage u (is_db st) (is_db (snd (Map.empty :: type_ids, st)))" by (simp add: types_stage_def)
  from foldE_invariant [where I = "\<lambda>s. types_stage u (is_db st) (is_db (snd s))", OF assms [unfolded importNoteTypes_def] this types_stage_step]
  show ?thesis by simp
qed

text \<open>The notes' pass; \<open>deckIDs\<close> names decks of the user.\<close>

definition notes_stage :: "uuid \<Rightarrow> IrCollection \<Rightarrow> content_db \<Rightarrow> note_ids \<Rightarrow> content_db \<Rightarrow> bool" where
  "notes_stage u col db0 ids db \<longleftrightarrow>
     own_rows_only (imported_note u col) (cd_notes db0) (cd_notes db) \<and> pk n_ID (cd_notes db)
     \<and> ran ids \<subseteq> imported_notes u col db
     \<and> cd_decks db = cd_decks db0 \<and> cd_cards db = cd_cards db0 \<and> cd_media db = cd_media db0"

lemma CreateImportedNote_stage:
  assumes c: "CreateImportedNote db i guid fs ts ck cr md a u nt d = Inr (row, db')"
    and "pk dk_ID (cd_decks db)" "d \<in> own_decks u db" "guid \<in> ir_note_Guid ` set (irc_Notes col)" "pk n_ID (cd_notes db)"
  shows "imported_note u col row" "pk n_ID (cd_notes db')" "db' = db\<lparr>cd_notes := cd_notes db @ [row]\<rparr>"
proof -
  from c obtain dk nrow where dk: "row_of dk_ID d (cd_decks db) = Some dk" "n_OwnerID row = dk_OwnerID dk" "n_Guid row = guid"
    "row_of n_ID (n_ID row) (cd_notes db) = None" "db' = db\<lparr>cd_notes := cd_notes db @ [row]\<rparr>"
    by (auto simp: CreateImportedNote_def deck_with_def bindE_eq_Inr Let_def split: if_splits option.splits)
  from assms(3) obtain d' where d': "d' \<in> set (cd_decks db)" "dk_ID d' = d" "dk_OwnerID d' = u" by (auto simp: own_decks_def)
  with row_of_Some [OF dk(1)] assms(2) have "d' = dk" by (auto simp: pk_def distinct_map inj_on_def)
  with d' dk(2,3) assms(4) show "imported_note u col row" by (simp add: imported_note_def)
  show "pk n_ID (cd_notes db')" "db' = db\<lparr>cd_notes := cd_notes db @ [row]\<rparr>"
    using assms(5) dk(4,5) by (auto simp: pk_snoc row_of_None)
qed

lemma UpdateImportedNote_stage:
  assumes c: "UpdateImportedNote db fs ts ck nt md a i u = Inr (k, db')"
    and pk: "pk n_ID (cd_notes db)" and i: "i \<in> imported_notes u col db"
  shows "own_rows_only (imported_note u col) (cd_notes db) (cd_notes db')" "pk n_ID (cd_notes db')"
    "imported_notes u col db' = imported_notes u col db" "cd_decks db' = cd_decks db" "cd_cards db' = cd_cards db"
    "cd_media db' = cd_media db"
proof -
  let ?p = "\<lambda>n. n_ID n = i \<and> may_edit_deck db u (n_DeckID n)"
  let ?f = "\<lambda>n. n\<lparr>n_Fields := fs, n_Tags := ts, n_Checksum := ck, n_NoteTypeID := nt, n_ModifiedAt := pg_timestamp md, n_AnkiID := Some a\<rparr>"
  from c have db': "db' = db\<lparr>cd_notes := map_rows ?p ?f (cd_notes db)\<rparr>"
    by (auto simp: UpdateImportedNote_def Let_def bindE_eq_Inr split: if_splits)
  have own: "imported_note u col n" if "n \<in> set (cd_notes db)" "n_ID n = i" for n
    using pk i that by (auto simp: imported_notes_def pk_def distinct_map inj_on_def)
  then show "own_rows_only (imported_note u col) (cd_notes db) (cd_notes db')"
    unfolding db' by (auto intro!: own_rows_only_map_rows simp: imported_note_def)
  show "pk n_ID (cd_notes db')" unfolding db' using pk by (simp add: pk_map_rows)
  show "imported_notes u col db' = imported_notes u col db"
    unfolding db' imported_notes_def by (simp add: map_rows_filter_key imported_note_def)
qed (use c in \<open>auto simp: UpdateImportedNote_def Let_def bindE_eq_Inr split: if_splits\<close>)

lemma notes_stage_step:
  assumes st: "notes_stage u col db0 ids (is_db st)" and step: "import_note e u deckIDs typeIDs (ids, st) n = Inr (ids', st')"
    and n: "n \<in> set (irc_Notes col)" and decks: "pk dk_ID (cd_decks db0)" "ran deckIDs \<subseteq> own_decks u db0"
  shows "notes_stage u col db0 ids' (is_db st')"
  using step
proof (cases rule: import_note_cases)
  case skipped
  with st show ?thesis by simp
next
  case (created nt d row db1)
  have same: "cd_decks (is_db st) = cd_decks db0" "pk n_ID (cd_notes (is_db st))" using st by (simp_all add: notes_stage_def)
  have "d \<in> own_decks u (is_db st)" using created(2) decks(2) same(1) by (auto simp: own_decks_def ran_def)
  from CreateImportedNote_stage [OF created(4) _ this _ same(2), of col] decks(1) same(1) n
  have row: "imported_note u col row" "pk n_ID (cd_notes db1)" "db1 = (is_db st)\<lparr>cd_notes := cd_notes (is_db st) @ [row]\<rparr>"
    by auto
  have "own_rows_only (imported_note u col) (cd_notes db0) (cd_notes db1)"
    using st row(1) by (subst row(3)) (auto simp: notes_stage_def intro: own_rows_only_trans [OF _ own_rows_only_append])
  moreover have "imported_notes u col db1 = insert (n_ID row) (imported_notes u col (is_db st))"
    using row(1) by (subst row(3)) (auto simp: imported_notes_def)
  moreover have "cd_decks db1 = cd_decks db0" "cd_cards db1 = cd_cards db0" "cd_media db1 = cd_media db0"
    using st by (simp_all add: row(3) notes_stage_def)
  ultimately show ?thesis using st row(2) created(5,6) by (auto simp: notes_stage_def ran_def split: if_splits)
next
  case (updated nt d row k db1)
  have pk: "pk n_ID (cd_notes (is_db st))" using st by (simp add: notes_stage_def)
  have i: "n_ID row \<in> imported_notes u col (is_db st)"
    using updated(3) n by (auto simp: imported_notes_def imported_note_def guid_key_def dest!: row_of_Some)
  note two = UpdateImportedNote_stage [OF updated(4) pk i]
  have "ran ids' \<subseteq> imported_notes u col db1" using st i two(3) updated(5) by (auto simp: notes_stage_def ran_def split: if_splits)
  with st two updated(6) show ?thesis by (auto simp: notes_stage_def intro: own_rows_only_trans)
qed

lemma notes_stage_all:
  assumes "importNotes e u (irc_Notes col) deckIDs typeIDs st = Inr (ids, st')"
    and "pk dk_ID (cd_decks (is_db st))" "ran deckIDs \<subseteq> own_decks u (is_db st)" "pk n_ID (cd_notes (is_db st))"
  shows "notes_stage u col (is_db st) ids (is_db st')"
proof -
  let ?I = "\<lambda>s. notes_stage u col (is_db st) (fst s) (is_db (snd s))"
  have step: "n \<in> set (irc_Notes col) \<Longrightarrow> ?I s \<Longrightarrow> import_note e u deckIDs typeIDs s n = Inr t \<Longrightarrow> ?I t" for s n t
    using notes_stage_step [of u col "is_db st" "fst s" "snd s" e deckIDs typeIDs n "fst t" "snd t"] assms(2,3) by simp
  have "?I (Map.empty, st)" using assms(4) by (simp add: notes_stage_def)
  from foldE_invariant [where I = ?I, OF assms(1) [unfolded importNotes_def] this step] show ?thesis by simp
qed

text \<open>The cards' pass; \<open>noteIDs\<close> names notes in \<open>N\<close>.\<close>

definition cards_stage :: "uuid set \<Rightarrow> content_db \<Rightarrow> content_db \<Rightarrow> bool" where
  "cards_stage N db0 db \<longleftrightarrow> own_rows_only (\<lambda>c. c_NoteID c \<in> N) (cd_cards db0) (cd_cards db)
     \<and> cd_notes db = cd_notes db0 \<and> cd_media db = cd_media db0"

lemma UpsertImportedCard_stage:
  assumes c: "UpsertImportedCard db i n t ord d a pos = Inr (row, db')" and n: "n \<in> N"
  shows "cards_stage N db db'"
proof (cases "row_of card_place (n, ord) (cd_cards db)")
  case None
  with c have "c_NoteID row = n \<and> db' = db\<lparr>cd_cards := cd_cards db @ [row]\<rparr>"
    by (auto simp: UpsertImportedCard_def insert_card_def Let_def bindE_eq_Inr split: if_splits option.splits)
  with n show ?thesis by (auto simp: cards_stage_def intro: own_rows_only_append)
next
  case (Some old)
  with c have "db' = db\<lparr>cd_cards := map_rows (\<lambda>c. card_place c = (n, ord))
      (\<lambda>c. c\<lparr>c_DeckID := d, c_TemplateID := t, c_AnkiID := Some a, c_ImportDuePosition := pos\<rparr>) (cd_cards db)\<rparr>"
    by (auto simp: UpsertImportedCard_def bindE_eq_Inr Let_def split: if_splits)
  with n show ?thesis by (auto simp: cards_stage_def card_place_def intro: own_rows_only_map_rows)
qed

lemma cards_stage_step:
  assumes "cards_stage N db0 (is_db (snd s))" "ran noteIDs \<subseteq> N" "import_card e noteIDs typeOf homeOf deckIDs s c = Inr s'"
  shows "cards_stage N db0 (is_db (snd s'))"
proof -
  obtain out st out' st' where s: "s = (out, st)" "s' = (out', st')" by (metis prod.exhaust)
  from assms(3) [unfolded s] show ?thesis
  proof (cases rule: import_card_cases)
    case (skipped w)
    with assms(1) s show ?thesis by simp
  next
    case (upserted p i pos row db1)
    then have "cp_NoteID p \<in> N"
      using assms(2) by (auto simp: plan_card_def Let_def ran_def split: option.splits if_splits)
    from UpsertImportedCard_stage [OF upserted(2) this] assms(1) upserted(5) s show ?thesis
      by (auto simp: cards_stage_def intro: own_rows_only_trans)
  qed
qed

lemma cards_stage_all:
  assumes "importCards e col noteIDs typeIDs deckIDs st = Inr (cards, st')" "ran noteIDs \<subseteq> N"
  shows "cards_stage N (is_db st) (is_db st')"
proof -
  let ?I = "\<lambda>s. cards_stage N (is_db st) (is_db (snd s))"
  have "?I (z, st)" for z :: importedCards by (simp add: cards_stage_def)
  from foldE_invariant [where I = ?I, OF assms(1) [unfolded importCards_def] this cards_stage_step [OF _ assms(2)]]
  show ?thesis by simp
qed

text \<open>The later passes leave notes, cards and media alone, but for the media they add at last.\<close>

definition schedule_only :: "content_db \<Rightarrow> content_db \<Rightarrow> bool" where
  "schedule_only db db' \<longleftrightarrow> cd_notes db' = cd_notes db \<and> cd_cards db' = cd_cards db \<and> cd_media db' = cd_media db"

interpretation sched: frame_rule schedule_only
  by unfold_locales (simp_all add: schedule_only_def)

lemma sched_seedDeckRetention:
  assumes "seedDeckRetention e u irCards cards st = Inr st'"
  shows "schedule_only (is_db st) (is_db st')"
proof -
  have step: "seed_retention e u tallies s d = Inr t \<Longrightarrow> schedule_only (is_db s) (is_db t)" for tallies s d t
    by (auto simp: seed_retention_def SeedDeckFsrsRetention_def Let_def bindE_eq_Inr schedule_only_def split: sum.splits if_splits)
  from assms obtain order tallies where "foldE (seed_retention e u tallies) st order = Inr st'"
    by (auto simp: seedDeckRetention_def split: prod.splits)
  from sched.foldE_frame [OF this, where st = is_db] step show ?thesis by blast
qed

lemma sched_import_card_reviews:
  assumes "import_card_reviews e u reviews cards s a = Inr s'"
  shows "schedule_only (is_db (snd (snd s))) (is_db (snd (snd s')))"
proof -
  obtain has cache st where s: "s = (has, cache, st)" by (metis prod.exhaust)
  have review: "import_review e u c st r = Inr t \<Longrightarrow> schedule_only (is_db st) (is_db t)" for c st r t
    by (auto simp: import_review_def InsertImportedReviewLog_def bindE_eq_Inr schedule_only_def split: if_splits)
  have replay: "replay_imported e u cards a c (cache, st) = Inr (cache', t) \<Longrightarrow> schedule_only (is_db st) (is_db t)" for c cache st cache' t
    by (auto simp: replay_imported_def Let_def bindE_eq_Inr schedule_only_def)
  show ?thesis
  proof (cases "IDByAnkiID cards a")
    case None
    with assms show ?thesis by (auto simp: s import_card_reviews_def schedule_only_def)
  next
    case (Some c)
    with assms obtain st1 cache2 st2 where
      "foldE (import_review e u c) st (filter (\<lambda>r. ir_rev_CardAnkiID r = a) reviews) = Inr st1"
      "replay_imported e u cards a c (cache, st1) = Inr (cache2, st2)" "snd (snd s') = st2"
      by (auto simp: s import_card_reviews_def bindE_eq_Inr)
    with sched.foldE_frame [OF this(1), where st = is_db] show ?thesis
      by (auto simp: s dest: review replay intro: sched.frame_trans)
  qed
qed

lemma sched_importReviews:
  assumes "importReviews e u reviews cards st = Inr (has, st')"
  shows "schedule_only (is_db st) (is_db st')"
proof -
  from assms obtain cache where "foldE (import_card_reviews e u reviews cards) (\<lambda>_. False, NewParamsCache, st)
      (dedup (map ir_rev_CardAnkiID reviews)) = Inr (has, cache, st')" by (auto simp: importReviews_def bindE_eq_Inr)
  from sched.foldE_frame [OF this, where st = "is_db \<circ> snd \<circ> snd"] show ?thesis
    by (auto dest: sched_import_card_reviews)
qed

lemma sched_seedCardStates:
  assumes "seedCardStates e u cards cardIDs has st = Inr st'"
  shows "schedule_only (is_db st) (is_db st')"
proof -
  have seed: "SeedImportedUserCardState db r = Inr (n, db') \<Longrightarrow> schedule_only db db'" for db r n db'
    by (auto simp: SeedImportedUserCardState_def schedule_only_def split: if_splits)
  have step: "seed_state e u cardIDs has s c = Inr t \<Longrightarrow> schedule_only (is_db s) (is_db t)" for s c t
    by (elim seed_state_cases) (auto dest: seed intro: sched.frame_refl)
  from sched.foldE_frame [OF assms [unfolded seedCardStates_def], where st = is_db] step show ?thesis by blast
qed

definition media_stage :: "uuid set \<Rightarrow> content_db \<Rightarrow> content_db \<Rightarrow> bool" where
  "media_stage D db0 db \<longleftrightarrow> (\<exists>new. cd_media db = cd_media db0 @ new \<and> (\<forall>m\<in>set new. mr_DeckID m \<in> D))
     \<and> cd_notes db = cd_notes db0 \<and> cd_cards db = cd_cards db0"

lemma media_stage_step:
  assumes "import_medium e decks st m = Inr st'" "set decks \<subseteq> D" "media_stage D db0 (is_db st)"
  shows "media_stage D db0 (is_db st')"
proof -
  from assms(1) obtain bs st1 where f: "foldE (import_ref m) (st\<lparr>is_blobs := bs\<rparr>) decks = Inr st1" "is_db st' = is_db st1"
    by (auto simp: import_medium_def bindE_eq_Inr)
  have ref: "media_stage D db0 (is_db t)" if "d \<in> set decks" "media_stage D db0 (is_db s)" "import_ref m s d = Inr t" for s d t
    using that assms(2) by (auto simp: import_ref_def CreateMediaRef_def bindE_eq_Inr media_stage_def split: if_splits)
  have "media_stage D db0 (is_db (st\<lparr>is_blobs := bs\<rparr>))" using assms(3) by simp
  from foldE_invariant [where I = "\<lambda>s. media_stage D db0 (is_db s)", OF f(1) this ref] f(2) show ?thesis by simp
qed

lemma media_stage_all:
  assumes "importMedia e decks media st = Inr st'" "set decks \<subseteq> D"
  shows "media_stage D (is_db st) (is_db st')"
proof -
  have "media_stage D (is_db st) (is_db st)" by (simp add: media_stage_def)
  from foldE_invariant [where I = "\<lambda>s. media_stage D (is_db st) (is_db s)", OF assms(1) [unfolded importMedia_def] this media_stage_step [OF _ assms(2)]]
  show ?thesis by simp
qed

lemma schedule_onlyD: "schedule_only db db' \<Longrightarrow> cd_notes db' = cd_notes db \<and> cd_cards db' = cd_cards db \<and> cd_media db' = cd_media db"
  by (simp add: schedule_only_def)

lemma Import_import_frame:
  assumes "Import e u col db bs = Inr (res, db', bs')"
  shows "import_frame u db db'"
proof -
  note [trans] = import_frame_trans
  from assms obtain st deckIDs st1 typeIDs st2 noteIDs st3 cards st4 st5 st5' has st6 st7 st8 where
    "is_db st = db" "is_blobs st = bs" "importDecks e u (irc_Decks col) st = Inr (deckIDs, st1)"
    "importNoteTypes e u (irc_NoteTypes col) st1 = Inr (typeIDs, st2)"
    "importNotes e u (irc_Notes col) deckIDs typeIDs st2 = Inr (noteIDs, st3)"
    "importCards e col noteIDs typeIDs deckIDs st3 = Inr (cards, st4)"
    "seedDeckRetention e u (irc_Cards col) cards st4 = Inr st5" "is_db st5' = is_db st5" "is_blobs st5' = is_blobs st5"
    "importReviews e u (irc_Reviews col) cards st5' = Inr (has, st6)"
    "seedCardStates e u (irc_Cards col) (IDByAnkiID cards) has st6 = Inr st7"
    "importMedia e (deck_list deckIDs (irc_Decks col)) (irc_Media col) st7 = Inr st8"
    "is_db st8 = db'" "is_blobs st8 = bs'" "is_result st8 = res" by (rule Import_stages)
  note s = this
  have "import_frame u db (is_db st1)" using frame_importDecks [OF s(3)] s(1) by simp
  also have "import_frame u (is_db st1) (is_db st2)" by (rule frame_importNoteTypes [OF s(4)])
  also have "import_frame u (is_db st2) (is_db st3)" by (rule content_frameD [OF frame_importNotes [OF s(5)]])
  also have "import_frame u (is_db st3) (is_db st4)" by (rule content_frameD [OF frame_importCards [OF s(6)]])
  also have "import_frame u (is_db st4) (is_db st5')" using content_frameD [OF frame_seedDeckRetention [OF s(7)]] s(8) by simp
  also have "import_frame u (is_db st5') (is_db st6)" by (rule content_frameD [OF frame_importReviews [OF s(10)]])
  also have "import_frame u (is_db st6) (is_db st7)" by (rule content_frameD [OF frame_seedCardStates [OF s(11)]])
  also have "import_frame u (is_db st7) db'" using content_frameD [OF frame_importMedia [OF s(12)]] s(13) by simp
  finally show ?thesis .
qed

lemma Import_others_untouched:
  assumes imp: "Import e u col db bs = Inr (res, db', bs')" and wf: "content_wf db"
  shows "others_untouched u col db db'"
proof -
  from imp obtain st deckIDs st1 typeIDs st2 noteIDs st3 cards st4 st5 st5' has st6 st7 st8 where
    "is_db st = db" "is_blobs st = bs" "importDecks e u (irc_Decks col) st = Inr (deckIDs, st1)"
    "importNoteTypes e u (irc_NoteTypes col) st1 = Inr (typeIDs, st2)"
    "importNotes e u (irc_Notes col) deckIDs typeIDs st2 = Inr (noteIDs, st3)"
    "importCards e col noteIDs typeIDs deckIDs st3 = Inr (cards, st4)"
    "seedDeckRetention e u (irc_Cards col) cards st4 = Inr st5" "is_db st5' = is_db st5" "is_blobs st5' = is_blobs st5"
    "importReviews e u (irc_Reviews col) cards st5' = Inr (has, st6)"
    "seedCardStates e u (irc_Cards col) (IDByAnkiID cards) has st6 = Inr st7"
    "importMedia e (deck_list deckIDs (irc_Decks col)) (irc_Media col) st7 = Inr st8"
    "is_db st8 = db'" "is_blobs st8 = bs'" "is_result st8 = res" by (rule Import_stages)
  note s = this
  have pk: "pk dk_ID (cd_decks db)" "pk n_ID (cd_notes db)" using wf by (simp_all add: content_wf_def content_keys_def)
  have 1: "decks_stage u db deckIDs (is_db st1)" using decks_stage_all [OF s(3)] pk(1) s(1) by simp
  then have d1: "pk dk_ID (cd_decks (is_db st1))" "ran deckIDs \<subseteq> own_decks u (is_db st1)" "cd_notes (is_db st1) = cd_notes db"
    "cd_cards (is_db st1) = cd_cards db" "cd_media (is_db st1) = cd_media db" by (simp_all add: decks_stage_def)
  note 2 = types_stage_all [OF s(4)]
  then have d2: "cd_decks (is_db st2) = cd_decks (is_db st1)" "cd_notes (is_db st2) = cd_notes db"
    "cd_cards (is_db st2) = cd_cards db" "cd_media (is_db st2) = cd_media db" using d1 by (simp_all add: types_stage_def)
  have own2: "own_decks u (is_db st2) = own_decks u (is_db st1)" by (simp add: own_decks_def d2(1))
  have 3: "notes_stage u col (is_db st2) noteIDs (is_db st3)"
    using notes_stage_all [OF s(5)] d1(1,2) pk(2) by (simp add: own2 d2)
  define N where "N = imported_notes u col (is_db st3)"
  have "ran noteIDs \<subseteq> N" using 3 by (simp add: notes_stage_def N_def)
  note 4 = cards_stage_all [OF s(6) this]
  note late = schedule_onlyD [OF sched_seedDeckRetention [OF s(7)]] schedule_onlyD [OF sched_importReviews [OF s(10)]]
    schedule_onlyD [OF sched_seedCardStates [OF s(11)]]
  have "set (deck_list deckIDs (irc_Decks col)) \<subseteq> ran deckIDs"
    by (auto simp: deck_list_def map_filter_def ran_def)
  then have D: "set (deck_list deckIDs (irc_Decks col)) \<subseteq> own_decks u (is_db st1)" using d1(2) by blast
  note 5 = media_stage_all [OF s(12) D]
  have same: "content_frame u (is_db st2) (is_db st8)"
    using frame_importNotes [OF s(5)] frame_importCards [OF s(6), of u] frame_seedDeckRetention [OF s(7)]
      frame_importReviews [OF s(10), unfolded s(8)] frame_seedCardStates [OF s(11)] frame_importMedia [OF s(12), of u]
    by (blast intro: content_frame_trans)
  have tables: "cd_decks db' = cd_decks (is_db st2)" "cd_access db' = cd_access (is_db st2)" "cd_noteTypes db' = cd_noteTypes (is_db st2)"
    "cd_fields db' = cd_fields (is_db st2)" "cd_templates db' = cd_templates (is_db st2)"
    using same s(13) by (simp_all add: content_frame_def)
  have rows: "cd_notes db' = cd_notes (is_db st3)" "cd_cards db' = cd_cards (is_db st4)"
    "\<exists>new. cd_media db' = cd_media db @ new \<and> (\<forall>m\<in>set new. mr_DeckID m \<in> own_decks u (is_db st1))"
    using 3 4 5 late s(8,13) d2(4) by (simp_all add: cards_stage_def media_stage_def notes_stage_def)
  have "own_decks u db' = own_decks u (is_db st1)" by (simp add: own_decks_def tables(1) d2(1))
  moreover have "imported_notes u col db' = N" by (simp add: N_def imported_notes_def rows(1))
  moreover have "own_rows_only (imported_note u col) (cd_notes db) (cd_notes db')"
    using 3 d2(2) by (simp add: notes_stage_def rows(1))
  moreover have "own_rows_only (\<lambda>c. c_NoteID c \<in> N) (cd_cards db) (cd_cards db')"
    using 3 4 d2(3) by (simp add: cards_stage_def notes_stage_def rows(2))
  moreover have "own_rows_only (\<lambda>d. dk_OwnerID d = u) (cd_decks db) (cd_decks db')"
    "\<exists>new. cd_access db' = cd_access db @ new \<and> (\<forall>a\<in>set new. da_DeckID a \<notin> dk_ID ` set (cd_decks db))"
    "\<exists>new. cd_noteTypes db' = cd_noteTypes db @ new \<and> (\<forall>t\<in>set new. nt_OwnerID t = u)"
    "\<exists>new. cd_fields db' = cd_fields db @ new \<and> (\<forall>f\<in>set new. fd_NoteTypeID f \<notin> nt_ID ` set (cd_noteTypes db))"
    "\<exists>new. cd_templates db' = cd_templates db @ new \<and> (\<forall>t\<in>set new. tp_NoteTypeID t \<notin> nt_ID ` set (cd_noteTypes db))"
    using 1 2 by (simp_all add: decks_stage_def types_stage_def tables)
  ultimately show ?thesis unfolding others_untouched_def using rows(3) by simp
qed

text \<open>C37: whatever package is imported, and however often, nobody else's data changes and nothing is lost. Of the
  importing user's own notes only those whose guid the package names are written, with their cards; every other
  note and its cards, everybody else's decks, all note types with their fields and templates, the rights on every
  existing deck and all media entries are as they were to the last column, and what is added goes to the user's own
  decks and to new note types. Of the rows that are written, every deck keeps its owner, name and options, every
  note its deck, its release day and its identity, every card its identity. Other users' schedules stay as they
  are; the review log only gains imported rows of the importing user, who keeps the suspensions, buries and flags
  of every card.\<close>

theorem Import_keeps_data:
  assumes "Import e u col db bs = Inr (res, db', bs')" and "content_wf db"
  shows "import_frame u db db' \<and> others_untouched u col db db'"
  using Import_import_frame [OF assms(1)] Import_others_untouched [OF assms] by blast

section \<open>An example\<close>

text \<open>A package that adds a note to a deck with two, changes one, and brings a review, a schedule and a picture.\<close>

definition demo_ir_note :: "int \<Rightarrow> string \<Rightarrow> IrNote" where
  "demo_ir_note a guid = \<lparr>ir_note_AnkiID = a, ir_note_Guid = guid, ir_note_NoteTypeAnkiID = 1, ir_note_Fields = [''x''],
     ir_note_Tags = [], ir_note_Checksum = 0, ir_note_Created = 0, ir_note_Modified = 0, ir_note_HomeDeckAnkiID = 1\<rparr>"

definition demo_ir_card :: "int \<Rightarrow> int \<Rightarrow> IrDue \<Rightarrow> IrCard" where
  "demo_ir_card a n due = \<lparr>ir_card_AnkiID = a, ir_card_NoteAnkiID = n, ir_card_DeckAnkiID = 1, ir_card_FilteredDeckAnkiID = 0,
     ir_card_Ordinal = 0, ir_card_Type = 2, ir_card_Queue = 2, ir_card_Due = due, ir_card_IntervalSeconds = 86400,
     ir_card_Factor = 2500, ir_card_Reps = 3, ir_card_Lapses = 0, ir_card_Flag = 0, ir_card_Suspended = False,
     ir_card_Buried = False, ir_card_FSRS = None\<rparr>"

definition demo_package :: IrCollection where
  "demo_package = \<lparr>irc_Crt = 0, irc_SchemaVersion = 18,
     irc_NoteTypes = [\<lparr>in_AnkiID = 1, in_Name = ''Basic'', in_CSS = [], in_IsCloze = False, in_SortFieldIdx = 0,
        in_Fields = [\<lparr>if_Ordinal = 0, if_Name = ''Front'', if_Font = [], if_Size = 20, if_IsRTL = False, if_Sticky = False\<rparr>],
        in_Templates = []\<rparr>],
     irc_Decks = [\<lparr>ir_deck_AnkiID = 1, ir_deck_Name = ''A'', ir_deck_Description = [], ir_deck_IsFiltered = False\<rparr>],
     irc_Notes = [demo_ir_note 5 ''g1'', demo_ir_note 6 ''g3''],
     irc_Cards = [demo_ir_card 100 5 DueNone, demo_ir_card 101 6 (DueAt (5 * Day))],
     irc_Reviews = [\<lparr>ir_rev_AnkiID = 9, ir_rev_CardAnkiID = 100, ir_rev_ReviewedAt = Day, ir_rev_Rating = 3,
        ir_rev_IntervalSeconds = 86400, ir_rev_LastIntervalSeconds = 0, ir_rev_Factor = 0, ir_rev_DurationMs = 900, ir_rev_Kind = 1\<rparr>],
     irc_Media = [\<lparr>im_Index = ''0'', im_Filename = ''a.png'', im_SHA256 = replicate 64 CHR ''a'', im_SizeBytes = 3, im_Data = ''pic''\<rparr>],
     irc_Warnings = []\<rparr>"

definition demo_import_env :: import_env where
  "demo_import_env = \<lparr>ie_newID = (\<lambda>n. 1000 + of_nat n), ie_now = 10 * Day, ie_lib = demo_lib,
     ie_TypeByExtension = (\<lambda>x. if x = ''.png'' then ''image/png'' else []), ie_DetectContentType = (\<lambda>_. ''text/plain'')\<rparr>"

definition no_blobs :: blob_state where
  "no_blobs = \<lparr>bs_blobs = [], bs_avatars = [], bs_files = [], bs_refuses = (\<lambda>_. False), bs_fails = (\<lambda>_ _. False)\<rparr>"

definition import_counts :: "ImportResult \<Rightarrow> nat list" where
  "import_counts r = [DecksCreated r, DecksReused r, NoteTypesCreated r, NoteTypesReused r, NotesInserted r, NotesUpdated r,
     CardsUpserted r, ReviewsInserted r, CardStatesSeeded r, CardStatesReplayed r, MediaImported r]"

theorem Import_keeps_data_witness:
  "case Import demo_import_env 1 demo_package demo_content no_blobs of
     Inl _ \<Rightarrow> False
   | Inr (res, db, _) \<Rightarrow> import_counts res = [0, 1, 0, 1, 1, 1, 2, 1, 1, 1, 1] \<and> map c_ID (cd_cards db) = [30, 31, 32, 1002]
       \<and> import_frame 1 demo_content db \<and> others_untouched 1 demo_package demo_content db"
proof -
  have "case Import demo_import_env 1 demo_package demo_content no_blobs of
     Inl _ \<Rightarrow> False
   | Inr (res, db, _) \<Rightarrow> import_counts res = [0, 1, 0, 1, 1, 1, 2, 1, 1, 1, 1] \<and> map c_ID (cd_cards db) = [30, 31, 32, 1002]"
    by code_simp
  then show ?thesis using demo_content_wf(1) by (auto split: sum.splits prod.splits dest: Import_keeps_data)
qed

end
