(* ===== verification/Apkg_Reimport.thy ===== *)
theory Apkg_Reimport
  imports Apkg_Import_Lemmas
begin

text \<open>
  Importing a package again. Every id an import resolves is what a look-up in the finished database yields, so a
  second import of the package resolves the same ids and finds every row it would add.
\<close>

section \<open>What a stage resolves and settles\<close>

text \<open>
  A stage folds a step over the items of the package. If its output is an update that only depends on a later
  database, and each item leaves a fact about it, both hold of the stage.
\<close>

context frame_rule begin

lemma foldE_settled:
  assumes "foldE f a xs = Inr b" "I a"
    and "\<And>x s t. x \<in> set xs \<Longrightarrow> f s x = Inr t \<Longrightarrow> I s \<Longrightarrow>
      R (st s) (st t) \<and> I t \<and> (R (st t) z \<longrightarrow> out t = upd (out s) x \<and> settled x)"
  shows "R (st a) (st b) \<and> I b \<and> (R (st b) z \<longrightarrow> out b = foldl upd (out a) xs \<and> (\<forall>x\<in>set xs. settled x))"
  using assms
proof (induction xs arbitrary: a)
  case (Cons x xs)
  from Cons.prems(1) obtain c where c: "f a x = Inr c" "foldE f c xs = Inr b" by (auto simp: bindE_eq_Inr)
  have step: "R (st a) (st c) \<and> I c \<and> (R (st c) z \<longrightarrow> out c = upd (out a) x \<and> settled x)"
    using c(1) Cons.prems(2) by (intro Cons.prems(3)) auto
  have "R (st c) (st b) \<and> I b \<and> (R (st b) z \<longrightarrow> out b = foldl upd (out c) xs \<and> (\<forall>x\<in>set xs. settled x))"
    by (rule Cons.IH [OF c(2)]) (use step in blast, rule Cons.prems(3), auto)
  with step show ?case by (auto intro: frame_trans)
qed (simp add: frame_refl)

end

section \<open>Decks\<close>

definition deck_pers :: "content_db \<Rightarrow> content_db \<Rightarrow> bool" where
  "deck_pers a b \<longleftrightarrow> (\<forall>k r. row_of deck_name_key k (cd_decks a) = Some r \<longrightarrow>
     (\<exists>r'. row_of deck_name_key k (cd_decks b) = Some r' \<and> dk_ID r' = dk_ID r
        \<and> (dk_AnkiID r \<noteq> None \<longrightarrow> dk_AnkiID r' = dk_AnkiID r)))"

lemma deck_persD:
  assumes "deck_pers a b" "row_of deck_name_key k (cd_decks a) = Some r"
  obtains r' where "row_of deck_name_key k (cd_decks b) = Some r'" "dk_ID r' = dk_ID r"
    "dk_AnkiID r \<noteq> None \<longrightarrow> dk_AnkiID r' = dk_AnkiID r"
  using assms unfolding deck_pers_def by blast

lemma deck_pers_refl [simp]: "deck_pers a a"
  by (simp add: deck_pers_def)

lemma deck_pers_trans: "deck_pers a b \<Longrightarrow> deck_pers b c \<Longrightarrow> deck_pers a c"
  unfolding deck_pers_def by metis

interpretation dpers: frame_rule deck_pers
  by unfold_locales (simp, rule deck_pers_trans)

definition deck_upd :: "uuid \<Rightarrow> content_db \<Rightarrow> deck_ids \<Rightarrow> IrDeck \<Rightarrow> deck_ids" where
  "deck_upd u z ids d = (if ir_deck_IsFiltered d then ids
     else ids(ir_deck_AnkiID d := map_option dk_ID (row_of deck_name_key (u, ir_deck_Name d) (cd_decks z))))"

definition deck_settled :: "uuid \<Rightarrow> content_db \<Rightarrow> IrDeck \<Rightarrow> bool" where
  "deck_settled u z d \<longleftrightarrow> ir_deck_IsFiltered d
     \<or> (\<exists>r. row_of deck_name_key (u, ir_deck_Name d) (cd_decks z) = Some r \<and> dk_AnkiID r \<noteq> None)"

lemma SetDeckAnkiID_row:
  assumes "SetDeckAnkiID db now a i = Inr (n, db')"
  shows "row_of deck_name_key k (cd_decks db') = map_option
     (\<lambda>r. if dk_ID r = i \<and> dk_AnkiID r = None then r\<lparr>dk_AnkiID := Some a, dk_ModifiedAt := pg_timestamp now\<rparr> else r)
     (row_of deck_name_key k (cd_decks db))"
  using assms by (auto simp: SetDeckAnkiID_def Let_def row_of_map_rows deck_name_key_def)

lemma pers_SetDeckAnkiID: "SetDeckAnkiID db now a i = Inr (n, db') \<Longrightarrow> deck_pers db db'"
  by (auto simp: deck_pers_def SetDeckAnkiID_row)

lemma CreateDeckWithAccess_row:
  assumes "CreateDeckWithAccess db now i u name desc = Inr (d, db')"
  shows "cd_decks db' = cd_decks db @ [d]" "deck_name_key d = (u, name)" "dk_ID d = i" "row_of dk_ID i (cd_decks db) = None"
  using assms by (auto simp: CreateDeckWithAccess_def CreateDeck_def GrantFullDeckAccess_def insert_access_def
      deck_name_key_def bindE_eq_Inr Let_def split: if_splits)

lemma import_deck_resolves:
  assumes "import_deck e u s d = Inr s'"
  shows "deck_pers (is_db (snd s)) (is_db (snd s'))"
    and "deck_pers (is_db (snd s')) z \<Longrightarrow> fst s' = deck_upd u z (fst s) d \<and> deck_settled u z d"
    and "pk dk_ID (cd_decks (is_db (snd s))) \<Longrightarrow> pk dk_ID (cd_decks (is_db (snd s')))"
proof -
  obtain ids st ids' st' where s: "s = (ids, st)" "s' = (ids', st')" by (metis prod.exhaust)
  let ?k = "(u, ir_deck_Name d)"
  have found: "deck_settled u z d" "ids(ir_deck_AnkiID d \<mapsto> dk_ID r) = deck_upd u z ids d"
    if nf: "\<not> ir_deck_IsFiltered d" and r: "row_of deck_name_key ?k (cd_decks (is_db st')) = Some r"
      and a: "dk_AnkiID r \<noteq> None" and z: "deck_pers (is_db st') z" for r
  proof -
    obtain r' where "row_of deck_name_key ?k (cd_decks z) = Some r'" "dk_ID r' = dk_ID r" "dk_AnkiID r \<noteq> None \<longrightarrow> dk_AnkiID r' = dk_AnkiID r"
      by (rule deck_persD [OF z r])
    with nf a show "deck_settled u z d" "ids(ir_deck_AnkiID d \<mapsto> dk_ID r) = deck_upd u z ids d"
      by (auto simp: deck_settled_def deck_upd_def)
  qed
  have pkset: "pk dk_ID (cd_decks b) = pk dk_ID (cd_decks a)" if "SetDeckAnkiID a now x i = Inr (n, b)" for a now x i n b
  proof -
    have "map dk_ID (cd_decks b) = map dk_ID (cd_decks a)"
      using that by (auto simp: SetDeckAnkiID_def Let_def map_rows_def)
    then show ?thesis by (simp add: pk_def)
  qed
  from assms [unfolded s] have "deck_pers (is_db st) (is_db st') \<and> (deck_pers (is_db st') z \<longrightarrow> ids' = deck_upd u z ids d \<and> deck_settled u z d)
     \<and> (pk dk_ID (cd_decks (is_db st)) \<longrightarrow> pk dk_ID (cd_decks (is_db st')))"
  proof (cases rule: import_deck_cases)
    case filtered
    then show ?thesis by (simp add: deck_upd_def deck_settled_def)
  next
    case (created dk db1 n db2)
    note row = CreateDeckWithAccess_row [OF created(3)]
    have "row_of deck_name_key ?k (cd_decks db1) = Some dk" using created(2) row(1,2) by (simp add: row_of_append)
    then have "row_of deck_name_key ?k (cd_decks (is_db st')) = Some (if dk_AnkiID dk = None
        then dk\<lparr>dk_AnkiID := Some (ir_deck_AnkiID d), dk_ModifiedAt := pg_timestamp (ie_now e)\<rparr> else dk)"
      using SetDeckAnkiID_row [OF created(4)] created(6) by simp
    moreover have "deck_pers (is_db st) db1" by (auto simp: deck_pers_def row(1) row_of_append)
    moreover have "pk dk_ID (cd_decks (is_db st)) \<longrightarrow> pk dk_ID (cd_decks db1)"
      using row by (auto simp: pk_def row_of_None)
    ultimately show ?thesis
      using found [OF created(1)] pers_SetDeckAnkiID [OF created(4)] pkset [OF created(4)] created(5,6)
      by (auto intro: deck_pers_trans split: if_splits)
  next
    case (reused dk n db1)
    then have "row_of deck_name_key ?k (cd_decks (is_db st')) = Some (if dk_AnkiID dk = None
        then dk\<lparr>dk_AnkiID := Some (ir_deck_AnkiID d), dk_ModifiedAt := pg_timestamp (ie_now e)\<rparr> else dk)"
      using SetDeckAnkiID_row [OF reused(3)] by simp
    then show ?thesis
      using found [OF reused(1)] pers_SetDeckAnkiID [OF reused(3)] pkset [OF reused(3)] reused(4,5)
      by (auto split: if_splits)
  qed
  then show "deck_pers (is_db (snd s)) (is_db (snd s'))"
    and "deck_pers (is_db (snd s')) z \<Longrightarrow> fst s' = deck_upd u z (fst s) d \<and> deck_settled u z d"
    and "pk dk_ID (cd_decks (is_db (snd s))) \<Longrightarrow> pk dk_ID (cd_decks (is_db (snd s')))"
    by (simp_all add: s)
qed

lemma importDecks_resolves:
  assumes "importDecks e u ds st = Inr (ids, st')"
  shows "ids = foldl (deck_upd u (is_db st')) Map.empty ds" "\<forall>d\<in>set ds. deck_settled u (is_db st') d"
    and "pk dk_ID (cd_decks (is_db st)) \<Longrightarrow> pk dk_ID (cd_decks (is_db st'))"
proof -
  note f = assms [unfolded importDecks_def]
  have "deck_pers (is_db (snd (Map.empty :: deck_ids, st))) (is_db (snd (ids, st'))) \<and> True \<and> (deck_pers (is_db (snd (ids, st'))) (is_db st')
      \<longrightarrow> fst (ids, st') = foldl (deck_upd u (is_db st')) (fst (Map.empty, st)) ds \<and> (\<forall>d\<in>set ds. deck_settled u (is_db st') d))"
    by (rule dpers.foldE_settled [OF f, where st = "\<lambda>s. is_db (snd s)" and out = fst and I = "\<lambda>_. True"])
       (auto dest: import_deck_resolves(1,2))
  then show "ids = foldl (deck_upd u (is_db st')) Map.empty ds" "\<forall>d\<in>set ds. deck_settled u (is_db st') d" by auto
  show "pk dk_ID (cd_decks (is_db st'))" if "pk dk_ID (cd_decks (is_db st))"
    using foldE_invariant [OF f, where I = "\<lambda>s. pk dk_ID (cd_decks (is_db (snd s)))"] that
    by (auto dest: import_deck_resolves(3))
qed

text \<open>Where every deck is settled, a second import leaves the decks as they are.\<close>

lemma importDecks_again:
  assumes "importDecks e u ds st = Inr (ids, st')" "\<forall>d\<in>set ds. deck_settled u (is_db st) d" "pk dk_ID (cd_decks (is_db st))"
  shows "is_db st' = is_db st"
proof -
  have "is_db (snd (ids, st')) = is_db st"
  proof (rule foldE_invariant [OF assms(1) [unfolded importDecks_def], where I = "\<lambda>s. is_db (snd s) = is_db st"])
    fix s d s' assume d: "d \<in> set ds" and I: "is_db (snd s) = is_db st" and step: "import_deck e u s d = Inr s'"
    obtain ids st1 ids' st2 where s: "s = (ids, st1)" "s' = (ids', st2)" by (metis prod.exhaust)
    have settled: "deck_settled u (is_db st1) d" using assms(2) d I s by simp
    from step [unfolded s] have "is_db st2 = is_db st1"
    proof (cases rule: import_deck_cases)
      case (created dk db1 n db2)
      with settled show ?thesis by (simp add: deck_settled_def)
    next
      case (reused dk n db1)
      then have row: "dk \<in> set (cd_decks (is_db st1))" "dk_AnkiID dk \<noteq> None" using settled by (auto simp: deck_settled_def dest: row_of_Some)
      have "dk_AnkiID x \<noteq> None" if "x \<in> set (cd_decks (is_db st1))" "dk_ID x = dk_ID dk" for x
        using pk_unique [OF assms(3), of x dk] that row I s by auto
      then have "map_rows (\<lambda>d. dk_ID d = dk_ID dk \<and> dk_AnkiID d = None) f (cd_decks (is_db st1)) = cd_decks (is_db st1)" for f
        unfolding map_rows_def by (intro map_idI) metis
      then show ?thesis using reused(3,5) by (auto simp: SetDeckAnkiID_def Let_def)
    qed simp
    then show "is_db (snd s') = is_db st" using I s by simp
  qed simp
  then show ?thesis by simp
qed

section \<open>Note types\<close>

text \<open>Every template has a note type; an import keeps that, and adds no template to a type that is there.\<close>

definition tmpl_wf :: "content_db \<Rightarrow> bool" where
  "tmpl_wf db \<longleftrightarrow> tp_NoteTypeID ` set (cd_templates db) \<subseteq> nt_ID ` set (cd_noteTypes db)"

definition templates_of :: "content_db \<Rightarrow> uuid \<Rightarrow> template_row list" where
  "templates_of db i = filter (\<lambda>t. tp_NoteTypeID t = i) (cd_templates db)"

definition type_keep :: "content_db \<Rightarrow> content_db \<Rightarrow> bool" where
  "type_keep a b \<longleftrightarrow> cd_decks b = cd_decks a \<and> cd_access b = cd_access a
     \<and> (\<exists>new. cd_noteTypes b = cd_noteTypes a @ new)
     \<and> (\<forall>i\<in>nt_ID ` set (cd_noteTypes a). templates_of b i = templates_of a i)"

lemma type_keep_refl [simp]: "type_keep a a"
  by (simp add: type_keep_def)

lemma type_keep_trans:
  assumes "type_keep a b" "type_keep b c"
  shows "type_keep a c"
proof -
  from assms obtain v w where "cd_noteTypes b = cd_noteTypes a @ v" "cd_noteTypes c = cd_noteTypes b @ w" by (auto simp: type_keep_def)
  then show ?thesis using assms by (auto simp: type_keep_def)
qed

interpretation tkeep: frame_rule type_keep
  by unfold_locales (simp, rule type_keep_trans)

lemma type_keep_row:
  assumes "type_keep a b" "row_of type_name_key k (cd_noteTypes a) = Some r"
  shows "row_of type_name_key k (cd_noteTypes b) = Some r" "templates_of b (nt_ID r) = templates_of a (nt_ID r)"
  using assms row_of_Some [OF assms(2)] by (auto simp: type_keep_def row_of_append)

type_synonym type_sigs = "int \<Rightarrow> (bool \<times> int set) option"

definition sig :: "type_ids \<Rightarrow> type_sigs" where
  "sig ids a = map_option (\<lambda>t. (imt_IsCloze t, dom (imt_Templates t))) (ids a)"

definition row_sig :: "content_db \<Rightarrow> note_type \<Rightarrow> bool \<times> int set" where
  "row_sig z r = (nt_IsCloze r, tp_Ordinal ` set (templates_of z (nt_ID r)))"

definition type_upd :: "uuid \<Rightarrow> content_db \<Rightarrow> type_sigs \<Rightarrow> IrNoteType \<Rightarrow> type_sigs" where
  "type_upd u z s nt = s(in_AnkiID nt := map_option (row_sig z) (row_of type_name_key (u, in_Name nt) (cd_noteTypes z)))"

definition type_settled :: "uuid \<Rightarrow> content_db \<Rightarrow> IrNoteType \<Rightarrow> bool" where
  "type_settled u z nt \<longleftrightarrow> row_of type_name_key (u, in_Name nt) (cd_noteTypes z) \<noteq> None"

lemma sig_upd [simp]: "sig (ids(a \<mapsto> t)) = (sig ids)(a \<mapsto> (imt_IsCloze t, dom (imt_Templates t)))"
  by (auto simp: sig_def)

lemma dom_foldl_templates: "dom (foldl (\<lambda>m t. m(tp_Ordinal t \<mapsto> tp_ID t)) m ts) = dom m \<union> tp_Ordinal ` set ts"
  by (induction ts arbitrary: m) auto

lemma import_fields_db:
  assumes "foldE (import_field e i) st fs = Inr st'"
  shows "\<exists>new. is_db st' = (is_db st)\<lparr>cd_fields := cd_fields (is_db st) @ new\<rparr>"
proof (rule foldE_invariant [OF assms])
  show "\<exists>new. is_db st = (is_db st)\<lparr>cd_fields := cd_fields (is_db st) @ new\<rparr>" by (rule exI [of _ "[]"]) simp
next
  fix s f s' assume "\<exists>new. is_db s = (is_db st)\<lparr>cd_fields := cd_fields (is_db st) @ new\<rparr>" "import_field e i s f = Inr s'"
  then show "\<exists>new. is_db s' = (is_db st)\<lparr>cd_fields := cd_fields (is_db st) @ new\<rparr>"
    by (auto simp: import_field_def CreateImportedField_def bindE_eq_Inr split: if_splits)
qed

lemma import_templates_db:
  assumes "foldE (import_template e i) (m, st) ts = Inr (m', st')"
  shows "\<exists>new. is_db st' = (is_db st)\<lparr>cd_templates := cd_templates (is_db st) @ new\<rparr> \<and> (\<forall>t\<in>set new. tp_NoteTypeID t = i)
     \<and> dom m' = dom m \<union> tp_Ordinal ` set new"
proof -
  let ?I = "\<lambda>s. \<exists>new. is_db (snd s) = (is_db st)\<lparr>cd_templates := cd_templates (is_db st) @ new\<rparr>
     \<and> (\<forall>t\<in>set new. tp_NoteTypeID t = i) \<and> dom (fst s) = dom m \<union> tp_Ordinal ` set new"
  have "?I (m', st')"
  proof (rule foldE_invariant [OF assms])
    show "?I (m, st)" by (rule exI [of _ "[]"]) simp
  next
    fix s t s' assume "?I s" and step: "import_template e i s t = Inr s'"
    then obtain new where I: "is_db (snd s) = (is_db st)\<lparr>cd_templates := cd_templates (is_db st) @ new\<rparr>"
      "\<forall>t\<in>set new. tp_NoteTypeID t = i" "dom (fst s) = dom m \<union> tp_Ordinal ` set new" by blast
    from step obtain row where "is_db (snd s') = (is_db (snd s))\<lparr>cd_templates := cd_templates (is_db (snd s)) @ [row]\<rparr>"
      "tp_NoteTypeID row = i" "fst s' = (fst s)(tp_Ordinal row \<mapsto> tp_ID row)"
      by (auto simp: import_template_def CreateImportedTemplate_def bindE_eq_Inr split_beta split: if_splits)
    then show "?I s'" using I by (intro exI [of _ "new @ [row]"]) auto
  qed
  then show ?thesis by simp
qed

lemma import_notetype_resolves:
  assumes "import_notetype e u s nt = Inr s'" "tmpl_wf (is_db (snd s))"
  shows "type_keep (is_db (snd s)) (is_db (snd s')) \<and> tmpl_wf (is_db (snd s'))
    \<and> (type_keep (is_db (snd s')) z \<longrightarrow> sig (fst s') = type_upd u z (sig (fst s)) nt \<and> type_settled u z nt)"
proof -
  obtain ids st ids' st' where s: "s = (ids, st)" "s' = (ids', st')" by (metis prod.exhaust)
  let ?k = "(u, in_Name nt)"
  from assms(1) [unfolded s] show ?thesis
  proof (cases rule: import_notetype_cases)
    case (created row db1 st2 templates st3)
    have db1: "db1 = (is_db st)\<lparr>cd_noteTypes := cd_noteTypes (is_db st) @ [row]\<rparr>" and row: "type_name_key row = ?k"
      "nt_ID row \<notin> nt_ID ` set (cd_noteTypes (is_db st))" "nt_IsCloze row = in_IsCloze nt"
      using created(2) by (auto simp: CreateImportedNoteType_def bindE_eq_Inr Let_def type_name_key_def row_of_None split: if_splits)
    obtain nf where db2: "is_db st2 = db1\<lparr>cd_fields := nf\<rparr>" using import_fields_db [OF created(3)] by auto
    obtain new where db3: "is_db st3 = (is_db st2)\<lparr>cd_templates := cd_templates (is_db st2) @ new\<rparr>"
      "\<forall>t\<in>set new. tp_NoteTypeID t = nt_ID row" "dom templates = tp_Ordinal ` set new"
      using import_templates_db [OF created(4)] by auto
    have t': "cd_templates (is_db st') = cd_templates (is_db st) @ new" "cd_noteTypes (is_db st') = cd_noteTypes (is_db st) @ [row]"
      "cd_decks (is_db st') = cd_decks (is_db st)" "cd_access (is_db st') = cd_access (is_db st)"
      using created(6) db1 db2 db3(1) by simp_all
    have wf: "tp_NoteTypeID ` set (cd_templates (is_db st)) \<subseteq> nt_ID ` set (cd_noteTypes (is_db st))"
      using assms(2) by (simp add: s tmpl_wf_def)
    have "tp_NoteTypeID t \<noteq> nt_ID row" if "t \<in> set (cd_templates (is_db st))" for t
      using wf row(2) that by (metis image_eqI subsetD)
    then have "filter (\<lambda>t. tp_NoteTypeID t = nt_ID row) (cd_templates (is_db st)) = []" "filter (\<lambda>t. tp_NoteTypeID t = nt_ID row) new = new"
      using db3(2) by (simp_all add: filter_empty_conv filter_id_conv)
    then have mine: "templates_of (is_db st') (nt_ID row) = new" by (simp add: templates_of_def t')
    have "templates_of (is_db st') i = templates_of (is_db st) i" if "i \<in> nt_ID ` set (cd_noteTypes (is_db st))" for i
      using that row(2) db3(2) by (auto simp: templates_of_def t' filter_empty_conv)
    then have keep: "type_keep (is_db st) (is_db st')" using t' by (simp add: type_keep_def)
    have "tmpl_wf (is_db st')" using wf db3(2) by (auto simp: tmpl_wf_def t')
    moreover have "sig ids' = type_upd u z (sig ids) nt \<and> type_settled u z nt" if z: "type_keep (is_db st') z"
    proof -
      have "row_of type_name_key ?k (cd_noteTypes (is_db st')) = Some row" using created(1) row(1) by (simp add: t' row_of_append)
      from type_keep_row [OF z this] show ?thesis
        using mine row(3) db3(3) by (simp add: created(5) type_upd_def type_settled_def row_sig_def)
    qed
    ultimately show ?thesis using keep by (simp add: s)
  next
    case (reused row)
    have "sig ids' = type_upd u z (sig ids) nt \<and> type_settled u z nt" if z: "type_keep (is_db st') z"
    proof -
      have "row_of type_name_key ?k (cd_noteTypes (is_db st')) = Some row" using reused(1,3) by simp
      from type_keep_row [OF z this] show ?thesis
        by (simp add: reused(2,3) type_upd_def type_settled_def row_sig_def dom_foldl_templates templates_of_def)
    qed
    then show ?thesis using assms(2) reused(3) by (simp add: s)
  qed
qed

lemma importNoteTypes_resolves:
  assumes "importNoteTypes e u nts st = Inr (ids, st')" "tmpl_wf (is_db st)"
  shows "type_keep (is_db st) (is_db st')" "tmpl_wf (is_db st')"
    "sig ids = foldl (type_upd u (is_db st')) Map.empty nts" "\<forall>nt\<in>set nts. type_settled u (is_db st') nt"
proof -
  let ?s = "(Map.empty :: type_ids, st)" and ?z = "is_db st'"
  have "type_keep (is_db (snd ?s)) (is_db (snd (ids, st'))) \<and> tmpl_wf (is_db (snd (ids, st')))
     \<and> (type_keep (is_db (snd (ids, st'))) ?z \<longrightarrow> (sig \<circ> fst) (ids, st') = foldl (type_upd u ?z) ((sig \<circ> fst) ?s) nts
          \<and> (\<forall>nt\<in>set nts. type_settled u ?z nt))"
    using import_notetype_resolves
    by (intro tkeep.foldE_settled [OF assms(1) [unfolded importNoteTypes_def], where st = "\<lambda>s. is_db (snd s)"
          and I = "\<lambda>s. tmpl_wf (is_db (snd s))"]) (simp_all add: assms(2))
  moreover have "sig Map.empty = Map.empty" by (auto simp: sig_def)
  ultimately show "type_keep (is_db st) (is_db st')" "tmpl_wf (is_db st')"
    "sig ids = foldl (type_upd u (is_db st')) Map.empty nts" "\<forall>nt\<in>set nts. type_settled u (is_db st') nt" by auto
qed

lemma importNoteTypes_again:
  assumes "importNoteTypes e u nts st = Inr (ids, st')" "\<forall>nt\<in>set nts. type_settled u (is_db st) nt"
  shows "is_db st' = is_db st"
proof -
  have "is_db (snd (ids, st')) = is_db st"
  proof (rule foldE_invariant [OF assms(1) [unfolded importNoteTypes_def], where I = "\<lambda>s. is_db (snd s) = is_db st"])
    fix s nt s' assume nt: "nt \<in> set nts" and I: "is_db (snd s) = is_db st" and step: "import_notetype e u s nt = Inr s'"
    obtain ids st1 ids' st2 where s: "s = (ids, st1)" "s' = (ids', st2)" by (metis prod.exhaust)
    from step [unfolded s] show "is_db (snd s') = is_db st"
      using assms(2) nt I s by (cases rule: import_notetype_cases) (auto simp: type_settled_def)
  qed simp
  then show ?thesis by simp
qed

section \<open>Notes\<close>

text \<open>A second import changes no key: the rows stay, and of the notes, cards and schedules only contents change.\<close>

definition same_keys :: "content_db \<Rightarrow> content_db \<Rightarrow> bool" where
  "same_keys a b \<longleftrightarrow> cd_users b = cd_users a \<and> cd_decks b = cd_decks a \<and> cd_access b = cd_access a
     \<and> cd_noteTypes b = cd_noteTypes a \<and> cd_fields b = cd_fields a \<and> cd_templates b = cd_templates a
     \<and> cd_log b = cd_log a \<and> cd_params b = cd_params a \<and> cd_media b = cd_media a \<and> cd_flags b = cd_flags a
     \<and> map note_kept (cd_notes b) = map note_kept (cd_notes a) \<and> map card_kept (cd_cards b) = map card_kept (cd_cards a)
     \<and> map us_key (cd_states b) = map us_key (cd_states a)"

lemma same_keys_refl [simp]: "same_keys a a"
  by (simp add: same_keys_def)

lemma same_keys_trans: "same_keys a b \<Longrightarrow> same_keys b c \<Longrightarrow> same_keys a c"
  by (simp add: same_keys_def)

interpretation skeys: frame_rule same_keys
  by unfold_locales (simp, rule same_keys_trans)

lemma note_lookup:
  assumes "import_frame u a b" "row_of guid_key x (cd_notes a) = Some r"
  shows "\<exists>r'. row_of guid_key x (cd_notes b) = Some r' \<and> n_ID r' = n_ID r"
proof -
  have key: "guid_key = (\<lambda>(i, ow, g, d, c, rd). (ow, g)) \<circ> note_kept" by (auto simp: guid_key_def note_kept_def)
  have "extends note_kept (cd_notes a) (cd_notes b)" using assms(1) by (simp add: import_frame_def)
  from extends_row_of [OF this, of "\<lambda>(i, ow, g, d, c, rd). (ow, g)", folded key, OF assms(2)]
  show ?thesis by (auto simp: note_kept_def)
qed

lemma card_lookup:
  assumes "import_frame u a b" "row_of card_place x (cd_cards a) = Some r"
  shows "\<exists>r'. row_of card_place x (cd_cards b) = Some r' \<and> c_ID r' = c_ID r"
proof -
  have key: "card_place = (\<lambda>(i, p). p) \<circ> card_kept" by (auto simp: card_place_def card_kept_def)
  have "extends card_kept (cd_cards a) (cd_cards b)" using assms(1) by (simp add: import_frame_def)
  from extends_row_of [OF this, of "\<lambda>(i, p). p", folded key, OF assms(2)]
  show ?thesis by (auto simp: card_kept_def)
qed

definition note_upd :: "uuid \<Rightarrow> deck_ids \<Rightarrow> type_sigs \<Rightarrow> content_db \<Rightarrow> note_ids \<Rightarrow> IrNote \<Rightarrow> note_ids" where
  "note_upd u deckIDs sigs z ids n =
     (if sigs (ir_note_NoteTypeAnkiID n) = None \<or> deckIDs (ir_note_HomeDeckAnkiID n) = None then ids
      else ids(ir_note_AnkiID n := map_option n_ID (row_of guid_key (u, ir_note_Guid n) (cd_notes z))))"

definition note_settled :: "uuid \<Rightarrow> deck_ids \<Rightarrow> type_sigs \<Rightarrow> content_db \<Rightarrow> IrNote \<Rightarrow> bool" where
  "note_settled u deckIDs sigs z n \<longleftrightarrow> sigs (ir_note_NoteTypeAnkiID n) = None \<or> deckIDs (ir_note_HomeDeckAnkiID n) = None
     \<or> row_of guid_key (u, ir_note_Guid n) (cd_notes z) \<noteq> None"

text \<open>The decks a package resolves belong to the importer.\<close>

definition decks_owned :: "uuid \<Rightarrow> deck_ids \<Rightarrow> content_db \<Rightarrow> bool" where
  "decks_owned u deckIDs db \<longleftrightarrow> pk dk_ID (cd_decks db)
     \<and> (\<forall>i\<in>ran deckIDs. \<exists>d\<in>set (cd_decks db). dk_ID d = i \<and> dk_OwnerID d = u)"

lemma deck_upd_owned:
  assumes "i \<in> ran (foldl (deck_upd u z) ids ds)"
  shows "i \<in> ran ids \<or> (\<exists>d\<in>set (cd_decks z). dk_ID d = i \<and> dk_OwnerID d = u)"
  using assms
proof (induction ds arbitrary: ids)
  case (Cons d ds)
  then have "i \<in> ran (deck_upd u z ids d) \<or> (\<exists>d\<in>set (cd_decks z). dk_ID d = i \<and> dk_OwnerID d = u)" by simp
  moreover have "i \<in> ran ids \<or> (\<exists>d\<in>set (cd_decks z). dk_ID d = i \<and> dk_OwnerID d = u)" if "i \<in> ran (deck_upd u z ids d)"
    using that by (auto simp: deck_upd_def ran_def deck_name_key_def dest!: row_of_Some split: if_splits)
  ultimately show ?case by blast
qed simp

lemma sig_None [simp]: "sig ids a = None \<longleftrightarrow> ids a = None"
  by (simp add: sig_def)

lemma import_note_resolves:
  assumes "import_note e u deckIDs typeIDs s n = Inr s'" "decks_owned u deckIDs (is_db (snd s))"
  shows "content_frame u (is_db (snd s)) (is_db (snd s')) \<and> decks_owned u deckIDs (is_db (snd s'))
    \<and> (content_frame u (is_db (snd s')) z \<longrightarrow> fst s' = note_upd u deckIDs (sig typeIDs) z (fst s) n
         \<and> note_settled u deckIDs (sig typeIDs) z n)"
proof -
  obtain ids st ids' st' where s: "s = (ids, st)" "s' = (ids', st')" by (metis prod.exhaust)
  let ?k = "(u, ir_note_Guid n)"
  have frame: "content_frame u (is_db st) (is_db st')" using frame_import_note [OF assms(1)] by (simp add: s)
  then have owned: "decks_owned u deckIDs (is_db st')" using assms(2) by (simp add: s decks_owned_def content_frame_def)
  have found: "ids(ir_note_AnkiID n \<mapsto> n_ID r) = note_upd u deckIDs (sig typeIDs) z ids n \<and> note_settled u deckIDs (sig typeIDs) z n"
    if z: "content_frame u (is_db st') z" and r: "row_of guid_key ?k (cd_notes (is_db st')) = Some r"
      and td: "typeIDs (ir_note_NoteTypeAnkiID n) \<noteq> None" "deckIDs (ir_note_HomeDeckAnkiID n) \<noteq> None" for r
    using note_lookup [OF content_frameD [OF z] r] td by (auto simp: note_upd_def note_settled_def)
  from assms(1) [unfolded s] have "content_frame u (is_db st') z \<longrightarrow> ids' = note_upd u deckIDs (sig typeIDs) z ids n
         \<and> note_settled u deckIDs (sig typeIDs) z n"
  proof (cases rule: import_note_cases)
    case skipped
    then show ?thesis by (auto simp: note_upd_def note_settled_def)
  next
    case (created nt d row db1)
    from created(4) obtain dk a where dk: "deck_with (is_db st) d u (\<lambda>a. can_view a \<and> can_edit_content a) = Some (dk, a)"
      and row: "n_OwnerID row = dk_OwnerID dk" "n_Guid row = ir_note_Guid n" "cd_notes db1 = cd_notes (is_db st) @ [row]"
      by (auto simp: CreateImportedNote_def bindE_eq_Inr Let_def split: if_splits option.splits)
    have "dk \<in> set (cd_decks (is_db st))" "dk_ID dk = d" using deck_with_Some [OF dk] by auto
    moreover have "d \<in> ran deckIDs" using created(2) by (auto simp: ran_def)
    ultimately have "dk_OwnerID dk = u" using assms(2) by (auto simp: s decks_owned_def dest: pk_unique)
    then have "row_of guid_key ?k (cd_notes (is_db st')) = Some row"
      using created(3,6) row by (simp add: row_of_append guid_key_def)
    then show ?thesis using found created(1,2,5) by simp
  next
    case (updated nt d row k db1)
    have "row_of guid_key ?k (cd_notes db1) = map_option (\<lambda>r. if n_ID r = n_ID row \<and> may_edit_deck (is_db st) u (n_DeckID r)
        then r\<lparr>n_Fields := ir_note_Fields n, n_Tags := ir_note_Tags n, n_Checksum := ir_note_Checksum n, n_NoteTypeID := imt_ID nt,
          n_ModifiedAt := pg_timestamp (ir_note_Modified n), n_AnkiID := Some (ir_note_AnkiID n)\<rparr> else r)
        (row_of guid_key ?k (cd_notes (is_db st)))"
      using updated(4) by (auto simp: UpdateImportedNote_def bindE_eq_Inr Let_def guid_key_def row_of_map_rows split: if_splits)
    then obtain r where "row_of guid_key ?k (cd_notes (is_db st')) = Some r" "n_ID r = n_ID row"
      using updated(3,6) by auto
    then show ?thesis using found updated(1,2,5) by (metis option.distinct(1))
  qed
  then show ?thesis using frame owned by (simp add: s)
qed

lemma importNotes_resolves:
  assumes "importNotes e u ns deckIDs typeIDs st = Inr (ids, st')" "decks_owned u deckIDs (is_db st)"
    "content_frame u (is_db st') z"
  shows "ids = foldl (note_upd u deckIDs (sig typeIDs) z) Map.empty ns" "\<forall>n\<in>set ns. note_settled u deckIDs (sig typeIDs) z n"
proof -
  let ?s = "(Map.empty :: note_ids, st)"
  have "content_frame u (is_db (snd ?s)) (is_db (snd (ids, st'))) \<and> decks_owned u deckIDs (is_db (snd (ids, st')))
     \<and> (content_frame u (is_db (snd (ids, st'))) z \<longrightarrow> fst (ids, st') = foldl (note_upd u deckIDs (sig typeIDs) z) (fst ?s) ns
          \<and> (\<forall>n\<in>set ns. note_settled u deckIDs (sig typeIDs) z n))"
    using import_note_resolves
    by (intro cont.foldE_settled [OF assms(1) [unfolded importNotes_def], where st = "\<lambda>s. is_db (snd s)"
          and I = "\<lambda>s. decks_owned u deckIDs (is_db (snd s))"]) (simp_all add: assms(2))
  then show "ids = foldl (note_upd u deckIDs (sig typeIDs) z) Map.empty ns" "\<forall>n\<in>set ns. note_settled u deckIDs (sig typeIDs) z n"
    using assms(3) by simp_all
qed

lemma keys_UpdateImportedNote:
  "UpdateImportedNote db fs ts ck nt md a n u = Inr (k, db') \<Longrightarrow> same_keys db db'"
  by (auto simp: UpdateImportedNote_def bindE_eq_Inr Let_def map_rows_def note_kept_def same_keys_def split: if_splits)

lemma import_note_again:
  assumes "import_note e u deckIDs typeIDs s n = Inr s'" "note_settled u deckIDs (sig typeIDs) (is_db (snd s)) n"
  shows "same_keys (is_db (snd s)) (is_db (snd s'))"
proof -
  obtain ids st ids' st' where s: "s = (ids, st)" "s' = (ids', st')" by (metis prod.exhaust)
  from assms(1) [unfolded s] show ?thesis
    using assms(2) by (cases rule: import_note_cases) (auto simp: s note_settled_def dest: keys_UpdateImportedNote)
qed

text \<open>A stage in which every item is settled where it runs changes no key.\<close>

lemma stage_again:
  assumes "foldE f a xs = Inr b"
    and "\<And>x s t. x \<in> set xs \<Longrightarrow> f s x = Inr t \<Longrightarrow> content_frame u (st a) (st s) \<Longrightarrow> J s \<Longrightarrow>
      content_frame u (st s) (st t) \<and> same_keys (st s) (st t) \<and> J t"
    and "J a"
  shows "content_frame u (st a) (st b) \<and> same_keys (st a) (st b)"
proof -
  have "content_frame u (st a) (st b) \<and> same_keys (st a) (st b) \<and> J b"
  proof (rule foldE_invariant [OF assms(1), where I = "\<lambda>s. content_frame u (st a) (st s) \<and> same_keys (st a) (st s) \<and> J s"])
    fix s x t assume x: "x \<in> set xs" and I: "content_frame u (st a) (st s) \<and> same_keys (st a) (st s) \<and> J s" and "f s x = Inr t"
    then have "content_frame u (st s) (st t) \<and> same_keys (st s) (st t) \<and> J t" using assms(2) by blast
    with I show "content_frame u (st a) (st t) \<and> same_keys (st a) (st t) \<and> J t"
      by (blast intro: content_frame_trans same_keys_trans)
  qed (simp add: assms(3))
  then show ?thesis by simp
qed

lemma foldE_stable:
  assumes "foldE f a xs = Inr b" and "\<And>x s t. x \<in> set xs \<Longrightarrow> f s x = Inr t \<Longrightarrow> g s = g a \<Longrightarrow> g t = g s"
  shows "g b = g a"
proof (rule foldE_invariant [OF assms(1), where I = "\<lambda>s. g s = g a"])
  show "g t = g a" if "x \<in> set xs" "g s = g a" "f s x = Inr t" for s x t
    using assms(2) [OF that(1,3,2)] that(2) by simp
qed simp

lemma note_settled_mono:
  "note_settled u d t a n \<Longrightarrow> content_frame u a b \<Longrightarrow> note_settled u d t b n"
  using note_lookup [OF content_frameD] by (fastforce simp: note_settled_def)

lemma importNotes_again:
  assumes "importNotes e u ns deckIDs typeIDs st = Inr (ids, st')" "\<forall>n\<in>set ns. note_settled u deckIDs (sig typeIDs) (is_db st) n"
  shows "content_frame u (is_db st) (is_db st') \<and> same_keys (is_db st) (is_db st')"
  using stage_again [OF assms(1) [unfolded importNotes_def], where st = "\<lambda>s. is_db (snd s)" and J = "\<lambda>_. True" and u = u]
    assms(2) import_note_again frame_import_note note_settled_mono by fastforce

section \<open>Cards\<close>

definition place_of :: "note_ids \<Rightarrow> (int \<Rightarrow> importedNoteType) \<Rightarrow> (int \<Rightarrow> int) \<Rightarrow> deck_ids \<Rightarrow> IrCard \<Rightarrow> (uuid \<times> uuid) option" where
  "place_of noteIDs typeOf homeOf deckIDs c =
     (case plan_card noteIDs typeOf homeOf deckIDs c of Inl _ \<Rightarrow> None | Inr p \<Rightarrow> Some (cp_NoteID p, cp_DeckID p))"

lemma noteTypeOf_sig:
  assumes "sig t = sig t'"
  shows "imt_IsCloze (noteTypeOf t ns a) = imt_IsCloze (noteTypeOf t' ns a)
    \<and> dom (imt_Templates (noteTypeOf t ns a)) = dom (imt_Templates (noteTypeOf t' ns a))"
proof (cases "row_of ir_note_AnkiID a (rev ns)")
  case (Some n)
  have s: "sig t (ir_note_NoteTypeAnkiID n) = sig t' (ir_note_NoteTypeAnkiID n)" by (simp add: assms)
  show ?thesis
  proof (cases "t (ir_note_NoteTypeAnkiID n)")
    case None
    moreover from this s have "t' (ir_note_NoteTypeAnkiID n) = None" by (metis sig_None)
    ultimately show ?thesis by (simp add: noteTypeOf_def Some)
  next
    case t: (Some y)
    moreover from this s obtain y' where "t' (ir_note_NoteTypeAnkiID n) = Some y'" "imt_IsCloze y = imt_IsCloze y'"
      "dom (imt_Templates y) = dom (imt_Templates y')"
      by (cases "t' (ir_note_NoteTypeAnkiID n)") (auto simp: sig_def)
    ultimately show ?thesis by (simp add: noteTypeOf_def Some)
  qed
qed (simp add: noteTypeOf_def)

lemma place_of_sig:
  assumes "sig t = sig t'"
  shows "place_of noteIDs (noteTypeOf t ns) homeOf deckIDs c = place_of noteIDs (noteTypeOf t' ns) homeOf deckIDs c"
proof -
  let ?n = "noteTypeOf t ns (ir_card_NoteAnkiID c)" and ?n' = "noteTypeOf t' ns (ir_card_NoteAnkiID c)"
  define ord where "ord = (if imt_IsCloze ?n then 0 else ir_card_Ordinal c)"
  have cl: "imt_IsCloze ?n = imt_IsCloze ?n'" and d: "ord \<in> dom (imt_Templates ?n) \<longleftrightarrow> ord \<in> dom (imt_Templates ?n')"
    using noteTypeOf_sig [OF assms] by simp_all
  have ords: "ord = (if imt_IsCloze ?n' then 0 else ir_card_Ordinal c)" by (simp add: ord_def cl)
  show ?thesis
  proof (cases "imt_Templates ?n ord")
    case None
    moreover from this d have "imt_Templates ?n' ord = None" by auto
    ultimately show ?thesis
      unfolding place_of_def plan_card_def Let_def ord_def [symmetric] ords [symmetric] by (simp split: option.split)
  next
    case (Some i)
    moreover from this d obtain i' where "imt_Templates ?n' ord = Some i'" by auto
    ultimately show ?thesis
      unfolding place_of_def plan_card_def Let_def ord_def [symmetric] ords [symmetric] by (simp split: option.split)
  qed
qed

type_synonym card_ids = "(int \<Rightarrow> uuid option) \<times> (int \<Rightarrow> uuid option)"

abbreviation card_maps :: "importedCards \<Rightarrow> card_ids" where
  "card_maps out \<equiv> (IDByAnkiID out, DeckByAnkiID out)"

definition card_upd :: "(IrCard \<Rightarrow> (uuid \<times> uuid) option) \<Rightarrow> content_db \<Rightarrow> card_ids \<Rightarrow> IrCard \<Rightarrow> card_ids" where
  "card_upd pl z m c = (case pl c of None \<Rightarrow> m
     | Some (n, d) \<Rightarrow> ((fst m)(ir_card_AnkiID c := map_option c_ID (row_of card_place (n, ir_card_Ordinal c) (cd_cards z))),
                       (snd m)(ir_card_AnkiID c \<mapsto> d)))"

definition card_settled :: "(IrCard \<Rightarrow> (uuid \<times> uuid) option) \<Rightarrow> content_db \<Rightarrow> IrCard \<Rightarrow> bool" where
  "card_settled pl z c = (case pl c of None \<Rightarrow> True
     | Some (n, _) \<Rightarrow> row_of card_place (n, ir_card_Ordinal c) (cd_cards z) \<noteq> None)"

lemma UpsertImportedCard_row:
  assumes "UpsertImportedCard db i n t ord d a pos = Inr (c, db')"
  shows "row_of card_place (n, ord) (cd_cards db') = Some c"
    and "row_of card_place (n, ord) (cd_cards db) \<noteq> None \<Longrightarrow> same_keys db db'"
proof -
  let ?f = "\<lambda>c. c\<lparr>c_DeckID := d, c_TemplateID := t, c_AnkiID := Some a, c_ImportDuePosition := pos\<rparr>"
  have f: "card_place (?f r) = card_place r" "card_kept (?f r) = card_kept r" for r by (simp_all add: card_place_def card_kept_def)
  show "row_of card_place (n, ord) (cd_cards db') = Some c"
  proof (cases "row_of card_place (n, ord) (cd_cards db)")
    case None
    with assms show ?thesis
      by (auto simp: UpsertImportedCard_def insert_card_def bindE_eq_Inr Let_def row_of_append card_place_def split: if_splits)
  next
    case (Some old)
    then have "card_place old = (n, ord)" by (auto dest: row_of_Some)
    with assms Some show ?thesis
      by (auto simp: UpsertImportedCard_def bindE_eq_Inr Let_def row_of_map_rows f split: if_splits)
  qed
  assume "row_of card_place (n, ord) (cd_cards db) \<noteq> None"
  then obtain old where "row_of card_place (n, ord) (cd_cards db) = Some old" by auto
  with assms have "db' = db\<lparr>cd_cards := map_rows (\<lambda>c. card_place c = (n, ord)) ?f (cd_cards db)\<rparr>"
    by (auto simp: UpsertImportedCard_def bindE_eq_Inr Let_def split: if_splits)
  moreover have "map card_kept (map_rows p ?f cs) = map card_kept cs" for p cs by (simp add: map_rows_def f)
  ultimately show "same_keys db db'" by (simp add: same_keys_def)
qed

lemma import_card_resolves:
  assumes "import_card e noteIDs typeOf homeOf deckIDs s c = Inr s'"
  defines "pl \<equiv> place_of noteIDs typeOf homeOf deckIDs"
  shows "content_frame u (is_db (snd s)) (is_db (snd s'))
    \<and> (content_frame u (is_db (snd s')) z \<longrightarrow> card_maps (fst s') = card_upd pl z (card_maps (fst s)) c \<and> card_settled pl z c)"
    and "card_settled pl (is_db (snd s)) c \<Longrightarrow> same_keys (is_db (snd s)) (is_db (snd s'))"
proof -
  obtain out st out' st' where s: "s = (out, st)" "s' = (out', st')" by (metis prod.exhaust)
  have frame: "content_frame u (is_db st) (is_db st')" using frame_import_card [OF assms(1)] by (simp add: s)
  from assms(1) [unfolded s] have "(content_frame u (is_db st') z \<longrightarrow> card_maps out' = card_upd pl z (card_maps out) c \<and> card_settled pl z c)
      \<and> (card_settled pl (is_db st) c \<longrightarrow> same_keys (is_db st) (is_db st'))"
  proof (cases rule: import_card_cases)
    case (skipped w)
    then show ?thesis by (simp add: pl_def place_of_def card_upd_def card_settled_def)
  next
    case (upserted p i pos row db1)
    have pl: "pl c = Some (cp_NoteID p, cp_DeckID p)" using upserted(1) by (simp add: pl_def place_of_def)
    note row = UpsertImportedCard_row [OF upserted(2)]
    have "card_maps out' = card_upd pl z (card_maps out) c \<and> card_settled pl z c" if "content_frame u (is_db st') z"
      using card_lookup [OF content_frameD [OF that], of "(cp_NoteID p, ir_card_Ordinal c)" row] row(1) upserted(3-5) pl
      by (auto simp: card_upd_def card_settled_def)
    then show ?thesis using row(2) upserted(5) pl by (simp add: card_settled_def)
  qed
  with frame show "content_frame u (is_db (snd s)) (is_db (snd s'))
    \<and> (content_frame u (is_db (snd s')) z \<longrightarrow> card_maps (fst s') = card_upd pl z (card_maps (fst s)) c \<and> card_settled pl z c)"
    and "card_settled pl (is_db (snd s)) c \<Longrightarrow> same_keys (is_db (snd s)) (is_db (snd s'))"
    by (simp_all add: s)
qed

definition card_places :: "IrCollection \<Rightarrow> note_ids \<Rightarrow> type_ids \<Rightarrow> deck_ids \<Rightarrow> IrCard \<Rightarrow> (uuid \<times> uuid) option" where
  "card_places col noteIDs typeIDs deckIDs =
     place_of noteIDs (noteTypeOf typeIDs (irc_Notes col)) (homeDeckOf (irc_Notes col)) deckIDs"

lemma importCards_resolves:
  assumes "importCards e col noteIDs typeIDs deckIDs st = Inr (cards, st')" "content_frame u (is_db st') z"
  shows "card_maps cards = foldl (card_upd (card_places col noteIDs typeIDs deckIDs) z) (Map.empty, Map.empty) (irc_Cards col)"
    and "\<forall>c\<in>set (irc_Cards col). card_settled (card_places col noteIDs typeIDs deckIDs) z c"
proof -
  let ?s = "(\<lparr>IDByAnkiID = Map.empty, DeckByAnkiID = Map.empty, CountByDeck = \<lambda>_. 0\<rparr>, st)"
  let ?pl = "card_places col noteIDs typeIDs deckIDs"
  have "content_frame u (is_db (snd ?s)) (is_db (snd (cards, st'))) \<and> True
     \<and> (content_frame u (is_db (snd (cards, st'))) z \<longrightarrow>
          card_maps (fst (cards, st')) = foldl (card_upd ?pl z) (card_maps (fst ?s)) (irc_Cards col)
          \<and> (\<forall>c\<in>set (irc_Cards col). card_settled ?pl z c))"
    using import_card_resolves(1) unfolding card_places_def
    by (intro cont.foldE_settled [OF assms(1) [unfolded importCards_def], where st = "\<lambda>s. is_db (snd s)"
          and out = "\<lambda>s. card_maps (fst s)" and I = "\<lambda>_. True"]) simp_all
  then show "card_maps cards = foldl (card_upd ?pl z) (Map.empty, Map.empty) (irc_Cards col)"
    and "\<forall>c\<in>set (irc_Cards col). card_settled ?pl z c" using assms(2) by simp_all
qed

lemma card_settled_mono: "card_settled pl a c \<Longrightarrow> content_frame u a b \<Longrightarrow> card_settled pl b c"
  using card_lookup [OF content_frameD] by (fastforce simp: card_settled_def split: option.splits)

lemma importCards_again:
  assumes "importCards e col noteIDs typeIDs deckIDs st = Inr (cards, st')"
    "\<forall>c\<in>set (irc_Cards col). card_settled (card_places col noteIDs typeIDs deckIDs) (is_db st) c"
  shows "content_frame u (is_db st) (is_db st') \<and> same_keys (is_db st) (is_db st')"
proof -
  have step: "content_frame u (is_db (snd s)) (is_db (snd t)) \<and> same_keys (is_db (snd s)) (is_db (snd t)) \<and> True"
    if c: "c \<in> set (irc_Cards col)" and f: "import_card e noteIDs (noteTypeOf typeIDs (irc_Notes col)) (homeDeckOf (irc_Notes col)) deckIDs s c = Inr t"
      and s: "content_frame u (is_db st) (is_db (snd s))" for s c t
    using card_settled_mono [OF assms(2) [rule_format, OF c] s] import_card_resolves(2) [OF f] frame_import_card [OF f]
    by (simp add: card_places_def)
  show ?thesis
    using stage_again [OF assms(1) [unfolded importCards_def], where st = "\<lambda>s. is_db (snd s)" and J = "\<lambda>_. True" and u = u] step
    by simp
qed

section \<open>Retention\<close>

definition seed_settled :: "fsrs_lib \<Rightarrow> uuid \<Rightarrow> (uuid \<Rightarrow> (float64 \<times> nat) list option) \<Rightarrow> content_db \<Rightarrow> uuid \<Rightarrow> bool" where
  "seed_settled lib u tallies z d \<longleftrightarrow> row_of params_key (u, Some d) (cd_params z) \<noteq> None
     \<or> \<not> (case access_of z d u of None \<Rightarrow> False | Some r \<Rightarrow> can_view r \<and> can_study r)
     \<or> (\<exists>err. NewDefaultParams lib (best_tally (hd (the (tallies d))) (tl (the (tallies d)))) = Inl err)"

lemma SeedDeckFsrsRetention_again:
  assumes "SeedDeckFsrsRetention db u d v r = Inr db'"
  shows "row_of params_key (u, Some d) (cd_params db') \<noteq> None
      \<or> \<not> (case access_of db' d u of None \<Rightarrow> False | Some r \<Rightarrow> can_view r \<and> can_study r)"
    and "row_of params_key (u, Some d) (cd_params db) \<noteq> None
      \<or> \<not> (case access_of db d u of None \<Rightarrow> False | Some r \<Rightarrow> can_view r \<and> can_study r) \<Longrightarrow> db' = db"
  using assms by (auto simp: SeedDeckFsrsRetention_def bindE_eq_Inr row_of_append params_key_def access_of_def
      split: if_splits option.splits)

lemma seed_retention_step:
  assumes "seed_retention e u tallies s d = Inr t"
  shows "content_frame u (is_db s) (is_db t)" "seed_settled (ie_lib e) u tallies (is_db t) d"
    and "seed_settled (ie_lib e) u tallies (is_db s) d \<Longrightarrow> is_db t = is_db s"
proof -
  let ?best = "best_tally (hd (the (tallies d))) (tl (the (tallies d)))"
  have "content_frame u (is_db s) (is_db t) \<and> seed_settled (ie_lib e) u tallies (is_db t) d
     \<and> (seed_settled (ie_lib e) u tallies (is_db s) d \<longrightarrow> is_db t = is_db s)"
  proof (cases "NewDefaultParams (ie_lib e) ?best")
    case (Inl err)
    then have "is_db t = is_db s" using assms by (auto simp: seed_retention_def Let_def)
    then show ?thesis using Inl by (simp add: seed_settled_def)
  next
    case (Inr params)
    then have "SeedDeckFsrsRetention (is_db s) u d (wrap16 (par_version params)) ?best = Inr (is_db t)"
      using assms by (auto simp: seed_retention_def Let_def bindE_eq_Inr)
    from frame_SeedDeckFsrsRetention [OF this] SeedDeckFsrsRetention_again [OF this] Inr
    show ?thesis by (auto simp: seed_settled_def)
  qed
  then show "content_frame u (is_db s) (is_db t)" "seed_settled (ie_lib e) u tallies (is_db t) d"
    and "seed_settled (ie_lib e) u tallies (is_db s) d \<Longrightarrow> is_db t = is_db s" by simp_all
qed

lemma seed_settled_mono: "seed_settled lib u t a d \<Longrightarrow> content_frame u a b \<Longrightarrow> seed_settled lib u t b d"
proof -
  assume s: "seed_settled lib u t a d" and f: "content_frame u a b"
  from f obtain new where "cd_params b = cd_params a @ new" by (auto simp: content_frame_def import_frame_def)
  moreover have "access_of b d u = access_of a d u" using f by (simp add: content_frame_def access_of_def)
  ultimately show ?thesis using s by (auto simp: seed_settled_def row_of_append)
qed

definition retention_order :: "IrCard list \<Rightarrow> (int \<Rightarrow> uuid option) \<Rightarrow> uuid list \<times> (uuid \<Rightarrow> (float64 \<times> nat) list option)" where
  "retention_order irCards deckOf = foldl (tally_card deckOf) ([], Map.empty) irCards"

definition retention_settled :: "fsrs_lib \<Rightarrow> uuid \<Rightarrow> IrCard list \<Rightarrow> (int \<Rightarrow> uuid option) \<Rightarrow> content_db \<Rightarrow> bool" where
  "retention_settled lib u irCards deckOf z \<longleftrightarrow>
     (\<forall>d\<in>set (fst (retention_order irCards deckOf)). seed_settled lib u (snd (retention_order irCards deckOf)) z d)"

lemma seedDeckRetention_fold:
  "seedDeckRetention e u irCards cards st =
     foldE (seed_retention e u (snd (retention_order irCards (DeckByAnkiID cards)))) st
       (fst (retention_order irCards (DeckByAnkiID cards)))"
  by (simp add: seedDeckRetention_def retention_order_def split_beta)

lemma seedDeckRetention_settles:
  assumes "seedDeckRetention e u irCards cards st = Inr st'" "content_frame u (is_db st') z"
  shows "retention_settled (ie_lib e) u irCards (DeckByAnkiID cards) z"
proof -
  let ?t = "snd (retention_order irCards (DeckByAnkiID cards))"
  have "content_frame u (is_db st) (is_db st') \<and> True \<and> (content_frame u (is_db st') z \<longrightarrow> () = foldl (\<lambda>_ _. ()) () (fst (retention_order irCards (DeckByAnkiID cards)))
     \<and> (\<forall>d\<in>set (fst (retention_order irCards (DeckByAnkiID cards))). seed_settled (ie_lib e) u ?t z d))"
    by (rule cont.foldE_settled [OF assms(1) [unfolded seedDeckRetention_fold], where st = is_db and I = "\<lambda>_. True"])
       (auto dest: seed_retention_step intro: seed_settled_mono)
  then show ?thesis using assms(2) by (simp add: retention_settled_def)
qed

lemma seedDeckRetention_again:
  assumes "seedDeckRetention e u irCards cards st = Inr st'" "retention_settled (ie_lib e) u irCards (DeckByAnkiID cards) (is_db st)"
  shows "is_db st' = is_db st"
  by (rule foldE_stable [OF assms(1) [unfolded seedDeckRetention_fold], where g = is_db])
     (use assms(2) seed_retention_step(3) in \<open>auto simp: retention_settled_def\<close>)

section \<open>Reviews and schedules\<close>

lemma log_lookup: "content_frame u a b \<Longrightarrow> x \<in> anki_key ` set (cd_log a) \<Longrightarrow> x \<in> anki_key ` set (cd_log b)"
  by (auto simp: content_frame_def import_frame_def)

lemma state_lookup:
  assumes "content_frame u a b" "pk us_key (cd_states a)"
  shows "pk us_key (cd_states b)" "us_key ` set (cd_states a) \<subseteq> us_key ` set (cd_states b)"
proof -
  from assms show "pk us_key (cd_states b)" by (simp add: content_frame_def import_frame_def)
  from assms obtain v where v: "map state_kept (cd_states b) = map state_kept (cd_states a) @ v"
    by (auto simp: content_frame_def import_frame_def extends_def)
  have k: "map us_key t = map fst (map state_kept t)" for t by (simp add: state_kept_def)
  have "set (map us_key (cd_states b)) = set (map us_key (cd_states a)) \<union> set (map fst v)"
    unfolding k v by simp
  then show "us_key ` set (cd_states a) \<subseteq> us_key ` set (cd_states b)" by auto
qed

lemma import_review_step:
  assumes "import_review e u c st r = Inr st'"
  shows "(u, c, Some (ir_rev_AnkiID r)) \<in> anki_key ` set (cd_log (is_db st'))"
    and "(u, c, Some (ir_rev_AnkiID r)) \<in> anki_key ` set (cd_log (is_db st)) \<Longrightarrow> is_db st' = is_db st"
proof -
  from assms obtain row n where row: "anki_key row = (u, c, Some (ir_rev_AnkiID r))" "rl_AnkiID row \<noteq> None"
    and ins: "InsertImportedReviewLog (is_db st) row = Inr (n, is_db st')"
    by (auto simp: import_review_def bindE_eq_Inr anki_key_def intro!: that)
  show "(u, c, Some (ir_rev_AnkiID r)) \<in> anki_key ` set (cd_log (is_db st'))"
  proof (cases "anki_key row \<in> anki_key ` set (cd_log (is_db st))")
    case True
    then show ?thesis using ins row by (simp add: InsertImportedReviewLog_def split: if_splits)
  next
    case False
    then have "is_db st\<lparr>cd_log := cd_log (is_db st) @ [row]\<rparr> = is_db st'"
      using ins by (simp add: InsertImportedReviewLog_def split: if_splits)
    from this [symmetric] show ?thesis using row(1) by simp
  qed
  show "is_db st' = is_db st" if "(u, c, Some (ir_rev_AnkiID r)) \<in> anki_key ` set (cd_log (is_db st))"
    using ins row that by (simp add: InsertImportedReviewLog_def split: if_splits)
qed

lemma map_put_row: "k r \<in> k ` set t \<Longrightarrow> map k (put_row k r t) = map k t"
  by (auto simp: put_row_def map_rows_def)

lemma us_key_scheduling_update [simp]: "us_key (scheduling_update r old) = us_key old"
  by (simp add: scheduling_update_def us_key_def)

lemma replay_imported_step:
  assumes "replay_imported e u cards a c (cache, st) = Inr (cache', st')"
  shows "(u, c, x) \<in> anki_key ` set (cd_log (is_db st)) \<Longrightarrow> (u, c) \<in> us_key ` set (cd_states (is_db st'))"
    and "(u, c) \<in> us_key ` set (cd_states (is_db st)) \<Longrightarrow> same_keys (is_db st) (is_db st')"
proof -
  from assms obtain p s rdb where replay: "ReplayCard (ie_lib e) (review_view (is_db st)) p u c = Inr (s, rdb)"
    and st': "is_db st' = (is_db st)\<lparr>cd_states := db_states rdb\<rparr>"
    by (auto simp: replay_imported_def Let_def bindE_eq_Inr)
  from replay have "((u, c, x) \<in> anki_key ` set (cd_log (is_db st)) \<longrightarrow> (u, c) \<in> us_key ` set (db_states rdb))
     \<and> ((u, c) \<in> us_key ` set (cd_states (is_db st)) \<longrightarrow> map us_key (db_states rdb) = map us_key (cd_states (is_db st)))"
  proof (cases rule: ReplayCard_cases)
    case nothing
    then show ?thesis by (auto simp: anki_key_def filter_empty_conv)
  next
    case (inserted r)
    then show ?thesis by (force simp: row_of_None)
  next
    case (updated r old)
    then have old: "old \<in> set (cd_states (is_db st))" "us_key old = (u, c)" by (auto dest: row_of_Some)
    have here: "(u, c) \<in> us_key ` set (cd_states (is_db st))" by (rule image_eqI [of _ _ old]) (simp_all add: old)
    then have "us_key (scheduling_update r old) \<in> us_key ` set (cd_states (is_db st))" by (simp add: old)
    then have same: "map us_key (db_states rdb) = map us_key (cd_states (is_db st))" unfolding updated(3) by (rule map_put_row)
    from arg_cong [OF same, of set] here have "(u, c) \<in> us_key ` set (db_states rdb)" by simp
    then show ?thesis using same by simp
  qed
  then show "(u, c, x) \<in> anki_key ` set (cd_log (is_db st)) \<Longrightarrow> (u, c) \<in> us_key ` set (cd_states (is_db st'))"
    and "(u, c) \<in> us_key ` set (cd_states (is_db st)) \<Longrightarrow> same_keys (is_db st) (is_db st')"
    by (simp_all add: st' same_keys_def)
qed

definition history_settled :: "uuid \<Rightarrow> IrReview list \<Rightarrow> (int \<Rightarrow> uuid option) \<Rightarrow> content_db \<Rightarrow> int \<Rightarrow> bool" where
  "history_settled u reviews cardIDs z a = (case cardIDs a of None \<Rightarrow> True
     | Some c \<Rightarrow> (\<forall>r\<in>set reviews. ir_rev_CardAnkiID r = a \<longrightarrow> (u, c, Some (ir_rev_AnkiID r)) \<in> anki_key ` set (cd_log z))
         \<and> (u, c) \<in> us_key ` set (cd_states z))"

lemma history_settled_mono:
  "history_settled u reviews ids a x \<Longrightarrow> content_frame u a b \<Longrightarrow> pk us_key (cd_states a) \<Longrightarrow> history_settled u reviews ids b x"
  using state_lookup(2) [of u a b] by (fastforce simp: history_settled_def intro: log_lookup split: option.splits)

definition has_upd :: "(int \<Rightarrow> uuid option) \<Rightarrow> (int \<Rightarrow> bool) \<Rightarrow> int \<Rightarrow> (int \<Rightarrow> bool)" where
  "has_upd cardIDs has a = (if cardIDs a = None then has else has(a := True))"

lemma import_reviews_of_card:
  assumes "foldE (import_review e u c) st rs = Inr st'"
  shows "content_frame u (is_db st) (is_db st')"
    and "r \<in> set rs \<Longrightarrow> (u, c, Some (ir_rev_AnkiID r)) \<in> anki_key ` set (cd_log (is_db st'))"
    and "\<forall>r\<in>set rs. (u, c, Some (ir_rev_AnkiID r)) \<in> anki_key ` set (cd_log (is_db st)) \<Longrightarrow> is_db st' = is_db st"
proof -
  have "content_frame u (is_db st) (is_db st') \<and> True \<and> (content_frame u (is_db st') (is_db st') \<longrightarrow> () = foldl (\<lambda>_ _. ()) () rs
     \<and> (\<forall>r\<in>set rs. (u, c, Some (ir_rev_AnkiID r)) \<in> anki_key ` set (cd_log (is_db st'))))"
    by (rule cont.foldE_settled [OF assms(1), where st = is_db and I = "\<lambda>_. True"])
       (auto intro: frame_import_review dest: import_review_step(1) log_lookup)
  then show "content_frame u (is_db st) (is_db st')"
    and "r \<in> set rs \<Longrightarrow> (u, c, Some (ir_rev_AnkiID r)) \<in> anki_key ` set (cd_log (is_db st'))" by simp_all
  show "is_db st' = is_db st" if "\<forall>r\<in>set rs. (u, c, Some (ir_rev_AnkiID r)) \<in> anki_key ` set (cd_log (is_db st))"
    by (rule foldE_stable [OF assms, where g = is_db]) (use that import_review_step(2) in auto)
qed

lemma import_card_reviews_resolves:
  assumes "import_card_reviews e u reviews cards s a = Inr s'" "a \<in> ir_rev_CardAnkiID ` set reviews"
    "pk us_key (cd_states (is_db (snd (snd s))))"
  shows "content_frame u (is_db (snd (snd s))) (is_db (snd (snd s'))) \<and> pk us_key (cd_states (is_db (snd (snd s'))))
    \<and> (content_frame u (is_db (snd (snd s'))) z \<longrightarrow> fst s' = has_upd (IDByAnkiID cards) (fst s) a
         \<and> history_settled u reviews (IDByAnkiID cards) z a)"
    and "history_settled u reviews (IDByAnkiID cards) (is_db (snd (snd s))) a \<Longrightarrow> same_keys (is_db (snd (snd s))) (is_db (snd (snd s')))"
proof -
  obtain has cache st has' cache' st' where s: "s = (has, cache, st)" "s' = (has', cache', st')" by (metis prod.exhaust)
  have frame: "content_frame u (is_db st) (is_db st')" using frame_import_card_reviews [OF assms(1)] by (simp add: s)
  have pk': "pk us_key (cd_states (is_db st'))" by (rule state_lookup(1) [OF frame]) (use assms(3) s in simp)
  have "(content_frame u (is_db st') z \<longrightarrow> has' = has_upd (IDByAnkiID cards) has a \<and> history_settled u reviews (IDByAnkiID cards) z a)
    \<and> (history_settled u reviews (IDByAnkiID cards) (is_db st) a \<longrightarrow> same_keys (is_db st) (is_db st'))"
  proof (cases "IDByAnkiID cards a")
    case None
    with assms(1) show ?thesis by (auto simp: s import_card_reviews_def has_upd_def history_settled_def)
  next
    case (Some c)
    let ?rs = "filter (\<lambda>r. ir_rev_CardAnkiID r = a) reviews"
    from assms(1) Some obtain st1 where f: "foldE (import_review e u c) st ?rs = Inr st1"
      and r: "replay_imported e u cards a c (cache, st1) = Inr (cache', st')" and has: "has' = has(a := True)"
      by (auto simp: s import_card_reviews_def bindE_eq_Inr)
    note rev = import_reviews_of_card [OF f] and rep = replay_imported_step [OF r]
    from assms(2) obtain x where x: "x \<in> set ?rs" by auto
    have log: "(u, c, Some (ir_rev_AnkiID q)) \<in> anki_key ` set (cd_log (is_db st'))" if "q \<in> set ?rs" for q
      using rev(2) [OF that] frame_replay_imported [OF r] log_lookup by blast
    have key: "(u, c) \<in> us_key ` set (cd_states (is_db st'))" by (rule rep(1) [OF rev(2) [OF x]])
    have here: "history_settled u reviews (IDByAnkiID cards) (is_db st') a"
      using log key by (simp add: history_settled_def Some)
    have "same_keys (is_db st) (is_db st')" if "history_settled u reviews (IDByAnkiID cards) (is_db st) a"
    proof -
      have "is_db st1 = is_db st" by (rule rev(3)) (use that in \<open>simp add: history_settled_def Some\<close>)
      then show ?thesis using rep(2) that by (simp add: history_settled_def Some)
    qed
    then show ?thesis using history_settled_mono [OF here _ pk'] has by (simp add: has_upd_def Some)
  qed
  then show "content_frame u (is_db (snd (snd s))) (is_db (snd (snd s'))) \<and> pk us_key (cd_states (is_db (snd (snd s'))))
    \<and> (content_frame u (is_db (snd (snd s'))) z \<longrightarrow> fst s' = has_upd (IDByAnkiID cards) (fst s) a
         \<and> history_settled u reviews (IDByAnkiID cards) z a)"
    and "history_settled u reviews (IDByAnkiID cards) (is_db (snd (snd s))) a \<Longrightarrow> same_keys (is_db (snd (snd s))) (is_db (snd (snd s')))"
    using frame pk' by (simp_all add: s)
qed

lemma importReviews_resolves:
  assumes "importReviews e u reviews cards st = Inr (has, st')" "pk us_key (cd_states (is_db st))" "content_frame u (is_db st') z"
  shows "has = foldl (has_upd (IDByAnkiID cards)) (\<lambda>_. False) (dedup (map ir_rev_CardAnkiID reviews))"
    and "\<forall>a\<in>ir_rev_CardAnkiID ` set reviews. history_settled u reviews (IDByAnkiID cards) z a"
proof -
  let ?s = "(\<lambda>_::int. False, NewParamsCache, st)" and ?as = "dedup (map ir_rev_CardAnkiID reviews)"
  from assms(1) obtain cache where f: "foldE (import_card_reviews e u reviews cards) ?s ?as = Inr (has, cache, st')"
    by (auto simp: importReviews_def bindE_eq_Inr)
  let ?t = "(has, cache, st')"
  have "content_frame u (is_db (snd (snd ?s))) (is_db (snd (snd ?t))) \<and> pk us_key (cd_states (is_db (snd (snd ?t))))
     \<and> (content_frame u (is_db (snd (snd ?t))) z \<longrightarrow> fst ?t = foldl (has_upd (IDByAnkiID cards)) (fst ?s) ?as
        \<and> (\<forall>a\<in>set ?as. history_settled u reviews (IDByAnkiID cards) z a))"
    using import_card_reviews_resolves(1)
    by (intro cont.foldE_settled [OF f, where st = "\<lambda>s. is_db (snd (snd s))" and out = fst
          and I = "\<lambda>s. pk us_key (cd_states (is_db (snd (snd s))))"]) (simp_all add: assms(2))
  then show "has = foldl (has_upd (IDByAnkiID cards)) (\<lambda>_. False) ?as"
    and "\<forall>a\<in>ir_rev_CardAnkiID ` set reviews. history_settled u reviews (IDByAnkiID cards) z a" using assms(3) by simp_all
qed

lemma importReviews_again:
  assumes "importReviews e u reviews cards st = Inr (has, st')" "pk us_key (cd_states (is_db st))"
    "\<forall>a\<in>ir_rev_CardAnkiID ` set reviews. history_settled u reviews (IDByAnkiID cards) (is_db st) a"
  shows "content_frame u (is_db st) (is_db st') \<and> same_keys (is_db st) (is_db st')"
proof -
  let ?s = "(\<lambda>_::int. False, NewParamsCache, st)" and ?as = "dedup (map ir_rev_CardAnkiID reviews)"
  from assms(1) obtain cache where f: "foldE (import_card_reviews e u reviews cards) ?s ?as = Inr (has, cache, st')"
    by (auto simp: importReviews_def bindE_eq_Inr)
  have step: "content_frame u (is_db (snd (snd s))) (is_db (snd (snd t))) \<and> same_keys (is_db (snd (snd s))) (is_db (snd (snd t)))
      \<and> pk us_key (cd_states (is_db (snd (snd t))))"
    if a: "a \<in> set ?as" and f: "import_card_reviews e u reviews cards s a = Inr t"
      and c: "content_frame u (is_db st) (is_db (snd (snd s)))" and p: "pk us_key (cd_states (is_db (snd (snd s))))" for a s t
  proof -
    have a': "a \<in> ir_rev_CardAnkiID ` set reviews" using a by simp
    show ?thesis
      using history_settled_mono [OF assms(3) [rule_format, OF a'] c assms(2)] import_card_reviews_resolves [OF f a' p] by blast
  qed
  show ?thesis
    using stage_again [OF f, where st = "\<lambda>s. is_db (snd (snd s))" and u = u and J = "\<lambda>s. pk us_key (cd_states (is_db (snd (snd s))))"]
      step assms(2) by simp
qed

definition state_settled :: "uuid \<Rightarrow> (int \<Rightarrow> uuid option) \<Rightarrow> (int \<Rightarrow> bool) \<Rightarrow> content_db \<Rightarrow> IrCard \<Rightarrow> bool" where
  "state_settled u cardIDs has z c \<longleftrightarrow> has (ir_card_AnkiID c) \<or> \<not> hasState c \<or> ir_card_Type c < 0 \<or> ir_card_Type c > 3
     \<or> (case cardIDs (ir_card_AnkiID c) of None \<Rightarrow> True | Some i \<Rightarrow> (u, i) \<in> us_key ` set (cd_states z))"

lemma seed_state_step:
  assumes "seed_state e u cardIDs has st c = Inr st'"
  shows "state_settled u cardIDs has (is_db st') c"
    and "state_settled u cardIDs has (is_db st) c \<Longrightarrow> is_db st' = is_db st"
proof -
  have key: "us_key (seeded_row u i now c) = (u, i)" for i now by (simp add: seeded_row_def us_key_def Let_def)
  from assms have "state_settled u cardIDs has (is_db st') c \<and> (state_settled u cardIDs has (is_db st) c \<longrightarrow> is_db st' = is_db st)"
  proof (cases rule: seed_state_cases)
    case kept
    then show ?thesis by (auto simp: state_settled_def)
  next
    case (seeded i n)
    show ?thesis
    proof (cases "row_of us_key (u, i) (cd_states (is_db st))")
      case None
      with seeded(2) have "is_db st' = (is_db st)\<lparr>cd_states := cd_states (is_db st) @ [seeded_row u i (ie_now e) c]\<rparr>"
        by (simp add: SeedImportedUserCardState_def key split: if_splits)
      moreover have "(u, i) \<notin> us_key ` set (cd_states (is_db st))" using None by (auto simp: row_of_None)
      moreover have "\<not> has (ir_card_AnkiID c) \<and> hasState c \<and> \<not> ir_card_Type c < 0 \<and> \<not> ir_card_Type c > 3" if "is_db st' \<noteq> is_db st"
        using assms that seeded(1) by (auto simp: seed_state_def split: if_splits)
      ultimately show ?thesis using seeded(1) key by (auto simp: state_settled_def)
    next
      case (Some r)
      with seeded(2) have "is_db st' = is_db st" by (simp add: SeedImportedUserCardState_def key split: if_splits)
      moreover have "(u, i) \<in> us_key ` set (cd_states (is_db st))" using Some by (force dest: row_of_Some)
      ultimately show ?thesis using seeded(1) by (simp add: state_settled_def)
    qed
  qed
  then show "state_settled u cardIDs has (is_db st') c"
    and "state_settled u cardIDs has (is_db st) c \<Longrightarrow> is_db st' = is_db st" by simp_all
qed

lemma state_settled_mono:
  assumes "state_settled u cardIDs has a c" "content_frame u a b" "pk us_key (cd_states a)"
  shows "state_settled u cardIDs has b c"
  using assms(1) state_lookup(2) [OF assms(2,3)] by (fastforce simp: state_settled_def split: option.splits)

lemma seedCardStates_settles:
  assumes "seedCardStates e u cs cardIDs has st = Inr st'" "pk us_key (cd_states (is_db st))" "content_frame u (is_db st') z"
  shows "\<forall>c\<in>set cs. state_settled u cardIDs has z c"
proof -
  have "content_frame u (is_db st) (is_db st') \<and> pk us_key (cd_states (is_db st')) \<and> (content_frame u (is_db st') z \<longrightarrow> () = foldl (\<lambda>_ _. ()) () cs
     \<and> (\<forall>c\<in>set cs. state_settled u cardIDs has z c))"
  proof (rule cont.foldE_settled [OF assms(1) [unfolded seedCardStates_def], where st = is_db and I = "\<lambda>s. pk us_key (cd_states (is_db s))"])
    fix c s t assume f: "seed_state e u cardIDs has s c = Inr t" and p: "pk us_key (cd_states (is_db s))"
    have frame: "content_frame u (is_db s) (is_db t)" by (rule frame_seed_state [OF f])
    note p' = state_lookup(1) [OF frame p]
    show "content_frame u (is_db s) (is_db t) \<and> pk us_key (cd_states (is_db t))
        \<and> (content_frame u (is_db t) z \<longrightarrow> () = () \<and> state_settled u cardIDs has z c)"
      using frame p' state_settled_mono [OF seed_state_step(1) [OF f] _ p'] by blast
  qed (rule assms(2))
  then show ?thesis using assms(3) by simp
qed

lemma seedCardStates_again:
  assumes "seedCardStates e u cs cardIDs has st = Inr st'" "\<forall>c\<in>set cs. state_settled u cardIDs has (is_db st) c"
  shows "is_db st' = is_db st"
  by (rule foldE_stable [OF assms(1) [unfolded seedCardStates_def], where g = is_db])
     (use assms(2) seed_state_step(2) in auto)

section \<open>Media\<close>

abbreviation media_key :: "media_ref \<Rightarrow> uuid \<times> string" where
  "media_key \<equiv> \<lambda>m. (mr_DeckID m, mr_Filename m)"

definition blobs_grow :: "blob_state \<Rightarrow> blob_state \<Rightarrow> bool" where
  "blobs_grow a b \<longleftrightarrow> blob_shas a \<subseteq> blob_shas b \<and> (\<forall>d. file_of a d \<noteq> None \<longrightarrow> file_of b d \<noteq> None)"

lemma blobs_grow_trans: "blobs_grow a b \<Longrightarrow> blobs_grow b c \<Longrightarrow> blobs_grow a c"
  unfolding blobs_grow_def by (meson subset_trans)

definition media_frame :: "uuid \<Rightarrow> content_db \<times> blob_state \<Rightarrow> content_db \<times> blob_state \<Rightarrow> bool" where
  "media_frame u a b \<longleftrightarrow> content_frame u (fst a) (fst b) \<and> blobs_grow (snd a) (snd b)"

interpretation mframe: frame_rule "media_frame u" for u
proof
  show "media_frame u a a" for a by (simp add: media_frame_def blobs_grow_def)
  show "media_frame u a c" if "media_frame u a b" "media_frame u b c" for a b c
    using that unfolding media_frame_def by (meson content_frame_trans blobs_grow_trans)
qed

definition medium_settled :: "uuid list \<Rightarrow> content_db \<times> blob_state \<Rightarrow> IrMedia \<Rightarrow> bool" where
  "medium_settled deckIDs z m \<longleftrightarrow> file_of (snd z) (im_SHA256 m) \<noteq> None \<and> im_SHA256 m \<in> blob_shas (snd z)
     \<and> (\<forall>d\<in>set deckIDs. (d, im_Filename m) \<in> media_key ` set (cd_media (fst z)))"

abbreviation db_blobs :: "import_state \<Rightarrow> content_db \<times> blob_state" where
  "db_blobs st \<equiv> (is_db st, is_blobs st)"

lemma media_lookup: "content_frame u a b \<Longrightarrow> x \<in> media_key ` set (cd_media a) \<Longrightarrow> x \<in> media_key ` set (cd_media b)"
proof -
  assume f: "content_frame u a b" and x: "x \<in> media_key ` set (cd_media a)"
  from f obtain v where v: "map (\<lambda>x. x) (cd_media b) = map (\<lambda>x. x) (cd_media a) @ v"
    by (auto simp: content_frame_def import_frame_def extends_def)
  then have "cd_media b = cd_media a @ v" by simp
  with x show ?thesis by auto
qed

lemma medium_settled_mono: "medium_settled ds a m \<Longrightarrow> media_frame u a b \<Longrightarrow> medium_settled ds b m"
  using media_lookup [of u "fst a" "fst b"] by (auto simp: medium_settled_def media_frame_def blobs_grow_def)

lemma Put_step:
  assumes "Put bs now d x = Inr bs'"
  shows "blobs_grow bs bs'" "file_of bs' d \<noteq> None" "file_of bs d \<noteq> None \<Longrightarrow> bs' = bs" "blob_shas bs' = blob_shas bs"
proof -
  from assms have "bs' = bs \<and> file_of bs d \<noteq> None
      \<or> file_of bs d = None \<and> bs' = bs\<lparr>bs_files := bs_files bs @ [\<lparr>bf_Digest = d, bf_ModTime = now, bf_Data = x\<rparr>]\<rparr>"
    by (auto simp: Put_def bindE_eq_Inr split: if_splits)
  then show "blobs_grow bs bs'" "file_of bs' d \<noteq> None" "file_of bs d \<noteq> None \<Longrightarrow> bs' = bs" "blob_shas bs' = blob_shas bs"
    by (auto simp: blobs_grow_def file_of_def row_of_append split: option.splits)
qed

lemma CreateMediaBlob_step:
  assumes "CreateMediaBlob bs now d n t = Inr bs'"
  shows "blobs_grow bs bs'" "d \<in> blob_shas bs'" "d \<in> blob_shas bs \<Longrightarrow> bs' = bs" "bs_files bs' = bs_files bs"
  using assms by (auto simp: CreateMediaBlob_def bindE_eq_Inr blobs_grow_def file_of_def split: if_splits)

lemma import_ref_step:
  assumes "import_ref m s d = Inr t"
  shows "content_frame u (is_db s) (is_db t)" "is_blobs t = is_blobs s" "(d, im_Filename m) \<in> media_key ` set (cd_media (is_db t))"
    and "(d, im_Filename m) \<in> media_key ` set (cd_media (is_db s)) \<Longrightarrow> is_db t = is_db s"
proof -
  from assms have ref: "CreateMediaRef (is_blobs s) (is_db s) d (im_Filename m) (im_SHA256 m) = Inr (is_db t)" and b: "is_blobs t = is_blobs s"
    by (auto simp: import_ref_def bindE_eq_Inr)
  show "content_frame u (is_db s) (is_db t)" by (rule frame_CreateMediaRef [OF ref])
  show "is_blobs t = is_blobs s" by (rule b)
  have "(d, im_Filename m) \<in> media_key ` set (cd_media (is_db t))
      \<and> ((d, im_Filename m) \<in> media_key ` set (cd_media (is_db s)) \<longrightarrow> is_db t = is_db s)"
  proof (cases "(d, im_Filename m) \<in> media_key ` set (cd_media (is_db s))")
    case True
    with ref have "is_db t = is_db s" by (simp add: CreateMediaRef_def bindE_eq_Inr)
    with True show ?thesis by simp
  next
    case False
    with ref have "(is_db s)\<lparr>cd_media := cd_media (is_db s) @ [\<lparr>mr_DeckID = d, mr_Filename = im_Filename m, mr_Sha256 = im_SHA256 m\<rparr>]\<rparr> = is_db t"
      by (simp add: CreateMediaRef_def bindE_eq_Inr split: if_splits)
    from this [symmetric] False show ?thesis by simp
  qed
  then show "(d, im_Filename m) \<in> media_key ` set (cd_media (is_db t))"
    and "(d, im_Filename m) \<in> media_key ` set (cd_media (is_db s)) \<Longrightarrow> is_db t = is_db s" by simp_all
qed

lemma import_medium_step:
  assumes "import_medium e ds st m = Inr st'"
  shows "media_frame u (db_blobs st) (db_blobs st')" "medium_settled ds (db_blobs st') m"
    and "medium_settled ds (db_blobs st) m \<Longrightarrow> db_blobs st' = db_blobs st"
proof -
  from assms obtain bs1 bs2 st1 where put: "Put (is_blobs st) (ie_now e) (im_SHA256 m) (im_Data m) = Inr bs1"
    and blob: "CreateMediaBlob bs1 (ie_now e) (im_SHA256 m) (im_SizeBytes m) (detectMediaMime e (im_Filename m) (im_Data m)) = Inr bs2"
    and refs: "foldE (import_ref m) (st\<lparr>is_blobs := bs2\<rparr>) ds = Inr st1"
    and st': "is_db st' = is_db st1" "is_blobs st' = is_blobs st1"
    by (auto simp: import_medium_def bindE_eq_Inr)
  note p = Put_step [OF put] and b = CreateMediaBlob_step [OF blob]
  let ?s = "st\<lparr>is_blobs := bs2\<rparr>"
  have "content_frame u (is_db ?s) (is_db st1) \<and> True \<and> (content_frame u (is_db st1) (is_db st1) \<longrightarrow> () = foldl (\<lambda>_ _. ()) () ds
     \<and> (\<forall>d\<in>set ds. (d, im_Filename m) \<in> media_key ` set (cd_media (is_db st1))))"
    by (rule cont.foldE_settled [OF refs, where st = is_db and I = "\<lambda>_. True"])
       (use import_ref_step(1,3) media_lookup in blast)+
  then have c: "content_frame u (is_db st) (is_db st')" "\<forall>d\<in>set ds. (d, im_Filename m) \<in> media_key ` set (cd_media (is_db st'))"
    by (simp_all add: st')
  have "is_blobs st1 = is_blobs ?s"
    by (rule foldE_stable [OF refs, where g = is_blobs]) (rule import_ref_step(2))
  then have bs2: "is_blobs st' = bs2" by (simp add: st')
  have has_file: "file_of bs2 (im_SHA256 m) \<noteq> None" using p(2) b(4) by (simp add: file_of_def)
  show "media_frame u (db_blobs st) (db_blobs st')"
    using c(1) blobs_grow_trans [OF p(1) b(1)] by (simp add: media_frame_def bs2)
  show "medium_settled ds (db_blobs st') m" using c(2) b(2) has_file by (simp add: medium_settled_def bs2)
  assume s: "medium_settled ds (db_blobs st) m"
  then have "bs1 = is_blobs st" by (intro p(3)) (simp add: medium_settled_def)
  moreover from this s have "bs2 = bs1" by (intro b(3)) (simp add: medium_settled_def)
  moreover have "is_db st1 = is_db ?s"
    by (rule foldE_stable [OF refs, where g = is_db]) (use s import_ref_step(4) in \<open>auto simp: medium_settled_def\<close>)
  ultimately show "db_blobs st' = db_blobs st" by (simp add: st'(1) bs2)
qed

lemma importMedia_settles:
  assumes "importMedia e ds ms st = Inr st'"
  shows "media_frame u (db_blobs st) (db_blobs st')" "\<forall>m\<in>set ms. medium_settled ds (db_blobs st') m"
proof -
  have "media_frame u (db_blobs st) (db_blobs st') \<and> True \<and> (media_frame u (db_blobs st') (db_blobs st') \<longrightarrow> () = foldl (\<lambda>_ _. ()) () ms
     \<and> (\<forall>m\<in>set ms. medium_settled ds (db_blobs st') m))"
    by (rule mframe.foldE_settled [OF assms [unfolded importMedia_def], where st = db_blobs and I = "\<lambda>_. True"])
       (use import_medium_step(1,2) medium_settled_mono in blast)+
  then show "media_frame u (db_blobs st) (db_blobs st')" "\<forall>m\<in>set ms. medium_settled ds (db_blobs st') m"
    by (simp_all add: mframe.frame_refl)
qed

lemma importMedia_again:
  assumes "importMedia e ds ms st = Inr st'" "\<forall>m\<in>set ms. medium_settled ds (db_blobs st) m"
  shows "db_blobs st' = db_blobs st"
  by (rule foldE_stable [OF assms(1) [unfolded importMedia_def], where g = db_blobs])
     (use assms(2) import_medium_step(3) in auto)

section \<open>Only the media stage touches the blob store\<close>

lemma blobs_import_deck: "import_deck e u s d = Inr t \<Longrightarrow> is_blobs (snd t) = is_blobs (snd s)"
  by (auto simp: import_deck_def bindE_eq_Inr Let_def split_beta split: sum.splits content_error.splits if_splits)

lemma blobs_import_notetype:
  assumes "import_notetype e u s nt = Inr t"
  shows "is_blobs (snd t) = is_blobs (snd s)"
proof -
  have f: "is_blobs b = is_blobs a" if "foldE (import_field e i) a fs = Inr b" for i a fs b
    by (rule foldE_stable [OF that, where g = is_blobs]) (auto simp: import_field_def bindE_eq_Inr)
  have t: "is_blobs (snd b) = is_blobs (snd a)" if "foldE (import_template e i) a ts = Inr b" for i a ts b
    by (rule foldE_stable [OF that, where g = "\<lambda>s. is_blobs (snd s)"])
       (auto simp: import_template_def bindE_eq_Inr split_beta)
  from assms show ?thesis
    by (auto simp: import_notetype_def bindE_eq_Inr split_beta dest!: f t split: sum.splits content_error.splits if_splits)
qed

lemma blobs_import_note: "import_note e u di ti s n = Inr t \<Longrightarrow> is_blobs (snd t) = is_blobs (snd s)"
  by (auto simp: import_note_def bindE_eq_Inr split_beta split: option.splits sum.splits content_error.splits)

lemma blobs_import_card:
  assumes "import_card e ni tof hof di s c = Inr t"
  shows "is_blobs (snd t) = is_blobs (snd s)"
proof (cases "plan_card ni tof hof di c")
  case (Inl w)
  with assms show ?thesis by (auto simp: import_card_def split_beta)
next
  case (Inr p)
  have "is_blobs (if cp_Fallback p then warn w x else x) = is_blobs x" for w x by simp
  with assms Inr show ?thesis by (auto simp: import_card_def bindE_eq_Inr Let_def split_beta)
qed

lemma blobs_seed_retention: "seed_retention e u tallies s d = Inr t \<Longrightarrow> is_blobs t = is_blobs s"
  by (auto simp: seed_retention_def bindE_eq_Inr Let_def split: sum.splits)

lemma blobs_import_card_reviews:
  assumes "import_card_reviews e u rs cards s a = Inr t"
  shows "is_blobs (snd (snd t)) = is_blobs (snd (snd s))"
proof -
  have f: "is_blobs b = is_blobs x" if "foldE (import_review e u c) x qs = Inr b" for c x qs b
    by (rule foldE_stable [OF that, where g = is_blobs]) (auto simp: import_review_def bindE_eq_Inr)
  have r: "is_blobs (snd b) = is_blobs (snd x)" if "replay_imported e u cards a c x = Inr b" for c x b
    using that by (auto simp: replay_imported_def bindE_eq_Inr Let_def split_beta)
  from assms show ?thesis
    by (auto simp: import_card_reviews_def bindE_eq_Inr split_beta dest!: f r split: option.splits)
qed

lemma blobs_seed_state: "seed_state e u ids has s c = Inr t \<Longrightarrow> is_blobs t = is_blobs s"
  by (auto simp: seed_state_def bindE_eq_Inr split: if_splits option.splits)

lemma blobs_stages:
  "importDecks e u ds st = Inr (di, st') \<Longrightarrow> is_blobs st' = is_blobs st"
  "importNoteTypes e u nts st = Inr (ti, st') \<Longrightarrow> is_blobs st' = is_blobs st"
  "importNotes e u ns deckIDs typeIDs st = Inr (ni, st') \<Longrightarrow> is_blobs st' = is_blobs st"
  "importCards e col noteIDs typeIDs deckIDs st = Inr (cards, st') \<Longrightarrow> is_blobs st' = is_blobs st"
  "seedDeckRetention e u irCards cards' st = Inr st' \<Longrightarrow> is_blobs st' = is_blobs st"
  "seedCardStates e u cs cardIDs has st = Inr st' \<Longrightarrow> is_blobs st' = is_blobs st"
proof -
  note s = foldE_stable [where g = "\<lambda>s. is_blobs (snd s)"]
  show "is_blobs st' = is_blobs st" if "importDecks e u ds st = Inr (di, st')"
    using s [OF that [unfolded importDecks_def]] blobs_import_deck by simp
  show "is_blobs st' = is_blobs st" if "importNoteTypes e u nts st = Inr (ti, st')"
    using s [OF that [unfolded importNoteTypes_def]] blobs_import_notetype by simp
  show "is_blobs st' = is_blobs st" if "importNotes e u ns deckIDs typeIDs st = Inr (ni, st')"
    using s [OF that [unfolded importNotes_def]] blobs_import_note by simp
  show "is_blobs st' = is_blobs st" if "importCards e col noteIDs typeIDs deckIDs st = Inr (cards, st')"
    using s [OF that [unfolded importCards_def]] blobs_import_card by simp
  show "is_blobs st' = is_blobs st" if "seedDeckRetention e u irCards cards' st = Inr st'"
    by (rule foldE_stable [OF that [unfolded seedDeckRetention_fold], where g = is_blobs]) (rule blobs_seed_retention)
  show "is_blobs st' = is_blobs st" if "seedCardStates e u cs cardIDs has st = Inr st'"
    by (rule foldE_stable [OF that [unfolded seedCardStates_def], where g = is_blobs]) (rule blobs_seed_state)
qed

lemma blobs_importReviews:
  assumes "importReviews e u reviews cards st = Inr (has, st')"
  shows "is_blobs st' = is_blobs st"
proof -
  from assms obtain cache where f: "foldE (import_card_reviews e u reviews cards) (\<lambda>_. False, NewParamsCache, st)
      (dedup (map ir_rev_CardAnkiID reviews)) = Inr (has, cache, st')" by (auto simp: importReviews_def bindE_eq_Inr)
  have "is_blobs (snd (snd (has, cache, st'))) = is_blobs (snd (snd (\<lambda>_::int. False, NewParamsCache, st)))"
    by (rule foldE_stable [OF f, where g = "\<lambda>s. is_blobs (snd (snd s))"]) (rule blobs_import_card_reviews)
  then show ?thesis by simp
qed

section \<open>A second import\<close>

lemma importDecks_types:
  assumes "importDecks e u ds st = Inr (ids, st')"
  shows "cd_noteTypes (is_db st') = cd_noteTypes (is_db st) \<and> cd_templates (is_db st') = cd_templates (is_db st)"
proof -
  have set: "cd_noteTypes b = cd_noteTypes a \<and> cd_templates b = cd_templates a" if "SetDeckAnkiID a now x i = Inr (n, b)" for a now x i n b
    using that by (auto simp: SetDeckAnkiID_def Let_def)
  have create: "cd_noteTypes b = cd_noteTypes a \<and> cd_templates b = cd_templates a" if "CreateDeckWithAccess a now i u nm de = Inr (d, b)" for a now i nm de d b
    using that by (auto simp: CreateDeckWithAccess_def CreateDeck_def GrantFullDeckAccess_def insert_access_def bindE_eq_Inr Let_def split: if_splits)
  have step: "cd_noteTypes (is_db (snd t)) = cd_noteTypes (is_db (snd s)) \<and> cd_templates (is_db (snd t)) = cd_templates (is_db (snd s))"
    if "import_deck e u s d = Inr t" for s d t
  proof -
    obtain i a i' b where s: "s = (i, a)" "t = (i', b)" by (metis prod.exhaust)
    from that [unfolded s] show ?thesis
    proof (cases rule: import_deck_cases)
      case (created dk db1 n db2)
      with create [OF created(3)] set [OF created(4)] show ?thesis by (simp add: s)
    next
      case (reused dk n db1)
      with set [OF reused(3)] show ?thesis by (simp add: s)
    qed (simp add: s)
  qed
  have "(\<lambda>s. (cd_noteTypes (is_db (snd s)), cd_templates (is_db (snd s)))) (ids, st')
      = (\<lambda>s. (cd_noteTypes (is_db (snd s)), cd_templates (is_db (snd s)))) (Map.empty :: deck_ids, st)"
    by (rule foldE_stable [OF assms [unfolded importDecks_def]]) (use step in simp)
  then show ?thesis by simp
qed

lemma deck_cong:
  assumes "cd_decks a = cd_decks b"
  shows "deck_upd u a = deck_upd u b" "deck_settled u a = deck_settled u b" "decks_owned u ids a = decks_owned u ids b"
  using assms by (auto simp: fun_eq_iff deck_upd_def deck_settled_def decks_owned_def)

lemma type_cong:
  assumes "cd_noteTypes a = cd_noteTypes b" "cd_templates a = cd_templates b"
  shows "type_upd u a = type_upd u b" "type_settled u a = type_settled u b" "tmpl_wf a = tmpl_wf b"
proof -
  have "row_sig a = row_sig b" using assms by (simp add: fun_eq_iff row_sig_def templates_of_def)
  then show "type_upd u a = type_upd u b" using assms by (intro ext) (simp add: type_upd_def)
qed (use assms in \<open>simp_all add: fun_eq_iff type_settled_def tmpl_wf_def\<close>)

text \<open>Everything a run resolves is a look-up in a later database, and every item is settled there.\<close>

lemma stages_resolve:
  assumes d: "importDecks e u (irc_Decks col) st = Inr (deckIDs, st1)"
    and t: "importNoteTypes e u (irc_NoteTypes col) st1 = Inr (typeIDs, st2)"
    and n: "importNotes e u (irc_Notes col) deckIDs typeIDs st2 = Inr (noteIDs, st3)"
    and c: "importCards e col noteIDs typeIDs deckIDs st3 = Inr (cards, st4)"
    and r: "seedDeckRetention e u (irc_Cards col) cards st4 = Inr st5" "is_db st5' = is_db st5"
    and v: "importReviews e u (irc_Reviews col) cards st5' = Inr (has, st6)"
    and s: "seedCardStates e u (irc_Cards col) (IDByAnkiID cards) has st6 = Inr st7"
    and m: "importMedia e ds ms st7 = Inr st8"
    and wf: "pk dk_ID (cd_decks (is_db st))" "tmpl_wf (is_db st)" "pk us_key (cd_states (is_db st))"
    and z: "content_frame u (is_db st8) z"
  shows "content_frame u (is_db st2) z" "deckIDs = foldl (deck_upd u z) Map.empty (irc_Decks col)"
    "sig typeIDs = foldl (type_upd u z) Map.empty (irc_NoteTypes col)"
    "noteIDs = foldl (note_upd u deckIDs (sig typeIDs) z) Map.empty (irc_Notes col)"
    "card_maps cards = foldl (card_upd (card_places col noteIDs typeIDs deckIDs) z) (Map.empty, Map.empty) (irc_Cards col)"
    "has = foldl (has_upd (IDByAnkiID cards)) (\<lambda>_. False) (dedup (map ir_rev_CardAnkiID (irc_Reviews col)))"
    "pk dk_ID (cd_decks z)" "tmpl_wf z" "pk us_key (cd_states z)"
    "\<forall>d\<in>set (irc_Decks col). deck_settled u z d" "\<forall>nt\<in>set (irc_NoteTypes col). type_settled u z nt"
    "\<forall>n\<in>set (irc_Notes col). note_settled u deckIDs (sig typeIDs) z n"
    "\<forall>c\<in>set (irc_Cards col). card_settled (card_places col noteIDs typeIDs deckIDs) z c"
    "retention_settled (ie_lib e) u (irc_Cards col) (DeckByAnkiID cards) z"
    "\<forall>a\<in>ir_rev_CardAnkiID ` set (irc_Reviews col). history_settled u (irc_Reviews col) (IDByAnkiID cards) z a"
    "\<forall>c\<in>set (irc_Cards col). state_settled u (IDByAnkiID cards) has z c"
proof -
  note tr = content_frame_trans
  have f7: "content_frame u (is_db st7) z" by (rule tr [OF frame_importMedia [OF m] z])
  have f6: "content_frame u (is_db st6) z" by (rule tr [OF frame_seedCardStates [OF s] f7])
  have f5: "content_frame u (is_db st5) z" using tr [OF frame_importReviews [OF v] f6] r(2) by simp
  have f4: "content_frame u (is_db st4) z" by (rule tr [OF frame_seedDeckRetention [OF r(1)] f5])
  have f3: "content_frame u (is_db st3) z" by (rule tr [OF frame_importCards [OF c] f4])
  show f2: "content_frame u (is_db st2) z" by (rule tr [OF frame_importNotes [OF n] f3])
  note D = importDecks_resolves [OF d]
  have wf1: "tmpl_wf (is_db st1)" using wf(2) importDecks_types [OF d] type_cong(3) by metis
  note T = importNoteTypes_resolves [OF t wf1]
  have decks: "cd_decks z = cd_decks (is_db st1)" using T(1) f2 by (simp add: type_keep_def content_frame_def)
  have types: "cd_noteTypes z = cd_noteTypes (is_db st2)" "cd_templates z = cd_templates (is_db st2)" using f2 by (simp_all add: content_frame_def)
  show deckIDs: "deckIDs = foldl (deck_upd u z) Map.empty (irc_Decks col)" unfolding deck_cong(1) [OF decks] by (rule D(1))
  show pkz: "pk dk_ID (cd_decks z)" using D(3) wf(1) decks by simp
  show "\<forall>d\<in>set (irc_Decks col). deck_settled u z d" unfolding deck_cong(2) [OF decks] by (rule D(2))
  show "sig typeIDs = foldl (type_upd u z) Map.empty (irc_NoteTypes col)" unfolding type_cong(1) [OF types] by (rule T(3))
  show "\<forall>nt\<in>set (irc_NoteTypes col). type_settled u z nt" unfolding type_cong(2) [OF types] by (rule T(4))
  show "tmpl_wf z" unfolding type_cong(3) [OF types] by (rule T(2))
  have "decks_owned u deckIDs z"
    using deck_upd_owned [of _ u z Map.empty "irc_Decks col"] pkz unfolding decks_owned_def deckIDs by auto
  moreover have "cd_decks z = cd_decks (is_db st2)" using f2 by (simp add: content_frame_def)
  ultimately have owned: "decks_owned u deckIDs (is_db st2)" using deck_cong(3) by metis
  show "noteIDs = foldl (note_upd u deckIDs (sig typeIDs) z) Map.empty (irc_Notes col)"
    "\<forall>n\<in>set (irc_Notes col). note_settled u deckIDs (sig typeIDs) z n"
    by (rule importNotes_resolves [OF n owned f3])+
  show "card_maps cards = foldl (card_upd (card_places col noteIDs typeIDs deckIDs) z) (Map.empty, Map.empty) (irc_Cards col)"
    "\<forall>c\<in>set (irc_Cards col). card_settled (card_places col noteIDs typeIDs deckIDs) z c"
    by (rule importCards_resolves [OF c f4])+
  show "retention_settled (ie_lib e) u (irc_Cards col) (DeckByAnkiID cards) z" by (rule seedDeckRetention_settles [OF r(1) f5])
  have pkst: "pk us_key (cd_states (is_db st2))"
    using frame_importDecks [OF d] frame_importNoteTypes [OF t] wf(3) by (simp add: import_frame_def)
  have "content_frame u (is_db st2) (is_db st5')"
    using tr [OF tr [OF frame_importNotes [OF n] frame_importCards [OF c]] frame_seedDeckRetention [OF r(1)]] r(2) by simp
  from state_lookup(1) [OF this pkst] have pk5: "pk us_key (cd_states (is_db st5'))" .
  show "has = foldl (has_upd (IDByAnkiID cards)) (\<lambda>_. False) (dedup (map ir_rev_CardAnkiID (irc_Reviews col)))"
    "\<forall>a\<in>ir_rev_CardAnkiID ` set (irc_Reviews col). history_settled u (irc_Reviews col) (IDByAnkiID cards) z a"
    by (rule importReviews_resolves [OF v pk5 f6])+
  show "\<forall>c\<in>set (irc_Cards col). state_settled u (IDByAnkiID cards) has z c"
    by (rule seedCardStates_settles [OF s state_lookup(1) [OF frame_importReviews [OF v] pk5] f7])
  show "pk us_key (cd_states z)" by (rule state_lookup(1) [OF f2 pkst])
qed

text \<open>Where everything is settled, the stages change no key and leave the blob store alone.\<close>

lemma stages_again:
  assumes n: "importNotes e u ns deckIDs typeIDs t2 = Inr (noteIDs, t3)"
    and c: "importCards e col noteIDs typeIDs deckIDs t3 = Inr (cards, t4)"
    and r: "seedDeckRetention e u (irc_Cards col) cards t4 = Inr t5" "is_db t5' = is_db t5" "is_blobs t5' = is_blobs t5"
    and v: "importReviews e u rs cards t5' = Inr (has, t6)"
    and s: "seedCardStates e u cs (IDByAnkiID cards) has t6 = Inr t7"
    and m: "importMedia e ds ms t7 = Inr t8"
    and pk: "pk us_key (cd_states (is_db t2))"
    and settled: "\<forall>n\<in>set ns. note_settled u deckIDs (sig typeIDs) (is_db t2) n"
      "\<forall>c\<in>set (irc_Cards col). card_settled (card_places col noteIDs typeIDs deckIDs) (is_db t2) c"
      "retention_settled (ie_lib e) u (irc_Cards col) (DeckByAnkiID cards) (is_db t2)"
      "\<forall>a\<in>ir_rev_CardAnkiID ` set rs. history_settled u rs (IDByAnkiID cards) (is_db t2) a"
      "\<forall>c\<in>set cs. state_settled u (IDByAnkiID cards) has (is_db t2) c"
      "\<forall>m\<in>set ms. medium_settled ds (db_blobs t2) m"
  shows "same_keys (is_db t2) (is_db t8) \<and> is_blobs t8 = is_blobs t2"
proof -
  note tr = content_frame_trans
  have b3: "content_frame u (is_db t2) (is_db t3) \<and> same_keys (is_db t2) (is_db t3)"
    by (rule importNotes_again [OF n settled(1)])
  then have c3: "content_frame u (is_db t2) (is_db t3)" ..
  have b4: "content_frame u (is_db t3) (is_db t4) \<and> same_keys (is_db t3) (is_db t4)"
    by (rule importCards_again [OF c]) (use settled(2) card_settled_mono [OF _ c3] in blast)
  then have c4: "content_frame u (is_db t2) (is_db t4)" using tr c3 by blast
  have "retention_settled (ie_lib e) u (irc_Cards col) (DeckByAnkiID cards) (is_db t4)"
    using settled(3) seed_settled_mono [OF _ c4] by (simp add: retention_settled_def)
  then have t5: "is_db t5' = is_db t4" using seedDeckRetention_again [OF r(1)] r(2) by simp
  have c5: "content_frame u (is_db t2) (is_db t5')" using c4 by (simp add: t5)
  have b6: "content_frame u (is_db t5') (is_db t6) \<and> same_keys (is_db t5') (is_db t6)"
    by (rule importReviews_again [OF v state_lookup(1) [OF c5 pk]]) (use settled(4) history_settled_mono [OF _ c5 pk] in blast)
  then have c6: "content_frame u (is_db t2) (is_db t6)" using tr c5 by blast
  have t7: "is_db t7 = is_db t6"
    by (rule seedCardStates_again [OF s]) (use settled(5) state_settled_mono [OF _ c6 pk] in blast)
  have blobs: "is_blobs t7 = is_blobs t2"
    using blobs_stages(3) [OF n] blobs_stages(4) [OF c] blobs_stages(5) [OF r(1)] r(3) blobs_importReviews [OF v] blobs_stages(6) [OF s]
    by simp
  have "media_frame u (db_blobs t2) (db_blobs t7)" using c6 by (simp add: media_frame_def t7 blobs blobs_grow_def)
  then have "db_blobs t8 = db_blobs t7"
    by (intro importMedia_again [OF m]) (use settled(6) medium_settled_mono in blast)
  moreover have "same_keys (is_db t2) (is_db t6)"
    using b3 b4 b6 by (simp add: t5) (blast intro: same_keys_trans)
  ultimately show ?thesis by (simp add: t7 blobs)
qed

text \<open>C38: importing a package again adds nothing: when an import has succeeded and the same package is imported into its
  result (at another time, with other ids), the second import inserts no deck, right, note type, field, template,
  note, card, review, schedule, retention setting, media reference, blob or file and changes no key: tables are
  the same but for the contents of notes, cards and schedules, and a note stays in the deck it is in. It needs the
  primary keys of decks and schedules and that every template has a note type.\<close>

theorem reimport_adds_nothing:
  assumes "Import e u col db bs = Inr (res, db1, bs1)" "Import e' u col db1 bs1 = Inr (res', db2, bs2)"
    and lib: "ie_lib e' = ie_lib e"
    and wf: "pk dk_ID (cd_decks db)" "tmpl_wf db" "pk us_key (cd_states db)"
  shows "same_keys db1 db2 \<and> bs2 = bs1"
proof -
  note tr = content_frame_trans
  from assms(1) obtain s deckIDs s1 typeIDs s2 noteIDs s3 cards s4 s5 s5' has s6 s7 s8 where
    "is_db s = db" "is_blobs s = bs" "importDecks e u (irc_Decks col) s = Inr (deckIDs, s1)"
    "importNoteTypes e u (irc_NoteTypes col) s1 = Inr (typeIDs, s2)"
    "importNotes e u (irc_Notes col) deckIDs typeIDs s2 = Inr (noteIDs, s3)"
    "importCards e col noteIDs typeIDs deckIDs s3 = Inr (cards, s4)"
    "seedDeckRetention e u (irc_Cards col) cards s4 = Inr s5" "is_db s5' = is_db s5" "is_blobs s5' = is_blobs s5"
    "importReviews e u (irc_Reviews col) cards s5' = Inr (has, s6)"
    "seedCardStates e u (irc_Cards col) (IDByAnkiID cards) has s6 = Inr s7"
    "importMedia e (deck_list deckIDs (irc_Decks col)) (irc_Media col) s7 = Inr s8"
    "is_db s8 = db1" "is_blobs s8 = bs1" "is_result s8 = res" by (rule Import_stages)
  note s = this
  from assms(2) obtain t deckIDs' t1 typeIDs' t2 noteIDs' t3 cards' t4 t5 t5' has' t6 t7 t8 where
    "is_db t = db1" "is_blobs t = bs1" "importDecks e' u (irc_Decks col) t = Inr (deckIDs', t1)"
    "importNoteTypes e' u (irc_NoteTypes col) t1 = Inr (typeIDs', t2)"
    "importNotes e' u (irc_Notes col) deckIDs' typeIDs' t2 = Inr (noteIDs', t3)"
    "importCards e' col noteIDs' typeIDs' deckIDs' t3 = Inr (cards', t4)"
    "seedDeckRetention e' u (irc_Cards col) cards' t4 = Inr t5" "is_db t5' = is_db t5" "is_blobs t5' = is_blobs t5"
    "importReviews e' u (irc_Reviews col) cards' t5' = Inr (has', t6)"
    "seedCardStates e' u (irc_Cards col) (IDByAnkiID cards') has' t6 = Inr t7"
    "importMedia e' (deck_list deckIDs' (irc_Decks col)) (irc_Media col) t7 = Inr t8"
    "is_db t8 = db2" "is_blobs t8 = bs2" "is_result t8 = res'" by (rule Import_stages)
  note t = this
  have s0: "pk dk_ID (cd_decks (is_db s))" "tmpl_wf (is_db s)" "pk us_key (cd_states (is_db s))" using wf by (simp_all add: s(1))
  note run1 = stages_resolve [OF s(3-8,10-12) s0]
  have f1: "content_frame u (is_db s8) db1" by (simp add: s(13))
  note at1 = run1 [OF f1]
  have t1: "is_db t1 = db1" using importDecks_again [OF t(3)] at1(7,10) by (simp add: t(1))
  have t2: "is_db t2 = db1" using importNoteTypes_again [OF t(4)] at1(11) by (simp add: t1)
  have t0: "pk dk_ID (cd_decks (is_db t))" "tmpl_wf (is_db t)" "pk us_key (cd_states (is_db t))" using at1(7-9) by (simp_all add: t(1))
  note run2 = stages_resolve [OF t(3-8,10-12) t0]
  have "content_frame u (is_db t8) db2" by (simp add: t(13))
  note at2 = run2 [OF this]
  have "content_frame u (is_db s8) db2" using at2(1) by (simp add: t2 s(13))
  note at2' = run1 [OF this]
  have deckIDs: "deckIDs' = deckIDs" using at2(2) at2'(2) by simp
  have sigs: "sig typeIDs' = sig typeIDs" using at2(3) at2'(3) by simp
  have noteIDs: "noteIDs' = noteIDs" using at2(4) at2'(4) by (simp add: deckIDs sigs)
  have places: "card_places col noteIDs' typeIDs' deckIDs' = card_places col noteIDs typeIDs deckIDs"
    unfolding card_places_def noteIDs deckIDs using place_of_sig [OF sigs] by blast
  have cards: "IDByAnkiID cards' = IDByAnkiID cards" "DeckByAnkiID cards' = DeckByAnkiID cards"
    using trans [OF at2(5) [unfolded places] at2'(5) [symmetric]] by simp_all
  have has: "has' = has" using at2(6) at2'(6) by (simp add: cards)
  note again = at1(12-16) [folded sigs, folded noteIDs deckIDs places cards has, folded t2]
  have "media_frame u (db_blobs s8) (is_db t2, is_blobs t2)"
    using blobs_stages(1) [OF t(3)] blobs_stages(2) [OF t(4)] by (simp add: media_frame_def blobs_grow_def s(13,14) t(2) t2)
  then have media: "\<forall>m\<in>set (irc_Media col). medium_settled (deck_list deckIDs' (irc_Decks col)) (db_blobs t2) m"
    using importMedia_settles(2) [OF s(12)] medium_settled_mono by (simp add: deckIDs; blast)
  have "pk us_key (cd_states (is_db t2))" using at1(9) by (simp add: t2)
  from stages_again [OF t(5-8) t(9) t(10-12) this again(1,2) _ again(4,5) media] again(3) lib
  show ?thesis using blobs_stages(1) [OF t(3)] blobs_stages(2) [OF t(4)] by (simp add: t(2,13,14) t2)
qed

text \<open>The example imported twice.\<close>

definition later_env :: import_env where
  "later_env = demo_import_env\<lparr>ie_newID := (\<lambda>n. 2000 + of_nat n), ie_now := 20 * Day\<rparr>"

theorem reimport_adds_nothing_witness:
  "case Import demo_import_env 1 demo_package demo_content no_blobs of
     Inl _ \<Rightarrow> False
   | Inr (_, db1, bs1) \<Rightarrow>
       (case Import later_env 1 demo_package db1 bs1 of
          Inl _ \<Rightarrow> False
        | Inr (res, db2, bs2) \<Rightarrow> import_counts res = [0, 1, 0, 1, 0, 2, 2, 0, 0, 1, 1] \<and> same_keys db1 db2 \<and> bs2 = bs1)"
proof -
  have "case Import demo_import_env 1 demo_package demo_content no_blobs of
     Inl _ \<Rightarrow> False
   | Inr (_, db1, bs1) \<Rightarrow>
       (case Import later_env 1 demo_package db1 bs1 of
          Inl _ \<Rightarrow> False | Inr (res, _, _) \<Rightarrow> import_counts res = [0, 1, 0, 1, 0, 2, 2, 0, 0, 1, 1])"
    by code_simp
  note ran = this
  from ran obtain x where "Import demo_import_env 1 demo_package demo_content no_blobs = Inr x"
    by (cases "Import demo_import_env 1 demo_package demo_content no_blobs") auto
  moreover obtain r1 db1 bs1 where "x = (r1, db1, bs1)" by (metis prod.exhaust)
  ultimately have run1: "Import demo_import_env 1 demo_package demo_content no_blobs = Inr (r1, db1, bs1)" by simp
  from ran run1 obtain y where "Import later_env 1 demo_package db1 bs1 = Inr y"
    by (cases "Import later_env 1 demo_package db1 bs1") auto
  moreover obtain res db2 bs2 where "y = (res, db2, bs2)" by (metis prod.exhaust)
  ultimately have run2: "Import later_env 1 demo_package db1 bs1 = Inr (res, db2, bs2)" by simp
  have "pk dk_ID (cd_decks demo_content)" "tmpl_wf demo_content" "pk us_key (cd_states demo_content)"
    by (simp_all add: pk_def tmpl_wf_def demo_content_def demo_deck_def)
  from reimport_adds_nothing [OF run1 run2 _ this] ran run1 run2 show ?thesis by (simp add: later_env_def)
qed

end
