(* ===== verification/Spec2Isabelle.thy ===== *)
theory Spec2Isabelle
  imports Calendar Preset Interleave Cursor Locks Grade_Order Css Content_System Study_Paging Go_Base64 Note_Type_Lemmas Auth_System Http_Auth Http_System Apkg_Read Apkg_Reimport
begin

text \<open>
  \<^bold>\<open>DeckShare: a verification development for its Go server\<close>

  DeckShare is a multi-user, Anki-compatible spaced-repetition server. Its core is a review engine that
  schedules cards for every student (\<open>src/internal/review\<close> over \<open>src/internal/fsrs\<close>), a store of decks, notes
  and cards with per-deck access rights (\<open>src/internal/db\<close>), and a renderer that turns an untrusted deck
  into safe HTML and CSS (\<open>src/internal/render\<close>). This development models these parts function by function,
  under the names of the source, and proves what makes them correct.

  \<^bold>\<open>Theories and the code they model\<close>

  Shared vocabulary.
  \<^item> \<open>Prelude\<close>: the sum type for \<open>(T, error)\<close> and its sequencing, tables as lists of rows, the locales
    \<open>strict_order\<close>, \<open>codec\<close>, \<open>frame_rule\<close> and \<open>invariant_system\<close>, which the components interpret.
  \<^item> \<open>Go_Ints\<close>, \<open>Go_Strings\<close>, \<open>Go_Time\<close>, \<open>Go_Base64\<close>, \<open>Go_Json\<close>, \<open>Pg_Types\<close>: what the source uses of Go's integers,
    \<open>strings\<close>, \<open>strconv\<close>, \<open>time\<close>, \<open>encoding/base64\<close>, \<open>encoding/json\<close> and of pgx's values. Go strings are
    character lists (bytes), sized integers are \<open>int\<close> with the conversion written out (\<open>wrap64\<close>) or words,
    \<open>float64\<close> is its 64 bits, a time is its instant in nanoseconds.

  The review engine.
  \<^item> \<open>Calendar\<close>: \<open>review/calendar.go\<close>, the class calendar that releases lessons. \<open>Preset\<close>: \<open>preset.go\<close> and
    \<open>order.go\<close>, the settings of a deck and the split of the daily budget. \<open>Interleave\<close>: \<open>interleave.go\<close>.
    \<open>Cursor\<close>: the page cursor of \<open>types.go\<close>.
  \<^item> \<open>Fsrs_Wrapper\<close>: \<open>fsrs/params.go\<close>, \<open>schedule.go\<close>, \<open>errors.go\<close>. The go-fsrs library is the record \<open>fsrs_lib\<close> of
    its functions, an argument of every definition that calls it.
  \<^item> \<open>Review_Store\<close>: the rows a grade reads and writes (\<open>user_card_state\<close>, \<open>review_log\<close>, \<open>user_fsrs_params\<close>) and
    the statements of the generated \<open>*.sql.go\<close> that do it. \<open>Review_Params\<close>: \<open>review/params.go\<close>.
  \<^item> \<open>Locks\<close>: \<open>review/lock.go\<close>, with concurrent transactions as a step relation.
  \<^item> \<open>Grade\<close>: \<open>review/grade.go\<close>, \<open>replay.go\<close> and the types they share: a batch of reviews is clamped,
    authorised, deduplicated, locked and graded in order; a late review is inserted in the log and the card
    is replayed. \<open>Grade_Lemmas\<close>, \<open>Grade_Batch\<close>, \<open>Grade_Order\<close> hold its properties.

  Content.
  \<^item> \<open>Content_Store\<close>: the rows of \<open>db/models.go\<close>, the statements of \<open>decks.sql.go\<close>, \<open>deck_access.sql.go\<close> and
    \<open>deletion.sql.go\<close>, and the transactions of \<open>decks.go\<close> and \<open>deletion.go\<close>.
  \<^item> \<open>Note_Cards\<close>: \<open>cards.sql.go\<close>, \<open>cards.go\<close> (the card diff and the note-type remap), \<open>notes.go\<close> and the
    statements of \<open>notes.sql.go\<close> it runs.
  \<^item> \<open>Content_Deletion\<close>, \<open>Note_Cards_Lemmas\<close>, \<open>Content_System\<close>: their properties, the last one with all content
    transactions as one step relation.

  Rendering.
  \<^item> \<open>Cloze\<close>: \<open>render/cloze.go\<close>. \<open>Card_Template\<close>: \<open>token.go\<close>, \<open>filters.go\<close>, \<open>render.go\<close>, \<open>typeanswer.go\<close>.
    \<open>Css\<close>: \<open>css.go\<close> and the element lists of \<open>sanitise.go\<close>.

  The study queue.
  \<^item> \<open>Study_Queue\<close>: the statements of \<open>reviews.sql.go\<close> and what they need of \<open>fields.sql.go\<close>, \<open>media_refs.sql.go\<close>, the
    sort-key functions of migration 26 and \<open>render/media.go\<close>. \<open>Study_Batch\<close>: \<open>review/batch.go\<close>, which assembles one
    page in each priority mode. \<open>Study_Batch_Lemmas\<close> and \<open>Study_Paging\<close>: what a page may hold, and that following
    the cursors ends (locale \<open>pager\<close>). What a page reads from outside is the record \<open>study_env\<close>: the clock, the
    numeric casts, MD5 and the tokeniser.

  Note types.
  \<^item> \<open>Note_Types\<close>: the statements of \<open>note_types.sql.go\<close>, \<open>fields.sql.go\<close> and \<open>templates.sql.go\<close>. \<open>Note_Type_Edit\<close>:
    \<open>db/notetypes.go\<close>, the structural edit with its remaps of fields and cards. \<open>Note_Type_Lemmas\<close>: its properties.

  Accounts.
  \<^item> \<open>Auth_Limiter\<close>: \<open>auth/ratelimit.go\<close>. \<open>Auth_Store\<close>: the rows and statements of \<open>users.sql.go\<close>, \<open>sessions.sql.go\<close> and
    \<open>password_reset_tokens.sql.go\<close>. \<open>Auth\<close>: \<open>auth.go\<close>, \<open>reset.go\<close>, \<open>notetypes.go\<close>, \<open>cleanup.go\<close>; \<open>Auth_Middleware\<close>:
    \<open>middleware.go\<close> and \<open>http/clientip.go\<close>. \<open>Auth_Lemmas\<close>, \<open>Auth_System\<close>: all requests as one step relation, its
    invariant, and the properties of sessions, links and sign-in. \<open>Http_Auth\<close>: the routes of \<open>http/auth.go\<close>, the
    account routes of \<open>http/settings.go\<close>, and \<open>http/errors.go\<close>.

  Anki packages and media.
  \<^item> \<open>Apkg_Proto\<close>: the protobuf decoder of \<open>apkg/protobuf.go\<close>. \<open>Apkg_Ir\<close>: \<open>ir.go\<close> and \<open>ankischema.go\<close>, the normalised package.
    \<open>Apkg_Archive\<close> and \<open>Apkg_Read\<close>: \<open>read.go\<close> and \<open>media.go\<close>, the reader with its limits; zip, zstd, SQLite and JSON are
    arguments. \<open>Media_Store\<close>: the blob store, its statements and the collector (\<open>internal/media\<close>), with what other
    requests commit during a sweep as an argument. \<open>Apkg_Import_Store\<close>: the statements of \<open>import.sql.go\<close>;
    \<open>Apkg_Import\<close>: \<open>apkg/dbwrite.go\<close>; \<open>Apkg_Import_Lemmas\<close>: what an import may do to the database.
    \<open>Apkg_Reimport\<close>: the ids an import resolves are look-ups in its result, so a second import finds every row.

  Content routes.
  \<^item> \<open>Deck_Settings\<close>: \<open>UpdateDeck\<close> of \<open>decks.sql.go\<close>, with the \<open>jsonb\<close> operators it uses, and what the readers of \<open>Preset\<close>
    make of the result. \<open>Content_Statements\<close>: the statements of \<open>notes.sql.go\<close>, \<open>flags.sql.go\<close> and \<open>user_fsrs_params.sql.go\<close>
    the content pages run. \<open>Http_Content\<close>: early returns, transactions, forms and the note-list cursor of
    \<open>internal/http\<close>. \<open>Http_Decks\<close>: the routes of \<open>decks.go\<close>, \<open>access.go\<close>, \<open>flags.go\<close> and \<open>pacing.go\<close>. \<open>Http_Deck_Lemmas\<close>:
    what saving the settings form does. \<open>Http_Notes\<close>: the routes of \<open>notes.go\<close>.
    \<open>Http_System\<close>: all these routes as one server, with the invariant of its database and what a deck that may not be
    seen looks like.

  \<^bold>\<open>What is proved\<close>

  \<^item> Scheduling: the stored schedule of a card is the replay of its log, so the order in which reviews
    arrive does not matter; a batch only appends to its caller's log, answers every event, and resubmitting
    it changes nothing; previews agree with grading; settings stay in range.
  \<^item> Concurrency: transactions that lock their keys in sorted order exclude each other and finish.
  \<^item> Calendar and budget: closed forms equal their reference counts, unlocking is cumulative, the daily
    budget is used within its ceilings, the mix of reviews and new cards is proportional within one card.
  \<^item> Content: in every reachable database the keys and references hold, every note has a card and every
    deck has somebody who may manage and delete it; editing a note keeps the schedules of the cards that
    stay; deleting a deck removes exactly its cards and the notes without others.
  \<^item> Rendering: cards are generated exactly for the cloze numbers that blank something; the section stack
    implements the tree reading of a template; only sanitised HTML and inert, scoped CSS is emitted.
  \<^item> Codecs: calendars, cursors, dates, decimal numbers and base64 are read back as they were written.
  \<^item> Study queue: a page holds only cards the user may study and that wait, each once, within the allowances
    and the day's total; following the cursors of an unchanged queue ends, and serves every card of the day once where the
    combined daily total is not what binds.
  \<^item> Note types: a structural edit keeps every card with its template and every schedule; an edit that is
    saved without a confirmation loses nothing.
  \<^item> Accounts: a limiter admits at most twice its limit in a window and refuses nobody below it; a password
    change or reset ends every older session and link, whatever runs in between; a reset link works once; a
    failed sign-in does not tell whether the account exists.
  \<^item> Anki packages: the protobuf decoder accepts exactly the bytes of a message; reading stays within its limits whatever the bytes
    are, and what is read is well formed; an import only adds rows and rewrites the importer's own decks, notes and cards,
    and importing the package again adds nothing.
  \<^item> Media: an undisturbed sweep deletes exactly what nothing refers to.
  \<^item> Deck settings: what the settings form gives is what the reviewer reads afterwards, and a blank field is as before.
  \<^item> Routes: whatever requests arrive, the content tables keep their keys and references; a deck one may not see cannot
    be told from one that is not there.

  \<^bold>\<open>Parameters, bounds and hypotheses\<close>

  Code outside the repository is a parameter: go-fsrs, argon2id, SHA-256 and MD5, the text form of a UUID, the HTML sanitising policy,
  \<open>html.UnescapeString\<close>, the CSS tokeniser's result, new row ids and the clock. Each property about them names what it
  relies on, and its witness instantiates it. A statement that the database refuses for a reason of its own
  (a lost connection, a serialisation failure) is refused in the model by \<open>cd_refuses\<close> or \<open>db_refuses\<close>; the constraints of
  \<open>migrations/\<close> that a statement can violate are written out, and a transaction that fails leaves the
  database as it was. Recursion is structural or has a termination proof, and
  the loops of the source that scan strings recurse on the rest of the string. Only \<open>follow\<close> (\<open>Study_Paging\<close>),
  a client that fetches page after page, takes fuel: the number of cards plus one is enough, because every
  page but the last serves a card, and the property says so.

  What other requests do between two statements of a request that are not in one transaction is an
  argument where it matters (\<open>en_others\<close> in \<open>Auth\<close>); a transaction is one step, and Postgres's isolation of
  overlapping transactions is not modelled beyond the locks of \<open>Locks\<close>.

  \<^bold>\<open>Not modelled\<close>

  The other HTTP handlers (\<open>internal/http\<close>: forms, calls of the parts above, templates), the pools, migrations and
  transaction plumbing of \<open>internal/db\<close>, the generated list and search queries no modelled function
  calls, the Anki package writer (\<open>apkg/dbexport.go\<close>, \<open>write.go\<close>), the commands under
  \<open>cmd/\<close> and \<open>scripts/\<close>, and the embedded assets. The manifest lists each with its reason.
\<close>

end
